(* ===== verification/Prelude.thy ===== *)
theory Prelude
  imports Main "HOL-Library.Word"
begin

text \<open>
  Shared vocabulary of the development: the status codes every component
  returns, the error-or-value type \<open>absl::StatusOr\<close> with its early-return
  combinators, fixed-width C++ integers, association-list views of hash maps,
  and the two generic interfaces used throughout: a state machine with an
  inductive invariant, and a codec with a decoding inverse.
\<close>

named_theorems state_frame
  \<open>equations saying which parts of a component's state an operation leaves alone\<close>

section \<open>Status codes and StatusOr\<close>

text \<open>
  The canonical codes of \<open>absl::StatusCode\<close> and \<open>grpc::StatusCode\<close> (the two
  enumerations have the same members). A status is modelled by its code; the
  human readable message carries no control flow anywhere in the sources.
\<close>

datatype status_code =
    OK | CANCELLED | UNKNOWN | INVALID_ARGUMENT | DEADLINE_EXCEEDED | NOT_FOUND
  | ALREADY_EXISTS | PERMISSION_DENIED | RESOURCE_EXHAUSTED | FAILED_PRECONDITION
  | ABORTED | OUT_OF_RANGE | UNIMPLEMENTED | INTERNAL | UNAVAILABLE | DATA_LOSS
  | UNAUTHENTICATED

type_synonym 'a status_or = "status_code + 'a"

text \<open>\<open>ASSIGN_OR_RETURN\<close>: continue with the value, or return the error.\<close>

definition bind_or :: "'e + 'a \<Rightarrow> ('a \<Rightarrow> 'e + 'b) \<Rightarrow> 'e + 'b" where
  "bind_or m f = (case m of Inl e \<Rightarrow> Inl e | Inr x \<Rightarrow> f x)"

text \<open>\<open>RETURN_IF_ERROR\<close> on a plain status.\<close>

definition return_if_error :: "status_code \<Rightarrow> 'a status_or \<Rightarrow> 'a status_or" where
  "return_if_error st k = (if st = OK then k else Inl st)"

definition status_of :: "'a status_or \<Rightarrow> status_code" where
  "status_of m = (case m of Inl e \<Rightarrow> e | Inr _ \<Rightarrow> OK)"

lemma bind_or_simps [simp]:
  "bind_or (Inl e) f = Inl e"
  "bind_or (Inr x) f = f x"
  by (simp_all add: bind_or_def)

lemma bind_or_eq_Inr [simp]:
  "bind_or m f = Inr y \<longleftrightarrow> (\<exists>x. m = Inr x \<and> f x = Inr y)"
  by (cases m) auto

lemma bind_or_eq_Inl:
  "bind_or m f = Inl e \<longleftrightarrow> m = Inl e \<or> (\<exists>x. m = Inr x \<and> f x = Inl e)"
  by (cases m) auto

lemma bind_or_cong [fundef_cong]:
  "m = m' \<Longrightarrow> (\<And>x. m' = Inr x \<Longrightarrow> f x = g x) \<Longrightarrow> bind_or m f = bind_or m' g"
  by (cases m') auto

lemma return_if_error_simps [simp]:
  "return_if_error OK k = k"
  "st \<noteq> OK \<Longrightarrow> return_if_error st k = Inl st"
  by (simp_all add: return_if_error_def)

lemma return_if_error_eq_Inr [simp]:
  "return_if_error st k = Inr y \<longleftrightarrow> st = OK \<and> k = Inr y"
  by (simp add: return_if_error_def)

lemma status_of_simps [simp]:
  "status_of (Inl e) = e"
  "status_of (Inr x) = OK"
  by (simp_all add: status_of_def)

text \<open>A loop that converts each element and returns on the first error.\<close>

fun map_or :: "('a \<Rightarrow> 'e + 'b) \<Rightarrow> 'a list \<Rightarrow> 'e + 'b list" where
  "map_or f [] = Inr []"
| "map_or f (x # xs) = bind_or (f x) (\<lambda>y. bind_or (map_or f xs) (\<lambda>ys. Inr (y # ys)))"

lemma map_or_cong [fundef_cong]:
  "xs = ys \<Longrightarrow> (\<And>x. x \<in> set ys \<Longrightarrow> f x = g x) \<Longrightarrow> map_or f xs = map_or g ys"
  by (induction ys arbitrary: xs) auto

lemma map_or_Inr_iff: "map_or f xs = Inr ys \<longleftrightarrow> list_all2 (\<lambda>x y. f x = Inr y) xs ys"
  by (induction xs arbitrary: ys) (auto simp: list_all2_Cons1)

lemma map_or_all_Inr:
  "(\<And>x. x \<in> set xs \<Longrightarrow> f x = Inr (g x)) \<Longrightarrow> map_or f xs = Inr (map g xs)"
  by (induction xs) auto

lemma map_or_inverse:
  "map_or f xs = Inr ys \<Longrightarrow> (\<And>x y. x \<in> set xs \<Longrightarrow> f x = Inr y \<Longrightarrow> g y = Inr x) \<Longrightarrow> map_or g ys = Inr xs"
  by (induction xs arbitrary: ys) auto

lemma map_or_length: "map_or f xs = Inr ys \<Longrightarrow> length ys = length xs"
  by (auto simp: map_or_Inr_iff dest: list_all2_lengthD)

text \<open>A loop that updates its state in each round and returns on the first error.\<close>

fun fold_or :: "('a \<Rightarrow> 's \<Rightarrow> 'e + 's) \<Rightarrow> 'a list \<Rightarrow> 's \<Rightarrow> 'e + 's" where
  "fold_or f [] s = Inr s"
| "fold_or f (x # xs) s = bind_or (f x s) (fold_or f xs)"

lemma fold_or_cong [fundef_cong]:
  "xs = ys \<Longrightarrow> s = t \<Longrightarrow> (\<And>x u. x \<in> set ys \<Longrightarrow> f x u = g x u) \<Longrightarrow> fold_or f xs s = fold_or g ys t"
proof (induction ys arbitrary: xs s t)
  case (Cons y ys)
  then show ?case by (cases "g y t") auto
qed simp

lemma fold_or_append: "fold_or f (xs @ ys) s = bind_or (fold_or f xs s) (fold_or f ys)"
proof (induction xs arbitrary: s)
  case (Cons x xs)
  then show ?case by (cases "f x s") auto
qed simp

lemma fold_or_invariant:
  assumes "fold_or f xs s = Inr t" "P s"
    and "\<And>x u v. x \<in> set xs \<Longrightarrow> P u \<Longrightarrow> f x u = Inr v \<Longrightarrow> P v"
  shows "P t"
  using assms
proof (induction xs arbitrary: s)
  case (Cons x xs)
  then obtain u where "f x s = Inr u" "fold_or f xs u = Inr t" by auto
  with Cons show ?case by (metis list.set_intros)
qed simp

lemma fold_or_filter_map:
  assumes "\<And>x u. x \<in> set xs \<Longrightarrow> f x u = (if p x then g (h x) u else Inr u)"
  shows "fold_or f xs s = fold_or g (map h (filter p xs)) s"
  using assms
proof (induction xs arbitrary: s)
  case (Cons x xs)
  then show ?case by (cases "g (h x) s") auto
qed simp

lemma fold_or_concat: "fold_or (\<lambda>x. fold_or g (h x)) xs s = fold_or g (concat (map h xs)) s"
proof (induction xs arbitrary: s)
  case (Cons x xs)
  then show ?case by (simp add: fold_or_append cong: bind_or_cong)
qed simp

lemma fold_or_move_to_front:
  assumes "P s" "\<And>x u v. x \<in> set (y # xs) \<Longrightarrow> P u \<Longrightarrow> f x u = Inr v \<Longrightarrow> P v"
    and "\<And>x u. x \<in> set xs \<Longrightarrow> P u \<Longrightarrow> bind_or (f x u) (f y) = bind_or (f y u) (f x)"
  shows "bind_or (fold_or f xs s) (f y) = bind_or (f y s) (fold_or f xs)"
  using assms
proof (induction xs arbitrary: s)
  case (Cons x xs)
  have "bind_or (fold_or f (x # xs) s) (f y) = bind_or (f x s) (\<lambda>u. bind_or (fold_or f xs u) (f y))"
    by (cases "f x s") auto
  also have "\<dots> = bind_or (f x s) (\<lambda>u. bind_or (f y u) (fold_or f xs))"
  proof (rule bind_or_cong)
    fix u assume "f x s = Inr u"
    with Cons.prems have "P u" by (meson list.set_intros)
    then show "bind_or (fold_or f xs u) (f y) = bind_or (f y u) (fold_or f xs)"
      by (rule Cons.IH) (use Cons.prems in \<open>auto simp del: bind_or_eq_Inr\<close>)
  qed simp
  also have "\<dots> = bind_or (bind_or (f x s) (f y)) (fold_or f xs)"
    by (cases "f x s") auto
  also have "\<dots> = bind_or (bind_or (f y s) (f x)) (fold_or f xs)"
    using Cons.prems by simp
  also have "\<dots> = bind_or (f y s) (fold_or f (x # xs))"
    by (cases "f y s") auto
  finally show ?case .
next
  case Nil
  then show ?case by (cases "f y s") auto
qed

lemma fold_or_error:
  "fold_or f xs s = Inl e \<Longrightarrow> (\<And>x u e. x \<in> set xs \<Longrightarrow> f x u = Inl e \<Longrightarrow> Q e) \<Longrightarrow> Q e"
  by (induction xs arbitrary: s) (auto simp: bind_or_eq_Inl)

lemma fold_or_pred_sum:
  assumes "P s" "\<And>x u v. x \<in> set xs \<Longrightarrow> P u \<Longrightarrow> f x u = Inr v \<Longrightarrow> P v"
    and "\<And>x u e. x \<in> set xs \<Longrightarrow> f x u = Inl e \<Longrightarrow> Q e"
  shows "pred_sum Q P (fold_or f xs s)"
proof (cases "fold_or f xs s")
  case (Inl e)
  with assms(3) show ?thesis by (auto intro: fold_or_error [OF Inl])
next
  case (Inr t)
  with assms(1,2) show ?thesis by (auto intro: fold_or_invariant [OF Inr])
qed

text \<open>
  Where the source has undefined behaviour, or throws an exception that ends the process, the
  outcome is \<open>None\<close>; an error that is returned is an outcome.
\<close>

type_synonym 'a outcome = "'a status_or option"

definition bind_outcome :: "'a outcome \<Rightarrow> ('a \<Rightarrow> 'b outcome) \<Rightarrow> 'b outcome" where
  "bind_outcome m f = (case m of None \<Rightarrow> None | Some (Inl e) \<Rightarrow> Some (Inl e) | Some (Inr x) \<Rightarrow> f x)"

lemma bind_outcome_simps [simp]:
  "bind_outcome None f = None"
  "bind_outcome (Some (Inl e)) f = Some (Inl e)"
  "bind_outcome (Some (Inr x)) f = f x"
  by (simp_all add: bind_outcome_def)

lemma bind_outcome_eq_Inr [simp]:
  "bind_outcome m f = Some (Inr y) \<longleftrightarrow> (\<exists>x. m = Some (Inr x) \<and> f x = Some (Inr y))"
  by (auto simp: bind_outcome_def split: option.splits sum.splits)

lemma bind_outcome_eq_Inl:
  "bind_outcome m f = Some (Inl e) \<longleftrightarrow> m = Some (Inl e) \<or> (\<exists>x. m = Some (Inr x) \<and> f x = Some (Inl e))"
  by (auto simp: bind_outcome_def split: option.splits sum.splits)

fun fold_outcome :: "('a \<Rightarrow> 's \<Rightarrow> 's outcome) \<Rightarrow> 'a list \<Rightarrow> 's \<Rightarrow> 's outcome" where
  "fold_outcome f [] s = Some (Inr s)"
| "fold_outcome f (x # xs) s = bind_outcome (f x s) (fold_outcome f xs)"

lemma fold_outcome_invariant:
  assumes "fold_outcome f xs s = Some (Inr t)" "P s"
    and "\<And>x u v. x \<in> set xs \<Longrightarrow> P u \<Longrightarrow> f x u = Some (Inr v) \<Longrightarrow> P v"
  shows "P t"
  using assms
proof (induction xs arbitrary: s)
  case (Cons x xs)
  then obtain u where "f x s = Some (Inr u)" "fold_outcome f xs u = Some (Inr t)" by auto
  with Cons show ?case by (metis list.set_intros)
qed simp

lemma map_of_rev_distinct: "distinct (map fst xs) \<Longrightarrow> map_of (rev xs) = map_of xs"
  by (rule map_of_inject_set [THEN iffD2]) (simp_all add: rev_map [symmetric])

section \<open>Fixed-width integers\<close>

text \<open>
  C++ conversions to a narrower signed type, on the mathematical integers:
  the value modulo \<open>2 ^ w\<close>, read as two's complement.
\<close>

definition to_int32 :: "int \<Rightarrow> int" where
  "to_int32 x = signed_take_bit 31 x"

definition to_int64 :: "int \<Rightarrow> int" where
  "to_int64 x = signed_take_bit 63 x"

lemma to_int32_bounds: "- (2 ^ 31) \<le> to_int32 x \<and> to_int32 x < 2 ^ 31"
  using signed_take_bit_int_greater_eq_minus_exp [of 31 x] signed_take_bit_int_less_exp [of 31 x]
  by (simp add: to_int32_def)

lemma to_int32_id: "- (2 ^ 31) \<le> x \<Longrightarrow> x < 2 ^ 31 \<Longrightarrow> to_int32 x = x"
  by (simp add: to_int32_def signed_take_bit_int_eq_self)

lemma to_int64_id: "- (2 ^ 63) \<le> x \<Longrightarrow> x < 2 ^ 63 \<Longrightarrow> to_int64 x = x"
  by (simp add: to_int64_def signed_take_bit_int_eq_self)

section \<open>State machines with an invariant\<close>

text \<open>
  The interface between a component's step relation and the properties of its
  runs: an invariant that holds initially and that every step keeps holds in
  every reachable state, and a quantity that no step decreases never decreases.
\<close>

locale invariant_machine =
  fixes initial :: "'s \<Rightarrow> bool"
    and step :: "'s \<Rightarrow> 's \<Rightarrow> bool"
    and inv :: "'s \<Rightarrow> bool"
  assumes inv_initial: "initial s \<Longrightarrow> inv s"
    and inv_step: "inv s \<Longrightarrow> step s t \<Longrightarrow> inv t"
begin

lemma inv_steps: "step\<^sup>*\<^sup>* s t \<Longrightarrow> inv s \<Longrightarrow> inv t"
  by (induction rule: rtranclp_induct) (auto intro: inv_step)

lemma inv_reachable: "initial s \<Longrightarrow> step\<^sup>*\<^sup>* s t \<Longrightarrow> inv t"
  by (blast intro: inv_steps inv_initial)

lemma steps_preserve:
  assumes "\<And>u v. inv u \<Longrightarrow> step u v \<Longrightarrow> R u v" and "\<And>u. R u u"
    and "\<And>u v w. R u v \<Longrightarrow> R v w \<Longrightarrow> R u w"
    and "inv s" and "step\<^sup>*\<^sup>* s t"
  shows "R s t"
  using assms(5,4)
proof (induction rule: rtranclp_induct)
  case base
  show ?case by (rule assms(2))
next
  case (step u v)
  then have "inv u" by (blast intro: inv_steps)
  with step show ?case by (blast intro: assms)
qed

end

section \<open>Codecs\<close>

text \<open>
  A codec on the values satisfying \<open>valid\<close>: decoding an encoded value gives
  the value back. Every textual and binary encoding of the development is an
  instance; what a codec gives for free is that the encoding loses nothing.
\<close>

locale codec =
  fixes encode :: "'v \<Rightarrow> 'e"
    and decode :: "'e \<Rightarrow> 'v status_or"
    and valid :: "'v \<Rightarrow> bool"
  assumes decode_encode: "valid x \<Longrightarrow> decode (encode x) = Inr x"
begin

lemma encode_inj: "valid x \<Longrightarrow> valid y \<Longrightarrow> encode x = encode y \<Longrightarrow> x = y"
  by (metis decode_encode sum.inject(2))

lemma encode_inj_on: "inj_on encode {x. valid x}"
  by (rule inj_onI) (simp add: encode_inj)

lemma map_or_decode: "list_all valid xs \<Longrightarrow> map_or decode (map encode xs) = Inr xs"
  by (induction xs) (auto simp: decode_encode)

end

end
