(* ===== verification/Sdn_Controller.thy ===== *)
theory Sdn_Controller
  imports Prelude
begin

text \<open>
  Controller arbitration of the P4Runtime server
  (\<open>p4rt_app/p4runtime/sdn_controller_manager.{h,cc}\<close>): connections, roles and
  election IDs, the choice of a primary per role, and the access checks every
  request passes.
\<close>

unbundle bit_operations_syntax

section \<open>Data\<close>

type_synonym role = "string option"
type_synonym election_id = "128 word option"

text \<open>\<open>absl::uint128\<close> from its two halves and back.\<close>

definition MakeUint128 :: "64 word \<Rightarrow> 64 word \<Rightarrow> 128 word" where
  "MakeUint128 high low = push_bit 64 (ucast high) OR ucast low"

definition Uint128High64 :: "128 word \<Rightarrow> 64 word" where
  "Uint128High64 x = ucast (drop_bit 64 x)"

definition Uint128Low64 :: "128 word \<Rightarrow> 64 word" where
  "Uint128Low64 x = ucast x"

record sdn_connection =
  conn_initialized :: bool
  conn_role_name :: role
  conn_election_id :: election_id

definition new_sdn_connection :: sdn_connection where
  "new_sdn_connection = \<lparr>conn_initialized = False, conn_role_name = None, conn_election_id = None\<rparr>"

definition Initialize :: "sdn_connection \<Rightarrow> sdn_connection" where
  "Initialize c = c\<lparr>conn_initialized := True\<rparr>"

definition IsInitialized :: "sdn_connection \<Rightarrow> bool" where
  "IsInitialized c = conn_initialized c"

definition SetElectionId :: "election_id \<Rightarrow> sdn_connection \<Rightarrow> sdn_connection" where
  "SetElectionId i c = c\<lparr>conn_election_id := i\<rparr>"

definition GetElectionId :: "sdn_connection \<Rightarrow> election_id" where
  "GetElectionId c = conn_election_id c"

definition SetRoleName :: "role \<Rightarrow> sdn_connection \<Rightarrow> sdn_connection" where
  "SetRoleName r c = c\<lparr>conn_role_name := r\<rparr>"

definition GetRoleName :: "sdn_connection \<Rightarrow> role" where
  "GetRoleName c = conn_role_name c"

lemmas connection_defs =
  new_sdn_connection_def Initialize_def IsInitialized_def SetElectionId_def GetElectionId_def
  SetRoleName_def GetRoleName_def

text \<open>Messages of the P4Runtime stream channel, with the fields the manager reads and writes.\<close>

record master_arbitration_update =
  mau_device_id :: "64 word"
  mau_role :: "string option"
  mau_election_id :: "(64 word \<times> 64 word) option"
  mau_status :: status_code

record packet_message =
  pkt_payload :: string
  pkt_metadata :: "(nat \<times> string) list"

datatype stream_message_response =
    ArbitrationUpdate master_arbitration_update
  | PacketIn packet_message
  | ErrorUpdate status_code "packet_message option"
  | UpdateNotSet

text \<open>
  The manager's fields. Connection objects are shared by pointer with the
  stream handlers, so they live in a store \<open>heap\<close> indexed by address; what the
  manager writes on each connection's gRPC stream is recorded in order.
\<close>

record sdn_controller_manager =
  device_id :: "64 word option"
  connections :: "nat list"
  election_id_past_by_role :: "role \<rightharpoonup> election_id"
  heap :: "nat \<Rightarrow> sdn_connection"
  grpc_written :: "(nat \<times> stream_message_response) list"

definition P4RUNTIME_ROLE_SDN_CONTROLLER :: string where
  "P4RUNTIME_ROLE_SDN_CONTROLLER = ''sdn_controller''"

definition role_receives_packet_in :: "role list" where
  "role_receives_packet_in = [Some P4RUNTIME_ROLE_SDN_CONTROLLER, None]"

definition init_manager :: sdn_controller_manager where
  "init_manager = \<lparr>device_id = None, connections = [], election_id_past_by_role = Map.empty,
     heap = (\<lambda>_. new_sdn_connection), grpc_written = []\<rparr>"

section \<open>Operations\<close>

abbreviation role_of :: "sdn_controller_manager \<Rightarrow> nat \<Rightarrow> role" where
  "role_of s c \<equiv> GetRoleName (heap s c)"

abbreviation elec_of :: "sdn_controller_manager \<Rightarrow> nat \<Rightarrow> election_id" where
  "elec_of s c \<equiv> GetElectionId (heap s c)"

text \<open>\<open>gutil::FindOrDefault(election_id_past_by_role_, role, nullopt)\<close>.\<close>

definition past_id :: "sdn_controller_manager \<Rightarrow> role \<Rightarrow> election_id" where
  "past_id s r = (case election_id_past_by_role s r of None \<Rightarrow> None | Some i \<Rightarrow> i)"

text \<open>
  \<open>election_id_past_by_role_[role]\<close>: \<open>operator[]\<close> of the hash map inserts an
  empty value when the key is missing.
\<close>

definition past_subscript :: "role \<Rightarrow> sdn_controller_manager \<Rightarrow> election_id \<times> sdn_controller_manager" where
  "past_subscript r s =
     (case election_id_past_by_role s r of
        Some i \<Rightarrow> (i, s)
      | None \<Rightarrow> (None, s\<lparr>election_id_past_by_role := (election_id_past_by_role s)(r \<mapsto> None)\<rparr>))"

definition VerifyElectionIdIsUnused ::
  "role \<Rightarrow> election_id \<Rightarrow> sdn_controller_manager \<Rightarrow> nat \<Rightarrow> status_code" where
  "VerifyElectionIdIsUnused r i s current =
     (if i = None then OK
      else if list_ex (\<lambda>c. c \<noteq> current \<and> role_of s c = r \<and> elec_of s c = i) (connections s)
      then INVALID_ARGUMENT else OK)"

definition VerifyElectionIdIsActive ::
  "role \<Rightarrow> election_id \<Rightarrow> sdn_controller_manager \<Rightarrow> status_code" where
  "VerifyElectionIdIsActive r i s =
     (if list_ex (\<lambda>c. role_of s c = r \<and> elec_of s c = i) (connections s)
      then OK else PERMISSION_DENIED)"

definition SendStreamMessageResponse ::
  "nat \<Rightarrow> stream_message_response \<Rightarrow> sdn_controller_manager \<Rightarrow> sdn_controller_manager" where
  "SendStreamMessageResponse c resp s = s\<lparr>grpc_written := grpc_written s @ [(c, resp)]\<rparr>"

definition PrimaryConnectionExists ::
  "role \<Rightarrow> sdn_controller_manager \<Rightarrow> bool \<times> sdn_controller_manager" where
  "PrimaryConnectionExists r s =
     (let (past, s') = past_subscript r s
      in (list_ex (\<lambda>c. role_of s' c = r \<and> elec_of s' c = past) (connections s') \<and> past \<noteq> None,
          s'))"

definition SendArbitrationResponse ::
  "nat \<Rightarrow> sdn_controller_manager \<Rightarrow> sdn_controller_manager" where
  "SendArbitrationResponse c s =
     (let r = role_of s c;
          (past, s1) = past_subscript r s;
          (primary_exists, s2) = PrimaryConnectionExists r s1;
          resp = \<lparr>mau_device_id = (case device_id s of Some d \<Rightarrow> d | None \<Rightarrow> 0),
                  mau_role = r,
                  mau_election_id = map_option (\<lambda>i. (Uint128High64 i, Uint128Low64 i)) past,
                  mau_status =
                    (if primary_exists then
                       (if past = elec_of s2 c then OK else ALREADY_EXISTS)
                     else NOT_FOUND)\<rparr>
      in SendStreamMessageResponse c (ArbitrationUpdate resp) s2)"

definition InformConnectionsAboutPrimaryChange ::
  "role \<Rightarrow> sdn_controller_manager \<Rightarrow> sdn_controller_manager" where
  "InformConnectionsAboutPrimaryChange r s =
     foldl (\<lambda>s c. if role_of s c = r then SendArbitrationResponse c s else s) s (connections s)"

text \<open>The first arbitration message of a connection.\<close>

definition arbitration_new_connection ::
  "master_arbitration_update \<Rightarrow> nat \<Rightarrow> 64 word \<Rightarrow> role \<Rightarrow> election_id \<Rightarrow>
   sdn_controller_manager \<Rightarrow> sdn_controller_manager status_or" where
  "arbitration_new_connection upd c dev r new_id s =
     (if mau_device_id upd \<noteq> dev then Inl NOT_FOUND
      else return_if_error (VerifyElectionIdIsUnused r new_id s c)
        (Inr (s\<lparr>heap := (heap s)(c := Initialize (SetElectionId new_id (SetRoleName r (heap s c)))),
                connections := connections s @ [c]\<rparr>)))"

text \<open>A later arbitration message of an established connection.\<close>

definition arbitration_update_connection ::
  "master_arbitration_update \<Rightarrow> nat \<Rightarrow> 64 word \<Rightarrow> role \<Rightarrow> election_id \<Rightarrow>
   sdn_controller_manager \<Rightarrow> sdn_controller_manager status_or" where
  "arbitration_update_connection upd c dev r new_id s =
     (if mau_device_id upd \<noteq> dev then Inl FAILED_PRECONDITION
      else if r \<noteq> role_of s c then Inl FAILED_PRECONDITION
      else return_if_error (VerifyElectionIdIsUnused r new_id s c)
        (Inr (s\<lparr>heap := (heap s)(c := SetElectionId new_id (heap s c))\<rparr>)))"

text \<open>The check for a change of primary, and who is told about it.\<close>

definition arbitration_notify ::
  "nat \<Rightarrow> role \<Rightarrow> election_id \<Rightarrow> election_id \<Rightarrow> sdn_controller_manager \<Rightarrow> sdn_controller_manager" where
  "arbitration_notify c r old_id new_id s =
     (let (past, s1) = past_subscript r s;
          was_primary = (old_id \<noteq> None \<and> old_id = past);
          is_new_primary = (case new_id of None \<Rightarrow> False
             | Some n \<Rightarrow> (case past of None \<Rightarrow> True | Some p \<Rightarrow> n \<ge> p))
      in if is_new_primary then
           InformConnectionsAboutPrimaryChange r
             (s1\<lparr>election_id_past_by_role := (election_id_past_by_role s1)(r \<mapsto> new_id)\<rparr>)
         else if was_primary then InformConnectionsAboutPrimaryChange r s1
         else SendArbitrationResponse c s1)"

definition arbitration_role :: "master_arbitration_update \<Rightarrow> role" where
  "arbitration_role upd =
     (case mau_role upd of Some n \<Rightarrow> if n \<noteq> [] then Some n else None | None \<Rightarrow> None)"

definition arbitration_election_id :: "master_arbitration_update \<Rightarrow> election_id" where
  "arbitration_election_id upd = map_option (\<lambda>(h, l). MakeUint128 h l) (mau_election_id upd)"

definition HandleArbitrationUpdate ::
  "master_arbitration_update \<Rightarrow> nat \<Rightarrow> sdn_controller_manager \<Rightarrow>
   status_code \<times> sdn_controller_manager" where
  "HandleArbitrationUpdate upd c s =
     (case device_id s of
        None \<Rightarrow> (FAILED_PRECONDITION, s)
      | Some dev \<Rightarrow>
          (let r = arbitration_role upd;
               old_id = elec_of s c;
               new_id = arbitration_election_id upd;
               new_connection = (\<not> IsInitialized (heap s c))
           in case (if new_connection then arbitration_new_connection upd c dev r new_id s
                    else arbitration_update_connection upd c dev r new_id s) of
                Inl e \<Rightarrow> (e, s)
              | Inr s1 \<Rightarrow> (OK, arbitration_notify c r old_id new_id s1)))"

definition Disconnect :: "nat \<Rightarrow> sdn_controller_manager \<Rightarrow> sdn_controller_manager" where
  "Disconnect c s =
     (if \<not> IsInitialized (heap s c) then s
      else let s1 = s\<lparr>connections := remove1 c (connections s)\<rparr>
           in if elec_of s1 c = None then s1
              else let (past, s2) = past_subscript (role_of s1 c) s1
                   in if elec_of s1 c = past
                      then InformConnectionsAboutPrimaryChange (role_of s2 c) s2 else s2)"

definition SetDeviceId ::
  "64 word \<Rightarrow> sdn_controller_manager \<Rightarrow> status_code \<times> sdn_controller_manager" where
  "SetDeviceId d s =
     (if device_id s = Some d then (OK, s)
      else if connections s \<noteq> [] then (FAILED_PRECONDITION, s)
      else if d = 0 then (OK, s\<lparr>device_id := None\<rparr>)
      else (OK, s\<lparr>device_id := Some d\<rparr>))"

definition GetDeviceId :: "sdn_controller_manager \<Rightarrow> 64 word option" where
  "GetDeviceId s = device_id s"

definition AllowMutableRequest ::
  "64 word option \<Rightarrow> role \<Rightarrow> election_id \<Rightarrow> sdn_controller_manager \<Rightarrow> status_code" where
  "AllowMutableRequest dev r i s =
     (if dev = None then NOT_FOUND
      else if dev \<noteq> device_id s then NOT_FOUND
      else if i = None then PERMISSION_DENIED
      else case election_id_past_by_role s r of
             None \<Rightarrow> PERMISSION_DENIED
           | Some past \<Rightarrow>
               if i \<noteq> past then PERMISSION_DENIED else VerifyElectionIdIsActive r i s)"

definition AllowNonMutableRequest ::
  "64 word option \<Rightarrow> sdn_controller_manager \<Rightarrow> status_code" where
  "AllowNonMutableRequest dev s =
     (if dev = None then NOT_FOUND else if dev \<noteq> device_id s then NOT_FOUND else OK)"

text \<open>The fields of the requests that the access checks read.\<close>

record mutable_request =
  req_device_id :: "64 word"
  req_role :: string
  req_election_id :: "(64 word \<times> 64 word) option"

definition request_device :: "64 word \<Rightarrow> 64 word option" where
  "request_device d = (if d \<noteq> 0 then Some d else None)"

definition AllowRequest_Write :: "mutable_request \<Rightarrow> sdn_controller_manager \<Rightarrow> status_code" where
  "AllowRequest_Write req s =
     AllowMutableRequest (request_device (req_device_id req))
       (if req_role req \<noteq> [] then Some (req_role req) else None)
       (map_option (\<lambda>(h, l). MakeUint128 h l) (req_election_id req)) s"

definition AllowRequest_SetForwardingPipelineConfig ::
  "mutable_request \<Rightarrow> sdn_controller_manager \<Rightarrow> status_code" where
  "AllowRequest_SetForwardingPipelineConfig req s =
     AllowMutableRequest (request_device (req_device_id req))
       (if req_role req \<noteq> [] then Some (req_role req) else None)
       (map_option (\<lambda>(h, l). MakeUint128 h l) (req_election_id req)) s"

definition AllowRequest_Read :: "64 word \<Rightarrow> sdn_controller_manager \<Rightarrow> status_code" where
  "AllowRequest_Read dev s = AllowNonMutableRequest (request_device dev) s"

definition AllowRequest_GetForwardingPipelineConfig ::
  "64 word \<Rightarrow> sdn_controller_manager \<Rightarrow> status_code" where
  "AllowRequest_GetForwardingPipelineConfig dev s = AllowNonMutableRequest (request_device dev) s"

definition AllowRequest_Capabilities :: "64 word \<Rightarrow> sdn_controller_manager \<Rightarrow> status_code" where
  "AllowRequest_Capabilities dev s =
     (if dev = 0 then UNIMPLEMENTED else AllowNonMutableRequest (Some dev) s)"

text \<open>The loop of \<open>SendStreamMessageToPrimary\<close> over the active connections.\<close>

fun send_to_primaries ::
  "stream_message_response \<Rightarrow> nat list \<Rightarrow> bool \<Rightarrow> sdn_controller_manager \<Rightarrow>
   bool \<times> sdn_controller_manager" where
  "send_to_primaries resp [] found s = (found, s)"
| "send_to_primaries resp (c # cs) found s =
     (let r = role_of s c; primary_id = past_id s r
      in if primary_id \<noteq> None \<and> primary_id = elec_of s c \<and> r \<in> set role_receives_packet_in
         then send_to_primaries resp cs True (SendStreamMessageResponse c resp s)
         else send_to_primaries resp cs found s)"

definition SendStreamMessageToPrimary ::
  "stream_message_response \<Rightarrow> sdn_controller_manager \<Rightarrow> status_code \<times> sdn_controller_manager" where
  "SendStreamMessageToPrimary resp s =
     (let (found, s') = send_to_primaries resp (connections s) False s
      in if \<not> found then (FAILED_PRECONDITION, s') else (OK, s'))"

definition SendPacketInToPrimary ::
  "stream_message_response \<Rightarrow> sdn_controller_manager \<Rightarrow> status_code \<times> sdn_controller_manager" where
  "SendPacketInToPrimary resp s =
     (case resp of PacketIn _ \<Rightarrow> SendStreamMessageToPrimary resp s | _ \<Rightarrow> (INVALID_ARGUMENT, s))"


section \<open>What the operations leave alone\<close>

lemma past_id_subscript [simp]:
  "fst (past_subscript r s) = past_id s r"
  "past_id (snd (past_subscript r s)) r' = past_id s r'"
  by (auto simp: past_subscript_def past_id_def split: option.splits)

lemma past_subscript_frame [state_frame]:
  "device_id (snd (past_subscript r s)) = device_id s"
  "connections (snd (past_subscript r s)) = connections s"
  "heap (snd (past_subscript r s)) = heap s"
  "grpc_written (snd (past_subscript r s)) = grpc_written s"
  by (auto simp: past_subscript_def split: option.splits)

lemma past_id_mono_dom [simp]:
  "election_id_past_by_role (snd (past_subscript r s)) r = Some (past_id s r)"
  by (auto simp: past_subscript_def past_id_def split: option.splits)

lemma past_subscript_pair: "past_subscript r s = (past_id s r, snd (past_subscript r s))"
  by (metis past_id_subscript(1) prod.collapse)

lemma SendStreamMessageResponse_frame [state_frame]:
  "device_id (SendStreamMessageResponse c m s) = device_id s"
  "connections (SendStreamMessageResponse c m s) = connections s"
  "heap (SendStreamMessageResponse c m s) = heap s"
  "election_id_past_by_role (SendStreamMessageResponse c m s) = election_id_past_by_role s"
  "grpc_written (SendStreamMessageResponse c m s) = grpc_written s @ [(c, m)]"
  "past_id (SendStreamMessageResponse c m s) r = past_id s r"
  by (simp_all add: SendStreamMessageResponse_def past_id_def)

text \<open>An active primary for a role, as the manager decides it.\<close>

definition has_primary :: "sdn_controller_manager \<Rightarrow> role \<Rightarrow> bool" where
  "has_primary s r \<longleftrightarrow>
     past_id s r \<noteq> None \<and> (\<exists>c \<in> set (connections s). role_of s c = r \<and> elec_of s c = past_id s r)"

text \<open>The message an active connection is sent about the primary of its role.\<close>

definition arbitration_response :: "sdn_controller_manager \<Rightarrow> nat \<Rightarrow> master_arbitration_update" where
  "arbitration_response s c =
     \<lparr>mau_device_id = (case device_id s of Some d \<Rightarrow> d | None \<Rightarrow> 0),
      mau_role = role_of s c,
      mau_election_id = map_option (\<lambda>i. (Uint128High64 i, Uint128Low64 i)) (past_id s (role_of s c)),
      mau_status = (if has_primary s (role_of s c) then
                      (if past_id s (role_of s c) = elec_of s c then OK else ALREADY_EXISTS)
                    else NOT_FOUND)\<rparr>"

lemma PrimaryConnectionExists_eq:
  "PrimaryConnectionExists r s = (has_primary s r, snd (past_subscript r s))"
  unfolding PrimaryConnectionExists_def
  by (subst past_subscript_pair)
     (auto simp: has_primary_def list_ex_iff state_frame)

lemma has_primary_subscript [simp]:
  "has_primary (snd (past_subscript r s)) r' = has_primary s r'"
  by (simp add: has_primary_def state_frame)

lemma SendArbitrationResponse_eq:
  "SendArbitrationResponse c s =
     SendStreamMessageResponse c (ArbitrationUpdate (arbitration_response s c))
       (snd (past_subscript (role_of s c) (snd (past_subscript (role_of s c) s))))"
  unfolding SendArbitrationResponse_def Let_def
  by (subst past_subscript_pair)
     (simp add: PrimaryConnectionExists_eq arbitration_response_def state_frame)

lemma SendArbitrationResponse_frame [state_frame]:
  "device_id (SendArbitrationResponse c s) = device_id s"
  "connections (SendArbitrationResponse c s) = connections s"
  "heap (SendArbitrationResponse c s) = heap s"
  "past_id (SendArbitrationResponse c s) r = past_id s r"
  "grpc_written (SendArbitrationResponse c s) =
     grpc_written s @ [(c, ArbitrationUpdate (arbitration_response s c))]"
  by (simp_all add: SendArbitrationResponse_eq state_frame)

lemma arbitration_response_cong:
  assumes "device_id s = device_id t" "connections s = connections t" "heap s = heap t"
    and "past_id s = past_id t"
  shows "arbitration_response s c = arbitration_response t c"
  using assms by (simp add: arbitration_response_def has_primary_def)

lemma inform_fold:
  fixes r :: role
  defines "send \<equiv> \<lambda>s c. if role_of s c = r then SendArbitrationResponse c s else s"
  shows "device_id (foldl send s cs) = device_id s"
    and "connections (foldl send s cs) = connections s"
    and "heap (foldl send s cs) = heap s"
    and "past_id (foldl send s cs) = past_id s"
    and "grpc_written (foldl send s cs) = grpc_written s @
           map (\<lambda>c. (c, ArbitrationUpdate (arbitration_response s c)))
             (filter (\<lambda>c. role_of s c = r) cs)"
proof -
  have send: "device_id (send s c) = device_id s \<and> connections (send s c) = connections s \<and>
      heap (send s c) = heap s \<and> past_id (send s c) = past_id s \<and>
      arbitration_response (send s c) = arbitration_response s" for s c
    unfolding send_def by (auto simp: state_frame fun_eq_iff intro!: arbitration_response_cong)
  have written: "grpc_written (send s c) = grpc_written s @
      (if role_of s c = r then [(c, ArbitrationUpdate (arbitration_response s c))] else [])" for s c
    unfolding send_def by (auto simp: state_frame)
  have "device_id (foldl send s cs) = device_id s \<and> connections (foldl send s cs) = connections s \<and>
      heap (foldl send s cs) = heap s \<and> past_id (foldl send s cs) = past_id s \<and>
      grpc_written (foldl send s cs) = grpc_written s @
           map (\<lambda>c. (c, ArbitrationUpdate (arbitration_response s c)))
             (filter (\<lambda>c. role_of s c = r) cs)"
    by (induction cs arbitrary: s) (auto simp: send written)
  then show "device_id (foldl send s cs) = device_id s"
    and "connections (foldl send s cs) = connections s"
    and "heap (foldl send s cs) = heap s"
    and "past_id (foldl send s cs) = past_id s"
    and "grpc_written (foldl send s cs) = grpc_written s @
           map (\<lambda>c. (c, ArbitrationUpdate (arbitration_response s c)))
             (filter (\<lambda>c. role_of s c = r) cs)"
    by blast+
qed

lemma Inform_frame [state_frame]:
  "device_id (InformConnectionsAboutPrimaryChange r s) = device_id s"
  "connections (InformConnectionsAboutPrimaryChange r s) = connections s"
  "heap (InformConnectionsAboutPrimaryChange r s) = heap s"
  "past_id (InformConnectionsAboutPrimaryChange r s) = past_id s"
  "grpc_written (InformConnectionsAboutPrimaryChange r s) = grpc_written s @
     map (\<lambda>c. (c, ArbitrationUpdate (arbitration_response s c)))
       (filter (\<lambda>c. role_of s c = r) (connections s))"
  by (simp_all add: InformConnectionsAboutPrimaryChange_def inform_fold)

section \<open>The effect of an arbitration update\<close>

definition takes_over :: "election_id \<Rightarrow> election_id \<Rightarrow> bool" where
  "takes_over new past \<longleftrightarrow>
     (case new of None \<Rightarrow> False | Some n \<Rightarrow> (case past of None \<Rightarrow> True | Some p \<Rightarrow> p \<le> n))"

lemma arbitration_notify_eq:
  "arbitration_notify c r old_id new_id s =
     (let s1 = snd (past_subscript r s)
      in if takes_over new_id (past_id s r) then
           InformConnectionsAboutPrimaryChange r
             (s1\<lparr>election_id_past_by_role := (election_id_past_by_role s1)(r \<mapsto> new_id)\<rparr>)
         else if old_id \<noteq> None \<and> old_id = past_id s r then InformConnectionsAboutPrimaryChange r s1
         else SendArbitrationResponse c s1)"
  unfolding arbitration_notify_def
  by (subst past_subscript_pair) (simp add: takes_over_def Let_def)

lemma arbitration_notify_frame [state_frame]:
  "device_id (arbitration_notify c r old_id new_id s) = device_id s"
  "connections (arbitration_notify c r old_id new_id s) = connections s"
  "heap (arbitration_notify c r old_id new_id s) = heap s"
  by (simp_all add: arbitration_notify_eq Let_def state_frame)

lemma past_id_set [simp]:
  "past_id (s\<lparr>election_id_past_by_role := (election_id_past_by_role s)(r \<mapsto> i)\<rparr>) = (past_id s)(r := i)"
  by (auto simp: past_id_def fun_eq_iff)

lemma past_id_snd_subscript [simp]: "past_id (snd (past_subscript r s)) = past_id s"
  by (simp add: fun_eq_iff)

lemma past_id_frame [simp]:
  "past_id (s\<lparr>heap := h\<rparr>) = past_id s"
  "past_id (s\<lparr>connections := cs\<rparr>) = past_id s"
  "past_id (s\<lparr>device_id := d\<rparr>) = past_id s"
  by (simp_all add: past_id_def fun_eq_iff)

lemma past_id_notify [state_frame]:
  "past_id (arbitration_notify c r old_id new_id s) =
     (past_id s)(r := if takes_over new_id (past_id s r) then new_id else past_id s r)"
  by (auto simp: arbitration_notify_eq Let_def state_frame fun_eq_iff)

lemma Disconnect_frame [state_frame]:
  "device_id (Disconnect c s) = device_id s"
  "heap (Disconnect c s) = heap s"
  "past_id (Disconnect c s) = past_id s"
  "connections (Disconnect c s) =
     (if IsInitialized (heap s c) then remove1 c (connections s) else connections s)"
  by (auto simp: Disconnect_def Let_def state_frame fun_eq_iff split: prod.splits
      dest!: arg_cong [where f = snd])

text \<open>
  Every accepted update establishes the connection with the requested role and
  election ID and then runs the notification step; a rejected one changes
  nothing.
\<close>

definition with_election_id :: "nat \<Rightarrow> role \<Rightarrow> election_id \<Rightarrow> sdn_controller_manager \<Rightarrow> sdn_controller_manager" where
  "with_election_id c r i s =
     (if IsInitialized (heap s c) then s\<lparr>heap := (heap s)(c := SetElectionId i (heap s c))\<rparr>
      else s\<lparr>heap := (heap s)(c := Initialize (SetElectionId i (SetRoleName r (heap s c)))),
             connections := connections s @ [c]\<rparr>)"

lemma HandleArbitrationUpdate_cases:
  assumes "HandleArbitrationUpdate upd c s = (st, t)"
  obtains (rejected) "st \<noteq> OK" "t = s"
  | (accepted) "st = OK" "device_id s = Some (mau_device_id upd)"
      "IsInitialized (heap s c) \<Longrightarrow> role_of s c = arbitration_role upd"
      "VerifyElectionIdIsUnused (arbitration_role upd) (arbitration_election_id upd) s c = OK"
      "t = arbitration_notify c (arbitration_role upd) (elec_of s c) (arbitration_election_id upd)
             (with_election_id c (arbitration_role upd) (arbitration_election_id upd) s)"
  using assms
  unfolding HandleArbitrationUpdate_def arbitration_new_connection_def
    arbitration_update_connection_def return_if_error_def with_election_id_def Let_def
    VerifyElectionIdIsUnused_def
  by (auto split: option.splits if_splits)

section \<open>The arbitration state machine and its invariant\<close>

inductive sdn_step :: "sdn_controller_manager \<Rightarrow> sdn_controller_manager \<Rightarrow> bool" where
  connect: "c \<notin> set (connections s) \<Longrightarrow> sdn_step s (s\<lparr>heap := (heap s)(c := new_sdn_connection)\<rparr>)"
| arbitrate: "HandleArbitrationUpdate upd c s = (st, t) \<Longrightarrow> sdn_step s t"
| disconnect: "sdn_step s (Disconnect c s)"
| set_device_id: "SetDeviceId d s = (st, t) \<Longrightarrow> sdn_step s t"
| packet_in: "SendPacketInToPrimary m s = (st, t) \<Longrightarrow> sdn_step s t"

definition active_ids_unique :: "sdn_controller_manager \<Rightarrow> bool" where
  "active_ids_unique s \<longleftrightarrow>
     (\<forall>c \<in> set (connections s). \<forall>d \<in> set (connections s).
        role_of s c = role_of s d \<longrightarrow> elec_of s c = elec_of s d \<longrightarrow> elec_of s c \<noteq> None \<longrightarrow> c = d)"

definition active_ids_bounded :: "sdn_controller_manager \<Rightarrow> bool" where
  "active_ids_bounded s \<longleftrightarrow>
     (\<forall>c \<in> set (connections s). \<forall>e. elec_of s c = Some e \<longrightarrow>
        (\<exists>m. past_id s (role_of s c) = Some m \<and> e \<le> m))"

definition sdn_inv :: "sdn_controller_manager \<Rightarrow> bool" where
  "sdn_inv s \<longleftrightarrow>
     distinct (connections s) \<and>
     (\<forall>c \<in> set (connections s). IsInitialized (heap s c)) \<and>
     active_ids_unique s \<and> active_ids_bounded s \<and>
     (connections s \<noteq> [] \<longrightarrow> device_id s \<noteq> None) \<and> device_id s \<noteq> Some 0"

lemma sdn_inv_init: "sdn_inv init_manager"
  by (simp add: sdn_inv_def init_manager_def active_ids_unique_def active_ids_bounded_def)

lemma with_election_id_simps [simp]:
  "device_id (with_election_id c r i s) = device_id s"
  "past_id (with_election_id c r i s) = past_id s"
  "elec_of (with_election_id c r i s) d = (if d = c then i else elec_of s d)"
  "role_of (with_election_id c r i s) d =
     (if d = c \<and> \<not> IsInitialized (heap s c) then r else role_of s d)"
  "IsInitialized (heap (with_election_id c r i s) d) \<longleftrightarrow> d = c \<or> IsInitialized (heap s d)"
  "connections (with_election_id c r i s) =
     (if IsInitialized (heap s c) then connections s else connections s @ [c])"
  by (auto simp: with_election_id_def connection_defs)

lemma active_ids_unique_arbitration:
  assumes "active_ids_unique s" "VerifyElectionIdIsUnused r i s c = OK"
    and "IsInitialized (heap s c) \<Longrightarrow> role_of s c = r"
    and "\<forall>c \<in> set (connections s). IsInitialized (heap s c)"
  shows "active_ids_unique (with_election_id c r i s)"
  using assms unfolding active_ids_unique_def VerifyElectionIdIsUnused_def
  by (auto simp: list_ex_iff split: if_splits)

lemma takes_over_bounds:
  "i = Some e \<Longrightarrow> \<exists>m. (if takes_over i past then i else past) = Some m \<and> e \<le> m"
  by (auto simp: takes_over_def split: option.splits)

lemma takes_over_keeps_bound:
  "past = Some m \<Longrightarrow> e \<le> m \<Longrightarrow> \<exists>m. (if takes_over i past then i else past) = Some m \<and> e \<le> m"
  by (auto simp: takes_over_def split: option.splits)

lemma active_ids_bounded_arbitration:
  assumes "active_ids_bounded s" "IsInitialized (heap s c) \<Longrightarrow> role_of s c = r"
    and "\<forall>c \<in> set (connections s). IsInitialized (heap s c)"
  shows "active_ids_bounded (arbitration_notify c r old i (with_election_id c r i s))"
proof -
  have "\<exists>m. (if takes_over i (past_id s r) then i else past_id s r) = Some m \<and> e \<le> m"
    if "d \<in> set (connections s)" "role_of s d = r" "elec_of s d = Some e" for d e
    using assms(1) that takes_over_keeps_bound [of "past_id s r"]
    unfolding active_ids_bounded_def by blast
  then show ?thesis
    using assms takes_over_bounds [of i _ "past_id s r"]
    unfolding active_ids_bounded_def by (auto simp: state_frame)
qed

lemma sdn_inv_arbitrate:
  assumes "sdn_inv s" "HandleArbitrationUpdate upd c s = (st, t)"
  shows "sdn_inv t"
  using assms(2)
proof (cases rule: HandleArbitrationUpdate_cases)
  case rejected
  with assms(1) show ?thesis by simp
next
  case accepted
  let ?r = "arbitration_role upd" and ?i = "arbitration_election_id upd"
  let ?w = "with_election_id c ?r ?i s"
  from assms(1) have init: "\<forall>c \<in> set (connections s). IsInitialized (heap s c)"
    and uniq: "active_ids_unique s" and bnd: "active_ids_bounded s"
    by (auto simp: sdn_inv_def)
  have "active_ids_unique ?w"
    using uniq accepted(4) accepted(3) init by (rule active_ids_unique_arbitration)
  then have "active_ids_unique t"
    by (simp add: accepted(5) active_ids_unique_def state_frame)
  moreover have "active_ids_bounded t"
    unfolding accepted(5) using bnd accepted(3) init by (rule active_ids_bounded_arbitration)
  ultimately show ?thesis
    using assms(1) init accepted(2)
    by (auto simp: sdn_inv_def accepted(5) state_frame)
qed

lemma sdn_inv_disconnect: "sdn_inv s \<Longrightarrow> sdn_inv (Disconnect c s)"
  unfolding sdn_inv_def active_ids_unique_def active_ids_bounded_def
  by (auto simp: state_frame dest: notin_set_remove1 in_set_remove1 [THEN iffD1, rotated])

lemma sdn_inv_set_device_id:
  "sdn_inv s \<Longrightarrow> SetDeviceId d s = (st, t) \<Longrightarrow> sdn_inv t"
  unfolding sdn_inv_def active_ids_unique_def active_ids_bounded_def SetDeviceId_def
  by (auto split: if_splits)

lemma sdn_inv_connect:
  "sdn_inv s \<Longrightarrow> c \<notin> set (connections s) \<Longrightarrow>
   sdn_inv (s\<lparr>heap := (heap s)(c := new_sdn_connection)\<rparr>)"
  unfolding sdn_inv_def active_ids_unique_def active_ids_bounded_def by auto

text \<open>Packet delivery: the message goes to the listed primaries, in connection order.\<close>

definition receives_packet_in :: "sdn_controller_manager \<Rightarrow> nat \<Rightarrow> bool" where
  "receives_packet_in s c \<longleftrightarrow>
     past_id s (role_of s c) \<noteq> None \<and> past_id s (role_of s c) = elec_of s c \<and>
     role_of s c \<in> set role_receives_packet_in"

lemma receives_packet_in_frame [simp]:
  "receives_packet_in (SendStreamMessageResponse c m s) = receives_packet_in s"
  by (simp add: receives_packet_in_def fun_eq_iff state_frame)

lemma send_to_primaries_Cons:
  "send_to_primaries m (c # cs) found s =
     (if receives_packet_in s c then send_to_primaries m cs True (SendStreamMessageResponse c m s)
      else send_to_primaries m cs found s)"
  by (auto simp: receives_packet_in_def Let_def)

lemma send_to_primaries_eq:
  "send_to_primaries m cs found s =
     (found \<or> list_ex (receives_packet_in s) cs,
      s\<lparr>grpc_written := grpc_written s @ map (\<lambda>c. (c, m)) (filter (receives_packet_in s) cs)\<rparr>)"
proof (induction cs arbitrary: found s)
  case (Cons c cs)
  then show ?case
    by (auto simp: send_to_primaries_Cons SendStreamMessageResponse_frame simp del: send_to_primaries.simps)
qed simp

lemma SendPacketInToPrimary_frame [state_frame]:
  "SendPacketInToPrimary m s = (st, t) \<Longrightarrow>
   \<exists>w. t = s\<lparr>grpc_written := grpc_written s @ w\<rparr>"
  by (auto simp: SendPacketInToPrimary_def SendStreamMessageToPrimary_def send_to_primaries_eq
      split: stream_message_response.splits if_splits intro: exI [of _ "[]"])

lemma past_id_written [simp]: "past_id (s\<lparr>grpc_written := w\<rparr>) = past_id s"
  by (simp add: past_id_def fun_eq_iff)

lemma sdn_inv_written: "sdn_inv (s\<lparr>grpc_written := w\<rparr>) = sdn_inv s"
  by (simp add: sdn_inv_def active_ids_unique_def active_ids_bounded_def)

lemma sdn_inv_step: "sdn_inv s \<Longrightarrow> sdn_step s t \<Longrightarrow> sdn_inv t"
  by (erule sdn_step.cases)
     (auto intro: sdn_inv_connect sdn_inv_arbitrate sdn_inv_disconnect sdn_inv_set_device_id
       dest!: SendPacketInToPrimary_frame simp: sdn_inv_written)

interpretation sdn: invariant_machine "\<lambda>s. s = init_manager" sdn_step sdn_inv
  by unfold_locales (auto intro: sdn_inv_init sdn_inv_step)

section \<open>Properties\<close>

lemma AllowMutableRequest_iff:
  "AllowMutableRequest dev r i s = OK \<longleftrightarrow>
     dev \<noteq> None \<and> dev = device_id s \<and> i \<noteq> None \<and> past_id s r = i \<and>
     (\<exists>c \<in> set (connections s). role_of s c = r \<and> elec_of s c = i)"
  by (auto simp: AllowMutableRequest_def VerifyElectionIdIsActive_def past_id_def list_ex_iff
      split: option.splits if_splits)

definition id_le :: "election_id \<Rightarrow> election_id \<Rightarrow> bool" where
  "id_le a b \<longleftrightarrow> (case a of None \<Rightarrow> True | Some x \<Rightarrow> (case b of None \<Rightarrow> False | Some y \<Rightarrow> x \<le> y))"

lemma id_le_refl: "id_le a a"
  by (auto simp: id_le_def split: option.splits)

lemma id_le_trans: "id_le a b \<Longrightarrow> id_le b c \<Longrightarrow> id_le a c"
  by (auto simp: id_le_def split: option.splits)

lemma takes_over_id_le: "takes_over i past \<Longrightarrow> id_le past i"
  by (auto simp: id_le_def takes_over_def split: option.splits)

lemma past_id_step: "sdn_step s t \<Longrightarrow> id_le (past_id s r) (past_id t r)"
proof (induction rule: sdn_step.induct)
  case (arbitrate upd c s st t)
  then show ?case
    by (cases rule: HandleArbitrationUpdate_cases)
       (auto simp: state_frame id_le_refl intro: takes_over_id_le)
qed (auto simp: state_frame id_le_refl SetDeviceId_def split: if_splits
      dest!: SendPacketInToPrimary_frame)

text \<open>
  C1. In every reachable state of the arbitration machine at most one active
  connection of a role can write: two active connections of the same role whose
  election IDs both pass \<open>AllowMutableRequest\<close> are the same connection.
\<close>

theorem at_most_one_primary:
  assumes "sdn_step\<^sup>*\<^sup>* init_manager s"
    and "c \<in> set (connections s)" "AllowMutableRequest dev (role_of s c) (elec_of s c) s = OK"
    and "d \<in> set (connections s)" "AllowMutableRequest dev (role_of s d) (elec_of s d) s = OK"
    and "role_of s c = role_of s d"
  shows "c = d"
proof -
  have "active_ids_unique s"
    using sdn.inv_reachable [OF refl assms(1)] by (simp add: sdn_inv_def)
  moreover have "elec_of s c = elec_of s d" "elec_of s c \<noteq> None"
    using assms(3,5,6) by (auto simp: AllowMutableRequest_iff)
  ultimately show ?thesis
    using assms(2,4,6) unfolding active_ids_unique_def by blast
qed

text \<open>A concrete run: the device ID is configured, then two controllers of one role arrive.\<close>

definition example_update :: "64 word \<Rightarrow> master_arbitration_update" where
  "example_update n =
     \<lparr>mau_device_id = 7, mau_role = Some ''sdn_controller'', mau_election_id = Some (0, n),
      mau_status = OK\<rparr>"

definition example_configured :: sdn_controller_manager where
  "example_configured = snd (SetDeviceId 7 init_manager)"

definition example_one :: sdn_controller_manager where
  "example_one = snd (HandleArbitrationUpdate (example_update 5) 0 example_configured)"

definition example_two :: sdn_controller_manager where
  "example_two = snd (HandleArbitrationUpdate (example_update 9) 1 example_one)"

lemmas example_defs =
  example_update_def example_configured_def example_one_def example_two_def

lemma example_configured_reachable: "sdn_step\<^sup>*\<^sup>* init_manager example_configured"
  unfolding example_configured_def
  by (rule r_into_rtranclp, rule sdn_step.set_device_id, rule prod.collapse [symmetric])

lemma example_one_reachable: "sdn_step\<^sup>*\<^sup>* init_manager example_one"
  unfolding example_one_def
  by (rule rtranclp.rtrancl_into_rtrancl [OF example_configured_reachable],
      rule sdn_step.arbitrate, rule prod.collapse [symmetric])

lemma example_two_reachable: "sdn_step\<^sup>*\<^sup>* init_manager example_two"
  unfolding example_two_def
  by (rule rtranclp.rtrancl_into_rtrancl [OF example_one_reachable],
      rule sdn_step.arbitrate, rule prod.collapse [symmetric])

theorem at_most_one_primary_witness:
  "1 \<in> set (connections example_two) \<and>
   AllowMutableRequest (Some 7) (role_of example_two 1) (elec_of example_two 1) example_two = OK \<and>
   (1::nat) = 1"
proof -
  have a: "1 \<in> set (connections example_two)" by code_simp
  have b: "AllowMutableRequest (Some 7) (role_of example_two 1) (elec_of example_two 1) example_two = OK"
    by code_simp
  show ?thesis
    using a b at_most_one_primary [OF example_two_reachable a b a b refl] by blast
qed

text \<open>
  C8. A write request is let through exactly when it carries the switch's
  non-zero device ID and its election ID is the highest one ever accepted for
  its role and belongs to an active connection of that role.
\<close>

theorem AllowRequest_Write_iff:
  "AllowRequest_Write req s = OK \<longleftrightarrow>
     req_device_id req \<noteq> 0 \<and> device_id s = Some (req_device_id req) \<and>
     (\<exists>h l c. req_election_id req = Some (h, l) \<and>
        c \<in> set (connections s) \<and>
        role_of s c = (if req_role req \<noteq> [] then Some (req_role req) else None) \<and>
        elec_of s c = Some (MakeUint128 h l) \<and>
        past_id s (role_of s c) = Some (MakeUint128 h l))"
  by (cases "req_election_id req")
     (auto simp: AllowRequest_Write_def AllowMutableRequest_iff request_device_def split: prod.splits)

text \<open>
  C12. Whoever is allowed to write has the highest election ID among the active
  connections of its role, in every reachable state.
\<close>

theorem primary_has_highest_id:
  assumes "sdn_step\<^sup>*\<^sup>* init_manager s"
    and "AllowMutableRequest dev r (Some e) s = OK"
    and "d \<in> set (connections s)" "role_of s d = r" "elec_of s d = Some e'"
  shows "e' \<le> e"
proof -
  have "active_ids_bounded s"
    using sdn.inv_reachable [OF refl assms(1)] by (simp add: sdn_inv_def)
  moreover have "past_id s r = Some e"
    using assms(2) by (simp add: AllowMutableRequest_iff)
  ultimately show ?thesis
    using assms(3-5) unfolding active_ids_bounded_def by fastforce
qed

theorem primary_has_highest_id_witness:
  "AllowMutableRequest (Some 7) (Some ''sdn_controller'') (Some 9) example_two = OK \<and>
   (5 :: 128 word) \<le> 9"
proof -
  have a: "AllowMutableRequest (Some 7) (Some ''sdn_controller'') (Some 9) example_two = OK"
    by code_simp
  have b: "0 \<in> set (connections example_two)" by code_simp
  have c: "role_of example_two 0 = Some ''sdn_controller''" by code_simp
  have d: "elec_of example_two 0 = Some 5" by code_simp
  show ?thesis
    using a primary_has_highest_id [OF example_two_reachable a b c d] by blast
qed

text \<open>
  C13. The highest accepted election ID of a role never goes down, over any run
  of arbitration updates, disconnections, reconfigurations and packet-ins.
\<close>

theorem past_election_id_monotone:
  assumes "sdn_step\<^sup>*\<^sup>* s t"
  shows "id_le (past_id s r) (past_id t r)"
  using assms
proof (induction rule: rtranclp_induct)
  case base
  show ?case by (rule id_le_refl)
next
  case (step u v)
  then show ?case by (blast intro: id_le_trans past_id_step)
qed

theorem past_election_id_monotone_witness:
  "id_le (past_id example_configured (Some ''sdn_controller''))
         (past_id example_two (Some ''sdn_controller''))"
proof -
  have "sdn_step\<^sup>*\<^sup>* example_configured example_two"
    unfolding example_two_def example_one_def
    by (rule rtranclp.rtrancl_into_rtrancl [OF r_into_rtranclp];
        rule sdn_step.arbitrate, rule prod.collapse [symmetric])
  then show ?thesis by (rule past_election_id_monotone)
qed

lemma unique_primary:
  assumes "sdn_inv s" "c \<in> set (connections s)" "d \<in> set (connections s)"
    and "role_of s c = role_of s d" "elec_of s c = Some n"
  shows "elec_of s d = Some n \<longleftrightarrow> d = c"
  using assms unfolding sdn_inv_def active_ids_unique_def by (metis option.distinct(1))

text \<open>
  C39. When an arbitration update is accepted with an election ID at least as
  high as any before it, the sender becomes the primary of its role and every
  active connection of that role is sent one update carrying the new election
  ID: the sender is told it is the primary, all others that a primary exists.
\<close>

theorem primary_takeover_notifies_role:
  assumes "sdn_step\<^sup>*\<^sup>* init_manager s" "HandleArbitrationUpdate upd c s = (OK, t)"
    and "arbitration_election_id upd = Some n" "id_le (past_id s (arbitration_role upd)) (Some n)"
    and "c \<in> set (connections t)"
  shows "AllowMutableRequest (device_id t) (arbitration_role upd) (Some n) t = OK \<and>
     grpc_written t = grpc_written s @
       map (\<lambda>d. (d, ArbitrationUpdate
              \<lparr>mau_device_id = mau_device_id upd, mau_role = arbitration_role upd,
               mau_election_id = Some (Uint128High64 n, Uint128Low64 n),
               mau_status = (if d = c then OK else ALREADY_EXISTS)\<rparr>))
         (filter (\<lambda>d. role_of t d = arbitration_role upd) (connections t))"
  using assms(2)
proof (cases rule: HandleArbitrationUpdate_cases)
  case rejected
  then show ?thesis by simp
next
  case accepted
  let ?r = "arbitration_role upd"
  let ?w = "with_election_id c ?r (Some n) s"
  let ?s1 = "snd (past_subscript ?r ?w)"
  let ?s2 = "?s1\<lparr>election_id_past_by_role := (election_id_past_by_role ?s1)(?r \<mapsto> Some n)\<rparr>"
  have take: "takes_over (Some n) (past_id s ?r)"
    using assms(4) by (auto simp: takes_over_def id_le_def split: option.splits)
  then have t: "t = InformConnectionsAboutPrimaryChange ?r ?s2"
    by (simp add: accepted(5) assms(3) arbitration_notify_eq Let_def)
  have inv: "sdn_inv t"
    using sdn.inv_reachable [OF refl assms(1)] assms(2) by (rule sdn_inv_arbitrate)
  have c: "role_of t c = ?r" "elec_of t c = Some n" "past_id t ?r = Some n"
    using accepted(3) by (auto simp: t state_frame)
  have hp: "has_primary t ?r"
    using c assms(5) unfolding has_primary_def by auto
  have resp: "arbitration_response ?s2 = arbitration_response t"
    unfolding t by (auto simp: fun_eq_iff state_frame intro!: arbitration_response_cong)
  have "arbitration_response t d =
      \<lparr>mau_device_id = mau_device_id upd, mau_role = ?r,
       mau_election_id = Some (Uint128High64 n, Uint128Low64 n),
       mau_status = (if d = c then OK else ALREADY_EXISTS)\<rparr>"
    if "d \<in> set (connections t)" "role_of t d = ?r" for d
    using unique_primary [OF inv assms(5) that(1) _ c(2)] that c hp accepted(2)
    by (auto simp: arbitration_response_def t state_frame)
  then have "grpc_written t = grpc_written s @
       map (\<lambda>d. (d, ArbitrationUpdate
              \<lparr>mau_device_id = mau_device_id upd, mau_role = ?r,
               mau_election_id = Some (Uint128High64 n, Uint128Low64 n),
               mau_status = (if d = c then OK else ALREADY_EXISTS)\<rparr>))
         (filter (\<lambda>d. role_of t d = ?r) (connections t))"
    using Inform_frame(5) [of ?r ?s2] unfolding resp
    by (simp add: t [symmetric] del: map_eq_conv)
       (simp add: t state_frame with_election_id_def)
  moreover have "AllowMutableRequest (device_id t) ?r (Some n) t = OK"
    using c assms(5) accepted(2)
    by (auto simp: AllowMutableRequest_iff accepted(5) state_frame intro!: bexI [of _ c])
  ultimately show ?thesis by blast
qed

theorem primary_takeover_notifies_role_witness:
  "grpc_written example_two = grpc_written example_one @
     [(0, ArbitrationUpdate \<lparr>mau_device_id = 7, mau_role = Some ''sdn_controller'',
            mau_election_id = Some (0, 9), mau_status = ALREADY_EXISTS\<rparr>),
      (1, ArbitrationUpdate \<lparr>mau_device_id = 7, mau_role = Some ''sdn_controller'',
            mau_election_id = Some (0, 9), mau_status = OK\<rparr>)]"
proof -
  have a: "HandleArbitrationUpdate (example_update 9) 1 example_one = (OK, example_two)"
    unfolding example_two_def by (rule prod_eqI) (code_simp, simp)
  have b: "arbitration_election_id (example_update 9) = Some 9" by code_simp
  have c: "id_le (past_id example_one (arbitration_role (example_update 9))) (Some 9)" by code_simp
  have d: "1 \<in> set (connections example_two)" by code_simp
  have e: "filter (\<lambda>d. role_of example_two d = Some ''sdn_controller'')
      (connections example_two) = [0, 1]" by code_simp
  have f: "arbitration_role (example_update 9) = Some ''sdn_controller''"
    "mau_device_id (example_update 9) = 7" by code_simp+
  have g: "Uint128High64 9 = 0" "Uint128Low64 9 = 9" by code_simp+
  show ?thesis
    using primary_takeover_notifies_role [OF example_one_reachable a b c d] unfolding f e g by simp
qed

text \<open>
  C14. When the primary of a role disconnects, nobody can write for that role
  any more, and every remaining active connection of the role is sent exactly
  one update saying that no primary exists.
\<close>

theorem primary_disconnect_leaves_no_primary:
  assumes "sdn_step\<^sup>*\<^sup>* init_manager s" "c \<in> set (connections s)"
    and "AllowMutableRequest dev (role_of s c) (elec_of s c) s = OK"
  shows "(\<forall>d i. AllowMutableRequest d (role_of s c) i (Disconnect c s) \<noteq> OK) \<and>
     grpc_written (Disconnect c s) = grpc_written s @
       map (\<lambda>d. (d, ArbitrationUpdate (arbitration_response (Disconnect c s) d)))
         (filter (\<lambda>d. role_of s d = role_of s c) (connections (Disconnect c s))) \<and>
     list_all (\<lambda>d. mau_status (arbitration_response (Disconnect c s) d) = NOT_FOUND)
       (filter (\<lambda>d. role_of s d = role_of s c) (connections (Disconnect c s)))"
proof -
  let ?r = "role_of s c" and ?t = "Disconnect c s"
  let ?s1 = "s\<lparr>connections := remove1 c (connections s)\<rparr>"
  let ?s2 = "snd (past_subscript ?r ?s1)"
  have inv: "sdn_inv s" using sdn.inv_reachable [OF refl assms(1)] .
  then have init: "IsInitialized (heap s c)" and dist: "distinct (connections s)"
    using assms(2) by (auto simp: sdn_inv_def)
  from assms(3) obtain n where n: "elec_of s c = Some n" "past_id s ?r = Some n"
    by (auto simp: AllowMutableRequest_iff)
  have t: "?t = InformConnectionsAboutPrimaryChange ?r ?s2"
    using init n unfolding Disconnect_def Let_def
    by (subst past_subscript_pair) (simp add: state_frame)
  have others: "elec_of s d \<noteq> Some n" if "d \<in> set (connections ?t)" "role_of s d = ?r" for d
    using that unique_primary [OF inv assms(2) _ _ n(1), of d] dist init
    by (auto simp: state_frame dest: notin_set_remove1)
  then have none: "\<not> has_primary ?t ?r"
    using n by (auto simp: has_primary_def state_frame)
  have resp: "arbitration_response ?s2 = arbitration_response ?t"
    unfolding t by (auto simp: fun_eq_iff state_frame intro!: arbitration_response_cong)
  have "grpc_written ?t = grpc_written s @
       map (\<lambda>d. (d, ArbitrationUpdate (arbitration_response ?t d)))
         (filter (\<lambda>d. role_of s d = ?r) (connections ?t))"
    using Inform_frame(5) [of ?r ?s2] unfolding resp
    by (simp add: t [symmetric]) (simp add: t state_frame)
  moreover have "list_all (\<lambda>d. mau_status (arbitration_response ?t d) = NOT_FOUND)
       (filter (\<lambda>d. role_of s d = ?r) (connections ?t))"
    using none by (auto simp: list_all_iff arbitration_response_def state_frame)
  moreover have "\<forall>d i. AllowMutableRequest d ?r i ?t \<noteq> OK"
    using none n by (auto simp: AllowMutableRequest_iff has_primary_def state_frame)
  ultimately show ?thesis by blast
qed

theorem primary_disconnect_leaves_no_primary_witness:
  "AllowMutableRequest (Some 7) (role_of example_two 1) (elec_of example_two 1) example_two = OK \<and>
   AllowMutableRequest (Some 7) (role_of example_two 1) (Some 9) (Disconnect 1 example_two) \<noteq> OK \<and>
   AllowMutableRequest (Some 7) (role_of example_two 1) (Some 5) (Disconnect 1 example_two) \<noteq> OK"
proof -
  have a: "1 \<in> set (connections example_two)" by code_simp
  have b: "AllowMutableRequest (Some 7) (role_of example_two 1) (elec_of example_two 1) example_two = OK"
    by code_simp
  show ?thesis
    using b primary_disconnect_leaves_no_primary [OF example_two_reachable a b] by blast
qed

text \<open>
  A packet-in is written to exactly the active primaries of the roles
  configured to receive packet-ins, in connection order, and the call reports
  success exactly when there is at least one; any other message is refused.
\<close>

theorem SendPacketInToPrimary_spec:
  "SendPacketInToPrimary m s =
     (let cs = filter (\<lambda>c. elec_of s c \<noteq> None \<and> past_id s (role_of s c) = elec_of s c \<and>
                  role_of s c \<in> {None, Some ''sdn_controller''}) (connections s)
      in if (\<exists>p. m = PacketIn p) then
           (if cs = [] then FAILED_PRECONDITION else OK,
            s\<lparr>grpc_written := grpc_written s @ map (\<lambda>c. (c, m)) cs\<rparr>)
         else (INVALID_ARGUMENT, s))"
proof -
  have "receives_packet_in s = (\<lambda>c. elec_of s c \<noteq> None \<and> past_id s (role_of s c) = elec_of s c \<and>
      role_of s c \<in> {None, Some ''sdn_controller''})"
    by (auto simp: receives_packet_in_def role_receives_packet_in_def
        P4RUNTIME_ROLE_SDN_CONTROLLER_def fun_eq_iff) (metis, metis)
  then show ?thesis
    by (cases m) (auto simp: SendPacketInToPrimary_def SendStreamMessageToPrimary_def
        send_to_primaries_eq list_ex_iff filter_empty_conv Let_def)
qed

text \<open>
  A refused arbitration update leaves the manager, every connection and
  every stream untouched, and it is refused exactly when the switch has no
  device ID, the update names another device, it tries to change the role of an
  established connection, or another active connection of the role already uses
  its election ID.
\<close>

theorem arbitration_update_rejected_iff:
  "(fst (HandleArbitrationUpdate upd c s) \<noteq> OK \<longleftrightarrow>
      device_id s \<noteq> Some (mau_device_id upd) \<or>
      IsInitialized (heap s c) \<and> role_of s c \<noteq> arbitration_role upd \<or>
      arbitration_election_id upd \<noteq> None \<and>
      (\<exists>d \<in> set (connections s) - {c}. role_of s d = arbitration_role upd \<and>
         elec_of s d = arbitration_election_id upd)) \<and>
   (fst (HandleArbitrationUpdate upd c s) \<noteq> OK \<longrightarrow> snd (HandleArbitrationUpdate upd c s) = s)"
  unfolding HandleArbitrationUpdate_def arbitration_new_connection_def
    arbitration_update_connection_def return_if_error_def VerifyElectionIdIsUnused_def Let_def
  by (auto split: option.splits if_splits simp: list_ex_iff)

theorem arbitration_update_rejected_iff_witness:
  "fst (HandleArbitrationUpdate (example_update 5) 2 example_two) = INVALID_ARGUMENT \<and>
   snd (HandleArbitrationUpdate (example_update 5) 2 example_two) = example_two"
proof -
  have a: "fst (HandleArbitrationUpdate (example_update 5) 2 example_two) = INVALID_ARGUMENT"
    by code_simp
  show ?thesis
    using a arbitration_update_rejected_iff [of "example_update 5" 2 example_two] by simp
qed

end
