(* ===== verification/Pdpi_Types.thy ===== *)
theory Pdpi_Types
  imports Prelude "HOL-Library.Multiset" "HOL-Library.Char_ord" "HOL-Library.List_Lexorder"
    "HOL-Library.Countable"
begin

text \<open>
  The data the components exchange: P4Runtime's program-independent (PI)
  messages and the intermediate representation (IR) of
  \<open>p4_infra/p4_pdpi/ir.proto\<close>, with the fields the modelled code reads or
  writes; and the cache keys of \<open>p4_infra/p4_pdpi/entity_keys.{h,cc}\<close>. A
  \<open>std::string\<close> (text or bytes) is a list of 8-bit characters; a protobuf
  \<open>oneof\<close> is a datatype, an optional sub-message an \<open>option\<close>.
\<close>

section \<open>PI messages\<close>

datatype update_type = UPDATE_UNSPECIFIED | INSERT | MODIFY | DELETE

datatype field_match_type =
    FmExact string
  | FmTernary string string
  | FmLpm string int
  | FmRange string string
  | FmOptional string
  | FmNotSet

record field_match =
  fm_field_id :: nat
  fm_type :: field_match_type

record pi_action =
  pi_action_id :: nat
  pi_params :: "(nat \<times> string) list"

record pi_action_profile_action =
  apa_action :: pi_action
  apa_weight :: int
  apa_watch_port :: string

datatype pi_table_action =
    PiTableActionNotSet
  | PiTableActionTypeNotSet
  | PiAction pi_action
  | PiActionProfileMemberId nat
  | PiActionProfileGroupId nat
  | PiActionProfileActionSet "pi_action_profile_action list"

record meter_config =
  mc_cir :: int
  mc_cburst :: int
  mc_pir :: int
  mc_pburst :: int

record counter_data =
  cd_byte_count :: int
  cd_packet_count :: int

record meter_counter_data =
  mcd_green :: "counter_data option"
  mcd_yellow :: "counter_data option"
  mcd_red :: "counter_data option"

text \<open>
  \<open>PiTableActionNotSet\<close> is an entry without an action message, \<open>PiTableActionTypeNotSet\<close> one with
  an empty action message.
\<close>

record pi_table_entry =
  pte_table_id :: nat
  pte_match :: "field_match list"
  pte_action :: pi_table_action
  pte_priority :: int
  pte_metadata :: string
  pte_is_default_action :: bool
  pte_meter_config :: "meter_config option"
  pte_counter_data :: "counter_data option"
  pte_meter_counter_data :: "meter_counter_data option"

record pi_backup_replica =
  pbr_port :: string
  pbr_instance :: nat

datatype replica_port_kind = PORT_KIND_NOT_SET | EgressPort nat | Port string

record pi_replica =
  pr_port_kind :: replica_port_kind
  pr_instance :: nat
  pr_backups :: "pi_backup_replica list"

datatype packet_replication_engine_entry =
    MulticastGroupEntry nat "pi_replica list" string
  | CloneSessionEntry nat "pi_replica list" nat int
  | PreNotSet

datatype pi_entity =
    TableEntry pi_table_entry
  | PacketReplicationEngineEntry packet_replication_engine_entry
  | OtherEntity
  | EntityNotSet

text \<open>
  Protobuf accessors return a default message when another alternative of the
  \<open>oneof\<close> is set.
\<close>

definition default_table_entry :: pi_table_entry where
  "default_table_entry = \<lparr>pte_table_id = 0, pte_match = [], pte_action = PiTableActionNotSet,
     pte_priority = 0, pte_metadata = [], pte_is_default_action = False, pte_meter_config = None,
     pte_counter_data = None, pte_meter_counter_data = None\<rparr>"

definition pi_table_entry_of :: "pi_entity \<Rightarrow> pi_table_entry" where
  "pi_table_entry_of e = (case e of TableEntry t \<Rightarrow> t | _ \<Rightarrow> default_table_entry)"

definition action_profile_actions :: "pi_table_action \<Rightarrow> pi_action_profile_action list" where
  "action_profile_actions a = (case a of PiActionProfileActionSet as \<Rightarrow> as | _ \<Rightarrow> [])"

section \<open>IR messages\<close>

datatype ir_value =
    HexStr string | Ipv4 string | Ipv6 string | Mac string | Str string | ValueNotSet

datatype ir_match_value =
    IrExact ir_value
  | IrLpm ir_value int
  | IrTernary ir_value ir_value
  | IrOptional ir_value
  | IrMatchNotSet

record ir_match =
  irm_name :: string
  irm_value :: ir_match_value

record ir_action_invocation =
  ira_name :: string
  ira_params :: "(string \<times> ir_value) list"

record ir_action_set_invocation =
  iras_action :: ir_action_invocation
  iras_weight :: int
  iras_watch_port :: string

datatype ir_table_action =
    IrActionNotSet
  | IrAction ir_action_invocation
  | IrActionSet "ir_action_set_invocation list"

record ir_table_entry =
  ite_table_name :: string
  ite_matches :: "ir_match list"
  ite_priority :: int
  ite_action :: ir_table_action
  ite_controller_metadata :: string
  ite_meter_config :: "meter_config option"
  ite_counter_data :: "counter_data option"
  ite_meter_counter_data :: "meter_counter_data option"

record ir_replica =
  irr_port :: string
  irr_instance :: nat
  irr_backups :: "(string \<times> nat) list"

datatype ir_packet_replication_engine_entry =
    IrMulticastGroupEntry nat "ir_replica list" string
  | IrCloneSessionEntry nat "ir_replica list" nat int
  | IrPreNotSet

datatype ir_entity =
    IrTableEntry ir_table_entry
  | IrPacketReplicationEngineEntry ir_packet_replication_engine_entry
  | IrEntityNotSet

definition default_ir_table_entry :: ir_table_entry where
  "default_ir_table_entry = \<lparr>ite_table_name = [], ite_matches = [], ite_priority = 0,
     ite_action = IrActionNotSet, ite_controller_metadata = [], ite_meter_config = None,
     ite_counter_data = None, ite_meter_counter_data = None\<rparr>"

definition ir_table_entry_of :: "ir_entity \<Rightarrow> ir_table_entry" where
  "ir_table_entry_of e = (case e of IrTableEntry t \<Rightarrow> t | _ \<Rightarrow> default_ir_table_entry)"

definition action_set_actions :: "ir_table_entry \<Rightarrow> ir_action_set_invocation list" where
  "action_set_actions e = (case ite_action e of IrActionSet as \<Rightarrow> as | _ \<Rightarrow> [])"

text \<open>
  The parts of the P4 program information that the modelled code consults. A protobuf map is an
  association list, in the order in which it is iterated over. Of the reference of a table to an
  action only the action is kept.
\<close>

datatype ir_format = HEX_STRING | MAC | IPV4 | IPV6 | STRING

datatype match_type = MATCH_TYPE_UNSPECIFIED | EXACT | LPM | TERNARY | RANGE | OPTIONAL

record ir_match_field_reference =
  imr_table :: string
  imr_match_field :: string
  imr_table_id :: nat
  imr_match_field_id :: nat

record ir_match_field_definition =
  mfd_id :: nat
  mfd_name :: string
  mfd_annotations :: "string list"
  mfd_bitwidth :: nat
  mfd_match_type :: match_type
  mfd_type_name :: string
  mfd_format :: ir_format
  mfd_is_unsupported :: bool
  mfd_references :: "ir_match_field_reference list"

record ir_param_definition =
  ipd_id :: nat
  ipd_name :: string
  ipd_annotations :: "string list"
  ipd_bitwidth :: nat
  ipd_type_name :: string
  ipd_format :: ir_format
  ipd_references :: "ir_match_field_reference list"

record ir_action_definition =
  iad_id :: nat
  iad_name :: string
  iad_alias :: string
  iad_annotations :: "string list"
  iad_params_by_id :: "(nat \<times> ir_param_definition) list"
  iad_params_by_name :: "(string \<times> ir_param_definition) list"
  iad_is_unsupported :: bool

record action_profile =
  ap_id :: nat
  ap_alias :: string
  ap_table_ids :: "nat list"
  ap_size :: int
  ap_max_group_size :: int
  ap_sum_of_members :: "int option"

text \<open>
  References between tables. A field is a match field or an action parameter, of the P4 program
  (with its names and IDs) or built in.
\<close>

datatype ir_built_in_match_field =
    BUILT_IN_MATCH_FIELD_UNSPECIFIED | BUILT_IN_MATCH_FIELD_MULTICAST_GROUP_ID

datatype ir_match_field =
    P4MatchField string nat bool
  | BuiltInMatchField ir_built_in_match_field
  | MatchFieldNotSet

datatype ir_built_in_action = BUILT_IN_ACTION_UNSPECIFIED | BUILT_IN_ACTION_REPLICA

datatype ir_built_in_parameter =
    BUILT_IN_PARAMETER_UNSPECIFIED | BUILT_IN_PARAMETER_REPLICA_PORT | BUILT_IN_PARAMETER_REPLICA_INSTANCE

datatype ir_action_field =
    P4ActionField string nat string nat
  | BuiltInActionField ir_built_in_action ir_built_in_parameter
  | ActionFieldNotSet

datatype ir_field = IrMatchField ir_match_field | IrActionField ir_action_field | IrFieldNotSet

datatype ir_built_in_table =
    BUILT_IN_TABLE_UNSPECIFIED | BUILT_IN_TABLE_MULTICAST_GROUP_TABLE | BUILT_IN_TABLE_CLONE_SESSION_TABLE

datatype ir_table = P4Table string nat | BuiltInTable ir_built_in_table | IrTableNotSet

record field_reference =
  fr_source :: ir_field
  fr_destination :: ir_field

record ir_table_reference =
  itr_source_table :: ir_table
  itr_destination_table :: ir_table
  itr_field_references :: "field_reference list"

record ir_built_in_table_definition =
  ibt_built_in_table :: ir_built_in_table
  ibt_outgoing_references :: "ir_table_reference list"
  ibt_incoming_references :: "ir_table_reference list"

datatype resource_unit = UNIT_UNSPECIFIED | UNIT_BYTES | UNIT_PACKETS | UNIT_BOTH

record ir_table_definition =
  itd_alias :: string
  itd_id :: nat
  itd_annotations :: "string list"
  itd_match_fields_by_id :: "(nat \<times> ir_match_field_definition) list"
  itd_match_fields_by_name :: "(string \<times> ir_match_field_definition) list"
  itd_entry_actions :: "ir_action_definition list"
  itd_default_only_actions :: "ir_action_definition list"
  itd_const_default_action :: "ir_action_definition option"
  itd_size :: int
  itd_uses_oneshot :: bool
  itd_action_profile_id :: "nat option"
  itd_requires_priority :: bool
  itd_has_meter :: bool
  itd_meter_unit :: resource_unit
  itd_has_counter :: bool
  itd_counter_unit :: resource_unit
  itd_role :: string
  itd_is_unsupported :: bool
  itd_outgoing_references :: "ir_table_reference list"
  itd_incoming_references :: "ir_table_reference list"

record ir_packet_io_metadata_definition =
  imd_id :: nat
  imd_name :: string
  imd_bitwidth :: nat
  imd_format :: ir_format
  imd_is_padding :: bool

record ir_p4info =
  tables_by_id_entries :: "(nat \<times> ir_table_definition) list"
  tables_by_name_entries :: "(string \<times> ir_table_definition) list"
  actions_by_id_entries :: "(nat \<times> ir_action_definition) list"
  actions_by_name_entries :: "(string \<times> ir_action_definition) list"
  action_profiles_by_id_entries :: "(nat \<times> action_profile) list"
  action_profiles_by_name_entries :: "(string \<times> action_profile) list"
  packet_in_metadata_by_id :: "(nat \<times> ir_packet_io_metadata_definition) list"
  packet_in_metadata_by_name :: "(string \<times> ir_packet_io_metadata_definition) list"
  packet_out_metadata_by_id :: "(nat \<times> ir_packet_io_metadata_definition) list"
  packet_out_metadata_by_name :: "(string \<times> ir_packet_io_metadata_definition) list"
  references :: "ir_match_field_reference list"
  built_in_tables_entries :: "(string \<times> ir_built_in_table_definition) list"
  dependency_rank_by_table_name_entries :: "(string \<times> int) list"

text \<open>Lookup in the maps.\<close>

definition tables_by_id :: "ir_p4info \<Rightarrow> nat \<rightharpoonup> ir_table_definition" where
  "tables_by_id info = map_of (tables_by_id_entries info)"

definition tables_by_name :: "ir_p4info \<Rightarrow> string \<rightharpoonup> ir_table_definition" where
  "tables_by_name info = map_of (tables_by_name_entries info)"

definition actions_by_id :: "ir_p4info \<Rightarrow> nat \<rightharpoonup> ir_action_definition" where
  "actions_by_id info = map_of (actions_by_id_entries info)"

definition actions_by_name :: "ir_p4info \<Rightarrow> string \<rightharpoonup> ir_action_definition" where
  "actions_by_name info = map_of (actions_by_name_entries info)"

definition action_profiles_by_id :: "ir_p4info \<Rightarrow> nat \<rightharpoonup> action_profile" where
  "action_profiles_by_id info = map_of (action_profiles_by_id_entries info)"

definition action_profiles_by_name :: "ir_p4info \<Rightarrow> string \<rightharpoonup> action_profile" where
  "action_profiles_by_name info = map_of (action_profiles_by_name_entries info)"

definition built_in_tables :: "ir_p4info \<Rightarrow> string \<rightharpoonup> ir_built_in_table_definition" where
  "built_in_tables info = map_of (built_in_tables_entries info)"

definition dependency_rank_by_table_name :: "ir_p4info \<Rightarrow> string \<rightharpoonup> int" where
  "dependency_rank_by_table_name info = map_of (dependency_rank_by_table_name_entries info)"

lemmas lookup_defs = tables_by_id_def tables_by_name_def actions_by_id_def actions_by_name_def action_profiles_by_id_def
  action_profiles_by_name_def built_in_tables_def dependency_rank_by_table_name_def

section \<open>Entity keys\<close>

record table_entry_key =
  tek_table_id :: nat
  tek_priority :: int
  tek_matches :: "field_match list"

datatype replication_type_case = TYPE_NOT_SET | kMulticastGroupEntry | kCloneSessionEntry

record packet_replication_entry_key =
  prk_type :: replication_type_case
  prk_id :: nat

datatype entity_key =
    TableEntryKey table_entry_key
  | PacketReplicationEntryKey packet_replication_entry_key

definition make_table_entry_key :: "pi_table_entry \<Rightarrow> table_entry_key" where
  "make_table_entry_key e =
     \<lparr>tek_table_id = pte_table_id e, tek_priority = pte_priority e,
      tek_matches = sort_key fm_field_id (pte_match e)\<rparr>"

definition make_replication_key :: "packet_replication_engine_entry \<Rightarrow> packet_replication_entry_key" where
  "make_replication_key e =
     (case e of
        MulticastGroupEntry i _ _ \<Rightarrow> \<lparr>prk_type = kMulticastGroupEntry, prk_id = i\<rparr>
      | CloneSessionEntry i _ _ _ \<Rightarrow> \<lparr>prk_type = kCloneSessionEntry, prk_id = i\<rparr>
      | PreNotSet \<Rightarrow> \<lparr>prk_type = TYPE_NOT_SET, prk_id = 0\<rparr>)"

definition MakeEntityKey :: "pi_entity \<Rightarrow> entity_key status_or" where
  "MakeEntityKey e =
     (case e of
        TableEntry t \<Rightarrow> Inr (TableEntryKey (make_table_entry_key t))
      | PacketReplicationEngineEntry p \<Rightarrow> Inr (PacketReplicationEntryKey (make_replication_key p))
      | _ \<Rightarrow> Inl INVALID_ARGUMENT)"

text \<open>
  The element loops of \<open>operator==\<close> and \<open>operator<\<close> run over two vectors whose
  sizes have been compared. \<open>ser\<close> stands for the deterministic protobuf
  serialization of a match.
\<close>

definition table_entry_key_eq :: "table_entry_key \<Rightarrow> table_entry_key \<Rightarrow> bool" where
  "table_entry_key_eq a b =
     (if tek_table_id a \<noteq> tek_table_id b \<or> tek_priority a \<noteq> tek_priority b \<or>
         length (tek_matches a) \<noteq> length (tek_matches b) then False
      else list_all (\<lambda>i. tek_matches a ! i = tek_matches b ! i) [0..<length (tek_matches a)])"

fun matches_less :: "(field_match \<Rightarrow> string) \<Rightarrow> field_match list \<Rightarrow> field_match list \<Rightarrow> bool" where
  "matches_less ser (x # xs) (y # ys) = (if x \<noteq> y then ser x < ser y else matches_less ser xs ys)"
| "matches_less ser _ _ = False"

definition table_entry_key_less ::
  "(field_match \<Rightarrow> string) \<Rightarrow> table_entry_key \<Rightarrow> table_entry_key \<Rightarrow> bool" where
  "table_entry_key_less ser a b =
     (if tek_table_id a \<noteq> tek_table_id b then tek_table_id a < tek_table_id b
      else if tek_priority a \<noteq> tek_priority b then tek_priority a < tek_priority b
      else if length (tek_matches a) \<noteq> length (tek_matches b)
      then length (tek_matches a) < length (tek_matches b)
      else matches_less ser (tek_matches a) (tek_matches b))"

fun type_case_number :: "replication_type_case \<Rightarrow> nat" where
  "type_case_number TYPE_NOT_SET = 0"
| "type_case_number kMulticastGroupEntry = 1"
| "type_case_number kCloneSessionEntry = 2"

definition replication_key_less ::
  "packet_replication_entry_key \<Rightarrow> packet_replication_entry_key \<Rightarrow> bool" where
  "replication_key_less a b =
     (if prk_type a = prk_type b then prk_id a < prk_id b
      else type_case_number (prk_type a) < type_case_number (prk_type b))"

text \<open>\<open>std::variant\<close> compares the alternative's index first, then the values.\<close>

fun entity_key_eq :: "entity_key \<Rightarrow> entity_key \<Rightarrow> bool" where
  "entity_key_eq (TableEntryKey a) (TableEntryKey b) = table_entry_key_eq a b"
| "entity_key_eq (PacketReplicationEntryKey a) (PacketReplicationEntryKey b) =
     (prk_type a = prk_type b \<and> prk_id a = prk_id b)"
| "entity_key_eq _ _ = False"

fun entity_key_less :: "(field_match \<Rightarrow> string) \<Rightarrow> entity_key \<Rightarrow> entity_key \<Rightarrow> bool" where
  "entity_key_less ser (TableEntryKey a) (TableEntryKey b) = table_entry_key_less ser a b"
| "entity_key_less ser (TableEntryKey a) (PacketReplicationEntryKey b) = True"
| "entity_key_less ser (PacketReplicationEntryKey a) (TableEntryKey b) = False"
| "entity_key_less ser (PacketReplicationEntryKey a) (PacketReplicationEntryKey b) =
     replication_key_less a b"

section \<open>Lemmas on entity keys\<close>

lemma table_entry_key_eq_iff: "table_entry_key_eq a b \<longleftrightarrow> a = b"
proof -
  have "table_entry_key_eq a b \<longleftrightarrow>
      tek_table_id a = tek_table_id b \<and> tek_priority a = tek_priority b \<and> tek_matches a = tek_matches b"
    unfolding table_entry_key_eq_def
    by (simp add: list_all_iff list_eq_iff_nth_eq [of "tek_matches a"]) auto
  then show ?thesis by (metis table_entry_key.equality unit.exhaust)
qed

lemma entity_key_eq_iff: "entity_key_eq a b \<longleftrightarrow> a = b"
  by (cases a; cases b) (auto simp: table_entry_key_eq_iff intro: packet_replication_entry_key.equality)

lemma filter_eq_singleton: "distinct zs \<Longrightarrow> k \<in> set zs \<Longrightarrow> filter (\<lambda>x. x = k) zs = [k]"
  by (induction zs) (auto simp: filter_empty_conv)

lemma sort_key_unique:
  assumes "mset xs = mset ys" "distinct (map f xs)"
  shows "sort_key f xs = sort_key f ys"
proof (rule properties_for_sort_key)
  show "mset (sort_key f ys) = mset xs" using assms(1) by simp
  have inj: "inj_on f (set ys)"
    using assms by (metis distinct_map mset_eq_setD)
  have dist: "distinct ys"
    using assms by (metis distinct_map mset_eq_imp_distinct_iff)
  show "filter (\<lambda>x. f k = f x) (sort_key f ys) = filter (\<lambda>x. f k = f x) xs" if "k \<in> set (sort_key f ys)" for k
  proof -
    have k: "k \<in> set ys" using that by simp
    have eq: "(\<lambda>x. x \<in> set ys \<and> f k = f x) = (\<lambda>x. x = k)"
      using inj k by (auto simp: inj_on_def)
    have "filter (\<lambda>x. f k = f x) zs = [k]" if "mset zs = mset ys" for zs
    proof -
      have "set zs = set ys" "distinct zs"
        using that dist mset_eq_imp_distinct_iff mset_eq_setD by blast+
      then have "filter (\<lambda>x. f k = f x) zs = filter (\<lambda>x. x = k) zs"
        using eq by (intro filter_cong) (auto simp: fun_eq_iff)
      also have "\<dots> = [k]"
        using \<open>distinct zs\<close> \<open>set zs = set ys\<close> k
        by (simp add: filter_eq_singleton)
      finally show ?thesis .
    qed
    then show ?thesis using assms(1) by simp
  qed
  show "sorted (map f (sort_key f ys))" by simp
qed

text \<open>On vectors of one length the element loop is the lexicographic order of the serializations.\<close>

lemma matches_less_lex:
  "inj ser \<Longrightarrow> length xs = length ys \<Longrightarrow> matches_less ser xs ys \<longleftrightarrow> map ser xs < map ser ys"
  by (induction ser xs ys rule: matches_less.induct) (auto dest: injD)

definition table_rank :: "(field_match \<Rightarrow> string) \<Rightarrow> table_entry_key \<Rightarrow> nat \<times> int \<times> nat \<times> string list" where
  "table_rank ser k = (tek_table_id k, tek_priority k, length (tek_matches k), map ser (tek_matches k))"

lemma table_rank_inj: "inj ser \<Longrightarrow> table_rank ser a = table_rank ser b \<longleftrightarrow> a = b"
  by (auto simp: table_rank_def inj_map_eq_map intro: table_entry_key.equality)

lemma table_entry_key_less_rank:
  "inj ser \<Longrightarrow> table_entry_key_less ser a b \<longleftrightarrow>
     (case (table_rank ser a, table_rank ser b) of ((t, p, n, m), (t', p', n', m')) \<Rightarrow>
        t < t' \<or> t = t' \<and> (p < p' \<or> p = p' \<and> (n < n' \<or> n = n' \<and> m < m')))"
  by (auto simp: table_entry_key_less_def table_rank_def matches_less_lex)

lemma table_entry_key_less_irrefl: "inj ser \<Longrightarrow> \<not> table_entry_key_less ser a a"
  by (simp add: table_entry_key_less_rank split: prod.splits)

lemma table_entry_key_less_trans:
  "inj ser \<Longrightarrow> table_entry_key_less ser a b \<Longrightarrow> table_entry_key_less ser b c \<Longrightarrow>
   table_entry_key_less ser a c"
  by (auto simp: table_entry_key_less_rank split: prod.splits)

lemma table_entry_key_less_total:
  "inj ser \<Longrightarrow> a \<noteq> b \<Longrightarrow> table_entry_key_less ser a b \<or> table_entry_key_less ser b a"
  using table_rank_inj [of ser a b]
  by (auto simp: table_entry_key_less_rank split: prod.splits)

lemma type_case_number_inj: "type_case_number a = type_case_number b \<longleftrightarrow> a = b"
  by (cases a; cases b) auto

lemma replication_key_less_rank:
  "replication_key_less a b \<longleftrightarrow>
     type_case_number (prk_type a) < type_case_number (prk_type b) \<or>
     type_case_number (prk_type a) = type_case_number (prk_type b) \<and> prk_id a < prk_id b"
  by (auto simp: replication_key_less_def type_case_number_inj)

lemma replication_key_less_total:
  "a \<noteq> b \<Longrightarrow> replication_key_less a b \<or> replication_key_less b a"
  by (metis replication_key_less_rank nat_neq_iff type_case_number_inj
      packet_replication_entry_key.equality unit.exhaust)

lemma entity_key_less_trans:
  "inj ser \<Longrightarrow> entity_key_less ser a b \<Longrightarrow> entity_key_less ser b c \<Longrightarrow> entity_key_less ser a c"
  by (cases a; cases b; cases c)
     (auto intro: table_entry_key_less_trans simp: replication_key_less_rank)

lemma entity_key_less_irrefl: "inj ser \<Longrightarrow> \<not> entity_key_less ser a a"
  by (cases a) (auto simp: table_entry_key_less_irrefl replication_key_less_def)

lemma entity_key_less_total:
  "inj ser \<Longrightarrow> a \<noteq> b \<Longrightarrow> entity_key_less ser a b \<or> entity_key_less ser b a"
  by (cases a; cases b) (auto dest: table_entry_key_less_total replication_key_less_total)

text \<open>A concrete injective serialization, used to instantiate the parameter.\<close>

instance field_match_type :: countable
  by countable_datatype

definition unary_serialization :: "field_match \<Rightarrow> string" where
  "unary_serialization m = replicate (to_nat (fm_field_id m, fm_type m)) (CHR ''1'')"

lemma inj_unary_serialization: "inj unary_serialization"
proof (rule injI)
  fix a b assume "unary_serialization a = unary_serialization b"
  then have "to_nat (fm_field_id a, fm_type a) = to_nat (fm_field_id b, fm_type b)"
    unfolding unary_serialization_def by (metis length_replicate)
  then show "a = b" by (auto intro: field_match.equality)
qed

section \<open>Properties\<close>

text \<open>
  The ordering of entity keys is a strict total order compatible with their
  equality: it is irreflexive and transitive, and of two keys that
  \<open>operator==\<close> tells apart exactly one is the smaller, provided the
  serialization that breaks ties distinguishes different matches.
\<close>

theorem entity_key_order:
  assumes "inj ser"
  shows "(entity_key_less ser a b \<longrightarrow> entity_key_less ser b c \<longrightarrow> entity_key_less ser a c) \<and>
    (entity_key_eq a b \<longrightarrow> \<not> entity_key_less ser a b \<and> \<not> entity_key_less ser b a) \<and>
    (\<not> entity_key_eq a b \<longrightarrow> entity_key_less ser a b \<noteq> entity_key_less ser b a)"
  using entity_key_less_trans [OF assms, of a b c] entity_key_less_irrefl [OF assms]
    entity_key_less_total [OF assms, of a b] entity_key_less_trans [OF assms, of a b a]
  by (auto simp: entity_key_eq_iff)

theorem entity_key_order_witness:
  "let a = PacketReplicationEntryKey \<lparr>prk_type = kMulticastGroupEntry, prk_id = 4\<rparr>;
       b = PacketReplicationEntryKey \<lparr>prk_type = kCloneSessionEntry, prk_id = 1\<rparr>
   in inj unary_serialization \<and> entity_key_less unary_serialization a b \<and>
      \<not> entity_key_less unary_serialization b a"
  using inj_unary_serialization
    entity_key_order [OF inj_unary_serialization,
      of "PacketReplicationEntryKey \<lparr>prk_type = kMulticastGroupEntry, prk_id = 4\<rparr>"
         "PacketReplicationEntryKey \<lparr>prk_type = kCloneSessionEntry, prk_id = 1\<rparr>"]
  by (simp add: replication_key_less_def)

text \<open>
  The key of a table entry identifies it by table, priority and set of
  matches: the order in which a controller lists matches on distinct fields
  does not matter, and conversely entries with the same key agree on all three.
\<close>

theorem table_entry_key_match_order:
  assumes "distinct (map fm_field_id (pte_match e))"
  shows "MakeEntityKey (TableEntry e) = MakeEntityKey (TableEntry e') \<longleftrightarrow>
     pte_table_id e = pte_table_id e' \<and> pte_priority e = pte_priority e' \<and>
     mset (pte_match e) = mset (pte_match e')"
  using sort_key_unique [of "pte_match e" "pte_match e'" fm_field_id, OF _ assms]
  by (auto simp: MakeEntityKey_def make_table_entry_key_def dest: arg_cong [where f = mset])

theorem table_entry_key_match_order_witness:
  "let m1 = \<lparr>fm_field_id = 1, fm_type = FmExact ''a''\<rparr>;
       m2 = \<lparr>fm_field_id = 2, fm_type = FmLpm ''b'' 8\<rparr>;
       e = \<lambda>ms. \<lparr>pte_table_id = 5, pte_match = ms, pte_action = PiTableActionNotSet,
                 pte_priority = 3, pte_metadata = [], pte_is_default_action = False, pte_meter_config = None,
                 pte_counter_data = None, pte_meter_counter_data = None\<rparr>
   in MakeEntityKey (TableEntry (e [m1, m2])) = MakeEntityKey (TableEntry (e [m2, m1]))"
  unfolding Let_def
  by (subst table_entry_key_match_order) (simp_all add: add_mset_commute)

end
