(* ===== verification/App_Db_Types.thy ===== *)
theory App_Db_Types
  imports Pdpi_Types
begin

text \<open>
  Updates in the format of SONiC's application database
  (\<open>p4rt_app/sonic/app_db_manager.{h,cc}\<close>): which Redis table an entity goes to,
  the key/operation/field-value tuple sent there, and the comparison of two such
  updates that pipeline reconfiguration relies on.
\<close>

datatype app_db_table_type = P4RT | VRF_TABLE | VLAN_TABLE | VLAN_MEMBER_TABLE

record key_op_fields_values =
  kfvKey :: string
  kfvOp :: string
  kfvFieldsValues :: "(string \<times> string) list"

record app_db_update =
  adu_table :: app_db_table_type
  adu_update :: key_op_fields_values

definition GetAppDbTableType :: "ir_entity \<Rightarrow> app_db_table_type" where
  "GetAppDbTableType e =
     (let n = ite_table_name (ir_table_entry_of e)
      in if n = ''vrf_table'' then VRF_TABLE
         else if n = ''vlan_table'' then VLAN_TABLE
         else if n = ''vlan_membership_table'' then VLAN_MEMBER_TABLE
         else P4RT)"

text \<open>
  \<open>operator==\<close>: the field-value lists must have the same length and every field
  of the right one must be bound to its value in a map built from the left one.
\<close>

definition last_wins :: "('k \<times> 'v) list \<Rightarrow> 'k \<rightharpoonup> 'v" where
  "last_wins kvs = foldl (\<lambda>m (k, v). m(k \<mapsto> v)) Map.empty kvs"

definition AppDbUpdate_eq :: "app_db_update \<Rightarrow> app_db_update \<Rightarrow> bool" where
  "AppDbUpdate_eq lhs rhs =
     (if adu_table lhs \<noteq> adu_table rhs then False
      else if kfvKey (adu_update lhs) \<noteq> kfvKey (adu_update rhs) then False
      else if kfvOp (adu_update lhs) \<noteq> kfvOp (adu_update rhs) then False
      else if length (kfvFieldsValues (adu_update lhs)) \<noteq> length (kfvFieldsValues (adu_update rhs))
      then False
      else list_all (\<lambda>(f, v). last_wins (kfvFieldsValues (adu_update lhs)) f = Some v)
             (kfvFieldsValues (adu_update rhs)))"

section \<open>Lemmas\<close>

lemma foldl_upd_append: "foldl (\<lambda>m (k, v). m(k \<mapsto> v)) m kvs = m ++ map_of (rev kvs)"
  by (induction kvs arbitrary: m) (auto simp: map_add_def fun_eq_iff split: option.splits)

lemma last_wins_eq: "last_wins kvs = map_of (rev kvs)"
  by (simp add: last_wins_def foldl_upd_append)

lemma last_wins_distinct:
  "distinct (map fst kvs) \<Longrightarrow> last_wins kvs k = Some v \<longleftrightarrow> (k, v) \<in> set kvs"
  using map_of_eq_Some_iff [of "rev kvs"] by (simp add: last_wins_eq rev_map [symmetric])

lemma subset_same_length:
  "distinct xs \<Longrightarrow> distinct ys \<Longrightarrow> length xs = length ys \<Longrightarrow> set xs \<subseteq> set ys \<Longrightarrow> set xs = set ys"
  by (metis card_subset_eq distinct_card List.finite_set)

section \<open>Properties\<close>

text \<open>
  On updates whose fields are not repeated, \<open>operator==\<close> of AppDb updates
  is exactly equality up to the order of the field-value pairs.
\<close>

theorem AppDbUpdate_eq_iff:
  assumes "distinct (map fst (kfvFieldsValues (adu_update lhs)))"
    and "distinct (map fst (kfvFieldsValues (adu_update rhs)))"
  shows "AppDbUpdate_eq lhs rhs \<longleftrightarrow>
    adu_table lhs = adu_table rhs \<and> kfvKey (adu_update lhs) = kfvKey (adu_update rhs) \<and>
    kfvOp (adu_update lhs) = kfvOp (adu_update rhs) \<and>
    set (kfvFieldsValues (adu_update lhs)) = set (kfvFieldsValues (adu_update rhs))"
proof -
  let ?l = "kfvFieldsValues (adu_update lhs)" and ?r = "kfvFieldsValues (adu_update rhs)"
  have dl: "distinct ?l" and dr: "distinct ?r"
    using assms by (simp_all add: distinct_map)
  have "list_all (\<lambda>(f, v). last_wins ?l f = Some v) ?r \<longleftrightarrow> set ?r \<subseteq> set ?l"
    using last_wins_distinct [OF assms(1)] by (auto simp: list_all_iff)
  moreover have "length ?l = length ?r \<and> set ?r \<subseteq> set ?l \<longleftrightarrow> set ?l = set ?r"
    using subset_same_length [OF dr dl] dl dr by (metis distinct_card order_refl)
  ultimately show ?thesis by (auto simp: AppDbUpdate_eq_def)
qed

definition example_app_db_update :: "(string \<times> string) list \<Rightarrow> app_db_update" where
  "example_app_db_update fvs =
     \<lparr>adu_table = P4RT, adu_update = \<lparr>kfvKey = ''FIXED_ROUTER_INTERFACE_TABLE:1'', kfvOp = ''SET'',
        kfvFieldsValues = fvs\<rparr>\<rparr>"

theorem AppDbUpdate_eq_iff_witness:
  "AppDbUpdate_eq (example_app_db_update [(''port'', ''1''), (''action'', ''set'')])
     (example_app_db_update [(''action'', ''set''), (''port'', ''1'')])"
  by (subst AppDbUpdate_eq_iff) (auto simp: example_app_db_update_def)

text \<open>
  With a repeated field, \<open>operator==\<close> is neither symmetric nor sound: the
  two updates below bind different fields, compare equal one way round and
  different the other.
\<close>

theorem AppDbUpdate_eq_not_symmetric:
  "\<exists>a b. AppDbUpdate_eq a b \<and> \<not> AppDbUpdate_eq b a \<and>
     set (kfvFieldsValues (adu_update a)) \<noteq> set (kfvFieldsValues (adu_update b))"
proof (intro exI conjI)
  let ?a = "example_app_db_update [(''port'', ''1''), (''action'', ''set'')]"
  let ?b = "example_app_db_update [(''port'', ''1''), (''port'', ''1'')]"
  show "AppDbUpdate_eq ?a ?b" by code_simp
  show "\<not> AppDbUpdate_eq ?b ?a" by code_simp
  show "set (kfvFieldsValues (adu_update ?a)) \<noteq> set (kfvFieldsValues (adu_update ?b))"
    by (auto simp: example_app_db_update_def)
qed

end
