(* ===== verification/Resource_Utilization.thy ===== *)
theory Resource_Utilization
  imports App_Db_Types
begin

text \<open>
  Resource accounting for tables with action profiles
  (\<open>p4rt_app/p4runtime/resource_utilization.{h,cc}\<close>, \<open>entity_update.h\<close>): how much of
  an action profile an entry uses, and the admission check that keeps groups and
  profiles within their P4Info limits. Counters are mathematical integers; the one
  narrowing conversion of the code (\<open>int64_t\<close> to \<open>int32_t\<close>) is written out.
\<close>

section \<open>Data\<close>

record action_profile_resources =
  apr_name :: string
  apr_number_of_actions :: int
  apr_total_weight :: int
  apr_max_weight :: int

record table_resources =
  tr_name :: string
  tr_action_profile :: "action_profile_resources option"

definition default_table_resources :: table_resources where
  "default_table_resources = \<lparr>tr_name = [], tr_action_profile = None\<rparr>"

record entity_update =
  eu_entry :: ir_entity
  eu_update_type :: update_type
  eu_pi_entity :: pi_entity
  eu_entity_key :: entity_key
  eu_resource_utilization_change :: table_resources
  eu_app_db_update :: app_db_update

record action_profile_resource_capacity =
  arc_action_profile :: action_profile
  arc_current_total_weight :: int
  arc_current_total_members :: int

type_synonym entity_map = "entity_key \<rightharpoonup> pi_entity"
type_synonym capacity_map = "string \<rightharpoonup> action_profile_resource_capacity"
type_synonym batch_resources = "string \<rightharpoonup> int"

section \<open>Usage of one entry\<close>

definition GetActionProfileName :: "ir_p4info \<Rightarrow> nat \<Rightarrow> string status_or" where
  "GetActionProfileName info i =
     (case action_profiles_by_id info i of None \<Rightarrow> Inl NOT_FOUND | Some ap \<Rightarrow> Inr (ap_alias ap))"

text \<open>The accumulation loop over the weights of the actions: count, sum and maximum.\<close>

definition accumulate_actions :: "int list \<Rightarrow> int \<times> int \<times> int" where
  "accumulate_actions ws = foldl (\<lambda>(n, t, m) w. (n + 1, t + w, max m w)) (0, 0, 0) ws"

definition profile_resources :: "string \<Rightarrow> int list \<Rightarrow> action_profile_resources" where
  "profile_resources name ws =
     (let (n, t, m) = accumulate_actions ws
      in \<lparr>apr_name = name, apr_number_of_actions = n, apr_total_weight = t, apr_max_weight = m\<rparr>)"

definition GetResourceUsageForIrTableEntry ::
  "ir_p4info \<Rightarrow> ir_table_entry \<Rightarrow> table_resources status_or" where
  "GetResourceUsageForIrTableEntry info e =
     (case tables_by_name info (ite_table_name e) of
        None \<Rightarrow> Inl NOT_FOUND
      | Some def \<Rightarrow>
          (case itd_action_profile_id def of
             None \<Rightarrow> Inr \<lparr>tr_name = ite_table_name e, tr_action_profile = None\<rparr>
           | Some i \<Rightarrow> bind_or (GetActionProfileName info i) (\<lambda>name.
               Inr \<lparr>tr_name = ite_table_name e,
                    tr_action_profile = Some (profile_resources name
                      (map iras_weight (action_set_actions e)))\<rparr>)))"

definition GetResourceUsageForPiTableEntry ::
  "ir_p4info \<Rightarrow> pi_table_entry \<Rightarrow> table_resources status_or" where
  "GetResourceUsageForPiTableEntry info e =
     (case tables_by_id info (pte_table_id e) of
        None \<Rightarrow> Inl NOT_FOUND
      | Some def \<Rightarrow>
          (case itd_action_profile_id def of
             None \<Rightarrow> Inr \<lparr>tr_name = itd_alias def, tr_action_profile = None\<rparr>
           | Some i \<Rightarrow> bind_or (GetActionProfileName info i) (\<lambda>name.
               Inr \<lparr>tr_name = itd_alias def,
                    tr_action_profile = Some (profile_resources name
                      (map apa_weight (action_profile_actions (pte_action e))))\<rparr>)))"

section \<open>Limits of a profile\<close>

definition GetActionProfileResourceCapacity ::
  "action_profile \<Rightarrow> action_profile_resource_capacity" where
  "GetActionProfileResourceCapacity ap =
     \<lparr>arc_action_profile = ap, arc_current_total_weight = 0, arc_current_total_members = 0\<rparr>"

definition UsesSumOfMembers :: "action_profile_resource_capacity \<Rightarrow> bool" where
  "UsesSumOfMembers c = (ap_sum_of_members (arc_action_profile c) \<noteq> None)"

definition UsesSumOfWeights :: "action_profile_resource_capacity \<Rightarrow> bool" where
  "UsesSumOfWeights c = (\<not> UsesSumOfMembers c)"

definition GetMaxWeightForAllGroups :: "action_profile_resource_capacity \<Rightarrow> int option" where
  "GetMaxWeightForAllGroups c =
     (if UsesSumOfWeights c then Some (ap_size (arc_action_profile c)) else None)"

definition GetMaxWeightPerGroup :: "action_profile_resource_capacity \<Rightarrow> int option" where
  "GetMaxWeightPerGroup c =
     (if UsesSumOfWeights c then Some (ap_max_group_size (arc_action_profile c)) else None)"

definition GetMaxMembersForAllGroups :: "action_profile_resource_capacity \<Rightarrow> int option" where
  "GetMaxMembersForAllGroups c =
     (if UsesSumOfMembers c then Some (ap_size (arc_action_profile c)) else None)"

definition GetMaxMembersPerGroup :: "action_profile_resource_capacity \<Rightarrow> int option" where
  "GetMaxMembersPerGroup c =
     (if UsesSumOfMembers c then Some (ap_max_group_size (arc_action_profile c)) else None)"

definition GetMaxWeightPerMember :: "action_profile_resource_capacity \<Rightarrow> int option" where
  "GetMaxWeightPerMember c =
     (if UsesSumOfMembers c then ap_sum_of_members (arc_action_profile c) else None)"

text \<open>The common test \<open>limit.has_value() && *limit != 0 && value > *limit\<close>.\<close>

definition exceeds :: "int option \<Rightarrow> int \<Rightarrow> bool" where
  "exceeds limit v = (case limit of None \<Rightarrow> False | Some l \<Rightarrow> l \<noteq> 0 \<and> v > l)"

definition batch_subscript :: "batch_resources \<Rightarrow> string \<Rightarrow> int" where
  "batch_subscript b n = (case b n of None \<Rightarrow> 0 | Some v \<Rightarrow> v)"

section \<open>The admission check\<close>

text \<open>Resources of the new entry (INSERT, MODIFY) and of the cached one (MODIFY, DELETE).\<close>

definition new_entry_resources ::
  "ir_p4info \<Rightarrow> entity_update \<Rightarrow> table_resources option status_or" where
  "new_entry_resources info u =
     (if eu_update_type u = INSERT \<or> eu_update_type u = MODIFY then
        (case GetResourceUsageForIrTableEntry info (ir_table_entry_of (eu_entry u)) of
           Inl _ \<Rightarrow> Inl INVALID_ARGUMENT
         | Inr r \<Rightarrow> Inr (Some r))
      else Inr None)"

definition old_entry_resources ::
  "ir_p4info \<Rightarrow> entity_update \<Rightarrow> entity_map \<Rightarrow> table_resources option status_or" where
  "old_entry_resources info u cache =
     (if eu_update_type u = MODIFY \<or> eu_update_type u = DELETE then
        (case cache (eu_entity_key u) of
           None \<Rightarrow> Inl NOT_FOUND
         | Some e \<Rightarrow>
             (case GetResourceUsageForPiTableEntry info (pi_table_entry_of e) of
                Inl _ \<Rightarrow> Inl NOT_FOUND
              | Inr r \<Rightarrow> Inr (Some r)))
      else Inr None)"

text \<open>The net change: what the new entry adds less what the old one gives back.\<close>

definition net_resources ::
  "table_resources option \<Rightarrow> table_resources option \<Rightarrow> table_resources" where
  "net_resources new old =
     (let r1 = (case new of
                  Some n \<Rightarrow> (case tr_action_profile n of
                     Some p \<Rightarrow> \<lparr>tr_name = tr_name n, tr_action_profile = Some p\<rparr>
                   | None \<Rightarrow> default_table_resources)
                | None \<Rightarrow> default_table_resources)
      in case old of
           None \<Rightarrow> r1
         | Some o' \<Rightarrow>
             (case tr_action_profile o' of
                None \<Rightarrow> r1
              | Some op \<Rightarrow>
                  (let base = (case tr_action_profile r1 of
                                 Some p \<Rightarrow> p
                               | None \<Rightarrow> \<lparr>apr_name = apr_name op, apr_number_of_actions = 0,
                                           apr_total_weight = 0, apr_max_weight = 0\<rparr>)
                   in \<lparr>tr_name = tr_name o',
                       tr_action_profile = Some (base\<lparr>
                         apr_number_of_actions := apr_number_of_actions base - apr_number_of_actions op,
                         apr_total_weight := apr_total_weight base - apr_total_weight op\<rparr>)\<rparr>)))"

definition actions_in_new_request :: "table_resources option \<Rightarrow> int" where
  "actions_in_new_request new =
     (case new of None \<Rightarrow> 0
      | Some n \<Rightarrow> (case tr_action_profile n of None \<Rightarrow> 0 | Some p \<Rightarrow> apr_number_of_actions p))"

text \<open>\<open>int32_t weight_in_new_request = new_resources->action_profile->total_weight\<close>.\<close>

definition weight_in_new_request :: "table_resources option \<Rightarrow> int" where
  "weight_in_new_request new =
     (case new of None \<Rightarrow> 0
      | Some n \<Rightarrow> (case tr_action_profile n of None \<Rightarrow> 0 | Some p \<Rightarrow> to_int32 (apr_total_weight p)))"

definition check_sum_of_members ::
  "action_profile_resource_capacity \<Rightarrow> int \<Rightarrow> action_profile_resources \<Rightarrow> int \<Rightarrow> status_code" where
  "check_sum_of_members c new_actions p batch =
     (if exceeds (GetMaxMembersPerGroup c) new_actions then INVALID_ARGUMENT
      else if exceeds (GetMaxWeightPerMember c) (apr_max_weight p) then INVALID_ARGUMENT
      else if exceeds (GetMaxMembersForAllGroups c)
                (arc_current_total_members c + batch + apr_number_of_actions p)
      then RESOURCE_EXHAUSTED else OK)"

definition check_sum_of_weights ::
  "action_profile_resource_capacity \<Rightarrow> int \<Rightarrow> action_profile_resources \<Rightarrow> int \<Rightarrow> status_code" where
  "check_sum_of_weights c new_weight p batch =
     (if exceeds (GetMaxWeightPerGroup c) new_weight then INVALID_ARGUMENT
      else if exceeds (GetMaxWeightForAllGroups c)
                (arc_current_total_weight c + batch + apr_total_weight p)
      then RESOURCE_EXHAUSTED else OK)"

definition VerifyCapacityAndGetTableResourceChange ::
  "ir_p4info \<Rightarrow> entity_update \<Rightarrow> entity_map \<Rightarrow> capacity_map \<Rightarrow> batch_resources \<Rightarrow>
   table_resources status_or" where
  "VerifyCapacityAndGetTableResourceChange info u cache caps batch =
     (case eu_entry u of
        IrTableEntry _ \<Rightarrow>
          bind_or (new_entry_resources info u) (\<lambda>new.
          bind_or (old_entry_resources info u cache) (\<lambda>old.
            (let res = net_resources new old
             in case tr_action_profile res of
                  None \<Rightarrow> Inr res
                | Some p \<Rightarrow>
                    (case caps (apr_name p) of
                       None \<Rightarrow> Inl NOT_FOUND
                     | Some c \<Rightarrow>
                         return_if_error
                           (if UsesSumOfMembers c then
                              check_sum_of_members c (actions_in_new_request new) p
                                (batch_subscript batch (apr_name p))
                            else if UsesSumOfWeights c then
                              check_sum_of_weights c (weight_in_new_request new) p
                                (batch_subscript batch (apr_name p))
                            else INVALID_ARGUMENT)
                           (Inr res)))))
      | _ \<Rightarrow> Inr default_table_resources)"

section \<open>Lemmas\<close>

lemma accumulate_from:
  "foldl (\<lambda>(n, t, m) w. (n + 1, t + w, max m w)) (n :: int, t :: int, m :: int) ws =
     (n + int (length ws), t + sum_list ws, foldl max m ws)"
  by (induction ws arbitrary: n t m) auto

lemma accumulate_actions_eq:
  "accumulate_actions ws = (int (length ws), sum_list ws, foldl max 0 ws)"
  by (simp add: accumulate_actions_def accumulate_from)

lemma profile_resources_simps [simp]:
  "apr_name (profile_resources n ws) = n"
  "apr_number_of_actions (profile_resources n ws) = int (length ws)"
  "apr_total_weight (profile_resources n ws) = sum_list ws"
  "apr_max_weight (profile_resources n ws) = foldl max 0 ws"
  by (simp_all add: profile_resources_def accumulate_actions_eq)

lemma foldl_max_ge: "(m::int) \<le> foldl max m ws \<and> (\<forall>w \<in> set ws. w \<le> foldl max m ws)"
  by (induction ws arbitrary: m) (auto, (meson max.boundedE order_trans)+)

lemma exceeds_simps [simp]:
  "exceeds None v = False"
  "exceeds (Some l) v \<longleftrightarrow> l \<noteq> 0 \<and> l < v"
  by (auto simp: exceeds_def)

lemmas capacity_defs =
  UsesSumOfMembers_def UsesSumOfWeights_def GetMaxWeightForAllGroups_def GetMaxWeightPerGroup_def
  GetMaxMembersForAllGroups_def GetMaxMembersPerGroup_def GetMaxWeightPerMember_def

text \<open>The amount of a profile that counts against its size, in its own semantics.\<close>

definition profile_cost :: "action_profile \<Rightarrow> action_profile_resources \<Rightarrow> int" where
  "profile_cost ap p =
     (if ap_sum_of_members ap \<noteq> None then apr_number_of_actions p else apr_total_weight p)"

definition current_use :: "action_profile_resource_capacity \<Rightarrow> int" where
  "current_use c =
     (if UsesSumOfMembers c then arc_current_total_members c else arc_current_total_weight c)"

lemma Verify_cases:
  assumes "VerifyCapacityAndGetTableResourceChange info u cache caps batch = Inr res"
  obtains (no_profile) "tr_action_profile res = None"
  | (profile) e new old p c where "eu_entry u = IrTableEntry e"
      "new_entry_resources info u = Inr new" "old_entry_resources info u cache = Inr old"
      "res = net_resources new old" "tr_action_profile res = Some p" "caps (apr_name p) = Some c"
      "UsesSumOfMembers c \<Longrightarrow> check_sum_of_members c (actions_in_new_request new) p
         (batch_subscript batch (apr_name p)) = OK"
      "\<not> UsesSumOfMembers c \<Longrightarrow> check_sum_of_weights c (weight_in_new_request new) p
         (batch_subscript batch (apr_name p)) = OK"
proof (cases "tr_action_profile res")
  case None
  then show ?thesis by (rule no_profile)
next
  case (Some p)
  obtain e where e: "eu_entry u = IrTableEntry e"
    using assms Some by (cases "eu_entry u")
      (auto simp: VerifyCapacityAndGetTableResourceChange_def default_table_resources_def)
  obtain new where n: "new_entry_resources info u = Inr new"
    using assms e by (cases "new_entry_resources info u")
      (auto simp: VerifyCapacityAndGetTableResourceChange_def simp del: bind_or_eq_Inr)
  obtain old where o: "old_entry_resources info u cache = Inr old"
    using assms e n by (cases "old_entry_resources info u cache")
      (auto simp: VerifyCapacityAndGetTableResourceChange_def simp del: bind_or_eq_Inr)
  have res: "res = net_resources new old"
    using assms e n o
    by (simp add: VerifyCapacityAndGetTableResourceChange_def Let_def split: option.splits)
  obtain c where c: "caps (apr_name p) = Some c"
    using assms e n o res Some
    by (cases "caps (apr_name p)") (simp_all add: VerifyCapacityAndGetTableResourceChange_def Let_def)
  show ?thesis
    using assms e n o res Some c
    by (intro profile [OF e n o res Some c])
       (simp_all add: VerifyCapacityAndGetTableResourceChange_def Let_def UsesSumOfWeights_def)
qed

lemma check_sum_of_members_OK:
  "check_sum_of_members c n p b = OK \<longleftrightarrow>
     \<not> exceeds (GetMaxMembersPerGroup c) n \<and> \<not> exceeds (GetMaxWeightPerMember c) (apr_max_weight p) \<and>
     \<not> exceeds (GetMaxMembersForAllGroups c) (arc_current_total_members c + b + apr_number_of_actions p)"
  by (simp add: check_sum_of_members_def)

lemma check_sum_of_weights_OK:
  "check_sum_of_weights c w p b = OK \<longleftrightarrow>
     \<not> exceeds (GetMaxWeightPerGroup c) w \<and>
     \<not> exceeds (GetMaxWeightForAllGroups c) (arc_current_total_weight c + b + apr_total_weight p)"
  by (simp add: check_sum_of_weights_def)

lemma Verify_fits:
  assumes "VerifyCapacityAndGetTableResourceChange info u cache caps batch = Inr res"
    and "tr_action_profile res = Some p"
  shows "\<exists>c. caps (apr_name p) = Some c \<and>
    (ap_size (arc_action_profile c) = 0 \<or>
     current_use c + batch_subscript batch (apr_name p) + profile_cost (arc_action_profile c) p
       \<le> ap_size (arc_action_profile c))"
  using assms(1)
proof (cases rule: Verify_cases)
  case (profile e new old p' c)
  then have "p' = p" using assms(2) by simp
  with profile show ?thesis
    by (auto simp: check_sum_of_members_OK check_sum_of_weights_OK capacity_defs current_use_def
        profile_cost_def split: if_splits)
qed (use assms(2) in simp)

lemma new_entry_resources_insert:
  assumes "eu_update_type u = INSERT" "eu_entry u = IrTableEntry e"
    and "new_entry_resources info u = Inr new" "old_entry_resources info u cache = Inr old"
    and "tr_action_profile (net_resources new old) = Some p"
  shows "p = profile_resources (apr_name p) (map iras_weight (action_set_actions e)) \<and>
    actions_in_new_request new = apr_number_of_actions p \<and>
    weight_in_new_request new = to_int32 (apr_total_weight p)"
  using assms
  by (auto simp: new_entry_resources_def old_entry_resources_def ir_table_entry_of_def
      GetResourceUsageForIrTableEntry_def net_resources_def default_table_resources_def
      actions_in_new_request_def weight_in_new_request_def
      split: option.splits sum.splits if_splits)

section \<open>Properties\<close>

text \<open>
  C33. An update that passes the admission check never over-commits its action
  profile: what is in use, plus what the batch has taken so far, plus what this
  update adds (members or weight, whichever the profile counts) stays within the
  profile's size, unless the size is zero, which means unlimited.
\<close>

theorem admitted_update_fits:
  assumes "VerifyCapacityAndGetTableResourceChange info u cache caps batch = Inr res"
    and "tr_action_profile res = Some p"
  shows "\<exists>c. caps (apr_name p) = Some c \<and>
    (ap_size (arc_action_profile c) = 0 \<or>
     current_use c + batch_subscript batch (apr_name p) + profile_cost (arc_action_profile c) p
       \<le> ap_size (arc_action_profile c))"
  using assms by (rule Verify_fits)

text \<open>
  An admitted INSERT also respects the per-group limits. In SumOfMembers
  profiles neither the number of actions nor any weight exceeds its limit; in
  SumOfWeights profiles the total weight does not exceed the group limit, as
  long as that total fits the 32-bit variable it is compared in.
\<close>

theorem admitted_insert_respects_group_limits:
  assumes "VerifyCapacityAndGetTableResourceChange info u cache caps batch = Inr res"
    and "eu_update_type u = INSERT" "eu_entry u = IrTableEntry e"
    and "tr_action_profile res = Some p" "caps (apr_name p) = Some c"
    and "- (2 ^ 31) \<le> sum_list (map iras_weight (action_set_actions e))"
    and "sum_list (map iras_weight (action_set_actions e)) < 2 ^ 31"
  shows "case ap_sum_of_members (arc_action_profile c) of
      Some max_weight \<Rightarrow>
        (ap_max_group_size (arc_action_profile c) = 0 \<or>
         int (length (action_set_actions e)) \<le> ap_max_group_size (arc_action_profile c)) \<and>
        (max_weight = 0 \<or> (\<forall>a \<in> set (action_set_actions e). iras_weight a \<le> max_weight))
    | None \<Rightarrow>
        ap_max_group_size (arc_action_profile c) = 0 \<or>
        sum_list (map iras_weight (action_set_actions e)) \<le> ap_max_group_size (arc_action_profile c)"
  using assms(1)
proof (cases rule: Verify_cases)
  case no_profile
  with assms(4) show ?thesis by simp
next
  case (profile e' new old p' c')
  let ?ws = "map iras_weight (action_set_actions e)"
  have eqs: "p' = p" "c' = c" "e' = e" using profile assms(3-5) by auto
  have p: "p = profile_resources (apr_name p) ?ws"
    and n: "actions_in_new_request new = apr_number_of_actions p"
    and w: "weight_in_new_request new = to_int32 (apr_total_weight p)"
    using new_entry_resources_insert [OF assms(2,3) profile(2,3)] profile(4,5) eqs by auto
  have sums: "apr_number_of_actions p = int (length (action_set_actions e))"
    "apr_total_weight p = sum_list ?ws" "apr_max_weight p = foldl max 0 ?ws"
    using profile_resources_simps [of "apr_name p" ?ws] p by auto
  have le: "\<forall>a \<in> set (action_set_actions e). iras_weight a \<le> foldl max 0 ?ws"
    using foldl_max_ge [of 0 ?ws] by auto
  have small: "to_int32 (sum_list ?ws) = sum_list ?ws"
    using assms(6,7) by (rule to_int32_id)
  show ?thesis
  proof (cases "ap_sum_of_members (arc_action_profile c)")
    case None
    with profile(8) eqs w sums small show ?thesis
      by (auto simp: check_sum_of_weights_OK capacity_defs)
  next
    case (Some m)
    then have "\<not> exceeds (Some m) (foldl max 0 ?ws)"
      and "\<not> exceeds (Some (ap_max_group_size (arc_action_profile c))) (int (length (action_set_actions e)))"
      using profile(7) eqs n sums by (auto simp: check_sum_of_members_OK capacity_defs)
    with Some le show ?thesis by fastforce
  qed
qed

definition example_profile :: "int \<Rightarrow> int \<Rightarrow> int option \<Rightarrow> action_profile" where
  "example_profile max_size max_group members =
     \<lparr>ap_id = 9, ap_alias = ''wcmp_group_selector'', ap_table_ids = [1], ap_size = max_size, ap_max_group_size = max_group,
      ap_sum_of_members = members\<rparr>"

definition example_action :: ir_action_definition where
  "example_action = \<lparr>iad_id = 3, iad_name = ''set_nexthop_id'', iad_alias = ''set_nexthop_id'', iad_annotations = [], iad_params_by_id = [],
     iad_params_by_name = [], iad_is_unsupported = False\<rparr>"

definition example_match_field :: ir_match_field_definition where
  "example_match_field = \<lparr>mfd_id = 1, mfd_name = ''group'', mfd_annotations = [], mfd_bitwidth = 0,
     mfd_match_type = EXACT, mfd_type_name = ''wcmp_group_id_t'', mfd_format = STRING,
     mfd_is_unsupported = False, mfd_references = []\<rparr>"

definition example_table :: ir_table_definition where
  "example_table =
     \<lparr>itd_alias = ''wcmp_group_table'', itd_id = 1, itd_annotations = [],
      itd_match_fields_by_id = [(1, example_match_field)],
      itd_match_fields_by_name = [(''group'', example_match_field)],
      itd_entry_actions = [example_action], itd_default_only_actions = [],
      itd_const_default_action = None, itd_size = 0, itd_uses_oneshot = True, itd_action_profile_id = Some 9,
      itd_requires_priority = False, itd_has_meter = False, itd_meter_unit = UNIT_UNSPECIFIED,
      itd_has_counter = False, itd_counter_unit = UNIT_UNSPECIFIED,
      itd_role = ''sdn_controller'', itd_is_unsupported = False,
        itd_outgoing_references = [], itd_incoming_references = []\<rparr>"

definition example_info :: "action_profile \<Rightarrow> ir_p4info" where
  "example_info ap =
     \<lparr>tables_by_id_entries = [(1, example_table)], tables_by_name_entries = [(''wcmp_group_table'', example_table)],
      actions_by_id_entries = [(3, example_action)], actions_by_name_entries = [(''set_nexthop_id'', example_action)],
      action_profiles_by_id_entries = [(9, ap)], action_profiles_by_name_entries = [(ap_alias ap, ap)],
      packet_in_metadata_by_id = [], packet_in_metadata_by_name = [],
      packet_out_metadata_by_id = [], packet_out_metadata_by_name = [],
      references = [], built_in_tables_entries = [], dependency_rank_by_table_name_entries = []\<rparr>"

definition example_group :: "int list \<Rightarrow> ir_table_entry" where
  "example_group ws =
     \<lparr>ite_table_name = ''wcmp_group_table'', ite_matches = [], ite_priority = 0,
      ite_action = IrActionSet (map (\<lambda>w. \<lparr>iras_action = \<lparr>ira_name = ''set_nexthop_id'', ira_params = []\<rparr>,
        iras_weight = w, iras_watch_port = []\<rparr>) ws),
      ite_controller_metadata = [], ite_meter_config = None, ite_counter_data = None,
      ite_meter_counter_data = None\<rparr>"

definition example_insert :: "int list \<Rightarrow> entity_update" where
  "example_insert ws =
     \<lparr>eu_entry = IrTableEntry (example_group ws), eu_update_type = INSERT,
      eu_pi_entity = TableEntry default_table_entry,
      eu_entity_key = TableEntryKey (make_table_entry_key default_table_entry),
      eu_resource_utilization_change = default_table_resources,
      eu_app_db_update = example_app_db_update []\<rparr>"

definition example_caps :: "action_profile \<Rightarrow> capacity_map" where
  "example_caps ap = [ap_alias ap \<mapsto> GetActionProfileResourceCapacity ap]"

lemmas example_capacity_defs =
  example_profile_def example_info_def lookup_defs example_table_def example_match_field_def example_action_def example_group_def example_insert_def example_caps_def

definition example_admitted :: "int \<Rightarrow> int \<Rightarrow> int option \<Rightarrow> int list \<Rightarrow> table_resources status_or" where
  "example_admitted max_size max_group members ws =
     (let ap = example_profile max_size max_group members
      in VerifyCapacityAndGetTableResourceChange (example_info ap) (example_insert ws) Map.empty
           (example_caps ap) Map.empty)"

lemma example_admitted_eq:
  "example_admitted 100 10 (Some 4) [3, 4] =
     Inr \<lparr>tr_name = ''wcmp_group_table'',
          tr_action_profile = Some (profile_resources ''wcmp_group_selector'' [3, 4])\<rparr>"
  by code_simp

theorem admitted_update_fits_witness:
  "\<exists>c. example_caps (example_profile 100 10 (Some 4)) ''wcmp_group_selector'' = Some c \<and>
     current_use c + 0 + 2 \<le> 100"
  using admitted_update_fits [OF example_admitted_eq [unfolded example_admitted_def Let_def]]
  by (simp add: example_capacity_defs batch_subscript_def profile_cost_def
      GetActionProfileResourceCapacity_def)

theorem admitted_insert_respects_group_limits_witness:
  "int (length (action_set_actions (example_group [3, 4]))) \<le> 10 \<and>
   list_all (\<lambda>a. iras_weight a \<le> 4) (action_set_actions (example_group [3, 4]))"
  using admitted_insert_respects_group_limits
    [OF example_admitted_eq [unfolded example_admitted_def Let_def], of "example_group [3, 4]" _
      "GetActionProfileResourceCapacity (example_profile 100 10 (Some 4))"]
  by (simp add: example_capacity_defs action_set_actions_def GetActionProfileResourceCapacity_def)

text \<open>
  The 32-bit comparison matters: a group of three actions whose weights add
  up to \<open>2 ^ 32\<close> is admitted into a profile whose groups may weigh at most 10.
\<close>

theorem group_weight_limit_bypassed:
  "\<exists>info u e caps res c.
     eu_update_type u = INSERT \<and> eu_entry u = IrTableEntry e \<and>
     list_all (\<lambda>a. 0 < iras_weight a \<and> iras_weight a < 2 ^ 31) (action_set_actions e) \<and>
     VerifyCapacityAndGetTableResourceChange info u Map.empty caps Map.empty = Inr res \<and>
     caps ''wcmp_group_selector'' = Some c \<and> ap_sum_of_members (arc_action_profile c) = None \<and>
     ap_max_group_size (arc_action_profile c) = 10 \<and>
     sum_list (map iras_weight (action_set_actions e)) = 2 ^ 32"
proof -
  let ?ap = "example_profile 0 10 None" and ?ws = "[2 ^ 31 - 1, 2 ^ 31 - 1, 2]"
  have ok: "example_admitted 0 10 None ?ws =
      Inr \<lparr>tr_name = ''wcmp_group_table'',
           tr_action_profile = Some (profile_resources ''wcmp_group_selector'' ?ws)\<rparr>"
    by code_simp
  let ?u = "example_insert ?ws" and ?e = "example_group ?ws"
  let ?c = "GetActionProfileResourceCapacity ?ap"
  have "eu_update_type ?u = INSERT" "eu_entry ?u = IrTableEntry ?e"
    "list_all (\<lambda>a. 0 < iras_weight a \<and> iras_weight a < 2 ^ 31) (action_set_actions ?e)"
    "example_caps ?ap ''wcmp_group_selector'' = Some ?c"
    "ap_sum_of_members (arc_action_profile ?c) = None"
    "ap_max_group_size (arc_action_profile ?c) = 10"
    "sum_list (map iras_weight (action_set_actions ?e)) = 2 ^ 32"
    by (simp_all add: example_capacity_defs action_set_actions_def GetActionProfileResourceCapacity_def)
  with ok show ?thesis unfolding example_admitted_def Let_def by blast
qed

end
