(* ===== verification/Ordered_Map.thy ===== *)
theory Ordered_Map
  imports Prelude
begin

text \<open>
  \<open>absl::btree_map\<close> and \<open>std::map\<close>: the key-value pairs in ascending key order, so that
  iteration is list traversal. \<open>bt_insert\<close> is \<open>insert\<close> (no effect on a key that is
  present, reported in the second component), \<open>bt_assign\<close> is \<open>m[k] = v\<close>,
  \<open>bt_erase\<close> is \<open>erase\<close>, \<open>bt_find\<close> is \<open>find\<close>.
\<close>

type_synonym ('k, 'v) bt_map = "('k \<times> 'v) list"

definition bt_wf :: "('k::linorder, 'v) bt_map \<Rightarrow> bool" where
  "bt_wf m \<longleftrightarrow> sorted_wrt (<) (map fst m)"

definition bt_find :: "'k \<Rightarrow> ('k::linorder, 'v) bt_map \<Rightarrow> 'v option" where
  "bt_find k m = map_of m k"

fun bt_assign :: "'k::linorder \<Rightarrow> 'v \<Rightarrow> ('k, 'v) bt_map \<Rightarrow> ('k, 'v) bt_map" where
  "bt_assign k v [] = [(k, v)]"
| "bt_assign k v ((k', v') # m) =
     (if k < k' then (k, v) # (k', v') # m
      else if k = k' then (k, v) # m
      else (k', v') # bt_assign k v m)"

definition bt_insert :: "'k::linorder \<Rightarrow> 'v \<Rightarrow> ('k, 'v) bt_map \<Rightarrow> ('k, 'v) bt_map \<times> bool" where
  "bt_insert k v m =
     (case bt_find k m of Some _ \<Rightarrow> (m, False) | None \<Rightarrow> (bt_assign k v m, True))"

definition bt_erase :: "'k::linorder \<Rightarrow> ('k, 'v) bt_map \<Rightarrow> ('k, 'v) bt_map" where
  "bt_erase k m = filter (\<lambda>(k', _). k' \<noteq> k) m"

lemma bt_wf_Nil [simp]: "bt_wf []"
  by (simp add: bt_wf_def)

lemma bt_wf_Cons: "bt_wf ((k, v) # m) \<longleftrightarrow> (\<forall>k' \<in> fst ` set m. k < k') \<and> bt_wf m"
  by (simp add: bt_wf_def)

lemma bt_wf_distinct: "bt_wf m \<Longrightarrow> distinct (map fst m)"
  by (simp add: bt_wf_def strict_sorted_iff)

lemma bt_wf_not_before: "bt_wf ((k', v') # m) \<Longrightarrow> k \<le> k' \<Longrightarrow> k \<notin> fst ` set m"
  by (auto simp: bt_wf_Cons)

lemma bt_wf_least: "bt_wf ((k', v') # m) \<Longrightarrow> k < k' \<Longrightarrow> k \<notin> fst ` set ((k', v') # m)"
  by (auto simp: bt_wf_Cons)

lemma bt_assign_keys: "fst ` set (bt_assign k v m) = insert k (fst ` set m)"
  by (induction k v m rule: bt_assign.induct) (simp_all add: insert_commute)

lemma bt_wf_assign: "bt_wf m \<Longrightarrow> bt_wf (bt_assign k v m)"
proof (induction k v m rule: bt_assign.induct)
  case (2 k v k' v' m)
  then show ?case
    by (cases k k' rule: linorder_cases) (auto simp: bt_wf_Cons bt_assign_keys simp del: image_iff)
qed (simp add: bt_wf_def)

lemma bt_assign_map_of: "bt_wf m \<Longrightarrow> map_of (bt_assign k v m) = (map_of m)(k \<mapsto> v)"
proof (induction k v m rule: bt_assign.induct)
  case (2 k v k' v' m)
  then show ?case by (auto simp: bt_wf_Cons fun_upd_twist)
qed simp

lemma bt_insert_fresh: "snd (bt_insert k v m) \<longleftrightarrow> k \<notin> fst ` set m"
  by (auto simp: bt_insert_def bt_find_def map_of_eq_None_iff split: option.splits)
    (metis map_of_eq_None_iff fst_conv image_eqI option.distinct(1))

lemma bt_insert_eq:
  "bt_insert k v m = (if k \<in> fst ` set m then (m, False) else (bt_assign k v m, True))"
  by (auto simp: bt_insert_def bt_find_def split: option.splits)
    (metis map_of_eq_None_iff fst_conv image_eqI option.distinct(1))+

lemma bt_wf_erase: "bt_wf m \<Longrightarrow> bt_wf (bt_erase k m)"
  by (simp add: bt_wf_def bt_erase_def sorted_wrt_map sorted_wrt_filter)

lemma bt_erase_map_of: "map_of (bt_erase k m) = (map_of m)(k := None)"
  by (induction m) (auto simp: bt_erase_def fun_eq_iff)

lemma bt_length_assign:
  "bt_wf m \<Longrightarrow> length (bt_assign k v m) = (if k \<in> fst ` set m then length m else Suc (length m))"
proof (induction k v m rule: bt_assign.induct)
  case (2 k v k' v' m)
  then show ?case by (auto simp: bt_wf_Cons)
qed simp

lemma bt_eqI: "bt_wf m \<Longrightarrow> bt_wf m' \<Longrightarrow> map_of m = map_of m' \<Longrightarrow> m = m'"
proof -
  assume wf: "bt_wf m" "bt_wf m'" and eq: "map_of m = map_of m'"
  then have "set m = set m'" by (simp add: map_of_inject_set bt_wf_distinct)
  with wf show ?thesis
    by (intro map_sorted_distinct_set_unique [where f = fst])
      (auto simp: bt_wf_def strict_sorted_iff distinct_map)
qed

end
