(* ===== verification/Response_Handler.thy ===== *)
theory Response_Handler
  imports App_Db_Types Ordered_Map
begin

text \<open>
  The response path from OrchAgent (\<open>p4rt_app/sonic/response_handler.cc\<close>): collecting
  the responses of a batch, matching them against the keys that were sent, recording
  failures and rolling the application database back. OrchAgent, ZMQ and Redis are not
  part of the repository: what they answer is an argument of the definitions, and the
  Redis table operations enter through the interface \<open>table_adapter\<close>. An
  \<open>IrUpdateStatus\<close> is represented by its code.
\<close>

section \<open>Data\<close>

type_synonym field_values = "(string \<times> string) list"

text \<open>
  The \<open>swss::StatusCode\<close> members the code distinguishes; every other member of that
  enumeration takes the \<open>default\<close> branch and is represented by \<open>SWSS_RC_UNLISTED\<close>.
\<close>

datatype swss_status_code =
    SWSS_RC_SUCCESS | SWSS_RC_INVALID_PARAM | SWSS_RC_DEADLINE_EXCEEDED | SWSS_RC_UNAVAIL
  | SWSS_RC_NOT_FOUND | SWSS_RC_NO_MEMORY | SWSS_RC_EXISTS | SWSS_RC_PERMISSION_DENIED
  | SWSS_RC_FULL | SWSS_RC_IN_USE | SWSS_RC_INTERNAL | SWSS_RC_UNIMPLEMENTED
  | SWSS_RC_NOT_EXECUTED | SWSS_RC_UNKNOWN | SWSS_RC_UNLISTED

fun SwssToP4RTErrorCode :: "swss_status_code \<Rightarrow> status_code" where
  "SwssToP4RTErrorCode SWSS_RC_SUCCESS = OK"
| "SwssToP4RTErrorCode SWSS_RC_UNKNOWN = UNKNOWN"
| "SwssToP4RTErrorCode SWSS_RC_IN_USE = INVALID_ARGUMENT"
| "SwssToP4RTErrorCode SWSS_RC_INVALID_PARAM = INVALID_ARGUMENT"
| "SwssToP4RTErrorCode SWSS_RC_DEADLINE_EXCEEDED = DEADLINE_EXCEEDED"
| "SwssToP4RTErrorCode SWSS_RC_NOT_FOUND = NOT_FOUND"
| "SwssToP4RTErrorCode SWSS_RC_EXISTS = ALREADY_EXISTS"
| "SwssToP4RTErrorCode SWSS_RC_PERMISSION_DENIED = PERMISSION_DENIED"
| "SwssToP4RTErrorCode SWSS_RC_FULL = RESOURCE_EXHAUSTED"
| "SwssToP4RTErrorCode SWSS_RC_UNIMPLEMENTED = UNIMPLEMENTED"
| "SwssToP4RTErrorCode SWSS_RC_INTERNAL = INTERNAL"
| "SwssToP4RTErrorCode SWSS_RC_NO_MEMORY = INTERNAL"
| "SwssToP4RTErrorCode SWSS_RC_UNAVAIL = UNAVAILABLE"
| "SwssToP4RTErrorCode SWSS_RC_NOT_EXECUTED = ABORTED"
| "SwssToP4RTErrorCode SWSS_RC_UNLISTED = UNKNOWN"

section \<open>Collecting responses\<close>

text \<open>What \<open>producer.wait\<close> delivers, when it does not time out.\<close>

record zmq_response =
  zmq_db_name :: string
  zmq_table_name :: string
  zmq_kfvs :: "key_op_fields_values list"

definition APP_P4RT_TABLE_NAME :: string where
  "APP_P4RT_TABLE_NAME = ''P4RT_TABLE''"

text \<open>The loop of \<open>GetZmqResponses\<close>; \<open>str_code\<close> is \<open>swss::strToStatusCode\<close>.\<close>

fun collect_zmq_responses ::
  "(string \<Rightarrow> swss_status_code) \<Rightarrow> key_op_fields_values list \<Rightarrow> (string, status_code) bt_map \<Rightarrow>
   (string, status_code) bt_map status_or" where
  "collect_zmq_responses str_code [] m = Inr m"
| "collect_zmq_responses str_code (kfv # kfvs) m =
     (case kfvFieldsValues kfv of
        [] \<Rightarrow> Inl INTERNAL
      | (field, _) # _ \<Rightarrow>
          (let (m', inserted) = bt_insert (kfvKey kfv) (SwssToP4RTErrorCode (str_code field)) m
           in if \<not> inserted then Inl INTERNAL else collect_zmq_responses str_code kfvs m'))"

definition GetZmqResponses ::
  "(string \<Rightarrow> swss_status_code) \<Rightarrow> nat \<Rightarrow> zmq_response option \<Rightarrow> (string, status_code) bt_map status_or" where
  "GetZmqResponses str_code expected_response_count response =
     (if expected_response_count = 0 then Inr []
      else case response of
             None \<Rightarrow> Inl INTERNAL
           | Some r \<Rightarrow>
               if length (zmq_kfvs r) \<noteq> expected_response_count then Inl INTERNAL
               else if zmq_db_name r \<noteq> ''APPL_DB'' \<or> zmq_table_name r \<noteq> APP_P4RT_TABLE_NAME
               then Inl INTERNAL
               else collect_zmq_responses str_code (zmq_kfvs r) [])"

text \<open>A notification of the consumer channel: status string, key and values.\<close>

type_synonym notification = "string \<times> string \<times> field_values"

text \<open>
  \<open>GetAppDbResponses\<close> pops one notification per expected response. \<open>wait_pop\<close> is
  \<open>WaitForNotificationAndPop\<close>; it delivers nothing when it times out.
\<close>

fun collect_app_db_responses ::
  "(string \<Rightarrow> swss_status_code) \<Rightarrow> ('db \<Rightarrow> notification option \<times> 'db) \<Rightarrow> nat \<Rightarrow> 'db \<Rightarrow>
   (string, status_code) bt_map \<Rightarrow> (string, status_code) bt_map status_or \<times> 'db" where
  "collect_app_db_responses str_code wait_pop 0 db m = (Inr m, db)"
| "collect_app_db_responses str_code wait_pop (Suc n) db m =
     (case wait_pop db of
        (None, db') \<Rightarrow> (Inl INTERNAL, db')
      | (Some (status_str, key, values), db') \<Rightarrow>
          (case values of
             [] \<Rightarrow> (Inl INTERNAL, db')
           | (field, _) # _ \<Rightarrow>
               if field \<noteq> ''err_str'' then (Inl INTERNAL, db')
               else (let (m', inserted) = bt_insert key (SwssToP4RTErrorCode (str_code status_str)) m
                     in if \<not> inserted then (Inl INTERNAL, db')
                        else collect_app_db_responses str_code wait_pop n db' m')))"

definition GetAppDbResponses ::
  "(string \<Rightarrow> swss_status_code) \<Rightarrow> ('db \<Rightarrow> notification option \<times> 'db) \<Rightarrow> nat \<Rightarrow> 'db \<Rightarrow>
   (string, status_code) bt_map status_or \<times> 'db" where
  "GetAppDbResponses str_code wait_pop n db = collect_app_db_responses str_code wait_pop n db []"

section \<open>Matching responses and restoring state\<close>

text \<open>
  \<open>state_get\<close> reads the state database; \<open>tbl_del\<close> and \<open>tbl_set\<close> write the application
  database \<open>'db\<close>.
\<close>

definition RestoreApplDb ::
  "(string \<Rightarrow> field_values) \<Rightarrow> (string \<Rightarrow> 'db \<Rightarrow> 'db) \<Rightarrow> (string \<Rightarrow> field_values \<Rightarrow> 'db \<Rightarrow> 'db) \<Rightarrow>
   string \<Rightarrow> 'db \<Rightarrow> 'db" where
  "RestoreApplDb state_get tbl_del tbl_set key db =
     (let values = state_get key
      in if values = [] then tbl_del key db else tbl_set key values (tbl_del key db))"

text \<open>
  The two-pointer walk of \<open>UpdateResponsesAndRestoreState\<close>. The expected map binds a
  key to the status object to fill in: the index of a status in the response being
  built, or nothing for a null pointer. \<open>restore\<close> is the rollback of one key, the
  identity when no tables are passed. The number of error messages is counted.
\<close>

fun update_responses ::
  "(string \<Rightarrow> 'db \<Rightarrow> 'db) \<Rightarrow> (string, nat option) bt_map \<Rightarrow> (string, status_code) bt_map \<Rightarrow> nat \<Rightarrow>
   status_code list \<times> 'db \<Rightarrow> status_code \<times> status_code list \<times> 'db" where
  "update_responses restore [] [] errors st = (if errors = 0 then OK else INTERNAL, st)"
| "update_responses restore (e # es) [] errors st = update_responses restore es [] (Suc errors) st"
| "update_responses restore [] (r # rs) errors st = update_responses restore [] rs (Suc errors) st"
| "update_responses restore ((ek, p) # es) ((rk, code) # rs) errors (statuses, db) =
     (if ek < rk then update_responses restore es ((rk, code) # rs) (Suc errors) (statuses, db)
      else if rk < ek then update_responses restore ((ek, p) # es) rs (Suc errors) (statuses, db)
      else case p of
             None \<Rightarrow> (INTERNAL, statuses, db)
           | Some i \<Rightarrow>
               if code \<noteq> OK
               then update_responses restore es rs errors (statuses[i := code], restore rk db)
               else update_responses restore es rs errors (statuses, db))"

definition UpdateResponsesAndRestoreState ::
  "(string \<Rightarrow> 'db \<Rightarrow> 'db) \<Rightarrow> (string, nat option) bt_map \<Rightarrow> (string, status_code) bt_map \<Rightarrow>
   status_code list \<times> 'db \<Rightarrow> status_code \<times> status_code list \<times> 'db" where
  "UpdateResponsesAndRestoreState restore expected responses st =
     update_responses restore expected responses 0 st"

text \<open>
  The adapters of one SONiC table, all working on the state \<open>'db\<close> behind them: draining
  and popping the notification channel, the producer, and the Redis tables of the
  application and the application state database.
\<close>

record 'db sonic_table_ops =
  op_drain :: "'db \<Rightarrow> 'db"
  op_wait_pop :: "'db \<Rightarrow> notification option \<times> 'db"
  op_produce_set :: "string \<Rightarrow> field_values \<Rightarrow> 'db \<Rightarrow> 'db"
  op_produce_del :: "string \<Rightarrow> 'db \<Rightarrow> 'db"
  op_app_del :: "string \<Rightarrow> 'db \<Rightarrow> 'db"
  op_app_set :: "string \<Rightarrow> field_values \<Rightarrow> 'db \<Rightarrow> 'db"
  op_app_get :: "'db \<Rightarrow> string \<Rightarrow> field_values"
  op_state_get :: "'db \<Rightarrow> string \<Rightarrow> field_values"
  op_app_keys :: "'db \<Rightarrow> string list"

definition restore_op :: "'db sonic_table_ops \<Rightarrow> string \<Rightarrow> 'db \<Rightarrow> 'db" where
  "restore_op ops key db = RestoreApplDb (op_state_get ops db) (op_app_del ops) (op_app_set ops) key db"

text \<open>\<open>GetAndProcessResponseNotification\<close> for a set of keys, and for one key.\<close>

definition GetAndProcessResponseNotification ::
  "(string \<Rightarrow> swss_status_code) \<Rightarrow> 'db sonic_table_ops \<Rightarrow>
   (string, nat option) bt_map \<Rightarrow> status_code list \<times> 'db \<Rightarrow> status_code \<times> status_code list \<times> 'db" where
  "GetAndProcessResponseNotification str_code ops expected st =
     (case GetAppDbResponses str_code (op_wait_pop ops) (length expected) (snd st) of
        (Inl e, db) \<Rightarrow> (e, fst st, db)
      | (Inr responses, db) \<Rightarrow>
          UpdateResponsesAndRestoreState (restore_op ops) expected responses (fst st, db))"

definition GetAndProcessResponseNotification_key ::
  "(string \<Rightarrow> swss_status_code) \<Rightarrow> 'db sonic_table_ops \<Rightarrow> string \<Rightarrow> 'db \<Rightarrow>
   status_code status_or \<times> 'db" where
  "GetAndProcessResponseNotification_key str_code ops key db =
     (case GetAndProcessResponseNotification str_code ops [(key, Some 0)] ([OK], db) of
        (st, local, db') \<Rightarrow> (if st \<noteq> OK then Inl st else Inr (local ! 0), db'))"

definition GetAndProcessResponseNotificationWithoutRevertingState ::
  "(string \<Rightarrow> swss_status_code) \<Rightarrow> zmq_response option \<Rightarrow> (string, nat option) bt_map \<Rightarrow> status_code list \<Rightarrow>
   status_code \<times> status_code list" where
  "GetAndProcessResponseNotificationWithoutRevertingState str_code response expected statuses =
     (case GetZmqResponses str_code (length expected) response of
        Inl e \<Rightarrow> (e, statuses)
      | Inr responses \<Rightarrow>
          (case UpdateResponsesAndRestoreState (\<lambda>_ db. db) expected responses (statuses, ()) of
             (st, statuses', _) \<Rightarrow> (st, statuses')))"

definition GetAndProcessResponseNotificationWithoutRevertingState_key ::
  "(string \<Rightarrow> swss_status_code) \<Rightarrow> zmq_response option \<Rightarrow> string \<Rightarrow> status_code status_or" where
  "GetAndProcessResponseNotificationWithoutRevertingState_key str_code response key =
     (case GetAndProcessResponseNotificationWithoutRevertingState str_code response
             [(key, Some 0)] [OK] of
        (st, local) \<Rightarrow> if st \<noteq> OK then Inl st else Inr (local ! 0))"

section \<open>Lemmas\<close>

lemma collect_zmq_responses_Inr:
  "collect_zmq_responses sc kfvs m = Inr m' \<Longrightarrow> bt_wf m \<Longrightarrow>
     bt_wf m' \<and> list_all (\<lambda>kfv. kfvFieldsValues kfv \<noteq> []) kfvs \<and>
     distinct (map kfvKey kfvs) \<and> kfvKey ` set kfvs \<inter> fst ` set m = {} \<and>
     length m' = length m + length kfvs \<and>
     map_of m' = map_of m ++ map_of (rev (map (\<lambda>kfv. (kfvKey kfv,
         SwssToP4RTErrorCode (sc (fst (hd (kfvFieldsValues kfv)))))) kfvs))"
proof (induction kfvs arbitrary: m)
  case (Cons kfv kfvs)
  from Cons(2) obtain f w fvs where fv: "kfvFieldsValues kfv = (f, w) # fvs"
    by (cases "kfvFieldsValues kfv") auto
  let ?m = "bt_assign (kfvKey kfv) (SwssToP4RTErrorCode (sc f)) m"
  from Cons(2) have fresh: "kfvKey kfv \<notin> fst ` set m"
    by (auto simp: fv bt_insert_eq split: if_splits)
  with Cons(2) have rec: "collect_zmq_responses sc kfvs ?m = Inr m'"
    by (simp add: fv bt_insert_eq)
  from Cons(1) [OF rec bt_wf_assign [OF Cons(3)]] fresh Cons(3) show ?case
    by (auto simp: fv bt_assign_keys bt_length_assign bt_assign_map_of fun_eq_iff map_add_def
        split: option.splits simp del: image_iff)
qed simp

lemma collect_zmq_responses_total:
  "bt_wf m \<Longrightarrow> list_all (\<lambda>kfv. kfvFieldsValues kfv \<noteq> []) kfvs \<Longrightarrow> distinct (map kfvKey kfvs) \<Longrightarrow>
     kfvKey ` set kfvs \<inter> fst ` set m = {} \<Longrightarrow> \<exists>m'. collect_zmq_responses sc kfvs m = Inr m'"
proof (induction kfvs arbitrary: m)
  case (Cons kfv kfvs)
  then obtain f w fvs where fv: "kfvFieldsValues kfv = (f, w) # fvs"
    by (cases "kfvFieldsValues kfv") auto
  have "\<exists>m'. collect_zmq_responses sc kfvs
      (bt_assign (kfvKey kfv) (SwssToP4RTErrorCode (sc f)) m) = Inr m'"
    using Cons.prems by (intro Cons.IH) (auto simp: bt_wf_assign bt_assign_keys simp del: image_iff)
  then show ?case
    using Cons.prems by (auto simp: fv bt_insert_eq)
qed simp

lemma collect_zmq_responses_error:
  "collect_zmq_responses sc kfvs m = Inl e \<Longrightarrow> e = INTERNAL"
  by (induction kfvs arbitrary: m)
    (auto simp: bt_insert_eq split: list.splits if_splits)

lemma update_responses_length:
  "update_responses restore es rs n (sts, db) = (st, sts', db') \<Longrightarrow> length sts' = length sts"
  by (induction restore es rs n "(sts, db)" arbitrary: sts db rule: update_responses.induct)
    (auto split: if_splits option.splits)

lemma update_responses_codes:
  "fst (update_responses restore es rs n st) \<in> {OK, INTERNAL}"
  by (induction restore es rs n st rule: update_responses.induct) (auto split: option.splits)

lemma update_responses_OK_iff:
  "fst (update_responses restore es rs n st) = OK \<longleftrightarrow>
     n = 0 \<and> map fst es = map fst rs \<and> None \<notin> snd ` set es"
  by (induction restore es rs n st rule: update_responses.induct)
    (auto split: option.splits)

text \<open>On matching keys the walk visits the pairs in order.\<close>

lemma update_responses_match:
  assumes "map fst es = map fst rs" and "None \<notin> snd ` set es"
  shows "update_responses restore es rs 0 (sts, db) =
    (OK, foldl (\<lambda>s (e, r). if snd r \<noteq> OK then s[the (snd e) := snd r] else s) sts (zip es rs),
     fold restore (map fst (filter (\<lambda>r. snd r \<noteq> OK) rs)) db)"
  using assms
proof (induction es arbitrary: rs sts db)
  case (Cons e es)
  then obtain r rs' where rs: "rs = r # rs'" by (cases rs) auto
  obtain k p where e: "e = (k, p)" by (cases e)
  obtain c where r: "r = (k, c)" using Cons.prems by (cases r) (auto simp: rs e)
  from Cons.prems obtain i where p: "p = Some i" by (cases p) (auto simp: e)
  from Cons show ?case by (auto simp: rs r e p)
qed simp

lemma foldl_statuses_other:
  "i \<notin> the ` snd ` set es \<Longrightarrow>
     foldl (\<lambda>s (e, r). if snd r \<noteq> OK then s[the (snd e) := snd r] else s) sts (zip es rs) ! i = sts ! i"
proof (induction es arbitrary: rs sts)
  case (Cons e es)
  then show ?case by (cases rs) auto
qed simp

lemma foldl_statuses_at:
  assumes "distinct (map (the \<circ> snd) es)" and "length es = length rs" and "j < length es"
    and "list_all (\<lambda>e. the (snd e) < length sts) es"
  shows "foldl (\<lambda>s (e, r). if snd r \<noteq> OK then s[the (snd e) := snd r] else s) sts (zip es rs)
           ! the (snd (es ! j)) =
         (if snd (rs ! j) = OK then sts ! the (snd (es ! j)) else snd (rs ! j))"
  using assms
proof (induction es arbitrary: rs sts j)
  case (Cons e es)
  then obtain r rs' where rs: "rs = r # rs'" by (cases rs) auto
  show ?case
  proof (cases j)
    case 0
    have "the (snd e) \<notin> the ` snd ` set es" using Cons.prems(1) by (auto simp: image_image)
    then show ?thesis using Cons.prems(4) by (simp add: rs 0 foldl_statuses_other)
  next
    case (Suc j')
    have "the (snd e) \<noteq> the (snd (es ! j'))"
      using Cons.prems(1,3) by (auto simp: Suc image_iff)
    with Cons Suc show ?thesis by (simp add: rs)
  qed
qed simp

lemma nth_key_map_of:
  "distinct (map fst m) \<Longrightarrow> j < length m \<Longrightarrow> map_of m (fst (m ! j)) = Some (snd (m ! j))"
  by (metis map_of_eq_Some_iff nth_mem prod.collapse)

lemma GetZmqResponses_iff:
  "0 < n \<Longrightarrow> (\<exists>m. GetZmqResponses sc n (Some r) = Inr m) \<longleftrightarrow>
      length (zmq_kfvs r) = n \<and> zmq_db_name r = ''APPL_DB'' \<and> zmq_table_name r = ''P4RT_TABLE'' \<and>
      list_all (\<lambda>kfv. kfvFieldsValues kfv \<noteq> []) (zmq_kfvs r) \<and> distinct (map kfvKey (zmq_kfvs r))"
  using collect_zmq_responses_total [of "[]" "zmq_kfvs r" sc]
  by (auto simp: GetZmqResponses_def APP_P4RT_TABLE_NAME_def dest: collect_zmq_responses_Inr)

lemma GetZmqResponses_Inr:
  assumes "0 < n" and m: "GetZmqResponses sc n (Some r) = Inr m"
  shows "bt_wf m \<and> length m = n \<and>
      map_of m = map_of (map (\<lambda>kfv. (kfvKey kfv,
        SwssToP4RTErrorCode (sc (fst (hd (kfvFieldsValues kfv)))))) (zmq_kfvs r))"
proof -
  let ?f = "\<lambda>kfv. (kfvKey kfv, SwssToP4RTErrorCode (sc (fst (hd (kfvFieldsValues kfv)))))"
  from m assms have c: "collect_zmq_responses sc (zmq_kfvs r) [] = Inr m" "length (zmq_kfvs r) = n"
    by (auto simp: GetZmqResponses_def split: if_splits)
  note collect_zmq_responses_Inr [OF c(1) bt_wf_Nil]
  moreover from this have "distinct (map fst (map ?f (zmq_kfvs r)))" by (simp add: comp_def)
  then have "map_of (rev (map ?f (zmq_kfvs r))) = map_of (map ?f (zmq_kfvs r))"
    by (rule map_of_rev_distinct)
  ultimately show ?thesis
    using c(2) by simp
qed

lemma GetZmqResponses_Inl: "GetZmqResponses sc n (Some r) = Inl e \<Longrightarrow> e = INTERNAL"
  by (auto simp: GetZmqResponses_def split: if_splits dest: collect_zmq_responses_error)

section \<open>The contract of a SONiC table\<close>

text \<open>
  What the response path relies on. Deleting and writing an entry behave as on a map from
  keys to field-value maps; a producer request is answered by one notification that
  carries an \<open>err_str\<close> field; OrchAgent copies the entry to the state database exactly
  when it answers \<open>SWSS_RC_SUCCESS\<close>.
\<close>

definition upd_command :: "'db sonic_table_ops \<Rightarrow> string \<Rightarrow> field_values option \<Rightarrow> 'db \<Rightarrow> 'db" where
  "upd_command ops key content db =
     (case content of Some vs \<Rightarrow> op_produce_set ops key vs db | None \<Rightarrow> op_produce_del ops key db)"

text \<open>The application and the application state database hold the same entries.\<close>

definition tables_synced :: "'db sonic_table_ops \<Rightarrow> 'db \<Rightarrow> bool" where
  "tables_synced ops db \<longleftrightarrow> (\<forall>k. map_of (op_app_get ops db k) = map_of (op_state_get ops db k))"

locale sonic_table =
  fixes ops :: "'db sonic_table_ops"
    and inv :: "'db \<Rightarrow> bool"
    and answer :: "'db \<Rightarrow> string \<Rightarrow> string"
  assumes state_distinct: "inv db \<Longrightarrow> distinct (map fst (op_state_get ops db k))"
    and del_laws: "inv db \<Longrightarrow> inv (op_app_del ops k db) \<and>
        op_state_get ops (op_app_del ops k db) = op_state_get ops db \<and>
        op_app_get ops (op_app_del ops k db) = (op_app_get ops db)(k := [])"
    and set_laws: "inv db \<Longrightarrow> inv (op_app_set ops k vs db) \<and>
        op_state_get ops (op_app_set ops k vs db) = op_state_get ops db"
    and set_other: "k' \<noteq> k \<Longrightarrow> op_app_get ops (op_app_set ops k vs db) k' = op_app_get ops db k'"
    and set_after_del: "inv db \<Longrightarrow> distinct (map fst vs) \<Longrightarrow>
        map_of (op_app_get ops (op_app_set ops k vs (op_app_del ops k db)) k) = map_of vs"
    and produce_laws: "inv db \<Longrightarrow> \<exists>m db'.
        op_wait_pop ops (upd_command ops k content (op_drain ops db)) =
          (Some (answer db k, k, [(''err_str'', m)]), db') \<and> inv db' \<and>
        map_of (op_app_get ops db' k) = (case content of None \<Rightarrow> Map.empty | Some vs \<Rightarrow> last_wins vs) \<and>
        (\<forall>k'. k' \<noteq> k \<longrightarrow> op_app_get ops db' k' = op_app_get ops db k' \<and>
              op_state_get ops db' k' = op_state_get ops db k') \<and>
        (if answer db k = ''SWSS_RC_SUCCESS''
         then map_of (op_state_get ops db' k) = map_of (op_app_get ops db' k)
         else op_state_get ops db' k = op_state_get ops db k)"
begin

lemma restore_laws:
  assumes "inv db"
  shows "inv (restore_op ops k db)"
    and "op_state_get ops (restore_op ops k db) = op_state_get ops db"
    and "k' \<noteq> k \<Longrightarrow> op_app_get ops (restore_op ops k db) k' = op_app_get ops db k'"
    and "map_of (op_app_get ops (restore_op ops k db) k) = map_of (op_state_get ops db k)"
  using assms del_laws [OF assms, of k] state_distinct [OF assms, of k]
    set_laws [of "op_app_del ops k db" k] set_after_del [OF assms, of _ k]
  by (auto simp: restore_op_def RestoreApplDb_def Let_def set_other)

text \<open>One request and its answer: applied to both databases, or to neither.\<close>

lemma produce_then_process:
  assumes inv: "inv db" and sync: "tables_synced ops db"
    and sc: "\<And>s. SwssToP4RTErrorCode (sc s) = OK \<longleftrightarrow> s = ''SWSS_RC_SUCCESS''"
  shows "\<exists>db'. GetAndProcessResponseNotification_key sc ops k
      (upd_command ops k content (op_drain ops db)) = (Inr (SwssToP4RTErrorCode (sc (answer db k))), db') \<and>
      inv db' \<and> tables_synced ops db' \<and>
      (\<forall>k'. map_of (op_app_get ops db' k') =
        (if k' = k \<and> answer db k = ''SWSS_RC_SUCCESS'' then (case content of None \<Rightarrow> Map.empty | Some vs \<Rightarrow> last_wins vs)
         else map_of (op_app_get ops db k')))"
proof -
  from produce_laws [OF inv, of k content] obtain m db1 where
    w: "op_wait_pop ops (upd_command ops k content (op_drain ops db)) =
          (Some (answer db k, k, [(''err_str'', m)]), db1)" and inv1: "inv db1" and
    app: "map_of (op_app_get ops db1 k) = (case content of None \<Rightarrow> Map.empty | Some vs \<Rightarrow> last_wins vs)"
    and oth: "\<And>k'. k' \<noteq> k \<Longrightarrow> op_app_get ops db1 k' = op_app_get ops db k' \<and>
              op_state_get ops db1 k' = op_state_get ops db k'"
    and st: "if answer db k = ''SWSS_RC_SUCCESS''
         then map_of (op_state_get ops db1 k) = map_of (op_app_get ops db1 k)
         else op_state_get ops db1 k = op_state_get ops db k"
    by auto
  let ?c = "SwssToP4RTErrorCode (sc (answer db k))"
  let ?db = "if ?c = OK then db1 else restore_op ops k db1"
  have run: "GetAndProcessResponseNotification_key sc ops k
      (upd_command ops k content (op_drain ops db)) = (Inr ?c, ?db)"
    by (simp add: GetAndProcessResponseNotification_key_def GetAndProcessResponseNotification_def
        GetAppDbResponses_def UpdateResponsesAndRestoreState_def w bt_insert_def bt_find_def)
  note R = restore_laws [OF inv1, of k] restore_laws(3) [OF inv1]
  have "inv ?db" using inv1 R by simp
  moreover have "map_of (op_app_get ops ?db k') = map_of (op_state_get ops ?db k')" for k'
    using sync st sc oth R by (cases "k' = k") (auto simp: tables_synced_def)
  moreover have "map_of (op_app_get ops ?db k') =
        (if k' = k \<and> answer db k = ''SWSS_RC_SUCCESS'' then (case content of None \<Rightarrow> Map.empty | Some vs \<Rightarrow> last_wins vs)
         else map_of (op_app_get ops db k'))" for k'
    using sync st sc oth R app by (cases "k' = k") (auto simp: tables_synced_def)
  ultimately show ?thesis using run unfolding tables_synced_def by blast
qed

end

section \<open>Properties\<close>

text \<open>
  Responses received over ZMQ are accepted exactly when the batch has the expected
  number of responses, comes from the P4RT table of the application database, and has
  no empty and no duplicate response; the resulting map then binds every key of the batch
  to the code of its response, and nothing else. Every rejection is an internal error.
\<close>

theorem GetZmqResponses_spec:
  assumes "0 < n"
  shows "((\<exists>m. GetZmqResponses sc n (Some r) = Inr m) \<longleftrightarrow>
      length (zmq_kfvs r) = n \<and> zmq_db_name r = ''APPL_DB'' \<and> zmq_table_name r = ''P4RT_TABLE'' \<and>
      list_all (\<lambda>kfv. kfvFieldsValues kfv \<noteq> []) (zmq_kfvs r) \<and> distinct (map kfvKey (zmq_kfvs r))) \<and>
    (case GetZmqResponses sc n (Some r) of
       Inl e \<Rightarrow> e = INTERNAL
     | Inr m \<Rightarrow> bt_wf m \<and> length m = n \<and>
         map_of m = map_of (map (\<lambda>kfv. (kfvKey kfv,
           SwssToP4RTErrorCode (sc (fst (hd (kfvFieldsValues kfv)))))) (zmq_kfvs r))) \<and>
    GetZmqResponses sc n None = Inl INTERNAL"
  using assms GetZmqResponses_iff [of n sc r] GetZmqResponses_Inr [of n sc r]
    GetZmqResponses_Inl [of sc n r]
  by (auto simp: GetZmqResponses_def [of sc n None] split: sum.split)

definition example_zmq_response :: "(string \<times> string) list \<Rightarrow> zmq_response" where
  "example_zmq_response ks = \<lparr>zmq_db_name = ''APPL_DB'', zmq_table_name = ''P4RT_TABLE'',
     zmq_kfvs = map (\<lambda>(k, code). \<lparr>kfvKey = k, kfvOp = [], kfvFieldsValues = [(code, ''msg'')]\<rparr>) ks\<rparr>"

definition example_str_code :: "string \<Rightarrow> swss_status_code" where
  "example_str_code s = (if s = ''SWSS_RC_SUCCESS'' then SWSS_RC_SUCCESS
     else if s = ''SWSS_RC_FULL'' then SWSS_RC_FULL else SWSS_RC_UNKNOWN)"

theorem GetZmqResponses_spec_witness:
  "0 < (2::nat) \<and>
   (\<exists>m. GetZmqResponses example_str_code 2
      (Some (example_zmq_response [(''b'', ''SWSS_RC_FULL''), (''a'', ''SWSS_RC_SUCCESS'')])) = Inr m) \<and>
   GetZmqResponses example_str_code 2
      (Some (example_zmq_response [(''b'', ''SWSS_RC_FULL''), (''a'', ''SWSS_RC_SUCCESS'')])) =
      Inr [(''a'', OK), (''b'', RESOURCE_EXHAUSTED)]"
proof -
  have "GetZmqResponses example_str_code 2
      (Some (example_zmq_response [(''b'', ''SWSS_RC_FULL''), (''a'', ''SWSS_RC_SUCCESS'')])) =
      Inr [(''a'', OK), (''b'', RESOURCE_EXHAUSTED)]"
    by code_simp
  then show ?thesis
    using GetZmqResponses_spec [of 2 example_str_code
        "example_zmq_response [(''b'', ''SWSS_RC_FULL''), (''a'', ''SWSS_RC_SUCCESS'')]"]
    by (simp add: example_zmq_response_def)
qed

text \<open>
  Matching responses against the expected keys succeeds exactly when the two maps
  have the same keys and every expected key has a status object; otherwise the result is
  an internal error.
\<close>

theorem UpdateResponsesAndRestoreState_status:
  "fst (UpdateResponsesAndRestoreState restore expected responses st) =
     (if map fst expected = map fst responses \<and> None \<notin> snd ` set expected then OK else INTERNAL)"
  using update_responses_OK_iff [of restore expected responses 0 st]
    update_responses_codes [of restore expected responses 0 st]
  by (auto simp: UpdateResponsesAndRestoreState_def)

text \<open>
  C34. When matching succeeds, the status object of each key receives the code of the
  response if the response is a failure and keeps its value otherwise; no other status
  changes; and exactly the keys that failed are rolled back, in key order.
\<close>

theorem UpdateResponsesAndRestoreState_effect:
  assumes "UpdateResponsesAndRestoreState restore expected responses (sts, db) = (OK, sts', db')"
    and "distinct (map (the \<circ> snd) expected)" and "distinct (map fst expected)"
    and "list_all (\<lambda>e. the (snd e) < length sts) expected"
  shows "(\<forall>k i c. map_of expected k = Some (Some i) \<longrightarrow> map_of responses k = Some c \<longrightarrow>
           sts' ! i = (if c = OK then sts ! i else c)) \<and>
    (\<forall>i. Some i \<notin> snd ` set expected \<longrightarrow> sts' ! i = sts ! i) \<and>
    db' = fold restore (map fst (filter (\<lambda>r. snd r \<noteq> OK) responses)) db"
proof -
  from assms(1) update_responses_OK_iff [of restore expected responses 0 "(sts, db)"]
  have keys: "map fst expected = map fst responses" and "None \<notin> snd ` set expected"
    by (simp_all add: UpdateResponsesAndRestoreState_def)
  from update_responses_match [OF this, of restore sts db] assms(1)
  have sts': "sts' = foldl (\<lambda>s (e, r). if snd r \<noteq> OK then s[the (snd e) := snd r] else s)
      sts (zip expected responses)"
    and db': "db' = fold restore (map fst (filter (\<lambda>r. snd r \<noteq> OK) responses)) db"
    by (simp_all add: UpdateResponsesAndRestoreState_def)
  have len: "length expected = length responses" using keys by (metis length_map)
  have at: "sts' ! i = (if c = OK then sts ! i else c)"
    if k: "map_of expected k = Some (Some i)" "map_of responses k = Some c" for k i c
  proof -
    from k(1) obtain j where j: "j < length expected" "expected ! j = (k, Some i)"
      by (metis in_set_conv_nth map_of_SomeD)
    moreover have "fst (responses ! j) = k"
      using j keys len by (metis nth_map fst_conv)
    ultimately have "snd (responses ! j) = c"
      using k(2) nth_key_map_of [of responses j] assms(3) keys len by simp
    with foldl_statuses_at [OF assms(2) len j(1) assms(4)] j show ?thesis by (simp add: sts')
  qed
  have other: "sts' ! i = sts ! i" if "Some i \<notin> snd ` set expected" for i
  proof -
    have "i \<notin> the ` snd ` set expected"
      using that \<open>None \<notin> snd ` set expected\<close> by (auto simp: image_iff) (metis option.collapse snd_conv)
    then show ?thesis by (simp add: sts' foldl_statuses_other)
  qed
  from at other db' show ?thesis by blast
qed

theorem UpdateResponsesAndRestoreState_effect_witness:
  "UpdateResponsesAndRestoreState (\<lambda>k db. k # db) [(''a'', Some 1), (''b'', Some 0)]
     [(''a'', OK), (''b'', RESOURCE_EXHAUSTED)] ([OK, OK, OK], []) =
     (OK, [RESOURCE_EXHAUSTED, OK, OK], [''b'']) \<and>
   [RESOURCE_EXHAUSTED, OK, OK] ! 0 = RESOURCE_EXHAUSTED"
proof -
  have run: "UpdateResponsesAndRestoreState (\<lambda>k db. k # db) [(''a'', Some 1), (''b'', Some 0)]
     [(''a'', OK), (''b'', RESOURCE_EXHAUSTED)] ([OK, OK, OK], []) =
     (OK, [RESOURCE_EXHAUSTED, OK, OK], [''b''])"
    by code_simp
  from UpdateResponsesAndRestoreState_effect [OF run] show ?thesis
    using run by simp
qed

end
