(* ===== verification/Sonic_Db.thy ===== *)
theory Sonic_Db
  imports Response_Handler "HOL-Library.AList"
begin

text \<open>
  The in-memory SONiC database of \<open>p4rt_app/sonic/adapters/fake_*.cc\<close>, which stands in
  for Redis and OrchAgent: tables of field-value maps, the queue of pending notifications
  and the configured answers. It provides the interface \<open>sonic_table\<close> that the response
  path is verified against. An \<open>unordered_map\<close> is an association list without repeated
  keys; its order stands for the unspecified iteration order and no statement depends
  on it.
\<close>

section \<open>FakeSonicDbTable\<close>

record response_info =
  ri_code :: string
  ri_message :: string

record fake_sonic_db_table =
  fdb_entries :: "(string \<times> field_values) list"
  fdb_notifications :: "string list"
  fdb_responses :: "(string \<times> response_info) list"

text \<open>A table together with the table its \<open>state_db_\<close> pointer refers to, if any.\<close>

record fake_db =
  fake_app :: fake_sonic_db_table
  fake_state :: "fake_sonic_db_table option"

definition entry_of :: "field_values \<Rightarrow> field_values" where
  "entry_of values = foldl (\<lambda>entry (field, data). AList.update field data entry) [] values"

definition InsertTableEntry :: "string \<Rightarrow> field_values \<Rightarrow> fake_sonic_db_table \<Rightarrow> fake_sonic_db_table" where
  "InsertTableEntry key values t =
     t\<lparr>fdb_entries := AList.update key (entry_of values) (fdb_entries t)\<rparr>"

definition DeleteTableEntry :: "string \<Rightarrow> fake_sonic_db_table \<Rightarrow> fake_sonic_db_table" where
  "DeleteTableEntry key t = t\<lparr>fdb_entries := AList.delete key (fdb_entries t)\<rparr>"

definition SetResponseForKey ::
  "string \<Rightarrow> string \<Rightarrow> string \<Rightarrow> fake_sonic_db_table \<Rightarrow> fake_sonic_db_table" where
  "SetResponseForKey key code message t =
     t\<lparr>fdb_responses := AList.update key \<lparr>ri_code = code, ri_message = message\<rparr> (fdb_responses t)\<rparr>"

definition ReadTableEntry :: "string \<Rightarrow> fake_sonic_db_table \<Rightarrow> field_values status_or" where
  "ReadTableEntry key t =
     (case map_of (fdb_entries t) key of Some e \<Rightarrow> Inr e | None \<Rightarrow> Inl NOT_FOUND)"

definition GetAllKeys :: "fake_sonic_db_table \<Rightarrow> string list" where
  "GetAllKeys t = map fst (fdb_entries t)"

definition UpdateAppStateDb :: "string \<Rightarrow> fake_sonic_db_table \<Rightarrow> bool" where
  "UpdateAppStateDb key t =
     (case map_of (fdb_responses t) key of
        None \<Rightarrow> True
      | Some r \<Rightarrow> ri_code r = ''SWSS_RC_SUCCESS'')"

definition InsertStateDbTableEntry :: "string \<Rightarrow> field_values \<Rightarrow> fake_db \<Rightarrow> fake_db" where
  "InsertStateDbTableEntry key values db =
     (case fake_state db of
        None \<Rightarrow> db
      | Some t \<Rightarrow> db\<lparr>fake_state := Some (InsertTableEntry key values (DeleteTableEntry key t))\<rparr>)"

definition DeleteStateDbTableEntry :: "string \<Rightarrow> fake_db \<Rightarrow> fake_db" where
  "DeleteStateDbTableEntry key db =
     (case fake_state db of
        None \<Rightarrow> db
      | Some t \<Rightarrow> db\<lparr>fake_state := Some (DeleteTableEntry key t)\<rparr>)"

definition push_notification :: "string \<Rightarrow> fake_db \<Rightarrow> fake_db" where
  "push_notification key db =
     db\<lparr>fake_app := (fake_app db)\<lparr>fdb_notifications := fdb_notifications (fake_app db) @ [key]\<rparr>\<rparr>"

definition PushNotification :: "string \<Rightarrow> fake_db \<Rightarrow> fake_db \<times> bool" where
  "PushNotification key db0 =
     (let db = push_notification key db0
      in if \<not> UpdateAppStateDb key (fake_app db) then (db, False)
         else case map_of (fdb_entries (fake_app db)) key of
                Some entry \<Rightarrow> (InsertStateDbTableEntry key entry db, True)
              | None \<Rightarrow> (DeleteStateDbTableEntry key db, True))"

definition PushNotification_op :: "string \<Rightarrow> string \<Rightarrow> field_values \<Rightarrow> fake_db \<Rightarrow> fake_db \<times> bool" where
  "PushNotification_op key op values db0 =
     (let db = push_notification key db0
      in if \<not> UpdateAppStateDb key (fake_app db) then (db, False)
         else if op = ''SET'' then (InsertStateDbTableEntry key values db, True)
         else (DeleteStateDbTableEntry key db, True))"

definition GetNextNotification :: "fake_db \<Rightarrow> notification status_or \<times> fake_db" where
  "GetNextNotification db =
     (case fdb_notifications (fake_app db) of
        [] \<Rightarrow> (Inl DEADLINE_EXCEEDED, db)
      | data # rest \<Rightarrow>
          (Inr (case map_of (fdb_responses (fake_app db)) data of
                  Some r \<Rightarrow> (ri_code r, data, [(''err_str'', ri_message r)])
                | None \<Rightarrow> (''SWSS_RC_SUCCESS'', data, [(''err_str'', ''SWSS_RC_SUCCESS'')])),
           db\<lparr>fake_app := (fake_app db)\<lparr>fdb_notifications := rest\<rparr>\<rparr>))"

section \<open>The fake adapters\<close>

definition fake_WaitForNotificationAndPop :: "fake_db \<Rightarrow> notification option \<times> fake_db" where
  "fake_WaitForNotificationAndPop db =
     (case GetNextNotification db of
        (Inl _, db') \<Rightarrow> (None, db')
      | (Inr n, db') \<Rightarrow> (Some n, db'))"

function (domintros) fake_DrainNotifications :: "fake_db \<Rightarrow> fake_db" where
  "fake_DrainNotifications db =
     (case GetNextNotification db of
        (Inl _, db') \<Rightarrow> db'
      | (Inr _, db') \<Rightarrow> fake_DrainNotifications db')"
  by pat_completeness auto

termination fake_DrainNotifications
  by (relation "measure (\<lambda>db. length (fdb_notifications (fake_app db)))")
    (auto simp: GetNextNotification_def split: list.splits)

definition fake_producer_set :: "string \<Rightarrow> field_values \<Rightarrow> fake_db \<Rightarrow> fake_db" where
  "fake_producer_set key values db =
     fst (PushNotification key (db\<lparr>fake_app := InsertTableEntry key values (fake_app db)\<rparr>))"

definition fake_producer_del :: "string \<Rightarrow> fake_db \<Rightarrow> fake_db" where
  "fake_producer_del key db =
     fst (PushNotification key (db\<lparr>fake_app := DeleteTableEntry key (fake_app db)\<rparr>))"

definition fake_producer_batch_set :: "key_op_fields_values list \<Rightarrow> fake_db \<Rightarrow> fake_db" where
  "fake_producer_batch_set kvs db = foldl (\<lambda>db u. fake_producer_set (kfvKey u) (kfvFieldsValues u) db) db kvs"

definition fake_producer_batch_del :: "string list \<Rightarrow> fake_db \<Rightarrow> fake_db" where
  "fake_producer_batch_del ks db = foldl (\<lambda>db k. fake_producer_del k db) db ks"

definition fake_table_get :: "fake_sonic_db_table \<Rightarrow> string \<Rightarrow> field_values" where
  "fake_table_get t key = (case ReadTableEntry key t of Inr e \<Rightarrow> e | Inl _ \<Rightarrow> [])"

definition fake_table_exists :: "string \<Rightarrow> fake_sonic_db_table \<Rightarrow> bool" where
  "fake_table_exists key t = (case ReadTableEntry key t of Inr _ \<Rightarrow> True | Inl _ \<Rightarrow> False)"

definition fake_table_batch_set :: "key_op_fields_values list \<Rightarrow> fake_sonic_db_table \<Rightarrow> fake_sonic_db_table" where
  "fake_table_batch_set vs t = foldl (\<lambda>t v. InsertTableEntry (kfvKey v) (kfvFieldsValues v) t) t vs"

definition fake_table_batch_del :: "string list \<Rightarrow> fake_sonic_db_table \<Rightarrow> fake_sonic_db_table" where
  "fake_table_batch_del ks t = foldl (\<lambda>t k. DeleteTableEntry k t) t ks"

text \<open>One update of \<open>FakeZmqProducerStateTableAdapter::send\<close>, the whole batch, and \<open>wait\<close>.\<close>

definition fake_zmq_send_one :: "key_op_fields_values \<Rightarrow> fake_db \<Rightarrow> fake_db" where
  "fake_zmq_send_one kfv db =
     (case PushNotification_op (kfvKey kfv) (kfvOp kfv) (entry_of (kfvFieldsValues kfv)) db of
        (db', False) \<Rightarrow> db'
      | (db', True) \<Rightarrow>
          (let t = DeleteTableEntry (kfvKey kfv) (fake_app db')
           in db'\<lparr>fake_app := (if kfvOp kfv = ''SET''
                then InsertTableEntry (kfvKey kfv) (kfvFieldsValues kfv) t else t)\<rparr>))"

definition fake_zmq_send :: "key_op_fields_values list \<Rightarrow> fake_db \<Rightarrow> fake_db" where
  "fake_zmq_send kfvs db = foldl (\<lambda>db kfv. fake_zmq_send_one kfv db) db kfvs"

function (domintros) fake_zmq_drain :: "fake_db \<Rightarrow> key_op_fields_values list \<times> fake_db" where
  "fake_zmq_drain db =
     (case GetNextNotification db of
        (Inl _, db') \<Rightarrow> ([], db')
      | (Inr (op, key, values), db') \<Rightarrow>
          (case fake_zmq_drain db' of
             (kcos, db'') \<Rightarrow>
               (\<lparr>kfvKey = key, kfvOp = [], kfvFieldsValues = map (\<lambda>(f, v). (op, v)) (take 1 values)
                  @ drop 1 values\<rparr> # kcos, db'')))"
  by pat_completeness auto

termination fake_zmq_drain
  by (relation "measure (\<lambda>db. length (fdb_notifications (fake_app db)))")
    (auto simp: GetNextNotification_def split: list.splits)

definition fake_zmq_wait :: "fake_db \<Rightarrow> zmq_response option \<times> fake_db" where
  "fake_zmq_wait db =
     (case fake_zmq_drain db of
        (kcos, db') \<Rightarrow>
          (if kcos = [] then None
           else Some \<lparr>zmq_db_name = ''APPL_DB'', zmq_table_name = APP_P4RT_TABLE_NAME, zmq_kfvs = kcos\<rparr>,
           db'))"

definition fake_ops :: "fake_db sonic_table_ops" where
  "fake_ops =
     \<lparr>op_drain = fake_DrainNotifications,
      op_wait_pop = fake_WaitForNotificationAndPop,
      op_produce_set = fake_producer_set,
      op_produce_del = fake_producer_del,
      op_app_del = (\<lambda>k db. db\<lparr>fake_app := DeleteTableEntry k (fake_app db)\<rparr>),
      op_app_set = (\<lambda>k vs db. db\<lparr>fake_app := InsertTableEntry k vs (fake_app db)\<rparr>),
      op_app_get = (\<lambda>db. fake_table_get (fake_app db)),
      op_state_get = (\<lambda>db. case fake_state db of Some t \<Rightarrow> fake_table_get t | None \<Rightarrow> (\<lambda>_. [])),
      op_app_keys = (\<lambda>db. GetAllKeys (fake_app db))\<rparr>"

section \<open>Invariant and lemmas\<close>

text \<open>Every stored entry binds a field once, and the state table exists.\<close>

definition table_wf :: "fake_sonic_db_table \<Rightarrow> bool" where
  "table_wf t \<longleftrightarrow> list_all (\<lambda>(_, e). distinct (map fst e)) (fdb_entries t)"

definition fake_db_wf :: "fake_db \<Rightarrow> bool" where
  "fake_db_wf db \<longleftrightarrow> table_wf (fake_app db) \<and>
     (case fake_state db of None \<Rightarrow> False | Some t \<Rightarrow> table_wf t)"

lemma foldl_update_conv:
  "map_of (foldl (\<lambda>e (f, d). AList.update f d e) e0 vs) = foldl (\<lambda>m (k, v). m(k \<mapsto> v)) (map_of e0) vs"
  by (induction vs arbitrary: e0) (auto simp: AList.update_conv')

lemma entry_of_map_of [simp]: "map_of (entry_of vs) = last_wins vs"
  by (simp add: entry_of_def last_wins_def foldl_update_conv)

lemma foldl_update_distinct:
  "distinct (map fst e0) \<Longrightarrow> distinct (map fst (foldl (\<lambda>e (f, d). AList.update f d e) e0 vs))"
  by (induction vs arbitrary: e0) (auto intro: AList.distinct_update)

lemma entry_of_distinct [simp]: "distinct (map fst (entry_of vs))"
  by (simp add: entry_of_def foldl_update_distinct)

lemma last_wins_map_of: "distinct (map fst vs) \<Longrightarrow> last_wins vs = map_of vs"
  by (simp add: last_wins_eq map_of_rev_distinct)

lemma get_InsertTableEntry [simp]:
  "fake_table_get (InsertTableEntry k vs t) = (fake_table_get t)(k := entry_of vs)"
  by (auto simp: fake_table_get_def ReadTableEntry_def InsertTableEntry_def AList.update_conv' fun_eq_iff)

lemma get_DeleteTableEntry [simp]:
  "fake_table_get (DeleteTableEntry k t) = (fake_table_get t)(k := [])"
  by (auto simp: fake_table_get_def ReadTableEntry_def DeleteTableEntry_def AList.delete_conv' fun_eq_iff)

lemma get_notifications [simp]:
  "fake_table_get (t\<lparr>fdb_notifications := ns\<rparr>) = fake_table_get t"
  by (simp add: fake_table_get_def ReadTableEntry_def fun_eq_iff)

lemma set_AList_update: "set (AList.update k v al) \<subseteq> insert (k, v) (set al)"
  by (induction al) auto

lemma table_wf_update [simp]: "table_wf t \<Longrightarrow> table_wf (InsertTableEntry k vs t)"
  using set_AList_update [of k "entry_of vs" "fdb_entries t"]
  by (fastforce simp: table_wf_def InsertTableEntry_def list_all_iff)

lemma table_wf_delete [simp]: "table_wf t \<Longrightarrow> table_wf (DeleteTableEntry k t)"
  by (auto simp: table_wf_def DeleteTableEntry_def list_all_iff AList.delete_eq)

lemma table_wf_notifications [simp]: "table_wf (t\<lparr>fdb_notifications := ns\<rparr>) = table_wf t"
  by (simp add: table_wf_def)

lemma table_wf_get: "table_wf t \<Longrightarrow> distinct (map fst (fake_table_get t k))"
  by (auto simp: table_wf_def fake_table_get_def ReadTableEntry_def list_all_iff
      split: option.splits dest: map_of_SomeD)

declare fake_DrainNotifications.simps [simp del] fake_zmq_drain.simps [simp del]

lemma fake_DrainNotifications_eq:
  "fake_DrainNotifications db = db\<lparr>fake_app := (fake_app db)\<lparr>fdb_notifications := []\<rparr>\<rparr>"
proof (induction db rule: fake_DrainNotifications.induct)
  case (1 db)
  show ?case
  proof (cases "fdb_notifications (fake_app db)")
    case Nil
    then have "db = db\<lparr>fake_app := (fake_app db)\<lparr>fdb_notifications := []\<rparr>\<rparr>" by simp
    then show ?thesis
      by (subst fake_DrainNotifications.simps) (simp add: GetNextNotification_def Nil)
  next
    case (Cons n ns)
    with 1 show ?thesis
      by (subst fake_DrainNotifications.simps) (simp add: GetNextNotification_def)
  qed
qed

lemma fdb_notifications_id: "fdb_notifications t = [] \<Longrightarrow> t\<lparr>fdb_notifications := []\<rparr> = t"
  by simp

lemma table_ops_fields [simp]:
  "fdb_notifications (InsertTableEntry k vs t) = fdb_notifications t"
  "fdb_notifications (DeleteTableEntry k t) = fdb_notifications t"
  "fdb_responses (InsertTableEntry k vs t) = fdb_responses t"
  "fdb_responses (DeleteTableEntry k t) = fdb_responses t"
  "map_of (fdb_entries (InsertTableEntry k vs t)) = (map_of (fdb_entries t))(k \<mapsto> entry_of vs)"
  "map_of (fdb_entries (DeleteTableEntry k t)) = (map_of (fdb_entries t))(k := None)"
  by (simp_all add: InsertTableEntry_def DeleteTableEntry_def AList.update_conv' AList.delete_conv')

lemma UpdateAppStateDb_notifications [simp]:
  "UpdateAppStateDb k (t\<lparr>fdb_notifications := ns\<rparr>) = UpdateAppStateDb k t"
  by (simp add: UpdateAppStateDb_def)

definition answer_of :: "fake_sonic_db_table \<Rightarrow> string \<Rightarrow> notification" where
  "answer_of t k = (case map_of (fdb_responses t) k of
     Some r \<Rightarrow> (ri_code r, k, [(''err_str'', ri_message r)])
   | None \<Rightarrow> (''SWSS_RC_SUCCESS'', k, [(''err_str'', ''SWSS_RC_SUCCESS'')]))"

lemma answer_of_cases:
  "\<exists>s m. answer_of t k = (s, k, [(''err_str'', m)]) \<and>
     (s = ''SWSS_RC_SUCCESS'' \<longleftrightarrow> UpdateAppStateDb k t)"
  by (auto simp: answer_of_def UpdateAppStateDb_def split: option.splits)

text \<open>A request on an empty queue: the answer is the configured one, and only a success reaches the state table.\<close>

lemma push_then_pop:
  assumes "fdb_notifications (fake_app db) = []" and "fake_state db = Some st"
  shows "fake_WaitForNotificationAndPop (fst (PushNotification k db)) =
    (Some (answer_of (fake_app db) k),
     if UpdateAppStateDb k (fake_app db)
     then db\<lparr>fake_state := Some (case map_of (fdb_entries (fake_app db)) k of
                Some e \<Rightarrow> InsertTableEntry k e (DeleteTableEntry k st)
              | None \<Rightarrow> DeleteTableEntry k st)\<rparr>
     else db)"
proof -
  have id: "db\<lparr>fake_app := fake_app db\<lparr>fdb_notifications := []\<rparr>\<rparr> = db"
    "db\<lparr>fake_state := x, fake_app := fake_app db\<lparr>fdb_notifications := []\<rparr>\<rparr> = db\<lparr>fake_state := x\<rparr>" for x
    using assms(1) by simp_all
  show ?thesis
    using assms id
    by (auto simp: PushNotification_def Let_def answer_of_def push_notification_def
        fake_WaitForNotificationAndPop_def GetNextNotification_def InsertStateDbTableEntry_def
        DeleteStateDbTableEntry_def split: option.splits)
qed

text \<open>The code that OrchAgent answers for a key: the configured one, else success.\<close>

definition fake_answer :: "fake_db \<Rightarrow> string \<Rightarrow> string" where
  "fake_answer db k = fst (answer_of (fake_app db) k)"

lemma answer_of_fields:
  "fst (answer_of (t\<lparr>fdb_notifications := ns\<rparr>) k) = fst (answer_of t k)"
  "fst (answer_of (InsertTableEntry j vs t) k) = fst (answer_of t k)"
  "fst (answer_of (DeleteTableEntry j t) k) = fst (answer_of t k)"
  by (simp_all add: answer_of_def split: option.split)

interpretation fake: sonic_table fake_ops fake_db_wf fake_answer
proof
  fix db k vs k' content
  assume inv: "fake_db_wf db"
  then obtain st where st: "fake_state db = Some st" "table_wf st" "table_wf (fake_app db)"
    by (auto simp: fake_db_wf_def split: option.splits)
  show "distinct (map fst (op_state_get fake_ops db k))"
    using st by (simp add: fake_ops_def table_wf_get)
  show "fake_db_wf (op_app_del fake_ops k db) \<and>
        op_state_get fake_ops (op_app_del fake_ops k db) = op_state_get fake_ops db \<and>
        op_app_get fake_ops (op_app_del fake_ops k db) = (op_app_get fake_ops db)(k := [])"
    using st by (simp add: fake_ops_def fake_db_wf_def)
  show "fake_db_wf (op_app_set fake_ops k vs db) \<and>
        op_state_get fake_ops (op_app_set fake_ops k vs db) = op_state_get fake_ops db"
    using st by (simp add: fake_ops_def fake_db_wf_def)
  show "distinct (map fst vs) \<Longrightarrow>
        map_of (op_app_get fake_ops (op_app_set fake_ops k vs (op_app_del fake_ops k db)) k) = map_of vs"
    by (simp add: fake_ops_def last_wins_map_of)
  show "\<exists>m db'.
        op_wait_pop fake_ops (upd_command fake_ops k content (op_drain fake_ops db)) =
          (Some (fake_answer db k, k, [(''err_str'', m)]), db') \<and> fake_db_wf db' \<and>
        map_of (op_app_get fake_ops db' k) = (case content of None \<Rightarrow> Map.empty | Some vs \<Rightarrow> last_wins vs) \<and>
        (\<forall>k'. k' \<noteq> k \<longrightarrow> op_app_get fake_ops db' k' = op_app_get fake_ops db k' \<and>
              op_state_get fake_ops db' k' = op_state_get fake_ops db k') \<and>
        (if fake_answer db k = ''SWSS_RC_SUCCESS''
         then map_of (op_state_get fake_ops db' k) = map_of (op_app_get fake_ops db' k)
         else op_state_get fake_ops db' k = op_state_get fake_ops db k)"
  proof -
    let ?db = "db\<lparr>fake_app := (fake_app db)\<lparr>fdb_notifications := []\<rparr>\<rparr>"
    let ?t = "case content of None \<Rightarrow> DeleteTableEntry k (fake_app ?db)
      | Some vs \<Rightarrow> InsertTableEntry k vs (fake_app ?db)"
    have cmd: "upd_command fake_ops k content (op_drain fake_ops db) =
        fst (PushNotification k (?db\<lparr>fake_app := ?t\<rparr>))"
      by (simp add: upd_command_def fake_ops_def fake_DrainNotifications_eq fake_producer_set_def
          fake_producer_del_def split: option.splits)
    have "fdb_notifications (fake_app (?db\<lparr>fake_app := ?t\<rparr>)) = []"
      by (simp split: option.splits)
    from push_then_pop [OF this, of st k] st
    have pop: "op_wait_pop fake_ops (upd_command fake_ops k content (op_drain fake_ops db)) =
      (Some (answer_of ?t k), if UpdateAppStateDb k ?t
        then ?db\<lparr>fake_app := ?t, fake_state := Some (case map_of (fdb_entries ?t) k of
                Some e \<Rightarrow> InsertTableEntry k e (DeleteTableEntry k st)
              | None \<Rightarrow> DeleteTableEntry k st)\<rparr>
        else ?db\<lparr>fake_app := ?t\<rparr>)"
      by (simp add: cmd) (simp add: fake_ops_def)
    have "fst (answer_of ?t k) = fake_answer db k"
      by (simp add: fake_answer_def answer_of_fields split: option.split)
    with answer_of_cases [of ?t k] obtain m where
      "answer_of ?t k = (fake_answer db k, k, [(''err_str'', m)])"
      "fake_answer db k = ''SWSS_RC_SUCCESS'' \<longleftrightarrow> UpdateAppStateDb k ?t"
      by auto
    with pop st show ?thesis
      by (cases content) (auto simp: fake_ops_def fake_db_wf_def last_wins_map_of)
  qed
next
  fix k k' :: string and vs db
  show "k' \<noteq> k \<Longrightarrow> op_app_get fake_ops (op_app_set fake_ops k vs db) k' = op_app_get fake_ops db k'"
    by (simp add: fake_ops_def)
qed

end
