(* ===== verification/Number_Text.thy ===== *)
theory Number_Text
  imports Prelude
begin

text \<open>
  Numbers as text: printing in a base (what \<open>absl::StrCat\<close> and \<open>"%x"\<close> do), reading a
  digit string back, and splitting a string at a delimiter (\<open>absl::StrSplit\<close>).
\<close>

text \<open>Numbers as \<open>absl::StrCat\<close> and \<open>"%x"\<close> print them.\<close>

definition digit_char :: "nat \<Rightarrow> char" where
  "digit_char d = (if d < 10 then char_of (48 + d) else char_of (87 + d))"

fun base_str :: "nat \<Rightarrow> nat \<Rightarrow> string" where
  "base_str b n = (if b < 2 \<or> n < b then [digit_char n] else base_str b (n div b) @ [digit_char (n mod b)])"

declare base_str.simps [simp del]

definition dec_str :: "nat \<Rightarrow> string" where
  "dec_str n = base_str 10 n"

text \<open>\<open>absl::StrSplit\<close> at a single character.\<close>

fun str_split :: "char \<Rightarrow> string \<Rightarrow> string list" where
  "str_split d [] = [[]]"
| "str_split d (c # cs) =
     (if c = d then [] # str_split d cs
      else case str_split d cs of w # ws \<Rightarrow> (c # w) # ws | [] \<Rightarrow> [[c]])"

definition digit_value :: "char \<Rightarrow> nat option" where
  "digit_value c = (let n = of_char c in
     if 48 \<le> n \<and> n < 58 then Some (n - 48)
     else if 97 \<le> n \<and> n < 103 then Some (n - 87)
     else if 65 \<le> n \<and> n < 71 then Some (n - 55) else None)"

text \<open>Reading a digit string in a base, without sign or white space.\<close>

fun parse_digits :: "nat \<Rightarrow> nat \<Rightarrow> string \<Rightarrow> nat option" where
  "parse_digits b acc [] = Some acc"
| "parse_digits b acc (c # cs) =
     (case digit_value c of
        Some d \<Rightarrow> if d < b then parse_digits b (acc * b + d) cs else None
      | None \<Rightarrow> None)"

definition parse_base :: "nat \<Rightarrow> string \<Rightarrow> nat option" where
  "parse_base b s = (if s = [] then None else parse_digits b 0 s)"

lemma digit_value_char [simp]: "d < 16 \<Longrightarrow> digit_value (digit_char d) = Some d"
  by (auto simp: digit_value_def digit_char_def Let_def of_char_of)

lemma parse_digits_append:
  "parse_digits b acc (xs @ ys) = Option.bind (parse_digits b acc xs) (\<lambda>a. parse_digits b a ys)"
  by (induction xs arbitrary: acc) (auto split: option.splits)

lemma parse_digits_base_str:
  "2 \<le> b \<Longrightarrow> b \<le> 16 \<Longrightarrow> parse_digits b 0 (base_str b n) = Some n"
proof (induction b n rule: base_str.induct)
  case (1 b n)
  show ?case
  proof (cases "n < b")
    case True
    with 1 show ?thesis by (subst base_str.simps) simp
  next
    case False
    with 1 have "parse_digits b 0 (base_str b (n div b)) = Some (n div b)" by simp
    moreover have "n mod b < b" using 1 by simp
    moreover from this have "n mod b < 16" using 1 by linarith
    ultimately show ?thesis
      using False 1 by (subst base_str.simps) (simp add: parse_digits_append)
  qed
qed

lemma base_str_not_Nil [simp]: "base_str b n \<noteq> []"
  by (subst base_str.simps) simp

lemma parse_base_str: "2 \<le> b \<Longrightarrow> b \<le> 16 \<Longrightarrow> parse_base b (base_str b n) = Some n"
  by (simp add: parse_base_def parse_digits_base_str)

lemma base_str_chars: "b \<le> 16 \<Longrightarrow> 2 \<le> b \<Longrightarrow> set (base_str b n) \<subseteq> digit_char ` {..<16}"
proof (induction b n rule: base_str.induct)
  case (1 b n)
  have "n mod b < 16" using 1(2,3) mod_less_divisor [of b n] by linarith
  with 1 show ?case by (subst base_str.simps) auto
qed

lemma colon_not_digit: "CHR '':'' \<notin> digit_char ` {..<16}"
proof
  assume "CHR '':'' \<in> digit_char ` {..<16}"
  then obtain d where "d < 16" "CHR '':'' = digit_char d" by auto
  then have "digit_value CHR '':'' = Some d" by simp
  then show False by (simp add: digit_value_def)
qed

lemma str_split_no_delim: "d \<notin> set w \<Longrightarrow> str_split d w = [w]"
  by (induction w) auto

lemma str_split_not_Nil: "str_split d w \<noteq> []"
  by (cases w) (auto split: list.splits)

lemma str_split_append: "d \<notin> set v \<Longrightarrow> str_split d (v @ d # p) = v # str_split d p"
  by (induction v) (auto split: list.splits simp: str_split_not_Nil)

lemma str_split_two:
  "d \<notin> set v \<Longrightarrow> d \<notin> set p \<Longrightarrow> str_split d (v @ d # p) = [v, p]"
  by (induction v) (auto simp: str_split_no_delim)

end
