(* ===== verification/Vrf_Vlan.thy ===== *)
theory Vrf_Vlan
  imports Sonic_Db Number_Text
begin

text \<open>
  The VRF, VLAN and VLAN member tables (\<open>p4rt_app/sonic/vrf_entry_translation.cc\<close>,
  \<open>vlan_entry_translation.cc\<close>): translating table entries to AppDb updates and back, and
  performing one update against the adapters of the table. \<open>absl::SimpleAtoi\<close> and
  \<open>absl::SimpleHexAtoi\<close> on \<open>uint32_t\<close> are parameters.
\<close>

definition SET_COMMAND :: string where "SET_COMMAND = ''SET''"
definition DEL_COMMAND :: string where "DEL_COMMAND = ''DEL''"

definition ir_str :: "ir_value \<Rightarrow> string" where
  "ir_str v = (case v of Str s \<Rightarrow> s | _ \<Rightarrow> [])"

definition ir_hex_str :: "ir_value \<Rightarrow> string" where
  "ir_hex_str v = (case v of HexStr s \<Rightarrow> s | _ \<Rightarrow> [])"

definition match_exact :: "ir_match \<Rightarrow> ir_value" where
  "match_exact m = (case irm_value m of IrExact v \<Rightarrow> v | _ \<Rightarrow> ValueNotSet)"

definition action_name :: "ir_table_entry \<Rightarrow> string" where
  "action_name e = (case ite_action e of IrAction a \<Rightarrow> ira_name a | _ \<Rightarrow> [])"

definition hex03_str :: "nat \<Rightarrow> string" where
  "hex03_str n = (let s = base_str 16 n in ''0x'' @ replicate (3 - length s) CHR ''0'' @ s)"

section \<open>VRF\<close>

definition GetVrfValues :: field_values where
  "GetVrfValues = [(''v4'', ''true''), (''v6'', ''true'')]"

fun vrf_key_of :: "ir_match list \<Rightarrow> string status_or" where
  "vrf_key_of [] = Inl INVALID_ARGUMENT"
| "vrf_key_of (m # ms) =
     (if irm_name m \<noteq> ''vrf_id'' then vrf_key_of ms
      else if ir_str (match_exact m) = [] then Inl INVALID_ARGUMENT
      else Inr (ir_str (match_exact m)))"

definition GetVrfTableKey :: "ir_table_entry \<Rightarrow> string status_or" where
  "GetVrfTableKey e = vrf_key_of (ite_matches e)"

definition kfv :: "string \<Rightarrow> string \<Rightarrow> field_values \<Rightarrow> key_op_fields_values" where
  "kfv key op values = \<lparr>kfvKey = key, kfvOp = op, kfvFieldsValues = values\<rparr>"

definition CreateAppDbVrfUpdate :: "update_type \<Rightarrow> ir_table_entry \<Rightarrow> key_op_fields_values status_or" where
  "CreateAppDbVrfUpdate ut e =
     bind_or (GetVrfTableKey e) (\<lambda>key.
       case ut of
         INSERT \<Rightarrow> Inr (kfv key SET_COMMAND GetVrfValues)
       | MODIFY \<Rightarrow> Inl INVALID_ARGUMENT
       | DELETE \<Rightarrow> Inr (kfv key DEL_COMMAND [])
       | UPDATE_UNSPECIFIED \<Rightarrow> Inl INVALID_ARGUMENT)"

definition PerformAppDbVrfUpdate ::
  "(string \<Rightarrow> swss_status_code) \<Rightarrow> 'db sonic_table_ops \<Rightarrow> key_op_fields_values \<Rightarrow> 'db \<Rightarrow>
   status_code status_or \<times> 'db" where
  "PerformAppDbVrfUpdate str_code vrf_table update db0 =
     (let db = op_drain vrf_table db0
      in if kfvOp update = SET_COMMAND
         then GetAndProcessResponseNotification_key str_code vrf_table (kfvKey update)
                (op_produce_set vrf_table (kfvKey update) (kfvFieldsValues update) db)
         else if kfvOp update = DEL_COMMAND
         then GetAndProcessResponseNotification_key str_code vrf_table (kfvKey update)
                (op_produce_del vrf_table (kfvKey update) db)
         else (Inl INVALID_ARGUMENT, db))"

definition GetAllAppDbVrfTableEntries :: "'db sonic_table_ops \<Rightarrow> 'db \<Rightarrow> ir_table_entry list status_or" where
  "GetAllAppDbVrfTableEntries vrf_table db =
     Inr (map (\<lambda>key. default_ir_table_entry\<lparr>ite_table_name := ''vrf_table'',
            ite_matches := [\<lparr>irm_name = ''vrf_id'', irm_value = IrExact (Str key)\<rparr>],
            ite_action := IrAction \<lparr>ira_name = ''no_action'', ira_params = []\<rparr>\<rparr>)
          (op_app_keys vrf_table db))"

section \<open>VLAN\<close>

definition GetVlanValues :: "ir_table_entry \<Rightarrow> field_values" where
  "GetVlanValues e = (''source'', ''P4'') #
     (if ite_controller_metadata e \<noteq> [] then [(''controller_metadata'', ite_controller_metadata e)] else [])"

definition GetVlanMemberValues :: "ir_table_entry \<Rightarrow> field_values" where
  "GetVlanMemberValues e =
     [(''source'', ''P4''),
      (''tagging_mode'', if action_name e = ''make_tagged_member'' then ''tagged'' else ''untagged'')] @
     (if ite_controller_metadata e \<noteq> [] then [(''controller_metadata'', ite_controller_metadata e)] else [])"

definition StripVlanPrefixAndReturnHexString :: "(string \<Rightarrow> nat option) \<Rightarrow> string \<Rightarrow> string status_or" where
  "StripVlanPrefixAndReturnHexString atoi key =
     (if take 4 key \<noteq> ''Vlan'' then Inl INVALID_ARGUMENT
      else case atoi (drop 4 key) of
             None \<Rightarrow> Inl INVALID_ARGUMENT
           | Some vlan_id \<Rightarrow> if vlan_id > 4095 then Inl INVALID_ARGUMENT else Inr (hex03_str vlan_id))"

definition ExtractVlanIdAndPortIdFromMemberKey ::
  "(string \<Rightarrow> nat option) \<Rightarrow> string \<Rightarrow> (string \<times> string) status_or" where
  "ExtractVlanIdAndPortIdFromMemberKey atoi key =
     (case str_split CHR '':'' key of
        [v, p] \<Rightarrow> bind_or (StripVlanPrefixAndReturnHexString atoi v) (\<lambda>h. Inr (h, p))
      | _ \<Rightarrow> Inl INVALID_ARGUMENT)"

definition vlan_id_key :: "(string \<Rightarrow> nat option) \<Rightarrow> ir_match \<Rightarrow> string status_or" where
  "vlan_id_key hex_atoi m =
     (case hex_atoi (ir_hex_str (match_exact m)) of
        None \<Rightarrow> Inl INVALID_ARGUMENT
      | Some i \<Rightarrow> if i > 4094 \<or> i < 1 then Inl INVALID_ARGUMENT else Inr (''Vlan'' @ dec_str i))"

fun vlan_key_of :: "(string \<Rightarrow> nat option) \<Rightarrow> ir_match list \<Rightarrow> string status_or" where
  "vlan_key_of hex_atoi [] = Inl INVALID_ARGUMENT"
| "vlan_key_of hex_atoi (m # ms) =
     (if irm_name m \<noteq> ''vlan_id'' then vlan_key_of hex_atoi ms else vlan_id_key hex_atoi m)"

definition GetVlanTableKey :: "(string \<Rightarrow> nat option) \<Rightarrow> ir_table_entry \<Rightarrow> string status_or" where
  "GetVlanTableKey hex_atoi e = vlan_key_of hex_atoi (ite_matches e)"

fun vlan_member_key_of ::
  "(string \<Rightarrow> nat option) \<Rightarrow> ir_match list \<Rightarrow> string \<times> string \<Rightarrow> (string \<times> string) status_or" where
  "vlan_member_key_of hex_atoi [] vp = Inr vp"
| "vlan_member_key_of hex_atoi (m # ms) (vlan, port) =
     (if irm_name m = ''vlan_id''
      then bind_or (vlan_id_key hex_atoi m) (\<lambda>v. vlan_member_key_of hex_atoi ms (v, port))
      else if irm_name m = ''port''
      then vlan_member_key_of hex_atoi ms (vlan, ir_str (match_exact m))
      else vlan_member_key_of hex_atoi ms (vlan, port))"

definition GetVlanMemberTableKey :: "(string \<Rightarrow> nat option) \<Rightarrow> ir_table_entry \<Rightarrow> string status_or" where
  "GetVlanMemberTableKey hex_atoi e =
     bind_or (vlan_member_key_of hex_atoi (ite_matches e) ([], [])) (\<lambda>(vlan, port).
       if vlan = [] \<or> port = [] then Inl INVALID_ARGUMENT else Inr (vlan @ '':'' @ port))"

definition CreateAppDbVlanUpdate ::
  "(string \<Rightarrow> nat option) \<Rightarrow> update_type \<Rightarrow> ir_table_entry \<Rightarrow> key_op_fields_values status_or" where
  "CreateAppDbVlanUpdate hex_atoi ut e =
     bind_or (GetVlanTableKey hex_atoi e) (\<lambda>key.
       case ut of
         INSERT \<Rightarrow> Inr (kfv key SET_COMMAND (GetVlanValues e))
       | MODIFY \<Rightarrow> Inl INVALID_ARGUMENT
       | DELETE \<Rightarrow> Inr (kfv key DEL_COMMAND [])
       | UPDATE_UNSPECIFIED \<Rightarrow> Inl INVALID_ARGUMENT)"

definition CreateAppDbVlanMemberUpdate ::
  "(string \<Rightarrow> nat option) \<Rightarrow> update_type \<Rightarrow> ir_table_entry \<Rightarrow> key_op_fields_values status_or" where
  "CreateAppDbVlanMemberUpdate hex_atoi ut e =
     bind_or (GetVlanMemberTableKey hex_atoi e) (\<lambda>key.
       case ut of
         INSERT \<Rightarrow> Inr (kfv key SET_COMMAND (GetVlanMemberValues e))
       | MODIFY \<Rightarrow> Inr (kfv key SET_COMMAND (GetVlanMemberValues e))
       | DELETE \<Rightarrow> Inr (kfv key DEL_COMMAND [])
       | UPDATE_UNSPECIFIED \<Rightarrow> Inl INVALID_ARGUMENT)"

definition PerformAppDbVlanUpdate ::
  "(string \<Rightarrow> swss_status_code) \<Rightarrow> 'db sonic_table_ops \<Rightarrow> key_op_fields_values \<Rightarrow> 'db \<Rightarrow>
   status_code status_or \<times> 'db" where
  "PerformAppDbVlanUpdate str_code vlan_table update db0 =
     (let db = op_drain vlan_table db0
      in if kfvOp update = SET_COMMAND
         then GetAndProcessResponseNotification_key str_code vlan_table (kfvKey update)
                (op_produce_set vlan_table (kfvKey update) (kfvFieldsValues update) db)
         else if kfvOp update = DEL_COMMAND
         then GetAndProcessResponseNotification_key str_code vlan_table (kfvKey update)
                (op_produce_del vlan_table (kfvKey update) db)
         else (Inl INVALID_ARGUMENT, db))"

definition PerformAppDbVlanMemberUpdate ::
  "(string \<Rightarrow> swss_status_code) \<Rightarrow> 'db sonic_table_ops \<Rightarrow> key_op_fields_values \<Rightarrow> 'db \<Rightarrow>
   status_code status_or \<times> 'db" where
  "PerformAppDbVlanMemberUpdate str_code vlan_member_table update db0 =
     (let db = op_drain vlan_member_table db0
      in if kfvOp update = SET_COMMAND
         then GetAndProcessResponseNotification_key str_code vlan_member_table (kfvKey update)
                (op_produce_set vlan_member_table (kfvKey update) (kfvFieldsValues update) db)
         else if kfvOp update = DEL_COMMAND
         then GetAndProcessResponseNotification_key str_code vlan_member_table (kfvKey update)
                (op_produce_del vlan_member_table (kfvKey update) db)
         else (Inl INVALID_ARGUMENT, db))"

text \<open>Reading back: the fields of an entry are visited in the table's order.\<close>

definition vlan_entry_of_key ::
  "(string \<Rightarrow> nat option) \<Rightarrow> 'db sonic_table_ops \<Rightarrow> 'db \<Rightarrow> string \<Rightarrow> ir_table_entry status_or" where
  "vlan_entry_of_key atoi vlan_table db key =
     bind_or (StripVlanPrefixAndReturnHexString atoi key) (\<lambda>h.
       Inr (default_ir_table_entry\<lparr>ite_table_name := ''vlan_table'',
         ite_matches := [\<lparr>irm_name = ''vlan_id'', irm_value = IrExact (HexStr h)\<rparr>],
         ite_action := IrAction \<lparr>ira_name = ''no_action'', ira_params = []\<rparr>,
         ite_controller_metadata :=
           foldl (\<lambda>md (field, data).
             if field = ''source'' \<and> data = ''P4'' then md
             else if field = ''controller_metadata'' then data else md) [] (op_app_get vlan_table db key)\<rparr>))"

definition GetAllAppDbVlanTableEntries ::
  "(string \<Rightarrow> nat option) \<Rightarrow> 'db sonic_table_ops \<Rightarrow> 'db \<Rightarrow> ir_table_entry list status_or" where
  "GetAllAppDbVlanTableEntries atoi vlan_table db =
     map_or (vlan_entry_of_key atoi vlan_table db) (op_app_keys vlan_table db)"

definition member_fields :: "field_values \<Rightarrow> bool \<times> string" where
  "member_fields fvs =
     foldl (\<lambda>(tagged, md) (field, data).
       if field = ''tagging_mode'' then (if data = ''tagged'' then True else tagged, md)
       else if field = ''source'' then (tagged, md)
       else if field = ''controller_metadata'' then (tagged, data)
       else (tagged, md)) (False, []) fvs"

definition vlan_member_entry_of_key ::
  "(string \<Rightarrow> nat option) \<Rightarrow> 'db sonic_table_ops \<Rightarrow> 'db \<Rightarrow> string \<Rightarrow> ir_table_entry status_or" where
  "vlan_member_entry_of_key atoi vlan_member_table db key =
     bind_or (ExtractVlanIdAndPortIdFromMemberKey atoi key) (\<lambda>(h, p).
       case member_fields (op_app_get vlan_member_table db key) of
         (tagged, md) \<Rightarrow>
           Inr (default_ir_table_entry\<lparr>ite_table_name := ''vlan_membership_table'',
             ite_matches := [\<lparr>irm_name = ''vlan_id'', irm_value = IrExact (HexStr h)\<rparr>,
                             \<lparr>irm_name = ''port'', irm_value = IrExact (Str p)\<rparr>],
             ite_action := IrAction \<lparr>ira_name = (if tagged then ''make_tagged_member''
               else ''make_untagged_member''), ira_params = []\<rparr>,
             ite_controller_metadata := md\<rparr>))"

definition GetAllAppDbVlanMemberTableEntries ::
  "(string \<Rightarrow> nat option) \<Rightarrow> 'db sonic_table_ops \<Rightarrow> 'db \<Rightarrow> ir_table_entry list status_or" where
  "GetAllAppDbVlanMemberTableEntries atoi vlan_member_table db =
     map_or (vlan_member_entry_of_key atoi vlan_member_table db) (op_app_keys vlan_member_table db)"

section \<open>Lemmas\<close>

lemma vlan_performs_eq:
  "PerformAppDbVlanUpdate = PerformAppDbVrfUpdate"
  "PerformAppDbVlanMemberUpdate = PerformAppDbVrfUpdate"
  by (intro ext; simp add: PerformAppDbVrfUpdate_def PerformAppDbVlanUpdate_def
      PerformAppDbVlanMemberUpdate_def)+

lemma StripVlanPrefix_dec:
  "i \<le> 4095 \<Longrightarrow> atoi (dec_str i) = Some i \<Longrightarrow>
     StripVlanPrefixAndReturnHexString atoi (''Vlan'' @ dec_str i) = Inr (hex03_str i)"
  by (simp add: StripVlanPrefixAndReturnHexString_def)

lemma vlan_id_key_Inr:
  "vlan_id_key hex_atoi m = Inr k \<longleftrightarrow>
     (\<exists>i. hex_atoi (ir_hex_str (match_exact m)) = Some i \<and> 1 \<le> i \<and> i \<le> 4094 \<and> k = ''Vlan'' @ dec_str i)"
  by (auto simp: vlan_id_key_def split: option.splits)

lemma colon_not_in_vlan: "CHR '':'' \<notin> set (''Vlan'' @ dec_str i)"
  using base_str_chars [of 10 i] colon_not_digit by (auto simp: dec_str_def)

section \<open>Properties\<close>

text \<open>
  C35. A VRF, VLAN or VLAN member update performed against the in-memory SONiC database is
  atomic: started with the application and the state database in agreement, it returns the
  code that OrchAgent's answer for the key maps to and leaves the two databases in agreement. When the
  answer is success the entry holds the requested fields (nothing, for a delete) and every other
  entry is as before; when it is a failure every entry is as before.
\<close>

theorem PerformAppDbTableUpdate_atomic:
  assumes "perform \<in> {PerformAppDbVrfUpdate, PerformAppDbVlanUpdate, PerformAppDbVlanMemberUpdate}"
    and "fake_db_wf db" and "tables_synced fake_ops db"
    and "\<And>s. SwssToP4RTErrorCode (sc s) = OK \<longleftrightarrow> s = ''SWSS_RC_SUCCESS''"
    and "kfvOp u = ''SET'' \<or> kfvOp u = ''DEL''"
  shows "\<exists>db'. perform sc fake_ops u db = (Inr (SwssToP4RTErrorCode (sc (fake_answer db (kfvKey u)))), db') \<and>
    fake_db_wf db' \<and> tables_synced fake_ops db' \<and>
    (\<forall>k. map_of (op_app_get fake_ops db' k) =
      (if k = kfvKey u \<and> fake_answer db (kfvKey u) = ''SWSS_RC_SUCCESS''
       then (if kfvOp u = ''SET'' then last_wins (kfvFieldsValues u) else Map.empty)
       else map_of (op_app_get fake_ops db k)))"
proof -
  let ?content = "if kfvOp u = ''SET'' then Some (kfvFieldsValues u) else None"
  have "perform sc fake_ops u db = GetAndProcessResponseNotification_key sc fake_ops (kfvKey u)
      (upd_command fake_ops (kfvKey u) ?content (op_drain fake_ops db))"
    using assms(1,5) by (auto simp: vlan_performs_eq PerformAppDbVrfUpdate_def upd_command_def
        SET_COMMAND_def DEL_COMMAND_def)
  with fake.produce_then_process [OF assms(2,3,4), of "kfvKey u" ?content] show ?thesis
    by (cases "kfvOp u = ''SET''") (auto simp del: map_of_eq_empty_iff)
qed

definition example_sonic_db :: fake_db where
  "example_sonic_db =
     \<lparr>fake_app = \<lparr>fdb_entries = [(''vrf-1'', GetVrfValues)], fdb_notifications = [''stale''],
        fdb_responses = [(''vrf-2'', \<lparr>ri_code = ''SWSS_RC_FULL'', ri_message = ''full''\<rparr>)]\<rparr>,
      fake_state = Some \<lparr>fdb_entries = [(''vrf-1'', GetVrfValues)], fdb_notifications = [],
        fdb_responses = []\<rparr>\<rparr>"

theorem PerformAppDbTableUpdate_atomic_witness:
  "\<exists>db'. PerformAppDbVrfUpdate example_str_code fake_ops
      (kfv ''vrf-2'' ''SET'' GetVrfValues) example_sonic_db = (Inr RESOURCE_EXHAUSTED, db') \<and> fake_db_wf db' \<and>
    tables_synced fake_ops db' \<and> map_of (op_app_get fake_ops db' ''vrf-2'') = Map.empty"
proof -
  have wf: "fake_db_wf example_sonic_db" by code_simp
  have sync: "tables_synced fake_ops example_sonic_db"
    by (simp add: tables_synced_def example_sonic_db_def fake_ops_def fake_table_get_def ReadTableEntry_def)
  have sc: "SwssToP4RTErrorCode (example_str_code s) = OK \<longleftrightarrow> s = ''SWSS_RC_SUCCESS''" for s
    by (simp add: example_str_code_def)
  have ans: "fake_answer example_sonic_db ''vrf-2'' = ''SWSS_RC_FULL''"
    and code: "SwssToP4RTErrorCode (example_str_code ''SWSS_RC_FULL'') = RESOURCE_EXHAUSTED" by code_simp+
  have get: "op_app_get fake_ops example_sonic_db ''vrf-2'' = []" by code_simp
  from PerformAppDbTableUpdate_atomic [of PerformAppDbVrfUpdate, OF _ wf sync sc,
      of "kfv ''vrf-2'' ''SET'' GetVrfValues"]
  show ?thesis using get by (auto simp: kfv_def ans code simp del: map_of_eq_empty_iff)
qed

definition vlan_member_entry :: "nat \<Rightarrow> string \<Rightarrow> bool \<Rightarrow> string \<Rightarrow> ir_table_entry" where
  "vlan_member_entry i port tagged md =
     default_ir_table_entry\<lparr>ite_table_name := ''vlan_membership_table'',
       ite_matches := [\<lparr>irm_name = ''vlan_id'', irm_value = IrExact (HexStr (hex03_str i))\<rparr>,
                       \<lparr>irm_name = ''port'', irm_value = IrExact (Str port)\<rparr>],
       ite_action := IrAction \<lparr>ira_name = (if tagged then ''make_tagged_member''
         else ''make_untagged_member''), ira_params = []\<rparr>,
       ite_controller_metadata := md\<rparr>"

text \<open>
  VLAN member entries survive the trip through the application database: for every
  VLAN id from 1 to 4094 and every port name without a colon, the update created for the
  entry is keyed so that reading the entry back yields the same entry, with its tagging
  action and controller metadata.
\<close>

theorem vlan_member_round_trip:
  assumes "1 \<le> i" "i \<le> 4094" and "port \<noteq> []" and "CHR '':'' \<notin> set port"
    and "hex_atoi (hex03_str i) = Some i" and "atoi (dec_str i) = Some i"
  shows "\<exists>u. CreateAppDbVlanMemberUpdate hex_atoi INSERT (vlan_member_entry i port tagged md) = Inr u \<and>
    (op_app_get ops db (kfvKey u) = kfvFieldsValues u \<longrightarrow>
     vlan_member_entry_of_key atoi ops db (kfvKey u) = Inr (vlan_member_entry i port tagged md))"
proof -
  let ?e = "vlan_member_entry i port tagged md" and ?key = "(''Vlan'' @ dec_str i) @ CHR '':'' # port"
  have "GetVlanMemberTableKey hex_atoi ?e = Inr ?key"
    using assms by (simp add: GetVlanMemberTableKey_def vlan_member_entry_def vlan_id_key_def
        match_exact_def ir_hex_str_def ir_str_def)
  then have u: "CreateAppDbVlanMemberUpdate hex_atoi INSERT ?e = Inr (kfv ?key SET_COMMAND (GetVlanMemberValues ?e))"
    by (simp add: CreateAppDbVlanMemberUpdate_def)
  have "ExtractVlanIdAndPortIdFromMemberKey atoi ?key = Inr (hex03_str i, port)"
    unfolding ExtractVlanIdAndPortIdFromMemberKey_def
    using str_split_two [OF colon_not_in_vlan [of i] assms(4)] StripVlanPrefix_dec [of i atoi] assms
    by simp
  moreover have "member_fields (GetVlanMemberValues ?e) = (tagged, md)"
    by (simp add: member_fields_def GetVlanMemberValues_def vlan_member_entry_def action_name_def)
  ultimately show ?thesis
    using u by (auto simp: kfv_def vlan_member_entry_of_key_def vlan_member_entry_def)
qed

definition example_hex_atoi :: "string \<Rightarrow> nat option" where
  "example_hex_atoi s = parse_base 16 (if take 2 s = ''0x'' then drop 2 s else s)"

theorem vlan_member_round_trip_witness:
  "\<exists>u. CreateAppDbVlanMemberUpdate example_hex_atoi INSERT (vlan_member_entry 10 ''Ethernet0'' True ''md'') = Inr u \<and>
     kfvKey u = ''Vlan10:Ethernet0'' \<and>
     vlan_member_entry_of_key (parse_base 10) (fake_ops\<lparr>op_app_get := \<lambda>_ _. kfvFieldsValues u\<rparr>) example_sonic_db (kfvKey u) =
       Inr (vlan_member_entry 10 ''Ethernet0'' True ''md'')"
proof -
  have run: "CreateAppDbVlanMemberUpdate example_hex_atoi INSERT (vlan_member_entry 10 ''Ethernet0'' True ''md'') =
      Inr (kfv ''Vlan10:Ethernet0'' ''SET'' [(''source'', ''P4''), (''tagging_mode'', ''tagged''),
        (''controller_metadata'', ''md'')])"
    by code_simp
  have "example_hex_atoi (hex03_str 10) = Some 10" "parse_base 10 (dec_str 10) = Some 10"
    by code_simp+
  with vlan_member_round_trip [of 10 "''Ethernet0''" example_hex_atoi "parse_base 10" True "''md''"
      "fake_ops\<lparr>op_app_get := \<lambda>_ _. [(''source'', ''P4''), (''tagging_mode'', ''tagged''),
        (''controller_metadata'', ''md'')]\<rparr>" example_sonic_db]
  show ?thesis by (simp add: run kfv_def)
qed

end
