(* ===== verification/App_Db_Manager.thy ===== *)
theory App_Db_Manager
  imports Vrf_Vlan
begin

text \<open>
  Dispatching entity updates to the SONiC tables (\<open>p4rt_app/sonic/app_db_manager.cc\<close>):
  translating an entity to the AppDb update of its table, and executing a list of updates
  in order, batching the P4RT ones and stopping at the first failure. The JSON key and
  value encodings and the packet replication translation are parameters, as are the
  adapters behind which Redis and OrchAgent live.
\<close>

section \<open>Creating updates\<close>

record app_db_translators =
  tr_hex_atoi :: "string \<Rightarrow> nat option"
  tr_table_key :: "ir_table_entry \<Rightarrow> string status_or"
  tr_table_values :: "ir_table_entry \<Rightarrow> field_values status_or"
  tr_replication :: "update_type \<Rightarrow> ir_packet_replication_engine_entry \<Rightarrow> key_op_fields_values status_or"

definition CreateAppDbP4rtUpdate ::
  "app_db_translators \<Rightarrow> update_type \<Rightarrow> ir_table_entry \<Rightarrow> key_op_fields_values status_or" where
  "CreateAppDbP4rtUpdate tr ut e =
     bind_or (tr_table_key tr e) (\<lambda>key.
       case ut of
         INSERT \<Rightarrow> bind_or (tr_table_values tr e) (\<lambda>values. Inr (kfv key SET_COMMAND values))
       | MODIFY \<Rightarrow> bind_or (tr_table_values tr e) (\<lambda>values. Inr (kfv key SET_COMMAND values))
       | DELETE \<Rightarrow> Inr (kfv key DEL_COMMAND [])
       | UPDATE_UNSPECIFIED \<Rightarrow> Inl INVALID_ARGUMENT)"

definition CreateAppDbUpdate ::
  "app_db_translators \<Rightarrow> update_type \<Rightarrow> ir_entity \<Rightarrow> app_db_update status_or" where
  "CreateAppDbUpdate tr ut entity =
     (let t = GetAppDbTableType entity;
          mk = (\<lambda>u. Inr \<lparr>adu_table = t, adu_update = u\<rparr>)
      in case t of
           VRF_TABLE \<Rightarrow> bind_or (CreateAppDbVrfUpdate ut (ir_table_entry_of entity)) mk
         | VLAN_TABLE \<Rightarrow> bind_or (CreateAppDbVlanUpdate (tr_hex_atoi tr) ut (ir_table_entry_of entity)) mk
         | VLAN_MEMBER_TABLE \<Rightarrow>
             bind_or (CreateAppDbVlanMemberUpdate (tr_hex_atoi tr) ut (ir_table_entry_of entity)) mk
         | P4RT \<Rightarrow>
             (case entity of
                IrTableEntry e \<Rightarrow> bind_or (CreateAppDbP4rtUpdate tr ut e) mk
              | IrPacketReplicationEngineEntry e \<Rightarrow> bind_or (tr_replication tr ut e) mk
              | IrEntityNotSet \<Rightarrow> Inl INVALID_ARGUMENT))"

section \<open>Performing updates\<close>

text \<open>
  The adapters of all tables. The result pointers of the batch are positions in the list
  of statuses of the response under construction.
\<close>

record 'db sonic_env =
  se_str_code :: "string \<Rightarrow> swss_status_code"
  se_p4rt_send :: "key_op_fields_values list \<Rightarrow> 'db \<Rightarrow> 'db"
  se_p4rt_wait :: "'db \<Rightarrow> zmq_response option \<times> 'db"
  se_vrf :: "'db sonic_table_ops"
  se_vlan :: "'db sonic_table_ops"
  se_vlan_member :: "'db sonic_table_ops"

text \<open>
  \<open>results.at(key)->code()\<close> for every sent update. \<open>at\<close> throws on a missing key; the keys
  of \<open>results\<close> are those of \<open>updates\<close>, and a key that is absent counts as not OK here.
\<close>

definition result_ok :: "(string, nat option) bt_map \<Rightarrow> status_code list \<Rightarrow> key_op_fields_values \<Rightarrow> bool" where
  "result_ok results sts u =
     (case bt_find (kfvKey u) results of
        Some (Some i) \<Rightarrow> sts ! i = OK
      | _ \<Rightarrow> False)"

definition PerformAppDbP4rtUpdates ::
  "'db sonic_env \<Rightarrow> key_op_fields_values list \<Rightarrow> (string, nat option) bt_map \<Rightarrow>
   status_code list \<times> 'db \<Rightarrow> bool status_or \<times> status_code list \<times> 'db" where
  "PerformAppDbP4rtUpdates env updates results st =
     (if updates = [] then (Inr True, st)
      else case se_p4rt_wait env (se_p4rt_send env updates (snd st)) of
             (response, db) \<Rightarrow>
               (case GetAndProcessResponseNotificationWithoutRevertingState (se_str_code env)
                       response results (fst st) of
                  (code, sts) \<Rightarrow>
                    (if code \<noteq> OK then Inl code else Inr (list_all (result_ok results sts) updates),
                     sts, db)))"

definition perform_non_p4rt ::
  "'db sonic_env \<Rightarrow> app_db_update \<Rightarrow> 'db \<Rightarrow> status_code status_or option \<times> 'db" where
  "perform_non_p4rt env u db =
     (case adu_table u of
        VLAN_TABLE \<Rightarrow>
          (case PerformAppDbVlanUpdate (se_str_code env) (se_vlan env) (adu_update u) db of
             (r, db') \<Rightarrow> (Some r, db'))
      | VLAN_MEMBER_TABLE \<Rightarrow>
          (case PerformAppDbVlanMemberUpdate (se_str_code env) (se_vlan_member env) (adu_update u) db of
             (r, db') \<Rightarrow> (Some r, db'))
      | VRF_TABLE \<Rightarrow>
          (case PerformAppDbVrfUpdate (se_str_code env) (se_vrf env) (adu_update u) db of
             (r, db') \<Rightarrow> (Some r, db'))
      | P4RT \<Rightarrow> (None, db))"

text \<open>The loop of \<open>PerformAppDbUpdates\<close>, with the pending P4RT updates and their results.\<close>

fun perform_loop ::
  "'db sonic_env \<Rightarrow> (app_db_update \<times> nat) list \<Rightarrow> key_op_fields_values list \<Rightarrow>
   (string, nat option) bt_map \<Rightarrow> bool \<Rightarrow> status_code list \<times> 'db \<Rightarrow>
   bool status_or \<times> status_code list \<times> 'db" where
  "perform_loop env [] updates results failed st =
     (if failed then (Inr False, st) else PerformAppDbP4rtUpdates env updates results st)"
| "perform_loop env ((u, i) # us) updates results failed (sts, db) =
     (if failed
      then perform_loop env us updates results failed (sts[i := ABORTED], db)
      else if adu_table u = P4RT
      then perform_loop env us (updates @ [adu_update u])
             (bt_assign (kfvKey (adu_update u)) (Some i) results) failed (sts, db)
      else case PerformAppDbP4rtUpdates env updates results (sts, db) of
             (Inl e, st) \<Rightarrow> (Inl e, st)
           | (Inr False, sts', db') \<Rightarrow> perform_loop env us [] [] True (sts'[i := ABORTED], db')
           | (Inr True, sts', db') \<Rightarrow>
               (case perform_non_p4rt env u db' of
                  (Some (Inl e), db'') \<Rightarrow> (Inl e, sts', db'')
                | (Some (Inr code), db'') \<Rightarrow>
                    perform_loop env us [] [] (code \<noteq> OK) (sts'[i := code], db'')
                | (None, db'') \<Rightarrow> perform_loop env us [] [] (sts' ! i \<noteq> OK) (sts', db'')))"

definition PerformAppDbUpdates ::
  "'db sonic_env \<Rightarrow> (app_db_update \<times> nat) list \<Rightarrow> status_code list \<times> 'db \<Rightarrow>
   bool status_or \<times> status_code list \<times> 'db" where
  "PerformAppDbUpdates env updates_and_results st = perform_loop env updates_and_results [] [] False st"

section \<open>Fail on first error\<close>

text \<open>
  The specification of a batch: after an update that did not succeed, every later update is
  aborted, except that the P4RT updates that directly follow a P4RT update belong to the
  same OrchAgent batch, whose statuses are OrchAgent's.
\<close>

definition is_p4rt :: "app_db_update \<times> nat \<Rightarrow> bool" where
  "is_p4rt ui \<longleftrightarrow> adu_table (fst ui) = P4RT"

definition all_aborted :: "status_code list \<Rightarrow> (app_db_update \<times> nat) list \<Rightarrow> bool" where
  "all_aborted sts us = list_all (\<lambda>ui. sts ! snd ui = ABORTED) us"

fun fail_on_first :: "status_code list \<Rightarrow> (app_db_update \<times> nat) list \<Rightarrow> bool" where
  "fail_on_first sts [] = True"
| "fail_on_first sts (ui # us) =
     ((sts ! snd ui = OK \<or> all_aborted sts (if is_p4rt ui then dropWhile is_p4rt us else us)) \<and>
      fail_on_first sts us)"

section \<open>Lemmas\<close>

lemma is_p4rt_pair [simp]: "is_p4rt (u, i) \<longleftrightarrow> adu_table u = P4RT"
  by (simp add: is_p4rt_def)

lemma update_responses_other:
  "update_responses restore es rs n (sts, db) = (st, sts', db') \<Longrightarrow> Some i \<notin> snd ` set es \<Longrightarrow>
     sts' ! i = sts ! i"
  by (induction restore es rs n "(sts, db)" arbitrary: sts db rule: update_responses.induct)
    (auto split: if_splits option.splits)

lemma zmq_processE:
  assumes "GetAndProcessResponseNotificationWithoutRevertingState sc response results sts = (code, sts')"
  obtains (error) e where "GetZmqResponses sc (length results) response = Inl e" "code = e" "sts' = sts"
  | (update) m where "GetZmqResponses sc (length results) response = Inr m"
      "update_responses (\<lambda>_ db. db) results m 0 (sts, ()) = (code, sts', ())"
  using assms by (auto simp: GetAndProcessResponseNotificationWithoutRevertingState_def
      UpdateResponsesAndRestoreState_def split: sum.splits prod.splits)

lemma GetZmqResponses_not_OK: "GetZmqResponses sc n response \<noteq> Inl OK"
  using GetZmqResponses_Inl [of sc n]
  by (cases response) (auto simp: GetZmqResponses_def [of sc n None])

lemma GetAndProcess_zmq_frame:
  assumes "GetAndProcessResponseNotificationWithoutRevertingState sc response results sts = (code, sts')"
  shows "length sts' = length sts \<and> (Some i \<notin> snd ` set results \<longrightarrow> sts' ! i = sts ! i) \<and>
    (code = OK \<longrightarrow> None \<notin> snd ` set results)"
  using assms
proof (cases rule: zmq_processE)
  case (update m)
  then show ?thesis
    using update_responses_OK_iff [of "\<lambda>_ db. db" results m 0 "(sts, ())"]
    by (auto dest: update_responses_length update_responses_other)
qed (use GetZmqResponses_not_OK in auto)

lemma PerformAppDbP4rtUpdates_frame:
  assumes "PerformAppDbP4rtUpdates env updates results (sts, db) = (r, sts', db')"
  shows "length sts' = length sts" and "Some i \<notin> snd ` set results \<Longrightarrow> sts' ! i = sts ! i"
  using assms by (auto simp: PerformAppDbP4rtUpdates_def split: if_splits prod.splits
      dest!: GetAndProcess_zmq_frame)

lemma PerformAppDbP4rtUpdates_result:
  assumes "PerformAppDbP4rtUpdates env updates results (sts, db) = (Inr b, sts', db')"
    and "bt_wf results" and "fst ` set results = kfvKey ` set updates"
  shows "b \<longleftrightarrow> (\<forall>i. Some i \<in> snd ` set results \<longrightarrow> sts' ! i = OK)"
proof (cases "updates = []")
  case True
  with assms show ?thesis by (auto simp: PerformAppDbP4rtUpdates_def)
next
  case False
  with assms(1) obtain response where
    g: "GetAndProcessResponseNotificationWithoutRevertingState (se_str_code env) response results sts =
       (OK, sts')" and b: "b = list_all (result_ok results sts') updates"
    by (auto simp: PerformAppDbP4rtUpdates_def split: prod.splits if_splits)
  have find: "bt_find k results = Some p \<longleftrightarrow> (k, p) \<in> set results" for k p
    using bt_wf_distinct [OF assms(2)] by (simp add: bt_find_def map_of_eq_Some_iff)
  have none: "None \<notin> snd ` set results" using GetAndProcess_zmq_frame [OF g] by simp
  have "result_ok results sts' u \<longleftrightarrow> (\<forall>i. (kfvKey u, Some i) \<in> set results \<longrightarrow> sts' ! i = OK)"
    if u: "u \<in> set updates" for u
  proof -
    from u assms(3) obtain p where p: "(kfvKey u, p) \<in> set results" by force
    with none obtain i where [simp]: "p = Some i" by (cases p) force+
    have "bt_find (kfvKey u) results = Some (Some i)" using p by (simp add: find)
    moreover from this have "(kfvKey u, Some j) \<in> set results \<longleftrightarrow> j = i" for j
      using find [of "kfvKey u" "Some j"] by auto
    ultimately show ?thesis by (simp add: result_ok_def)
  qed
  then have "b \<longleftrightarrow> (\<forall>u \<in> set updates. \<forall>i. (kfvKey u, Some i) \<in> set results \<longrightarrow> sts' ! i = OK)"
    by (auto simp: b list_all_iff)
  moreover have "\<exists>u \<in> set updates. kfvKey u = k" if "(k, p) \<in> set results" for k p
  proof -
    have "k \<in> fst ` set results" using that by force
    then show ?thesis unfolding assms(3) by auto
  qed
  ultimately show ?thesis by (auto simp: image_iff) (metis snd_conv)+
qed

lemma bt_assign_values: "snd ` set (bt_assign k v m) \<subseteq> insert v (snd ` set m)"
  by (induction k v m rule: bt_assign.induct) auto

lemma perform_loop_failed:
  "perform_loop env us updates results True (sts, db) = (r, sts', db') \<Longrightarrow>
     distinct (map snd us) \<Longrightarrow> (\<forall>i \<in> snd ` set us. i < length sts) \<Longrightarrow>
     r = Inr False \<and> db' = db \<and> length sts' = length sts \<and> all_aborted sts' us \<and>
     (\<forall>i. i \<notin> snd ` set us \<longrightarrow> sts' ! i = sts ! i)"
proof (induction us arbitrary: sts)
  case (Cons ui us)
  obtain u i where [simp]: "ui = (u, i)" by (cases ui)
  from Cons.prems(1) have "perform_loop env us updates results True (sts[i := ABORTED], db) = (r, sts', db')"
    by simp
  from Cons.IH [OF this] Cons.prems(2,3) show ?case
    by (auto simp: all_aborted_def nth_list_update)
qed (simp add: all_aborted_def)

lemma all_aborted_dropWhile: "all_aborted sts us \<Longrightarrow> all_aborted sts (dropWhile P us)"
  by (auto simp: all_aborted_def list_all_iff dest: set_dropWhileD)

lemma all_aborted_fail_on_first: "all_aborted sts us \<Longrightarrow> fail_on_first sts us"
  by (induction us) (use all_aborted_dropWhile in \<open>fastforce simp: all_aborted_def\<close>)+

lemma perform_non_p4rt_Some: "adu_table u \<noteq> P4RT \<Longrightarrow> fst (perform_non_p4rt env u db) \<noteq> None"
  by (auto simp: perform_non_p4rt_def split: app_db_table_type.splits prod.splits)

lemma perform_loop_ConsE:
  assumes "perform_loop env ((u, i) # us) updates results failed (sts, db) = (r, sts', db')"
  obtains (failed) "failed" "perform_loop env us updates results True (sts[i := ABORTED], db) = (r, sts', db')"
  | (batched) "\<not> failed" "adu_table u = P4RT"
      "perform_loop env us (updates @ [adu_update u])
         (bt_assign (kfvKey (adu_update u)) (Some i) results) False (sts, db) = (r, sts', db')"
  | (flush_error) e where "\<not> failed" "adu_table u \<noteq> P4RT" "r = Inl e"
      "PerformAppDbP4rtUpdates env updates results (sts, db) = (Inl e, sts', db')"
  | (flush_failed) sts1 db1 where "\<not> failed" "adu_table u \<noteq> P4RT"
      "PerformAppDbP4rtUpdates env updates results (sts, db) = (Inr False, sts1, db1)"
      "perform_loop env us [] [] True (sts1[i := ABORTED], db1) = (r, sts', db')"
  | (single_error) e db1 where "\<not> failed" "adu_table u \<noteq> P4RT" "r = Inl e"
      "PerformAppDbP4rtUpdates env updates results (sts, db) = (Inr True, sts', db1)"
  | (single) sts1 db1 code db2 where "\<not> failed" "adu_table u \<noteq> P4RT"
      "PerformAppDbP4rtUpdates env updates results (sts, db) = (Inr True, sts1, db1)"
      "perform_non_p4rt env u db1 = (Some (Inr code), db2)"
      "perform_loop env us [] [] (code \<noteq> OK) (sts1[i := code], db2) = (r, sts', db')"
  using assms
proof (cases "failed \<or> adu_table u = P4RT")
  case True
  with assms that(1,2) show ?thesis by (cases failed) auto
next
  case False
  obtain r1 sts1 db1 where p: "PerformAppDbP4rtUpdates env updates results (sts, db) = (r1, sts1, db1)"
    by (cases "PerformAppDbP4rtUpdates env updates results (sts, db)") auto
  obtain r2 db2 where n: "perform_non_p4rt env u db1 = (Some r2, db2)"
    using perform_non_p4rt_Some [of u env db1] False by (cases "perform_non_p4rt env u db1") auto
  show ?thesis
  proof (cases r1)
    case (Inl e)
    with assms False p that(3) show ?thesis by auto
  next
    case (Inr b)
    show ?thesis
    proof (cases b)
      case True
      with assms False p n Inr that(5,6) show ?thesis by (cases r2) auto
    next
      case False
      with assms \<open>\<not> (failed \<or> adu_table u = P4RT)\<close> p Inr that(4) show ?thesis by auto
    qed
  qed
qed

lemma perform_loop_frame:
  "perform_loop env us updates results failed (sts, db) = (r, sts', db') \<Longrightarrow>
     length sts' = length sts \<and>
     (i \<notin> snd ` set us \<longrightarrow> Some i \<notin> snd ` set results \<longrightarrow> sts' ! i = sts ! i)"
proof (induction us arbitrary: updates results failed sts db)
  case Nil
  then show ?case by (auto split: if_splits dest: PerformAppDbP4rtUpdates_frame)
next
  case (Cons ui us)
  obtain u j where ui: "ui = (u, j)" by (cases ui)
  note v = bt_assign_values [of "kfvKey (adu_update u)" "Some j" results]
  from Cons.prems [unfolded ui] show ?case
  proof (cases rule: perform_loop_ConsE)
    case batched
    from Cons.IH [OF batched(3)] v show ?thesis by (auto simp: ui)
  next
    case flush_failed
    from Cons.IH [OF flush_failed(4)] PerformAppDbP4rtUpdates_frame [OF flush_failed(3)]
    show ?thesis by (auto simp: ui)
  next
    case single
    from Cons.IH [OF single(5)] PerformAppDbP4rtUpdates_frame [OF single(3)]
    show ?thesis by (auto simp: ui)
  qed (auto simp: ui dest: Cons.IH PerformAppDbP4rtUpdates_frame)
qed

text \<open>
  The loop before any failure. \<open>seen\<close> are the positions of the updates processed since the
  last flush, whose statuses are still OK.
\<close>

lemma perform_loop_not_failed:
  assumes "perform_loop env us updates results False (sts, db) = (Inr b, sts', db')"
    and "bt_wf results" and "fst ` set results = kfvKey ` set updates"
    and "\<And>i. Some i \<in> snd ` set results \<Longrightarrow> i \<in> seen"
    and "distinct (map snd us)" and "seen \<inter> snd ` set us = {}"
    and "\<forall>i \<in> snd ` set us. i < length sts"
    and "\<forall>i \<in> seen \<union> snd ` set us. sts ! i = OK"
  shows "(b \<longleftrightarrow> (\<forall>i \<in> seen \<union> snd ` set us. sts' ! i = OK)) \<and> fail_on_first sts' us \<and>
    ((\<exists>i \<in> seen. sts' ! i \<noteq> OK) \<longrightarrow> all_aborted sts' (dropWhile is_p4rt us))"
  using assms
proof (induction us arbitrary: updates results seen sts db)
  case Nil
  from Nil.prems(1) have p: "PerformAppDbP4rtUpdates env updates results (sts, db) = (Inr b, sts', db')"
    by simp
  from PerformAppDbP4rtUpdates_result [OF p Nil.prems(2,3)] PerformAppDbP4rtUpdates_frame(2) [OF p]
    Nil.prems(4,8) show ?case by (auto simp: all_aborted_def) metis+
next
  case (Cons ui us)
  obtain u j where ui: "ui = (u, j)" by (cases ui)
  have j: "j \<notin> snd ` set us" "j \<notin> seen" "j < length sts" "sts ! j = OK"
    and d: "distinct (map snd us)" and lt: "\<forall>i \<in> snd ` set us. i < length sts"
    using Cons.prems by (auto simp: ui)
  from Cons.prems(1) [unfolded ui] show ?case
  proof (cases rule: perform_loop_ConsE)
    case batched
    have v: "i \<in> insert j seen"
      if "Some i \<in> snd ` set (bt_assign (kfvKey (adu_update u)) (Some j) results)" for i
      using that bt_assign_values [of "kfvKey (adu_update u)" "Some j" results] Cons.prems(4) by blast
    have "(b \<longleftrightarrow> (\<forall>i \<in> insert j seen \<union> snd ` set us. sts' ! i = OK)) \<and> fail_on_first sts' us \<and>
        ((\<exists>i \<in> insert j seen. sts' ! i \<noteq> OK) \<longrightarrow> all_aborted sts' (dropWhile is_p4rt us))"
      using Cons.prems(3,6,8) j d lt
      by (intro Cons.IH [OF batched(3) bt_wf_assign [OF Cons.prems(2)]] v)
        (auto simp: bt_assign_keys ui simp del: image_iff)
    with batched show ?thesis by (auto simp: ui)
  next
    case (flush_failed sts1 db1)
    note F = PerformAppDbP4rtUpdates_frame [OF flush_failed(3)]
    have L: "(Inr b :: bool status_or) = Inr False \<and> db' = db1 \<and> length sts' = length (sts1[j := ABORTED]) \<and>
       all_aborted sts' us \<and> (\<forall>i. i \<notin> snd ` set us \<longrightarrow> sts' ! i = sts1[j := ABORTED] ! i)"
      using lt F by (intro perform_loop_failed [OF flush_failed(4) d]) simp
    with j F have "sts' ! j = ABORTED" by simp
    with L flush_failed(2) all_aborted_fail_on_first [of sts' us] show ?thesis
      by (auto simp: ui all_aborted_def)
  next
    case (single sts1 db1 code db2)
    note F = PerformAppDbP4rtUpdates_frame [OF single(3)]
    have seen1: "\<forall>i \<in> seen. sts1 ! i = OK"
      using PerformAppDbP4rtUpdates_result [OF single(3) Cons.prems(2,3)] F(2) Cons.prems(8)
      by (metis UnCI)
    have us1: "\<forall>i \<in> snd ` set us. sts1 ! i = OK"
      using Cons.prems(4,6,8) F(2) by (auto simp: ui) (metis IntI UnCI emptyE image_eqI insertCI snd_conv)
    have fr: "i \<notin> snd ` set us \<Longrightarrow> sts' ! i = sts1[j := code] ! i" for i
      using perform_loop_frame [OF single(5), of i] by simp
    have sj: "sts' ! j = code" using fr [of j] j F(1) by simp
    have seen': "\<forall>i \<in> seen. sts' ! i = OK"
    proof
      fix i assume "i \<in> seen"
      moreover from this have "i \<notin> snd ` set us" "i \<noteq> j" using Cons.prems(6) j(2) by (auto simp: ui)
      ultimately show "sts' ! i = OK" using fr seen1 by simp
    qed
    show ?thesis
    proof (cases "code = OK")
      case True
      have "(b \<longleftrightarrow> (\<forall>i \<in> {} \<union> snd ` set us. sts' ! i = OK)) \<and> fail_on_first sts' us \<and>
          ((\<exists>i \<in> {}. sts' ! i \<noteq> OK) \<longrightarrow> all_aborted sts' (dropWhile is_p4rt us))"
        using single(5) True d lt us1 F(1) j
        by (intro Cons.IH [where updates = "[]" and results = "[]" and db = db2
              and sts = "sts1[j := code]"]) (auto simp: nth_list_update)
      with sj True seen' single(2) show ?thesis by (auto simp: ui)
    next
      case False
      with single(5) have l: "perform_loop env us [] [] True (sts1[j := code], db2) = (Inr b, sts', db')"
        by simp
      have "(Inr b :: bool status_or) = Inr False \<and> db' = db2 \<and> length sts' = length (sts1[j := code]) \<and>
         all_aborted sts' us \<and> (\<forall>i. i \<notin> snd ` set us \<longrightarrow> sts' ! i = sts1[j := code] ! i)"
        using lt F by (intro perform_loop_failed [OF l d]) simp
      with sj False seen' single(2) all_aborted_fail_on_first [of sts' us] show ?thesis
        by (auto simp: ui)
    qed
  qed simp_all
qed

section \<open>Properties\<close>

text \<open>
  C11. When a batch of AppDb updates is processed without an internal error, the result is
  true exactly when every update of the batch ended with status OK, and processing is
  fail-on-first-error across tables: after an update that did not succeed every later
  update has status ABORTED, except the P4RT updates in the same OrchAgent batch; statuses
  outside the batch are untouched.
\<close>

theorem PerformAppDbUpdates_fail_on_first:
  assumes "PerformAppDbUpdates env us (sts, db) = (Inr b, sts', db')"
    and "distinct (map snd us)"
    and "list_all (\<lambda>ui. snd ui < length sts \<and> sts ! snd ui = OK) us"
  shows "(b \<longleftrightarrow> list_all (\<lambda>ui. sts' ! snd ui = OK) us) \<and> fail_on_first sts' us \<and>
    length sts' = length sts \<and> (\<forall>i. i \<notin> snd ` set us \<longrightarrow> sts' ! i = sts ! i)"
proof -
  from assms(1) have l: "perform_loop env us [] [] False (sts, db) = (Inr b, sts', db')"
    by (simp add: PerformAppDbUpdates_def)
  from assms(2,3) perform_loop_not_failed [OF l, of "{}"] perform_loop_frame [OF l]
  show ?thesis by (auto simp: list_all_iff)
qed

definition fake_env :: "fake_db sonic_env" where
  "fake_env = \<lparr>se_str_code = example_str_code, se_p4rt_send = fake_zmq_send, se_p4rt_wait = fake_zmq_wait,
     se_vrf = fake_ops, se_vlan = fake_ops, se_vlan_member = fake_ops\<rparr>"

definition example_empty_db :: fake_db where
  "example_empty_db =
     \<lparr>fake_app = \<lparr>fdb_entries = [], fdb_notifications = [],
        fdb_responses = [(''b'', \<lparr>ri_code = ''SWSS_RC_FULL'', ri_message = ''full''\<rparr>)]\<rparr>,
      fake_state = Some \<lparr>fdb_entries = [], fdb_notifications = [], fdb_responses = []\<rparr>\<rparr>"

definition example_updates :: "(app_db_update \<times> nat) list" where
  "example_updates =
     [(\<lparr>adu_table = P4RT, adu_update = kfv ''a'' ''SET'' [(''f'', ''1'')]\<rparr>, 0),
      (\<lparr>adu_table = P4RT, adu_update = kfv ''b'' ''SET'' [(''f'', ''2'')]\<rparr>, 1),
      (\<lparr>adu_table = VRF_TABLE, adu_update = kfv ''vrf-1'' ''SET'' GetVrfValues\<rparr>, 2),
      (\<lparr>adu_table = P4RT, adu_update = kfv ''c'' ''SET'' [(''f'', ''3'')]\<rparr>, 3)]"

theorem PerformAppDbUpdates_fail_on_first_witness:
  "fst (PerformAppDbUpdates fake_env example_updates ([OK, OK, OK, OK], example_empty_db)) = Inr False \<and>
   fst (snd (PerformAppDbUpdates fake_env example_updates ([OK, OK, OK, OK], example_empty_db))) =
     [OK, RESOURCE_EXHAUSTED, ABORTED, ABORTED] \<and>
   fail_on_first [OK, RESOURCE_EXHAUSTED, ABORTED, ABORTED] example_updates"
proof -
  let ?run = "PerformAppDbUpdates fake_env example_updates ([OK, OK, OK, OK], example_empty_db)"
  have r: "fst ?run = Inr False" "fst (snd ?run) = [OK, RESOURCE_EXHAUSTED, ABORTED, ABORTED]"
    by code_simp+
  have d: "distinct (map snd example_updates)"
    "list_all (\<lambda>ui. snd ui < length [OK, OK, OK, OK] \<and> [OK, OK, OK, OK] ! snd ui = OK) example_updates"
    by code_simp+
  obtain db' where "?run = (Inr False, [OK, RESOURCE_EXHAUSTED, ABORTED, ABORTED], db')"
    using r by (cases ?run) auto
  from PerformAppDbUpdates_fail_on_first [OF this d] r show ?thesis by blast
qed

end
