(* ===== verification/String_Encodings.thy ===== *)
theory String_Encodings
  imports Number_Text
begin

text \<open>
  The encodings of \<open>p4_infra/string_encodings\<close>: decimal, hexadecimal and byte strings, bit
  strings and the readable notation for byte strings. A \<open>std::bitset<n>\<close> is the natural number
  it denotes, below \<open>2 ^ n\<close>; a byte is a character, read unsigned.
\<close>

unbundle bit_operations_syntax

section \<open>Decimal strings\<close>

text \<open>
  The loop of \<open>DecimalStringTo\<close>: \<open>len\<close> is the size of the whole string and \<open>max_value\<close> the
  largest value of the integer type. The overflow test is the code's, on values that never
  leave the type.
\<close>

fun decimal_loop :: "nat \<Rightarrow> nat \<Rightarrow> nat \<Rightarrow> string \<Rightarrow> nat status_or" where
  "decimal_loop len max_value acc [] = Inr acc"
| "decimal_loop len max_value acc (c # cs) =
     (if \<not> (48 \<le> (of_char c :: nat) \<and> (of_char c :: nat) \<le> 57) then Inl INVALID_ARGUMENT
      else let digit = of_char c - 48
      in if acc = 0 \<and> digit = 0 \<and> len > 1 then Inl INVALID_ARGUMENT
         else if acc > max_value div 10 \<or> acc * 10 > max_value - digit then Inl INVALID_ARGUMENT
         else decimal_loop len max_value (acc * 10 + digit) cs)"

definition DecimalStringTo :: "nat \<Rightarrow> string \<Rightarrow> nat status_or" where
  "DecimalStringTo max_value s = decimal_loop (length s) max_value 0 s"

definition DecimalStringToInt32 :: "string \<Rightarrow> nat status_or" where
  "DecimalStringToInt32 = DecimalStringTo (2 ^ 31 - 1)"

definition DecimalStringToInt64 :: "string \<Rightarrow> nat status_or" where
  "DecimalStringToInt64 = DecimalStringTo (2 ^ 63 - 1)"

definition DecimalStringToUint32 :: "string \<Rightarrow> nat status_or" where
  "DecimalStringToUint32 = DecimalStringTo (2 ^ 32 - 1)"

definition DecimalStringToUint64 :: "string \<Rightarrow> nat status_or" where
  "DecimalStringToUint64 = DecimalStringTo (2 ^ 64 - 1)"

definition ToDecimalString :: "int \<Rightarrow> string status_or" where
  "ToDecimalString v = (if v < 0 then Inl INVALID_ARGUMENT else Inr (dec_str (nat v)))"

section \<open>Hexadecimal strings\<close>

definition HexDigitToChar :: "nat \<Rightarrow> char" where
  "HexDigitToChar d = (if d < 16 then digit_char d else CHR ''?'')"

definition HexCharToDigit :: "char \<Rightarrow> nat status_or" where
  "HexCharToDigit c = (case digit_value c of Some d \<Rightarrow> Inr d | None \<Rightarrow> Inl INVALID_ARGUMENT)"

text \<open>\<open>absl::BytesToHexString\<close>: two lower-case digits per byte.\<close>

definition BytesToHexString :: "string \<Rightarrow> string" where
  "BytesToHexString s = concat (map (\<lambda>c. [digit_char (of_char c div 16), digit_char (of_char c mod 16)]) s)"

definition ByteStringToHexString :: "string \<Rightarrow> string" where
  "ByteStringToHexString s = ''0x'' @ BytesToHexString s"

fun hex_pairs :: "string \<Rightarrow> string status_or" where
  "hex_pairs (a # b # cs) =
     bind_or (HexCharToDigit a) (\<lambda>x. bind_or (HexCharToDigit b) (\<lambda>y.
       bind_or (hex_pairs cs) (\<lambda>r. Inr (char_of (push_bit 4 x OR y) # r))))"
| "hex_pairs _ = Inr []"

definition HexStringToByteString :: "string \<Rightarrow> string status_or" where
  "HexStringToByteString s =
     (if take 2 s \<noteq> ''0x'' then Inl INVALID_ARGUMENT
      else if odd (length (drop 2 s)) then Inl INVALID_ARGUMENT
      else hex_pairs (drop 2 s))"

text \<open>The \<open>i\<close>-th hexadecimal digit of a bitset, bits set from most to least significant.\<close>

definition hex_digit_of :: "nat \<Rightarrow> nat \<Rightarrow> nat \<Rightarrow> nat" where
  "hex_digit_of n b i =
     foldl (\<lambda>d k. push_bit 1 d OR (if k < n \<and> bit b k then 1 else 0)) 0
       [4 * i + 3, 4 * i + 2, 4 * i + 1, 4 * i]"

definition BitsetToHexString :: "nat \<Rightarrow> nat \<Rightarrow> string" where
  "BitsetToHexString n b =
     ''0x'' @ rev (map (\<lambda>i. HexDigitToChar (hex_digit_of n b i)) [0 ..< (n + 3) div 4])"

fun set_digit_bits :: "nat \<Rightarrow> nat \<Rightarrow> nat \<Rightarrow> nat list \<Rightarrow> nat \<Rightarrow> nat status_or" where
  "set_digit_bits n i d [] b = Inr b"
| "set_digit_bits n i d (j # js) b =
     (if drop_bit j d mod 2 \<noteq> 1 then set_digit_bits n i d js b
      else if 4 * i + j < n then set_digit_bits n i d js (set_bit (4 * i + j) b)
      else Inl INVALID_ARGUMENT)"

text \<open>The characters from the least significant one on.\<close>

fun hex_to_bits :: "nat \<Rightarrow> nat \<Rightarrow> string \<Rightarrow> nat \<Rightarrow> nat status_or" where
  "hex_to_bits n i [] b = Inr b"
| "hex_to_bits n i (c # cs) b =
     bind_or (HexCharToDigit c) (\<lambda>d.
       bind_or (set_digit_bits n i d [0, 1, 2, 3] b) (\<lambda>b'. hex_to_bits n (i + 1) cs b'))"

definition HexStringToAnyLargeEnoughBitset :: "nat \<Rightarrow> string \<Rightarrow> nat status_or" where
  "HexStringToAnyLargeEnoughBitset n s =
     (if take 2 s \<noteq> ''0x'' then Inl INVALID_ARGUMENT else hex_to_bits n 0 (rev (drop 2 s)) 0)"

definition HexStringToBitset :: "nat \<Rightarrow> string \<Rightarrow> nat status_or" where
  "HexStringToBitset n s =
     (if take 2 s = ''0x'' \<and> length s - 2 \<noteq> (n + 3) div 4 then Inl INVALID_ARGUMENT
      else HexStringToAnyLargeEnoughBitset n s)"

text \<open>\<open>HexStringTo<T>\<close>: the bits of the value, read as the unsigned or two's complement type.\<close>

definition HexStringToUint32 :: "string \<Rightarrow> nat status_or" where
  "HexStringToUint32 s = HexStringToAnyLargeEnoughBitset 32 s"

definition HexStringToUint64 :: "string \<Rightarrow> nat status_or" where
  "HexStringToUint64 s = HexStringToAnyLargeEnoughBitset 64 s"

definition HexStringToInt32 :: "string \<Rightarrow> int status_or" where
  "HexStringToInt32 s = bind_or (HexStringToAnyLargeEnoughBitset 32 s) (\<lambda>b. Inr (to_int32 (int b)))"

definition HexStringToInt64 :: "string \<Rightarrow> int status_or" where
  "HexStringToInt64 s = bind_or (HexStringToAnyLargeEnoughBitset 64 s) (\<lambda>b. Inr (to_int64 (int b)))"

section \<open>Byte strings\<close>

definition SafeChar :: "nat \<Rightarrow> char" where
  "SafeChar byte = char_of byte"

definition SafeString :: "nat list \<Rightarrow> string" where
  "SafeString bytes = map SafeChar bytes"

definition ByteStringToP4runtimeByteString :: "string \<Rightarrow> string" where
  "ByteStringToP4runtimeByteString bytes =
     drop (min (length (takeWhile (\<lambda>c. c = CHR 0x00) bytes)) (length bytes - 1)) bytes"

fun significant_bits :: "nat \<Rightarrow> nat" where
  "significant_bits c = (if c div 2 = 0 then 1 else Suc (significant_bits (c div 2)))"

declare significant_bits.simps [simp del]

fun bitwidth_loop :: "string \<Rightarrow> nat option" where
  "bitwidth_loop [] = None"
| "bitwidth_loop (c # cs) =
     (if of_char c = (0 :: nat) then bitwidth_loop cs
      else Some (significant_bits (of_char c) + 8 * length cs))"

definition GetBitwidthOfByteString :: "string \<Rightarrow> nat" where
  "GetBitwidthOfByteString s =
     (case bitwidth_loop s of Some n \<Rightarrow> n | None \<Rightarrow> if s = [] then 0 else 1)"

definition NumBitsToNumBytes :: "nat \<Rightarrow> nat" where
  "NumBitsToNumBytes num_bits = (num_bits + 7) div 8"

definition AnyByteStringToBitset :: "nat \<Rightarrow> string \<Rightarrow> nat" where
  "AnyByteStringToBitset n s =
     foldl (\<lambda>bits c. take_bit n (push_bit 8 bits) OR take_bit n (of_char c)) 0 s"

definition ByteStringToBitset :: "nat \<Rightarrow> string \<Rightarrow> nat status_or" where
  "ByteStringToBitset n s =
     (if s = [] then Inl INVALID_ARGUMENT
      else let extra = length s - NumBitsToNumBytes n; s' = drop extra s
      in if length s < NumBitsToNumBytes n then Inr (AnyByteStringToBitset n s)
         else if list_ex (\<lambda>c. c \<noteq> CHR 0x00) (take extra s) then Inl INVALID_ARGUMENT
         else if n mod 8 \<noteq> 0 \<and> drop_bit (n mod 8) (of_char (hd s') :: nat) \<noteq> 0 then Inl INVALID_ARGUMENT
         else Inr (AnyByteStringToBitset n s'))"

text \<open>The buffer is filled from its end; \<open>k\<close> bytes remain.\<close>

fun padded_bytes :: "nat \<Rightarrow> nat \<Rightarrow> string \<Rightarrow> string" where
  "padded_bytes 0 b acc = acc"
| "padded_bytes (Suc k) b acc = padded_bytes k (drop_bit 8 b) (SafeChar (b AND 0xFF) # acc)"

definition BitsetToPaddedByteString :: "nat \<Rightarrow> nat \<Rightarrow> string" where
  "BitsetToPaddedByteString n b = padded_bytes (NumBitsToNumBytes n) b []"

definition BitsetToP4RuntimeByteString :: "nat \<Rightarrow> nat \<Rightarrow> string" where
  "BitsetToP4RuntimeByteString n b = ByteStringToP4runtimeByteString (BitsetToPaddedByteString n b)"

section \<open>Lemmas on decimal strings\<close>

lemma digit_char_inj: "d < 16 \<Longrightarrow> e < 16 \<Longrightarrow> digit_char d = digit_char e \<longleftrightarrow> d = e"
  by (metis digit_value_char option.inject)

lemma dec_digit_char:
  "48 \<le> (of_char c :: nat) \<and> (of_char c :: nat) \<le> 57 \<longleftrightarrow> (\<exists>d < 10. c = digit_char d)"
proof
  assume a: "48 \<le> (of_char c :: nat) \<and> (of_char c :: nat) \<le> 57"
  then have "of_char c - 48 < (10 :: nat)" by linarith
  with a have "c = digit_char (of_char c - 48)" by (simp add: digit_char_def)
  with a show "\<exists>d < 10. c = digit_char d" by (intro exI [of _ "of_char c - 48"]) auto
qed (auto simp: digit_char_def of_char_of)

lemma of_char_digit [simp]: "d < 10 \<Longrightarrow> of_char (digit_char d) = 48 + d"
  by (simp add: digit_char_def of_char_of)

lemma dec_str_step: "0 < acc \<Longrightarrow> d < 10 \<Longrightarrow> dec_str (acc * 10 + d) = dec_str acc @ [digit_char d]"
  by (subst (1) dec_str_def, subst base_str.simps) (auto simp: dec_str_def)

lemma dec_str_digit: "d < 10 \<Longrightarrow> dec_str d = [digit_char d]"
  by (simp add: dec_str_def base_str.simps)

lemma dec_str_chars: "c \<in> set (dec_str n) \<Longrightarrow> \<exists>d < 10. c = digit_char d"
proof (induction "10 :: nat" n rule: base_str.induct)
  case (1 n)
  have "\<exists>d < 10. digit_char (n mod 10) = digit_char d" by (intro exI [of _ "n mod 10"]) simp
  with 1 show ?case
    by (cases "n < 10") (auto simp: dec_str_def base_str.simps [of 10 n])
qed

lemma dec_str_hd: "hd (dec_str n) = digit_char 0 \<longleftrightarrow> n = 0"
proof (induction "10 :: nat" n rule: base_str.induct)
  case (1 n)
  show ?case
  proof (cases "n < 10")
    case True
    then show ?thesis by (simp add: dec_str_digit digit_char_inj)
  next
    case False
    with 1 show ?thesis by (simp add: dec_str_def base_str.simps [of 10 n])
  qed
qed

lemma parse_digits_ge: "0 < b \<Longrightarrow> parse_digits b acc cs = Some v \<Longrightarrow> acc \<le> v"
proof (induction cs arbitrary: acc)
  case (Cons c cs)
  then obtain d where "parse_digits b (acc * b + d) cs = Some v"
    by (auto split: option.splits if_splits)
  with Cons have "acc * b + d \<le> v" by blast
  moreover have "acc \<le> acc * b" using Cons.prems(1) by simp
  ultimately show ?case by linarith
qed simp

lemma dec_str_prefix_le: "dec_str v = dec_str a @ cs \<Longrightarrow> a \<le> v"
proof -
  assume "dec_str v = dec_str a @ cs"
  then have "Some v = parse_digits 10 a cs"
    using parse_digits_base_str [of 10 v] parse_digits_base_str [of 10 a]
    by (simp add: dec_str_def parse_digits_append)
  then show "a \<le> v" using parse_digits_ge [of 10 a cs v] by simp
qed

lemma dec_str_inj: "dec_str v = dec_str w \<longleftrightarrow> v = w"
  by (metis dec_str_def parse_base_str option.inject numeral_le_iff semiring_norm(69) semiring_norm(72)
      order_refl dec_str_prefix_le append_Nil2 order_antisym)

lemma decimal_overflow:
  fixes acc m d :: nat
  assumes "d \<le> 9" "9 \<le> m"
  shows "(acc > m div 10 \<or> acc * 10 > m - d) \<longleftrightarrow> acc * 10 + d > m"
proof -
  have "m div 10 < acc \<longleftrightarrow> m < acc * 10" by (simp add: div_less_iff_less_mult)
  with assms show ?thesis by linarith
qed

lemma decimal_loop_iff:
  assumes "0 < acc" "acc \<le> m" "9 \<le> m"
  shows "decimal_loop len m acc cs = Inr v \<longleftrightarrow> v \<le> m \<and> dec_str v = dec_str acc @ cs"
  using assms
proof (induction cs arbitrary: acc)
  case Nil
  then show ?case by (auto simp: dec_str_inj)
next
  case (Cons c cs)
  show ?case
  proof (cases "\<exists>d < 10. c = digit_char d")
    case False
    then have "\<not> (48 \<le> (of_char c :: nat) \<and> (of_char c :: nat) \<le> 57)" by (simp add: dec_digit_char)
    moreover have "dec_str v \<noteq> dec_str acc @ c # cs"
      using False dec_str_chars [of c v] by auto
    ultimately show ?thesis by auto
  next
    case True
    then obtain d where d: "d < 10" "c = digit_char d" by blast
    have app: "dec_str acc @ c # cs = dec_str (acc * 10 + d) @ cs"
      using Cons.prems(1) d by (simp add: dec_str_step)
    have ov: "(acc > m div 10 \<or> acc * 10 > m - d) \<longleftrightarrow> acc * 10 + d > m"
      using decimal_overflow [of d m acc] d Cons.prems(3) by simp
    show ?thesis
    proof (cases "acc * 10 + d > m")
      case True
      then have "\<not> (v \<le> m \<and> dec_str v = dec_str (acc * 10 + d) @ cs)"
        using dec_str_prefix_le [of v "acc * 10 + d" cs] by auto
      then have "\<not> (v \<le> m \<and> dec_str v = dec_str acc @ c # cs)" by (simp add: app)
      with True ov d Cons.prems show ?thesis by simp
    next
      case False
      have "decimal_loop len m acc (c # cs) = decimal_loop len m (acc * 10 + d) cs"
        using False ov d Cons.prems(1) by simp
      also have "\<dots> = Inr v \<longleftrightarrow> v \<le> m \<and> dec_str v = dec_str (acc * 10 + d) @ cs"
        using False Cons.prems d by (intro Cons.IH) auto
      finally show ?thesis by (simp add: app)
    qed
  qed
qed

lemma DecimalStringTo_iff:
  assumes "9 \<le> m"
  shows "DecimalStringTo m s = Inr v \<longleftrightarrow> (if s = [] then v = 0 else v \<le> m \<and> s = dec_str v)"
proof (cases s)
  case Nil
  then show ?thesis by (auto simp: DecimalStringTo_def)
next
  case (Cons c cs)
  show ?thesis
  proof (cases "\<exists>d < 10. c = digit_char d")
    case False
    then have "\<not> (48 \<le> (of_char c :: nat) \<and> (of_char c :: nat) \<le> 57)" by (simp add: dec_digit_char)
    moreover have "s \<noteq> dec_str v" using False dec_str_chars [of c v] Cons by (metis list.set_intros(1))
    ultimately show ?thesis by (auto simp: DecimalStringTo_def Cons)
  next
    case True
    then obtain d where d: "d < 10" "c = digit_char d" by blast
    show ?thesis
    proof (cases "d = 0")
      case True
      have "s = dec_str v \<longleftrightarrow> v = 0 \<and> cs = []"
        using dec_str_hd [of v] dec_str_digit [of 0] d True Cons
        by (metis list.inject list.sel(1) zero_less_numeral)
      then show ?thesis
        using d True by (auto simp: DecimalStringTo_def Cons)
    next
      case False
      then have "DecimalStringTo m s = decimal_loop (length s) m d cs"
        using d assms by (simp add: DecimalStringTo_def Cons)
      then show ?thesis
        using decimal_loop_iff [of d m "length s" cs v] False d assms
        by (auto simp: Cons dec_str_digit)
    qed
  qed
qed

section \<open>Lemmas on byte strings\<close>

definition be_value :: "string \<Rightarrow> nat" where
  "be_value s = foldl (\<lambda>v c. v * 256 + of_char c) 0 s"

lemmas of_char_lt = nat_of_char_less_256

lemma push_or_add:
  fixes a c :: nat
  assumes "c < 2 ^ k"
  shows "push_bit k a OR c = a * 2 ^ k + c"
proof -
  have "push_bit k a AND c = 0"
    using assms by (auto simp: bit_eq_iff bit_simps)
      (metis bit_take_bit_iff linorder_not_less take_bit_nat_eq_self)
  then have "push_bit k a + c = push_bit k a OR c" by (rule disjunctive_add_eq_or)
  then show ?thesis by (simp add: push_bit_nat_def)
qed

lemma bitset_step: "take_bit n (push_bit 8 v) OR take_bit n (of_char c) = take_bit n (v * 256 + of_char c :: nat)"
  using push_or_add [of "of_char c" 8 v] of_char_lt [of c] by (simp flip: take_bit_or)

lemma AnyByteStringToBitset_eq: "AnyByteStringToBitset n s = take_bit n (be_value s)"
proof -
  have "foldl (\<lambda>bits c. take_bit n (push_bit 8 bits) OR take_bit n (of_char c)) (take_bit n v) s =
      take_bit n (foldl (\<lambda>v c. v * 256 + of_char c) v s)" for v :: nat
  proof (induction s arbitrary: v)
    case (Cons c s)
    have "take_bit n (take_bit n v * 256 + of_char c :: nat) = take_bit n (v * 256 + of_char c)"
      by (simp add: take_bit_eq_mod) (metis mod_add_left_eq mod_mult_left_eq)
    with Cons [of "v * 256 + of_char c"] show ?case by (simp add: bitset_step)
  qed simp
  from this [of 0] show ?thesis by (simp add: AnyByteStringToBitset_def be_value_def)
qed

lemma be_value_from: "foldl (\<lambda>v c. v * 256 + of_char c) a s = a * 256 ^ length s + be_value s"
proof (induction s arbitrary: a)
  case (Cons c s)
  from Cons [of "a * 256 + of_char c"] Cons [of "of_char c"] show ?case
    by (simp add: be_value_def algebra_simps)
qed (simp add: be_value_def)

lemma be_value_Cons [simp]: "be_value (c # s) = of_char c * 256 ^ length s + be_value s"
  using be_value_from [of "of_char c" s] by (simp add: be_value_def)

lemma be_value_Nil [simp]: "be_value [] = 0"
  by (simp add: be_value_def)

lemma be_value_append: "be_value (xs @ ys) = be_value xs * 256 ^ length ys + be_value ys"
  by (induction xs) (auto simp: power_add algebra_simps)

lemma be_value_less: "be_value s < 256 ^ length s"
proof (induction s)
  case (Cons c s)
  have "of_char c * 256 ^ length s + 256 ^ length s \<le> 256 * (256 :: nat) ^ length s"
  proof -
    have "of_char c + 1 \<le> (256 :: nat)" using of_char_lt [of c] by linarith
    from mult_right_mono [OF this, of "256 ^ length s"] show ?thesis by (simp add: algebra_simps)
  qed
  then have "of_char c * 256 ^ length s + be_value s < 256 * 256 ^ length s"
    using Cons by linarith
  then show ?case by simp
qed simp

lemma padded_bytes_append: "padded_bytes k b acc = padded_bytes k b [] @ acc"
proof (induction k arbitrary: b acc)
  case (Suc k)
  show ?case
    using Suc [of "drop_bit 8 b" "SafeChar (b AND 0xFF) # acc"] Suc [of "drop_bit 8 b" "[SafeChar (b AND 0xFF)]"]
    by simp
qed simp

lemma length_padded_bytes [simp]: "length (padded_bytes k b acc) = k + length acc"
  by (induction k b acc rule: padded_bytes.induct) auto

lemma of_char_low_byte: "of_char (SafeChar (b AND 0xFF)) = b mod 256"
proof -
  have "b AND 0xFF = b mod (256 :: nat)"
    using take_bit_eq_mask [of 8 b] by (simp add: take_bit_eq_mod mask_eq_exp_minus_1)
  then show ?thesis by (simp add: SafeChar_def of_char_of)
qed

lemma be_value_padded: "be_value (padded_bytes k b []) = b mod 256 ^ k"
proof (induction k arbitrary: b)
  case (Suc k)
  have "be_value (padded_bytes (Suc k) b []) = (b div 256) mod 256 ^ k * 256 + b mod 256"
    using Suc [of "drop_bit 8 b"] padded_bytes_append [of k "drop_bit 8 b" "[SafeChar (b AND 0xFF)]"]
    by (simp add: be_value_append of_char_low_byte drop_bit_nat_def)
  also have "\<dots> = b mod 256 ^ Suc k"
    using mod_mult2_eq [of b 256 "256 ^ k"] by simp
  finally show ?case .
qed simp

lemma exp_le_bytes: "2 ^ n \<le> (256 :: nat) ^ NumBitsToNumBytes n"
proof -
  have "n \<le> 8 * NumBitsToNumBytes n" by (simp add: NumBitsToNumBytes_def)
  then have "(2 :: nat) ^ n \<le> 2 ^ (8 * NumBitsToNumBytes n)" by (rule power_increasing) simp
  then show ?thesis by (simp add: power_mult)
qed

lemma length_BitsetToPaddedByteString [simp]:
  "length (BitsetToPaddedByteString n b) = NumBitsToNumBytes n"
  by (simp add: BitsetToPaddedByteString_def)

lemma padded_not_Nil: "0 < n \<Longrightarrow> BitsetToPaddedByteString n b \<noteq> []"
proof -
  assume "0 < n"
  then have "0 < NumBitsToNumBytes n" by (simp add: NumBitsToNumBytes_def)
  then have "0 < length (BitsetToPaddedByteString n b)" by simp
  then show ?thesis unfolding length_greater_0_conv .
qed

lemma be_value_BitsetToPadded: "b < 2 ^ n \<Longrightarrow> be_value (BitsetToPaddedByteString n b) = b"
  using exp_le_bytes [of n] by (simp add: BitsetToPaddedByteString_def be_value_padded)

lemma of_char_zero: "of_char c = (0 :: nat) \<Longrightarrow> c = CHR 0x00"
  using of_char_eq_iff [of c "CHR 0x00", where 'a = nat] by simp

lemma be_value_zeros: "list_all (\<lambda>c. c = CHR 0x00) s \<Longrightarrow> be_value s = 0"
  by (induction s) auto

text \<open>Reading a byte string whose value fits gives the value, whatever its padding.\<close>

lemma be_value_zero_prefix: "be_value s < 256 ^ k \<Longrightarrow> k \<le> length s \<Longrightarrow> list_all (\<lambda>c. c = CHR 0x00) (take (length s - k) s)"
proof (induction s)
  case (Cons c s)
  show ?case
  proof (cases "k = length (c # s)")
    case False
    with Cons.prems have k: "k \<le> length s" by simp
    have "of_char c = (0 :: nat)"
    proof (rule ccontr)
      assume "of_char c \<noteq> (0 :: nat)"
      then have "(256 :: nat) ^ length s \<le> be_value (c # s)" by (cases "of_char c :: nat") auto
      moreover have "(256 :: nat) ^ k \<le> 256 ^ length s" using k by (rule power_increasing) simp
      ultimately show False using Cons.prems(1) by linarith
    qed
    moreover from this have "c = CHR 0x00" by (rule of_char_zero)
    ultimately show ?thesis using Cons k by (simp add: Suc_diff_le)
  qed simp
qed simp

lemma top_bits_zero_iff:
  assumes "length s = NumBitsToNumBytes n" and "n mod 8 \<noteq> 0"
  shows "drop_bit (n mod 8) (of_char (hd s) :: nat) = 0 \<longleftrightarrow> be_value s < 2 ^ n"
proof -
  have K: "NumBitsToNumBytes n = Suc (n div 8)" using assms(2) by (simp add: NumBitsToNumBytes_def) presburger
  then obtain c cs where s: "s = c # cs" "length cs = n div 8" using assms(1) by (cases s) auto
  have n: "(2 :: nat) ^ n = 2 ^ (n mod 8) * 256 ^ (n div 8)"
  proof -
    have "(2 :: nat) ^ n = 2 ^ (n mod 8 + 8 * (n div 8))" by simp
    also have "\<dots> = 2 ^ (n mod 8) * (2 ^ 8) ^ (n div 8)" by (simp only: power_add power_mult)
    finally show ?thesis by simp
  qed
  have lt: "be_value cs < 256 ^ (n div 8)" using be_value_less [of cs] s by simp
  have "drop_bit (n mod 8) (of_char c :: nat) = 0 \<longleftrightarrow> of_char c < (2 :: nat) ^ (n mod 8)"
    by (simp add: drop_bit_nat_def div_eq_0_iff)
  also have "\<dots> \<longleftrightarrow> of_char c * 256 ^ (n div 8) + be_value cs < 2 ^ n"
  proof
    assume "of_char c < (2 :: nat) ^ (n mod 8)"
    then have "(of_char c + 1) * 256 ^ (n div 8) \<le> (2 :: nat) ^ n"
      unfolding n by (intro mult_right_mono) auto
    with lt show "of_char c * 256 ^ (n div 8) + be_value cs < 2 ^ n" by (simp add: algebra_simps)
  next
    assume a: "of_char c * 256 ^ (n div 8) + be_value cs < 2 ^ n"
    show "of_char c < (2 :: nat) ^ (n mod 8)"
    proof (rule ccontr)
      assume "\<not> of_char c < (2 :: nat) ^ (n mod 8)"
      then have "(2 :: nat) ^ n \<le> of_char c * 256 ^ (n div 8)" unfolding n by (intro mult_right_mono) auto
      with a show False by linarith
    qed
  qed
  finally show ?thesis by (simp add: s)
qed

lemma short_value: "length s < NumBitsToNumBytes n \<Longrightarrow> be_value s < 2 ^ n"
proof -
  assume "length s < NumBitsToNumBytes n"
  then have "8 * length s \<le> n" by (auto simp: NumBitsToNumBytes_def)
  then have "(2 :: nat) ^ (8 * length s) \<le> 2 ^ n" by (rule power_increasing) simp
  with be_value_less [of s] show ?thesis by (simp add: power_mult)
qed

lemma ByteStringToBitset_iff:
  "ByteStringToBitset n s = Inr v \<longleftrightarrow> s \<noteq> [] \<and> be_value s < 2 ^ n \<and> v = be_value s"
proof (cases "s = [] \<or> length s < NumBitsToNumBytes n")
  case True
  then show ?thesis
    using short_value [of s n] by (auto simp: ByteStringToBitset_def Let_def AnyByteStringToBitset_eq take_bit_nat_eq_self)
next
  case False
  let ?K = "NumBitsToNumBytes n"
  let ?pre = "take (length s - ?K) s" and ?suf = "drop (length s - ?K) s"
  have len: "length ?suf = ?K" using False by simp
  have val: "be_value s = be_value ?pre * 256 ^ ?K + be_value ?suf"
    using be_value_append [of ?pre ?suf] len by simp
  show ?thesis
  proof (cases "list_ex (\<lambda>c. c \<noteq> CHR 0x00) ?pre")
    case True
    then have "\<not> be_value s < 256 ^ ?K"
      using be_value_zero_prefix [of s ?K] False by (auto simp: list_all_iff list_ex_iff)
    then have "\<not> be_value s < 2 ^ n" using exp_le_bytes [of n] by linarith
    with True False show ?thesis by (auto simp: ByteStringToBitset_def)
  next
    case zero: False
    then have suf: "be_value s = be_value ?suf"
      using be_value_zeros [of ?pre] val by (auto simp: list_all_iff list_ex_iff)
    have "(n mod 8 \<noteq> 0 \<and> drop_bit (n mod 8) (of_char (hd ?suf) :: nat) \<noteq> 0) \<longleftrightarrow> \<not> be_value s < 2 ^ n"
    proof (cases "n mod 8 = 0")
      case True
      then have "(256 :: nat) ^ ?K = 2 ^ n"
        by (auto simp: NumBitsToNumBytes_def power_mult elim!: dvdE)
      with True be_value_less [of ?suf] suf len show ?thesis by simp
    next
      case nz: False
      then show ?thesis using top_bits_zero_iff [OF len nz] suf by simp
    qed
    with zero False suf show ?thesis
      by (auto simp: ByteStringToBitset_def Let_def AnyByteStringToBitset_eq take_bit_nat_eq_self)
  qed
qed

section \<open>Lemmas on hexadecimal strings\<close>

lemma HexCharToDigit_digit [simp]: "d < 16 \<Longrightarrow> HexCharToDigit (HexDigitToChar d) = Inr d"
  by (simp add: HexCharToDigit_def HexDigitToChar_def)

lemma HexCharToDigit_char [simp]: "d < 16 \<Longrightarrow> HexCharToDigit (digit_char d) = Inr d"
  by (simp add: HexCharToDigit_def)

lemma hex_digit_of_eq:
  "b < 2 ^ n \<Longrightarrow> hex_digit_of n b i =
     8 * of_bool (bit b (4 * i + 3)) + 4 * of_bool (bit b (4 * i + 2)) +
     2 * of_bool (bit b (4 * i + 1)) + of_bool (bit b (4 * i))"
proof -
  assume b: "b < 2 ^ n"
  have "bit b k \<Longrightarrow> k < n" for k
    using b by (metis bit_take_bit_iff take_bit_nat_eq_self)
  then have "(k < n \<and> bit b k) = bit b k" for k by blast
  then show ?thesis
    unfolding hex_digit_of_def by (cases "bit b (4 * i + 3)"; cases "bit b (4 * i + 2)";
        cases "bit b (4 * i + 1)"; cases "bit b (4 * i)") (simp_all add: push_bit_nat_def)
qed

lemma take_bit_Suc_set:
  "take_bit (Suc k) b = (if bit b k then set_bit k (take_bit k b) else take_bit k (b :: nat))"
  by (rule bit_eqI) (auto simp: bit_simps less_Suc_eq)

definition set_if :: "bool \<Rightarrow> nat \<Rightarrow> nat \<Rightarrow> nat" where
  "set_if p k b = (if p then set_bit k b else b)"

lemma set_digit_bits_bools:
  assumes "p0 \<Longrightarrow> 4 * i < n" "p1 \<Longrightarrow> 4 * i + 1 < n" "p2 \<Longrightarrow> 4 * i + 2 < n" "p3 \<Longrightarrow> 4 * i + 3 < n"
  shows "set_digit_bits n i (8 * of_bool p3 + 4 * of_bool p2 + 2 * of_bool p1 + of_bool p0) [0, 1, 2, 3] b =
    Inr (set_if p3 (4 * i + 3) (set_if p2 (4 * i + 2) (set_if p1 (4 * i + 1) (set_if p0 (4 * i) b))))"
  using assms
  by (cases p0; cases p1; cases p2; cases p3) (simp_all add: drop_bit_nat_def set_if_def)

lemma set_digit_bits_step:
  assumes "b < 2 ^ n"
  shows "set_digit_bits n i (hex_digit_of n b i) [0, 1, 2, 3] (take_bit (4 * i) b) =
    Inr (take_bit (4 * (i + 1)) b)"
proof -
  have lt: "bit b k \<Longrightarrow> k < n" for k
    using assms by (metis bit_take_bit_iff take_bit_nat_eq_self)
  have step: "take_bit (Suc k) b = set_if (bit b k) k (take_bit k b)" for k
    by (simp add: take_bit_Suc_set set_if_def)
  have four: "4 * (i + 1) = Suc (Suc (Suc (Suc (4 * i))))" by simp
  have "take_bit (4 * (i + 1)) b =
      set_if (bit b (4 * i + 3)) (4 * i + 3) (set_if (bit b (4 * i + 2)) (4 * i + 2)
        (set_if (bit b (4 * i + 1)) (4 * i + 1) (set_if (bit b (4 * i)) (4 * i) (take_bit (4 * i) b))))"
    using step [of "4 * i + 3"] step [of "4 * i + 2"] step [of "4 * i + 1"] step [of "4 * i"]
    unfolding four by (simp add: numeral_3_eq_3 numeral_2_eq_2)
  then show ?thesis
    unfolding hex_digit_of_eq [OF assms] by (subst set_digit_bits_bools) (auto intro: lt)
qed

lemma hex_digit_of_less: "b < 2 ^ n \<Longrightarrow> hex_digit_of n b i < 16"
  by (simp add: hex_digit_of_eq)

lemma hex_to_bits_digits:
  "b < 2 ^ n \<Longrightarrow>
     hex_to_bits n i (map (\<lambda>i. HexDigitToChar (hex_digit_of n b i)) [i ..< i + m]) (take_bit (4 * i) b) =
     Inr (take_bit (4 * (i + m)) b)"
proof (induction m arbitrary: i)
  case (Suc m)
  have "[i ..< i + Suc m] = i # [i + 1 ..< i + 1 + m]" by (simp add: upt_conv_Cons del: upt_Suc)
  with Suc.IH [of "i + 1"] Suc.prems set_digit_bits_step [OF Suc.prems, of i]
  show ?case by (simp add: hex_digit_of_less del: upt_Suc set_digit_bits.simps)
qed simp

lemma HexStringToBitset_BitsetToHexString:
  assumes "b < 2 ^ n"
  shows "HexStringToBitset n (BitsetToHexString n b) = Inr b"
proof -
  have "n \<le> 4 * ((n + 3) div 4)" by presburger
  then have "(2 :: nat) ^ n \<le> 2 ^ (4 * ((n + 3) div 4))" by (rule power_increasing) simp
  with assms have "b < 2 ^ (4 * ((n + 3) div 4))" by linarith
  then have "take_bit (4 * ((n + 3) div 4)) b = b" by (rule take_bit_nat_eq_self)
  with hex_to_bits_digits [OF assms, of 0 "(n + 3) div 4"] show ?thesis
    by (simp add: HexStringToBitset_def HexStringToAnyLargeEnoughBitset_def BitsetToHexString_def)
qed

lemma hex_pairs_BytesToHexString: "hex_pairs (BytesToHexString s) = Inr s"
proof (induction s)
  case (Cons c s)
  have lt: "of_char c div 16 < (16 :: nat)" "of_char c mod 16 < (16 :: nat)"
    using of_char_lt [of c] by (auto simp: div_less_iff_less_mult)
  have "push_bit 4 (of_char c div 16) OR (of_char c mod 16) = (of_char c :: nat)"
    using push_or_add [of "of_char c mod 16" 4 "of_char c div 16"] lt(2) by simp
  with Cons lt show ?case by (simp add: BytesToHexString_def)
qed (simp add: BytesToHexString_def)

lemma length_BytesToHexString [simp]: "length (BytesToHexString s) = 2 * length s"
  by (induction s) (auto simp: BytesToHexString_def)

lemma HexStringToByteString_ByteStringToHexString:
  "HexStringToByteString (ByteStringToHexString s) = Inr s"
  by (simp add: HexStringToByteString_def ByteStringToHexString_def hex_pairs_BytesToHexString)

lemma strip_zeros_value: "be_value (ByteStringToP4runtimeByteString s) = be_value s"
proof -
  let ?k = "min (length (takeWhile (\<lambda>c. c = CHR 0x00) s)) (length s - 1)"
  have "c = CHR 0x00" if "c \<in> set (take ?k s)" for c
  proof -
    have "set (take ?k s) \<subseteq> set (take (length (takeWhile (\<lambda>c. c = CHR 0x00) s)) s)"
      by (rule set_take_subset_set_take) simp
    then have "c \<in> set (takeWhile (\<lambda>c. c = CHR 0x00) s)"
      using that takeWhile_eq_take [of "\<lambda>c. c = CHR 0x00" s] by auto
    then show ?thesis by (auto dest: set_takeWhileD)
  qed
  then have "list_all (\<lambda>c. c = CHR 0x00) (take ?k s)" unfolding list_all_iff by blast
  then have "be_value (take ?k s) = 0" by (rule be_value_zeros)
  with be_value_append [of "take ?k s" "drop ?k s"] show ?thesis
    by (simp add: ByteStringToP4runtimeByteString_def)
qed

lemma strip_zeros_canonical:
  assumes "s \<noteq> []"
  shows "ByteStringToP4runtimeByteString s \<noteq> [] \<and>
    (length (ByteStringToP4runtimeByteString s) = 1 \<or> hd (ByteStringToP4runtimeByteString s) \<noteq> CHR 0x00)"
proof (cases "length (takeWhile (\<lambda>c. c = CHR 0x00) s) < length s - 1")
  case True
  then have "drop (length (takeWhile (\<lambda>c. c = CHR 0x00) s)) s = dropWhile (\<lambda>c. c = CHR 0x00) s"
    and "dropWhile (\<lambda>c. c = CHR 0x00) s \<noteq> []"
    using dropWhile_eq_drop [of "\<lambda>c. c = CHR 0x00" s] by (metis, metis drop_eq_Nil2 less_imp_le_nat
        linorder_not_less less_le_trans diff_le_self dropWhile_eq_drop)
  then show ?thesis
    using True hd_dropWhile [of "\<lambda>c. c = CHR 0x00" s] by (simp add: ByteStringToP4runtimeByteString_def min_def)
next
  case False
  with assms show ?thesis
    by (cases s rule: rev_cases) (auto simp: ByteStringToP4runtimeByteString_def min_def)
qed

section \<open>The encodings as codecs\<close>

interpretation decimal64: codec dec_str DecimalStringToUint64 "\<lambda>v. v < 2 ^ 64"
proof
  fix v :: nat assume "v < 2 ^ 64"
  then show "DecimalStringToUint64 (dec_str v) = Inr v"
    using DecimalStringTo_iff [of "2 ^ 64 - 1" "dec_str v" v] by (simp add: DecimalStringToUint64_def dec_str_def)
qed

interpretation bytes_hex: codec ByteStringToHexString HexStringToByteString "\<lambda>_. True"
  by unfold_locales (rule HexStringToByteString_ByteStringToHexString)

interpretation bitset_hex: codec "BitsetToHexString n" "HexStringToBitset n" "\<lambda>b. b < 2 ^ n" for n
  by unfold_locales (rule HexStringToBitset_BitsetToHexString)

interpretation bitset_bytes: codec "BitsetToPaddedByteString n" "ByteStringToBitset n" "\<lambda>b. 0 < n \<and> b < 2 ^ n" for n
proof
  fix n b :: nat assume b: "0 < n \<and> b < 2 ^ n"
  with padded_not_Nil [of n b] show "ByteStringToBitset n (BitsetToPaddedByteString n b) = Inr b"
    by (simp add: ByteStringToBitset_iff be_value_BitsetToPadded)
qed

interpretation bitset_p4rt: codec "BitsetToP4RuntimeByteString n" "ByteStringToBitset n" "\<lambda>b. 0 < n \<and> b < 2 ^ n" for n
proof
  fix n b :: nat assume b: "0 < n \<and> b < 2 ^ n"
  with padded_not_Nil [of n b] show "ByteStringToBitset n (BitsetToP4RuntimeByteString n b) = Inr b"
    by (simp add: ByteStringToBitset_iff BitsetToP4RuntimeByteString_def strip_zeros_value
        be_value_BitsetToPadded strip_zeros_canonical)
qed

section \<open>Properties\<close>

text \<open>
  Decimal parsing accepts exactly the canonical decimal representations of the values of
  the integer type, without sign and leading zeros, and additionally the empty string, which
  is read as 0.
\<close>

theorem DecimalStringTo_exact:
  "(DecimalStringToInt32 s = Inr v \<longleftrightarrow> (if s = [] then v = 0 else v < 2 ^ 31 \<and> s = dec_str v)) \<and>
   (DecimalStringToInt64 s = Inr v \<longleftrightarrow> (if s = [] then v = 0 else v < 2 ^ 63 \<and> s = dec_str v)) \<and>
   (DecimalStringToUint32 s = Inr v \<longleftrightarrow> (if s = [] then v = 0 else v < 2 ^ 32 \<and> s = dec_str v)) \<and>
   (DecimalStringToUint64 s = Inr v \<longleftrightarrow> (if s = [] then v = 0 else v < 2 ^ 64 \<and> s = dec_str v))"
  by (auto simp: DecimalStringToInt32_def DecimalStringToInt64_def DecimalStringToUint32_def
      DecimalStringToUint64_def DecimalStringTo_iff)

text \<open>
  The canonical P4Runtime byte string of a value reads back as that value, is the same
  for two values only if they are equal, is never empty and has no leading zero byte unless
  it is a single byte.
\<close>

theorem P4RuntimeByteString_canonical:
  assumes "0 < n" and "b < 2 ^ n" and "c < 2 ^ n"
  shows "ByteStringToBitset n (BitsetToP4RuntimeByteString n b) = Inr b \<and>
    (BitsetToP4RuntimeByteString n b = BitsetToP4RuntimeByteString n c \<longleftrightarrow> b = c) \<and>
    BitsetToP4RuntimeByteString n b \<noteq> [] \<and>
    (length (BitsetToP4RuntimeByteString n b) = 1 \<or> hd (BitsetToP4RuntimeByteString n b) \<noteq> CHR 0x00)"
proof -
  have "BitsetToPaddedByteString n b \<noteq> []"
    using assms(1) by (rule padded_not_Nil)
  then show ?thesis
    using assms bitset_p4rt.decode_encode [of n b] bitset_p4rt.encode_inj [of n b c]
      strip_zeros_canonical [of "BitsetToPaddedByteString n b"]
    by (auto simp: BitsetToP4RuntimeByteString_def)
qed

theorem P4RuntimeByteString_canonical_witness:
  "BitsetToP4RuntimeByteString 32 256 = [CHR 0x01, CHR 0x00] \<and>
   ByteStringToBitset 32 (BitsetToP4RuntimeByteString 32 256) = Inr 256"
proof -
  have "BitsetToP4RuntimeByteString 32 256 = [CHR 0x01, CHR 0x00]" by code_simp
  moreover have "ByteStringToBitset 32 (BitsetToP4RuntimeByteString 32 256) = Inr 256"
    using P4RuntimeByteString_canonical [of 32 256 0] by simp
  ultimately show ?thesis by blast
qed

text \<open>
  Hexadecimal encodings lose nothing: bitsets of every width and byte strings are
  recovered exactly from their hexadecimal form, and so are lists of them.
\<close>

theorem hex_round_trip:
  assumes "list_all (\<lambda>b. b < 2 ^ n) bs"
  shows "map_or (HexStringToBitset n) (map (BitsetToHexString n) bs) = Inr bs \<and>
    HexStringToByteString (ByteStringToHexString s) = Inr s"
  using bitset_hex.map_or_decode [OF assms] bytes_hex.decode_encode [of s] by simp

theorem hex_round_trip_witness:
  "map_or (HexStringToBitset 9) (map (BitsetToHexString 9) [0x1ff, 5]) = Inr [0x1ff, 5] \<and>
   BitsetToHexString 9 0x1ff = ''0x1ff''"
proof -
  have "BitsetToHexString 9 0x1ff = ''0x1ff''" by code_simp
  with hex_round_trip [of 9 "[0x1ff, 5]"] show ?thesis by simp
qed

end
