(* ===== verification/Netaddr.thy ===== *)
theory Netaddr
  imports String_Encodings "HOL-Library.Char_ord" "HOL-Library.List_Lexorder"
begin

text \<open>
  Network addresses (\<open>p4_infra/netaddr\<close>): the template \<open>NetworkAddress<N, T>\<close> as operations
  on words of any width, IPv4 and MAC addresses with their notations, and the RFC 4291
  interface identifiers that tie MAC and link-local IPv6 addresses together. The notation of
  IPv6 addresses is \<open>inet_pton\<close>'s and is left out.
\<close>

type_synonym ipv4_address = "32 word"
type_synonym mac_address = "48 word"
type_synonym ipv6_address = "128 word"

section \<open>NetworkAddress\<close>

definition AllZeros :: "'a::len word" where "AllZeros = 0"
definition AllOnes :: "'a::len word" where "AllOnes = NOT 0"

definition IsAllZeros :: "'a::len word \<Rightarrow> bool" where "IsAllZeros w \<longleftrightarrow> w = 0"
definition IsAllOnes :: "'a::len word \<Rightarrow> bool" where "IsAllOnes w \<longleftrightarrow> w = NOT 0"

definition MaskForPrefixLength :: "int \<Rightarrow> 'a::len word status_or" where
  "MaskForPrefixLength prefix_length =
     (if prefix_length < 0 \<or> prefix_length > int LENGTH('a) then Inl INVALID_ARGUMENT
      else Inr (push_bit (LENGTH('a) - nat prefix_length) AllOnes))"

text \<open>\<open>k\<close> candidates are left, up to the full width.\<close>

fun lpm_loop :: "nat \<Rightarrow> 'a::len word \<Rightarrow> int status_or" where
  "lpm_loop 0 w = Inl INVALID_ARGUMENT"
| "lpm_loop (Suc k) w =
     (if w = push_bit k AllOnes then Inr (int LENGTH('a) - int k) else lpm_loop k w)"

definition ToLpmPrefixLength :: "'a::len word \<Rightarrow> int status_or" where
  "ToLpmPrefixLength w = lpm_loop (LENGTH('a) + 1) w"

definition OfHexString :: "string \<Rightarrow> 'a::len word status_or" where
  "OfHexString s = bind_or (HexStringToBitset LENGTH('a) s) (\<lambda>b. Inr (of_nat b))"

definition OfByteString :: "string \<Rightarrow> 'a::len word status_or" where
  "OfByteString s = bind_or (ByteStringToBitset LENGTH('a) s) (\<lambda>b. Inr (of_nat b))"

definition ToHexString :: "'a::len word \<Rightarrow> string" where
  "ToHexString w = BitsetToHexString LENGTH('a) (unat w)"

definition ToPaddedByteString :: "'a::len word \<Rightarrow> string" where
  "ToPaddedByteString w = BitsetToPaddedByteString LENGTH('a) (unat w)"

definition ToP4RuntimeByteString :: "'a::len word \<Rightarrow> string" where
  "ToP4RuntimeByteString w = BitsetToP4RuntimeByteString LENGTH('a) (unat w)"

definition address_less :: "'a::len word \<Rightarrow> 'a word \<Rightarrow> bool" where
  "address_less a b \<longleftrightarrow> ToPaddedByteString a < ToPaddedByteString b"

section \<open>IPv4\<close>

definition ParseByteInBase10 :: "string \<Rightarrow> nat option" where
  "ParseByteInBase10 s =
     (if s = [] \<or> length s > 3 then None
      else case parse_digits 10 0 s of
             None \<Rightarrow> None
           | Some buffer \<Rightarrow> if buffer > 255 then None else Some buffer)"

fun parse_bytes :: "(string \<Rightarrow> nat option) \<Rightarrow> string list \<Rightarrow> 'a::len word \<Rightarrow> 'a word status_or" where
  "parse_bytes parse [] bits = Inr bits"
| "parse_bytes parse (s # ss) bits =
     (case parse s of
        None \<Rightarrow> Inl INVALID_ARGUMENT
      | Some byte \<Rightarrow> parse_bytes parse ss (push_bit 8 bits OR of_nat byte))"

definition Ipv4_OfString :: "string \<Rightarrow> ipv4_address status_or" where
  "Ipv4_OfString address =
     (let bytes = str_split CHR ''.'' address
      in if length bytes \<noteq> 4 then Inl INVALID_ARGUMENT else parse_bytes ParseByteInBase10 bytes 0)"

definition byte_at :: "nat \<Rightarrow> 'a::len word \<Rightarrow> nat" where
  "byte_at k w = unat (drop_bit k w AND 0xFF)"

definition Ipv4_ToString :: "ipv4_address \<Rightarrow> string" where
  "Ipv4_ToString w =
     dec_str (byte_at 24 w) @ ''.'' @ dec_str (byte_at 16 w) @ ''.'' @
     dec_str (byte_at 8 w) @ ''.'' @ dec_str (byte_at 0 w)"

section \<open>MAC\<close>

definition ParseByteInBase16 :: "string \<Rightarrow> nat option" where
  "ParseByteInBase16 s = (if s = [] \<or> length s > 2 then None else parse_digits 16 0 s)"

definition Mac_OfString :: "string \<Rightarrow> mac_address status_or" where
  "Mac_OfString address =
     (let bytes = str_split CHR '':'' address
      in if length bytes \<noteq> 6 then Inl INVALID_ARGUMENT else parse_bytes ParseByteInBase16 bytes 0)"

definition hex02_str :: "nat \<Rightarrow> string" where
  "hex02_str b = [digit_char (b div 16), digit_char (b mod 16)]"

definition Mac_ToString :: "mac_address \<Rightarrow> string" where
  "Mac_ToString w =
     hex02_str (byte_at 40 w) @ '':'' @ hex02_str (byte_at 32 w) @ '':'' @ hex02_str (byte_at 24 w) @ '':'' @
     hex02_str (byte_at 16 w) @ '':'' @ hex02_str (byte_at 8 w) @ '':'' @ hex02_str (byte_at 0 w)"

definition ToInterfaceId :: "mac_address \<Rightarrow> 64 word" where
  "ToInterfaceId bits =
     (let mac = (ucast bits :: 64 word) XOR 0x020000000000
      in 0x000000FFFE000000 OR (mac AND 0x000000FFFFFF) OR push_bit 16 (mac AND 0xFFFFFF000000))"

definition OfInterfaceId :: "64 word \<Rightarrow> mac_address status_or" where
  "OfInterfaceId i =
     (if i AND 0x000000FFFF000000 \<noteq> 0x000000FFFE000000 then Inl INVALID_ARGUMENT
      else Inr ((ucast (drop_bit 16 (i AND 0xFFFFFF0000000000) OR (i AND 0x0000000000FFFFFF)) :: 48 word)
                XOR 0x020000000000))"

definition ToLinkLocalIpv6Address :: "mac_address \<Rightarrow> ipv6_address" where
  "ToLinkLocalIpv6Address mac = push_bit 112 0xFE80 OR ucast (ToInterfaceId mac)"

definition OfLinkLocalIpv6Address :: "ipv6_address \<Rightarrow> mac_address status_or" where
  "OfLinkLocalIpv6Address bits =
     (let upper = (ucast (drop_bit 64 bits) :: 64 word);
          lower = (ucast (bits AND 0xFFFFFFFFFFFFFFFF) :: 64 word)
      in if upper \<noteq> 0xFE80000000000000 then Inl INVALID_ARGUMENT else OfInterfaceId lower)"

section \<open>IPv6\<close>

fun mask_loop :: "nat \<Rightarrow> ipv6_address \<Rightarrow> nat" where
  "mask_loop 0 w = 0"
| "mask_loop (Suc k) w = (if bit w (127 - k) then Suc k else mask_loop k w)"

text \<open>The least set bit \<open>i\<close> gives the length \<open>128 - i\<close>; \<open>Suc k\<close> is \<open>128 - i\<close>.\<close>

definition MinimumMaskLength :: "ipv6_address \<Rightarrow> nat" where
  "MinimumMaskLength w = mask_loop 128 w"

definition IsUpper64BitAddress :: "ipv6_address \<Rightarrow> bool" where
  "IsUpper64BitAddress w \<longleftrightarrow> push_bit 64 w = 0"

section \<open>Lemmas\<close>

lemma bit_AllOnes_push: "bit (push_bit k (AllOnes :: 'a::len word)) j \<longleftrightarrow> k \<le> j \<and> j < LENGTH('a)"
  by (auto simp: AllOnes_def bit_simps)

lemma push_AllOnes_inj:
  "k \<le> LENGTH('a) \<Longrightarrow> k' \<le> LENGTH('a) \<Longrightarrow>
     push_bit k (AllOnes :: 'a::len word) = push_bit k' AllOnes \<longleftrightarrow> k = k'"
  by (metis bit_AllOnes_push le_eq_less_or_eq linorder_neqE_nat not_le order_refl)

lemma lpm_loop_iff:
  "K \<le> LENGTH('a) + 1 \<Longrightarrow>
     lpm_loop K (w :: 'a::len word) = Inr p \<longleftrightarrow> (\<exists>k < K. w = push_bit k AllOnes \<and> p = int LENGTH('a) - int k)"
proof (induction K)
  case (Suc K)
  show ?case
  proof (cases "w = push_bit K AllOnes")
    case True
    have "w = push_bit k AllOnes \<longleftrightarrow> k = K" if "k < Suc K" for k
      unfolding True using push_AllOnes_inj [of K k, where 'a = 'a] Suc.prems that by auto
    with True show ?thesis by auto
  next
    case False
    with Suc show ?thesis by (auto simp: less_Suc_eq)
  qed
qed simp

lemma be_value_order:
  "length xs = length ys \<Longrightarrow> xs < ys \<longleftrightarrow> be_value xs < be_value ys"
proof (induction xs ys rule: list_induct2)
  case (Cons x xs y ys)
  have bounds: "be_value xs < 256 ^ length xs" "be_value ys < 256 ^ length xs"
    using be_value_less [of xs] be_value_less [of ys] Cons.hyps by simp_all
  consider "of_char x < (of_char y :: nat)" | "x = y" | "of_char y < (of_char x :: nat)"
    by (metis linorder_neqE_nat of_char_eq_iff)
  then show ?case
  proof cases
    case 1
    then have "(of_char x + 1) * 256 ^ length xs \<le> of_char y * (256 :: nat) ^ length xs"
      by (intro mult_right_mono) auto
    with 1 bounds Cons.hyps show ?thesis by (simp add: less_char_def)
  next
    case 2
    with Cons show ?thesis by simp
  next
    case 3
    then have "(of_char y + 1) * 256 ^ length xs \<le> of_char x * (256 :: nat) ^ length xs"
      by (intro mult_right_mono) auto
    with 3 bounds Cons.hyps show ?thesis by (auto simp: less_char_def)
  qed
qed simp

lemma and_255: "w AND 0xFF = take_bit 8 (w :: 'a::len word)"
  by (simp add: take_bit_eq_mask mask_eq_exp_minus_1)

lemma byte_step:
  "push_bit 8 (drop_bit (k + 8) w) OR take_bit 8 (drop_bit k w) = drop_bit k (w :: 'a::len word)"
  by (rule bit_word_eqI) (auto simp: bit_simps not_less)

lemma of_nat_byte_at: "of_nat (byte_at k w) = take_bit 8 (drop_bit k (w :: 'a::len word))"
  by (simp add: byte_at_def and_255)

lemma byte_at_less: "8 < LENGTH('a) \<Longrightarrow> byte_at k (w :: 'a::len word) < 256"
  using take_bit_nat_less_exp [of 8 "unat (drop_bit k w)"]
  by (simp add: byte_at_def and_255 unsigned_take_bit_eq)

lemma dec_str_length: "n < 1000 \<Longrightarrow> length (dec_str n) \<le> 3"
  by (cases "n < 10"; cases "n < 100") (auto simp: dec_str_def base_str.simps [of 10 n] base_str.simps [of 10 "n div 10"]
   base_str.simps [of 10 "n div 10 div 10"])

definition u_bit :: "'a::len word" where "u_bit = push_bit 41 1"

lemma bit_u_bit: "bit (u_bit :: 'a::len word) n \<longleftrightarrow> n = 41 \<and> 41 < LENGTH('a)"
  by (auto simp: u_bit_def bit_push_bit_iff bit_1_iff simp del: push_bit_of_1)

lemma interface_masks:
  "(0x020000000000 :: 64 word) = u_bit" "(0x020000000000 :: 48 word) = u_bit"
  "(0x000000FFFE000000 :: 64 word) = push_bit 25 (mask 15)"
  "(0x000000FFFFFF :: 64 word) = mask 24" "(0xFFFFFF000000 :: 64 word) = push_bit 24 (mask 24)"
  "(0x000000FFFF000000 :: 64 word) = push_bit 24 (mask 16)"
  "(0xFFFFFF0000000000 :: 64 word) = push_bit 40 (mask 24)"
  by (simp_all add: mask_eq_exp_minus_1 u_bit_def)

lemma ToInterfaceId_bit:
  "bit (ToInterfaceId w) n \<longleftrightarrow>
     (if n < 24 then bit w n else if n < 40 then n \<noteq> 24
      else n < 64 \<and> (bit w (n - 16) \<noteq> (n = 57)))"
proof -
  consider "n < 24" | "24 \<le> n" "n < 40" | "40 \<le> n" "n < 64" | "64 \<le> n" by linarith
  then show ?thesis
    unfolding ToInterfaceId_def Let_def interface_masks
    by cases (auto simp: bit_simps bit_u_bit)
qed

lemma interface_round_trip: "OfInterfaceId (ToInterfaceId w) = Inr w"
proof -
  have a: "ToInterfaceId w AND push_bit 24 (mask 16) = push_bit 25 (mask 15)"
    by (rule bit_word_eqI) (auto simp: bit_simps ToInterfaceId_bit)
  have b: "(ucast (drop_bit 16 (ToInterfaceId w AND push_bit 40 (mask 24)) OR (ToInterfaceId w AND mask 24)) :: 48 word)
                XOR u_bit = w"
  proof (rule bit_word_eqI)
    fix n assume n: "n < LENGTH(48)"
    then consider "n < 24" | "24 \<le> n" "n < 48" by fastforce
    then show "bit ((ucast (drop_bit 16 (ToInterfaceId w AND push_bit 40 (mask 24)) OR (ToInterfaceId w AND mask 24)) :: 48 word)
                XOR u_bit) n = bit w n"
      by cases (auto simp: bit_simps ToInterfaceId_bit bit_u_bit)
  qed
  show ?thesis unfolding OfInterfaceId_def interface_masks a b by simp
qed

lemma upper_half:
  "(ucast (drop_bit 64 (push_bit 112 x OR (ucast (i :: 64 word) :: 128 word))) :: 64 word) = push_bit 48 (ucast x)"
  by (rule bit_word_eqI) (auto simp: bit_simps dest: bit_imp_le_length)

lemma lower_half:
  "(ucast ((push_bit 112 x OR (ucast (i :: 64 word) :: 128 word)) AND mask 64) :: 64 word) = i"
  by (rule bit_word_eqI) (auto simp: bit_simps)

lemma link_local_round_trip: "OfLinkLocalIpv6Address (ToLinkLocalIpv6Address w) = Inr w"
proof -
  have "(ucast (drop_bit 64 (ToLinkLocalIpv6Address w)) :: 64 word) = push_bit 48 (ucast (0xFE80 :: 128 word))"
    unfolding ToLinkLocalIpv6Address_def by (rule upper_half)
  then have u: "(ucast (drop_bit 64 (ToLinkLocalIpv6Address w)) :: 64 word) = 0xFE80000000000000"
    by simp
  have m: "(0xFFFFFFFFFFFFFFFF :: 128 word) = mask 64" by (simp add: mask_eq_exp_minus_1)
  have l: "(ucast (ToLinkLocalIpv6Address w AND 0xFFFFFFFFFFFFFFFF) :: 64 word) = ToInterfaceId w"
    unfolding ToLinkLocalIpv6Address_def m by (rule lower_half)
  show ?thesis by (simp add: OfLinkLocalIpv6Address_def Let_def u l interface_round_trip)
qed
lemma dot_not_in_dec_str: "CHR ''.'' \<notin> set (dec_str n)"
proof
  assume "CHR ''.'' \<in> set (dec_str n)"
  then obtain d where "d < 10" "CHR ''.'' = digit_char d" using dec_str_chars by blast
  then have "(of_char CHR ''.'' :: nat) = 48 + d" by simp
  then show False by simp
qed

lemma ParseByteInBase10_dec_str: "b < 256 \<Longrightarrow> ParseByteInBase10 (dec_str b) = Some b"
  using dec_str_length [of b] parse_digits_base_str [of 10 b]
  by (simp add: ParseByteInBase10_def dec_str_def)

lemma ParseByteInBase16_hex02: "b < 256 \<Longrightarrow> ParseByteInBase16 (hex02_str b) = Some b"
  by (simp add: ParseByteInBase16_def hex02_str_def div_less_iff_less_mult)

lemma colon_not_in_hex02: "b < 256 \<Longrightarrow> CHR '':'' \<notin> set (hex02_str b)"
  using colon_not_digit by (auto simp: hex02_str_def div_less_iff_less_mult)

lemma Ipv4_round_trip: "Ipv4_OfString (Ipv4_ToString w) = Inr w"
proof -
  have split: "str_split CHR ''.'' (Ipv4_ToString w) =
      [dec_str (byte_at 24 w), dec_str (byte_at 16 w), dec_str (byte_at 8 w), dec_str (byte_at 0 w)]"
    by (simp add: Ipv4_ToString_def str_split_append str_split_no_delim dot_not_in_dec_str)
  have top: "take_bit 8 (drop_bit 24 w) = drop_bit 24 w"
    by (rule bit_word_eqI) (auto simp: bit_simps dest: bit_imp_le_length)
  show ?thesis
    using byte_step [of 16 w] byte_step [of 8 w] byte_step [of 0 w]
    by (simp add: Ipv4_OfString_def split ParseByteInBase10_dec_str byte_at_less of_nat_byte_at top)
qed

lemma Mac_round_trip: "Mac_OfString (Mac_ToString w) = Inr w"
proof -
  have split: "str_split CHR '':'' (Mac_ToString w) =
      [hex02_str (byte_at 40 w), hex02_str (byte_at 32 w), hex02_str (byte_at 24 w), hex02_str (byte_at 16 w),
       hex02_str (byte_at 8 w), hex02_str (byte_at 0 w)]"
    by (simp add: Mac_ToString_def str_split_append str_split_no_delim colon_not_in_hex02 byte_at_less)
  have top: "take_bit 8 (drop_bit 40 w) = drop_bit 40 w"
    by (rule bit_word_eqI) (auto simp: bit_simps dest: bit_imp_le_length)
  show ?thesis
    using byte_step [of 32 w] byte_step [of 24 w] byte_step [of 16 w] byte_step [of 8 w] byte_step [of 0 w]
    by (simp add: Mac_OfString_def split ParseByteInBase16_hex02 byte_at_less of_nat_byte_at top)
qed

section \<open>Addresses as codecs\<close>

interpretation ipv4_text: codec Ipv4_ToString Ipv4_OfString "\<lambda>_. True"
  by unfold_locales (rule Ipv4_round_trip)

interpretation mac_text: codec Mac_ToString Mac_OfString "\<lambda>_. True"
  by unfold_locales (rule Mac_round_trip)

interpretation mac_link_local: codec ToLinkLocalIpv6Address OfLinkLocalIpv6Address "\<lambda>_. True"
  by unfold_locales (rule link_local_round_trip)

interpretation address_hex: codec "ToHexString :: 'a::len word \<Rightarrow> string" OfHexString "\<lambda>_. True"
  by unfold_locales (simp add: ToHexString_def OfHexString_def HexStringToBitset_BitsetToHexString)

interpretation address_bytes: codec "ToP4RuntimeByteString :: 'a::len word \<Rightarrow> string" OfByteString "\<lambda>_. True"
  by unfold_locales (simp add: ToP4RuntimeByteString_def OfByteString_def bitset_p4rt.decode_encode)

section \<open>Properties\<close>

text \<open>
  The textual and link-local forms of addresses lose nothing: dotted IPv4 addresses,
  MAC addresses and the link-local IPv6 addresses derived from MAC addresses all read back
  as the address they were made from, and distinct MAC addresses have distinct link-local
  addresses.
\<close>

theorem address_text_round_trips:
  "Ipv4_OfString (Ipv4_ToString ip) = Inr ip \<and> Mac_OfString (Mac_ToString mac) = Inr mac \<and>
   OfLinkLocalIpv6Address (ToLinkLocalIpv6Address mac) = Inr mac \<and>
   (ToLinkLocalIpv6Address mac = ToLinkLocalIpv6Address mac' \<longleftrightarrow> mac = mac')"
  using ipv4_text.decode_encode [of ip] mac_text.decode_encode [of mac] mac_link_local.decode_encode [of mac]
    mac_link_local.encode_inj [of mac mac'] by auto

text \<open>
  Hexadecimal and P4Runtime byte-string forms of an address of any width read back as the
  address.
\<close>

theorem address_encoding_round_trips:
  "OfHexString (ToHexString w) = Inr w \<and> OfByteString (ToP4RuntimeByteString w) = Inr (w :: 'a::len word)"
  using address_hex.decode_encode [of w] address_bytes.decode_encode [of w] by simp

text \<open>
  \<open>ToLpmPrefixLength\<close> is the exact inverse of \<open>MaskForPrefixLength\<close>: it answers a prefix
  length precisely on the masks of prefix lengths from 0 to the address width, and an error
  on everything else.
\<close>

theorem ToLpmPrefixLength_exact:
  "ToLpmPrefixLength (w :: 'a::len word) = Inr k \<longleftrightarrow> MaskForPrefixLength k = Inr w"
proof -
  have "ToLpmPrefixLength w = Inr k \<longleftrightarrow>
      (\<exists>i \<le> LENGTH('a). w = push_bit i AllOnes \<and> k = int LENGTH('a) - int i)"
    unfolding ToLpmPrefixLength_def by (subst lpm_loop_iff) (auto simp: less_Suc_eq_le)
  also have "\<dots> \<longleftrightarrow> 0 \<le> k \<and> k \<le> int LENGTH('a) \<and> w = push_bit (LENGTH('a) - nat k) AllOnes"
    by (auto intro!: exI [of _ "LENGTH('a) - nat k"]) (metis diff_diff_cancel nat_diff_distrib nat_int of_nat_0_le_iff of_nat_diff)
  finally show ?thesis by (auto simp: MaskForPrefixLength_def)
qed

text \<open>
  The order of addresses, which the code defines on their padded byte strings, is the
  order of the unsigned numbers they denote.
\<close>

theorem address_less_numeric: "address_less a b \<longleftrightarrow> a < (b :: 'a::len word)"
proof -
  have "unat a < 2 ^ LENGTH('a)" "unat b < 2 ^ LENGTH('a)" by simp_all
  then show ?thesis
    unfolding address_less_def ToPaddedByteString_def
    by (subst be_value_order) (simp_all add: be_value_BitsetToPadded word_less_nat_alt)
qed

end
