(* ===== verification/Text_Env.thy ===== *)
theory Text_Env
  imports Netaddr
begin

text \<open>
  The text functions of other libraries that the translation code calls: UTF-8 validation,
  \<open>absl::SimpleAtoi\<close> and \<open>SimpleHexAtoi\<close> on \<open>int\<close>, and the C library's \<open>inet_pton\<close> and
  \<open>inet_ntop\<close> for IPv6; with \<open>Ipv6Address::OfString\<close> and \<open>ToString\<close>
  (\<open>p4_infra/netaddr/ipv6_address.cc\<close>) on top of the latter.
\<close>

record text_env =
  te_utf8_valid :: "string \<Rightarrow> bool"
  te_SimpleAtoi :: "string \<Rightarrow> int option"
  te_SimpleHexAtoi :: "string \<Rightarrow> int option"
  te_inet_pton :: "string \<Rightarrow> string option"
  te_inet_ntop :: "string \<Rightarrow> string option"

definition Ipv6_OfString :: "text_env \<Rightarrow> string \<Rightarrow> ipv6_address status_or" where
  "Ipv6_OfString env address =
     (case te_inet_pton env address of
        Some bytes \<Rightarrow> (case OfByteString bytes of Inr ip \<Rightarrow> Inr ip | Inl _ \<Rightarrow> Inl INVALID_ARGUMENT)
      | None \<Rightarrow> Inl INVALID_ARGUMENT)"

definition Ipv6_ToString :: "text_env \<Rightarrow> ipv6_address \<Rightarrow> string" where
  "Ipv6_ToString env ip =
     (case te_inet_ntop env (ToPaddedByteString ip) of Some s \<Rightarrow> s | None \<Rightarrow> ''::'')"

text \<open>What is documented of the pair: the text of an address reads back as its sixteen bytes.\<close>

definition inet_round_trip :: "text_env \<Rightarrow> bool" where
  "inet_round_trip env \<longleftrightarrow>
     (\<forall>bytes. length bytes = 16 \<longrightarrow>
        (\<exists>s. te_inet_ntop env bytes = Some s \<and> te_inet_pton env s = Some bytes))"

lemma Ipv6_text_round_trip:
  assumes "inet_round_trip env"
  shows "Ipv6_OfString env (Ipv6_ToString env ip) = Inr ip"
proof -
  have "length (ToPaddedByteString ip) = 16"
    by (simp add: ToPaddedByteString_def NumBitsToNumBytes_def)
  with assms obtain s where "te_inet_ntop env (ToPaddedByteString ip) = Some s"
    "te_inet_pton env s = Some (ToPaddedByteString ip)"
    unfolding inet_round_trip_def by blast
  moreover have "unat ip < 2 ^ LENGTH(128)" by (rule unsigned_less)
  then have "OfByteString (ToPaddedByteString ip) = Inr ip"
    using bitset_bytes.decode_encode [of "LENGTH(128)" "unat ip"]
    by (simp add: OfByteString_def ToPaddedByteString_def)
  ultimately show ?thesis by (simp add: Ipv6_OfString_def Ipv6_ToString_def)
qed

section \<open>An instance\<close>

definition example_hex_int :: "string \<Rightarrow> int option" where
  "example_hex_int s =
     (case parse_base 16 (if take 2 s = ''0x'' then drop 2 s else s) of
        Some n \<Rightarrow> if n < 2 ^ 31 then Some (int n) else None
      | None \<Rightarrow> None)"

definition example_inet_pton :: "string \<Rightarrow> string option" where
  "example_inet_pton s =
     (if length s = 32 then (case hex_pairs s of Inr b \<Rightarrow> Some b | Inl _ \<Rightarrow> None) else None)"

definition example_text_env :: text_env where
  "example_text_env =
     \<lparr>te_utf8_valid = (\<lambda>_. True),
      te_SimpleAtoi = (\<lambda>s. map_option int (parse_base 10 s)),
      te_SimpleHexAtoi = example_hex_int,
      te_inet_pton = example_inet_pton,
      te_inet_ntop = (\<lambda>b. Some (BytesToHexString b))\<rparr>"

lemma example_inet_round_trip: "inet_round_trip example_text_env"
  by (simp add: inet_round_trip_def example_text_env_def example_inet_pton_def hex_pairs_BytesToHexString)

end
