(* ===== verification/Ir_Translation.thy ===== *)
theory Ir_Translation
  imports Pdpi_Types Text_Env
begin

text \<open>
  Translation between the names a controller uses and those OrchAgent uses
  (\<open>p4rt_app/p4runtime/ir_translation.cc\<close>, \<open>queue_translator.cc\<close> and the port map of
  \<open>p4runtime_impl.cc\<close>).
\<close>

section \<open>Port maps\<close>

text \<open>\<open>boost::bimap\<close>: a relation in which every name and every ID occurs at most once.\<close>

type_synonym port_map = "(string \<times> string) list"

definition left_find :: "port_map \<Rightarrow> string \<Rightarrow> string option" where
  "left_find m name = map_of m name"

definition right_find :: "port_map \<Rightarrow> string \<Rightarrow> string option" where
  "right_find m i = map_of (map (\<lambda>(a, b). (b, a)) m) i"

definition left_erase :: "string \<Rightarrow> port_map \<Rightarrow> port_map" where
  "left_erase name m = filter (\<lambda>p. fst p \<noteq> name) m"

definition bimap_insert :: "string \<Rightarrow> string \<Rightarrow> port_map \<Rightarrow> port_map" where
  "bimap_insert name i m =
     (if left_find m name \<noteq> None \<or> right_find m i \<noteq> None then m else m @ [(name, i)])"

definition bimap_ok :: "port_map \<Rightarrow> bool" where
  "bimap_ok m \<longleftrightarrow> distinct (map fst m) \<and> distinct (map snd m)"

section \<open>Port translation\<close>

text \<open>
  The port table is a row per port in the application database and in the application state
  database; \<open>set\<close> and \<open>del\<close> of the two Redis tables are the writes recorded here.
\<close>

datatype port_table_write =
    PortSet string "(string \<times> string) list"
  | PortDel string

record port_state =
  ps_port_translation_map :: port_map
  ps_app_db :: "port_table_write list"
  ps_app_state_db :: "port_table_write list"

definition port_table_write :: "port_table_write \<Rightarrow> port_state \<Rightarrow> port_state" where
  "port_table_write w s =
     s\<lparr>ps_app_db := ps_app_db s @ [w], ps_app_state_db := ps_app_state_db s @ [w]\<rparr>"

definition AddPortTranslation :: "string \<Rightarrow> string \<Rightarrow> bool \<Rightarrow> port_state \<Rightarrow> status_code \<times> port_state" where
  "AddPortTranslation port_name port_id update_dbs s =
     (let m = ps_port_translation_map s;
          publish = (\<lambda>s. if update_dbs then port_table_write (PortSet port_name [(''id'', port_id)]) s else s)
      in if port_name = [] then (INVALID_ARGUMENT, s)
         else if port_id = [] then (INVALID_ARGUMENT, s)
         else if left_find m port_name = Some port_id then (OK, publish s)
         else if right_find m port_id \<noteq> None then (ALREADY_EXISTS, s)
         else let m1 = (if left_find m port_name \<noteq> None then left_erase port_name m else m)
              in (OK, publish (s\<lparr>ps_port_translation_map := bimap_insert port_name port_id m1\<rparr>)))"

definition RemovePortTranslation :: "string \<Rightarrow> port_state \<Rightarrow> status_code \<times> port_state" where
  "RemovePortTranslation port_name s =
     (if port_name = [] then (INVALID_ARGUMENT, s)
      else let m = ps_port_translation_map s;
               s1 = (if left_find m port_name \<noteq> None
                     then s\<lparr>ps_port_translation_map := left_erase port_name m\<rparr> else s)
           in (OK, port_table_write (PortDel port_name) s1))"

datatype translation_direction = kForController | kForOrchAgent

definition TranslatePort :: "text_env \<Rightarrow> translation_direction \<Rightarrow> port_map \<Rightarrow> string \<Rightarrow> string status_or" where
  "TranslatePort env direction m port_key =
     (if \<not> te_utf8_valid env port_key then Inl INVALID_ARGUMENT
      else case (case direction of kForController \<Rightarrow> left_find m port_key
                                 | kForOrchAgent \<Rightarrow> right_find m port_key) of
             None \<Rightarrow> Inl FAILED_PRECONDITION
           | Some v \<Rightarrow> Inr v)"

section \<open>Queue translation\<close>

record queue_translator =
  qt_id_to_name :: "int \<rightharpoonup> string"
  qt_name_to_id :: "string \<rightharpoonup> int"

definition QueueTranslator_Empty :: queue_translator where
  "QueueTranslator_Empty = \<lparr>qt_id_to_name = Map.empty, qt_name_to_id = Map.empty\<rparr>"

fun queue_create_loop ::
  "text_env \<Rightarrow> (string \<times> string) list \<Rightarrow> queue_translator \<Rightarrow> queue_translator status_or" where
  "queue_create_loop env [] q = Inr q"
| "queue_create_loop env ((name, id_string) # ps) q =
     (case te_SimpleAtoi env id_string of
        None \<Rightarrow> Inl INVALID_ARGUMENT
      | Some i \<Rightarrow>
          if qt_name_to_id q name \<noteq> None then Inl INVALID_ARGUMENT
          else if qt_id_to_name q i \<noteq> None then Inl INVALID_ARGUMENT
          else queue_create_loop env ps
                 (q\<lparr>qt_name_to_id := (qt_name_to_id q)(name \<mapsto> i),
                    qt_id_to_name := (qt_id_to_name q)(i \<mapsto> name)\<rparr>))"

definition QueueTranslator_Create :: "text_env \<Rightarrow> (string \<times> string) list \<Rightarrow> queue_translator status_or" where
  "QueueTranslator_Create env ps = queue_create_loop env ps QueueTranslator_Empty"

definition IdToName :: "queue_translator \<Rightarrow> int \<Rightarrow> string status_or" where
  "IdToName q i = (case qt_id_to_name q i of None \<Rightarrow> Inl NOT_FOUND | Some n \<Rightarrow> Inr n)"

definition NameToId :: "queue_translator \<Rightarrow> string \<Rightarrow> int status_or" where
  "NameToId q n = (case qt_name_to_id q n of None \<Rightarrow> Inl NOT_FOUND | Some i \<Rightarrow> Inr i)"

text \<open>\<open>absl::StrFormat("%#x", i)\<close> of an \<open>int\<close>.\<close>

definition hex_alt_str :: "int \<Rightarrow> string" where
  "hex_alt_str i = (let n = nat (i mod 2 ^ 32) in if n = 0 then ''0'' else ''0x'' @ base_str 16 n)"

definition OptionallyTranslateIdToName :: "text_env \<Rightarrow> queue_translator \<Rightarrow> string \<Rightarrow> string status_or" where
  "OptionallyTranslateIdToName env q v =
     (case te_SimpleHexAtoi env v of
        None \<Rightarrow> Inl INVALID_ARGUMENT
      | Some queue_id \<Rightarrow> (case IdToName q queue_id of Inr name \<Rightarrow> Inr name | Inl _ \<Rightarrow> Inr v))"

definition OptionallyTranslateNameToIdInHexString :: "text_env \<Rightarrow> queue_translator \<Rightarrow> string \<Rightarrow> string" where
  "OptionallyTranslateNameToIdInHexString env q v =
     (case NameToId q v of
        Inr queue_id \<Rightarrow> hex_alt_str queue_id
      | Inl _ \<Rightarrow>
          (case te_SimpleAtoi env v of
             Some queue_num \<Rightarrow> hex_alt_str queue_num
           | None \<Rightarrow>
               (case te_SimpleHexAtoi env v of
                  Some queue_num \<Rightarrow> hex_alt_str queue_num
                | None \<Rightarrow> v)))"

section \<open>Translating values, actions and matches\<close>

definition IsPortType :: "string \<Rightarrow> bool" where
  "IsPortType type_name \<longleftrightarrow> type_name = ''port_id_t''"

definition IsCpuQueue :: "string \<Rightarrow> bool" where
  "IsCpuQueue type_name \<longleftrightarrow> type_name = ''qos_queue_t'' \<or> type_name = ''cpu_queue_t''"

definition IsFrontPanelQueue :: "string \<Rightarrow> bool" where
  "IsFrontPanelQueue type_name \<longleftrightarrow> type_name = ''unicast_queue_t'' \<or> type_name = ''multicast_queue_t''"

record translate_options =
  to_direction :: translation_direction
  to_ir_p4_info :: ir_p4info
  to_translate_port_ids :: bool
  to_port_map :: port_map
  to_cpu_queue_translator :: queue_translator
  to_front_panel_queue_translator :: queue_translator

definition TranslatePortValue ::
  "text_env \<Rightarrow> translation_direction \<Rightarrow> port_map \<Rightarrow> ir_value \<Rightarrow> ir_value status_or" where
  "TranslatePortValue env direction m v =
     (case v of
        Str s \<Rightarrow> bind_or (TranslatePort env direction m s) (\<lambda>t. Inr (Str t))
      | _ \<Rightarrow> Inl INVALID_ARGUMENT)"

definition OptionallyTranslateQueue ::
  "text_env \<Rightarrow> translation_direction \<Rightarrow> queue_translator \<Rightarrow> ir_value \<Rightarrow> ir_value status_or" where
  "OptionallyTranslateQueue env direction q v =
     (case v of
        Str s \<Rightarrow>
          (case direction of
             kForController \<Rightarrow> bind_or (OptionallyTranslateIdToName env q s) (\<lambda>t. Inr (Str t))
           | kForOrchAgent \<Rightarrow> Inr (Str (OptionallyTranslateNameToIdInHexString env q s)))
      | _ \<Rightarrow> Inl INVALID_ARGUMENT)"

definition translate_param_value ::
  "text_env \<Rightarrow> translate_options \<Rightarrow> string \<Rightarrow> ir_value \<Rightarrow> ir_value status_or" where
  "translate_param_value env opts type_name v =
     (if to_translate_port_ids opts \<and> IsPortType type_name
      then TranslatePortValue env (to_direction opts) (to_port_map opts) v
      else if IsCpuQueue type_name
      then OptionallyTranslateQueue env (to_direction opts) (to_cpu_queue_translator opts) v
      else if IsFrontPanelQueue type_name
      then OptionallyTranslateQueue env (to_direction opts) (to_front_panel_queue_translator opts) v
      else Inr v)"

definition translate_param ::
  "text_env \<Rightarrow> translate_options \<Rightarrow> ir_action_definition \<Rightarrow> string \<times> ir_value \<Rightarrow>
   (string \<times> ir_value) status_or" where
  "translate_param env opts def p =
     (case map_of (iad_params_by_name def) (fst p) of
        None \<Rightarrow> Inl INTERNAL
      | Some param_def \<Rightarrow>
          bind_or (translate_param_value env opts (ipd_type_name param_def) (snd p)) (\<lambda>v. Inr (fst p, v)))"

definition TranslateAction ::
  "text_env \<Rightarrow> translate_options \<Rightarrow> ir_table_definition \<Rightarrow> ir_action_invocation \<Rightarrow>
   ir_action_invocation status_or" where
  "TranslateAction env opts table_def action =
     (case find (\<lambda>d. iad_alias d = ira_name action) (itd_entry_actions table_def) of
        None \<Rightarrow> Inl INTERNAL
      | Some def \<Rightarrow>
          bind_or (map_or (translate_param env opts def) (ira_params action))
            (\<lambda>ps. Inr (action\<lparr>ira_params := ps\<rparr>)))"

definition translate_set_action ::
  "text_env \<Rightarrow> translate_options \<Rightarrow> ir_table_definition \<Rightarrow> ir_action_set_invocation \<Rightarrow>
   ir_action_set_invocation status_or" where
  "translate_set_action env opts table_def a =
     bind_or (TranslateAction env opts table_def (iras_action a)) (\<lambda>action.
       let a1 = a\<lparr>iras_action := action\<rparr>
       in if to_translate_port_ids opts \<and> iras_watch_port a \<noteq> []
          then bind_or (TranslatePort env (to_direction opts) (to_port_map opts) (iras_watch_port a))
                 (\<lambda>port. Inr (a1\<lparr>iras_watch_port := port\<rparr>))
          else Inr a1)"

definition TranslateActionSet ::
  "text_env \<Rightarrow> translate_options \<Rightarrow> ir_table_definition \<Rightarrow> ir_action_set_invocation list \<Rightarrow>
   ir_action_set_invocation list status_or" where
  "TranslateActionSet env opts table_def as = map_or (translate_set_action env opts table_def) as"

definition TranslatePortInMatchField ::
  "text_env \<Rightarrow> translation_direction \<Rightarrow> port_map \<Rightarrow> ir_match \<Rightarrow> ir_match status_or" where
  "TranslatePortInMatchField env direction m match =
     (case irm_value match of
        IrExact v \<Rightarrow> bind_or (TranslatePortValue env direction m v)
          (\<lambda>v'. Inr (match\<lparr>irm_value := IrExact v'\<rparr>))
      | IrOptional v \<Rightarrow> bind_or (TranslatePortValue env direction m v)
          (\<lambda>v'. Inr (match\<lparr>irm_value := IrOptional v'\<rparr>))
      | _ \<Rightarrow> Inl INVALID_ARGUMENT)"

definition TranslateMatchField ::
  "text_env \<Rightarrow> translate_options \<Rightarrow> ir_table_definition \<Rightarrow> ir_match \<Rightarrow> ir_match status_or" where
  "TranslateMatchField env opts table_def match =
     (case map_of (itd_match_fields_by_name table_def) (irm_name match) of
        None \<Rightarrow> Inl INTERNAL
      | Some match_def \<Rightarrow>
          if to_translate_port_ids opts \<and> IsPortType (mfd_type_name match_def)
          then TranslatePortInMatchField env (to_direction opts) (to_port_map opts) match
          else Inr match)"

definition TranslateTableEntry ::
  "text_env \<Rightarrow> translate_options \<Rightarrow> ir_table_entry \<Rightarrow> ir_table_entry status_or" where
  "TranslateTableEntry env opts entry =
     (case tables_by_name (to_ir_p4_info opts) (ite_table_name entry) of
        None \<Rightarrow> Inl INTERNAL
      | Some table_def \<Rightarrow>
          bind_or (map_or (TranslateMatchField env opts table_def) (ite_matches entry)) (\<lambda>matches.
            bind_or (case ite_action entry of
                IrAction a \<Rightarrow> bind_or (TranslateAction env opts table_def a) (\<lambda>a'. Inr (IrAction a'))
              | IrActionSet as \<Rightarrow> bind_or (TranslateActionSet env opts table_def as) (\<lambda>as'. Inr (IrActionSet as'))
              | IrActionNotSet \<Rightarrow> Inr IrActionNotSet)
              (\<lambda>action. Inr (entry\<lparr>ite_matches := matches, ite_action := action\<rparr>))))"

definition TranslatePortInReplica ::
  "text_env \<Rightarrow> translate_options \<Rightarrow> ir_replica \<Rightarrow> ir_replica status_or" where
  "TranslatePortInReplica env opts replica =
     (let tr = TranslatePort env (to_direction opts) (to_port_map opts)
      in if to_translate_port_ids opts
         then bind_or (tr (irr_port replica)) (\<lambda>port.
                bind_or (map_or (\<lambda>b. bind_or (tr (fst b)) (\<lambda>p. Inr (p, snd b))) (irr_backups replica))
                  (\<lambda>backups. Inr (replica\<lparr>irr_port := port, irr_backups := backups\<rparr>)))
         else Inr replica)"

text \<open>
  The translation of a replication entry goes through \<open>mutable_multicast_group_entry\<close>, which
  turns an entry of another kind into an empty multicast group.
\<close>

definition TranslatePacketReplicationEntry ::
  "text_env \<Rightarrow> translate_options \<Rightarrow> ir_packet_replication_engine_entry \<Rightarrow>
   ir_packet_replication_engine_entry status_or" where
  "TranslatePacketReplicationEntry env opts entry =
     (case entry of
        IrMulticastGroupEntry i replicas metadata \<Rightarrow>
          bind_or (map_or (TranslatePortInReplica env opts) replicas)
            (\<lambda>rs. Inr (IrMulticastGroupEntry i rs metadata))
      | _ \<Rightarrow> Inr (IrMulticastGroupEntry 0 [] []))"

section \<open>Entities for OrchAgent\<close>

definition Upper64BitMask :: ipv6_address where
  "Upper64BitMask = push_bit 64 AllOnes"

definition ir_ipv6 :: "ir_value \<Rightarrow> string" where
  "ir_ipv6 v = (case v of Ipv6 s \<Rightarrow> s | _ \<Rightarrow> [])"

definition convert_ipv6_match :: "text_env \<Rightarrow> ir_match \<Rightarrow> ir_match" where
  "convert_ipv6_match env match =
     (case irm_value match of
        IrTernary (Ipv6 v) msk \<Rightarrow>
          (case Ipv6_OfString env v of
             Inl _ \<Rightarrow> match
           | Inr value_address \<Rightarrow>
               (case Ipv6_OfString env (ir_ipv6 msk) of
                  Inl _ \<Rightarrow> match
                | Inr mask_address \<Rightarrow>
                    if mask_address = mask_address AND NOT Upper64BitMask
                    then match\<lparr>irm_value := IrTernary
                           (Ipv6 (Ipv6_ToString env (push_bit 64 value_address)))
                           (Ipv6 (Ipv6_ToString env (push_bit 64 mask_address)))\<rparr>
                    else match))
      | _ \<Rightarrow> match)"

definition Convert64BitIpv6AclMatchFieldsTo128Bit :: "text_env \<Rightarrow> ir_table_entry \<Rightarrow> ir_table_entry" where
  "Convert64BitIpv6AclMatchFieldsTo128Bit env entry =
     entry\<lparr>ite_matches := map (convert_ipv6_match env) (ite_matches entry)\<rparr>"

text \<open>What the server knows about ports and queues, with the program it translates for.\<close>

record port_queue_config =
  pq_translate_port_ids :: bool
  pq_port_map :: port_map
  pq_cpu_queue :: queue_translator
  pq_front_panel_queue :: queue_translator

definition for_orch_agent :: "ir_p4info \<Rightarrow> port_queue_config \<Rightarrow> translate_options" where
  "for_orch_agent info pq =
     \<lparr>to_direction = kForOrchAgent, to_ir_p4_info = info,
      to_translate_port_ids = pq_translate_port_ids pq, to_port_map = pq_port_map pq,
      to_cpu_queue_translator = pq_cpu_queue pq,
      to_front_panel_queue_translator = pq_front_panel_queue pq\<rparr>"

definition UpdateIrTableEntryForOrchAgent ::
  "text_env \<Rightarrow> ir_p4info \<Rightarrow> port_queue_config \<Rightarrow> ir_table_entry \<Rightarrow> ir_table_entry status_or" where
  "UpdateIrTableEntryForOrchAgent env info pq entry =
     TranslateTableEntry env (for_orch_agent info pq) (Convert64BitIpv6AclMatchFieldsTo128Bit env entry)"

definition UpdateIrPacketReplicationEngineEntryForOrchAgent ::
  "text_env \<Rightarrow> ir_p4info \<Rightarrow> port_queue_config \<Rightarrow> ir_packet_replication_engine_entry \<Rightarrow>
   ir_packet_replication_engine_entry status_or" where
  "UpdateIrPacketReplicationEngineEntryForOrchAgent env info pq entry =
     TranslatePacketReplicationEntry env (for_orch_agent info pq) entry"

definition UpdateIrEntityForOrchAgent ::
  "text_env \<Rightarrow> ir_p4info \<Rightarrow> port_queue_config \<Rightarrow> ir_entity \<Rightarrow> ir_entity status_or" where
  "UpdateIrEntityForOrchAgent env info pq entity =
     (case entity of
        IrTableEntry e \<Rightarrow>
          bind_or (UpdateIrTableEntryForOrchAgent env info pq e) (\<lambda>e'. Inr (IrTableEntry e'))
      | IrPacketReplicationEngineEntry e \<Rightarrow>
          bind_or (UpdateIrPacketReplicationEngineEntryForOrchAgent env info pq e)
            (\<lambda>e'. Inr (IrPacketReplicationEngineEntry e'))
      | IrEntityNotSet \<Rightarrow> Inl INVALID_ARGUMENT)"

section \<open>Lemmas on port maps\<close>

lemma left_find_iff: "bimap_ok m \<Longrightarrow> left_find m name = Some i \<longleftrightarrow> (name, i) \<in> set m"
  by (simp add: bimap_ok_def left_find_def)

lemma right_find_iff: "bimap_ok m \<Longrightarrow> right_find m i = Some name \<longleftrightarrow> (name, i) \<in> set m"
  by (force simp: bimap_ok_def right_find_def o_def case_prod_beta)

lemma find_inverse: "bimap_ok m \<Longrightarrow> left_find m name = Some i \<longleftrightarrow> right_find m i = Some name"
  by (simp add: left_find_iff right_find_iff)

lemma left_find_None: "left_find m name = None \<longleftrightarrow> name \<notin> fst ` set m"
  by (auto simp: left_find_def map_of_eq_None_iff)

lemma right_find_None: "right_find m i = None \<longleftrightarrow> i \<notin> snd ` set m"
  by (force simp: right_find_def map_of_eq_None_iff)

lemma bimap_ok_insert: "bimap_ok m \<Longrightarrow> bimap_ok (bimap_insert name i m)"
  by (auto simp: bimap_insert_def bimap_ok_def left_find_None right_find_None)

lemma bimap_ok_erase: "bimap_ok m \<Longrightarrow> bimap_ok (left_erase name m)"
  by (simp add: bimap_ok_def left_erase_def distinct_map_filter)

lemma set_left_erase: "set (left_erase name m) = {p \<in> set m. fst p \<noteq> name}"
  by (auto simp: left_erase_def)

section \<open>Runs of port configuration events\<close>

inductive port_step :: "port_state \<Rightarrow> port_state \<Rightarrow> bool" where
  add: "AddPortTranslation name i update_dbs s = (st, s') \<Longrightarrow> port_step s s'"
| remove: "RemovePortTranslation name s = (st, s') \<Longrightarrow> port_step s s'"

inductive_cases port_stepE: "port_step s t"

definition port_initial :: "port_state \<Rightarrow> bool" where
  "port_initial s \<longleftrightarrow> ps_port_translation_map s = []"

lemma port_table_write_map [simp]:
  "ps_port_translation_map (port_table_write w s) = ps_port_translation_map s"
  by (simp add: port_table_write_def)

lemma left_find_insert:
  "bimap_ok m \<Longrightarrow> left_find m name = None \<Longrightarrow> right_find m i = None \<Longrightarrow>
     left_find (bimap_insert name i m) = (left_find m)(name \<mapsto> i)"
  by (rule ext) (auto simp: bimap_insert_def left_find_def map_add_def split: option.splits)

lemma left_find_erase: "left_find (left_erase name m) = (left_find m)(name := None)"
  by (induction m) (auto simp: left_erase_def left_find_def fun_eq_iff)

lemma right_find_erase_None: "right_find m i = None \<Longrightarrow> right_find (left_erase name m) i = None"
  by (auto simp: right_find_None left_erase_def)

text \<open>The table in the comment of \<open>AddPortTranslation\<close>, on the map of names to IDs.\<close>

definition add_port_spec :: "string \<Rightarrow> string \<Rightarrow> (string \<rightharpoonup> string) \<Rightarrow> status_code \<times> (string \<rightharpoonup> string)" where
  "add_port_spec name i f =
     (if name = [] \<or> i = [] then (INVALID_ARGUMENT, f)
      else if f name = Some i then (OK, f)
      else if i \<in> ran f then (ALREADY_EXISTS, f)
      else (OK, f(name \<mapsto> i)))"

lemma right_find_ran: "bimap_ok m \<Longrightarrow> right_find m i \<noteq> None \<longleftrightarrow> i \<in> ran (left_find m)"
  by (auto simp: ran_def find_inverse)

lemma AddPortTranslation_refines:
  assumes "bimap_ok (ps_port_translation_map s)" and "AddPortTranslation name i u s = (st, s')"
  shows "bimap_ok (ps_port_translation_map s') \<and>
    (st, left_find (ps_port_translation_map s')) = add_port_spec name i (left_find (ps_port_translation_map s))"
  using assms right_find_ran [OF assms(1), of i] right_find_erase_None [of "ps_port_translation_map s" i name]
  by (auto simp: AddPortTranslation_def add_port_spec_def Let_def bimap_ok_insert bimap_ok_erase
      left_find_insert left_find_erase split: if_splits)

lemma RemovePortTranslation_refines:
  assumes "bimap_ok (ps_port_translation_map s)" and "RemovePortTranslation name s = (st, s')"
  shows "bimap_ok (ps_port_translation_map s') \<and>
    (st, left_find (ps_port_translation_map s')) =
      (if name = [] then (INVALID_ARGUMENT, left_find (ps_port_translation_map s))
       else (OK, (left_find (ps_port_translation_map s))(name := None)))"
  using assms
  by (auto simp: RemovePortTranslation_def Let_def bimap_ok_erase left_find_erase split: if_splits)

interpretation ports: invariant_machine port_initial port_step "\<lambda>s. bimap_ok (ps_port_translation_map s)"
proof unfold_locales
  show "port_initial s \<Longrightarrow> bimap_ok (ps_port_translation_map s)" for s
    by (simp add: port_initial_def bimap_ok_def)
  show "bimap_ok (ps_port_translation_map t)"
    if "bimap_ok (ps_port_translation_map s)" "port_step s t" for s t
    using that(2,1) by (auto elim!: port_stepE dest: AddPortTranslation_refines RemovePortTranslation_refines)
qed

section \<open>Lemmas on queue translators\<close>

definition queue_ok :: "queue_translator \<Rightarrow> bool" where
  "queue_ok q \<longleftrightarrow> (\<forall>n i. qt_name_to_id q n = Some i \<longleftrightarrow> qt_id_to_name q i = Some n)"

lemma queue_create_loop_ok: "queue_ok q \<Longrightarrow> queue_create_loop env ps q = Inr q' \<Longrightarrow> queue_ok q'"
proof (induction env ps q rule: queue_create_loop.induct)
  case (2 env name id_string ps q)
  from "2.prems"(2) obtain i where i: "te_SimpleAtoi env id_string = Some i"
    "qt_name_to_id q name = None" "qt_id_to_name q i = None"
    and rest: "queue_create_loop env ps (q\<lparr>qt_name_to_id := (qt_name_to_id q)(name \<mapsto> i),
                    qt_id_to_name := (qt_id_to_name q)(i \<mapsto> name)\<rparr>) = Inr q'"
    by (auto split: option.splits if_splits)
  from "2.prems"(1) i have "queue_ok (q\<lparr>qt_name_to_id := (qt_name_to_id q)(name \<mapsto> i),
                    qt_id_to_name := (qt_id_to_name q)(i \<mapsto> name)\<rparr>)"
    unfolding queue_ok_def by simp (metis option.distinct(1))
  with "2.IH" [OF i(1)] i rest show ?case by simp
qed simp

lemma Create_queue_ok: "QueueTranslator_Create env ps = Inr q \<Longrightarrow> queue_ok q"
  unfolding QueueTranslator_Create_def
  by (rule queue_create_loop_ok [rotated]) (auto simp: queue_ok_def QueueTranslator_Empty_def)

text \<open>
  What is documented of \<open>absl::SimpleHexAtoi\<close> on \<open>int\<close>: it reads what \<open>"%#x"\<close> prints of a
  non-negative value.
\<close>

definition hex_atoi_reads :: "text_env \<Rightarrow> bool" where
  "hex_atoi_reads env \<longleftrightarrow> (\<forall>i. 0 \<le> i \<and> i < 2 ^ 31 \<longrightarrow> te_SimpleHexAtoi env (hex_alt_str i) = Some i)"

lemma queue_name_round_trip:
  assumes "queue_ok q" and "hex_atoi_reads env" and "qt_name_to_id q n = Some i" and "0 \<le> i" "i < 2 ^ 31"
  shows "OptionallyTranslateIdToName env q (OptionallyTranslateNameToIdInHexString env q n) = Inr n"
proof -
  from assms(1,3) have "qt_id_to_name q i = Some n" by (simp add: queue_ok_def)
  with assms(2-5) show ?thesis
    by (simp add: OptionallyTranslateIdToName_def OptionallyTranslateNameToIdInHexString_def NameToId_def
        IdToName_def hex_atoi_reads_def)
qed

section \<open>Translation there and back\<close>

text \<open>
  What makes a translation invertible: a bijective port map with printable names, bijective
  queue translators, and queue parameters that use configured names.
\<close>

definition invertible :: "text_env \<Rightarrow> translate_options \<Rightarrow> bool" where
  "invertible env opts \<longleftrightarrow>
     bimap_ok (to_port_map opts) \<and> list_all (\<lambda>p. fst p \<noteq> [] \<and> te_utf8_valid env (fst p)) (to_port_map opts) \<and>
     queue_ok (to_cpu_queue_translator opts) \<and> queue_ok (to_front_panel_queue_translator opts) \<and>
     hex_atoi_reads env"

definition queue_known :: "queue_translator \<Rightarrow> ir_value \<Rightarrow> bool" where
  "queue_known q v =
     (case v of
        Str n \<Rightarrow> (case qt_name_to_id q n of Some i \<Rightarrow> 0 \<le> i \<and> i < 2 ^ 31 | None \<Rightarrow> False)
      | _ \<Rightarrow> False)"

definition param_known :: "translate_options \<Rightarrow> ir_action_definition \<Rightarrow> string \<times> ir_value \<Rightarrow> bool" where
  "param_known opts def p =
     (case map_of (iad_params_by_name def) (fst p) of
        None \<Rightarrow> True
      | Some d \<Rightarrow>
          if IsCpuQueue (ipd_type_name d) then queue_known (to_cpu_queue_translator opts) (snd p)
          else if IsFrontPanelQueue (ipd_type_name d) then queue_known (to_front_panel_queue_translator opts) (snd p)
          else True)"

definition action_known :: "translate_options \<Rightarrow> ir_table_definition \<Rightarrow> ir_action_invocation \<Rightarrow> bool" where
  "action_known opts table_def a =
     (case find (\<lambda>d. iad_alias d = ira_name a) (itd_entry_actions table_def) of
        None \<Rightarrow> True
      | Some def \<Rightarrow> list_all (param_known opts def) (ira_params a))"

definition entry_known :: "translate_options \<Rightarrow> ir_table_entry \<Rightarrow> bool" where
  "entry_known opts e =
     (case tables_by_name (to_ir_p4_info opts) (ite_table_name e) of
        None \<Rightarrow> True
      | Some def \<Rightarrow>
          (case ite_action e of
             IrAction a \<Rightarrow> action_known opts def a
           | IrActionSet as \<Rightarrow> list_all (\<lambda>a. action_known opts def (iras_action a)) as
           | IrActionNotSet \<Rightarrow> True))"

abbreviation reversed :: "translate_options \<Rightarrow> translate_options" where
  "reversed opts \<equiv> opts\<lparr>to_direction := kForController\<rparr>"

lemma TranslatePort_back:
  assumes "bimap_ok m" and "list_all (\<lambda>p. fst p \<noteq> [] \<and> te_utf8_valid env (fst p)) m"
    and "TranslatePort env kForOrchAgent m k = Inr n"
  shows "TranslatePort env kForController m n = Inr k \<and> n \<noteq> []"
proof -
  from assms(3) have r: "right_find m k = Some n"
    by (auto simp: TranslatePort_def split: if_splits option.splits)
  then have "(n, k) \<in> set m" using assms(1) by (simp add: right_find_iff)
  then have "te_utf8_valid env n" "n \<noteq> []" using assms(2) by (force simp: list_all_iff)+
  moreover have "left_find m n = Some k" using r assms(1) by (simp add: find_inverse)
  ultimately show ?thesis by (simp add: TranslatePort_def)
qed

lemma TranslatePortValue_back:
  assumes "bimap_ok m" and "list_all (\<lambda>p. fst p \<noteq> [] \<and> te_utf8_valid env (fst p)) m"
    and "TranslatePortValue env kForOrchAgent m v = Inr w"
  shows "TranslatePortValue env kForController m w = Inr v"
  using assms TranslatePort_back [OF assms(1,2)]
  by (auto simp: TranslatePortValue_def split: ir_value.splits)

lemma OptionallyTranslateQueue_back:
  assumes "queue_ok q" and "hex_atoi_reads env" and "queue_known q v"
    and "OptionallyTranslateQueue env kForOrchAgent q v = Inr w"
  shows "OptionallyTranslateQueue env kForController q w = Inr v"
  using assms queue_name_round_trip [OF assms(1,2)]
  by (auto simp: OptionallyTranslateQueue_def queue_known_def split: ir_value.splits option.splits)

lemma queue_type_exclusive: "IsPortType t \<Longrightarrow> \<not> IsCpuQueue t \<and> \<not> IsFrontPanelQueue t"
  by (auto simp: IsPortType_def IsCpuQueue_def IsFrontPanelQueue_def)

lemma translate_param_back:
  assumes "invertible env opts" and "to_direction opts = kForOrchAgent" and "param_known opts def p"
    and "translate_param env opts def p = Inr r"
  shows "translate_param env (reversed opts) def r = Inr p"
proof -
  from assms(4) obtain t v where t: "map_of (iad_params_by_name def) (fst p) = Some t"
    and v: "translate_param_value env opts (ipd_type_name t) (snd p) = Inr v" and r: "r = (fst p, v)"
    by (auto simp: translate_param_def split: option.splits)
  have "translate_param_value env (reversed opts) (ipd_type_name t) v = Inr (snd p)"
    using assms(1-3) t v TranslatePortValue_back [of "to_port_map opts" env "snd p" v]
      OptionallyTranslateQueue_back [of _ env "snd p" v]
    by (auto simp: translate_param_value_def invertible_def param_known_def split: if_splits)
  with t r show ?thesis by (simp add: translate_param_def)
qed

lemma TranslateAction_back:
  assumes "invertible env opts" and "to_direction opts = kForOrchAgent" and "action_known opts def a"
    and "TranslateAction env opts def a = Inr b"
  shows "TranslateAction env (reversed opts) def b = Inr a"
proof -
  from assms(4) obtain d ps where d: "find (\<lambda>d. iad_alias d = ira_name a) (itd_entry_actions def) = Some d"
    and ps: "map_or (translate_param env opts d) (ira_params a) = Inr ps" and b: "b = a\<lparr>ira_params := ps\<rparr>"
    by (auto simp: TranslateAction_def split: option.splits)
  have "map_or (translate_param env (reversed opts) d) ps = Inr (ira_params a)"
    using ps by (rule map_or_inverse)
      (use assms(3) d in \<open>auto simp: action_known_def list_all_iff intro: translate_param_back [OF assms(1,2)]\<close>)
  with d b show ?thesis by (simp add: TranslateAction_def)
qed

lemma translate_set_action_back:
  assumes inv: "invertible env opts" "to_direction opts = kForOrchAgent"
    and "action_known opts def (iras_action a)" and "translate_set_action env opts def a = Inr b"
  shows "translate_set_action env (reversed opts) def b = Inr a"
proof (cases "to_translate_port_ids opts \<and> iras_watch_port a \<noteq> []")
  case True
  with assms(2,4) obtain act port where *: "TranslateAction env opts def (iras_action a) = Inr act"
    "TranslatePort env kForOrchAgent (to_port_map opts) (iras_watch_port a) = Inr port"
    "b = a\<lparr>iras_action := act, iras_watch_port := port\<rparr>"
    by (auto simp: translate_set_action_def Let_def)
  with True TranslateAction_back [OF assms(1-3) *(1)] TranslatePort_back [OF _ _ *(2)] inv(1) show ?thesis
    by (simp add: translate_set_action_def invertible_def)
next
  case False
  with assms(4) obtain act where *: "TranslateAction env opts def (iras_action a) = Inr act"
    "b = a\<lparr>iras_action := act\<rparr>"
    by (auto simp: translate_set_action_def Let_def split: if_splits)
  with False TranslateAction_back [OF assms(1-3) *(1)] show ?thesis
    by (auto simp: translate_set_action_def Let_def)
qed

lemma TranslateMatchField_back:
  assumes "invertible env opts" and "to_direction opts = kForOrchAgent"
    and "TranslateMatchField env opts def m = Inr r"
  shows "TranslateMatchField env (reversed opts) def r = Inr m"
  using assms TranslatePortValue_back [of "to_port_map opts" env]
  by (auto simp: TranslateMatchField_def TranslatePortInMatchField_def invertible_def
      split: option.splits if_splits ir_match_value.splits)

lemma TranslateTableEntry_back:
  assumes inv: "invertible env opts" "to_direction opts = kForOrchAgent"
    and known: "entry_known opts e"
    and tr: "TranslateTableEntry env opts e = Inr e'"
  shows "TranslateTableEntry env (reversed opts) e' = Inr e"
proof -
  from tr obtain def ms act where def_: "tables_by_name (to_ir_p4_info opts) (ite_table_name e) = Some def"
    and ms: "map_or (TranslateMatchField env opts def) (ite_matches e) = Inr ms"
    and act: "(case ite_action e of
                IrAction a \<Rightarrow> bind_or (TranslateAction env opts def a) (\<lambda>a'. Inr (IrAction a'))
              | IrActionSet as \<Rightarrow> bind_or (TranslateActionSet env opts def as) (\<lambda>as'. Inr (IrActionSet as'))
              | IrActionNotSet \<Rightarrow> Inr IrActionNotSet) = Inr act"
    and e': "e' = e\<lparr>ite_matches := ms, ite_action := act\<rparr>"
    by (auto simp: TranslateTableEntry_def split: option.splits)
  have "map_or (TranslateMatchField env (reversed opts) def) ms = Inr (ite_matches e)"
    using ms by (rule map_or_inverse) (rule TranslateMatchField_back [OF inv])
  moreover have "(case act of
                IrAction a \<Rightarrow> bind_or (TranslateAction env (reversed opts) def a) (\<lambda>a'. Inr (IrAction a'))
              | IrActionSet as \<Rightarrow> bind_or (TranslateActionSet env (reversed opts) def as) (\<lambda>as'. Inr (IrActionSet as'))
              | IrActionNotSet \<Rightarrow> Inr IrActionNotSet) = Inr (ite_action e)"
  proof (cases "ite_action e")
    case IrActionNotSet
    with act show ?thesis by auto
  next
    case (IrAction a)
    with act obtain a' where a': "TranslateAction env opts def a = Inr a'" "act = IrAction a'"
      by auto
    have "action_known opts def a" using known def_ IrAction by (simp add: entry_known_def)
    from TranslateAction_back [OF inv this a'(1)] a'(2) IrAction show ?thesis by simp
  next
    case (IrActionSet as)
    with act obtain as' where as': "TranslateActionSet env opts def as = Inr as'" "act = IrActionSet as'"
      by auto
    have "TranslateActionSet env (reversed opts) def as' = Inr as"
      unfolding TranslateActionSet_def
    proof (rule map_or_inverse)
      show "map_or (translate_set_action env opts def) as = Inr as'"
        using as'(1) by (simp add: TranslateActionSet_def)
      show "translate_set_action env (reversed opts) def y = Inr x"
        if "x \<in> set as" "translate_set_action env opts def x = Inr y" for x y
        using that known def_ IrActionSet
        by (intro translate_set_action_back [OF inv]) (auto simp: entry_known_def list_all_iff)
    qed
    with as' IrActionSet show ?thesis by simp
  qed
  ultimately show ?thesis
    using def_ by (simp add: e' TranslateTableEntry_def)
qed

section \<open>Examples\<close>

lemma example_hex_atoi_reads: "hex_atoi_reads example_text_env"
proof -
  have "example_hex_int (hex_alt_str i) = Some i" if "0 \<le> i" "i < 2 ^ 31" for i
  proof (cases "i = 0")
    case True
    have "digit_value CHR ''0'' = Some 0" by (simp add: digit_value_def)
    with True show ?thesis by (simp add: hex_alt_str_def example_hex_int_def parse_base_def)
  next
    case False
    from that have "i mod 2 ^ 32 = i" by simp
    then have "hex_alt_str i = ''0x'' @ base_str 16 (nat i)"
      using False that unfolding hex_alt_str_def by (simp add: Let_def)
    moreover have "nat i < 2 ^ 31" using that by (simp add: nat_less_iff)
    ultimately show ?thesis using that by (simp add: example_hex_int_def parse_base_str)
  qed
  then show ?thesis by (simp add: hex_atoi_reads_def example_text_env_def)
qed

definition example_port_queue :: port_queue_config where
  "example_port_queue =
     \<lparr>pq_translate_port_ids = True, pq_port_map = [(''Ethernet0'', ''1''), (''Ethernet4'', ''2'')],
      pq_cpu_queue = (case QueueTranslator_Create example_text_env [(''CONTROLLER'', ''32'')] of
         Inr q \<Rightarrow> q | Inl _ \<Rightarrow> QueueTranslator_Empty),
      pq_front_panel_queue = QueueTranslator_Empty\<rparr>"

definition example_trap_info :: ir_p4info where
  "example_trap_info =
     (let field = \<lparr>mfd_id = 1, mfd_name = ''in_port'', mfd_annotations = [], mfd_bitwidth = 0,
            mfd_match_type = OPTIONAL, mfd_type_name = ''port_id_t'', mfd_format = STRING,
            mfd_is_unsupported = False, mfd_references = []\<rparr>;
          param = \<lparr>ipd_id = 1, ipd_name = ''queue'', ipd_annotations = [], ipd_bitwidth = 0, ipd_type_name = ''qos_queue_t'',
            ipd_format = STRING, ipd_references = []\<rparr>;
          action = \<lparr>iad_id = 7, iad_name = ''trap'', iad_alias = ''trap'', iad_annotations = [], iad_params_by_id = [(1, param)],
            iad_params_by_name = [(''queue'', param)], iad_is_unsupported = False\<rparr>;
          def = \<lparr>itd_alias = ''acl_ingress_table'', itd_id = 5, itd_annotations = [''@sai_acl(INGRESS)''],
            itd_match_fields_by_id = [(1, field)], itd_match_fields_by_name = [(''in_port'', field)],
            itd_entry_actions = [action], itd_default_only_actions = [],
      itd_const_default_action = None, itd_size = 0, itd_uses_oneshot = False, itd_action_profile_id = None,
            itd_requires_priority = True, itd_has_meter = False, itd_meter_unit = UNIT_UNSPECIFIED,
      itd_has_counter = False, itd_counter_unit = UNIT_UNSPECIFIED,
            itd_role = ''sdn_controller'', itd_is_unsupported = False,
        itd_outgoing_references = [], itd_incoming_references = []\<rparr>
      in \<lparr>tables_by_id_entries = [(5, def)], tables_by_name_entries = [(''acl_ingress_table'', def)],
          actions_by_id_entries = [(7, action)], actions_by_name_entries = [(''trap'', action)],
          action_profiles_by_id_entries = [], action_profiles_by_name_entries = [],
          packet_in_metadata_by_id = [], packet_in_metadata_by_name = [],
      packet_out_metadata_by_id = [], packet_out_metadata_by_name = [],
      references = [], built_in_tables_entries = [], dependency_rank_by_table_name_entries = []\<rparr>)"

definition example_trap :: "string \<Rightarrow> string \<Rightarrow> ir_table_entry" where
  "example_trap port queue =
     \<lparr>ite_table_name = ''acl_ingress_table'',
      ite_matches = [\<lparr>irm_name = ''in_port'', irm_value = IrOptional (Str port)\<rparr>],
      ite_priority = 10, ite_action = IrAction \<lparr>ira_name = ''trap'', ira_params = [(''queue'', Str queue)]\<rparr>,
      ite_controller_metadata = [], ite_meter_config = None, ite_counter_data = None,
      ite_meter_counter_data = None\<rparr>"

lemma example_trap_translated:
  "TranslateTableEntry example_text_env (for_orch_agent example_trap_info example_port_queue)
     (example_trap ''2'' ''CONTROLLER'') = Inr (example_trap ''Ethernet4'' ''0x20'')"
  by code_simp

lemma example_invertible:
  "invertible example_text_env (for_orch_agent example_trap_info example_port_queue)"
proof -
  have "queue_ok (pq_cpu_queue example_port_queue)"
    by (auto simp: example_port_queue_def queue_ok_def QueueTranslator_Empty_def
        dest: Create_queue_ok split: sum.splits)
  then show ?thesis
    by (simp add: invertible_def for_orch_agent_def example_hex_atoi_reads)
      (simp add: example_port_queue_def bimap_ok_def example_text_env_def queue_ok_def QueueTranslator_Empty_def)
qed

section \<open>Properties\<close>

text \<open>
  C36. Whatever ports are added and removed, the port map stays a bijection between names and
  IDs, and the two operations do on it what their comment promises of a map from names to
  IDs: an ID in use by another name is refused, an existing pair is kept, and everything
  else is added or replaced; removal forgets exactly the named port.
\<close>

theorem port_configuration_refines_spec:
  assumes "port_initial s\<^sub>0" and "port_step\<^sup>*\<^sup>* s\<^sub>0 s" and "m = ps_port_translation_map s"
  shows "(left_find m name = Some i \<longleftrightarrow> right_find m i = Some name) \<and>
    (case AddPortTranslation name i update_dbs s of
       (st, t) \<Rightarrow> (st, left_find (ps_port_translation_map t)) = add_port_spec name i (left_find m)) \<and>
    (case RemovePortTranslation name s of
       (st, t) \<Rightarrow> left_find (ps_port_translation_map t) =
         (if name = [] then left_find m else (left_find m)(name := None)))"
proof -
  have ok: "bimap_ok (ps_port_translation_map s)"
    using assms(1,2) by (rule ports.inv_reachable)
  show ?thesis
    using assms(3) find_inverse [OF ok] AddPortTranslation_refines [OF ok, of name i update_dbs]
      RemovePortTranslation_refines [OF ok, of name]
    by (auto split: prod.splits)
qed

theorem port_configuration_refines_spec_witness:
  "fst (AddPortTranslation ''Ethernet4'' ''1'' True
     \<lparr>ps_port_translation_map = [(''Ethernet0'', ''1'')], ps_app_db = [], ps_app_state_db = []\<rparr>) = ALREADY_EXISTS"
proof -
  let ?e = "\<lparr>ps_port_translation_map = [], ps_app_db = [], ps_app_state_db = []\<rparr>"
  let ?s = "\<lparr>ps_port_translation_map = [(''Ethernet0'', ''1'')], ps_app_db = [], ps_app_state_db = []\<rparr>"
  have "AddPortTranslation ''Ethernet0'' ''1'' False ?e = (OK, ?s)"
    by (simp add: AddPortTranslation_def left_find_def right_find_def bimap_insert_def)
  then have "port_step ?e ?s" by (rule port_step.add)
  then have steps: "port_step\<^sup>*\<^sup>* ?e ?s" by (rule r_into_rtranclp)
  have "port_initial ?e" by (simp add: port_initial_def)
  from port_configuration_refines_spec [OF this steps refl, of "''Ethernet4''" "''1''" True]
  have "(case AddPortTranslation ''Ethernet4'' ''1'' True ?s of
       (st, t) \<Rightarrow> (st, left_find (ps_port_translation_map t)) =
          add_port_spec ''Ethernet4'' ''1'' (left_find (ps_port_translation_map ?s)))"
    by (elim conjE)
  moreover have "fst (add_port_spec ''Ethernet4'' ''1'' (left_find (ps_port_translation_map ?s))) = ALREADY_EXISTS"
    by (simp add: add_port_spec_def left_find_def ran_def)
  ultimately show ?thesis by (simp split: prod.splits) (metis fst_conv)
qed

text \<open>
  C37. A table entry translated for OrchAgent is translated back to exactly the entry the
  controller sent: port IDs, watch ports and queue names in matches, actions and action sets
  all return, provided the port map is a bijection of printable names, the queue
  translators come from \<open>Create\<close>, and queues are named by configured names.
\<close>

theorem TranslateTableEntry_round_trip:
  assumes "invertible env opts" and "to_direction opts = kForOrchAgent" and "entry_known opts e"
    and "TranslateTableEntry env opts e = Inr e'"
  shows "TranslateTableEntry env (opts\<lparr>to_direction := kForController\<rparr>) e' = Inr e"
  using assms by (rule TranslateTableEntry_back)

theorem TranslateTableEntry_round_trip_witness:
  "TranslateTableEntry example_text_env
     ((for_orch_agent example_trap_info example_port_queue)\<lparr>to_direction := kForController\<rparr>)
     (example_trap ''Ethernet4'' ''0x20'') = Inr (example_trap ''2'' ''CONTROLLER'')"
proof (rule TranslateTableEntry_round_trip [OF example_invertible _ _ example_trap_translated])
  show "entry_known (for_orch_agent example_trap_info example_port_queue) (example_trap ''2'' ''CONTROLLER'')"
    by code_simp
qed (simp add: for_orch_agent_def)

end
