(* ===== verification/Ir_Values.thy ===== *)
theory Ir_Values
  imports Pdpi_Types Text_Env
begin

text \<open>
  Values of PDPI's intermediate representation (\<open>p4_infra/p4_pdpi/ir_utils.cc\<close>): normalized and
  canonical byte strings, formats, the conversion of byte strings to formatted values and
  back, and the masks of LPM matches.
\<close>

section \<open>Byte strings\<close>

definition ArbitraryToCanonicalByteString :: "string \<Rightarrow> string" where
  "ArbitraryToCanonicalByteString bytes =
     drop (min (length (takeWhile (\<lambda>c. c = CHR 0x00) bytes)) (length bytes - 1)) bytes"

definition ArbitraryToNormalizedByteString :: "string \<Rightarrow> nat \<Rightarrow> string status_or" where
  "ArbitraryToNormalizedByteString bytes expected_bitwidth =
     (if bytes = [] then Inl OUT_OF_RANGE
      else let canonical_string = ArbitraryToCanonicalByteString bytes;
               bitwidth = GetBitwidthOfByteString canonical_string
           in if bitwidth > expected_bitwidth then Inl INVALID_ARGUMENT
              else let num_bytes = (expected_bitwidth + 7) div 8
                   in Inr (replicate (num_bytes - length canonical_string) CHR 0x00 @ canonical_string))"

text \<open>\<open>be64toh\<close> of the padded eight bytes: the big-endian value.\<close>

definition be64toh :: "string \<Rightarrow> nat" where
  "be64toh s = foldl (\<lambda>v c. v * 256 + of_char c) 0 s"

definition ArbitraryByteStringToUint :: "string \<Rightarrow> nat \<Rightarrow> nat status_or" where
  "ArbitraryByteStringToUint bytes bitwidth =
     (if bitwidth > 64 then Inl INVALID_ARGUMENT
      else bind_or (ArbitraryToNormalizedByteString bytes bitwidth) (\<lambda>stripped_value.
        Inr (be64toh (replicate (8 - length stripped_value) CHR 0x00 @ stripped_value))))"

text \<open>The value in network byte order, truncated to the smallest of 1, 2, 4 and 8 bytes that hold the bit width.\<close>

definition network_bytes :: "nat \<Rightarrow> nat \<Rightarrow> string" where
  "network_bytes n v = padded_bytes n v []"

definition UintToNormalizedByteString :: "nat \<Rightarrow> int \<Rightarrow> string status_or" where
  "UintToNormalizedByteString v bitwidth =
     (if bitwidth \<le> 0 \<or> bitwidth > 64 then Inl INVALID_ARGUMENT
      else ArbitraryToNormalizedByteString
             (network_bytes (if bitwidth \<le> 8 then 1 else if bitwidth \<le> 16 then 2 else if bitwidth \<le> 32 then 4 else 8) v)
             (nat bitwidth))"

definition kNumBitsInMac :: nat where "kNumBitsInMac = 48"
definition kNumBitsInIpv4 :: nat where "kNumBitsInIpv4 = 32"
definition kNumBitsInIpv6 :: nat where "kNumBitsInIpv6 = 128"

section \<open>Formats\<close>

fun format_annotations :: "string list \<Rightarrow> ir_format \<Rightarrow> ir_format status_or" where
  "format_annotations [] f = Inr f"
| "format_annotations (a # as) f =
     (if take 8 a = ''@format('' then
        if f \<noteq> HEX_STRING then Inl INVALID_ARGUMENT
        else if a = ''@format(MAC_ADDRESS)'' then format_annotations as MAC
        else if a = ''@format(IPV4_ADDRESS)'' then format_annotations as IPV4
        else if a = ''@format(IPV6_ADDRESS)'' then format_annotations as IPV6
        else Inl INVALID_ARGUMENT
      else format_annotations as f)"

definition GetFormat :: "string list \<Rightarrow> nat \<Rightarrow> bool \<Rightarrow> ir_format status_or" where
  "GetFormat annotations bitwidth is_sdn_string =
     bind_or (format_annotations annotations (if is_sdn_string then STRING else HEX_STRING)) (\<lambda>f.
       if f = MAC \<and> bitwidth \<noteq> kNumBitsInMac then Inl INVALID_ARGUMENT
       else if f = IPV4 \<and> bitwidth \<noteq> kNumBitsInIpv4 then Inl INVALID_ARGUMENT
       else if f = IPV6 \<and> bitwidth > kNumBitsInIpv6 then Inl INVALID_ARGUMENT
       else Inr f)"

definition num_hex_chars :: "nat \<Rightarrow> nat" where
  "num_hex_chars bitwidth = bitwidth div 4 + (if bitwidth mod 4 \<noteq> 0 then 1 else 0)"

text \<open>
  A shift by a negative difference is a shift by a huge unsigned number, which clears the
  128 bits.
\<close>

definition ipv6_shift :: "nat \<Rightarrow> nat" where
  "ipv6_shift bitwidth = (if bitwidth \<le> kNumBitsInIpv6 then kNumBitsInIpv6 - bitwidth else kNumBitsInIpv6)"

definition ArbitraryByteStringToIrValue ::
  "text_env \<Rightarrow> ir_format \<Rightarrow> nat \<Rightarrow> string \<Rightarrow> ir_value status_or" where
  "ArbitraryByteStringToIrValue env f bitwidth bytes =
     (if bytes = [] then Inl OUT_OF_RANGE
      else case f of
        MAC \<Rightarrow> bind_or (OfByteString bytes) (\<lambda>mac. Inr (Mac (Mac_ToString mac)))
      | IPV4 \<Rightarrow> bind_or (OfByteString bytes) (\<lambda>ipv4. Inr (Ipv4 (Ipv4_ToString ipv4)))
      | IPV6 \<Rightarrow> bind_or (OfByteString bytes) (\<lambda>ipv6 :: ipv6_address.
          if drop_bit bitwidth ipv6 \<noteq> 0 then Inl INVALID_ARGUMENT
          else Inr (Ipv6 (Ipv6_ToString env (push_bit (ipv6_shift bitwidth) ipv6))))
      | STRING \<Rightarrow> if \<not> te_utf8_valid env bytes then Inl INVALID_ARGUMENT else Inr (Str bytes)
      | HEX_STRING \<Rightarrow> bind_or (ArbitraryToNormalizedByteString bytes bitwidth) (\<lambda>normalized_bytes.
          let hex_string = BytesToHexString normalized_bytes;
              hex_string' = (if num_hex_chars bitwidth \<noteq> length hex_string then drop 1 hex_string
                             else hex_string)
          in Inr (HexStr (''0x'' @ hex_string'))))"

text \<open>An unset value is an error of \<open>gutil::GetOneOfFieldName\<close>, which every caller reports as an invalid argument.\<close>

definition ValidateIrValueFormat :: "ir_value \<Rightarrow> ir_format \<Rightarrow> bool \<Rightarrow> status_code" where
  "ValidateIrValueFormat v f allow_arbitrary_format =
     (if v = ValueNotSet then INVALID_ARGUMENT
      else if allow_arbitrary_format then OK
      else case (f, v) of
             (MAC, Mac _) \<Rightarrow> OK
           | (IPV4, Ipv4 _) \<Rightarrow> OK
           | (IPV6, Ipv6 _) \<Rightarrow> OK
           | (STRING, Str _) \<Rightarrow> OK
           | (HEX_STRING, HexStr _) \<Rightarrow> OK
           | _ \<Rightarrow> INVALID_ARGUMENT)"

definition lower_xdigit :: "char \<Rightarrow> bool" where
  "lower_xdigit c = (let n = of_char c :: nat in 48 \<le> n \<and> n \<le> 57 \<or> 97 \<le> n \<and> n \<le> 102)"

definition IrValueToNormalizedByteString :: "text_env \<Rightarrow> ir_value \<Rightarrow> nat \<Rightarrow> string status_or" where
  "IrValueToNormalizedByteString env v bitwidth =
     (case v of
        Mac s \<Rightarrow> bind_or (Mac_OfString s) (\<lambda>mac. Inr (ToPaddedByteString mac))
      | Ipv4 s \<Rightarrow> bind_or (Ipv4_OfString s) (\<lambda>ipv4. Inr (ToPaddedByteString ipv4))
      | Ipv6 s \<Rightarrow> bind_or (Ipv6_OfString env s) (\<lambda>ipv6.
          if MinimumMaskLength ipv6 > bitwidth then Inl INVALID_ARGUMENT
          else Inr (ToPaddedByteString (drop_bit (ipv6_shift bitwidth) ipv6)))
      | Str s \<Rightarrow> if s = [] then Inl OUT_OF_RANGE else Inr s
      | HexStr hex_str \<Rightarrow>
          if take 2 hex_str \<noteq> ''0x'' then Inl INVALID_ARGUMENT
          else let stripped_hex = drop 2 hex_str
               in if num_hex_chars bitwidth \<noteq> length stripped_hex then Inl INVALID_ARGUMENT
                  else if \<not> list_all lower_xdigit stripped_hex then Inl INVALID_ARGUMENT
                  else bind_or (hex_pairs (if even (length stripped_hex) then stripped_hex else CHR ''0'' # stripped_hex))
                         (\<lambda>byte_string. ArbitraryToNormalizedByteString byte_string bitwidth)
      | ValueNotSet \<Rightarrow> Inl INVALID_ARGUMENT)"

definition FormattedStringToIrValue :: "string \<Rightarrow> ir_format \<Rightarrow> ir_value" where
  "FormattedStringToIrValue s f =
     (case f of MAC \<Rightarrow> Mac s | IPV4 \<Rightarrow> Ipv4 s | IPV6 \<Rightarrow> Ipv6 s | STRING \<Rightarrow> Str s | HEX_STRING \<Rightarrow> HexStr s)"

definition IrValueString :: "ir_value \<Rightarrow> string" where
  "IrValueString v =
     (case v of Mac s \<Rightarrow> s | Ipv4 s \<Rightarrow> s | Ipv6 s \<Rightarrow> s | Str s \<Rightarrow> s | HexStr s \<Rightarrow> s | ValueNotSet \<Rightarrow> [])"

text \<open>The protobuf accessor of one alternative is empty when another one is set.\<close>

definition IrValueToFormattedString :: "ir_value \<Rightarrow> ir_format \<Rightarrow> string" where
  "IrValueToFormattedString v f =
     (case (f, v) of
        (MAC, Mac s) \<Rightarrow> s | (IPV4, Ipv4 s) \<Rightarrow> s | (IPV6, Ipv6 s) \<Rightarrow> s
      | (STRING, Str s) \<Rightarrow> s | (HEX_STRING, HexStr s) \<Rightarrow> s | _ \<Rightarrow> [])"

section \<open>Masks\<close>

definition all_zero_bytes :: "string \<Rightarrow> bool" where
  "all_zero_bytes s = list_all (\<lambda>c. c = CHR 0x00) s"

definition Intersection :: "string \<Rightarrow> string \<Rightarrow> string status_or" where
  "Intersection left right =
     (if length left \<noteq> length right then Inl INVALID_ARGUMENT
      else Inr (map2 (\<lambda>a b. char_of (of_char a AND of_char b :: nat)) left right))"

definition mask_byte :: "int \<Rightarrow> nat" where
  "mask_byte prefix_len =
     (if prefix_len \<ge> 8 then 0xFF
      else if prefix_len > 0 then (push_bit (8 - nat prefix_len) 0xFF) AND 0xFF else 0)"

fun mask_bytes :: "nat \<Rightarrow> int \<Rightarrow> string" where
  "mask_bytes 0 prefix_len = []"
| "mask_bytes (Suc n) prefix_len = char_of (mask_byte prefix_len) # mask_bytes n (prefix_len - 8)"

definition PrefixLenToMask :: "int \<Rightarrow> nat \<Rightarrow> string status_or" where
  "PrefixLenToMask prefix_len bitwidth =
     (if prefix_len > int bitwidth then Inl INVALID_ARGUMENT
      else if bitwidth mod 8 \<noteq> 0
      then Inr (char_of (drop_bit (8 - bitwidth mod 8) 0xFF AND 0xFF :: nat) #
                mask_bytes (bitwidth div 8) (prefix_len - int (bitwidth mod 8)))
      else Inr (mask_bytes (bitwidth div 8) prefix_len))"

section \<open>Byte strings as numbers\<close>

lemma be_value_inj: "length s = length t \<Longrightarrow> be_value s = be_value t \<Longrightarrow> s = t"
  by (metis be_value_order less_irrefl linorder_neqE)

lemma significant_bits_le: "0 < w \<Longrightarrow> significant_bits n \<le> w \<longleftrightarrow> n < 2 ^ w"
proof (induction n arbitrary: w rule: significant_bits.induct)
  case (1 c)
  show ?case
  proof (cases "c div 2 = 0")
    case True
    moreover have "(2 :: nat) ^ 1 \<le> 2 ^ w" using 1(2) by (intro power_increasing) auto
    ultimately show ?thesis using 1(2) by (subst significant_bits.simps) auto
  next
    case False
    obtain k where w: "w = Suc k" using 1(2) by (cases w) auto
    have "significant_bits c \<le> w \<longleftrightarrow> significant_bits (c div 2) \<le> k"
      using False w by (subst significant_bits.simps) simp
    also have "\<dots> \<longleftrightarrow> c div 2 < 2 ^ k"
    proof (cases "k = 0")
      case True
      have "significant_bits (c div 2) \<noteq> 0" by (subst significant_bits.simps) simp
      with True False show ?thesis by simp
    next
      case False
      with 1(1) \<open>c div 2 \<noteq> 0\<close> show ?thesis by simp
    qed
    also have "\<dots> \<longleftrightarrow> c < 2 ^ w" using w by (auto simp: div_less_iff_less_mult)
    finally show ?thesis .
  qed
qed


lemma exp_bytes: "(2 :: nat) ^ (8 * n) = 256 ^ n"
  by (simp add: power_mult)

lemma leading_byte_bound:
  fixes c :: nat
  assumes "r < 256 ^ n" "0 < c"
  shows "c * 256 ^ n + r < 2 ^ w \<longleftrightarrow> 8 * n < w \<and> c < 2 ^ (w - 8 * n)"
proof (cases "8 * n < w")
  case True
  then have w: "(2 :: nat) ^ w = 2 ^ (w - 8 * n) * 256 ^ n"
    by (metis exp_bytes le_add_diff_inverse2 less_imp_le_nat power_add)
  show ?thesis
  proof
    assume "c * 256 ^ n + r < 2 ^ w"
    then have "c * 256 ^ n < 2 ^ (w - 8 * n) * 256 ^ n" unfolding w by linarith
    with True show "8 * n < w \<and> c < 2 ^ (w - 8 * n)" by simp
  next
    assume "8 * n < w \<and> c < 2 ^ (w - 8 * n)"
    then have "(c + 1) * 256 ^ n \<le> 2 ^ (w - 8 * n) * 256 ^ n" by (intro mult_right_mono) auto
    then show "c * 256 ^ n + r < 2 ^ w" unfolding w using assms(1) by (simp add: algebra_simps)
  qed
next
  case False
  then have "(2 :: nat) ^ w \<le> 256 ^ n" unfolding exp_bytes [symmetric] by (intro power_increasing) auto
  also have "\<dots> \<le> c * 256 ^ n" using assms(2) by simp
  finally show ?thesis using False by simp
qed

lemma bitwidth_le_iff: "s \<noteq> [] \<Longrightarrow> 0 < w \<Longrightarrow> GetBitwidthOfByteString s \<le> w \<longleftrightarrow> be_value s < 2 ^ w"
proof (induction s)
  case (Cons c s)
  show ?case
  proof (cases "of_char c = (0 :: nat)")
    case True
    with Cons show ?thesis by (cases "s = []") (simp_all add: GetBitwidthOfByteString_def split: option.splits)
  next
    case False
    have "GetBitwidthOfByteString (c # s) \<le> w \<longleftrightarrow> 8 * length s < w \<and> significant_bits (of_char c) \<le> w - 8 * length s"
    proof -
      have "significant_bits (of_char c) \<noteq> 0" by (subst significant_bits.simps) simp
      with False show ?thesis by (auto simp: GetBitwidthOfByteString_def)
    qed
    also have "\<dots> \<longleftrightarrow> 8 * length s < w \<and> of_char c < (2 :: nat) ^ (w - 8 * length s)"
      by (metis significant_bits_le zero_less_diff)
    finally show ?thesis using leading_byte_bound [OF be_value_less, of "of_char c" s w] False by simp
  qed
qed simp

lemma bitwidth_pos: "s \<noteq> [] \<Longrightarrow> 0 < GetBitwidthOfByteString s"
proof (induction s)
  case (Cons c s)
  have "significant_bits n \<noteq> 0" for n by (subst significant_bits.simps) simp
  with Cons show ?case by (cases s) (auto simp: GetBitwidthOfByteString_def split: option.splits)
qed simp

lemma canonical_eq: "ArbitraryToCanonicalByteString s = ByteStringToP4runtimeByteString s"
  by (simp add: ArbitraryToCanonicalByteString_def ByteStringToP4runtimeByteString_def)

lemmas canonical_value [simp] = strip_zeros_value [folded canonical_eq]

lemma canonical_not_Nil [simp]: "ArbitraryToCanonicalByteString s = [] \<longleftrightarrow> s = []"
  using strip_zeros_canonical [of s, folded canonical_eq] by (auto simp: ArbitraryToCanonicalByteString_def)

lemma canonical_length:
  assumes "s \<noteq> []" "be_value s < 2 ^ w" "0 < w"
  shows "length (ArbitraryToCanonicalByteString s) \<le> NumBitsToNumBytes w"
proof -
  let ?t = "ArbitraryToCanonicalByteString s"
  obtain c cs where t: "?t = c # cs" using assms(1) canonical_not_Nil [of s] by (cases ?t) auto
  show ?thesis
  proof (cases "cs = []")
    case True
    with t assms(3) show ?thesis by (simp add: NumBitsToNumBytes_def)
  next
    case False
    then have "0 < (of_char c :: nat)"
      using strip_zeros_canonical [OF assms(1), folded canonical_eq] t of_char_zero [of c] by auto
    moreover have "be_value (c # cs) < 2 ^ w" using assms(2) canonical_value [of s] t by simp
    ultimately have "8 * length cs < w" using leading_byte_bound [OF be_value_less, of "of_char c" cs w] by simp
    with t show ?thesis by (simp add: NumBitsToNumBytes_def)
  qed
qed

text \<open>A byte string is normalized to its value in the fewest bytes that hold the bit width.\<close>

lemma normalized_iff:
  "ArbitraryToNormalizedByteString s w = Inr t \<longleftrightarrow>
     s \<noteq> [] \<and> 0 < w \<and> be_value s < 2 ^ w \<and> t = BitsetToPaddedByteString w (be_value s)"
proof (cases "s = [] \<or> w = 0")
  case True
  then show ?thesis
    using bitwidth_pos [of "ArbitraryToCanonicalByteString s"]
    by (auto simp: ArbitraryToNormalizedByteString_def Let_def)
next
  case False
  let ?c = "ArbitraryToCanonicalByteString s"
  let ?p = "replicate (NumBitsToNumBytes w - length ?c) CHR 0x00 @ ?c"
  have iff: "GetBitwidthOfByteString ?c \<le> w \<longleftrightarrow> be_value s < 2 ^ w"
    using bitwidth_le_iff [of ?c w] False by simp
  have "?p = BitsetToPaddedByteString w (be_value s)" if v: "be_value s < 2 ^ w"
  proof (rule be_value_inj)
    show "length ?p = length (BitsetToPaddedByteString w (be_value s))"
      using canonical_length [of s w] False v by simp
    have "be_value ?p = be_value s"
      using be_value_zeros [of "replicate (NumBitsToNumBytes w - length ?c) CHR 0x00"]
      by (simp add: be_value_append list_all_iff)
    then show "be_value ?p = be_value (BitsetToPaddedByteString w (be_value s))"
      using v by (simp add: be_value_BitsetToPadded)
  qed
  then show ?thesis
    using False iff
    by (auto simp: ArbitraryToNormalizedByteString_def Let_def NumBitsToNumBytes_def not_less)
qed


section \<open>Values\<close>

text \<open>What \<open>GetFormat\<close> guarantees of the format and the bit width of a field; a \<open>STRING\<close> field has no width.\<close>

definition format_fits :: "ir_format \<Rightarrow> nat \<Rightarrow> bool" where
  "format_fits f w \<longleftrightarrow>
     (case f of MAC \<Rightarrow> w = kNumBitsInMac | IPV4 \<Rightarrow> w = kNumBitsInIpv4 | IPV6 \<Rightarrow> 0 < w \<and> w \<le> kNumBitsInIpv6
      | HEX_STRING \<Rightarrow> 0 < w | STRING \<Rightarrow> True)"

lemma GetFormat_fits: "GetFormat as w sdn = Inr f \<Longrightarrow> 0 < w \<or> f = STRING \<Longrightarrow> format_fits f w"
  by (auto simp: GetFormat_def format_fits_def kNumBitsInMac_def kNumBitsInIpv4_def split: if_splits ir_format.splits)

text \<open>The width of the bytes a value is converted back to.\<close>

definition value_width :: "ir_format \<Rightarrow> nat \<Rightarrow> nat" where
  "value_width f w = (if f = IPV6 then kNumBitsInIpv6 else w)"

definition normal_bytes :: "ir_format \<Rightarrow> nat \<Rightarrow> string \<Rightarrow> string" where
  "normal_bytes f w s = (if f = STRING then s else BitsetToPaddedByteString (value_width f w) (be_value s))"

lemma OfByteString_word_iff:
  "(OfByteString s :: 'a::len word status_or) = Inr x \<longleftrightarrow>
     s \<noteq> [] \<and> be_value s < 2 ^ LENGTH('a) \<and> x = of_nat (be_value s)"
  by (auto simp: OfByteString_def ByteStringToBitset_iff)

lemma ToPadded_of_nat:
  "v < 2 ^ LENGTH('a) \<Longrightarrow> ToPaddedByteString (of_nat v :: 'a::len word) = BitsetToPaddedByteString LENGTH('a) v"
  by (simp add: ToPaddedByteString_def unat_of_nat take_bit_nat_eq_self)

lemma mask_loop_le: "k \<le> 128 \<Longrightarrow> (\<And>i. i < 128 - m \<Longrightarrow> \<not> bit w i) \<Longrightarrow> mask_loop k w \<le> m"
proof (induction k)
  case (Suc k)
  show ?case
  proof (cases "bit w (127 - k)")
    case True
    with Suc.prems(2) [of "127 - k"] Suc.prems(1) show ?thesis by (cases "127 - k < 128 - m") auto
  next
    case False
    with Suc show ?thesis by simp
  qed
qed simp

lemma MinimumMaskLength_shift:
  "w \<le> 128 \<Longrightarrow> MinimumMaskLength (push_bit (128 - w) ip) \<le> w"
  unfolding MinimumMaskLength_def by (rule mask_loop_le) (auto simp: bit_simps)

lemma shift_back:
  assumes "w \<le> 128" "drop_bit w (ip :: ipv6_address) = 0"
  shows "drop_bit (128 - w) (push_bit (128 - w) ip) = ip"
proof (rule bit_word_eqI)
  fix n assume n: "n < LENGTH(128)"
  have "\<not> bit ip n" if "w \<le> n"
    using arg_cong [OF assms(2), of "\<lambda>x. bit x (n - w)"] that by (simp add: bit_drop_bit_eq)
  then show "bit (drop_bit (128 - w) (push_bit (128 - w) ip)) n = bit ip n"
    using n assms(1) by (cases "w \<le> n") (auto simp: bit_simps)
qed

lemma lower_xdigit_char: "d < 16 \<Longrightarrow> lower_xdigit (digit_char d)"
  by (auto simp: lower_xdigit_def digit_char_def Let_def of_char_of)

lemma hex_all_lower: "list_all lower_xdigit (BytesToHexString s)"
proof -
  have "of_char c div 16 < (16 :: nat)" for c using of_char_lt [of c] by (auto simp: div_less_iff_less_mult)
  then show ?thesis by (auto simp: BytesToHexString_def list_all_iff lower_xdigit_char)
qed

lemma num_hex_chars_eq: "num_hex_chars w = (w + 3) div 4"
  by (auto simp: num_hex_chars_def) presburger+

lemma digit_char_0: "digit_char 0 = CHR ''0''"
  by code_simp

text \<open>The digit that is dropped from an odd number of digits is zero.\<close>

lemma hex_digits_of_bytes:
  assumes "length s = NumBitsToNumBytes w" "be_value s < 2 ^ w" "0 < w"
  shows "BytesToHexString s =
    (if num_hex_chars w \<noteq> length (BytesToHexString s) then CHR ''0'' # drop 1 (BytesToHexString s) else BytesToHexString s) \<and>
    length (if num_hex_chars w \<noteq> length (BytesToHexString s) then drop 1 (BytesToHexString s) else BytesToHexString s)
      = num_hex_chars w \<and>
    (num_hex_chars w = length (BytesToHexString s) \<longleftrightarrow> even (num_hex_chars w))"
proof (cases "num_hex_chars w = length (BytesToHexString s)")
  case True
  then show ?thesis by simp
next
  case False
  define m where "m = length s - 1"
  have len: "length s = Suc m" "w \<le> 8 * m + 4"
    using assms(1,3) False by (auto simp: num_hex_chars_eq NumBitsToNumBytes_def m_def)
  then obtain c cs where s: "s = c # cs" "length cs = m" by (cases s) auto
  have "of_char c * 256 ^ m + be_value cs < 2 ^ (8 * m + 4)"
    using less_le_trans [OF assms(2) power_increasing [OF len(2)]] s by simp
  then have "(of_char c :: nat) < 16"
    using leading_byte_bound [OF be_value_less, of "of_char c" cs "8 * m + 4"] s
    by (cases "of_char c = (0 :: nat)") auto
  then have "BytesToHexString s = CHR ''0'' # drop 1 (BytesToHexString s)"
    using digit_char_0 by (simp add: s BytesToHexString_def)
  moreover have "num_hex_chars w = 2 * length s - 1"
    using assms(1,3) False by (auto simp: num_hex_chars_eq NumBitsToNumBytes_def)
  ultimately show ?thesis using False len by auto
qed

lemma hex_value_bytes:
  assumes "length h = num_hex_chars w" "list_all lower_xdigit h"
    "hex_pairs (if even (length h) then h else CHR ''0'' # h) = Inr t"
  shows "IrValueToNormalizedByteString env (HexStr (''0x'' @ h)) w = ArbitraryToNormalizedByteString t w"
  using assms by (simp add: IrValueToNormalizedByteString_def Let_def)

lemma hex_value_round_trip:
  assumes "s \<noteq> []" "0 < w" "be_value s < 2 ^ w"
    and v: "ArbitraryByteStringToIrValue env HEX_STRING w s = Inr v"
  shows "\<exists>h. v = HexStr h \<and> IrValueToNormalizedByteString env v w = Inr (BitsetToPaddedByteString w (be_value s))"
proof -
  let ?t = "BitsetToPaddedByteString w (be_value s)"
  let ?h = "BytesToHexString ?t"
  let ?h' = "if num_hex_chars w \<noteq> length ?h then drop 1 ?h else ?h"
  have n: "ArbitraryToNormalizedByteString s w = Inr ?t" using assms(1-3) by (simp add: normalized_iff)
  have t: "be_value ?t = be_value s" "?t \<noteq> []" using assms by (simp_all add: be_value_BitsetToPadded padded_not_Nil)
  have v': "v = HexStr (''0x'' @ ?h')" using v assms(1) n by (simp add: ArbitraryByteStringToIrValue_def Let_def)
  have "be_value ?t < 2 ^ w" using t(1) assms(3) by simp
  note d = hex_digits_of_bytes [OF length_BitsetToPaddedByteString this assms(2)]
  have whole: "(if even (length ?h') then ?h' else CHR ''0'' # ?h') = ?h" using d by (auto split: if_splits)
  have low: "list_all lower_xdigit ?h'"
    using hex_all_lower [of ?t] by (auto simp: list_all_iff dest: in_set_dropD)
  have len: "num_hex_chars w = length ?h'" using d by metis
  have "IrValueToNormalizedByteString env v w = ArbitraryToNormalizedByteString ?t w"
    unfolding v' by (rule hex_value_bytes [OF len [symmetric] low]) (simp only: whole hex_pairs_BytesToHexString)
  also have "\<dots> = Inr ?t" using t assms(2,3) by (simp add: normalized_iff)
  finally show ?thesis using v' by blast
qed


text \<open>A byte string read as a value and written back is the normal form of the bytes.\<close>

lemma value_round_trip:
  assumes "inet_round_trip env" "format_fits f w" "ArbitraryByteStringToIrValue env f w s = Inr v"
  shows "s \<noteq> [] \<and> ValidateIrValueFormat v f b = OK \<and>
    IrValueToNormalizedByteString env v w = Inr (normal_bytes f w s) \<and>
    (f \<noteq> STRING \<longrightarrow> be_value s < 2 ^ w)"
proof (cases f)
  case MAC
  with assms show ?thesis
    by (auto simp: ArbitraryByteStringToIrValue_def OfByteString_word_iff format_fits_def kNumBitsInMac_def
        ValidateIrValueFormat_def IrValueToNormalizedByteString_def Mac_round_trip normal_bytes_def value_width_def
        ToPadded_of_nat split: if_splits)
next
  case IPV4
  with assms show ?thesis
    by (auto simp: ArbitraryByteStringToIrValue_def OfByteString_word_iff format_fits_def kNumBitsInIpv4_def
        ValidateIrValueFormat_def IrValueToNormalizedByteString_def Ipv4_round_trip normal_bytes_def value_width_def
        ToPadded_of_nat split: if_splits)
next
  case IPV6
  let ?ip = "of_nat (be_value s) :: ipv6_address"
  from IPV6 assms(2) have w: "0 < w" "w \<le> 128" by (simp_all add: format_fits_def kNumBitsInIpv6_def)
  from IPV6 assms(3) have s: "s \<noteq> []" "be_value s < 2 ^ 128" "drop_bit w ?ip = 0"
    "v = Ipv6 (Ipv6_ToString env (push_bit (128 - w) ?ip))"
    using w by (auto simp: ArbitraryByteStringToIrValue_def OfByteString_word_iff ipv6_shift_def kNumBitsInIpv6_def split: if_splits)
  have val: "unat ?ip = be_value s" using s(2) by (simp add: unat_of_nat take_bit_nat_eq_self)
  have "drop_bit w (be_value s) = 0"
    using arg_cong [OF s(3), of unat] val by (simp add: unat_drop_bit_eq)
  then have "be_value s < 2 ^ w" by (simp add: drop_bit_nat_def div_eq_0_iff)
  moreover have "IrValueToNormalizedByteString env v w = Inr (normal_bytes f w s)"
    using s(2) w shift_back [OF w(2) s(3)] MinimumMaskLength_shift [OF w(2), of ?ip]
    by (simp add: s(4) IPV6 IrValueToNormalizedByteString_def Ipv6_text_round_trip [OF assms(1)] ipv6_shift_def
        kNumBitsInIpv6_def normal_bytes_def value_width_def ToPadded_of_nat [where 'a = 128, simplified])
  ultimately show ?thesis using s by (simp add: IPV6 ValidateIrValueFormat_def)
next
  case STRING
  with assms(3) show ?thesis
    by (auto simp: ArbitraryByteStringToIrValue_def ValidateIrValueFormat_def IrValueToNormalizedByteString_def
        normal_bytes_def split: if_splits)
next
  case HEX_STRING
  from HEX_STRING assms(3) have s: "s \<noteq> []" "0 < w" "be_value s < 2 ^ w"
    by (auto simp: ArbitraryByteStringToIrValue_def normalized_iff split: if_splits)
  from hex_value_round_trip [OF this assms(3) [unfolded HEX_STRING]] HEX_STRING s show ?thesis
    by (auto simp: ValidateIrValueFormat_def normal_bytes_def value_width_def)
qed

lemma ByteStringToBitset_Inl: "ByteStringToBitset n s = Inl e \<Longrightarrow> e = INVALID_ARGUMENT"
  by (auto simp: ByteStringToBitset_def Let_def split: if_splits)

text \<open>The value depends on the number the bytes stand for only.\<close>

lemma normalized_of_number:
  assumes "s \<noteq> []" "t \<noteq> []" "be_value s = be_value t"
  shows "ArbitraryToNormalizedByteString s w = ArbitraryToNormalizedByteString t w"
proof (cases "0 < w \<and> be_value t < 2 ^ w")
  case True
  with assms normalized_iff [of s w] normalized_iff [of t w] show ?thesis by metis
next
  case False
  have "ArbitraryToNormalizedByteString u w = Inl INVALID_ARGUMENT"
    if "u \<noteq> []" "\<not> (0 < w \<and> be_value u < 2 ^ w)" for u
    using that bitwidth_le_iff [of "ArbitraryToCanonicalByteString u" w] bitwidth_pos [of "ArbitraryToCanonicalByteString u"]
    by (cases "w = 0") (auto simp: ArbitraryToNormalizedByteString_def Let_def)
  with False assms show ?thesis by simp
qed

lemma OfByteString_of_number:
  assumes "s \<noteq> []" "t \<noteq> []" "be_value s = be_value t"
  shows "(OfByteString s :: 'a::len word status_or) = OfByteString t"
proof (cases "be_value t < 2 ^ LENGTH('a)")
  case True
  with assms OfByteString_word_iff [of s, where 'a = 'a] OfByteString_word_iff [of t, where 'a = 'a]
  show ?thesis by metis
next
  case False
  have "(OfByteString u :: 'a word status_or) = Inl INVALID_ARGUMENT" if "\<not> be_value u < 2 ^ LENGTH('a)" for u
    using that ByteStringToBitset_iff [of "LENGTH('a)" u] ByteStringToBitset_Inl [of "LENGTH('a)" u]
    by (cases "ByteStringToBitset LENGTH('a) u") (auto simp: OfByteString_def)
  with False assms show ?thesis by simp
qed

lemma value_of_number:
  assumes "f \<noteq> STRING" "s \<noteq> []" "t \<noteq> []" "be_value s = be_value t"
  shows "ArbitraryByteStringToIrValue env f w s = ArbitraryByteStringToIrValue env f w t"
proof -
  note eqs = normalized_of_number [OF assms(2-4), of w]
    OfByteString_of_number [OF assms(2-4), where 'a = 48] OfByteString_of_number [OF assms(2-4), where 'a = 32]
    OfByteString_of_number [OF assms(2-4), where 'a = 128]
  from assms(1-3) show ?thesis by (cases f) (simp_all add: ArbitraryByteStringToIrValue_def eqs)
qed

section \<open>Unsigned integers\<close>

lemma be64toh_eq: "be64toh s = be_value s"
  by (simp add: be64toh_def be_value_def)

lemma be_value_pad: "be_value (replicate n CHR 0x00 @ s) = be_value s"
  using be_value_zeros [of "replicate n CHR 0x00"] by (simp add: be_value_append list_all_iff)

lemma ArbitraryByteStringToUint_iff:
  "ArbitraryByteStringToUint s w = Inr v \<longleftrightarrow> w \<le> 64 \<and> s \<noteq> [] \<and> 0 < w \<and> be_value s < 2 ^ w \<and> v = be_value s"
  by (auto simp: ArbitraryByteStringToUint_def normalized_iff be64toh_eq be_value_pad be_value_BitsetToPadded)

definition uint_bytes :: "int \<Rightarrow> nat" where
  "uint_bytes bitwidth = (if bitwidth \<le> 8 then 1 else if bitwidth \<le> 16 then 2 else if bitwidth \<le> 32 then 4 else 8)"

text \<open>Values are truncated to 8, 16, 32 or 64 bits before their width is checked.\<close>

lemma UintToNormalizedByteString_iff:
  "UintToNormalizedByteString v w = Inr t \<longleftrightarrow>
     0 < w \<and> w \<le> 64 \<and> v mod 256 ^ uint_bytes w < 2 ^ nat w \<and>
     t = BitsetToPaddedByteString (nat w) (v mod 256 ^ uint_bytes w)"
proof -
  have "network_bytes (uint_bytes w) v \<noteq> []"
    by (metis length_padded_bytes list.size(3) network_bytes_def uint_bytes_def zero_neq_numeral zero_neq_one add_0_right)
  then show ?thesis
    by (auto simp: UintToNormalizedByteString_def normalized_iff network_bytes_def be_value_padded
        uint_bytes_def [symmetric])
qed

section \<open>Prefix masks\<close>

lemma mask_byte_value: "of_char (char_of (mask_byte p)) = (256 :: nat) - 2 ^ (8 - nat (min 8 (max 0 p)))"
proof -
  have "p \<ge> 8 \<or> p \<le> 0 \<or> p \<in> {1, 2, 3, 4, 5, 6, 7}" by auto
  then show ?thesis by (auto simp: mask_byte_def of_char_of)
qed

lemma length_mask_bytes [simp]: "length (mask_bytes n p) = n"
  by (induction n p rule: mask_bytes.induct) auto

lemma mask_bytes_value: "be_value (mask_bytes n p) = 256 ^ n - 2 ^ (8 * n - nat (min (8 * int n) (max 0 p)))"
proof (induction n p rule: mask_bytes.induct)
  case (2 n p)
  let ?k = "8 * n - nat (min (8 * int n) (max 0 (p - 8)))"
  have le: "(2 :: nat) ^ ?k \<le> 256 ^ n"
    unfolding exp_bytes [symmetric] by (rule power_increasing) auto
  consider "p \<ge> 8" | "p \<le> 0" | "0 < p" "p < 8" by linarith
  then show ?case
  proof cases
    case 1
    then have "8 * Suc n - nat (min (8 * int (Suc n)) (max 0 p)) = ?k" by (auto simp: min_def max_def)
    with 1 2 le show ?thesis by (simp add: mask_byte_def)
  next
    case 2
    with \<open>be_value (mask_bytes n (p - 8)) = _\<close> show ?thesis by (simp add: mask_byte_def power_add exp_bytes)
  next
    case 3
    then have k: "?k = 8 * n" "8 * Suc n - nat (min (8 * int (Suc n)) (max 0 p)) = 8 * n + (8 - nat p)"
      by (auto simp: min_def max_def)
    from 3 have "nat (min 8 (max 0 p)) = nat p" by simp
    with 2 show ?thesis by (simp only: mask_bytes.simps be_value_Cons length_mask_bytes mask_byte_value k power_add exp_bytes)
        (simp add: diff_mult_distrib algebra_simps)
  qed
qed simp


lemma shifted_difference: "x \<le> p \<Longrightarrow> 0 < m \<Longrightarrow> (m - 1) * p + (p - x) = p * m - (x :: nat)"
  by (cases m) (auto simp: algebra_simps)

text \<open>
  The mask of a prefix. When the bit width is a multiple of eight, or the prefix covers the
  partial leading byte, the mask of an LPM match has exactly the leading \<open>prefix_len\<close> bits set; a
  prefix that ends inside the partial leading byte gets that whole byte, so the mask is too long.
  A prefix longer than the field is refused.
\<close>

theorem PrefixLenToMask_exact:
  assumes "0 \<le> prefix_len"
  shows "if prefix_len \<le> int bitwidth
    then \<exists>mask. PrefixLenToMask prefix_len bitwidth = Inr mask \<and> length mask = NumBitsToNumBytes bitwidth \<and>
      be_value mask = 2 ^ bitwidth - 2 ^ (bitwidth - max (nat prefix_len) (bitwidth mod 8))
    else PrefixLenToMask prefix_len bitwidth = Inl INVALID_ARGUMENT"
proof (cases "prefix_len \<le> int bitwidth")
  case True
  define n m where "n = bitwidth div 8" and "m = bitwidth mod 8"
  have w: "bitwidth = 8 * n + m" "m < 8" by (simp_all add: n_def m_def)
  show ?thesis
  proof (cases "m = 0")
    case True
    with \<open>prefix_len \<le> int bitwidth\<close> assms w show ?thesis
      by (simp add: PrefixLenToMask_def n_def [symmetric] m_def [symmetric] NumBitsToNumBytes_def mask_bytes_value exp_bytes)
  next
    case False
    then have "m \<in> {1, 2, 3, 4, 5, 6, 7}" using w(2) by auto
    then have top: "of_char (char_of (drop_bit (8 - m) 0xFF AND 0xFF :: nat)) = (2 :: nat) ^ m - 1"
      by (auto simp: of_char_of drop_bit_nat_def)
    let ?q = "nat (min (8 * int n) (max 0 (prefix_len - int m)))"
    have q: "8 * n - ?q = bitwidth - max (nat prefix_len) m"
      using w(1) \<open>prefix_len \<le> int bitwidth\<close> assms by (auto simp: min_def max_def)
    have "(2 :: nat) ^ (8 * n - ?q) \<le> 2 ^ (8 * n)" by (rule power_increasing) auto
    then have "(2 ^ m - 1) * 256 ^ n + (256 ^ n - 2 ^ (8 * n - ?q)) = (2 :: nat) ^ bitwidth - 2 ^ (8 * n - ?q)"
      unfolding w(1) power_add exp_bytes by (intro shifted_difference) simp_all
    then have "be_value (char_of (drop_bit (8 - m) 0xFF AND 0xFF :: nat) # mask_bytes n (prefix_len - int m)) =
        2 ^ bitwidth - 2 ^ (bitwidth - max (nat prefix_len) m)"
      unfolding be_value_Cons length_mask_bytes mask_bytes_value top q by simp
    moreover have "PrefixLenToMask prefix_len bitwidth =
        Inr (char_of (drop_bit (8 - m) 0xFF AND 0xFF :: nat) # mask_bytes n (prefix_len - int m))"
      using False True unfolding PrefixLenToMask_def n_def m_def by simp
    moreover have "Suc n = NumBitsToNumBytes bitwidth"
      using False w unfolding NumBitsToNumBytes_def by linarith
    ultimately show ?thesis using True unfolding m_def by simp
  qed
qed (simp add: PrefixLenToMask_def)

theorem PrefixLenToMask_exact_witness:
  "(\<exists>mask. PrefixLenToMask 20 32 = Inr mask \<and> length mask = 4 \<and> be_value mask = 0xFFFFF000) \<and>
   (\<exists>mask. PrefixLenToMask 2 12 = Inr mask \<and> length mask = 2 \<and> be_value mask = 0xF00)"
  using PrefixLenToMask_exact [of 20 32] PrefixLenToMask_exact [of 2 12] by (simp add: NumBitsToNumBytes_def)

end
