(* ===== verification/Pdpi_Translation.thy ===== *)
theory Pdpi_Translation
  imports Ir_Values
begin

text \<open>
  PDPI's translation between the program-independent and the intermediate representation
  (\<open>p4_infra/p4_pdpi/ir.cc\<close>): match fields, actions, action sets, table entries and packet
  replication entries, in both directions. The functions collect every reason why their input
  is invalid and fail at the end; the model keeps the flag that some reason was found, since all
  of them are reported as one invalid-argument status.
\<close>

section \<open>Checks shared by both directions\<close>

record translation_options =
  key_only :: bool
  allow_unsupported :: bool
  allow_arbitrary_format :: bool

definition default_options :: translation_options where
  "default_options = \<lparr>key_only = False, allow_unsupported = False, allow_arbitrary_format = False\<rparr>"

definition GetMandatoryMatches :: "ir_table_definition \<Rightarrow> string set" where
  "GetMandatoryMatches table =
     set (map (mfd_name \<circ> snd) (filter (\<lambda>(_, d). mfd_match_type d = EXACT) (itd_match_fields_by_name table)))"

definition CheckMandatoryMatches :: "string set \<Rightarrow> ir_table_definition \<Rightarrow> bool" where
  "CheckMandatoryMatches actual table \<longleftrightarrow> card actual = card (GetMandatoryMatches table)"

definition CheckParams :: "string set \<Rightarrow> ir_action_definition \<Rightarrow> bool" where
  "CheckParams actual action \<longleftrightarrow> card actual = length (iad_params_by_name action)"

text \<open>The outcome of a function that collected its reasons: a value if there were none.\<close>

definition unless_invalid :: "bool \<Rightarrow> 'a status_or \<Rightarrow> 'a status_or" where
  "unless_invalid bad r = (if bad then Inl INVALID_ARGUMENT else case r of Inl _ \<Rightarrow> Inl INVALID_ARGUMENT | Inr x \<Rightarrow> Inr x)"

definition require :: "bool \<Rightarrow> 'a status_or \<Rightarrow> 'a status_or" where
  "require ok r = (if ok then r else Inl INVALID_ARGUMENT)"

section \<open>From PI to IR\<close>

definition pi_lpm_to_ir :: "text_env \<Rightarrow> ir_format \<Rightarrow> nat \<Rightarrow> string \<Rightarrow> int \<Rightarrow> ir_match_value status_or" where
  "pi_lpm_to_ir env f bitwidth v prefix_len =
     require (prefix_len \<noteq> 0)
       (bind_or (PrefixLenToMask prefix_len bitwidth) (\<lambda>mask_bytes.
        bind_or (ArbitraryToNormalizedByteString v bitwidth) (\<lambda>value_bytes.
        bind_or (Intersection value_bytes mask_bytes) (\<lambda>intersection.
        require (value_bytes = intersection)
          (bind_or (ArbitraryByteStringToIrValue env f bitwidth value_bytes) (\<lambda>ir_value.
           Inr (IrLpm ir_value prefix_len)))))))"

definition pi_ternary_to_ir :: "text_env \<Rightarrow> ir_format \<Rightarrow> nat \<Rightarrow> string \<Rightarrow> string \<Rightarrow> ir_match_value status_or" where
  "pi_ternary_to_ir env f bitwidth v m =
     bind_or (ArbitraryToNormalizedByteString v bitwidth) (\<lambda>value_bytes.
     bind_or (ArbitraryToNormalizedByteString m bitwidth) (\<lambda>mask_bytes.
     require (\<not> all_zero_bytes mask_bytes)
       (bind_or (Intersection value_bytes mask_bytes) (\<lambda>intersection.
        require (value_bytes = intersection)
          (bind_or (ArbitraryByteStringToIrValue env f bitwidth value_bytes) (\<lambda>ir_value.
           bind_or (ArbitraryByteStringToIrValue env f bitwidth mask_bytes) (\<lambda>ir_mask.
           Inr (IrTernary ir_value ir_mask))))))))"

definition PiMatchFieldToIr ::
  "text_env \<Rightarrow> translation_options \<Rightarrow> ir_match_field_definition \<Rightarrow> field_match \<Rightarrow> ir_match status_or" where
  "PiMatchFieldToIr env options d pi_match =
     unless_invalid (mfd_is_unsupported d \<and> \<not> allow_unsupported options)
       (bind_or
          (case (mfd_match_type d, fm_type pi_match) of
             (EXACT, FmExact v) \<Rightarrow>
               bind_or (ArbitraryByteStringToIrValue env (mfd_format d) (mfd_bitwidth d) v) (\<lambda>x. Inr (IrExact x))
           | (LPM, FmLpm v prefix_len) \<Rightarrow> pi_lpm_to_ir env (mfd_format d) (mfd_bitwidth d) v prefix_len
           | (TERNARY, FmTernary v m) \<Rightarrow> pi_ternary_to_ir env (mfd_format d) (mfd_bitwidth d) v m
           | (OPTIONAL, FmOptional v) \<Rightarrow>
               bind_or (ArbitraryByteStringToIrValue env (mfd_format d) (mfd_bitwidth d) v) (\<lambda>x. Inr (IrOptional x))
           | _ \<Rightarrow> Inl INVALID_ARGUMENT)
          (\<lambda>v. Inr \<lparr>irm_name = mfd_name d, irm_value = v\<rparr>))"

text \<open>
  The loop over the parameters of an action: the parameter IDs used so far, whether a reason was
  found, the parameters added to the invocation (in reverse) and the names seen. A parameter that
  fails is skipped.
\<close>

fun pi_params_to_ir ::
  "text_env \<Rightarrow> ir_action_definition \<Rightarrow> nat set \<Rightarrow> (nat \<times> string) list \<Rightarrow> bool \<times> (string \<times> ir_value) list" where
  "pi_params_to_ir env d used [] = (False, [])"
| "pi_params_to_ir env d used ((param_id, v) # ps) =
     (if param_id \<in> used then (True, snd (pi_params_to_ir env d used ps))
      else let (bad, rest) = pi_params_to_ir env d (insert param_id used) ps
      in case map_of (iad_params_by_id d) param_id of
           None \<Rightarrow> (True, rest)
         | Some pd \<Rightarrow>
             (case ArbitraryByteStringToIrValue env (ipd_format pd) (ipd_bitwidth pd) v of
                Inl _ \<Rightarrow> (True, rest)
              | Inr x \<Rightarrow> (bad, (ipd_name pd, x) # rest)))"

definition PiActionToIr ::
  "text_env \<Rightarrow> ir_p4info \<Rightarrow> translation_options \<Rightarrow> pi_action \<Rightarrow> ir_action_definition list \<Rightarrow> ir_action_invocation status_or" where
  "PiActionToIr env info options a valid_actions =
     (case actions_by_id info (pi_action_id a) of
        None \<Rightarrow> Inl INVALID_ARGUMENT
      | Some d \<Rightarrow>
          require (list_ex (\<lambda>v. iad_id v = pi_action_id a) valid_actions)
            (let (bad, params) = pi_params_to_ir env d {} (pi_params a)
             in unless_invalid
                  (iad_is_unsupported d \<and> \<not> allow_unsupported options \<or> bad \<or> \<not> CheckParams (set (map fst params)) d)
                  (Inr \<lparr>ira_name = iad_alias d, ira_params = params\<rparr>)))"

fun PiActionSetToIr ::
  "text_env \<Rightarrow> ir_p4info \<Rightarrow> translation_options \<Rightarrow> pi_action_profile_action list \<Rightarrow> ir_action_definition list \<Rightarrow>
   ir_action_set_invocation list status_or" where
  "PiActionSetToIr env info options [] valid_actions = Inr []"
| "PiActionSetToIr env info options (a # as) valid_actions =
     bind_or (PiActionToIr env info options (apa_action a) valid_actions) (\<lambda>action.
     require (apa_weight a \<ge> 1)
       (bind_or (PiActionSetToIr env info options as valid_actions) (\<lambda>rest.
        Inr (\<lparr>iras_action = action, iras_weight = apa_weight a, iras_watch_port = apa_watch_port a\<rparr> # rest))))"

fun pi_matches_to_ir ::
  "text_env \<Rightarrow> translation_options \<Rightarrow> ir_table_definition \<Rightarrow> nat set \<Rightarrow> field_match list \<Rightarrow>
   bool \<times> ir_match list \<times> string set" where
  "pi_matches_to_ir env options table used [] = (False, [], {})"
| "pi_matches_to_ir env options table used (m # ms) =
     (if fm_field_id m \<in> used then (True, snd (pi_matches_to_ir env options table used ms))
      else let (bad, matches, mandatory) = pi_matches_to_ir env options table (insert (fm_field_id m) used) ms
      in case map_of (itd_match_fields_by_id table) (fm_field_id m) of
           None \<Rightarrow> (True, matches, mandatory)
         | Some d \<Rightarrow>
             (case PiMatchFieldToIr env options d m of
                Inl _ \<Rightarrow> (True, matches, mandatory)
              | Inr x \<Rightarrow> (bad, x # matches, if mfd_match_type d = EXACT then insert (mfd_name d) mandatory else mandatory)))"

definition pi_table_action_to_ir ::
  "text_env \<Rightarrow> ir_p4info \<Rightarrow> translation_options \<Rightarrow> ir_table_definition \<Rightarrow> pi_table_action \<Rightarrow> ir_table_action status_or" where
  "pi_table_action_to_ir env info options table action =
     (if itd_entry_actions table = [] then
        (if action \<noteq> PiTableActionNotSet then Inl INVALID_ARGUMENT else Inr IrActionNotSet)
      else case action of
        PiAction a \<Rightarrow>
          require (\<not> itd_uses_oneshot table)
            (bind_or (PiActionToIr env info options a (itd_entry_actions table)) (\<lambda>x. Inr (IrAction x)))
      | PiActionProfileActionSet as \<Rightarrow>
          require (itd_uses_oneshot table)
            (bind_or (PiActionSetToIr env info options as (itd_entry_actions table)) (\<lambda>x. Inr (IrActionSet x)))
      | _ \<Rightarrow> Inl INVALID_ARGUMENT)"

text \<open>Priorities, meters and counters are checked the same way in both directions.\<close>

definition priority_valid :: "ir_table_definition \<Rightarrow> int \<Rightarrow> bool" where
  "priority_valid table p \<longleftrightarrow> (if itd_requires_priority table then p > 0 else p = 0)"

definition meters_valid ::
  "ir_table_definition \<Rightarrow> meter_config option \<Rightarrow> meter_counter_data option \<Rightarrow> counter_data option \<Rightarrow> bool" where
  "meters_valid table mc mcd cd \<longleftrightarrow>
     (mc \<noteq> None \<longrightarrow> itd_has_meter table) \<and>
     (mcd \<noteq> None \<longrightarrow> itd_has_meter table \<and> mc \<noteq> None) \<and>
     (cd \<noteq> None \<longrightarrow> itd_has_counter table)"

definition PiTableEntryToIr ::
  "text_env \<Rightarrow> ir_p4info \<Rightarrow> pi_table_entry \<Rightarrow> translation_options \<Rightarrow> ir_table_entry status_or" where
  "PiTableEntryToIr env info pi options =
     (case tables_by_id info (pte_table_id pi) of
        None \<Rightarrow> Inl INVALID_ARGUMENT
      | Some table \<Rightarrow>
          (let (bad, matches, mandatory) = pi_matches_to_ir env options table {} (pte_match pi);
               key = default_ir_table_entry\<lparr>ite_table_name := itd_alias table, ite_matches := matches,
                       ite_priority := pte_priority pi\<rparr>
           in unless_invalid
                (itd_is_unsupported table \<and> \<not> allow_unsupported options \<or> bad \<or>
                 \<not> CheckMandatoryMatches mandatory table \<or> \<not> priority_valid table (pte_priority pi))
                (if key_only options then Inr key
                 else require (meters_valid table (pte_meter_config pi) (pte_meter_counter_data pi) (pte_counter_data pi))
                   (bind_or (pi_table_action_to_ir env info options table (pte_action pi)) (\<lambda>action.
                    Inr (key\<lparr>ite_controller_metadata := pte_metadata pi, ite_action := action,
                      ite_meter_config := pte_meter_config pi, ite_meter_counter_data := pte_meter_counter_data pi,
                      ite_counter_data := pte_counter_data pi\<rparr>))))))"

text \<open>Packet replication entries.\<close>

definition PiReplicaToIr :: "pi_replica \<Rightarrow> ir_replica status_or" where
  "PiReplicaToIr pi =
     (case pr_port_kind pi of
        Port port \<Rightarrow> Inr \<lparr>irr_port = port, irr_instance = pr_instance pi,
          irr_backups = map (\<lambda>b. (pbr_port b, pbr_instance b)) (pr_backups pi)\<rparr>
      | _ \<Rightarrow> Inl INVALID_ARGUMENT)"

text \<open>
  A replica and its backups use distinct ports, and the pairs of port and instance are unique in
  the whole group; \<open>instances\<close> are the pairs seen so far.
\<close>

fun insert_all_unique :: "'a set \<Rightarrow> 'a list \<Rightarrow> bool \<times> 'a set" where
  "insert_all_unique seen [] = (True, seen)"
| "insert_all_unique seen (x # xs) =
     (let (ok, seen') = insert_all_unique (insert x seen) xs in (x \<notin> seen \<and> ok, seen'))"

fun replicas_valid :: "(string \<times> nat) set \<Rightarrow> ir_replica list \<Rightarrow> bool" where
  "replicas_valid instances [] = True"
| "replicas_valid instances (r # rs) =
     (let (unique_ports, _) = insert_all_unique {irr_port r} (map fst (irr_backups r));
          (unique_pairs, instances') = insert_all_unique instances ((irr_port r, irr_instance r) # irr_backups r)
      in unique_ports \<and> unique_pairs \<and> replicas_valid instances' rs)"

definition PiPacketReplicationEngineEntryToIr ::
  "packet_replication_engine_entry \<Rightarrow> translation_options \<Rightarrow> ir_packet_replication_engine_entry status_or" where
  "PiPacketReplicationEngineEntryToIr pi options =
     (case pi of
        MulticastGroupEntry i replicas metadata \<Rightarrow>
          if key_only options then Inr (IrMulticastGroupEntry i [] metadata)
          else bind_or (map_or PiReplicaToIr replicas) (\<lambda>rs.
            require (replicas_valid {} rs) (Inr (IrMulticastGroupEntry i rs metadata)))
      | CloneSessionEntry i replicas cos len \<Rightarrow>
          if key_only options then Inr (IrCloneSessionEntry i [] 0 0)
          else bind_or (map_or PiReplicaToIr replicas) (\<lambda>rs. Inr (IrCloneSessionEntry i rs cos len))
      | PreNotSet \<Rightarrow> Inl UNIMPLEMENTED)"

definition PiEntityToIr :: "text_env \<Rightarrow> ir_p4info \<Rightarrow> pi_entity \<Rightarrow> translation_options \<Rightarrow> ir_entity status_or" where
  "PiEntityToIr env info pi options =
     (case pi of
        TableEntry e \<Rightarrow> bind_or (PiTableEntryToIr env info e options) (\<lambda>x. Inr (IrTableEntry x))
      | PacketReplicationEngineEntry e \<Rightarrow>
          bind_or (PiPacketReplicationEngineEntryToIr e options) (\<lambda>x. Inr (IrPacketReplicationEngineEntry x))
      | EntityNotSet \<Rightarrow> Inl INVALID_ARGUMENT
      | OtherEntity \<Rightarrow> Inl UNIMPLEMENTED)"

section \<open>From IR to PI\<close>

definition ir_value_to_bytes ::
  "text_env \<Rightarrow> translation_options \<Rightarrow> ir_format \<Rightarrow> nat \<Rightarrow> ir_value \<Rightarrow> string status_or" where
  "ir_value_to_bytes env options f bitwidth v =
     require (ValidateIrValueFormat v f (allow_arbitrary_format options) = OK)
       (IrValueToNormalizedByteString env v bitwidth)"

definition canonical_unless_string :: "ir_format \<Rightarrow> string \<Rightarrow> string" where
  "canonical_unless_string f v = (if f = STRING then v else ArbitraryToCanonicalByteString v)"

definition ir_lpm_to_pi ::
  "text_env \<Rightarrow> translation_options \<Rightarrow> ir_format \<Rightarrow> nat \<Rightarrow> ir_value \<Rightarrow> int \<Rightarrow> field_match_type status_or" where
  "ir_lpm_to_pi env options f bitwidth v prefix_length =
     (let prefix_len = prefix_length mod 2 ^ 32
      in require (prefix_len \<le> int bitwidth)
       (bind_or (ir_value_to_bytes env options f bitwidth v) (\<lambda>value_bytes.
        require (prefix_len \<noteq> 0)
          (bind_or (PrefixLenToMask prefix_len bitwidth) (\<lambda>mask_bytes.
           bind_or (Intersection value_bytes mask_bytes) (\<lambda>intersection.
           require (value_bytes = intersection)
             (Inr (FmLpm (ArbitraryToCanonicalByteString value_bytes) prefix_len))))))))"

definition ir_ternary_to_pi ::
  "text_env \<Rightarrow> translation_options \<Rightarrow> ir_format \<Rightarrow> nat \<Rightarrow> ir_value \<Rightarrow> ir_value \<Rightarrow> field_match_type status_or" where
  "ir_ternary_to_pi env options f bitwidth v m =
     bind_or (ir_value_to_bytes env options f bitwidth v) (\<lambda>value_bytes.
     bind_or (ir_value_to_bytes env options f bitwidth m) (\<lambda>mask_bytes.
     require (\<not> all_zero_bytes mask_bytes)
       (bind_or (Intersection value_bytes mask_bytes) (\<lambda>intersection.
        require (value_bytes = intersection)
          (Inr (FmTernary (ArbitraryToCanonicalByteString value_bytes) (ArbitraryToCanonicalByteString mask_bytes)))))))"

definition IrMatchFieldToPi ::
  "text_env \<Rightarrow> translation_options \<Rightarrow> ir_match_field_definition \<Rightarrow> ir_match \<Rightarrow> field_match status_or" where
  "IrMatchFieldToPi env options d ir_match =
     (let f = mfd_format d; w = mfd_bitwidth d
      in unless_invalid (mfd_is_unsupported d \<and> \<not> allow_unsupported options)
       (bind_or
          (case (mfd_match_type d, irm_value ir_match) of
             (EXACT, IrExact v) \<Rightarrow>
               bind_or (ir_value_to_bytes env options f w v) (\<lambda>b. Inr (FmExact (canonical_unless_string f b)))
           | (LPM, IrLpm v prefix_length) \<Rightarrow> ir_lpm_to_pi env options f w v prefix_length
           | (TERNARY, IrTernary v m) \<Rightarrow> ir_ternary_to_pi env options f w v m
           | (OPTIONAL, IrOptional v) \<Rightarrow>
               bind_or (ir_value_to_bytes env options f w v) (\<lambda>b. Inr (FmOptional (canonical_unless_string f b)))
           | _ \<Rightarrow> Inl INVALID_ARGUMENT)
          (\<lambda>t. Inr \<lparr>fm_field_id = mfd_id d, fm_type = t\<rparr>)))"

fun ir_params_to_pi ::
  "text_env \<Rightarrow> translation_options \<Rightarrow> ir_action_definition \<Rightarrow> string set \<Rightarrow> (string \<times> ir_value) list \<Rightarrow>
   bool \<times> (nat \<times> string) list \<times> string set" where
  "ir_params_to_pi env options d used [] = (False, [], used)"
| "ir_params_to_pi env options d used ((name, v) # ps) =
     (if name \<in> used then (True, snd (ir_params_to_pi env options d used ps))
      else let (bad, rest, used') = ir_params_to_pi env options d (insert name used) ps
      in case map_of (iad_params_by_name d) name of
           None \<Rightarrow> (True, rest, used')
         | Some pd \<Rightarrow>
             (case ir_value_to_bytes env options (ipd_format pd) (ipd_bitwidth pd) v of
                Inl _ \<Rightarrow> (True, rest, used')
              | Inr b \<Rightarrow> (bad, (ipd_id pd, canonical_unless_string (ipd_format pd) b) # rest, used')))"

definition IrActionInvocationToPi ::
  "text_env \<Rightarrow> ir_p4info \<Rightarrow> translation_options \<Rightarrow> ir_action_invocation \<Rightarrow> ir_action_definition list \<Rightarrow> pi_action status_or" where
  "IrActionInvocationToPi env info options a valid_actions =
     (case actions_by_name info (ira_name a) of
        None \<Rightarrow> Inl INVALID_ARGUMENT
      | Some d \<Rightarrow>
          require (list_ex (\<lambda>v. iad_alias v = ira_name a) valid_actions)
            (let (bad, params, used) = ir_params_to_pi env options d {} (ira_params a)
             in unless_invalid
                  (iad_is_unsupported d \<and> \<not> allow_unsupported options \<or> bad \<or> \<not> CheckParams used d)
                  (Inr \<lparr>pi_action_id = iad_id d, pi_params = params\<rparr>)))"

fun IrActionSetToPi ::
  "text_env \<Rightarrow> ir_p4info \<Rightarrow> translation_options \<Rightarrow> ir_action_set_invocation list \<Rightarrow> ir_action_definition list \<Rightarrow>
   pi_action_profile_action list status_or" where
  "IrActionSetToPi env info options [] valid_actions = Inr []"
| "IrActionSetToPi env info options (a # as) valid_actions =
     bind_or (IrActionInvocationToPi env info options (iras_action a) valid_actions) (\<lambda>action.
     require (iras_weight a \<ge> 1)
       (bind_or (IrActionSetToPi env info options as valid_actions) (\<lambda>rest.
        Inr (\<lparr>apa_action = action, apa_weight = iras_weight a, apa_watch_port = iras_watch_port a\<rparr> # rest))))"

fun ir_matches_to_pi ::
  "text_env \<Rightarrow> translation_options \<Rightarrow> ir_table_definition \<Rightarrow> string set \<Rightarrow> ir_match list \<Rightarrow>
   bool \<times> field_match list \<times> string set" where
  "ir_matches_to_pi env options table used [] = (False, [], {})"
| "ir_matches_to_pi env options table used (m # ms) =
     (if irm_name m \<in> used then (True, snd (ir_matches_to_pi env options table used ms))
      else let (bad, matches, mandatory) = ir_matches_to_pi env options table (insert (irm_name m) used) ms
      in case map_of (itd_match_fields_by_name table) (irm_name m) of
           None \<Rightarrow> (True, matches, mandatory)
         | Some d \<Rightarrow>
             (case IrMatchFieldToPi env options d m of
                Inl _ \<Rightarrow> (True, matches, mandatory)
              | Inr x \<Rightarrow> (bad, x # matches, if mfd_match_type d = EXACT then insert (mfd_name d) mandatory else mandatory)))"

definition ir_table_action_to_pi ::
  "text_env \<Rightarrow> ir_p4info \<Rightarrow> translation_options \<Rightarrow> ir_table_definition \<Rightarrow> ir_table_action \<Rightarrow> pi_table_action status_or" where
  "ir_table_action_to_pi env info options table action =
     (case action of
        IrAction a \<Rightarrow>
          require (\<not> itd_uses_oneshot table \<and> itd_entry_actions table \<noteq> [])
            (bind_or (IrActionInvocationToPi env info options a (itd_entry_actions table)) (\<lambda>x. Inr (PiAction x)))
      | IrActionSet as \<Rightarrow>
          require (itd_uses_oneshot table \<and> itd_entry_actions table \<noteq> [])
            (bind_or (IrActionSetToPi env info options as (itd_entry_actions table)) (\<lambda>x. Inr (PiActionProfileActionSet x)))
      | IrActionNotSet \<Rightarrow> require (itd_entry_actions table = []) (Inr PiTableActionNotSet))"

definition IrTableEntryToPi ::
  "text_env \<Rightarrow> ir_p4info \<Rightarrow> ir_table_entry \<Rightarrow> translation_options \<Rightarrow> pi_table_entry status_or" where
  "IrTableEntryToPi env info ir options =
     (case tables_by_name info (ite_table_name ir) of
        None \<Rightarrow> Inl INVALID_ARGUMENT
      | Some table \<Rightarrow>
          (let (bad, matches, mandatory) = ir_matches_to_pi env options table {} (ite_matches ir);
               key = default_table_entry\<lparr>pte_table_id := itd_id table, pte_match := matches,
                       pte_priority := ite_priority ir\<rparr>
           in unless_invalid
                (itd_is_unsupported table \<and> \<not> allow_unsupported options \<or> bad \<or>
                 \<not> CheckMandatoryMatches mandatory table \<or> \<not> priority_valid table (ite_priority ir))
                (if key_only options then Inr key
                 else require (meters_valid table (ite_meter_config ir) (ite_meter_counter_data ir) (ite_counter_data ir))
                   (bind_or (ir_table_action_to_pi env info options table (ite_action ir)) (\<lambda>action.
                    Inr (key\<lparr>pte_metadata := ite_controller_metadata ir, pte_action := action,
                      pte_meter_config := ite_meter_config ir, pte_meter_counter_data := ite_meter_counter_data ir,
                      pte_counter_data := ite_counter_data ir\<rparr>))))))"

definition IrReplicaToPi :: "ir_replica \<Rightarrow> pi_replica status_or" where
  "IrReplicaToPi ir =
     Inr \<lparr>pr_port_kind = Port (irr_port ir), pr_instance = irr_instance ir,
       pr_backups = map (\<lambda>(p, i). \<lparr>pbr_port = p, pbr_instance = i\<rparr>) (irr_backups ir)\<rparr>"

definition IrPacketReplicationEngineEntryToPi ::
  "ir_packet_replication_engine_entry \<Rightarrow> translation_options \<Rightarrow> packet_replication_engine_entry status_or" where
  "IrPacketReplicationEngineEntryToPi ir options =
     (case ir of
        IrMulticastGroupEntry i replicas metadata \<Rightarrow>
          if key_only options then Inr (MulticastGroupEntry i [] [])
          else bind_or (map_or IrReplicaToPi replicas) (\<lambda>rs.
            require (replicas_valid {} replicas) (Inr (MulticastGroupEntry i rs metadata)))
      | IrCloneSessionEntry i replicas cos len \<Rightarrow>
          if key_only options then Inr (CloneSessionEntry i [] 0 0)
          else bind_or (map_or IrReplicaToPi replicas) (\<lambda>rs. Inr (CloneSessionEntry i rs cos len))
      | IrPreNotSet \<Rightarrow> Inl UNIMPLEMENTED)"

definition IrEntityToPi :: "text_env \<Rightarrow> ir_p4info \<Rightarrow> ir_entity \<Rightarrow> translation_options \<Rightarrow> pi_entity status_or" where
  "IrEntityToPi env info ir options =
     (case ir of
        IrTableEntry e \<Rightarrow> bind_or (IrTableEntryToPi env info e options) (\<lambda>x. Inr (TableEntry x))
      | IrPacketReplicationEngineEntry e \<Rightarrow>
          bind_or (IrPacketReplicationEngineEntryToPi e options) (\<lambda>x. Inr (PacketReplicationEngineEntry x))
      | IrEntityNotSet \<Rightarrow> Inl INVALID_ARGUMENT)"

section \<open>Byte-wise intersection\<close>

lemma unless_invalid_eq_Inr [simp]: "unless_invalid bad r = Inr x \<longleftrightarrow> \<not> bad \<and> r = Inr x"
  by (auto simp: unless_invalid_def split: sum.splits)

lemma require_eq_Inr [simp]: "require ok r = Inr x \<longleftrightarrow> ok \<and> r = Inr x"
  by (simp add: require_def)

lemma padded_bytes_Suc: "padded_bytes (Suc k) b [] = padded_bytes k (drop_bit 8 b) [] @ [SafeChar (b AND 0xFF)]"
  using padded_bytes_append [of k "drop_bit 8 b" "[SafeChar (b AND 0xFF)]"] by simp

lemma SafeChar_and:
  "char_of (of_char (SafeChar (a AND 0xFF)) AND of_char (SafeChar (b AND 0xFF)) :: nat) = SafeChar ((a AND b) AND 0xFF)"
proof -
  have "a mod 256 AND b mod 256 = (a AND b) mod (256 :: nat)"
    using take_bit_and [of 8 a b] by (simp add: take_bit_eq_mod)
  then show ?thesis
    using of_char_low_byte [of a] of_char_low_byte [of b] of_char_low_byte [of "a AND b"]
    by (metis char_of_char)
qed

lemma map2_padded_bytes:
  "map2 (\<lambda>a b. char_of (of_char a AND of_char b :: nat)) (padded_bytes k x []) (padded_bytes k y []) =
   padded_bytes k (x AND y) []"
proof (induction k arbitrary: x y)
  case (Suc k)
  then show ?case by (simp add: padded_bytes_Suc SafeChar_and drop_bit_and del: padded_bytes.simps(2))
qed simp

lemma Intersection_padded:
  "Intersection (BitsetToPaddedByteString n x) (BitsetToPaddedByteString n y) =
   Inr (BitsetToPaddedByteString n (x AND y))"
  using map2_padded_bytes [of "NumBitsToNumBytes n" x y] by (simp add: Intersection_def BitsetToPaddedByteString_def)

lemma padded_inj: "x < 2 ^ n \<Longrightarrow> y < 2 ^ n \<Longrightarrow> BitsetToPaddedByteString n x = BitsetToPaddedByteString n y \<longleftrightarrow> x = y"
  by (metis be_value_BitsetToPadded)

lemma and_less: "x < 2 ^ n \<Longrightarrow> x AND y < (2 :: nat) ^ n"
proof -
  assume "x < 2 ^ n"
  then have "x AND y = take_bit n (x AND y)"
    by (metis and.assoc take_bit_eq_mask take_bit_nat_eq_self and.commute)
  then show ?thesis by (metis take_bit_nat_less_exp)
qed

lemma padded_masked:
  "x < 2 ^ n \<Longrightarrow> BitsetToPaddedByteString n x = BitsetToPaddedByteString n (x AND y) \<longleftrightarrow> x = x AND y"
  "x < 2 ^ n \<Longrightarrow> BitsetToPaddedByteString n (x AND y) = BitsetToPaddedByteString n x \<longleftrightarrow> x AND y = x"
  by (simp_all add: padded_inj and_less)

lemma zero_bytes_iff: "all_zero_bytes s \<longleftrightarrow> be_value s = 0"
proof (induction s)
  case (Cons c s)
  then show ?case using of_char_zero [of c] by (auto simp: all_zero_bytes_def)
qed (simp add: all_zero_bytes_def)

lemma zero_padded: "x < 2 ^ n \<Longrightarrow> all_zero_bytes (BitsetToPaddedByteString n x) \<longleftrightarrow> x = 0"
  by (simp add: zero_bytes_iff be_value_BitsetToPadded)

section \<open>Values and match fields\<close>

lemma value_width_ge: "format_fits f w \<Longrightarrow> 2 ^ w \<le> (2 :: nat) ^ value_width f w"
  by (rule power_increasing) (auto simp: value_width_def format_fits_def)

lemma value_normal_form:
  assumes "inet_round_trip env" "format_fits f w" "ArbitraryByteStringToIrValue env f w s = Inr v"
  shows "ir_value_to_bytes env options f w v = Inr (normal_bytes f w s) \<and>
    ArbitraryByteStringToIrValue env f w (canonical_unless_string f (normal_bytes f w s)) = Inr v"
proof -
  note r = value_round_trip [OF assms, of "allow_arbitrary_format options"]
  have "ArbitraryByteStringToIrValue env f w (canonical_unless_string f (normal_bytes f w s)) = Inr v"
  proof (cases "f = STRING")
    case True
    with assms(3) show ?thesis by (simp add: canonical_unless_string_def normal_bytes_def)
  next
    case False
    then have lt: "be_value s < 2 ^ value_width f w" using r value_width_ge [OF assms(2)] less_le_trans by blast
    have "0 < value_width f w" using assms(2) False
      by (auto simp: value_width_def format_fits_def kNumBitsInIpv6_def kNumBitsInMac_def kNumBitsInIpv4_def split: ir_format.splits)
    then have "ArbitraryByteStringToIrValue env f w (canonical_unless_string f (normal_bytes f w s)) =
        ArbitraryByteStringToIrValue env f w s"
      using False r lt by (intro value_of_number)
        (simp_all add: canonical_unless_string_def normal_bytes_def padded_not_Nil be_value_BitsetToPadded)
    with assms(3) show ?thesis by simp
  qed
  with r show ?thesis by (simp add: ir_value_to_bytes_def require_def)
qed

text \<open>
  A match field definition as \<open>CreateIrP4Info\<close> builds it: the format fits the width, only exact
  and optional fields are strings, and an LPM field of IPv6 format has the full width.
\<close>

definition match_field_ok :: "ir_match_field_definition \<Rightarrow> bool" where
  "match_field_ok d \<longleftrightarrow>
     format_fits (mfd_format d) (mfd_bitwidth d) \<and> mfd_bitwidth d < 2 ^ 31 \<and>
     (mfd_match_type d \<in> {LPM, TERNARY} \<longrightarrow> mfd_format d \<noteq> STRING) \<and>
     (mfd_match_type d = LPM \<and> mfd_format d = IPV6 \<longrightarrow> mfd_bitwidth d = kNumBitsInIpv6)"

definition prefix_ok :: "field_match \<Rightarrow> bool" where
  "prefix_ok m = (case fm_type m of FmLpm _ p \<Rightarrow> 0 \<le> p | _ \<Rightarrow> True)"

lemma lpm_normal_form:
  assumes "inet_round_trip env" "format_fits f w" "w < 2 ^ 31" "f \<noteq> STRING" "f = IPV6 \<longrightarrow> w = kNumBitsInIpv6"
    "0 \<le> p" "pi_lpm_to_ir env f w s p = Inr x"
  shows "\<exists>v s'. x = IrLpm v p \<and> ir_lpm_to_pi env options f w v p = Inr (FmLpm s' p) \<and> pi_lpm_to_ir env f w s' p = Inr x"
proof -
  let ?n = "be_value s" and ?t = "BitsetToPaddedByteString w (be_value s)"
  from assms(7) obtain mask_bytes v where m: "PrefixLenToMask p w = Inr mask_bytes" "p \<noteq> 0"
    and s: "s \<noteq> []" "0 < w" "?n < 2 ^ w" "Intersection ?t mask_bytes = Inr ?t"
    and v: "ArbitraryByteStringToIrValue env f w ?t = Inr v" and x: "x = IrLpm v p"
    by (auto simp: pi_lpm_to_ir_def normalized_iff)
  have p: "p mod 2 ^ 32 = p" "p \<le> int w"
    using m(1) assms(3,6) by (auto simp: PrefixLenToMask_def split: if_splits intro!: mod_pos_pos_trivial)
  have "normal_bytes f w ?t = ?t"
    using assms(4,5) s by (simp add: normal_bytes_def value_width_def be_value_BitsetToPadded)
  with value_normal_form [OF assms(1,2) v, of options] assms(4)
  have conv: "ir_value_to_bytes env options f w v = Inr ?t"
    "ArbitraryByteStringToIrValue env f w (ArbitraryToCanonicalByteString ?t) = Inr v"
    by (simp_all add: canonical_unless_string_def)
  have norm: "ArbitraryToNormalizedByteString (ArbitraryToCanonicalByteString ?t) w = Inr ?t"
    using s by (simp add: normalized_iff be_value_BitsetToPadded padded_not_Nil)
  show ?thesis
    using m s p conv v norm x
    by (intro exI [of _ v] exI [of _ "ArbitraryToCanonicalByteString ?t"])
      (simp add: ir_lpm_to_pi_def pi_lpm_to_ir_def require_def Let_def)
qed

lemma ternary_normal_form:
  assumes "inet_round_trip env" "format_fits f w" "f \<noteq> STRING" "pi_ternary_to_ir env f w s m = Inr x"
  shows "\<exists>v vm s' m'. x = IrTernary v vm \<and> ir_ternary_to_pi env options f w v vm = Inr (FmTernary s' m') \<and>
    pi_ternary_to_ir env f w s' m' = Inr x"
proof -
  let ?n = "be_value s" and ?k = "be_value m"
  let ?t = "BitsetToPaddedByteString w ?n" and ?u = "BitsetToPaddedByteString w ?k"
  let ?W = "value_width f w"
  let ?T = "BitsetToPaddedByteString ?W ?n" and ?U = "BitsetToPaddedByteString ?W ?k"
  from assms(4) obtain v vm where s: "s \<noteq> []" "m \<noteq> []" "0 < w" "?n < 2 ^ w" "?k < 2 ^ w" "?k \<noteq> 0" "?n = ?n AND ?k"
    and v: "ArbitraryByteStringToIrValue env f w ?t = Inr v" "ArbitraryByteStringToIrValue env f w ?u = Inr vm"
    and x: "x = IrTernary v vm"
    by (auto simp: pi_ternary_to_ir_def normalized_iff Intersection_padded padded_masked zero_padded dest: sym)
  have lt: "?n < 2 ^ ?W" "?k < 2 ^ ?W" using s(4,5) value_width_ge [OF assms(2)] less_le_trans by blast+
  have norm: "normal_bytes f w ?t = ?T" "normal_bytes f w ?u = ?U"
    using assms(3) s by (simp_all add: normal_bytes_def be_value_BitsetToPadded)
  have pos: "0 < ?W" using s(3) by (auto simp: value_width_def kNumBitsInIpv6_def)
  from value_normal_form [OF assms(1,2) v(1), of options] value_normal_form [OF assms(1,2) v(2), of options] assms(3) norm
  have conv: "ir_value_to_bytes env options f w v = Inr ?T" "ir_value_to_bytes env options f w vm = Inr ?U"
    by simp_all
  have n': "ArbitraryToNormalizedByteString (ArbitraryToCanonicalByteString ?T) w = Inr ?t"
    "ArbitraryToNormalizedByteString (ArbitraryToCanonicalByteString ?U) w = Inr ?u"
    using s lt pos by (simp_all add: normalized_iff be_value_BitsetToPadded padded_not_Nil)
  have "ir_ternary_to_pi env options f w v vm =
      Inr (FmTernary (ArbitraryToCanonicalByteString ?T) (ArbitraryToCanonicalByteString ?U))"
    using s(6,7) lt conv by (simp add: ir_ternary_to_pi_def require_def Intersection_padded zero_padded)
  moreover have "pi_ternary_to_ir env f w (ArbitraryToCanonicalByteString ?T) (ArbitraryToCanonicalByteString ?U) = Inr x"
    using s(4-7) v x n' by (simp add: pi_ternary_to_ir_def require_def Intersection_padded zero_padded)
  ultimately show ?thesis using x by blast
qed

lemma match_normal_form:
  assumes "inet_round_trip env" "match_field_ok d" "prefix_ok m" "PiMatchFieldToIr env options d m = Inr x"
  shows "irm_name x = mfd_name d \<and> (\<exists>m'. IrMatchFieldToPi env options d x = Inr m' \<and> fm_field_id m' = mfd_id d \<and>
    PiMatchFieldToIr env options d m' = Inr x)"
proof -
  let ?f = "mfd_format d" and ?w = "mfd_bitwidth d"
  have ok: "format_fits ?f ?w" using assms(2) by (simp add: match_field_ok_def)
  note val = value_normal_form [OF assms(1) ok]
  consider (exact) s v where "mfd_match_type d = EXACT" "fm_type m = FmExact s"
      "ArbitraryByteStringToIrValue env ?f ?w s = Inr v" "x = \<lparr>irm_name = mfd_name d, irm_value = IrExact v\<rparr>"
    | (optional) s v where "mfd_match_type d = OPTIONAL" "fm_type m = FmOptional s"
      "ArbitraryByteStringToIrValue env ?f ?w s = Inr v" "x = \<lparr>irm_name = mfd_name d, irm_value = IrOptional v\<rparr>"
    | (lpm) s p v where "mfd_match_type d = LPM" "fm_type m = FmLpm s p"
      "pi_lpm_to_ir env ?f ?w s p = Inr v" "x = \<lparr>irm_name = mfd_name d, irm_value = v\<rparr>"
    | (ternary) s k v where "mfd_match_type d = TERNARY" "fm_type m = FmTernary s k"
      "pi_ternary_to_ir env ?f ?w s k = Inr v" "x = \<lparr>irm_name = mfd_name d, irm_value = v\<rparr>"
    using assms(4) by (auto simp: PiMatchFieldToIr_def split: match_type.splits field_match_type.splits)
  moreover have "\<not> (mfd_is_unsupported d \<and> \<not> allow_unsupported options)"
    using assms(4) by (simp add: PiMatchFieldToIr_def)
  ultimately show ?thesis
  proof cases
    case exact
    with val [OF exact(3), of options] assms(4) show ?thesis
      by (simp add: IrMatchFieldToPi_def PiMatchFieldToIr_def Let_def)
  next
    case optional
    with val [OF optional(3), of options] assms(4) show ?thesis
      by (simp add: IrMatchFieldToPi_def PiMatchFieldToIr_def Let_def)
  next
    case lpm
    from lpm assms(2,3) obtain v' s' where l: "v = IrLpm v' p" "ir_lpm_to_pi env options ?f ?w v' p = Inr (FmLpm s' p)"
        "pi_lpm_to_ir env ?f ?w s' p = Inr v"
      using lpm_normal_form [OF assms(1) ok _ _ _ _ lpm(3), of options]
      by (auto simp: match_field_ok_def prefix_ok_def)
    with lpm assms(4) show ?thesis
      by (simp add: IrMatchFieldToPi_def PiMatchFieldToIr_def Let_def)
  next
    case ternary
    from ternary assms(2) obtain v' vm s' m' where l: "v = IrTernary v' vm"
        "ir_ternary_to_pi env options ?f ?w v' vm = Inr (FmTernary s' m')" "pi_ternary_to_ir env ?f ?w s' m' = Inr v"
      using ternary_normal_form [OF assms(1) ok _ ternary(3), of options]
      by (auto simp: match_field_ok_def)
    with ternary assms(4) show ?thesis
      by (simp add: IrMatchFieldToPi_def PiMatchFieldToIr_def Let_def)
  qed
qed

section \<open>Normal forms of entries\<close>

text \<open>
  The program information as \<open>CreateIrP4Info\<close> builds it: the maps by ID and by name hold the same
  definitions, and the definitions a table lists are those of the program.
\<close>

definition param_def_ok :: "ir_action_definition \<Rightarrow> bool" where
  "param_def_ok d \<longleftrightarrow>
     (\<forall>i p. map_of (iad_params_by_id d) i = Some p \<longrightarrow>
        ipd_id p = i \<and> map_of (iad_params_by_name d) (ipd_name p) = Some p \<and> format_fits (ipd_format p) (ipd_bitwidth p))"

definition table_def_ok :: "ir_table_definition \<Rightarrow> bool" where
  "table_def_ok t \<longleftrightarrow>
     (\<forall>i d. map_of (itd_match_fields_by_id t) i = Some d \<longrightarrow>
        mfd_id d = i \<and> map_of (itd_match_fields_by_name t) (mfd_name d) = Some d \<and> match_field_ok d)"

definition p4info_ok :: "ir_p4info \<Rightarrow> bool" where
  "p4info_ok info \<longleftrightarrow>
     (\<forall>i t. tables_by_id info i = Some t \<longrightarrow>
        itd_id t = i \<and> tables_by_name info (itd_alias t) = Some t \<and> table_def_ok t \<and>
        (\<forall>a \<in> set (itd_entry_actions t). actions_by_id info (iad_id a) = Some a)) \<and>
     (\<forall>i a. actions_by_id info i = Some a \<longrightarrow>
        iad_id a = i \<and> actions_by_name info (iad_alias a) = Some a \<and> param_def_ok a)"

lemma matches_normal_form:
  assumes "inet_round_trip env" "table_def_ok t"
  shows "pi_matches_to_ir env options t used ms = (False, xs, mandatory) \<Longrightarrow> list_all prefix_ok ms \<Longrightarrow>
    (\<And>i d. map_of (itd_match_fields_by_id t) i = Some d \<Longrightarrow> mfd_name d \<in> names \<Longrightarrow> i \<in> used) \<Longrightarrow>
    \<exists>ms'. ir_matches_to_pi env options t names xs = (False, ms', mandatory) \<and>
      pi_matches_to_ir env options t used ms' = (False, xs, mandatory)"
proof (induction ms arbitrary: used names xs mandatory)
  case (Cons m ms)
  obtain bad rest mand where r: "pi_matches_to_ir env options t (insert (fm_field_id m) used) ms = (bad, rest, mand)"
    by (metis prod_cases3)
  with Cons.prems(1) obtain d x where fresh: "fm_field_id m \<notin> used" and ok: "\<not> bad"
    and d: "map_of (itd_match_fields_by_id t) (fm_field_id m) = Some d"
    and x: "PiMatchFieldToIr env options d m = Inr x" "xs = x # rest"
    and mand: "mandatory = (if mfd_match_type d = EXACT then insert (mfd_name d) mand else mand)"
    by (auto split: if_splits option.splits sum.splits)
  have t: "mfd_id d = fm_field_id m" "map_of (itd_match_fields_by_name t) (mfd_name d) = Some d" "match_field_ok d"
    using assms(2) d unfolding table_def_ok_def by blast+
  obtain m' where m': "irm_name x = mfd_name d" "IrMatchFieldToPi env options d x = Inr m'" "fm_field_id m' = fm_field_id m"
    "PiMatchFieldToIr env options d m' = Inr x"
    using match_normal_form [OF assms(1) t(3) _ x(1)] Cons.prems(2) t(1) by auto
  have "i \<in> insert (fm_field_id m) used" if "map_of (itd_match_fields_by_id t) i = Some e"
    "mfd_name e \<in> insert (mfd_name d) names" for i e
  proof (cases "mfd_name e = mfd_name d")
    case True
    have "mfd_id e = i" "map_of (itd_match_fields_by_name t) (mfd_name e) = Some e"
      using assms(2) that(1) unfolding table_def_ok_def by blast+
    with True t(1,2) show ?thesis by simp
  qed (use that Cons.prems(3) in auto)
  with Cons.IH [of "insert (fm_field_id m) used" rest mand "insert (mfd_name d) names"] r ok Cons.prems(2)
  obtain ms' where "ir_matches_to_pi env options t (insert (mfd_name d) names) rest = (False, ms', mand)"
    "pi_matches_to_ir env options t (insert (fm_field_id m) used) ms' = (False, rest, mand)"
    by auto
  moreover have "mfd_name d \<notin> names" using Cons.prems(3) [OF d] fresh by blast
  ultimately show ?case
    using m' d t fresh x(2) mand by (intro exI [of _ "m' # ms'"]) simp
qed simp

lemma params_normal_form:
  assumes "inet_round_trip env" "param_def_ok d"
  shows "pi_params_to_ir env d used ps = (False, xs) \<Longrightarrow>
    (\<And>i p. map_of (iad_params_by_id d) i = Some p \<Longrightarrow> ipd_name p \<in> names \<Longrightarrow> i \<in> used) \<Longrightarrow>
    \<exists>ps'. ir_params_to_pi env options d names xs = (False, ps', names \<union> set (map fst xs)) \<and>
      pi_params_to_ir env d used ps' = (False, xs)"
proof (induction ps arbitrary: used names xs)
  case (Cons param ps)
  obtain i v where param: "param = (i, v)" by (cases param)
  obtain bad rest where r: "pi_params_to_ir env d (insert i used) ps = (bad, rest)" by (metis prod.exhaust)
  with Cons.prems(1) obtain p x where fresh: "i \<notin> used" and ok: "\<not> bad"
    and p: "map_of (iad_params_by_id d) i = Some p"
    and x: "ArbitraryByteStringToIrValue env (ipd_format p) (ipd_bitwidth p) v = Inr x" "xs = (ipd_name p, x) # rest"
    by (auto simp: param split: if_splits option.splits sum.splits)
  have t: "ipd_id p = i" "map_of (iad_params_by_name d) (ipd_name p) = Some p" "format_fits (ipd_format p) (ipd_bitwidth p)"
    using assms(2) p unfolding param_def_ok_def by blast+
  have "j \<in> insert i used" if "map_of (iad_params_by_id d) j = Some q" "ipd_name q \<in> insert (ipd_name p) names" for j q
  proof (cases "ipd_name q = ipd_name p")
    case True
    have "ipd_id q = j" "map_of (iad_params_by_name d) (ipd_name q) = Some q"
      using assms(2) that(1) unfolding param_def_ok_def by blast+
    with True t(1,2) show ?thesis by simp
  qed (use that Cons.prems(2) in auto)
  with Cons.IH [of "insert i used" rest "insert (ipd_name p) names"] r ok
  obtain ps' where "ir_params_to_pi env options d (insert (ipd_name p) names) rest =
      (False, ps', insert (ipd_name p) names \<union> set (map fst rest))"
    "pi_params_to_ir env d (insert i used) ps' = (False, rest)"
    by auto
  moreover have "ipd_name p \<notin> names" using Cons.prems(2) [OF p] fresh by blast
  moreover note value_normal_form [OF assms(1) t(3) x(1), of options]
  ultimately show ?case
    using p t fresh x(2)
    by (intro exI [of _ "(i, canonical_unless_string (ipd_format p) (normal_bytes (ipd_format p) (ipd_bitwidth p) v)) # ps'"])
      simp
qed simp

lemma action_normal_form:
  assumes "inet_round_trip env" "p4info_ok info" "tables_by_id info i = Some t"
    "PiActionToIr env info options a (itd_entry_actions t) = Inr x"
  shows "\<exists>a'. IrActionInvocationToPi env info options x (itd_entry_actions t) = Inr a' \<and>
    PiActionToIr env info options a' (itd_entry_actions t) = Inr x"
proof -
  obtain d where d: "actions_by_id info (pi_action_id a) = Some d"
    using assms(4) by (auto simp: PiActionToIr_def split: option.splits)
  obtain bad params where r: "pi_params_to_ir env d {} (pi_params a) = (bad, params)" by (metis prod.exhaust)
  have x: "\<not> bad" "CheckParams (set (map fst params)) d" "\<not> (iad_is_unsupported d \<and> \<not> allow_unsupported options)"
    "x = \<lparr>ira_name = iad_alias d, ira_params = params\<rparr>" "list_ex (\<lambda>v. iad_id v = pi_action_id a) (itd_entry_actions t)"
    using assms(4) d r by (auto simp: PiActionToIr_def)
  have ok: "iad_id d = pi_action_id a" "actions_by_name info (iad_alias d) = Some d" "param_def_ok d"
    using assms(2) d unfolding p4info_ok_def by blast+
  have "list_ex (\<lambda>v. iad_alias v = iad_alias d) (itd_entry_actions t)"
    using x(5) assms(2,3) d ok(1) unfolding p4info_ok_def list_ex_iff by (metis option.inject)
  moreover obtain ps where "ir_params_to_pi env options d {} params = (False, ps, set (map fst params))"
    "pi_params_to_ir env d {} ps = (False, params)"
    using params_normal_form [OF assms(1) ok(3), of "{}" "pi_params a" params "{}" options] r x(1) by auto
  ultimately show ?thesis
    using d ok x by (intro exI [of _ "\<lparr>pi_action_id = pi_action_id a, pi_params = ps\<rparr>"])
      (simp add: IrActionInvocationToPi_def PiActionToIr_def require_def)
qed

lemma action_set_normal_form:
  assumes "inet_round_trip env" "p4info_ok info" "tables_by_id info i = Some t"
  shows "PiActionSetToIr env info options as (itd_entry_actions t) = Inr xs \<Longrightarrow>
    \<exists>as'. IrActionSetToPi env info options xs (itd_entry_actions t) = Inr as' \<and>
      PiActionSetToIr env info options as' (itd_entry_actions t) = Inr xs"
proof (induction as arbitrary: xs)
  case (Cons a as)
  then obtain action rest where a: "PiActionToIr env info options (apa_action a) (itd_entry_actions t) = Inr action"
    "apa_weight a \<ge> 1" "PiActionSetToIr env info options as (itd_entry_actions t) = Inr rest"
    "xs = \<lparr>iras_action = action, iras_weight = apa_weight a, iras_watch_port = apa_watch_port a\<rparr> # rest"
    by auto
  obtain a' where "IrActionInvocationToPi env info options action (itd_entry_actions t) = Inr a'"
    "PiActionToIr env info options a' (itd_entry_actions t) = Inr action"
    using action_normal_form [OF assms a(1)] by blast
  moreover obtain as' where "IrActionSetToPi env info options rest (itd_entry_actions t) = Inr as'"
    "PiActionSetToIr env info options as' (itd_entry_actions t) = Inr rest"
    using Cons.IH [OF a(3)] by blast
  ultimately show ?case
    using a by (intro exI [of _ "\<lparr>apa_action = a', apa_weight = apa_weight a, apa_watch_port = apa_watch_port a\<rparr> # as'"]) simp
qed simp

lemma table_action_normal_form:
  assumes "inet_round_trip env" "p4info_ok info" "tables_by_id info i = Some t"
    "pi_table_action_to_ir env info options t a = Inr x"
  shows "\<exists>a'. ir_table_action_to_pi env info options t x = Inr a' \<and> pi_table_action_to_ir env info options t a' = Inr x"
proof (cases "itd_entry_actions t = []")
  case True
  with assms(4) show ?thesis by (auto simp: pi_table_action_to_ir_def ir_table_action_to_pi_def split: if_splits)
next
  case False
  from assms(4) False consider
      (action) b y where "a = PiAction b" "\<not> itd_uses_oneshot t" "x = IrAction y"
        "PiActionToIr env info options b (itd_entry_actions t) = Inr y"
    | (action_set) bs ys where "a = PiActionProfileActionSet bs" "itd_uses_oneshot t" "x = IrActionSet ys"
        "PiActionSetToIr env info options bs (itd_entry_actions t) = Inr ys"
    by (auto simp: pi_table_action_to_ir_def split: pi_table_action.splits)
  then show ?thesis
  proof cases
    case action
    with action_normal_form [OF assms(1-3) action(4)] False show ?thesis
      by (auto simp: pi_table_action_to_ir_def ir_table_action_to_pi_def)
  next
    case action_set
    with action_set_normal_form [OF assms(1-3) action_set(4)] False show ?thesis
      by (auto simp: pi_table_action_to_ir_def ir_table_action_to_pi_def)
  qed
qed

lemma table_entry_normal_form:
  assumes "inet_round_trip env" "p4info_ok info" "list_all prefix_ok (pte_match pi)"
    "PiTableEntryToIr env info pi options = Inr ir"
  shows "\<exists>pi'. IrTableEntryToPi env info ir options = Inr pi' \<and> PiTableEntryToIr env info pi' options = Inr ir"
proof -
  obtain t where t: "tables_by_id info (pte_table_id pi) = Some t"
    using assms(4) by (auto simp: PiTableEntryToIr_def split: option.splits)
  obtain bad xs mand where m: "pi_matches_to_ir env options t {} (pte_match pi) = (bad, xs, mand)" by (metis prod_cases3)
  have ok: "itd_id t = pte_table_id pi" "tables_by_name info (itd_alias t) = Some t" "table_def_ok t"
    using assms(2) t unfolding p4info_ok_def by blast+
  have ir: "ite_table_name ir = itd_alias t" "ite_matches ir = xs" "ite_priority ir = pte_priority pi" "\<not> bad"
    "\<not> (itd_is_unsupported t \<and> \<not> allow_unsupported options)" "CheckMandatoryMatches mand t"
    "priority_valid t (pte_priority pi)"
    using assms(4) t m by (auto simp: PiTableEntryToIr_def Let_def split: if_splits)
  obtain ms where ms: "ir_matches_to_pi env options t {} xs = (False, ms, mand)"
    "pi_matches_to_ir env options t {} ms = (False, xs, mand)"
    using matches_normal_form [OF assms(1) ok(3), of options "{}" "pte_match pi" xs mand "{}"] m ir(4) assms(3) by auto
  show ?thesis
  proof (cases "key_only options")
    case True
    with assms(4) t m ok ir ms show ?thesis
      by (intro exI [of _ "default_table_entry\<lparr>pte_table_id := pte_table_id pi, pte_match := ms,
            pte_priority := pte_priority pi\<rparr>"])
        (simp add: IrTableEntryToPi_def PiTableEntryToIr_def default_table_entry_def Let_def)
  next
    case False
    with assms(4) t m obtain x where
        x: "pi_table_action_to_ir env info options t (pte_action pi) = Inr x"
        "meters_valid t (pte_meter_config pi) (pte_meter_counter_data pi) (pte_counter_data pi)"
        "ir = \<lparr>ite_table_name = itd_alias t, ite_matches = xs, ite_priority = pte_priority pi, ite_action = x,
           ite_controller_metadata = pte_metadata pi, ite_meter_config = pte_meter_config pi,
           ite_counter_data = pte_counter_data pi, ite_meter_counter_data = pte_meter_counter_data pi\<rparr>"
      by (auto simp: PiTableEntryToIr_def default_ir_table_entry_def Let_def)
    obtain a where "ir_table_action_to_pi env info options t x = Inr a" "pi_table_action_to_ir env info options t a = Inr x"
      using table_action_normal_form [OF assms(1,2) t x(1)] by blast
    with False t m ok ir x ms show ?thesis
      by (intro exI [of _ "\<lparr>pte_table_id = pte_table_id pi, pte_match = ms, pte_action = a,
            pte_priority = pte_priority pi, pte_metadata = pte_metadata pi, pte_is_default_action = False,
            pte_meter_config = pte_meter_config pi, pte_counter_data = pte_counter_data pi,
            pte_meter_counter_data = pte_meter_counter_data pi\<rparr>"])
        (simp add: IrTableEntryToPi_def PiTableEntryToIr_def default_table_entry_def default_ir_table_entry_def require_def Let_def)
  qed
qed

lemma replica_normal_form: "\<exists>pi. IrReplicaToPi ir = Inr pi \<and> PiReplicaToIr pi = Inr ir"
  by (simp add: IrReplicaToPi_def PiReplicaToIr_def o_def split_def)

lemma replicas_normal_form: "\<exists>pis. map_or IrReplicaToPi irs = Inr pis \<and> map_or PiReplicaToIr pis = Inr irs"
proof (induction irs)
  case (Cons ir irs)
  then obtain pis pi where "map_or IrReplicaToPi irs = Inr pis" "map_or PiReplicaToIr pis = Inr irs"
    "IrReplicaToPi ir = Inr pi" "PiReplicaToIr pi = Inr ir"
    using replica_normal_form [of ir] by blast
  then show ?case by (intro exI [of _ "pi # pis"]) simp
qed simp

definition replication_metadata :: "pi_entity \<Rightarrow> string" where
  "replication_metadata e = (case e of PacketReplicationEngineEntry (MulticastGroupEntry _ _ md) \<Rightarrow> md | _ \<Rightarrow> [])"

definition prefixes_ok :: "pi_entity \<Rightarrow> bool" where
  "prefixes_ok e = list_all prefix_ok (pte_match (pi_table_entry_of e))"

lemma replication_entry_normal_form:
  assumes "PiPacketReplicationEngineEntryToIr pi options = Inr ir"
  shows "\<exists>pi'. IrPacketReplicationEngineEntryToPi ir options = Inr pi' \<and>
    (PiPacketReplicationEngineEntryToIr pi' options = Inr ir \<or>
     key_only options \<and> replication_metadata (PacketReplicationEngineEntry pi) \<noteq> [])"
proof (cases "key_only options")
  case True
  with assms show ?thesis
    by (cases pi) (auto simp: PiPacketReplicationEngineEntryToIr_def IrPacketReplicationEngineEntryToPi_def replication_metadata_def)
next
  case False
  from assms False obtain rs where
    "(\<exists>i md. ir = IrMulticastGroupEntry i rs md \<and> replicas_valid {} rs) \<or> (\<exists>i cos len. ir = IrCloneSessionEntry i rs cos len)"
    by (cases pi) (auto simp: PiPacketReplicationEngineEntryToIr_def)
  moreover obtain pis where "map_or IrReplicaToPi rs = Inr pis" "map_or PiReplicaToIr pis = Inr rs"
    using replicas_normal_form [of rs] by blast
  ultimately show ?thesis
    using False by (auto simp: PiPacketReplicationEngineEntryToIr_def IrPacketReplicationEngineEntryToPi_def require_def)
qed

lemma entity_normal_form:
  assumes "inet_round_trip env" "p4info_ok info" "prefixes_ok pi" "PiEntityToIr env info pi options = Inr ir"
  shows "\<exists>pi'. IrEntityToPi env info ir options = Inr pi' \<and>
    (PiEntityToIr env info pi' options = Inr ir \<or> key_only options \<and> replication_metadata pi \<noteq> [])"
proof (cases pi)
  case (TableEntry e)
  with assms(4) obtain x where x: "PiTableEntryToIr env info e options = Inr x" "ir = IrTableEntry x"
    by (auto simp: PiEntityToIr_def)
  have "list_all prefix_ok (pte_match e)" using assms(3) TableEntry by (simp add: prefixes_ok_def pi_table_entry_of_def)
  from table_entry_normal_form [OF assms(1,2) this x(1)] x show ?thesis
    by (auto simp: PiEntityToIr_def IrEntityToPi_def)
next
  case (PacketReplicationEngineEntry e)
  with assms(4) obtain x where "PiPacketReplicationEngineEntryToIr e options = Inr x" "ir = IrPacketReplicationEngineEntry x"
    by (auto simp: PiEntityToIr_def)
  with replication_entry_normal_form [of e options x] PacketReplicationEngineEntry show ?thesis
    by (auto simp: PiEntityToIr_def IrEntityToPi_def)
qed (use assms(4) in \<open>auto simp: PiEntityToIr_def\<close>)

section \<open>A concrete program\<close>

text \<open>A routing table: a VRF name and an IPv4 prefix select a next hop.\<close>

definition example_vrf_field :: ir_match_field_definition where
  "example_vrf_field = \<lparr>mfd_id = 1, mfd_name = ''vrf_id'', mfd_annotations = [], mfd_bitwidth = 0,
     mfd_match_type = EXACT, mfd_type_name = ''vrf_id_t'', mfd_format = STRING, mfd_is_unsupported = False, mfd_references = []\<rparr>"

definition example_dst_field :: ir_match_field_definition where
  "example_dst_field = \<lparr>mfd_id = 2, mfd_name = ''ipv4_dst'', mfd_annotations = [], mfd_bitwidth = 32,
     mfd_match_type = LPM, mfd_type_name = [], mfd_format = IPV4, mfd_is_unsupported = False, mfd_references = []\<rparr>"

definition example_nexthop_param :: ir_param_definition where
  "example_nexthop_param = \<lparr>ipd_id = 1, ipd_name = ''nexthop_id'', ipd_annotations = [], ipd_bitwidth = 0,
     ipd_type_name = ''nexthop_id_t'', ipd_format = STRING, ipd_references = []\<rparr>"

definition example_set_nexthop :: ir_action_definition where
  "example_set_nexthop = \<lparr>iad_id = 5, iad_name = ''set_nexthop_id'', iad_alias = ''set_nexthop_id'', iad_annotations = [],
     iad_params_by_id = [(1, example_nexthop_param)], iad_params_by_name = [(''nexthop_id'', example_nexthop_param)],
     iad_is_unsupported = False\<rparr>"

definition example_route_table :: ir_table_definition where
  "example_route_table = \<lparr>itd_alias = ''ipv4_table'', itd_id = 7, itd_annotations = [],
     itd_match_fields_by_id = [(1, example_vrf_field), (2, example_dst_field)],
     itd_match_fields_by_name = [(''vrf_id'', example_vrf_field), (''ipv4_dst'', example_dst_field)],
     itd_entry_actions = [example_set_nexthop], itd_default_only_actions = [],
      itd_const_default_action = None, itd_size = 0, itd_uses_oneshot = False, itd_action_profile_id = None,
     itd_requires_priority = False, itd_has_meter = False, itd_meter_unit = UNIT_UNSPECIFIED,
      itd_has_counter = False, itd_counter_unit = UNIT_UNSPECIFIED,
     itd_role = ''sdn_controller'', itd_is_unsupported = False,
        itd_outgoing_references = [], itd_incoming_references = []\<rparr>"

definition example_route_info :: ir_p4info where
  "example_route_info =
     \<lparr>tables_by_id_entries = [(7, example_route_table)], tables_by_name_entries = [(''ipv4_table'', example_route_table)],
      actions_by_id_entries = [(5, example_set_nexthop)], actions_by_name_entries = [(''set_nexthop_id'', example_set_nexthop)],
      action_profiles_by_id_entries = [], action_profiles_by_name_entries = [],
      packet_in_metadata_by_id = [], packet_in_metadata_by_name = [],
      packet_out_metadata_by_id = [], packet_out_metadata_by_name = [],
      references = [], built_in_tables_entries = [], dependency_rank_by_table_name_entries = []\<rparr>"

text \<open>A route as a controller may send it, with bytes that are not in canonical form.\<close>

definition example_route :: "string \<Rightarrow> int \<Rightarrow> pi_entity" where
  "example_route dst prefix_len = TableEntry (default_table_entry\<lparr>pte_table_id := 7,
     pte_match := [\<lparr>fm_field_id = 2, fm_type = FmLpm dst prefix_len\<rparr>, \<lparr>fm_field_id = 1, fm_type = FmExact ''vrf-1''\<rparr>],
     pte_action := PiAction \<lparr>pi_action_id = 5, pi_params = [(1, ''nexthop-1'')]\<rparr>\<rparr>)"

definition example_ir_route :: "ipv4_address \<Rightarrow> int \<Rightarrow> ir_entity" where
  "example_ir_route dst prefix_len = IrTableEntry (default_ir_table_entry\<lparr>ite_table_name := ''ipv4_table'',
     ite_matches := [\<lparr>irm_name = ''ipv4_dst'', irm_value = IrLpm (Ipv4 (Ipv4_ToString dst)) prefix_len\<rparr>,
       \<lparr>irm_name = ''vrf_id'', irm_value = IrExact (Str ''vrf-1'')\<rparr>],
     ite_action := IrAction \<lparr>ira_name = ''set_nexthop_id'', ira_params = [(''nexthop_id'', Str ''nexthop-1'')]\<rparr>\<rparr>)"

lemmas example_route_defs =
  example_vrf_field_def example_dst_field_def example_nexthop_param_def example_set_nexthop_def
  example_route_table_def example_route_info_def lookup_defs

lemma example_route_info_ok: "p4info_ok example_route_info"
  by (auto simp: p4info_ok_def table_def_ok_def param_def_ok_def match_field_ok_def format_fits_def
      kNumBitsInIpv4_def example_route_defs split: if_splits)

lemma mask_of_prefix:
  assumes "w mod 8 = 0" "p \<le> int w"
  shows "PrefixLenToMask p w = Inr (BitsetToPaddedByteString w (2 ^ w - 2 ^ (w - nat (max 0 p))))"
proof -
  obtain n where w: "w = 8 * n" using assms(1) by (metis dvd_def dvd_eq_mod_eq_0)
  have "mask_bytes n p = BitsetToPaddedByteString w (2 ^ w - 2 ^ (w - nat (max 0 p)))"
  proof (rule be_value_inj)
    show "length (mask_bytes n p) = length (BitsetToPaddedByteString w (2 ^ w - 2 ^ (w - nat (max 0 p))))"
      using w by (simp add: NumBitsToNumBytes_def)
    have "(2 :: nat) ^ w - 2 ^ (w - nat (max 0 p)) < 2 ^ w" by simp
    then show "be_value (mask_bytes n p) = be_value (BitsetToPaddedByteString w (2 ^ w - 2 ^ (w - nat (max 0 p))))"
      using assms(2) w by (simp add: mask_bytes_value be_value_BitsetToPadded exp_bytes)
  qed
  with assms w show ?thesis by (simp add: PrefixLenToMask_def)
qed

lemma ipv4_lpm_translates:
  assumes "s \<noteq> []" "be_value s < 2 ^ 32" "p \<noteq> 0" "p \<le> 32"
    "be_value s AND (2 ^ 32 - 2 ^ (32 - nat (max 0 p))) = be_value s"
  shows "pi_lpm_to_ir env IPV4 32 s p = Inr (IrLpm (Ipv4 (Ipv4_ToString (of_nat (be_value s)))) p)"
proof -
  let ?t = "BitsetToPaddedByteString 32 (be_value s)"
  have v: "ArbitraryByteStringToIrValue env IPV4 32 ?t = Inr (Ipv4 (Ipv4_ToString (of_nat (be_value s))))"
    using assms(2) OfByteString_word_iff [of ?t "of_nat (be_value s) :: 32 word"]
    by (simp add: ArbitraryByteStringToIrValue_def padded_not_Nil be_value_BitsetToPadded)
  have "ArbitraryToNormalizedByteString s 32 = Inr ?t" using assms by (simp add: normalized_iff)
  with mask_of_prefix [of 32 p] assms(3-5) v show ?thesis
    by (simp add: pi_lpm_to_ir_def require_def Intersection_padded)
qed

lemma example_route_translates:
  assumes "dst \<noteq> []" "be_value dst < 2 ^ 32" "p \<noteq> 0" "p \<le> 32"
    "be_value dst AND (2 ^ 32 - 2 ^ (32 - nat (max 0 p))) = be_value dst"
  shows "PiEntityToIr example_text_env example_route_info (example_route dst p) default_options =
    Inr (example_ir_route (of_nat (be_value dst)) p)"
proof -
  have "PiMatchFieldToIr example_text_env default_options example_dst_field \<lparr>fm_field_id = 2, fm_type = FmLpm dst p\<rparr> =
      Inr \<lparr>irm_name = ''ipv4_dst'', irm_value = IrLpm (Ipv4 (Ipv4_ToString (of_nat (be_value dst)))) p\<rparr>"
    using ipv4_lpm_translates [OF assms] by (simp add: PiMatchFieldToIr_def example_dst_field_def default_options_def)
  moreover have "PiMatchFieldToIr example_text_env default_options example_vrf_field \<lparr>fm_field_id = 1, fm_type = FmExact ''vrf-1''\<rparr> =
      Inr \<lparr>irm_name = ''vrf_id'', irm_value = IrExact (Str ''vrf-1'')\<rparr>"
    by (simp add: PiMatchFieldToIr_def example_vrf_field_def default_options_def ArbitraryByteStringToIrValue_def example_text_env_def)
  ultimately have "pi_matches_to_ir example_text_env default_options example_route_table {}
      [\<lparr>fm_field_id = 2, fm_type = FmLpm dst p\<rparr>, \<lparr>fm_field_id = 1, fm_type = FmExact ''vrf-1''\<rparr>] =
      (False, [\<lparr>irm_name = ''ipv4_dst'', irm_value = IrLpm (Ipv4 (Ipv4_ToString (of_nat (be_value dst)))) p\<rparr>,
        \<lparr>irm_name = ''vrf_id'', irm_value = IrExact (Str ''vrf-1'')\<rparr>], {''vrf_id''})"
    by (simp add: example_route_table_def) (simp add: example_vrf_field_def example_dst_field_def)
  moreover have "pi_table_action_to_ir example_text_env example_route_info default_options example_route_table
      (PiAction \<lparr>pi_action_id = 5, pi_params = [(1, ''nexthop-1'')]\<rparr>) =
      Inr (IrAction \<lparr>ira_name = ''set_nexthop_id'', ira_params = [(''nexthop_id'', Str ''nexthop-1'')]\<rparr>)"
    by code_simp
  moreover have "CheckMandatoryMatches {''vrf_id''} example_route_table" by code_simp
  ultimately show ?thesis
    by (simp add: PiEntityToIr_def example_route_def PiTableEntryToIr_def example_route_info_def lookup_defs example_ir_route_def
        default_table_entry_def default_ir_table_entry_def default_options_def Let_def require_def priority_valid_def meters_valid_def)
      (simp add: example_route_table_def)
qed

lemma example_negative_prefix:
  "PiEntityToIr example_text_env example_route_info (example_route [CHR 0x00] (- 1)) default_options =
     Inr (example_ir_route 0 (- 1))"
  "IrEntityToPi example_text_env example_route_info (example_ir_route 0 (- 1)) default_options = Inl INVALID_ARGUMENT"
proof -
  show "PiEntityToIr example_text_env example_route_info (example_route [CHR 0x00] (- 1)) default_options =
      Inr (example_ir_route 0 (- 1))"
    using example_route_translates [of "[CHR 0x00]" "- 1"] by simp
  have "IrMatchFieldToPi example_text_env default_options example_dst_field
      \<lparr>irm_name = ''ipv4_dst'', irm_value = IrLpm (Ipv4 (Ipv4_ToString 0)) (- 1)\<rparr> = Inl INVALID_ARGUMENT"
    by (simp add: IrMatchFieldToPi_def example_dst_field_def ir_lpm_to_pi_def require_def unless_invalid_def Let_def)
  then show "IrEntityToPi example_text_env example_route_info (example_ir_route 0 (- 1)) default_options = Inl INVALID_ARGUMENT"
    by (simp add: IrEntityToPi_def example_ir_route_def default_ir_table_entry_def IrTableEntryToPi_def
        example_route_info_def lookup_defs Let_def split_def unless_invalid_def)
      (simp add: example_route_table_def split_def Let_def)
qed

section \<open>Properties\<close>

text \<open>
  C5. Normalization. An entity that PDPI accepts is accepted again once translated to the IR: its IR
  form translates back to a PI entity, whose IR form is the same. The table entry's bytes may
  change on the way, which is why the server keys its cache by the translated form. This needs that the entity
  has no negative prefix length, which the translation to the IR lets pass
  (\<open>prefixes_ok\<close>; \<open>P4rt_Write.Write_aborts_on_negative_prefix\<close> shows such an entry); that the P4Info is consistent
  as \<open>CreateIrP4Info\<close> builds it, with names of its own for every ID and with 128 bits for each IPv6 prefix field
  (\<open>p4info_ok\<close>: a narrower prefix is translated to the IR but not back); and that the C library reads
  back the IPv6 addresses it prints. Beyond that there is one exception, the metadata of a multicast group, which
  a key-only translation from the IR leaves out.
\<close>

theorem pdpi_normal_form:
  assumes "inet_round_trip env" and "p4info_ok info" and "prefixes_ok pi"
    and "PiEntityToIr env info pi options = Inr ir"
  shows "\<exists>pi'. IrEntityToPi env info ir options = Inr pi' \<and>
    (PiEntityToIr env info pi' options = Inr ir \<or> key_only options \<and> replication_metadata pi \<noteq> [])"
  using assms by (rule entity_normal_form)

theorem pdpi_normal_form_witness:
  "PiEntityToIr example_text_env example_route_info (example_route [CHR 0x00, CHR 0x0A, CHR 0x00, CHR 0x00, CHR 0x00] 8)
     default_options = Inr (example_ir_route 0x0A000000 8) \<and>
   (\<exists>pi'. IrEntityToPi example_text_env example_route_info (example_ir_route 0x0A000000 8) default_options = Inr pi' \<and>
     PiEntityToIr example_text_env example_route_info pi' default_options = Inr (example_ir_route 0x0A000000 8))"
proof -
  let ?pi = "example_route [CHR 0x00, CHR 0x0A, CHR 0x00, CHR 0x00, CHR 0x00] 8"
  have "PiEntityToIr example_text_env example_route_info ?pi default_options = Inr (example_ir_route 0x0A000000 8)"
    using example_route_translates [of "[CHR 0x00, CHR 0x0A, CHR 0x00, CHR 0x00, CHR 0x00]" 8] by simp
  moreover have "prefixes_ok ?pi" by (simp add: prefixes_ok_def prefix_ok_def example_route_def pi_table_entry_of_def)
  ultimately show ?thesis
    using pdpi_normal_form [OF example_inet_round_trip example_route_info_ok, of ?pi default_options]
    by (simp add: default_options_def)
qed

end
