(* ===== verification/P4rt_Write.thy ===== *)
theory P4rt_Write
  imports Sdn_Controller Resource_Utilization App_Db_Manager Ir_Translation Pdpi_Translation
begin

text \<open>
  The write path of the P4Runtime server (\<open>p4rt_app/p4runtime/p4runtime_impl.cc\<close>):
  access check, translation and admission of the updates of a batch, execution against
  SONiC, fail-on-first bookkeeping, the entity cache and the action profile accounting.
  The P4 constraint checker and the JSON encoding of AppDb entries are parameters. Dereferencing
  a \<open>StatusOr\<close> that holds an error terminates the process; that outcome is \<open>None\<close>.
\<close>

section \<open>Data\<close>

record pi_update =
  pu_type :: update_type
  pu_entity :: pi_entity

record write_request =
  wr_access :: mutable_request
  wr_updates :: "pi_update list"

record 'db p4rt_env =
  pe_sonic :: "'db sonic_env"
  pe_app_db :: app_db_translators
  pe_violation :: "pi_table_entry \<Rightarrow> string status_or"
  pe_text :: text_env

record 'db p4rt_server =
  srv_controller_manager :: sdn_controller_manager
  srv_ir_p4info :: "ir_p4info option"
  srv_entity_cache :: entity_map
  srv_capacity :: capacity_map
  srv_port_queue :: port_queue_config
  srv_db :: 'db
  srv_write_batch_requests :: nat
  srv_write_total_requests :: nat
  srv_read_total_requests :: nat

text \<open>A gRPC status: its code, and the per-update codes packed in its details.\<close>

record grpc_status =
  gs_code :: status_code
  gs_details :: "status_code list"

section \<open>Checks on one update\<close>

definition AllowRoleAccessToTable :: "string \<Rightarrow> string \<Rightarrow> ir_p4info \<Rightarrow> status_code" where
  "AllowRoleAccessToTable role_name table_name info =
     (if role_name = [] then OK
      else case tables_by_name info table_name of
             None \<Rightarrow> INTERNAL
           | Some def \<Rightarrow> if itd_role def \<noteq> role_name then PERMISSION_DENIED else OK)"

definition VerifyEntityCacheForExistence :: "entity_map \<Rightarrow> entity_update \<Rightarrow> status_code" where
  "VerifyEntityCacheForExistence cache u =
     (let found = cache (eu_entity_key u) \<noteq> None
      in case eu_update_type u of
           INSERT \<Rightarrow> if found then ALREADY_EXISTS else OK
         | MODIFY \<Rightarrow> if \<not> found then NOT_FOUND else OK
         | DELETE \<Rightarrow> if \<not> found then NOT_FOUND else OK
         | UPDATE_UNSPECIFIED \<Rightarrow> INTERNAL)"

definition ValidateTableEntryConstraints ::
  "(pi_table_entry \<Rightarrow> string status_or) \<Rightarrow> pi_table_entry \<Rightarrow> status_code" where
  "ValidateTableEntryConstraints violation e =
     (case violation e of
        Inl err \<Rightarrow> err
      | Inr reason \<Rightarrow> if reason \<noteq> [] then INVALID_ARGUMENT else OK)"

text \<open>
  \<open>PiUpdateToEntityUpdate\<close>. The code tests the wrong variable after normalizing
  (\<open>ir_entity\<close> instead of \<open>normalized_pi_entry\<close>), so a failed normalization is only noticed
  when the value is dereferenced, after the remaining checks.
\<close>

definition PiUpdateToEntityUpdate ::
  "'db p4rt_env \<Rightarrow> ir_p4info \<Rightarrow> port_queue_config \<Rightarrow> string \<Rightarrow> pi_update \<Rightarrow>
   entity_update status_or option" where
  "PiUpdateToEntityUpdate env info pq role_name pu =
     (let pdpi_options = default_options\<lparr>key_only := (pu_type pu = DELETE)\<rparr>
      in case PiEntityToIr (pe_text env) info (pu_entity pu) pdpi_options of
           Inl e \<Rightarrow> Some (Inl e)
         | Inr ir_entity \<Rightarrow>
             (let normalized_pi_entry = IrEntityToPi (pe_text env) info ir_entity pdpi_options;
                  checks = (case ir_entity of
                      IrTableEntry ir_entry \<Rightarrow>
                        (let c = (if pu_type pu \<noteq> DELETE
                                  then ValidateTableEntryConstraints (pe_violation env)
                                         (pi_table_entry_of (pu_entity pu))
                                  else OK)
                         in if c \<noteq> OK then c
                            else AllowRoleAccessToTable role_name (ite_table_name ir_entry) info)
                    | _ \<Rightarrow> OK)
              in if checks \<noteq> OK then Some (Inl checks)
                 else case UpdateIrEntityForOrchAgent (pe_text env) info pq ir_entity of
                        Inl e \<Rightarrow> Some (Inl e)
                      | Inr ir_entity' \<Rightarrow>
                          (case normalized_pi_entry of
                             Inl _ \<Rightarrow> None
                           | Inr pi \<Rightarrow>
                               Some (bind_or (MakeEntityKey pi) (\<lambda>entity_key.
                                 bind_or (CreateAppDbUpdate (pe_app_db env) (pu_type pu) ir_entity')
                                   (\<lambda>app_db_update.
                                   Inr \<lparr>eu_entry = ir_entity', eu_update_type = pu_type pu,
                                        eu_pi_entity = pi, eu_entity_key = entity_key,
                                        eu_resource_utilization_change = default_table_resources,
                                        eu_app_db_update = app_db_update\<rparr>))))))"

section \<open>Translating a batch\<close>

text \<open>
  The loop of \<open>PiEntityUpdatesToIr\<close>: keys seen so far, resources taken by the batch,
  statuses written and updates accepted, each with the position of its status. The first
  component tells whether a duplicate key ended the loop.
\<close>

fun translate_updates ::
  "'db p4rt_env \<Rightarrow> ir_p4info \<Rightarrow> port_queue_config \<Rightarrow> entity_map \<Rightarrow> capacity_map \<Rightarrow> string \<Rightarrow> pi_update list \<Rightarrow>
   entity_key list \<Rightarrow> batch_resources \<Rightarrow> status_code list \<Rightarrow> (entity_update \<times> nat) list \<Rightarrow>
   (bool \<times> status_code list \<times> (entity_update \<times> nat) list) option" where
  "translate_updates env info pq cache caps role_name [] ks batch sts ups = Some (False, sts, ups)"
| "translate_updates env info pq cache caps role_name (pu # pus) ks batch sts ups =
     (case PiUpdateToEntityUpdate env info pq role_name pu of
        None \<Rightarrow> None
      | Some (Inl e) \<Rightarrow> Some (False, sts @ [e], ups)
      | Some (Inr u) \<Rightarrow>
          if eu_entity_key u \<in> set ks then Some (True, sts @ [OK], ups)
          else let exists_status = VerifyEntityCacheForExistence cache u
          in if exists_status \<noteq> OK then Some (False, sts @ [exists_status], ups)
          else case VerifyCapacityAndGetTableResourceChange info u cache caps batch of
                 Inl e \<Rightarrow> Some (False, sts @ [e], ups)
               | Inr change \<Rightarrow>
                   (let u' = u\<lparr>eu_resource_utilization_change := change\<rparr>;
                        continue = (\<lambda>batch'. translate_updates env info pq cache caps role_name pus
                          (eu_entity_key u # ks) batch' (sts @ [OK]) (ups @ [(u', length sts)]))
                    in case tr_action_profile change of
                         None \<Rightarrow> continue batch
                       | Some p \<Rightarrow>
                           (case action_profiles_by_name info (apr_name p) of
                              None \<Rightarrow> Some (False, sts @ [NOT_FOUND], ups)
                            | Some ap \<Rightarrow>
                                continue (batch(apr_name p \<mapsto> batch_subscript batch (apr_name p) +
                                  (if ap_sum_of_members ap \<noteq> None then apr_number_of_actions p
                                   else apr_total_weight p))))))"

definition PiEntityUpdatesToIr ::
  "'db p4rt_env \<Rightarrow> ir_p4info \<Rightarrow> port_queue_config \<Rightarrow> entity_map \<Rightarrow> capacity_map \<Rightarrow> string \<Rightarrow> pi_update list \<Rightarrow>
   (status_code list \<times> (entity_update \<times> nat) list) option" where
  "PiEntityUpdatesToIr env info pq cache caps role_name pus =
     (case translate_updates env info pq cache caps role_name pus [] Map.empty [] [] of
        None \<Rightarrow> None
      | Some (has_duplicates, sts, ups) \<Rightarrow>
          (let sts' = (if has_duplicates then [INVALID_ARGUMENT] else sts);
               ups' = (if has_duplicates then [] else ups)
           in Some (sts' @ replicate (length pus - length sts') ABORTED, ups')))"

section \<open>Bookkeeping\<close>

text \<open>\<open>UpdateCacheAndUtilizationState\<close>: only updates whose status is OK count.\<close>

definition cache_update :: "entity_update \<Rightarrow> entity_map \<Rightarrow> entity_map status_or" where
  "cache_update u cache =
     (case eu_update_type u of
        INSERT \<Rightarrow> Inr (cache(eu_entity_key u \<mapsto> eu_pi_entity u))
      | MODIFY \<Rightarrow> Inr (cache(eu_entity_key u \<mapsto> eu_pi_entity u))
      | DELETE \<Rightarrow> bind_or (MakeEntityKey (eu_pi_entity u)) (\<lambda>key. Inr (cache(key := None)))
      | UPDATE_UNSPECIFIED \<Rightarrow> Inl INTERNAL)"

definition utilization_update :: "entity_update \<Rightarrow> capacity_map \<Rightarrow> capacity_map status_or" where
  "utilization_update u caps =
     (case tr_action_profile (eu_resource_utilization_change u) of
        None \<Rightarrow> Inr caps
      | Some p \<Rightarrow>
          (case caps (apr_name p) of
             None \<Rightarrow> Inl INTERNAL
           | Some c \<Rightarrow> Inr (caps(apr_name p \<mapsto> c\<lparr>
               arc_current_total_weight := arc_current_total_weight c + apr_total_weight p,
               arc_current_total_members := arc_current_total_members c + apr_number_of_actions p\<rparr>))))"

fun UpdateCacheAndUtilizationState ::
  "(entity_update \<times> nat) list \<Rightarrow> status_code list \<Rightarrow> entity_map \<times> capacity_map \<Rightarrow>
   status_code \<times> entity_map \<times> capacity_map" where
  "UpdateCacheAndUtilizationState [] sts (cache, caps) = (OK, cache, caps)"
| "UpdateCacheAndUtilizationState ((u, i) # us) sts (cache, caps) =
     (if sts ! i \<noteq> OK then UpdateCacheAndUtilizationState us sts (cache, caps)
      else case cache_update u cache of
             Inl e \<Rightarrow> (e, cache, caps)
           | Inr cache' \<Rightarrow>
               (case utilization_update u caps of
                  Inl e \<Rightarrow> (e, cache', caps)
                | Inr caps' \<Rightarrow> UpdateCacheAndUtilizationState us sts (cache', caps')))"

text \<open>Every failure after the first becomes ABORTED.\<close>

fun mark_aborted :: "bool \<Rightarrow> status_code list \<Rightarrow> status_code list" where
  "mark_aborted found [] = []"
| "mark_aborted found (st # sts) =
     (if st = OK then st # mark_aborted found sts
      else if \<not> found then st # mark_aborted True sts
      else ABORTED # mark_aborted True sts)"

text \<open>
  \<open>IrWriteRpcStatusToGrpcStatus\<close> on a batch response (\<open>p4_infra/p4_pdpi/ir.cc\<close>). The
  statuses of this path carry no message when they are OK.
\<close>

fun rpc_code_number :: "status_code \<Rightarrow> int" where
  "rpc_code_number OK = 0"
| "rpc_code_number CANCELLED = 1"
| "rpc_code_number UNKNOWN = 2"
| "rpc_code_number INVALID_ARGUMENT = 3"
| "rpc_code_number DEADLINE_EXCEEDED = 4"
| "rpc_code_number NOT_FOUND = 5"
| "rpc_code_number ALREADY_EXISTS = 6"
| "rpc_code_number PERMISSION_DENIED = 7"
| "rpc_code_number RESOURCE_EXHAUSTED = 8"
| "rpc_code_number FAILED_PRECONDITION = 9"
| "rpc_code_number ABORTED = 10"
| "rpc_code_number OUT_OF_RANGE = 11"
| "rpc_code_number UNIMPLEMENTED = 12"
| "rpc_code_number INTERNAL = 13"
| "rpc_code_number UNAVAILABLE = 14"
| "rpc_code_number DATA_LOSS = 15"
| "rpc_code_number UNAUTHENTICATED = 16"

definition IsGoogleRpcCode :: "int \<Rightarrow> status_code" where
  "IsGoogleRpcCode rpc_code = (if rpc_code < 0 \<or> rpc_code > 15 then INVALID_ARGUMENT else OK)"

definition IrWriteResponseToGrpcStatus :: "status_code list \<Rightarrow> grpc_status status_or" where
  "IrWriteResponseToGrpcStatus sts =
     bind_or (map_or (\<lambda>st. return_if_error (IsGoogleRpcCode (rpc_code_number st)) (Inr st)) sts)
       (\<lambda>details. Inr \<lparr>gs_code = UNKNOWN, gs_details = details\<rparr>)"

definition IrWriteRpcStatusToGrpcStatus :: "status_code list \<Rightarrow> grpc_status status_or" where
  "IrWriteRpcStatusToGrpcStatus sts =
     (if list_all (\<lambda>st. st = OK) sts then Inr \<lparr>gs_code = OK, gs_details = []\<rparr>
      else IrWriteResponseToGrpcStatus sts)"

section \<open>Write\<close>

definition grpc :: "status_code \<Rightarrow> grpc_status" where
  "grpc code = \<lparr>gs_code = code, gs_details = []\<rparr>"

text \<open>\<open>EnterCriticalState\<close> answers INTERNAL; the state is as far as the handler got.\<close>

definition Write ::
  "'db p4rt_env \<Rightarrow> write_request \<Rightarrow> 'db p4rt_server \<Rightarrow> (grpc_status \<times> 'db p4rt_server) option" where
  "Write env req s =
     (let connection_status = AllowRequest_Write (wr_access req) (srv_controller_manager s)
      in if connection_status \<noteq> OK then Some (grpc connection_status, s)
         else case srv_ir_p4info s of
                None \<Rightarrow> Some (grpc FAILED_PRECONDITION, s)
              | Some info \<Rightarrow>
                  (case PiEntityUpdatesToIr env info (srv_port_queue s) (srv_entity_cache s) (srv_capacity s)
                          (req_role (wr_access req)) (wr_updates req) of
                     None \<Rightarrow> None
                   | Some (sts, ups) \<Rightarrow>
                       (case PerformAppDbUpdates (pe_sonic env)
                               (map (\<lambda>(u, i). (eu_app_db_update u, i)) ups) (sts, srv_db s) of
                          (Inl e, _, db) \<Rightarrow> Some (grpc INTERNAL, s\<lparr>srv_db := db\<rparr>)
                        | (Inr _, sts1, db) \<Rightarrow>
                            (let sts2 = mark_aborted False sts1; s1 = s\<lparr>srv_db := db\<rparr>
                             in case IrWriteRpcStatusToGrpcStatus sts2 of
                                  Inl e \<Rightarrow> Some (grpc INTERNAL, s1)
                                | Inr g \<Rightarrow>
                                    (case UpdateCacheAndUtilizationState ups sts2
                                            (srv_entity_cache s, srv_capacity s) of
                                       (st, cache, caps) \<Rightarrow>
                                         (let s2 = s1\<lparr>srv_entity_cache := cache, srv_capacity := caps\<rparr>
                                          in if st \<noteq> OK then Some (grpc INTERNAL, s2)
                                             else Some (g, s2\<lparr>
                                               srv_write_batch_requests := srv_write_batch_requests s + 1,
                                               srv_write_total_requests :=
                                                 srv_write_total_requests s + length ups\<rparr>)))))))"

section \<open>Lemmas\<close>

lemma PiUpdateToEntityUpdate_key:
  "PiUpdateToEntityUpdate env info pq role_name pu = Some (Inr u) \<Longrightarrow>
     MakeEntityKey (eu_pi_entity u) = Inr (eu_entity_key u) \<and> eu_update_type u = pu_type pu"
  by (auto simp: PiUpdateToEntityUpdate_def Let_def split: sum.splits if_splits)

text \<open>What an accepted update adds to the batch total of a profile.\<close>

definition update_cost :: "ir_p4info \<Rightarrow> string \<Rightarrow> entity_update \<Rightarrow> int" where
  "update_cost info name u =
     (case tr_action_profile (eu_resource_utilization_change u) of
        None \<Rightarrow> 0
      | Some p \<Rightarrow>
          if apr_name p \<noteq> name then 0
          else case action_profiles_by_name info name of None \<Rightarrow> 0 | Some ap \<Rightarrow> profile_cost ap p)"

definition batch_cost :: "ir_p4info \<Rightarrow> string \<Rightarrow> (entity_update \<times> nat) list \<Rightarrow> int" where
  "batch_cost info name ups = sum_list (map (\<lambda>ui. update_cost info name (fst ui)) ups)"

text \<open>One update passed every check, after the updates \<open>prev\<close> of the same batch.\<close>

definition update_accepted ::
  "ir_p4info \<Rightarrow> entity_map \<Rightarrow> capacity_map \<Rightarrow> (entity_update \<times> nat) list \<Rightarrow> entity_update \<Rightarrow> bool" where
  "update_accepted info cache caps prev u \<longleftrightarrow>
     MakeEntityKey (eu_pi_entity u) = Inr (eu_entity_key u) \<and>
     eu_entity_key u \<notin> (eu_entity_key \<circ> fst) ` set prev \<and>
     VerifyEntityCacheForExistence cache u = OK \<and>
     (\<exists>v batch change. u = v\<lparr>eu_resource_utilization_change := change\<rparr> \<and>
        VerifyCapacityAndGetTableResourceChange info v cache caps batch = Inr change \<and>
        (\<forall>name. batch_subscript batch name = batch_cost info name prev)) \<and>
     (\<forall>p. tr_action_profile (eu_resource_utilization_change u) = Some p \<longrightarrow>
        action_profiles_by_name info (apr_name p) \<noteq> None)"

fun accepted ::
  "ir_p4info \<Rightarrow> entity_map \<Rightarrow> capacity_map \<Rightarrow> (entity_update \<times> nat) list \<Rightarrow> (entity_update \<times> nat) list \<Rightarrow> bool"
where
  "accepted info cache caps prev [] = True"
| "accepted info cache caps prev ((u, i) # ups) =
     (i = length prev \<and> update_accepted info cache caps prev u \<and>
      accepted info cache caps (prev @ [(u, i)]) ups)"

lemma accepted_append:
  "accepted info cache caps prev (xs @ ys) \<longleftrightarrow>
     accepted info cache caps prev xs \<and> accepted info cache caps (prev @ xs) ys"
  by (induction info cache caps prev xs rule: accepted.induct) auto

lemma batch_cost_simps [simp]:
  "batch_cost info name [] = 0"
  "batch_cost info name (ui # ups) = update_cost info name (fst ui) + batch_cost info name ups"
  "batch_cost info name (xs @ ys) = batch_cost info name xs + batch_cost info name ys"
  by (simp_all add: batch_cost_def)

lemma translate_ConsE:
  assumes "translate_updates env info pq cache caps role_name (pu # pus) ks batch sts ups = Some (dup, sts', ups')"
  obtains (stop) e where "dup = False" "sts' = sts @ [e]" "ups' = ups"
  | (duplicate) "dup = True" "ups' = ups" "sts' = sts @ [OK]"
  | (continue) u change batch' where
      "PiUpdateToEntityUpdate env info pq role_name pu = Some (Inr u)"
      "eu_entity_key u \<notin> set ks" "VerifyEntityCacheForExistence cache u = OK"
      "VerifyCapacityAndGetTableResourceChange info u cache caps batch = Inr change"
      "\<And>p. tr_action_profile change = Some p \<Longrightarrow> action_profiles_by_name info (apr_name p) \<noteq> None"
      "\<And>name. batch_subscript batch' name = batch_subscript batch name +
         update_cost info name (u\<lparr>eu_resource_utilization_change := change\<rparr>)"
      "translate_updates env info pq cache caps role_name pus (eu_entity_key u # ks) batch' (sts @ [OK])
         (ups @ [(u\<lparr>eu_resource_utilization_change := change\<rparr>, length sts)]) = Some (dup, sts', ups')"
proof -
  from assms obtain r where r: "PiUpdateToEntityUpdate env info pq role_name pu = Some r"
    by (auto split: option.splits)
  show ?thesis
  proof (cases r)
    case (Inl e)
    with assms r stop show ?thesis by auto
  next
    case (Inr u)
    show ?thesis
    proof (cases "eu_entity_key u \<in> set ks \<or> VerifyEntityCacheForExistence cache u \<noteq> OK")
      case True
      with assms r Inr stop duplicate show ?thesis by (auto simp: Let_def split: if_splits)
    next
      case False
      show ?thesis
      proof (cases "VerifyCapacityAndGetTableResourceChange info u cache caps batch")
        case (Inl e)
        with assms r Inr False stop show ?thesis by (auto simp: Let_def)
      next
        case change: (Inr change)
        show ?thesis
        proof (cases "tr_action_profile change")
          case None
          with assms r Inr False change continue [of u change batch] show ?thesis
            by (auto simp: Let_def update_cost_def)
        next
          case (Some p)
          show ?thesis
          proof (cases "action_profiles_by_name info (apr_name p)")
            case None
            with assms r Inr False change Some stop show ?thesis by (auto simp: Let_def)
          next
            case ap: (Some ap)
            let ?b = "batch(apr_name p \<mapsto> batch_subscript batch (apr_name p) +
              (if ap_sum_of_members ap \<noteq> None then apr_number_of_actions p else apr_total_weight p))"
            have "batch_subscript ?b name = batch_subscript batch name +
                update_cost info name (u\<lparr>eu_resource_utilization_change := change\<rparr>)" for name
              using Some ap by (auto simp: batch_subscript_def update_cost_def profile_cost_def)
            with assms r Inr False change Some ap continue [of u change ?b] show ?thesis
              by (auto simp: Let_def)
          qed
        qed
      qed
    qed
  qed
qed

lemma translate_updates_accepted:
  assumes "translate_updates env info pq cache caps role_name pus ks batch sts ups = Some (dup, sts', ups')"
    and "accepted info cache caps [] ups" and "sts = replicate (length ups) OK"
    and "set ks = (eu_entity_key \<circ> fst) ` set ups"
    and "\<And>name. batch_subscript batch name = batch_cost info name ups"
  shows "accepted info cache caps [] ups' \<and> length sts' \<le> length sts + length pus \<and>
    (\<exists>rest. sts' = replicate (length ups') OK @ rest \<and> length rest \<le> 1) \<and>
    (pus \<noteq> [] \<longrightarrow> sts' \<noteq> [])"
  using assms
proof (induction pus arbitrary: ks batch sts ups)
  case Nil
  then show ?case by auto
next
  case (Cons pu pus)
  from Cons.prems(1) show ?case
  proof (cases rule: translate_ConsE)
    case (stop e)
    with Cons.prems show ?thesis by auto
  next
    case duplicate
    with Cons.prems show ?thesis by auto
  next
    case (continue u change batch')
    let ?u = "u\<lparr>eu_resource_utilization_change := change\<rparr>"
    have "update_accepted info cache caps ups ?u"
      unfolding update_accepted_def
      using continue Cons.prems(4,5) PiUpdateToEntityUpdate_key [OF continue(1)]
      by (auto simp: VerifyEntityCacheForExistence_def)
    then have acc: "accepted info cache caps [] (ups @ [(?u, length sts)])"
      using Cons.prems(2,3) by (simp add: accepted_append)
    have "accepted info cache caps [] ups' \<and> length sts' \<le> length (sts @ [OK]) + length pus \<and>
        (\<exists>rest. sts' = replicate (length ups') OK @ rest \<and> length rest \<le> 1) \<and> (pus \<noteq> [] \<longrightarrow> sts' \<noteq> [])"
      using Cons.prems(3,4,5) continue(6)
      by (intro Cons.IH [OF continue(7) acc]) (auto simp: replicate_append_same)
    moreover have "sts' \<noteq> []" if "pus = []" using continue(7) that by auto
    ultimately show ?thesis by auto
  qed
qed

lemma accepted_indices: "accepted info cache caps prev ups \<Longrightarrow> map snd ups = [length prev ..< length prev + length ups]"
proof (induction info cache caps prev ups rule: accepted.induct)
  case (2 info cache caps prev u i ups)
  then show ?case
    using upt_conv_Cons [of "length prev" "length prev + Suc (length ups)"]
    by (auto simp del: upt_Suc)
qed simp

lemma accepted_in_range:
  assumes "accepted info cache caps [] ups" and "ui \<in> set ups"
  shows "snd ui \<in> set [0 ..< length ups]"
proof -
  have "snd ui \<in> set (map snd ups)" using assms(2) by simp
  then show ?thesis unfolding accepted_indices [OF assms(1)] by simp
qed

lemma accepted_fresh:
  "accepted info cache caps prev us \<Longrightarrow>
     (eu_entity_key \<circ> fst) ` set prev \<inter> (eu_entity_key \<circ> fst) ` set us = {}"
proof (induction info cache caps prev us rule: accepted.induct)
  case (2 info cache caps prev u i ups)
  then show ?case by (auto simp: update_accepted_def)
qed simp

lemma PiEntityUpdatesToIr_accepted:
  assumes "PiEntityUpdatesToIr env info pq cache caps role_name pus = Some (sts, ups)"
  shows "accepted info cache caps [] ups \<and> length sts = length pus \<and>
    length ups \<le> length sts \<and> list_all (\<lambda>ui. sts ! snd ui = OK) ups"
proof (cases "pus = []")
  case True
  with assms show ?thesis by (auto simp: PiEntityUpdatesToIr_def)
next
  case False
  from assms obtain dup sts0 ups0 where
    t: "translate_updates env info pq cache caps role_name pus [] Map.empty [] [] = Some (dup, sts0, ups0)"
    by (auto simp: PiEntityUpdatesToIr_def split: option.splits)
  have T: "accepted info cache caps [] ups0 \<and> length sts0 \<le> length pus \<and>
    (\<exists>rest. sts0 = replicate (length ups0) OK @ rest \<and> length rest \<le> 1) \<and> sts0 \<noteq> []"
    using translate_updates_accepted [OF t] False by (simp add: batch_subscript_def)
  from assms t have S: "sts = (if dup then [INVALID_ARGUMENT] else sts0) @
       replicate (length pus - length (if dup then [INVALID_ARGUMENT] else sts0)) ABORTED"
    and U: "ups = (if dup then [] else ups0)"
    by (auto simp: PiEntityUpdatesToIr_def Let_def)
  have len: "length sts = length pus" using S T False by (cases pus) auto
  have "list_all (\<lambda>ui. sts ! snd ui = OK) ups \<and> length ups \<le> length sts"
  proof (cases dup)
    case True
    then show ?thesis by (simp add: U)
  next
    case False
    with S T obtain rest where rest: "sts = replicate (length ups) OK @ rest" by (auto simp: U)
    have "snd ui < length ups" if "ui \<in> set ups" for ui
      using accepted_in_range [of info cache caps ups ui] that T False by (simp add: U)
    then show ?thesis by (auto simp: rest list_all_iff nth_append)
  qed
  with T U len show ?thesis by auto
qed

lemma mark_aborted_length [simp]: "length (mark_aborted b sts) = length sts"
  by (induction b sts rule: mark_aborted.induct) auto

lemma mark_aborted_OK: "i < length sts \<Longrightarrow> mark_aborted b sts ! i = OK \<longleftrightarrow> sts ! i = OK"
  by (induction b sts arbitrary: i rule: mark_aborted.induct) (auto simp: nth_Cons split: nat.splits)

lemma mark_aborted_True: "mark_aborted True sts = map (\<lambda>st. if st = OK then OK else ABORTED) sts"
  by (induction sts) auto

text \<open>Successes and the first failure are kept; later failures become ABORTED.\<close>

lemma mark_aborted_nth:
  "i < length sts \<Longrightarrow> mark_aborted False sts ! i =
     (if sts ! i = OK \<or> list_all (\<lambda>st. st = OK) (take i sts) then sts ! i else ABORTED)"
proof (induction sts arbitrary: i)
  case (Cons st sts)
  then show ?case by (cases i) (auto simp: mark_aborted_True)
qed simp

lemma mark_aborted_all_OK: "list_all (\<lambda>st. st = OK) (mark_aborted b sts) \<longleftrightarrow> list_all (\<lambda>st. st = OK) sts"
  by (simp add: list_all_length mark_aborted_OK)

text \<open>The counters and profiles of the accounting agree with the P4 program.\<close>

definition caps_match :: "ir_p4info \<Rightarrow> capacity_map \<Rightarrow> bool" where
  "caps_match info caps \<longleftrightarrow>
     (\<forall>name c. caps name = Some c \<longrightarrow> action_profiles_by_name info name = Some (arc_action_profile c))"

definition within_capacity :: "capacity_map \<Rightarrow> bool" where
  "within_capacity caps \<longleftrightarrow>
     (\<forall>name c. caps name = Some c \<longrightarrow>
        ap_size (arc_action_profile c) = 0 \<or> current_use c \<le> ap_size (arc_action_profile c))"

lemma accepted_within:
  assumes "accepted info cache caps prev us" and "caps_match info caps" and "caps name = Some c"
    and "ap_size (arc_action_profile c) = 0 \<or>
         current_use c + batch_cost info name prev \<le> ap_size (arc_action_profile c)"
  shows "ap_size (arc_action_profile c) = 0 \<or>
         current_use c + batch_cost info name (prev @ us) \<le> ap_size (arc_action_profile c)"
  using assms
proof (induction info cache caps prev us rule: accepted.induct)
  case (2 info cache caps prev u i ups)
  from 2(2) obtain v batch change where u: "u = v\<lparr>eu_resource_utilization_change := change\<rparr>"
    and V: "VerifyCapacityAndGetTableResourceChange info v cache caps batch = Inr change"
    and B: "\<And>name. batch_subscript batch name = batch_cost info name prev"
    by (auto simp: update_accepted_def)
  have "ap_size (arc_action_profile c) = 0 \<or>
      current_use c + batch_cost info name (prev @ [(u, i)]) \<le> ap_size (arc_action_profile c)"
  proof (cases "\<exists>p. tr_action_profile change = Some p \<and> apr_name p = name")
    case True
    then obtain p where p: "tr_action_profile change = Some p" "apr_name p = name" by blast
    have "update_cost info name u = profile_cost (arc_action_profile c) p"
      using p 2(3,4) by (simp add: update_cost_def u caps_match_def)
    with Verify_fits [OF V p(1)] p(2) 2(4) B show ?thesis by (auto simp: algebra_simps)
  next
    case False
    then have "update_cost info name u = 0"
      by (auto simp: update_cost_def u split: option.splits)
    with 2(5) show ?thesis by simp
  qed
  with 2 show ?case by auto
qed simp

lemma update_accepted_profile:
  assumes "update_accepted info cache caps prev u"
    and "tr_action_profile (eu_resource_utilization_change u) = Some p"
  shows "caps (apr_name p) \<noteq> None"
  using assms Verify_fits by (fastforce simp: update_accepted_def)

section \<open>Effect of the bookkeeping\<close>

definition cache_effect :: "entity_update \<Rightarrow> pi_entity option" where
  "cache_effect u = (if eu_update_type u = DELETE then None else Some (eu_pi_entity u))"

lemma cache_update_accepted:
  "update_accepted info cache0 caps0 prev u \<Longrightarrow>
     cache_update u cache = Inr (cache(eu_entity_key u := cache_effect u))"
  by (auto simp: update_accepted_def cache_update_def cache_effect_def VerifyEntityCacheForExistence_def
      Let_def split: update_type.splits if_splits)

lemma utilization_update_accepted:
  assumes "update_accepted info cache0 caps0 prev u" and "dom caps = dom caps0"
    and "caps_match info caps"
  shows "\<exists>caps'. utilization_update u caps = Inr caps' \<and> dom caps' = dom caps0 \<and> caps_match info caps' \<and>
    (\<forall>name c'. caps' name = Some c' \<longrightarrow> (\<exists>c. caps name = Some c \<and>
       arc_action_profile c' = arc_action_profile c \<and>
       current_use c' = current_use c + update_cost info name u))"
proof (cases "tr_action_profile (eu_resource_utilization_change u)")
  case None
  with assms show ?thesis by (auto simp: utilization_update_def update_cost_def)
next
  case (Some p)
  from update_accepted_profile [OF assms(1) Some] assms(2) obtain c where c: "caps (apr_name p) = Some c"
    by blast
  with assms(3) have "action_profiles_by_name info (apr_name p) = Some (arc_action_profile c)"
    by (simp add: caps_match_def)
  with Some c assms(2,3) show ?thesis
    by (auto simp: utilization_update_def update_cost_def profile_cost_def current_use_def
        UsesSumOfMembers_def caps_match_def)
qed

lemma UpdateCacheAndUtilizationState_effect:
  assumes "accepted info cache0 caps0 prev us" and "dom caps = dom caps0" and "caps_match info caps"
  shows "\<exists>cache' caps'. UpdateCacheAndUtilizationState us sts (cache, caps) = (OK, cache', caps') \<and>
    (\<forall>ui \<in> set us. cache' (eu_entity_key (fst ui)) =
       (if sts ! snd ui = OK then cache_effect (fst ui) else cache (eu_entity_key (fst ui)))) \<and>
    (\<forall>k. k \<notin> (eu_entity_key \<circ> fst) ` set us \<longrightarrow> cache' k = cache k) \<and>
    dom caps' = dom caps0 \<and> caps_match info caps' \<and>
    (\<forall>name c'. caps' name = Some c' \<longrightarrow> (\<exists>c. caps name = Some c \<and>
       arc_action_profile c' = arc_action_profile c \<and>
       current_use c' = current_use c + batch_cost info name (filter (\<lambda>ui. sts ! snd ui = OK) us)))"
  using assms
proof (induction us arbitrary: prev cache caps)
  case Nil
  then show ?case by simp
next
  case (Cons ui us)
  obtain u i where ui: "ui = (u, i)" by (cases ui)
  have acc: "update_accepted info cache0 caps0 prev u" "accepted info cache0 caps0 (prev @ [(u, i)]) us"
    using Cons.prems(1) by (auto simp: ui)
  have fresh: "eu_entity_key u \<notin> (eu_entity_key \<circ> fst) ` set us"
    using accepted_fresh [OF acc(2)] by auto
  then have ne: "\<forall>x \<in> set us. eu_entity_key (fst x) \<noteq> eu_entity_key u" by force
  show ?case
  proof (cases "sts ! i = OK")
    case False
    from Cons.IH [OF acc(2) Cons.prems(2,3), of cache] False fresh show ?thesis
      by (elim exE) (rule exI, rule exI, auto simp: ui)
  next
    case True
    let ?cache = "cache(eu_entity_key u := cache_effect u)"
    obtain caps1 where c1: "utilization_update u caps = Inr caps1" "dom caps1 = dom caps0"
      "caps_match info caps1" and use: "\<And>name c'. caps1 name = Some c' \<Longrightarrow> \<exists>c. caps name = Some c \<and>
         arc_action_profile c' = arc_action_profile c \<and>
         current_use c' = current_use c + update_cost info name u"
      using utilization_update_accepted [OF acc(1) Cons.prems(2,3)] by blast
    from Cons.IH [OF acc(2) c1(2,3), of ?cache] obtain cache' caps' where
      run: "UpdateCacheAndUtilizationState us sts (?cache, caps1) = (OK, cache', caps')" and
      in_us: "\<forall>ui \<in> set us. cache' (eu_entity_key (fst ui)) =
        (if sts ! snd ui = OK then cache_effect (fst ui) else ?cache (eu_entity_key (fst ui)))" and
      out: "\<forall>k. k \<notin> (eu_entity_key \<circ> fst) ` set us \<longrightarrow> cache' k = ?cache k" and
      d: "dom caps' = dom caps0" "caps_match info caps'" and
      use': "\<And>name c'. caps' name = Some c' \<Longrightarrow> \<exists>c. caps1 name = Some c \<and>
       arc_action_profile c' = arc_action_profile c \<and>
       current_use c' = current_use c + batch_cost info name (filter (\<lambda>ui. sts ! snd ui = OK) us)"
      by blast
    have "UpdateCacheAndUtilizationState (ui # us) sts (cache, caps) = (OK, cache', caps')"
      using True run c1(1) cache_update_accepted [OF acc(1)] by (simp add: ui)
    moreover have "\<forall>ui' \<in> set (ui # us). cache' (eu_entity_key (fst ui')) =
       (if sts ! snd ui' = OK then cache_effect (fst ui') else cache (eu_entity_key (fst ui')))"
      using in_us out fresh ne True by (simp add: ui)
    moreover have "\<forall>k. k \<notin> (eu_entity_key \<circ> fst) ` set (ui # us) \<longrightarrow> cache' k = cache k"
      using out by (auto simp: ui)
    moreover have "\<exists>c. caps name = Some c \<and> arc_action_profile c' = arc_action_profile c \<and>
       current_use c' = current_use c + batch_cost info name (filter (\<lambda>ui. sts ! snd ui = OK) (ui # us))"
      if "caps' name = Some c'" for name c'
      using use' [OF that] use by (fastforce simp: ui True)
    ultimately show ?thesis using d by blast
  qed
qed

section \<open>Runs of Write\<close>

text \<open>A request that reaches the end: every stage's result.\<close>

lemma Write_completedE:
  assumes "Write env req s = Some (g, s')"
    and "srv_write_batch_requests s' \<noteq> srv_write_batch_requests s"
  obtains info sts ups b sts1 db cache caps where
    "AllowRequest_Write (wr_access req) (srv_controller_manager s) = OK" "srv_ir_p4info s = Some info"
    "PiEntityUpdatesToIr env info (srv_port_queue s) (srv_entity_cache s) (srv_capacity s)
       (req_role (wr_access req)) (wr_updates req) = Some (sts, ups)"
    "PerformAppDbUpdates (pe_sonic env) (map (\<lambda>(u, i). (eu_app_db_update u, i)) ups) (sts, srv_db s) =
       (Inr b, sts1, db)"
    "IrWriteRpcStatusToGrpcStatus (mark_aborted False sts1) = Inr g"
    "UpdateCacheAndUtilizationState ups (mark_aborted False sts1) (srv_entity_cache s, srv_capacity s) =
       (OK, cache, caps)"
    "s' = s\<lparr>srv_db := db, srv_entity_cache := cache, srv_capacity := caps,
       srv_write_batch_requests := srv_write_batch_requests s + 1,
       srv_write_total_requests := srv_write_total_requests s + length ups\<rparr>"
proof -
  from assms have ok: "AllowRequest_Write (wr_access req) (srv_controller_manager s) = OK"
    by (auto simp: Write_def Let_def split: if_splits)
  from assms ok obtain info where i: "srv_ir_p4info s = Some info"
    by (cases "srv_ir_p4info s") (auto simp: Write_def)
  let ?P = "PiEntityUpdatesToIr env info (srv_port_queue s) (srv_entity_cache s) (srv_capacity s)
       (req_role (wr_access req)) (wr_updates req)"
  from assms ok i obtain sts ups where p: "?P = Some (sts, ups)"
    by (cases ?P) (auto simp: Write_def)
  let ?A = "PerformAppDbUpdates (pe_sonic env) (map (\<lambda>(u, i). (eu_app_db_update u, i)) ups) (sts, srv_db s)"
  from assms ok i p obtain b sts1 db where a: "?A = (Inr b, sts1, db)"
    by (cases ?A; cases "fst ?A") (auto simp: Write_def)
  let ?G = "IrWriteRpcStatusToGrpcStatus (mark_aborted False sts1)"
  from assms ok i p a obtain g0 where g: "?G = Inr g0"
    by (cases ?G) (auto simp: Write_def Let_def)
  let ?U = "UpdateCacheAndUtilizationState ups (mark_aborted False sts1) (srv_entity_cache s, srv_capacity s)"
  obtain st cache caps where u: "?U = (st, cache, caps)" by (cases ?U) auto
  from assms ok i p a g u have "st = OK" by (auto simp: Write_def Let_def split: if_splits)
  with assms(1) ok i p a g u that [OF ok i p a _ _] show ?thesis by (auto simp: Write_def Let_def)
qed

lemma grpc_details:
  "IrWriteRpcStatusToGrpcStatus sts = Inr g \<Longrightarrow>
     (gs_code g = OK \<longleftrightarrow> list_all (\<lambda>st. st = OK) sts) \<and>
     gs_details g = (if list_all (\<lambda>st. st = OK) sts then [] else sts)"
proof -
  have "map_or (\<lambda>st. return_if_error (IsGoogleRpcCode (rpc_code_number st)) (Inr st)) sts = Inr d \<Longrightarrow> d = sts" for d
    by (induction sts arbitrary: d) auto
  then show "IrWriteRpcStatusToGrpcStatus sts = Inr g \<Longrightarrow> ?thesis"
    by (auto simp: IrWriteRpcStatusToGrpcStatus_def IrWriteResponseToGrpcStatus_def split: if_splits)
qed

lemma perform_statuses_length:
  "PerformAppDbUpdates env us (sts, db) = (r, sts', db') \<Longrightarrow> length sts' = length sts"
  unfolding PerformAppDbUpdates_def by (auto dest: perform_loop_frame)

text \<open>The successes of the batch come first: OrchAgent's fail-on-first behaviour.\<close>

definition ok_prefix :: "status_code list \<Rightarrow> bool" where
  "ok_prefix sts = list_all (\<lambda>st. st \<noteq> OK) (dropWhile (\<lambda>st. st = OK) sts)"

lemma ok_prefix_nth:
  "ok_prefix sts \<Longrightarrow> i < length sts \<Longrightarrow>
     sts ! i = OK \<longleftrightarrow> i < length (takeWhile (\<lambda>st. st = OK) sts)"
  by (induction sts arbitrary: i) (auto simp: ok_prefix_def nth_Cons list_all_length split: nat.splits if_splits)

lemma filter_index_take:
  "map snd xs = [k ..< k + length xs] \<Longrightarrow> filter (\<lambda>x. snd x < m) xs = take (m - k) xs"
proof (induction xs arbitrary: k)
  case (Cons x xs)
  from Cons.prems have "snd x = k" "map snd xs = [Suc k ..< Suc k + length xs]"
    by (simp_all add: upt_conv_Cons del: upt_Suc)
  with Cons.IH [of "Suc k"] show ?case
    by (cases "k < m") (auto simp: Suc_diff_Suc [symmetric] take_Cons' )
qed simp

text \<open>The cache and the accounting after a completed request.\<close>

lemma Write_bookkeeping:
  assumes "Write env req s = Some (g, s')"
    and "srv_write_batch_requests s' \<noteq> srv_write_batch_requests s"
    and "srv_ir_p4info s = Some info" and "caps_match info (srv_capacity s)"
    and P: "PiEntityUpdatesToIr env info (srv_port_queue s) (srv_entity_cache s) (srv_capacity s)
       (req_role (wr_access req)) (wr_updates req) = Some (sts, ups)"
    and A: "PerformAppDbUpdates (pe_sonic env) (map (\<lambda>(u, i). (eu_app_db_update u, i)) ups) (sts, srv_db s) =
       (Inr b, sts1, db)"
  shows "(\<forall>ui \<in> set ups. srv_entity_cache s' (eu_entity_key (fst ui)) =
       (if sts1 ! snd ui = OK then cache_effect (fst ui) else srv_entity_cache s (eu_entity_key (fst ui)))) \<and>
    (\<forall>k. k \<notin> (eu_entity_key \<circ> fst) ` set ups \<longrightarrow> srv_entity_cache s' k = srv_entity_cache s k) \<and>
    caps_match info (srv_capacity s') \<and>
    (\<forall>name c'. srv_capacity s' name = Some c' \<longrightarrow> (\<exists>c. srv_capacity s name = Some c \<and>
       arc_action_profile c' = arc_action_profile c \<and>
       current_use c' = current_use c + batch_cost info name (filter (\<lambda>ui. sts1 ! snd ui = OK) ups)))"
proof -
  let ?sts2 = "mark_aborted False sts1"
  obtain info' sts' ups' b' sts1' db' cache caps where
    W: "srv_ir_p4info s = Some info'"
      "PiEntityUpdatesToIr env info' (srv_port_queue s) (srv_entity_cache s) (srv_capacity s)
         (req_role (wr_access req)) (wr_updates req) = Some (sts', ups')"
      "PerformAppDbUpdates (pe_sonic env) (map (\<lambda>(u, i). (eu_app_db_update u, i)) ups') (sts', srv_db s) =
         (Inr b', sts1', db')"
      "UpdateCacheAndUtilizationState ups' (mark_aborted False sts1') (srv_entity_cache s, srv_capacity s) =
         (OK, cache, caps)"
      "s' = s\<lparr>srv_db := db', srv_entity_cache := cache, srv_capacity := caps,
         srv_write_batch_requests := srv_write_batch_requests s + 1,
         srv_write_total_requests := srv_write_total_requests s + length ups'\<rparr>"
    using assms(1,2) by (rule Write_completedE)
  have "info' = info" using W(1) assms(3) by simp
  then have eq2: "sts' = sts" "ups' = ups" using W(2) P by simp_all
  then have "sts1' = sts1" using W(3) A by simp
  with W(4) eq2
  have U: "UpdateCacheAndUtilizationState ups ?sts2 (srv_entity_cache s, srv_capacity s) = (OK, cache, caps)"
    by simp
  have s': "srv_entity_cache s' = cache" "srv_capacity s' = caps" using W(5) by simp_all
  note acc = PiEntityUpdatesToIr_accepted [OF P]
  have bound: "snd ui < length sts1" if "ui \<in> set ups" for ui
  proof -
    have "snd ui \<in> set [0 ..< length ups]"
      using acc that accepted_in_range by blast
    then show ?thesis using acc perform_statuses_length [OF A] by simp
  qed
  have eq: "?sts2 ! snd ui = OK \<longleftrightarrow> sts1 ! snd ui = OK" if "ui \<in> set ups" for ui
    using mark_aborted_OK [OF bound [OF that]] .
  have f: "filter (\<lambda>ui. ?sts2 ! snd ui = OK) ups = filter (\<lambda>ui. sts1 ! snd ui = OK) ups"
    using eq by (auto intro: filter_cong)
  from UpdateCacheAndUtilizationState_effect [of info "srv_entity_cache s" "srv_capacity s" "[]" ups
      "srv_capacity s" ?sts2 "srv_entity_cache s"] acc assms(4) U
  show ?thesis unfolding s' by (simp add: eq f)
qed

section \<open>Properties\<close>

text \<open>
  C4. The answer to a completed write request reports the outcome of every update, which is what its
  translation and admission and then SONiC made of it: the answer is OK exactly when every outcome
  is; otherwise it carries one status per update, the outcome of each that succeeded and of the
  first that failed, and ABORTED for every later failure.
\<close>

theorem Write_response_fail_on_first:
  assumes "Write env req s = Some (g, s')"
    and "srv_write_batch_requests s' \<noteq> srv_write_batch_requests s"
  shows "\<exists>info sts ups success outcomes.
    srv_ir_p4info s = Some info \<and>
    PiEntityUpdatesToIr env info (srv_port_queue s) (srv_entity_cache s) (srv_capacity s)
      (req_role (wr_access req)) (wr_updates req) = Some (sts, ups) \<and>
    PerformAppDbUpdates (pe_sonic env) (map (\<lambda>(u, i). (eu_app_db_update u, i)) ups) (sts, srv_db s) =
      (Inr success, outcomes, srv_db s') \<and>
    length outcomes = length (wr_updates req) \<and>
    (gs_code g = OK \<longleftrightarrow> list_all (\<lambda>st. st = OK) outcomes) \<and>
    (gs_code g \<noteq> OK \<longrightarrow> gs_code g = UNKNOWN \<and> length (gs_details g) = length (wr_updates req) \<and>
      (\<forall>i < length outcomes. gs_details g ! i =
        (if outcomes ! i = OK \<or> list_all (\<lambda>st. st = OK) (take i outcomes) then outcomes ! i else ABORTED)))"
proof -
  from assms obtain info sts ups b sts1 db cache caps where
    I: "srv_ir_p4info s = Some info" and
    P: "PiEntityUpdatesToIr env info (srv_port_queue s) (srv_entity_cache s) (srv_capacity s)
       (req_role (wr_access req)) (wr_updates req) = Some (sts, ups)" and
    A: "PerformAppDbUpdates (pe_sonic env) (map (\<lambda>(u, i). (eu_app_db_update u, i)) ups) (sts, srv_db s) =
       (Inr b, sts1, db)" and
    G: "IrWriteRpcStatusToGrpcStatus (mark_aborted False sts1) = Inr g" and
    S: "s' = s\<lparr>srv_db := db, srv_entity_cache := cache, srv_capacity := caps,
       srv_write_batch_requests := srv_write_batch_requests s + 1,
       srv_write_total_requests := srv_write_total_requests s + length ups\<rparr>"
    by (rule Write_completedE)
  have len: "length sts1 = length (wr_updates req)"
    using PiEntityUpdatesToIr_accepted [OF P] perform_statuses_length [OF A] by simp
  have unknown: "gs_code g = UNKNOWN" if "gs_code g \<noteq> OK"
    using that G by (auto simp: IrWriteRpcStatusToGrpcStatus_def IrWriteResponseToGrpcStatus_def split: if_splits)
  from grpc_details [OF G] len unknown mark_aborted_nth [of _ sts1] mark_aborted_all_OK [of False sts1]
  have "(gs_code g = OK \<longleftrightarrow> list_all (\<lambda>st. st = OK) sts1) \<and>
    (gs_code g \<noteq> OK \<longrightarrow> gs_code g = UNKNOWN \<and> length (gs_details g) = length (wr_updates req) \<and>
      (\<forall>i < length sts1. gs_details g ! i =
        (if sts1 ! i = OK \<or> list_all (\<lambda>st. st = OK) (take i sts1) then sts1 ! i else ABORTED)))"
    by simp
  with I P A len S show ?thesis
    by (intro exI [of _ info] exI [of _ sts] exI [of _ ups] exI [of _ b] exI [of _ sts1]) simp
qed

text \<open>
  C3. A completed write request updates the entity cache exactly for the updates that
  succeeded: inserted and modified entities are stored under their key, deleted ones are
  gone, and every other entry of the cache is as before.
\<close>

theorem Write_cache_effect:
  assumes "Write env req s = Some (g, s')"
    and "srv_write_batch_requests s' \<noteq> srv_write_batch_requests s"
    and "srv_ir_p4info s = Some info" and "caps_match info (srv_capacity s)"
    and "PiEntityUpdatesToIr env info (srv_port_queue s) (srv_entity_cache s) (srv_capacity s)
       (req_role (wr_access req)) (wr_updates req) = Some (sts, ups)"
    and "PerformAppDbUpdates (pe_sonic env) (map (\<lambda>(u, i). (eu_app_db_update u, i)) ups) (sts, srv_db s) =
       (Inr b, sts1, db)"
  shows "list_all (\<lambda>(u, i). srv_entity_cache s' (eu_entity_key u) =
       (if sts1 ! i \<noteq> OK then srv_entity_cache s (eu_entity_key u)
        else if eu_update_type u = DELETE then None else Some (eu_pi_entity u))) ups \<and>
    (\<forall>k. k \<notin> eu_entity_key ` fst ` set ups \<longrightarrow> srv_entity_cache s' k = srv_entity_cache s k)"
  using Write_bookkeeping [OF assms]
  by (fastforce simp: list_all_iff cache_effect_def image_comp split: prod.split)

text \<open>
  C9. As long as the updates that succeeded are the first ones of the batch, a write
  request never takes an action profile beyond its size.
\<close>

theorem Write_within_capacity:
  assumes "Write env req s = Some (g, s')"
    and "srv_write_batch_requests s' \<noteq> srv_write_batch_requests s"
    and "srv_ir_p4info s = Some info" and "caps_match info (srv_capacity s)"
    and P: "PiEntityUpdatesToIr env info (srv_port_queue s) (srv_entity_cache s) (srv_capacity s)
       (req_role (wr_access req)) (wr_updates req) = Some (sts, ups)"
    and A: "PerformAppDbUpdates (pe_sonic env) (map (\<lambda>(u, i). (eu_app_db_update u, i)) ups) (sts, srv_db s) =
       (Inr b, sts1, db)"
    and "ok_prefix sts1" and "within_capacity (srv_capacity s)"
  shows "within_capacity (srv_capacity s')"
  unfolding within_capacity_def
proof (intro allI impI)
  fix name c' assume c': "srv_capacity s' name = Some c'"
  let ?n = "length (takeWhile (\<lambda>st. st = OK) sts1)"
  from Write_bookkeeping [OF assms(1-6)] c' obtain c where c: "srv_capacity s name = Some c"
    "arc_action_profile c' = arc_action_profile c"
    "current_use c' = current_use c + batch_cost info name (filter (\<lambda>ui. sts1 ! snd ui = OK) ups)"
    by blast
  note acc = PiEntityUpdatesToIr_accepted [OF P]
  have idx: "map snd ups = [0 ..< 0 + length ups]"
    using accepted_indices [of info "srv_entity_cache s" "srv_capacity s" "[]" ups] acc by simp
  have "snd ui < length sts1" if "ui \<in> set ups" for ui
  proof -
    have "snd ui \<in> set [0 ..< length ups]" using acc that accepted_in_range by blast
    then show ?thesis using acc perform_statuses_length [OF A] by simp
  qed
  then have "filter (\<lambda>ui. sts1 ! snd ui = OK) ups = filter (\<lambda>ui. snd ui < ?n) ups"
    using ok_prefix_nth [OF assms(7)] by (auto intro: filter_cong)
  also have "\<dots> = take ?n ups" using filter_index_take [OF idx, of ?n] by simp
  finally have f: "filter (\<lambda>ui. sts1 ! snd ui = OK) ups = take ?n ups" .
  have "accepted info (srv_entity_cache s) (srv_capacity s) [] (take ?n ups)"
    using acc accepted_append [of info "srv_entity_cache s" "srv_capacity s" "[]" "take ?n ups" "drop ?n ups"]
    by simp
  moreover have "ap_size (arc_action_profile c) = 0 \<or> current_use c \<le> ap_size (arc_action_profile c)"
    using assms(8) c(1) unfolding within_capacity_def by blast
  ultimately show "ap_size (arc_action_profile c') = 0 \<or> current_use c' \<le> ap_size (arc_action_profile c')"
    using accepted_within [OF _ assms(4) c(1), of "srv_entity_cache s" "[]" "take ?n ups"] by (simp add: c f)
qed

section \<open>A concrete switch\<close>

text \<open>
  A switch with one table whose entries are weighted groups, identified by one exact match,
  on top of the in-memory SONiC database. The profile holds a total weight of 10.
\<close>

definition example_pi_group :: "string \<Rightarrow> int list \<Rightarrow> pi_entity" where
  "example_pi_group key ws = TableEntry \<lparr>pte_table_id = 1,
     pte_match = [\<lparr>fm_field_id = 1, fm_type = FmExact key\<rparr>],
     pte_action = PiActionProfileActionSet (map (\<lambda>w. \<lparr>apa_action = \<lparr>pi_action_id = 3, pi_params = []\<rparr>,
       apa_weight = w, apa_watch_port = []\<rparr>) ws),
     pte_priority = 0, pte_metadata = [], pte_is_default_action = False, pte_meter_config = None,
     pte_counter_data = None, pte_meter_counter_data = None\<rparr>"

definition example_pi_group_key :: "string \<Rightarrow> pi_entity" where
  "example_pi_group_key key = TableEntry (default_table_entry\<lparr>pte_table_id := 1,
     pte_match := [\<lparr>fm_field_id = 1, fm_type = FmExact key\<rparr>]\<rparr>)"

definition example_env :: "fake_db p4rt_env" where
  "example_env =
     \<lparr>pe_sonic = fake_env,
      pe_app_db = \<lparr>tr_hex_atoi = example_hex_atoi,
        tr_table_key = (\<lambda>e. case ite_matches e of [m] \<Rightarrow> Inr (ir_str (match_exact m)) | _ \<Rightarrow> Inl INVALID_ARGUMENT),
        tr_table_values = (\<lambda>e. Inr [(''table'', ite_table_name e)]),
        tr_replication = (\<lambda>_ _. Inl UNIMPLEMENTED)\<rparr>,
      pe_violation = (\<lambda>_. Inr []), pe_text = example_text_env\<rparr>"

definition example_key :: "string \<Rightarrow> entity_key" where
  "example_key key = (case MakeEntityKey (example_pi_group key []) of Inr k \<Rightarrow> k)"

text \<open>One group \<open>''old''\<close> of weight 6 is installed; OrchAgent refuses the keys in \<open>bad\<close>.\<close>

definition example_server :: "string list \<Rightarrow> fake_db p4rt_server" where
  "example_server bad =
     \<lparr>srv_controller_manager = example_two,
      srv_ir_p4info = Some (example_info (example_profile 10 8 None)),
      srv_entity_cache = [example_key ''old'' \<mapsto> example_pi_group ''old'' [2, 4]],
      srv_capacity = [''wcmp_group_selector'' \<mapsto>
        \<lparr>arc_action_profile = example_profile 10 8 None, arc_current_total_weight = 6, arc_current_total_members = 2\<rparr>],
      srv_port_queue = example_port_queue,
      srv_db = \<lparr>fake_app = \<lparr>fdb_entries = [], fdb_notifications = [],
          fdb_responses = map (\<lambda>k. (k, \<lparr>ri_code = ''SWSS_RC_FULL'', ri_message = []\<rparr>)) bad\<rparr>,
        fake_state = Some \<lparr>fdb_entries = [], fdb_notifications = [], fdb_responses = []\<rparr>\<rparr>,
      srv_write_batch_requests = 0, srv_write_total_requests = 0, srv_read_total_requests = 0\<rparr>"

definition example_request :: "pi_update list \<Rightarrow> write_request" where
  "example_request us =
     \<lparr>wr_access = \<lparr>req_device_id = 7, req_role = ''sdn_controller'', req_election_id = Some (0, 9)\<rparr>,
      wr_updates = us\<rparr>"

definition example_swap :: "pi_update list" where
  "example_swap = [\<lparr>pu_type = DELETE, pu_entity = example_pi_group ''old'' []\<rparr>,
     \<lparr>pu_type = INSERT, pu_entity = example_pi_group ''new'' [7]\<rparr>,
     \<lparr>pu_type = INSERT, pu_entity = example_pi_group ''huge'' [8]\<rparr>]"

definition example_translated :: "status_code list \<times> (entity_update \<times> nat) list" where
  "example_translated =
     the (PiEntityUpdatesToIr example_env (example_info (example_profile 10 8 None))
       (srv_port_queue (example_server [])) (srv_entity_cache (example_server [])) (srv_capacity (example_server [])) ''sdn_controller'' example_swap)"

definition example_performed :: "bool status_or \<times> status_code list \<times> fake_db" where
  "example_performed =
     PerformAppDbUpdates fake_env (map (\<lambda>(u, i). (eu_app_db_update u, i)) (snd example_translated))
       (fst example_translated, srv_db (example_server []))"

lemma example_translated_eq:
  "PiEntityUpdatesToIr example_env (example_info (example_profile 10 8 None))
     (srv_port_queue (example_server [])) (srv_entity_cache (example_server [])) (srv_capacity (example_server []))
     (req_role (wr_access (example_request example_swap))) (wr_updates (example_request example_swap)) =
   Some (fst example_translated, snd example_translated)"
proof -
  have "PiEntityUpdatesToIr example_env (example_info (example_profile 10 8 None))
     (srv_port_queue (example_server [])) (srv_entity_cache (example_server [])) (srv_capacity (example_server [])) ''sdn_controller'' example_swap \<noteq> None"
    by code_simp
  then show ?thesis by (auto simp: example_translated_def example_request_def)
qed

lemma example_performed_eq:
  "PerformAppDbUpdates (pe_sonic example_env)
     (map (\<lambda>(u, i). (eu_app_db_update u, i)) (snd example_translated))
     (fst example_translated, srv_db (example_server [])) =
   (Inr True, [OK, OK, RESOURCE_EXHAUSTED], snd (snd example_performed))"
proof -
  have "(case example_performed of (result, statuses, _) \<Rightarrow> (result, statuses)) = (Inr True, [OK, OK, RESOURCE_EXHAUSTED])"
    by code_simp
  then have "fst example_performed = Inr True" "fst (snd example_performed) = [OK, OK, RESOURCE_EXHAUSTED]"
    by (simp_all add: split_def)
  then show ?thesis
    by (metis (no_types, lifting) example_performed_def example_env_def p4rt_env.select_convs(1) prod.collapse)
qed

lemma example_write:
  obtains g s' where "Write example_env (example_request example_swap) (example_server []) = Some (g, s')"
    "srv_write_batch_requests s' \<noteq> srv_write_batch_requests (example_server [])"
    "g = \<lparr>gs_code = UNKNOWN, gs_details = [OK, OK, RESOURCE_EXHAUSTED]\<rparr>"
    "map_option current_use (srv_capacity s' ''wcmp_group_selector'') = Some 7"
proof -
  have "map_option (\<lambda>(g, s'). (srv_write_batch_requests s', g,
        map_option current_use (srv_capacity s' ''wcmp_group_selector'')))
      (Write example_env (example_request example_swap) (example_server [])) =
    Some (1, \<lparr>gs_code = UNKNOWN, gs_details = [OK, OK, RESOURCE_EXHAUSTED]\<rparr>, Some 7)"
    by code_simp
  then show ?thesis using that by (auto simp: example_server_def)
qed

lemma example_server_info: "srv_ir_p4info (example_server bad) = Some (example_info (example_profile 10 8 None))"
  by (simp add: example_server_def)

lemma example_server_caps:
  "caps_match (example_info (example_profile 10 8 None)) (srv_capacity (example_server bad))"
  "within_capacity (srv_capacity (example_server bad))"
  by (simp_all add: caps_match_def within_capacity_def example_server_def example_info_def lookup_defs example_profile_def
      Let_def current_use_def UsesSumOfMembers_def)

theorem Write_response_fail_on_first_witness:
  "\<exists>g s' info sts ups success outcomes.
     Write example_env (example_request example_swap) (example_server []) = Some (g, s') \<and>
     PiEntityUpdatesToIr example_env info (srv_port_queue (example_server [])) (srv_entity_cache (example_server []))
       (srv_capacity (example_server [])) ''sdn_controller'' example_swap = Some (sts, ups) \<and>
     PerformAppDbUpdates (pe_sonic example_env) (map (\<lambda>(u, i). (eu_app_db_update u, i)) ups)
       (sts, srv_db (example_server [])) = (Inr success, outcomes, srv_db s') \<and>
     gs_code g = UNKNOWN \<and> gs_details g = [OK, OK, RESOURCE_EXHAUSTED] \<and> length outcomes = 3 \<and>
     outcomes ! 0 = OK \<and> \<not> list_all (\<lambda>st. st = OK) outcomes"
proof -
  obtain g s' where w: "Write example_env (example_request example_swap) (example_server []) = Some (g, s')"
    "srv_write_batch_requests s' \<noteq> srv_write_batch_requests (example_server [])"
    "g = \<lparr>gs_code = UNKNOWN, gs_details = [OK, OK, RESOURCE_EXHAUSTED]\<rparr>"
    by (rule example_write)
  have req: "req_role (wr_access (example_request example_swap)) = ''sdn_controller''"
    "wr_updates (example_request example_swap) = example_swap" "length example_swap = 3"
    by (simp_all add: example_request_def example_swap_def)
  from Write_response_fail_on_first [OF w(1,2), unfolded req] obtain info sts ups success outcomes where
    o': "PiEntityUpdatesToIr example_env info (srv_port_queue (example_server [])) (srv_entity_cache (example_server []))
       (srv_capacity (example_server [])) ''sdn_controller'' example_swap = Some (sts, ups)"
    "PerformAppDbUpdates (pe_sonic example_env) (map (\<lambda>(u, i). (eu_app_db_update u, i)) ups)
       (sts, srv_db (example_server [])) = (Inr success, outcomes, srv_db s')"
    "length outcomes = 3" "gs_code g = OK \<longleftrightarrow> list_all (\<lambda>st. st = OK) outcomes"
    "gs_code g \<noteq> OK \<longrightarrow> (\<forall>i < length outcomes. gs_details g ! i =
        (if outcomes ! i = OK \<or> list_all (\<lambda>st. st = OK) (take i outcomes) then outcomes ! i else ABORTED))"
    by auto
  from o'(5) [THEN mp] have "outcomes ! 0 = OK" "\<not> list_all (\<lambda>st. st = OK) outcomes"
    using w(3) o'(3,4) by (auto dest!: spec [of _ 0])
  then show ?thesis
    using w(1,3) o'(1-3)
    by (intro exI [of _ g] exI [of _ s'] exI [of _ info] exI [of _ sts] exI [of _ ups] exI [of _ success]
        exI [of _ outcomes]) simp
qed

theorem Write_cache_effect_witness:
  "\<exists>g s'. Write example_env (example_request example_swap) (example_server []) = Some (g, s') \<and>
     srv_entity_cache s' (example_key ''old'') = None \<and>
     srv_entity_cache s' (example_key ''new'') = Some (example_pi_group ''new'' [7])"
proof -
  obtain g s' where w: "Write example_env (example_request example_swap) (example_server []) = Some (g, s')"
    "srv_write_batch_requests s' \<noteq> srv_write_batch_requests (example_server [])"
    by (rule example_write)
  let ?f = "\<lambda>(u, i :: nat). (eu_entity_key u, eu_update_type u, eu_pi_entity u, i)"
  have ups: "map ?f (snd example_translated) =
      [(example_key ''old'', DELETE, example_pi_group_key ''old'', 0),
       (example_key ''new'', INSERT, example_pi_group ''new'' [7], 1)]"
    by code_simp
  have "list_all (\<lambda>(u, i). srv_entity_cache s' (eu_entity_key u) =
       (if [OK, OK, RESOURCE_EXHAUSTED] ! i \<noteq> OK then srv_entity_cache (example_server []) (eu_entity_key u)
        else if eu_update_type u = DELETE then None else Some (eu_pi_entity u))) (snd example_translated)"
    using Write_cache_effect [OF w example_server_info example_server_caps(1) example_translated_eq
        example_performed_eq] by blast
  then have "list_all (\<lambda>(k, t, e, i). srv_entity_cache s' k =
       (if [OK, OK, RESOURCE_EXHAUSTED] ! i \<noteq> OK then srv_entity_cache (example_server []) k
        else if t = DELETE then None else Some e)) (map ?f (snd example_translated))"
    by (auto simp: list_all_iff split: prod.splits)
  then have "srv_entity_cache s' (example_key ''old'') = None \<and>
     srv_entity_cache s' (example_key ''new'') = Some (example_pi_group ''new'' [7])"
    unfolding ups by simp
  with w(1) show ?thesis by blast
qed

theorem Write_within_capacity_witness:
  "\<exists>g s'. Write example_env (example_request example_swap) (example_server []) = Some (g, s') \<and>
     within_capacity (srv_capacity s')"
proof -
  obtain g s' where w: "Write example_env (example_request example_swap) (example_server []) = Some (g, s')"
    "srv_write_batch_requests s' \<noteq> srv_write_batch_requests (example_server [])"
    by (rule example_write)
  have "ok_prefix [OK, OK, RESOURCE_EXHAUSTED]" by code_simp
  from Write_within_capacity [OF w example_server_info example_server_caps(1) example_translated_eq
      example_performed_eq this example_server_caps(2)] w(1)
  show ?thesis by blast
qed

text \<open>
  The assumption on OrchAgent is needed: resources that a DELETE of the batch would free are
  credited to the later updates of the same batch, so when OrchAgent refuses the DELETE but
  accepts a later INSERT, the profile ends up over-committed.
\<close>

theorem Write_overcommits_after_failed_delete:
  "\<exists>s g s'. within_capacity (srv_capacity s) \<and>
     Write example_env (example_request example_swap) s = Some (g, s') \<and>
     gs_details g = [RESOURCE_EXHAUSTED, OK, ABORTED] \<and> \<not> within_capacity (srv_capacity s')"
proof -
  have "map_option (\<lambda>(g, s'). (gs_details g, srv_capacity s' ''wcmp_group_selector''))
      (Write example_env (example_request example_swap) (example_server [''old''])) =
    Some ([RESOURCE_EXHAUSTED, OK, ABORTED], Some \<lparr>arc_action_profile = example_profile 10 8 None,
      arc_current_total_weight = 13, arc_current_total_members = 3\<rparr>)"
    by code_simp
  then obtain g s' where w: "Write example_env (example_request example_swap) (example_server [''old'']) = Some (g, s')"
    "gs_details g = [RESOURCE_EXHAUSTED, OK, ABORTED]"
    and c: "srv_capacity s' ''wcmp_group_selector'' = Some \<lparr>arc_action_profile = example_profile 10 8 None,
      arc_current_total_weight = 13, arc_current_total_members = 3\<rparr>"
    by (auto split: prod.splits)
  have "\<not> within_capacity (srv_capacity s')"
    unfolding within_capacity_def using c by (force simp: example_profile_def current_use_def UsesSumOfMembers_def)
  with w example_server_caps(2) show ?thesis by blast
qed

lemma PiUpdateToEntityUpdate_total:
  assumes "inet_round_trip (pe_text env)" "p4info_ok info" "prefixes_ok (pu_entity pu)"
  shows "PiUpdateToEntityUpdate env info pq role_name pu \<noteq> None"
proof (cases "PiEntityToIr (pe_text env) info (pu_entity pu) (default_options\<lparr>key_only := (pu_type pu = DELETE)\<rparr>)")
  case (Inr ir)
  from entity_normal_form [OF assms this] obtain pi where
    "IrEntityToPi (pe_text env) info ir (default_options\<lparr>key_only := (pu_type pu = DELETE)\<rparr>) = Inr pi" by blast
  with Inr show ?thesis by (simp add: PiUpdateToEntityUpdate_def Let_def split: sum.splits)
qed (simp add: PiUpdateToEntityUpdate_def)

lemma translate_updates_total:
  assumes "inet_round_trip (pe_text env)" "p4info_ok info"
  shows "list_all (\<lambda>pu. prefixes_ok (pu_entity pu)) pus \<Longrightarrow>
    translate_updates env info pq cache caps role_name pus ks batch sts ups \<noteq> None"
proof (induction pus arbitrary: ks batch sts ups)
  case (Cons pu pus)
  have "PiUpdateToEntityUpdate env info pq role_name pu \<noteq> None"
    using PiUpdateToEntityUpdate_total [OF assms] Cons.prems by simp
  with Cons show ?case by (auto simp del: not_None_eq simp: Let_def split: option.splits sum.splits)
qed simp

text \<open>
  C10. Every write request is answered: for a P4Info whose definitions are consistent, no request
  without negative prefix lengths makes the server dereference a failed normalization, whatever
  the state and the outcome.
\<close>

theorem Write_answers:
  assumes "inet_round_trip (pe_text env)"
    and "\<forall>info. srv_ir_p4info s = Some info \<longrightarrow> p4info_ok info"
    and "list_all (\<lambda>pu. prefixes_ok (pu_entity pu)) (wr_updates req)"
  shows "\<exists>g s'. Write env req s = Some (g, s')"
proof (cases "srv_ir_p4info s")
  case (Some info)
  have "PiEntityUpdatesToIr env info (srv_port_queue s) (srv_entity_cache s) (srv_capacity s)
      (req_role (wr_access req)) (wr_updates req) \<noteq> None"
    using translate_updates_total [OF assms(1) _ assms(3), of info "srv_port_queue s" "srv_entity_cache s"
        "srv_capacity s" "req_role (wr_access req)" "[]" Map.empty "[]" "[]"] assms(2) Some
    by (auto simp: PiEntityUpdatesToIr_def Let_def split: option.splits)
  with Some show ?thesis
    by (auto simp: Write_def Let_def split: option.splits sum.splits prod.splits)
qed (auto simp: Write_def Let_def)

theorem Write_answers_witness:
  "\<exists>g s'. Write example_env (example_request [\<lparr>pu_type = INSERT, pu_entity = example_route [CHR 0x0A] 8\<rparr>])
     ((example_server [])\<lparr>srv_ir_p4info := Some example_route_info\<rparr>) = Some (g, s')"
proof -
  have "inet_round_trip (pe_text example_env)" by (simp add: example_env_def example_inet_round_trip)
  moreover have "prefixes_ok (example_route [CHR 0x0A] 8)"
    by (simp add: prefixes_ok_def prefix_ok_def example_route_def pi_table_entry_of_def)
  ultimately show ?thesis
    using Write_answers [of example_env "(example_server [])\<lparr>srv_ir_p4info := Some example_route_info\<rparr>"
        "example_request [\<lparr>pu_type = INSERT, pu_entity = example_route [CHR 0x0A] 8\<rparr>]"] example_route_info_ok
    by (simp add: example_request_def)
qed

text \<open>
  A negative prefix length can end the server, here that of a single inserted route: after translating the
  entity back to PI the code tests the status of the first translation again, so the failed second translation is
  dereferenced when the entity's key is made.
\<close>

theorem Write_aborts_on_negative_prefix:
  "\<exists>req s info. srv_ir_p4info s = Some info \<and> p4info_ok info \<and> length (wr_updates req) = 1 \<and>
     Write example_env req s = None"
proof (intro exI conjI)
  let ?s = "(example_server [])\<lparr>srv_ir_p4info := Some example_route_info\<rparr>"
  let ?u = "\<lparr>pu_type = INSERT, pu_entity = example_route [CHR 0x00] (- 1)\<rparr>"
  have opt: "default_options\<lparr>key_only := False\<rparr> = default_options" by (simp add: default_options_def)
  have "UpdateIrEntityForOrchAgent example_text_env example_route_info example_port_queue (example_ir_route 0 (- 1)) =
      Inr (example_ir_route 0 (- 1))"
    by (simp add: UpdateIrEntityForOrchAgent_def UpdateIrTableEntryForOrchAgent_def Convert64BitIpv6AclMatchFieldsTo128Bit_def
        convert_ipv6_match_def example_ir_route_def default_ir_table_entry_def TranslateTableEntry_def for_orch_agent_def
        example_route_defs TranslateMatchField_def IsPortType_def TranslateAction_def translate_param_def
        translate_param_value_def IsCpuQueue_def IsFrontPanelQueue_def)
  then have u: "PiUpdateToEntityUpdate example_env example_route_info example_port_queue ''sdn_controller'' ?u = None"
    using example_negative_prefix
    by (simp add: PiUpdateToEntityUpdate_def opt example_env_def ValidateTableEntryConstraints_def Let_def
        example_ir_route_def default_ir_table_entry_def AllowRoleAccessToTable_def)
      (simp add: example_route_info_def lookup_defs example_route_table_def)
  have "AllowRequest_Write (wr_access (example_request [?u])) (srv_controller_manager ?s) = OK" by code_simp
  then show "Write example_env (example_request [?u]) ?s = None"
    using u by (simp add: Write_def PiEntityUpdatesToIr_def example_request_def example_server_def)
  show "srv_ir_p4info ?s = Some example_route_info" by simp
  show "length (wr_updates (example_request [?u])) = 1" by (simp add: example_request_def)
qed (rule example_route_info_ok)

section \<open>The cache holds normal forms\<close>

definition normal_entity :: "text_env \<Rightarrow> ir_p4info \<Rightarrow> pi_entity \<Rightarrow> bool" where
  "normal_entity env info e \<longleftrightarrow>
     (\<exists>ir. PiEntityToIr env info e default_options = Inr ir \<and> IrEntityToPi env info ir default_options = Inr e)"

definition cache_normal :: "text_env \<Rightarrow> ir_p4info \<Rightarrow> entity_map \<Rightarrow> bool" where
  "cache_normal env info cache \<longleftrightarrow>
     (\<forall>k e. cache k = Some e \<longrightarrow> MakeEntityKey e = Inr k \<and> normal_entity env info e)"

definition update_normal :: "text_env \<Rightarrow> ir_p4info \<Rightarrow> entity_update \<Rightarrow> bool" where
  "update_normal env info u \<longleftrightarrow>
     MakeEntityKey (eu_pi_entity u) = Inr (eu_entity_key u) \<and>
     (eu_update_type u \<noteq> DELETE \<longrightarrow> normal_entity env info (eu_pi_entity u))"

lemma PiUpdateToEntityUpdate_normal:
  assumes "inet_round_trip (pe_text env)" "p4info_ok info" "prefixes_ok (pu_entity pu)"
    "PiUpdateToEntityUpdate env info pq role_name pu = Some (Inr u)"
  shows "update_normal (pe_text env) info (u\<lparr>eu_resource_utilization_change := change\<rparr>)"
proof -
  have key: "MakeEntityKey (eu_pi_entity u) = Inr (eu_entity_key u)" "eu_update_type u = pu_type pu"
    using PiUpdateToEntityUpdate_key [OF assms(4)] by simp_all
  have "normal_entity (pe_text env) info (eu_pi_entity u)" if nd: "pu_type pu \<noteq> DELETE"
  proof -
    have opt: "default_options\<lparr>key_only := False\<rparr> = default_options" by (simp add: default_options_def)
    obtain ir where ir: "PiEntityToIr (pe_text env) info (pu_entity pu) default_options = Inr ir"
      "IrEntityToPi (pe_text env) info ir default_options = Inr (eu_pi_entity u)"
      using assms(4) nd by (auto simp: PiUpdateToEntityUpdate_def opt Let_def split: sum.splits if_splits)
    from entity_normal_form [OF assms(1-3) ir(1)] ir(2)
    have "PiEntityToIr (pe_text env) info (eu_pi_entity u) default_options = Inr ir" by (simp add: default_options_def)
    with ir(2) show ?thesis unfolding normal_entity_def by blast
  qed
  with key show ?thesis by (simp add: update_normal_def)
qed

lemma translate_updates_normal:
  assumes "inet_round_trip (pe_text env)" "p4info_ok info"
  shows "translate_updates env info pq cache caps role_name pus ks batch sts ups = Some (dup, sts', ups') \<Longrightarrow>
    list_all (\<lambda>pu. prefixes_ok (pu_entity pu)) pus \<Longrightarrow> list_all (\<lambda>ui. update_normal (pe_text env) info (fst ui)) ups \<Longrightarrow>
    list_all (\<lambda>ui. update_normal (pe_text env) info (fst ui)) ups'"
proof (induction pus arbitrary: ks batch sts ups)
  case (Cons pu pus)
  show ?case
  proof (cases "PiUpdateToEntityUpdate env info pq role_name pu")
    case (Some r)
    show ?thesis
    proof (cases r)
      case (Inr u)
      have "update_normal (pe_text env) info (u\<lparr>eu_resource_utilization_change := change\<rparr>)" for change
        by (rule PiUpdateToEntityUpdate_normal [OF assms]) (use Cons.prems(2) Some Inr in auto)
      then show ?thesis
        using Cons.prems Some Inr by (auto simp: Let_def split: if_splits sum.splits option.splits dest: Cons.IH)
    qed (use Cons.prems Some in auto)
  qed (use Cons.prems in simp)
qed simp

lemma cache_update_normal:
  "update_normal env info u \<Longrightarrow> cache_normal env info cache \<Longrightarrow> cache_update u cache = Inr cache' \<Longrightarrow>
   cache_normal env info cache'"
  by (auto simp: update_normal_def cache_normal_def cache_update_def split: update_type.splits if_splits)

lemma UpdateCache_normal:
  "UpdateCacheAndUtilizationState ups sts (cache, caps) = (st, cache', caps') \<Longrightarrow>
   list_all (\<lambda>ui. update_normal env info (fst ui)) ups \<Longrightarrow> cache_normal env info cache \<Longrightarrow> cache_normal env info cache'"
proof (induction ups arbitrary: cache caps)
  case (Cons ui ups)
  obtain u i where ui: "ui = (u, i)" by (cases ui)
  show ?case
    using Cons.prems cache_update_normal [of env info u cache]
    by (auto simp: ui split: if_splits sum.splits intro: Cons.IH)
qed simp

lemma Write_cacheE:
  assumes "Write env req s = Some (g, s')"
  obtains "srv_entity_cache s' = srv_entity_cache s"
    | info sts ups st caps sts2 where "srv_ir_p4info s = Some info"
      "PiEntityUpdatesToIr env info (srv_port_queue s) (srv_entity_cache s) (srv_capacity s)
         (req_role (wr_access req)) (wr_updates req) = Some (sts, ups)"
      "UpdateCacheAndUtilizationState ups sts2 (srv_entity_cache s, srv_capacity s) = (st, srv_entity_cache s', caps)"
  using assms by (auto simp: Write_def Let_def split: option.splits sum.splits prod.splits if_splits)

text \<open>
  C2. The entity cache holds normal forms: whatever a write request does, every cached entity is
  stored under its own key and is what its IR form translates back to. Hence two spellings of one
  entry, such as padded and unpadded bytes, never occupy two places of the cache: entities with
  the same IR form have the same key.
\<close>

theorem Write_keeps_cache_normal:
  assumes "inet_round_trip (pe_text env)" and "srv_ir_p4info s = Some info" and "p4info_ok info"
    and "list_all (\<lambda>pu. prefixes_ok (pu_entity pu)) (wr_updates req)"
    and "cache_normal (pe_text env) info (srv_entity_cache s)" and "Write env req s = Some (g, s')"
  shows "cache_normal (pe_text env) info (srv_entity_cache s') \<and>
    (\<forall>k e k' e'. srv_entity_cache s' k = Some e \<longrightarrow> srv_entity_cache s' k' = Some e' \<longrightarrow>
       PiEntityToIr (pe_text env) info e default_options = PiEntityToIr (pe_text env) info e' default_options \<longrightarrow>
       k = k')"
proof -
  have "cache_normal (pe_text env) info (srv_entity_cache s')"
    using assms(6)
  proof (cases rule: Write_cacheE)
    case 1
    with assms(5) show ?thesis by simp
  next
    case (2 info' sts ups st caps sts2)
    obtain dup sts0 ups0 where t: "translate_updates env info (srv_port_queue s) (srv_entity_cache s) (srv_capacity s)
        (req_role (wr_access req)) (wr_updates req) [] Map.empty [] [] = Some (dup, sts0, ups0)"
      and ups: "ups = (if dup then [] else ups0)"
      using 2(1,2) assms(2) by (auto simp: PiEntityUpdatesToIr_def Let_def split: option.splits prod.splits)
    have "list_all (\<lambda>ui. update_normal (pe_text env) info (fst ui)) ups"
      using translate_updates_normal [OF assms(1,3) t assms(4)] ups by simp
    from UpdateCache_normal [OF 2(3) this assms(5)] show ?thesis .
  qed
  moreover from this have "k = k'" if "srv_entity_cache s' k = Some e" "srv_entity_cache s' k' = Some e'"
    "PiEntityToIr (pe_text env) info e default_options = PiEntityToIr (pe_text env) info e' default_options" for k e k' e'
    using that unfolding cache_normal_def normal_entity_def by (metis Inr_inject)
  ultimately show ?thesis by blast
qed

lemma example_cache_normal:
  "cache_normal example_text_env (example_info (example_profile 10 8 None)) (srv_entity_cache (example_server []))"
proof -
  let ?e = "example_pi_group ''old'' [2, 4]" and ?info = "example_info (example_profile 10 8 None)"
  have "(case PiEntityToIr example_text_env ?info ?e default_options of
      Inr ir \<Rightarrow> IrEntityToPi example_text_env ?info ir default_options = Inr ?e | Inl _ \<Rightarrow> False)"
    by code_simp
  then have "normal_entity example_text_env ?info ?e" by (auto simp: normal_entity_def split: sum.splits)
  moreover have "MakeEntityKey ?e = Inr (example_key ''old'')" by code_simp
  ultimately show ?thesis by (simp add: cache_normal_def example_server_def)
qed

lemma example_info_ok: "p4info_ok (example_info ap)"
  by (auto simp: p4info_ok_def table_def_ok_def param_def_ok_def match_field_ok_def format_fits_def
      example_info_def lookup_defs example_table_def example_match_field_def example_action_def split: if_splits)

theorem Write_keeps_cache_normal_witness:
  "\<exists>g s'. Write example_env (example_request example_swap) (example_server []) = Some (g, s') \<and>
     cache_normal example_text_env (example_info (example_profile 10 8 None)) (srv_entity_cache s')"
proof -
  obtain g s' where w: "Write example_env (example_request example_swap) (example_server []) = Some (g, s')"
    by (rule example_write)
  have "list_all (\<lambda>pu. prefixes_ok (pu_entity pu)) (wr_updates (example_request example_swap))"
    by (simp add: example_request_def example_swap_def prefixes_ok_def prefix_ok_def example_pi_group_def pi_table_entry_of_def)
  moreover have env: "pe_text example_env = example_text_env" by (simp add: example_env_def)
  ultimately show ?thesis
    using Write_keeps_cache_normal [of example_env, unfolded env, OF example_inet_round_trip example_server_info
        example_info_ok _ example_cache_normal w] w by blast
qed

end
