(* ===== verification/Annotations.thy ===== *)
theory Annotations
  imports Pdpi_Types Number_Text
begin

text \<open>
  P4 annotations (\<open>p4_infra/p4_pdpi/annotation_parser.{h,cc}\<close>) and the table types that are
  derived from them (\<open>p4rt_app/utils/table_utility.cc\<close>). Names from \<open>swss/schema.h\<close> are the
  record \<open>swss_names\<close>.
\<close>

section \<open>Parsing one annotation\<close>

definition IsWhitespace :: "char \<Rightarrow> bool" where
  "IsWhitespace c \<longleftrightarrow> c = CHR '' '' \<or> c = CHR 0x09 \<or> c = CHR 0x0A \<or> c = CHR 0x0D"

record annotation_components =
  ac_label :: string
  ac_body :: string

definition label_char :: "char \<Rightarrow> bool" where
  "label_char c \<longleftrightarrow> \<not> IsWhitespace c \<and> c \<noteq> CHR ''('' \<and> c \<noteq> CHR '')''"

text \<open>
  The search for the closing parenthesis runs backwards over white space and stops at the
  first character of the body.
\<close>

definition annotation_body :: "string \<Rightarrow> string status_or" where
  "annotation_body r =
     (let r' = rev (dropWhile IsWhitespace (rev r))
      in if r' = [] \<or> last r' \<noteq> CHR '')'' then Inl INVALID_ARGUMENT else Inr (butlast r'))"

definition ParseAnnotation :: "string \<Rightarrow> annotation_components status_or" where
  "ParseAnnotation annotation =
     (case dropWhile IsWhitespace annotation of
        [] \<Rightarrow> Inl INVALID_ARGUMENT
      | c # cs \<Rightarrow>
          if c \<noteq> CHR ''@'' then Inl INVALID_ARGUMENT
          else let label = takeWhile label_char cs
               in if label = [] then Inl INVALID_ARGUMENT
                  else (case dropWhile IsWhitespace (dropWhile label_char cs) of
                          [] \<Rightarrow> Inr \<lparr>ac_label = label, ac_body = []\<rparr>
                        | d # ds \<Rightarrow>
                            if d \<noteq> CHR ''('' then Inl INVALID_ARGUMENT
                            else bind_or (annotation_body ds)
                                   (\<lambda>body. Inr \<lparr>ac_label = label, ac_body = body\<rparr>)))"

section \<open>Argument lists\<close>

fun arg_loop :: "string \<Rightarrow> string list \<Rightarrow> char list \<Rightarrow> string \<Rightarrow> string list status_or" where
  "arg_loop [] tokens scope token =
     (if scope \<noteq> [] then Inl INVALID_ARGUMENT
      else if tokens = [] \<and> token = [] then Inr tokens
      else Inr (tokens @ [token]))"
| "arg_loop (c # cs) tokens scope token =
     (if scope = [] \<and> c = CHR '','' then arg_loop cs (tokens @ [token]) scope []
      else if scope \<noteq> [] \<and> c = hd scope then arg_loop cs tokens (tl scope) (token @ [c])
      else if scope = [] \<or> hd scope \<noteq> CHR 0x22 then
        if c = CHR ''('' then arg_loop cs tokens (CHR '')'' # scope) (token @ [c])
        else if c = CHR ''['' then arg_loop cs tokens (CHR '']'' # scope) (token @ [c])
        else if c = CHR ''{'' then arg_loop cs tokens (CHR ''}'' # scope) (token @ [c])
        else if c = CHR 0x22 then arg_loop cs tokens (CHR 0x22 # scope) (token @ [c])
        else if IsWhitespace c then arg_loop cs tokens scope token
        else if c \<in> {CHR '')'', CHR '']'', CHR ''}''} then Inl INVALID_ARGUMENT
        else arg_loop cs tokens scope (token @ [c])
      else arg_loop cs tokens scope (token @ [c]))"

definition ParseAsArgList :: "string \<Rightarrow> string list status_or" where
  "ParseAsArgList v = arg_loop v [] [] []"

section \<open>Looking annotations up\<close>

fun GetAllAnnotations :: "string list \<Rightarrow> annotation_components list" where
  "GetAllAnnotations [] = []"
| "GetAllAnnotations (a # as) =
     (case ParseAnnotation a of
        Inr c \<Rightarrow> c # GetAllAnnotations as
      | Inl _ \<Rightarrow> GetAllAnnotations as)"

fun GetAllParsedAnnotations :: "string \<Rightarrow> string list \<Rightarrow> (string \<Rightarrow> 'a status_or) \<Rightarrow> 'a list status_or" where
  "GetAllParsedAnnotations label [] parser = Inr []"
| "GetAllParsedAnnotations label (a # as) parser =
     (case ParseAnnotation a of
        Inl _ \<Rightarrow> GetAllParsedAnnotations label as parser
      | Inr c \<Rightarrow>
          if ac_label c = label
          then bind_or (parser (ac_body c)) (\<lambda>v.
                 bind_or (GetAllParsedAnnotations label as parser) (\<lambda>vs. Inr (v # vs)))
          else GetAllParsedAnnotations label as parser)"

definition GetParsedAnnotation :: "string \<Rightarrow> string list \<Rightarrow> (string \<Rightarrow> 'a status_or) \<Rightarrow> 'a status_or" where
  "GetParsedAnnotation label as parser =
     bind_or (GetAllParsedAnnotations label as parser) (\<lambda>vs.
       case vs of
         [] \<Rightarrow> Inl NOT_FOUND
       | [v] \<Rightarrow> Inr v
       | _ \<Rightarrow> Inl INVALID_ARGUMENT)"

definition GetAnnotationAsArgList :: "string \<Rightarrow> string list \<Rightarrow> string list status_or" where
  "GetAnnotationAsArgList label as = GetParsedAnnotation label as ParseAsArgList"

definition GetAllAnnotationsAsArgList :: "string \<Rightarrow> string list \<Rightarrow> string list list status_or" where
  "GetAllAnnotationsAsArgList label as = GetAllParsedAnnotations label as ParseAsArgList"

definition GetAnnotationBody :: "string \<Rightarrow> string list \<Rightarrow> string status_or" where
  "GetAnnotationBody label as = GetParsedAnnotation label as Inr"

definition GetAllAnnotationBodies :: "string \<Rightarrow> string list \<Rightarrow> string list status_or" where
  "GetAllAnnotationBodies label as = GetAllParsedAnnotations label as Inr"

section \<open>Table types\<close>

datatype table_type = kAcl | kFixed | kExt | kAclDefinition | kTblsDefinitionSet

record swss_names =
  sn_fixed_tables :: "string list"
  sn_acl_table_definition_name :: string
  sn_tables_definition_table_name :: string

definition TypeName :: "swss_names \<Rightarrow> table_type \<Rightarrow> string" where
  "TypeName names t =
     (case t of
        kAcl \<Rightarrow> ''ACL'' | kFixed \<Rightarrow> ''FIXED'' | kExt \<Rightarrow> ''EXT''
      | kAclDefinition \<Rightarrow> sn_acl_table_definition_name names
      | kTblsDefinitionSet \<Rightarrow> sn_tables_definition_table_name names)"

definition TypeParse :: "swss_names \<Rightarrow> string \<Rightarrow> table_type status_or" where
  "TypeParse names s =
     (if s = ''ACL'' then Inr kAcl
      else if s = ''FIXED'' then Inr kFixed
      else if s = ''EXT'' then Inr kExt
      else if s = sn_acl_table_definition_name names then Inr kAclDefinition
      else if s = sn_tables_definition_table_name names then Inr kTblsDefinitionSet
      else Inl INVALID_ARGUMENT)"

definition conditional_kExt :: "ir_table_definition \<Rightarrow> table_type" where
  "conditional_kExt t = (if itd_id t > 0x03000000 then kExt else kFixed)"

definition ascii_toupper :: "char \<Rightarrow> char" where
  "ascii_toupper c = (let n = of_char c :: nat in if 97 \<le> n \<and> n \<le> 122 then char_of (n - 32) else c)"

definition GetTableType :: "swss_names \<Rightarrow> ir_table_definition \<Rightarrow> table_type status_or" where
  "GetTableType names t =
     (let table_name = map ascii_toupper (''FIXED_'' @ itd_alias t)
      in case GetAnnotationBody ''sai_acl'' (itd_annotations t) of
           Inr _ \<Rightarrow> Inr kAcl
         | Inl e \<Rightarrow>
             if e = NOT_FOUND
             then Inr (if table_name \<in> set (sn_fixed_tables names) then kFixed else conditional_kExt t)
             else Inl INVALID_ARGUMENT)"

section \<open>Table definitions for OrchAgent\<close>

definition composite_of_udfs :: "string list \<Rightarrow> bool" where
  "composite_of_udfs annotations =
     (case GetAnnotationAsArgList ''composite_field'' annotations of
        Inl _ \<Rightarrow> False
      | Inr args \<Rightarrow> args \<noteq> [] \<and> list_all (\<lambda>a. ac_label a = ''sai_udf'') (GetAllAnnotations args))"

definition SetCompositeUdfFieldFormatToHexString :: "ir_match_field_definition \<Rightarrow> ir_match_field_definition" where
  "SetCompositeUdfFieldFormatToHexString match_def =
     (if mfd_format match_def = HEX_STRING then match_def
      else if composite_of_udfs (mfd_annotations match_def) then match_def\<lparr>mfd_format := HEX_STRING\<rparr>
      else match_def)"

definition TranslateIrTableDefForOrchAgent :: "ir_table_definition \<Rightarrow> ir_table_definition" where
  "TranslateIrTableDefForOrchAgent table_def =
     table_def\<lparr>itd_match_fields_by_id :=
         map (\<lambda>(k, d). (k, SetCompositeUdfFieldFormatToHexString d)) (itd_match_fields_by_id table_def),
       itd_match_fields_by_name :=
         map (\<lambda>(k, d). (k, SetCompositeUdfFieldFormatToHexString d)) (itd_match_fields_by_name table_def)\<rparr>"

definition TranslateIrP4InfoForOrchAgent :: "ir_p4info \<Rightarrow> ir_p4info" where
  "TranslateIrP4InfoForOrchAgent p4_info =
     p4_info\<lparr>tables_by_id_entries := map (\<lambda>(k, t). (k, TranslateIrTableDefForOrchAgent t)) (tables_by_id_entries p4_info),
       tables_by_name_entries := map (\<lambda>(k, t). (k, TranslateIrTableDefForOrchAgent t)) (tables_by_name_entries p4_info)\<rparr>"

lemma SetCompositeUdf_idem:
  "SetCompositeUdfFieldFormatToHexString (SetCompositeUdfFieldFormatToHexString d) =
   SetCompositeUdfFieldFormatToHexString d"
  by (simp add: SetCompositeUdfFieldFormatToHexString_def)

lemma TranslateIrTableDef_idem:
  "TranslateIrTableDefForOrchAgent (TranslateIrTableDefForOrchAgent t) = TranslateIrTableDefForOrchAgent t"
  by (simp add: TranslateIrTableDefForOrchAgent_def SetCompositeUdf_idem o_def split_def)

text \<open>Translating the program information a second time changes nothing.\<close>

lemma TranslateIrP4Info_idem:
  "TranslateIrP4InfoForOrchAgent (TranslateIrP4InfoForOrchAgent i) = TranslateIrP4InfoForOrchAgent i"
  by (simp add: TranslateIrP4InfoForOrchAgent_def o_def TranslateIrTableDef_idem split_def)

section \<open>Lemmas\<close>

definition white :: "string \<Rightarrow> bool" where
  "white w = list_all IsWhitespace w"

lemma dropWhile_white: "white w \<Longrightarrow> dropWhile IsWhitespace (w @ s) = dropWhile IsWhitespace s"
  by (induction w) (simp_all add: white_def)

lemma split_white: "\<exists>w. s = w @ dropWhile IsWhitespace s \<and> white w"
  by (rule exI [of _ "takeWhile IsWhitespace s"]) (auto simp: white_def list_all_iff dest: set_takeWhileD)

lemma split_white_back: "\<exists>w. s = rev (dropWhile IsWhitespace (rev s)) @ w \<and> white w"
proof -
  obtain w where "rev s = w @ dropWhile IsWhitespace (rev s)" "white w" using split_white by blast
  then have "s = rev (dropWhile IsWhitespace (rev s)) @ rev w \<and> white (rev w)"
    by (metis rev_append rev_rev_ident list_all_rev white_def)
  then show ?thesis by blast
qed

lemma annotation_body_iff:
  "annotation_body r = Inr b \<longleftrightarrow> (\<exists>w. white w \<and> r = b @ '')'' @ w)"
proof
  assume b: "annotation_body r = Inr b"
  obtain w where w: "r = rev (dropWhile IsWhitespace (rev r)) @ w" "white w" using split_white_back by blast
  from b have "rev (dropWhile IsWhitespace (rev r)) = b @ '')''"
    unfolding annotation_body_def Let_def
    by (metis append_butlast_last_id sum.distinct(1) sum.inject(2))
  with w show "\<exists>w. white w \<and> r = b @ '')'' @ w" by auto
next
  assume "\<exists>w. white w \<and> r = b @ '')'' @ w"
  then obtain w where w: "white w" "r = b @ '')'' @ w" by blast
  have "rev r = rev w @ CHR '')'' # rev b" using w by simp
  moreover have "white (rev w)" using w by (simp add: white_def)
  ultimately have "dropWhile IsWhitespace (rev r) = CHR '')'' # rev b"
    by (simp add: dropWhile_white IsWhitespace_def)
  then show "annotation_body r = Inr b" by (simp add: annotation_body_def)
qed

lemma label_prefix:
  assumes "list_all label_char l" and "r = [] \<or> \<not> label_char (hd r)"
  shows "takeWhile label_char (l @ r) = l \<and> dropWhile label_char (l @ r) = r"
  using assms by (induction l) (cases r; auto)+

lemma white_not_label: "white w \<Longrightarrow> w @ CHR ''('' # r = [] \<or> \<not> label_char (hd (w @ CHR ''('' # r))"
  by (cases w) (auto simp: white_def label_char_def)

lemma ParseAnnotation_iff:
  "ParseAnnotation s = Inr c \<longleftrightarrow>
     ac_label c \<noteq> [] \<and> list_all label_char (ac_label c) \<and>
     (\<exists>w1 w2 w3. white w1 \<and> white w2 \<and> white w3 \<and>
        (s = w1 @ ''@'' @ ac_label c @ w2 \<and> ac_body c = [] \<or>
         s = w1 @ ''@'' @ ac_label c @ w2 @ ''('' @ ac_body c @ '')'' @ w3))"
    (is "_ \<longleftrightarrow> ?R")
proof
  assume P: "ParseAnnotation s = Inr c"
  obtain w1 where w1: "s = w1 @ dropWhile IsWhitespace s" "white w1" using split_white by blast
  from P obtain cs where cs: "dropWhile IsWhitespace s = CHR ''@'' # cs"
    and l: "takeWhile label_char cs \<noteq> []"
    and rest: "(case dropWhile IsWhitespace (dropWhile label_char cs) of
                  [] \<Rightarrow> Inr \<lparr>ac_label = takeWhile label_char cs, ac_body = []\<rparr>
                | d # ds \<Rightarrow> if d \<noteq> CHR ''('' then Inl INVALID_ARGUMENT
                    else bind_or (annotation_body ds)
                      (\<lambda>body. Inr \<lparr>ac_label = takeWhile label_char cs, ac_body = body\<rparr>)) = Inr c"
    by (auto simp: ParseAnnotation_def Let_def split: list.splits if_splits)
  obtain w2 where w2: "dropWhile label_char cs = w2 @ dropWhile IsWhitespace (dropWhile label_char cs)" "white w2"
    using split_white by blast
  have lab: "ac_label c = takeWhile label_char cs"
    using rest by (auto split: list.splits if_splits)
  have all: "list_all label_char (takeWhile label_char cs)"
    by (auto simp: list_all_iff dest: set_takeWhileD)
  have s: "s = w1 @ ''@'' @ ac_label c @ w2 @ dropWhile IsWhitespace (dropWhile label_char cs)"
    using w1(1) cs w2(1) lab takeWhile_dropWhile_id [of label_char cs] by (metis append.assoc append_Cons append_Nil)
  show ?R
  proof (cases "dropWhile IsWhitespace (dropWhile label_char cs)")
    case Nil
    with rest have "ac_body c = []" by auto
    moreover have "s = w1 @ ''@'' @ ac_label c @ w2" using s Nil by simp
    moreover have "white []" by (simp add: white_def)
    ultimately show ?thesis using w1(2) w2(2) l lab all by metis
  next
    case (Cons d ds)
    with rest obtain b where "d = CHR ''(''" "annotation_body ds = Inr b" "ac_body c = b"
      by (auto split: if_splits)
    then obtain w3 where "white w3" "d # ds = ''('' @ ac_body c @ '')'' @ w3"
      by (auto simp: annotation_body_iff)
    with Cons s w1(2) w2(2) l lab all show ?thesis by metis
  qed
next
  assume R: ?R
  then obtain w1 w2 w3 where w: "white w1" "white w2" "white w3"
    and s: "s = w1 @ ''@'' @ ac_label c @ w2 \<and> ac_body c = [] \<or>
         s = w1 @ ''@'' @ ac_label c @ w2 @ ''('' @ ac_body c @ '')'' @ w3" by blast
  from R have l: "ac_label c \<noteq> []" "list_all label_char (ac_label c)" by blast+
  from s show "ParseAnnotation s = Inr c"
  proof
    assume s: "s = w1 @ ''@'' @ ac_label c @ w2 \<and> ac_body c = []"
    have "w2 = [] \<or> \<not> label_char (hd w2)" using w(2) by (cases w2) (auto simp: white_def label_char_def)
    note prefix = label_prefix [OF l(2) this]
    have "dropWhile IsWhitespace w2 = []" using w(2) by (auto simp: white_def list_all_iff)
    moreover have "\<not> IsWhitespace CHR ''@''" by (simp add: IsWhitespace_def)
    ultimately show ?thesis
      using prefix s w(1) l(1)
      by (simp add: ParseAnnotation_def dropWhile_white Let_def del: dropWhile_eq_Nil_conv)
  next
    assume s: "s = w1 @ ''@'' @ ac_label c @ w2 @ ''('' @ ac_body c @ '')'' @ w3"
    have "annotation_body (ac_body c @ '')'' @ w3) = Inr (ac_body c)"
      using w(3) by (auto simp: annotation_body_iff)
    moreover have "\<not> IsWhitespace CHR ''@''" "\<not> IsWhitespace CHR ''(''" by (simp_all add: IsWhitespace_def)
    ultimately show ?thesis
      using label_prefix [OF l(2) white_not_label [OF w(2), of "ac_body c @ '')'' @ w3"]] s w l(1)
      by (simp add: ParseAnnotation_def dropWhile_white Let_def)
  qed
qed

text \<open>Argument texts: brackets and quotes are closed, and there is no white space outside quotes.\<close>

definition plain_char :: "char \<Rightarrow> bool" where
  "plain_char c \<longleftrightarrow> \<not> IsWhitespace c \<and>
     c \<notin> {CHR '','', CHR ''('', CHR '')'', CHR ''['', CHR '']'', CHR ''{'', CHR ''}'', CHR 0x22}"

inductive arg_text :: "bool \<Rightarrow> string \<Rightarrow> bool" where
  empty: "arg_text inner []"
| plain: "plain_char c \<Longrightarrow> arg_text inner s \<Longrightarrow> arg_text inner (c # s)"
| comma: "arg_text True s \<Longrightarrow> arg_text True (CHR '','' # s)"
| parens: "arg_text True t \<Longrightarrow> arg_text inner s \<Longrightarrow> arg_text inner (''('' @ t @ '')'' @ s)"
| brackets: "arg_text True t \<Longrightarrow> arg_text inner s \<Longrightarrow> arg_text inner (''['' @ t @ '']'' @ s)"
| braces: "arg_text True t \<Longrightarrow> arg_text inner s \<Longrightarrow> arg_text inner (''{'' @ t @ ''}'' @ s)"
| quotes: "CHR 0x22 \<notin> set t \<Longrightarrow> arg_text inner s \<Longrightarrow> arg_text inner (CHR 0x22 # t @ CHR 0x22 # s)"

lemma arg_loop_quoted:
  "CHR 0x22 \<notin> set t \<Longrightarrow>
     arg_loop (t @ CHR 0x22 # r) tokens (CHR 0x22 # scope) token = arg_loop r tokens scope (token @ t @ [CHR 0x22])"
  by (induction t arbitrary: token) auto

lemma arg_loop_text:
  "arg_text inner s \<Longrightarrow> (scope \<noteq> [] \<longleftrightarrow> inner) \<Longrightarrow> (scope \<noteq> [] \<Longrightarrow> hd scope \<in> {CHR '')'', CHR '']'', CHR ''}''}) \<Longrightarrow>
     arg_loop (s @ r) tokens scope token = arg_loop r tokens scope (token @ s)"
proof (induction inner s arbitrary: r scope token rule: arg_text.induct)
  case (plain c inner s)
  then show ?case by (auto simp: plain_char_def)
next
  case (comma s)
  then show ?case by (auto simp: IsWhitespace_def)
next
  case (parens t inner s)
  have "hd scope \<noteq> CHR ''(''" if "scope \<noteq> []" using parens.prems(2) that by auto
  with parens.prems parens.IH(1) [of "CHR '')'' # scope" "'')'' @ s @ r"] parens.IH(2) show ?case by auto
next
  case (brackets t inner s)
  have "hd scope \<noteq> CHR ''[''" if "scope \<noteq> []" using brackets.prems(2) that by auto
  with brackets.prems brackets.IH(1) [of "CHR '']'' # scope" "'']'' @ s @ r"] brackets.IH(2) show ?case by auto
next
  case (braces t inner s)
  have "hd scope \<noteq> CHR ''{''" if "scope \<noteq> []" using braces.prems(2) that by auto
  with braces.prems braces.IH(1) [of "CHR ''}'' # scope" "''}'' @ s @ r"] braces.IH(2) show ?case by auto
next
  case (quotes t inner s)
  have "hd scope \<noteq> CHR 0x22" if "scope \<noteq> []" using quotes.prems(2) that by auto
  with quotes show ?case by (auto simp: arg_loop_quoted)
qed simp

fun join_args :: "string list \<Rightarrow> string" where
  "join_args [] = []"
| "join_args [a] = a"
| "join_args (a # as) = a @ '','' @ join_args as"

lemma arg_loop_join:
  "list_all (arg_text False) args \<Longrightarrow> args \<noteq> [] \<Longrightarrow> tokens = [] \<longrightarrow> args \<noteq> [[]] \<Longrightarrow>
     arg_loop (join_args args) tokens [] [] = Inr (tokens @ args)"
proof (induction args arbitrary: tokens rule: join_args.induct)
  case (2 a)
  then show ?case using arg_loop_text [of False a "[]" "[]" tokens "[]"] by simp
next
  case (3 a b bs)
  then show ?case using arg_loop_text [of False a "[]" "'','' @ join_args (b # bs)" tokens "[]"] by simp
qed simp

section \<open>Properties\<close>

text \<open>
  The annotation parser accepts exactly the documented forms: white space, an at sign, a
  nonempty label without white space or parentheses, and either nothing or a body in
  parentheses, with white space around; and it returns that label and body. Argument lists
  whose brackets and quotes are closed split exactly at the top-level commas.
\<close>

theorem annotation_parser_exact:
  "(ParseAnnotation s = Inr c \<longleftrightarrow>
     ac_label c \<noteq> [] \<and> list_all label_char (ac_label c) \<and>
     (\<exists>w1 w2 w3. white w1 \<and> white w2 \<and> white w3 \<and>
        (s = w1 @ ''@'' @ ac_label c @ w2 \<and> ac_body c = [] \<or>
         s = w1 @ ''@'' @ ac_label c @ w2 @ ''('' @ ac_body c @ '')'' @ w3))) \<and>
   (list_all (arg_text False) args \<and> args \<notin> {[], [[]]} \<longrightarrow> ParseAsArgList (join_args args) = Inr args)"
  using ParseAnnotation_iff [of s c] arg_loop_join [of args "[]"] by (simp add: ParseAsArgList_def)

theorem annotation_parser_exact_witness:
  "ParseAsArgList (join_args [''f(a,b)'', ''c'']) = Inr [''f(a,b)'', ''c''] \<and>
   ParseAnnotation ''@sai_acl (INGRESS) '' = Inr \<lparr>ac_label = ''sai_acl'', ac_body = ''INGRESS''\<rparr>"
proof -
  have "arg_text True ''a,b''"
    by (intro arg_text.intros) (simp_all add: plain_char_def IsWhitespace_def)
  then have "arg_text False (''('' @ ''a,b'' @ '')'' @ [])" by (intro arg_text.parens arg_text.empty)
  then have "arg_text False ''f(a,b)''"
    using arg_text.plain [of "CHR ''f''" False "''(a,b)''"] by (simp add: plain_char_def IsWhitespace_def)
  moreover have "arg_text False ''c''"
    by (intro arg_text.intros) (simp_all add: plain_char_def IsWhitespace_def)
  ultimately have "ParseAsArgList (join_args [''f(a,b)'', ''c'']) = Inr [''f(a,b)'', ''c'']"
    using annotation_parser_exact [of _ _ "[''f(a,b)'', ''c'']"] by simp
  moreover have "ParseAnnotation ''@sai_acl (INGRESS) '' = Inr \<lparr>ac_label = ''sai_acl'', ac_body = ''INGRESS''\<rparr>"
    by code_simp
  ultimately show ?thesis by blast
qed

end
