(* ===== verification/P4rt_Read.thy ===== *)
theory P4rt_Read
  imports P4rt_Write Annotations
begin

text \<open>
  The read path of the P4Runtime server (\<open>p4rt_app/p4runtime/p4runtime_read.cc\<close>, \<open>Read\<close> in
  \<open>p4runtime_impl.cc\<close>): wildcard reads of the entity cache, filtered by the role of the reader,
  with the counters of ACL entries read from the counters database. The cache is a hash map
  whose iteration order is unspecified: the loops run over a list that enumerates it.
\<close>

section \<open>Entries for OrchAgent\<close>

definition TranslatePiTableEntryForOrchAgent ::
  "text_env \<Rightarrow> ir_p4info \<Rightarrow> port_queue_config \<Rightarrow> bool \<Rightarrow> pi_table_entry \<Rightarrow> ir_table_entry status_or" where
  "TranslatePiTableEntryForOrchAgent env info pq translate_key_only pi =
     bind_or (PiTableEntryToIr env info pi (default_options\<lparr>key_only := translate_key_only\<rparr>))
       (UpdateIrTableEntryForOrchAgent env info pq)"

definition TranslatePiPacketReplicationEngineEntryForOrchAgent ::
  "text_env \<Rightarrow> ir_p4info \<Rightarrow> port_queue_config \<Rightarrow> bool \<Rightarrow> packet_replication_engine_entry \<Rightarrow>
   ir_packet_replication_engine_entry status_or" where
  "TranslatePiPacketReplicationEngineEntryForOrchAgent env info pq translate_key_only pi =
     bind_or (PiPacketReplicationEngineEntryToIr pi (default_options\<lparr>key_only := translate_key_only\<rparr>))
       (UpdateIrPacketReplicationEngineEntryForOrchAgent env info pq)"

definition TranslatePiEntityForOrchAgent ::
  "text_env \<Rightarrow> ir_p4info \<Rightarrow> port_queue_config \<Rightarrow> bool \<Rightarrow> pi_entity \<Rightarrow> ir_entity status_or" where
  "TranslatePiEntityForOrchAgent env info pq translate_key_only pi =
     (case pi of
        TableEntry e \<Rightarrow>
          bind_or (TranslatePiTableEntryForOrchAgent env info pq translate_key_only e) (\<lambda>x. Inr (IrTableEntry x))
      | PacketReplicationEngineEntry e \<Rightarrow>
          bind_or (TranslatePiPacketReplicationEngineEntryForOrchAgent env info pq translate_key_only e)
            (\<lambda>x. Inr (IrPacketReplicationEngineEntry x))
      | _ \<Rightarrow> PiEntityToIr env info pi (default_options\<lparr>key_only := translate_key_only\<rparr>))"

section \<open>Counters\<close>

definition default_counter_data :: counter_data where
  "default_counter_data = \<lparr>cd_byte_count = 0, cd_packet_count = 0\<rparr>"

definition default_meter_counter_data :: meter_counter_data where
  "default_meter_counter_data = \<lparr>mcd_green = None, mcd_yellow = None, mcd_red = None\<rparr>"

text \<open>The \<open>mutable\<close> accessors of protobuf create the message when it is absent.\<close>

definition mutable :: "'a \<Rightarrow> 'a option \<Rightarrow> 'a" where
  "mutable d m = (case m of Some x \<Rightarrow> x | None \<Rightarrow> d)"

definition set_packets :: "int \<Rightarrow> counter_data option \<Rightarrow> counter_data option" where
  "set_packets n c = Some ((mutable default_counter_data c)\<lparr>cd_packet_count := n\<rparr>)"

definition set_bytes :: "int \<Rightarrow> counter_data option \<Rightarrow> counter_data option" where
  "set_bytes n c = Some ((mutable default_counter_data c)\<lparr>cd_byte_count := n\<rparr>)"

definition append_counter :: "string \<Rightarrow> int \<Rightarrow> counter_data option \<Rightarrow> counter_data option" where
  "append_counter field n c =
     (if field = ''packets'' then set_packets n c else if field = ''bytes'' then set_bytes n c else c)"

definition append_meter_counter :: "string \<Rightarrow> int \<Rightarrow> meter_counter_data option \<Rightarrow> meter_counter_data option" where
  "append_meter_counter field n m =
     (let d = mutable default_meter_counter_data m
      in if field = ''green_packets'' then Some (d\<lparr>mcd_green := set_packets n (mcd_green d)\<rparr>)
         else if field = ''green_bytes'' then Some (d\<lparr>mcd_green := set_bytes n (mcd_green d)\<rparr>)
         else if field = ''yellow_packets'' then Some (d\<lparr>mcd_yellow := set_packets n (mcd_yellow d)\<rparr>)
         else if field = ''yellow_bytes'' then Some (d\<lparr>mcd_yellow := set_bytes n (mcd_yellow d)\<rparr>)
         else if field = ''red_packets'' then Some (d\<lparr>mcd_red := set_packets n (mcd_red d)\<rparr>)
         else if field = ''red_bytes'' then Some (d\<lparr>mcd_red := set_bytes n (mcd_red d)\<rparr>)
         else m)"

text \<open>
  \<open>SimpleAtoi\<close> reads a \<open>uint64_t\<close>, which the \<open>int64\<close> fields of the messages hold modulo \<open>2 ^ 64\<close>.
  Values that are no numbers are skipped.
\<close>

fun AppendCounterData ::
  "(string \<Rightarrow> nat option) \<Rightarrow> (string \<times> string) list \<Rightarrow> ir_table_entry \<Rightarrow> ir_table_entry" where
  "AppendCounterData atoi [] e = e"
| "AppendCounterData atoi ((field, v) # fvs) e =
     AppendCounterData atoi fvs
       (case atoi v of
          None \<Rightarrow> e
        | Some n \<Rightarrow>
            (let e' = e\<lparr>ite_counter_data := append_counter field (to_int64 (int n)) (ite_counter_data e)\<rparr>
             in if ite_meter_config e' = None then e'
                else e'\<lparr>ite_meter_counter_data :=
                       append_meter_counter field (to_int64 (int n)) (ite_meter_counter_data e')\<rparr>))"

record read_env =
  re_text :: text_env
  re_swss :: swss_names
  re_SimpleAtoi64 :: "string \<Rightarrow> nat option"
  re_table_key :: "ir_table_entry \<Rightarrow> string status_or"
  re_table_prefix :: string
  re_counter_db :: "string \<Rightarrow> (string \<times> string) list"

definition AppendCounterDataForTableEntry :: "read_env \<Rightarrow> ir_table_entry \<Rightarrow> ir_table_entry status_or" where
  "AppendCounterDataForTableEntry env e =
     bind_or (re_table_key env e) (\<lambda>key.
       Inr (AppendCounterData (re_SimpleAtoi64 env) (re_counter_db env (re_table_prefix env @ key)) e))"

definition AppendAclCounterData ::
  "read_env \<Rightarrow> ir_p4info \<Rightarrow> port_queue_config \<Rightarrow> pi_table_entry \<Rightarrow> pi_table_entry status_or" where
  "AppendAclCounterData env info pq pi =
     bind_or (TranslatePiTableEntryForOrchAgent (re_text env) info pq False pi) (\<lambda>ir.
     bind_or (AppendCounterDataForTableEntry env ir) (\<lambda>ir'.
       (let pi1 = (if ite_counter_data ir' \<noteq> None then pi\<lparr>pte_counter_data := ite_counter_data ir'\<rparr> else pi)
        in Inr (if ite_meter_counter_data ir' \<noteq> None
                then pi1\<lparr>pte_meter_counter_data := ite_meter_counter_data ir'\<rparr> else pi1))))"

section \<open>Reading the cache\<close>

definition SupportedTableEntryRequest :: "pi_table_entry \<Rightarrow> status_code" where
  "SupportedTableEntryRequest e =
     (if pte_table_id e \<noteq> 0 \<or> pte_match e \<noteq> [] \<or> pte_priority e \<noteq> 0 \<or> pte_metadata e \<noteq> [] \<or>
         pte_action e \<noteq> PiTableActionNotSet \<or> pte_is_default_action e
      then UNIMPLEMENTED else OK)"

definition SupportedPacketReplicationEntryRequest :: "packet_replication_engine_entry \<Rightarrow> status_code" where
  "SupportedPacketReplicationEntryRequest e =
     (case e of
        CloneSessionEntry i replicas _ _ \<Rightarrow> if i \<noteq> 0 \<or> replicas \<noteq> [] then UNIMPLEMENTED else OK
      | MulticastGroupEntry i replicas _ \<Rightarrow> if i \<noteq> 0 \<or> replicas \<noteq> [] then UNIMPLEMENTED else OK
      | PreNotSet \<Rightarrow> OK)"

text \<open>The entities appended to the last response.\<close>

definition AppendTableEntryReads ::
  "read_env \<Rightarrow> ir_p4info \<Rightarrow> port_queue_config \<Rightarrow> string \<Rightarrow> pi_entity list \<Rightarrow> pi_table_entry \<Rightarrow>
   pi_entity list status_or" where
  "AppendTableEntryReads env info pq role_name response cached_entry =
     (case tables_by_id info (pte_table_id cached_entry) of
        None \<Rightarrow> Inl INTERNAL
      | Some table_def \<Rightarrow>
          if role_name \<noteq> [] \<and> itd_role table_def \<noteq> role_name then Inr response
          else bind_or (GetTableType (re_swss env) table_def) (\<lambda>table_type.
            if table_type = kAcl
            then bind_or (AppendAclCounterData env info pq cached_entry) (\<lambda>e. Inr (response @ [TableEntry e]))
            else Inr (response @ [TableEntry cached_entry])))"

definition AppendPacketReplicationEntryReads :: "pi_entity list \<Rightarrow> pi_entity \<Rightarrow> pi_entity list status_or" where
  "AppendPacketReplicationEntryReads response cached_entry = Inr (response @ [cached_entry])"

definition next_batch :: "nat \<Rightarrow> pi_entity list list \<Rightarrow> pi_entity list list" where
  "next_batch batch_size responses =
     (if length responses \<ge> batch_size then responses @ [[]] else responses)"

fun read_table_entries ::
  "read_env \<Rightarrow> ir_p4info \<Rightarrow> port_queue_config \<Rightarrow> string \<Rightarrow> nat \<Rightarrow> (entity_key \<times> pi_entity) list \<Rightarrow>
   pi_entity list list \<Rightarrow> pi_entity list list status_or" where
  "read_table_entries env info pq role_name batch_size [] responses = Inr responses"
| "read_table_entries env info pq role_name batch_size ((k, entry) # cache) responses =
     (case entry of
        TableEntry e \<Rightarrow>
          bind_or (AppendTableEntryReads env info pq role_name (last responses) e) (\<lambda>r.
            read_table_entries env info pq role_name batch_size cache
              (next_batch batch_size (butlast responses @ [r])))
      | _ \<Rightarrow> read_table_entries env info pq role_name batch_size cache responses)"

definition replication_type :: "packet_replication_engine_entry \<Rightarrow> replication_type_case" where
  "replication_type e =
     (case e of MulticastGroupEntry _ _ _ \<Rightarrow> kMulticastGroupEntry | CloneSessionEntry _ _ _ _ \<Rightarrow> kCloneSessionEntry
      | PreNotSet \<Rightarrow> TYPE_NOT_SET)"

fun read_replication_entries ::
  "nat \<Rightarrow> replication_type_case \<Rightarrow> (entity_key \<times> pi_entity) list \<Rightarrow> pi_entity list list \<Rightarrow> pi_entity list list status_or" where
  "read_replication_entries batch_size t [] responses = Inr responses"
| "read_replication_entries batch_size t ((k, entry) # cache) responses =
     (case entry of
        PacketReplicationEngineEntry e \<Rightarrow>
          if t = replication_type e \<or> t = TYPE_NOT_SET
          then bind_or (AppendPacketReplicationEntryReads (last responses) entry) (\<lambda>r.
                 read_replication_entries batch_size t cache (next_batch batch_size (butlast responses @ [r])))
          else read_replication_entries batch_size t cache responses
      | _ \<Rightarrow> read_replication_entries batch_size t cache responses)"

fun read_entities ::
  "read_env \<Rightarrow> ir_p4info \<Rightarrow> port_queue_config \<Rightarrow> string \<Rightarrow> nat \<Rightarrow> (entity_key \<times> pi_entity) list \<Rightarrow> pi_entity list \<Rightarrow>
   pi_entity list list \<Rightarrow> pi_entity list list status_or" where
  "read_entities env info pq role_name batch_size cache [] responses = Inr responses"
| "read_entities env info pq role_name batch_size cache (entity # entities) responses =
     bind_or
       (case entity of
          TableEntry e \<Rightarrow>
            return_if_error (SupportedTableEntryRequest e)
              (read_table_entries env info pq role_name batch_size cache responses)
        | PacketReplicationEngineEntry e \<Rightarrow>
            return_if_error (SupportedPacketReplicationEntryRequest e)
              (read_replication_entries batch_size (replication_type e) cache responses)
        | _ \<Rightarrow> Inl UNIMPLEMENTED)
       (read_entities env info pq role_name batch_size cache entities)"

definition ReadAllEntitiesInBatches ::
  "read_env \<Rightarrow> nat \<Rightarrow> string \<Rightarrow> pi_entity list \<Rightarrow> ir_p4info \<Rightarrow> port_queue_config \<Rightarrow> (entity_key \<times> pi_entity) list \<Rightarrow>
   pi_entity list list status_or" where
  "ReadAllEntitiesInBatches env batch_size role_name entities info pq cache =
     bind_or (read_entities env info pq role_name batch_size cache entities [[]]) (\<lambda>responses.
       Inr (if length responses > 1 \<and> last responses = [] then butlast responses else responses))"

record read_request =
  rr_device_id :: "64 word"
  rr_role :: string
  rr_entities :: "pi_entity list"

definition kReadResponseBatchSize :: nat where "kReadResponseBatchSize = 2500"

text \<open>The handler: its status and the responses written to the stream.\<close>

definition Read ::
  "read_env \<Rightarrow> (entity_key \<times> pi_entity) list \<Rightarrow> read_request \<Rightarrow> 'db p4rt_server \<Rightarrow>
   status_code \<times> pi_entity list list \<times> 'db p4rt_server" where
  "Read env cache req s =
     (let connection_status = AllowRequest_Read (rr_device_id req) (srv_controller_manager s)
      in if connection_status \<noteq> OK then (connection_status, [], s)
         else case srv_ir_p4info s of
                None \<Rightarrow> (FAILED_PRECONDITION, [], s)
              | Some info \<Rightarrow>
                  (case ReadAllEntitiesInBatches env kReadResponseBatchSize (rr_role req) (rr_entities req) info
                          (srv_port_queue s) cache of
                     Inl _ \<Rightarrow> (UNKNOWN, [], s)
                   | Inr responses \<Rightarrow>
                       (OK, responses, s\<lparr>srv_read_total_requests := srv_read_total_requests s + 1\<rparr>)))"

section \<open>What a read reports\<close>

text \<open>
  The specification: an entity of the request selects entries of the cache, in the order of the
  cache; what is reported of a table entry is what would be appended to an empty response.
\<close>

definition table_entries :: "(entity_key \<times> pi_entity) list \<Rightarrow> pi_table_entry list" where
  "table_entries cache = concat (map (\<lambda>(k, e). case e of TableEntry t \<Rightarrow> [t] | _ \<Rightarrow> []) cache)"

lemma table_entries_simps [simp]:
  "table_entries [] = []"
  "table_entries ((k, e) # cache) = (case e of TableEntry t \<Rightarrow> t # table_entries cache | _ \<Rightarrow> table_entries cache)"
  by (simp_all add: table_entries_def split: pi_entity.splits)

definition replication_entries :: "replication_type_case \<Rightarrow> (entity_key \<times> pi_entity) list \<Rightarrow> pi_entity list" where
  "replication_entries t cache =
     filter (\<lambda>e. case e of PacketReplicationEngineEntry p \<Rightarrow> t = replication_type p \<or> t = TYPE_NOT_SET | _ \<Rightarrow> False)
       (map snd cache)"

definition read_spec ::
  "read_env \<Rightarrow> ir_p4info \<Rightarrow> port_queue_config \<Rightarrow> string \<Rightarrow> (entity_key \<times> pi_entity) list \<Rightarrow> pi_entity \<Rightarrow>
   pi_entity list status_or" where
  "read_spec env info pq role_name cache entity =
     (case entity of
        TableEntry e \<Rightarrow>
          return_if_error (SupportedTableEntryRequest e)
            (bind_or (map_or (AppendTableEntryReads env info pq role_name []) (table_entries cache))
              (\<lambda>reads. Inr (concat reads)))
      | PacketReplicationEngineEntry e \<Rightarrow>
          return_if_error (SupportedPacketReplicationEntryRequest e)
            (Inr (replication_entries (replication_type e) cache))
      | _ \<Rightarrow> Inl UNIMPLEMENTED)"

lemma bind_or_assoc: "bind_or (bind_or x f) g = bind_or x (\<lambda>y. bind_or (f y) g)"
  by (cases x) auto

lemma AppendTableEntryReads_append:
  "AppendTableEntryReads env info pq role_name response e =
   bind_or (AppendTableEntryReads env info pq role_name [] e) (\<lambda>r. Inr (response @ r))"
  by (auto simp: AppendTableEntryReads_def bind_or_assoc split: option.splits intro: bind_or_cong)

text \<open>The responses joined, and the responses when batches are never split.\<close>

definition batches :: "nat \<Rightarrow> pi_entity list list \<Rightarrow> bool" where
  "batches batch_size responses \<longleftrightarrow> responses \<noteq> [] \<and> (1 < batch_size \<longrightarrow> length responses = 1)"

lemma concat_snoc_last: "responses \<noteq> [] \<Longrightarrow> concat (butlast responses @ [last responses @ r]) = concat responses @ r"
  by (metis append.assoc append_Nil2 concat.simps concat_append append_butlast_last_id)

lemma next_batch_simps:
  assumes "batches batch_size responses"
  shows "batches batch_size (next_batch batch_size (butlast responses @ [last responses @ r]))"
    and "concat (next_batch batch_size (butlast responses @ [last responses @ r])) = concat responses @ r"
  using assms concat_snoc_last [of responses r] by (auto simp: batches_def next_batch_def)

lemma read_table_entries_spec:
  assumes "batches batch_size responses"
  shows "(case read_table_entries env info pq role_name batch_size cache responses of
       Inr rs \<Rightarrow> batches batch_size rs \<and>
         (\<exists>reads. map_or (AppendTableEntryReads env info pq role_name []) (table_entries cache) = Inr reads \<and>
            concat rs = concat responses @ concat reads)
     | Inl e \<Rightarrow> map_or (AppendTableEntryReads env info pq role_name []) (table_entries cache) = Inl e)"
  using assms
proof (induction cache arbitrary: responses)
  case (Cons kv cache)
  obtain k entry where kv: "kv = (k, entry)" by (cases kv)
  show ?case
  proof (cases entry)
    case (TableEntry t)
    show ?thesis
    proof (cases "AppendTableEntryReads env info pq role_name [] t")
      case (Inr r)
      let ?rs = "next_batch batch_size (butlast responses @ [last responses @ r])"
      note nb = next_batch_simps [OF Cons.prems, of r]
      have "read_table_entries env info pq role_name batch_size (kv # cache) responses =
          read_table_entries env info pq role_name batch_size cache ?rs"
        using Inr AppendTableEntryReads_append [of env info pq role_name "last responses" t] by (simp add: kv TableEntry)
      with Cons.IH [OF nb(1)] nb(2) Inr show ?thesis
        by (auto simp: kv TableEntry split: sum.splits)
    next
      case (Inl e)
      with AppendTableEntryReads_append [of env info pq role_name "last responses" t] show ?thesis
        by (simp add: kv TableEntry)
    qed
  qed (use Cons.IH [OF Cons.prems] in \<open>simp_all add: kv cong: sum.case_cong\<close>)
qed simp

lemma read_replication_entries_spec:
  "batches batch_size responses \<Longrightarrow>
   \<exists>rs. read_replication_entries batch_size t cache responses = Inr rs \<and> batches batch_size rs \<and>
     concat rs = concat responses @ replication_entries t cache"
proof (induction cache arbitrary: responses)
  case (Cons kv cache)
  obtain k entry where kv: "kv = (k, entry)" by (cases kv)
  note nb = next_batch_simps [OF Cons.prems, of "[entry]"]
  show ?case
    using Cons.IH [OF nb(1)] Cons.IH [OF Cons.prems] nb(2)
    by (cases entry) (auto simp: kv replication_entries_def AppendPacketReplicationEntryReads_def)
qed (simp add: replication_entries_def)

lemma read_entities_spec:
  assumes "batches batch_size responses"
  shows "(case read_entities env info pq role_name batch_size cache entities responses of
       Inr rs \<Rightarrow> batches batch_size rs \<and>
         (\<exists>reads. map_or (read_spec env info pq role_name cache) entities = Inr reads \<and>
            concat rs = concat responses @ concat reads)
     | Inl e \<Rightarrow> map_or (read_spec env info pq role_name cache) entities = Inl e)"
  using assms
proof (induction entities arbitrary: responses)
  case (Cons entity entities)
  let ?step = "case entity of
          TableEntry e \<Rightarrow>
            return_if_error (SupportedTableEntryRequest e)
              (read_table_entries env info pq role_name batch_size cache responses)
        | PacketReplicationEngineEntry e \<Rightarrow>
            return_if_error (SupportedPacketReplicationEntryRequest e)
              (read_replication_entries batch_size (replication_type e) cache responses)
        | _ \<Rightarrow> Inl UNIMPLEMENTED"
  have step: "case ?step of
       Inr rs \<Rightarrow> batches batch_size rs \<and>
         (\<exists>r. read_spec env info pq role_name cache entity = Inr r \<and> concat rs = concat responses @ r)
     | Inl e \<Rightarrow> read_spec env info pq role_name cache entity = Inl e"
  proof (cases entity)
    case (TableEntry e)
    with read_table_entries_spec [OF Cons.prems, of env info pq role_name cache] show ?thesis
      by (cases "read_table_entries env info pq role_name batch_size cache responses")
        (auto simp: read_spec_def return_if_error_def)
  next
    case (PacketReplicationEngineEntry e)
    with read_replication_entries_spec [OF Cons.prems, of "replication_type e" cache] show ?thesis
      by (auto simp: read_spec_def return_if_error_def)
  qed (simp_all add: read_spec_def)
  show ?case
  proof (cases ?step)
    case (Inl e)
    with step show ?thesis by simp
  next
    case (Inr rs)
    with step obtain r where r: "batches batch_size rs" "read_spec env info pq role_name cache entity = Inr r"
      "concat rs = concat responses @ r" by auto
    with Cons.IH [OF r(1)] Inr show ?thesis by (simp split: sum.splits) auto
  qed
qed simp


lemma ReadAll_spec:
  "bind_or (ReadAllEntitiesInBatches env batch_size role_name entities info pq cache) (\<lambda>rs. Inr (concat rs)) =
     bind_or (map_or (read_spec env info pq role_name cache) entities) (\<lambda>reads. Inr (concat reads))"
  "1 < batch_size \<Longrightarrow> ReadAllEntitiesInBatches env batch_size role_name entities info pq cache =
     bind_or (map_or (read_spec env info pq role_name cache) entities) (\<lambda>reads. Inr [concat reads])"
proof -
  have "batches batch_size [[]]" by (simp add: batches_def)
  note spec = read_entities_spec [OF this, of env info pq role_name cache entities]
  have drop: "concat (butlast rs) = concat rs" if "rs \<noteq> []" "last rs = []" for rs :: "pi_entity list list"
    using that by (metis append_Nil2 append_butlast_last_id concat.simps concat_append)
  show "bind_or (ReadAllEntitiesInBatches env batch_size role_name entities info pq cache) (\<lambda>rs. Inr (concat rs)) =
     bind_or (map_or (read_spec env info pq role_name cache) entities) (\<lambda>reads. Inr (concat reads))"
    using spec drop by (cases "read_entities env info pq role_name batch_size cache entities [[]]")
      (auto simp: ReadAllEntitiesInBatches_def batches_def)
  assume b: "1 < batch_size"
  have one: "rs = [concat rs]" if "batches batch_size rs" for rs
    using that b by (cases rs) (auto simp: batches_def)
  show "ReadAllEntitiesInBatches env batch_size role_name entities info pq cache =
     bind_or (map_or (read_spec env info pq role_name cache) entities) (\<lambda>reads. Inr [concat reads])"
  proof (cases "read_entities env info pq role_name batch_size cache entities [[]]")
    case (Inr rs)
    with spec obtain reads where r: "batches batch_size rs" "map_or (read_spec env info pq role_name cache) entities = Inr reads"
      "concat rs = concat reads" by auto
    from r(1) b have "length rs = 1" by (simp add: batches_def)
    with Inr r one [OF r(1)] show ?thesis by (simp add: ReadAllEntitiesInBatches_def)
  qed (use spec in \<open>simp add: ReadAllEntitiesInBatches_def\<close>)
qed

section \<open>Counters do not change entries\<close>

definition same_but_counters :: "pi_table_entry \<Rightarrow> pi_table_entry \<Rightarrow> bool" where
  "same_but_counters e e' \<longleftrightarrow>
     e'\<lparr>pte_counter_data := pte_counter_data e, pte_meter_counter_data := pte_meter_counter_data e\<rparr> = e"

definition visible :: "ir_p4info \<Rightarrow> string \<Rightarrow> pi_table_entry \<Rightarrow> bool" where
  "visible info role_name e =
     (case tables_by_id info (pte_table_id e) of
        Some table_def \<Rightarrow> role_name = [] \<or> itd_role table_def = role_name
      | None \<Rightarrow> False)"

lemma AppendAclCounterData_same: "AppendAclCounterData env info pq e = Inr e' \<Longrightarrow> same_but_counters e e'"
  by (auto simp: AppendAclCounterData_def same_but_counters_def Let_def split: if_splits)

lemma AppendTableEntryReads_reports:
  "AppendTableEntryReads env info pq role_name [] e = Inr r \<Longrightarrow>
     if visible info role_name e then \<exists>e'. r = [TableEntry e'] \<and> same_but_counters e e' else r = []"
  by (auto simp: AppendTableEntryReads_def visible_def same_but_counters_def dest: AppendAclCounterData_same
      split: option.splits if_splits)

lemma reads_reported:
  "map_or (AppendTableEntryReads env info pq role_name []) es = Inr reads \<Longrightarrow>
     \<exists>es'. concat reads = map TableEntry es' \<and> list_all2 same_but_counters (filter (visible info role_name) es) es'"
proof (induction es arbitrary: reads)
  case (Cons e es)
  then obtain r rest es' where r: "AppendTableEntryReads env info pq role_name [] e = Inr r" "reads = r # rest"
    and es': "concat rest = map TableEntry es'" "list_all2 same_but_counters (filter (visible info role_name) es) es'"
    by auto
  show ?case
  proof (cases "visible info role_name e")
    case True
    with AppendTableEntryReads_reports [OF r(1)] obtain e' where "r = [TableEntry e']" "same_but_counters e e'" by auto
    with True r es' show ?thesis by (intro exI [of _ "e' # es'"]) simp
  next
    case False
    with AppendTableEntryReads_reports [OF r(1)] r es' show ?thesis by auto
  qed
qed simp

lemma table_entries_iff: "e \<in> set (table_entries cache) \<longleftrightarrow> (\<exists>k. (k, TableEntry e) \<in> set cache)"
  by (induction cache) (auto split: pi_entity.splits)

fun selects :: "(pi_table_entry \<Rightarrow> bool) \<Rightarrow> entity_key \<times> pi_entity \<Rightarrow> bool" where
  "selects P (k, TableEntry e) = P e"
| "selects P (k, _) = False"

lemma selects_iff: "selects P kv \<longleftrightarrow> (\<exists>e. snd kv = TableEntry e \<and> P e)"
  by (cases "(P, kv)" rule: selects.cases) auto

lemma selected_entries:
  "filter P (table_entries cache) = map (\<lambda>kv. pi_table_entry_of (snd kv)) (filter (selects P) cache)"
  by (induction cache) (auto simp: pi_table_entry_of_def split: pi_entity.splits)

section \<open>A concrete read\<close>

definition example_read_env :: read_env where
  "example_read_env =
     \<lparr>re_text = example_text_env,
      re_swss = \<lparr>sn_fixed_tables = [''FIXED_WCMP_GROUP_TABLE''], sn_acl_table_definition_name = ''ACL_TABLE_DEFINITION'',
        sn_tables_definition_table_name = ''TABLES_DEFINITION''\<rparr>,
      re_SimpleAtoi64 = parse_base 10, re_table_key = (\<lambda>e. Inr (ite_table_name e)),
      re_table_prefix = ''P4RT:'', re_counter_db = (\<lambda>_. [])\<rparr>"

definition example_cache :: "(entity_key \<times> pi_entity) list" where
  "example_cache = [(example_key ''old'', example_pi_group ''old'' [2, 4])]"

definition example_read :: "string \<Rightarrow> read_request" where
  "example_read role_name = \<lparr>rr_device_id = 7, rr_role = role_name, rr_entities = [TableEntry default_table_entry]\<rparr>"

lemma example_read_result:
  "Read example_read_env example_cache (example_read ''sdn_controller'') (example_server []) =
   (OK, [[example_pi_group ''old'' [2, 4]]], (example_server [])\<lparr>srv_read_total_requests := 1\<rparr>)"
proof -
  have "AllowRequest_Read 7 (srv_controller_manager (example_server [])) = OK" by code_simp
  moreover have "ReadAllEntitiesInBatches example_read_env 2 ''sdn_controller'' [TableEntry default_table_entry]
      (example_info (example_profile 10 8 None)) example_port_queue example_cache = Inr [[example_pi_group ''old'' [2, 4]]]"
    by code_simp
  then have "ReadAllEntitiesInBatches example_read_env kReadResponseBatchSize ''sdn_controller'' [TableEntry default_table_entry]
      (example_info (example_profile 10 8 None)) example_port_queue example_cache = Inr [[example_pi_group ''old'' [2, 4]]]"
    using ReadAll_spec(2) [of 2] ReadAll_spec(2) [of kReadResponseBatchSize] by (simp add: kReadResponseBatchSize_def)
  ultimately show ?thesis by (simp add: Read_def example_read_def example_server_def Let_def)
qed

section \<open>Properties\<close>

text \<open>
  C7. A wildcard read of the table entries reports the cache: joined, the responses hold every cached entry
  of a table that the reader's role may see, once for each key of the cache and unchanged except for
  the counters, and nothing else; the cache itself does not change. The cache is enumerated in any order. How
  the entries are divided among the responses is a matter of its own, see \<open>ReadAllEntitiesInBatches_spec\<close>.
\<close>

theorem Read_reports_cached_entries:
  assumes "Read env cache req s = (OK, responses, s')" and "srv_ir_p4info s = Some info"
    and "rr_entities req = [TableEntry q]"
    and "map_of cache = srv_entity_cache s" and "distinct (map fst cache)"
  shows "\<exists>ks es. concat responses = map TableEntry es \<and> distinct ks \<and>
    set ks = {k. \<exists>e. srv_entity_cache s k = Some (TableEntry e) \<and> visible info (rr_role req) e} \<and>
    list_all2 (\<lambda>k e'. \<exists>e. srv_entity_cache s k = Some (TableEntry e) \<and> same_but_counters e e') ks es \<and>
    srv_entity_cache s' = srv_entity_cache s"
proof -
  let ?shown = "filter (selects (visible info (rr_role req))) cache"
  have r: "ReadAllEntitiesInBatches env kReadResponseBatchSize (rr_role req) [TableEntry q] info
      (srv_port_queue s) cache = Inr responses" "srv_entity_cache s' = srv_entity_cache s"
    using assms(1-3) by (auto simp: Read_def Let_def split: if_splits sum.splits)
  with ReadAll_spec(2) [of kReadResponseBatchSize env "rr_role req" "[TableEntry q]" info "srv_port_queue s" cache]
  obtain reads where reads: "map_or (AppendTableEntryReads env info (srv_port_queue s) (rr_role req) []) (table_entries cache) = Inr reads"
    "responses = [concat reads]"
    by (auto simp: kReadResponseBatchSize_def read_spec_def)
  from reads_reported [OF reads(1)] obtain es where es: "concat reads = map TableEntry es"
    "list_all2 same_but_counters (filter (visible info (rr_role req)) (table_entries cache)) es" by blast
  have lookup: "srv_entity_cache s k = Some e \<longleftrightarrow> (k, e) \<in> set cache" for k e
    using assms(4,5) by (metis map_of_eq_Some_iff)
  have "list_all2 (\<lambda>kv e'. same_but_counters (pi_table_entry_of (snd kv)) e') ?shown es"
    using es(2) by (simp add: selected_entries list_all2_map1)
  then have "list_all2 (\<lambda>kv e'. \<exists>e. srv_entity_cache s (fst kv) = Some (TableEntry e) \<and> same_but_counters e e') ?shown es"
    by (rule list.rel_mono_strong) (auto simp: lookup selects_iff pi_table_entry_of_def)
  then have "list_all2 (\<lambda>k e'. \<exists>e. srv_entity_cache s k = Some (TableEntry e) \<and> same_but_counters e e') (map fst ?shown) es"
    by (simp add: list_all2_map1)
  moreover have "distinct (map fst ?shown)" using assms(5) by (rule distinct_map_filter)
  moreover have "set (map fst ?shown) = {k. \<exists>e. srv_entity_cache s k = Some (TableEntry e) \<and> visible info (rr_role req) e}"
    by (force simp: lookup selects_iff)
  ultimately show ?thesis using r(2) es(1) reads(2)
    by (intro exI [of _ "map fst ?shown"] exI [of _ es]) simp
qed

theorem Read_reports_cached_entries_witness:
  "\<exists>ks es. [example_pi_group ''old'' [2, 4]] = map TableEntry es \<and> distinct ks \<and>
     set ks = {k. \<exists>e. srv_entity_cache (example_server []) k = Some (TableEntry e) \<and>
                visible (example_info (example_profile 10 8 None)) ''sdn_controller'' e}"
proof -
  have "map_of example_cache = srv_entity_cache (example_server [])" "distinct (map fst example_cache)"
    by (simp_all add: example_cache_def example_server_def)
  moreover have "rr_entities (example_read ''sdn_controller'') = [TableEntry default_table_entry]"
    "rr_role (example_read ''sdn_controller'') = ''sdn_controller''"
    by (simp_all add: example_read_def)
  ultimately have "\<exists>ks es. concat [[example_pi_group ''old'' [2, 4]]] = map TableEntry es \<and> distinct ks \<and>
     set ks = {k. \<exists>e. srv_entity_cache (example_server []) k = Some (TableEntry e) \<and>
                visible (example_info (example_profile 10 8 None)) (rr_role (example_read ''sdn_controller'')) e} \<and>
     list_all2 (\<lambda>k e'. \<exists>e. srv_entity_cache (example_server []) k = Some (TableEntry e) \<and> same_but_counters e e') ks es \<and>
     srv_entity_cache ((example_server [])\<lparr>srv_read_total_requests := 1\<rparr>) = srv_entity_cache (example_server [])"
    by (intro Read_reports_cached_entries [OF example_read_result example_server_info])
  then obtain ks es where "concat [[example_pi_group ''old'' [2, 4]]] = map TableEntry es" "distinct ks"
     "set ks = {k. \<exists>e. srv_entity_cache (example_server []) k = Some (TableEntry e) \<and>
                visible (example_info (example_profile 10 8 None)) (rr_role (example_read ''sdn_controller'')) e}"
    by blast
  then show ?thesis by (intro exI [of _ ks] exI [of _ es]) (simp add: example_read_def)
qed

text \<open>
  Reading in batches is reading each entity of the request from the cache in turn: the
  responses joined are the entries the request selects, and an error is the first error of those
  reads, whatever the batch size. The batch size however bounds the number of responses, not
  their entities: unless it is at most one, everything is put into one response.
\<close>

theorem ReadAllEntitiesInBatches_spec:
  "bind_or (ReadAllEntitiesInBatches env batch_size role_name entities info pq cache) (\<lambda>rs. Inr (concat rs)) =
     bind_or (map_or (read_spec env info pq role_name cache) entities) (\<lambda>reads. Inr (concat reads)) \<and>
   (1 < batch_size \<longrightarrow> ReadAllEntitiesInBatches env batch_size role_name entities info pq cache =
     bind_or (map_or (read_spec env info pq role_name cache) entities) (\<lambda>reads. Inr [concat reads]))"
  using ReadAll_spec by blast

theorem ReadAllEntitiesInBatches_spec_witness:
  "ReadAllEntitiesInBatches example_read_env 2500 [] [PacketReplicationEngineEntry PreNotSet] example_route_info
     example_port_queue (map (\<lambda>i. (PacketReplicationEntryKey \<lparr>prk_type = kMulticastGroupEntry, prk_id = i\<rparr>,
       PacketReplicationEngineEntry (MulticastGroupEntry i [] []))) [0 ..< 9999]) =
   Inr [map (\<lambda>i. PacketReplicationEngineEntry (MulticastGroupEntry i [] [])) [0 ..< 9999]]"
proof -
  let ?cache = "map (\<lambda>i. (PacketReplicationEntryKey \<lparr>prk_type = kMulticastGroupEntry, prk_id = i\<rparr>,
       PacketReplicationEngineEntry (MulticastGroupEntry i [] []))) [0 ..< 9999]"
  have "replication_entries TYPE_NOT_SET ?cache =
      map (\<lambda>i. PacketReplicationEngineEntry (MulticastGroupEntry i [] [])) [0 ..< 9999]"
    by (simp add: replication_entries_def comp_def filter_map filter_True del: upt_conv_Cons)
  then show ?thesis
    using ReadAllEntitiesInBatches_spec [of example_read_env 2500 "[]" "[PacketReplicationEngineEntry PreNotSet]"
        example_route_info example_port_queue ?cache]
    by (simp add: read_spec_def SupportedPacketReplicationEntryRequest_def replication_type_def del: upt_conv_Cons upt_rec_numeral)
qed

end
