(* ===== verification/Packet_Io.thy ===== *)
theory Packet_Io
  imports P4rt_Read
begin

text \<open>
  Packet I/O: PDPI's translation of packet-in and packet-out metadata
  (\<open>p4_infra/p4_pdpi/ir.cc\<close>), the metadata and ports of packets
  (\<open>p4rt_app/p4runtime/packetio_helpers.cc\<close>), and the server's stream channel, which handles
  arbitration updates and packets of one controller and delivers packets received from the
  switch (\<open>StreamChannel\<close> and \<open>StartReceive\<close> in \<open>p4runtime_impl.cc\<close>). Sockets are behind
  \<open>PacketIoInterface\<close>, which is a parameter. A stream takes the server's lock for each of its
  messages; runs of the server interleave the messages of all streams with the other handlers.
\<close>

section \<open>Metadata\<close>

record ir_packet =
  irp_payload :: string
  irp_metadata :: "(string \<times> ir_value) list"

text \<open>
  The loop over the metadata of a packet: whether a reason to refuse it was found, and the
  metadata translated. Padding must be zero and is left out of the IR.
\<close>

fun pi_metadata_to_ir ::
  "text_env \<Rightarrow> (nat \<times> ir_packet_io_metadata_definition) list \<Rightarrow> nat set \<Rightarrow> (nat \<times> string) list \<Rightarrow>
   bool \<times> (string \<times> ir_value) list" where
  "pi_metadata_to_ir env defs used [] = (False, [])"
| "pi_metadata_to_ir env defs used ((i, v) # ms) =
     (if i \<in> used then (True, snd (pi_metadata_to_ir env defs used ms))
      else let (bad, rest) = pi_metadata_to_ir env defs (insert i used) ms
      in case map_of defs i of
           None \<Rightarrow> (True, rest)
         | Some d \<Rightarrow>
             if imd_is_padding d then (bad \<or> \<not> all_zero_bytes v, rest)
             else (case ArbitraryByteStringToIrValue env (imd_format d) (imd_bitwidth d) v of
                     Inl _ \<Rightarrow> (True, rest)
                   | Inr x \<Rightarrow> (bad, (imd_name d, x) # rest)))"

definition PiPacketIoToIr ::
  "text_env \<Rightarrow> (nat \<times> ir_packet_io_metadata_definition) list \<Rightarrow> packet_message \<Rightarrow> ir_packet status_or" where
  "PiPacketIoToIr env metadata_by_id packet =
     (let (bad, metadata) = pi_metadata_to_ir env metadata_by_id {} (pkt_metadata packet);
          missing = list_ex (\<lambda>(i, _). i \<notin> set (map fst (pkt_metadata packet))) metadata_by_id
      in unless_invalid (bad \<or> missing) (Inr \<lparr>irp_payload = pkt_payload packet, irp_metadata = metadata\<rparr>))"

definition PiPacketInToIr :: "text_env \<Rightarrow> ir_p4info \<Rightarrow> packet_message \<Rightarrow> ir_packet status_or" where
  "PiPacketInToIr env info packet = PiPacketIoToIr env (packet_in_metadata_by_id info) packet"

definition PiPacketOutToIr :: "text_env \<Rightarrow> ir_p4info \<Rightarrow> packet_message \<Rightarrow> ir_packet status_or" where
  "PiPacketOutToIr env info packet = PiPacketIoToIr env (packet_out_metadata_by_id info) packet"

definition CreatePaddingMetadata :: "nat \<Rightarrow> nat \<times> string" where
  "CreatePaddingMetadata metadata_id = (metadata_id, [CHR 0x00])"

fun ir_metadata_to_pi ::
  "text_env \<Rightarrow> translation_options \<Rightarrow> (string \<times> ir_packet_io_metadata_definition) list \<Rightarrow> string set \<Rightarrow>
   (string \<times> ir_value) list \<Rightarrow> bool \<times> (nat \<times> string) list" where
  "ir_metadata_to_pi env options defs used [] = (False, [])"
| "ir_metadata_to_pi env options defs used ((name, v) # ms) =
     (if name \<in> used then (True, snd (ir_metadata_to_pi env options defs used ms))
      else let (bad, rest) = ir_metadata_to_pi env options defs (insert name used) ms
      in case map_of defs name of
           None \<Rightarrow> (True, rest)
         | Some d \<Rightarrow>
             if imd_is_padding d then (True, rest)
             else (case ir_value_to_bytes env options (imd_format d) (imd_bitwidth d) v of
                     Inl _ \<Rightarrow> (True, rest)
                   | Inr b \<Rightarrow> (bad, (imd_id d, canonical_unless_string (imd_format d) b) # rest)))"

text \<open>Padding is inserted, and missing metadata found, in the order of the map by name.\<close>

definition IrPacketIoToPi ::
  "text_env \<Rightarrow> translation_options \<Rightarrow> (string \<times> ir_packet_io_metadata_definition) list \<Rightarrow> ir_packet \<Rightarrow>
   packet_message status_or" where
  "IrPacketIoToPi env options metadata_by_name packet =
     (let (bad, metadata) = ir_metadata_to_pi env options metadata_by_name {} (irp_metadata packet);
          padding = map (\<lambda>(_, d). CreatePaddingMetadata (imd_id d)) (filter (\<lambda>(_, d). imd_is_padding d) metadata_by_name);
          missing = list_ex (\<lambda>(name, d). \<not> imd_is_padding d \<and> name \<notin> set (map fst (irp_metadata packet))) metadata_by_name
      in unless_invalid (bad \<or> missing) (Inr \<lparr>pkt_payload = irp_payload packet, pkt_metadata = metadata @ padding\<rparr>))"

definition IrPacketInToPi :: "text_env \<Rightarrow> ir_p4info \<Rightarrow> translation_options \<Rightarrow> ir_packet \<Rightarrow> packet_message status_or" where
  "IrPacketInToPi env info options packet = IrPacketIoToPi env options (packet_in_metadata_by_name info) packet"

definition IrPacketOutToPi :: "text_env \<Rightarrow> ir_p4info \<Rightarrow> translation_options \<Rightarrow> ir_packet \<Rightarrow> packet_message status_or" where
  "IrPacketOutToPi env info options packet = IrPacketIoToPi env options (packet_out_metadata_by_name info) packet"

section \<open>Packets of the switch\<close>

definition PACKET_IN_INGRESS_PORT_ID :: nat where "PACKET_IN_INGRESS_PORT_ID = 1"
definition PACKET_IN_TARGET_EGRESS_PORT_ID :: nat where "PACKET_IN_TARGET_EGRESS_PORT_ID = 2"
definition PACKET_OUT_EGRESS_PORT_ID :: nat where "PACKET_OUT_EGRESS_PORT_ID = 1"
definition PACKET_OUT_SUBMIT_TO_INGRESS_ID :: nat where "PACKET_OUT_SUBMIT_TO_INGRESS_ID = 2"
definition PACKET_OUT_UNUSED_PAD_ID :: nat where "PACKET_OUT_UNUSED_PAD_ID = 3"
definition SEND_TO_INGRESS_PORT_NAME :: string where "SEND_TO_INGRESS_PORT_NAME = ''SEND_TO_INGRESS''"

definition CreatePacketInMessage :: "string \<Rightarrow> string \<Rightarrow> packet_message" where
  "CreatePacketInMessage source_port_id target_port_id =
     \<lparr>pkt_payload = [], pkt_metadata = [(PACKET_IN_INGRESS_PORT_ID, source_port_id),
        (PACKET_IN_TARGET_EGRESS_PORT_ID, target_port_id)]\<rparr>"

fun packet_out_attributes :: "(nat \<times> string) list \<Rightarrow> string \<times> nat \<Rightarrow> (string \<times> nat) status_or" where
  "packet_out_attributes [] acc = Inr acc"
| "packet_out_attributes ((i, v) # ms) (egress_port_id, submit_to_ingress) =
     (if i = PACKET_OUT_EGRESS_PORT_ID then packet_out_attributes ms (v, submit_to_ingress)
      else if i = PACKET_OUT_SUBMIT_TO_INGRESS_ID
      then bind_or (ArbitraryByteStringToUint v 1) (\<lambda>n. packet_out_attributes ms (egress_port_id, n))
      else if i = PACKET_OUT_UNUSED_PAD_ID then packet_out_attributes ms (egress_port_id, submit_to_ingress)
      else Inl INVALID_ARGUMENT)"

text \<open>The port a packet-out is sent to.\<close>

definition packet_out_port ::
  "text_env \<Rightarrow> ir_p4info \<Rightarrow> port_queue_config \<Rightarrow> packet_message \<Rightarrow> string status_or" where
  "packet_out_port env info pq packet =
     bind_or (PiPacketOutToIr env info packet) (\<lambda>_.
     bind_or (packet_out_attributes (pkt_metadata packet) ([], 0)) (\<lambda>(egress_port_id, submit_to_ingress).
       if submit_to_ingress = 1 then Inr SEND_TO_INGRESS_PORT_NAME
       else if pq_translate_port_ids pq then TranslatePort env kForOrchAgent (pq_port_map pq) egress_port_id
       else Inr egress_port_id))"

section \<open>The server's packet I/O\<close>

record packetio_counters =
  packet_out_sent :: nat
  packet_out_errors :: nat
  packet_in_received :: nat
  packet_in_errors :: nat

text \<open>The packets handed to \<open>PacketIoInterface::SendPacketOut\<close> are recorded.\<close>

record 'db io_server =
  io_p4rt :: "'db p4rt_server"
  io_counters :: packetio_counters
  io_sent :: "(string \<times> string) list"

definition SendPacketOut ::
  "text_env \<Rightarrow> (string \<Rightarrow> string \<Rightarrow> status_code) \<Rightarrow> ir_p4info \<Rightarrow> packet_message \<Rightarrow> 'db io_server \<Rightarrow>
   status_code \<times> 'db io_server" where
  "SendPacketOut env packetio_impl info packet s =
     (case packet_out_port env info (srv_port_queue (io_p4rt s)) packet of
        Inl e \<Rightarrow> (e, s)
      | Inr sonic_port_name \<Rightarrow>
          (packetio_impl sonic_port_name (pkt_payload packet),
           s\<lparr>io_sent := io_sent s @ [(sonic_port_name, pkt_payload packet)]\<rparr>))"

definition HandlePacketOutRequest ::
  "text_env \<Rightarrow> (string \<Rightarrow> string \<Rightarrow> status_code) \<Rightarrow> packet_message \<Rightarrow> 'db io_server \<Rightarrow> status_code \<times> 'db io_server" where
  "HandlePacketOutRequest env packetio_impl packet s =
     (case srv_ir_p4info (io_p4rt s) of
        None \<Rightarrow> (FAILED_PRECONDITION, s)
      | Some info \<Rightarrow> SendPacketOut env packetio_impl info packet s)"

definition io_manager :: "'db io_server \<Rightarrow> sdn_controller_manager" where
  "io_manager s = srv_controller_manager (io_p4rt s)"

definition with_manager :: "sdn_controller_manager \<Rightarrow> 'db io_server \<Rightarrow> 'db io_server" where
  "with_manager m s = s\<lparr>io_p4rt := (io_p4rt s)\<lparr>srv_controller_manager := m\<rparr>\<rparr>"

definition count_packet_out_error :: "'db io_server \<Rightarrow> 'db io_server" where
  "count_packet_out_error s =
     s\<lparr>io_counters := (io_counters s)\<lparr>packet_out_errors := packet_out_errors (io_counters s) + 1\<rparr>\<rparr>"

definition count_packet_out_sent :: "'db io_server \<Rightarrow> 'db io_server" where
  "count_packet_out_sent s =
     s\<lparr>io_counters := (io_counters s)\<lparr>packet_out_sent := packet_out_sent (io_counters s) + 1\<rparr>\<rparr>"

definition respond :: "nat \<Rightarrow> stream_message_response \<Rightarrow> 'db io_server \<Rightarrow> 'db io_server" where
  "respond c m s = with_manager (SendStreamMessageResponse c m (io_manager s)) s"

datatype stream_message_request =
    ArbitrationRequest master_arbitration_update
  | PacketRequest packet_message
  | OtherRequest

text \<open>
  The body of the loop of \<open>StreamChannel\<close> for the connection object \<open>c\<close>: it either ends the stream
  with a status or goes on.
\<close>

definition handle_stream_request ::
  "text_env \<Rightarrow> (string \<Rightarrow> string \<Rightarrow> status_code) \<Rightarrow> nat \<Rightarrow> stream_message_request \<Rightarrow> 'db io_server \<Rightarrow>
   (status_code \<times> 'db io_server) + 'db io_server" where
  "handle_stream_request env packetio_impl c request s =
     (case request of
        ArbitrationRequest upd \<Rightarrow>
          (case HandleArbitrationUpdate upd c (io_manager s) of
             (status, m) \<Rightarrow>
               if status \<noteq> OK then Inl (status, with_manager (Disconnect c m) s) else Inr (with_manager m s))
      | PacketRequest packet \<Rightarrow>
          (if AllowMutableRequest (GetDeviceId (io_manager s)) (role_of (io_manager s) c) (elec_of (io_manager s) c)
                (io_manager s) = OK
           then (case HandlePacketOutRequest env packetio_impl packet s of
                   (packet_out_status, s') \<Rightarrow>
                     if packet_out_status \<noteq> OK
                     then Inr (respond c (ErrorUpdate packet_out_status (Some packet)) (count_packet_out_error s'))
                     else Inr (count_packet_out_sent s'))
           else Inr (respond c (ErrorUpdate PERMISSION_DENIED (Some packet)) (count_packet_out_error s)))
      | OtherRequest \<Rightarrow> Inr (respond c (ErrorUpdate UNIMPLEMENTED None) s))"

text \<open>
  A stream starts with a fresh connection object; when the peer has closed it, the connection is taken
  off the list.
\<close>

definition open_stream :: "nat \<Rightarrow> 'db io_server \<Rightarrow> 'db io_server" where
  "open_stream c s = with_manager ((io_manager s)\<lparr>heap := (heap (io_manager s))(c := new_sdn_connection)\<rparr>) s"

definition close_stream :: "nat \<Rightarrow> 'db io_server \<Rightarrow> 'db io_server" where
  "close_stream c s = with_manager (Disconnect c (io_manager s)) s"

text \<open>The callback of \<open>StartReceive\<close> for a packet that the switch sends to the controller.\<close>

definition packet_in_port :: "text_env \<Rightarrow> port_queue_config \<Rightarrow> string \<Rightarrow> string status_or" where
  "packet_in_port env pq sonic_port_name =
     (if pq_translate_port_ids pq then TranslatePort env kForController (pq_port_map pq) sonic_port_name
      else Inr sonic_port_name)"

definition packet_in_ports :: "text_env \<Rightarrow> port_queue_config \<Rightarrow> string \<Rightarrow> string \<Rightarrow> (string \<times> string) status_or" where
  "packet_in_ports env pq source target =
     bind_or (packet_in_port env pq source) (\<lambda>source_port_id.
       if target = [] then Inr (source_port_id, source_port_id)
       else bind_or (packet_in_port env pq target) (\<lambda>target_port_id. Inr (source_port_id, target_port_id)))"

definition count_packet_in :: "status_code \<Rightarrow> 'db io_server \<Rightarrow> 'db io_server" where
  "count_packet_in status s =
     s\<lparr>io_counters :=
         (if status = OK then (io_counters s)\<lparr>packet_in_received := packet_in_received (io_counters s) + 1\<rparr>
          else (io_counters s)\<lparr>packet_in_errors := packet_in_errors (io_counters s) + 1\<rparr>)\<rparr>"

definition SendPacketInToController ::
  "text_env \<Rightarrow> string \<Rightarrow> string \<Rightarrow> string \<Rightarrow> 'db io_server \<Rightarrow> status_code \<times> 'db io_server" where
  "SendPacketInToController env source target payload s =
     (case packet_in_ports env (srv_port_queue (io_p4rt s)) source target of
        Inl e \<Rightarrow> (e, count_packet_in e s)
      | Inr (source_port_id, target_port_id) \<Rightarrow>
          (let packet_in = (CreatePacketInMessage source_port_id target_port_id)\<lparr>pkt_payload := payload\<rparr>
           in case SendPacketInToPrimary (PacketIn packet_in) (io_manager s) of
                (status, m) \<Rightarrow> (status, count_packet_in status (with_manager m s))))"

section \<open>Round trip of the metadata\<close>

text \<open>The two maps of a packet header as \<open>CreateIrP4Info\<close> builds them.\<close>

definition metadata_defs_ok ::
  "(nat \<times> ir_packet_io_metadata_definition) list \<Rightarrow> (string \<times> ir_packet_io_metadata_definition) list \<Rightarrow> bool" where
  "metadata_defs_ok by_id by_name \<longleftrightarrow>
     distinct (map fst by_id) \<and> distinct (map fst by_name) \<and>
     (\<forall>i d. map_of by_id i = Some d \<longrightarrow> imd_id d = i \<and> map_of by_name (imd_name d) = Some d \<and>
        (\<not> imd_is_padding d \<longrightarrow> format_fits (imd_format d) (imd_bitwidth d))) \<and>
     (\<forall>n d. map_of by_name n = Some d \<longrightarrow> imd_name d = n \<and> map_of by_id (imd_id d) = Some d)"

definition carried :: "(nat \<times> ir_packet_io_metadata_definition) list \<Rightarrow> nat set \<Rightarrow> nat set" where
  "carried by_id ids = {i \<in> ids. \<exists>d. map_of by_id i = Some d \<and> \<not> imd_is_padding d}"

lemma carried_insert:
  "carried by_id (insert i ids) =
     (case map_of by_id i of
        Some d \<Rightarrow> if imd_is_padding d then carried by_id ids else insert i (carried by_id ids)
      | None \<Rightarrow> carried by_id ids)"
  by (auto simp: carried_def split: option.splits)

lemma pi_metadata_used_cong:
  "(\<And>i. i \<in> fst ` set ms \<Longrightarrow> i \<in> used \<longleftrightarrow> i \<in> used') \<Longrightarrow>
   pi_metadata_to_ir env by_id used ms = pi_metadata_to_ir env by_id used' ms"
proof (induction ms arbitrary: used used')
  case (Cons m ms)
  obtain j w where m: "m = (j, w)" by (cases m)
  have "j \<in> used \<longleftrightarrow> j \<in> used'" using Cons.prems [of j] m by simp
  moreover have "pi_metadata_to_ir env by_id used ms = pi_metadata_to_ir env by_id used' ms"
    by (rule Cons.IH) (use Cons.prems in auto)
  moreover have "pi_metadata_to_ir env by_id (insert j used) ms = pi_metadata_to_ir env by_id (insert j used') ms"
    by (rule Cons.IH) (use Cons.prems in auto)
  ultimately show ?case unfolding m pi_metadata_to_ir.simps by presburger
qed simp

lemma metadata_normal_form:
  assumes "inet_round_trip env" "metadata_defs_ok by_id by_name"
  shows "pi_metadata_to_ir env by_id used ms = (False, xs) \<Longrightarrow>
    (\<And>i d. map_of by_id i = Some d \<Longrightarrow> imd_name d \<in> names \<Longrightarrow> i \<in> used) \<Longrightarrow>
    \<exists>ms'. ir_metadata_to_pi env options by_name names xs = (False, ms') \<and>
      pi_metadata_to_ir env by_id used ms' = (False, xs) \<and>
      fst ` set ms' = carried by_id (fst ` set ms) \<and>
      fst ` set xs = (\<lambda>i. imd_name (the (map_of by_id i))) ` carried by_id (fst ` set ms)"
proof (induction ms arbitrary: used names xs)
  case (Cons m ms)
  obtain i v where m: "m = (i, v)" by (cases m)
  obtain bad rest where r: "pi_metadata_to_ir env by_id (insert i used) ms = (bad, rest)" by (metis prod.exhaust)
  from Cons.prems(1) r obtain d where fresh: "i \<notin> used" and ok: "\<not> bad" and d: "map_of by_id i = Some d"
    by (auto simp: m split: if_splits option.splits sum.splits)
  have t: "imd_id d = i" "map_of by_name (imd_name d) = Some d"
    using assms(2) d unfolding metadata_defs_ok_def by blast+
  have names: "j \<in> insert i used" if "map_of by_id j = Some e" "imd_name e \<in> insert (imd_name d) names" for j e
  proof (cases "imd_name e = imd_name d")
    case True
    have "imd_id e = j" "map_of by_name (imd_name e) = Some e"
      using assms(2) that(1) unfolding metadata_defs_ok_def by blast+
    with True t show ?thesis by simp
  qed (use that Cons.prems(2) in auto)
  show ?case
  proof (cases "imd_is_padding d")
    case True
    then have xs: "xs = rest" using Cons.prems(1) r d by (auto simp: m split: if_splits)
    have "j \<in> insert i used" if "map_of by_id j = Some e" "imd_name e \<in> names" for j e
      using Cons.prems(2) [OF that] by simp
    with Cons.IH [of "insert i used" rest names] r ok obtain ms' where
      ih: "ir_metadata_to_pi env options by_name names rest = (False, ms')"
        "pi_metadata_to_ir env by_id (insert i used) ms' = (False, rest)"
        "fst ` set ms' = carried by_id (fst ` set ms)"
        "fst ` set rest = (\<lambda>i. imd_name (the (map_of by_id i))) ` carried by_id (fst ` set ms)" by auto
    have "i \<notin> fst ` set ms'" using ih(3) d True by (auto simp: carried_def)
    have "pi_metadata_to_ir env by_id used ms' = (False, rest)"
      using ih(2) \<open>i \<notin> fst ` set ms'\<close> pi_metadata_used_cong [of ms' used "insert i used" env by_id] by auto
    with ih True d show ?thesis by (simp add: m xs carried_insert)
  next
    case False
    then obtain x where x: "ArbitraryByteStringToIrValue env (imd_format d) (imd_bitwidth d) v = Inr x"
      "xs = (imd_name d, x) # rest"
      using Cons.prems(1) r d by (auto simp: m split: if_splits sum.splits)
    have fits: "format_fits (imd_format d) (imd_bitwidth d)"
      using assms(2) d False unfolding metadata_defs_ok_def by blast
    from Cons.IH [of "insert i used" rest "insert (imd_name d) names"] r ok names obtain ms' where
      ih: "ir_metadata_to_pi env options by_name (insert (imd_name d) names) rest = (False, ms')"
        "pi_metadata_to_ir env by_id (insert i used) ms' = (False, rest)"
        "fst ` set ms' = carried by_id (fst ` set ms)"
        "fst ` set rest = (\<lambda>i. imd_name (the (map_of by_id i))) ` carried by_id (fst ` set ms)" by auto
    have "imd_name d \<notin> names" using Cons.prems(2) [OF d] fresh by blast
    with ih False d t fresh x value_normal_form [OF assms(1) fits x(1), of options] show ?thesis
      by (intro exI [of _ "(i, canonical_unless_string (imd_format d) (normal_bytes (imd_format d) (imd_bitwidth d) v)) # ms'"])
        (simp add: m carried_insert)
  qed
qed (simp add: carried_def)

lemma pi_metadata_append:
  "pi_metadata_to_ir env by_id used (ms @ ns) =
     (let (bad, xs) = pi_metadata_to_ir env by_id used ms;
          (bad', ys) = pi_metadata_to_ir env by_id (used \<union> fst ` set ms) ns
      in (bad \<or> bad', xs @ ys))"
proof (induction ms arbitrary: used)
  case (Cons m ms)
  obtain j w where m: "m = (j, w)" by (cases m)
  have "insert j used \<union> fst ` set ms = used \<union> fst ` set (m # ms)" by (auto simp: m)
  moreover have "used \<union> fst ` set ms = used \<union> fst ` set (m # ms)" if "j \<in> used" using that by (auto simp: m)
  ultimately show ?case
    using Cons.IH [of used] Cons.IH [of "insert j used"]
    by (auto simp: m Let_def split_def split: option.splits sum.splits)
qed simp

lemma pi_padding_to_ir:
  "distinct (map fst ps) \<Longrightarrow> fst ` set ps \<inter> used = {} \<Longrightarrow>
   list_all (\<lambda>(i, v). v = [CHR 0x00] \<and> (\<exists>d. map_of by_id i = Some d \<and> imd_is_padding d)) ps \<Longrightarrow>
   pi_metadata_to_ir env by_id used ps = (False, [])"
proof (induction ps arbitrary: used)
  case (Cons p ps)
  then show ?case by (cases p) (auto simp: all_zero_bytes_def)
qed simp

lemma no_missing_iff:
  "\<not> list_ex (\<lambda>(i, _). i \<notin> set (map fst xs)) ys \<longleftrightarrow> (\<forall>i d. (i, d) \<in> set ys \<longrightarrow> i \<in> fst ` set xs)"
  by (auto simp: list_ex_iff)

lemma packet_normal_form:
  assumes "inet_round_trip env" "metadata_defs_ok by_id by_name" "PiPacketIoToIr env by_id packet = Inr ir"
  shows "\<exists>packet'. IrPacketIoToPi env options by_name ir = Inr packet' \<and> PiPacketIoToIr env by_id packet' = Inr ir"
proof -
  let ?ids = "fst ` set (pkt_metadata packet)"
  let ?pads = "map (\<lambda>(_, d). CreatePaddingMetadata (imd_id d)) (filter (\<lambda>(_, d). imd_is_padding d) by_name)"
  obtain xs where xs: "pi_metadata_to_ir env by_id {} (pkt_metadata packet) = (False, xs)"
    and ir: "ir = \<lparr>irp_payload = pkt_payload packet, irp_metadata = xs\<rparr>"
    and all: "\<And>i d. (i, d) \<in> set by_id \<Longrightarrow> i \<in> ?ids"
    using assms(3) by (auto simp: PiPacketIoToIr_def Let_def split_def list_ex_iff) (metis prod.collapse fst_conv)+
  from metadata_normal_form [OF assms(1,2) xs, of "{}" options] obtain ms' where
    ms': "ir_metadata_to_pi env options by_name {} xs = (False, ms')" "pi_metadata_to_ir env by_id {} ms' = (False, xs)"
      "fst ` set ms' = carried by_id ?ids" "fst ` set xs = (\<lambda>i. imd_name (the (map_of by_id i))) ` carried by_id ?ids" by auto
  have defs: "imd_name d = n" "map_of by_id (imd_id d) = Some d" if "(n, d) \<in> set by_name" for n d
    using assms(2) that unfolding metadata_defs_ok_def by (metis map_of_is_SomeI)+
  have pad: "map_of by_id (imd_id d) = Some d \<and> imd_is_padding d" if "(n, d) \<in> set (filter (\<lambda>(_, d). imd_is_padding d) by_name)" for n d
    using defs that by auto
  have "inj_on (\<lambda>p. imd_id (snd p)) (set by_name)"
    by (intro inj_onI) (metis defs prod.collapse option.inject)
  then have dist: "distinct (map fst ?pads)"
    using assms(2) by (auto simp: metadata_defs_ok_def CreatePaddingMetadata_def distinct_map o_def split_def inj_on_def)
  have "pi_metadata_to_ir env by_id (fst ` set ms') ?pads = (False, [])"
  proof (rule pi_padding_to_ir [OF dist])
    show "fst ` set ?pads \<inter> fst ` set ms' = {}"
      using pad unfolding ms'(3) carried_def by (fastforce simp: CreatePaddingMetadata_def)
    show "list_all (\<lambda>(i, v). v = [CHR 0x00] \<and> (\<exists>d. map_of by_id i = Some d \<and> imd_is_padding d)) ?pads"
      using pad by (force simp: list_all_iff CreatePaddingMetadata_def)
  qed
  then have conv: "pi_metadata_to_ir env by_id {} (ms' @ ?pads) = (False, xs)"
    using ms'(2) by (simp add: pi_metadata_append)
  have irok: "\<not> list_ex (\<lambda>(name, d). \<not> imd_is_padding d \<and> name \<notin> set (map fst xs)) by_name"
  proof -
    have "n \<in> fst ` set xs" if "(n, d) \<in> set by_name" "\<not> imd_is_padding d" for n d
    proof -
      have "imd_id d \<in> ?ids" using defs(2) [OF that(1)] all map_of_SomeD by fast
      then have "imd_id d \<in> carried by_id ?ids" using defs(2) [OF that(1)] that(2) by (auto simp: carried_def)
      then show ?thesis unfolding ms'(4) using defs [OF that(1)] by (force simp: image_iff)
    qed
    then show ?thesis by (auto simp: list_ex_iff)
  qed
  have piok: "\<not> list_ex (\<lambda>(i, _). i \<notin> set (map fst (ms' @ ?pads))) by_id"
  proof -
    have "i \<in> fst ` set ms' \<union> fst ` set ?pads" if i: "(i, d) \<in> set by_id" for i d
    proof (cases "imd_is_padding d")
      case True
      have d: "imd_id d = i" "map_of by_name (imd_name d) = Some d"
        using assms(2) i unfolding metadata_defs_ok_def by (metis map_of_is_SomeI)+
      from map_of_SomeD [OF d(2)] True d(1) show ?thesis
        by (auto simp: CreatePaddingMetadata_def image_iff intro!: bexI [of _ "(imd_name d, d)"])
    next
      case False
      then show ?thesis using all [OF i] i assms(2) unfolding ms'(3) carried_def metadata_defs_ok_def
        by (auto intro: map_of_is_SomeI)
    qed
    then show ?thesis unfolding no_missing_iff set_append image_Un by blast
  qed
  show ?thesis
    using ms'(1) conv irok piok
    by (intro exI [of _ "\<lparr>pkt_payload = pkt_payload packet, pkt_metadata = ms' @ ?pads\<rparr>"])
      (simp add: ir IrPacketIoToPi_def PiPacketIoToIr_def del: map_append set_append list_ex_append)
qed

section \<open>Packets out\<close>

lemma io_simps [simp]:
  "io_manager (with_manager m s) = m" "with_manager m (with_manager m' s) = with_manager m s" "io_counters (with_manager m s) = io_counters s" "io_sent (with_manager m s) = io_sent s"
  "io_manager (count_packet_out_error s) = io_manager s" "io_manager (count_packet_out_sent s) = io_manager s"
  "io_sent (count_packet_out_error s) = io_sent s" "io_sent (count_packet_out_sent s) = io_sent s"
  "io_counters (respond c r s) = io_counters s" "io_sent (respond c r s) = io_sent s"
  "io_manager (respond c r s) = SendStreamMessageResponse c r (io_manager s)"
  "packet_out_sent (io_counters (count_packet_out_error s)) = packet_out_sent (io_counters s)"
  "packet_out_errors (io_counters (count_packet_out_error s)) = packet_out_errors (io_counters s) + 1"
  "packet_out_sent (io_counters (count_packet_out_sent s)) = packet_out_sent (io_counters s) + 1"
  "packet_out_errors (io_counters (count_packet_out_sent s)) = packet_out_errors (io_counters s)"
  by (simp_all add: io_manager_def with_manager_def count_packet_out_error_def count_packet_out_sent_def respond_def)

text \<open>What becomes of a packet-out: refused with a status before it is sent, or sent to a port.\<close>

definition is_primary :: "sdn_controller_manager \<Rightarrow> nat \<Rightarrow> bool" where
  "is_primary m c \<longleftrightarrow>
     device_id m \<noteq> None \<and> elec_of m c \<noteq> None \<and> past_id m (role_of m c) = elec_of m c \<and>
     (\<exists>d \<in> set (connections m). role_of m d = role_of m c \<and> elec_of m d = elec_of m c)"

definition packet_out_verdict :: "text_env \<Rightarrow> nat \<Rightarrow> packet_message \<Rightarrow> 'db io_server \<Rightarrow> string status_or" where
  "packet_out_verdict env c packet s =
     (if \<not> is_primary (io_manager s) c then Inl PERMISSION_DENIED
      else case srv_ir_p4info (io_p4rt s) of
             None \<Rightarrow> Inl FAILED_PRECONDITION
           | Some info \<Rightarrow> packet_out_port env info (srv_port_queue (io_p4rt s)) packet)"

lemma primary_allowed:
  "AllowMutableRequest (GetDeviceId m) (role_of m c) (elec_of m c) m = OK \<longleftrightarrow> is_primary m c"
  by (auto simp: AllowMutableRequest_iff GetDeviceId_def is_primary_def)

text \<open>An error result of the packet's translation is never the OK status.\<close>

lemma HandlePacketOutRequest_cases:
  "is_primary (io_manager s) c \<Longrightarrow>
   HandlePacketOutRequest env impl packet s =
     (case packet_out_verdict env c packet s of
        Inl e \<Rightarrow> (e, s)
      | Inr port \<Rightarrow> (impl port (pkt_payload packet), s\<lparr>io_sent := io_sent s @ [(port, pkt_payload packet)]\<rparr>))"
  by (auto simp: HandlePacketOutRequest_def SendPacketOut_def packet_out_verdict_def split: option.splits)

lemma io_sent_update [simp]:
  "io_manager (s\<lparr>io_sent := w\<rparr>) = io_manager s"
  by (simp add: io_manager_def)

lemma packet_out_steps:
  "handle_stream_request env impl c (PacketRequest packet) s =
     Inr (case packet_out_verdict env c packet s of
            Inl e \<Rightarrow> if e \<noteq> OK then respond c (ErrorUpdate e (Some packet)) (count_packet_out_error s)
                     else count_packet_out_sent s
          | Inr port \<Rightarrow>
              (let status = impl port (pkt_payload packet);
                   s' = s\<lparr>io_sent := io_sent s @ [(port, pkt_payload packet)]\<rparr>
               in if status \<noteq> OK then respond c (ErrorUpdate status (Some packet)) (count_packet_out_error s')
                  else count_packet_out_sent s'))"
proof (cases "is_primary (io_manager s) c")
  case True
  then show ?thesis
    by (simp add: handle_stream_request_def primary_allowed HandlePacketOutRequest_cases Let_def split: sum.splits)
qed (simp add: handle_stream_request_def primary_allowed packet_out_verdict_def)


lemma packet_out_attributes_error: "packet_out_attributes ms acc = Inl e \<Longrightarrow> e \<noteq> OK \<and> e \<noteq> PERMISSION_DENIED"
  by (induction ms acc rule: packet_out_attributes.induct)
    (auto simp: bind_or_def ArbitraryByteStringToUint_def ArbitraryToNormalizedByteString_def Let_def
      split: if_splits sum.splits)

lemma packet_out_port_error:
  "packet_out_port env info pq packet = Inl e \<Longrightarrow> e \<noteq> OK \<and> e \<noteq> PERMISSION_DENIED"
  using packet_out_attributes_error
  by (auto simp: packet_out_port_def bind_or_def PiPacketOutToIr_def PiPacketIoToIr_def unless_invalid_def
      TranslatePort_def Let_def split: if_splits sum.splits prod.splits option.splits)

lemma packet_out_verdict_error:
  "packet_out_verdict env c packet s = Inl e \<Longrightarrow> e \<noteq> OK \<and> (e = PERMISSION_DENIED \<longleftrightarrow> \<not> is_primary (io_manager s) c)"
  using packet_out_port_error by (fastforce simp: packet_out_verdict_def split: if_splits option.splits)

lemma packet_out_verdict_port: "packet_out_verdict env c packet s = Inr port \<Longrightarrow> is_primary (io_manager s) c"
  by (auto simp: packet_out_verdict_def split: if_splits)

definition same_but_written :: "sdn_controller_manager \<Rightarrow> sdn_controller_manager \<Rightarrow> bool" where
  "same_but_written m m' \<longleftrightarrow> m'\<lparr>grpc_written := grpc_written m\<rparr> = m"

text \<open>
  C15. A packet-out request on the connection \<open>c\<close> never ends the stream. The payload goes to the
  switch exactly when \<open>c\<close> is the primary of its role (the server has a device ID, the connection's
  election ID is the highest of its role and is held by an active connection), a pipeline is
  configured, the metadata translate and the egress port is known; it is then handed over once, to
  that port, after everything sent before. Exactly one of the two packet-out counters grows by one:
  the one of packets sent if the switch accepted it, else the one of errors, and then exactly one
  error response with the refused packet is written, to \<open>c\<close> itself. Arbitration state is untouched.
\<close>

theorem packet_out_effect:
  "\<exists>s'. handle_stream_request env impl c (PacketRequest packet) s = Inr s' \<and>
     same_but_written (io_manager s) (io_manager s') \<and>
     (let verdict = packet_out_verdict env c packet s;
          status = (case verdict of Inl e \<Rightarrow> e | Inr port \<Rightarrow> impl port (pkt_payload packet))
      in io_sent s' = io_sent s @ (case verdict of Inl _ \<Rightarrow> [] | Inr port \<Rightarrow> [(port, pkt_payload packet)]) \<and>
         packet_out_sent (io_counters s') = packet_out_sent (io_counters s) + (if status = OK then 1 else 0) \<and>
         packet_out_errors (io_counters s') = packet_out_errors (io_counters s) + (if status = OK then 0 else 1) \<and>
         grpc_written (io_manager s') =
           grpc_written (io_manager s) @ (if status = OK then [] else [(c, ErrorUpdate status (Some packet))]) \<and>
         (\<not> is_primary (io_manager s) c \<longleftrightarrow> verdict = Inl PERMISSION_DENIED))"
proof (cases "packet_out_verdict env c packet s")
  case (Inl e)
  with packet_out_verdict_error [OF Inl] show ?thesis
    by (simp add: packet_out_steps same_but_written_def SendStreamMessageResponse_def)
next
  case (Inr port)
  with packet_out_verdict_port [OF Inr] show ?thesis
    by (simp add: packet_out_steps same_but_written_def SendStreamMessageResponse_def Let_def)
qed

section \<open>Streams among the other handlers\<close>

text \<open>
  The server's lock is taken for one message of a stream at a time, so between two messages any other
  handler may run. A run of the server is a sequence of events: a stream is opened, one of its messages
  is handled, or it is closed; a request is written or read; a packet comes from the switch; the
  device ID changes. The state holds the connection objects of the streams that are open. An event of a
  stream that is not open, and an event in which the process ends, has no successor.
\<close>

datatype server_event =
    StreamOpened nat
  | StreamMessage nat stream_message_request
  | StreamClosed nat
  | WriteCalled write_request
  | ReadCalled "(entity_key \<times> pi_entity) list" read_request
  | PacketReceived string string string
  | DeviceIdUpdated "64 word"

record 'db io_env =
  ie_p4rt :: "'db p4rt_env"
  ie_read :: read_env
  ie_packetio :: "string \<Rightarrow> string \<Rightarrow> status_code"

definition StreamChannel_message ::
  "'db io_env \<Rightarrow> nat \<Rightarrow> stream_message_request \<Rightarrow> 'db io_server \<times> nat list \<Rightarrow> 'db io_server \<times> nat list" where
  "StreamChannel_message env c request st =
     (case handle_stream_request (pe_text (ie_p4rt env)) (ie_packetio env) c request (fst st) of
        Inl (_, s) \<Rightarrow> (s, removeAll c (snd st))
      | Inr s \<Rightarrow> (s, snd st))"

fun server_step :: "'db io_env \<Rightarrow> server_event \<Rightarrow> 'db io_server \<times> nat list \<Rightarrow> ('db io_server \<times> nat list) option" where
  "server_step env (StreamOpened c) (s, streams) =
     (if c \<in> set streams then None else Some (open_stream c s, c # streams))"
| "server_step env (StreamMessage c request) (s, streams) =
     (if c \<notin> set streams then None else Some (StreamChannel_message env c request (s, streams)))"
| "server_step env (StreamClosed c) (s, streams) =
     (if c \<notin> set streams then None else Some (close_stream c s, removeAll c streams))"
| "server_step env (WriteCalled req) (s, streams) =
     map_option (\<lambda>(_, p). (s\<lparr>io_p4rt := p\<rparr>, streams)) (Write (ie_p4rt env) req (io_p4rt s))"
| "server_step env (ReadCalled cache req) (s, streams) =
     Some (s\<lparr>io_p4rt := snd (snd (Read (ie_read env) cache req (io_p4rt s)))\<rparr>, streams)"
| "server_step env (PacketReceived source target payload) (s, streams) =
     Some (snd (SendPacketInToController (pe_text (ie_p4rt env)) source target payload s), streams)"
| "server_step env (DeviceIdUpdated d) (s, streams) =
     Some (with_manager (snd (SetDeviceId d (io_manager s))) s, streams)"

fun server_run :: "'db io_env \<Rightarrow> server_event list \<Rightarrow> 'db io_server \<times> nat list \<Rightarrow> ('db io_server \<times> nat list) option" where
  "server_run env [] st = Some st"
| "server_run env (e # es) st = Option.bind (server_step env e st) (server_run env es)"

definition is_packet :: "server_event \<Rightarrow> bool" where
  "is_packet e = (case e of StreamMessage _ (PacketRequest _) \<Rightarrow> True | _ \<Rightarrow> False)"

definition packets_counted :: "'db io_server \<Rightarrow> nat" where
  "packets_counted s = packet_out_sent (io_counters s) + packet_out_errors (io_counters s)"

text \<open>The active connections are those of the open streams whose arbitration was accepted.\<close>

definition streams_inv :: "'db io_server \<times> nat list \<Rightarrow> bool" where
  "streams_inv st \<longleftrightarrow>
     sdn_inv (io_manager (fst st)) \<and>
     set (connections (io_manager (fst st))) = {c \<in> set (snd st). IsInitialized (heap (io_manager (fst st)) c)}"

lemma packets_counted_frame [simp]:
  "packets_counted (with_manager m s) = packets_counted s" "io_sent (with_manager m s) = io_sent s"
  "packets_counted (s\<lparr>io_p4rt := p\<rparr>) = packets_counted s" "io_sent (s\<lparr>io_p4rt := p\<rparr>) = io_sent s"
  by (simp_all add: packets_counted_def with_manager_def)

lemma manager_frame [simp]:
  "io_manager (s\<lparr>io_p4rt := p\<rparr>) = srv_controller_manager p"
  by (simp add: io_manager_def)

lemma Write_manager: "Write env req s = Some (g, s') \<Longrightarrow> srv_controller_manager s' = srv_controller_manager s"
  by (auto simp: Write_def Let_def split: if_splits option.splits sum.splits prod.splits)

lemma Read_manager: "srv_controller_manager (snd (snd (Read env cache req s))) = srv_controller_manager s"
  by (auto simp: Read_def Let_def split: option.split sum.split)

lemma SendPacketInToController_frame:
  assumes "SendPacketInToController env source target payload s = (status, s')"
  shows "(\<exists>w. io_manager s' = (io_manager s)\<lparr>grpc_written := w\<rparr>) \<and> packets_counted s' = packets_counted s \<and>
    io_sent s' = io_sent s"
proof -
  have counted: "io_manager (count_packet_in st t) = io_manager t" "packets_counted (count_packet_in st t) = packets_counted t"
    "io_sent (count_packet_in st t) = io_sent t" for st and t :: "'a io_server"
    by (simp_all add: count_packet_in_def io_manager_def packets_counted_def)
  have same: "\<exists>w. m = m\<lparr>grpc_written := w\<rparr>" for m :: sdn_controller_manager by (rule exI [of _ "grpc_written m"]) simp
  from assms show ?thesis
    by (auto simp: SendPacketInToController_def counted same Let_def dest!: SendPacketInToPrimary_frame
        split: sum.splits prod.splits)
qed

lemma streams_inv_written:
  "io_manager s' = (io_manager s)\<lparr>grpc_written := w\<rparr> \<Longrightarrow> streams_inv (s, streams) \<Longrightarrow> streams_inv (s', streams)"
  by (simp add: streams_inv_def sdn_inv_written)

lemma streams_inv_open:
  assumes "streams_inv (s, streams)" "c \<notin> set streams"
  shows "streams_inv (open_stream c s, c # streams)"
proof -
  have "c \<notin> set (connections (io_manager s))" using assms by (simp add: streams_inv_def)
  with sdn_inv_connect [of "io_manager s" c] assms show ?thesis
    by (auto simp: streams_inv_def open_stream_def connection_defs)
qed

lemma streams_inv_close:
  assumes "streams_inv (s, streams)"
  shows "streams_inv (with_manager (Disconnect c (io_manager s)) s, removeAll c streams)"
proof -
  have "distinct (connections (io_manager s))" using assms by (simp add: streams_inv_def sdn_inv_def)
  with assms show ?thesis
    by (auto simp: streams_inv_def state_frame intro: sdn_inv_disconnect)
qed

lemma streams_inv_arbitrate:
  assumes "streams_inv (s, streams)" "c \<in> set streams" "HandleArbitrationUpdate upd c (io_manager s) = (status, m)"
  shows "streams_inv (with_manager m s, streams)"
  using assms(3)
proof (cases rule: HandleArbitrationUpdate_cases)
  case accepted
  have "sdn_inv m" using assms by (auto simp: streams_inv_def intro: sdn_inv_arbitrate)
  then show ?thesis using assms(1,2) by (auto simp: streams_inv_def accepted(5) state_frame split: if_splits)
qed (use assms(1) in \<open>simp add: streams_inv_def\<close>)

lemma packet_out_frame:
  "\<exists>w s'. handle_stream_request env impl c (PacketRequest packet) s = Inr s' \<and>
     io_manager s' = (io_manager s)\<lparr>grpc_written := w\<rparr> \<and> packets_counted s' = packets_counted s + 1 \<and>
     length (io_sent s') \<le> length (io_sent s) + 1"
proof -
  have same: "\<exists>w. io_manager s = (io_manager s)\<lparr>grpc_written := w\<rparr>"
    by (rule exI [of _ "grpc_written (io_manager s)"]) simp
  have written: "\<exists>w. SendStreamMessageResponse c r m = m\<lparr>grpc_written := w\<rparr>" for r m
    by (auto simp: SendStreamMessageResponse_def)
  show ?thesis
  proof (cases "packet_out_verdict env c packet s")
    case (Inl e)
    then show ?thesis
      by (cases "e = OK") (simp_all add: packet_out_steps packets_counted_def written same)
  next
    case (Inr port)
    then show ?thesis
      by (cases "impl port (pkt_payload packet) = OK")
        (simp_all add: packet_out_steps packets_counted_def written same Let_def)
  qed
qed

text \<open>One event: the invariant, the counters, and the packets handed to the switch.\<close>

lemma stream_message_step:
  assumes "streams_inv (s, streams)" "c \<in> set streams"
    and "StreamChannel_message env c request (s, streams) = (s', streams')"
  shows "streams_inv (s', streams') \<and>
    packets_counted s' = packets_counted s + (if is_packet (StreamMessage c request) then 1 else 0) \<and>
    length (io_sent s') \<le> length (io_sent s) + (if is_packet (StreamMessage c request) then 1 else 0)"
proof (cases request)
  case (ArbitrationRequest upd)
  obtain status m where u: "HandleArbitrationUpdate upd c (io_manager s) = (status, m)" by fastforce
  from streams_inv_arbitrate [OF assms(1,2) u] have inv: "streams_inv (with_manager m s, streams)" .
  with streams_inv_close [OF inv, of c] u ArbitrationRequest assms(3) show ?thesis
    by (auto simp: StreamChannel_message_def handle_stream_request_def is_packet_def split: if_splits)
next
  case (PacketRequest packet)
  obtain w t where t: "handle_stream_request (pe_text (ie_p4rt env)) (ie_packetio env) c (PacketRequest packet) s = Inr t"
    "io_manager t = (io_manager s)\<lparr>grpc_written := w\<rparr>" "packets_counted t = packets_counted s + 1"
    "length (io_sent t) \<le> length (io_sent s) + 1"
    using packet_out_frame [of "pe_text (ie_p4rt env)" "ie_packetio env" c packet s] by blast
  with assms(3) PacketRequest have "s' = t" "streams' = streams" by (simp_all add: StreamChannel_message_def)
  with t streams_inv_written [OF t(2) assms(1)] PacketRequest show ?thesis by (simp add: is_packet_def)
next
  case OtherRequest
  then show ?thesis using assms(1,3)
    by (auto simp: StreamChannel_message_def handle_stream_request_def packets_counted_def is_packet_def
        SendStreamMessageResponse_def streams_inv_def sdn_inv_written)
qed

lemma server_step_spec:
  assumes "streams_inv (s, streams)" "server_step env e (s, streams) = Some (s', streams')"
  shows "streams_inv (s', streams') \<and>
    packets_counted s' = packets_counted s + (if is_packet e then 1 else 0) \<and>
    length (io_sent s') \<le> length (io_sent s) + (if is_packet e then 1 else 0)"
proof (cases e)
  case (StreamOpened c)
  with assms streams_inv_open [OF assms(1), of c] show ?thesis
    by (auto simp: is_packet_def open_stream_def split: if_splits)
next
  case (StreamMessage c request)
  with assms stream_message_step [OF assms(1), of c env request s' streams'] show ?thesis
    by (auto split: if_splits)
next
  case (StreamClosed c)
  with assms streams_inv_close [OF assms(1), of c] show ?thesis
    by (auto simp: is_packet_def close_stream_def split: if_splits)
next
  case (WriteCalled req)
  with assms show ?thesis
    by (auto simp: is_packet_def streams_inv_def io_manager_def dest: Write_manager)
next
  case (ReadCalled cache req)
  with assms show ?thesis by (auto simp: is_packet_def streams_inv_def io_manager_def Read_manager)
next
  case (PacketReceived source target payload)
  then have "SendPacketInToController (pe_text (ie_p4rt env)) source target payload s =
      (fst (SendPacketInToController (pe_text (ie_p4rt env)) source target payload s), s')"
    "streams' = streams" using assms(2) by (auto simp: prod_eq_iff)
  from SendPacketInToController_frame [OF this(1)] streams_inv_written [OF _ assms(1), of s'] this(2) PacketReceived show ?thesis
    by (auto simp: is_packet_def)
next
  case (DeviceIdUpdated d)
  obtain st m where d: "SetDeviceId d (io_manager s) = (st, m)" by fastforce
  then have "sdn_inv m" "heap m = heap (io_manager s)" "connections m = connections (io_manager s)"
    using assms(1) sdn_inv_set_device_id [OF _ d] by (auto simp: streams_inv_def SetDeviceId_def split: if_splits)
  with assms d DeviceIdUpdated show ?thesis by (auto simp: is_packet_def streams_inv_def)
qed

lemma server_step_inv: "streams_inv st \<Longrightarrow> server_step env e st = Some st' \<Longrightarrow> streams_inv st'"
  by (cases st; cases st') (use server_step_spec in blast)

interpretation server: invariant_machine "\<lambda>st. streams_inv st \<and> snd st = []"
  "\<lambda>st st'. \<exists>e. server_step env e st = Some st'" streams_inv
  for env :: "'db io_env"
  by unfold_locales (use server_step_inv in \<open>auto\<close>)

lemma server_run_steps:
  "server_run env es st = Some st' \<Longrightarrow> (\<lambda>st st'. \<exists>e. server_step env e st = Some st')\<^sup>*\<^sup>* st st'"
proof (induction es arbitrary: st)
  case (Cons e es)
  then obtain u where "server_step env e st = Some u" "server_run env es u = Some st'"
    by (auto split: bind_splits)
  with Cons.IH show ?case by (blast intro: converse_rtranclp_into_rtranclp)
qed simp

lemma server_run_packets:
  "streams_inv (s, streams) \<Longrightarrow> server_run env es (s, streams) = Some (s', streams') \<Longrightarrow>
     packets_counted s' = packets_counted s + length (filter is_packet es) \<and>
     length (io_sent s') \<le> length (io_sent s) + length (filter is_packet es)"
proof (induction es arbitrary: s streams)
  case (Cons e es)
  then obtain t ts where step: "server_step env e (s, streams) = Some (t, ts)"
    and run: "server_run env es (t, ts) = Some (s', streams')"
    by (cases "server_step env e (s, streams)") auto
  from server_step_spec [OF Cons.prems(1) step] Cons.IH [OF _ run] show ?case by auto
qed simp

text \<open>
  C16. However the messages of any number of streams interleave with each other, with write and read requests, with
  packets from the switch and with changes of the device ID, the arbitration state stays consistent and
  the active connections are exactly the open streams whose arbitration was accepted. So a stream
  that has ended leaves no connection behind, also when a bad arbitration update ended it, and when no
  stream is open there is no connection. Each packet request handled was counted exactly once, as sent
  or as an error, and at most one packet was handed to the switch for each.
\<close>

theorem streams_leave_no_connection:
  assumes "sdn_inv (io_manager s)" "connections (io_manager s) = []"
    and "server_run env events (s, []) = Some (s', streams)"
  shows "sdn_inv (io_manager s') \<and>
    set (connections (io_manager s')) = {c \<in> set streams. IsInitialized (heap (io_manager s') c)} \<and>
    (streams = [] \<longrightarrow> connections (io_manager s') = []) \<and>
    packets_counted s' = packets_counted s + length (filter is_packet events) \<and>
    length (io_sent s') \<le> length (io_sent s) + length (filter is_packet events)"
proof -
  have inv: "streams_inv (s, [])" using assms(1,2) by (simp add: streams_inv_def)
  with server.inv_reachable [OF _ server_run_steps [OF assms(3)]] have "streams_inv (s', streams)" by simp
  then have final: "sdn_inv (io_manager s')"
    "set (connections (io_manager s')) = {c \<in> set streams. IsInitialized (heap (io_manager s') c)}"
    by (simp_all add: streams_inv_def)
  moreover have "connections (io_manager s') = []" if "streams = []" using final(2) that by simp
  ultimately show ?thesis using server_run_packets [OF inv assms(3)] by blast
qed

text \<open>A packet header as the fixed P4 programs declare it: a port name, one bit, and seven bits of padding.\<close>

definition example_metadata :: "ir_packet_io_metadata_definition list" where
  "example_metadata =
     [\<lparr>imd_id = 1, imd_name = ''egress_port'', imd_bitwidth = 0, imd_format = STRING, imd_is_padding = False\<rparr>,
      \<lparr>imd_id = 2, imd_name = ''submit_to_ingress'', imd_bitwidth = 1, imd_format = HEX_STRING, imd_is_padding = False\<rparr>,
      \<lparr>imd_id = 3, imd_name = ''unused_pad'', imd_bitwidth = 7, imd_format = HEX_STRING, imd_is_padding = True\<rparr>]"

definition example_packet_info :: ir_p4info where
  "example_packet_info = (example_info (example_profile 10 8 None))
     \<lparr>packet_out_metadata_by_id := map (\<lambda>d. (imd_id d, d)) example_metadata,
      packet_out_metadata_by_name := map (\<lambda>d. (imd_name d, d)) example_metadata\<rparr>"

definition example_packet :: packet_message where
  "example_packet = \<lparr>pkt_payload = ''hello'',
     pkt_metadata = [(3, [CHR 0x00, CHR 0x00]), (2, [CHR 0x00, CHR 0x01]), (1, ''Ethernet0'')]\<rparr>"

definition example_io_server :: "fake_db io_server" where
  "example_io_server =
     \<lparr>io_p4rt = (example_server [])\<lparr>srv_ir_p4info := Some example_packet_info\<rparr>,
      io_counters = \<lparr>packet_out_sent = 0, packet_out_errors = 0, packet_in_received = 0, packet_in_errors = 0\<rparr>,
      io_sent = []\<rparr>"

text \<open>
  C17. A packet-out that translates to the IR translates back, whichever options are used, to a
  packet with the same payload whose translation is the same IR packet: values are rewritten to
  their canonical form and padding is reinserted, and nothing else is lost, given IR definitions
  indexed consistently by ID and by name and a C library whose text of IPv6 addresses reads back.
\<close>

theorem packet_out_round_trip:
  assumes "inet_round_trip env"
    and "metadata_defs_ok (packet_out_metadata_by_id info) (packet_out_metadata_by_name info)"
    and "PiPacketOutToIr env info packet = Inr ir"
  shows "\<exists>packet'. IrPacketOutToPi env info options ir = Inr packet' \<and> PiPacketOutToIr env info packet' = Inr ir \<and>
    pkt_payload packet' = pkt_payload packet"
proof -
  from packet_normal_form [OF assms(1,2) assms(3) [unfolded PiPacketOutToIr_def], of options] obtain packet' where
    p: "IrPacketIoToPi env options (packet_out_metadata_by_name info) ir = Inr packet'"
      "PiPacketIoToIr env (packet_out_metadata_by_id info) packet' = Inr ir" by blast
  moreover have "pkt_payload q = irp_payload ir" if "PiPacketIoToIr env (packet_out_metadata_by_id info) q = Inr ir" for q
    using that by (auto simp: PiPacketIoToIr_def unless_invalid_def Let_def split_def split: if_splits)
  ultimately show ?thesis using assms(3) by (auto simp: IrPacketOutToPi_def PiPacketOutToIr_def)
qed

lemma example_metadata_ok:
  "metadata_defs_ok (packet_out_metadata_by_id example_packet_info) (packet_out_metadata_by_name example_packet_info)"
  by (auto simp: metadata_defs_ok_def example_packet_info_def example_metadata_def format_fits_def split: if_splits)

definition example_ir_packet :: ir_packet where
  "example_ir_packet = \<lparr>irp_payload = ''hello'',
     irp_metadata = [(''submit_to_ingress'', HexStr ''0x1''), (''egress_port'', Str ''Ethernet0'')]\<rparr>"

lemma example_packet_translated: "PiPacketOutToIr example_text_env example_packet_info example_packet = Inr example_ir_packet"
  by code_simp

theorem packet_out_round_trip_witness:
  "PiPacketOutToIr example_text_env example_packet_info example_packet = Inr example_ir_packet \<and>
   (\<exists>packet'. IrPacketOutToPi example_text_env example_packet_info default_options example_ir_packet = Inr packet' \<and>
      PiPacketOutToIr example_text_env example_packet_info packet' = Inr example_ir_packet \<and> pkt_payload packet' = ''hello'')"
  using packet_out_round_trip [OF example_inet_round_trip example_metadata_ok example_packet_translated, of default_options]
    example_packet_translated by (auto simp: example_packet_def)

text \<open>
  Two streams of the same role: the second takes over with a higher election ID, so the packet of the
  first is refused; then the second stream is ended by an update for another device.
\<close>

definition example_update_with :: "64 word \<Rightarrow> 64 word \<Rightarrow> master_arbitration_update" where
  "example_update_with device i =
     \<lparr>mau_device_id = device, mau_role = None, mau_election_id = Some (0, i), mau_status = OK\<rparr>"

definition example_events :: "server_event list" where
  "example_events =
     [DeviceIdUpdated 7, StreamOpened 0, StreamMessage 0 (ArbitrationRequest (example_update_with 7 1)), StreamOpened 1,
      StreamMessage 0 (PacketRequest example_packet),
      StreamMessage 1 (ArbitrationRequest (example_update_with 7 2)),
      StreamMessage 0 (PacketRequest example_packet), PacketReceived ''Ethernet0'' [] ''up'',
      StreamMessage 1 (ArbitrationRequest (example_update_with 8 3)), StreamOpened 2]"

definition example_fresh_server :: "fake_db io_server" where
  "example_fresh_server = example_io_server\<lparr>io_p4rt := (io_p4rt example_io_server)\<lparr>srv_controller_manager := init_manager\<rparr>\<rparr>"

definition example_io_env :: "fake_db io_env" where
  "example_io_env = \<lparr>ie_p4rt = example_env, ie_read = example_read_env, ie_packetio = (\<lambda>_ _. OK)\<rparr>"

theorem streams_leave_no_connection_witness:
  "\<exists>s'. server_run example_io_env example_events (example_fresh_server, []) = Some (s', [2, 0]) \<and>
     sdn_inv (io_manager s') \<and> set (connections (io_manager s')) = {0} \<and> packets_counted s' = 2 \<and> length (io_sent s') \<le> 2"
proof -
  have fresh: "io_manager example_fresh_server = init_manager"
    by (simp add: example_fresh_server_def io_manager_def)
  have run: "map_option (\<lambda>(s, streams). (streams, filter (\<lambda>c. IsInitialized (heap (io_manager s) c)) streams))
      (server_run example_io_env example_events (example_fresh_server, [])) = Some ([2, 0], [0])"
    by code_simp
  then obtain s' where s': "server_run example_io_env example_events (example_fresh_server, []) = Some (s', [2, 0])"
    "filter (\<lambda>c. IsInitialized (heap (io_manager s') c)) [2, 0] = [0]" by auto
  from s'(2) have init: "{c \<in> set [2, 0]. IsInitialized (heap (io_manager s') c)} = {0}"
    by (metis set_filter list.set(1) list.set(2))
  have inv: "sdn_inv (io_manager example_fresh_server)" "connections (io_manager example_fresh_server) = []"
    by (simp_all add: fresh sdn_inv_init) (simp add: init_manager_def)
  have count: "length (filter is_packet example_events) = 2" "packets_counted example_fresh_server = 0"
    "io_sent example_fresh_server = []"
    by (simp_all add: example_events_def is_packet_def packets_counted_def example_fresh_server_def example_io_server_def)
  from streams_leave_no_connection [OF inv s'(1)] s'(1) init count show ?thesis by auto
qed

end
