(* ===== verification/References.thy ===== *)
theory References
  imports Pdpi_Types String_Encodings
begin

text \<open>
  References between table entries: the names of built-in tables, fields and actions
  (\<open>p4_infra/p4_pdpi/built_ins.cc\<close>, with their part of \<open>reference_annotations.cc\<close>), the concrete
  references an entity has and those it can satisfy, and the references of a set of entities
  that no entity satisfies (\<open>p4_infra/p4_pdpi/references.cc\<close>).

  Ordered and hashed sets of the code are sets. Where the code appends the elements of a hash set
  to a vector, whose order is then unspecified, the vector is a set too. The argument
  \<open>unset\<close> of some definitions is the status of \<open>gutil::GetOneOfFieldName\<close> for a \<open>oneof\<close> that is not set.
\<close>

section \<open>Built-in names\<close>

definition kBuiltInPrefix :: string where "kBuiltInPrefix = ''builtin::''"

definition GetMulticastGroupTableName :: string where
  "GetMulticastGroupTableName = kBuiltInPrefix @ ''multicast_group_table''"

definition GetReplicaActionName :: string where
  "GetReplicaActionName = kBuiltInPrefix @ ''replica''"

definition GetCloneSessionTableName :: string where
  "GetCloneSessionTableName = kBuiltInPrefix @ ''clone_session_table''"

definition IrBuiltInTableToString :: "ir_built_in_table \<Rightarrow> string status_or" where
  "IrBuiltInTableToString t =
     (case t of
        BUILT_IN_TABLE_MULTICAST_GROUP_TABLE \<Rightarrow> Inr GetMulticastGroupTableName
      | BUILT_IN_TABLE_CLONE_SESSION_TABLE \<Rightarrow> Inr GetCloneSessionTableName
      | BUILT_IN_TABLE_UNSPECIFIED \<Rightarrow> Inl INVALID_ARGUMENT)"

definition IrBuiltInMatchFieldToString :: "ir_built_in_match_field \<Rightarrow> string status_or" where
  "IrBuiltInMatchFieldToString f =
     (case f of
        BUILT_IN_MATCH_FIELD_MULTICAST_GROUP_ID \<Rightarrow> Inr ''multicast_group_id''
      | BUILT_IN_MATCH_FIELD_UNSPECIFIED \<Rightarrow> Inl INVALID_ARGUMENT)"

definition IrBuiltInActionToString :: "ir_built_in_action \<Rightarrow> string status_or" where
  "IrBuiltInActionToString a =
     (case a of
        BUILT_IN_ACTION_REPLICA \<Rightarrow> Inr (kBuiltInPrefix @ ''replica'')
      | BUILT_IN_ACTION_UNSPECIFIED \<Rightarrow> Inl INVALID_ARGUMENT)"

definition IrBuiltInParameterToString :: "ir_built_in_parameter \<Rightarrow> string status_or" where
  "IrBuiltInParameterToString p =
     (case p of
        BUILT_IN_PARAMETER_REPLICA_PORT \<Rightarrow> Inr ''replica.port''
      | BUILT_IN_PARAMETER_REPLICA_INSTANCE \<Rightarrow> Inr ''replica.instance''
      | BUILT_IN_PARAMETER_UNSPECIFIED \<Rightarrow> Inl INVALID_ARGUMENT)"

definition StringToIrBuiltInTable :: "string \<Rightarrow> ir_built_in_table status_or" where
  "StringToIrBuiltInTable s =
     (if s = GetMulticastGroupTableName then Inr BUILT_IN_TABLE_MULTICAST_GROUP_TABLE
      else if s = GetCloneSessionTableName then Inr BUILT_IN_TABLE_CLONE_SESSION_TABLE
      else Inl INVALID_ARGUMENT)"

definition StringToIrBuiltInMatchField :: "string \<Rightarrow> ir_built_in_match_field status_or" where
  "StringToIrBuiltInMatchField s =
     (if s = ''multicast_group_id'' then Inr BUILT_IN_MATCH_FIELD_MULTICAST_GROUP_ID else Inl INVALID_ARGUMENT)"

definition StringToIrBuiltInAction :: "string \<Rightarrow> ir_built_in_action status_or" where
  "StringToIrBuiltInAction s =
     (if s = kBuiltInPrefix @ ''replica'' then Inr BUILT_IN_ACTION_REPLICA else Inl INVALID_ARGUMENT)"

definition StringToIrBuiltInParameter :: "string \<Rightarrow> ir_built_in_parameter status_or" where
  "StringToIrBuiltInParameter s =
     (if s = ''replica.port'' then Inr BUILT_IN_PARAMETER_REPLICA_PORT
      else if s = ''replica.instance'' then Inr BUILT_IN_PARAMETER_REPLICA_INSTANCE
      else Inl INVALID_ARGUMENT)"

definition IsBuiltInTable :: "string \<Rightarrow> bool" where
  "IsBuiltInTable s = (\<not> isl (StringToIrBuiltInTable s))"

definition IsBuiltInAction :: "string \<Rightarrow> bool" where
  "IsBuiltInAction s = (\<not> isl (StringToIrBuiltInAction s))"

definition BuiltInTableHasMatchField :: "ir_built_in_table \<Rightarrow> ir_built_in_match_field \<Rightarrow> bool" where
  "BuiltInTableHasMatchField t f =
     (t = BUILT_IN_TABLE_MULTICAST_GROUP_TABLE \<and> f = BUILT_IN_MATCH_FIELD_MULTICAST_GROUP_ID)"

definition BuiltInTableHasAction :: "ir_built_in_table \<Rightarrow> ir_built_in_action \<Rightarrow> bool" where
  "BuiltInTableHasAction t a = (t = BUILT_IN_TABLE_MULTICAST_GROUP_TABLE \<and> a = BUILT_IN_ACTION_REPLICA)"

text \<open>
  The \<open>switch\<close> names \<open>BUILT_IN_TABLE_MULTICAST_GROUP_TABLE\<close>, of another enumeration; both it and
  \<open>BUILT_IN_ACTION_REPLICA\<close> are 1.
\<close>

definition BuiltInActionHasParameter :: "ir_built_in_action \<Rightarrow> ir_built_in_parameter \<Rightarrow> bool" where
  "BuiltInActionHasParameter a p =
     (a = BUILT_IN_ACTION_REPLICA \<and> p \<in> {BUILT_IN_PARAMETER_REPLICA_PORT, BUILT_IN_PARAMETER_REPLICA_INSTANCE})"

definition GetBuiltInActionFromBuiltInParameter :: "ir_built_in_parameter \<Rightarrow> ir_built_in_action status_or" where
  "GetBuiltInActionFromBuiltInParameter p =
     (case p of
        BUILT_IN_PARAMETER_REPLICA_PORT \<Rightarrow> Inr BUILT_IN_ACTION_REPLICA
      | BUILT_IN_PARAMETER_REPLICA_INSTANCE \<Rightarrow> Inr BUILT_IN_ACTION_REPLICA
      | BUILT_IN_PARAMETER_UNSPECIFIED \<Rightarrow> Inl INVALID_ARGUMENT)"

fun match_field_is_optional :: "ir_match_field \<Rightarrow> bool" where
  "match_field_is_optional (P4MatchField _ _ is_optional) = is_optional"
| "match_field_is_optional _ = False"

fun FieldIsOptional :: "ir_field \<Rightarrow> bool" where
  "FieldIsOptional (IrMatchField m) = match_field_is_optional m"
| "FieldIsOptional _ = False"

definition GetNameOfField :: "ir_field \<Rightarrow> string status_or" where
  "GetNameOfField f =
     (case f of
        IrMatchField (P4MatchField name _ _) \<Rightarrow> Inr name
      | IrMatchField (BuiltInMatchField b) \<Rightarrow> IrBuiltInMatchFieldToString b
      | IrMatchField MatchFieldNotSet \<Rightarrow> Inl INVALID_ARGUMENT
      | IrActionField (P4ActionField action_name _ parameter_name _) \<Rightarrow> Inr (action_name @ ''.'' @ parameter_name)
      | IrActionField (BuiltInActionField _ p) \<Rightarrow> IrBuiltInParameterToString p
      | IrActionField ActionFieldNotSet \<Rightarrow> Inl INVALID_ARGUMENT
      | IrFieldNotSet \<Rightarrow> Inl INVALID_ARGUMENT)"

definition GetNameOfAction :: "ir_action_field \<Rightarrow> string status_or" where
  "GetNameOfAction f =
     (case f of
        P4ActionField action_name _ _ _ \<Rightarrow> Inr action_name
      | BuiltInActionField a _ \<Rightarrow> IrBuiltInActionToString a
      | ActionFieldNotSet \<Rightarrow> Inl INVALID_ARGUMENT)"

definition GetNameOfTable :: "ir_table \<Rightarrow> string status_or" where
  "GetNameOfTable t =
     (case t of
        P4Table name _ \<Rightarrow> Inr name
      | BuiltInTable b \<Rightarrow> IrBuiltInTableToString b
      | IrTableNotSet \<Rightarrow> Inl INVALID_ARGUMENT)"

section \<open>Values of fields\<close>

definition kMulticastGroupIdWidth :: nat where "kMulticastGroupIdWidth = 16"
definition kMulticastReplicaInstanceWidth :: nat where "kMulticastReplicaInstanceWidth = 16"

definition p4_match_field_value :: "status_code \<Rightarrow> nat \<Rightarrow> bool \<Rightarrow> pi_table_entry \<Rightarrow> string option status_or" where
  "p4_match_field_value unset field_id is_optional entry =
     (case find (\<lambda>m. fm_field_id m = field_id) (pte_match entry) of
        Some m \<Rightarrow>
          (case fm_type m of
             FmExact v \<Rightarrow> Inr (Some v)
           | FmOptional v \<Rightarrow> Inr (Some v)
           | FmNotSet \<Rightarrow> Inl unset
           | _ \<Rightarrow> Inl UNIMPLEMENTED)
      | None \<Rightarrow> if is_optional then Inr None else Inl INVALID_ARGUMENT)"

text \<open>The numbers of a multicast group are truncated to 16 bits before they are encoded.\<close>

definition built_in_match_field_value :: "ir_built_in_match_field \<Rightarrow> nat \<Rightarrow> string status_or" where
  "built_in_match_field_value field multicast_group_id =
     (case field of
        BUILT_IN_MATCH_FIELD_MULTICAST_GROUP_ID \<Rightarrow>
          Inr (BitsetToP4RuntimeByteString kMulticastGroupIdWidth (multicast_group_id mod 2 ^ kMulticastGroupIdWidth))
      | BUILT_IN_MATCH_FIELD_UNSPECIFIED \<Rightarrow> Inl INTERNAL)"

definition GetMatchFieldValue :: "status_code \<Rightarrow> ir_match_field \<Rightarrow> pi_entity \<Rightarrow> string option status_or" where
  "GetMatchFieldValue unset field entity =
     (case field of
        P4MatchField _ field_id is_optional \<Rightarrow>
          (case entity of
             TableEntry t \<Rightarrow> p4_match_field_value unset field_id is_optional t
           | _ \<Rightarrow> Inl INVALID_ARGUMENT)
      | BuiltInMatchField b \<Rightarrow>
          (case entity of
             PacketReplicationEngineEntry (MulticastGroupEntry i _ _) \<Rightarrow>
               bind_or (built_in_match_field_value b i) (\<lambda>v. Inr (Some v))
           | _ \<Rightarrow> Inl INVALID_ARGUMENT)
      | MatchFieldNotSet \<Rightarrow> Inl INVALID_ARGUMENT)"

text \<open>Accessors of a \<open>oneof\<close> give the default message when another alternative is set.\<close>

definition p4_action_parameter_id :: "ir_field \<Rightarrow> nat" where
  "p4_action_parameter_id f = (case f of IrActionField (P4ActionField _ _ _ i) \<Rightarrow> i | _ \<Rightarrow> 0)"

definition built_in_parameter :: "ir_field \<Rightarrow> ir_built_in_parameter" where
  "built_in_parameter f =
     (case f of IrActionField (BuiltInActionField _ p) \<Rightarrow> p | _ \<Rightarrow> BUILT_IN_PARAMETER_UNSPECIFIED)"

definition p4_action_field_value :: "nat \<Rightarrow> pi_action \<Rightarrow> string status_or" where
  "p4_action_field_value parameter_id action =
     (case map_of (pi_params action) parameter_id of Some v \<Rightarrow> Inr v | None \<Rightarrow> Inl INVALID_ARGUMENT)"

definition built_in_action_field_value :: "ir_built_in_parameter \<Rightarrow> string \<times> nat \<Rightarrow> string status_or" where
  "built_in_action_field_value parameter replica =
     (case parameter of
        BUILT_IN_PARAMETER_REPLICA_PORT \<Rightarrow> Inr (fst replica)
      | BUILT_IN_PARAMETER_REPLICA_INSTANCE \<Rightarrow>
          Inr (BitsetToP4RuntimeByteString kMulticastReplicaInstanceWidth
            (snd replica mod 2 ^ kMulticastReplicaInstanceWidth))
      | BUILT_IN_PARAMETER_UNSPECIFIED \<Rightarrow> Inl INVALID_ARGUMENT)"

section \<open>Concrete references\<close>

record concrete_field_reference =
  cfr_source_field :: string
  cfr_destination_field :: string
  cfr_value :: string

record concrete_table_reference =
  ctr_source_table :: string
  ctr_destination_table :: string
  ctr_fields :: "concrete_field_reference set"

datatype field_reference_type = kMatchFieldToMatchField | kActionParamToMatchField

definition GetReferenceType :: "ir_field \<Rightarrow> ir_field \<Rightarrow> field_reference_type status_or" where
  "GetReferenceType source destination =
     (case (source, destination) of
        (IrMatchField _, IrMatchField _) \<Rightarrow> Inr kMatchFieldToMatchField
      | (IrActionField _, IrMatchField _) \<Rightarrow> Inr kActionParamToMatchField
      | _ \<Rightarrow> Inl UNIMPLEMENTED)"

definition ValidateEntityBelongsToTable :: "status_code \<Rightarrow> pi_entity \<Rightarrow> ir_table \<Rightarrow> status_code" where
  "ValidateEntityBelongsToTable unset entity table =
     (case entity of
        TableEntry t \<Rightarrow>
          (case table of
             P4Table _ table_id \<Rightarrow> if pte_table_id t \<noteq> table_id then INVALID_ARGUMENT else OK
           | _ \<Rightarrow> INVALID_ARGUMENT)
      | PacketReplicationEngineEntry (MulticastGroupEntry _ _ _) \<Rightarrow>
          (case table of
             BuiltInTable b \<Rightarrow> if b \<noteq> BUILT_IN_TABLE_MULTICAST_GROUP_TABLE then INVALID_ARGUMENT else OK
           | _ \<Rightarrow> INVALID_ARGUMENT)
      | PacketReplicationEngineEntry _ \<Rightarrow> UNIMPLEMENTED
      | OtherEntity \<Rightarrow> UNIMPLEMENTED
      | EntityNotSet \<Rightarrow> unset)"

text \<open>The concrete reference for a field reference whose value is computed by \<open>value\<close>.\<close>

definition concrete_field :: "(field_reference \<Rightarrow> string status_or) \<Rightarrow> field_reference \<Rightarrow> concrete_field_reference status_or" where
  "concrete_field get r =
     bind_or (GetNameOfField (fr_source r)) (\<lambda>source_name.
     bind_or (GetNameOfField (fr_destination r)) (\<lambda>destination_name.
     bind_or (get r) (\<lambda>v.
       Inr \<lparr>cfr_source_field = source_name, cfr_destination_field = destination_name, cfr_value = v\<rparr>)))"

definition GetPartialReferenceFromAction ::
  "field_reference list \<Rightarrow> pi_action \<Rightarrow> concrete_field_reference set status_or" where
  "GetPartialReferenceFromAction refs action =
     bind_or (map_or (concrete_field (\<lambda>r. p4_action_field_value (p4_action_parameter_id (fr_source r)) action)) refs)
       (\<lambda>cs. Inr (set cs))"

definition GetPartialReferenceFromReplica ::
  "field_reference list \<Rightarrow> string \<times> nat \<Rightarrow> concrete_field_reference set status_or" where
  "GetPartialReferenceFromReplica refs replica =
     bind_or (map_or (concrete_field (\<lambda>r. built_in_action_field_value (built_in_parameter (fr_source r)) replica)) refs)
       (\<lambda>cs. Inr (set cs))"

definition ir_match_field_of :: "ir_field \<Rightarrow> ir_match_field" where
  "ir_match_field_of f = (case f of IrMatchField m \<Rightarrow> m | _ \<Rightarrow> MatchFieldNotSet)"

definition ConcreteFieldReferenceFromDestinationMatchField ::
  "status_code \<Rightarrow> field_reference \<Rightarrow> pi_entity \<Rightarrow> concrete_field_reference status_or" where
  "ConcreteFieldReferenceFromDestinationMatchField unset r entity =
     bind_or (GetMatchFieldValue unset (ir_match_field_of (fr_destination r)) entity) (\<lambda>match_field_value.
       case match_field_value of
         None \<Rightarrow> Inl INTERNAL
       | Some v \<Rightarrow>
           bind_or (GetNameOfField (fr_source r)) (\<lambda>source_name.
           bind_or (GetNameOfField (fr_destination r)) (\<lambda>destination_name.
             Inr \<lparr>cfr_source_field = source_name, cfr_destination_field = destination_name, cfr_value = v\<rparr>)))"

text \<open>Step 1 of both directions: every field reference is of a supported type.\<close>

definition check_field_reference :: "field_reference \<Rightarrow> field_reference_type status_or" where
  "check_field_reference r =
     (if FieldIsOptional (fr_destination r) then Inl UNIMPLEMENTED
      else GetReferenceType (fr_source r) (fr_destination r))"

definition is_match_field_reference :: "field_reference \<Rightarrow> bool" where
  "is_match_field_reference r = (case fr_source r of IrMatchField _ \<Rightarrow> True | _ \<Rightarrow> False)"

definition from_p4_action :: "nat \<Rightarrow> field_reference \<Rightarrow> bool" where
  "from_p4_action action_id r =
     (case fr_source r of IrActionField (P4ActionField _ i _ _) \<Rightarrow> i = action_id | _ \<Rightarrow> False)"

definition from_built_in_action :: "field_reference \<Rightarrow> bool" where
  "from_built_in_action r =
     (case fr_source r of
        IrActionField (P4ActionField _ _ _ _) \<Rightarrow> False
      | IrActionField _ \<Rightarrow> True
      | _ \<Rightarrow> False)"

definition replica_port :: "pi_replica \<Rightarrow> string" where
  "replica_port r = (case pr_port_kind r of Port p \<Rightarrow> p | _ \<Rightarrow> [])"

text \<open>A replica followed by its backups, each with a port and an instance.\<close>

definition replicas_with_backups :: "pi_replica list \<Rightarrow> (string \<times> nat) list" where
  "replicas_with_backups rs =
     concat (map (\<lambda>r. (replica_port r, pr_instance r) # map (\<lambda>b. (pbr_port b, pbr_instance b)) (pr_backups r)) rs)"

text \<open>Step 2 of the outgoing direction: one partial reference per action of the entity.\<close>

definition outgoing_action_references ::
  "field_reference list \<Rightarrow> pi_entity \<Rightarrow> concrete_field_reference set list status_or" where
  "outgoing_action_references refs entity =
     (let from_action = (\<lambda>a. GetPartialReferenceFromAction (filter (from_p4_action (pi_action_id a)) refs) a)
      in case entity of
           TableEntry t \<Rightarrow>
             (case pte_action t of
                PiAction a \<Rightarrow> bind_or (from_action a) (\<lambda>p. Inr [p])
              | PiActionProfileActionSet as \<Rightarrow> map_or (\<lambda>a. from_action (apa_action a)) as
              | _ \<Rightarrow> Inl INVALID_ARGUMENT)
         | PacketReplicationEngineEntry (MulticastGroupEntry _ replicas _) \<Rightarrow>
             map_or (GetPartialReferenceFromReplica (filter from_built_in_action refs)) (replicas_with_backups replicas)
         | PacketReplicationEngineEntry _ \<Rightarrow> Inr []
         | _ \<Rightarrow> Inl INVALID_ARGUMENT)"

text \<open>Step 3: the match fields of the entity, without the optional ones it does not have.\<close>

definition outgoing_match_field :: "status_code \<Rightarrow> pi_entity \<Rightarrow> field_reference \<Rightarrow> concrete_field_reference option status_or" where
  "outgoing_match_field unset entity r =
     bind_or (GetNameOfField (fr_source r)) (\<lambda>source_name.
     bind_or (GetNameOfField (fr_destination r)) (\<lambda>destination_name.
     bind_or (GetMatchFieldValue unset (ir_match_field_of (fr_source r)) entity) (\<lambda>match_field_value.
       Inr (map_option (\<lambda>v. \<lparr>cfr_source_field = source_name, cfr_destination_field = destination_name, cfr_value = v\<rparr>)
         match_field_value))))"

definition outgoing_match_references ::
  "status_code \<Rightarrow> field_reference list \<Rightarrow> pi_entity \<Rightarrow> concrete_field_reference set status_or" where
  "outgoing_match_references unset refs entity =
     bind_or (map_or (outgoing_match_field unset entity) (filter is_match_field_reference refs))
       (\<lambda>cs. Inr {c. Some c \<in> set cs})"

text \<open>Step 4: the partial references combined; an empty reference is none.\<close>

definition outgoing_fields ::
  "concrete_field_reference set list \<Rightarrow> concrete_field_reference set \<Rightarrow> concrete_field_reference set list" where
  "outgoing_fields actions match_fields =
     (if actions = [] \<and> match_fields \<noteq> {} then [match_fields]
      else filter (\<lambda>p. p \<noteq> {}) (map (\<lambda>p. p \<union> match_fields) actions))"

definition OutgoingConcreteTableReferences ::
  "status_code \<Rightarrow> ir_table_reference \<Rightarrow> pi_entity \<Rightarrow> concrete_table_reference set status_or" where
  "OutgoingConcreteTableReferences unset reference_info entity =
     (let refs = itr_field_references reference_info
      in return_if_error (ValidateEntityBelongsToTable unset entity (itr_source_table reference_info))
        (bind_or (map_or check_field_reference refs) (\<lambda>_.
         bind_or (outgoing_action_references refs entity) (\<lambda>action_partial_references.
         bind_or (outgoing_match_references unset refs entity) (\<lambda>match_field_partial_reference.
         bind_or (GetNameOfTable (itr_source_table reference_info)) (\<lambda>source_table_name.
         bind_or (GetNameOfTable (itr_destination_table reference_info)) (\<lambda>destination_table_name.
           Inr ((\<lambda>p. \<lparr>ctr_source_table = source_table_name, ctr_destination_table = destination_table_name,
                      ctr_fields = p\<rparr>) `
                set (outgoing_fields action_partial_references match_field_partial_reference)))))))))"

definition GetIncomingTableReferences :: "ir_p4info \<Rightarrow> pi_entity \<Rightarrow> ir_table_reference list status_or" where
  "GetIncomingTableReferences info entity =
     (case entity of
        TableEntry t \<Rightarrow>
          (case tables_by_id info (pte_table_id t) of
             Some table_def \<Rightarrow> Inr (itd_incoming_references table_def)
           | None \<Rightarrow> Inl NOT_FOUND)
      | PacketReplicationEngineEntry (MulticastGroupEntry _ _ _) \<Rightarrow>
          bind_or (IrBuiltInTableToString BUILT_IN_TABLE_MULTICAST_GROUP_TABLE) (\<lambda>multicast_table.
            case built_in_tables info multicast_table of
              Some def \<Rightarrow> Inr (ibt_incoming_references def)
            | None \<Rightarrow> Inl NOT_FOUND)
      | _ \<Rightarrow> Inl INVALID_ARGUMENT)"

definition GetOutgoingTableReferences :: "ir_p4info \<Rightarrow> pi_entity \<Rightarrow> ir_table_reference list status_or" where
  "GetOutgoingTableReferences info entity =
     (case entity of
        TableEntry t \<Rightarrow>
          (case tables_by_id info (pte_table_id t) of
             Some table_def \<Rightarrow> Inr (itd_outgoing_references table_def)
           | None \<Rightarrow> Inl NOT_FOUND)
      | PacketReplicationEngineEntry (MulticastGroupEntry _ _ _) \<Rightarrow>
          bind_or (IrBuiltInTableToString BUILT_IN_TABLE_MULTICAST_GROUP_TABLE) (\<lambda>multicast_table.
            case built_in_tables info multicast_table of
              Some def \<Rightarrow> Inr (ibt_outgoing_references def)
            | None \<Rightarrow> Inl NOT_FOUND)
      | _ \<Rightarrow> Inl INVALID_ARGUMENT)"

text \<open>
  Step 1 of the incoming direction also names the source action of a reference from a parameter.
\<close>

definition incoming_action_name :: "field_reference \<Rightarrow> string option status_or" where
  "incoming_action_name r =
     bind_or (check_field_reference r) (\<lambda>reference_type.
       case (reference_type, fr_source r) of
         (kActionParamToMatchField, IrActionField a) \<Rightarrow> bind_or (GetNameOfAction a) (\<lambda>n. Inr (Some n))
       | _ \<Rightarrow> Inr None)"

text \<open>
  Step 2: one partial reference per source action, from the values of the entity; the actions are
  taken in the order in which they first occur, where the code follows its hash map.
\<close>

definition incoming_partial_reference ::
  "status_code \<Rightarrow> pi_entity \<Rightarrow> field_reference list \<Rightarrow> concrete_field_reference set status_or" where
  "incoming_partial_reference unset entity refs =
     bind_or (map_or (\<lambda>r. ConcreteFieldReferenceFromDestinationMatchField unset r entity) refs) (\<lambda>cs. Inr (set cs))"

definition references_of_action :: "(field_reference \<times> string option) list \<Rightarrow> string \<Rightarrow> field_reference list" where
  "references_of_action named action_name = map fst (filter (\<lambda>(_, n). n = Some action_name) named)"

definition action_names :: "(field_reference \<times> string option) list \<Rightarrow> string list" where
  "action_names named = rev (remdups (rev (List.map_filter snd named)))"

text \<open>
  Step 4: every optional match field doubles the partial references, without and with it.
\<close>

definition with_optional :: "concrete_field_reference set list \<Rightarrow> concrete_field_reference \<Rightarrow> concrete_field_reference set list" where
  "with_optional partial_references optional = partial_references @ map (insert optional) partial_references"

definition incoming_fields ::
  "concrete_field_reference set list \<Rightarrow> concrete_field_reference set list \<Rightarrow> concrete_field_reference set list" where
  "incoming_fields actions match_fields =
     filter (\<lambda>p. p \<noteq> {}) match_fields @
     filter (\<lambda>p. p \<noteq> {}) (concat (map (\<lambda>m. map (\<lambda>a. a \<union> m) actions) match_fields))"

definition PossibleIncomingConcreteTableReferences ::
  "status_code \<Rightarrow> ir_table_reference \<Rightarrow> pi_entity \<Rightarrow> concrete_table_reference set status_or" where
  "PossibleIncomingConcreteTableReferences unset reference_info entity =
     (let refs = itr_field_references reference_info;
          match_refs = filter is_match_field_reference refs;
          concrete = (\<lambda>r. ConcreteFieldReferenceFromDestinationMatchField unset r entity)
      in return_if_error (ValidateEntityBelongsToTable unset entity (itr_destination_table reference_info))
        (bind_or (map_or incoming_action_name refs) (\<lambda>names.
         bind_or (map_or (\<lambda>n. incoming_partial_reference unset entity (references_of_action (zip refs names) n))
           (action_names (zip refs names))) (\<lambda>action_partial_references.
         bind_or (incoming_partial_reference unset entity (filter (\<lambda>r. \<not> FieldIsOptional (fr_source r)) match_refs))
           (\<lambda>exact_match_field_partial_reference.
         bind_or (map_or concrete (filter (\<lambda>r. FieldIsOptional (fr_source r)) match_refs)) (\<lambda>optionals.
         bind_or (GetNameOfTable (itr_source_table reference_info)) (\<lambda>source_table_name.
         bind_or (GetNameOfTable (itr_destination_table reference_info)) (\<lambda>destination_table_name.
           Inr ((\<lambda>p. \<lparr>ctr_source_table = source_table_name, ctr_destination_table = destination_table_name,
                      ctr_fields = p\<rparr>) `
                set (incoming_fields action_partial_references
                  (foldl with_optional [exact_match_field_partial_reference] optionals)))))))))))"

record entity_with_unsatisfied_references =
  eur_entity :: pi_entity
  eur_unsatisfied_references :: "concrete_table_reference set"

definition incoming_references :: "status_code \<Rightarrow> ir_p4info \<Rightarrow> pi_entity \<Rightarrow> concrete_table_reference set status_or" where
  "incoming_references unset info entity =
     bind_or (GetIncomingTableReferences info entity) (\<lambda>rs.
     bind_or (map_or (\<lambda>r. PossibleIncomingConcreteTableReferences unset r entity) rs) (\<lambda>cs. Inr (\<Union> (set cs))))"

definition outgoing_references :: "status_code \<Rightarrow> ir_p4info \<Rightarrow> pi_entity \<Rightarrow> concrete_table_reference set status_or" where
  "outgoing_references unset info entity =
     bind_or (GetOutgoingTableReferences info entity) (\<lambda>rs.
     bind_or (map_or (\<lambda>r. OutgoingConcreteTableReferences unset r entity) rs) (\<lambda>cs. Inr (\<Union> (set cs))))"

definition UnsatisfiedOutgoingReferences ::
  "status_code \<Rightarrow> ir_p4info \<Rightarrow> pi_entity list \<Rightarrow> entity_with_unsatisfied_references list status_or" where
  "UnsatisfiedOutgoingReferences unset info pi_entities =
     bind_or (map_or (incoming_references unset info) pi_entities) (\<lambda>incoming.
     bind_or (map_or (outgoing_references unset info) pi_entities) (\<lambda>outgoing.
       let satisfiable = \<Union> (set incoming);
           unsatisfied = map (\<lambda>(e, out). \<lparr>eur_entity = e, eur_unsatisfied_references = out - satisfiable\<rparr>)
             (zip pi_entities outgoing)
       in Inr (filter (\<lambda>u. eur_unsatisfied_references u \<noteq> {}) unsatisfied)))"

section \<open>When one entity satisfies a reference of another\<close>

text \<open>
  The references of a table as the IR has them: the names of the two fields tell a field reference
  apart, an action has one ID and one name, and no action of the P4 program has the name of the
  built-in one.
\<close>

definition field_names :: "field_reference \<Rightarrow> string status_or \<times> string status_or" where
  "field_names r = (GetNameOfField (fr_source r), GetNameOfField (fr_destination r))"

definition same_action :: "ir_action_field \<Rightarrow> ir_action_field \<Rightarrow> bool" where
  "same_action a b \<longleftrightarrow>
     (case a of
        P4ActionField n i _ _ \<Rightarrow>
          (case b of
             P4ActionField m j _ _ \<Rightarrow> i = j \<longleftrightarrow> n = m
           | BuiltInActionField c _ \<Rightarrow> IrBuiltInActionToString c \<noteq> Inr n
           | ActionFieldNotSet \<Rightarrow> True)
      | _ \<Rightarrow> True)"

definition reference_info_ok :: "ir_table_reference \<Rightarrow> bool" where
  "reference_info_ok R \<longleftrightarrow>
     (\<forall>r \<in> set (itr_field_references R). \<forall>s \<in> set (itr_field_references R).
        (field_names r = field_names s \<longrightarrow> r = s) \<and>
        (\<forall>a b. fr_source r = IrActionField a \<longrightarrow> fr_source s = IrActionField b \<longrightarrow> same_action a b))"

text \<open>Whether the destination fields of \<open>entity\<close> have the values that a concrete reference asks for.\<close>

definition satisfies :: "status_code \<Rightarrow> ir_table_reference \<Rightarrow> pi_entity \<Rightarrow> concrete_table_reference \<Rightarrow> bool" where
  "satisfies unset R entity c \<longleftrightarrow>
     (\<forall>f \<in> ctr_fields c. \<exists>r \<in> set (itr_field_references R).
        field_names r = (Inr (cfr_source_field f), Inr (cfr_destination_field f)) \<and>
        GetMatchFieldValue unset (ir_match_field_of (fr_destination r)) entity = Inr (Some (cfr_value f)))"

definition asks :: "field_reference \<Rightarrow> concrete_field_reference \<Rightarrow> bool" where
  "asks r f \<longleftrightarrow> field_names r = (Inr (cfr_source_field f), Inr (cfr_destination_field f))"

lemma concrete_field_asks: "concrete_field get r = Inr f \<Longrightarrow> asks r f"
  by (auto simp: concrete_field_def asks_def field_names_def)

lemma destination_field_iff:
  "ConcreteFieldReferenceFromDestinationMatchField unset r entity = Inr f \<longleftrightarrow>
     asks r f \<and> GetMatchFieldValue unset (ir_match_field_of (fr_destination r)) entity = Inr (Some (cfr_value f))"
  by (cases f; cases "GetMatchFieldValue unset (ir_match_field_of (fr_destination r)) entity")
    (auto simp: ConcreteFieldReferenceFromDestinationMatchField_def asks_def field_names_def split: option.split)

lemma outgoing_match_field_asks: "outgoing_match_field unset e r = Inr (Some f) \<Longrightarrow> asks r f"
  by (auto simp: outgoing_match_field_def asks_def field_names_def)

text \<open>The values an entity has for a list of field references.\<close>

definition offered :: "status_code \<Rightarrow> pi_entity \<Rightarrow> field_reference list \<Rightarrow> concrete_field_reference set" where
  "offered unset entity refs =
     {f. \<exists>r \<in> set refs. ConcreteFieldReferenceFromDestinationMatchField unset r entity = Inr f}"

lemma map_or_defined: "map_or f xs = Inr ys \<Longrightarrow> x \<in> set xs \<Longrightarrow> \<exists>y. f x = Inr y"
  by (induction xs arbitrary: ys) auto

lemma map_or_set: "map_or f xs = Inr ys \<Longrightarrow> set ys = {y. \<exists>x \<in> set xs. f x = Inr y}"
  by (induction xs arbitrary: ys) auto

lemma incoming_partial_reference_eq:
  "incoming_partial_reference unset e refs = Inr p \<Longrightarrow> p = offered unset e refs"
  by (auto simp: incoming_partial_reference_def offered_def dest!: map_or_set)

lemma with_optional_set:
  "set (foldl with_optional ps os) = {p \<union> q | p q. p \<in> set ps \<and> q \<subseteq> set os}"
proof (induction os arbitrary: ps)
  case (Cons o' os)
  have "{p \<union> q | p q. p \<in> set (with_optional ps o') \<and> q \<subseteq> set os} = {p \<union> q | p q. p \<in> set ps \<and> q \<subseteq> insert o' (set os)}"
    (is "?L = ?R")
  proof (intro equalityI subsetI)
    fix x assume "x \<in> ?L"
    then obtain p q where x: "x = p \<union> q" "q \<subseteq> set os" "p \<in> set ps \<or> (\<exists>p' \<in> set ps. p = insert o' p')"
      by (auto simp: with_optional_def)
    from x(3) show "x \<in> ?R"
    proof
      assume "\<exists>p' \<in> set ps. p = insert o' p'"
      then obtain p' where "p' \<in> set ps" "x = p' \<union> insert o' q" using x(1) by auto
      with x(2) show ?thesis by blast
    qed (use x in blast)
  next
    fix x assume "x \<in> ?R"
    then obtain p q where x: "x = p \<union> q" "p \<in> set ps" "q \<subseteq> insert o' (set os)" by blast
    show "x \<in> ?L"
    proof (cases "o' \<in> q")
      case True
      then have "x = insert o' p \<union> (q - {o'})" using x(1) by blast
      moreover have "insert o' p \<in> set (with_optional ps o')" using x(2) by (simp add: with_optional_def)
      moreover have "q - {o'} \<subseteq> set os" using x(3) by blast
      ultimately show ?thesis by blast
    next
      case False
      then have "q \<subseteq> set os" using x(3) by blast
      moreover have "p \<in> set (with_optional ps o')" using x(2) by (simp add: with_optional_def)
      ultimately show ?thesis using x(1) by blast
    qed
  qed
  with Cons.IH [of "with_optional ps o'"] show ?case by simp
qed auto


lemma set_action_names: "length names = length refs \<Longrightarrow> n \<in> set (action_names (zip refs names)) \<longleftrightarrow> Some n \<in> set names"
  by (force simp: action_names_def List.map_filter_def image_iff in_set_zip in_set_conv_nth)

lemma set_incoming_fields:
  "set (incoming_fields actions match_fields) =
     {a \<union> m | a m. (a = {} \<or> a \<in> set actions) \<and> m \<in> set match_fields \<and> a \<union> m \<noteq> {}}"
  by (auto simp: incoming_fields_def)

lemma combined_fields_iff:
  assumes "set match_fields = {ex \<union> q | q. q \<subseteq> Q}"
  shows "F \<in> set (incoming_fields actions match_fields) \<longleftrightarrow>
     F \<noteq> {} \<and> (\<exists>A q. (A = {} \<or> A \<in> set actions) \<and> q \<subseteq> Q \<and> F = A \<union> (ex \<union> q))"
  unfolding set_incoming_fields assms mem_Collect_eq by metis

lemma incoming_action_sets:
  assumes "map_or (\<lambda>n. incoming_partial_reference unset e (rs n)) ns = Inr acts"
  shows "set acts = (\<lambda>n. offered unset e (rs n)) ` set ns"
proof -
  have "\<exists>p. incoming_partial_reference unset e (rs n) = Inr p" if "n \<in> set ns" for n
    using assms that by (induction ns arbitrary: acts) auto
  then show ?thesis unfolding map_or_set [OF assms] by (auto dest: incoming_partial_reference_eq)
qed

definition optional_refs :: "field_reference list \<Rightarrow> field_reference list" where
  "optional_refs refs = filter (\<lambda>r. is_match_field_reference r \<and> FieldIsOptional (fr_source r)) refs"

definition exact_refs :: "field_reference list \<Rightarrow> field_reference list" where
  "exact_refs refs = filter (\<lambda>r. is_match_field_reference r \<and> \<not> FieldIsOptional (fr_source r)) refs"

text \<open>All exact match fields, some optional ones and the parameters of at most one action.\<close>

definition combination ::
  "status_code \<Rightarrow> pi_entity \<Rightarrow> field_reference list \<Rightarrow> string option list \<Rightarrow> concrete_field_reference set \<Rightarrow> bool" where
  "combination unset e refs names F \<longleftrightarrow> F \<noteq> {} \<and>
     (\<exists>A q. (A = {} \<or> (\<exists>n. Some n \<in> set names \<and> A = offered unset e (references_of_action (zip refs names) n))) \<and>
        q \<subseteq> offered unset e (optional_refs refs) \<and> F = A \<union> (offered unset e (exact_refs refs) \<union> q))"

lemma incoming_iff:
  assumes "PossibleIncomingConcreteTableReferences unset R e = Inr I"
  obtains src dst names where
    "GetNameOfTable (itr_source_table R) = Inr src" "GetNameOfTable (itr_destination_table R) = Inr dst"
    "map_or incoming_action_name (itr_field_references R) = Inr names"
    "\<And>c. c \<in> I \<longleftrightarrow> ctr_source_table c = src \<and> ctr_destination_table c = dst \<and> combination unset e (itr_field_references R) names (ctr_fields c)"
proof -
  let ?refs = "itr_field_references R"
  from assms obtain names acts ex os src dst where
    n: "map_or incoming_action_name ?refs = Inr names" and
    a: "map_or (\<lambda>n. incoming_partial_reference unset e (references_of_action (zip ?refs names) n))
          (action_names (zip ?refs names)) = Inr acts" and
    x: "incoming_partial_reference unset e (filter (\<lambda>r. \<not> FieldIsOptional (fr_source r)) (filter is_match_field_reference ?refs)) = Inr ex" and
    opts: "map_or (\<lambda>r. ConcreteFieldReferenceFromDestinationMatchField unset r e)
          (filter (\<lambda>r. FieldIsOptional (fr_source r)) (filter is_match_field_reference ?refs)) = Inr os" and
    t: "GetNameOfTable (itr_source_table R) = Inr src" "GetNameOfTable (itr_destination_table R) = Inr dst" and
    I: "I = (\<lambda>p. \<lparr>ctr_source_table = src, ctr_destination_table = dst, ctr_fields = p\<rparr>) `
          set (incoming_fields acts (foldl with_optional [ex] os))"
    by (auto simp: PossibleIncomingConcreteTableReferences_def Let_def)
  have acts: "set acts = (\<lambda>n. offered unset e (references_of_action (zip ?refs names) n)) ` {n. Some n \<in> set names}"
    using incoming_action_sets [OF a] set_action_names [OF map_or_length [OF n]] by auto
  have opt: "set os = offered unset e (optional_refs ?refs)"
    using map_or_set [OF opts] by (auto simp: offered_def optional_refs_def)
  have ex: "ex = offered unset e (exact_refs ?refs)"
    using incoming_partial_reference_eq [OF x] by (simp add: exact_refs_def conj_commute)
  have "set (foldl with_optional [ex] os) = {ex \<union> q | q. q \<subseteq> set os}"
    unfolding with_optional_set by auto
  note fields = combined_fields_iff [OF this, of _ acts]
  show thesis
  proof (rule that [OF t n])
    show "c \<in> I \<longleftrightarrow> ctr_source_table c = src \<and> ctr_destination_table c = dst \<and> combination unset e ?refs names (ctr_fields c)" for c
      unfolding combination_def ex [symmetric] opt [symmetric] using fields [of "ctr_fields c"] unfolding I acts
      by (cases c) (auto simp: image_iff)
  qed
qed

text \<open>
  An outgoing reference consists of one reference per field reference of some action, and one per
  match field that the entity has; the actions it can come from are those of the table.
\<close>

definition action_selection :: "(field_reference \<Rightarrow> bool) \<Rightarrow> bool" where
  "action_selection sel \<longleftrightarrow>
     sel = (\<lambda>_. False) \<or> (\<exists>i. sel = from_p4_action i) \<or> sel = from_built_in_action"

definition produced :: "(field_reference \<Rightarrow> string status_or) \<Rightarrow> field_reference list \<Rightarrow> concrete_field_reference set" where
  "produced get refs = {f. \<exists>r \<in> set refs. concrete_field get r = Inr f}"

lemma concrete_fields_produced:
  "map_or (concrete_field get) refs = Inr cs \<Longrightarrow>
   set cs = produced get refs \<and> (\<forall>r \<in> set refs. \<exists>f. concrete_field get r = Inr f)"
  by (induction refs arbitrary: cs) (auto simp: produced_def)

definition from_action_of :: "field_reference list \<Rightarrow> concrete_field_reference set \<Rightarrow> bool" where
  "from_action_of refs p \<longleftrightarrow>
     (\<exists>sel get. action_selection sel \<and> p = produced get (filter sel refs) \<and>
        (\<forall>r \<in> set refs. sel r \<longrightarrow> (\<exists>f. concrete_field get r = Inr f)))"

lemma from_p4_action_of:
  "GetPartialReferenceFromAction (filter (from_p4_action i) refs) a = Inr p \<Longrightarrow> from_action_of refs p"
  unfolding from_action_of_def GetPartialReferenceFromAction_def
  by (intro exI [of _ "from_p4_action i"] exI)
    (auto simp: action_selection_def dest!: concrete_fields_produced)

lemma from_replica_of:
  "GetPartialReferenceFromReplica (filter from_built_in_action refs) x = Inr p \<Longrightarrow> from_action_of refs p"
  unfolding from_action_of_def GetPartialReferenceFromReplica_def
  by (intro exI [of _ from_built_in_action] exI)
    (auto simp: action_selection_def dest!: concrete_fields_produced)

lemma map_or_mem: "map_or f xs = Inr ys \<Longrightarrow> y \<in> set ys \<Longrightarrow> \<exists>x \<in> set xs. f x = Inr y"
  by (simp add: map_or_set)

lemma outgoing_action_from:
  assumes "outgoing_action_references refs e = Inr ps" "p \<in> set ps"
  shows "from_action_of refs p"
  using assms
  by (auto simp: outgoing_action_references_def Let_def dest: map_or_mem intro: from_p4_action_of from_replica_of
      split: pi_entity.splits pi_table_action.splits packet_replication_engine_entry.splits)

lemma no_action_of: "from_action_of refs {}"
  unfolding from_action_of_def
  by (intro exI [of _ "\<lambda>_. False"] exI [of _ "\<lambda>_. Inl INTERNAL"]) (simp add: action_selection_def produced_def)

lemma outgoing_cases:
  assumes "OutgoingConcreteTableReferences unset R e = Inr cs" "c \<in> cs"
  obtains src dst p fs where
    "GetNameOfTable (itr_source_table R) = Inr src" "GetNameOfTable (itr_destination_table R) = Inr dst"
    "from_action_of (itr_field_references R) p"
    "map_or (outgoing_match_field unset e) (filter is_match_field_reference (itr_field_references R)) = Inr fs"
    "c = \<lparr>ctr_source_table = src, ctr_destination_table = dst, ctr_fields = p \<union> {f. Some f \<in> set fs}\<rparr>"
    "ctr_fields c \<noteq> {}"
proof -
  from assms obtain ps fs src dst where
    o: "outgoing_action_references (itr_field_references R) e = Inr ps"
      "map_or (outgoing_match_field unset e) (filter is_match_field_reference (itr_field_references R)) = Inr fs"
      "GetNameOfTable (itr_source_table R) = Inr src" "GetNameOfTable (itr_destination_table R) = Inr dst" and
    c: "c \<in> (\<lambda>p. \<lparr>ctr_source_table = src, ctr_destination_table = dst, ctr_fields = p\<rparr>) `
          set (outgoing_fields ps {f. Some f \<in> set fs})"
    by (auto simp: OutgoingConcreteTableReferences_def outgoing_match_references_def Let_def)
  then obtain q where q: "q \<in> set (outgoing_fields ps {f. Some f \<in> set fs})"
    "c = \<lparr>ctr_source_table = src, ctr_destination_table = dst, ctr_fields = q\<rparr>" by blast
  from q(1) have "q \<noteq> {} \<and> (\<exists>p. (p = {} \<or> p \<in> set ps) \<and> q = p \<union> {f. Some f \<in> set fs})"
    by (auto simp: outgoing_fields_def split: if_splits)
  then obtain p where p: "p = {} \<or> p \<in> set ps" "q = p \<union> {f. Some f \<in> set fs}" "q \<noteq> {}" by blast
  then have "from_action_of (itr_field_references R) p" using outgoing_action_from [OF o(1)] no_action_of by auto
  with o q(2) p show thesis by (intro that) auto
qed


lemma from_destination:
  "satisfies unset R d c \<Longrightarrow> reference_info_ok R \<Longrightarrow> r \<in> set (itr_field_references R) \<Longrightarrow> asks r f \<Longrightarrow> f \<in> ctr_fields c \<Longrightarrow>
   ConcreteFieldReferenceFromDestinationMatchField unset r d = Inr f"
  unfolding satisfies_def reference_info_ok_def destination_field_iff by (metis asks_def)

lemma destination_unique:
  "ConcreteFieldReferenceFromDestinationMatchField unset r d = Inr f \<Longrightarrow>
   ConcreteFieldReferenceFromDestinationMatchField unset r d = Inr g \<Longrightarrow> f = g"
  by simp

lemma same_selection:
  assumes "action_selection sel" "sel r" "fr_source r = IrActionField a" "fr_source s = IrActionField b"
    and "same_action a b" "same_action b a" "GetNameOfAction a = Inr n" "GetNameOfAction b = Inr m"
  shows "sel s \<longleftrightarrow> m = n"
proof (cases "sel = from_built_in_action")
  case True
  with assms(2-8) show ?thesis
    by (cases a; cases b)
      (simp_all add: from_built_in_action_def same_action_def GetNameOfAction_def IrBuiltInActionToString_def
        split: ir_built_in_action.splits, fastforce?)
next
  case False
  with assms(1,2) obtain i where "sel = from_p4_action i" by (auto simp: action_selection_def)
  with assms(2-8) show ?thesis
    by (cases a; cases b)
      (simp_all add: from_p4_action_def same_action_def GetNameOfAction_def, fastforce?)
qed

text \<open>The field references of one source action are those of one of the names that the other direction groups them by.\<close>

lemma selection_named:
  assumes "action_selection sel" "reference_info_ok R" "map_or incoming_action_name (itr_field_references R) = Inr names"
    and "r \<in> set (itr_field_references R)" "sel r"
  shows "\<exists>n. Some n \<in> set names \<and>
    set (references_of_action (zip (itr_field_references R) names) n) = {s \<in> set (itr_field_references R). sel s}"
proof -
  let ?refs = "itr_field_references R"
  have len: "length names = length ?refs" using map_or_length [OF assms(3)] .
  have nth: "incoming_action_name (?refs ! k) = Inr (names ! k)" if "k < length ?refs" for k
    using assms(3) that by (simp add: map_or_Inr_iff list_all2_conv_all_nth)
  have refs_of: "set (references_of_action (zip ?refs names) n) = {s \<in> set ?refs. incoming_action_name s = Inr (Some n)}" for n
    using nth len by (auto simp: references_of_action_def in_set_zip in_set_conv_nth image_iff) (metis nth_zip)
  have some: "\<exists>n. incoming_action_name s = Inr (Some n)" if "s \<in> set ?refs" "sel s" for s
  proof -
    obtain k where "k < length ?refs" "s = ?refs ! k" using \<open>s \<in> set ?refs\<close> by (metis in_set_conv_nth)
    then have "incoming_action_name s = Inr (names ! k)" using nth by simp
    then show ?thesis using assms(1) \<open>sel s\<close>
      by (auto simp: action_selection_def from_p4_action_def from_built_in_action_def incoming_action_name_def
          check_field_reference_def GetReferenceType_def split: ir_field.splits ir_action_field.splits if_splits)
  qed
  have named: "\<exists>a. fr_source s = IrActionField a \<and> GetNameOfAction a = Inr n" if "incoming_action_name s = Inr (Some n)" for s n
  proof -
    from that obtain t where "(case (t, fr_source s) of (kActionParamToMatchField, IrActionField a) \<Rightarrow>
        bind_or (GetNameOfAction a) (\<lambda>n. Inr (Some n)) | _ \<Rightarrow> Inr None) = Inr (Some n)"
      by (auto simp: incoming_action_name_def)
    then show ?thesis by (cases t; cases "fr_source s") auto
  qed
  obtain n where n: "incoming_action_name r = Inr (Some n)" using some [OF assms(4,5)] by blast
  have "incoming_action_name s = Inr (Some n) \<longleftrightarrow> sel s" if s: "s \<in> set ?refs" for s
  proof -
    have same: "same_action a b \<and> same_action b a" if "fr_source r = IrActionField a" "fr_source s = IrActionField b" for a b
      using assms(2,4) s that unfolding reference_info_ok_def by blast
    show ?thesis
    proof
      assume "incoming_action_name s = Inr (Some n)"
      from named [OF this] named [OF n] obtain a b where ab: "fr_source r = IrActionField a" "GetNameOfAction a = Inr n"
        "fr_source s = IrActionField b" "GetNameOfAction b = Inr n" by blast
      with same_selection [OF assms(1,5) ab(1,3)] same show "sel s" by blast
    next
      assume "sel s"
      from some [OF s this] obtain m where m: "incoming_action_name s = Inr (Some m)" by blast
      from named [OF m] named [OF n] obtain a b where ab: "fr_source r = IrActionField a" "GetNameOfAction a = Inr n"
        "fr_source s = IrActionField b" "GetNameOfAction b = Inr m" by blast
      with same_selection [OF assms(1,5) ab(1,3)] same \<open>sel s\<close> have "m = n" by blast
      with m show "incoming_action_name s = Inr (Some n)" by simp
    qed
  qed
  moreover have "Some n \<in> set names"
    using n nth len assms(4) by (metis in_set_conv_nth sum.inject(2))
  ultimately show ?thesis unfolding refs_of by (intro exI [of _ n]) blast
qed


lemma produced_offered:
  assumes "satisfies unset R d c" "reference_info_ok R" "produced get (filter sel (itr_field_references R)) \<subseteq> ctr_fields c"
    and "\<forall>r \<in> set (itr_field_references R). sel r \<longrightarrow> (\<exists>f. concrete_field get r = Inr f)"
    and "set refs = {r \<in> set (itr_field_references R). sel r}"
  shows "produced get (filter sel (itr_field_references R)) = offered unset d refs"
proof -
  have "concrete_field get r = Inr f \<longleftrightarrow> ConcreteFieldReferenceFromDestinationMatchField unset r d = Inr f"
    if r: "r \<in> set refs" for r f
  proof -
    from r assms(4,5) obtain g where g: "concrete_field get r = Inr g" by auto
    then have "g \<in> ctr_fields c" using assms(3,5) r by (auto simp: produced_def)
    with from_destination [OF assms(1,2) _ concrete_field_asks [OF g]] r assms(5) g show ?thesis by auto
  qed
  with assms(5) show ?thesis by (auto simp: produced_def offered_def)
qed

lemma match_values_offered:
  assumes "satisfies unset R d c" "reference_info_ok R" "{f. Some f \<in> set fs} \<subseteq> ctr_fields c"
    and "map_or (outgoing_match_field unset e) (filter is_match_field_reference (itr_field_references R)) = Inr fs"
  shows "\<exists>q \<subseteq> offered unset d (optional_refs (itr_field_references R)).
    {f. Some f \<in> set fs} =
      offered unset d (exact_refs (itr_field_references R)) \<union> q"
proof -
  let ?refs = "itr_field_references R" and ?m = "\<lambda>r. outgoing_match_field unset e r"
  let ?o = "\<lambda>r. ConcreteFieldReferenceFromDestinationMatchField unset r d"
  have fs: "set fs = {y. \<exists>r \<in> set (filter is_match_field_reference ?refs). ?m r = Inr y}" using map_or_set [OF assms(4)] .
  have from_d: "?o r = Inr f" if "r \<in> set ?refs" "is_match_field_reference r" "?m r = Inr (Some f)" for r f
    using that assms(3) fs by (intro from_destination [OF assms(1,2)]) (auto dest: outgoing_match_field_asks)
  have exact: "\<exists>f. ?m r = Inr (Some f)" if r: "r \<in> set ?refs" "is_match_field_reference r" "\<not> FieldIsOptional (fr_source r)" for r
  proof -
    obtain y where y: "?m r = Inr y" using map_or_defined [OF assms(4), of r] r by auto
    with r(2,3) show ?thesis
      by (auto simp: outgoing_match_field_def is_match_field_reference_def ir_match_field_of_def GetMatchFieldValue_def
          p4_match_field_value_def split: ir_field.splits ir_match_field.splits pi_entity.splits option.splits
          field_match_type.splits packet_replication_engine_entry.splits)
  qed
  let ?q = "{f. \<exists>r \<in> set ?refs. is_match_field_reference r \<and> FieldIsOptional (fr_source r) \<and> ?m r = Inr (Some f)}"
  have "?q \<subseteq> offered unset d (optional_refs ?refs)"
    using from_d by (auto simp: offered_def optional_refs_def)
  moreover have "{f. Some f \<in> set fs} =
      offered unset d (exact_refs ?refs) \<union> ?q"
    unfolding fs offered_def exact_refs_def using from_d exact destination_unique by fastforce
  ultimately show ?thesis by blast
qed

lemma offered_mono: "set refs \<subseteq> set refs' \<Longrightarrow> offered unset e refs \<subseteq> offered unset e refs'"
  by (auto simp: offered_def)

lemma combination_offered: "combination unset e refs names F \<Longrightarrow> F \<subseteq> offered unset e refs"
proof -
  assume "combination unset e refs names F"
  then obtain A q where F: "F = A \<union> (offered unset e (exact_refs refs) \<union> q)" "q \<subseteq> offered unset e (optional_refs refs)"
    "A = {} \<or> (\<exists>n. A = offered unset e (references_of_action (zip refs names) n))" unfolding combination_def by blast
  have "set (references_of_action (zip refs names) n) \<subseteq> set refs" for n
    by (auto simp: references_of_action_def dest: set_zip_leftD)
  then have "A \<subseteq> offered unset e refs" using F(3) offered_mono by blast
  moreover have "offered unset e (exact_refs refs) \<subseteq> offered unset e refs" "offered unset e (optional_refs refs) \<subseteq> offered unset e refs"
    by (auto simp: exact_refs_def optional_refs_def intro!: offered_mono)
  ultimately show ?thesis using F(1,2) by blast
qed

text \<open>
  C38. The two directions agree on what a reference means. Take an outgoing reference of one entity and
  an entity of the table it points to: the reference is among those the second entity can satisfy
  exactly when, for each field of the reference, the destination field of the second entity has the
  value asked for. So testing whether the two sets intersect decides dependency between entities,
  however many optional match fields and actions are involved.
\<close>

theorem outgoing_reference_satisfied_iff:
  assumes "reference_info_ok R"
    and "OutgoingConcreteTableReferences unset R source = Inr outgoing"
    and "PossibleIncomingConcreteTableReferences unset R destination = Inr incoming"
    and "c \<in> outgoing"
  shows "c \<in> incoming \<longleftrightarrow> satisfies unset R destination c"
proof -
  let ?refs = "itr_field_references R"
  obtain src dst names where
    t: "GetNameOfTable (itr_source_table R) = Inr src" "GetNameOfTable (itr_destination_table R) = Inr dst" and
    n: "map_or incoming_action_name ?refs = Inr names" and
    inc: "\<And>c. c \<in> incoming \<longleftrightarrow> ctr_source_table c = src \<and> ctr_destination_table c = dst \<and>
      combination unset destination ?refs names (ctr_fields c)"
    by (rule incoming_iff [OF assms(3)]) blast
  from outgoing_cases [OF assms(2,4)] obtain p fs where
    p: "from_action_of ?refs p" and
    fs: "map_or (outgoing_match_field unset source) (filter is_match_field_reference ?refs) = Inr fs" and
    c: "ctr_source_table c = src" "ctr_destination_table c = dst" "ctr_fields c = p \<union> {f. Some f \<in> set fs}" "ctr_fields c \<noteq> {}"
    using t by (metis concrete_table_reference.select_convs sum.inject(2))
  show ?thesis
  proof
    assume "c \<in> incoming"
    then have "ctr_fields c \<subseteq> offered unset destination ?refs" unfolding inc using combination_offered by blast
    then show "satisfies unset R destination c" by (auto simp: satisfies_def offered_def destination_field_iff asks_def)
  next
    assume sat: "satisfies unset R destination c"
    from p obtain sel get where sel: "action_selection sel" "p = produced get (filter sel ?refs)"
      "\<forall>r \<in> set ?refs. sel r \<longrightarrow> (\<exists>f. concrete_field get r = Inr f)" unfolding from_action_of_def by blast
    have sub: "produced get (filter sel ?refs) \<subseteq> ctr_fields c" "{f. Some f \<in> set fs} \<subseteq> ctr_fields c"
      using c(3) sel(2) by auto
    have act: "p = {} \<or> (\<exists>n. Some n \<in> set names \<and> p = offered unset destination (references_of_action (zip ?refs names) n))"
    proof (cases "\<exists>r \<in> set ?refs. sel r")
      case True
      then obtain n where "Some n \<in> set names" "set (references_of_action (zip ?refs names) n) = {r \<in> set ?refs. sel r}"
        using selection_named [OF sel(1) assms(1) n] by blast
      with produced_offered [OF sat assms(1) sub(1) sel(3)] sel(2) show ?thesis by blast
    qed (simp add: sel(2) produced_def)
    from match_values_offered [OF sat assms(1) sub(2) fs] obtain q where
      q: "q \<subseteq> offered unset destination (optional_refs ?refs)"
        "{f. Some f \<in> set fs} = offered unset destination (exact_refs ?refs) \<union> q" by blast
    have "combination unset destination ?refs names (ctr_fields c)"
      unfolding combination_def using act q c(4) by (intro conjI exI [of _ p] exI [of _ q]) (simp_all add: c(3))
    then show "c \<in> incoming" unfolding inc using c(1,2) by simp
  qed
qed

text \<open>
  An example: neighbor entries refer to router interfaces by an exact match field, by an optional
  one and by a parameter of their action.
\<close>

definition example_rif_table :: ir_table where "example_rif_table = P4Table ''router_interface_table'' 1"
definition example_neighbor_table :: ir_table where "example_neighbor_table = P4Table ''neighbor_table'' 2"

definition example_reference :: ir_table_reference where
  "example_reference =
     \<lparr>itr_source_table = example_neighbor_table, itr_destination_table = example_rif_table,
      itr_field_references =
        [\<lparr>fr_source = IrMatchField (P4MatchField ''rif'' 1 False), fr_destination = IrMatchField (P4MatchField ''rif_id'' 1 False)\<rparr>,
         \<lparr>fr_source = IrMatchField (P4MatchField ''vlan'' 2 True), fr_destination = IrMatchField (P4MatchField ''vlan_id'' 2 False)\<rparr>,
         \<lparr>fr_source = IrActionField (P4ActionField ''set_dst'' 7 ''port'' 1), fr_destination = IrMatchField (P4MatchField ''port'' 3 False)\<rparr>]\<rparr>"

definition example_rif :: pi_entity where
  "example_rif = TableEntry (default_table_entry\<lparr>pte_table_id := 1,
     pte_match := [\<lparr>fm_field_id = 1, fm_type = FmExact ''r1''\<rparr>, \<lparr>fm_field_id = 2, fm_type = FmExact ''v1''\<rparr>,
       \<lparr>fm_field_id = 3, fm_type = FmExact ''p1''\<rparr>]\<rparr>)"

definition example_neighbor :: "string \<Rightarrow> pi_entity" where
  "example_neighbor port = TableEntry (default_table_entry\<lparr>pte_table_id := 2,
     pte_match := [\<lparr>fm_field_id = 1, fm_type = FmExact ''r1''\<rparr>],
     pte_action := PiAction \<lparr>pi_action_id = 7, pi_params = [(1, port)]\<rparr>\<rparr>)"

definition example_concrete :: "string \<Rightarrow> concrete_table_reference" where
  "example_concrete port = \<lparr>ctr_source_table = ''neighbor_table'', ctr_destination_table = ''router_interface_table'',
     ctr_fields = {\<lparr>cfr_source_field = ''rif'', cfr_destination_field = ''rif_id'', cfr_value = ''r1''\<rparr>,
       \<lparr>cfr_source_field = ''set_dst.port'', cfr_destination_field = ''port'', cfr_value = port\<rparr>}\<rparr>"

lemma example_reference_ok: "reference_info_ok example_reference"
  by (simp add: reference_info_ok_def example_reference_def field_names_def GetNameOfField_def same_action_def)

lemma example_outgoing: "OutgoingConcreteTableReferences INTERNAL example_reference (example_neighbor port) = Inr {example_concrete port}"
  by (simp add: OutgoingConcreteTableReferences_def example_reference_def example_neighbor_table_def example_rif_table_def
      example_neighbor_def example_concrete_def default_table_entry_def ValidateEntityBelongsToTable_def
      check_field_reference_def GetReferenceType_def outgoing_action_references_def outgoing_match_references_def
      from_p4_action_def GetPartialReferenceFromAction_def is_match_field_reference_def outgoing_match_field_def
      outgoing_fields_def concrete_field_def GetNameOfField_def p4_action_field_value_def p4_action_parameter_id_def
      GetMatchFieldValue_def ir_match_field_of_def p4_match_field_value_def GetNameOfTable_def Let_def)

lemma example_incoming_defined: "\<exists>I. PossibleIncomingConcreteTableReferences INTERNAL example_reference example_rif = Inr I"
proof -
  have "\<not> isl (PossibleIncomingConcreteTableReferences INTERNAL example_reference example_rif)" by code_simp
  then show ?thesis by (cases "PossibleIncomingConcreteTableReferences INTERNAL example_reference example_rif") auto
qed

theorem outgoing_reference_satisfied_iff_witness:
  "\<exists>incoming. PossibleIncomingConcreteTableReferences INTERNAL example_reference example_rif = Inr incoming \<and>
     example_concrete ''p1'' \<in> incoming \<and> example_concrete ''p2'' \<notin> incoming"
proof -
  obtain I where I: "PossibleIncomingConcreteTableReferences INTERNAL example_reference example_rif = Inr I"
    using example_incoming_defined by blast
  have "example_concrete port \<in> I \<longleftrightarrow> satisfies INTERNAL example_reference example_rif (example_concrete port)" for port
    by (rule outgoing_reference_satisfied_iff [OF example_reference_ok example_outgoing I]) simp
  moreover have "satisfies INTERNAL example_reference example_rif (example_concrete ''p1'')"
    "\<not> satisfies INTERNAL example_reference example_rif (example_concrete ''p2'')"
    by (simp_all add: satisfies_def example_concrete_def example_reference_def example_rif_def field_names_def GetNameOfField_def
        GetMatchFieldValue_def ir_match_field_of_def p4_match_field_value_def default_table_entry_def)
  ultimately show ?thesis using I by blast
qed

text \<open>
  A set of entities is closed under references when every outgoing reference of each of them is one
  that some of them satisfies.
\<close>

lemma UnsatisfiedOutgoingReferences_iff:
  assumes "UnsatisfiedOutgoingReferences unset info es = Inr us"
  shows "u \<in> set us \<longleftrightarrow>
    (\<exists>e \<in> set es. \<exists>out. outgoing_references unset info e = Inr out \<and> eur_entity u = e \<and>
       eur_unsatisfied_references u =
         {c \<in> out. \<forall>d \<in> set es. \<forall>I. incoming_references unset info d = Inr I \<longrightarrow> c \<notin> I} \<and>
       eur_unsatisfied_references u \<noteq> {})"
proof -
  from assms obtain incoming outgoing where
    i: "map_or (incoming_references unset info) es = Inr incoming" and
    o: "map_or (outgoing_references unset info) es = Inr outgoing" and
    us: "us = filter (\<lambda>u. eur_unsatisfied_references u \<noteq> {})
      (map (\<lambda>(e, out). \<lparr>eur_entity = e, eur_unsatisfied_references = out - \<Union> (set incoming)\<rparr>) (zip es outgoing))"
    by (auto simp: UnsatisfiedOutgoingReferences_def Let_def)
  have sat: "out - \<Union> (set incoming) = {c \<in> out. \<forall>d \<in> set es. \<forall>I. incoming_references unset info d = Inr I \<longrightarrow> c \<notin> I}" for out
    using map_or_set [OF i] by auto
  have zip: "(e, out) \<in> set (zip es outgoing) \<longleftrightarrow> e \<in> set es \<and> outgoing_references unset info e = Inr out" for e out
    using o unfolding map_or_Inr_iff by (auto simp: list_all2_conv_all_nth in_set_zip in_set_conv_nth)
  define X where "X = \<Union> (set incoming)"
  have "u \<in> set us \<longleftrightarrow>
    (\<exists>e out. (e, out) \<in> set (zip es outgoing) \<and> u = \<lparr>eur_entity = e, eur_unsatisfied_references = out - X\<rparr> \<and> out - X \<noteq> {})"
    unfolding us X_def [symmetric] by (force simp del: Diff_eq_empty_iff)
  also have "\<dots> \<longleftrightarrow> (\<exists>e \<in> set es. \<exists>out. outgoing_references unset info e = Inr out \<and> eur_entity u = e \<and>
       eur_unsatisfied_references u = out - X \<and> eur_unsatisfied_references u \<noteq> {})"
    unfolding zip by (cases u) (auto simp del: Diff_eq_empty_iff)
  finally show ?thesis unfolding X_def sat .
qed

lemma outgoing_finite: "OutgoingConcreteTableReferences unset R e = Inr cs \<Longrightarrow> finite cs"
  by (auto simp: OutgoingConcreteTableReferences_def Let_def)

lemma incoming_finite: "PossibleIncomingConcreteTableReferences unset R e = Inr cs \<Longrightarrow> finite cs"
  by (auto simp: PossibleIncomingConcreteTableReferences_def Let_def)

end
