(* ===== verification/Sequencing.thy ===== *)
theory Sequencing
  imports References P4rt_Write
begin

text \<open>
  Sequencing of updates (\<open>p4_infra/p4_pdpi/sequencing.cc\<close>): the dependency graph between the updates of
  a batch, its division into write requests that can be sent one after the other, sorting by
  dependency rank, and the entities that no root entity refers to; with the older form of
  references between tables (\<open>p4_infra/p4_pdpi/sequencing_util.cc\<close>).
\<close>

section \<open>The dependency graph\<close>

type_synonym referenced_value = "string \<times> string \<times> string"
type_synonym graph = "(nat \<times> nat) list"

fun exact_or_optional :: "nat \<Rightarrow> field_match list \<Rightarrow> string option" where
  "exact_or_optional match_field_id [] = None"
| "exact_or_optional match_field_id (m # ms) =
     (if fm_field_id m = match_field_id
      then (case fm_type m of
              FmExact v \<Rightarrow> Some v
            | FmOptional v \<Rightarrow> Some v
            | _ \<Rightarrow> exact_or_optional match_field_id ms)
      else exact_or_optional match_field_id ms)"

definition update_match_value :: "ir_table_definition \<Rightarrow> pi_update \<Rightarrow> string \<Rightarrow> string option status_or" where
  "update_match_value ir_table_definition update match_field =
     (case map_of (itd_match_fields_by_name ir_table_definition) match_field of
        None \<Rightarrow> Inl NOT_FOUND
      | Some d \<Rightarrow> Inr (exact_or_optional (mfd_id d) (pte_match (pi_table_entry_of (pu_entity update)))))"

text \<open>The referenced values that an update provides, each with the update.\<close>

definition update_indices ::
  "ir_p4info \<Rightarrow> nat \<times> pi_update \<Rightarrow> (referenced_value \<times> nat) list status_or" where
  "update_indices info = (\<lambda>(update_index, update).
     case tables_by_id info (pte_table_id (pi_table_entry_of (pu_entity update))) of
       None \<Rightarrow> Inl NOT_FOUND
     | Some table \<Rightarrow>
         bind_or (map_or (\<lambda>r. bind_or (update_match_value table update (imr_match_field r)) (\<lambda>v.
             Inr (case v of Some x \<Rightarrow> [((imr_table r, imr_match_field r, x), update_index)] | None \<Rightarrow> [])))
           (filter (\<lambda>r. itd_alias table = imr_table r) (references info)))
         (\<lambda>xss. Inr (concat xss)))"

text \<open>An edge from u to v: v depends on u.\<close>

definition RecordDependenciesForReferencedValue ::
  "pi_update list \<Rightarrow> nat \<Rightarrow> (referenced_value \<times> nat) list \<Rightarrow> referenced_value \<Rightarrow> graph" where
  "RecordDependenciesForReferencedValue all_vertices current_vertex indices referenced_value =
     concat (map (\<lambda>(rv, referred_update_index).
       if rv \<noteq> referenced_value then []
       else let current = pu_type (all_vertices ! current_vertex); referred = pu_type (all_vertices ! referred_update_index)
            in if (current = INSERT \<or> current = MODIFY) \<and> referred = INSERT then [(referred_update_index, current_vertex)]
               else if current = DELETE \<and> referred = DELETE then [(current_vertex, referred_update_index)]
               else []) indices)"

text \<open>
  The references of an update, in the order of the code; \<open>record\<close> is what is done with each
  referenced value, above all recording the dependencies.
\<close>

definition record_references ::
  "(referenced_value \<Rightarrow> 'a list) \<Rightarrow> ir_match_field_reference list \<Rightarrow> string \<Rightarrow> 'a list" where
  "record_references record refs v = concat (map (\<lambda>r. record (imr_table r, imr_match_field r, v)) refs)"

definition RecordDependenciesForActionInvocation ::
  "(referenced_value \<Rightarrow> 'a list) \<Rightarrow> ir_action_definition \<Rightarrow> (nat \<times> string) list \<Rightarrow> 'a list status_or" where
  "RecordDependenciesForActionInvocation record ir_action params =
     bind_or (map_or (\<lambda>(param_id, v).
         case map_of (iad_params_by_id ir_action) param_id of
           None \<Rightarrow> Inl NOT_FOUND
         | Some d \<Rightarrow> Inr (record_references record (ipd_references d) v)) params)
       (\<lambda>gs. Inr (concat gs))"

text \<open>Accessors of the match \<open>oneof\<close> give the empty value when another alternative is set.\<close>

definition exact_value :: "field_match_type \<Rightarrow> string" where
  "exact_value t = (case t of FmExact v \<Rightarrow> v | _ \<Rightarrow> [])"

definition optional_value :: "field_match_type \<Rightarrow> string" where
  "optional_value t = (case t of FmOptional v \<Rightarrow> v | _ \<Rightarrow> [])"

definition match_field_edges ::
  "(referenced_value \<Rightarrow> 'a list) \<Rightarrow> ir_table_definition \<Rightarrow> field_match \<Rightarrow> 'a list status_or" where
  "match_field_edges record ir_table m =
     (case map_of (itd_match_fields_by_id ir_table) (fm_field_id m) of
        None \<Rightarrow> Inl NOT_FOUND
      | Some d \<Rightarrow>
          if mfd_references d = [] then Inr []
          else (case mfd_match_type d of
                  EXACT \<Rightarrow> Inr (record_references record (mfd_references d) (exact_value (fm_type m)))
                | OPTIONAL \<Rightarrow> Inr (record_references record (mfd_references d) (optional_value (fm_type m)))
                | _ \<Rightarrow> Inl INVALID_ARGUMENT))"

definition action_edges ::
  "(referenced_value \<Rightarrow> 'a list) \<Rightarrow> ir_p4info \<Rightarrow> pi_action \<Rightarrow> 'a list status_or" where
  "action_edges record info a =
     (case actions_by_id info (pi_action_id a) of
        None \<Rightarrow> Inl NOT_FOUND
      | Some ir_action \<Rightarrow> RecordDependenciesForActionInvocation record ir_action (pi_params a))"

definition update_edges ::
  "(nat \<Rightarrow> referenced_value \<Rightarrow> 'a list) \<Rightarrow> ir_p4info \<Rightarrow> nat \<times> pi_update \<Rightarrow> 'a list status_or" where
  "update_edges record info = (\<lambda>(update_index, update).
     let table_entry = pi_table_entry_of (pu_entity update)
     in case tables_by_id info (pte_table_id table_entry) of
          None \<Rightarrow> Inl NOT_FOUND
        | Some ir_table \<Rightarrow>
            bind_or (map_or (match_field_edges (record update_index) ir_table) (pte_match table_entry)) (\<lambda>match_graphs.
            bind_or (case pte_action table_entry of
                PiAction a \<Rightarrow> action_edges (record update_index) info a
              | PiActionProfileActionSet as \<Rightarrow>
                  bind_or (map_or (\<lambda>a. action_edges (record update_index) info (apa_action a)) as) (\<lambda>gs. Inr (concat gs))
              | _ \<Rightarrow> Inl UNIMPLEMENTED) (\<lambda>action_graph.
              Inr (concat match_graphs @ action_graph))))"

text \<open>The graph has no parallel edges.\<close>

definition BuildDependencyGraph :: "ir_p4info \<Rightarrow> pi_update list \<Rightarrow> graph status_or" where
  "BuildDependencyGraph info updates =
     bind_or (map_or (update_indices info) (List.enumerate 0 updates)) (\<lambda>indices.
     bind_or (map_or (update_edges (\<lambda>v. RecordDependenciesForReferencedValue updates v (concat indices)) info)
       (List.enumerate 0 updates)) (\<lambda>edges.
       Inr (remdups (concat edges))))"

section \<open>Batches\<close>

definition in_degree :: "nat \<Rightarrow> graph \<Rightarrow> nat" where
  "in_degree v g = length (filter (\<lambda>(_, t). t = v) g)"

text \<open>Removes the edges out of the old roots; the targets that lose their last edge are the new roots.\<close>

fun remove_roots :: "nat list \<Rightarrow> graph \<Rightarrow> nat list \<times> graph" where
  "remove_roots [] g = ([], g)"
| "remove_roots (root # roots) g =
     (let targets = map snd (filter (\<lambda>(s, t). s = root \<and> in_degree t g = 1) g);
          (new_roots, g') = remove_roots roots (filter (\<lambda>(s, _). s \<noteq> root) g)
      in (targets @ new_roots, g'))"

lemma remove_roots_edges: "snd (remove_roots roots g) = filter (\<lambda>(s, _). s \<notin> set roots) g"
  by (induction roots arbitrary: g) (auto simp: split_def intro!: filter_cong)

lemma remove_roots_targets: "v \<in> set (fst (remove_roots roots g)) \<Longrightarrow> \<exists>s \<in> set roots. (s, v) \<in> set g"
  by (induction roots arbitrary: g) (force simp: Let_def split_def)+

function sequence_loop :: "nat list \<Rightarrow> graph \<Rightarrow> nat list list \<times> graph" where
  "sequence_loop roots g =
     (if roots = [] then ([], g)
      else let batch = sort roots; (new_roots, g') = remove_roots batch g; (batches, g'') = sequence_loop new_roots g'
      in (batch # batches, g''))"
  by auto

termination
proof (relation "measure (\<lambda>(roots, g). 2 * length g + (if roots = [] then 0 else 1))", goal_cases)
  case (2 roots g batch x new_roots g')
  have len: "length g' \<le> length g" using remove_roots_edges [of batch g] 2 by (metis length_filter_le snd_conv)
  show ?case
  proof (cases "new_roots = []")
    case False
    then obtain v where "v \<in> set new_roots" by fastforce
    then have "v \<in> set (fst (remove_roots batch g))" using 2 by (metis fst_conv)
    from remove_roots_targets [OF this] obtain s where s: "s \<in> set batch" "(s, v) \<in> set g" by blast
    have "g' = filter (\<lambda>(s, _). s \<notin> set batch) g" using remove_roots_edges [of batch g] 2 by (metis snd_conv)
    then have "length g' < length g" using s by (auto intro!: length_filter_less)
    then show ?thesis using 2(1) by simp
  qed (use 2(1) len in simp)
qed auto

declare sequence_loop.simps [simp del]

definition SequencePiUpdatesInPlace :: "ir_p4info \<Rightarrow> pi_update list \<Rightarrow> nat list list status_or" where
  "SequencePiUpdatesInPlace info updates =
     bind_or (BuildDependencyGraph info updates) (\<lambda>g.
       let (batches, g') = sequence_loop (filter (\<lambda>v. in_degree v g = 0) [0..<length updates]) g
       in if g' \<noteq> [] then Inl INVALID_ARGUMENT else Inr batches)"

section \<open>Correctness of the batches\<close>

lemma in_degree_0_iff: "in_degree v g = 0 \<longleftrightarrow> (\<forall>s. (s, v) \<notin> set g)"
  by (auto simp: in_degree_def filter_empty_conv)

lemma in_degree_1_iff:
  assumes "distinct g" "(s, v) \<in> set g"
  shows "in_degree v g = 1 \<longleftrightarrow> (\<forall>s'. (s', v) \<in> set g \<longrightarrow> s' = s)"
proof -
  have "in_degree v g = card {p \<in> set g. snd p = v}"
    using assms(1) by (simp add: in_degree_def distinct_card [symmetric] split_def)
  moreover have "card {p \<in> set g. snd p = v} = 1 \<longleftrightarrow> {p \<in> set g. snd p = v} = {(s, v)}"
  proof
    assume "card {p \<in> set g. snd p = v} = 1"
    then obtain x where x: "{p \<in> set g. snd p = v} = {x}" by (rule card_1_singletonE)
    have "(s, v) \<in> {p \<in> set g. snd p = v}" using assms(2) by simp
    then show "{p \<in> set g. snd p = v} = {(s, v)}" unfolding x by simp
  qed simp
  moreover have "\<dots> \<longleftrightarrow> (\<forall>s'. (s', v) \<in> set g \<longrightarrow> s' = s)"
    using assms(2) by (auto simp: set_eq_iff)
  ultimately show ?thesis by (simp only:)
qed

text \<open>The new roots are the vertices all of whose edges, at least one, come from the old roots.\<close>

lemma remove_roots_new:
  assumes "distinct g"
  shows "distinct (fst (remove_roots roots g)) \<and>
    set (fst (remove_roots roots g)) =
      {v. (\<exists>s. (s, v) \<in> set g) \<and> (\<forall>s. (s, v) \<in> set g \<longrightarrow> s \<in> set roots)}"
  using assms
proof (induction roots arbitrary: g)
  case Nil
  then show ?case by auto
next
  case (Cons root roots)
  let ?g = "filter (\<lambda>(s, _). s \<noteq> root) g"
  let ?t = "map snd (filter (\<lambda>(s, t). s = root \<and> in_degree t g = 1) g)"
  have t: "v \<in> set ?t \<longleftrightarrow> (root, v) \<in> set g \<and> (\<forall>s. (s, v) \<in> set g \<longrightarrow> s = root)" for v
    using in_degree_1_iff [OF Cons.prems, of root v] by (auto simp: image_iff)
  have "distinct ?t"
    using Cons.prems by (auto simp: distinct_map inj_on_def)
  moreover have ih: "distinct (fst (remove_roots roots ?g))"
    "set (fst (remove_roots roots ?g)) = {v. (\<exists>s. (s, v) \<in> set ?g) \<and> (\<forall>s. (s, v) \<in> set ?g \<longrightarrow> s \<in> set roots)}"
    using Cons.IH [of ?g] Cons.prems by auto
  moreover have "set ?t \<inter> set (fst (remove_roots roots ?g)) = {}"
    unfolding ih(2) disjoint_iff t by (simp add: split_def)
  moreover have "set ?t \<union> set (fst (remove_roots roots ?g)) =
      {v. (\<exists>s. (s, v) \<in> set g) \<and> (\<forall>s. (s, v) \<in> set g \<longrightarrow> s \<in> set (root # roots))}"
    unfolding ih(2) set_eq_iff Un_iff t by (simp add: split_def) blast
  ultimately show ?case by (simp add: Let_def split_def)
qed

definition seq_inv :: "nat \<Rightarrow> graph \<Rightarrow> nat set \<Rightarrow> nat list \<Rightarrow> graph \<Rightarrow> bool" where
  "seq_inv n E finished roots g \<longleftrightarrow>
     g = filter (\<lambda>(s, _). s \<notin> finished) E \<and> distinct roots \<and>
     (\<forall>s t. (s, t) \<in> set E \<longrightarrow> t \<in> finished \<longrightarrow> s \<in> finished) \<and>
     set roots = {v. v < n \<and> v \<notin> finished \<and> (\<forall>s. (s, v) \<notin> set g)}"

lemma seq_inv_step:
  assumes "distinct E" "\<And>s t. (s, t) \<in> set E \<Longrightarrow> s < n \<and> t < n" "seq_inv n E finished roots g" "set batch = set roots"
    and "remove_roots batch g = (new_roots, g')"
  shows "seq_inv n E (finished \<union> set roots) new_roots g'"
proof -
  have g: "set g = {(s, t). (s, t) \<in> set E \<and> s \<notin> finished}" "distinct g"
    and roots: "set roots = {v. v < n \<and> v \<notin> finished \<and> (\<forall>s. (s, v) \<notin> set g)}"
    and closed: "\<And>s t. (s, t) \<in> set E \<Longrightarrow> t \<in> finished \<Longrightarrow> s \<in> finished"
    and gE: "g = filter (\<lambda>(s, _). s \<notin> finished) E"
    using assms(1,3) by (auto simp: seq_inv_def)
  have g': "g' = filter (\<lambda>(s, _). s \<notin> finished \<union> set roots) E"
    using remove_roots_edges [of batch g] assms(4,5) by (simp add: gE split_def)
  have new: "distinct new_roots" "set new_roots = {v. (\<exists>s. (s, v) \<in> set g) \<and> (\<forall>s. (s, v) \<in> set g \<longrightarrow> s \<in> set roots)}"
    using remove_roots_new [OF g(2), of batch] assms(4,5) by auto
  have "v \<in> set new_roots \<longleftrightarrow> v < n \<and> v \<notin> finished \<union> set roots \<and> (\<forall>s. (s, v) \<notin> set g')" for v
  proof
    assume "v \<in> set new_roots"
    then obtain s where s: "(s, v) \<in> set g" "\<And>s. (s, v) \<in> set g \<Longrightarrow> s \<in> set roots" by (auto simp: new)
    have "(s, v) \<in> set E" "s \<notin> finished" using s(1) g(1) by auto
    then have "v < n" "v \<notin> finished" using closed assms(2) by blast+
    moreover have "v \<notin> set roots" using roots s(1) by blast
    moreover have "(s', v) \<notin> set g'" for s' using s(2) [of s'] by (auto simp: g' g(1))
    ultimately show "v < n \<and> v \<notin> finished \<union> set roots \<and> (\<forall>s. (s, v) \<notin> set g')" by blast
  next
    assume "v < n \<and> v \<notin> finished \<union> set roots \<and> (\<forall>s. (s, v) \<notin> set g')"
    then show "v \<in> set new_roots" unfolding new g' using roots g by (auto simp: split_def)
  qed
  moreover have "s \<in> finished \<union> set roots" if "(s, t) \<in> set E" "t \<in> finished \<union> set roots" for s t
    using that closed roots g(1) by auto
  ultimately show ?thesis using g' new(1) by (auto simp: seq_inv_def)
qed


definition batch_order :: "nat list list \<Rightarrow> nat \<Rightarrow> nat \<Rightarrow> bool" where
  "batch_order batches u v \<longleftrightarrow>
     (\<exists>i j. i < j \<and> j < length batches \<and> u \<in> set (batches ! i) \<and> v \<in> set (batches ! j))"

lemma sequence_loop_spec:
  assumes "distinct E" "\<And>s t. (s, t) \<in> set E \<Longrightarrow> s < n \<and> t < n"
  shows "seq_inv n E finished roots g \<Longrightarrow> sequence_loop roots g = (batches, g') \<Longrightarrow>
    seq_inv n E (finished \<union> set (concat batches)) [] g' \<and>
    distinct (concat batches) \<and> set (concat batches) \<inter> finished = {} \<and> set (concat batches) \<subseteq> {..<n} \<and>
    list_all (\<lambda>b. sorted b \<and> b \<noteq> []) batches \<and>
    (\<forall>j < length batches. \<forall>v \<in> set (batches ! j). \<forall>s. (s, v) \<in> set E \<longrightarrow> s \<in> finished \<or> (\<exists>i < j. s \<in> set (batches ! i)))"
proof (induction roots g arbitrary: finished batches g' rule: sequence_loop.induct)
  case (1 roots g)
  show ?case
  proof (cases "roots = []")
    case True
    then show ?thesis using "1.prems" by (simp add: sequence_loop.simps [of "[]"])
  next
    case False
    obtain new g1 where r: "remove_roots (sort roots) g = (new, g1)" by fastforce
    obtain bs g2 where s: "sequence_loop new g1 = (bs, g2)" by fastforce
    have res: "batches = sort roots # bs" "g' = g2"
      using "1.prems"(2) False by (simp_all add: sequence_loop.simps [of roots] r s)
    have inv: "seq_inv n E (finished \<union> set roots) new g1"
      using seq_inv_step [OF assms "1.prems"(1) _ r] by simp
    have roots: "set roots = {v. v < n \<and> v \<notin> finished \<and> (\<forall>s. (s, v) \<notin> set g)}" "distinct roots"
      "set g = {(s, t). (s, t) \<in> set E \<and> s \<notin> finished}"
      using "1.prems"(1) by (auto simp: seq_inv_def)
    note ih = "1.IH" [OF False refl refl r [symmetric] inv s]
    have "s \<in> finished \<or> (\<exists>i < j. s \<in> set (batches ! i))"
      if "j < length batches" "v \<in> set (batches ! j)" "(s, v) \<in> set E" for j v s
    proof (cases j)
      case 0
      then have "v \<in> set roots" using that(2) res by simp
      then show ?thesis using roots(1,3) that(3) by auto
    next
      case (Suc k)
      then have "k < length bs" "v \<in> set (bs ! k)" using that(1,2) res by auto
      with ih that(3) have "s \<in> finished \<union> set roots \<or> (\<exists>i < k. s \<in> set (bs ! i))" by blast
      then show ?thesis using Suc res by (auto intro: exI [of _ 0] exI [of _ "Suc i" for i])
    qed
    moreover have "finished \<union> set roots \<union> set (concat bs) = finished \<union> set (concat batches)" using res by auto
    moreover have "sort roots \<noteq> []" using False by (metis set_empty set_sort)
    ultimately show ?thesis using ih roots res by (auto simp: Un_assoc)
  qed
qed


section \<open>Dependencies between updates\<close>

text \<open>Update \<open>i\<close> refers to update \<open>j\<close>: one of its references has a value that \<open>j\<close> provides.\<close>

definition referenced_values :: "ir_p4info \<Rightarrow> pi_update list \<Rightarrow> nat \<Rightarrow> referenced_value set" where
  "referenced_values info updates i =
     (case update_edges (\<lambda>_ rv. [rv]) info (i, updates ! i) of Inr vs \<Rightarrow> set vs | Inl _ \<Rightarrow> {})"

definition provided_values :: "ir_p4info \<Rightarrow> pi_update list \<Rightarrow> nat \<Rightarrow> referenced_value set" where
  "provided_values info updates j =
     (case update_indices info (j, updates ! j) of Inr ws \<Rightarrow> fst ` set ws | Inl _ \<Rightarrow> {})"

definition refers_to :: "ir_p4info \<Rightarrow> pi_update list \<Rightarrow> nat \<Rightarrow> nat \<Rightarrow> bool" where
  "refers_to info updates i j \<longleftrightarrow>
     i < length updates \<and> j < length updates \<and> referenced_values info updates i \<inter> provided_values info updates j \<noteq> {}"

text \<open>Update \<open>u\<close> has to be sent before \<open>v\<close>.\<close>

definition must_precede :: "ir_p4info \<Rightarrow> pi_update list \<Rightarrow> nat \<Rightarrow> nat \<Rightarrow> bool" where
  "must_precede info updates u v \<longleftrightarrow>
     refers_to info updates v u \<and> pu_type (updates ! v) \<in> {INSERT, MODIFY} \<and> pu_type (updates ! u) = INSERT \<or>
     refers_to info updates u v \<and> pu_type (updates ! u) = DELETE \<and> pu_type (updates ! v) = DELETE"

definition map_result :: "('a \<Rightarrow> 'b) \<Rightarrow> 'a status_or \<Rightarrow> 'b status_or" where
  "map_result f m = bind_or m (\<lambda>x. Inr (f x))"

lemma map_result_simps [simp]: "map_result f (Inr x) = Inr (f x)" "map_result f (Inl e) = Inl e"
  by (simp_all add: map_result_def)

abbreviation expand :: "(referenced_value \<Rightarrow> 'a list) \<Rightarrow> referenced_value list \<Rightarrow> 'a list" where
  "expand rec rvs \<equiv> concat (map rec rvs)"

lemma record_references_expand: "record_references rec refs v = expand rec (record_references (\<lambda>rv. [rv]) refs v)"
  by (induction refs) (simp_all add: record_references_def)

lemma map_or_map_result:
  "(\<And>x. x \<in> set xs \<Longrightarrow> f x = map_result h (g x)) \<Longrightarrow> map_or f xs = map_result (map h) (map_or g xs)"
proof (induction xs)
  case (Cons x xs)
  then show ?case by (cases "g x"; cases "map_or g xs") simp_all
qed simp

lemma expand_concat: "concat (map (expand rec) gs) = expand rec (concat gs)"
  by (induction gs) simp_all

lemma match_field_edges_expand:
  "match_field_edges rec t m = map_result (expand rec) (match_field_edges (\<lambda>rv. [rv]) t m)"
  using record_references_expand [of rec]
  by (simp add: match_field_edges_def split: option.split match_type.split)

lemma invocation_expand:
  "RecordDependenciesForActionInvocation rec a ps =
     map_result (expand rec) (RecordDependenciesForActionInvocation (\<lambda>rv. [rv]) a ps)"
proof -
  let ?f = "\<lambda>rc (param_id, v). case map_of (iad_params_by_id a) param_id of None \<Rightarrow> Inl NOT_FOUND
      | Some d \<Rightarrow> Inr (record_references rc (ipd_references d) v)"
  have "map_or (?f rec) ps = map_result (map (expand rec)) (map_or (?f (\<lambda>rv. [rv])) ps)"
    using record_references_expand [of rec] by (intro map_or_map_result) (auto split: option.split)
  then show ?thesis
    unfolding RecordDependenciesForActionInvocation_def
    by (cases "map_or (?f (\<lambda>rv. [rv])) ps") (simp_all add: expand_concat)
qed

lemma action_edges_expand: "action_edges rec info a = map_result (expand rec) (action_edges (\<lambda>rv. [rv]) info a)"
  by (auto simp: action_edges_def invocation_expand [of rec] split: option.split)

lemma action_set_expand:
  "bind_or (map_or (\<lambda>a. action_edges rec info (apa_action a)) as) (\<lambda>gs. Inr (concat gs)) =
   map_result (expand rec) (bind_or (map_or (\<lambda>a. action_edges (\<lambda>rv. [rv]) info (apa_action a)) as) (\<lambda>gs. Inr (concat gs)))"
proof -
  have "map_or (\<lambda>a. action_edges rec info (apa_action a)) as =
      map_result (map (expand rec)) (map_or (\<lambda>a. action_edges (\<lambda>rv. [rv]) info (apa_action a)) as)"
    by (rule map_or_map_result) (rule action_edges_expand)
  then show ?thesis
    by (cases "map_or (\<lambda>a. action_edges (\<lambda>rv. [rv]) info (apa_action a)) as") (simp_all add: expand_concat)
qed

lemma update_edges_expand:
  "update_edges rec info (i, u) = map_result (expand (rec i)) (update_edges (\<lambda>_ rv. [rv]) info (i, u))"
proof (cases "tables_by_id info (pte_table_id (pi_table_entry_of (pu_entity u)))")
  case (Some t)
  let ?e = "pi_table_entry_of (pu_entity u)"
  let ?as = "\<lambda>r. case pte_action ?e of
      PiAction a \<Rightarrow> action_edges r info a
    | PiActionProfileActionSet as \<Rightarrow> bind_or (map_or (\<lambda>a. action_edges r info (apa_action a)) as) (\<lambda>gs. Inr (concat gs))
    | _ \<Rightarrow> Inl UNIMPLEMENTED"
  have "map_or (match_field_edges (rec i) t) (pte_match ?e) =
      map_result (map (expand (rec i))) (map_or (match_field_edges (\<lambda>rv. [rv]) t) (pte_match ?e))"
    by (rule map_or_map_result) (rule match_field_edges_expand)
  moreover have "?as (rec i) = map_result (expand (rec i)) (?as (\<lambda>rv. [rv]))"
    using action_edges_expand [of "rec i" info] action_set_expand [of "rec i" info]
    by (cases "pte_action ?e") simp_all
  ultimately show ?thesis
    by (simp add: update_edges_def Some Let_def)
      (cases "map_or (match_field_edges (\<lambda>rv. [rv]) t) (pte_match ?e)"; cases "?as (\<lambda>rv. [rv])"; simp add: expand_concat)
qed (simp add: update_edges_def)

lemma update_indices_index:
  assumes "update_indices info (j, u) = Inr ws" "(rv, k) \<in> set ws"
  shows "k = j"
proof -
  from assms(1) obtain t where t: "tables_by_id info (pte_table_id (pi_table_entry_of (pu_entity u))) = Some t"
    by (cases "tables_by_id info (pte_table_id (pi_table_entry_of (pu_entity u)))") (simp_all add: update_indices_def)
  let ?f = "\<lambda>r. bind_or (update_match_value t u (imr_match_field r)) (\<lambda>v.
        Inr (case v of Some x \<Rightarrow> [((imr_table r, imr_match_field r, x), j)] | None \<Rightarrow> []))"
  let ?l = "filter (\<lambda>r. itd_alias t = imr_table r) (references info)"
  from assms(1) have "bind_or (map_or ?f ?l) (\<lambda>xss. Inr (concat xss)) = Inr ws"
    by (simp only: update_indices_def prod.case t option.case)
  then obtain xss where x: "map_or ?f ?l = Inr xss" "ws = concat xss" by (cases "map_or ?f ?l") simp_all
  with assms(2) obtain xs where xs: "xs \<in> set xss" "(rv, k) \<in> set xs" by auto
  from map_or_mem [OF x(1) xs(1)] xs(2) show ?thesis by (auto split: option.splits)
qed

lemma record_dependencies_iff:
  "(u, v) \<in> set (RecordDependenciesForReferencedValue updates i indices rv) \<longleftrightarrow>
     (\<exists>j. (rv, j) \<in> set indices \<and>
        (pu_type (updates ! i) \<in> {INSERT, MODIFY} \<and> pu_type (updates ! j) = INSERT \<and> u = j \<and> v = i \<or>
         pu_type (updates ! i) = DELETE \<and> pu_type (updates ! j) = DELETE \<and> u = i \<and> v = j))"
  unfolding RecordDependenciesForReferencedValue_def
proof (induction indices)
  case (Cons p indices)
  obtain rv' j where p: "p = (rv', j)" by fastforce
  show ?case unfolding p list.map concat.simps set_append Un_iff Cons.IH
    by (cases "pu_type (updates ! i)"; cases "pu_type (updates ! j)") (auto simp: Let_def)
qed simp

lemma BuildDependencyGraph_iff:
  assumes "BuildDependencyGraph info updates = Inr g"
  shows "distinct g \<and> ((u, v) \<in> set g \<longleftrightarrow> must_precede info updates u v)"
proof -
  let ?n = "length updates"
  from assms obtain indices edges where
    ind: "map_or (update_indices info) (List.enumerate 0 updates) = Inr indices" and
    edg: "map_or (update_edges (\<lambda>v. RecordDependenciesForReferencedValue updates v (concat indices)) info)
       (List.enumerate 0 updates) = Inr edges" and
    g: "g = remdups (concat edges)" by (auto simp: BuildDependencyGraph_def)
  have set_enum: "p \<in> set (List.enumerate 0 updates) \<longleftrightarrow> (\<exists>i < ?n. p = (i, updates ! i))" for p
    by (auto simp: in_set_conv_nth nth_enumerate_eq)
  have prov: "(rv, j) \<in> set (concat indices) \<longleftrightarrow> j < ?n \<and> rv \<in> provided_values info updates j" for rv j
  proof
    assume "(rv, j) \<in> set (concat indices)"
    then obtain ws where ws: "ws \<in> set indices" "(rv, j) \<in> set ws" by auto
    from map_or_mem [OF ind ws(1)] obtain k where k: "k < ?n" "update_indices info (k, updates ! k) = Inr ws"
      by (auto simp: set_enum)
    with update_indices_index [OF k(2) ws(2)] ws(2) show "j < ?n \<and> rv \<in> provided_values info updates j"
      by (force simp: provided_values_def)
  next
    assume j: "j < ?n \<and> rv \<in> provided_values info updates j"
    then obtain ws k where ws: "update_indices info (j, updates ! j) = Inr ws" "(rv, k) \<in> set ws"
      by (auto simp: provided_values_def split: sum.splits)
    have "(j, updates ! j) \<in> set (List.enumerate 0 updates)" using j set_enum by blast
    then have "ws \<in> set indices" using map_or_set [OF ind] ws(1) by blast
    with update_indices_index [OF ws] ws(2) show "(rv, j) \<in> set (concat indices)" by auto
  qed
  let ?R = "\<lambda>v. RecordDependenciesForReferencedValue updates v (concat indices)"
  have edges: "(u, v) \<in> set (concat edges) \<longleftrightarrow>
    (\<exists>i < ?n. \<exists>rv \<in> referenced_values info updates i. (u, v) \<in> set (?R i rv))"
  proof -
    have "set edges = {es. \<exists>i < ?n. update_edges ?R info (i, updates ! i) = Inr es}"
      by (simp only: map_or_set [OF edg] Bex_def set_enum) blast
    then have "(u, v) \<in> set (concat edges) \<longleftrightarrow>
      (\<exists>i < ?n. \<exists>es. update_edges ?R info (i, updates ! i) = Inr es \<and> (u, v) \<in> set es)" by auto
    moreover have "(\<exists>es. update_edges ?R info (i, updates ! i) = Inr es \<and> (u, v) \<in> set es) \<longleftrightarrow>
      (\<exists>rv \<in> referenced_values info updates i. (u, v) \<in> set (?R i rv))" for i
      unfolding update_edges_expand [of ?R] referenced_values_def
      by (cases "update_edges (\<lambda>_ rv. [rv]) info (i, updates ! i)") auto
    ultimately show ?thesis by (simp only:)
  qed
  have "(u, v) \<in> set g \<longleftrightarrow> must_precede info updates u v"
    unfolding g set_remdups edges record_dependencies_iff prov must_precede_def refers_to_def by blast
  then show ?thesis by (simp add: g)
qed


lemma sequencing_cases:
  "case BuildDependencyGraph info updates of
     Inl e \<Rightarrow> SequencePiUpdatesInPlace info updates = Inl e
   | Inr _ \<Rightarrow>
       if acyclic {(u, v). must_precede info updates u v}
       then \<exists>batches. SequencePiUpdatesInPlace info updates = Inr batches \<and>
         mset (concat batches) = mset [0..<length updates] \<and>
         list_all (\<lambda>b. sorted b \<and> b \<noteq> []) batches \<and>
         {(u, v). must_precede info updates u v} \<subseteq> {(u, v). batch_order batches u v}
       else SequencePiUpdatesInPlace info updates = Inl INVALID_ARGUMENT"
proof (cases "BuildDependencyGraph info updates")
  case (Inr g)
  let ?n = "length updates" and ?roots = "filter (\<lambda>v. in_degree v g = 0) [0..<length updates]"
  have g: "distinct g" "set g = {(u, v). must_precede info updates u v}"
    using BuildDependencyGraph_iff [OF Inr] by auto
  then have range: "s < ?n \<and> t < ?n" if "(s, t) \<in> set g" for s t
    using that by (auto simp: must_precede_def refers_to_def)
  obtain batches g' where run: "sequence_loop ?roots g = (batches, g')" by fastforce
  have "seq_inv ?n g {} ?roots g" by (auto simp: seq_inv_def in_degree_0_iff split_def)
  note spec = sequence_loop_spec [OF g(1) range this run]
  then have fin: "seq_inv ?n g (set (concat batches)) [] g'" by simp
  show ?thesis
  proof (cases "g' = []")
    case True
    then have all: "set (concat batches) = {..<?n}" using fin spec by (auto simp: seq_inv_def)
    have order: "batch_order batches u v" if "(u, v) \<in> set g" for u v
    proof -
      from all range [OF that] obtain j where "j < length batches" "v \<in> set (batches ! j)"
        by (metis (no_types, lifting) UN_E in_set_conv_nth lessThan_iff set_concat)
      with spec that show ?thesis unfolding batch_order_def by blast
    qed
    have "acyclic (set g)"
    proof (rule acyclicI_order [of _ "\<lambda>v. length batches - (LEAST j. v \<in> set (batches ! j))"])
      fix u v assume e: "(u, v) \<in> set g"
      from all range [OF e] obtain k where k: "k < length batches" "v \<in> set (batches ! k)"
        by (metis (no_types, lifting) UN_E in_set_conv_nth lessThan_iff set_concat)
      let ?j = "LEAST j. v \<in> set (batches ! j)"
      have j: "v \<in> set (batches ! ?j)" "?j < length batches"
        using k LeastI [of "\<lambda>j. v \<in> set (batches ! j)" k] Least_le [of "\<lambda>j. v \<in> set (batches ! j)" k] by auto
      with spec e obtain i where "i < ?j" "u \<in> set (batches ! i)" by blast
      then have "(LEAST j. u \<in> set (batches ! j)) < ?j" by (meson Least_le le_less_trans)
      with j(2) show "length batches - ?j < length batches - (LEAST j. u \<in> set (batches ! j))" by linarith
    qed
    moreover have "mset (concat batches) = mset [0..<?n]"
      using spec all by (intro set_eq_iff_mset_eq_distinct [THEN iffD1]) auto
    ultimately show ?thesis using spec order True by (auto simp: Inr SequencePiUpdatesInPlace_def run g(2))
  next
    case False
    have "\<not> acyclic (set g)"
    proof
      assume "acyclic (set g)"
      then have wf: "wf (set g)" by (intro finite_acyclic_wf) auto
      let ?A = "{v. v < ?n \<and> v \<notin> set (concat batches)}"
      have g': "set g' = {(s, t). (s, t) \<in> set g \<and> s \<notin> set (concat batches)}"
        using fin by (auto simp: seq_inv_def)
      have none: "\<exists>s. (s, v) \<in> set g'" if "v \<in> ?A" for v
        using fin that unfolding seq_inv_def list.set by blast
      obtain s t where "(s, t) \<in> set g'" using False by (cases g') auto
      then have "s \<in> ?A" using g' range by auto
      then obtain v where v: "v \<in> ?A" "\<And>y. (y, v) \<in> set g \<Longrightarrow> y \<notin> ?A" by (rule wfE_min [OF wf]) blast
      with none obtain y where "(y, v) \<in> set g'" by blast
      then have "(y, v) \<in> set g" "y \<notin> set (concat batches)" using g' by auto
      with v(2) [of y] range [of y v] show False by blast
    qed
    with False show ?thesis by (auto simp: Inr SequencePiUpdatesInPlace_def run g(2))
  qed
qed (simp add: SequencePiUpdatesInPlace_def)

text \<open>
  C18. Sequencing either returns an error of the dependency graph, or divides the updates into batches:
  every update is in exactly one, each batch keeps the order of the input and none is empty, and an
  update that inserts or modifies an entry comes in a later batch than every insertion it refers to,
  one that deletes an entry in an earlier batch than every deletion it refers to. It fails with
  \<open>INVALID_ARGUMENT\<close> exactly when these dependencies are cyclic.
\<close>

theorem SequencePiUpdatesInPlace_topological:
  "case BuildDependencyGraph info updates of
     Inl e \<Rightarrow> SequencePiUpdatesInPlace info updates = Inl e
   | Inr _ \<Rightarrow>
       if acyclic {(u, v). must_precede info updates u v}
       then \<exists>batches. SequencePiUpdatesInPlace info updates = Inr batches \<and>
         mset (concat batches) = mset [0..<length updates] \<and>
         list_all (\<lambda>b. sorted b \<and> b \<noteq> []) batches \<and>
         {(u, v). must_precede info updates u v} \<subseteq> {(u, v). batch_order batches u v}
       else SequencePiUpdatesInPlace info updates = Inl INVALID_ARGUMENT"
  by (rule sequencing_cases)

section \<open>Write requests\<close>

text \<open>
  The requests for one batch; \<open>request\<close> holds the updates added so far, and a request that is
  full is pushed before the next update.
\<close>

fun batch_requests :: "int option \<Rightarrow> 'a list \<Rightarrow> 'a list \<Rightarrow> 'a list list" where
  "batch_requests max_batch_size request [] = [request]"
| "batch_requests max_batch_size request (u # us) =
     (if (case max_batch_size of Some m \<Rightarrow> int (length request) \<ge> m | None \<Rightarrow> False)
      then request # batch_requests max_batch_size [u] us
      else batch_requests max_batch_size (request @ [u]) us)"

definition SequencePiUpdatesIntoWriteRequests ::
  "ir_p4info \<Rightarrow> pi_update list \<Rightarrow> int option \<Rightarrow> pi_update list list status_or" where
  "SequencePiUpdatesIntoWriteRequests info updates max_batch_size =
     (if (case max_batch_size of Some m \<Rightarrow> m \<le> 0 | None \<Rightarrow> False) then Inl INVALID_ARGUMENT
      else bind_or (SequencePiUpdatesInPlace info updates) (\<lambda>batches.
        Inr (concat (map (\<lambda>batch. batch_requests max_batch_size [] (map (\<lambda>i. updates ! i) batch)) batches))))"

text \<open>The loop of \<open>ExtractWriteRequests\<close>; the access fields are copied to each new request.\<close>

fun extract_loop :: "int \<Rightarrow> mutable_request \<Rightarrow> int \<Rightarrow> pi_update list \<Rightarrow> write_request list \<Rightarrow> write_request list" where
  "extract_loop max_size access i [] requests = requests"
| "extract_loop max_size access i (u # us) requests =
     (let requests' = (if i mod max_size = 0 then requests @ [\<lparr>wr_access = access, wr_updates = []\<rparr>] else requests)
      in extract_loop max_size access (i + 1) us
           (butlast requests' @ [(last requests')\<lparr>wr_updates := wr_updates (last requests') @ [u]\<rparr>]))"

definition ExtractWriteRequests :: "write_request \<Rightarrow> int option \<Rightarrow> write_request list status_or" where
  "ExtractWriteRequests write_request max_write_request_size =
     (case max_write_request_size of
        None \<Rightarrow> Inr [write_request]
      | Some m \<Rightarrow>
          if int (length (wr_updates write_request)) \<le> m then Inr [write_request]
          else if m < 1 then Inl INVALID_ARGUMENT
          else Inr (extract_loop m (wr_access write_request) 0 (wr_updates write_request) []))"

lemma batch_requests_concat: "concat (batch_requests m request us) = request @ us"
  by (induction m request us rule: batch_requests.induct) auto

lemma batch_requests_size:
  "0 < m \<Longrightarrow> int (length request) \<le> m \<Longrightarrow> request \<noteq> [] \<or> us \<noteq> [] \<Longrightarrow> r \<in> set (batch_requests (Some m) request us) \<Longrightarrow>
   r \<noteq> [] \<and> int (length r) \<le> m"
  by (induction "Some m" request us rule: batch_requests.induct) (auto split: if_splits)

lemma batch_requests_nonempty: "request \<noteq> [] \<or> us \<noteq> [] \<Longrightarrow> r \<in> set (batch_requests None request us) \<Longrightarrow> r \<noteq> []"
  by (induction "None :: int option" request us rule: batch_requests.induct) auto

text \<open>Cutting a list into pieces of at most \<open>m\<close> elements.\<close>

function chunks :: "nat \<Rightarrow> 'a list \<Rightarrow> 'a list list" where
  "chunks m us = (if us = [] \<or> m = 0 then [] else take m us # chunks m (drop m us))"
  by auto

termination by (relation "measure (\<lambda>(_, us). length us)") auto

declare chunks.simps [simp del]

lemma chunks_Nil [simp]: "chunks m [] = []"
  by (simp add: chunks.simps)

lemma chunks_small: "us \<noteq> [] \<Longrightarrow> length us \<le> m \<Longrightarrow> chunks m us = [us]"
  by (cases m) (auto simp: chunks.simps [of "Suc k" us for k])

lemma concat_chunks: "0 < m \<Longrightarrow> concat (chunks m us) = us"
  by (induction m us rule: chunks.induct) (subst chunks.simps, simp)

lemma length_chunks: "0 < m \<Longrightarrow> length (chunks m us) = (length us + m - 1) div m"
proof (induction m us rule: chunks.induct)
  case (1 m us)
  show ?case
  proof (cases "us = []")
    case False
    then have "length (chunks m us) = Suc ((length us - m + m - 1) div m)"
      using 1 by (subst chunks.simps) simp
    also have "\<dots> = (length us + m - 1) div m"
    proof (cases "length us \<le> m")
      case True
      moreover have "0 < length us" using False by simp
      ultimately have "(length us + m - 1) div m = 1" using 1(2) by (intro div_nat_eqI; simp only: mult_Suc_right mult_0_right One_nat_def add_0_right; linarith)
      then show ?thesis using True 1 by simp
    qed (use 1 in \<open>simp add: le_div_geq\<close>)
    finally show ?thesis .
  qed (use 1 in simp)
qed

lemma chunk_size: "0 < m \<Longrightarrow> c \<in> set (chunks m us) \<Longrightarrow> c \<noteq> [] \<and> length c \<le> m"
  by (induction m us rule: chunks.induct) (subst (asm) (2) chunks.simps, auto split: if_splits)


abbreviation request_of :: "mutable_request \<Rightarrow> pi_update list \<Rightarrow> write_request" where
  "request_of access us \<equiv> \<lparr>wr_access = access, wr_updates = us\<rparr>"

lemma extract_loop_chunks:
  assumes "0 < m"
  shows "p \<noteq> [] \<Longrightarrow> length p \<le> m \<Longrightarrow> i mod int m = int (length p) mod int m \<Longrightarrow>
    extract_loop (int m) access i us (pre @ [request_of access p]) = pre @ map (request_of access) (chunks m (p @ us))"
proof (induction us arbitrary: p i pre)
  case Nil
  then show ?case by (simp add: chunks_small)
next
  case (Cons u us)
  show ?case
  proof (cases "length p = m")
    case True
    have "(i + 1) mod int m = int (length [u]) mod int m" using Cons.prems(3) True by (simp add: mod_add_left_eq [symmetric])
    with Cons.IH [of "[u]" "i + 1" "pre @ [request_of access p]"] assms have
      "extract_loop (int m) access (i + 1) us ((pre @ [request_of access p]) @ [request_of access [u]]) =
        (pre @ [request_of access p]) @ map (request_of access) (chunks m (u # us))" by simp
    moreover have "chunks m (p @ u # us) = p # chunks m (u # us)"
      using True assms by (subst chunks.simps) simp
    ultimately show ?thesis using Cons.prems True by (simp add: butlast_append)
  next
    case False
    then have less: "length p < m" using Cons.prems(2) by simp
    then have "i mod int m \<noteq> 0" using Cons.prems(1,3) by simp
    moreover have "(i + 1) mod int m = int (length (p @ [u])) mod int m"
      using Cons.prems(3) by (simp add: add.commute) (metis mod_add_right_eq)
    ultimately show ?thesis using Cons.IH [of "p @ [u]" "i + 1" pre] less by simp
  qed
qed

text \<open>
  Extracting write requests loses nothing: when the request is larger than the limit, the result
  consists of requests with the access fields of the original, none empty and none above the limit,
  whose updates in order are those of the original, and there are as few of them as
  the limit allows. A request within the limit is returned as it is; a limit below one is refused.
\<close>

theorem ExtractWriteRequests_spec:
  "case max_size of
     None \<Rightarrow> ExtractWriteRequests request max_size = Inr [request]
   | Some m \<Rightarrow>
       if int (length (wr_updates request)) \<le> m then ExtractWriteRequests request max_size = Inr [request]
       else if m < 1 then ExtractWriteRequests request max_size = Inl INVALID_ARGUMENT
       else \<exists>rs. ExtractWriteRequests request max_size = Inr rs \<and>
         concat (map wr_updates rs) = wr_updates request \<and>
         list_all (\<lambda>r. wr_access r = wr_access request \<and> wr_updates r \<noteq> [] \<and> int (length (wr_updates r)) \<le> m) rs \<and>
         length rs = (length (wr_updates request) + nat m - 1) div nat m"
proof -
  have "\<exists>rs. extract_loop m (wr_access request) 0 (wr_updates request) [] = rs \<and>
      concat (map wr_updates rs) = wr_updates request \<and>
      list_all (\<lambda>r. wr_access r = wr_access request \<and> wr_updates r \<noteq> [] \<and> int (length (wr_updates r)) \<le> m) rs \<and>
      length rs = (length (wr_updates request) + nat m - 1) div nat m"
    if m: "m < int (length (wr_updates request))" "1 \<le> m" for m
  proof -
    obtain u us where us: "wr_updates request = u # us" using m by (cases "wr_updates request") auto
    have pos: "0 < nat m" using m by simp
    have "extract_loop m (wr_access request) 1 us ([] @ [request_of (wr_access request) [u]]) =
        [] @ map (request_of (wr_access request)) (chunks (nat m) ([u] @ us))"
      using extract_loop_chunks [OF pos, of "[u]" 1 "wr_access request" us "[]"] m by simp
    then have "extract_loop m (wr_access request) 0 (wr_updates request) [] =
        map (request_of (wr_access request)) (chunks (nat m) (wr_updates request))" by (simp add: us)
    then show ?thesis
      using concat_chunks [OF pos] length_chunks [OF pos] chunk_size [OF pos] m
      by (auto simp: o_def list_all_iff le_nat_iff)
  qed
  then show ?thesis by (auto simp: ExtractWriteRequests_def split: option.split)
qed

lemma batch_requests_map: "batch_requests m (map f request) (map f us) = map (map f) (batch_requests m request us)"
proof (induction us arbitrary: request)
  case (Cons u us)
  show ?case using Cons [of "[u]"] Cons [of "request @ [u]"] by (cases m) simp_all
qed simp

lemma batch_requests_whole: "concat (batch_requests m [] us) = us"
  by (simp add: batch_requests_concat)

lemma batch_order_Cons: "batch_order (b # bs) u v \<longleftrightarrow> u \<in> set b \<and> v \<in> set (concat bs) \<or> batch_order bs u v"
proof
  assume "batch_order (b # bs) u v"
  then obtain i j where "i < j" "j < length (b # bs)" "u \<in> set ((b # bs) ! i)" "v \<in> set ((b # bs) ! j)"
    by (auto simp: batch_order_def)
  then show "u \<in> set b \<and> v \<in> set (concat bs) \<or> batch_order bs u v"
    by (cases i; cases j) (auto simp: batch_order_def)
next
  assume "u \<in> set b \<and> v \<in> set (concat bs) \<or> batch_order bs u v"
  then show "batch_order (b # bs) u v"
  proof
    assume "u \<in> set b \<and> v \<in> set (concat bs)"
    then obtain j where "j < length bs" "v \<in> set (bs ! j)" "u \<in> set b" by (metis UN_E in_set_conv_nth set_concat)
    then show ?thesis unfolding batch_order_def by (intro exI [of _ 0] exI [of _ "Suc j"]) simp
  next
    assume "batch_order bs u v"
    then obtain i j where "i < j" "j < length bs" "u \<in> set (bs ! i)" "v \<in> set (bs ! j)" by (auto simp: batch_order_def)
    then show ?thesis unfolding batch_order_def by (intro exI [of _ "Suc i"] exI [of _ "Suc j"]) simp
  qed
qed

lemma batch_order_append:
  "u \<in> set (concat xs) \<and> v \<in> set (concat ys) \<or> batch_order ys u v \<Longrightarrow> batch_order (xs @ ys) u v"
  by (induction xs) (auto simp: batch_order_Cons)

lemma batch_order_split:
  assumes "\<And>b. concat (f b) = b"
  shows "batch_order bs u v \<Longrightarrow> batch_order (concat (map f bs)) u v"
proof (induction bs)
  case (Cons b bs)
  have "set (concat (concat (map f bs))) = set (concat bs)" using assms by (simp add: set_concat) (metis set_concat)
  with Cons show ?case using assms [of b] by (auto simp: batch_order_Cons intro!: batch_order_append)
qed (simp add: batch_order_def)

lemma concat_split: "(\<And>b. concat (f b) = b) \<Longrightarrow> concat (concat (map f bs)) = concat bs"
  by (induction bs) simp_all

text \<open>
  The write requests hold every update exactly once, none is empty and none exceeds the limit, and
  they respect the dependencies: an update that has to be sent before another is in an earlier request.
  A limit below one is refused, an error of the sequencing is passed on, and there is no other failure.
\<close>

theorem SequencePiUpdatesIntoWriteRequests_spec:
  "if (case max_batch_size of Some m \<Rightarrow> m \<le> 0 | None \<Rightarrow> False)
   then SequencePiUpdatesIntoWriteRequests info updates max_batch_size = Inl INVALID_ARGUMENT
   else case SequencePiUpdatesInPlace info updates of
     Inl e \<Rightarrow> SequencePiUpdatesIntoWriteRequests info updates max_batch_size = Inl e
   | Inr batches \<Rightarrow>
       \<exists>requests. SequencePiUpdatesIntoWriteRequests info updates max_batch_size = Inr (map (map (\<lambda>i. updates ! i)) requests) \<and>
         mset (concat requests) = mset [0..<length updates] \<and>
         {(u, v). must_precede info updates u v} \<subseteq> {(u, v). batch_order requests u v} \<and>
         list_all (\<lambda>r. r \<noteq> [] \<and> (case max_batch_size of Some m \<Rightarrow> int (length r) \<le> m | None \<Rightarrow> True)) requests"
proof (cases "SequencePiUpdatesInPlace info updates")
  case (Inr batches)
  let ?f = "batch_requests max_batch_size []"
  let ?requests = "concat (map ?f batches)"
  show ?thesis
  proof (cases "case max_batch_size of Some m \<Rightarrow> m \<le> 0 | None \<Rightarrow> False")
    case False
    have ok: "mset (concat batches) = mset [0..<length updates]" "list_all (\<lambda>b. sorted b \<and> b \<noteq> []) batches"
      "{(u, v). must_precede info updates u v} \<subseteq> {(u, v). batch_order batches u v}"
      using sequencing_cases [of info updates] by (auto simp: Inr split: sum.splits if_splits)
    have "SequencePiUpdatesIntoWriteRequests info updates max_batch_size = Inr (map (map (\<lambda>i. updates ! i)) ?requests)"
      using False batch_requests_map [of max_batch_size "\<lambda>i. updates ! i" "[]"]
      by (simp add: SequencePiUpdatesIntoWriteRequests_def Inr map_concat o_def)
    moreover have "list_all (\<lambda>r. r \<noteq> [] \<and> (case max_batch_size of Some m \<Rightarrow> int (length r) \<le> m | None \<Rightarrow> True)) ?requests"
      unfolding list_all_iff
    proof
      fix r assume "r \<in> set ?requests"
      then obtain b where b: "b \<noteq> []" "r \<in> set (?f b)" using ok(2) by (auto simp: list_all_iff)
      show "r \<noteq> [] \<and> (case max_batch_size of Some m \<Rightarrow> int (length r) \<le> m | None \<Rightarrow> True)"
      proof (cases max_batch_size)
        case None
        then show ?thesis using batch_requests_nonempty [of "[]" b r] b by simp
      next
        case (Some m)
        then show ?thesis using batch_requests_size [of m "[]" b r] b False by simp
      qed
    qed
    moreover have "{(u, v). must_precede info updates u v} \<subseteq> {(u, v). batch_order ?requests u v}"
    proof clarify
      fix u v assume "must_precede info updates u v"
      then have "batch_order batches u v" using ok(3) by blast
      then show "batch_order ?requests u v" by (rule batch_order_split [OF batch_requests_whole])
    qed
    moreover have "mset (concat ?requests) = mset [0..<length updates]"
      using ok(1) by (simp only: concat_split [OF batch_requests_whole])
    ultimately show ?thesis using False by (auto simp: Inr intro!: exI [of _ ?requests])
  qed (simp add: SequencePiUpdatesIntoWriteRequests_def)
qed (auto simp: SequencePiUpdatesIntoWriteRequests_def split: option.split)

section \<open>Sorting by dependency rank\<close>

definition EntityToTableName :: "ir_p4info \<Rightarrow> pi_entity \<Rightarrow> string status_or" where
  "EntityToTableName info entity =
     (case entity of
        TableEntry t \<Rightarrow>
          (case tables_by_id info (pte_table_id t) of Some table \<Rightarrow> Inr (itd_alias table) | None \<Rightarrow> Inl NOT_FOUND)
      | PacketReplicationEngineEntry (MulticastGroupEntry _ _ _) \<Rightarrow> Inr GetMulticastGroupTableName
      | PacketReplicationEngineEntry (CloneSessionEntry _ _ _ _) \<Rightarrow> Inr GetCloneSessionTableName
      | _ \<Rightarrow> Inl INVALID_ARGUMENT)"

definition find_rank :: "ir_p4info \<Rightarrow> string \<Rightarrow> int status_or" where
  "find_rank info name = (case dependency_rank_by_table_name info name of Some r \<Rightarrow> Inr r | None \<Rightarrow> Inl NOT_FOUND)"

definition GreaterThanInDependencyOrder :: "ir_p4info \<Rightarrow> pi_entity \<Rightarrow> pi_entity \<Rightarrow> bool status_or" where
  "GreaterThanInDependencyOrder info first second =
     bind_or (EntityToTableName info first) (\<lambda>first_table.
     bind_or (EntityToTableName info second) (\<lambda>second_table.
     bind_or (find_rank info first_table) (\<lambda>first_order.
     bind_or (find_rank info second_table) (\<lambda>second_order.
       Inr (first_order > second_order)))))"

text \<open>
  A stable sort. It is specified for comparisons that are strict weak orderings of the elements;
  \<open>None\<close> stands for the undefined behaviour of all others.
\<close>

definition strict_weak_ordering :: "('a \<Rightarrow> 'a \<Rightarrow> bool) \<Rightarrow> 'a list \<Rightarrow> bool" where
  "strict_weak_ordering lt xs \<longleftrightarrow>
     list_all (\<lambda>x. \<not> lt x x) xs \<and>
     list_all (\<lambda>x. list_all (\<lambda>y. list_all (\<lambda>z.
       (lt x y \<and> lt y z \<longrightarrow> lt x z) \<and>
       (\<not> lt x y \<and> \<not> lt y x \<and> \<not> lt y z \<and> \<not> lt z y \<longrightarrow> \<not> lt x z)) xs) xs) xs"

fun stable_insert :: "('a \<Rightarrow> 'a \<Rightarrow> bool) \<Rightarrow> 'a \<Rightarrow> 'a list \<Rightarrow> 'a list" where
  "stable_insert lt x [] = [x]"
| "stable_insert lt x (y # ys) = (if lt y x then y # stable_insert lt x ys else x # y # ys)"

definition stable_sort :: "('a \<Rightarrow> 'a \<Rightarrow> bool) \<Rightarrow> 'a list \<Rightarrow> 'a list option" where
  "stable_sort lt xs = (if strict_weak_ordering lt xs then Some (foldr (stable_insert lt) xs []) else None)"

definition StableSortEntities :: "ir_p4info \<Rightarrow> pi_entity list \<Rightarrow> (status_code \<times> pi_entity list) option" where
  "StableSortEntities info entities =
     map_option (\<lambda>es. (OK, es))
       (stable_sort (\<lambda>a b. case GreaterThanInDependencyOrder info a b of Inl _ \<Rightarrow> False | Inr r \<Rightarrow> r) entities)"

definition StableSortUpdates :: "ir_p4info \<Rightarrow> pi_update list \<Rightarrow> bool \<Rightarrow> (status_code \<times> pi_update list) option" where
  "StableSortUpdates info updates reverse_ordering =
     map_option (\<lambda>us. (OK, us))
       (stable_sort (\<lambda>a b. case GreaterThanInDependencyOrder info (pu_entity a) (pu_entity b) of
          Inl _ \<Rightarrow> False | Inr r \<Rightarrow> if reverse_ordering then \<not> r else r) updates)"

definition entity_rank :: "ir_p4info \<Rightarrow> pi_entity \<Rightarrow> int status_or" where
  "entity_rank info e = bind_or (EntityToTableName info e) (find_rank info)"

text \<open>Entities of tables with a dependency rank compare by it, the highest first.\<close>

lemma GreaterThan_rank:
  "entity_rank info a = Inr r \<Longrightarrow> entity_rank info b = Inr s \<Longrightarrow> GreaterThanInDependencyOrder info a b = Inr (r > s)"
  by (auto simp: entity_rank_def GreaterThanInDependencyOrder_def)

lemma stable_insert_insort: "stable_insert (\<lambda>a b. k a < k b) x xs = insort_key k x xs"
  by (induction xs) auto

lemma stable_insert_cong:
  "(\<And>y. y \<in> set ys \<Longrightarrow> lt y x = lt' y x) \<Longrightarrow> stable_insert lt x ys = stable_insert lt' x ys"
  by (induction ys) auto

lemma set_stable_insert: "set (stable_insert lt x ys) = insert x (set ys)"
  by (induction ys) auto

lemma set_stable_inserts: "set (foldr (stable_insert lt) xs []) = set xs"
  by (induction xs) (simp_all add: set_stable_insert)

lemma stable_sort_by_key:
  assumes "\<And>x y. x \<in> set xs \<Longrightarrow> y \<in> set xs \<Longrightarrow> lt x y \<longleftrightarrow> (k x :: int) < k y"
  shows "stable_sort lt xs = Some (sort_key k xs)"
proof -
  have "strict_weak_ordering lt xs" unfolding strict_weak_ordering_def list_all_iff using assms by fastforce
  moreover have "foldr (stable_insert lt) ys [] = sort_key k ys" if "set ys \<subseteq> set xs" for ys
    using that
  proof (induction ys)
    case (Cons y ys)
    then have "foldr (stable_insert lt) ys [] = sort_key k ys" by simp
    moreover have "stable_insert lt y (sort_key k ys) = stable_insert (\<lambda>a b. k a < k b) y (sort_key k ys)"
      using Cons.prems assms by (intro stable_insert_cong) auto
    ultimately show ?case by (simp add: stable_insert_insort)
  qed simp
  ultimately show ?thesis by (simp add: stable_sort_def)
qed

text \<open>
  If the table of every entity has a dependency rank then sorting succeeds and yields the entities
  by descending rank, those of one rank in their original order: an entity comes after everything
  that its table may depend on.
\<close>

theorem StableSortEntities_by_rank:
  assumes "list_all (\<lambda>e. entity_rank info e = Inr (rank e)) entities"
  shows "StableSortEntities info entities = Some (OK, sort_key (\<lambda>e. - rank e) entities) \<and>
    sorted_wrt (\<lambda>a b. rank a \<ge> rank b) (sort_key (\<lambda>e. - rank e) entities) \<and>
    (\<forall>r. filter (\<lambda>e. rank e = r) (sort_key (\<lambda>e. - rank e) entities) = filter (\<lambda>e. rank e = r) entities)"
proof (intro conjI allI)
  show "StableSortEntities info entities = Some (OK, sort_key (\<lambda>e. - rank e) entities)"
    using assms GreaterThan_rank [of info]
    unfolding StableSortEntities_def
    by (subst stable_sort_by_key [where k = "\<lambda>e. - rank e"]) (auto simp: list_all_iff)
  show "sorted_wrt (\<lambda>a b. rank a \<ge> rank b) (sort_key (\<lambda>e. - rank e) entities)"
    using sorted_sort_key [of "\<lambda>e. - rank e" entities] by (simp add: sorted_map)
  show "filter (\<lambda>e. rank e = r) (sort_key (\<lambda>e. - rank e) entities) = filter (\<lambda>e. rank e = r) entities" for r
    using sort_key_stable [of "\<lambda>e. - rank e" "- r" entities] by simp
qed

text \<open>
  With \<open>reverse_ordering\<close> the comparison is not a strict weak ordering: it puts each update
  before itself. Sorting a non-empty list of updates in reverse is undefined, whatever its ranks.
\<close>

theorem StableSortUpdates_reverse_undefined:
  assumes "list_all (\<lambda>u. \<not> isl (entity_rank info (pu_entity u))) updates" "updates \<noteq> []"
  shows "StableSortUpdates info updates True = None"
proof -
  obtain u us where u: "updates = u # us" using assms(2) by (cases updates) auto
  then obtain r where "entity_rank info (pu_entity u) = Inr r" using assms(1) by (auto simp: isl_def) (metis sum.exhaust)
  then have "GreaterThanInDependencyOrder info (pu_entity u) (pu_entity u) = Inr False" by (simp add: GreaterThan_rank)
  then show ?thesis by (simp add: StableSortUpdates_def stable_sort_def strict_weak_ordering_def u)
qed

section \<open>Entities that no root refers to\<close>

text \<open>What the first loop does with an entity; a root that is a multicast group is skipped.\<close>

datatype entity_class =
    SkippedRoot
  | Root
  | NeverReferenced
  | Candidate "concrete_table_reference set"

definition classify_entity ::
  "status_code \<Rightarrow> ir_p4info \<Rightarrow> (pi_entity \<Rightarrow> bool status_or) \<Rightarrow> pi_entity \<Rightarrow> entity_class status_or" where
  "classify_entity unset info is_root_entity entity =
     (let is_multicast = (case entity of PacketReplicationEngineEntry (MulticastGroupEntry _ _ _) \<Rightarrow> True | _ \<Rightarrow> False)
      in case entity of
           TableEntry table_entry \<Rightarrow>
             bind_or (is_root_entity entity) (\<lambda>is_root.
               if is_root then Inr Root
               else case tables_by_id info (pte_table_id table_entry) of
                      None \<Rightarrow> Inl NOT_FOUND
                    | Some table_def \<Rightarrow>
                        if itd_incoming_references table_def = [] then Inr NeverReferenced
                        else bind_or (map_or (\<lambda>r. PossibleIncomingConcreteTableReferences unset r entity)
                               (itd_incoming_references table_def))
                             (\<lambda>cs. Inr (Candidate (\<Union> (set cs)))))
         | _ \<Rightarrow>
             if is_multicast
             then bind_or (is_root_entity entity) (\<lambda>is_root. if is_root then Inr SkippedRoot else Inl UNIMPLEMENTED)
             else Inl UNIMPLEMENTED)"

text \<open>
  \<open>potentially_reachable_entries\<close> as a list of pairs of a reference and an index. \<open>order\<close> is the
  order in which a hash set is iterated.
\<close>

type_synonym potentially_reachable = "(concrete_table_reference \<times> nat) list"

definition candidate_pairs ::
  "(concrete_table_reference set \<Rightarrow> concrete_table_reference list) \<Rightarrow> nat \<times> entity_class \<Rightarrow> potentially_reachable" where
  "candidate_pairs order = (\<lambda>(i, c). case c of Candidate refs \<Rightarrow> map (\<lambda>r. (r, i)) (order refs) | _ \<Rightarrow> [])"

fun visit_references ::
  "concrete_table_reference list \<Rightarrow> nat set \<Rightarrow> potentially_reachable \<Rightarrow> nat list \<times> potentially_reachable" where
  "visit_references [] reached pot = ([], pot)"
| "visit_references (r # rs) reached pot =
     (let hits = map snd (filter (\<lambda>p. fst p = r) pot);
          (pushed, pot') = visit_references rs reached (filter (\<lambda>p. fst p \<noteq> r) pot)
      in (filter (\<lambda>i. i \<notin> reached) hits @ pushed, pot'))"

lemma visit_references_pot: "snd (visit_references rs reached pot) = filter (\<lambda>p. fst p \<notin> set rs) pot"
  by (induction rs arbitrary: pot) (auto simp: Let_def split_def intro!: filter_cong)

lemma visit_references_pushed:
  "set (fst (visit_references rs reached pot)) = {i. i \<notin> reached \<and> (\<exists>r \<in> set rs. (r, i) \<in> set pot)}"
proof (induction rs arbitrary: pot)
  case (Cons r rs)
  have "set (fst (visit_references (r # rs) reached pot)) =
      {i. i \<notin> reached \<and> (r, i) \<in> set pot} \<union> {i. i \<notin> reached \<and> (\<exists>r' \<in> set rs. (r', i) \<in> set pot \<and> r' \<noteq> r)}"
    using Cons.IH [of "filter (\<lambda>p. fst p \<noteq> r) pot"] by (auto simp: Let_def split_def image_iff)
  then show ?case by auto
qed simp

definition entity_outgoing ::
  "status_code \<Rightarrow> (concrete_table_reference set \<Rightarrow> concrete_table_reference list) \<Rightarrow> ir_p4info \<Rightarrow> pi_entity \<Rightarrow>
   concrete_table_reference list status_or" where
  "entity_outgoing unset order info entity =
     bind_or (GetOutgoingTableReferences info entity) (\<lambda>rs.
     bind_or (map_or (\<lambda>r. OutgoingConcreteTableReferences unset r entity) rs) (\<lambda>cs.
       Inr (concat (map order cs))))"

function frontier_loop ::
  "(nat \<Rightarrow> concrete_table_reference list status_or) \<Rightarrow> nat list \<Rightarrow> potentially_reachable \<Rightarrow> nat set \<Rightarrow>
   (nat set \<times> potentially_reachable) status_or" where
  "frontier_loop outgoing [] pot reached = Inr (reached, pot)"
| "frontier_loop outgoing (i # frontier) pot reached =
     bind_or (outgoing i) (\<lambda>rs.
       frontier_loop outgoing (frontier @ fst (visit_references rs (insert i reached) pot))
         (snd (visit_references rs (insert i reached) pot)) (insert i reached))"
  by pat_completeness auto

termination
proof (relation "inv_image (less_than <*lex*> less_than) (\<lambda>(_, frontier, pot, _). (length pot, length frontier))", goal_cases)
  case (2 outgoing i frontier pot reached rs)
  let ?v = "visit_references rs (insert i reached) pot"
  show ?case
  proof (cases "fst ?v = []")
    case True
    then show ?thesis using le_imp_less_or_eq [OF length_filter_le [of "\<lambda>p. fst p \<notin> set rs" pot]]
      by (simp add: visit_references_pot)
  next
    case False
    then obtain j where "j \<in> set (fst ?v)" by fastforce
    then obtain r where "r \<in> set rs" "(r, j) \<in> set pot" by (auto simp: visit_references_pushed)
    then have "length (filter (\<lambda>p. fst p \<notin> set rs) pot) < length pot" by (intro length_filter_less) auto
    then show ?thesis by (simp add: visit_references_pot)
  qed
qed (auto intro: wf_inv_image)

definition GetEntitiesUnreachableFromRoots ::
  "status_code \<Rightarrow> (concrete_table_reference set \<Rightarrow> concrete_table_reference list) \<Rightarrow> ir_p4info \<Rightarrow>
   (pi_entity \<Rightarrow> bool status_or) \<Rightarrow> pi_entity list \<Rightarrow> pi_entity list status_or" where
  "GetEntitiesUnreachableFromRoots unset order info is_root_entity entities =
     bind_or (map_or (classify_entity unset info is_root_entity) entities) (\<lambda>classes.
       let pot = concat (map (candidate_pairs order) (List.enumerate 0 classes));
           roots = filter (\<lambda>i. classes ! i = Root) [0..<length entities]
       in bind_or (frontier_loop (\<lambda>i. entity_outgoing unset order info (entities ! i)) roots pot {}) (\<lambda>(reached, pot').
            Inr (map (\<lambda>i. entities ! i) (filter (\<lambda>i. classes ! i = NeverReferenced \<or> (i \<in> snd ` set pot' \<and> i \<notin> reached))
              [0..<length entities]))))"

text \<open>
  Reachability by the references that the loop follows: from the roots that are table entries. A
  multicast group that is a root is of the class \<open>SkippedRoot\<close> and starts nothing, where \<open>sequencing.h\<close> counts every root.
\<close>

inductive reachable ::
  "(nat \<Rightarrow> concrete_table_reference set status_or) \<Rightarrow> entity_class list \<Rightarrow> nat \<Rightarrow> bool"
  for outgoing classes where
  root: "i < length classes \<Longrightarrow> classes ! i = Root \<Longrightarrow> reachable outgoing classes i"
| refers: "reachable outgoing classes i \<Longrightarrow> outgoing i = Inr rs \<Longrightarrow> r \<in> rs \<Longrightarrow> j < length classes \<Longrightarrow>
    classes ! j = Candidate refs \<Longrightarrow> r \<in> refs \<Longrightarrow> reachable outgoing classes j"


definition all_pairs :: "entity_class list \<Rightarrow> (concrete_table_reference \<times> nat) set" where
  "all_pairs classes = {(r, j). j < length classes \<and> (\<exists>refs. classes ! j = Candidate refs \<and> r \<in> refs)}"

abbreviation out_sets :: "(nat \<Rightarrow> 'a list status_or) \<Rightarrow> nat \<Rightarrow> 'a set status_or" where
  "out_sets outgoing \<equiv> \<lambda>i. map_result set (outgoing i)"

definition frontier_inv ::
  "(nat \<Rightarrow> concrete_table_reference list status_or) \<Rightarrow> entity_class list \<Rightarrow> nat list \<Rightarrow> potentially_reachable \<Rightarrow> nat set \<Rightarrow> bool" where
  "frontier_inv outgoing classes frontier pot reached \<longleftrightarrow>
     set frontier \<union> reached \<subseteq> {i. reachable (out_sets outgoing) classes i} \<and>
     set pot \<subseteq> all_pairs classes \<and>
     (\<forall>r j. (r, j) \<in> all_pairs classes \<longrightarrow> (r, j) \<in> set pot \<or> j \<in> set frontier \<union> reached) \<and>
     (\<forall>i \<in> reached. \<forall>rs. outgoing i = Inr rs \<longrightarrow> fst ` set pot \<inter> set rs = {}) \<and>
     {i. i < length classes \<and> classes ! i = Root} \<subseteq> set frontier \<union> reached"

lemma frontier_inv_step:
  assumes "frontier_inv outgoing classes (i # frontier) pot reached" "outgoing i = Inr rs"
    and "visit_references rs (insert i reached) pot = (pushed, pot')"
  shows "frontier_inv outgoing classes (frontier @ pushed) pot' (insert i reached)"
proof -
  have pot': "pot' = filter (\<lambda>p. fst p \<notin> set rs) pot"
    and pushed: "set pushed = {j. j \<notin> insert i reached \<and> (\<exists>r \<in> set rs. (r, j) \<in> set pot)}"
    using visit_references_pot [of rs "insert i reached" pot] visit_references_pushed [of rs "insert i reached" pot] assms(3)
    by simp_all
  have inv: "set (i # frontier) \<union> reached \<subseteq> {i. reachable (out_sets outgoing) classes i}" "set pot \<subseteq> all_pairs classes"
    "\<And>r j. (r, j) \<in> all_pairs classes \<Longrightarrow> (r, j) \<in> set pot \<or> j \<in> set (i # frontier) \<union> reached"
    "\<And>k ss. k \<in> reached \<Longrightarrow> outgoing k = Inr ss \<Longrightarrow> fst ` set pot \<inter> set ss = {}"
    "{i. i < length classes \<and> classes ! i = Root} \<subseteq> set (i # frontier) \<union> reached"
    using assms(1) unfolding frontier_inv_def by blast+
  have "reachable (out_sets outgoing) classes j" if "j \<in> set pushed" for j
  proof -
    from that obtain r where r: "r \<in> set rs" "(r, j) \<in> set pot" unfolding pushed by blast
    then obtain refs where j: "j < length classes" "classes ! j = Candidate refs" "r \<in> refs"
      using inv(2) by (auto simp: all_pairs_def)
    have i: "reachable (out_sets outgoing) classes i" "out_sets outgoing i = Inr (set rs)"
      using inv(1) assms(2) by simp_all
    show ?thesis by (rule reachable.refers [OF i r(1) j])
  qed
  moreover have "(r, j) \<in> set pot' \<or> j \<in> set (frontier @ pushed) \<union> insert i reached" if "(r, j) \<in> all_pairs classes" for r j
    using inv(3) [OF that] pushed unfolding pot' by auto
  moreover have "fst ` set pot' \<inter> set ss = {}" if "k \<in> insert i reached" "outgoing k = Inr ss" for k ss
    using that inv(4) [of k ss] assms(2) unfolding pot' by auto
  ultimately show ?thesis using inv(1,2,5) unfolding frontier_inv_def pot' by auto
qed

lemma frontier_loop_spec:
  assumes "\<And>i. reachable (out_sets outgoing) classes i \<Longrightarrow> \<not> isl (outgoing i)"
  shows "frontier_inv outgoing classes frontier pot reached \<Longrightarrow>
    \<exists>reached' pot'. frontier_loop outgoing frontier pot reached = Inr (reached', pot') \<and>
      frontier_inv outgoing classes [] pot' reached'"
  using assms
proof (induction outgoing frontier pot reached rule: frontier_loop.induct)
  case (2 outgoing i frontier pot reached)
  have "reachable (out_sets outgoing) classes i" using "2.prems"(1) by (auto simp: frontier_inv_def)
  then obtain rs where rs: "outgoing i = Inr rs" using "2.prems"(2) [of i] by (cases "outgoing i") auto
  from frontier_inv_step [OF "2.prems"(1) rs, of "fst (visit_references rs (insert i reached) pot)"
      "snd (visit_references rs (insert i reached) pot)"] "2.IH" [OF rs] "2.prems"(2) rs show ?case by simp
qed simp

lemma frontier_inv_final:
  assumes "frontier_inv outgoing classes [] pot reached" "\<And>i. reachable (out_sets outgoing) classes i \<Longrightarrow> \<not> isl (outgoing i)"
  shows "reached = {i. reachable (out_sets outgoing) classes i}"
proof (intro equalityI subsetI CollectI)
  show "reachable (out_sets outgoing) classes i" if "i \<in> reached" for i
    using assms(1) that by (auto simp: frontier_inv_def)
next
  fix i assume "i \<in> {i. reachable (out_sets outgoing) classes i}"
  then have "reachable (out_sets outgoing) classes i" by simp
  then show "i \<in> reached"
  proof induction
    case (root i)
    then show ?case using assms(1) by (auto simp: frontier_inv_def)
  next
    case (refers i rs r j refs)
    then have "(r, j) \<in> all_pairs classes" by (auto simp: all_pairs_def)
    moreover have "(r, j) \<notin> set pot"
    proof -
      obtain ss where ss: "outgoing i = Inr ss" "rs = set ss" using refers.hyps(2) by (cases "outgoing i") auto
      then have "fst ` set pot \<inter> set ss = {}" using assms(1) refers.IH unfolding frontier_inv_def by blast
      then show ?thesis using refers.hyps(3) ss(2) by force
    qed
    ultimately show ?case using assms(1) by (auto simp: frontier_inv_def)
  qed
qed


lemma entity_outgoing_set:
  assumes "\<And>S. finite S \<Longrightarrow> set (order S) = S"
  shows "map_result set (entity_outgoing unset order info e) = outgoing_references unset info e"
proof (cases "GetOutgoingTableReferences info e")
  case (Inr rs)
  show ?thesis
  proof (cases "map_or (\<lambda>r. OutgoingConcreteTableReferences unset r e) rs")
    case css: (Inr cs)
    have "finite S" if "S \<in> set cs" for S
      using map_or_mem [OF css that] outgoing_finite by blast
    then have "set (concat (map order cs)) = \<Union> (set cs)" using assms by auto
    then show ?thesis by (simp add: entity_outgoing_def outgoing_references_def Inr css)
  qed (simp add: entity_outgoing_def outgoing_references_def Inr)
qed (simp add: entity_outgoing_def outgoing_references_def)

lemma candidates_finite:
  assumes "map_or (classify_entity unset info is_root) es = Inr classes" "Candidate refs \<in> set classes"
  shows "finite refs"
proof -
  from map_or_mem [OF assms] obtain e where "classify_entity unset info is_root e = Inr (Candidate refs)" by blast
  then obtain t rs cs where "map_or (\<lambda>r. PossibleIncomingConcreteTableReferences unset r e) rs = Inr cs" "refs = \<Union> (set cs)"
    by (auto simp: classify_entity_def Let_def split: pi_entity.splits packet_replication_engine_entry.splits
        option.splits if_splits)
  then show ?thesis by (auto dest: map_or_mem incoming_finite)
qed

lemma candidate_pairs_set:
  assumes "\<And>S. finite S \<Longrightarrow> set (order S) = S" "\<And>refs. Candidate refs \<in> set classes \<Longrightarrow> finite refs"
  shows "set (concat (map (candidate_pairs order) (List.enumerate 0 classes))) = all_pairs classes"
proof -
  have "(r, j) \<in> set (candidate_pairs order (i, c)) \<longleftrightarrow> j = i \<and> (\<exists>refs. c = Candidate refs \<and> r \<in> refs)"
    if "c \<in> set classes" for r i j c
    using assms that by (cases c) (auto simp: candidate_pairs_def)
  moreover have "p \<in> set (List.enumerate 0 classes) \<longleftrightarrow> (\<exists>i < length classes. p = (i, classes ! i))" for p
    by (auto simp: in_set_conv_nth nth_enumerate_eq)
  ultimately show ?thesis by (auto simp: all_pairs_def) (metis nth_mem)+
qed

lemma unreached_iff:
  assumes "frontier_inv outgoing classes [] pot reached" "i < length classes"
  shows "i \<in> snd ` set pot \<and> i \<notin> reached \<longleftrightarrow> (\<exists>refs. classes ! i = Candidate refs \<and> refs \<noteq> {}) \<and> i \<notin> reached"
proof -
  have sub: "set pot \<subseteq> all_pairs classes" and miss: "\<And>r. (r, i) \<in> all_pairs classes \<Longrightarrow> i \<notin> reached \<Longrightarrow> (r, i) \<in> set pot"
    using assms(1) by (auto simp: frontier_inv_def)
  have "i \<in> snd ` all_pairs classes \<longleftrightarrow> (\<exists>refs. classes ! i = Candidate refs \<and> refs \<noteq> {})"
    using assms(2) by (force simp: all_pairs_def image_iff)
  then show ?thesis using sub miss by force
qed

text \<open>
  C32. Garbage collection. When the entities can be classified and the outgoing references of all
  reachable ones are defined, the result holds, in the order of the input, exactly the table entries that
  are no roots and are either of a table nothing refers to, or can be referred to but are not reachable,
  by following references, from a root that is a table entry; the order in which hash sets are iterated does not matter.
  A multicast group that is a root is kept itself but its own references are not followed, so
  an entry that only such a root refers to is in the result, although \<open>sequencing.h\<close>
  calls it reachable.
\<close>

theorem GetEntitiesUnreachableFromRoots_exact:
  assumes "\<And>S. finite S \<Longrightarrow> set (order S) = S"
    and "map_or (classify_entity unset info is_root_entity) entities = Inr classes"
    and "\<And>i. reachable (\<lambda>i. outgoing_references unset info (entities ! i)) classes i \<Longrightarrow>
      \<not> isl (outgoing_references unset info (entities ! i))"
  shows "GetEntitiesUnreachableFromRoots unset order info is_root_entity entities =
    Inr (map (\<lambda>i. entities ! i) (filter (\<lambda>i. case classes ! i of
        NeverReferenced \<Rightarrow> True
      | Candidate refs \<Rightarrow> refs \<noteq> {} \<and> \<not> reachable (\<lambda>i. outgoing_references unset info (entities ! i)) classes i
      | _ \<Rightarrow> False) [0..<length entities]))"
proof -
  let ?out = "\<lambda>i. entity_outgoing unset order info (entities ! i)"
  let ?pot = "concat (map (candidate_pairs order) (List.enumerate 0 classes))"
  let ?roots = "filter (\<lambda>i. classes ! i = Root) [0..<length entities]"
  have len: "length classes = length entities" using map_or_length [OF assms(2)] .
  have out: "out_sets ?out = (\<lambda>i. outgoing_references unset info (entities ! i))"
    using entity_outgoing_set [OF assms(1)] by auto
  have defined: "\<not> isl (?out i)" if "reachable (out_sets ?out) classes i" for i
    using assms(3) [of i] that entity_outgoing_set [OF assms(1), of unset info "entities ! i"]
    unfolding out by (cases "?out i") (auto simp: isl_def, metis)
  have pot: "set ?pot = all_pairs classes"
    using candidate_pairs_set [OF assms(1)] candidates_finite [OF assms(2)] by blast
  have "frontier_inv ?out classes ?roots ?pot {}"
    unfolding frontier_inv_def pot using len by (auto intro: reachable.root)
  from frontier_loop_spec [OF defined this] obtain reached pot' where
    run: "frontier_loop ?out ?roots ?pot {} = Inr (reached, pot')" and inv: "frontier_inv ?out classes [] pot' reached"
    by blast
  have reached: "i \<in> reached \<longleftrightarrow> reachable (\<lambda>i. outgoing_references unset info (entities ! i)) classes i" for i
    using frontier_inv_final [OF inv defined, unfolded out] by blast
  have "(classes ! i = NeverReferenced \<or> i \<in> snd ` set pot' \<and> i \<notin> reached) \<longleftrightarrow>
    (case classes ! i of NeverReferenced \<Rightarrow> True
      | Candidate refs \<Rightarrow> refs \<noteq> {} \<and> \<not> reachable (\<lambda>i. outgoing_references unset info (entities ! i)) classes i | _ \<Rightarrow> False)"
    if "i < length entities" for i
    using unreached_iff [OF inv, of i] that len by (simp add: reached split: entity_class.split)
  then show ?thesis
    by (simp add: GetEntitiesUnreachableFromRoots_def assms(2) run Let_def) (intro arg_cong [where f = "map _"] filter_cong; simp)
qed

text \<open>A switch with one neighbor, which is a root, and two router interfaces.\<close>

definition example_reference_info :: ir_p4info where
  "example_reference_info = (example_info (example_profile 10 8 None))
     \<lparr>tables_by_id_entries := [(1, example_table\<lparr>itd_alias := ''router_interface_table'', itd_incoming_references := [example_reference]\<rparr>),
        (2, example_table\<lparr>itd_alias := ''neighbor_table'', itd_outgoing_references := [example_reference]\<rparr>)]\<rparr>"

definition example_unused_rif :: pi_entity where
  "example_unused_rif = TableEntry (default_table_entry\<lparr>pte_table_id := 1,
     pte_match := [\<lparr>fm_field_id = 1, fm_type = FmExact ''r2''\<rparr>, \<lparr>fm_field_id = 2, fm_type = FmExact ''v1''\<rparr>,
       \<lparr>fm_field_id = 3, fm_type = FmExact ''p1''\<rparr>]\<rparr>)"

definition example_entities :: "pi_entity list" where
  "example_entities = [example_rif, example_neighbor ''p1'', example_unused_rif]"

definition example_is_root :: "pi_entity \<Rightarrow> bool status_or" where
  "example_is_root e = Inr (pte_table_id (pi_table_entry_of e) = 2)"

definition example_order :: "'a set \<Rightarrow> 'a list" where
  "example_order S = (SOME xs. set xs = S)"

lemma example_order: "finite S \<Longrightarrow> set (example_order S) = S"
  unfolding example_order_def by (rule someI_ex) (rule finite_list)

lemma example_classes:
  obtains C D where "map_or (classify_entity INTERNAL example_reference_info example_is_root) example_entities =
      Inr [Candidate C, Root, Candidate D]"
    "example_concrete ''p1'' \<in> C" "example_concrete ''p1'' \<notin> D" "D \<noteq> {}"
proof -
  let ?c = "classify_entity INTERNAL example_reference_info example_is_root"
  have "case ?c example_rif of Inr (Candidate C) \<Rightarrow> example_concrete ''p1'' \<in> C | _ \<Rightarrow> False" by code_simp
  then obtain C where C: "?c example_rif = Inr (Candidate C)" "example_concrete ''p1'' \<in> C"
    by (auto split: sum.splits entity_class.splits)
  have "case ?c example_unused_rif of Inr (Candidate D) \<Rightarrow> example_concrete ''p1'' \<notin> D \<and> D \<noteq> {} | _ \<Rightarrow> False" by code_simp
  then obtain D where D: "?c example_unused_rif = Inr (Candidate D)" "example_concrete ''p1'' \<notin> D" "D \<noteq> {}"
    by (auto split: sum.splits entity_class.splits)
  have "?c (example_neighbor ''p1'') = Inr Root"
    by (simp add: classify_entity_def example_is_root_def example_neighbor_def pi_table_entry_of_def default_table_entry_def)
  with C D show thesis by (intro that) (simp_all add: example_entities_def)
qed

abbreviation example_out :: "nat \<Rightarrow> concrete_table_reference set status_or" where
  "example_out \<equiv> \<lambda>i. outgoing_references INTERNAL example_reference_info (example_entities ! i)"

lemma example_out:
  "example_out 0 = Inr {}" "example_out 1 = Inr {example_concrete ''p1''}" "example_out 2 = Inr {}"
  using example_outgoing [of "''p1''"]
  by (simp_all add: outgoing_references_def GetOutgoingTableReferences_def example_entities_def example_reference_info_def lookup_defs
      example_table_def example_rif_def example_neighbor_def example_unused_rif_def default_table_entry_def)

lemma example_reachable:
  assumes "example_concrete ''p1'' \<in> C" "example_concrete ''p1'' \<notin> D"
  shows "reachable example_out [Candidate C, Root, Candidate D] i \<longleftrightarrow> i = 0 \<or> i = 1"
proof
  assume "reachable example_out [Candidate C, Root, Candidate D] i"
  then show "i = 0 \<or> i = 1"
  proof induction
    case (refers i rs r j refs)
    then have "rs \<subseteq> {example_concrete ''p1''}" using example_out by auto
    then show ?case using refers assms(2) by (auto simp: less_Suc_eq numeral_3_eq_3)
  qed (auto simp: less_Suc_eq numeral_3_eq_3)
next
  have "reachable example_out [Candidate C, Root, Candidate D] 1" by (rule reachable.root) simp_all
  moreover from reachable.refers [OF this example_out(2), of "example_concrete ''p1''" 0 C] assms(1)
  have "reachable example_out [Candidate C, Root, Candidate D] 0" by simp
  ultimately show "i = 0 \<or> i = 1 \<Longrightarrow> reachable example_out [Candidate C, Root, Candidate D] i" by blast
qed

theorem GetEntitiesUnreachableFromRoots_exact_witness:
  "GetEntitiesUnreachableFromRoots INTERNAL example_order example_reference_info example_is_root example_entities =
     Inr [example_unused_rif]"
proof -
  obtain C D where c: "map_or (classify_entity INTERNAL example_reference_info example_is_root) example_entities =
      Inr [Candidate C, Root, Candidate D]"
    "example_concrete ''p1'' \<in> C" "example_concrete ''p1'' \<notin> D" "D \<noteq> {}" by (rule example_classes)
  have "\<not> isl (example_out i)" if "reachable example_out [Candidate C, Root, Candidate D] i" for i
    using that example_out unfolding example_reachable [OF c(2,3)] by auto
  from GetEntitiesUnreachableFromRoots_exact [OF example_order c(1) this] show ?thesis
    by (simp add: example_reachable [OF c(2,3)] c(4) upt_rec example_entities_def [THEN arg_cong, of length])
      (simp add: example_entities_def)
qed

section \<open>Referred and referrable table entries\<close>

text \<open>
  The older analysis of references by table and match field IDs. A vector whose order comes from
  a hash map is a multiset.
\<close>

record referred_table_entry =
  rte_table_id :: nat
  rte_referred_fields :: "(nat \<times> string) set"

definition GetExactOrOptionalMatchFieldValue :: "field_match \<Rightarrow> string status_or" where
  "GetExactOrOptionalMatchFieldValue m =
     (case fm_type m of FmExact v \<Rightarrow> Inr v | FmOptional v \<Rightarrow> Inr v | _ \<Rightarrow> Inl INVALID_ARGUMENT)"

text \<open>The fields that a value refers to, and their grouping by table.\<close>

definition referred_fields :: "ir_match_field_reference list \<Rightarrow> string \<Rightarrow> (nat \<times> nat \<times> string) list" where
  "referred_fields refs v = map (\<lambda>r. (imr_table_id r, imr_match_field_id r, v)) refs"

definition group_by_table :: "(nat \<times> nat \<times> string) list \<Rightarrow> referred_table_entry multiset" where
  "group_by_table rfs =
     image_mset (\<lambda>t. \<lparr>rte_table_id = t, rte_referred_fields = set (map snd (filter (\<lambda>x. fst x = t) rfs))\<rparr>) (mset (remdups (map fst rfs)))"

definition EntriesReferredToByTableEntryMatchFields ::
  "ir_p4info \<Rightarrow> pi_table_entry \<Rightarrow> referred_table_entry multiset status_or" where
  "EntriesReferredToByTableEntryMatchFields info table_entry =
     (case tables_by_id info (pte_table_id table_entry) of
        None \<Rightarrow> Inl NOT_FOUND
      | Some table \<Rightarrow>
          bind_or (map_or (\<lambda>m.
              case map_of (itd_match_fields_by_id table) (fm_field_id m) of
                None \<Rightarrow> Inl NOT_FOUND
              | Some d \<Rightarrow>
                  (case fm_type m of
                     FmExact v \<Rightarrow> Inr (referred_fields (mfd_references d) v)
                   | FmOptional v \<Rightarrow> Inr (referred_fields (mfd_references d) v)
                   | _ \<Rightarrow> Inr [])) (pte_match table_entry))
            (\<lambda>fss. Inr (group_by_table (concat fss))))"

definition EntriesReferredToByActionParams ::
  "ir_action_definition \<Rightarrow> (nat \<times> string) list \<Rightarrow> referred_table_entry multiset status_or" where
  "EntriesReferredToByActionParams ir_action_definition action_params =
     bind_or (map_or (\<lambda>(param_id, v).
         case map_of (iad_params_by_id ir_action_definition) param_id of
           None \<Rightarrow> Inl NOT_FOUND
         | Some d \<Rightarrow> Inr (referred_fields (ipd_references d) v)) action_params)
       (\<lambda>fss. Inr (group_by_table (concat fss)))"

definition referred_by_invocation :: "ir_p4info \<Rightarrow> pi_action \<Rightarrow> referred_table_entry multiset status_or" where
  "referred_by_invocation info a =
     (case actions_by_id info (pi_action_id a) of
        None \<Rightarrow> Inl NOT_FOUND
      | Some def \<Rightarrow> EntriesReferredToByActionParams def (pi_params a))"

definition EntriesReferredToByAction :: "ir_p4info \<Rightarrow> pi_table_action \<Rightarrow> referred_table_entry multiset status_or" where
  "EntriesReferredToByAction info action =
     (case action of
        PiAction a \<Rightarrow> referred_by_invocation info a
      | PiActionProfileActionSet as \<Rightarrow>
          bind_or (map_or (\<lambda>a. referred_by_invocation info (apa_action a)) as) (\<lambda>ms. Inr (sum_list ms))
      | _ \<Rightarrow> Inl UNIMPLEMENTED)"

definition EntriesReferredToByTableEntry :: "ir_p4info \<Rightarrow> pi_table_entry \<Rightarrow> referred_table_entry multiset status_or" where
  "EntriesReferredToByTableEntry info table_entry =
     bind_or (EntriesReferredToByTableEntryMatchFields info table_entry) (\<lambda>by_match_fields.
     bind_or (EntriesReferredToByAction info (pte_action table_entry)) (\<lambda>by_actions.
       Inr (by_match_fields + by_actions)))"

definition CreateReferenceRelations :: "ir_p4info \<Rightarrow> nat \<rightharpoonup> nat set" where
  "CreateReferenceRelations info =
     (\<lambda>t. if t \<in> imr_table_id ` set (references info)
          then Some (imr_match_field_id ` {r \<in> set (references info). imr_table_id r = t}) else None)"

definition CreateReferrableTableEntry :: "(nat \<rightharpoonup> nat set) \<Rightarrow> pi_table_entry \<Rightarrow> referred_table_entry status_or" where
  "CreateReferrableTableEntry reference_relations table_entry =
     (case reference_relations (pte_table_id table_entry) of
        None \<Rightarrow> Inl NOT_FOUND
      | Some match_field_ids \<Rightarrow>
          bind_or (map_or (\<lambda>m. bind_or (GetExactOrOptionalMatchFieldValue m) (\<lambda>v. Inr (fm_field_id m, v)))
              (filter (\<lambda>m. fm_field_id m \<in> match_field_ids) (pte_match table_entry)))
            (\<lambda>fs. Inr \<lparr>rte_table_id = pte_table_id table_entry, rte_referred_fields = set fs\<rparr>))"

text \<open>
  An entry that can be referred to is identified by the values of all its referenced match fields, and
  by nothing else.
\<close>

lemma CreateReferrableTableEntry_iff:
  assumes "CreateReferrableTableEntry (CreateReferenceRelations info) t = Inr e"
  shows "rte_table_id e = pte_table_id t \<and>
    ((i, v) \<in> rte_referred_fields e \<longleftrightarrow>
       (\<exists>r \<in> set (references info). imr_table_id r = pte_table_id t \<and> imr_match_field_id r = i) \<and>
       (\<exists>m \<in> set (pte_match t). fm_field_id m = i \<and> fm_type m \<in> {FmExact v, FmOptional v}))"
proof -
  let ?ids = "imr_match_field_id ` {r \<in> set (references info). imr_table_id r = pte_table_id t}"
  from assms obtain fs where
    fs: "map_or (\<lambda>m. bind_or (GetExactOrOptionalMatchFieldValue m) (\<lambda>v. Inr (fm_field_id m, v)))
      (filter (\<lambda>m. fm_field_id m \<in> ?ids) (pte_match t)) = Inr fs"
    and e: "e = \<lparr>rte_table_id = pte_table_id t, rte_referred_fields = set fs\<rparr>"
    by (auto simp: CreateReferrableTableEntry_def CreateReferenceRelations_def split: if_splits)
  have "GetExactOrOptionalMatchFieldValue m = Inr v \<longleftrightarrow> fm_type m \<in> {FmExact v, FmOptional v}" for m v
    by (auto simp: GetExactOrOptionalMatchFieldValue_def split: field_match_type.splits)
  then show ?thesis unfolding e using map_or_set [OF fs] by auto
qed

definition example_ranked_info :: ir_p4info where
  "example_ranked_info = example_reference_info
     \<lparr>dependency_rank_by_table_name_entries := [(GetMulticastGroupTableName, 1), (GetCloneSessionTableName, 2)]\<rparr>"

definition example_multicast_group :: pi_entity where
  "example_multicast_group = PacketReplicationEngineEntry (MulticastGroupEntry 1 [] [])"

definition example_clone_session :: pi_entity where
  "example_clone_session = PacketReplicationEngineEntry (CloneSessionEntry 1 [] 0 0)"

lemma example_ranks:
  "entity_rank example_ranked_info example_multicast_group = Inr 1"
  "entity_rank example_ranked_info example_clone_session = Inr 2"
  by (simp_all add: entity_rank_def find_rank_def EntityToTableName_def example_ranked_info_def lookup_defs
      example_multicast_group_def example_clone_session_def GetMulticastGroupTableName_def GetCloneSessionTableName_def)

theorem StableSortUpdates_reverse_undefined_witness:
  "StableSortUpdates example_ranked_info [\<lparr>pu_type = INSERT, pu_entity = example_multicast_group\<rparr>] True = None"
  by (rule StableSortUpdates_reverse_undefined) (simp_all add: example_ranks)

theorem StableSortEntities_by_rank_witness:
  "StableSortEntities example_ranked_info [example_multicast_group, example_clone_session] =
     Some (OK, [example_clone_session, example_multicast_group])"
proof -
  have "example_clone_session \<noteq> example_multicast_group"
    by (simp add: example_multicast_group_def example_clone_session_def)
  then show ?thesis
    using StableSortEntities_by_rank [of example_ranked_info
        "\<lambda>e. if e = example_multicast_group then 1 else 2" "[example_multicast_group, example_clone_session]"]
    by (simp add: example_ranks)
qed

end
