(* ===== verification/P4info.thy ===== *)
theory P4info
  imports Annotations References Pdpi_Translation "HOL-Library.AList"
begin

text \<open>
  The construction of the IR of a P4 program (\<open>CreateIrP4Info\<close> of \<open>p4_pdpi/ir.cc\<close>) from its P4Info, with
  the references between tables (\<open>p4_pdpi/reference_annotations.cc\<close>) and the dependency ranks of the
  tables, and the removal of unsupported entities. Shown: the result has the properties the translation
  of entities relies on, ranks are consistent with references, and construction fails exactly on
  cyclic references when the P4Info is otherwise sound.
\<close>

section \<open>P4Info\<close>

text \<open>
  The messages of \<open>p4.config.v1\<close> with the fields that the code reads. A bit width is a natural
  number. A type name is present or not; of a named type only matters whether it is translated to a
  string.
\<close>

record p4_preamble =
  pre_id :: nat
  pre_name :: string
  pre_alias :: string
  pre_annotations :: "string list"

record p4_element =
  pel_id :: nat
  pel_name :: string
  pel_annotations :: "string list"
  pel_bitwidth :: nat
  pel_type_name :: "string option"

record p4_match_field = p4_element +
  pmf_match_type :: match_type

record p4_action =
  pac_preamble :: p4_preamble
  pac_params :: "p4_element list"

datatype action_scope = TABLE_AND_DEFAULT | TABLE_ONLY | DEFAULT_ONLY

record p4_action_ref =
  par_id :: nat
  par_scope :: action_scope
  par_annotations :: "string list"

record p4_table =
  ptb_preamble :: p4_preamble
  ptb_match_fields :: "p4_match_field list"
  ptb_action_refs :: "p4_action_ref list"
  ptb_const_default_action_id :: nat
  ptb_implementation_id :: nat
  ptb_size :: int

record p4_packet_metadata =
  ppm_preamble :: p4_preamble
  ppm_metadata :: "p4_element list"

record p4_direct_resource =
  pdr_id :: nat
  pdr_direct_table_id :: nat
  pdr_unit :: resource_unit

record p4_config =
  p4_tables :: "p4_table list"
  p4_actions :: "p4_action list"
  p4_action_profiles :: "action_profile list"
  p4_direct_counters :: "p4_direct_resource list"
  p4_direct_meters :: "p4_direct_resource list"
  p4_controller_packet_metadata :: "p4_packet_metadata list"
  p4_new_types :: "string \<rightharpoonup> bool"

text \<open>
  A failure of the construction: an error status, or an exception (of \<open>std::stoi\<close>).
\<close>

datatype failure = Failed status_code | Thrown

definition checked :: "'a status_or \<Rightarrow> failure + 'a" where
  "checked m = (case m of Inl e \<Rightarrow> Inl (Failed e) | Inr x \<Rightarrow> Inr x)"

lemma checked_simps [simp]:
  "checked (Inl e) = Inl (Failed e)" "checked (Inr x) = Inr x" "checked m = Inr x \<longleftrightarrow> m = Inr x"
  "checked m = Inl (Failed e) \<longleftrightarrow> m = Inl e" "checked m \<noteq> Inl Thrown"
  by (cases m; simp add: checked_def)+

text \<open>\<open>gutil::InsertIfUnique\<close>: a second value for a key is an error.\<close>

definition InsertIfUnique :: "'k \<Rightarrow> 'v \<Rightarrow> ('k \<times> 'v) list \<Rightarrow> ('k \<times> 'v) list status_or" where
  "InsertIfUnique k v m = (if k \<in> fst ` set m then Inl INVALID_ARGUMENT else Inr (m @ [(k, v)]))"

definition find_or :: "status_code \<Rightarrow> 'a option \<Rightarrow> 'a status_or" where
  "find_or e x = (case x of None \<Rightarrow> Inl e | Some v \<Rightarrow> Inr v)"

lemma find_or_simps [simp]: "find_or e x = Inr v \<longleftrightarrow> x = Some v" "find_or e None = Inl e"
  by (simp_all add: find_or_def split: option.split)

section \<open>Annotations of elements\<close>

definition GetFormatForP4InfoElement :: "(string \<rightharpoonup> bool) \<Rightarrow> ('b) p4_element_scheme \<Rightarrow> ir_format status_or" where
  "GetFormatForP4InfoElement new_types element =
     bind_or (case pel_type_name element of
         None \<Rightarrow> Inr False
       | Some name \<Rightarrow> find_or NOT_FOUND (new_types name)) (\<lambda>is_sdn_string.
       GetFormat (pel_annotations element) (pel_bitwidth element) is_sdn_string)"

text \<open>\<open>absl::ConsumePrefix\<close> and \<open>absl::ConsumeSuffix\<close>: the rest of the text, if the affix is there.\<close>

definition ConsumePrefix :: "string \<Rightarrow> string \<Rightarrow> string option" where
  "ConsumePrefix pre s = (if take (length pre) s = pre then Some (drop (length pre) s) else None)"

definition ConsumeSuffix :: "string \<Rightarrow> string \<Rightarrow> string option" where
  "ConsumeSuffix suf s = map_option rev (ConsumePrefix (rev suf) (rev s))"

definition StripSuffix :: "string \<Rightarrow> string \<Rightarrow> string" where
  "StripSuffix suf s = (case ConsumeSuffix suf s of Some r \<Rightarrow> r | None \<Rightarrow> s)"

text \<open>
  \<open>std::stoi\<close> is called on a text of digits only; it throws on the empty text and on numbers above
  \<open>INT_MAX\<close>.
\<close>

definition stoi :: "string \<Rightarrow> nat \<Rightarrow> failure + nat" where
  "stoi number n = (if number = [] \<or> int n \<ge> 2 ^ 31 then Inl Thrown else Inr n)"

fun number_annotations :: "string \<Rightarrow> string list \<Rightarrow> nat option \<Rightarrow> failure + nat option" where
  "number_annotations annotation_name [] result = Inr result"
| "number_annotations annotation_name (annotation # annotations) result =
     (case ConsumePrefix (''@'' @ annotation_name @ ''('') annotation of
        None \<Rightarrow> number_annotations annotation_name annotations result
      | Some view \<Rightarrow>
          if result \<noteq> None then Inl (Failed INVALID_ARGUMENT)
          else let number = StripSuffix '')'' view
               in case parse_digits 10 0 number of
                    None \<Rightarrow> Inl (Failed INVALID_ARGUMENT)
                  | Some n \<Rightarrow>
                      bind_or (stoi number n) (\<lambda>n. number_annotations annotation_name annotations (Some n)))"

definition GetNumberInAnnotation :: "string list \<Rightarrow> string \<Rightarrow> failure + nat" where
  "GetNumberInAnnotation annotations annotation_name =
     bind_or (number_annotations annotation_name annotations None) (\<lambda>result. checked (find_or INVALID_ARGUMENT result))"

definition ExpensiveIsElementUnsupported :: "string list \<Rightarrow> bool" where
  "ExpensiveIsElementUnsupported annotations = list_ex (\<lambda>a. a = ''@unsupported'') annotations"

definition ParseAsRefersToAnnotation :: "string \<Rightarrow> (string \<times> string) status_or" where
  "ParseAsRefersToAnnotation body =
     bind_or (ParseAsArgList body) (\<lambda>arg_list.
       case arg_list of [table, field] \<Rightarrow> Inr (table, field) | _ \<Rightarrow> Inl INVALID_ARGUMENT)"

definition ParseAsReferencedByAnnotation :: "string \<Rightarrow> (string \<times> string) status_or" where
  "ParseAsReferencedByAnnotation body =
     bind_or (ParseAsArgList body) (\<lambda>arg_list.
       case arg_list of [table, field] \<Rightarrow> Inr (table, field) | _ \<Rightarrow> Inl INVALID_ARGUMENT)"

definition ParseAllRefersToAnnotations :: "string list \<Rightarrow> (string \<times> string) list status_or" where
  "ParseAllRefersToAnnotations annotations = GetAllParsedAnnotations ''refers_to'' annotations ParseAsRefersToAnnotation"

definition ParseAllReferencedByAnnotations :: "string list \<Rightarrow> (string \<times> string) list status_or" where
  "ParseAllReferencedByAnnotations annotations =
     GetAllParsedAnnotations ''referenced_by'' annotations ParseAsReferencedByAnnotation"

definition TableAliasToId :: "p4_config \<Rightarrow> string \<Rightarrow> nat status_or" where
  "TableAliasToId p4_info table_alias =
     find_or NOT_FOUND (map_option (\<lambda>t. pre_id (ptb_preamble t))
       (find (\<lambda>t. pre_alias (ptb_preamble t) = table_alias) (p4_tables p4_info)))"

definition MatchFieldNameToId :: "p4_config \<Rightarrow> nat \<Rightarrow> string \<Rightarrow> nat status_or" where
  "MatchFieldNameToId p4_info table_id match_field_name =
     find_or NOT_FOUND (map_option pel_id (find (\<lambda>m. pel_name m = match_field_name)
       (concat (map ptb_match_fields (filter (\<lambda>t. pre_id (ptb_preamble t) = table_id) (p4_tables p4_info))))))"

definition GetRefersToAnnotations :: "p4_config \<Rightarrow> string list \<Rightarrow> ir_match_field_reference list status_or" where
  "GetRefersToAnnotations p4info annotations =
     bind_or (ParseAllRefersToAnnotations annotations) (\<lambda>refers_to_annotations.
       map_or (\<lambda>(table, match_field).
           bind_or (TableAliasToId p4info table) (\<lambda>table_id.
           bind_or (MatchFieldNameToId p4info table_id match_field) (\<lambda>match_field_id.
             Inr \<lparr>imr_table = table, imr_match_field = match_field, imr_table_id = table_id,
                  imr_match_field_id = match_field_id\<rparr>)))
         (filter (\<lambda>(table, _). \<not> IsBuiltInTable table) refers_to_annotations))"

text \<open>The global list of references holds each of them once.\<close>

definition add_references :: "ir_match_field_reference list \<Rightarrow> ir_match_field_reference list \<Rightarrow> ir_match_field_reference list" where
  "add_references new refs = foldl (\<lambda>rs r. if r \<in> set rs then rs else rs @ [r]) refs new"

section \<open>Actions, action profiles and tables\<close>

definition empty_p4info :: ir_p4info where
  "empty_p4info =
     \<lparr>tables_by_id_entries = [], tables_by_name_entries = [], actions_by_id_entries = [], actions_by_name_entries = [],
      action_profiles_by_id_entries = [], action_profiles_by_name_entries = [],
      packet_in_metadata_by_id = [], packet_in_metadata_by_name = [],
      packet_out_metadata_by_id = [], packet_out_metadata_by_name = [],
      references = [], built_in_tables_entries = [], dependency_rank_by_table_name_entries = []\<rparr>"

definition type_name_text :: "string option \<Rightarrow> string" where
  "type_name_text n = (case n of Some t \<Rightarrow> t | None \<Rightarrow> [])"

text \<open>A parameter of an action; the state is the action under construction and the global references.\<close>

definition create_param ::
  "p4_config \<Rightarrow> p4_element \<Rightarrow> ir_action_definition \<times> ir_match_field_reference list \<Rightarrow>
   (ir_action_definition \<times> ir_match_field_reference list) status_or" where
  "create_param p4_info param = (\<lambda>(ir_action, refs).
     bind_or (GetFormatForP4InfoElement (p4_new_types p4_info) param) (\<lambda>format.
     bind_or (GetRefersToAnnotations p4_info (pel_annotations param)) (\<lambda>new_refs.
     let ir_param = \<lparr>ipd_id = pel_id param, ipd_name = pel_name param, ipd_annotations = pel_annotations param,
           ipd_bitwidth = pel_bitwidth param, ipd_type_name = type_name_text (pel_type_name param),
           ipd_format = format, ipd_references = new_refs\<rparr>
     in bind_or (InsertIfUnique (pel_id param) ir_param (iad_params_by_id ir_action)) (\<lambda>by_id.
        bind_or (InsertIfUnique (pel_name param) ir_param (iad_params_by_name ir_action)) (\<lambda>by_name.
          Inr (ir_action\<lparr>iad_params_by_id := by_id, iad_params_by_name := by_name\<rparr>, add_references new_refs refs))))))"

definition create_action :: "p4_config \<Rightarrow> p4_action \<Rightarrow> ir_p4info \<Rightarrow> ir_p4info status_or" where
  "create_action p4_info action info =
     (let pre = pac_preamble action
      in bind_or (fold_or (create_param p4_info) (pac_params action)
           (\<lparr>iad_id = pre_id pre, iad_name = pre_name pre, iad_alias = pre_alias pre,
             iad_annotations = pre_annotations pre, iad_params_by_id = [], iad_params_by_name = [],
             iad_is_unsupported = ExpensiveIsElementUnsupported (pre_annotations pre)\<rparr>, references info))
         (\<lambda>(ir_action, refs).
         bind_or (InsertIfUnique (pre_id pre) ir_action (actions_by_id_entries info)) (\<lambda>by_id.
         bind_or (InsertIfUnique (pre_alias pre) ir_action (actions_by_name_entries info)) (\<lambda>by_name.
           Inr (info\<lparr>actions_by_id_entries := by_id, actions_by_name_entries := by_name, references := refs\<rparr>)))))"

definition create_action_profile :: "action_profile \<Rightarrow> ir_p4info \<Rightarrow> ir_p4info status_or" where
  "create_action_profile action_profile info =
     bind_or (InsertIfUnique (ap_id action_profile) action_profile (action_profiles_by_id_entries info)) (\<lambda>by_id.
     bind_or (InsertIfUnique (ap_alias action_profile) action_profile (action_profiles_by_name_entries info)) (\<lambda>by_name.
       Inr (info\<lparr>action_profiles_by_id_entries := by_id, action_profiles_by_name_entries := by_name\<rparr>)))"

definition ValidateMatchFieldDefinition :: "match_type \<Rightarrow> ir_format \<Rightarrow> status_code" where
  "ValidateMatchFieldDefinition t f =
     (case t of
        LPM \<Rightarrow> if f = STRING then INVALID_ARGUMENT else OK
      | TERNARY \<Rightarrow> if f = STRING then INVALID_ARGUMENT else OK
      | EXACT \<Rightarrow> OK
      | OPTIONAL \<Rightarrow> OK
      | _ \<Rightarrow> INVALID_ARGUMENT)"

definition create_match_field ::
  "p4_config \<Rightarrow> p4_match_field \<Rightarrow> ir_table_definition \<times> ir_match_field_reference list \<Rightarrow>
   (ir_table_definition \<times> ir_match_field_reference list) status_or" where
  "create_match_field p4_info match_field = (\<lambda>(ir_table, refs).
     bind_or (GetFormatForP4InfoElement (p4_new_types p4_info) match_field) (\<lambda>format.
     return_if_error (ValidateMatchFieldDefinition (pmf_match_type match_field) format)
     (bind_or (GetRefersToAnnotations p4_info (pel_annotations match_field)) (\<lambda>new_refs.
     let ir_match = \<lparr>mfd_id = pel_id match_field, mfd_name = pel_name match_field,
           mfd_annotations = pel_annotations match_field, mfd_bitwidth = pel_bitwidth match_field,
           mfd_match_type = pmf_match_type match_field, mfd_type_name = type_name_text (pel_type_name match_field),
           mfd_format = format, mfd_is_unsupported = ExpensiveIsElementUnsupported (pel_annotations match_field),
           mfd_references = new_refs\<rparr>;
         priority = itd_requires_priority ir_table \<or> pmf_match_type match_field \<in> {OPTIONAL, RANGE, TERNARY}
     in bind_or (InsertIfUnique (pel_id match_field) ir_match (itd_match_fields_by_id ir_table)) (\<lambda>by_id.
        bind_or (InsertIfUnique (pel_name match_field) ir_match (itd_match_fields_by_name ir_table)) (\<lambda>by_name.
          Inr (ir_table\<lparr>itd_requires_priority := priority, itd_match_fields_by_id := by_id,
                 itd_match_fields_by_name := by_name\<rparr>, add_references new_refs refs)))))))"

definition create_action_ref ::
  "ir_p4info \<Rightarrow> p4_action_ref \<Rightarrow> ir_table_definition \<Rightarrow> failure + ir_table_definition" where
  "create_action_ref info action_ref ir_table =
     bind_or (checked (find_or NOT_FOUND (actions_by_id info (par_id action_ref)))) (\<lambda>action.
       if par_scope action_ref = DEFAULT_ONLY
       then Inr (ir_table\<lparr>itd_default_only_actions := itd_default_only_actions ir_table @ [action]\<rparr>)
       else bind_or (GetNumberInAnnotation (par_annotations action_ref) ''proto_id'') (\<lambda>_.
         Inr (ir_table\<lparr>itd_entry_actions := itd_entry_actions ir_table @ [action]\<rparr>)))"

definition const_default_action :: "nat \<Rightarrow> ir_table_definition \<Rightarrow> ir_action_definition option status_or" where
  "const_default_action const_default_action_id ir_table =
     (if const_default_action_id = 0 then Inr None
      else bind_or (find_or INVALID_ARGUMENT (find (\<lambda>a. iad_id a = const_default_action_id)
             (itd_default_only_actions ir_table @ itd_entry_actions ir_table))) (\<lambda>a. Inr (Some a)))"

definition role_annotation :: "string \<Rightarrow> string option" where
  "role_annotation annotation =
     Option.bind (ConsumePrefix (''@p4runtime_role('' @ [CHR 0x22]) annotation) (ConsumeSuffix ([CHR 0x22] @ '')''))"

text \<open>The last annotation wins.\<close>

definition role_of_annotations :: "string list \<Rightarrow> string" where
  "role_of_annotations annotations =
     (case List.map_filter role_annotation annotations of [] \<Rightarrow> [] | roles \<Rightarrow> last roles)"

definition create_table :: "p4_config \<Rightarrow> p4_table \<Rightarrow> ir_p4info \<Rightarrow> failure + ir_p4info" where
  "create_table p4_info table info =
     (let pre = ptb_preamble table;
          is_wcmp = (ptb_implementation_id table \<noteq> 0);
          has_oneshot = list_ex (\<lambda>a. a = ''@oneshot'') (pre_annotations pre)
      in bind_or (checked (fold_or (create_match_field p4_info) (ptb_match_fields table)
           (\<lparr>itd_alias = pre_alias pre, itd_id = pre_id pre, itd_annotations = pre_annotations pre,
             itd_match_fields_by_id = [], itd_match_fields_by_name = [], itd_entry_actions = [],
             itd_default_only_actions = [], itd_const_default_action = None, itd_size = ptb_size table,
             itd_uses_oneshot = has_oneshot,
             itd_action_profile_id = (if is_wcmp then Some (ptb_implementation_id table) else None),
             itd_requires_priority = False, itd_has_meter = False, itd_meter_unit = UNIT_UNSPECIFIED,
             itd_has_counter = False, itd_counter_unit = UNIT_UNSPECIFIED,
             itd_role = role_of_annotations (pre_annotations pre),
             itd_is_unsupported = ExpensiveIsElementUnsupported (pre_annotations pre),
             itd_outgoing_references = [], itd_incoming_references = []\<rparr>, references info))) (\<lambda>(ir_table, refs).
         if is_wcmp \<noteq> has_oneshot then Inl (Failed UNIMPLEMENTED)
         else bind_or (fold_or (create_action_ref info) (ptb_action_refs table) ir_table) (\<lambda>ir_table.
           checked (bind_or (const_default_action (ptb_const_default_action_id table) ir_table) (\<lambda>def.
             let ir_table = ir_table\<lparr>itd_const_default_action := def\<rparr>
             in bind_or (InsertIfUnique (pre_id pre) ir_table (tables_by_id_entries info)) (\<lambda>by_id.
                bind_or (InsertIfUnique (pre_alias pre) ir_table (tables_by_name_entries info)) (\<lambda>by_name.
                  Inr (info\<lparr>tables_by_id_entries := by_id, tables_by_name_entries := by_name,
                        references := refs\<rparr>))))))))"

section \<open>Packet metadata, counters and meters\<close>

definition create_metadata ::
  "p4_config \<Rightarrow> p4_element \<Rightarrow>
   (nat \<times> ir_packet_io_metadata_definition) list \<times> (string \<times> ir_packet_io_metadata_definition) list \<Rightarrow>
   ((nat \<times> ir_packet_io_metadata_definition) list \<times> (string \<times> ir_packet_io_metadata_definition) list) status_or" where
  "create_metadata p4_info metadata = (\<lambda>(by_id, by_name).
     bind_or (GetFormatForP4InfoElement (p4_new_types p4_info) metadata) (\<lambda>format.
     let ir_metadata = \<lparr>imd_id = pel_id metadata, imd_name = pel_name metadata, imd_bitwidth = pel_bitwidth metadata,
           imd_format = format, imd_is_padding = list_ex (\<lambda>a. a = ''@padding'') (pel_annotations metadata)\<rparr>
     in bind_or (InsertIfUnique (pel_id metadata) ir_metadata by_id) (\<lambda>by_id.
        bind_or (InsertIfUnique (pel_name metadata) ir_metadata by_name) (\<lambda>by_name. Inr (by_id, by_name)))))"

definition ProcessPacketIoMetadataDefinition ::
  "p4_config \<Rightarrow> p4_packet_metadata \<Rightarrow>
   (nat \<times> ir_packet_io_metadata_definition) list \<times> (string \<times> ir_packet_io_metadata_definition) list \<Rightarrow>
   ((nat \<times> ir_packet_io_metadata_definition) list \<times> (string \<times> ir_packet_io_metadata_definition) list) status_or" where
  "ProcessPacketIoMetadataDefinition p4_info data = (\<lambda>(by_id, by_name).
     if by_id \<noteq> [] then Inl INVALID_ARGUMENT
     else fold_or (create_metadata p4_info) (ppm_metadata data) (by_id, by_name))"

definition create_packet_metadata :: "p4_config \<Rightarrow> p4_packet_metadata \<Rightarrow> ir_p4info \<Rightarrow> ir_p4info status_or" where
  "create_packet_metadata p4_info metadata info =
     (if pre_name (ppm_preamble metadata) = ''packet_out''
      then bind_or (ProcessPacketIoMetadataDefinition p4_info metadata
             (packet_out_metadata_by_id info, packet_out_metadata_by_name info)) (\<lambda>(by_id, by_name).
             Inr (info\<lparr>packet_out_metadata_by_id := by_id, packet_out_metadata_by_name := by_name\<rparr>))
      else if pre_name (ppm_preamble metadata) = ''packet_in''
      then bind_or (ProcessPacketIoMetadataDefinition p4_info metadata
             (packet_in_metadata_by_id info, packet_in_metadata_by_name info)) (\<lambda>(by_id, by_name).
             Inr (info\<lparr>packet_in_metadata_by_id := by_id, packet_in_metadata_by_name := by_name\<rparr>))
      else Inl INVALID_ARGUMENT)"

text \<open>
  A table is changed under its ID and under its name. Both are keys, because the two maps are filled
  together.
\<close>

definition update_table ::
  "nat \<Rightarrow> string \<Rightarrow> (ir_table_definition \<Rightarrow> ir_table_definition) \<Rightarrow> ir_p4info \<Rightarrow> ir_p4info" where
  "update_table table_id name f info =
     info\<lparr>tables_by_id_entries := AList.map_entry table_id f (tables_by_id_entries info),
          tables_by_name_entries := AList.map_entry name f (tables_by_name_entries info)\<rparr>"

definition create_counter :: "p4_direct_resource \<Rightarrow> ir_p4info \<Rightarrow> ir_p4info status_or" where
  "create_counter counter info =
     bind_or (find_or NOT_FOUND (tables_by_id info (pdr_direct_table_id counter))) (\<lambda>table.
       Inr (update_table (pdr_direct_table_id counter) (itd_alias table)
         (\<lambda>t. t\<lparr>itd_has_counter := True, itd_counter_unit := pdr_unit counter\<rparr>) info))"

definition create_meter :: "p4_direct_resource \<Rightarrow> ir_p4info \<Rightarrow> ir_p4info status_or" where
  "create_meter meter info =
     bind_or (find_or NOT_FOUND (tables_by_id info (pdr_direct_table_id meter))) (\<lambda>table.
       Inr (update_table (pdr_direct_table_id meter) (itd_alias table)
         (\<lambda>t. t\<lparr>itd_has_meter := True, itd_meter_unit := pdr_unit meter\<rparr>) info))"

section \<open>Validation\<close>

definition validate_reference :: "ir_p4info \<Rightarrow> ir_match_field_reference \<Rightarrow> status_code" where
  "validate_reference info reference =
     (case tables_by_name info (imr_table reference) of
        None \<Rightarrow> NOT_FOUND
      | Some ir_table \<Rightarrow>
          (case map_of (itd_match_fields_by_name ir_table) (imr_match_field reference) of
             None \<Rightarrow> NOT_FOUND
           | Some d \<Rightarrow> if mfd_match_type d \<notin> {EXACT, OPTIONAL} then INVALID_ARGUMENT else OK))"

definition validate_implementation :: "ir_p4info \<Rightarrow> nat \<times> ir_table_definition \<Rightarrow> status_code" where
  "validate_implementation info = (\<lambda>(table_id, table).
     case itd_action_profile_id table of
       None \<Rightarrow> OK
     | Some profile_id \<Rightarrow>
         (case action_profiles_by_id info profile_id of
            None \<Rightarrow> NOT_FOUND
          | Some profile \<Rightarrow> if table_id \<notin> set (ap_table_ids profile) then INVALID_ARGUMENT else OK))"

definition validate_table_of_profile :: "ir_p4info \<Rightarrow> nat \<Rightarrow> nat \<Rightarrow> status_code" where
  "validate_table_of_profile info action_profile_id table_id =
     (case tables_by_id info table_id of
        None \<Rightarrow> NOT_FOUND
      | Some table \<Rightarrow> if itd_action_profile_id table \<noteq> Some action_profile_id then INVALID_ARGUMENT else OK)"

text \<open>The first error among the results of a loop of checks.\<close>

definition check_all :: "('a \<Rightarrow> status_code) \<Rightarrow> 'a list \<Rightarrow> status_code" where
  "check_all check xs = (case find (\<lambda>x. check x \<noteq> OK) xs of None \<Rightarrow> OK | Some x \<Rightarrow> check x)"

definition validate_info :: "ir_p4info \<Rightarrow> status_code" where
  "validate_info info =
     (let refs = check_all (validate_reference info) (references info);
          implementations = check_all (validate_implementation info) (tables_by_id_entries info)
      in if refs \<noteq> OK then refs
         else if implementations \<noteq> OK then implementations
         else check_all (\<lambda>(profile_id, table_id). validate_table_of_profile info profile_id table_id)
           (concat (map (\<lambda>(profile_id, profile). map (Pair profile_id) (ap_table_ids profile))
              (action_profiles_by_id_entries info))))"

section \<open>References between tables\<close>

definition CreateIrP4Table :: "ir_p4info \<Rightarrow> string \<Rightarrow> ir_table status_or" where
  "CreateIrP4Table info table_name =
     bind_or (find_or NOT_FOUND (tables_by_name info table_name)) (\<lambda>table. Inr (P4Table table_name (itd_id table)))"

definition CreateIrBuiltInTable :: "string \<Rightarrow> ir_table status_or" where
  "CreateIrBuiltInTable table_name = bind_or (StringToIrBuiltInTable table_name) (\<lambda>table. Inr (BuiltInTable table))"

definition CreateIrP4MatchField :: "ir_p4info \<Rightarrow> string \<Rightarrow> string \<Rightarrow> ir_match_field status_or" where
  "CreateIrP4MatchField info table_name field_name =
     bind_or (find_or NOT_FOUND (tables_by_name info table_name)) (\<lambda>table.
     bind_or (find_or NOT_FOUND (map_of (itd_match_fields_by_name table) field_name)) (\<lambda>match_field.
       case mfd_match_type match_field of
         EXACT \<Rightarrow> Inr (P4MatchField field_name (mfd_id match_field) False)
       | OPTIONAL \<Rightarrow> Inr (P4MatchField field_name (mfd_id match_field) True)
       | _ \<Rightarrow> Inl UNIMPLEMENTED))"

definition CreateIrBuiltInMatchField :: "string \<Rightarrow> string \<Rightarrow> ir_match_field status_or" where
  "CreateIrBuiltInMatchField table_name field_name =
     bind_or (StringToIrBuiltInTable table_name) (\<lambda>table.
     bind_or (StringToIrBuiltInMatchField field_name) (\<lambda>field.
       if BuiltInTableHasMatchField table field then Inr (BuiltInMatchField field) else Inl INVALID_ARGUMENT))"

definition CreateIrP4ActionField :: "ir_p4info \<Rightarrow> string \<Rightarrow> string \<Rightarrow> ir_action_field status_or" where
  "CreateIrP4ActionField info action_name param_name =
     bind_or (find_or NOT_FOUND (actions_by_name info action_name)) (\<lambda>action.
     bind_or (find_or NOT_FOUND (map_of (iad_params_by_name action) param_name)) (\<lambda>param.
       Inr (P4ActionField action_name (iad_id action) param_name (ipd_id param))))"

definition CreateIrBuiltInActionField :: "string \<Rightarrow> string \<Rightarrow> ir_action_field status_or" where
  "CreateIrBuiltInActionField action_name param_name =
     bind_or (StringToIrBuiltInAction action_name) (\<lambda>action.
     bind_or (StringToIrBuiltInParameter param_name) (\<lambda>parameter.
       if BuiltInActionHasParameter action parameter then Inr (BuiltInActionField action parameter)
       else Inl INVALID_ARGUMENT))"

definition CreateIrTable :: "ir_p4info \<Rightarrow> string \<Rightarrow> ir_table status_or" where
  "CreateIrTable info table_name =
     (if IsBuiltInTable table_name then CreateIrBuiltInTable table_name else CreateIrP4Table info table_name)"

definition CreateIrMatchField :: "ir_p4info \<Rightarrow> string \<Rightarrow> string \<Rightarrow> ir_match_field status_or" where
  "CreateIrMatchField info table_name field_name =
     (if IsBuiltInTable table_name then CreateIrBuiltInMatchField table_name field_name
      else CreateIrP4MatchField info table_name field_name)"

definition CreateIrActionField :: "ir_p4info \<Rightarrow> string \<Rightarrow> string \<Rightarrow> ir_action_field status_or" where
  "CreateIrActionField info action_name param_name =
     (if IsBuiltInAction action_name then CreateIrBuiltInActionField action_name param_name
      else CreateIrP4ActionField info action_name param_name)"

definition CreateIrFieldFromRefersTo :: "ir_p4info \<Rightarrow> string \<times> string \<Rightarrow> ir_field status_or" where
  "CreateIrFieldFromRefersTo info = (\<lambda>(table, field).
     if actions_by_name info table \<noteq> None \<or>
        (IsBuiltInTable table \<and> \<not> isl (StringToIrBuiltInParameter field))
     then Inl UNIMPLEMENTED
     else bind_or (CreateIrMatchField info table field) (\<lambda>m. Inr (IrMatchField m)))"

definition CreateIrFieldFromReferencedBy :: "ir_p4info \<Rightarrow> string \<times> string \<Rightarrow> ir_field status_or" where
  "CreateIrFieldFromReferencedBy info = (\<lambda>(table, field).
     case StringToIrBuiltInTable table of
       Inl _ \<Rightarrow> Inl UNIMPLEMENTED
     | Inr built_in_table \<Rightarrow>
         if \<not> isl (StringToIrBuiltInMatchField field)
         then bind_or (CreateIrMatchField info table field) (\<lambda>m. Inr (IrMatchField m))
         else (case StringToIrBuiltInParameter field of
             Inl _ \<Rightarrow> Inl INVALID_ARGUMENT
           | Inr param \<Rightarrow>
               bind_or (GetBuiltInActionFromBuiltInParameter param) (\<lambda>action.
               bind_or (IrBuiltInActionToString action) (\<lambda>action_name.
                 if \<not> BuiltInTableHasAction built_in_table action then Inl INVALID_ARGUMENT
                 else bind_or (CreateIrActionField info action_name field) (\<lambda>a. Inr (IrActionField a))))))"

definition unless_optional :: "ir_field \<Rightarrow> 'a \<Rightarrow> 'a status_or" where
  "unless_optional destination r = (if FieldIsOptional destination then Inl UNIMPLEMENTED else Inr r)"

text \<open>
  The references of the parameters of an action, each with the action and the destination table;
  an action has an entry if and only if it has a reference.
\<close>

definition param_references ::
  "ir_p4info \<Rightarrow> string \<Rightarrow> string \<times> ir_param_definition \<Rightarrow> (string \<times> string \<times> field_reference) list status_or" where
  "param_references info action_name = (\<lambda>(param_name, param_def).
     bind_or (ParseAllRefersToAnnotations (ipd_annotations param_def)) (\<lambda>refers_to.
     bind_or (map_or (\<lambda>annotation.
         bind_or (CreateIrFieldFromRefersTo info annotation) (\<lambda>destination.
         bind_or (CreateIrActionField info action_name param_name) (\<lambda>source.
           unless_optional destination
             (action_name, fst annotation, \<lparr>fr_source = IrActionField source, fr_destination = destination\<rparr>)))) refers_to) (\<lambda>rs.
     bind_or (ParseAllReferencedByAnnotations (ipd_annotations param_def)) (\<lambda>referenced_by.
       if referenced_by \<noteq> [] then Inl UNIMPLEMENTED else Inr rs))))"

definition action_references :: "ir_p4info \<Rightarrow> (string \<times> string \<times> field_reference) list status_or" where
  "action_references info =
     bind_or (map_or (\<lambda>(action_name, action_def).
         map_or (param_references info action_name) (sort_key fst (iad_params_by_name action_def)))
       (actions_by_name_entries info)) (\<lambda>rss. Inr (concat (concat rss)))"

text \<open>The references of a match field, each with its source and destination table.\<close>

definition match_field_references ::
  "ir_p4info \<Rightarrow> string \<Rightarrow> string \<times> ir_match_field_definition \<Rightarrow> (string \<times> string \<times> field_reference) list status_or" where
  "match_field_references info table_name = (\<lambda>(match_field_name, match_field_def).
     bind_or (ParseAllRefersToAnnotations (mfd_annotations match_field_def)) (\<lambda>refers_to.
     bind_or (map_or (\<lambda>annotation.
         bind_or (CreateIrFieldFromRefersTo info annotation) (\<lambda>destination.
         bind_or (CreateIrMatchField info table_name match_field_name) (\<lambda>source.
           unless_optional destination
             (table_name, fst annotation, \<lparr>fr_source = IrMatchField source, fr_destination = destination\<rparr>)))) refers_to) (\<lambda>rs.
     bind_or (ParseAllReferencedByAnnotations (mfd_annotations match_field_def)) (\<lambda>referenced_by.
     bind_or (map_or (\<lambda>annotation.
         bind_or (CreateIrFieldFromReferencedBy info annotation) (\<lambda>source.
         bind_or (CreateIrMatchField info table_name match_field_name) (\<lambda>destination.
           unless_optional (IrMatchField destination)
             (fst annotation, table_name, \<lparr>fr_source = source, fr_destination = IrMatchField destination\<rparr>)))) referenced_by) (\<lambda>rs'.
       Inr (rs @ rs'))))))"

text \<open>A table has the references of its match fields and inherits those of its actions.\<close>

definition table_references ::
  "ir_p4info \<Rightarrow> (string \<times> string \<times> field_reference) list \<Rightarrow> string \<times> ir_table_definition \<Rightarrow>
   (string \<times> string \<times> field_reference) list status_or" where
  "table_references info by_action = (\<lambda>(table_name, table_def).
     bind_or (map_or (match_field_references info table_name) (sort_key fst (itd_match_fields_by_name table_def))) (\<lambda>rss.
       let inherited = concat (map (\<lambda>a. map (\<lambda>(_, dst_table, r). (table_name, dst_table, r))
             (filter (\<lambda>(action_name, _, _). action_name = iad_alias a) by_action)) (itd_entry_actions table_def))
       in if list_ex (\<lambda>a. iad_alias a \<in> fst ` set by_action) (itd_default_only_actions table_def)
          then Inl UNIMPLEMENTED
          else Inr (concat rss @ inherited)))"

text \<open>
  All references between a pair of tables, the pairs in ascending order of source and destination.
\<close>

definition table_pairs :: "(string \<times> string \<times> field_reference) list \<Rightarrow> (string \<times> string) list" where
  "table_pairs rs =
     concat (map (\<lambda>src. map (Pair src) (sort (remdups (map (fst \<circ> snd) (filter (\<lambda>r. fst r = src) rs)))))
       (sort (remdups (map fst rs))))"

definition assemble_reference ::
  "ir_p4info \<Rightarrow> (string \<times> string \<times> field_reference) list \<Rightarrow> string \<times> string \<Rightarrow> ir_table_reference status_or" where
  "assemble_reference info rs = (\<lambda>(src_table, dst_table).
     bind_or (CreateIrTable info src_table) (\<lambda>source.
     bind_or (CreateIrTable info dst_table) (\<lambda>destination.
       Inr \<lparr>itr_source_table = source, itr_destination_table = destination,
            itr_field_references = map (snd \<circ> snd) (filter (\<lambda>r. fst r = src_table \<and> fst (snd r) = dst_table) rs)\<rparr>)))"

definition ParseIrTableReferences :: "ir_p4info \<Rightarrow> ir_table_reference list status_or" where
  "ParseIrTableReferences info =
     bind_or (action_references info) (\<lambda>by_action.
     bind_or (map_or (table_references info by_action) (sort_key fst (tables_by_name_entries info))) (\<lambda>rss.
       map_or (assemble_reference info (concat rss)) (table_pairs (concat rss))))"

definition update_built_in_table ::
  "string \<Rightarrow> (ir_built_in_table_definition \<Rightarrow> ir_built_in_table_definition) \<Rightarrow> ir_p4info \<Rightarrow> ir_p4info" where
  "update_built_in_table name f info =
     info\<lparr>built_in_tables_entries := AList.map_entry name f (built_in_tables_entries info)\<rparr>"

definition InsertOutgoingReferenceInfo :: "ir_table_reference \<Rightarrow> ir_p4info \<Rightarrow> ir_p4info status_or" where
  "InsertOutgoingReferenceInfo reference info =
     (case itr_source_table reference of
        P4Table table_name table_id \<Rightarrow>
          if tables_by_name info table_name = None \<or> tables_by_id info table_id = None then Inl INTERNAL
          else Inr (update_table table_id table_name
            (\<lambda>t. t\<lparr>itd_outgoing_references := itd_outgoing_references t @ [reference]\<rparr>) info)
      | BuiltInTable table \<Rightarrow>
          bind_or (IrBuiltInTableToString table) (\<lambda>built_in_table_name.
            Inr (update_built_in_table built_in_table_name
              (\<lambda>t. t\<lparr>ibt_outgoing_references := ibt_outgoing_references t @ [reference]\<rparr>) info))
      | IrTableNotSet \<Rightarrow> Inl INTERNAL)"

definition InsertIncomingReferenceInfo :: "ir_table_reference \<Rightarrow> ir_p4info \<Rightarrow> ir_p4info status_or" where
  "InsertIncomingReferenceInfo reference info =
     (case itr_destination_table reference of
        P4Table table_name table_id \<Rightarrow>
          if tables_by_name info table_name = None \<or> tables_by_id info table_id = None then Inl INTERNAL
          else Inr (update_table table_id table_name
            (\<lambda>t. t\<lparr>itd_incoming_references := itd_incoming_references t @ [reference]\<rparr>) info)
      | BuiltInTable table \<Rightarrow>
          bind_or (IrBuiltInTableToString table) (\<lambda>built_in_table_name.
            Inr (update_built_in_table built_in_table_name
              (\<lambda>t. t\<lparr>ibt_incoming_references := ibt_incoming_references t @ [reference]\<rparr>) info))
      | IrTableNotSet \<Rightarrow> Inl INTERNAL)"

section \<open>Dependency ranks\<close>

definition rank_references :: "ir_p4info \<Rightarrow> string \<Rightarrow> ir_table_reference list status_or" where
  "rank_references info table_name =
     (if IsBuiltInTable table_name
      then bind_or (find_or NOT_FOUND (built_in_tables info table_name)) (\<lambda>t. Inr (ibt_outgoing_references t))
      else bind_or (find_or NOT_FOUND (tables_by_name info table_name)) (\<lambda>t. Inr (itd_outgoing_references t)))"

type_synonym ranks = "(string \<times> int) list"

text \<open>
  The recursion follows the references; a table that is being processed has the temporary rank 1. The
  first argument bounds the depth of the recursion; \<open>None\<close> says that it was too small.
\<close>

fun SetAndReturnTableDependencyRank :: "nat \<Rightarrow> ir_p4info \<Rightarrow> string \<Rightarrow> ranks \<Rightarrow> (int \<times> ranks) status_or option"
and rank_children :: "nat \<Rightarrow> ir_p4info \<Rightarrow> ir_table_reference list \<Rightarrow> int \<times> ranks \<Rightarrow> (int \<times> ranks) status_or option" where
  "SetAndReturnTableDependencyRank 0 info table_name ranks = None"
| "SetAndReturnTableDependencyRank (Suc n) info table_name ranks =
     (case map_of ranks table_name of
        Some rank \<Rightarrow> Some (if rank \<le> 0 then Inr (rank, ranks) else Inl INVALID_ARGUMENT)
      | None \<Rightarrow>
          (case rank_references info table_name of
             Inl e \<Rightarrow> Some (Inl e)
           | Inr outgoing \<Rightarrow>
               map_option (\<lambda>r. bind_or r (\<lambda>(rank, ranks). Inr (rank, AList.update table_name rank ranks)))
                 (rank_children n info outgoing (0, AList.update table_name 1 ranks))))"
| "rank_children n info [] (rank, ranks) = Some (Inr (rank, ranks))"
| "rank_children n info (reference # rs) (rank, ranks) =
     (case GetNameOfTable (itr_destination_table reference) of
        Inl e \<Rightarrow> Some (Inl e)
      | Inr referenced_table_name \<Rightarrow>
          (case SetAndReturnTableDependencyRank n info referenced_table_name ranks of
             None \<Rightarrow> None
           | Some (Inl e) \<Rightarrow> Some (Inl e)
           | Some (Inr (child_rank, ranks)) \<Rightarrow> rank_children n info rs (min rank (child_rank - 1), ranks)))"

text \<open>Each nested call processes one more table, so the number of tables bounds the depth.\<close>

definition known_tables :: "ir_p4info \<Rightarrow> string list" where
  "known_tables info = map fst (tables_by_name_entries info) @ map fst (built_in_tables_entries info)"

fun rank_tables :: "ir_p4info \<Rightarrow> string list \<Rightarrow> ranks \<Rightarrow> ranks status_or option" where
  "rank_tables info [] ranks = Some (Inr ranks)"
| "rank_tables info (table_name # names) ranks =
     (case SetAndReturnTableDependencyRank (Suc (length (known_tables info))) info table_name ranks of
        None \<Rightarrow> None
      | Some (Inl e) \<Rightarrow> Some (Inl e)
      | Some (Inr (_, ranks)) \<Rightarrow> rank_tables info names ranks)"

definition ConstructDependencyRankByTableName :: "ir_p4info \<Rightarrow> ir_p4info status_or option" where
  "ConstructDependencyRankByTableName info =
     map_option (\<lambda>r. bind_or r (\<lambda>ranks. Inr (info\<lparr>dependency_rank_by_table_name_entries := ranks\<rparr>)))
       (rank_tables info (known_tables info) (dependency_rank_by_table_name_entries info))"

section \<open>\<open>CreateIrP4Info\<close>\<close>

definition create_built_in_tables :: "ir_p4info \<Rightarrow> ir_p4info status_or" where
  "create_built_in_tables info =
     bind_or (map_or (\<lambda>t. bind_or (IrBuiltInTableToString t) (\<lambda>name.
         Inr (name, \<lparr>ibt_built_in_table = t, ibt_outgoing_references = [], ibt_incoming_references = []\<rparr>)))
       [BUILT_IN_TABLE_MULTICAST_GROUP_TABLE, BUILT_IN_TABLE_CLONE_SESSION_TABLE]) (\<lambda>tables.
       Inr (info\<lparr>built_in_tables_entries := tables\<rparr>))"

definition add_reference_info :: "ir_table_reference \<Rightarrow> ir_p4info \<Rightarrow> ir_p4info status_or" where
  "add_reference_info reference info =
     bind_or (InsertOutgoingReferenceInfo reference info) (InsertIncomingReferenceInfo reference)"

text \<open>Everything but the dependency ranks.\<close>

definition create_definitions :: "p4_config \<Rightarrow> failure + ir_p4info" where
  "create_definitions p4_info =
     bind_or (checked (fold_or (create_action p4_info) (p4_actions p4_info) empty_p4info)) (\<lambda>info.
     bind_or (checked (fold_or create_action_profile (p4_action_profiles p4_info) info)) (\<lambda>info.
     bind_or (fold_or (create_table p4_info) (p4_tables p4_info) info) (\<lambda>info.
     bind_or (checked (fold_or (create_packet_metadata p4_info) (p4_controller_packet_metadata p4_info) info)) (\<lambda>info.
     bind_or (checked (fold_or create_counter (p4_direct_counters p4_info) info)) (\<lambda>info.
     bind_or (checked (fold_or create_meter (p4_direct_meters p4_info) info)) (\<lambda>info.
     checked (return_if_error (validate_info info)
       (bind_or (create_built_in_tables info) (\<lambda>info.
        bind_or (ParseIrTableReferences info) (\<lambda>table_refs.
          fold_or add_reference_info table_refs info))))))))))"

definition CreateIrP4Info :: "p4_config \<Rightarrow> (failure + ir_p4info) option" where
  "CreateIrP4Info p4_info =
     (case create_definitions p4_info of
        Inl e \<Rightarrow> Some (Inl e)
      | Inr info \<Rightarrow> map_option checked (ConstructDependencyRankByTableName info))"

section \<open>Removal of unsupported entities\<close>

definition RemoveUnsupportedTables :: "ir_p4info \<Rightarrow> ir_p4info" where
  "RemoveUnsupportedTables p4_info =
     p4_info\<lparr>tables_by_id_entries := filter (\<lambda>(_, t). \<not> itd_is_unsupported t) (tables_by_id_entries p4_info),
             tables_by_name_entries := filter (\<lambda>(_, t). \<not> itd_is_unsupported t) (tables_by_name_entries p4_info)\<rparr>"

definition map_tables :: "(ir_table_definition \<Rightarrow> ir_table_definition) \<Rightarrow> ir_p4info \<Rightarrow> ir_p4info" where
  "map_tables f p4_info =
     p4_info\<lparr>tables_by_id_entries := map (\<lambda>(k, t). (k, f t)) (tables_by_id_entries p4_info),
             tables_by_name_entries := map (\<lambda>(k, t). (k, f t)) (tables_by_name_entries p4_info)\<rparr>"

definition remove_actions_of_table :: "ir_table_definition \<Rightarrow> ir_table_definition" where
  "remove_actions_of_table table =
     table\<lparr>itd_entry_actions := filter (\<lambda>a. \<not> iad_is_unsupported a) (itd_entry_actions table),
           itd_default_only_actions := filter (\<lambda>a. \<not> iad_is_unsupported a) (itd_default_only_actions table)\<rparr>"

definition RemoveUnsupportedActions :: "ir_p4info \<Rightarrow> ir_p4info" where
  "RemoveUnsupportedActions p4_info =
     map_tables remove_actions_of_table
       (p4_info\<lparr>actions_by_id_entries := filter (\<lambda>(_, a). \<not> iad_is_unsupported a) (actions_by_id_entries p4_info),
                actions_by_name_entries := filter (\<lambda>(_, a). \<not> iad_is_unsupported a) (actions_by_name_entries p4_info)\<rparr>)"

definition remove_match_fields_of_table :: "ir_table_definition \<Rightarrow> ir_table_definition" where
  "remove_match_fields_of_table table =
     table\<lparr>itd_match_fields_by_id := filter (\<lambda>(_, m). \<not> mfd_is_unsupported m) (itd_match_fields_by_id table),
           itd_match_fields_by_name := filter (\<lambda>(_, m). \<not> mfd_is_unsupported m) (itd_match_fields_by_name table)\<rparr>"

definition RemoveUnsupportedMatchFields :: "ir_p4info \<Rightarrow> ir_p4info" where
  "RemoveUnsupportedMatchFields p4_info = map_tables remove_match_fields_of_table p4_info"

definition table_is_present :: "ir_p4info \<Rightarrow> ir_table \<Rightarrow> bool" where
  "table_is_present p4_info table =
     (case table of P4Table _ table_id \<Rightarrow> table_id \<in> fst ` set (tables_by_id_entries p4_info) | _ \<Rightarrow> True)"

definition action_field_is_present :: "ir_p4info \<Rightarrow> ir_action_field \<Rightarrow> bool" where
  "action_field_is_present p4_info action_field =
     (case action_field of
        P4ActionField _ action_id _ _ \<Rightarrow> action_id \<in> fst ` set (actions_by_id_entries p4_info)
      | _ \<Rightarrow> True)"

definition IsDanglingReference :: "ir_p4info \<Rightarrow> ir_table_reference \<Rightarrow> bool" where
  "IsDanglingReference p4_info reference \<longleftrightarrow>
     \<not> table_is_present p4_info (itr_source_table reference) \<or>
     list_ex (\<lambda>r. case fr_source r of IrActionField a \<Rightarrow> \<not> action_field_is_present p4_info a | _ \<Rightarrow> False)
       (itr_field_references reference)"

definition remove_dangling :: "ir_p4info \<Rightarrow> ir_table_reference list \<Rightarrow> ir_table_reference list" where
  "remove_dangling p4_info rs = filter (\<lambda>r. \<not> IsDanglingReference p4_info r) rs"

definition RemoveDanglingReferences :: "ir_p4info \<Rightarrow> ir_p4info" where
  "RemoveDanglingReferences p4_info =
     (let p4_info' = map_tables (\<lambda>t. t\<lparr>itd_incoming_references := remove_dangling p4_info (itd_incoming_references t),
              itd_outgoing_references := remove_dangling p4_info (itd_outgoing_references t)\<rparr>) p4_info
      in p4_info'\<lparr>built_in_tables_entries := map (\<lambda>(k, t).
             (k, t\<lparr>ibt_incoming_references := remove_dangling p4_info (ibt_incoming_references t),
                   ibt_outgoing_references := remove_dangling p4_info (ibt_outgoing_references t)\<rparr>))
             (built_in_tables_entries p4_info),
           dependency_rank_by_table_name_entries :=
             filter (\<lambda>(name, _). IsBuiltInTable name \<or> name \<in> fst ` set (tables_by_name_entries p4_info))
               (dependency_rank_by_table_name_entries p4_info)\<rparr>)"

definition RemoveUnsupportedEntities :: "ir_p4info \<Rightarrow> ir_p4info" where
  "RemoveUnsupportedEntities p4_info =
     RemoveDanglingReferences (RemoveUnsupportedMatchFields (RemoveUnsupportedActions (RemoveUnsupportedTables p4_info)))"

section \<open>Ranks are consistent with references\<close>

text \<open>The tables that a table refers to.\<close>

definition refers_to_table :: "ir_p4info \<Rightarrow> string \<Rightarrow> string \<Rightarrow> bool" where
  "refers_to_table info n d \<longleftrightarrow>
     (\<exists>rs. rank_references info n = Inr rs \<and> Inr d \<in> (\<lambda>r. GetNameOfTable (itr_destination_table r)) ` set rs)"

definition destinations :: "ir_table_reference list \<Rightarrow> string set" where
  "destinations rs = {d. Inr d \<in> (\<lambda>r. GetNameOfTable (itr_destination_table r)) ` set rs}"

lemma destinations_simps [simp]:
  "destinations [] = {}"
  "destinations (r # rs) = (case GetNameOfTable (itr_destination_table r) of Inl _ \<Rightarrow> {} | Inr d \<Rightarrow> {d}) \<union> destinations rs"
  by (auto simp: destinations_def split: sum.split)

text \<open>
  A rank that is not the temporary one is smaller than the ranks of all tables referred to, and the
  greatest such number up to 0.
\<close>

definition least_rank :: "ranks \<Rightarrow> int \<Rightarrow> string set \<Rightarrow> int" where
  "least_rank ranks r D = Min (insert r ((\<lambda>d. the (map_of ranks d) - 1) ` D))"

definition final :: "ranks \<Rightarrow> string \<Rightarrow> bool" where
  "final ranks d \<longleftrightarrow> (\<exists>k \<le> 0. map_of ranks d = Some k)"

definition ranks_ok :: "ir_p4info \<Rightarrow> ranks \<Rightarrow> bool" where
  "ranks_ok info ranks \<longleftrightarrow>
     (\<forall>n k. map_of ranks n = Some k \<longrightarrow> k \<le> 0 \<longrightarrow>
        (\<exists>rs. rank_references info n = Inr rs \<and> (\<forall>d \<in> destinations rs. final ranks d) \<and>
           k = least_rank ranks 0 (destinations rs)))"

definition extends :: "ranks \<Rightarrow> ranks \<Rightarrow> bool" where
  "extends ranks ranks' \<longleftrightarrow>
     (\<forall>m. map_of ranks' m = map_of ranks m \<or> (map_of ranks m = None \<and> final ranks' m))"

lemma finite_destinations [simp]: "finite (destinations rs)"
  by (induction rs) (auto split: sum.split)

lemma extends_refl [simp]: "extends ranks ranks"
  by (simp add: extends_def)

lemma extends_final: "extends ranks ranks' \<Longrightarrow> final ranks d \<Longrightarrow> final ranks' d \<and> map_of ranks' d = map_of ranks d"
  by (auto simp: extends_def final_def) (metis option.distinct(1))+

lemma extends_trans: "extends a b \<Longrightarrow> extends b c \<Longrightarrow> extends a c"
  unfolding extends_def final_def by metis

lemma least_rank_cong: "(\<And>d. d \<in> D \<Longrightarrow> map_of ranks d = map_of ranks' d) \<Longrightarrow> least_rank ranks r D = least_rank ranks' r D"
  by (auto simp: least_rank_def intro!: arg_cong [where f = "\<lambda>x. Min (insert r x)"] image_cong)

lemma least_rank_le: "finite D \<Longrightarrow> least_rank ranks r D \<le> r"
  by (simp add: least_rank_def)

lemma least_rank_insert:
  "finite D \<Longrightarrow> least_rank ranks r (insert d D) = least_rank ranks (min r (the (map_of ranks d) - 1)) D"
  by (cases "D = {}") (auto simp: least_rank_def min.assoc min.commute min.left_commute)

lemma least_rank_below: "finite D \<Longrightarrow> d \<in> D \<Longrightarrow> least_rank ranks r D < the (map_of ranks d)"
  using Min_le [of "insert r ((\<lambda>d. the (map_of ranks d) - 1) ` D)" "the (map_of ranks d) - 1"]
  by (force simp: least_rank_def)

text \<open>A table that gets the temporary rank, and then its final one, changes nothing for the others.\<close>

lemma ranks_ok_mark: "ranks_ok info ranks \<Longrightarrow> map_of ranks n = None \<Longrightarrow> ranks_ok info (AList.update n 1 ranks)"
  unfolding ranks_ok_def
proof (intro allI impI)
  fix m k
  assume ok: "\<forall>n k. map_of ranks n = Some k \<longrightarrow> k \<le> 0 \<longrightarrow>
        (\<exists>rs. rank_references info n = Inr rs \<and> (\<forall>d \<in> destinations rs. final ranks d) \<and>
           k = least_rank ranks 0 (destinations rs))"
    and n: "map_of ranks n = None" and m: "map_of (AList.update n 1 ranks) m = Some k" "k \<le> 0"
  from m have "map_of ranks m = Some k" by (auto simp: update_conv' split: if_splits)
  with ok m(2) obtain rs where rs: "rank_references info m = Inr rs" "\<forall>d \<in> destinations rs. final ranks d"
    "k = least_rank ranks 0 (destinations rs)" by blast
  have same: "map_of (AList.update n 1 ranks) d = map_of ranks d" if "d \<in> destinations rs" for d
    using rs(2) that n by (auto simp: update_conv' final_def)
  then have "\<forall>d \<in> destinations rs. final (AList.update n 1 ranks) d" using rs(2) by (simp add: final_def)
  moreover have "k = least_rank (AList.update n 1 ranks) 0 (destinations rs)"
    unfolding rs(3) by (rule least_rank_cong) (simp add: same)
  ultimately show "\<exists>rs. rank_references info m = Inr rs \<and> (\<forall>d \<in> destinations rs. final (AList.update n 1 ranks) d) \<and>
      k = least_rank (AList.update n 1 ranks) 0 (destinations rs)" using rs(1) by blast
qed

lemma ranks_ok_finish:
  assumes ok: "ranks_ok info ranks" and n: "\<not> final ranks n" "rank_references info n = Inr rs"
    and children: "\<forall>d \<in> destinations rs. final ranks d" and k: "k = least_rank ranks 0 (destinations rs)"
  shows "ranks_ok info (AList.update n k ranks)"
  unfolding ranks_ok_def
proof (intro allI impI)
  fix m l
  assume m: "map_of (AList.update n k ranks) m = Some l" "l \<le> 0"
  obtain rs' where rs': "rank_references info m = Inr rs'" "\<forall>d \<in> destinations rs'. final ranks d"
    "l = least_rank ranks 0 (destinations rs')"
  proof (cases "m = n")
    case True
    then show ?thesis using m n children k that by (simp add: update_conv')
  next
    case False
    with m(1) have "map_of ranks m = Some l" by (simp add: update_conv')
    with ok m(2) show ?thesis using that unfolding ranks_ok_def by blast
  qed
  have same: "map_of (AList.update n k ranks) d = map_of ranks d" if "d \<in> destinations rs'" for d
    using rs'(2) that n(1) by (auto simp: update_conv')
  then have "\<forall>d \<in> destinations rs'. final (AList.update n k ranks) d" using rs'(2) by (simp add: final_def)
  moreover have "l = least_rank (AList.update n k ranks) 0 (destinations rs')"
    unfolding rs'(3) by (rule least_rank_cong) (simp add: same)
  ultimately show "\<exists>rs. rank_references info m = Inr rs \<and> (\<forall>d \<in> destinations rs. final (AList.update n k ranks) d) \<and>
      l = least_rank (AList.update n k ranks) 0 (destinations rs)" using rs'(1) by blast
qed

lemma rank_spec:
  "SetAndReturnTableDependencyRank n info table_name ranks = Some (Inr (k, ranks')) \<Longrightarrow> ranks_ok info ranks \<Longrightarrow>
     ranks_ok info ranks' \<and> extends ranks ranks' \<and> k \<le> 0 \<and> map_of ranks' table_name = Some k"
  "rank_children n info rs (r, ranks) = Some (Inr (k, ranks')) \<Longrightarrow> ranks_ok info ranks \<Longrightarrow>
     ranks_ok info ranks' \<and> extends ranks ranks' \<and> (\<forall>d \<in> destinations rs. final ranks' d) \<and>
     k = least_rank ranks' r (destinations rs)"
proof (induction n info table_name ranks and n info rs "(r, ranks)" arbitrary: k ranks' and r ranks k ranks'
    rule: SetAndReturnTableDependencyRank_rank_children.induct)
  case (2 n info name ranks)
  show ?case
  proof (cases "map_of ranks name")
    case (Some v)
    with 2 show ?thesis by (auto split: if_splits)
  next
    case None
    with 2(2) obtain rs r1 where rs: "rank_references info name = Inr rs"
      and run: "rank_children n info rs (0, AList.update name 1 ranks) = Some (Inr (k, r1))"
      and r': "ranks' = AList.update name k r1"
      by (auto split: sum.splits option.splits)
    have ext: "ranks_ok info r1" "extends (AList.update name 1 ranks) r1"
      "\<forall>d \<in> destinations rs. final r1 d" "k = least_rank r1 0 (destinations rs)"
      using 2(1) [OF None rs run ranks_ok_mark [OF 2(3) None]] by simp_all
    have mark: "map_of r1 name = Some 1"
      using ext(2) [unfolded extends_def, rule_format, of name] by (simp add: update_conv')
    then have "\<not> final r1 name" by (simp add: final_def)
    from ranks_ok_finish [OF ext(1) this rs ext(3,4)] have "ranks_ok info ranks'" by (simp add: r')
    moreover have "map_of ranks' m = map_of ranks m \<or> (map_of ranks m = None \<and> final ranks' m)" for m
      using ext(2) [unfolded extends_def, rule_format, of m] None least_rank_le [of "destinations rs" r1 0] ext(4)
      by (cases "m = name") (simp_all add: r' update_conv' final_def)
    then have "extends ranks ranks'" by (simp add: extends_def)
    ultimately show ?thesis using ext(4) least_rank_le [of "destinations rs" r1 0] by (simp add: r' update_conv')
  qed
next
  case (3 n info)
  then show ?case by (simp add: least_rank_def)
next
  case (4 n info reference rs r ranks)
  from 4(3) obtain d c r1 where d: "GetNameOfTable (itr_destination_table reference) = Inr d"
    and c: "SetAndReturnTableDependencyRank n info d ranks = Some (Inr (c, r1))"
    and run: "rank_children n info rs (min r (c - 1), r1) = Some (Inr (k, ranks'))"
    by (auto split: sum.splits option.splits)
  have one: "ranks_ok info r1" "extends ranks r1" "c \<le> 0" "map_of r1 d = Some c"
    using 4(1) [OF d c 4(4)] by simp_all
  have rest: "ranks_ok info ranks'" "extends r1 ranks'" "\<forall>d \<in> destinations rs. final ranks' d"
      "k = least_rank ranks' (min r (c - 1)) (destinations rs)"
    using 4(2) [OF d c refl refl run one(1)] by simp_all
  have "final ranks' d" "map_of ranks' d = Some c"
    using extends_final [OF rest(2), of d] one(3,4) by (auto simp: final_def)
  then show ?case using rest extends_trans [OF one(2) rest(2)] by (simp add: d least_rank_insert)
qed simp_all


text \<open>
  The depth bound is large enough: along the recursion, the tables that have no rank yet decrease.
\<close>

definition unranked :: "ir_p4info \<Rightarrow> ranks \<Rightarrow> string set" where
  "unranked info ranks = set (known_tables info) - fst ` set ranks"

lemma rank_references_known: "rank_references info n = Inr rs \<Longrightarrow> n \<in> set (known_tables info)"
  by (auto simp: rank_references_def known_tables_def built_in_tables_def tables_by_name_def split: if_splits
      dest!: map_of_SomeD intro: rev_image_eqI)

lemma finite_unranked [simp]: "finite (unranked info ranks)"
  by (simp add: unranked_def)

lemma extends_unranked: "extends ranks ranks' \<Longrightarrow> unranked info ranks' \<subseteq> unranked info ranks"
  unfolding unranked_def extends_def by (metis (no_types, lifting) Diff_mono map_of_eq_None_iff order_refl subsetI)

lemma keys_extend:
  "SetAndReturnTableDependencyRank n info table_name ranks = Some (Inr (k, ranks')) \<Longrightarrow> fst ` set ranks \<subseteq> fst ` set ranks'"
  "rank_children n info rs (r, ranks) = Some (Inr (k, ranks')) \<Longrightarrow> fst ` set ranks \<subseteq> fst ` set ranks'"
proof (induction n info table_name ranks and n info rs "(r, ranks)" arbitrary: k ranks' and r ranks k ranks'
    rule: SetAndReturnTableDependencyRank_rank_children.induct)
  case (2 n info name ranks)
  show ?case
  proof (cases "map_of ranks name")
    case None
    with 2(2) obtain rs r1 where rs: "rank_references info name = Inr rs"
      and run: "rank_children n info rs (0, AList.update name 1 ranks) = Some (Inr (k, r1))"
      and r': "ranks' = AList.update name k r1"
      by (auto split: sum.splits option.splits)
    from 2(1) [OF None rs run] show ?thesis by (auto simp: r' dom_update)
  qed (use 2(2) in \<open>auto split: if_splits\<close>)
next
  case (4 n info reference rs r ranks)
  from 4(3) obtain d c r1 where d: "GetNameOfTable (itr_destination_table reference) = Inr d"
    and c: "SetAndReturnTableDependencyRank n info d ranks = Some (Inr (c, r1))"
    and run: "rank_children n info rs (min r (c - 1), r1) = Some (Inr (k, ranks'))"
    by (auto split: sum.splits option.splits)
  from 4(1) [OF d c] 4(2) [OF d c refl refl run] show ?case by blast
qed auto

lemma rank_returns:
  "card (unranked info ranks) < n \<Longrightarrow> SetAndReturnTableDependencyRank n info table_name ranks \<noteq> None"
  "card (unranked info ranks) < n \<Longrightarrow> rank_children n info rs (r, ranks) \<noteq> None"
proof (induction n info table_name ranks and n info rs "(r, ranks)" arbitrary: and r ranks
    rule: SetAndReturnTableDependencyRank_rank_children.induct)
  case (2 n info name ranks)
  show ?case
  proof (cases "map_of ranks name = None \<and> (\<exists>rs. rank_references info name = Inr rs)")
    case True
    then obtain rs where rs: "map_of ranks name = None" "rank_references info name = Inr rs" by blast
    have "name \<in> unranked info ranks"
      using rank_references_known [OF rs(2)] rs(1) by (simp add: unranked_def map_of_eq_None_iff)
    moreover have "unranked info (AList.update name 1 ranks) = unranked info ranks - {name}"
      by (auto simp: unranked_def dom_update)
    ultimately have "card (unranked info (AList.update name 1 ranks)) < n"
      using 2(2) card_Diff1_less [of "unranked info ranks" name] by simp
    from 2(1) [OF rs this] rs show ?thesis by simp
  qed (auto split: option.split sum.split)
next
  case (4 n info reference rs r ranks)
  show ?case
  proof (cases "GetNameOfTable (itr_destination_table reference)")
    case (Inr d)
    have child: "SetAndReturnTableDependencyRank n info d ranks \<noteq> None" using 4(1) [OF Inr 4(3)] .
    show ?thesis
    proof (cases "SetAndReturnTableDependencyRank n info d ranks")
      case (Some res)
      show ?thesis
      proof (cases res)
        case (Inr cr)
        obtain c r1 where cr: "cr = (c, r1)" by (cases cr)
        have "unranked info r1 \<subseteq> unranked info ranks"
          using keys_extend(1) [of n info d ranks c r1] Some Inr cr by (auto simp: unranked_def)
        then have "card (unranked info r1) < n" using 4(3) card_mono [OF finite_unranked] by (metis le_less_trans)
        from 4(2) [OF \<open>GetNameOfTable (itr_destination_table reference) = Inr d\<close> Some Inr cr [symmetric] this]
        show ?thesis using \<open>GetNameOfTable (itr_destination_table reference) = Inr d\<close> Some Inr cr by simp
      qed (use Inr Some in simp)
    qed (use child in simp)
  qed simp
qed simp_all

lemma rank_tables_returns: "rank_tables info names ranks \<noteq> None"
proof (induction names arbitrary: ranks)
  case (Cons name names)
  have "card (unranked info ranks) \<le> card (set (known_tables info))"
    by (rule card_mono) (auto simp: unranked_def)
  also have "\<dots> < Suc (length (known_tables info))" by (simp add: card_length le_imp_less_Suc)
  finally have "SetAndReturnTableDependencyRank (Suc (length (known_tables info))) info name ranks \<noteq> None"
    by (rule rank_returns(1))
  then show ?case using Cons by (auto simp del: SetAndReturnTableDependencyRank.simps split: sum.split)
qed simp

text \<open>References are sound if they lead from known tables to known tables.\<close>

definition reference_graph :: "ir_p4info \<Rightarrow> (string \<times> string) set" where
  "reference_graph info = {(n, d). \<exists>rs. rank_references info n = Inr rs \<and> d \<in> destinations rs}"

definition references_sound :: "ir_p4info \<Rightarrow> bool" where
  "references_sound info \<longleftrightarrow>
     list_all (\<lambda>n. case rank_references info n of
         Inl _ \<Rightarrow> False
       | Inr rs \<Rightarrow> list_all (\<lambda>r. case GetNameOfTable (itr_destination_table r) of
             Inl _ \<Rightarrow> False | Inr d \<Rightarrow> d \<in> set (known_tables info)) rs) (known_tables info)"

definition marks_above :: "ir_p4info \<Rightarrow> ranks \<Rightarrow> string \<Rightarrow> bool" where
  "marks_above info ranks d \<longleftrightarrow> (\<forall>m v. map_of ranks m = Some v \<longrightarrow> 0 < v \<longrightarrow> (m, d) \<in> (reference_graph info)\<^sup>+)"

lemma marks_above_extends: "extends ranks ranks' \<Longrightarrow> marks_above info ranks d \<Longrightarrow> marks_above info ranks' d"
  unfolding extends_def marks_above_def final_def by (metis linorder_not_less option.inject)

lemma references_soundD:
  "references_sound info \<Longrightarrow> n \<in> set (known_tables info) \<Longrightarrow>
   \<exists>rs. rank_references info n = Inr rs \<and>
     (\<forall>r \<in> set rs. \<exists>d \<in> set (known_tables info). GetNameOfTable (itr_destination_table r) = Inr d)"
proof -
  assume s: "references_sound info" "n \<in> set (known_tables info)"
  then have n: "case rank_references info n of
         Inl _ \<Rightarrow> False
       | Inr rs \<Rightarrow> list_all (\<lambda>r. case GetNameOfTable (itr_destination_table r) of
             Inl _ \<Rightarrow> False | Inr d \<Rightarrow> d \<in> set (known_tables info)) rs"
    by (simp add: references_sound_def list_all_iff)
  then obtain rs where rs: "rank_references info n = Inr rs" by (cases "rank_references info n") auto
  have "\<exists>d \<in> set (known_tables info). GetNameOfTable (itr_destination_table r) = Inr d" if "r \<in> set rs" for r
    using n that by (cases "GetNameOfTable (itr_destination_table r)") (auto simp: rs list_all_iff)
  with rs show ?thesis by blast
qed

lemma rank_fails:
  "SetAndReturnTableDependencyRank n info table_name ranks = Some (Inl e) \<Longrightarrow> references_sound info \<Longrightarrow>
     ranks_ok info ranks \<Longrightarrow> table_name \<in> set (known_tables info) \<Longrightarrow> marks_above info ranks table_name \<Longrightarrow>
     e = INVALID_ARGUMENT \<and> \<not> acyclic (reference_graph info)"
  "rank_children n info rs (r, ranks) = Some (Inl e) \<Longrightarrow> references_sound info \<Longrightarrow> ranks_ok info ranks \<Longrightarrow>
     (\<forall>r \<in> set rs. \<exists>d \<in> set (known_tables info). GetNameOfTable (itr_destination_table r) = Inr d) \<Longrightarrow>
     (\<forall>d \<in> destinations rs. marks_above info ranks d) \<Longrightarrow>
     e = INVALID_ARGUMENT \<and> \<not> acyclic (reference_graph info)"
proof (induction n info table_name ranks and n info rs "(r, ranks)" arbitrary: e and r ranks e
    rule: SetAndReturnTableDependencyRank_rank_children.induct)
  case (2 n info name ranks)
  show ?case
  proof (cases "map_of ranks name")
    case (Some v)
    with 2(2) have "e = INVALID_ARGUMENT" "0 < v" by (auto split: if_splits)
    with Some 2(6) show ?thesis by (auto simp: marks_above_def acyclic_def)
  next
    case None
    from references_soundD [OF 2(3,5)] obtain rs where rs: "rank_references info name = Inr rs"
      "\<forall>r \<in> set rs. \<exists>d \<in> set (known_tables info). GetNameOfTable (itr_destination_table r) = Inr d" by blast
    with 2(2) None have run: "rank_children n info rs (0, AList.update name 1 ranks) = Some (Inl e)"
      by (auto simp: bind_or_eq_Inl split: option.splits)
    have "marks_above info (AList.update name 1 ranks) d" if d: "d \<in> destinations rs" for d
      unfolding marks_above_def
    proof (intro allI impI)
      fix m v
      assume m: "map_of (AList.update name 1 ranks) m = Some v" "0 < v"
      have edge: "(name, d) \<in> reference_graph info" using rs(1) d by (auto simp: reference_graph_def)
      show "(m, d) \<in> (reference_graph info)\<^sup>+"
      proof (cases "m = name")
        case False
        with m 2(6) have "(m, name) \<in> (reference_graph info)\<^sup>+" by (auto simp: update_conv' marks_above_def)
        then show ?thesis using edge by simp
      qed (use edge in simp)
    qed
    then show ?thesis using 2(1) [OF None rs(1) run 2(3) ranks_ok_mark [OF 2(4) None] rs(2)] by blast
  qed
next
  case (4 n info reference rs r ranks)
  from 4(6) obtain d where d: "d \<in> set (known_tables info)" "GetNameOfTable (itr_destination_table reference) = Inr d"
    by auto
  have above: "marks_above info ranks d" using 4(7) by (simp add: d)
  show ?case
  proof (cases "\<exists>c r1. SetAndReturnTableDependencyRank n info d ranks = Some (Inr (c, r1))")
    case True
    then obtain c r1 where c: "SetAndReturnTableDependencyRank n info d ranks = Some (Inr (c, r1))" by blast
    with 4(3) have run: "rank_children n info rs (min r (c - 1), r1) = Some (Inl e)" by (simp add: d)
    have one: "ranks_ok info r1" "extends ranks r1" using rank_spec(1) [OF c 4(5)] by simp_all
    have "\<forall>d \<in> destinations rs. marks_above info r1 d" using 4(7) marks_above_extends [OF one(2)] by simp
    then show ?thesis using 4(2) [OF d(2) c refl refl run 4(4) one(1)] 4(6) by simp
  next
    case False
    with 4(3) have "SetAndReturnTableDependencyRank n info d ranks = Some (Inl e)"
      by (auto simp: d split: option.splits sum.splits)
    then show ?thesis using 4(1) [OF d(2) _ 4(4,5) d(1) above] by blast
  qed
qed auto

lemma rank_tables_spec:
  "rank_tables info names ranks = Some res \<Longrightarrow> ranks_ok info ranks \<Longrightarrow> (\<forall>m v. map_of ranks m = Some v \<longrightarrow> v \<le> 0) \<Longrightarrow>
   (case res of
      Inr ranks' \<Rightarrow> ranks_ok info ranks' \<and> extends ranks ranks' \<and> (\<forall>n \<in> set names. final ranks' n)
    | Inl e \<Rightarrow> references_sound info \<and> set names \<subseteq> set (known_tables info) \<longrightarrow>
        e = INVALID_ARGUMENT \<and> \<not> acyclic (reference_graph info))"
proof (induction names arbitrary: ranks)
  case (Cons name names)
  let ?one = "SetAndReturnTableDependencyRank (Suc (length (known_tables info))) info name ranks"
  note [simp del] = SetAndReturnTableDependencyRank.simps
  have above: "marks_above info ranks name" using Cons.prems(3) unfolding marks_above_def by (metis linorder_not_less)
  show ?case
  proof (cases "\<exists>k r1. ?one = Some (Inr (k, r1))")
    case True
    then obtain k r1 where one: "?one = Some (Inr (k, r1))" by blast
    have s: "ranks_ok info r1" "extends ranks r1" "k \<le> 0" "map_of r1 name = Some k"
      using rank_spec(1) [OF one Cons.prems(2)] by simp_all
    have "\<forall>m v. map_of r1 m = Some v \<longrightarrow> v \<le> 0"
      using s(2) Cons.prems(3) unfolding extends_def final_def by (metis option.inject)
    with Cons.IH [of r1] Cons.prems(1) one s(1) have rest: "case res of
      Inr ranks' \<Rightarrow> ranks_ok info ranks' \<and> extends r1 ranks' \<and> (\<forall>n \<in> set names. final ranks' n)
    | Inl e \<Rightarrow> references_sound info \<and> set names \<subseteq> set (known_tables info) \<longrightarrow>
        e = INVALID_ARGUMENT \<and> \<not> acyclic (reference_graph info)" by simp
    have "final r1 name" using s by (simp add: final_def)
    then show ?thesis using rest extends_trans [OF s(2)] extends_final [of r1] by (auto split: sum.splits)
  next
    case False
    with Cons.prems(1) obtain e where e: "?one = Some (Inl e)" "res = Inl e"
      by (auto split: option.splits sum.splits)
    then show ?thesis using rank_fails(1) [OF e(1)] Cons.prems(2) above by auto
  qed
qed auto

lemma ranks_increase:
  assumes "ranks_ok info ranks" "\<forall>n \<in> set (known_tables info). final ranks n" "(n, d) \<in> (reference_graph info)\<^sup>+"
  shows "the (map_of ranks n) < the (map_of ranks d)"
proof -
  have step: "the (map_of ranks n) < the (map_of ranks d)" if "(n, d) \<in> reference_graph info" for n d
  proof -
    from that obtain rs where rs: "rank_references info n = Inr rs" "d \<in> destinations rs" by (auto simp: reference_graph_def)
    then obtain k where k: "map_of ranks n = Some k" "k \<le> 0"
      using rank_references_known assms(2) unfolding final_def by blast
    with assms(1) rs(1) have "k = least_rank ranks 0 (destinations rs)" unfolding ranks_ok_def by fastforce
    with least_rank_below [OF finite_destinations rs(2), of ranks 0] k(1) show ?thesis by simp
  qed
  show ?thesis using assms(3) by (induction rule: trancl_induct) (use step in \<open>blast intro: less_trans\<close>)+
qed

text \<open>
  The dependency ranks of the tables are always computed. If references lead to known tables then
  they are computed without error exactly if the references have no cycle, and every table that
  another one refers to, directly or not, has a higher rank.
\<close>

lemma dependency_ranks:
  assumes "references_sound info" "dependency_rank_by_table_name_entries info = []"
  shows "if acyclic (reference_graph info)
    then \<exists>info'. ConstructDependencyRankByTableName info = Some (Inr info') \<and>
      list_all (\<lambda>n. \<exists>k \<le> 0. dependency_rank_by_table_name info' n = Some k) (known_tables info) \<and>
      (reference_graph info)\<^sup>+ \<subseteq>
        {(n, d). the (dependency_rank_by_table_name info' n) < the (dependency_rank_by_table_name info' d)}
    else ConstructDependencyRankByTableName info = Some (Inl INVALID_ARGUMENT)"
proof -
  obtain res where res: "rank_tables info (known_tables info) [] = Some res" using rank_tables_returns by blast
  have spec: "case res of
      Inr ranks' \<Rightarrow> ranks_ok info ranks' \<and> extends [] ranks' \<and> (\<forall>n \<in> set (known_tables info). final ranks' n)
    | Inl e \<Rightarrow> references_sound info \<and> set (known_tables info) \<subseteq> set (known_tables info) \<longrightarrow>
        e = INVALID_ARGUMENT \<and> \<not> acyclic (reference_graph info)"
    by (rule rank_tables_spec [OF res]) (simp_all add: ranks_ok_def)
  show ?thesis
  proof (cases res)
    case (Inl e)
    with spec assms res show ?thesis by (simp add: ConstructDependencyRankByTableName_def)
  next
    case (Inr ranks)
    with spec have ok: "ranks_ok info ranks" "\<forall>n \<in> set (known_tables info). final ranks n" by simp_all
    have "acyclic (reference_graph info)" using ranks_increase [OF ok] unfolding acyclic_def by blast
    moreover have "ConstructDependencyRankByTableName info = Some (Inr (info\<lparr>dependency_rank_by_table_name_entries := ranks\<rparr>))"
      using res Inr assms(2) by (simp add: ConstructDependencyRankByTableName_def)
    ultimately show ?thesis using ok ranks_increase [OF ok]
      by (auto simp: dependency_rank_by_table_name_def list_all_iff final_def)
  qed
qed

section \<open>The maps by ID and by name hold the same definitions\<close>

definition tables_of :: "ir_p4info \<Rightarrow> ir_table_definition list" where
  "tables_of info = map snd (tables_by_id_entries info)"

definition actions_of :: "ir_p4info \<Rightarrow> ir_action_definition list" where
  "actions_of info = map snd (actions_by_id_entries info)"

definition tables_in_sync :: "ir_p4info \<Rightarrow> bool" where
  "tables_in_sync info \<longleftrightarrow>
     tables_by_id_entries info = map (\<lambda>t. (itd_id t, t)) (tables_of info) \<and>
     tables_by_name_entries info = map (\<lambda>t. (itd_alias t, t)) (tables_of info) \<and>
     distinct (map itd_id (tables_of info)) \<and> distinct (map itd_alias (tables_of info))"

definition actions_in_sync :: "ir_p4info \<Rightarrow> bool" where
  "actions_in_sync info \<longleftrightarrow>
     actions_by_id_entries info = map (\<lambda>a. (iad_id a, a)) (actions_of info) \<and>
     actions_by_name_entries info = map (\<lambda>a. (iad_alias a, a)) (actions_of info) \<and>
     distinct (map iad_id (actions_of info)) \<and> distinct (map iad_alias (actions_of info))"

lemma InsertIfUnique_Inr [simp]: "InsertIfUnique k v m = Inr m' \<longleftrightarrow> k \<notin> fst ` set m \<and> m' = m @ [(k, v)]"
  by (auto simp: InsertIfUnique_def)

lemma map_of_keyed: "distinct (map key xs) \<Longrightarrow> map_of (map (\<lambda>x. (key x, x)) xs) k = Some x \<longleftrightarrow> x \<in> set xs \<and> key x = k"
  by (induction xs) (auto simp: image_iff)

lemma keyed_lookup:
  "es = map (\<lambda>x. (key x, x)) xs \<Longrightarrow> distinct (map key xs) \<Longrightarrow> map_of es k = Some x \<longleftrightarrow> x \<in> set xs \<and> key x = k"
  by (simp only: map_of_keyed)

lemma keyed_fresh: "es = map (\<lambda>x. (key x, x)) xs \<Longrightarrow> k \<notin> fst ` set es \<longleftrightarrow> k \<notin> key ` set xs"
  by (simp add: image_comp comp_def)

lemma tables_by_id_iff: "tables_in_sync info \<Longrightarrow> tables_by_id info i = Some t \<longleftrightarrow> t \<in> set (tables_of info) \<and> itd_id t = i"
  unfolding tables_by_id_def by (rule keyed_lookup) (simp_all only: tables_in_sync_def)

lemma tables_by_name_iff: "tables_in_sync info \<Longrightarrow> tables_by_name info n = Some t \<longleftrightarrow> t \<in> set (tables_of info) \<and> itd_alias t = n"
  unfolding tables_by_name_def by (rule keyed_lookup) (simp_all only: tables_in_sync_def)

lemma actions_by_id_iff: "actions_in_sync info \<Longrightarrow> actions_by_id info i = Some a \<longleftrightarrow> a \<in> set (actions_of info) \<and> iad_id a = i"
  unfolding actions_by_id_def by (rule keyed_lookup) (simp_all only: actions_in_sync_def)

lemma actions_by_name_iff: "actions_in_sync info \<Longrightarrow> actions_by_name info n = Some a \<longleftrightarrow> a \<in> set (actions_of info) \<and> iad_alias a = n"
  unfolding actions_by_name_def by (rule keyed_lookup) (simp_all only: actions_in_sync_def)

lemma map_entry_keyed:
  assumes "distinct (map key xs)" "\<And>x. key (f x) = key x"
  shows "AList.map_entry k f (map (\<lambda>x. (key x, x)) xs) = map (\<lambda>x. (key x, x)) (map (\<lambda>x. if key x = k then f x else x) xs)"
  using assms(1)
proof (induction xs)
  case (Cons x xs)
  show ?case
  proof (cases "key x = k")
    case True
    then have "key y \<noteq> k" if "y \<in> set xs" for y using Cons.prems that by (metis distinct.simps(2) image_eqI list.set_map list.simps(9))
    then have "map (\<lambda>x. if key x = k then f x else x) xs = xs" by (intro map_idI) simp
    with True show ?thesis by (simp add: assms(2) comp_def)
  qed (use Cons in simp)
qed simp

text \<open>A change of one table that keeps its ID and its name is a change of the list of tables.\<close>

lemma update_table_sync:
  assumes sync: "tables_in_sync info" and t: "t \<in> set (tables_of info)"
    and f: "\<And>t. itd_id (f t) = itd_id t" "\<And>t. itd_alias (f t) = itd_alias t"
  shows "tables_in_sync (update_table (itd_id t) (itd_alias t) f info) \<and>
    tables_of (update_table (itd_id t) (itd_alias t) f info) = map (\<lambda>u. if u = t then f u else u) (tables_of info)"
proof -
  let ?ts = "tables_of info" and ?ts' = "map (\<lambda>u. if u = t then f u else u) (tables_of info)"
  have d: "distinct (map itd_id ?ts)" "distinct (map itd_alias ?ts)"
    and s: "tables_by_id_entries info = map (\<lambda>t. (itd_id t, t)) ?ts"
      "tables_by_name_entries info = map (\<lambda>t. (itd_alias t, t)) ?ts"
    using sync unfolding tables_in_sync_def by blast+
  have same: "u = t \<longleftrightarrow> itd_id u = itd_id t" "u = t \<longleftrightarrow> itd_alias u = itd_alias t" if "u \<in> set ?ts" for u
    using d t that by (auto simp: distinct_map dest: inj_onD)
  have m: "map (\<lambda>u. if itd_id u = itd_id t then f u else u) ?ts = ?ts'"
    "map (\<lambda>u. if itd_alias u = itd_alias t then f u else u) ?ts = ?ts'"
    using same by (auto intro!: map_cong)
  have e: "tables_by_id_entries (update_table (itd_id t) (itd_alias t) f info) = map (\<lambda>t. (itd_id t, t)) ?ts'"
    "tables_by_name_entries (update_table (itd_id t) (itd_alias t) f info) = map (\<lambda>t. (itd_alias t, t)) ?ts'"
    using map_entry_keyed [OF d(1) f(1), of "itd_id t"] map_entry_keyed [OF d(2) f(2), of "itd_alias t"]
    by (simp_all add: update_table_def s m del: map_map)
  then have "tables_of (update_table (itd_id t) (itd_alias t) f info) = ?ts'" by (simp add: tables_of_def comp_def)
  moreover have "map itd_id ?ts' = map itd_id ?ts" "map itd_alias ?ts' = map itd_alias ?ts" by (simp_all add: f)
  ultimately show ?thesis using e d by (simp add: tables_in_sync_def del: map_map)
qed

lemma update_table_frame [simp]:
  "actions_by_id_entries (update_table i n f info) = actions_by_id_entries info"
  "actions_by_name_entries (update_table i n f info) = actions_by_name_entries info"
  "built_in_tables_entries (update_table i n f info) = built_in_tables_entries info"
  "dependency_rank_by_table_name_entries (update_table i n f info) = dependency_rank_by_table_name_entries info"
  by (simp_all add: update_table_def)

text \<open>A new definition under a new ID and a new name.\<close>

lemma insert_table_sync:
  assumes "tables_in_sync info" "itd_id t \<notin> fst ` set (tables_by_id_entries info)"
    "itd_alias t \<notin> fst ` set (tables_by_name_entries info)"
    "tables_by_id_entries info' = tables_by_id_entries info @ [(itd_id t, t)]"
    "tables_by_name_entries info' = tables_by_name_entries info @ [(itd_alias t, t)]"
  shows "tables_in_sync info' \<and> tables_of info' = tables_of info @ [t]"
proof -
  have ts: "tables_of info' = tables_of info @ [t]" by (simp add: tables_of_def assms(4))
  have "itd_id t \<notin> itd_id ` set (tables_of info)" "itd_alias t \<notin> itd_alias ` set (tables_of info)"
    using assms(1-3) keyed_fresh [of "tables_by_id_entries info" itd_id "tables_of info"]
      keyed_fresh [of "tables_by_name_entries info" itd_alias "tables_of info"]
    unfolding tables_in_sync_def by blast+
  with assms ts show ?thesis by (auto simp: tables_in_sync_def)
qed

lemma insert_action_sync:
  assumes "actions_in_sync info" "iad_id a \<notin> fst ` set (actions_by_id_entries info)"
    "iad_alias a \<notin> fst ` set (actions_by_name_entries info)"
    "actions_by_id_entries info' = actions_by_id_entries info @ [(iad_id a, a)]"
    "actions_by_name_entries info' = actions_by_name_entries info @ [(iad_alias a, a)]"
  shows "actions_in_sync info' \<and> actions_of info' = actions_of info @ [a]"
proof -
  have as: "actions_of info' = actions_of info @ [a]" by (simp add: actions_of_def assms(4))
  have "iad_id a \<notin> iad_id ` set (actions_of info)" "iad_alias a \<notin> iad_alias ` set (actions_of info)"
    using assms(1-3) keyed_fresh [of "actions_by_id_entries info" iad_id "actions_of info"]
      keyed_fresh [of "actions_by_name_entries info" iad_alias "actions_of info"]
    unfolding actions_in_sync_def by blast+
  with assms as show ?thesis by (auto simp: actions_in_sync_def)
qed

section \<open>What \<open>CreateIrP4Info\<close> guarantees\<close>

text \<open>Two maps that were filled with the same elements, under two keys each.\<close>

definition keyed_maps ::
  "('x \<Rightarrow> 'a) \<Rightarrow> ('x \<Rightarrow> 'b) \<Rightarrow> ('x \<Rightarrow> bool) \<Rightarrow> ('a \<times> 'x) list \<Rightarrow> ('b \<times> 'x) list \<Rightarrow> bool" where
  "keyed_maps k l P m n \<longleftrightarrow>
     (\<exists>xs. m = map (\<lambda>x. (k x, x)) xs \<and> n = map (\<lambda>x. (l x, x)) xs \<and> distinct (map k xs) \<and> distinct (map l xs) \<and>
        list_all P xs)"

lemma keyed_maps_Nil [simp]: "keyed_maps k l P [] []"
  by (simp add: keyed_maps_def)

lemma keyed_maps_insert:
  assumes "keyed_maps k l P m n" "k x \<notin> fst ` set m" "l x \<notin> fst ` set n" "P x"
  shows "keyed_maps k l P (m @ [(k x, x)]) (n @ [(l x, x)])"
proof -
  from assms(1) obtain xs where xs: "m = map (\<lambda>x. (k x, x)) xs" "n = map (\<lambda>x. (l x, x)) xs"
    "distinct (map k xs)" "distinct (map l xs)" "list_all P xs" by (auto simp: keyed_maps_def)
  then have "m @ [(k x, x)] = map (\<lambda>x. (k x, x)) (xs @ [x])" "n @ [(l x, x)] = map (\<lambda>x. (l x, x)) (xs @ [x])"
    "distinct (map k (xs @ [x]))" "distinct (map l (xs @ [x]))" "list_all P (xs @ [x])"
    using assms(2-4) keyed_fresh [OF xs(1)] keyed_fresh [OF xs(2)] by auto
  then show ?thesis unfolding keyed_maps_def by blast
qed

lemma keyed_maps_lookup:
  assumes "keyed_maps k l P m n" "map_of m i = Some x"
  shows "k x = i \<and> map_of n (l x) = Some x \<and> P x"
proof -
  from assms(1) obtain xs where xs: "m = map (\<lambda>x. (k x, x)) xs" "n = map (\<lambda>x. (l x, x)) xs"
    "distinct (map k xs)" "distinct (map l xs)" "list_all P xs" by (auto simp: keyed_maps_def)
  then show ?thesis using assms(2) keyed_lookup [OF xs(1,3)] keyed_lookup [OF xs(2,4)] by (simp add: list_all_iff)
qed

text \<open>
  What must be required of the P4Info: every element that is not a string has a width, which fits into
  an \<open>int\<close>, IPv6 prefixes are matched at full width, and a composite field of UDFs has a width.
\<close>

definition element_width_ok :: "p4_config \<Rightarrow> ('b) p4_element_scheme \<Rightarrow> bool" where
  "element_width_ok p4_info e \<longleftrightarrow>
     int (pel_bitwidth e) < 2 ^ 31 \<and> (pel_bitwidth e = 0 \<longrightarrow> GetFormatForP4InfoElement (p4_new_types p4_info) e = Inr STRING)"

definition match_width_ok :: "p4_config \<Rightarrow> p4_match_field \<Rightarrow> bool" where
  "match_width_ok p4_info m \<longleftrightarrow>
     element_width_ok p4_info m \<and>
     (pmf_match_type m = LPM \<and> GetFormatForP4InfoElement (p4_new_types p4_info) m = Inr IPV6 \<longrightarrow>
        pel_bitwidth m = kNumBitsInIpv6) \<and>
     (composite_of_udfs (pel_annotations m) \<longrightarrow> 0 < pel_bitwidth m)"

definition p4_widths_ok :: "p4_config \<Rightarrow> bool" where
  "p4_widths_ok p4_info \<longleftrightarrow>
     list_all (\<lambda>a. list_all (element_width_ok p4_info) (pac_params a)) (p4_actions p4_info) \<and>
     list_all (\<lambda>t. list_all (match_width_ok p4_info) (ptb_match_fields t)) (p4_tables p4_info)"

abbreviation param_fits :: "ir_param_definition \<Rightarrow> bool" where
  "param_fits p \<equiv> format_fits (ipd_format p) (ipd_bitwidth p)"

abbreviation field_fits :: "ir_match_field_definition \<Rightarrow> bool" where
  "field_fits d \<equiv> match_field_ok d \<and> (composite_of_udfs (mfd_annotations d) \<longrightarrow> 0 < mfd_bitwidth d)"

definition action_built :: "ir_action_definition \<Rightarrow> bool" where
  "action_built a \<longleftrightarrow> keyed_maps ipd_id ipd_name param_fits (iad_params_by_id a) (iad_params_by_name a)"

definition table_built :: "ir_table_definition \<Rightarrow> bool" where
  "table_built t \<longleftrightarrow> keyed_maps mfd_id mfd_name field_fits (itd_match_fields_by_id t) (itd_match_fields_by_name t)"

lemma GetFormatForP4InfoElement_fits:
  assumes "GetFormatForP4InfoElement new_types e = Inr f" "0 < pel_bitwidth e \<or> f = STRING"
  shows "format_fits f (pel_bitwidth e)"
  using assms GetFormat_fits by (auto simp: GetFormatForP4InfoElement_def)

lemma create_param_built:
  assumes "create_param p4_info param (a, refs) = Inr (a', refs')" "action_built a" "element_width_ok p4_info param"
  shows "action_built a' \<and> iad_id a' = iad_id a \<and> iad_alias a' = iad_alias a"
proof -
  from assms(1) obtain f new where f: "GetFormatForP4InfoElement (p4_new_types p4_info) param = Inr f"
    and a': "pel_id param \<notin> fst ` set (iad_params_by_id a)" "pel_name param \<notin> fst ` set (iad_params_by_name a)"
      "a' = (let p = \<lparr>ipd_id = pel_id param, ipd_name = pel_name param, ipd_annotations = pel_annotations param,
           ipd_bitwidth = pel_bitwidth param, ipd_type_name = type_name_text (pel_type_name param),
           ipd_format = f, ipd_references = new\<rparr> in
         a\<lparr>iad_params_by_id := iad_params_by_id a @ [(pel_id param, p)],
           iad_params_by_name := iad_params_by_name a @ [(pel_name param, p)]\<rparr>)"
    by (auto simp: create_param_def Let_def)
  have "format_fits f (pel_bitwidth param)"
    using f assms(3) by (intro GetFormatForP4InfoElement_fits [OF f]) (auto simp: element_width_ok_def)
  then show ?thesis
    using keyed_maps_insert [of ipd_id ipd_name param_fits _ _ "\<lparr>ipd_id = pel_id param, ipd_name = pel_name param,
           ipd_annotations = pel_annotations param,
           ipd_bitwidth = pel_bitwidth param, ipd_type_name = type_name_text (pel_type_name param),
           ipd_format = f, ipd_references = new\<rparr>"] assms(2) a'
    by (simp add: action_built_def Let_def)
qed

lemma create_match_field_built:
  assumes "create_match_field p4_info m (t, refs) = Inr (t', refs')" "table_built t" "match_width_ok p4_info m"
  shows "table_built t' \<and> itd_id t' = itd_id t \<and> itd_alias t' = itd_alias t \<and> itd_entry_actions t' = itd_entry_actions t \<and>
    itd_outgoing_references t' = itd_outgoing_references t"
proof -
  let ?d = "\<lambda>f new. \<lparr>mfd_id = pel_id m, mfd_name = pel_name m,
           mfd_annotations = pel_annotations m, mfd_bitwidth = pel_bitwidth m,
           mfd_match_type = pmf_match_type m, mfd_type_name = type_name_text (pel_type_name m),
           mfd_format = f, mfd_is_unsupported = ExpensiveIsElementUnsupported (pel_annotations m),
           mfd_references = new\<rparr>"
  from assms(1) obtain f new pr where f: "GetFormatForP4InfoElement (p4_new_types p4_info) m = Inr f"
    and v: "ValidateMatchFieldDefinition (pmf_match_type m) f = OK"
    and t': "pel_id m \<notin> fst ` set (itd_match_fields_by_id t)" "pel_name m \<notin> fst ` set (itd_match_fields_by_name t)"
      "t' = t\<lparr>itd_requires_priority := pr, itd_match_fields_by_id := itd_match_fields_by_id t @ [(pel_id m, ?d f new)],
           itd_match_fields_by_name := itd_match_fields_by_name t @ [(pel_name m, ?d f new)]\<rparr>"
    by (auto simp: create_match_field_def Let_def)
  have "format_fits f (pel_bitwidth m)"
    using f assms(3) by (intro GetFormatForP4InfoElement_fits [OF f]) (auto simp: match_width_ok_def element_width_ok_def)
  then have "field_fits (?d f new)"
    using assms(3) f v
    by (auto simp: match_field_ok_def match_width_ok_def element_width_ok_def ValidateMatchFieldDefinition_def
        split: match_type.splits if_splits)
  then show ?thesis
    using keyed_maps_insert [of mfd_id mfd_name field_fits _ _ "?d f new"] assms(2) t'
    by (simp add: table_built_def)
qed

lemma create_params_built:
  assumes "fold_or (create_param p4_info) ps (a, refs) = Inr (a', refs')" "action_built a"
    "list_all (element_width_ok p4_info) ps"
  shows "action_built a' \<and> iad_id a' = iad_id a \<and> iad_alias a' = iad_alias a"
  using assms
proof (induction ps arbitrary: a refs)
  case (Cons p ps)
  then obtain b rb where b: "create_param p4_info p (a, refs) = Inr (b, rb)"
    "fold_or (create_param p4_info) ps (b, rb) = Inr (a', refs')" by auto
  have "action_built b \<and> iad_id b = iad_id a \<and> iad_alias b = iad_alias a"
    using create_param_built [OF b(1)] Cons.prems by simp
  then show ?case using Cons.IH [OF b(2)] Cons.prems by simp
qed simp

lemma create_match_fields_built:
  assumes "fold_or (create_match_field p4_info) ms (t, refs) = Inr (t', refs')" "table_built t"
    "list_all (match_width_ok p4_info) ms"
  shows "table_built t' \<and> itd_id t' = itd_id t \<and> itd_alias t' = itd_alias t \<and> itd_entry_actions t' = itd_entry_actions t \<and>
    itd_outgoing_references t' = itd_outgoing_references t"
  using assms
proof (induction ms arbitrary: t refs)
  case (Cons m ms)
  then obtain u ru where u: "create_match_field p4_info m (t, refs) = Inr (u, ru)"
    "fold_or (create_match_field p4_info) ms (u, ru) = Inr (t', refs')" by auto
  note one = create_match_field_built [OF u(1)]
  show ?case using Cons.IH [OF u(2)] one Cons.prems by simp
qed simp

definition info_built :: "ir_p4info \<Rightarrow> bool" where
  "info_built info \<longleftrightarrow>
     tables_in_sync info \<and> actions_in_sync info \<and> list_all action_built (actions_of info) \<and>
     list_all (\<lambda>t. table_built t \<and> set (itd_entry_actions t) \<subseteq> set (actions_of info)) (tables_of info)"

lemma info_built_frame:
  "tables_by_id_entries i = tables_by_id_entries j \<Longrightarrow> tables_by_name_entries i = tables_by_name_entries j \<Longrightarrow>
   actions_by_id_entries i = actions_by_id_entries j \<Longrightarrow> actions_by_name_entries i = actions_by_name_entries j \<Longrightarrow>
   info_built i \<longleftrightarrow> info_built j"
  by (simp add: info_built_def tables_in_sync_def actions_in_sync_def tables_of_def actions_of_def)

lemma info_built_empty: "info_built empty_p4info"
  by (simp add: info_built_def tables_in_sync_def actions_in_sync_def tables_of_def actions_of_def empty_p4info_def)

lemma create_action_built:
  assumes "create_action p4_info action info = Inr info'" "info_built info"
    "list_all (element_width_ok p4_info) (pac_params action)"
  shows "info_built info'"
proof -
  let ?pre = "pac_preamble action"
  let ?a = "\<lparr>iad_id = pre_id ?pre, iad_name = pre_name ?pre, iad_alias = pre_alias ?pre,
             iad_annotations = pre_annotations ?pre, iad_params_by_id = [], iad_params_by_name = [],
             iad_is_unsupported = ExpensiveIsElementUnsupported (pre_annotations ?pre)\<rparr>"
  from assms(1) obtain a refs where a: "fold_or (create_param p4_info) (pac_params action) (?a, references info) = Inr (a, refs)"
    and fresh: "pre_id ?pre \<notin> fst ` set (actions_by_id_entries info)" "pre_alias ?pre \<notin> fst ` set (actions_by_name_entries info)"
    and info': "info' = info\<lparr>actions_by_id_entries := actions_by_id_entries info @ [(pre_id ?pre, a)],
      actions_by_name_entries := actions_by_name_entries info @ [(pre_alias ?pre, a)], references := refs\<rparr>"
    by (auto simp: create_action_def Let_def)
  have built: "action_built a" "iad_id a = pre_id ?pre" "iad_alias a = pre_alias ?pre"
    using create_params_built [OF a _ assms(3)] by (simp_all add: action_built_def)
  have "actions_in_sync info' \<and> actions_of info' = actions_of info @ [a]"
    using assms(2) fresh by (intro insert_action_sync) (simp_all add: info_built_def info' built)
  moreover have "tables_in_sync info' \<longleftrightarrow> tables_in_sync info" "tables_of info' = tables_of info"
    by (simp_all add: tables_in_sync_def tables_of_def info')
  ultimately show ?thesis using assms(2) built(1) by (auto simp: info_built_def list_all_iff)
qed

lemma create_action_refs_built:
  assumes "fold_or (create_action_ref info) refs t = Inr t'" "actions_in_sync info" "table_built t"
    "set (itd_entry_actions t) \<subseteq> set (actions_of info)"
  shows "table_built t' \<and> set (itd_entry_actions t') \<subseteq> set (actions_of info) \<and> itd_id t' = itd_id t \<and> itd_alias t' = itd_alias t \<and>
    itd_outgoing_references t' = itd_outgoing_references t"
proof -
  let ?P = "\<lambda>u. table_built u \<and> set (itd_entry_actions u) \<subseteq> set (actions_of info) \<and> itd_id u = itd_id t \<and> itd_alias u = itd_alias t \<and>
    itd_outgoing_references u = itd_outgoing_references t"
  show ?thesis
  proof (rule fold_or_invariant [OF assms(1), of ?P])
    fix r u v
    assume u: "?P u" "create_action_ref info r u = Inr v"
    then obtain a where "actions_by_id info (par_id r) = Some a"
      "v = u\<lparr>itd_default_only_actions := itd_default_only_actions u @ [a]\<rparr> \<or> v = u\<lparr>itd_entry_actions := itd_entry_actions u @ [a]\<rparr>"
      by (auto simp: create_action_ref_def split: if_splits)
    with u(1) show "?P v" using assms(2) by (auto simp: actions_by_id_iff table_built_def)
  qed (use assms in simp)
qed

text \<open>Until references are added, no table has any, and there are no ranks.\<close>

definition info_fresh :: "ir_p4info \<Rightarrow> bool" where
  "info_fresh info \<longleftrightarrow> info_built info \<and> list_all (\<lambda>t. itd_outgoing_references t = []) (tables_of info) \<and>
     dependency_rank_by_table_name_entries info = []"

lemma info_fresh_frame:
  "tables_by_id_entries i = tables_by_id_entries j \<Longrightarrow> tables_by_name_entries i = tables_by_name_entries j \<Longrightarrow>
   actions_by_id_entries i = actions_by_id_entries j \<Longrightarrow> actions_by_name_entries i = actions_by_name_entries j \<Longrightarrow>
   dependency_rank_by_table_name_entries i = dependency_rank_by_table_name_entries j \<Longrightarrow> info_fresh i \<longleftrightarrow> info_fresh j"
  using info_built_frame [of i j] by (simp add: info_fresh_def tables_of_def)

lemma create_table_fresh:
  assumes "create_table p4_info table info = Inr info'" "info_fresh info"
    "list_all (match_width_ok p4_info) (ptb_match_fields table)"
  shows "info_fresh info'"
proof -
  let ?pre = "ptb_preamble table"
  from assms(1) obtain t0 t1 refs t2 def where
    t1: "fold_or (create_match_field p4_info) (ptb_match_fields table) (t0, references info) = Inr (t1, refs)"
    and t0: "itd_id t0 = pre_id ?pre" "itd_alias t0 = pre_alias ?pre" "itd_entry_actions t0 = []"
      "itd_match_fields_by_id t0 = []" "itd_match_fields_by_name t0 = []" "itd_outgoing_references t0 = []"
    and t2: "fold_or (create_action_ref info) (ptb_action_refs table) t1 = Inr t2"
    and fresh: "pre_id ?pre \<notin> fst ` set (tables_by_id_entries info)" "pre_alias ?pre \<notin> fst ` set (tables_by_name_entries info)"
    and info': "info' = info\<lparr>
        tables_by_id_entries := tables_by_id_entries info @ [(pre_id ?pre, t2\<lparr>itd_const_default_action := def\<rparr>)],
        tables_by_name_entries := tables_by_name_entries info @ [(pre_alias ?pre, t2\<lparr>itd_const_default_action := def\<rparr>)],
        references := refs\<rparr>"
    unfolding create_table_def Let_def by (auto simp: split_def split: if_splits)
  have one: "table_built t1 \<and> itd_id t1 = pre_id ?pre \<and> itd_alias t1 = pre_alias ?pre \<and> itd_entry_actions t1 = [] \<and>
      itd_outgoing_references t1 = []"
    using create_match_fields_built [OF t1 _ assms(3)] by (simp add: t0 table_built_def)
  have two: "table_built t2 \<and> set (itd_entry_actions t2) \<subseteq> set (actions_of info) \<and> itd_id t2 = pre_id ?pre \<and> itd_alias t2 = pre_alias ?pre \<and>
      itd_outgoing_references t2 = []"
    using create_action_refs_built [OF t2] assms(2) one by (simp add: info_fresh_def info_built_def)
  let ?t = "t2\<lparr>itd_const_default_action := def\<rparr>"
  have "tables_in_sync info' \<and> tables_of info' = tables_of info @ [?t]"
    using assms(2) fresh by (intro insert_table_sync) (simp_all add: info_fresh_def info_built_def info' two)
  moreover have "actions_in_sync info' \<longleftrightarrow> actions_in_sync info" "actions_of info' = actions_of info"
    by (simp_all add: actions_in_sync_def actions_of_def info')
  ultimately show ?thesis using assms(2) two by (auto simp: info_fresh_def info_built_def list_all_iff table_built_def info')
qed

text \<open>A table may get a counter, a meter or references.\<close>

lemma update_table_built:
  assumes "info_built info" "t \<in> set (tables_of info)"
    and f: "\<And>t. itd_id (f t) = itd_id t" "\<And>t. itd_alias (f t) = itd_alias t" "\<And>t. table_built (f t) = table_built t"
      "\<And>t. itd_entry_actions (f t) = itd_entry_actions t"
  shows "info_built (update_table (itd_id t) (itd_alias t) f info) \<and>
    tables_of (update_table (itd_id t) (itd_alias t) f info) = map (\<lambda>u. if u = t then f u else u) (tables_of info)"
proof -
  have "tables_in_sync (update_table (itd_id t) (itd_alias t) f info)"
    "tables_of (update_table (itd_id t) (itd_alias t) f info) = map (\<lambda>u. if u = t then f u else u) (tables_of info)"
    using update_table_sync [of info t f] assms by (simp_all add: info_built_def)
  moreover have "actions_in_sync (update_table (itd_id t) (itd_alias t) f info) \<longleftrightarrow> actions_in_sync info"
    "actions_of (update_table (itd_id t) (itd_alias t) f info) = actions_of info"
    by (simp_all add: actions_in_sync_def actions_of_def)
  ultimately show ?thesis using assms by (auto simp: info_built_def list_all_iff)
qed

lemma update_by_id_fresh:
  assumes "info_fresh info" "tables_by_id info i = Some t"
    and "\<And>t. itd_id (f t) = itd_id t" "\<And>t. itd_alias (f t) = itd_alias t" "\<And>t. table_built (f t) = table_built t"
      "\<And>t. itd_entry_actions (f t) = itd_entry_actions t" "\<And>t. itd_outgoing_references (f t) = itd_outgoing_references t"
  shows "info_fresh (update_table i (itd_alias t) f info)"
proof -
  have "t \<in> set (tables_of info)" "itd_id t = i" using assms(1,2) by (simp_all add: info_fresh_def info_built_def tables_by_id_iff)
  then show ?thesis using update_table_built [of info t f] assms by (simp add: info_fresh_def list_all_iff)
qed

lemma create_counter_fresh: "create_counter c info = Inr info' \<Longrightarrow> info_fresh info \<Longrightarrow> info_fresh info'"
  by (auto simp: create_counter_def table_built_def intro!: update_by_id_fresh)

lemma create_meter_fresh: "create_meter c info = Inr info' \<Longrightarrow> info_fresh info \<Longrightarrow> info_fresh info'"
  by (auto simp: create_meter_def table_built_def intro!: update_by_id_fresh)

lemma create_action_profile_fresh: "create_action_profile p info = Inr info' \<Longrightarrow> info_fresh info \<Longrightarrow> info_fresh info'"
  using info_fresh_frame [of info' info] by (auto simp: create_action_profile_def)

lemma create_packet_metadata_fresh: "create_packet_metadata p4_info m info = Inr info' \<Longrightarrow> info_fresh info \<Longrightarrow> info_fresh info'"
  using info_fresh_frame [of info' info] by (auto simp: create_packet_metadata_def split: if_splits)

lemma create_action_fresh:
  assumes "create_action p4_info a info = Inr info'" "info_fresh info" "list_all (element_width_ok p4_info) (pac_params a)"
  shows "info_fresh info'"
proof -
  have "tables_of info' = tables_of info \<and> dependency_rank_by_table_name_entries info' = dependency_rank_by_table_name_entries info"
    using assms(1) by (auto simp: create_action_def Let_def split_def tables_of_def)
  then show ?thesis using create_action_built [OF assms(1)] assms(2,3) by (simp add: info_fresh_def)
qed

text \<open>A reference leads to a table of the program or to a built-in table.\<close>

definition table_names :: "ir_p4info \<Rightarrow> (nat \<times> string) list" where
  "table_names info = map (\<lambda>t. (itd_id t, itd_alias t)) (tables_of info)"

definition names_table :: "(nat \<times> string) list \<Rightarrow> ir_table \<Rightarrow> bool" where
  "names_table names table =
     (case table of
        P4Table n i \<Rightarrow> (i, n) \<in> set names
      | BuiltInTable b \<Rightarrow> b \<noteq> BUILT_IN_TABLE_UNSPECIFIED
      | IrTableNotSet \<Rightarrow> False)"

definition built_in_names :: "string list" where
  "built_in_names = [GetMulticastGroupTableName, GetCloneSessionTableName]"

definition outgoing_named :: "ir_p4info \<Rightarrow> bool" where
  "outgoing_named info \<longleftrightarrow>
     map fst (built_in_tables_entries info) = built_in_names \<and>
     list_all (\<lambda>t. list_all (\<lambda>r. names_table (table_names info) (itr_destination_table r)) (itd_outgoing_references t))
       (tables_of info) \<and>
     list_all (\<lambda>(_, t). list_all (\<lambda>r. names_table (table_names info) (itr_destination_table r)) (ibt_outgoing_references t))
       (built_in_tables_entries info)"

lemma CreateIrTable_names: "info_built info \<Longrightarrow> CreateIrTable info n = Inr table \<Longrightarrow> names_table (table_names info) table"
  by (auto simp: CreateIrTable_def CreateIrBuiltInTable_def CreateIrP4Table_def names_table_def StringToIrBuiltInTable_def
      info_built_def tables_by_name_iff table_names_def image_iff split: if_splits)

lemma ParseIrTableReferences_names:
  assumes "info_built info" "ParseIrTableReferences info = Inr rs" "r \<in> set rs"
  shows "names_table (table_names info) (itr_source_table r) \<and> names_table (table_names info) (itr_destination_table r)"
proof -
  from assms(2) obtain xs ps where rs: "map_or (assemble_reference info xs) ps = Inr rs"
    by (auto simp: ParseIrTableReferences_def)
  from map_or_set [OF rs] assms(3) obtain p where "assemble_reference info xs p = Inr r" by blast
  then show ?thesis
    by (auto simp: assemble_reference_def split_def dest: CreateIrTable_names [OF assms(1)])
qed

lemma update_named_built:
  assumes "info_built info" "(i, n) \<in> set (table_names info)"
    and "\<And>t. itd_id (f t) = itd_id t" "\<And>t. itd_alias (f t) = itd_alias t" "\<And>t. table_built (f t) = table_built t"
      "\<And>t. itd_entry_actions (f t) = itd_entry_actions t"
  shows "info_built (update_table i n f info) \<and> table_names (update_table i n f info) = table_names info \<and>
    set (tables_of (update_table i n f info)) \<subseteq> set (tables_of info) \<union> f ` set (tables_of info)"
proof -
  from assms(2) obtain t where t: "t \<in> set (tables_of info)" "i = itd_id t" "n = itd_alias t" by (auto simp: table_names_def)
  show ?thesis unfolding t(2,3) using update_table_built [OF assms(1) t(1) assms(3-6)] by (auto simp: table_names_def assms)
qed


lemma map_entry_set: "(k, v) \<in> set (AList.map_entry n f xs) \<Longrightarrow> (k, v) \<in> set xs \<or> (\<exists>w. (k, w) \<in> set xs \<and> v = f w)"
  by (induction xs) (auto split: if_splits)

lemma map_entry_keys: "map fst (AList.map_entry n f xs) = map fst xs"
  by (induction xs) auto

lemma InsertOutgoingReferenceInfo_built:
  assumes "InsertOutgoingReferenceInfo r info = Inr info'" "info_built info" "outgoing_named info"
    "names_table (table_names info) (itr_source_table r)" "names_table (table_names info) (itr_destination_table r)"
  shows "info_built info' \<and> outgoing_named info' \<and> table_names info' = table_names info"
proof (cases "itr_source_table r")
  case (P4Table n i)
  let ?f = "\<lambda>t. t\<lparr>itd_outgoing_references := itd_outgoing_references t @ [r]\<rparr>"
  from assms(1) P4Table have info': "info' = update_table i n ?f info"
    by (auto simp: InsertOutgoingReferenceInfo_def split: if_splits)
  have u: "info_built info' \<and> table_names info' = table_names info \<and>
      set (tables_of info') \<subseteq> set (tables_of info) \<union> ?f ` set (tables_of info)"
    unfolding info' by (rule update_named_built) (use assms(2,4) P4Table in \<open>simp_all add: names_table_def table_built_def\<close>)
  then have "list_all (\<lambda>t. list_all (\<lambda>r. names_table (table_names info') (itr_destination_table r)) (itd_outgoing_references t))
       (tables_of info')"
    using assms(3,5) unfolding outgoing_named_def list_all_iff by fastforce
  with u assms(3) show ?thesis by (simp add: outgoing_named_def info')
next
  case (BuiltInTable b)
  let ?f = "\<lambda>t. t\<lparr>ibt_outgoing_references := ibt_outgoing_references t @ [r]\<rparr>"
  from assms(1) BuiltInTable obtain n where info': "info' = update_built_in_table n ?f info"
    by (auto simp: InsertOutgoingReferenceInfo_def)
  have "info_built info' = info_built info"
    by (rule info_built_frame) (simp_all add: info' update_built_in_table_def)
  moreover have t: "tables_of info' = tables_of info" "table_names info' = table_names info"
    by (simp_all add: info' update_built_in_table_def tables_of_def table_names_def)
  have "list_all (\<lambda>(_, t). list_all (\<lambda>r. names_table (table_names info) (itr_destination_table r)) (ibt_outgoing_references t))
       (built_in_tables_entries info')"
    using assms(3,5) unfolding outgoing_named_def list_all_iff info' update_built_in_table_def
    by (fastforce dest!: map_entry_set)
  ultimately show ?thesis using assms(2,3) t
    by (simp add: outgoing_named_def info' update_built_in_table_def map_entry_keys)
qed (use assms(1) in \<open>simp add: InsertOutgoingReferenceInfo_def\<close>)

lemma InsertIncomingReferenceInfo_built:
  assumes "InsertIncomingReferenceInfo r info = Inr info'" "info_built info" "outgoing_named info"
    "names_table (table_names info) (itr_destination_table r)"
  shows "info_built info' \<and> outgoing_named info' \<and> table_names info' = table_names info"
proof (cases "itr_destination_table r")
  case (P4Table n i)
  let ?f = "\<lambda>t. t\<lparr>itd_incoming_references := itd_incoming_references t @ [r]\<rparr>"
  from assms(1) P4Table have info': "info' = update_table i n ?f info"
    by (auto simp: InsertIncomingReferenceInfo_def split: if_splits)
  have u: "info_built info' \<and> table_names info' = table_names info \<and>
      set (tables_of info') \<subseteq> set (tables_of info) \<union> ?f ` set (tables_of info)"
    unfolding info' by (rule update_named_built) (use assms(2,4) P4Table in \<open>simp_all add: names_table_def table_built_def\<close>)
  then have "list_all (\<lambda>t. list_all (\<lambda>r. names_table (table_names info') (itr_destination_table r)) (itd_outgoing_references t))
       (tables_of info')"
    using assms(3) unfolding outgoing_named_def list_all_iff by fastforce
  with u assms(3) show ?thesis by (simp add: outgoing_named_def info')
next
  case (BuiltInTable b)
  let ?f = "\<lambda>t. t\<lparr>ibt_incoming_references := ibt_incoming_references t @ [r]\<rparr>"
  from assms(1) BuiltInTable obtain n where info': "info' = update_built_in_table n ?f info"
    by (auto simp: InsertIncomingReferenceInfo_def)
  have "info_built info' = info_built info"
    by (rule info_built_frame) (simp_all add: info' update_built_in_table_def)
  moreover have t: "tables_of info' = tables_of info" "table_names info' = table_names info"
    by (simp_all add: info' update_built_in_table_def tables_of_def table_names_def)
  have "list_all (\<lambda>(_, t). list_all (\<lambda>r. names_table (table_names info) (itr_destination_table r)) (ibt_outgoing_references t))
       (built_in_tables_entries info')"
    using assms(3) unfolding outgoing_named_def list_all_iff info' update_built_in_table_def
    by (fastforce dest!: map_entry_set)
  ultimately show ?thesis using assms(2,3) t
    by (simp add: outgoing_named_def info' update_built_in_table_def map_entry_keys)
qed (use assms(1) in \<open>simp add: InsertIncomingReferenceInfo_def\<close>)


lemma add_reference_info_built:
  assumes "add_reference_info r info = Inr info'" "info_built info" "outgoing_named info"
    "names_table (table_names info) (itr_source_table r)" "names_table (table_names info) (itr_destination_table r)"
  shows "info_built info' \<and> outgoing_named info' \<and> table_names info' = table_names info"
proof -
  from assms(1) obtain i where i: "InsertOutgoingReferenceInfo r info = Inr i" "InsertIncomingReferenceInfo r i = Inr info'"
    by (auto simp: add_reference_info_def)
  have o: "info_built i \<and> outgoing_named i \<and> table_names i = table_names info"
    using InsertOutgoingReferenceInfo_built [OF i(1) assms(2-5)] .
  then show ?thesis using InsertIncomingReferenceInfo_built [OF i(2)] assms(5) by simp
qed

lemma InsertReferenceInfo_rank:
  "InsertOutgoingReferenceInfo r info = Inr info' \<Longrightarrow>
     dependency_rank_by_table_name_entries info' = dependency_rank_by_table_name_entries info"
  "InsertIncomingReferenceInfo r info = Inr info' \<Longrightarrow>
     dependency_rank_by_table_name_entries info' = dependency_rank_by_table_name_entries info"
  by (cases "itr_source_table r";
      auto simp: InsertOutgoingReferenceInfo_def update_built_in_table_def split: if_splits)
    (cases "itr_destination_table r";
      auto simp: InsertIncomingReferenceInfo_def update_built_in_table_def split: if_splits)

lemma add_reference_info_rank:
  "add_reference_info r info = Inr info' \<Longrightarrow>
     dependency_rank_by_table_name_entries info' = dependency_rank_by_table_name_entries info"
  by (auto simp: add_reference_info_def InsertReferenceInfo_rank)

lemma create_definitions_built:
  assumes "create_definitions p4_info = Inr info" "p4_widths_ok p4_info"
  shows "info_built info \<and> outgoing_named info \<and> dependency_rank_by_table_name_entries info = []"
proof -
  from assms(1) obtain i1 i2 i3 i4 i5 i6 i7 rs where
    i1: "fold_or (create_action p4_info) (p4_actions p4_info) empty_p4info = Inr i1"
    and i2: "fold_or create_action_profile (p4_action_profiles p4_info) i1 = Inr i2"
    and i3: "fold_or (create_table p4_info) (p4_tables p4_info) i2 = Inr i3"
    and i4: "fold_or (create_packet_metadata p4_info) (p4_controller_packet_metadata p4_info) i3 = Inr i4"
    and i5: "fold_or create_counter (p4_direct_counters p4_info) i4 = Inr i5"
    and i6: "fold_or create_meter (p4_direct_meters p4_info) i5 = Inr i6"
    and i7: "create_built_in_tables i6 = Inr i7" and rs: "ParseIrTableReferences i7 = Inr rs"
    and info: "fold_or add_reference_info rs i7 = Inr info"
    unfolding create_definitions_def by auto
  note w = assms(2) [unfolded p4_widths_ok_def list_all_iff [of "\<lambda>a. list_all (element_width_ok p4_info) (pac_params a)"]
      list_all_iff [of "\<lambda>t. list_all (match_width_ok p4_info) (ptb_match_fields t)"]]
  have "info_fresh empty_p4info" using info_built_empty by (simp add: info_fresh_def empty_p4info_def tables_of_def)
  then have "info_fresh i1" by (rule fold_or_invariant [OF i1]) (use w create_action_fresh in blast)
  then have "info_fresh i2" by (rule fold_or_invariant [OF i2]) (rule create_action_profile_fresh)
  then have "info_fresh i3" by (rule fold_or_invariant [OF i3]) (use w create_table_fresh in blast)
  then have "info_fresh i4" by (rule fold_or_invariant [OF i4]) (rule create_packet_metadata_fresh)
  then have "info_fresh i5" by (rule fold_or_invariant [OF i5]) (rule create_counter_fresh)
  then have f6: "info_fresh i6" by (rule fold_or_invariant [OF i6]) (rule create_meter_fresh)
  have b: "i7 = i6\<lparr>built_in_tables_entries :=
      map (\<lambda>(n, t). (n, \<lparr>ibt_built_in_table = t, ibt_outgoing_references = [], ibt_incoming_references = []\<rparr>))
        [(GetMulticastGroupTableName, BUILT_IN_TABLE_MULTICAST_GROUP_TABLE), (GetCloneSessionTableName, BUILT_IN_TABLE_CLONE_SESSION_TABLE)]\<rparr>"
    using i7 by (simp add: create_built_in_tables_def IrBuiltInTableToString_def)
  have f7: "info_fresh i7" using info_fresh_frame [of i7 i6] f6 by (simp add: b)
  then have n7: "outgoing_named i7" by (auto simp: outgoing_named_def info_fresh_def b built_in_names_def list_all_iff)
  have "info_built info \<and> outgoing_named info \<and> table_names info = table_names i7 \<and> dependency_rank_by_table_name_entries info = []"
  proof (rule fold_or_invariant [OF info])
    fix r i j
    assume r: "r \<in> set rs" "info_built i \<and> outgoing_named i \<and> table_names i = table_names i7 \<and> dependency_rank_by_table_name_entries i = []"
      and j: "add_reference_info r i = Inr j"
    then show "info_built j \<and> outgoing_named j \<and> table_names j = table_names i7 \<and> dependency_rank_by_table_name_entries j = []"
      using add_reference_info_built [OF j] add_reference_info_rank [OF j]
        ParseIrTableReferences_names [OF _ rs r(1)] f7 by (simp add: info_fresh_def)
  qed (use f7 n7 in \<open>simp add: info_fresh_def\<close>)
  then show ?thesis by simp
qed


lemma info_built_ok: "info_built info \<Longrightarrow> p4info_ok info"
proof -
  assume b: "info_built info"
  then have sync: "tables_in_sync info" "actions_in_sync info" by (simp_all add: info_built_def)
  have "param_def_ok a" if "a \<in> set (actions_of info)" for a
  proof -
    have "keyed_maps ipd_id ipd_name param_fits (iad_params_by_id a) (iad_params_by_name a)"
      using b that by (simp add: info_built_def list_all_iff action_built_def)
    from keyed_maps_lookup [OF this] show ?thesis unfolding param_def_ok_def by blast
  qed
  moreover have "table_def_ok t" if "t \<in> set (tables_of info)" for t
  proof -
    have "keyed_maps mfd_id mfd_name field_fits (itd_match_fields_by_id t) (itd_match_fields_by_name t)"
      using b that by (simp add: info_built_def list_all_iff table_built_def)
    from keyed_maps_lookup [OF this] show ?thesis unfolding table_def_ok_def by blast
  qed
  moreover have "set (itd_entry_actions t) \<subseteq> set (actions_of info)" if "t \<in> set (tables_of info)" for t
    using b that by (simp add: info_built_def list_all_iff)
  ultimately show ?thesis using sync
    by (auto simp: p4info_ok_def tables_by_id_iff tables_by_name_iff actions_by_id_iff actions_by_name_iff)
qed

lemma outgoing_named_sound:
  assumes "info_built info" "outgoing_named info"
  shows "references_sound info"
proof -
  have names: "set (known_tables info) = itd_alias ` set (tables_of info) \<union> set built_in_names"
    using assms by (auto simp: known_tables_def info_built_def tables_in_sync_def outgoing_named_def image_comp)
  have dest: "case GetNameOfTable (itr_destination_table r) of Inl _ \<Rightarrow> False | Inr d \<Rightarrow> d \<in> set (known_tables info)"
    if "names_table (table_names info) (itr_destination_table r)" for r
    using that unfolding names
    by (cases "itr_destination_table r")
      (auto simp: names_table_def table_names_def GetNameOfTable_def IrBuiltInTableToString_def built_in_names_def
        split: ir_built_in_table.splits)
  have built: "IsBuiltInTable n \<longleftrightarrow> n \<in> set built_in_names" for n
    by (auto simp: IsBuiltInTable_def StringToIrBuiltInTable_def built_in_names_def)
  have "\<exists>rs. rank_references info n = Inr rs \<and> (\<forall>r \<in> set rs. names_table (table_names info) (itr_destination_table r))"
    if n: "n \<in> set (known_tables info)" for n
  proof (cases "IsBuiltInTable n")
    case True
    then have "n \<in> fst ` set (built_in_tables_entries info)"
      using assms(2) built by (metis list.set_map outgoing_named_def)
    then obtain t where t: "built_in_tables info n = Some t"
      unfolding built_in_tables_def by (metis image_iff map_of_eq_None_iff not_None_eq)
    then have "(n, t) \<in> set (built_in_tables_entries info)" by (simp add: built_in_tables_def map_of_SomeD)
    with True t assms(2) show ?thesis by (auto simp: rank_references_def outgoing_named_def list_all_iff)
  next
    case False
    with n names built obtain t where t: "t \<in> set (tables_of info)" "itd_alias t = n" by auto
    then have "tables_by_name info n = Some t" using assms(1) by (simp add: info_built_def tables_by_name_iff)
    with False t assms(2) show ?thesis by (auto simp: rank_references_def outgoing_named_def list_all_iff)
  qed
  then have "case rank_references info n of Inl _ \<Rightarrow> False
    | Inr rs \<Rightarrow> list_all (\<lambda>r. case GetNameOfTable (itr_destination_table r) of
             Inl _ \<Rightarrow> False | Inr d \<Rightarrow> d \<in> set (known_tables info)) rs" if "n \<in> set (known_tables info)" for n
    using that dest by (fastforce simp: list_all_iff)
  then show ?thesis by (simp add: references_sound_def list_all_iff)
qed

section \<open>Removal of unsupported entities keeps the guarantees\<close>

lemma keyed_maps_filter:
  assumes "keyed_maps k l P m n"
  shows "keyed_maps k l P (filter (\<lambda>(_, x). Q x) m) (filter (\<lambda>(_, x). Q x) n)"
proof -
  from assms obtain xs where xs: "m = map (\<lambda>x. (k x, x)) xs" "n = map (\<lambda>x. (l x, x)) xs"
    "distinct (map k xs)" "distinct (map l xs)" "list_all P xs" by (auto simp: keyed_maps_def)
  have "filter (\<lambda>(_, x). Q x) m = map (\<lambda>x. (k x, x)) (filter Q xs)" "filter (\<lambda>(_, x). Q x) n = map (\<lambda>x. (l x, x)) (filter Q xs)"
    by (simp_all add: xs(1,2) filter_map comp_def)
  moreover have "distinct (map k (filter Q xs))" "distinct (map l (filter Q xs))" "list_all P (filter Q xs)"
    using xs(3-5) by (auto simp: distinct_map_filter list_all_iff)
  ultimately show ?thesis unfolding keyed_maps_def by blast
qed

lemma keyed_maps_map:
  assumes "keyed_maps k l P m n" "\<And>x. k (f x) = k x" "\<And>x. l (f x) = l x" "\<And>x. P x \<Longrightarrow> Q (f x)"
  shows "keyed_maps k l Q (map (\<lambda>(a, x). (a, f x)) m) (map (\<lambda>(a, x). (a, f x)) n)"
proof -
  from assms(1) obtain xs where xs: "m = map (\<lambda>x. (k x, x)) xs" "n = map (\<lambda>x. (l x, x)) xs"
    "distinct (map k xs)" "distinct (map l xs)" "list_all P xs" by (auto simp: keyed_maps_def)
  have "map (\<lambda>(a, x). (a, f x)) m = map (\<lambda>x. (k x, x)) (map f xs)" "map (\<lambda>(a, x). (a, f x)) n = map (\<lambda>x. (l x, x)) (map f xs)"
    by (simp_all add: xs(1,2) comp_def assms)
  moreover have "distinct (map k (map f xs))" "distinct (map l (map f xs))" "list_all Q (map f xs)"
    using xs(3-5) by (auto simp: comp_def assms list_all_iff)
  ultimately show ?thesis unfolding keyed_maps_def by blast
qed

lemma keyed_maps_snd:
  "keyed_maps k l P m n \<longleftrightarrow>
     m = map (\<lambda>x. (k x, x)) (map snd m) \<and> n = map (\<lambda>x. (l x, x)) (map snd m) \<and>
     distinct (map k (map snd m)) \<and> distinct (map l (map snd m)) \<and> list_all P (map snd m)"
proof
  assume "keyed_maps k l P m n"
  then obtain xs where xs: "m = map (\<lambda>x. (k x, x)) xs" "n = map (\<lambda>x. (l x, x)) xs"
    "distinct (map k xs)" "distinct (map l xs)" "list_all P xs" by (auto simp: keyed_maps_def)
  then have "map snd m = xs" by (simp add: comp_def)
  with xs show "m = map (\<lambda>x. (k x, x)) (map snd m) \<and> n = map (\<lambda>x. (l x, x)) (map snd m) \<and>
     distinct (map k (map snd m)) \<and> distinct (map l (map snd m)) \<and> list_all P (map snd m)" by (simp only: simp_thms)
qed (unfold keyed_maps_def, blast)

text \<open>The construction's guarantees in terms of pairs of maps.\<close>

lemma info_built_iff:
  "info_built info \<longleftrightarrow>
     keyed_maps itd_id itd_alias (\<lambda>t. table_built t \<and> set (itd_entry_actions t) \<subseteq> snd ` set (actions_by_id_entries info))
       (tables_by_id_entries info) (tables_by_name_entries info) \<and>
     keyed_maps iad_id iad_alias action_built (actions_by_id_entries info) (actions_by_name_entries info)"
  unfolding info_built_def tables_in_sync_def actions_in_sync_def keyed_maps_snd tables_of_def actions_of_def set_map by blast

lemma map_tables_built:
  assumes "info_built info" "\<And>t. itd_id (f t) = itd_id t" "\<And>t. itd_alias (f t) = itd_alias t"
    "\<And>t. table_built t \<Longrightarrow> table_built (f t)" "\<And>t. set (itd_entry_actions (f t)) \<subseteq> set (itd_entry_actions t)"
  shows "info_built (map_tables f info)"
proof -
  have t: "keyed_maps itd_id itd_alias (\<lambda>t. table_built t \<and> set (itd_entry_actions t) \<subseteq> snd ` set (actions_by_id_entries info))
       (tables_by_id_entries info) (tables_by_name_entries info)" using assms(1) by (simp add: info_built_iff)
  have "keyed_maps itd_id itd_alias (\<lambda>t. table_built t \<and> set (itd_entry_actions t) \<subseteq> snd ` set (actions_by_id_entries info))
       (map (\<lambda>(k, t). (k, f t)) (tables_by_id_entries info)) (map (\<lambda>(k, t). (k, f t)) (tables_by_name_entries info))"
    by (rule keyed_maps_map [OF t]) (use assms(2-5) in \<open>blast+\<close>)
  then show ?thesis using assms(1) by (simp add: info_built_iff map_tables_def)
qed

lemma remove_match_fields_built: "table_built t \<Longrightarrow> table_built (remove_match_fields_of_table t)"
  by (simp add: table_built_def remove_match_fields_of_table_def keyed_maps_filter)

lemma RemoveUnsupportedTables_built: "info_built info \<Longrightarrow> info_built (RemoveUnsupportedTables info)"
  by (simp add: info_built_iff RemoveUnsupportedTables_def keyed_maps_filter)

lemma RemoveUnsupportedActions_built:
  assumes "info_built info"
  shows "info_built (RemoveUnsupportedActions info)"
proof -
  let ?as = "filter (\<lambda>(_, a). \<not> iad_is_unsupported a) (actions_by_id_entries info)"
  have "keyed_maps itd_id itd_alias (\<lambda>t. table_built t \<and> set (itd_entry_actions t) \<subseteq> snd ` set ?as)
       (map (\<lambda>(k, t). (k, remove_actions_of_table t)) (tables_by_id_entries info))
       (map (\<lambda>(k, t). (k, remove_actions_of_table t)) (tables_by_name_entries info))"
  proof (rule keyed_maps_map)
    show "keyed_maps itd_id itd_alias (\<lambda>t. table_built t \<and> set (itd_entry_actions t) \<subseteq> snd ` set (actions_by_id_entries info))
       (tables_by_id_entries info) (tables_by_name_entries info)" using assms by (simp add: info_built_iff)
    fix t
    assume t: "table_built t \<and> set (itd_entry_actions t) \<subseteq> snd ` set (actions_by_id_entries info)"
    have "a \<in> snd ` set ?as" if "a \<in> set (itd_entry_actions t)" "\<not> iad_is_unsupported a" for a
    proof -
      from t that(1) obtain i where "(i, a) \<in> set (actions_by_id_entries info)" by force
      then have "(i, a) \<in> set ?as" using that(2) by simp
      then show ?thesis by (rule rev_image_eqI) simp
    qed
    then show "table_built (remove_actions_of_table t) \<and> set (itd_entry_actions (remove_actions_of_table t)) \<subseteq> snd ` set ?as"
      using t by (auto simp: remove_actions_of_table_def table_built_def)
  qed (simp_all add: remove_actions_of_table_def)
  then show ?thesis using assms by (simp add: info_built_iff RemoveUnsupportedActions_def map_tables_def keyed_maps_filter)
qed

lemma RemoveUnsupportedMatchFields_built: "info_built info \<Longrightarrow> info_built (RemoveUnsupportedMatchFields info)"
  unfolding RemoveUnsupportedMatchFields_def
  by (rule map_tables_built, assumption)
    (simp_all add: remove_match_fields_built, simp_all add: remove_match_fields_of_table_def)

lemma RemoveDanglingReferences_built: "info_built info \<Longrightarrow> info_built (RemoveDanglingReferences info)"
proof -
  assume b: "info_built info"
  let ?m = "map_tables (\<lambda>t. t\<lparr>itd_incoming_references := remove_dangling info (itd_incoming_references t),
              itd_outgoing_references := remove_dangling info (itd_outgoing_references t)\<rparr>) info"
  have "info_built ?m" by (rule map_tables_built [OF b]) (simp_all add: table_built_def)
  moreover have "info_built (RemoveDanglingReferences info) = info_built ?m"
    by (rule info_built_frame) (simp_all add: RemoveDanglingReferences_def Let_def)
  ultimately show ?thesis by simp
qed

lemma RemoveUnsupportedEntities_built: "info_built info \<Longrightarrow> info_built (RemoveUnsupportedEntities info)"
  unfolding RemoveUnsupportedEntities_def
  by (intro RemoveDanglingReferences_built RemoveUnsupportedMatchFields_built RemoveUnsupportedActions_built
      RemoveUnsupportedTables_built)

lemma TranslateIrP4Info_built: "info_built info \<Longrightarrow> info_built (TranslateIrP4InfoForOrchAgent info)"
proof -
  assume b: "info_built info"
  have field: "field_fits d \<Longrightarrow> field_fits (SetCompositeUdfFieldFormatToHexString d)" for d
    by (auto simp: SetCompositeUdfFieldFormatToHexString_def match_field_ok_def format_fits_def)
  have "table_built t \<Longrightarrow> table_built (TranslateIrTableDefForOrchAgent t)" for t
    unfolding table_built_def TranslateIrTableDefForOrchAgent_def
    by (simp, rule keyed_maps_map, assumption)
      (simp_all add: SetCompositeUdfFieldFormatToHexString_def field [unfolded SetCompositeUdfFieldFormatToHexString_def])
  then have "info_built (map_tables TranslateIrTableDefForOrchAgent info)"
    by (intro map_tables_built [OF b]) (simp_all add: TranslateIrTableDefForOrchAgent_def)
  then show ?thesis by (simp add: map_tables_def TranslateIrP4InfoForOrchAgent_def)
qed


lemma map_tables_entries: "(k, t) \<in> set (tables_by_id_entries (map_tables f info)) \<Longrightarrow> \<exists>u. (k, u) \<in> set (tables_by_id_entries info) \<and> t = f u"
  by (auto simp: map_tables_def)

text \<open>No unsupported table, action or match field is left.\<close>

lemma RemoveUnsupportedEntities_supported:
  assumes "info_built info" "tables_by_id (RemoveUnsupportedEntities info) i = Some t"
  shows "\<not> itd_is_unsupported t \<and> list_all (\<lambda>a. \<not> iad_is_unsupported a) (itd_entry_actions t) \<and>
    list_all (\<lambda>(_, d). \<not> mfd_is_unsupported d) (itd_match_fields_by_id t)"
proof -
  from assms(2) have "(i, t) \<in> set (tables_by_id_entries (RemoveUnsupportedEntities info))"
    by (simp add: tables_by_id_def map_of_SomeD)
  then obtain u where u: "(i, u) \<in> set (tables_by_id_entries info)" "\<not> itd_is_unsupported u"
    and t: "itd_is_unsupported t = itd_is_unsupported u"
      "itd_entry_actions t = filter (\<lambda>a. \<not> iad_is_unsupported a) (itd_entry_actions u)"
      "itd_match_fields_by_id t = filter (\<lambda>(_, m). \<not> mfd_is_unsupported m) (itd_match_fields_by_id u)"
    by (auto simp: RemoveUnsupportedEntities_def RemoveDanglingReferences_def RemoveUnsupportedMatchFields_def
        RemoveUnsupportedActions_def RemoveUnsupportedTables_def map_tables_def Let_def remove_match_fields_of_table_def
        remove_actions_of_table_def)
  then show ?thesis by (auto simp: list_all_iff)
qed

text \<open>
  C6. \<open>CreateIrP4Info\<close> always returns or throws. If all definitions and references of the P4Info are
  well-formed then it succeeds exactly if the references between tables have no cycle. The result, also
  after removal of unsupported entities and after the changes for OrchAgent, has the properties that
  the translation of entities between PI and IR relies on, and a table has a lower dependency rank than
  every table it refers to.
\<close>

theorem CreateIrP4Info_spec:
  assumes "p4_widths_ok p4_info"
  shows "case create_definitions p4_info of
      Inl e \<Rightarrow> CreateIrP4Info p4_info = Some (Inl e)
    | Inr info \<Rightarrow>
        if acyclic (reference_graph info)
        then \<exists>info'. CreateIrP4Info p4_info = Some (Inr info') \<and> p4info_ok info' \<and>
          p4info_ok (TranslateIrP4InfoForOrchAgent (RemoveUnsupportedEntities info')) \<and>
          (reference_graph info)\<^sup>+ \<subseteq>
            {(n, d). the (dependency_rank_by_table_name info' n) < the (dependency_rank_by_table_name info' d)}
        else CreateIrP4Info p4_info = Some (Inl (Failed INVALID_ARGUMENT))"
proof (cases "create_definitions p4_info")
  case (Inr info)
  have built: "info_built info" "outgoing_named info" "dependency_rank_by_table_name_entries info = []"
    using create_definitions_built [OF Inr assms] by simp_all
  note ranks = dependency_ranks [OF outgoing_named_sound [OF built(1,2)] built(3)]
  show ?thesis
  proof (cases "acyclic (reference_graph info)")
    case True
    with ranks obtain info' where info': "ConstructDependencyRankByTableName info = Some (Inr info')"
      "(reference_graph info)\<^sup>+ \<subseteq>
            {(n, d). the (dependency_rank_by_table_name info' n) < the (dependency_rank_by_table_name info' d)}" by auto
    have "info_built info' = info_built info"
      by (rule info_built_frame) (use info'(1) in \<open>auto simp: ConstructDependencyRankByTableName_def\<close>)
    with built(1) have "info_built info'" by simp
    then show ?thesis using True Inr info'
      by (auto simp: CreateIrP4Info_def intro: info_built_ok TranslateIrP4Info_built RemoveUnsupportedEntities_built)
  next
    case False
    with ranks Inr show ?thesis by (simp add: CreateIrP4Info_def)
  qed
qed (simp add: CreateIrP4Info_def)

text \<open>
  An example: the match field of an unsupported table refers to another table.
\<close>

definition two_tables :: p4_config where
  "two_tables =
     \<lparr>p4_tables =
        [\<lparr>ptb_preamble = \<lparr>pre_id = 1, pre_name = ''ingress.vrf_table'', pre_alias = ''vrf_table'', pre_annotations = []\<rparr>,
          ptb_match_fields = [\<lparr>pel_id = 1, pel_name = ''vrf_id'', pel_annotations = [], pel_bitwidth = 10,
              pel_type_name = None, pmf_match_type = EXACT\<rparr>],
          ptb_action_refs = [\<lparr>par_id = 7, par_scope = TABLE_ONLY, par_annotations = [''@proto_id(1)'']\<rparr>],
          ptb_const_default_action_id = 0, ptb_implementation_id = 0, ptb_size = 64\<rparr>,
         \<lparr>ptb_preamble = \<lparr>pre_id = 2, pre_name = ''ingress.route_table'', pre_alias = ''route_table'',
              pre_annotations = [''@unsupported'']\<rparr>,
          ptb_match_fields = [\<lparr>pel_id = 1, pel_name = ''vrf_id'', pel_annotations = [''@refers_to(vrf_table, vrf_id)''],
              pel_bitwidth = 10, pel_type_name = None, pmf_match_type = EXACT\<rparr>],
          ptb_action_refs = [\<lparr>par_id = 7, par_scope = TABLE_ONLY, par_annotations = [''@proto_id(1)'']\<rparr>],
          ptb_const_default_action_id = 0, ptb_implementation_id = 0, ptb_size = 64\<rparr>],
      p4_actions = [\<lparr>pac_preamble = \<lparr>pre_id = 7, pre_name = ''ingress.no_action'', pre_alias = ''no_action'',
          pre_annotations = []\<rparr>, pac_params = []\<rparr>],
      p4_action_profiles = [], p4_direct_counters = [], p4_direct_meters = [], p4_controller_packet_metadata = [],
      p4_new_types = Map.empty\<rparr>"

text \<open>A number in an annotation that is missing or too large is not reported as a status.\<close>

lemma number_annotation_throws:
  assumes "parse_digits 10 0 number = Some n" "number = [] \<or> 2 ^ 31 \<le> int n"
  shows "GetNumberInAnnotation [''@'' @ annotation_name @ ''('' @ number @ '')''] annotation_name = Inl Thrown"
  using assms(1,2)
  by (simp add: GetNumberInAnnotation_def ConsumePrefix_def ConsumeSuffix_def StripSuffix_def stoi_def)

lemma two_tables_created:
  "p4_widths_ok two_tables"
  "case CreateIrP4Info two_tables of Some (Inr _) \<Rightarrow> True | _ \<Rightarrow> False"
  by code_simp+

theorem CreateIrP4Info_spec_witness:
  "p4_widths_ok two_tables \<and>
   (\<exists>info'. CreateIrP4Info two_tables = Some (Inr info') \<and> p4info_ok info' \<and>
      p4info_ok (TranslateIrP4InfoForOrchAgent (RemoveUnsupportedEntities info')))"
  using CreateIrP4Info_spec [OF two_tables_created(1)] two_tables_created
  by (auto split: sum.splits if_splits)

end
