(* ===== verification/Json_Values.thy ===== *)
theory Json_Values
  imports Ordered_Map "HOL-Library.Char_ord" "HOL-Library.List_Lexorder"
begin

text \<open>
  The values of \<open>nlohmann::json\<close> that the switch configuration code builds before it writes their
  text into the application database: null, strings, numbers, arrays, and objects whose members
  are kept in key order. The text itself (\<open>dump\<close>) is a parameter of the definitions that write
  it. A type error, which the library throws, is \<open>None\<close>.
\<close>

datatype json =
    JNull
  | JStr string
  | JNum int
  | JArr "json list"
  | JObj "(string \<times> json) list"

text \<open>\<open>json[key] = value\<close> and the read \<open>json[key]\<close>, which inserts null under a missing key; \<open>json.erase\<close>.\<close>

fun json_set :: "string \<Rightarrow> json \<Rightarrow> json \<Rightarrow> json option" where
  "json_set k v JNull = Some (JObj [(k, v)])"
| "json_set k v (JObj m) = Some (JObj (bt_assign k v m))"
| "json_set k v _ = None"

fun json_at :: "string \<Rightarrow> json \<Rightarrow> json option" where
  "json_at k JNull = Some JNull"
| "json_at k (JObj m) = Some (case bt_find k m of Some v \<Rightarrow> v | None \<Rightarrow> JNull)"
| "json_at k _ = None"

fun json_push_back :: "json \<Rightarrow> json \<Rightarrow> json option" where
  "json_push_back v JNull = Some (JArr [v])"
| "json_push_back v (JArr xs) = Some (JArr (xs @ [v]))"
| "json_push_back v _ = None"

fun json_erase :: "string \<Rightarrow> json \<Rightarrow> json option" where
  "json_erase k (JObj m) = Some (JObj (bt_erase k m))"
| "json_erase k _ = None"

text \<open>\<open>get<int>\<close>: a number, or a type error.\<close>

fun json_int :: "json \<Rightarrow> int option" where
  "json_int (JNum n) = Some n"
| "json_int _ = None"

text \<open>An object from its members, assigned one after the other.\<close>

definition json_object :: "(string \<times> json) list \<Rightarrow> json" where
  "json_object members = (if members = [] then JNull
     else JObj (fold (\<lambda>(k, v). bt_assign k v) members []))"

text \<open>An array from its elements, pushed one after the other: null when there are none.\<close>

definition json_array :: "json list \<Rightarrow> json" where
  "json_array xs = (if xs = [] then JNull else JArr xs)"

lemma json_array_push_back: "json_push_back v (json_array xs) = Some (json_array (xs @ [v]))"
  by (simp add: json_array_def)

lemma json_object_set: "json_set k v (json_object ms) = Some (json_object (ms @ [(k, v)]))"
  by (simp add: json_object_def)

lemma json_object_at:
  assumes "distinct (map fst ms)"
  shows "json_at k (json_object ms) = Some (case map_of ms k of Some v \<Rightarrow> v | None \<Rightarrow> JNull)"
proof -
  have fold: "bt_wf m \<Longrightarrow> map_of (fold (\<lambda>(k, v). bt_assign k v) xs m) = map_of m ++ map_of (rev xs)"
    for m :: "(string \<times> json) list" and xs
    by (induction xs arbitrary: m)
      (auto simp: bt_assign_map_of bt_wf_assign map_add_def fun_eq_iff split: option.splits)
  show ?thesis
    using assms fold [of "[]" ms]
    by (simp add: json_object_def bt_find_def map_of_rev_distinct)
qed

end
