(* ===== verification/Hashing.thy ===== *)
theory Hashing
  imports Json_Values Annotations Response_Handler
begin

text \<open>
  Packet hashing configuration (\<open>p4rt_app/sonic/hashing.{h,cc}\<close>): reading the hash fields and the
  hash parameters from the annotations of a program's actions, and programming them into the
  \<open>HASH_TABLE\<close> and \<open>SWITCH_TABLE\<close> of the application database. \<open>HashTable\<close> and \<open>SwitchTable\<close> are
  records of table adapters; \<open>dump\<close> is the JSON printer.
\<close>

section \<open>Configurations\<close>

type_synonym HashParamConfigs = "(string, string) bt_map"

text \<open>The sets of fields and of configurations are lists in ascending order (of \<open>operator<\<close>).\<close>

record hash_packet_field_config =
  hpf_key :: string
  hpf_fields :: "string list"
  hpf_switch_table_key :: string

definition HashPacketFieldConfig_eq :: "hash_packet_field_config \<Rightarrow> hash_packet_field_config \<Rightarrow> bool" where
  "HashPacketFieldConfig_eq lhs rhs \<longleftrightarrow>
     hpf_key lhs = hpf_key rhs \<and> hpf_switch_table_key lhs = hpf_switch_table_key rhs \<and>
     hpf_fields lhs = hpf_fields rhs"

definition HashPacketFieldConfig_less :: "hash_packet_field_config \<Rightarrow> hash_packet_field_config \<Rightarrow> bool" where
  "HashPacketFieldConfig_less lhs rhs \<longleftrightarrow> hpf_key lhs < hpf_key rhs"

definition AppDbContents :: "(json \<Rightarrow> string) \<Rightarrow> hash_packet_field_config \<Rightarrow> field_values" where
  "AppDbContents dump config =
     [(''hash_field_list'', dump (json_array (map JStr (hpf_fields config))))]"

section \<open>Reading the annotations\<close>

definition starts_with :: "string \<Rightarrow> string \<Rightarrow> bool" where
  "starts_with s p \<longleftrightarrow> take (length p) s = p"

fun str_contains :: "string \<Rightarrow> string \<Rightarrow> bool" where
  "str_contains [] needle \<longleftrightarrow> needle = []"
| "str_contains (c # s) needle \<longleftrightarrow> starts_with (c # s) needle \<or> str_contains s needle"

definition str_contains_ignore_case :: "string \<Rightarrow> string \<Rightarrow> bool" where
  "str_contains_ignore_case s needle \<longleftrightarrow> str_contains (map ascii_toupper s) (map ascii_toupper needle)"

definition kHashFieldLabel :: string where
  "kHashFieldLabel = ''sai_native_hash_field''"

definition ActionHasHashingConfig :: "ir_action_definition \<Rightarrow> bool" where
  "ActionHasHashingConfig action_def \<longleftrightarrow>
     list_ex (\<lambda>a. starts_with (ac_label a) ''sai_hash_'') (GetAllAnnotations (iad_annotations action_def))"

definition kFieldKeyMap :: "(string \<times> string) list" where
  "kFieldKeyMap =
     [(''compute_ecmp_hash_ipv4'', ''ecmp_hash_ipv4''), (''compute_ecmp_hash_ipv6'', ''ecmp_hash_ipv6''),
      (''compute_lag_hash_ipv4'', ''lag_hash_ipv4''), (''compute_lag_hash_ipv6'', ''lag_hash_ipv6'')]"

definition SwitchTableHashPacketFieldConfigKey :: "string \<Rightarrow> string status_or" where
  "SwitchTableHashPacketFieldConfigKey hash_key =
     (case map_of kFieldKeyMap hash_key of Some v \<Rightarrow> Inr v | None \<Rightarrow> Inl INVALID_ARGUMENT)"

definition GetAvailableHashAlgorithms :: "(string \<times> string) list" where
  "GetAvailableHashAlgorithms =
     [(''SAI_HASH_ALGORITHM_CRC'', ''crc''), (''SAI_HASH_ALGORITHM_XOR'', ''xor''),
      (''SAI_HASH_ALGORITHM_RANDOM'', ''random''), (''SAI_HASH_ALGORITHM_CRC_32LO'', ''crc_32lo''),
      (''SAI_HASH_ALGORITHM_CRC_32HI'', ''crc_32hi''), (''SAI_HASH_ALGORITHM_CRC_CCITT'', ''crc_ccitt''),
      (''SAI_HASH_ALGORITHM_CRC_XOR'', ''crc_xor'')]"

definition AppDbHashAlgorithm :: "string \<Rightarrow> string status_or" where
  "AppDbHashAlgorithm p4_algorithm =
     (case map_of GetAvailableHashAlgorithms p4_algorithm of Some v \<Rightarrow> Inr v | None \<Rightarrow> Inl INVALID_ARGUMENT)"

definition kTranslationMap :: "(string \<times> string) list" where
  "kTranslationMap =
     [(''SAI_NATIVE_HASH_FIELD_SRC_IPV4'', ''src_ip''), (''SAI_NATIVE_HASH_FIELD_DST_IPV4'', ''dst_ip''),
      (''SAI_NATIVE_HASH_FIELD_SRC_IPV6'', ''src_ip''), (''SAI_NATIVE_HASH_FIELD_DST_IPV6'', ''dst_ip''),
      (''SAI_NATIVE_HASH_FIELD_L4_SRC_PORT'', ''l4_src_port''),
      (''SAI_NATIVE_HASH_FIELD_L4_DST_PORT'', ''l4_dst_port''),
      (''SAI_NATIVE_HASH_FIELD_IPV6_FLOW_LABEL'', ''ipv6_flow_label'')]"

definition AppDbFieldName :: "string \<Rightarrow> string status_or" where
  "AppDbFieldName field =
     (case map_of kTranslationMap field of Some v \<Rightarrow> Inr v | None \<Rightarrow> Inl INVALID_ARGUMENT)"

text \<open>The loop over the argument lists, inserting into the set of fields.\<close>

definition insert_hash_field :: "string list \<Rightarrow> string list \<Rightarrow> string list status_or" where
  "insert_hash_field hash_args fs =
     (case hash_args of
        [arg] \<Rightarrow> bind_or (AppDbFieldName arg) (\<lambda>hash_field. Inr (insort_insert hash_field fs))
      | _ \<Rightarrow> Inl INVALID_ARGUMENT)"

definition HashPacketFieldConfigFromAction ::
  "string \<Rightarrow> string list list \<Rightarrow> hash_packet_field_config status_or" where
  "HashPacketFieldConfigFromAction action_name arg_lists =
     bind_or (SwitchTableHashPacketFieldConfigKey action_name) (\<lambda>switch_table_key.
     bind_or (fold_or insert_hash_field arg_lists []) (\<lambda>fs.
       Inr \<lparr>hpf_key = action_name, hpf_fields = fs, hpf_switch_table_key = switch_table_key\<rparr>))"

definition InsertHashParamConfig ::
  "string \<Rightarrow> string \<Rightarrow> string \<Rightarrow> HashParamConfigs \<Rightarrow> HashParamConfigs status_or" where
  "InsertHashParamConfig label hash_type v configs =
     (if \<not> starts_with label ''sai_hash_'' then Inr configs
      else if label \<noteq> ''sai_hash_seed'' \<and> label \<noteq> ''sai_hash_offset'' \<and> label \<noteq> ''sai_hash_algorithm''
      then Inl INVALID_ARGUMENT
      else case bt_insert (hash_type @ drop 3 label) v configs of
             (configs', inserted) \<Rightarrow> if inserted then Inr configs' else Inl INVALID_ARGUMENT)"

definition hash_type_of :: "string \<Rightarrow> string status_or" where
  "hash_type_of full_action_name =
     (if str_contains_ignore_case full_action_name ''_lag_'' then Inr ''lag''
      else if str_contains_ignore_case full_action_name ''_ecmp_'' then Inr ''ecmp''
      else Inl INVALID_ARGUMENT)"

definition update_hash_param ::
  "string \<Rightarrow> annotation_components \<Rightarrow> HashParamConfigs \<Rightarrow> HashParamConfigs status_or" where
  "update_hash_param hash_type a configs =
     (if ac_label a = ''sai_hash_algorithm''
      then bind_or (AppDbHashAlgorithm (ac_body a)) (\<lambda>algorithm.
             InsertHashParamConfig (ac_label a) hash_type algorithm configs)
      else InsertHashParamConfig (ac_label a) hash_type (ac_body a) configs)"

definition UpdateHashParamConfigsFromAction ::
  "ir_action_definition \<Rightarrow> HashParamConfigs \<Rightarrow> HashParamConfigs status_or" where
  "UpdateHashParamConfigsFromAction action configs =
     bind_or (hash_type_of (iad_name action)) (\<lambda>hash_type.
       fold_or (update_hash_param hash_type) (GetAllAnnotations (iad_annotations action)) configs)"

definition IsIpv4HashKey :: "string \<Rightarrow> bool" where
  "IsIpv4HashKey key = str_contains key ''ipv4''"

definition IsIpv6HashKey :: "string \<Rightarrow> bool" where
  "IsIpv6HashKey key = str_contains key ''ipv6''"

definition extract_hash_field_config ::
  "string \<times> ir_action_definition \<Rightarrow> hash_packet_field_config list \<Rightarrow> hash_packet_field_config list status_or" where
  "extract_hash_field_config entry configs =
     (case GetAllAnnotationsAsArgList kHashFieldLabel (iad_annotations (snd entry)) of
        Inl _ \<Rightarrow> Inr configs
      | Inr arg_lists \<Rightarrow>
          if arg_lists = [] then Inr configs
          else bind_or (HashPacketFieldConfigFromAction (fst entry) arg_lists) (\<lambda>config.
                 Inr (insort_insert_key hpf_key config configs)))"

definition ExtractHashPacketFieldConfigs :: "ir_p4info \<Rightarrow> hash_packet_field_config list status_or" where
  "ExtractHashPacketFieldConfigs info = fold_or extract_hash_field_config (actions_by_name_entries info) []"

definition extract_hash_params ::
  "string \<times> ir_action_definition \<Rightarrow> HashParamConfigs \<Rightarrow> HashParamConfigs status_or" where
  "extract_hash_params entry configs =
     (if \<not> ActionHasHashingConfig (snd entry) then Inr configs
      else UpdateHashParamConfigsFromAction (snd entry) configs)"

definition ExtractHashParamConfigs :: "ir_p4info \<Rightarrow> HashParamConfigs status_or" where
  "ExtractHashParamConfigs info = fold_or extract_hash_params (actions_by_name_entries info) []"

section \<open>Programming the tables\<close>

text \<open>
  \<open>status_by_key[key] = update_status.add_statuses()\<close> for one key after the other: a status is its
  position in the response, and each starts out as OK.
\<close>

definition index_keys :: "string list \<Rightarrow> (string, nat option) bt_map" where
  "index_keys keys = fold (\<lambda>(i, k). bt_assign k (Some i)) (enumerate 0 keys) []"

definition statuses_ok :: "(string, nat option) bt_map \<Rightarrow> status_code list \<Rightarrow> bool" where
  "statuses_ok status_by_key sts \<longleftrightarrow>
     list_all (\<lambda>(_, p). case p of Some i \<Rightarrow> sts ! i = OK | None \<Rightarrow> False) status_by_key"

definition await_hash_responses ::
  "(string \<Rightarrow> swss_status_code) \<Rightarrow> 'db sonic_table_ops \<Rightarrow> string list \<Rightarrow> 'db \<Rightarrow> status_code \<times> 'db" where
  "await_hash_responses str_code ops keys db =
     (case GetAndProcessResponseNotification str_code ops (index_keys keys) (replicate (length keys) OK, db) of
        (st, sts, db') \<Rightarrow>
          (if st \<noteq> OK then st else if statuses_ok (index_keys keys) sts then OK else INTERNAL, db'))"

definition ProgramHashFieldTable ::
  "(json \<Rightarrow> string) \<Rightarrow> (string \<Rightarrow> swss_status_code) \<Rightarrow> 'db sonic_table_ops \<Rightarrow>
   hash_packet_field_config list \<Rightarrow> 'db \<Rightarrow> status_code \<times> 'db" where
  "ProgramHashFieldTable dump str_code hash_table configs db =
     (if configs = [] then (OK, db)
      else await_hash_responses str_code hash_table (map hpf_key configs)
             (fold (\<lambda>config. op_produce_set hash_table (hpf_key config) (AppDbContents dump config)) configs db))"

definition RemoveFromHashFieldTable ::
  "(string \<Rightarrow> swss_status_code) \<Rightarrow> 'db sonic_table_ops \<Rightarrow> string list \<Rightarrow> 'db \<Rightarrow> status_code \<times> 'db" where
  "RemoveFromHashFieldTable str_code hash_table config_keys db =
     (if config_keys = [] then (OK, db)
      else await_hash_responses str_code hash_table config_keys
             (fold (op_produce_del hash_table) config_keys db))"

definition ProgramSwitchTable ::
  "(string \<Rightarrow> swss_status_code) \<Rightarrow> 'db sonic_table_ops \<Rightarrow> HashParamConfigs \<Rightarrow>
   hash_packet_field_config list \<Rightarrow> 'db \<Rightarrow> status_code \<times> 'db" where
  "ProgramSwitchTable str_code switch_table hash_params hash_packet_fields db =
     (let hash_tuples = hash_params @ map (\<lambda>f. (hpf_switch_table_key f, hpf_key f)) hash_packet_fields
      in if hash_tuples = [] then (OK, db)
         else case GetAndProcessResponseNotification_key str_code switch_table ''switch''
                     (op_produce_set switch_table ''switch'' hash_tuples (op_drain switch_table db)) of
                (Inl e, db') \<Rightarrow> (e, db')
              | (Inr status, db') \<Rightarrow> (if status \<noteq> OK then INTERNAL else OK, db'))"

section \<open>The order of iteration\<close>

text \<open>
  The actions are iterated over in the unspecified order of a protobuf map. A loop whose rounds
  commute gives the same result in every order.
\<close>

lemma fold_or_mset:
  assumes "mset xs = mset ys" "P s"
    and inv: "\<And>x u v. x \<in> set xs \<Longrightarrow> P u \<Longrightarrow> f x u = Inr v \<Longrightarrow> P v"
    and comm: "\<And>x y u. x \<in> set xs \<Longrightarrow> y \<in> set xs \<Longrightarrow> P u \<Longrightarrow>
      bind_or (f x u) (f y) = bind_or (f y u) (f x)"
  shows "fold_or f xs s = fold_or f ys s"
  using assms
proof (induction xs arbitrary: ys s)
  case (Cons x xs)
  from Cons.prems(1) have "x \<in> set ys" by (metis list.set_intros(1) mset_eq_setD)
  then obtain ys1 ys2 where ys: "ys = ys1 @ x # ys2" by (meson split_list)
  have m: "mset xs = mset (ys1 @ ys2)" using Cons.prems(1) ys by simp
  have sub: "z \<in> set (x # xs)" if "z \<in> set ys1" for z
    using that m by (metis list.set_intros(2) mset_eq_setD set_append UnCI)
  have "fold_or f ys s = bind_or (bind_or (fold_or f ys1 s) (f x)) (fold_or f ys2)"
    by (cases "fold_or f ys1 s") (auto simp: ys fold_or_append)
  also have "bind_or (fold_or f ys1 s) (f x) = bind_or (f x s) (fold_or f ys1)"
  proof (rule fold_or_move_to_front [of P, OF Cons.prems(2)])
    show "P v" if "z \<in> set (x # ys1)" "P u" "f z u = Inr v" for z u v
      using that sub by (intro Cons.prems(3) [of z u v]) auto
    show "bind_or (f z u) (f x) = bind_or (f x u) (f z)" if "z \<in> set ys1" "P u" for z u
      using that sub by (intro Cons.prems(4)) simp_all
  qed
  also have "bind_or \<dots> (fold_or f ys2) = bind_or (f x s) (fold_or f (ys1 @ ys2))"
    by (cases "f x s") (auto simp: fold_or_append)
  also have "\<dots> = bind_or (f x s) (fold_or f xs)"
  proof (rule bind_or_cong)
    fix u assume "f x s = Inr u"
    with Cons.prems have "P u" by (meson list.set_intros)
    then show "fold_or f (ys1 @ ys2) u = fold_or f xs u"
      using Cons.IH [OF m, of u] Cons.prems(3,4) by (metis list.set_intros(2))
  qed simp
  finally show ?case by simp
qed simp

text \<open>Every error of the extraction has the same code.\<close>

lemma HashPacketFieldConfigFromAction_error:
  "HashPacketFieldConfigFromAction n ls = Inl e \<Longrightarrow> e = INVALID_ARGUMENT"
proof -
  have loop: "fold_or insert_hash_field ls fs = Inl e \<Longrightarrow> e = INVALID_ARGUMENT" for fs
    by (induction ls arbitrary: fs)
      (auto simp: bind_or_eq_Inl insert_hash_field_def AppDbFieldName_def split: list.splits option.splits)
  show "HashPacketFieldConfigFromAction n ls = Inl e \<Longrightarrow> e = INVALID_ARGUMENT"
    by (auto simp: HashPacketFieldConfigFromAction_def bind_or_eq_Inl dest: loop
        simp: SwitchTableHashPacketFieldConfigKey_def split: option.splits)
qed

lemma insort_key_commute:
  "g x \<noteq> g y \<Longrightarrow> insort_key g x (insort_key g y xs) = insort_key g y (insort_key g x xs)"
  by (induction xs) auto

lemma insort_insert_key_commute:
  "g x \<noteq> g y \<Longrightarrow>
   insort_insert_key g x (insort_insert_key g y xs) = insort_insert_key g y (insort_insert_key g x xs)"
  by (auto simp: insort_insert_key_def insort_key_commute set_insort_key)

lemma HashPacketFieldConfigFromAction_key:
  "HashPacketFieldConfigFromAction n ls = Inr c \<Longrightarrow> hpf_key c = n"
  by (auto simp: HashPacketFieldConfigFromAction_def)

lemma extract_hash_field_config_commute:
  assumes "fst x = fst y \<Longrightarrow> x = y"
  shows "bind_or (extract_hash_field_config x cs) (extract_hash_field_config y) =
    bind_or (extract_hash_field_config y cs) (extract_hash_field_config x)"
proof (cases "fst x = fst y")
  case False
  have "insort_insert_key hpf_key c (insort_insert_key hpf_key d cs) =
      insort_insert_key hpf_key d (insort_insert_key hpf_key c cs)"
    if "HashPacketFieldConfigFromAction (fst x) ls = Inr c" "HashPacketFieldConfigFromAction (fst y) ls' = Inr d"
    for ls ls' c d
    by (rule insort_insert_key_commute) (use that False in \<open>auto dest!: HashPacketFieldConfigFromAction_key\<close>)
  then show ?thesis
    by (auto simp: extract_hash_field_config_def bind_or_def split: sum.splits
        dest: HashPacketFieldConfigFromAction_error)
qed (use assms in simp)

text \<open>
  The hash parameters, one insertion after the other: an action contributes the parameters of its
  \<open>sai_hash_\<close> annotations, or an error.
\<close>

definition hash_param_requests :: "string \<times> ir_action_definition \<Rightarrow> (string \<times> string) status_or list" where
  "hash_param_requests entry =
     (if \<not> ActionHasHashingConfig (snd entry) then []
      else case hash_type_of (iad_name (snd entry)) of
             Inl e \<Rightarrow> [Inl e]
           | Inr hash_type \<Rightarrow>
               map (\<lambda>a. if ac_label a = ''sai_hash_algorithm''
                        then bind_or (AppDbHashAlgorithm (ac_body a)) (\<lambda>v. Inr (hash_type @ drop 3 (ac_label a), v))
                        else if ac_label a = ''sai_hash_seed'' \<or> ac_label a = ''sai_hash_offset''
                        then Inr (hash_type @ drop 3 (ac_label a), ac_body a)
                        else Inl INVALID_ARGUMENT)
                 (filter (\<lambda>a. starts_with (ac_label a) ''sai_hash_'')
                    (GetAllAnnotations (iad_annotations (snd entry)))))"

definition insert_request :: "(string \<times> string) status_or \<Rightarrow> HashParamConfigs \<Rightarrow> HashParamConfigs status_or" where
  "insert_request r m =
     bind_or r (\<lambda>(k, v). case bt_insert k v m of (m', b) \<Rightarrow> if b then Inr m' else Inl INVALID_ARGUMENT)"

lemma sai_hash_labels [simp]:
  "starts_with ''sai_hash_seed'' ''sai_hash_''"
  "starts_with ''sai_hash_offset'' ''sai_hash_''"
  "starts_with ''sai_hash_algorithm'' ''sai_hash_''"
  by (simp_all add: starts_with_def)

lemma extract_hash_params_requests:
  "extract_hash_params entry m = fold_or insert_request (hash_param_requests entry) m"
proof (cases "ActionHasHashingConfig (snd entry)")
  case True
  show ?thesis
  proof (cases "hash_type_of (iad_name (snd entry))")
    case (Inr t)
    show ?thesis
      unfolding extract_hash_params_def hash_param_requests_def UpdateHashParamConfigsFromAction_def Inr
      using True
      by (simp, intro fold_or_filter_map)
        (auto simp: update_hash_param_def InsertHashParamConfig_def insert_request_def bind_or_def
          split: sum.splits)
  qed (simp add: True extract_hash_params_def hash_param_requests_def
      UpdateHashParamConfigsFromAction_def insert_request_def)
qed (simp add: extract_hash_params_def hash_param_requests_def)

lemma ExtractHashParamConfigs_requests:
  "ExtractHashParamConfigs info =
   fold_or insert_request (concat (map hash_param_requests (actions_by_name_entries info))) []"
proof -
  have "extract_hash_params = (\<lambda>x. fold_or insert_request (hash_param_requests x))"
    by (simp add: fun_eq_iff extract_hash_params_requests)
  from this [THEN fun_cong] show ?thesis
    unfolding ExtractHashParamConfigs_def fold_or_concat [symmetric]
    by (intro fold_or_cong) simp_all
qed

lemma hash_param_requests_error: "Inl e \<in> set (hash_param_requests entry) \<Longrightarrow> e = INVALID_ARGUMENT"
  by (auto simp: hash_param_requests_def hash_type_of_def AppDbHashAlgorithm_def
      split: if_splits sum.splits option.splits)

lemma insert_request_wf: "bt_wf m \<Longrightarrow> insert_request r m = Inr m' \<Longrightarrow> bt_wf m'"
  by (auto simp: insert_request_def bt_insert_eq bt_wf_assign split: if_splits prod.splits)

lemma insert_request_commute:
  assumes "bt_wf m" "\<And>e. r = Inl e \<Longrightarrow> e = INVALID_ARGUMENT" "\<And>e. r' = Inl e \<Longrightarrow> e = INVALID_ARGUMENT"
  shows "bind_or (insert_request r m) (insert_request r') = bind_or (insert_request r' m) (insert_request r)"
proof -
  have "bt_assign k v (bt_assign k' v' m) = bt_assign k' v' (bt_assign k v m)" if "k \<noteq> k'" for k k' :: string and v v' :: string
    by (rule bt_eqI) (use that assms(1) in \<open>auto simp: bt_wf_assign bt_assign_map_of fun_upd_twist\<close>)
  then show ?thesis
    using assms(2,3)
    by (cases r; cases r')
      (auto simp: insert_request_def bt_insert_eq bt_assign_keys split_def simp del: image_iff)
qed

section \<open>What is extracted\<close>

text \<open>
  A configuration of hash fields names a supported action, with the switch attribute that belongs
  to it, and an ordered, non-empty set of supported fields. The hash parameters are the algorithm,
  the seed and the offset of the ECMP and the LAG hash, and an algorithm is a supported one.
\<close>

definition hash_field_config_ok :: "hash_packet_field_config \<Rightarrow> bool" where
  "hash_field_config_ok c \<longleftrightarrow>
     map_of kFieldKeyMap (hpf_key c) = Some (hpf_switch_table_key c) \<and>
     hpf_fields c \<noteq> [] \<and> sorted (hpf_fields c) \<and> distinct (hpf_fields c) \<and>
     set (hpf_fields c) \<subseteq> snd ` set kTranslationMap"

definition hash_param_ok :: "string \<times> string \<Rightarrow> bool" where
  "hash_param_ok p \<longleftrightarrow>
     fst p \<in> {''ecmp_hash_seed'', ''ecmp_hash_offset'', ''lag_hash_seed'', ''lag_hash_offset''} \<or>
     fst p \<in> {''ecmp_hash_algorithm'', ''lag_hash_algorithm''} \<and> snd p \<in> snd ` set GetAvailableHashAlgorithms"

lemma insort_insert_key_wf:
  "sorted (map g xs) \<Longrightarrow> distinct (map g xs) \<Longrightarrow>
   sorted (map g (insort_insert_key g x xs)) \<and> distinct (map g (insort_insert_key g x xs))"
  by (auto simp: insort_insert_key_def sorted_insort_key distinct_insort distinct_map set_insort_key)

lemma insort_insert_key_members:
  "set (insort_insert_key g x xs) \<subseteq> insert x (set xs)" "insort_insert_key g x xs \<noteq> []"
  by (auto simp: insort_insert_key_def set_insort_key insort_not_Nil)

lemma insert_hash_field_fields:
  assumes "insert_hash_field args fs = Inr fs'"
    and "sorted fs \<and> distinct fs \<and> set fs \<subseteq> snd ` set kTranslationMap"
  shows "sorted fs' \<and> distinct fs' \<and> set fs' \<subseteq> snd ` set kTranslationMap \<and> fs' \<noteq> []"
proof -
  from assms(1) obtain a f where f: "map_of kTranslationMap a = Some f" and fs': "fs' = insort_insert f fs"
    by (auto simp: insert_hash_field_def AppDbFieldName_def split: list.splits option.splits)
  from f have "f \<in> snd ` set kTranslationMap" by (metis map_of_SomeD image_eqI snd_conv)
  with assms(2) insort_insert_key_wf [of "\<lambda>x. x" fs f] insort_insert_key_members [of "\<lambda>x. x" f fs]
  show ?thesis unfolding fs' by auto
qed

lemma HashPacketFieldConfigFromAction_ok:
  assumes "HashPacketFieldConfigFromAction n ls = Inr c" "ls \<noteq> []"
  shows "hash_field_config_ok c"
proof -
  let ?Q = "\<lambda>fs. sorted fs \<and> distinct fs \<and> set fs \<subseteq> snd ` set kTranslationMap"
  from assms obtain fs k where fs: "fold_or insert_hash_field ls [] = Inr fs"
    and k: "SwitchTableHashPacketFieldConfigKey n = Inr k"
    and c: "c = \<lparr>hpf_key = n, hpf_fields = fs, hpf_switch_table_key = k\<rparr>"
    by (auto simp: HashPacketFieldConfigFromAction_def)
  have "?Q fs \<and> fs \<noteq> []" if "ls = l # ls'" for l ls'
  proof -
    from fs that obtain u where u: "insert_hash_field l [] = Inr u" "fold_or insert_hash_field ls' u = Inr fs"
      by auto
    from insert_hash_field_fields [OF u(1)] have "?Q u \<and> u \<noteq> []" by simp
    then show ?thesis
      by (rule fold_or_invariant [OF u(2)]) (metis insert_hash_field_fields)
  qed
  with assms(2) k show ?thesis
    by (cases ls) (auto simp: hash_field_config_ok_def c SwitchTableHashPacketFieldConfigKey_def split: option.splits)
qed

lemma extract_hash_field_config_ok:
  assumes "extract_hash_field_config entry cs = Inr cs'"
    and "sorted (map hpf_key cs) \<and> distinct (map hpf_key cs) \<and> list_all hash_field_config_ok cs"
  shows "sorted (map hpf_key cs') \<and> distinct (map hpf_key cs') \<and> list_all hash_field_config_ok cs'"
proof -
  from assms(1) consider "cs' = cs"
    | ls c where "HashPacketFieldConfigFromAction (fst entry) ls = Inr c" "ls \<noteq> []"
        "cs' = insort_insert_key hpf_key c cs"
    by (auto simp: extract_hash_field_config_def split: sum.splits if_splits)
  then show ?thesis
  proof cases
    case 2
    with assms(2) insort_insert_key_wf [of hpf_key cs c] insort_insert_key_members(1) [of hpf_key c cs]
      HashPacketFieldConfigFromAction_ok [of "fst entry" ls c]
    show ?thesis by (auto simp: list_all_iff)
  qed (use assms(2) in simp)
qed

lemma extract_hash_field_config_error:
  "extract_hash_field_config entry cs = Inl e \<Longrightarrow> e = INVALID_ARGUMENT"
  by (auto simp: extract_hash_field_config_def bind_or_eq_Inl dest: HashPacketFieldConfigFromAction_error
      split: sum.splits if_splits)

lemma hash_type_of_cases: "hash_type_of n = Inr t \<Longrightarrow> t = ''lag'' \<or> t = ''ecmp''"
  by (auto simp: hash_type_of_def split: if_splits)

lemma AppDbHashAlgorithm_range: "AppDbHashAlgorithm a = Inr v \<Longrightarrow> v \<in> snd ` set GetAvailableHashAlgorithms"
  by (auto simp: AppDbHashAlgorithm_def split: option.splits) (metis image_eqI map_of_SomeD snd_conv)

lemma hash_param_requests_ok:
  assumes "Inr p \<in> set (hash_param_requests entry)"
  shows "hash_param_ok p"
proof -
  from assms obtain t where "hash_type_of (iad_name (snd entry)) = Inr t"
    by (auto simp: hash_param_requests_def split: if_splits sum.splits)
  with assms hash_type_of_cases [OF this] show ?thesis
    by (auto simp: hash_param_requests_def hash_param_ok_def eq_commute [of "Inr p" "bind_or m f" for m f]
        split: if_splits)
      (metis AppDbHashAlgorithm_range)+
qed

lemma insert_request_ok:
  assumes "insert_request r m = Inr m'" "bt_wf m \<and> list_all hash_param_ok m"
    and "\<And>p. r = Inr p \<Longrightarrow> hash_param_ok p"
  shows "bt_wf m' \<and> list_all hash_param_ok m'"
proof -
  from assms(1) obtain k v where r: "r = Inr (k, v)" and m': "m' = bt_assign k v m"
    by (auto simp: insert_request_def bt_insert_eq split: if_splits)
  have "set (bt_assign k v m) \<subseteq> insert (k, v) (set m)"
    by (induction k v m rule: bt_assign.induct) auto
  with assms r show ?thesis by (auto simp: m' bt_wf_assign list_all_iff)
qed

section \<open>Properties\<close>

text \<open>
  C26. The extracted hashing configuration does not depend on the order in which the actions of
  the program are visited.
\<close>

theorem hashing_extraction_order_independent:
  assumes "mset (actions_by_name_entries info) = mset (actions_by_name_entries info')"
    and "distinct (map fst (actions_by_name_entries info))"
  shows "ExtractHashPacketFieldConfigs info = ExtractHashPacketFieldConfigs info' \<and>
    ExtractHashParamConfigs info = ExtractHashParamConfigs info'"
proof
  have "x = y" if "x \<in> set (actions_by_name_entries info)" "y \<in> set (actions_by_name_entries info)"
    "fst x = fst y" for x y
    using that assms(2) by (auto simp: distinct_map inj_on_def)
  then show "ExtractHashPacketFieldConfigs info = ExtractHashPacketFieldConfigs info'"
    unfolding ExtractHashPacketFieldConfigs_def
    by (intro fold_or_mset [of _ _ "\<lambda>_. True", OF assms(1)] extract_hash_field_config_commute) simp_all
  have "mset (concat (map hash_param_requests (actions_by_name_entries info))) =
      mset (concat (map hash_param_requests (actions_by_name_entries info')))"
    using arg_cong [OF assms(1), of "\<lambda>m. sum_mset (image_mset (mset \<circ> hash_param_requests) m)"]
    by (simp add: mset_concat image_mset.compositionality sum_mset_sum_list flip: mset_map)
  then show "ExtractHashParamConfigs info = ExtractHashParamConfigs info'"
    unfolding ExtractHashParamConfigs_requests
    by (rule fold_or_mset [where P = bt_wf])
      (auto intro: insert_request_wf insert_request_commute dest: hash_param_requests_error)
qed

text \<open>
  C28. Every extracted configuration is well-formed: the hash fields of each configuration and the
  hash parameters are among those the switch supports, and both come in ascending key order
  without duplicates.
\<close>

theorem extracted_hashing_well_formed:
  "pred_sum (\<lambda>e. e = INVALID_ARGUMENT)
      (\<lambda>cs. sorted (map hpf_key cs) \<and> distinct (map hpf_key cs) \<and> list_all hash_field_config_ok cs)
      (ExtractHashPacketFieldConfigs info) \<and>
    pred_sum (\<lambda>e. e = INVALID_ARGUMENT) (\<lambda>m. bt_wf m \<and> list_all hash_param_ok m)
      (ExtractHashParamConfigs info)"
proof
  show "pred_sum (\<lambda>e. e = INVALID_ARGUMENT)
      (\<lambda>cs. sorted (map hpf_key cs) \<and> distinct (map hpf_key cs) \<and> list_all hash_field_config_ok cs)
      (ExtractHashPacketFieldConfigs info)"
    unfolding ExtractHashPacketFieldConfigs_def
    by (rule fold_or_pred_sum) (simp, metis extract_hash_field_config_ok, metis extract_hash_field_config_error)
  show "pred_sum (\<lambda>e. e = INVALID_ARGUMENT) (\<lambda>m. bt_wf m \<and> list_all hash_param_ok m)
      (ExtractHashParamConfigs info)"
    unfolding ExtractHashParamConfigs_requests
  proof (rule fold_or_pred_sum)
    fix r u v
    assume r: "r \<in> set (concat (map hash_param_requests (actions_by_name_entries info)))"
    show "bt_wf v \<and> list_all hash_param_ok v"
      if "bt_wf u \<and> list_all hash_param_ok u" "insert_request r u = Inr v"
      using that r hash_param_requests_ok by (intro insert_request_ok [of r u v]) auto
    show "e = INVALID_ARGUMENT" if "insert_request r u = Inl e" for e
      using that r hash_param_requests_error
      by (cases r) (auto simp: insert_request_def bt_insert_eq split: if_splits)
  qed simp
qed

section \<open>The switch table\<close>

text \<open>
  On a table that keeps the contract of \<open>sonic_table\<close>, the switch entry holds the new hashing
  configuration exactly when OK is returned, and its former content otherwise.
\<close>

context sonic_table
begin

lemma ProgramSwitchTable_atomic:
  assumes "inv db" "tables_synced ops db" "params @ map (\<lambda>f. (hpf_switch_table_key f, hpf_key f)) cs \<noteq> []"
    and "\<And>s. SwssToP4RTErrorCode (sc s) = OK \<longleftrightarrow> s = ''SWSS_RC_SUCCESS''"
  shows "\<exists>st db'. ProgramSwitchTable sc ops params cs db = (st, db') \<and> (st = OK \<or> st = INTERNAL) \<and>
    inv db' \<and> tables_synced ops db' \<and>
    (\<forall>k. map_of (op_app_get ops db' k) =
      (if k = ''switch'' \<and> st = OK
       then last_wins (params @ map (\<lambda>f. (hpf_switch_table_key f, hpf_key f)) cs)
       else map_of (op_app_get ops db k)))"
proof -
  let ?t = "params @ map (\<lambda>f. (hpf_switch_table_key f, hpf_key f)) cs"
  obtain c db' where "GetAndProcessResponseNotification_key sc ops ''switch''
      (op_produce_set ops ''switch'' ?t (op_drain ops db)) = (Inr c, db')" "inv db'" "tables_synced ops db'"
      "\<forall>k. map_of (op_app_get ops db' k) =
        (if k = ''switch'' \<and> c = OK then last_wins ?t else map_of (op_app_get ops db k))"
    using produce_then_process [OF assms(1,2,4), of "''switch''" "Some ?t"] assms(4)
    by (auto simp: upd_command_def)
  with assms(3) show ?thesis by (auto simp: ProgramSwitchTable_def Let_def)
qed

end

section \<open>An instance\<close>

definition example_hash_action :: "string \<Rightarrow> string list \<Rightarrow> string \<times> ir_action_definition" where
  "example_hash_action name annotations =
     (name, \<lparr>iad_id = 1, iad_name = ''ingress.'' @ name, iad_alias = name, iad_annotations = annotations,
             iad_params_by_id = [], iad_params_by_name = [], iad_is_unsupported = False\<rparr>)"

definition example_hash_actions :: "(string \<times> ir_action_definition) list" where
  "example_hash_actions =
     [example_hash_action ''compute_ecmp_hash_ipv6''
        [''@sai_native_hash_field(SAI_NATIVE_HASH_FIELD_SRC_IPV6)'', ''@sai_native_hash_field(SAI_NATIVE_HASH_FIELD_DST_IPV6)''],
      example_hash_action ''select_ecmp_hash_algorithm''
        [''@sai_hash_seed(1)'', ''@sai_hash_algorithm(SAI_HASH_ALGORITHM_CRC_32LO)''],
      example_hash_action ''compute_ecmp_hash_ipv4'' [''@sai_native_hash_field(SAI_NATIVE_HASH_FIELD_SRC_IPV4)'']]"

definition example_hash_info :: "(string \<times> ir_action_definition) list \<Rightarrow> ir_p4info" where
  "example_hash_info actions =
     \<lparr>tables_by_id_entries = [], tables_by_name_entries = [], actions_by_id_entries = [],
      actions_by_name_entries = actions, action_profiles_by_id_entries = [],
      action_profiles_by_name_entries = [], packet_in_metadata_by_id = [], packet_in_metadata_by_name = [],
      packet_out_metadata_by_id = [], packet_out_metadata_by_name = [], references = [],
      built_in_tables_entries = [], dependency_rank_by_table_name_entries = []\<rparr>"

lemma example_hash_extraction:
  "ExtractHashPacketFieldConfigs (example_hash_info example_hash_actions) =
     Inr [\<lparr>hpf_key = ''compute_ecmp_hash_ipv4'', hpf_fields = [''src_ip''], hpf_switch_table_key = ''ecmp_hash_ipv4''\<rparr>,
          \<lparr>hpf_key = ''compute_ecmp_hash_ipv6'', hpf_fields = [''dst_ip'', ''src_ip''],
            hpf_switch_table_key = ''ecmp_hash_ipv6''\<rparr>]"
  "ExtractHashParamConfigs (example_hash_info example_hash_actions) =
     Inr [(''ecmp_hash_algorithm'', ''crc_32lo''), (''ecmp_hash_seed'', ''1'')]"
  by code_simp+

theorem hashing_extraction_order_independent_witness:
  "ExtractHashPacketFieldConfigs (example_hash_info (rev example_hash_actions)) =
     Inr [\<lparr>hpf_key = ''compute_ecmp_hash_ipv4'', hpf_fields = [''src_ip''], hpf_switch_table_key = ''ecmp_hash_ipv4''\<rparr>,
          \<lparr>hpf_key = ''compute_ecmp_hash_ipv6'', hpf_fields = [''dst_ip'', ''src_ip''],
            hpf_switch_table_key = ''ecmp_hash_ipv6''\<rparr>] \<and>
   ExtractHashParamConfigs (example_hash_info (rev example_hash_actions)) =
     Inr [(''ecmp_hash_algorithm'', ''crc_32lo''), (''ecmp_hash_seed'', ''1'')]"
proof -
  have "distinct (map fst example_hash_actions)"
    by (simp add: example_hash_actions_def example_hash_action_def)
  then show ?thesis
    using hashing_extraction_order_independent
      [of "example_hash_info example_hash_actions" "example_hash_info (rev example_hash_actions)"]
    by (simp add: example_hash_extraction) (simp add: example_hash_info_def)
qed

end
