(* ===== verification/Acl_Definitions.thy ===== *)
theory Acl_Definitions
  imports Hashing App_Db_Manager Text_Env
begin

text \<open>
  ACL table definitions (\<open>p4rt_app/sonic/app_db_acl_def_table_manager.cc\<close>): how the stage, the
  match fields and the actions of an ACL table are read from the annotations of the P4 program and
  written, as JSON text, into the definition entry of the table. The ACL schema of \<open>swss-common\<close>
  and the JSON printer are parameters; a function of the schema that throws gives \<open>None\<close>.
\<close>

section \<open>The schema of the switch\<close>

record ('stage, 'format) match_field_schema =
  mfs_stages :: "'stage set"
  mfs_format :: 'format
  mfs_bitwidth :: nat

record 'format action_schema =
  as_format :: 'format
  as_bitwidth :: nat

record ('stage, 'format) swss_acl =
  sa_kLookup :: 'stage
  sa_kNone :: 'format
  sa_StageFromName :: "string \<Rightarrow> 'stage option"
  sa_StageName :: "'stage \<Rightarrow> string"
  sa_FormatName :: "'format \<Rightarrow> string"
  sa_MatchFieldSchemaByName :: "string \<Rightarrow> ('stage, 'format) match_field_schema option"
  sa_ActionSchemaByName :: "string \<Rightarrow> 'format action_schema option"
  sa_ActionSchemaByNameAndObjectType :: "string \<Rightarrow> string \<Rightarrow> 'format action_schema option"

definition GetStage :: "('s, 'f) swss_acl \<Rightarrow> string \<Rightarrow> 's option" where
  "GetStage acl name = (if name = ''PRE_INGRESS'' then Some (sa_kLookup acl) else sa_StageFromName acl name)"

definition GetStageName :: "('s, 'f) swss_acl \<Rightarrow> 's \<Rightarrow> string" where
  "GetStageName acl stage = (if stage = sa_kLookup acl then ''PRE_INGRESS'' else sa_StageName acl stage)"

definition IsValidColor :: "string \<Rightarrow> bool" where
  "IsValidColor color \<longleftrightarrow>
     color \<in> {''SAI_PACKET_COLOR_GREEN'', ''SAI_PACKET_COLOR_YELLOW'', ''SAI_PACKET_COLOR_RED''}"

definition IsValidRedirectObjectType :: "string \<Rightarrow> bool" where
  "IsValidRedirectObjectType type \<longleftrightarrow>
     type \<in> {''SAI_OBJECT_TYPE_BRIDGE_PORT'', ''SAI_OBJECT_TYPE_IPMC_GROUP'', ''SAI_OBJECT_TYPE_L2MC_GROUP'',
             ''SAI_OBJECT_TYPE_LAG'', ''SAI_OBJECT_TYPE_NEXT_HOP'', ''SAI_OBJECT_TYPE_NEXT_HOP_GROUP'',
             ''SAI_OBJECT_TYPE_PORT'', ''SAI_OBJECT_TYPE_SYSTEM_PORT''}"

fun Format_Name :: "ir_format \<Rightarrow> string" where
  "Format_Name HEX_STRING = ''HEX_STRING''"
| "Format_Name MAC = ''MAC''"
| "Format_Name IPV4 = ''IPV4''"
| "Format_Name IPV6 = ''IPV6''"
| "Format_Name STRING = ''STRING''"

definition Format_Parse :: "string \<Rightarrow> ir_format option" where
  "Format_Parse name = List.find (\<lambda>f. Format_Name f = name) [HEX_STRING, MAC, IPV4, IPV6, STRING]"

section \<open>Key and stage\<close>

definition GenerateSonicDbKeyFromTableName :: "swss_names \<Rightarrow> string \<Rightarrow> string" where
  "GenerateSonicDbKeyFromTableName names table_name =
     TypeName names kAclDefinition @ '':ACL_'' @ map ascii_toupper table_name"

definition GenerateSonicDbKeyFromIrTable :: "swss_names \<Rightarrow> ir_table_definition \<Rightarrow> string status_or" where
  "GenerateSonicDbKeyFromIrTable names table =
     (if itd_alias table = [] then Inl INVALID_ARGUMENT
      else Inr (GenerateSonicDbKeyFromTableName names (itd_alias table)))"

definition StageTuple :: "ir_table_definition \<Rightarrow> (string \<times> string) status_or" where
  "StageTuple ir_table =
     (case GetAnnotationAsArgList ''sai_acl'' (itd_annotations ir_table) of
        Inr [stage] \<Rightarrow> Inr (''stage'', stage)
      | _ \<Rightarrow> Inl INVALID_ARGUMENT)"

section \<open>Checks against the schema\<close>

text \<open>
  The checks the source defines. The calls of the four are commented out there, so that nothing
  below refers to them.
\<close>

definition VerifyMatchFieldAgainstSchema ::
  "('s, 'f) swss_acl \<Rightarrow> 's \<Rightarrow> ir_match_field_definition \<Rightarrow> string \<Rightarrow> status_code" where
  "VerifyMatchFieldAgainstSchema acl stage match_field sai_field =
     (case sa_MatchFieldSchemaByName acl sai_field of
        None \<Rightarrow> INVALID_ARGUMENT
      | Some schema \<Rightarrow>
          if stage \<notin> mfs_stages schema then INVALID_ARGUMENT
          else if mfd_format match_field \<noteq> STRING \<and> mfd_bitwidth match_field = 0 then INVALID_ARGUMENT
          else if mfd_format match_field \<noteq> STRING \<and> mfd_bitwidth match_field > mfs_bitwidth schema
          then INVALID_ARGUMENT
          else if Format_Name (mfd_format match_field) \<noteq> sa_FormatName acl (mfs_format schema)
          then INVALID_ARGUMENT
          else OK)"

record sai_action =
  sai_action_name :: string
  sai_parameter :: string
  sai_color :: string
  sai_object_type :: string

definition VerifyActionAgainstSchema :: "('s, 'f) swss_acl \<Rightarrow> sai_action \<Rightarrow> status_code" where
  "VerifyActionAgainstSchema acl sai =
     (case sa_ActionSchemaByName acl (sai_action_name sai) of
        None \<Rightarrow> INVALID_ARGUMENT
      | Some schema \<Rightarrow> if as_format schema \<noteq> sa_kNone acl then INVALID_ARGUMENT else OK)"

definition VerifyActionParamAgainstSchema ::
  "('s, 'f) swss_acl \<Rightarrow> ir_param_definition \<Rightarrow> sai_action \<Rightarrow> status_code" where
  "VerifyActionParamAgainstSchema acl ir_param sai_param =
     (case (if sai_object_type sai_param = [] then sa_ActionSchemaByName acl (sai_action_name sai_param)
            else sa_ActionSchemaByNameAndObjectType acl (sai_action_name sai_param) (sai_object_type sai_param)) of
        None \<Rightarrow> INVALID_ARGUMENT
      | Some schema \<Rightarrow>
          if as_format schema = sa_kNone acl then INVALID_ARGUMENT
          else if Format_Name (ipd_format ir_param) \<noteq> sa_FormatName acl (as_format schema) then INVALID_ARGUMENT
          else if as_bitwidth schema > 0 \<and> ipd_bitwidth ir_param = 0 then INVALID_ARGUMENT
          else if as_bitwidth schema > 0 \<and> ipd_bitwidth ir_param > as_bitwidth schema then INVALID_ARGUMENT
          else OK)"

section \<open>Match fields\<close>

definition strip_spaces :: "string \<Rightarrow> string" where
  "strip_spaces s = filter (\<lambda>c. c \<noteq> CHR '' '') s"

definition GenerateBasicMatchJson ::
  "ir_match_field_definition \<Rightarrow> annotation_components \<Rightarrow> json status_or" where
  "GenerateBasicMatchJson match_field annotation =
     (let sai_field = strip_spaces (ac_body annotation)
      in if sai_field = [] then Inl INVALID_ARGUMENT
         else Inr (json_object
           ([(''kind'', JStr ''sai_field''), (''format'', JStr (Format_Name (mfd_format match_field)))] @
            (if mfd_format match_field \<noteq> STRING then [(''bitwidth'', JNum (int (mfd_bitwidth match_field)))] else []) @
            [(''sai_field'', JStr sai_field)])))"

record udf_components =
  udf_base :: "string option"
  udf_offset :: "int option"
  udf_bitwidth :: "int option"

text \<open>
  One \<open>name=value\<close> component. Multiplying by eight overflows an \<open>int\<close> for large lengths, which is
  undefined.
\<close>

definition udf_component :: "text_env \<Rightarrow> string \<Rightarrow> udf_components \<Rightarrow> udf_components outcome" where
  "udf_component env component u =
     (case str_split (CHR ''='') component of
        [component_name, component_value] \<Rightarrow>
          if component_name = ''base''
          then Some (if udf_base u \<noteq> None then Inl INVALID_ARGUMENT
                     else Inr (u\<lparr>udf_base := Some component_value\<rparr>))
          else if component_name = ''offset'' \<or> component_name = ''length''
          then (case te_SimpleAtoi env component_value of
                  None \<Rightarrow> Some (Inl INVALID_ARGUMENT)
                | Some int_val \<Rightarrow>
                    if int_val < 0 then Some (Inl INVALID_ARGUMENT)
                    else if component_name = ''offset''
                    then Some (if udf_offset u \<noteq> None then Inl INVALID_ARGUMENT
                               else Inr (u\<lparr>udf_offset := Some int_val\<rparr>))
                    else if udf_bitwidth u \<noteq> None then Some (Inl INVALID_ARGUMENT)
                    else if int_val * 8 \<ge> 2 ^ 31 then None
                    else Some (Inr (u\<lparr>udf_bitwidth := Some (int_val * 8)\<rparr>)))
          else Some (Inl INVALID_ARGUMENT)
      | _ \<Rightarrow> Some (Inl INVALID_ARGUMENT))"

definition GenerateUdfMatchFieldJson ::
  "text_env \<Rightarrow> ir_match_field_definition \<Rightarrow> annotation_components \<Rightarrow> json outcome" where
  "GenerateUdfMatchFieldJson env match_field annotation =
     bind_outcome (Some (ParseAsArgList (ac_body annotation))) (\<lambda>components.
     bind_outcome (fold_outcome (udf_component env) components
                     \<lparr>udf_base = None, udf_offset = None, udf_bitwidth = None\<rparr>) (\<lambda>u.
       Some (case (udf_base u, udf_offset u, udf_bitwidth u) of
         (Some base, Some offset, Some bitwidth) \<Rightarrow>
           if mfd_bitwidth match_field \<noteq> 0 \<and> int (mfd_bitwidth match_field) \<noteq> bitwidth then Inl INVALID_ARGUMENT
           else Inr (json_object
             [(''kind'', JStr ''udf''), (''format'', JStr (Format_Name (mfd_format match_field))),
              (''base'', JStr base), (''offset'', JNum offset), (''bitwidth'', JNum bitwidth)])
       | _ \<Rightarrow> Inl INVALID_ARGUMENT)))"

text \<open>The default message of a match field definition, with a width and a format.\<close>

definition element_match_field :: "nat \<Rightarrow> ir_format \<Rightarrow> ir_match_field_definition" where
  "element_match_field bitwidth format =
     \<lparr>mfd_id = 0, mfd_name = [], mfd_annotations = [], mfd_bitwidth = bitwidth,
      mfd_match_type = MATCH_TYPE_UNSPECIFIED, mfd_type_name = [], mfd_format = format,
      mfd_is_unsupported = False, mfd_references = []\<rparr>"

definition composite_element_json ::
  "text_env \<Rightarrow> ('s, 'f) swss_acl \<Rightarrow> annotation_components \<Rightarrow> json outcome" where
  "composite_element_json env acl element =
     (if ac_label element = ''sai_field''
      then if strip_spaces (ac_body element) = [] then Some (Inl INVALID_ARGUMENT)
           else case sa_MatchFieldSchemaByName acl (strip_spaces (ac_body element)) of
                  None \<Rightarrow> Some (Inl INVALID_ARGUMENT)
                | Some element_schema \<Rightarrow>
                    (case Format_Parse (sa_FormatName acl (mfs_format element_schema)) of
                       None \<Rightarrow> Some (Inl INTERNAL)
                     | Some format \<Rightarrow>
                         bind_outcome (Some (GenerateBasicMatchJson
                             (element_match_field (mfs_bitwidth element_schema) format) element)) (\<lambda>element_json.
                           map_option Inr (json_erase ''format'' element_json)))
      else if ac_label element = ''sai_udf''
      then bind_outcome (GenerateUdfMatchFieldJson env (element_match_field 0 HEX_STRING) element) (\<lambda>element_json.
             map_option Inr (json_erase ''format'' element_json))
      else Some (Inl INVALID_ARGUMENT))"

text \<open>
  One round of the element loop: the element is pushed to the array under \<open>elements\<close> and its width is
  added to the total. Reading the width of an element without one throws, and a sum that leaves the
  range of \<open>int\<close> is undefined.
\<close>

definition composite_step ::
  "text_env \<Rightarrow> ('s, 'f) swss_acl \<Rightarrow> annotation_components \<Rightarrow> json \<times> int \<Rightarrow> (json \<times> int) outcome" where
  "composite_step env acl element st =
     bind_outcome (composite_element_json env acl element) (\<lambda>element_json.
       case Option.bind (json_at ''elements'' (fst st)) (json_push_back element_json) of
         None \<Rightarrow> None
       | Some elements \<Rightarrow>
           (case (json_set ''elements'' elements (fst st), Option.bind (json_at ''bitwidth'' element_json) json_int) of
              (Some json, Some width) \<Rightarrow>
                if snd st + width \<ge> 2 ^ 31 then None else Some (Inr (json, snd st + width))
            | _ \<Rightarrow> None))"

definition composite_header :: "ir_match_field_definition \<Rightarrow> json" where
  "composite_header match_field =
     json_object
       ([(''kind'', JStr ''composite''), (''format'', JStr (Format_Name (mfd_format match_field)))] @
        (if mfd_format match_field \<noteq> STRING
         then [(''bitwidth'', JNum (int (mfd_bitwidth match_field)))] else []))"

definition GenerateCompositeMatchFieldJson ::
  "text_env \<Rightarrow> ('s, 'f) swss_acl \<Rightarrow> ir_match_field_definition \<Rightarrow> annotation_components \<Rightarrow> json outcome" where
  "GenerateCompositeMatchFieldJson env acl match_field annotation =
     bind_outcome (Some (ParseAsArgList (ac_body annotation))) (\<lambda>element_annotation_strings.
       if length (GetAllAnnotations element_annotation_strings) \<noteq> length element_annotation_strings
       then Some (Inl INVALID_ARGUMENT)
       else bind_outcome (fold_outcome (composite_step env acl) (GetAllAnnotations element_annotation_strings)
              (composite_header match_field, 0)) (\<lambda>(json, total_element_bitwidth).
              case Option.bind (json_at ''bitwidth'' json) json_int of
                None \<Rightarrow> None
              | Some bitwidth \<Rightarrow>
                  Some (if total_element_bitwidth \<noteq> bitwidth then Inl INVALID_ARGUMENT else Inr json)))"

text \<open>One round of the annotation loop of \<open>MatchTuple\<close>; the state is the JSON, once a label was processed.\<close>

definition match_annotation ::
  "text_env \<Rightarrow> ('s, 'f) swss_acl \<Rightarrow> ir_match_field_definition \<Rightarrow> annotation_components \<Rightarrow>
   json option \<Rightarrow> json option outcome" where
  "match_annotation env acl match_field annotation processed =
     (if ac_label annotation = ''sai_field'' \<or> ac_label annotation = ''composite_field'' \<or>
         ac_label annotation = ''sai_udf''
      then if processed \<noteq> None then Some (Inl INVALID_ARGUMENT)
           else bind_outcome
             (if ac_label annotation = ''sai_field'' then Some (GenerateBasicMatchJson match_field annotation)
              else if ac_label annotation = ''composite_field''
              then GenerateCompositeMatchFieldJson env acl match_field annotation
              else GenerateUdfMatchFieldJson env match_field annotation)
             (\<lambda>json. Some (Inr (Some json)))
      else Some (Inr processed))"

definition MatchTuple ::
  "text_env \<Rightarrow> ('s, 'f) swss_acl \<Rightarrow> (json \<Rightarrow> string) \<Rightarrow> ir_match_field_definition \<Rightarrow> (string \<times> string) outcome" where
  "MatchTuple env acl dump match_field =
     (if mfd_name match_field = [] then Some (Inl INVALID_ARGUMENT)
      else bind_outcome (fold_outcome (match_annotation env acl match_field)
             (GetAllAnnotations (mfd_annotations match_field)) None) (\<lambda>processed.
             Some (case processed of
               None \<Rightarrow> Inl INVALID_ARGUMENT
             | Some json \<Rightarrow> Inr (''match/'' @ mfd_name match_field, dump json))))"

section \<open>Actions\<close>

record ir_action_info =
  iai_name :: string
  iai_sai_actions :: "sai_action list"

definition ExtractActionAndColor :: "string list \<Rightarrow> sai_action status_or" where
  "ExtractActionAndColor arg_list =
     (case arg_list of
        [action] \<Rightarrow> Inr \<lparr>sai_action_name = action, sai_parameter = [], sai_color = [], sai_object_type = []\<rparr>
      | [action, color] \<Rightarrow>
          if IsValidColor color
          then Inr \<lparr>sai_action_name = action, sai_parameter = [], sai_color = color, sai_object_type = []\<rparr>
          else Inl INVALID_ARGUMENT
      | _ \<Rightarrow> Inl INVALID_ARGUMENT)"

definition ExtractActionParamSaiObjectType :: "string list \<Rightarrow> string status_or" where
  "ExtractActionParamSaiObjectType arg_list =
     (case arg_list of
        [] \<Rightarrow> Inr []
      | [type] \<Rightarrow> if IsValidRedirectObjectType type then Inr type else Inl INVALID_ARGUMENT
      | _ \<Rightarrow> Inl INVALID_ARGUMENT)"

definition ParseActionParam :: "ir_param_definition \<Rightarrow> sai_action status_or" where
  "ParseActionParam param =
     (case GetAnnotationAsArgList ''sai_action_param'' (ipd_annotations param) of
        Inl _ \<Rightarrow> Inl INVALID_ARGUMENT
      | Inr args \<Rightarrow>
          bind_or (ExtractActionAndColor args) (\<lambda>sai.
          bind_or (case GetAnnotationAsArgList ''sai_action_param_object_type'' (ipd_annotations param) of
                     Inl _ \<Rightarrow> Inr sai
                   | Inr types \<Rightarrow> bind_or (ExtractActionParamSaiObjectType types) (\<lambda>object_type.
                       Inr (sai\<lparr>sai_object_type := object_type\<rparr>))) (\<lambda>sai.
            if ipd_name param = [] then Inl INVALID_ARGUMENT
            else Inr (sai\<lparr>sai_parameter := ipd_name param\<rparr>))))"

definition parse_action_param ::
  "nat \<times> ir_param_definition \<Rightarrow> (nat, sai_action) bt_map \<Rightarrow> (nat, sai_action) bt_map status_or" where
  "parse_action_param entry sorted_sai_actions =
     bind_or (ParseActionParam (snd entry)) (\<lambda>sai_param. Inr (bt_assign (fst entry) sai_param sorted_sai_actions))"

definition ParseAction :: "ir_action_definition \<Rightarrow> ir_action_info status_or" where
  "ParseAction action =
     (if iad_alias action = [] then Inl INVALID_ARGUMENT
      else bind_or (case GetAllAnnotationsAsArgList ''sai_action'' (iad_annotations action) of
                      Inl _ \<Rightarrow> Inr []
                    | Inr arg_lists \<Rightarrow> map_or ExtractActionAndColor arg_lists) (\<lambda>sai_actions.
           bind_or (fold_or parse_action_param (iad_params_by_id action) []) (\<lambda>sorted_sai_actions.
             Inr \<lparr>iai_name = iad_alias action, iai_sai_actions = sai_actions @ map snd sorted_sai_actions\<rparr>)))"

definition CreateSaiActionJson :: "sai_action \<Rightarrow> json" where
  "CreateSaiActionJson p =
     json_object
       ([(''action'', JStr (sai_action_name p))] @
        (if sai_parameter p \<noteq> [] then [(''param'', JStr (sai_parameter p))] else []) @
        (if sai_color p \<noteq> [] then [(''packet_color'', JStr (sai_color p))] else []) @
        (if sai_object_type p \<noteq> [] then [(''object_type'', JStr (sai_object_type p))] else []))"

definition IrActionInfoToJsonString :: "(json \<Rightarrow> string) \<Rightarrow> ir_action_info \<Rightarrow> string" where
  "IrActionInfoToJsonString dump info = dump (json_array (map CreateSaiActionJson (iai_sai_actions info)))"

definition ActionTuple :: "(json \<Rightarrow> string) \<Rightarrow> ir_action_definition \<Rightarrow> (string \<times> string) status_or" where
  "ActionTuple dump action =
     bind_or (ParseAction action) (\<lambda>info.
       Inr (if iai_sai_actions info = [] then ([], [])
            else (''action/'' @ iai_name info, IrActionInfoToJsonString dump info)))"

definition VerifyConstDefaultActionInIrTable :: "ir_table_definition \<Rightarrow> status_code" where
  "VerifyConstDefaultActionInIrTable ir_table =
     (case itd_const_default_action ir_table of
        None \<Rightarrow> OK
      | Some action \<Rightarrow>
          (case ParseAction action of
             Inl e \<Rightarrow> e
           | Inr info \<Rightarrow> if iai_name info \<noteq> ''NoAction'' then INVALID_ARGUMENT else OK))"

section \<open>The definition of a table\<close>

fun unit_name :: "resource_unit \<Rightarrow> string" where
  "unit_name UNIT_UNSPECIFIED = ''UNSPECIFIED''"
| "unit_name UNIT_BYTES = ''BYTES''"
| "unit_name UNIT_PACKETS = ''PACKETS''"
| "unit_name UNIT_BOTH = ''BOTH''"

text \<open>The unit of a table without the message is the default one.\<close>

definition unit_tuple :: "string \<Rightarrow> bool \<Rightarrow> resource_unit \<Rightarrow> field_values" where
  "unit_tuple name present u =
     (if present \<and> u \<noteq> UNIT_UNSPECIFIED then [(name @ ''/unit'', unit_name u)] else [])"

definition action_tuple :: "(json \<Rightarrow> string) \<Rightarrow> ir_action_definition \<Rightarrow> (string \<times> string) status_or" where
  "action_tuple dump action =
     bind_or (ActionTuple dump action) (\<lambda>t. if fst t = [] then Inl INVALID_ARGUMENT else Inr t)"

definition priority_tuple :: "text_env \<Rightarrow> ir_table_definition \<Rightarrow> field_values status_or" where
  "priority_tuple env ir_table =
     (case GetAnnotationBody ''sai_acl_priority'' (itd_annotations ir_table) of
        Inl _ \<Rightarrow> Inr []
      | Inr priority \<Rightarrow>
          if te_SimpleAtoi env priority = None then Inl INVALID_ARGUMENT else Inr [(''priority'', priority)])"

definition GenerateSonicDbValuesFromIrTable ::
  "text_env \<Rightarrow> ('s, 'f) swss_acl \<Rightarrow> (json \<Rightarrow> string) \<Rightarrow> ir_table_definition \<Rightarrow> field_values outcome" where
  "GenerateSonicDbValuesFromIrTable env acl dump ir_table =
     bind_outcome (Some (StageTuple ir_table)) (\<lambda>stage_tuple.
       if GetStage acl (snd stage_tuple) = None then Some (Inl INVALID_ARGUMENT)
       else if itd_match_fields_by_id ir_table = [] then Some (Inl INVALID_ARGUMENT)
       else bind_outcome (fold_outcome (\<lambda>(_, match_field) values.
              bind_outcome (MatchTuple env acl dump match_field) (\<lambda>match_tuple.
                Some (Inr (values @ [match_tuple])))) (itd_match_fields_by_id ir_table) [stage_tuple]) (\<lambda>values.
       if itd_entry_actions ir_table = [] then Some (Inl INVALID_ARGUMENT)
       else Some (bind_or (map_or (action_tuple dump) (itd_entry_actions ir_table)) (\<lambda>action_tuples.
              bind_or (priority_tuple env ir_table) (\<lambda>priority.
                Inr (values @ action_tuples @
                     (if itd_size ir_table > 0 then [(''size'', dec_str (nat (itd_size ir_table)))] else []) @
                     unit_tuple ''meter'' (itd_has_meter ir_table) (itd_meter_unit ir_table) @
                     unit_tuple ''counter'' (itd_has_counter ir_table) (itd_counter_unit ir_table) @
                     priority))))))"

record ('stage, 'format) acl_env =
  ae_names :: swss_names
  ae_text :: text_env
  ae_acl :: "('stage, 'format) swss_acl"
  ae_dump :: "json \<Rightarrow> string"

definition acl_table_definition ::
  "('s, 'f) acl_env \<Rightarrow> string \<Rightarrow> ir_table_definition \<Rightarrow> key_op_fields_values outcome" where
  "acl_table_definition env op ir_table =
     bind_outcome (Some (GenerateSonicDbKeyFromIrTable (ae_names env) ir_table)) (\<lambda>key.
     bind_outcome (GenerateSonicDbValuesFromIrTable (ae_text env) (ae_acl env) (ae_dump env) ir_table) (\<lambda>values.
       Some (Inr \<lparr>kfvKey = key, kfvOp = op, kfvFieldsValues = values\<rparr>)))"

definition AppDbAclTableDefinition ::
  "('s, 'f) acl_env \<Rightarrow> ir_table_definition \<Rightarrow> key_op_fields_values outcome" where
  "AppDbAclTableDefinition env ir_table = acl_table_definition env [] ir_table"

definition VerifyAclTableDefinition :: "('s, 'f) acl_env \<Rightarrow> ir_table_definition \<Rightarrow> status_code option" where
  "VerifyAclTableDefinition env ir_table = map_option status_of (AppDbAclTableDefinition env ir_table)"

text \<open>Sending one request over the P4RT channel and reading its response.\<close>

definition send_acl_definition ::
  "'db sonic_env \<Rightarrow> key_op_fields_values \<Rightarrow> 'db \<Rightarrow> status_code \<times> 'db" where
  "send_acl_definition se request db =
     (case se_p4rt_wait se (se_p4rt_send se [request] db) of
        (response, db') \<Rightarrow>
          (case GetAndProcessResponseNotificationWithoutRevertingState_key (se_str_code se) response (kfvKey request) of
             Inl e \<Rightarrow> e
           | Inr status \<Rightarrow> if status = OK then OK else INVALID_ARGUMENT, db'))"

definition RemoveAclTableDefinitionByKey :: "'db sonic_env \<Rightarrow> string \<Rightarrow> 'db \<Rightarrow> status_code \<times> 'db" where
  "RemoveAclTableDefinitionByKey se key db =
     send_acl_definition se \<lparr>kfvKey = key, kfvOp = ''DEL'', kfvFieldsValues = []\<rparr> db"

definition InsertAclTableDefinition ::
  "('s, 'f) acl_env \<Rightarrow> 'db sonic_env \<Rightarrow> ir_table_definition \<Rightarrow> 'db \<Rightarrow> (status_code \<times> 'db) option" where
  "InsertAclTableDefinition env se ir_table db =
     (case acl_table_definition env ''SET'' ir_table of
        None \<Rightarrow> None
      | Some (Inl e) \<Rightarrow> Some (e, db)
      | Some (Inr request) \<Rightarrow> Some (send_acl_definition se request db))"

definition RemoveAclTableDefinition ::
  "swss_names \<Rightarrow> 'db sonic_env \<Rightarrow> ir_table_definition \<Rightarrow> 'db \<Rightarrow> status_code \<times> 'db" where
  "RemoveAclTableDefinition names se ir_table db =
     (case GenerateSonicDbKeyFromIrTable names ir_table of
        Inl e \<Rightarrow> (e, db)
      | Inr key \<Rightarrow> RemoveAclTableDefinitionByKey se key db)"

definition RemoveAclTableDefinition_name ::
  "swss_names \<Rightarrow> 'db sonic_env \<Rightarrow> string \<Rightarrow> 'db \<Rightarrow> status_code \<times> 'db" where
  "RemoveAclTableDefinition_name names se table_name db =
     RemoveAclTableDefinitionByKey se (GenerateSonicDbKeyFromTableName names table_name) db"

section \<open>The fields of a definition\<close>

lemma MatchTuple_name: "MatchTuple env acl dump d = Some (Inr t) \<Longrightarrow> fst t = ''match/'' @ mfd_name d \<and> mfd_name d \<noteq> []"
  by (auto simp: MatchTuple_def split: if_splits option.splits)

lemma match_tuples_fields:
  "fold_outcome (\<lambda>(_, d) vs. bind_outcome (MatchTuple env acl dump d) (\<lambda>t. Some (Inr (vs @ [t])))) ds vs =
     Some (Inr ws) \<Longrightarrow> \<exists>ts. ws = vs @ ts \<and> list_all2 (\<lambda>d t. MatchTuple env acl dump (snd d) = Some (Inr t)) ds ts"
proof (induction ds arbitrary: vs)
  case (Cons d ds)
  then obtain t where t: "MatchTuple env acl dump (snd d) = Some (Inr t)"
    and "fold_outcome (\<lambda>(_, d) vs. bind_outcome (MatchTuple env acl dump d) (\<lambda>t. Some (Inr (vs @ [t])))) ds
      (vs @ [t]) = Some (Inr ws)"
    by (auto split: prod.splits)
  from Cons.IH [OF this(2)] obtain ts where "ws = vs @ t # ts"
    "list_all2 (\<lambda>d t. MatchTuple env acl dump (snd d) = Some (Inr t)) ds ts"
    by auto
  with t show ?case by (intro exI [of _ "t # ts"]) simp
qed simp

lemma ParseAction_name: "ParseAction a = Inr i \<Longrightarrow> iai_name i = iad_alias a \<and> iad_alias a \<noteq> []"
  by (auto simp: ParseAction_def split: if_splits)

lemma action_tuple_fields:
  "action_tuple dump a = Inr t \<Longrightarrow>
   \<exists>i. ParseAction a = Inr i \<and> iai_sai_actions i \<noteq> [] \<and> t = (''action/'' @ iad_alias a, IrActionInfoToJsonString dump i)"
  by (auto simp: action_tuple_def ActionTuple_def dest: ParseAction_name split: if_splits)

lemma list_all2_map_eq: "list_all2 P xs ys \<Longrightarrow> (\<And>x y. P x y \<Longrightarrow> g y = f x) \<Longrightarrow> map g ys = map f xs"
  by (induction rule: list_all2_induct) auto

lemma list_all2_image: "list_all2 P xs ys \<Longrightarrow> x \<in> set xs \<Longrightarrow> \<exists>y \<in> set ys. P x y"
  by (induction rule: list_all2_induct) auto

text \<open>The names of the fields that a table's definition has.\<close>

definition definition_field_names :: "ir_table_definition \<Rightarrow> string list" where
  "definition_field_names t =
     ''stage'' # map (\<lambda>(_, d). ''match/'' @ mfd_name d) (itd_match_fields_by_id t) @
     map (\<lambda>a. ''action/'' @ iad_alias a) (itd_entry_actions t) @
     (if itd_size t > 0 then [''size''] else []) @
     (if itd_has_meter t \<and> itd_meter_unit t \<noteq> UNIT_UNSPECIFIED then [''meter/unit''] else []) @
     (if itd_has_counter t \<and> itd_counter_unit t \<noteq> UNIT_UNSPECIFIED then [''counter/unit''] else []) @
     (if (\<exists>p. GetAnnotationBody ''sai_acl_priority'' (itd_annotations t) = Inr p) then [''priority''] else [])"

lemma priority_tuple_name:
  "priority_tuple env t = Inr p \<Longrightarrow>
   map fst p = (if (\<exists>p. GetAnnotationBody ''sai_acl_priority'' (itd_annotations t) = Inr p) then [''priority''] else [])"
  by (auto simp: priority_tuple_def split: sum.splits if_splits)

lemma GenerateSonicDbValues_shape:
  assumes "GenerateSonicDbValuesFromIrTable env acl dump t = Some (Inr values)"
  shows "map fst values = definition_field_names t \<and>
    (\<exists>stage. StageTuple t = Inr (''stage'', stage) \<and> GetStage acl stage \<noteq> None \<and> hd values = (''stage'', stage)) \<and>
    itd_match_fields_by_id t \<noteq> [] \<and> itd_entry_actions t \<noteq> [] \<and>
    list_all (\<lambda>(_, d). \<exists>v. MatchTuple env acl dump d = Some (Inr v) \<and> v \<in> set values) (itd_match_fields_by_id t) \<and>
    list_all (\<lambda>a. \<exists>i. ParseAction a = Inr i \<and> iai_sai_actions i \<noteq> [] \<and>
      (''action/'' @ iad_alias a, IrActionInfoToJsonString dump i) \<in> set values) (itd_entry_actions t)"
proof -
  from assms obtain st vs acts p where st: "StageTuple t = Inr st" "GetStage acl (snd st) \<noteq> None"
    and ne: "itd_match_fields_by_id t \<noteq> []" "itd_entry_actions t \<noteq> []"
    and vs: "fold_outcome (\<lambda>(_, d) vs. bind_outcome (MatchTuple env acl dump d) (\<lambda>t. Some (Inr (vs @ [t]))))
      (itd_match_fields_by_id t) [st] = Some (Inr vs)"
    and acts: "map_or (action_tuple dump) (itd_entry_actions t) = Inr acts"
    and p: "priority_tuple env t = Inr p"
    and vals: "values = vs @ acts @
      (if itd_size t > 0 then [(''size'', dec_str (nat (itd_size t)))] else []) @
      unit_tuple ''meter'' (itd_has_meter t) (itd_meter_unit t) @
      unit_tuple ''counter'' (itd_has_counter t) (itd_counter_unit t) @ p"
    by (auto simp: GenerateSonicDbValuesFromIrTable_def split: if_splits)
  from st(1) have fst: "fst st = ''stage''"
    by (auto simp: StageTuple_def split: sum.splits list.splits)
  from match_tuples_fields [OF vs] obtain ms where ms: "vs = st # ms"
    and l2: "list_all2 (\<lambda>d t. MatchTuple env acl dump (snd d) = Some (Inr t)) (itd_match_fields_by_id t) ms"
    by auto
  from l2 have m: "map fst ms = map (\<lambda>(_, d). ''match/'' @ mfd_name d) (itd_match_fields_by_id t)"
    by (rule list_all2_map_eq) (auto dest: MatchTuple_name split: prod.splits)
  note acts' = acts [unfolded map_or_Inr_iff]
  from acts' have a: "map fst acts = map (\<lambda>a. ''action/'' @ iad_alias a) (itd_entry_actions t)"
    by (rule list_all2_map_eq) (auto dest: action_tuple_fields)
  have "list_all (\<lambda>(_, d). \<exists>v. MatchTuple env acl dump d = Some (Inr v) \<and> v \<in> set values) (itd_match_fields_by_id t)"
    unfolding list_all_iff
  proof
    fix d assume "d \<in> set (itd_match_fields_by_id t)"
    from list_all2_image [OF l2 this] show "case d of (_, d) \<Rightarrow>
        \<exists>v. MatchTuple env acl dump d = Some (Inr v) \<and> v \<in> set values"
      unfolding vals ms by auto
  qed
  moreover have "list_all (\<lambda>a. \<exists>i. ParseAction a = Inr i \<and> iai_sai_actions i \<noteq> [] \<and>
      (''action/'' @ iad_alias a, IrActionInfoToJsonString dump i) \<in> set values) (itd_entry_actions t)"
    unfolding list_all_iff
  proof
    fix a assume "a \<in> set (itd_entry_actions t)"
    from list_all2_image [OF acts' this] obtain v where "v \<in> set acts" "action_tuple dump a = Inr v"
      by auto
    then show "\<exists>i. ParseAction a = Inr i \<and> iai_sai_actions i \<noteq> [] \<and>
        (''action/'' @ iad_alias a, IrActionInfoToJsonString dump i) \<in> set values"
      by (auto simp: vals dest!: action_tuple_fields)
  qed
  moreover have "map fst values = definition_field_names t"
    using m a fst priority_tuple_name [OF p] by (auto simp: vals ms definition_field_names_def unit_tuple_def)
  ultimately show ?thesis using st ne fst by (cases st) (auto simp: vals ms)
qed

lemma definition_field_names_distinct:
  assumes "distinct (map (\<lambda>(_, d). mfd_name d) (itd_match_fields_by_id t))"
    and "distinct (map iad_alias (itd_entry_actions t))"
  shows "distinct (definition_field_names t)"
  using assms
proof -
  have "distinct (map ((@) ''match/'') (map (\<lambda>(_, d). mfd_name d) (itd_match_fields_by_id t)))"
    "distinct (map ((@) ''action/'') (map iad_alias (itd_entry_actions t)))"
    using assms by (subst distinct_map, simp add: inj_on_def)+
  then show ?thesis
    by (auto simp: definition_field_names_def comp_def split_def)
qed

section \<open>Composite fields\<close>

definition element_width :: "json \<Rightarrow> int option" where
  "element_width e = Option.bind (json_at ''bitwidth'' e) json_int"

text \<open>What the element loop keeps: the elements pushed so far, and the sum of their widths.\<close>

definition composite_inv :: "json option \<Rightarrow> json \<times> int \<Rightarrow> bool" where
  "composite_inv width st \<longleftrightarrow>
     (\<exists>m elems widths. fst st = JObj m \<and> bt_wf m \<and> map_of m ''bitwidth'' = width \<and>
        map_of m ''elements'' = (if elems = [] then None else Some (JArr elems)) \<and>
        map element_width elems = map Some widths \<and> snd st = sum_list widths)"

lemma composite_step_inv:
  assumes "composite_inv width st" "composite_step env acl element st = Some (Inr st')"
  shows "composite_inv width st'"
proof -
  from assms(1) obtain m elems widths where m: "fst st = JObj m" "bt_wf m" "map_of m ''bitwidth'' = width"
    "map_of m ''elements'' = (if elems = [] then None else Some (JArr elems))"
    and w: "map element_width elems = map Some widths" "snd st = sum_list widths"
    by (auto simp: composite_inv_def)
  from m(1,4) have push: "Option.bind (json_at ''elements'' (fst st)) (json_push_back e) = Some (JArr (elems @ [e]))" for e
    by (simp add: bt_find_def)
  from assms(2) obtain e where "composite_element_json env acl element = Some (Inr e)"
    by (auto simp: composite_step_def)
  with assms(2) obtain n where e: "element_width e = Some n"
    and st': "st' = (JObj (bt_assign ''elements'' (JArr (elems @ [e])) m), snd st + n)"
    unfolding composite_step_def push element_width_def
    by (cases "Option.bind (json_at ''bitwidth'' e) json_int") (auto simp: m(1) split: if_splits)
  show ?thesis
    unfolding composite_inv_def st'
    by (rule exI [of _ "bt_assign ''elements'' (JArr (elems @ [e])) m"], rule exI [of _ "elems @ [e]"],
        rule exI [of _ "widths @ [n]"]) (use m w e in \<open>auto simp: bt_wf_assign bt_assign_map_of\<close>)
qed

lemma composite_init:
  "composite_inv (if mfd_format d \<noteq> STRING then Some (JNum (int (mfd_bitwidth d))) else None)
     (composite_header d, 0)"
  unfolding composite_inv_def composite_header_def
  by (auto simp: json_object_def bt_wf_def intro!: exI [of _ "[]"])

lemma composite_result:
  assumes "GenerateCompositeMatchFieldJson env acl d a = Some (Inr json)"
  shows "mfd_format d \<noteq> STRING \<and>
    (\<exists>elems widths. json_at ''elements'' json = Some (json_array elems) \<and>
      map element_width elems = map Some widths \<and> sum_list widths = int (mfd_bitwidth d) \<and>
      element_width json = Some (int (mfd_bitwidth d)))"
proof -
  let ?w = "if mfd_format d \<noteq> STRING then Some (JNum (int (mfd_bitwidth d))) else None"
  from assms obtain as n where loop: "fold_outcome (composite_step env acl) (GetAllAnnotations as)
      (composite_header d, 0) = Some (Inr (json, n))" and width: "element_width json = Some n"
    unfolding GenerateCompositeMatchFieldJson_def element_width_def
    by (auto split: if_split_asm option.split_asm)
  have "composite_inv ?w (json, n)"
    by (rule fold_outcome_invariant [where P = "composite_inv ?w", OF loop])
      (rule composite_init, rule composite_step_inv)
  then obtain m elems widths where m: "json = JObj m" "map_of m ''bitwidth'' = ?w"
    "map_of m ''elements'' = (if elems = [] then None else Some (JArr elems))"
    "map element_width elems = map Some widths" "n = sum_list widths"
    by (auto simp: composite_inv_def)
  with width have "mfd_format d \<noteq> STRING" "n = int (mfd_bitwidth d)"
    by (auto simp: element_width_def bt_find_def split: if_splits)
  with m width show ?thesis by (auto simp: bt_find_def json_array_def)
qed

section \<open>The order of the parameters\<close>

lemma ParseActionParam_error: "ParseActionParam p = Inl e \<Longrightarrow> e = INVALID_ARGUMENT"
proof -
  have "ExtractActionAndColor args = Inl e \<Longrightarrow> e = INVALID_ARGUMENT" for args
    by (auto simp: ExtractActionAndColor_def split: list.splits if_splits)
  moreover have "ExtractActionParamSaiObjectType args = Inl e \<Longrightarrow> e = INVALID_ARGUMENT" for args
    by (auto simp: ExtractActionParamSaiObjectType_def split: list.splits if_splits)
  ultimately show "ParseActionParam p = Inl e \<Longrightarrow> e = INVALID_ARGUMENT"
    by (cases "GetAnnotationAsArgList ''sai_action_param_object_type'' (ipd_annotations p)")
      (auto simp: ParseActionParam_def bind_or_eq_Inl split: sum.splits if_splits)
qed

lemma parse_action_param_commute:
  assumes "bt_wf m" "fst x = fst y \<Longrightarrow> x = y"
  shows "bind_or (parse_action_param x m) (parse_action_param y) =
    bind_or (parse_action_param y m) (parse_action_param x)"
proof (cases "fst x = fst y")
  case False
  have "bt_assign (fst y) v (bt_assign (fst x) u m) = bt_assign (fst x) u (bt_assign (fst y) v m)" for u v
    by (rule bt_eqI) (use False assms(1) in \<open>auto simp: bt_wf_assign bt_assign_map_of fun_upd_twist\<close>)
  then show ?thesis
    by (cases "ParseActionParam (snd x)"; cases "ParseActionParam (snd y)")
      (auto simp: parse_action_param_def dest: ParseActionParam_error)
qed (use assms(2) in simp)

section \<open>Properties\<close>

text \<open>
  C25. The definition entry of an ACL table is complete: its key is built from the table's alias, its
  fields are the stage, one per match field, one per entry action and the optional ones, in this
  order, and no field hides another, so that every match field and every action is found in the
  database under its own name, an action with at least one SAI action.
\<close>

theorem acl_definition_complete:
  assumes "AppDbAclTableDefinition env t = Some (Inr request)"
    and "distinct (map (\<lambda>(_, d). mfd_name d) (itd_match_fields_by_id t))"
    and "distinct (map iad_alias (itd_entry_actions t))"
  shows "kfvKey request = TypeName (ae_names env) kAclDefinition @ '':ACL_'' @ map ascii_toupper (itd_alias t) \<and>
    map fst (kfvFieldsValues request) = definition_field_names t \<and>
    distinct (definition_field_names t) \<and>
    (\<forall>(_, d) \<in> set (itd_match_fields_by_id t). \<exists>v.
       MatchTuple (ae_text env) (ae_acl env) (ae_dump env) d = Some (Inr (''match/'' @ mfd_name d, v)) \<and>
       last_wins (kfvFieldsValues request) (''match/'' @ mfd_name d) = Some v) \<and>
    (\<forall>a \<in> set (itd_entry_actions t). \<exists>info.
       ParseAction a = Inr info \<and> iai_sai_actions info \<noteq> [] \<and>
       last_wins (kfvFieldsValues request) (''action/'' @ iad_alias a) =
         Some (IrActionInfoToJsonString (ae_dump env) info))"
proof -
  let ?vs = "kfvFieldsValues request"
  from assms(1) have gen: "GenerateSonicDbValuesFromIrTable (ae_text env) (ae_acl env) (ae_dump env) t =
      Some (Inr ?vs)"
    and key: "kfvKey request = TypeName (ae_names env) kAclDefinition @ '':ACL_'' @ map ascii_toupper (itd_alias t)"
    by (auto simp: AppDbAclTableDefinition_def acl_table_definition_def GenerateSonicDbKeyFromIrTable_def
        GenerateSonicDbKeyFromTableName_def split: if_splits)
  note shape = GenerateSonicDbValues_shape [OF gen]
  have d: "distinct (definition_field_names t)"
    using assms(2,3) by (rule definition_field_names_distinct)
  with shape have dist: "distinct (map fst ?vs)" by simp
  have look: "last_wins ?vs (fst kv) = Some (snd kv)" if "kv \<in> set ?vs" for kv
    using that dist by (simp add: last_wins_map_of)
  have "\<exists>v. MatchTuple (ae_text env) (ae_acl env) (ae_dump env) d = Some (Inr (''match/'' @ mfd_name d, v)) \<and>
       last_wins ?vs (''match/'' @ mfd_name d) = Some v" if "(i, d) \<in> set (itd_match_fields_by_id t)" for i d
  proof -
    from shape that obtain kv where kv: "MatchTuple (ae_text env) (ae_acl env) (ae_dump env) d = Some (Inr kv)"
      "kv \<in> set ?vs" by (auto simp: list_all_iff)
    with look [of kv] MatchTuple_name [OF kv(1)] show ?thesis by (metis prod.collapse)
  qed
  moreover have "\<exists>info. ParseAction a = Inr info \<and> iai_sai_actions info \<noteq> [] \<and>
       last_wins ?vs (''action/'' @ iad_alias a) = Some (IrActionInfoToJsonString (ae_dump env) info)"
    if "a \<in> set (itd_entry_actions t)" for a
    using shape that look by (fastforce simp: list_all_iff)
  ultimately show ?thesis using key shape d by blast
qed

text \<open>
  C40. The definition of a composite match field carries the width of the field, and the widths of its
  elements add up to it. A composite field of format \<open>STRING\<close> has no definition.
\<close>

theorem composite_field_width:
  assumes "GenerateCompositeMatchFieldJson env acl d a = Some (Inr json)"
  shows "mfd_format d \<noteq> STRING \<and> element_width json = Some (int (mfd_bitwidth d)) \<and>
    (\<exists>elems widths. json_at ''elements'' json = Some (json_array elems) \<and>
      map element_width elems = map Some widths \<and> sum_list widths = int (mfd_bitwidth d))"
  using composite_result [OF assms] by blast

text \<open>
  The SAI actions of an action do not depend on the order in which its parameters are visited.
\<close>

theorem ParseAction_order_independent:
  assumes "mset (iad_params_by_id a) = mset ps" "distinct (map fst (iad_params_by_id a))"
  shows "ParseAction (a\<lparr>iad_params_by_id := ps\<rparr>) = ParseAction a"
proof -
  have "x = y" if "x \<in> set (iad_params_by_id a)" "y \<in> set (iad_params_by_id a)" "fst x = fst y" for x y
    using that assms(2) by (auto simp: distinct_map inj_on_def)
  then have "fold_or parse_action_param (iad_params_by_id a) [] = fold_or parse_action_param ps []"
    by (intro fold_or_mset [of _ _ bt_wf, OF assms(1)] parse_action_param_commute)
      (auto simp: parse_action_param_def bt_wf_assign)
  then show ?thesis by (simp add: ParseAction_def)
qed

section \<open>An instance\<close>

text \<open>A schema that knows the ingress stage and no fields, and a table that is defined with it.\<close>

definition example_acl :: "(string, string) swss_acl" where
  "example_acl =
     \<lparr>sa_kLookup = ''LOOKUP'', sa_kNone = ''NONE'',
      sa_StageFromName = (\<lambda>n. if n = ''INGRESS'' then Some n else None), sa_StageName = (\<lambda>s. s),
      sa_FormatName = (\<lambda>f. f), sa_MatchFieldSchemaByName = (\<lambda>_. None),
      sa_ActionSchemaByName = (\<lambda>_. None), sa_ActionSchemaByNameAndObjectType = (\<lambda>_ _. None)\<rparr>"

definition example_acl_env :: "(string, string) acl_env" where
  "example_acl_env =
     \<lparr>ae_names = \<lparr>sn_fixed_tables = [], sn_acl_table_definition_name = ''DEFINITION'',
                  sn_tables_definition_table_name = ''TABLES''\<rparr>,
      ae_text = example_text_env, ae_acl = example_acl,
      ae_dump = (\<lambda>j. case j of JNull \<Rightarrow> ''null'' | JStr s \<Rightarrow> s | JNum _ \<Rightarrow> ''n'' | JArr _ \<Rightarrow> ''a'' | JObj _ \<Rightarrow> ''o'')\<rparr>"

definition example_acl_field :: "string \<Rightarrow> string \<Rightarrow> nat \<Rightarrow> ir_match_field_definition" where
  "example_acl_field name annotation bitwidth =
     (element_match_field bitwidth HEX_STRING)\<lparr>mfd_name := name, mfd_annotations := [annotation]\<rparr>"

definition example_composite :: annotation_components where
  "example_composite = \<lparr>ac_label = ''composite_field'',
     ac_body = ''@sai_udf(base=L3, offset=24, length=2), @sai_udf(base=L3, offset=26, length=2)''\<rparr>"

definition example_acl_action :: ir_action_definition where
  "example_acl_action =
     \<lparr>iad_id = 1, iad_name = ''ingress.copy'', iad_alias = ''copy'',
      iad_annotations = [''@sai_action(SAI_PACKET_ACTION_COPY)''],
      iad_params_by_id =
        [(2, \<lparr>ipd_id = 2, ipd_name = ''tc'', ipd_annotations = [''@sai_action_param(SET_TC)''], ipd_bitwidth = 8,
              ipd_type_name = [], ipd_format = HEX_STRING, ipd_references = []\<rparr>),
         (1, \<lparr>ipd_id = 1, ipd_name = ''qos'', ipd_annotations = [''@sai_action_param(QOS)''], ipd_bitwidth = 8,
              ipd_type_name = [], ipd_format = HEX_STRING, ipd_references = []\<rparr>)],
      iad_params_by_name = [], iad_is_unsupported = False\<rparr>"

definition example_acl_table :: ir_table_definition where
  "example_acl_table =
     \<lparr>itd_alias = ''acl_punt'', itd_id = 7, itd_annotations = [''@sai_acl(INGRESS)'', ''@sai_acl_priority(5)''],
      itd_match_fields_by_id =
        [(1, example_acl_field ''ttl'' ''@sai_field(SAI_TTL)'' 8),
         (2, example_acl_field ''arp'' (''@composite_field('' @ ac_body example_composite @ '')'') 32)],
      itd_match_fields_by_name = [], itd_entry_actions = [example_acl_action], itd_default_only_actions = [],
      itd_const_default_action = None, itd_size = 12, itd_uses_oneshot = False, itd_action_profile_id = None,
      itd_requires_priority = True, itd_has_meter = False, itd_meter_unit = UNIT_UNSPECIFIED,
      itd_has_counter = True, itd_counter_unit = UNIT_BOTH, itd_role = [], itd_is_unsupported = False,
      itd_outgoing_references = [], itd_incoming_references = []\<rparr>"

lemma example_acl_definition:
  "AppDbAclTableDefinition example_acl_env example_acl_table =
     Some (Inr \<lparr>kfvKey = ''DEFINITION:ACL_ACL_PUNT'', kfvOp = [],
       kfvFieldsValues = [(''stage'', ''INGRESS''), (''match/ttl'', ''o''), (''match/arp'', ''o''),
         (''action/copy'', ''a''), (''size'', ''12''), (''counter/unit'', ''BOTH''), (''priority'', ''5'')]\<rparr>)"
  by code_simp

lemma example_acl_stage: "GetAnnotationBody ''sai_acl'' (itd_annotations example_acl_table) = Inr ''INGRESS''"
  by code_simp

lemma example_acl_upgrade:
  "GetAnnotationBody ''reinstall_during_upgrade'' (itd_annotations example_acl_table) = Inl NOT_FOUND"
  "GetAnnotationBody ''nonessential_for_upgrade'' (itd_annotations example_acl_table) = Inl NOT_FOUND"
  "AppDbAclTableDefinition example_acl_env (example_acl_table\<lparr>itd_size := 13\<rparr>) =
     Some (Inr \<lparr>kfvKey = ''DEFINITION:ACL_ACL_PUNT'', kfvOp = [],
       kfvFieldsValues = [(''stage'', ''INGRESS''), (''match/ttl'', ''o''), (''match/arp'', ''o''),
         (''action/copy'', ''a''), (''size'', ''13''), (''counter/unit'', ''BOTH''), (''priority'', ''5'')]\<rparr>)"
  by code_simp+

theorem acl_definition_complete_witness:
  "definition_field_names example_acl_table =
     [''stage'', ''match/ttl'', ''match/arp'', ''action/copy'', ''size'', ''counter/unit'', ''priority''] \<and>
   distinct (definition_field_names example_acl_table)"
proof -
  have "distinct (map (\<lambda>(_, d). mfd_name d) (itd_match_fields_by_id example_acl_table))"
    "distinct (map iad_alias (itd_entry_actions example_acl_table))"
    by (simp_all add: example_acl_table_def example_acl_field_def)
  from acl_definition_complete [OF example_acl_definition this] show ?thesis by simp
qed

definition example_composite_json :: json where
  "example_composite_json =
     JObj [(''bitwidth'', JNum 32),
           (''elements'', JArr [JObj [(''base'', JStr ''L3''), (''bitwidth'', JNum 16), (''kind'', JStr ''udf''), (''offset'', JNum 24)],
                               JObj [(''base'', JStr ''L3''), (''bitwidth'', JNum 16), (''kind'', JStr ''udf''), (''offset'', JNum 26)]]),
           (''format'', JStr ''HEX_STRING''), (''kind'', JStr ''composite'')]"

lemma example_composite_generated:
  "GenerateCompositeMatchFieldJson example_text_env example_acl (element_match_field 32 HEX_STRING) example_composite =
     Some (Inr example_composite_json)"
  by code_simp

theorem composite_field_width_witness:
  "element_width example_composite_json = Some 32 \<and>
   (\<exists>elems widths. json_at ''elements'' example_composite_json = Some (json_array elems) \<and>
      map element_width elems = map Some widths \<and> sum_list widths = 32)"
  using composite_field_width [OF example_composite_generated] by (simp add: element_match_field_def)

theorem ParseAction_order_independent_witness:
  "ParseAction (example_acl_action\<lparr>iad_params_by_id := rev (iad_params_by_id example_acl_action)\<rparr>) =
     ParseAction example_acl_action \<and>
   map_sum id (map sai_parameter \<circ> iai_sai_actions) (ParseAction example_acl_action) = Inr [[], ''qos'', ''tc'']"
proof
  show "ParseAction (example_acl_action\<lparr>iad_params_by_id := rev (iad_params_by_id example_acl_action)\<rparr>) =
     ParseAction example_acl_action"
    by (rule ParseAction_order_independent) (simp_all add: example_acl_action_def)
qed code_simp

end
