(* ===== verification/P4info_Schema.thy ===== *)
theory P4info_Schema
  imports P4info Acl_Definitions
begin

text \<open>
  Verification of a P4Info against the tables that the switch supports
  (\<open>p4rt_app/p4runtime/p4info_verification_schema.cc\<close> and \<open>p4info_verification.cc\<close>). The schema of
  the switch is compiled into the program from a data file and is a parameter; the flag \<open>is_port\<close> of
  the schema messages is neither set nor compared and left out. A \<open>flat_hash_map\<close> is an association
  list; whether a P4Info is supported does not depend on the order in which it is iterated over.
\<close>

section \<open>Schemas\<close>

datatype schema_match_type = SCHEMA_UNKNOWN | SCHEMA_EXACT | SCHEMA_LPM | SCHEMA_TERNARY

record match_schema =
  ms_name :: string
  ms_format :: ir_format
  ms_bitwidth :: nat
  ms_type :: schema_match_type

record parameter_schema =
  ps_name :: string
  ps_format :: ir_format
  ps_bitwidth :: nat

record fixed_action_schema =
  fas_name :: string
  fas_parameters :: "parameter_schema list"

record fixed_table_schema =
  fts_name :: string
  fts_match_fields :: "match_schema list"
  fts_actions :: "fixed_action_schema list"

type_synonym verification_schema = "fixed_table_schema list"

record schema_table =
  st_match_schemas :: "(string \<times> match_schema) list"
  st_action_schemas :: "(string \<times> fixed_action_schema) list"

definition by_key :: "('a \<Rightarrow> 'k) \<Rightarrow> ('a \<Rightarrow> 'v) \<Rightarrow> 'a list \<Rightarrow> ('k \<times> 'v) list" where
  "by_key k v xs = fold (\<lambda>x m. AList.update (k x) (v x) m) xs []"

definition to_schema_table :: "fixed_table_schema \<Rightarrow> schema_table" where
  "to_schema_table t =
     \<lparr>st_match_schemas = by_key ms_name (\<lambda>m. m) (fts_match_fields t),
      st_action_schemas = by_key fas_name (\<lambda>a. a) (fts_actions t)\<rparr>"

definition ToSchemaMap :: "verification_schema \<Rightarrow> (string \<times> schema_table) list" where
  "ToSchemaMap proto_schema = by_key fts_name to_schema_table proto_schema"

fun ToSchemaMatchType :: "match_type \<Rightarrow> schema_match_type status_or" where
  "ToSchemaMatchType EXACT = Inr SCHEMA_EXACT"
| "ToSchemaMatchType OPTIONAL = Inr SCHEMA_EXACT"
| "ToSchemaMatchType LPM = Inr SCHEMA_LPM"
| "ToSchemaMatchType TERNARY = Inr SCHEMA_TERNARY"
| "ToSchemaMatchType RANGE = Inl INVALID_ARGUMENT"
| "ToSchemaMatchType MATCH_TYPE_UNSPECIFIED = Inl INVALID_ARGUMENT"

definition ToMatchSchema :: "string \<Rightarrow> ir_match_field_definition \<Rightarrow> match_schema status_or" where
  "ToMatchSchema name match_field =
     (if mfd_format match_field = HEX_STRING \<and> mfd_bitwidth match_field = 0 then Inl INVALID_ARGUMENT
      else bind_or (ToSchemaMatchType (mfd_match_type match_field)) (\<lambda>match_type.
        Inr \<lparr>ms_name = name, ms_format = mfd_format match_field,
             ms_bitwidth = (if mfd_format match_field = HEX_STRING then mfd_bitwidth match_field else 0),
             ms_type = match_type\<rparr>))"

definition to_parameter_schema :: "string \<times> ir_param_definition \<Rightarrow> parameter_schema status_or" where
  "to_parameter_schema entry =
     (if ipd_format (snd entry) = HEX_STRING \<and> ipd_bitwidth (snd entry) = 0 then Inl INVALID_ARGUMENT
      else Inr \<lparr>ps_name = fst entry, ps_format = ipd_format (snd entry),
                ps_bitwidth = (if ipd_format (snd entry) = HEX_STRING then ipd_bitwidth (snd entry) else 0)\<rparr>)"

definition ToActionSchema :: "ir_action_definition \<Rightarrow> fixed_action_schema status_or" where
  "ToActionSchema action =
     bind_or (map_or to_parameter_schema (iad_params_by_name action)) (\<lambda>parameters.
       Inr \<lparr>fas_name = iad_alias action, fas_parameters = parameters\<rparr>)"

definition ToTableSchema :: "string \<Rightarrow> ir_table_definition \<Rightarrow> fixed_table_schema status_or" where
  "ToTableSchema table_name table =
     (if itd_has_counter table then Inl INVALID_ARGUMENT
      else if itd_has_meter table then Inl INVALID_ARGUMENT
      else if itd_match_fields_by_name table = [] then Inl INVALID_ARGUMENT
      else bind_or (map_or (\<lambda>(name, match_field). ToMatchSchema name match_field) (itd_match_fields_by_name table)) (\<lambda>match_fields.
           bind_or (map_or ToActionSchema (itd_entry_actions table)) (\<lambda>actions.
             Inr \<lparr>fts_name = table_name, fts_match_fields = match_fields, fts_actions = actions\<rparr>)))"

definition MatchSchemaIsCompatible :: "match_schema \<Rightarrow> match_schema \<Rightarrow> status_code" where
  "MatchSchemaIsCompatible schema supported =
     (if ms_name schema \<noteq> ms_name supported then INTERNAL
      else if ms_format schema \<noteq> ms_format supported then INVALID_ARGUMENT
      else if ms_bitwidth schema > ms_bitwidth supported then INVALID_ARGUMENT
      else if ms_type schema \<noteq> ms_type supported then INVALID_ARGUMENT
      else OK)"

definition parameter_is_compatible :: "(string \<times> parameter_schema) list \<Rightarrow> parameter_schema \<Rightarrow> status_code" where
  "parameter_is_compatible supported_params schema_param =
     (case map_of supported_params (ps_name schema_param) of
        None \<Rightarrow> NOT_FOUND
      | Some supported_param \<Rightarrow>
          if ps_format schema_param \<noteq> ps_format supported_param then INVALID_ARGUMENT
          else if ps_bitwidth schema_param > ps_bitwidth supported_param then INVALID_ARGUMENT
          else OK)"

definition ActionSchemaIsCompatible :: "fixed_action_schema \<Rightarrow> fixed_action_schema \<Rightarrow> status_code" where
  "ActionSchemaIsCompatible schema supported =
     (if fas_name schema \<noteq> fas_name supported then INTERNAL
      else if length (fas_parameters schema) \<noteq> length (fas_parameters supported) then INVALID_ARGUMENT
      else check_all (parameter_is_compatible (by_key ps_name (\<lambda>p. p) (fas_parameters supported)))
             (fas_parameters schema))"

definition ConvertToSchema :: "swss_names \<Rightarrow> ir_p4info \<Rightarrow> verification_schema status_or" where
  "ConvertToSchema names info =
     fold_or (\<lambda>(table_name, table) schema.
       bind_or (GetTableType names table) (\<lambda>table_type.
         if table_type \<noteq> kFixed \<and> table_type \<noteq> kExt then Inr schema
         else bind_or (ToTableSchema table_name table) (\<lambda>table_schema. Inr (schema @ [table_schema]))))
       (tables_by_name_entries info) []"

definition match_is_supported :: "schema_table \<Rightarrow> string \<times> match_schema \<Rightarrow> status_code" where
  "match_is_supported supported_table candidate =
     (case map_of (st_match_schemas supported_table) (fst candidate) of
        None \<Rightarrow> NOT_FOUND
      | Some supported_match \<Rightarrow> MatchSchemaIsCompatible (snd candidate) supported_match)"

definition action_is_supported :: "schema_table \<Rightarrow> string \<times> fixed_action_schema \<Rightarrow> status_code" where
  "action_is_supported supported_table candidate =
     (case map_of (st_action_schemas supported_table) (fst candidate) of
        None \<Rightarrow> NOT_FOUND
      | Some supported_action \<Rightarrow> ActionSchemaIsCompatible (snd candidate) supported_action)"

definition table_is_supported ::
  "swss_names \<Rightarrow> ir_p4info \<Rightarrow> (string \<times> schema_table) list \<Rightarrow> string \<times> schema_table \<Rightarrow> status_code" where
  "table_is_supported names info supported_schema_map candidate =
     (case tables_by_name info (fst candidate) of
        None \<Rightarrow> NOT_FOUND
      | Some ir_table_def \<Rightarrow>
          (case GetTableType names ir_table_def of
             Inl e \<Rightarrow> e
           | Inr table_type \<Rightarrow>
               if table_type = kExt then OK
               else case map_of supported_schema_map (fst candidate) of
                      None \<Rightarrow> NOT_FOUND
                    | Some supported_table \<Rightarrow>
                        let match_fields = check_all (match_is_supported supported_table) (st_match_schemas (snd candidate))
                        in if match_fields \<noteq> OK then match_fields
                           else check_all (action_is_supported supported_table) (st_action_schemas (snd candidate))))"

definition IsSupportedBySchema :: "swss_names \<Rightarrow> ir_p4info \<Rightarrow> verification_schema \<Rightarrow> status_code" where
  "IsSupportedBySchema names info supported_schema =
     (case ConvertToSchema names info of
        Inl e \<Rightarrow> e
      | Inr schema \<Rightarrow>
          check_all (table_is_supported names info (ToSchemaMap supported_schema)) (ToSchemaMap schema))"

section \<open>Validation\<close>

definition port_metadata :: "nat \<Rightarrow> string \<Rightarrow> p4_element" where
  "port_metadata i name =
     \<lparr>pel_id = i, pel_name = name, pel_annotations = [], pel_bitwidth = 0, pel_type_name = Some ''port_id_t''\<rparr>"

definition kExpectedPacketIo :: "p4_packet_metadata list" where
  "kExpectedPacketIo =
     [\<lparr>ppm_preamble = \<lparr>pre_id = 81826293, pre_name = ''packet_in'', pre_alias = ''packet_in'',
                       pre_annotations = [''@controller_header('' @ [CHR 0x22] @ ''packet_in'' @ [CHR 0x22] @ '')'']\<rparr>,
       ppm_metadata = [port_metadata 1 ''ingress_port'', port_metadata 2 ''target_egress_port'']\<rparr>,
      \<lparr>ppm_preamble = \<lparr>pre_id = 76689799, pre_name = ''packet_out'', pre_alias = ''packet_out'',
                       pre_annotations = [''@controller_header('' @ [CHR 0x22] @ ''packet_out'' @ [CHR 0x22] @ '')'']\<rparr>,
       ppm_metadata = [port_metadata 1 ''egress_port'',
         \<lparr>pel_id = 2, pel_name = ''submit_to_ingress'', pel_annotations = [], pel_bitwidth = 1, pel_type_name = None\<rparr>,
         \<lparr>pel_id = 3, pel_name = ''unused_pad'', pel_annotations = [''@padding''], pel_bitwidth = 6,
          pel_type_name = None\<rparr>]\<rparr>]"

text \<open>
  What the validation is given: the comparison of packet metadata by \<open>MessageDifferencer\<close> (in which
  the order of repeated fields and the annotations of metadata do not count), the supported schema,
  and the environment of the ACL definitions.
\<close>

record ('s, 'f) validation_env =
  ve_same_packet_io :: "p4_packet_metadata list \<Rightarrow> p4_packet_metadata list \<Rightarrow> bool"
  ve_SupportedSchema :: "verification_schema status_or"
  ve_acl :: "('s, 'f) acl_env"

definition ValidatePacketIo :: "('s, 'f) validation_env \<Rightarrow> p4_config \<Rightarrow> status_code" where
  "ValidatePacketIo env p4info =
     (if ve_same_packet_io env kExpectedPacketIo (p4_controller_packet_metadata p4info) then OK
      else INVALID_ARGUMENT)"

text \<open>
  Building the IR either fails, throws an exception, or does not return at all; the latter two are
  the outcome \<open>None\<close>.
\<close>

definition create_ir_p4info :: "p4_config \<Rightarrow> ir_p4info outcome" where
  "create_ir_p4info p4info =
     (case CreateIrP4Info p4info of
        None \<Rightarrow> None
      | Some (Inl Thrown) \<Rightarrow> None
      | Some (Inl (Failed e)) \<Rightarrow> Some (Inl e)
      | Some (Inr info) \<Rightarrow> Some (Inr info))"

definition ok_or :: "status_code \<Rightarrow> unit outcome" where
  "ok_or st = Some (if st = OK then Inr () else Inl st)"

definition verify_table :: "('s, 'f) validation_env \<Rightarrow> string \<times> ir_table_definition \<Rightarrow> unit \<Rightarrow> unit outcome" where
  "verify_table env entry _ =
     bind_outcome (Some (GetTableType (ae_names (ve_acl env)) (snd entry))) (\<lambda>table_type.
       if table_type = kAcl
       then (case VerifyAclTableDefinition (ve_acl env) (snd entry) of None \<Rightarrow> None | Some st \<Rightarrow> ok_or st)
       else Some (Inr ()))"

definition ValidateP4Info :: "('s, 'f) validation_env \<Rightarrow> p4_config \<Rightarrow> unit outcome" where
  "ValidateP4Info env p4info =
     bind_outcome (ok_or (ValidatePacketIo env p4info)) (\<lambda>_.
     bind_outcome (Some (ve_SupportedSchema env)) (\<lambda>schema.
     bind_outcome (create_ir_p4info p4info) (\<lambda>created.
     let info = RemoveUnsupportedEntities created
     in bind_outcome (ok_or (IsSupportedBySchema (ae_names (ve_acl env)) info schema)) (\<lambda>_.
        bind_outcome (Some (ExtractHashPacketFieldConfigs info)) (\<lambda>_.
        bind_outcome (Some (ExtractHashParamConfigs info)) (\<lambda>_.
          fold_outcome (verify_table env) (tables_by_name_entries info) ()))))))"

section \<open>Lemmas\<close>

lemma check_all_OK: "check_all f xs = OK \<longleftrightarrow> (\<forall>x \<in> set xs. f x = OK)"
  by (induction xs) (auto simp: check_all_def)

lemma AList_update_fresh: "k \<notin> fst ` set m \<Longrightarrow> AList.update k v m = m @ [(k, v)]"
  by (induction m) auto

lemma by_key_distinct:
  assumes "distinct (map k xs)"
  shows "by_key k v xs = map (\<lambda>x. (k x, v x)) xs"
proof -
  have "fold (\<lambda>x m. AList.update (k x) (v x) m) xs m = m @ map (\<lambda>x. (k x, v x)) xs"
    if "distinct (map k xs)" "k ` set xs \<inter> fst ` set m = {}" for m
    using that by (induction xs arbitrary: m) (auto simp: AList_update_fresh)
  with assms show ?thesis by (simp add: by_key_def)
qed

lemma map_of_by_key:
  "distinct (map k xs) \<Longrightarrow> map_of (map (\<lambda>x. (k x, v x)) xs) n = Some y \<longleftrightarrow> (\<exists>x \<in> set xs. k x = n \<and> v x = y)"
  by (subst map_of_eq_Some_iff) (auto simp: comp_def)

lemma fold_or_append_rounds:
  "fold_or (\<lambda>x acc. bind_or (g x) (\<lambda>ys. Inr (acc @ ys))) xs a = bind_or (map_or g xs) (\<lambda>yss. Inr (a @ concat yss))"
proof (induction xs arbitrary: a)
  case (Cons x xs)
  then show ?case by (cases "g x"; cases "map_or g xs") auto
qed simp

text \<open>One table's contribution to the schema of a P4Info.\<close>

definition convert_table :: "swss_names \<Rightarrow> string \<times> ir_table_definition \<Rightarrow> fixed_table_schema list status_or" where
  "convert_table names entry =
     bind_or (GetTableType names (snd entry)) (\<lambda>table_type.
       if table_type \<noteq> kFixed \<and> table_type \<noteq> kExt then Inr []
       else bind_or (ToTableSchema (fst entry) (snd entry)) (\<lambda>s. Inr [s]))"

lemma ConvertToSchema_tables:
  "ConvertToSchema names info =
   bind_or (map_or (convert_table names) (tables_by_name_entries info)) (\<lambda>ss. Inr (concat ss))"
proof -
  have "(\<lambda>(n, t) schema. bind_or (GetTableType names t) (\<lambda>table_type.
         if table_type \<noteq> kFixed \<and> table_type \<noteq> kExt then Inr schema
         else bind_or (ToTableSchema n t) (\<lambda>s. Inr (schema @ [s])))) =
      (\<lambda>x acc. bind_or (convert_table names x) (\<lambda>ys. Inr (acc @ ys)))"
    by (auto simp: fun_eq_iff convert_table_def bind_or_def split: sum.splits)
  then show ?thesis
    using fold_or_append_rounds [of "convert_table names" "tables_by_name_entries info" "[]"]
    by (simp add: ConvertToSchema_def)
qed

lemma map_or_error: "map_or f xs = Inl e \<Longrightarrow> \<exists>x \<in> set xs. f x = Inl e"
  by (induction xs) (auto simp: bind_or_eq_Inl)

lemma ToSchemaMatchType_error: "ToSchemaMatchType m = Inl e \<Longrightarrow> e = INVALID_ARGUMENT"
  by (cases m) auto

lemma ToTableSchema_error: "ToTableSchema n t = Inl e \<Longrightarrow> e = INVALID_ARGUMENT"
  by (auto simp: ToTableSchema_def bind_or_eq_Inl ToMatchSchema_def ToActionSchema_def to_parameter_schema_def
      dest!: map_or_error ToSchemaMatchType_error split: if_split_asm)

lemma convert_table_error: "convert_table names x = Inl e \<Longrightarrow> e = INVALID_ARGUMENT"
  by (auto simp: convert_table_def bind_or_eq_Inl GetTableType_def Let_def dest: ToTableSchema_error
      split: if_split_asm sum.split_asm)

lemma ToTableSchema_name: "ToTableSchema n t = Inr s \<Longrightarrow> fts_name s = n"
  by (auto simp: ToTableSchema_def split: if_splits)

lemma convert_table_names: "convert_table names x = Inr ys \<Longrightarrow> ys = [] \<or> (\<exists>s. ys = [s] \<and> fts_name s = fst x)"
  by (auto simp: convert_table_def dest: ToTableSchema_name split: if_splits)

lemma converted_names:
  assumes "list_all2 (\<lambda>x ys. convert_table names x = Inr ys) xs yss" "distinct (map fst xs)"
  shows "distinct (map fts_name (concat yss)) \<and> fts_name ` set (concat yss) \<subseteq> fst ` set xs"
  using assms
proof (induction rule: list_all2_induct)
  case (Cons x xs ys yss)
  from convert_table_names [OF Cons(1)] Cons(3,4) show ?case
    by (cases "ys = []") (auto, blast)
qed simp

section \<open>What is supported\<close>

text \<open>Names are unique in a P4Info and in the supported schema, at every level.\<close>

definition names_unique :: "ir_p4info \<Rightarrow> bool" where
  "names_unique info \<longleftrightarrow>
     distinct (map fst (tables_by_name_entries info)) \<and>
     list_all (\<lambda>(_, t). distinct (map fst (itd_match_fields_by_name t)) \<and> distinct (map iad_alias (itd_entry_actions t)) \<and>
       list_all (\<lambda>a. distinct (map fst (iad_params_by_name a))) (itd_entry_actions t)) (tables_by_name_entries info)"

definition schema_names_unique :: "verification_schema \<Rightarrow> bool" where
  "schema_names_unique schema \<longleftrightarrow>
     distinct (map fts_name schema) \<and>
     list_all (\<lambda>t. distinct (map ms_name (fts_match_fields t)) \<and> distinct (map fas_name (fts_actions t)) \<and>
       list_all (\<lambda>a. distinct (map ps_name (fas_parameters a))) (fts_actions t)) schema"

text \<open>A width that is set where one is needed, and that fits.\<close>

definition width_fits :: "ir_format \<Rightarrow> nat \<Rightarrow> nat \<Rightarrow> bool" where
  "width_fits format width supported \<longleftrightarrow> (format = HEX_STRING \<longrightarrow> 0 < width \<and> width \<le> supported)"

definition field_conforms :: "string \<times> ir_match_field_definition \<Rightarrow> match_schema \<Rightarrow> bool" where
  "field_conforms f m \<longleftrightarrow>
     ms_name m = fst f \<and> ms_format m = mfd_format (snd f) \<and>
     width_fits (mfd_format (snd f)) (mfd_bitwidth (snd f)) (ms_bitwidth m) \<and>
     ToSchemaMatchType (mfd_match_type (snd f)) = Inr (ms_type m)"

definition parameter_conforms :: "string \<times> ir_param_definition \<Rightarrow> parameter_schema \<Rightarrow> bool" where
  "parameter_conforms p q \<longleftrightarrow>
     ps_name q = fst p \<and> ps_format q = ipd_format (snd p) \<and>
     width_fits (ipd_format (snd p)) (ipd_bitwidth (snd p)) (ps_bitwidth q)"

text \<open>An action has exactly the parameters of the schema.\<close>

definition action_conforms :: "ir_action_definition \<Rightarrow> fixed_action_schema \<Rightarrow> bool" where
  "action_conforms a b \<longleftrightarrow>
     fas_name b = iad_alias a \<and> fst ` set (iad_params_by_name a) = ps_name ` set (fas_parameters b) \<and>
     (\<forall>p \<in> set (iad_params_by_name a). \<exists>q \<in> set (fas_parameters b). parameter_conforms p q)"

definition table_conforms :: "string \<times> ir_table_definition \<Rightarrow> fixed_table_schema \<Rightarrow> bool" where
  "table_conforms entry s \<longleftrightarrow>
     fts_name s = fst entry \<and>
     (\<forall>f \<in> set (itd_match_fields_by_name (snd entry)). \<exists>m \<in> set (fts_match_fields s). field_conforms f m) \<and>
     (\<forall>a \<in> set (itd_entry_actions (snd entry)). \<exists>b \<in> set (fts_actions s). action_conforms a b)"

definition table_convertible :: "ir_table_definition \<Rightarrow> bool" where
  "table_convertible t \<longleftrightarrow>
     \<not> itd_has_counter t \<and> \<not> itd_has_meter t \<and> itd_match_fields_by_name t \<noteq> [] \<and>
     (\<forall>(_, d) \<in> set (itd_match_fields_by_name t). (mfd_format d = HEX_STRING \<longrightarrow> mfd_bitwidth d \<noteq> 0) \<and>
        mfd_match_type d \<noteq> RANGE \<and> mfd_match_type d \<noteq> MATCH_TYPE_UNSPECIFIED) \<and>
     (\<forall>a \<in> set (itd_entry_actions t). \<forall>(_, p) \<in> set (iad_params_by_name a).
        ipd_format p = HEX_STRING \<longrightarrow> ipd_bitwidth p \<noteq> 0)"

lemma map_or_ok_iff: "(\<exists>ys. map_or f xs = Inr ys) \<longleftrightarrow> (\<forall>x \<in> set xs. \<exists>y. f x = Inr y)"
proof (induction xs)
  case (Cons x xs)
  then show ?case by (cases "f x") auto
qed simp

lemma ToSchemaMatchType_ok:
  "(\<exists>m. ToSchemaMatchType t = Inr m) \<longleftrightarrow> t \<noteq> RANGE \<and> t \<noteq> MATCH_TYPE_UNSPECIFIED"
  by (cases t) auto

lemma ToMatchSchema_ok:
  "(\<exists>m. ToMatchSchema n d = Inr m) \<longleftrightarrow> (mfd_format d = HEX_STRING \<longrightarrow> mfd_bitwidth d \<noteq> 0) \<and>
     mfd_match_type d \<noteq> RANGE \<and> mfd_match_type d \<noteq> MATCH_TYPE_UNSPECIFIED"
  using ToSchemaMatchType_ok [of "mfd_match_type d"] by (auto simp: ToMatchSchema_def)

lemma ToActionSchema_ok:
  "(\<exists>s. ToActionSchema a = Inr s) \<longleftrightarrow>
   (\<forall>(_, p) \<in> set (iad_params_by_name a). ipd_format p = HEX_STRING \<longrightarrow> ipd_bitwidth p \<noteq> 0)"
  using map_or_ok_iff [of to_parameter_schema "iad_params_by_name a"]
  by (auto simp: ToActionSchema_def to_parameter_schema_def)

lemma ToTableSchema_ok: "(\<exists>s. ToTableSchema n t = Inr s) \<longleftrightarrow> table_convertible t"
proof -
  have "(\<exists>s. ToTableSchema n t = Inr s) \<longleftrightarrow>
      \<not> itd_has_counter t \<and> \<not> itd_has_meter t \<and> itd_match_fields_by_name t \<noteq> [] \<and>
      (\<exists>ms. map_or (\<lambda>(n, d). ToMatchSchema n d) (itd_match_fields_by_name t) = Inr ms) \<and>
      (\<exists>as. map_or ToActionSchema (itd_entry_actions t) = Inr as)"
    by (auto simp: ToTableSchema_def)
  then show ?thesis
    by (simp add: map_or_ok_iff table_convertible_def ToMatchSchema_ok ToActionSchema_ok split_def)
qed

text \<open>Looking a name up in a map of the schema, and checking what is found.\<close>

lemma lookup_and_check:
  assumes "distinct (map k xs)"
  shows "(case map_of (by_key k v xs) n of None \<Rightarrow> NOT_FOUND | Some y \<Rightarrow> f y) = OK \<longleftrightarrow>
    (\<exists>x \<in> set xs. k x = n \<and> f (v x) = OK)"
proof (cases "map_of (by_key k v xs) n")
  case None
  then have "n \<notin> k ` set xs"
    by (simp add: by_key_distinct [OF assms] map_of_eq_None_iff image_image)
  with None show ?thesis by auto
next
  case (Some y)
  then obtain x where x: "x \<in> set xs" "k x = n" "v x = y"
    using map_of_by_key [OF assms, of v n y] by (auto simp: by_key_distinct [OF assms])
  have "x' = x" if "x' \<in> set xs" "k x' = n" for x'
    using that x assms by (auto simp: distinct_map inj_on_def)
  then have "(\<exists>x' \<in> set xs. k x' = n \<and> f (v x') = OK) \<longleftrightarrow> f y = OK"
    using x by blast
  with Some show ?thesis by simp
qed

lemma parameter_is_compatible_iff:
  assumes "to_parameter_schema p = Inr q" "distinct (map ps_name qs)"
  shows "parameter_is_compatible (by_key ps_name (\<lambda>p. p) qs) q = OK \<longleftrightarrow> (\<exists>q' \<in> set qs. parameter_conforms p q')"
proof -
  from assms(1) have q: "ps_name q = fst p" "ps_format q = ipd_format (snd p)"
    "ps_bitwidth q = (if ipd_format (snd p) = HEX_STRING then ipd_bitwidth (snd p) else 0)"
    "ipd_format (snd p) = HEX_STRING \<Longrightarrow> 0 < ipd_bitwidth (snd p)"
    by (auto simp: to_parameter_schema_def split: if_split_asm)
  show ?thesis
    unfolding parameter_is_compatible_def lookup_and_check [OF assms(2)]
    by (rule bex_cong [OF refl]) (use q in \<open>auto simp: parameter_conforms_def width_fits_def\<close>)
qed

lemma to_parameter_schema_name: "to_parameter_schema p = Inr q \<Longrightarrow> ps_name q = fst p"
  by (auto simp: to_parameter_schema_def split: if_splits)

lemma same_names:
  assumes "distinct (map f xs)" "distinct (map g ys)" "f ` set xs \<subseteq> g ` set ys"
  shows "length xs = length ys \<longleftrightarrow> f ` set xs = g ` set ys"
proof -
  have "card (f ` set xs) = length xs" "card (g ` set ys) = length ys"
    using assms(1,2) by (metis distinct_card length_map set_map)+
  with card_subset_eq [of "g ` set ys" "f ` set xs"] assms(3) show ?thesis by auto
qed

lemma ActionSchemaIsCompatible_iff:
  assumes a: "ToActionSchema a = Inr b" and d: "distinct (map fst (iad_params_by_name a))"
    and d': "distinct (map ps_name (fas_parameters b'))"
  shows "ActionSchemaIsCompatible b b' = OK \<longleftrightarrow> action_conforms a b'"
proof -
  let ?ps = "iad_params_by_name a" and ?qs = "fas_parameters b'"
  from a obtain rs where rs: "list_all2 (\<lambda>p q. to_parameter_schema p = Inr q) ?ps rs"
    and b: "b = \<lparr>fas_name = iad_alias a, fas_parameters = rs\<rparr>"
    by (auto simp: ToActionSchema_def map_or_Inr_iff)
  have len: "length rs = length ?ps" using rs by (simp add: list_all2_lengthD)
  have checks: "(\<forall>q \<in> set rs. parameter_is_compatible (by_key ps_name (\<lambda>p. p) ?qs) q = OK) \<longleftrightarrow>
      (\<forall>p \<in> set ?ps. \<exists>q' \<in> set ?qs. parameter_conforms p q')"
    using rs by (induction rule: list_all2_induct) (simp_all add: parameter_is_compatible_iff [OF _ d'])
  have sub: "fst ` set ?ps \<subseteq> ps_name ` set ?qs" if "\<forall>p \<in> set ?ps. \<exists>q' \<in> set ?qs. parameter_conforms p q'"
    using that by (force simp: parameter_conforms_def)
  show ?thesis
    using same_names [OF d d'] sub len checks
    by (auto simp: ActionSchemaIsCompatible_def action_conforms_def b check_all_OK)
qed

lemma MatchSchemaIsCompatible_iff:
  "ToMatchSchema n d = Inr m \<Longrightarrow> MatchSchemaIsCompatible m m' = OK \<longleftrightarrow> field_conforms (n, d) m'"
  by (auto simp: ToMatchSchema_def MatchSchemaIsCompatible_def field_conforms_def width_fits_def split: if_splits)

lemma ToMatchSchema_name: "ToMatchSchema n d = Inr m \<Longrightarrow> ms_name m = n"
  by (auto simp: ToMatchSchema_def split: if_splits)

lemma ToActionSchema_name: "ToActionSchema a = Inr b \<Longrightarrow> fas_name b = iad_alias a"
  by (auto simp: ToActionSchema_def)

lemma list_all2_Inr_all:
  assumes "list_all2 (\<lambda>x y. f x = Inr y) xs ys" "\<And>x y. x \<in> set xs \<Longrightarrow> f x = Inr y \<Longrightarrow> P y \<longleftrightarrow> Q x"
  shows "(\<forall>y \<in> set ys. P y) \<longleftrightarrow> (\<forall>x \<in> set xs. Q x)"
  using assms by (induction rule: list_all2_induct) auto

lemma table_fields_supported:
  assumes s: "ToTableSchema n t = Inr s"
    and d: "distinct (map fst (itd_match_fields_by_name t))" "distinct (map iad_alias (itd_entry_actions t))"
      "list_all (\<lambda>a. distinct (map fst (iad_params_by_name a))) (itd_entry_actions t)"
    and s': "distinct (map ms_name (fts_match_fields s'))" "distinct (map fas_name (fts_actions s'))"
      "list_all (\<lambda>a. distinct (map ps_name (fas_parameters a))) (fts_actions s')"
  shows "check_all (match_is_supported (to_schema_table s')) (st_match_schemas (to_schema_table s)) = OK \<and>
     check_all (action_is_supported (to_schema_table s')) (st_action_schemas (to_schema_table s)) = OK \<longleftrightarrow>
     (\<forall>f \<in> set (itd_match_fields_by_name t). \<exists>m \<in> set (fts_match_fields s'). field_conforms f m) \<and>
     (\<forall>a \<in> set (itd_entry_actions t). \<exists>b \<in> set (fts_actions s'). action_conforms a b)"
proof -
  from s obtain ms as where ms: "list_all2 (\<lambda>f m. (case f of (n, d) \<Rightarrow> ToMatchSchema n d) = Inr m) (itd_match_fields_by_name t) ms"
    and as: "list_all2 (\<lambda>a b. ToActionSchema a = Inr b) (itd_entry_actions t) as"
    and seq: "fts_match_fields s = ms" "fts_actions s = as"
    by (auto simp: ToTableSchema_def map_or_Inr_iff split: if_splits)
  have "map ms_name ms = map fst (itd_match_fields_by_name t)"
    using ms by (rule list_all2_map_eq) (auto dest: ToMatchSchema_name)
  with d have m: "by_key ms_name (\<lambda>m. m) ms = map (\<lambda>m. (ms_name m, m)) ms"
    by (intro by_key_distinct) metis
  have "map fas_name as = map iad_alias (itd_entry_actions t)"
    using as by (rule list_all2_map_eq) (auto dest: ToActionSchema_name)
  with d have a: "by_key fas_name (\<lambda>a. a) as = map (\<lambda>a. (fas_name a, a)) as"
    by (intro by_key_distinct) metis
  have "(\<forall>x \<in> set ms. match_is_supported (to_schema_table s') (ms_name x, x) = OK) \<longleftrightarrow>
      (\<forall>f \<in> set (itd_match_fields_by_name t). \<exists>m \<in> set (fts_match_fields s'). field_conforms f m)"
  proof (rule list_all2_Inr_all [OF ms])
    fix f m assume m: "(case f of (n, d) \<Rightarrow> ToMatchSchema n d) = Inr m"
    show "match_is_supported (to_schema_table s') (ms_name m, m) = OK \<longleftrightarrow>
        (\<exists>m \<in> set (fts_match_fields s'). field_conforms f m)"
      unfolding match_is_supported_def to_schema_table_def fst_conv snd_conv schema_table.select_convs
        lookup_and_check [OF s'(1)]
      by (rule bex_cong [OF refl])
        (use m in \<open>auto simp: MatchSchemaIsCompatible_iff field_conforms_def dest: ToMatchSchema_name split: prod.splits\<close>)
  qed
  moreover have "(\<forall>x \<in> set as. action_is_supported (to_schema_table s') (fas_name x, x) = OK) \<longleftrightarrow>
      (\<forall>a \<in> set (itd_entry_actions t). \<exists>b \<in> set (fts_actions s'). action_conforms a b)"
  proof (rule list_all2_Inr_all [OF as])
    fix x y assume x: "x \<in> set (itd_entry_actions t)" "ToActionSchema x = Inr y"
    with d(3) s'(3) have "ActionSchemaIsCompatible y b = OK \<longleftrightarrow> action_conforms x b" if "b \<in> set (fts_actions s')" for b
      using that by (intro ActionSchemaIsCompatible_iff) (auto simp: list_all_iff)
    then show "action_is_supported (to_schema_table s') (fas_name y, y) = OK \<longleftrightarrow>
        (\<exists>b \<in> set (fts_actions s'). action_conforms x b)"
      using ToActionSchema_name [OF x(2)]
      by (auto simp: action_is_supported_def to_schema_table_def lookup_and_check [OF s'(2)] action_conforms_def)
  qed
  ultimately show ?thesis by (simp add: to_schema_table_def seq m a check_all_OK)
qed

lemma table_is_supported_iff:
  assumes s: "ToTableSchema n t = Inr s" and entry: "(n, t) \<in> set (tables_by_name_entries info)"
    and wf: "names_unique info" "schema_names_unique supported"
    and type: "GetTableType names t = Inr k"
  shows "table_is_supported names info (ToSchemaMap supported) (n, to_schema_table s) = OK \<longleftrightarrow>
    (k = kExt \<or> (\<exists>s' \<in> set supported. table_conforms (n, t) s'))"
proof -
  from wf(1) entry have t: "tables_by_name info n = Some t"
    by (simp add: names_unique_def tables_by_name_def)
  from wf(2) have d: "distinct (map fts_name supported)" by (simp add: schema_names_unique_def)
  have "(let match_fields = check_all (match_is_supported (to_schema_table s')) (st_match_schemas (to_schema_table s))
         in if match_fields \<noteq> OK then match_fields
            else check_all (action_is_supported (to_schema_table s')) (st_action_schemas (to_schema_table s))) = OK \<longleftrightarrow>
      (\<forall>f \<in> set (itd_match_fields_by_name t). \<exists>m \<in> set (fts_match_fields s'). field_conforms f m) \<and>
      (\<forall>a \<in> set (itd_entry_actions t). \<exists>b \<in> set (fts_actions s'). action_conforms a b)"
    if "s' \<in> set supported" for s'
    using table_fields_supported [OF s, of s'] wf entry that
    by (auto simp: names_unique_def schema_names_unique_def list_all_iff Let_def)
  then have "(\<exists>s' \<in> set supported. fts_name s' = n \<and>
      (let match_fields = check_all (match_is_supported (to_schema_table s')) (st_match_schemas (to_schema_table s))
         in if match_fields \<noteq> OK then match_fields
            else check_all (action_is_supported (to_schema_table s')) (st_action_schemas (to_schema_table s))) = OK) \<longleftrightarrow>
      (\<exists>s' \<in> set supported. table_conforms (n, t) s')"
    by (intro bex_cong [OF refl]) (simp add: table_conforms_def)
  then show ?thesis
    by (simp only: table_is_supported_def fst_conv snd_conv t type ToSchemaMap_def option.case sum.case
        if_cancel lookup_and_check [OF d] split: if_split) simp
qed

section \<open>Properties\<close>

text \<open>
  C23. A P4Info is accepted exactly when every table has a type, every fixed and extension table has
  match fields of supported kinds and no counter or meter, and every fixed table is a table of the
  switch whose match fields and actions conform to those of the switch: formats and match types
  agree, widths are set and fit, and an action has exactly the expected parameters. ACL tables are not
  constrained, and extension tables are not compared with the schema.
\<close>

theorem IsSupportedBySchema_iff:
  assumes "names_unique info" "schema_names_unique supported"
  shows "IsSupportedBySchema names info supported = OK \<longleftrightarrow>
    (\<forall>(n, t) \<in> set (tables_by_name_entries info).
       case GetTableType names t of
         Inl _ \<Rightarrow> False
       | Inr kFixed \<Rightarrow> table_convertible t \<and> (\<exists>s \<in> set supported. table_conforms (n, t) s)
       | Inr kExt \<Rightarrow> table_convertible t
       | Inr _ \<Rightarrow> True)"
proof -
  let ?ok = "\<lambda>s. table_is_supported names info (ToSchemaMap supported) (fts_name s, to_schema_table s) = OK"
  let ?es = "tables_by_name_entries info"
  have schema: "IsSupportedBySchema names info supported = OK \<longleftrightarrow>
      (\<forall>x \<in> set ?es. \<exists>ys. convert_table names x = Inr ys \<and> (\<forall>s \<in> set ys. ?ok s))"
  proof (cases "map_or (convert_table names) ?es")
    case (Inl e)
    then show ?thesis
      using map_or_error [OF Inl] convert_table_error [of names _ e]
      by (fastforce simp: IsSupportedBySchema_def ConvertToSchema_tables)
  next
    case (Inr yss)
    then have l2: "list_all2 (\<lambda>x ys. convert_table names x = Inr ys) ?es yss" by (simp add: map_or_Inr_iff)
    have "distinct (map fts_name (concat yss))"
      using converted_names [OF l2] assms(1) by (simp add: names_unique_def)
    then have "ToSchemaMap (concat yss) = map (\<lambda>s. (fts_name s, to_schema_table s)) (concat yss)"
      by (simp add: ToSchemaMap_def by_key_distinct)
    moreover have "(\<forall>ys \<in> set yss. \<forall>s \<in> set ys. ?ok s) \<longleftrightarrow>
        (\<forall>x \<in> set ?es. \<exists>ys. convert_table names x = Inr ys \<and> (\<forall>s \<in> set ys. ?ok s))"
      by (rule list_all2_Inr_all [OF l2]) simp
    ultimately show ?thesis by (simp add: IsSupportedBySchema_def ConvertToSchema_tables Inr check_all_OK)
  qed
  have "(\<exists>ys. convert_table names (n, t) = Inr ys \<and> (\<forall>s \<in> set ys. ?ok s)) \<longleftrightarrow>
      (case GetTableType names t of
         Inl _ \<Rightarrow> False
       | Inr kFixed \<Rightarrow> table_convertible t \<and> (\<exists>s \<in> set supported. table_conforms (n, t) s)
       | Inr kExt \<Rightarrow> table_convertible t
       | Inr _ \<Rightarrow> True)" if "(n, t) \<in> set ?es" for n t
  proof (cases "GetTableType names t")
    case (Inr k)
    have ok: "?ok s \<longleftrightarrow> k = kExt \<or> (\<exists>s' \<in> set supported. table_conforms (n, t) s')" if "ToTableSchema n t = Inr s" for s
      using table_is_supported_iff [OF that \<open>(n, t) \<in> set ?es\<close> assms Inr] ToTableSchema_name [OF that] by simp
    show ?thesis
    proof (cases "ToTableSchema n t")
      case (Inr s)
      then have "table_convertible t" using ToTableSchema_ok [of n t] by blast
      with Inr \<open>GetTableType names t = Inr k\<close> ok [OF Inr] show ?thesis
        by (cases k) (simp_all add: convert_table_def)
    next
      case (Inl e)
      then have "\<not> table_convertible t" using ToTableSchema_ok [of n t] by simp
      with Inl \<open>GetTableType names t = Inr k\<close> show ?thesis
        by (cases k) (simp_all add: convert_table_def)
    qed
  qed (simp add: convert_table_def)
  then show ?thesis unfolding schema by fastforce
qed

section \<open>An instance\<close>

definition example_fixed_table :: ir_table_definition where
  "example_fixed_table = example_acl_table\<lparr>itd_alias := ''vrf_table'', itd_annotations := [], itd_has_counter := False,
     itd_match_fields_by_name :=
       [(''vrf_id'', (element_match_field 0 STRING)\<lparr>mfd_name := ''vrf_id'', mfd_match_type := EXACT\<rparr>)],
     itd_entry_actions := [example_acl_action\<lparr>iad_params_by_name :=
       [(''tc'', \<lparr>ipd_id = 1, ipd_name = ''tc'', ipd_annotations = [], ipd_bitwidth = 8, ipd_type_name = [],
                 ipd_format = HEX_STRING, ipd_references = []\<rparr>)]\<rparr>]\<rparr>"

definition example_schema_info :: ir_p4info where
  "example_schema_info = (example_hash_info [])\<lparr>tables_by_name_entries :=
     [(''vrf_table'', example_fixed_table), (''acl_punt'', example_acl_table)]\<rparr>"

definition example_schema :: "nat \<Rightarrow> verification_schema" where
  "example_schema width =
     [\<lparr>fts_name = ''vrf_table'',
       fts_match_fields = [\<lparr>ms_name = ''vrf_id'', ms_format = STRING, ms_bitwidth = 0, ms_type = SCHEMA_EXACT\<rparr>],
       fts_actions = [\<lparr>fas_name = ''copy'', fas_parameters =
         [\<lparr>ps_name = ''tc'', ps_format = HEX_STRING, ps_bitwidth = width\<rparr>]\<rparr>]\<rparr>]"

lemma example_table_types:
  "GetTableType (ae_names example_acl_env) example_fixed_table = Inr kFixed"
  "GetTableType (ae_names example_acl_env) example_acl_table = Inr kAcl"
proof -
  have "GetAnnotationBody ''sai_acl'' [] = Inl NOT_FOUND"
    by (simp add: GetAnnotationBody_def GetParsedAnnotation_def)
  then show "GetTableType (ae_names example_acl_env) example_fixed_table = Inr kFixed"
    by (simp add: GetTableType_def Let_def conditional_kExt_def example_acl_env_def example_fixed_table_def
        example_acl_table_def)
  show "GetTableType (ae_names example_acl_env) example_acl_table = Inr kAcl"
    by (simp add: GetTableType_def Let_def example_acl_stage)
qed

theorem IsSupportedBySchema_iff_witness:
  "IsSupportedBySchema (ae_names example_acl_env) example_schema_info (example_schema 8) = OK \<and>
   IsSupportedBySchema (ae_names example_acl_env) example_schema_info (example_schema 7) \<noteq> OK"
proof -
  have unique: "names_unique example_schema_info" "schema_names_unique (example_schema w)" for w
    by (simp_all add: names_unique_def schema_names_unique_def example_schema_info_def example_schema_def
        example_fixed_table_def example_acl_table_def example_acl_action_def)
  have entries: "tables_by_name_entries example_schema_info =
      [(''vrf_table'', example_fixed_table), (''acl_punt'', example_acl_table)]"
    by (simp add: example_schema_info_def)
  note iff = IsSupportedBySchema_iff [OF unique, of "ae_names example_acl_env"]
  show ?thesis
    unfolding iff entries
    by (simp add: example_table_types)
      (simp add: table_conforms_def table_convertible_def field_conforms_def
        action_conforms_def parameter_conforms_def width_fits_def example_schema_def
        example_fixed_table_def element_match_field_def example_acl_table_def example_acl_action_def)
qed

end
