(* ===== verification/P4info_Reconcile.thy ===== *)
theory P4info_Reconcile
  imports P4info_Schema Resource_Utilization
begin

text \<open>
  The transition from one P4Info to another (\<open>p4rt_app/p4runtime/p4info_reconcile.{h,cc}\<close>): which hash
  configurations and ACL tables are to be deleted, added or modified, and the capacities of the action
  profiles afterwards; with the comparison of database entries of \<open>p4rt_app/sonic/swss_utils.cc\<close> and
  the ordering and duplication of tables of \<open>p4rt_app/utils/table_utility.cc\<close>.
\<close>

section \<open>Database entries\<close>

definition kfvEq :: "key_op_fields_values \<Rightarrow> key_op_fields_values \<Rightarrow> bool" where
  "kfvEq left right =
     (if kfvKey left \<noteq> kfvKey right then False
      else if kfvOp left \<noteq> kfvOp right then False
      else if length (kfvFieldsValues left) \<noteq> length (kfvFieldsValues right) then False
      else list_all (\<lambda>(field, v). last_wins (kfvFieldsValues left) field = Some v) (kfvFieldsValues right))"

definition kfvFieldLookup :: "key_op_fields_values \<Rightarrow> string \<Rightarrow> string status_or" where
  "kfvFieldLookup entry field =
     (case map_of (kfvFieldsValues entry) field of Some v \<Rightarrow> Inr v | None \<Rightarrow> Inl NOT_FOUND)"

section \<open>Ordering and duplicating tables\<close>

text \<open>The sum is an \<open>int\<close>; widths are far below the range in which it could overflow.\<close>

definition EstimateBitwidth :: "ir_table_definition \<Rightarrow> nat" where
  "EstimateBitwidth table = sum_list (map (\<lambda>(_, d). mfd_bitwidth d) (itd_match_fields_by_name table))"

definition larger_table :: "ir_table_definition \<Rightarrow> ir_table_definition \<Rightarrow> bool" where
  "larger_table lhs rhs \<longleftrightarrow>
     (if EstimateBitwidth lhs \<noteq> EstimateBitwidth rhs then EstimateBitwidth lhs > EstimateBitwidth rhs
      else itd_alias lhs > itd_alias rhs)"

fun insert_table :: "ir_table_definition \<Rightarrow> ir_table_definition list \<Rightarrow> ir_table_definition list" where
  "insert_table t [] = [t]"
| "insert_table t (u # us) = (if larger_table u t then u # insert_table t us else t # u # us)"

text \<open>\<open>std::sort\<close>: the order of tables that are equivalent under the comparison is not specified.\<close>

definition OrderTablesBySize :: "ir_table_definition list \<Rightarrow> ir_table_definition list" where
  "OrderTablesBySize tables = foldr insert_table tables []"

definition OrderTablesBySize_map :: "(string \<times> ir_table_definition) list \<Rightarrow> ir_table_definition list" where
  "OrderTablesBySize_map named_tables = OrderTablesBySize (map snd named_tables)"

text \<open>
  Inserting into a protobuf map has no effect on a key that is present. The largest ID is searched
  as an \<open>int\<close>; IDs of tables are below \<open>2 ^ 31\<close>. A missing profile under its ID throws.
\<close>

definition map_insert :: "'k \<Rightarrow> 'v \<Rightarrow> ('k \<times> 'v) list \<Rightarrow> ('k \<times> 'v) list" where
  "map_insert k v m = (if k \<in> fst ` set m then m else m @ [(k, v)])"

definition largest_table_id :: "ir_p4info \<Rightarrow> nat" where
  "largest_table_id info = fold (\<lambda>(i, _) n. if i > n then i else n) (tables_by_id_entries info) 0"

definition duplicate_profile_reference ::
  "nat \<Rightarrow> nat \<Rightarrow> string \<times> action_profile \<Rightarrow> ir_p4info \<Rightarrow> ir_p4info option" where
  "duplicate_profile_reference table_id dup_table_id entry info =
     (if table_id \<notin> set (ap_table_ids (snd entry)) then Some info
      else case map_of (action_profiles_by_id_entries info) (ap_id (snd entry)) of
             None \<Rightarrow> None
           | Some ap \<Rightarrow> Some (info\<lparr>
               action_profiles_by_name_entries := AList.update (fst entry)
                 ((snd entry)\<lparr>ap_table_ids := ap_table_ids (snd entry) @ [dup_table_id]\<rparr>)
                 (action_profiles_by_name_entries info),
               action_profiles_by_id_entries := AList.update (ap_id (snd entry))
                 (ap\<lparr>ap_table_ids := ap_table_ids ap @ [dup_table_id]\<rparr>) (action_profiles_by_id_entries info)\<rparr>))"

definition DuplicateTable :: "ir_p4info \<Rightarrow> string \<Rightarrow> (string \<times> ir_p4info) outcome" where
  "DuplicateTable info table_name =
     (case tables_by_name info table_name of
        None \<Rightarrow> Some (Inl NOT_FOUND)
      | Some table \<Rightarrow>
          let dup_table_name = table_name @ ''_duplicate_'';
              dup_table_id = largest_table_id info + 1;
              dup = table\<lparr>itd_alias := dup_table_name, itd_id := dup_table_id\<rparr>;
              info' = info\<lparr>tables_by_name_entries := map_insert dup_table_name dup (tables_by_name_entries info),
                           tables_by_id_entries := map_insert dup_table_id dup (tables_by_id_entries info)\<rparr>
          in map_option (\<lambda>info''. Inr (dup_table_name, info''))
               (fold (\<lambda>entry r. Option.bind r (duplicate_profile_reference (itd_id table) dup_table_id entry))
                  (action_profiles_by_name_entries info') (Some info')))"

section \<open>Differences of sets\<close>

record 'a set_difference =
  sd_deleted :: "'a list"
  sd_added :: "'a list"
  sd_intersection :: "'a list"

text \<open>
  The two-pointer walk over sets that are ordered by a key (strings by themselves, hash
  configurations by their name) and compared as a whole.
\<close>

fun CalculateSetDifference :: "('a \<Rightarrow> 'k::linorder) \<Rightarrow> 'a list \<Rightarrow> 'a list \<Rightarrow> 'a set_difference" where
  "CalculateSetDifference key [] to = \<lparr>sd_deleted = [], sd_added = to, sd_intersection = []\<rparr>"
| "CalculateSetDifference key (x # from) [] = \<lparr>sd_deleted = x # from, sd_added = [], sd_intersection = []\<rparr>"
| "CalculateSetDifference key (x # from) (y # to) =
     (if x = y
      then (let d = CalculateSetDifference key from to in d\<lparr>sd_intersection := x # sd_intersection d\<rparr>)
      else if key x < key y
      then (let d = CalculateSetDifference key from (y # to) in d\<lparr>sd_deleted := x # sd_deleted d\<rparr>)
      else (let d = CalculateSetDifference key (x # from) to in d\<lparr>sd_added := y # sd_added d\<rparr>))"

section \<open>The transition\<close>

record reconcile_transition =
  hashing_packet_field_configs_to_delete :: "string list"
  hashing_packet_field_configs_to_set :: "string list"
  update_switch_table :: bool
  acl_tables_to_delete :: "string list"
  acl_tables_to_add :: "string list"
  nonessential_acl_tables_to_modify :: "string list"
  essential_acl_tables_to_modify :: "string list"

definition empty_transition :: reconcile_transition where
  "empty_transition =
     \<lparr>hashing_packet_field_configs_to_delete = [], hashing_packet_field_configs_to_set = [],
      update_switch_table = False, acl_tables_to_delete = [], acl_tables_to_add = [],
      nonessential_acl_tables_to_modify = [], essential_acl_tables_to_modify = []\<rparr>"

definition CalculateHashingDifference ::
  "ir_p4info \<Rightarrow> ir_p4info \<Rightarrow> reconcile_transition \<Rightarrow> reconcile_transition status_or" where
  "CalculateHashingDifference from to transition =
     (case ExtractHashPacketFieldConfigs from of
        Inl _ \<Rightarrow> Inl INTERNAL
      | Inr from_fields \<Rightarrow>
          (case ExtractHashParamConfigs from of
             Inl _ \<Rightarrow> Inl INTERNAL
           | Inr from_parameters \<Rightarrow>
               bind_or (ExtractHashPacketFieldConfigs to) (\<lambda>to_fields.
               bind_or (ExtractHashParamConfigs to) (\<lambda>to_parameters.
                 let diff = CalculateSetDifference hpf_key from_fields to_fields;
                     to_delete = filter (\<lambda>k. k \<notin> set (map hpf_key to_fields)) (map hpf_key (sd_deleted diff));
                     to_set = map hpf_key (sd_added diff)
                 in Inr (transition\<lparr>hashing_packet_field_configs_to_delete := to_delete,
                                    hashing_packet_field_configs_to_set := to_set,
                                    update_switch_table := to_delete \<noteq> [] \<or> to_set \<noteq> [] \<or>
                                      from_parameters \<noteq> to_parameters\<rparr>)))))"

definition GetAclTableNames :: "swss_names \<Rightarrow> ir_p4info \<Rightarrow> string list status_or" where
  "GetAclTableNames names p4info =
     fold_or (\<lambda>(name, table) acl_table_names.
       bind_or (GetTableType names table) (\<lambda>table_type.
         Inr (if table_type = kAcl then insort_insert name acl_table_names else acl_table_names)))
       (tables_by_name_entries p4info) []"

text \<open>A failed stage lookup cannot happen: every definition has a stage.\<close>

definition IsValidModification ::
  "('s, 'f) acl_env \<Rightarrow> ir_table_definition \<Rightarrow> ir_table_definition \<Rightarrow> bool outcome" where
  "IsValidModification env from_table to_table =
     (case AppDbAclTableDefinition env from_table of
        None \<Rightarrow> None
      | Some (Inl _) \<Rightarrow> Some (Inl INTERNAL)
      | Some (Inr from_db_table) \<Rightarrow>
          bind_outcome (AppDbAclTableDefinition env to_table) (\<lambda>to_db_table.
          bind_outcome (Some (kfvFieldLookup from_db_table ''stage'')) (\<lambda>from_stage.
          bind_outcome (Some (kfvFieldLookup to_db_table ''stage'')) (\<lambda>to_stage.
            Some (if from_stage \<noteq> to_stage then Inl FAILED_PRECONDITION
                  else Inr (\<not> kfvEq from_db_table to_db_table \<or>
                    status_of (GetAnnotationBody ''reinstall_during_upgrade'' (itd_annotations to_table)) = OK))))))"

text \<open>\<open>tables_by_name().at(name)\<close> throws on a missing name.\<close>

definition compare_acl_table ::
  "('s, 'f) acl_env \<Rightarrow> ir_p4info \<Rightarrow> ir_p4info \<Rightarrow> string \<Rightarrow> reconcile_transition \<Rightarrow> reconcile_transition outcome" where
  "compare_acl_table env from to table_name transition =
     (case (tables_by_name from table_name, tables_by_name to table_name) of
        (Some from_table, Some to_table) \<Rightarrow>
          bind_outcome (IsValidModification env from_table to_table) (\<lambda>modified.
            Some (Inr (if \<not> modified then transition
                       else if status_of (GetAnnotationBody ''nonessential_for_upgrade'' (itd_annotations to_table)) = OK
                       then transition\<lparr>nonessential_acl_tables_to_modify :=
                              nonessential_acl_tables_to_modify transition @ [table_name]\<rparr>
                       else transition\<lparr>essential_acl_tables_to_modify :=
                              essential_acl_tables_to_modify transition @ [table_name]\<rparr>)))
      | _ \<Rightarrow> None)"

definition CalculateAclDifference ::
  "('s, 'f) acl_env \<Rightarrow> ir_p4info \<Rightarrow> ir_p4info \<Rightarrow> reconcile_transition \<Rightarrow> reconcile_transition outcome" where
  "CalculateAclDifference env from to transition =
     bind_outcome (Some (GetAclTableNames (ae_names env) from)) (\<lambda>from_acl_table_names.
     bind_outcome (Some (GetAclTableNames (ae_names env) to)) (\<lambda>to_acl_table_names.
       let diff = CalculateSetDifference (\<lambda>n. n) from_acl_table_names to_acl_table_names
       in fold_outcome (compare_acl_table env from to) (sd_intersection diff)
            (transition\<lparr>acl_tables_to_add := sd_added diff, acl_tables_to_delete := sd_deleted diff\<rparr>)))"

definition CalculateTransition ::
  "('s, 'f) acl_env \<Rightarrow> ir_p4info \<Rightarrow> ir_p4info \<Rightarrow> reconcile_transition outcome" where
  "CalculateTransition env from to =
     bind_outcome (Some (CalculateHashingDifference from to empty_transition)) (CalculateAclDifference env from to)"

section \<open>Capacities\<close>

definition updated_capacity ::
  "capacity_map \<Rightarrow> string \<times> action_profile \<Rightarrow> action_profile_resource_capacity status_or" where
  "updated_capacity original entry =
     (let fresh = GetActionProfileResourceCapacity (snd entry);
          capacity = (case original (fst entry) of
            None \<Rightarrow> fresh
          | Some c \<Rightarrow> fresh\<lparr>arc_current_total_weight := arc_current_total_weight c,
                            arc_current_total_members := arc_current_total_members c\<rparr>)
      in if exceeds (GetMaxWeightForAllGroups capacity) (arc_current_total_weight capacity)
         then Inl FAILED_PRECONDITION
         else if arc_current_total_weight capacity > 0 \<and>
                 (case original (fst entry) of
                    None \<Rightarrow> False
                  | Some c \<Rightarrow> ap_max_group_size (arc_action_profile capacity) <
                              ap_max_group_size (arc_action_profile c))
         then Inl FAILED_PRECONDITION
         else Inr capacity)"

definition GetUpdatedResourceCapacities :: "ir_p4info \<Rightarrow> capacity_map \<Rightarrow> capacity_map status_or" where
  "GetUpdatedResourceCapacities info original =
     fold_or (\<lambda>entry capacity_map.
       bind_or (updated_capacity original entry) (\<lambda>capacity. Inr (capacity_map(fst entry \<mapsto> capacity))))
       (action_profiles_by_name_entries info) Map.empty"

section \<open>Lemmas\<close>

definition key_sorted :: "('a \<Rightarrow> 'k::linorder) \<Rightarrow> 'a list \<Rightarrow> bool" where
  "key_sorted key xs \<longleftrightarrow> sorted_wrt (\<lambda>a b. key a < key b) xs"

lemma key_sorted_Cons: "key_sorted key (x # xs) \<longleftrightarrow> (\<forall>y \<in> set xs. key x < key y) \<and> key_sorted key xs"
  by (simp add: key_sorted_def)

lemma key_sorted_iff: "key_sorted key xs \<longleftrightarrow> sorted (map key xs) \<and> distinct (map key xs)"
proof -
  have "key_sorted key xs \<longleftrightarrow> sorted_wrt (<) (map key xs)"
    by (simp only: key_sorted_def sorted_wrt_map)
  then show ?thesis by (simp only: strict_sorted_iff)
qed

lemma key_sorted_inj: "key_sorted key xs \<Longrightarrow> x \<in> set xs \<Longrightarrow> y \<in> set xs \<Longrightarrow> key x = key y \<Longrightarrow> x = y"
  unfolding key_sorted_iff distinct_map by (blast dest: inj_onD)

lemma CalculateSetDifference_eq:
  assumes "key_sorted key from" "key_sorted key to"
  shows "CalculateSetDifference key from to =
    \<lparr>sd_deleted = filter (\<lambda>x. x \<notin> set to) from, sd_added = filter (\<lambda>y. y \<notin> set from) to,
     sd_intersection = filter (\<lambda>x. x \<in> set to) from\<rparr>"
  using assms
proof (induction key "from" to rule: CalculateSetDifference.induct)
  case (3 key x "from" y to)
  consider "x = y" | "x \<noteq> y" "key x < key y" | "x \<noteq> y" "\<not> key x < key y" by blast
  then show ?case
  proof cases
    case 1
    have "filter (\<lambda>z. z \<notin> set (y # to)) from = filter (\<lambda>z. z \<notin> set to) from"
      "filter (\<lambda>z. z \<in> set (y # to)) from = filter (\<lambda>z. z \<in> set to) from"
      "filter (\<lambda>z. z \<notin> set (x # from)) to = filter (\<lambda>z. z \<notin> set from) to"
      using 3(4,5) 1 by (auto simp: key_sorted_Cons intro!: filter_cong)
    with 1 3(1,4,5) show ?thesis by (simp add: key_sorted_Cons Let_def)
  next
    case 2
    have "x \<notin> set (y # to)" using 3(5) 2 by (auto simp: key_sorted_Cons)
    moreover have "filter (\<lambda>z. z \<notin> set (x # from)) (y # to) = filter (\<lambda>z. z \<notin> set from) (y # to)"
      using calculation by (intro filter_cong) auto
    ultimately show ?thesis using 2 3(2,4,5) by (simp add: key_sorted_Cons Let_def)
  next
    case 3
    with "3.prems" have y: "y \<notin> set (x # from)" by (auto simp: key_sorted_Cons)
    have "filter (\<lambda>z. z \<notin> set (y # to)) (x # from) = filter (\<lambda>z. z \<notin> set to) (x # from)"
      "filter (\<lambda>z. z \<in> set (y # to)) (x # from) = filter (\<lambda>z. z \<in> set to) (x # from)"
      using y by (auto intro!: filter_cong)
    with 3 y "3.IH"(3) "3.prems" show ?thesis by (simp add: key_sorted_Cons Let_def)
  qed
qed simp_all

lemma key_sorted_subset_eq:
  assumes "key_sorted key xs" "key_sorted key ys" "set xs = set ys"
  shows "xs = ys"
  using assms by (intro map_sorted_distinct_set_unique [where f = key]) (auto simp: key_sorted_iff distinct_map)

text \<open>Nothing to delete and nothing to set means that nothing has changed.\<close>

lemma difference_empty_iff:
  assumes "key_sorted key from" "key_sorted key to"
  shows "filter (\<lambda>k. k \<notin> set (map key to)) (map key (filter (\<lambda>x. x \<notin> set to) from)) = [] \<and>
     filter (\<lambda>y. y \<notin> set from) to = [] \<longleftrightarrow> from = to"
proof
  assume *: "filter (\<lambda>k. k \<notin> set (map key to)) (map key (filter (\<lambda>x. x \<notin> set to) from)) = [] \<and>
     filter (\<lambda>y. y \<notin> set from) to = []"
  have "x \<in> set to" if x: "x \<in> set from" for x
  proof (rule ccontr)
    assume "x \<notin> set to"
    with * x obtain y where "y \<in> set to" "key y = key x"
      by (auto simp: filter_empty_conv)
    with * x key_sorted_inj [OF assms(1)] have "y = x" by (auto simp: filter_empty_conv)
    with \<open>y \<in> set to\<close> \<open>x \<notin> set to\<close> show False by simp
  qed
  with * show "from = to"
    by (intro key_sorted_subset_eq [OF assms]) (auto simp: filter_empty_conv)
qed (auto simp: filter_empty_conv)

lemma hash_fields_sorted: "ExtractHashPacketFieldConfigs info = Inr cs \<Longrightarrow> key_sorted hpf_key cs"
  unfolding ExtractHashPacketFieldConfigs_def key_sorted_iff
  using fold_or_invariant [of extract_hash_field_config "actions_by_name_entries info" "[]" cs
      "\<lambda>cs. sorted (map hpf_key cs) \<and> distinct (map hpf_key cs) \<and> list_all hash_field_config_ok cs"]
    extract_hash_field_config_ok by auto

text \<open>The names of the ACL tables, in order.\<close>

definition acl_names_of :: "swss_names \<Rightarrow> ir_p4info \<Rightarrow> string set" where
  "acl_names_of names info = {n. \<exists>t. (n, t) \<in> set (tables_by_name_entries info) \<and> GetTableType names t = Inr kAcl}"

lemma GetAclTableNames_ok:
  assumes "GetAclTableNames names info = Inr ns"
  shows "key_sorted (\<lambda>n. n) ns \<and> set ns = acl_names_of names info"
proof -
  have "key_sorted (\<lambda>n. n) ns' \<and> set ns' = set ns0 \<union> {n. \<exists>t. (n, t) \<in> set es \<and> GetTableType names t = Inr kAcl}"
    if "fold_or (\<lambda>(name, table) ns. bind_or (GetTableType names table) (\<lambda>k.
         Inr (if k = kAcl then insort_insert name ns else ns))) es ns0 = Inr ns'" "key_sorted (\<lambda>n. n) ns0"
    for es ns0 ns'
    using that
  proof (induction es arbitrary: ns0)
    case (Cons e es)
    obtain n t where e: "e = (n, t)" by (cases e)
    with Cons.prems(1) obtain k where k: "GetTableType names t = Inr k"
      and rest: "fold_or (\<lambda>(name, table) ns. bind_or (GetTableType names table) (\<lambda>k.
         Inr (if k = kAcl then insort_insert name ns else ns))) es (if k = kAcl then insort_insert n ns0 else ns0) = Inr ns'"
      by auto
    have "key_sorted (\<lambda>n. n) (if k = kAcl then insort_insert n ns0 else ns0)"
      using Cons.prems(2) insort_insert_key_wf [of "\<lambda>n. n" ns0 n] by (simp add: key_sorted_iff)
    from Cons.IH [OF rest this] k show ?case by (auto simp: e set_insort_insert)
  qed simp
  from this [of "tables_by_name_entries info" "[]" ns] assms show ?thesis
    by (simp add: GetAclTableNames_def acl_names_of_def key_sorted_def)
qed

text \<open>A pair of tables that is accepted: both have a definition, in the same stage.\<close>

lemma definition_stage:
  assumes "AppDbAclTableDefinition env t = Some (Inr e)"
  shows "\<exists>stage. StageTuple t = Inr (''stage'', stage) \<and> kfvFieldLookup e ''stage'' = Inr stage"
proof -
  from assms have "GenerateSonicDbValuesFromIrTable (ae_text env) (ae_acl env) (ae_dump env) t =
      Some (Inr (kfvFieldsValues e))"
    by (auto simp: AppDbAclTableDefinition_def acl_table_definition_def)
  from GenerateSonicDbValues_shape [OF this] show ?thesis
    by (cases "kfvFieldsValues e") (auto simp: kfvFieldLookup_def definition_field_names_def)
qed

lemma GetAnnotationBody_error:
  assumes "GetAnnotationBody l annotations = Inl e"
  shows "e \<noteq> OK"
proof (cases "GetAllParsedAnnotations l annotations Inr")
  case (Inl e')
  have "GetAllParsedAnnotations l annotations Inr \<noteq> Inl OK"
    by (induction annotations) (auto simp: bind_or_eq_Inl split: sum.splits)
  with assms Inl show ?thesis by (simp add: GetAnnotationBody_def GetParsedAnnotation_def)
next
  case (Inr vs)
  with assms show ?thesis
    by (cases vs rule: remdups_adj.cases) (simp_all add: GetAnnotationBody_def GetParsedAnnotation_def)
qed

lemma IsValidModification_ok:
  assumes "IsValidModification env t t' = Some (Inr m)"
  shows "\<exists>e e'. AppDbAclTableDefinition env t = Some (Inr e) \<and> AppDbAclTableDefinition env t' = Some (Inr e') \<and>
    StageTuple t = StageTuple t' \<and>
    (m \<longleftrightarrow> \<not> kfvEq e e' \<or> (\<exists>b. GetAnnotationBody ''reinstall_during_upgrade'' (itd_annotations t') = Inr b))"
proof -
  from assms obtain e e' where e: "AppDbAclTableDefinition env t = Some (Inr e)"
    "AppDbAclTableDefinition env t' = Some (Inr e')"
    by (auto simp: IsValidModification_def split: option.splits sum.splits)
  from definition_stage [OF e(1)] definition_stage [OF e(2)] obtain s s' where
    s: "StageTuple t = Inr (''stage'', s)" "kfvFieldLookup e ''stage'' = Inr s"
      "StageTuple t' = Inr (''stage'', s')" "kfvFieldLookup e' ''stage'' = Inr s'" by blast
  have "status_of r = OK \<longleftrightarrow> (\<exists>b. r = Inr b)" if "\<And>e. r = Inl e \<Longrightarrow> e \<noteq> OK" for r :: "string status_or"
    using that by (cases r) auto
  moreover note GetAnnotationBody_error
  ultimately show ?thesis
    using assms e s by (auto simp: IsValidModification_def split: if_splits)
qed

definition table_modified :: "('s, 'f) acl_env \<Rightarrow> ir_p4info \<Rightarrow> ir_p4info \<Rightarrow> string \<Rightarrow> bool" where
  "table_modified env from to n \<longleftrightarrow>
     (case (tables_by_name from n, tables_by_name to n) of
        (Some t, Some t') \<Rightarrow> IsValidModification env t t' = Some (Inr True)
      | _ \<Rightarrow> False)"

definition table_nonessential :: "ir_p4info \<Rightarrow> string \<Rightarrow> bool" where
  "table_nonessential to n \<longleftrightarrow>
     (case tables_by_name to n of
        Some t \<Rightarrow> status_of (GetAnnotationBody ''nonessential_for_upgrade'' (itd_annotations t)) = OK
      | None \<Rightarrow> False)"

lemma compare_acl_tables_ok:
  assumes "fold_outcome (compare_acl_table env from to) ns tr0 = Some (Inr tr)"
  shows "tr = tr0\<lparr>nonessential_acl_tables_to_modify := nonessential_acl_tables_to_modify tr0 @
        filter (\<lambda>n. table_modified env from to n \<and> table_nonessential to n) ns,
      essential_acl_tables_to_modify := essential_acl_tables_to_modify tr0 @
        filter (\<lambda>n. table_modified env from to n \<and> \<not> table_nonessential to n) ns\<rparr> \<and>
    (\<forall>n \<in> set ns. \<exists>t t' m. tables_by_name from n = Some t \<and> tables_by_name to n = Some t' \<and>
       IsValidModification env t t' = Some (Inr m))"
  using assms
proof (induction ns arbitrary: tr0)
  case (Cons n ns)
  then obtain tr1 where step: "compare_acl_table env from to n tr0 = Some (Inr tr1)"
    and rest: "fold_outcome (compare_acl_table env from to) ns tr1 = Some (Inr tr)" by auto
  from step obtain t t' m where t: "tables_by_name from n = Some t" "tables_by_name to n = Some t'"
    and m: "IsValidModification env t t' = Some (Inr m)"
    by (auto simp: compare_acl_table_def split: option.splits)
  have "tr1 = (if \<not> table_modified env from to n then tr0
      else if table_nonessential to n
      then tr0\<lparr>nonessential_acl_tables_to_modify := nonessential_acl_tables_to_modify tr0 @ [n]\<rparr>
      else tr0\<lparr>essential_acl_tables_to_modify := essential_acl_tables_to_modify tr0 @ [n]\<rparr>)"
    using step t m by (auto simp: compare_acl_table_def table_modified_def table_nonessential_def)
  with Cons.IH [OF rest] t m show ?case by simp
qed simp

section \<open>Properties\<close>

text \<open>
  C24. The transition that is calculated is exact. A hash configuration is set when the new program has it
  and the old one has not the same; it is deleted when no configuration of that name is left; the switch
  table is updated exactly when anything about hashing changed. An ACL table is deleted or added when
  only one of the programs has it; of those that both have, none changes its stage, and the ones to
  modify, either as essential or as nonessential, are those whose definition changed or is to be
  reinstalled.
\<close>

theorem CalculateTransition_exact:
  assumes "CalculateTransition env from to = Some (Inr tr)"
  shows "(\<exists>fh fp th tp. ExtractHashPacketFieldConfigs from = Inr fh \<and> ExtractHashParamConfigs from = Inr fp \<and>
      ExtractHashPacketFieldConfigs to = Inr th \<and> ExtractHashParamConfigs to = Inr tp \<and>
      set (hashing_packet_field_configs_to_set tr) = hpf_key ` (set th - set fh) \<and>
      set (hashing_packet_field_configs_to_delete tr) = hpf_key ` set fh - hpf_key ` set th \<and>
      (update_switch_table tr \<longleftrightarrow> fh \<noteq> th \<or> fp \<noteq> tp)) \<and>
    set (acl_tables_to_delete tr) = acl_names_of (ae_names env) from - acl_names_of (ae_names env) to \<and>
    set (acl_tables_to_add tr) = acl_names_of (ae_names env) to - acl_names_of (ae_names env) from \<and>
    (\<forall>n \<in> acl_names_of (ae_names env) from \<inter> acl_names_of (ae_names env) to. \<exists>t t' e e'.
       tables_by_name from n = Some t \<and> tables_by_name to n = Some t' \<and> StageTuple t = StageTuple t' \<and>
       AppDbAclTableDefinition env t = Some (Inr e) \<and> AppDbAclTableDefinition env t' = Some (Inr e') \<and>
       (n \<in> set (nonessential_acl_tables_to_modify tr) \<union> set (essential_acl_tables_to_modify tr) \<longleftrightarrow>
          \<not> kfvEq e e' \<or> (\<exists>b. GetAnnotationBody ''reinstall_during_upgrade'' (itd_annotations t') = Inr b))) \<and>
    set (nonessential_acl_tables_to_modify tr) \<inter> set (essential_acl_tables_to_modify tr) = {} \<and>
    set (nonessential_acl_tables_to_modify tr) \<union> set (essential_acl_tables_to_modify tr) \<subseteq>
      acl_names_of (ae_names env) from \<inter> acl_names_of (ae_names env) to"
proof -
  from assms obtain tr1 where h: "CalculateHashingDifference from to empty_transition = Inr tr1"
    and a: "CalculateAclDifference env from to tr1 = Some (Inr tr)"
    by (auto simp: CalculateTransition_def)
  from h obtain fh fp th tp where ext: "ExtractHashPacketFieldConfigs from = Inr fh" "ExtractHashParamConfigs from = Inr fp"
      "ExtractHashPacketFieldConfigs to = Inr th" "ExtractHashParamConfigs to = Inr tp"
    by (auto simp: CalculateHashingDifference_def split: sum.splits)
  note sorted = hash_fields_sorted [OF ext(1)] hash_fields_sorted [OF ext(3)]
  let ?del = "filter (\<lambda>k. k \<notin> set (map hpf_key th)) (map hpf_key (filter (\<lambda>x. x \<notin> set th) fh))"
  let ?add = "filter (\<lambda>y. y \<notin> set fh) th"
  from h ext have tr1: "hashing_packet_field_configs_to_delete tr1 = ?del"
    "hashing_packet_field_configs_to_set tr1 = map hpf_key ?add"
    "update_switch_table tr1 \<longleftrightarrow> ?del \<noteq> [] \<or> map hpf_key ?add \<noteq> [] \<or> fp \<noteq> tp"
    "nonessential_acl_tables_to_modify tr1 = []" "essential_acl_tables_to_modify tr1 = []"
    by (auto simp: CalculateHashingDifference_def CalculateSetDifference_eq [OF sorted] Let_def empty_transition_def)
  from a obtain fa ta where names: "GetAclTableNames (ae_names env) from = Inr fa"
      "GetAclTableNames (ae_names env) to = Inr ta"
    by (auto simp: CalculateAclDifference_def)
  note fa = GetAclTableNames_ok [OF names(1)] and ta = GetAclTableNames_ok [OF names(2)]
  let ?tr2 = "tr1\<lparr>acl_tables_to_add := filter (\<lambda>y. y \<notin> set fa) ta,
                  acl_tables_to_delete := filter (\<lambda>x. x \<notin> set ta) fa\<rparr>"
  let ?both = "filter (\<lambda>x. x \<in> set ta) fa"
  from a have "fold_outcome (compare_acl_table env from to) ?both ?tr2 = Some (Inr tr)"
    using fa ta by (simp add: CalculateAclDifference_def names CalculateSetDifference_eq)
  from compare_acl_tables_ok [OF this] have tr: "tr = ?tr2\<lparr>nonessential_acl_tables_to_modify :=
        filter (\<lambda>n. table_modified env from to n \<and> table_nonessential to n) ?both,
      essential_acl_tables_to_modify :=
        filter (\<lambda>n. table_modified env from to n \<and> \<not> table_nonessential to n) ?both\<rparr>"
    and valid: "\<And>n. n \<in> set ?both \<Longrightarrow> \<exists>t t' m. tables_by_name from n = Some t \<and> tables_by_name to n = Some t' \<and>
       IsValidModification env t t' = Some (Inr m)"
    using tr1 by auto
  have "update_switch_table tr \<longleftrightarrow> fh \<noteq> th \<or> fp \<noteq> tp"
    using difference_empty_iff [OF sorted] tr1(3) by (simp add: tr) blast
  moreover have "set ?del = hpf_key ` set fh - hpf_key ` set th" by auto
  moreover have "\<exists>t t' e e'. tables_by_name from n = Some t \<and> tables_by_name to n = Some t' \<and> StageTuple t = StageTuple t' \<and>
       AppDbAclTableDefinition env t = Some (Inr e) \<and> AppDbAclTableDefinition env t' = Some (Inr e') \<and>
       (n \<in> set (nonessential_acl_tables_to_modify tr) \<union> set (essential_acl_tables_to_modify tr) \<longleftrightarrow>
          \<not> kfvEq e e' \<or> (\<exists>b. GetAnnotationBody ''reinstall_during_upgrade'' (itd_annotations t') = Inr b))"
    if n: "n \<in> set ?both" for n
  proof -
    from valid [OF n] obtain t t' m where t: "tables_by_name from n = Some t" "tables_by_name to n = Some t'"
      and m: "IsValidModification env t t' = Some (Inr m)" by blast
    have "n \<in> set (nonessential_acl_tables_to_modify tr) \<union> set (essential_acl_tables_to_modify tr) \<longleftrightarrow> m"
      using n t m by (auto simp: tr table_modified_def)
    with t IsValidModification_ok [OF m] show ?thesis by auto
  qed
  ultimately show ?thesis using ext tr1(1,2) fa ta by (auto simp: tr)
qed

text \<open>
  What a new capacity map is to be: every profile carries over the usage of the profile of that name, and
  is accepted if the two checks of the code pass. The first concerns profiles limited by the sum of their
  weights only, and a size of 0 is no limit; the second those with some weight in use only.
\<close>

definition carried_over :: "capacity_map \<Rightarrow> string \<Rightarrow> action_profile \<Rightarrow> action_profile_resource_capacity" where
  "carried_over original n ap =
     \<lparr>arc_action_profile = ap,
      arc_current_total_weight = (case original n of None \<Rightarrow> 0 | Some c \<Rightarrow> arc_current_total_weight c),
      arc_current_total_members = (case original n of None \<Rightarrow> 0 | Some c \<Rightarrow> arc_current_total_members c)\<rparr>"

definition accommodates :: "capacity_map \<Rightarrow> string \<times> action_profile \<Rightarrow> bool" where
  "accommodates original entry =
     (let (n, ap) = entry; used = arc_current_total_weight (carried_over original n ap)
      in (ap_sum_of_members ap \<noteq> None \<or> ap_size ap = 0 \<or> used \<le> ap_size ap) \<and>
         (used \<le> 0 \<or>
          (case original n of
             None \<Rightarrow> True
           | Some c \<Rightarrow> ap_max_group_size (arc_action_profile c) \<le> ap_max_group_size ap)))"

lemma updated_capacity_spec:
  "updated_capacity original entry =
     (if accommodates original entry then Inr (carried_over original (fst entry) (snd entry))
      else Inl FAILED_PRECONDITION)"
  by (cases entry; cases "original (fst entry)")
    (auto simp: updated_capacity_def accommodates_def carried_over_def Let_def capacity_defs exceeds_def
      GetActionProfileResourceCapacity_def)

lemma updated_capacities_fold:
  "distinct (map fst es) \<Longrightarrow>
   fold_or (\<lambda>entry m. bind_or (updated_capacity original entry) (\<lambda>c. Inr (m(fst entry \<mapsto> c)))) es m =
     (if list_all (accommodates original) es
      then Inr (\<lambda>n. case map_of es n of None \<Rightarrow> m n | Some ap \<Rightarrow> Some (carried_over original n ap))
      else Inl FAILED_PRECONDITION)"
proof (induction es arbitrary: m)
  case (Cons e es)
  then have "map_of es (fst e) = None" by (simp add: map_of_eq_None_iff)
  with Cons show ?case by (cases e) (auto simp: updated_capacity_spec split: option.split)
qed simp

text \<open>
  C27. The capacities for a new P4Info, exactly. Its action profiles are refused, with a failed precondition,
  unless each of them passes two checks: a profile limited by the sum of its weights, with a size other
  than 0, is at least as large as the weight its namesake has in use, and a profile whose namesake has
  weight in use does not allow smaller groups. Otherwise the new map has exactly the new profiles, each with the
  weight and the members in use that its namesake had, or none. A profile limited by its
  members is not checked against the members in use.
\<close>

theorem GetUpdatedResourceCapacities_exact:
  assumes "distinct (map fst (action_profiles_by_name_entries info))"
  shows "GetUpdatedResourceCapacities info original =
    (if list_all (accommodates original) (action_profiles_by_name_entries info)
     then Inr (\<lambda>n. map_option (carried_over original n) (action_profiles_by_name info n))
     else Inl FAILED_PRECONDITION)"
  using updated_capacities_fold [OF assms, of original Map.empty]
  by (auto simp: GetUpdatedResourceCapacities_def action_profiles_by_name_def map_option_case cong: if_cong)

section \<open>An instance\<close>

text \<open>An ACL table grows, another one is gone, and hashing is configured.\<close>

definition example_old_info :: ir_p4info where
  "example_old_info = (example_hash_info [])\<lparr>tables_by_name_entries :=
     [(''acl_punt'', example_acl_table), (''acl_gone'', example_acl_table)]\<rparr>"

definition example_new_info :: ir_p4info where
  "example_new_info = (example_hash_info example_hash_actions)\<lparr>tables_by_name_entries :=
     [(''acl_punt'', example_acl_table\<lparr>itd_size := 13\<rparr>)]\<rparr>"

definition example_transition :: reconcile_transition where
  "example_transition =
     \<lparr>hashing_packet_field_configs_to_delete = [],
      hashing_packet_field_configs_to_set = [''compute_ecmp_hash_ipv4'', ''compute_ecmp_hash_ipv6''],
      update_switch_table = True, acl_tables_to_delete = [''acl_gone''], acl_tables_to_add = [],
      nonessential_acl_tables_to_modify = [], essential_acl_tables_to_modify = [''acl_punt'']\<rparr>"

lemma example_acl_type:
  "itd_annotations t = itd_annotations example_acl_table \<Longrightarrow> GetTableType names t = Inr kAcl"
  by (simp add: GetTableType_def Let_def example_acl_stage)

lemma example_old_names: "GetAclTableNames names example_old_info = Inr [''acl_gone'', ''acl_punt'']"
proof -
  have "insort_insert ''acl_gone'' [''acl_punt''] = [''acl_gone'', ''acl_punt'']" by code_simp
  then show ?thesis
    by (simp add: GetAclTableNames_def example_old_info_def example_acl_type insort_insert_key_def)
qed

lemma example_new_names: "GetAclTableNames names example_new_info = Inr [''acl_punt'']"
  by (simp add: GetAclTableNames_def example_new_info_def example_acl_type insort_insert_key_def)

lemma example_calculated:
  "CalculateTransition example_acl_env example_old_info example_new_info = Some (Inr example_transition)"
proof -
  have hash: "ExtractHashPacketFieldConfigs example_old_info = Inr []" "ExtractHashParamConfigs example_old_info = Inr []"
    "ExtractHashPacketFieldConfigs example_new_info = ExtractHashPacketFieldConfigs (example_hash_info example_hash_actions)"
    "ExtractHashParamConfigs example_new_info = ExtractHashParamConfigs (example_hash_info example_hash_actions)"
    by (simp_all add: ExtractHashPacketFieldConfigs_def ExtractHashParamConfigs_def example_old_info_def
        example_new_info_def example_hash_info_def)
  have valid: "IsValidModification example_acl_env example_acl_table (example_acl_table\<lparr>itd_size := 13\<rparr>) = Some (Inr True)"
    by (simp add: IsValidModification_def example_acl_definition example_acl_upgrade kfvFieldLookup_def kfvEq_def
        last_wins_def)
  have lookup: "tables_by_name example_old_info ''acl_punt'' = Some example_acl_table"
    "tables_by_name example_new_info ''acl_punt'' = Some (example_acl_table\<lparr>itd_size := 13\<rparr>)"
    by (simp_all add: tables_by_name_def example_old_info_def example_new_info_def)
  have order: "''acl_gone'' < ''acl_punt''" by code_simp
  show ?thesis
    by (simp add: CalculateTransition_def CalculateHashingDifference_def CalculateAclDifference_def hash
        example_hash_extraction example_old_names example_new_names order Let_def compare_acl_table_def lookup valid
        example_acl_upgrade empty_transition_def example_transition_def)
qed

theorem CalculateTransition_exact_witness:
  "acl_names_of (ae_names example_acl_env) example_old_info - acl_names_of (ae_names example_acl_env) example_new_info =
     {''acl_gone''} \<and>
   set (essential_acl_tables_to_modify example_transition) \<subseteq>
     acl_names_of (ae_names example_acl_env) example_old_info \<inter> acl_names_of (ae_names example_acl_env) example_new_info"
  using CalculateTransition_exact [OF example_calculated] by (simp add: example_transition_def)

definition example_used :: capacity_map where
  "example_used = [''wcmp_group_selector'' \<mapsto>
     (GetActionProfileResourceCapacity (example_profile 20 8 None))\<lparr>arc_current_total_weight := 7\<rparr>]"

theorem GetUpdatedResourceCapacities_exact_witness:
  "GetUpdatedResourceCapacities (example_info (example_profile 6 8 None)) example_used = Inl FAILED_PRECONDITION \<and>
   (\<exists>caps c. GetUpdatedResourceCapacities (example_info (example_profile 10 8 None)) example_used = Inr caps \<and>
      caps ''wcmp_group_selector'' = Some c \<and> arc_action_profile c = example_profile 10 8 None \<and>
      arc_current_total_weight c = 7)"
proof -
  have names: "distinct (map fst (action_profiles_by_name_entries (example_info ap)))" for ap by (simp add: example_info_def)
  show ?thesis
    unfolding GetUpdatedResourceCapacities_exact [OF names]
    by (simp add: accommodates_def carried_over_def example_used_def
        example_info_def example_profile_def action_profiles_by_name_def GetActionProfileResourceCapacity_def)
qed

text \<open>
  The gap: a profile limited by its members, seven of which are in use, may become one of five members, and the next
  map says that seven of five are in use.
\<close>

lemma members_in_use_are_not_checked:
  "\<exists>c. GetUpdatedResourceCapacities (example_info (example_profile 5 8 (Some 4)))
       [''wcmp_group_selector'' \<mapsto> (GetActionProfileResourceCapacity (example_profile 20 8 (Some 4)))
          \<lparr>arc_current_total_members := 7\<rparr>] = Inr [''wcmp_group_selector'' \<mapsto> c] \<and>
     exceeds (GetMaxMembersForAllGroups c) (arc_current_total_members c)"
proof -
  let ?c = "(GetActionProfileResourceCapacity (example_profile 5 8 (Some 4)))\<lparr>arc_current_total_members := 7\<rparr>"
  show ?thesis
    by (rule exI [of _ ?c])
      (simp add: GetUpdatedResourceCapacities_def updated_capacity_def example_info_def example_profile_def
        GetActionProfileResourceCapacity_def exceeds_def capacity_defs)
qed

end
