(* ===== verification/App_Db_Translation.thy ===== *)
theory App_Db_Translation
  imports Acl_Definitions Ir_Values
begin

text \<open>
  The translation between table entries and the entries of \<open>P4RT_TABLE\<close> in the application database
  (\<open>p4rt_app/sonic/app_db_to_pdpi_ir_translator.cc\<close>, \<open>GetRedisP4rtTableKey\<close> and \<open>ReadP4TableEntry\<close> of
  \<open>app_db_manager.cc\<close>): matches and priority as a JSON object in the key, the action and the meter
  in the fields. Printing and parsing JSON are parameters; parsing gives \<open>None\<close> where it throws. An
  exception that is not caught is the outcome \<open>None\<close>. Strings are UTF-8, as protobuf has them.
\<close>

section \<open>Text\<close>

definition ascii_tolower :: "char \<Rightarrow> char" where
  "ascii_tolower c = (let n = of_char c :: nat in if 65 \<le> n \<and> n \<le> 90 then char_of (n + 32) else c)"

text \<open>\<open>absl::StrCat\<close> of a signed integer, and \<open>std::stoi\<close>, which stops at the first non-digit.\<close>

definition int_str :: "int \<Rightarrow> string" where
  "int_str i = (if i < 0 then CHR ''-'' # dec_str (nat (- i)) else dec_str (nat i))"

definition dec_digit :: "char \<Rightarrow> bool" where
  "dec_digit c \<longleftrightarrow> (let n = of_char c :: nat in 48 \<le> n \<and> n < 58)"

definition c_space :: "char \<Rightarrow> bool" where
  "c_space c \<longleftrightarrow> (let n = of_char c :: nat in n = 32 \<or> (9 \<le> n \<and> n \<le> 13))"

definition std_stoi :: "string \<Rightarrow> int option" where
  "std_stoi s =
     (let t = dropWhile c_space s;
          negative = (take 1 t = ''-'');
          digits = takeWhile dec_digit (if take 1 t = ''-'' \<or> take 1 t = ''+'' then drop 1 t else t)
      in case parse_base 10 digits of
           None \<Rightarrow> None
         | Some n \<Rightarrow> (let i = (if negative then - int n else int n)
                     in if - (2 ^ 31) \<le> i \<and> i < 2 ^ 31 then Some i else None))"

text \<open>Iterating over the members of an object, and over the elements of a value.\<close>

fun json_items :: "json \<Rightarrow> (string \<times> json) list option" where
  "json_items JNull = Some []"
| "json_items (JObj m) = Some m"
| "json_items (JArr []) = Some []"
| "json_items _ = None"

fun json_elements :: "json \<Rightarrow> json list" where
  "json_elements JNull = []"
| "json_elements (JObj m) = map snd m"
| "json_elements (JArr xs) = xs"
| "json_elements j = [j]"

text \<open>\<open>at\<close>, which throws on a missing key; \<open>get<std::string>\<close> and \<open>get<int>\<close>.\<close>

fun json_member :: "string \<Rightarrow> json \<Rightarrow> json option" where
  "json_member k (JObj m) = bt_find k m"
| "json_member k _ = None"

fun json_str :: "json \<Rightarrow> string option" where
  "json_str (JStr s) = Some s"
| "json_str _ = None"

definition json_int32 :: "json \<Rightarrow> int option" where
  "json_int32 j = map_option to_int32 (json_int j)"

definition thrown :: "'a option \<Rightarrow> 'a outcome" where
  "thrown r = map_option Inr r"

lemma thrown_simps [simp]: "thrown (Some x) = Some (Inr x)" "thrown None = None"
  by (simp_all add: thrown_def)

record app_db_env =
  ad_dump :: "json \<Rightarrow> string"
  ad_parse :: "string \<Rightarrow> json option"
  ad_SimpleAtoi64 :: "string \<Rightarrow> int option"
  ad_names :: swss_names

section \<open>From the IR\<close>

definition AddAppDbMatchPrefix :: "string \<Rightarrow> string" where
  "AddAppDbMatchPrefix key = ''match/'' @ key"

definition StripAppDbMatchPrefix :: "string \<Rightarrow> string status_or" where
  "StripAppDbMatchPrefix key = (if take 6 key = ''match/'' then Inr (drop 6 key) else Inl INVALID_ARGUMENT)"

definition AddAppDbActionParamPrefix :: "string \<Rightarrow> string" where
  "AddAppDbActionParamPrefix param = ''param/'' @ param"

definition StripAppDbActionParamPrefix :: "string \<Rightarrow> string status_or" where
  "StripAppDbActionParamPrefix key = (if take 6 key = ''param/'' then Inr (drop 6 key) else Inl INVALID_ARGUMENT)"

fun IrValueToAppDbString :: "ir_value \<Rightarrow> string status_or" where
  "IrValueToAppDbString (HexStr s) = Inr s"
| "IrValueToAppDbString (Ipv4 s) = Inr s"
| "IrValueToAppDbString (Ipv6 s) = Inr s"
| "IrValueToAppDbString (Mac s) = Inr s"
| "IrValueToAppDbString (Str s) = Inr s"
| "IrValueToAppDbString ValueNotSet = Inl INVALID_ARGUMENT"

text \<open>The members a match contributes to the key. An optional match without a value has none.\<close>

definition match_members :: "ir_match \<Rightarrow> (string \<times> json) list status_or" where
  "match_members field =
     (let member = (\<lambda>s. Inr [(AddAppDbMatchPrefix (irm_name field), JStr s)])
      in case irm_value field of
           IrExact v \<Rightarrow> bind_or (IrValueToAppDbString v) member
         | IrLpm v prefix_length \<Rightarrow>
             bind_or (IrValueToAppDbString v) (\<lambda>lpm_value. member (lpm_value @ ''/'' @ int_str prefix_length))
         | IrTernary v m \<Rightarrow>
             bind_or (IrValueToAppDbString v) (\<lambda>value.
             bind_or (IrValueToAppDbString m) (\<lambda>ternary_mask. member (value @ ''&'' @ ternary_mask)))
         | IrOptional v \<Rightarrow> if v = ValueNotSet then Inr [] else bind_or (IrValueToAppDbString v) member
         | IrMatchNotSet \<Rightarrow> Inl UNIMPLEMENTED)"

definition key_json :: "ir_table_entry \<Rightarrow> json status_or" where
  "key_json entry =
     bind_or (map_or match_members (ite_matches entry)) (\<lambda>members.
       Inr (json_object
         ((if ite_priority entry > 0 then [(''priority'', JNum (ite_priority entry))] else []) @ concat members)))"

definition IrTableEntryToAppDbKey :: "app_db_env \<Rightarrow> ir_table_entry \<Rightarrow> string status_or" where
  "IrTableEntryToAppDbKey env entry = bind_or (key_json entry) (\<lambda>json. Inr (ad_dump env json))"

definition param_value :: "string \<times> ir_value \<Rightarrow> (string \<times> string) status_or" where
  "param_value p =
     bind_or (IrValueToAppDbString (snd p)) (\<lambda>v. Inr (AddAppDbActionParamPrefix (fst p), v))"

definition IrActionInvocationToAppDbValues :: "ir_action_invocation \<Rightarrow> field_values status_or" where
  "IrActionInvocationToAppDbValues action =
     bind_or (map_or param_value (ira_params action)) (\<lambda>params. Inr ((''action'', ira_name action) # params))"

definition IrActionSetInvocationToJsonValue :: "ir_action_set_invocation \<Rightarrow> json status_or" where
  "IrActionSetInvocationToJsonValue action =
     bind_or (map_or param_value (ira_params (iras_action action))) (\<lambda>params.
       Inr (json_object
         ([(''action'', JStr (ira_name (iras_action action))), (''weight'', JNum (iras_weight action))] @
          (if iras_watch_port action \<noteq> [] then [(''watch_port'', JStr (iras_watch_port action))] else []) @
          map (\<lambda>(k, v). (k, JStr v)) params)))"

definition IrActionSetToAppDbValues :: "app_db_env \<Rightarrow> ir_action_set_invocation list \<Rightarrow> field_values status_or" where
  "IrActionSetToAppDbValues env actions =
     bind_or (map_or IrActionSetInvocationToJsonValue actions) (\<lambda>js. Inr [(''actions'', ad_dump env (JArr js))])"

definition P4MeterConfigToAppDbValues :: "meter_config \<Rightarrow> field_values" where
  "P4MeterConfigToAppDbValues m =
     (if mc_cir m \<noteq> 0 then [(''meter/cir'', int_str (mc_cir m))] else []) @
     (if mc_cburst m \<noteq> 0 then [(''meter/cburst'', int_str (mc_cburst m))] else []) @
     (if mc_pir m \<noteq> 0 then [(''meter/pir'', int_str (mc_pir m))] else []) @
     (if mc_pburst m \<noteq> 0 then [(''meter/pburst'', int_str (mc_pburst m))] else [])"

definition IrTableEntryToAppDbValues :: "app_db_env \<Rightarrow> ir_table_entry \<Rightarrow> field_values status_or" where
  "IrTableEntryToAppDbValues env entry =
     bind_or (case ite_action entry of
                IrAction a \<Rightarrow> IrActionInvocationToAppDbValues a
              | IrActionSet as \<Rightarrow> IrActionSetToAppDbValues env as
              | IrActionNotSet \<Rightarrow> Inl INVALID_ARGUMENT) (\<lambda>result.
       Inr (result @
            (case ite_meter_config entry of Some m \<Rightarrow> P4MeterConfigToAppDbValues m | None \<Rightarrow> []) @
            (if ite_controller_metadata entry \<noteq> [] then [(''controller_metadata'', ite_controller_metadata entry)]
             else [])))"

definition GetRedisP4rtTableKey :: "app_db_env \<Rightarrow> ir_table_entry \<Rightarrow> ir_p4info \<Rightarrow> string status_or" where
  "GetRedisP4rtTableKey env entry p4_info =
     (case tables_by_name p4_info (ite_table_name entry) of
        None \<Rightarrow> Inl INTERNAL
      | Some ir_table_def \<Rightarrow>
          bind_or (GetTableType (ad_names env) ir_table_def) (\<lambda>table_type.
          bind_or (IrTableEntryToAppDbKey env entry) (\<lambda>json_key.
            Inr (map ascii_toupper (TypeName (ad_names env) table_type @ ''_'' @ ite_table_name entry @ '':'') @
                 json_key))))"

section \<open>To the IR\<close>

definition SonicDbKeyToAppDbKey :: "string \<Rightarrow> string" where
  "SonicDbKeyToAppDbKey app_db_key =
     (if CHR '':'' \<in> set app_db_key then drop 1 (dropWhile (\<lambda>c. c \<noteq> CHR '':'') app_db_key) else app_db_key)"

definition SonicDbKeyToP4TableName :: "swss_names \<Rightarrow> string \<Rightarrow> string status_or" where
  "SonicDbKeyToP4TableName names app_db_key =
     (let sonic_table_name = hd (str_split (CHR '':'') app_db_key)
      in case TypeParse names (takeWhile (\<lambda>c. c \<noteq> CHR ''_'') sonic_table_name) of
           Inl _ \<Rightarrow> Inl INVALID_ARGUMENT
         | Inr _ \<Rightarrow>
             Inr (map ascii_tolower
               (if CHR ''_'' \<in> set sonic_table_name
                then drop 1 (dropWhile (\<lambda>c. c \<noteq> CHR ''_'') sonic_table_name) else sonic_table_name)))"

definition AppDbLpmValueToIrLpmMatch :: "string \<Rightarrow> ir_format \<Rightarrow> ir_match_value outcome" where
  "AppDbLpmValueToIrLpmMatch v format =
     (case str_split (CHR ''/'') v of
        [value, len] \<Rightarrow>
          bind_outcome (thrown (std_stoi len)) (\<lambda>n. Some (Inr (IrLpm (FormattedStringToIrValue value format) n)))
      | _ \<Rightarrow> Some (Inl INVALID_ARGUMENT))"

definition AppDbTernaryValuttoIrTernaryMatch :: "string \<Rightarrow> ir_format \<Rightarrow> ir_match_value status_or" where
  "AppDbTernaryValuttoIrTernaryMatch v format =
     (case str_split (CHR ''&'') v of
        [value, ternary_mask] \<Rightarrow>
          Inr (IrTernary (FormattedStringToIrValue value format) (FormattedStringToIrValue ternary_mask format))
      | _ \<Rightarrow> Inl INVALID_ARGUMENT)"

definition AppDbKeyValueStringsToIrMatch :: "ir_p4info \<Rightarrow> string \<Rightarrow> string \<Rightarrow> string \<Rightarrow> ir_match outcome" where
  "AppDbKeyValueStringsToIrMatch info table_name key v =
     (case tables_by_name info (map ascii_tolower table_name) of
        None \<Rightarrow> Some (Inl NOT_FOUND)
      | Some p4_table \<Rightarrow>
          (case map_of (itd_match_fields_by_name p4_table) (map ascii_tolower key) of
             None \<Rightarrow> Some (Inl NOT_FOUND)
           | Some d \<Rightarrow>
               bind_outcome
                 (case mfd_match_type d of
                    EXACT \<Rightarrow> Some (Inr (IrExact (FormattedStringToIrValue v (mfd_format d))))
                  | LPM \<Rightarrow> AppDbLpmValueToIrLpmMatch v (mfd_format d)
                  | TERNARY \<Rightarrow> Some (AppDbTernaryValuttoIrTernaryMatch v (mfd_format d))
                  | OPTIONAL \<Rightarrow> Some (Inr (IrOptional (FormattedStringToIrValue v (mfd_format d))))
                  | _ \<Rightarrow> Some (Inl INVALID_ARGUMENT))
                 (\<lambda>m. Some (Inr \<lparr>irm_name = key, irm_value = m\<rparr>))))"

definition AppDbNameValueStringsToIrActionParam ::
  "ir_p4info \<Rightarrow> string \<Rightarrow> string \<Rightarrow> string \<Rightarrow> string \<Rightarrow> (string \<times> ir_value) status_or" where
  "AppDbNameValueStringsToIrActionParam info table_name act_name app_db_param_name v =
     bind_or (StripAppDbActionParamPrefix app_db_param_name) (\<lambda>param_name.
       case tables_by_name info (map ascii_tolower table_name) of
         None \<Rightarrow> Inl NOT_FOUND
       | Some p4_table \<Rightarrow>
           (case List.find (\<lambda>a. iad_alias a = act_name) (itd_entry_actions p4_table) of
              None \<Rightarrow> Inl INVALID_ARGUMENT
            | Some action \<Rightarrow>
                (case map_of (iad_params_by_name action) param_name of
                   None \<Rightarrow> Inl NOT_FOUND
                 | Some p4_action_param \<Rightarrow>
                     Inr (param_name, FormattedStringToIrValue v (ipd_format p4_action_param)))))"

text \<open>One member of an action of a set: the name and the weight were read before.\<close>

definition action_set_member ::
  "ir_p4info \<Rightarrow> string \<Rightarrow> string \<Rightarrow> string \<times> json \<Rightarrow> ir_action_set_invocation \<Rightarrow> ir_action_set_invocation outcome" where
  "action_set_member info table_name act_name member invocation =
     (if fst member = ''action'' \<or> fst member = ''weight'' then Some (Inr invocation)
      else bind_outcome (thrown (json_str (snd member))) (\<lambda>v.
        if fst member = ''watch_port'' then Some (Inr (invocation\<lparr>iras_watch_port := v\<rparr>))
        else bind_outcome (Some (AppDbNameValueStringsToIrActionParam info table_name act_name (fst member) v)) (\<lambda>p.
          Some (Inr (invocation\<lparr>iras_action := (iras_action invocation)\<lparr>ira_params := ira_params (iras_action invocation) @ [p]\<rparr>\<rparr>)))))"

definition read_action_set_invocation :: "ir_p4info \<Rightarrow> string \<Rightarrow> json \<Rightarrow> ir_action_set_invocation outcome" where
  "read_action_set_invocation info table_name json_action =
     (case Option.bind (json_member ''action'' json_action) json_str of
        None \<Rightarrow> Some (Inl INVALID_ARGUMENT)
      | Some act_name \<Rightarrow>
          (case Option.bind (json_member ''weight'' json_action) json_int32 of
             None \<Rightarrow> Some (Inl INVALID_ARGUMENT)
           | Some weight \<Rightarrow>
               bind_outcome (thrown (json_items json_action)) (\<lambda>members.
                 fold_outcome (action_set_member info table_name act_name) members
                   \<lparr>iras_action = \<lparr>ira_name = act_name, ira_params = []\<rparr>, iras_weight = weight,
                    iras_watch_port = []\<rparr>)))"

definition AppDbValueToIrActionSet ::
  "app_db_env \<Rightarrow> ir_p4info \<Rightarrow> string \<Rightarrow> string \<Rightarrow> ir_action_set_invocation list outcome" where
  "AppDbValueToIrActionSet env info table_name app_db_entry =
     (case ad_parse env app_db_entry of
        None \<Rightarrow> Some (Inl INTERNAL)
      | Some json \<Rightarrow>
          fold_outcome (\<lambda>j as. bind_outcome (read_action_set_invocation info table_name j) (\<lambda>a. Some (Inr (as @ [a]))))
            (json_elements json) [])"

definition read_key_member ::
  "ir_p4info \<Rightarrow> string \<Rightarrow> string \<times> json \<Rightarrow> ir_table_entry \<Rightarrow> ir_table_entry outcome" where
  "read_key_member info table_name member entry =
     (if fst member = ''priority''
      then bind_outcome (thrown (json_int32 (snd member))) (\<lambda>p. Some (Inr (entry\<lparr>ite_priority := p\<rparr>)))
      else bind_outcome (Some (StripAppDbMatchPrefix (fst member))) (\<lambda>key.
           bind_outcome (thrown (json_str (snd member))) (\<lambda>v.
           bind_outcome (AppDbKeyValueStringsToIrMatch info table_name key v) (\<lambda>m.
             Some (Inr (entry\<lparr>ite_matches := ite_matches entry @ [m]\<rparr>))))))"

definition AppDbKeyToIrTableEntry :: "app_db_env \<Rightarrow> ir_p4info \<Rightarrow> string \<Rightarrow> string \<Rightarrow> ir_table_entry outcome" where
  "AppDbKeyToIrTableEntry env info table_name json_key =
     (case ad_parse env json_key of
        None \<Rightarrow> Some (Inl UNKNOWN)
      | Some json \<Rightarrow>
          bind_outcome (thrown (json_items json)) (\<lambda>members.
            fold_outcome (read_key_member info table_name) members
              (default_ir_table_entry\<lparr>ite_table_name := table_name\<rparr>)))"

definition mutable_meter_config :: "ir_table_entry \<Rightarrow> meter_config" where
  "mutable_meter_config entry =
     (case ite_meter_config entry of
        Some m \<Rightarrow> m
      | None \<Rightarrow> \<lparr>mc_cir = 0, mc_cburst = 0, mc_pir = 0, mc_pburst = 0\<rparr>)"

definition AddAppDbMeterDataToIrTableEntry ::
  "app_db_env \<Rightarrow> string \<Rightarrow> string \<Rightarrow> ir_table_entry \<Rightarrow> ir_table_entry status_or" where
  "AddAppDbMeterDataToIrTableEntry env meter_key meter_data entry =
     (case ad_SimpleAtoi64 env meter_data of
        None \<Rightarrow> Inl INVALID_ARGUMENT
      | Some int_value \<Rightarrow>
          let m = mutable_meter_config entry
          in if meter_key = ''meter/cir'' then Inr (entry\<lparr>ite_meter_config := Some (m\<lparr>mc_cir := int_value\<rparr>)\<rparr>)
             else if meter_key = ''meter/cburst''
             then Inr (entry\<lparr>ite_meter_config := Some (m\<lparr>mc_cburst := int_value\<rparr>)\<rparr>)
             else if meter_key = ''meter/pir'' then Inr (entry\<lparr>ite_meter_config := Some (m\<lparr>mc_pir := int_value\<rparr>)\<rparr>)
             else if meter_key = ''meter/pburst''
             then Inr (entry\<lparr>ite_meter_config := Some (m\<lparr>mc_pburst := int_value\<rparr>)\<rparr>)
             else Inl INVALID_ARGUMENT)"

definition mutable_action :: "ir_table_entry \<Rightarrow> ir_action_invocation" where
  "mutable_action entry = (case ite_action entry of IrAction a \<Rightarrow> a | _ \<Rightarrow> \<lparr>ira_name = [], ira_params = []\<rparr>)"

definition read_value ::
  "app_db_env \<Rightarrow> ir_p4info \<Rightarrow> string \<Rightarrow> string option \<Rightarrow> string \<times> string \<Rightarrow> ir_table_entry \<Rightarrow> ir_table_entry outcome" where
  "read_value env info table_name act_name fv entry =
     (let field = fst fv; data = snd fv
      in if field = ''action''
         then Some (Inr (entry\<lparr>ite_action := IrAction ((mutable_action entry)\<lparr>ira_name := data\<rparr>)\<rparr>))
         else if field = ''actions''
         then bind_outcome (AppDbValueToIrActionSet env info table_name data) (\<lambda>as.
                Some (Inr (entry\<lparr>ite_action := IrActionSet as\<rparr>)))
         else if take 6 field = ''param/''
         then (case act_name of
                 None \<Rightarrow> Some (Inl INVALID_ARGUMENT)
               | Some name \<Rightarrow>
                   bind_outcome (Some (AppDbNameValueStringsToIrActionParam info table_name name field data)) (\<lambda>p.
                     let a = mutable_action entry
                     in Some (Inr (entry\<lparr>ite_action := IrAction (a\<lparr>ira_params := ira_params a @ [p]\<rparr>)\<rparr>))))
         else if take 6 field = ''meter/'' then Some (AddAppDbMeterDataToIrTableEntry env field data entry)
         else if field = ''controller_metadata'' then Some (Inr (entry\<lparr>ite_controller_metadata := data\<rparr>))
         else Some (Inl INVALID_ARGUMENT))"

definition AppDbKeyAndValuesToIrTableEntry ::
  "app_db_env \<Rightarrow> ir_p4info \<Rightarrow> string \<Rightarrow> field_values \<Rightarrow> ir_table_entry outcome" where
  "AppDbKeyAndValuesToIrTableEntry env info app_db_key app_db_values =
     bind_outcome (Some (SonicDbKeyToP4TableName (ad_names env) app_db_key)) (\<lambda>table_name.
     bind_outcome (AppDbKeyToIrTableEntry env info table_name (SonicDbKeyToAppDbKey app_db_key)) (\<lambda>table_entry.
     bind_outcome (fold_outcome (read_value env info table_name (last_wins app_db_values ''action''))
                     app_db_values table_entry) (\<lambda>table_entry.
       Some (if ''action'' \<in> fst ` set app_db_values \<and> ''actions'' \<in> fst ` set app_db_values then Inl INTERNAL
             else Inr table_entry))))"

text \<open>The translators of the write path.\<close>

definition app_db_translators_of ::
  "app_db_env \<Rightarrow> ir_p4info \<Rightarrow> (string \<Rightarrow> nat option) \<Rightarrow>
   (update_type \<Rightarrow> ir_packet_replication_engine_entry \<Rightarrow> key_op_fields_values status_or) \<Rightarrow> app_db_translators" where
  "app_db_translators_of env info hex_atoi replication =
     \<lparr>tr_hex_atoi = hex_atoi, tr_table_key = (\<lambda>e. GetRedisP4rtTableKey env e info),
      tr_table_values = IrTableEntryToAppDbValues env, tr_replication = replication\<rparr>"

section \<open>Entries that survive\<close>

text \<open>
  An entry that fits its table: it only uses match fields and actions of the table, with values in the
  formats of the definitions, and its names are in lower case. The separators of the text encodings do
  not occur in the values.
\<close>

definition value_has_format :: "ir_value \<Rightarrow> ir_format \<Rightarrow> bool" where
  "value_has_format v f \<longleftrightarrow> v \<noteq> ValueNotSet \<and> FormattedStringToIrValue (IrValueString v) f = v"

definition match_fits :: "ir_match_field_definition \<Rightarrow> ir_match_value \<Rightarrow> bool" where
  "match_fits d m \<longleftrightarrow>
     (case m of
        IrExact v \<Rightarrow> mfd_match_type d = EXACT \<and> value_has_format v (mfd_format d)
      | IrLpm v n \<Rightarrow> mfd_match_type d = LPM \<and> value_has_format v (mfd_format d) \<and>
          CHR ''/'' \<notin> set (IrValueString v) \<and> 0 \<le> n \<and> n < 2 ^ 31
      | IrTernary v k \<Rightarrow> mfd_match_type d = TERNARY \<and> value_has_format v (mfd_format d) \<and>
          value_has_format k (mfd_format d) \<and> CHR ''&'' \<notin> set (IrValueString v) \<and> CHR ''&'' \<notin> set (IrValueString k)
      | IrOptional v \<Rightarrow> mfd_match_type d = OPTIONAL \<and> value_has_format v (mfd_format d)
      | IrMatchNotSet \<Rightarrow> False)"

definition param_fits :: "ir_action_definition \<Rightarrow> string \<times> ir_value \<Rightarrow> bool" where
  "param_fits d p \<longleftrightarrow>
     (case map_of (iad_params_by_name d) (fst p) of None \<Rightarrow> False | Some pd \<Rightarrow> value_has_format (snd p) (ipd_format pd))"

definition invocation_fits :: "ir_table_definition \<Rightarrow> ir_action_invocation \<Rightarrow> bool" where
  "invocation_fits t a \<longleftrightarrow>
     (case List.find (\<lambda>d. iad_alias d = ira_name a) (itd_entry_actions t) of
        None \<Rightarrow> False
      | Some d \<Rightarrow> list_all (param_fits d) (ira_params a))"

definition set_invocation_fits :: "ir_table_definition \<Rightarrow> ir_action_set_invocation \<Rightarrow> bool" where
  "set_invocation_fits t i \<longleftrightarrow>
     invocation_fits t (iras_action i) \<and> distinct (map fst (ira_params (iras_action i))) \<and>
     - (2 ^ 31) \<le> iras_weight i \<and> iras_weight i < 2 ^ 31"

definition meter_fits :: "meter_config \<Rightarrow> bool" where
  "meter_fits m \<longleftrightarrow>
     list_all (\<lambda>n. - (2 ^ 63) \<le> n \<and> n < 2 ^ 63) [mc_cir m, mc_cburst m, mc_pir m, mc_pburst m]"

definition entry_fits :: "ir_p4info \<Rightarrow> ir_table_entry \<Rightarrow> bool" where
  "entry_fits info e \<longleftrightarrow>
     (case tables_by_name info (ite_table_name e) of
        None \<Rightarrow> False
      | Some t \<Rightarrow>
          map ascii_tolower (map ascii_toupper (ite_table_name e)) = ite_table_name e \<and>
          map ascii_tolower (ite_table_name e) = ite_table_name e \<and>
          CHR '':'' \<notin> set (ite_table_name e) \<and>
          distinct (map irm_name (ite_matches e)) \<and>
          list_all (\<lambda>m. map ascii_tolower (irm_name m) = irm_name m \<and>
            (case map_of (itd_match_fields_by_name t) (irm_name m) of
               None \<Rightarrow> False | Some d \<Rightarrow> match_fits d (irm_value m))) (ite_matches e) \<and>
          0 \<le> ite_priority e \<and> ite_priority e < 2 ^ 31 \<and>
          (case ite_action e of
             IrAction a \<Rightarrow> invocation_fits t a
           | IrActionSet as \<Rightarrow> list_all (set_invocation_fits t) as
           | IrActionNotSet \<Rightarrow> False)) \<and>
     (case ite_meter_config e of None \<Rightarrow> True | Some m \<Rightarrow> meter_fits m) \<and>
     ite_counter_data e = None \<and> ite_meter_counter_data e = None"

text \<open>The JSON values of an entry read back as they were printed.\<close>

definition json_survives :: "app_db_env \<Rightarrow> ir_table_entry \<Rightarrow> bool" where
  "json_survives env e \<longleftrightarrow>
     (case key_json e of Inl _ \<Rightarrow> True | Inr j \<Rightarrow> ad_parse env (ad_dump env j) = Some j) \<and>
     (case ite_action e of
        IrActionSet as \<Rightarrow>
          (case map_or IrActionSetInvocationToJsonValue as of
             Inl _ \<Rightarrow> True
           | Inr js \<Rightarrow> ad_parse env (ad_dump env (JArr js)) = Some (JArr js))
      | _ \<Rightarrow> True)"

definition atoi64_reads_back :: "app_db_env \<Rightarrow> bool" where
  "atoi64_reads_back env \<longleftrightarrow>
     (\<forall>n. - (2 ^ 63) \<le> n \<and> n < 2 ^ 63 \<longrightarrow> ad_SimpleAtoi64 env (int_str n) = Some n)"

text \<open>
  Members of JSON objects come back in the order of their names. Only the values of a meter that are not
  zero are written, so a meter configuration that is present but all zero comes back as none.
\<close>

definition written_meter :: "meter_config option \<Rightarrow> meter_config option" where
  "written_meter m =
     (if m = Some \<lparr>mc_cir = 0, mc_cburst = 0, mc_pir = 0, mc_pburst = 0\<rparr> then None else m)"

definition sort_params :: "ir_action_set_invocation \<Rightarrow> ir_action_set_invocation" where
  "sort_params i = i\<lparr>iras_action := (iras_action i)\<lparr>ira_params := sort_key fst (ira_params (iras_action i))\<rparr>\<rparr>"

definition app_db_normal :: "ir_table_entry \<Rightarrow> ir_table_entry" where
  "app_db_normal e = e\<lparr>ite_matches := sort_key irm_name (ite_matches e),
     ite_action := (case ite_action e of IrActionSet as \<Rightarrow> IrActionSet (map sort_params as) | a \<Rightarrow> a),
     ite_meter_config := written_meter (ite_meter_config e)\<rparr>"

section \<open>Lemmas\<close>

lemma IrValueToAppDbString_eq: "v \<noteq> ValueNotSet \<Longrightarrow> IrValueToAppDbString v = Inr (IrValueString v)"
  by (cases v) (simp_all add: IrValueString_def)

lemma value_back: "value_has_format v f \<Longrightarrow> v \<noteq> ValueNotSet \<and> FormattedStringToIrValue (IrValueString v) f = v"
  by (simp add: value_has_format_def)

lemma dec_str_digits: "c \<in> set (dec_str n) \<Longrightarrow> dec_digit c"
proof -
  have "\<forall>c \<in> set (base_str b n). dec_digit c" if "b = 10" for b
    using that
  proof (induction b n rule: base_str.induct)
    case (1 b n)
    have digit: "dec_digit (digit_char d)" if "d < 10" for d
      using that by (auto simp: dec_digit_def digit_char_def Let_def of_char_of)
    show ?case
      using 1 digit by (subst base_str.simps) (auto split: if_splits)
  qed
  then show "c \<in> set (dec_str n) \<Longrightarrow> dec_digit c" by (simp add: dec_str_def)
qed

lemma dec_str_no_char: "\<not> dec_digit c \<Longrightarrow> c \<notin> set (dec_str n)"
  using dec_str_digits by blast

lemma std_stoi_int_str:
  assumes "0 \<le> i" "i < 2 ^ 31"
  shows "std_stoi (int_str i) = Some i"
proof -
  let ?s = "dec_str (nat i)"
  obtain c cs where s: "?s = c # cs" by (cases ?s) (auto simp: dec_str_def)
  have "dec_digit c" using dec_str_digits [of c "nat i"] s by simp
  then have c: "\<not> c_space c" "c \<noteq> CHR ''-''" "c \<noteq> CHR ''+''"
    by (auto simp: dec_digit_def c_space_def Let_def)
  have drop: "dropWhile c_space ?s = ?s" unfolding s using c(1) by simp
  have sign: "take 1 ?s \<noteq> ''-''" "take 1 ?s \<noteq> ''+''" unfolding s using c(2,3) by simp_all
  have digits: "takeWhile dec_digit ?s = ?s" by (auto simp: takeWhile_eq_all_conv dec_str_digits)
  have "parse_base 10 ?s = Some (nat i)" by (simp add: dec_str_def parse_base_str)
  with assms drop sign show ?thesis
    by (simp add: std_stoi_def int_str_def digits)
qed

text \<open>The text of a match, and reading it back.\<close>

definition match_text :: "ir_match_value \<Rightarrow> string" where
  "match_text m =
     (case m of
        IrExact v \<Rightarrow> IrValueString v
      | IrLpm v n \<Rightarrow> IrValueString v @ ''/'' @ int_str n
      | IrTernary v k \<Rightarrow> IrValueString v @ ''&'' @ IrValueString k
      | IrOptional v \<Rightarrow> IrValueString v
      | IrMatchNotSet \<Rightarrow> [])"

definition match_member :: "ir_match \<Rightarrow> string \<times> json" where
  "match_member m = (''match/'' @ irm_name m, JStr (match_text (irm_value m)))"

lemma match_members_fits: "match_fits d (irm_value m) \<Longrightarrow> match_members m = Inr [match_member m]"
  by (cases "irm_value m")
    (auto simp: match_fits_def match_members_def match_member_def match_text_def AddAppDbMatchPrefix_def
      Let_def IrValueToAppDbString_eq dest!: value_back)

lemma AppDbKeyValueStringsToIrMatch_fits:
  assumes "tables_by_name info (map ascii_tolower n) = Some t" "map ascii_tolower (irm_name m) = irm_name m"
    and d: "map_of (itd_match_fields_by_name t) (irm_name m) = Some d" "match_fits d (irm_value m)"
  shows "AppDbKeyValueStringsToIrMatch info n (irm_name m) (match_text (irm_value m)) = Some (Inr m)"
proof -
  have "(case mfd_match_type d of
      EXACT \<Rightarrow> Some (Inr (IrExact (FormattedStringToIrValue (match_text (irm_value m)) (mfd_format d))))
    | LPM \<Rightarrow> AppDbLpmValueToIrLpmMatch (match_text (irm_value m)) (mfd_format d)
    | TERNARY \<Rightarrow> Some (AppDbTernaryValuttoIrTernaryMatch (match_text (irm_value m)) (mfd_format d))
    | OPTIONAL \<Rightarrow> Some (Inr (IrOptional (FormattedStringToIrValue (match_text (irm_value m)) (mfd_format d))))
    | _ \<Rightarrow> Some (Inl INVALID_ARGUMENT)) = Some (Inr (irm_value m))"
  proof (cases "irm_value m")
    case (IrLpm v k)
    with d(2) have "CHR ''/'' \<notin> set (IrValueString v)" "0 \<le> k" "k < 2 ^ 31" by (auto simp: match_fits_def)
    moreover have "CHR ''/'' \<notin> set (int_str k)"
      using \<open>0 \<le> k\<close> dec_str_no_char [of "CHR ''/''" "nat k"] by (simp add: int_str_def dec_digit_def)
    ultimately show ?thesis
      using d(2) IrLpm value_back
      by (simp add: match_fits_def match_text_def AppDbLpmValueToIrLpmMatch_def str_split_two std_stoi_int_str)
  next
    case (IrTernary v k)
    with d(2) value_back show ?thesis
      by (simp add: match_fits_def match_text_def AppDbTernaryValuttoIrTernaryMatch_def str_split_two)
  qed (use d(2) value_back in \<open>auto simp: match_fits_def match_text_def\<close>)
  with assms show ?thesis by (simp add: AppDbKeyValueStringsToIrMatch_def)
qed

text \<open>Objects keep their members in the order of the keys.\<close>

lemma sort_key_wf: "distinct (map fst ms) \<Longrightarrow> bt_wf (sort_key fst ms)" for ms :: "('k::linorder \<times> 'v) list"
  by (simp add: bt_wf_def strict_sorted_iff distinct_map)

lemma fold_assign:
  "bt_wf m \<Longrightarrow> bt_wf (fold (\<lambda>(k, v). bt_assign k v) ms m) \<and>
     map_of (fold (\<lambda>(k, v). bt_assign k v) ms m) = map_of m ++ map_of (rev ms)"
  for m :: "('k::linorder \<times> 'v) list"
  by (induction ms arbitrary: m)
    (auto simp: bt_assign_map_of bt_wf_assign map_add_def fun_eq_iff split: option.splits)

lemma fold_assign_sorted:
  fixes ms :: "('k::linorder \<times> 'v) list"
  assumes "distinct (map fst ms)"
  shows "fold (\<lambda>(k, v). bt_assign k v) ms [] = sort_key fst ms"
proof (rule bt_eqI)
  show "map_of (fold (\<lambda>(k, v). bt_assign k v) ms []) = map_of (sort_key fst ms)"
    using assms fold_assign [of "[]" ms]
    by (simp add: map_of_rev_distinct map_of_inject_set distinct_map)
qed (use assms fold_assign [of "[]" ms] in \<open>auto simp: sort_key_wf\<close>)

lemma json_object_sorted:
  "distinct (map fst ms) \<Longrightarrow> ms \<noteq> [] \<Longrightarrow> json_object ms = JObj (sort_key fst ms)"
  by (simp add: json_object_def fold_assign_sorted)

lemma json_items_object: "distinct (map fst ms) \<Longrightarrow> json_items (json_object ms) = Some (sort_key fst ms)"
  by (cases "ms = []") (simp_all add: json_object_sorted, simp add: json_object_def)

lemma sort_key_eqI:
  fixes xs :: "('k::linorder \<times> 'v) list"
  assumes "distinct (map fst xs)" "set xs = set ys" "sorted_wrt (<) (map fst ys)"
  shows "sort_key fst xs = ys"
proof (rule bt_eqI)
  have "distinct (map fst ys)" using assms(3) by (simp add: strict_sorted_iff)
  with assms(1,2) show "map_of (sort_key fst xs) = map_of ys"
    by (subst map_of_inject_set) (simp_all add: distinct_map)
  show "bt_wf ys" using assms(3) by (simp add: bt_wf_def)
qed (rule sort_key_wf [OF assms(1)])

lemma json_member_object:
  assumes "distinct (map fst ms)"
  shows "json_member k (json_object ms) = map_of ms k"
proof (cases "ms = []")
  case False
  moreover have "map_of (sort_key fst ms) = map_of ms"
    using assms by (subst map_of_inject_set) (simp_all add: distinct_map)
  ultimately show ?thesis using assms by (simp add: json_object_sorted bt_find_def)
qed (simp add: json_object_def)

definition priority_member :: "int \<Rightarrow> (string \<times> json) list" where
  "priority_member p = (if p > 0 then [(''priority'', JNum p)] else [])"

lemma sort_key_members:
  assumes "distinct (map irm_name ms)"
  shows "sort_key fst (priority_member p @ map match_member ms) =
    map match_member (sort_key irm_name ms) @ priority_member p"
proof (rule sort_key_eqI)
  have names: "map fst (map match_member xs) = map ((@) ''match/'') (map irm_name xs)" for xs
    by (simp add: match_member_def)
  have priority: "k \<in> fst ` set (priority_member p) \<Longrightarrow> k = ''priority''" for k
    by (auto simp: priority_member_def split: if_splits)
  have "distinct (map irm_name (sort_key irm_name ms))" using assms by (simp add: distinct_map)
  then have "sorted_wrt (<) (map irm_name (sort_key irm_name ms))" by (simp add: strict_sorted_iff)
  then show "sorted_wrt (<) (map fst (map match_member (sort_key irm_name ms) @ priority_member p))"
    by (auto simp: sorted_wrt_append sorted_wrt_map match_member_def priority_member_def)
  have "distinct (map ((@) ''match/'') (map irm_name ms))" using assms by (simp add: distinct_map inj_on_def)
  then show "distinct (map fst (priority_member p @ map match_member ms))"
    by (auto simp: names priority_member_def match_member_def simp del: map_map)
qed auto

text \<open>Reading the key.\<close>

lemma key_json_fits:
  assumes "\<And>m. m \<in> set (ite_matches e) \<Longrightarrow> \<exists>d. match_fits d (irm_value m)"
  shows "key_json e = Inr (json_object (priority_member (ite_priority e) @ map match_member (ite_matches e)))"
proof -
  have "map_or match_members (ite_matches e) = Inr (map (\<lambda>m. [match_member m]) (ite_matches e))"
    by (rule map_or_all_Inr) (use assms match_members_fits in blast)
  moreover have "concat (map (\<lambda>m. [match_member m]) xs) = map match_member xs" for xs
    by (induction xs) auto
  ultimately show ?thesis by (simp add: key_json_def priority_member_def)
qed

lemma read_match_members:
  assumes t: "tables_by_name info (map ascii_tolower n) = Some t"
    and "\<forall>m \<in> set ms. map ascii_tolower (irm_name m) = irm_name m \<and>
      (\<exists>d. map_of (itd_match_fields_by_name t) (irm_name m) = Some d \<and> match_fits d (irm_value m))"
  shows "fold_outcome (read_key_member info n) (map match_member ms @ rest) e =
    fold_outcome (read_key_member info n) rest (e\<lparr>ite_matches := ite_matches e @ ms\<rparr>)"
  using assms(2)
proof (induction ms arbitrary: e)
  case (Cons m ms)
  then obtain d where d: "map ascii_tolower (irm_name m) = irm_name m"
    "map_of (itd_match_fields_by_name t) (irm_name m) = Some d" "match_fits d (irm_value m)" by auto
  have "read_key_member info n (match_member m) e = Some (Inr (e\<lparr>ite_matches := ite_matches e @ [m]\<rparr>))"
    using AppDbKeyValueStringsToIrMatch_fits [OF t d]
    by (simp add: read_key_member_def match_member_def StripAppDbMatchPrefix_def)
  with Cons show ?case by simp
qed simp

lemma read_priority:
  assumes "0 \<le> p" "p < 2 ^ 31" "ite_priority e = 0"
  shows "fold_outcome (read_key_member info n) (priority_member p) e = Some (Inr (e\<lparr>ite_priority := p\<rparr>))"
  using assms by (cases "p = 0") (simp_all add: priority_member_def read_key_member_def json_int32_def to_int32_id)

lemma ascii_toupper_colon: "ascii_toupper c = CHR '':'' \<longleftrightarrow> c = CHR '':''"
proof (cases "97 \<le> (of_char c :: nat) \<and> (of_char c :: nat) \<le> 122")
  case True
  then have "(of_char (ascii_toupper c) :: nat) = of_char c - 32"
    by (simp add: ascii_toupper_def Let_def) (rule mod_less, linarith)
  with True have "(of_char (ascii_toupper c) :: nat) \<noteq> 58" by auto
  with True show ?thesis by auto
next
  case False
  then show ?thesis by (simp only: ascii_toupper_def Let_def if_False)
qed

lemma GetTableType_range: "GetTableType names t = Inr ty \<Longrightarrow> ty = kAcl \<or> ty = kFixed \<or> ty = kExt"
  by (auto simp: GetTableType_def conditional_kExt_def Let_def split: sum.splits if_split_asm)

lemma type_name_text: "ty = kAcl \<or> ty = kFixed \<or> ty = kExt \<Longrightarrow>
    map ascii_toupper (TypeName names ty) = TypeName names ty \<and> CHR '':'' \<notin> set (TypeName names ty) \<and>
    CHR ''_'' \<notin> set (TypeName names ty) \<and> TypeParse names (TypeName names ty) = Inr ty"
  by (elim disjE) (simp_all add: TypeName_def TypeParse_def ascii_toupper_def)

lemma table_key_text:
  assumes type: "GetTableType names t = Inr ty"
    and "CHR '':'' \<notin> set n" "map ascii_tolower (map ascii_toupper n) = n"
    and key: "key = map ascii_toupper (TypeName names ty @ ''_'' @ n @ '':'') @ json"
  shows "SonicDbKeyToP4TableName names key = Inr n" "SonicDbKeyToAppDbKey key = json"
proof -
  note name = type_name_text [OF GetTableType_range [OF type], of names]
  define y where "y = TypeName names ty"
  have y: "map ascii_toupper y = y" "CHR '':'' \<notin> set y" "CHR ''_'' \<notin> set y" "TypeParse names y = Inr ty"
    using name by (simp_all add: y_def)
  let ?p = "y @ ''_'' @ map ascii_toupper n"
  have key': "key = ?p @ CHR '':'' # json"
    unfolding key y_def [symmetric] map_append y(1) by (simp add: ascii_toupper_def)
  have "CHR '':'' \<notin> ascii_toupper ` set n" using assms(2) ascii_toupper_colon by (metis imageE)
  then have colon: "CHR '':'' \<notin> set ?p" using y(2) by simp
  have rest: "dropWhile (\<lambda>c. c \<noteq> CHR '':'') key = CHR '':'' # json"
    using colon unfolding key' by (subst dropWhile_append2) auto
  then show "SonicDbKeyToAppDbKey key = json"
    by (simp add: SonicDbKeyToAppDbKey_def) (simp add: key')
  have "hd (str_split (CHR '':'') key) = ?p"
    unfolding key' str_split_append [OF colon] by simp
  moreover have "takeWhile (\<lambda>c. c \<noteq> CHR ''_'') ?p = y"
    using y(3) by (subst takeWhile_append2) auto
  moreover have "dropWhile (\<lambda>c. c \<noteq> CHR ''_'') ?p = ''_'' @ map ascii_toupper n"
    using y(3) by (subst dropWhile_append2) auto
  ultimately show "SonicDbKeyToP4TableName names key = Inr n"
    using assms(3) y(4) by (simp add: SonicDbKeyToP4TableName_def)
qed

text \<open>Reading the values.\<close>

definition param_member :: "string \<times> ir_value \<Rightarrow> string \<times> string" where
  "param_member p = (''param/'' @ fst p, IrValueString (snd p))"

lemma invocation_fitsD:
  assumes "invocation_fits t a"
  obtains d where "List.find (\<lambda>d. iad_alias d = ira_name a) (itd_entry_actions t) = Some d"
    "\<forall>p \<in> set (ira_params a). param_fits d p"
  using assms by (auto simp: invocation_fits_def list_all_iff split: option.splits)

lemma param_value_fits: "param_fits d p \<Longrightarrow> param_value p = Inr (param_member p)"
  by (auto simp: param_fits_def param_value_def param_member_def AddAppDbActionParamPrefix_def
      IrValueToAppDbString_eq dest!: value_back split: option.splits)

lemma param_values_fit:
  "\<forall>p \<in> set ps. param_fits d p \<Longrightarrow> map_or param_value ps = Inr (map param_member ps)"
  by (rule map_or_all_Inr) (auto simp: param_value_fits)

lemma read_param:
  assumes "tables_by_name info (map ascii_tolower n) = Some t"
    "List.find (\<lambda>d. iad_alias d = name) (itd_entry_actions t) = Some d" "param_fits d p"
  shows "AppDbNameValueStringsToIrActionParam info n name (''param/'' @ fst p) (IrValueString (snd p)) = Inr p"
  using assms
  by (auto simp: AppDbNameValueStringsToIrActionParam_def StripAppDbActionParamPrefix_def param_fits_def
      dest!: value_back split: option.splits)

lemma read_params:
  assumes "tables_by_name info (map ascii_tolower n) = Some t"
    "List.find (\<lambda>d. iad_alias d = name) (itd_entry_actions t) = Some d" "\<forall>p \<in> set ps. param_fits d p"
  shows "fold_outcome (read_value env info n (Some name)) (map param_member ps @ rest)
      (e\<lparr>ite_action := IrAction \<lparr>ira_name = name, ira_params = qs\<rparr>\<rparr>) =
    fold_outcome (read_value env info n (Some name)) rest
      (e\<lparr>ite_action := IrAction \<lparr>ira_name = name, ira_params = qs @ ps\<rparr>\<rparr>)"
  using assms(3)
proof (induction ps arbitrary: qs)
  case (Cons p ps)
  have "read_value env info n (Some name) (param_member p)
      (e\<lparr>ite_action := IrAction \<lparr>ira_name = name, ira_params = qs\<rparr>\<rparr>) =
    Some (Inr (e\<lparr>ite_action := IrAction \<lparr>ira_name = name, ira_params = qs @ [p]\<rparr>\<rparr>))"
    using read_param [OF assms(1,2), of p] Cons.prems
    by (simp add: read_value_def param_member_def mutable_action_def Let_def)
  with Cons show ?case by simp
qed simp

lemma read_meter:
  assumes "meter_fits m" "atoi64_reads_back env" "ite_meter_config e = None"
  shows "fold_outcome (read_value env info n a) (P4MeterConfigToAppDbValues m @ rest) e =
    fold_outcome (read_value env info n a) rest (e\<lparr>ite_meter_config := written_meter (Some m)\<rparr>)"
proof -
  have atoi: "ad_SimpleAtoi64 env (int_str i) = Some i" if "- (2 ^ 63) \<le> i" "i < 2 ^ 63" for i
    using assms(2) that by (simp add: atoi64_reads_back_def)
  obtain cir cburst pir pburst where m: "m = \<lparr>mc_cir = cir, mc_cburst = cburst, mc_pir = pir, mc_pburst = pburst\<rparr>"
    by (cases m)
  have bounds: "ad_SimpleAtoi64 env (int_str cir) = Some cir" "ad_SimpleAtoi64 env (int_str cburst) = Some cburst"
    "ad_SimpleAtoi64 env (int_str pir) = Some pir" "ad_SimpleAtoi64 env (int_str pburst) = Some pburst"
    using assms(1) by (auto simp: meter_fits_def m intro!: atoi)
  show ?thesis
  proof (cases e)
    case (fields name matches priority act metadata meter counters meter_counters)
    then show ?thesis
      using assms(3) bounds
      by (cases "cir = 0"; cases "cburst = 0"; cases "pir = 0"; cases "pburst = 0")
        (simp_all add: P4MeterConfigToAppDbValues_def m read_value_def AddAppDbMeterDataToIrTableEntry_def
          mutable_meter_config_def written_meter_def Let_def)
  qed
qed

text \<open>Action sets.\<close>

definition param_json :: "string \<times> ir_value \<Rightarrow> string \<times> json" where
  "param_json p = (''param/'' @ fst p, JStr (IrValueString (snd p)))"

definition watch_member :: "ir_action_set_invocation \<Rightarrow> (string \<times> json) list" where
  "watch_member i = (if iras_watch_port i \<noteq> [] then [(''watch_port'', JStr (iras_watch_port i))] else [])"

definition invocation_members :: "ir_action_set_invocation \<Rightarrow> (string \<times> json) list" where
  "invocation_members i =
     [(''action'', JStr (ira_name (iras_action i))), (''weight'', JNum (iras_weight i))] @ watch_member i @
     map param_json (ira_params (iras_action i))"

lemma IrActionSetInvocationToJsonValue_fits:
  "\<forall>p \<in> set (ira_params (iras_action i)). param_fits d p \<Longrightarrow>
   IrActionSetInvocationToJsonValue i = Inr (json_object (invocation_members i))"
  by (simp add: IrActionSetInvocationToJsonValue_def param_values_fit invocation_members_def watch_member_def
      param_member_def param_json_def [abs_def] comp_def)

lemma sort_invocation_members:
  assumes "distinct (map fst (ira_params (iras_action i)))"
  shows "distinct (map fst (invocation_members i))"
    "sort_key fst (invocation_members i) =
      (''action'', JStr (ira_name (iras_action i))) # map param_json (sort_key fst (ira_params (iras_action i))) @
      watch_member i @ [(''weight'', JNum (iras_weight i))]"
proof -
  let ?ps = "ira_params (iras_action i)"
  have watch: "k \<in> fst ` set (watch_member i) \<Longrightarrow> k = ''watch_port''" for k
    by (auto simp: watch_member_def split: if_splits)
  have "distinct (map ((@) ''param/'') (map fst ?ps))" using assms by (simp add: distinct_map inj_on_def)
  then show d: "distinct (map fst (invocation_members i))"
    by (auto simp: invocation_members_def param_json_def watch_member_def comp_def)
  have "distinct (map fst (sort_key fst ?ps))" using assms by (simp add: distinct_map)
  then have "sorted_wrt (<) (map fst (sort_key fst ?ps))" by (simp add: strict_sorted_iff)
  then show "sort_key fst (invocation_members i) =
      (''action'', JStr (ira_name (iras_action i))) # map param_json (sort_key fst ?ps) @
      watch_member i @ [(''weight'', JNum (iras_weight i))]"
    by (intro sort_key_eqI [OF d])
      (auto simp: invocation_members_def sorted_wrt_append sorted_wrt_map param_json_def watch_member_def)
qed

lemma read_set_params:
  assumes "tables_by_name info (map ascii_tolower n) = Some t"
    "List.find (\<lambda>d. iad_alias d = name) (itd_entry_actions t) = Some d" "\<forall>p \<in> set ps. param_fits d p"
  shows "fold_outcome (action_set_member info n name) (map param_json ps @ rest) i =
    fold_outcome (action_set_member info n name) rest
      (i\<lparr>iras_action := (iras_action i)\<lparr>ira_params := ira_params (iras_action i) @ ps\<rparr>\<rparr>)"
  using assms(3)
proof (induction ps arbitrary: i)
  case (Cons p ps)
  have "action_set_member info n name (param_json p) i =
    Some (Inr (i\<lparr>iras_action := (iras_action i)\<lparr>ira_params := ira_params (iras_action i) @ [p]\<rparr>\<rparr>))"
    using read_param [OF assms(1,2), of p] Cons.prems
    by (simp add: action_set_member_def param_json_def)
  with Cons show ?case by simp
qed simp

lemma read_action_set_invocation_fits:
  assumes t: "tables_by_name info (map ascii_tolower n) = Some t" and fits: "set_invocation_fits t i"
  shows "read_action_set_invocation info n (json_object (invocation_members i)) = Some (Inr (sort_params i))"
proof -
  let ?name = "ira_name (iras_action i)" and ?ps = "ira_params (iras_action i)"
  from fits have dist: "distinct (map fst ?ps)" and w: "to_int32 (iras_weight i) = iras_weight i"
    and "invocation_fits t (iras_action i)"
    by (simp_all add: set_invocation_fits_def to_int32_id)
  then obtain d where find: "List.find (\<lambda>d. iad_alias d = ?name) (itd_entry_actions t) = Some d"
    and "\<forall>p \<in> set ?ps. param_fits d p" by (elim invocation_fitsD)
  then have ps: "\<forall>p \<in> set (sort_key fst ?ps). param_fits d p" by simp
  note members = sort_invocation_members [OF dist]
  have "json_member ''action'' (json_object (invocation_members i)) = Some (JStr ?name)"
    "json_member ''weight'' (json_object (invocation_members i)) = Some (JNum (iras_weight i))"
    unfolding json_member_object [OF members(1)] by (simp_all add: invocation_members_def)
  then show ?thesis
    using read_set_params [OF t find ps]
    by (simp add: read_action_set_invocation_def json_items_object [OF members(1)] members(2) json_int32_def w)
      (simp add: action_set_member_def watch_member_def sort_params_def)
qed

lemma read_action_set:
  assumes "tables_by_name info (map ascii_tolower n) = Some t" "list_all (set_invocation_fits t) as"
    "ad_parse env v = Some (JArr (map (\<lambda>i. json_object (invocation_members i)) as))"
  shows "AppDbValueToIrActionSet env info n v = Some (Inr (map sort_params as))"
proof -
  have "fold_outcome (\<lambda>j as. bind_outcome (read_action_set_invocation info n j) (\<lambda>a. Some (Inr (as @ [a]))))
      (map (\<lambda>i. json_object (invocation_members i)) as) bs = Some (Inr (bs @ map sort_params as))" for bs
    using assms(2) by (induction as arbitrary: bs) (simp_all add: read_action_set_invocation_fits [OF assms(1)])
  then show ?thesis using assms(3) by (simp add: AppDbValueToIrActionSet_def)
qed

lemma IrActionSetToAppDbValues_fits:
  assumes "list_all (set_invocation_fits t) as"
  shows "map_or IrActionSetInvocationToJsonValue as = Inr (map (\<lambda>i. json_object (invocation_members i)) as)"
proof (rule map_or_all_Inr)
  fix i assume "i \<in> set as"
  with assms have "invocation_fits t (iras_action i)" by (simp add: list_all_iff set_invocation_fits_def)
  then obtain d where "\<forall>p \<in> set (ira_params (iras_action i)). param_fits d p" by (elim invocation_fitsD)
  then show "IrActionSetInvocationToJsonValue i = Inr (json_object (invocation_members i))"
    by (rule IrActionSetInvocationToJsonValue_fits)
qed

section \<open>The round trip\<close>

text \<open>Reading the values of an entry with an action, after its key.\<close>

definition value_tail :: "ir_table_entry \<Rightarrow> field_values" where
  "value_tail e =
     (case ite_meter_config e of Some m \<Rightarrow> P4MeterConfigToAppDbValues m | None \<Rightarrow> []) @
     (if ite_controller_metadata e \<noteq> [] then [(''controller_metadata'', ite_controller_metadata e)] else [])"

lemma value_tail_fields: "''action'' \<notin> fst ` set (value_tail e)" "''actions'' \<notin> fst ` set (value_tail e)"
proof -
  have "list_all (\<lambda>fv. fst fv \<noteq> ''action'' \<and> fst fv \<noteq> ''actions'') (P4MeterConfigToAppDbValues m)" for m
    by (simp add: P4MeterConfigToAppDbValues_def)
  then have "list_all (\<lambda>fv. fst fv \<noteq> ''action'' \<and> fst fv \<noteq> ''actions'') (value_tail e)"
    by (cases "ite_meter_config e") (simp_all add: value_tail_def)
  then show "''action'' \<notin> fst ` set (value_tail e)" "''actions'' \<notin> fst ` set (value_tail e)"
    by (auto simp: list_all_iff dest: bspec)
qed

lemma read_tail:
  assumes "case ite_meter_config e of None \<Rightarrow> True | Some m \<Rightarrow> meter_fits m" "atoi64_reads_back env"
    "ite_meter_config f = None" "ite_controller_metadata f = []"
  shows "fold_outcome (read_value env info n a) (value_tail e) f =
    Some (Inr (f\<lparr>ite_meter_config := written_meter (ite_meter_config e),
      ite_controller_metadata := ite_controller_metadata e\<rparr>))"
proof -
  let ?metadata = "if ite_controller_metadata e \<noteq> [] then [(''controller_metadata'', ite_controller_metadata e)] else []"
  have metadata: "ite_controller_metadata g = [] \<Longrightarrow> fold_outcome (read_value env info n a) ?metadata g =
    Some (Inr (g\<lparr>ite_controller_metadata := ite_controller_metadata e\<rparr>))" for g
    by (simp add: read_value_def)
  show ?thesis
  proof (cases "ite_meter_config e")
    case None
    with metadata [of f] assms(3,4) show ?thesis by (simp add: value_tail_def written_meter_def)
  next
    case (Some m)
    with assms have "meter_fits m" by simp
    from read_meter [OF this assms(2,3)] metadata [of "f\<lparr>ite_meter_config := written_meter (Some m)\<rparr>"] assms(4) Some
    show ?thesis by (simp add: value_tail_def)
  qed
qed

text \<open>What an entry that fits its table has.\<close>

lemma entry_fitsD:
  assumes "entry_fits info e"
  obtains t where "tables_by_name info (ite_table_name e) = Some t"
    "map ascii_tolower (map ascii_toupper (ite_table_name e)) = ite_table_name e"
    "map ascii_tolower (ite_table_name e) = ite_table_name e" "CHR '':'' \<notin> set (ite_table_name e)"
    "distinct (map irm_name (ite_matches e))"
    "\<forall>m \<in> set (ite_matches e). map ascii_tolower (irm_name m) = irm_name m \<and>
      (\<exists>d. map_of (itd_match_fields_by_name t) (irm_name m) = Some d \<and> match_fits d (irm_value m))"
    "0 \<le> ite_priority e" "ite_priority e < 2 ^ 31"
    "case ite_action e of IrAction a \<Rightarrow> invocation_fits t a | IrActionSet as \<Rightarrow> list_all (set_invocation_fits t) as
      | IrActionNotSet \<Rightarrow> False"
    "case ite_meter_config e of None \<Rightarrow> True | Some m \<Rightarrow> meter_fits m"
    "ite_counter_data e = None" "ite_meter_counter_data e = None"
proof -
  from assms obtain t where t: "tables_by_name info (ite_table_name e) = Some t"
    by (auto simp: entry_fits_def split: option.split_asm)
  show thesis
    by (rule that [OF t]) (use assms t in \<open>auto simp: entry_fits_def list_all_iff split: option.split_asm\<close>)
qed

text \<open>The key of an entry gives its matches and priority back.\<close>

lemma key_reads_back:
  assumes fits: "entry_fits info e" and json: "json_survives env e"
    and key: "GetRedisP4rtTableKey env e info = Inr key"
  shows "SonicDbKeyToP4TableName (ad_names env) key = Inr (ite_table_name e) \<and>
    AppDbKeyToIrTableEntry env info (ite_table_name e) (SonicDbKeyToAppDbKey key) =
      Some (Inr (default_ir_table_entry\<lparr>ite_table_name := ite_table_name e,
        ite_matches := sort_key irm_name (ite_matches e), ite_priority := ite_priority e\<rparr>))"
proof -
  let ?n = "ite_table_name e" and ?ms = "ite_matches e" and ?p = "ite_priority e"
  from fits obtain t where t: "tables_by_name info ?n = Some t"
    and n: "map ascii_tolower (map ascii_toupper ?n) = ?n" "map ascii_tolower ?n = ?n" "CHR '':'' \<notin> set ?n"
    and ms: "distinct (map irm_name ?ms)"
      "\<forall>m \<in> set ?ms. map ascii_tolower (irm_name m) = irm_name m \<and>
        (\<exists>d. map_of (itd_match_fields_by_name t) (irm_name m) = Some d \<and> match_fits d (irm_value m))"
    and p: "0 \<le> ?p" "?p < 2 ^ 31"
    by (rule entry_fitsD)
  let ?members = "priority_member ?p @ map match_member ?ms"
  from ms(2) have kj: "key_json e = Inr (json_object ?members)" by (intro key_json_fits) blast
  with key t obtain ty where ty: "GetTableType (ad_names env) t = Inr ty"
    and shape: "key = map ascii_toupper (TypeName (ad_names env) ty @ ''_'' @ ?n @ '':'') @ ad_dump env (json_object ?members)"
    by (auto simp: GetRedisP4rtTableKey_def IrTableEntryToAppDbKey_def)
  from json kj have parse: "ad_parse env (ad_dump env (json_object ?members)) = Some (json_object ?members)"
    by (simp add: json_survives_def)
  have "distinct (map ((@) ''match/'') (map irm_name ?ms))" using ms(1) by (simp add: distinct_map inj_on_def)
  then have "distinct (map fst ?members)"
    by (auto simp: priority_member_def match_member_def comp_def)
  from json_items_object [OF this] have items: "json_items (json_object ?members) =
      Some (map match_member (sort_key irm_name ?ms) @ priority_member ?p)"
    by (simp only: sort_key_members [OF ms(1)])
  have "fold_outcome (read_key_member info ?n) (map match_member (sort_key irm_name ?ms) @ priority_member ?p)
      (default_ir_table_entry\<lparr>ite_table_name := ?n\<rparr>) =
    fold_outcome (read_key_member info ?n) (priority_member ?p)
      (default_ir_table_entry\<lparr>ite_table_name := ?n, ite_matches := sort_key irm_name ?ms\<rparr>)"
    using read_match_members [of info ?n t "sort_key irm_name ?ms"] t n(2) ms(2)
    by (simp add: default_ir_table_entry_def)
  then have "AppDbKeyToIrTableEntry env info ?n (ad_dump env (json_object ?members)) =
      Some (Inr (default_ir_table_entry\<lparr>ite_table_name := ?n, ite_matches := sort_key irm_name ?ms,
        ite_priority := ?p\<rparr>))"
    using read_priority [OF p] by (simp add: AppDbKeyToIrTableEntry_def parse items default_ir_table_entry_def)
  with table_key_text [OF ty n(3,1) shape] show ?thesis by simp
qed

lemma last_wins_first: "k \<notin> fst ` set xs \<Longrightarrow> last_wins ((k, v) # xs) k = Some v"
  by (simp add: last_wins_eq map_add_Some_iff map_of_eq_None_iff image_iff)

lemma last_wins_missing: "k \<notin> fst ` set xs \<Longrightarrow> last_wins xs k = None"
  by (simp add: last_wins_eq map_of_eq_None_iff)

text \<open>The values of an entry give the action and the rest back.\<close>

lemma values_read_back:
  assumes fits: "entry_fits info e" and json: "json_survives env e" and atoi: "atoi64_reads_back env"
    and f: "ite_action f = IrActionNotSet" "ite_meter_config f = None" "ite_controller_metadata f = []"
  shows "\<exists>vs. IrTableEntryToAppDbValues env e = Inr vs \<and>
    \<not> (''action'' \<in> fst ` set vs \<and> ''actions'' \<in> fst ` set vs) \<and>
    fold_outcome (read_value env info (ite_table_name e) (last_wins vs ''action'')) vs f =
      Some (Inr (f\<lparr>ite_action := ite_action (app_db_normal e), ite_meter_config := written_meter (ite_meter_config e),
        ite_controller_metadata := ite_controller_metadata e\<rparr>))"
proof -
  let ?n = "ite_table_name e"
  from fits obtain t where t: "tables_by_name info (map ascii_tolower ?n) = Some t"
    and act: "case ite_action e of IrAction a \<Rightarrow> invocation_fits t a
      | IrActionSet as \<Rightarrow> list_all (set_invocation_fits t) as | IrActionNotSet \<Rightarrow> False"
    and meter: "case ite_meter_config e of None \<Rightarrow> True | Some m \<Rightarrow> meter_fits m"
    by (rule entry_fitsD) simp
  note no_tail = value_tail_fields [of e]
  show ?thesis
  proof (cases "ite_action e")
    case (IrAction a)
    with act have "invocation_fits t a" by simp
    then obtain d where find: "List.find (\<lambda>d. iad_alias d = ira_name a) (itd_entry_actions t) = Some d"
      and ps: "\<forall>p \<in> set (ira_params a). param_fits d p" by (rule invocation_fitsD)
    let ?vs = "(''action'', ira_name a) # map param_member (ira_params a) @ value_tail e"
    have vs: "IrTableEntryToAppDbValues env e = Inr ?vs"
      using param_values_fit [OF ps]
      by (simp add: IrTableEntryToAppDbValues_def IrAction IrActionInvocationToAppDbValues_def value_tail_def)
    have name: "last_wins ?vs ''action'' = Some (ira_name a)"
      by (rule last_wins_first) (use no_tail in \<open>auto simp: param_member_def\<close>)
    have "fold_outcome (read_value env info ?n (Some (ira_name a))) ?vs f =
      fold_outcome (read_value env info ?n (Some (ira_name a))) (value_tail e) (f\<lparr>ite_action := IrAction a\<rparr>)"
      using read_params [OF t find ps, where qs = "[]" and rest = "value_tail e" and e = f and env = env] f(1)
      by (cases a) (simp add: read_value_def mutable_action_def)
    also have "\<dots> = Some (Inr (f\<lparr>ite_action := IrAction a, ite_meter_config := written_meter (ite_meter_config e),
        ite_controller_metadata := ite_controller_metadata e\<rparr>))"
      using read_tail [OF meter atoi, of "f\<lparr>ite_action := IrAction a\<rparr>"] f by simp
    finally show ?thesis
      using vs name no_tail by (intro exI [of _ ?vs]) (auto simp: app_db_normal_def IrAction param_member_def)
  next
    case (IrActionSet as)
    with act have fit: "list_all (set_invocation_fits t) as" by simp
    let ?j = "JArr (map (\<lambda>i. json_object (invocation_members i)) as)"
    let ?vs = "(''actions'', ad_dump env ?j) # value_tail e"
    have vs: "IrTableEntryToAppDbValues env e = Inr ?vs"
      using IrActionSetToAppDbValues_fits [OF fit]
      by (simp add: IrTableEntryToAppDbValues_def IrActionSet IrActionSetToAppDbValues_def value_tail_def)
    have name: "last_wins ?vs ''action'' = None" by (rule last_wins_missing) (use no_tail in simp)
    from json have "ad_parse env (ad_dump env ?j) = Some ?j"
      using IrActionSetToAppDbValues_fits [OF fit] by (simp add: json_survives_def IrActionSet)
    from read_action_set [OF t fit this]
    have "fold_outcome (read_value env info ?n None) ?vs f =
      fold_outcome (read_value env info ?n None) (value_tail e) (f\<lparr>ite_action := IrActionSet (map sort_params as)\<rparr>)"
      by (simp add: read_value_def)
    also have "\<dots> = Some (Inr (f\<lparr>ite_action := IrActionSet (map sort_params as), ite_meter_config := written_meter (ite_meter_config e),
        ite_controller_metadata := ite_controller_metadata e\<rparr>))"
      using read_tail [OF meter atoi, of "f\<lparr>ite_action := IrActionSet (map sort_params as)\<rparr>"] f by simp
    finally show ?thesis
      using vs name no_tail by (intro exI [of _ ?vs]) (auto simp: app_db_normal_def IrActionSet)
  qed (use act in simp)
qed

section \<open>Property\<close>

text \<open>
  C19. An entry survives the database: when a table entry with an action that fits its table is written,
  reading its key and values back gives the same entry, up to two things. The matches and the parameters in an
  action set come back sorted by name, as JSON objects keep them; and a meter configuration that is
  present but all zero comes back as none, because only values other than zero are written. Fitting
  the table means that the names are those of the definitions and in lower case, that values have the formats of
  the definitions and numbers the range of their fields, that the separators of the text are not in the values, and that the entry
  carries no counters. The JSON library and \<open>SimpleAtoi\<close> read back what is printed for the entry.
\<close>

theorem app_db_round_trip:
  assumes "entry_fits info e" "json_survives env e" "atoi64_reads_back env"
    and "GetRedisP4rtTableKey env e info = Inr key"
  shows "\<exists>vs. IrTableEntryToAppDbValues env e = Inr vs \<and>
    AppDbKeyAndValuesToIrTableEntry env info key vs = Some (Inr (app_db_normal e))"
proof -
  let ?f = "default_ir_table_entry\<lparr>ite_table_name := ite_table_name e,
    ite_matches := sort_key irm_name (ite_matches e), ite_priority := ite_priority e\<rparr>"
  note key = key_reads_back [OF assms(1,2,4)]
  have "ite_counter_data e = None" "ite_meter_counter_data e = None"
    using assms(1) by (auto elim: entry_fitsD)
  then have normal: "?f\<lparr>ite_action := ite_action (app_db_normal e), ite_meter_config := written_meter (ite_meter_config e),
      ite_controller_metadata := ite_controller_metadata e\<rparr> = app_db_normal e"
    by (cases e) (simp add: app_db_normal_def default_ir_table_entry_def)
  from values_read_back [OF assms(1-3), of ?f] obtain vs where
    "IrTableEntryToAppDbValues env e = Inr vs" "\<not> (''action'' \<in> fst ` set vs \<and> ''actions'' \<in> fst ` set vs)"
    "fold_outcome (read_value env info (ite_table_name e) (last_wins vs ''action'')) vs ?f =
      Some (Inr (app_db_normal e))"
    unfolding normal by (auto simp: default_ir_table_entry_def)
  with key show ?thesis
    by (intro exI [of _ vs]) (simp add: AppDbKeyAndValuesToIrTableEntry_def)
qed

text \<open>
  An entry with two matches and an action set, whose JSON values are printed as the letters \<open>k\<close> and \<open>a\<close>.
\<close>

definition example_atoi64 :: "string \<Rightarrow> int option" where
  "example_atoi64 s =
     (if take 1 s = ''-'' then map_option (\<lambda>n. - int n) (parse_base 10 (drop 1 s))
      else map_option int (parse_base 10 s))"

definition example_route_table :: ir_table_definition where
  "example_route_table = example_acl_table\<lparr>itd_alias := ''route'', itd_annotations := [],
     itd_match_fields_by_name :=
       [(''vrf'', (element_match_field 0 STRING)\<lparr>mfd_match_type := EXACT\<rparr>),
        (''dst'', (element_match_field 32 IPV4)\<lparr>mfd_match_type := LPM\<rparr>)],
     itd_entry_actions := [example_acl_action\<lparr>iad_params_by_name :=
       map (\<lambda>n. (n, \<lparr>ipd_id = 1, ipd_name = n, ipd_annotations = [], ipd_bitwidth = 8, ipd_type_name = [],
         ipd_format = HEX_STRING, ipd_references = []\<rparr>)) [''tc'', ''qos'']\<rparr>]\<rparr>"

definition example_route_info :: ir_p4info where
  "example_route_info = (example_hash_info [])\<lparr>tables_by_name_entries := [(''route'', example_route_table)]\<rparr>"

definition example_route :: ir_table_entry where
  "example_route = default_ir_table_entry\<lparr>ite_table_name := ''route'',
     ite_matches := [\<lparr>irm_name = ''vrf'', irm_value = IrExact (Str ''v'')\<rparr>,
                     \<lparr>irm_name = ''dst'', irm_value = IrLpm (Ipv4 ''10.0.0.0'') 8\<rparr>],
     ite_priority := 3,
     ite_action := IrActionSet [\<lparr>iras_action = \<lparr>ira_name = ''copy'',
       ira_params = [(''tc'', HexStr ''0x1''), (''qos'', HexStr ''0x2'')]\<rparr>, iras_weight = 2, iras_watch_port = ''p''\<rparr>],
     ite_controller_metadata := ''m''\<rparr>"

definition example_route_key :: json where
  "example_route_key = JObj [(''match/dst'', JStr ''10.0.0.0/8''), (''match/vrf'', JStr ''v''), (''priority'', JNum 3)]"

definition example_route_actions :: json where
  "example_route_actions = JArr [JObj [(''action'', JStr ''copy''), (''param/qos'', JStr ''0x2''),
     (''param/tc'', JStr ''0x1''), (''watch_port'', JStr ''p''), (''weight'', JNum 2)]]"

definition example_app_db_env :: app_db_env where
  "example_app_db_env =
     \<lparr>ad_dump = (\<lambda>j. case j of JArr _ \<Rightarrow> ''a'' | _ \<Rightarrow> ''k''),
      ad_parse = (\<lambda>s. if s = ''k'' then Some example_route_key
                      else if s = ''a'' then Some example_route_actions else None),
      ad_SimpleAtoi64 = example_atoi64, ad_names = ae_names example_acl_env\<rparr>"

lemma example_atoi64_reads_back: "example_atoi64 (int_str n) = Some n"
proof (cases "n < 0")
  case True
  then show ?thesis by (simp add: example_atoi64_def int_str_def dec_str_def parse_base_str)
next
  case False
  obtain c cs where s: "dec_str (nat n) = c # cs" by (cases "dec_str (nat n)") (auto simp: dec_str_def)
  with dec_str_digits [of c "nat n"] have "c \<noteq> CHR ''-''" by (auto simp: dec_digit_def Let_def)
  then have "take 1 (dec_str (nat n)) \<noteq> ''-''" by (simp add: s)
  moreover have "parse_base 10 (dec_str (nat n)) = Some (nat n)" by (simp add: dec_str_def parse_base_str)
  ultimately show ?thesis using False by (simp add: example_atoi64_def int_str_def)
qed

lemma example_route_written:
  "GetRedisP4rtTableKey example_app_db_env example_route example_route_info = Inr ''FIXED_ROUTE:k''"
proof -
  have "GetAnnotationBody ''sai_acl'' [] = Inl NOT_FOUND"
    by (simp add: GetAnnotationBody_def GetParsedAnnotation_def)
  then have "GetTableType (ad_names example_app_db_env) example_route_table = Inr kFixed"
    by (simp add: GetTableType_def Let_def conditional_kExt_def example_app_db_env_def example_acl_env_def
        example_route_table_def example_acl_table_def)
  moreover have "tables_by_name example_route_info (ite_table_name example_route) = Some example_route_table"
    by (simp add: tables_by_name_def example_route_info_def example_route_def)
  moreover have "IrTableEntryToAppDbKey example_app_db_env example_route = Inr ''k''" by code_simp
  moreover have "map ascii_toupper (''FIXED'' @ ''_'' @ ite_table_name example_route @ '':'') = ''FIXED_ROUTE:''"
    by code_simp
  ultimately show ?thesis by (simp add: GetRedisP4rtTableKey_def TypeName_def del: map_append append.simps)
qed

theorem app_db_round_trip_witness:
  "(\<exists>vs. IrTableEntryToAppDbValues example_app_db_env example_route = Inr vs \<and>
      AppDbKeyAndValuesToIrTableEntry example_app_db_env example_route_info ''FIXED_ROUTE:k'' vs =
        Some (Inr (app_db_normal example_route))) \<and>
   map irm_name (ite_matches (app_db_normal example_route)) = [''dst'', ''vrf'']"
proof
  have "entry_fits example_route_info example_route" by code_simp
  moreover have "json_survives example_app_db_env example_route" by code_simp
  moreover have "atoi64_reads_back example_app_db_env"
    by (simp add: atoi64_reads_back_def example_app_db_env_def example_atoi64_reads_back)
  moreover have "GetRedisP4rtTableKey example_app_db_env example_route example_route_info = Inr ''FIXED_ROUTE:k''"
    by (rule example_route_written)
  ultimately show "\<exists>vs. IrTableEntryToAppDbValues example_app_db_env example_route = Inr vs \<and>
      AppDbKeyAndValuesToIrTableEntry example_app_db_env example_route_info ''FIXED_ROUTE:k'' vs =
        Some (Inr (app_db_normal example_route))"
    by (rule app_db_round_trip)
qed code_simp

end
