(* ===== verification/Replication_Entries.thy ===== *)
theory Replication_Entries
  imports App_Db_Translation
begin

text \<open>
  Packet replication entries in the application database
  (\<open>p4rt_app/sonic/packet_replication_entry_translation.cc\<close> and \<open>IrMulticastGroupEntryToAppDbKey\<close> of
  \<open>app_db_to_pdpi_ir_translator.cc\<close>): a multicast group is a row whose replicas and backup replicas are
  JSON arrays; reading all rows back; comparing them with the cache. The name of the table is a macro of
  \<open>swss-common\<close> and a parameter, as are the JSON text and \<open>absl::SimpleHexAtoi\<close>.
\<close>

section \<open>Writing\<close>

record replication_env =
  re_json :: app_db_env
  re_table_name :: string
  re_SimpleHexAtoi :: "string \<Rightarrow> nat option"

text \<open>\<open>absl::Hex\<close> with \<open>kZeroPad4\<close>.\<close>

definition hex4 :: "nat \<Rightarrow> string" where
  "hex4 n = (let digits = base_str 16 n in replicate (4 - length digits) CHR ''0'' @ digits)"

definition hex_number :: "nat \<Rightarrow> string" where
  "hex_number n = ''0x'' @ hex4 n"

text \<open>\<open>entry.multicast_group_entry()\<close>, the default message where another type is set.\<close>

definition multicast_group_entry :: "ir_packet_replication_engine_entry \<Rightarrow> nat \<times> ir_replica list \<times> string" where
  "multicast_group_entry e = (case e of IrMulticastGroupEntry i rs m \<Rightarrow> (i, rs, m) | _ \<Rightarrow> (0, [], []))"

definition IrMulticastGroupEntryToAppDbKey :: "nat \<Rightarrow> string" where
  "IrMulticastGroupEntryToAppDbKey group_id = hex_number group_id"

definition TablePrefix :: "replication_env \<Rightarrow> string" where
  "TablePrefix env = re_table_name env @ '':''"

definition StripTableName :: "replication_env \<Rightarrow> string \<Rightarrow> string status_or" where
  "StripTableName env app_db_key =
     (if starts_with app_db_key (TablePrefix env) then Inr (drop (length (TablePrefix env)) app_db_key)
      else Inl INVALID_ARGUMENT)"

definition GetRedisPacketReplicationTableKey :: "replication_env \<Rightarrow> ir_packet_replication_engine_entry \<Rightarrow> string" where
  "GetRedisPacketReplicationTableKey env e =
     TablePrefix env @ IrMulticastGroupEntryToAppDbKey (fst (multicast_group_entry e))"

definition replica_json :: "string \<times> nat \<Rightarrow> json" where
  "replica_json r = json_object
     [(''multicast_replica_port'', JStr (fst r)), (''multicast_replica_instance'', JStr (hex_number (snd r)))]"

definition replicas_json :: "ir_replica list \<Rightarrow> json" where
  "replicas_json rs = JArr (map (\<lambda>r. replica_json (irr_port r, irr_instance r)) rs)"

definition backups_json :: "ir_replica list \<Rightarrow> json" where
  "backups_json rs = JArr (map (\<lambda>r. JArr (map replica_json (irr_backups r))) rs)"

definition CreateFieldValues :: "replication_env \<Rightarrow> ir_packet_replication_engine_entry \<Rightarrow> field_values" where
  "CreateFieldValues env e =
     (case multicast_group_entry e of
        (_, rs, metadata) \<Rightarrow>
          [(''replicas'', ad_dump (re_json env) (replicas_json rs))] @
          (if sum_list (map (\<lambda>r. length (irr_backups r)) rs) > 0
           then [(''backups'', ad_dump (re_json env) (backups_json rs))] else []) @
          (if metadata \<noteq> [] then [(''controller_metadata'', metadata)] else []))"

definition CreateAppDbPacketReplicationTableUpdate ::
  "replication_env \<Rightarrow> update_type \<Rightarrow> ir_packet_replication_engine_entry \<Rightarrow> key_op_fields_values status_or" where
  "CreateAppDbPacketReplicationTableUpdate env update_type e =
     (let key = GetRedisPacketReplicationTableKey env e
      in case update_type of
           INSERT \<Rightarrow> Inr \<lparr>kfvKey = key, kfvOp = SET_COMMAND, kfvFieldsValues = CreateFieldValues env e\<rparr>
         | MODIFY \<Rightarrow> Inr \<lparr>kfvKey = key, kfvOp = SET_COMMAND, kfvFieldsValues = CreateFieldValues env e\<rparr>
         | DELETE \<Rightarrow> Inr \<lparr>kfvKey = key, kfvOp = DEL_COMMAND, kfvFieldsValues = []\<rparr>
         | UPDATE_UNSPECIFIED \<Rightarrow> Inl INVALID_ARGUMENT)"

text \<open>The translators of the write path, all of them defined.\<close>

definition sonic_translators :: "replication_env \<Rightarrow> ir_p4info \<Rightarrow> app_db_translators" where
  "sonic_translators env info =
     app_db_translators_of (re_json env) info (re_SimpleHexAtoi env) (CreateAppDbPacketReplicationTableUpdate env)"

section \<open>Reading\<close>

text \<open>What is read of a table: its keys and the fields under a key.\<close>

record table_reader =
  tb_keys :: "string list"
  tb_get :: "string \<Rightarrow> field_values"

definition GetAllPacketReplicationTableEntryKeys :: "replication_env \<Rightarrow> table_reader \<Rightarrow> string list" where
  "GetAllPacketReplicationTableEntryKeys env app_db =
     filter (\<lambda>key. starts_with key (TablePrefix env)) (tb_keys app_db)"

definition ParseJson :: "replication_env \<Rightarrow> string \<Rightarrow> json status_or" where
  "ParseJson env json_string =
     (case ad_parse (re_json env) json_string of None \<Rightarrow> Inl INTERNAL | Some j \<Rightarrow> Inr j)"

text \<open>A member that is not a string makes \<open>get\<close> throw, which nothing catches here.\<close>

definition ParseJsonReplica :: "replication_env \<Rightarrow> json \<Rightarrow> (string \<times> nat) outcome" where
  "ParseJsonReplica env json_replica =
     (case json_member ''multicast_replica_port'' json_replica of
        None \<Rightarrow> Some (Inl INVALID_ARGUMENT)
      | Some p \<Rightarrow> bind_outcome (thrown (json_str p)) (\<lambda>port_name.
          case json_member ''multicast_replica_instance'' json_replica of
            None \<Rightarrow> Some (Inl INVALID_ARGUMENT)
          | Some i \<Rightarrow> bind_outcome (thrown (json_str i)) (\<lambda>inst.
              Some (case re_SimpleHexAtoi env inst of
                None \<Rightarrow> Inl INVALID_ARGUMENT | Some n \<Rightarrow> Inr (port_name, n)))))"

definition read_json_replicas :: "replication_env \<Rightarrow> json \<Rightarrow> (string \<times> nat) list outcome" where
  "read_json_replicas env j =
     fold_outcome (\<lambda>r rs. bind_outcome (ParseJsonReplica env r) (\<lambda>p. Some (Inr (rs @ [p])))) (json_elements j) []"

record group_rows =
  gr_replicas :: "(string \<times> nat) list"
  gr_backups :: "(string \<times> nat) list list"
  gr_metadata :: string

definition read_group_field :: "replication_env \<Rightarrow> string \<times> string \<Rightarrow> group_rows \<Rightarrow> group_rows outcome" where
  "read_group_field env fv g =
     (if fst fv = ''replicas''
      then bind_outcome (Some (ParseJson env (snd fv))) (\<lambda>j.
           bind_outcome (read_json_replicas env j) (\<lambda>rs.
             Some (Inr (g\<lparr>gr_replicas := gr_replicas g @ rs\<rparr>))))
      else if fst fv = ''backups''
      then bind_outcome (Some (ParseJson env (snd fv))) (\<lambda>j.
           bind_outcome (fold_outcome (\<lambda>b bs. bind_outcome (read_json_replicas env b) (\<lambda>rs. Some (Inr (bs @ [rs]))))
                           (json_elements j) []) (\<lambda>bs.
             Some (Inr (g\<lparr>gr_backups := gr_backups g @ bs\<rparr>))))
      else if fst fv = ''controller_metadata'' then Some (Inr (g\<lparr>gr_metadata := snd fv\<rparr>))
      else Some (Inr g))"

text \<open>The backups of the \<open>i\<close>th element are added to the \<open>i\<close>th replica.\<close>

definition build_replicas :: "group_rows \<Rightarrow> ir_replica list" where
  "build_replicas g =
     (if gr_backups g = []
      then map (\<lambda>(port, i). \<lparr>irr_port = port, irr_instance = i, irr_backups = []\<rparr>) (gr_replicas g)
      else map2 (\<lambda>(port, i) bs. \<lparr>irr_port = port, irr_instance = i, irr_backups = bs\<rparr>) (gr_replicas g) (gr_backups g))"

definition read_group ::
  "replication_env \<Rightarrow> table_reader \<Rightarrow> string \<Rightarrow> ir_packet_replication_engine_entry outcome" where
  "read_group env app_db key =
     bind_outcome (Some (StripTableName env key)) (\<lambda>multicast_group_id.
       case re_SimpleHexAtoi env multicast_group_id of
         None \<Rightarrow> Some (Inl INVALID_ARGUMENT)
       | Some group_id \<Rightarrow>
           bind_outcome (fold_outcome (read_group_field env) (tb_get app_db key)
                           \<lparr>gr_replicas = [], gr_backups = [], gr_metadata = []\<rparr>) (\<lambda>g.
             Some (if gr_backups g \<noteq> [] \<and> length (gr_replicas g) \<noteq> length (gr_backups g) then Inl INVALID_ARGUMENT
                   else Inr (IrMulticastGroupEntry group_id (build_replicas g) (gr_metadata g)))))"

definition GetAllAppDbPacketReplicationTableEntries ::
  "replication_env \<Rightarrow> table_reader \<Rightarrow> ir_packet_replication_engine_entry list outcome" where
  "GetAllAppDbPacketReplicationTableEntries env app_db =
     fold_outcome (\<lambda>key pre_entries. bind_outcome (read_group env app_db key) (\<lambda>e. Some (Inr (pre_entries @ [e]))))
       (GetAllPacketReplicationTableEntryKeys env app_db) []"

section \<open>Comparing with the cache\<close>

definition group_of :: "ir_entity \<Rightarrow> nat \<times> ir_replica list \<times> string" where
  "group_of entity =
     (case entity of IrPacketReplicationEngineEntry e \<Rightarrow> multicast_group_entry e | _ \<Rightarrow> (0, [], []))"

definition port_instances :: "ir_replica list \<Rightarrow> string list" where
  "port_instances rs = fold (\<lambda>r s. insort_insert (irr_port r @ ''_'' @ dec_str (irr_instance r)) s) rs []"

text \<open>\<open>std::set_difference\<close> of two sorted ranges without repetitions.\<close>

definition sorted_difference :: "string list \<Rightarrow> string list \<Rightarrow> string list" where
  "sorted_difference xs ys = filter (\<lambda>x. x \<notin> set ys) xs"

definition ComparePacketReplicationEntities ::
  "nat \<times> ir_replica list \<times> string \<Rightarrow> nat \<times> ir_replica list \<times> string \<Rightarrow> string list" where
  "ComparePacketReplicationEntities app_db cache =
     (case (app_db, cache) of
        ((group_id, rs_app_db, metadata_app_db), (_, rs_cache, metadata_cache)) \<Rightarrow>
          (if metadata_app_db \<noteq> metadata_cache
           then [''Packet replication metadata mismatch '' @ [CHR 0x27] @ metadata_app_db @ [CHR 0x27] @ '' vs. '' @
                 [CHR 0x27] @ metadata_cache @ [CHR 0x27]] else []) @
          map (\<lambda>d. ''Packet replication cache is missing replica '' @ d @ '' for group id '' @ dec_str group_id)
            (sorted_difference (port_instances rs_app_db) (port_instances rs_cache)) @
          map (\<lambda>d. ''APP DB is missing replica '' @ d @ '' for group id '' @ dec_str group_id)
            (sorted_difference (port_instances rs_cache) (port_instances rs_app_db)))"

definition groups_by_id :: "ir_entity list \<Rightarrow> (nat, nat \<times> ir_replica list \<times> string) bt_map" where
  "groups_by_id entities = fold (\<lambda>e m. bt_assign (fst (group_of e)) (group_of e) m) entities []"

definition ComparePacketReplicationTableEntries :: "ir_entity list \<Rightarrow> ir_entity list \<Rightarrow> string list" where
  "ComparePacketReplicationTableEntries entries_app_db entries_cache =
     (let map_app_db = groups_by_id entries_app_db; map_cache = groups_by_id entries_cache
      in concat (map (\<lambda>(group_id, entry).
           case bt_find group_id map_cache of
             None \<Rightarrow> [''Packet replication cache is missing multicast group ID '' @ dec_str group_id]
           | Some cached \<Rightarrow> ComparePacketReplicationEntities entry cached) map_app_db) @
         concat (map (\<lambda>(group_id, _).
           case bt_find group_id map_app_db of
             None \<Rightarrow> [''APP DB is missing multicast group ID '' @ dec_str group_id]
           | Some _ \<Rightarrow> []) map_cache))"

section \<open>Lemmas\<close>

text \<open>A multicast group whose numbers are 32 bits wide and whose JSON values read back as they were printed.\<close>

definition group_fits :: "replication_env \<Rightarrow> ir_packet_replication_engine_entry \<Rightarrow> bool" where
  "group_fits env e \<longleftrightarrow>
     (case e of
        IrMulticastGroupEntry group_id rs _ \<Rightarrow>
          group_id < 2 ^ 32 \<and>
          list_all (\<lambda>r. irr_instance r < 2 ^ 32 \<and> list_all (\<lambda>b. snd b < 2 ^ 32) (irr_backups r)) rs \<and>
          ad_parse (re_json env) (ad_dump (re_json env) (replicas_json rs)) = Some (replicas_json rs) \<and>
          ad_parse (re_json env) (ad_dump (re_json env) (backups_json rs)) = Some (backups_json rs)
      | _ \<Rightarrow> False)"

definition hex_reads_back :: "replication_env \<Rightarrow> bool" where
  "hex_reads_back env \<longleftrightarrow> (\<forall>n < 2 ^ 32. re_SimpleHexAtoi env (hex_number n) = Some n)"

lemma ParseJsonReplica_json:
  assumes "hex_reads_back env" "snd r < 2 ^ 32"
  shows "ParseJsonReplica env (replica_json r) = Some (Inr r)"
  using assms
  by (simp add: ParseJsonReplica_def replica_json_def json_member_object hex_reads_back_def)

lemma read_json_replicas_json:
  assumes "hex_reads_back env" "list_all (\<lambda>r. snd r < 2 ^ 32) rs"
  shows "read_json_replicas env (JArr (map replica_json rs)) = Some (Inr rs)"
proof -
  have "fold_outcome (\<lambda>r rs. bind_outcome (ParseJsonReplica env r) (\<lambda>p. Some (Inr (rs @ [p])))) (map replica_json rs) qs =
    Some (Inr (qs @ rs))" for qs
    using assms(2) by (induction rs arbitrary: qs) (simp_all add: ParseJsonReplica_json [OF assms(1)])
  then show ?thesis by (simp add: read_json_replicas_def)
qed

lemma read_json_backups:
  assumes "hex_reads_back env" "list_all (\<lambda>r. list_all (\<lambda>b. snd b < 2 ^ 32) (irr_backups r)) rs"
  shows "fold_outcome (\<lambda>b bs. bind_outcome (read_json_replicas env b) (\<lambda>rs. Some (Inr (bs @ [rs]))))
    (map (\<lambda>r. JArr (map replica_json (irr_backups r))) rs) bs = Some (Inr (bs @ map irr_backups rs))"
  using assms(2) by (induction rs arbitrary: bs) (simp_all add: read_json_replicas_json [OF assms(1)])

lemma StripTableName_key:
  "StripTableName env (GetRedisPacketReplicationTableKey env e) =
     Inr (hex_number (fst (multicast_group_entry e)))"
  by (simp add: StripTableName_def starts_with_def GetRedisPacketReplicationTableKey_def
      IrMulticastGroupEntryToAppDbKey_def)

lemma build_replicas_without:
  "\<forall>r \<in> set rs. irr_backups r = [] \<Longrightarrow>
   map ((\<lambda>(port, i). \<lparr>irr_port = port, irr_instance = i, irr_backups = []\<rparr>) \<circ> (\<lambda>r. (irr_port r, irr_instance r))) rs = rs"
  by (induction rs) auto

lemma build_replicas_with:
  "map2 (\<lambda>(port, i) bs. \<lparr>irr_port = port, irr_instance = i, irr_backups = bs\<rparr>)
     (map (\<lambda>r. (irr_port r, irr_instance r)) rs) (map irr_backups rs) = rs"
  by (induction rs) auto

lemma read_group_back:
  assumes fits: "group_fits env e" and hex: "hex_reads_back env"
    and row: "tb_get app_db (GetRedisPacketReplicationTableKey env e) = CreateFieldValues env e"
  shows "read_group env app_db (GetRedisPacketReplicationTableKey env e) = Some (Inr e)"
proof -
  from fits obtain group_id rs metadata where e: "e = IrMulticastGroupEntry group_id rs metadata"
    by (auto simp: group_fits_def split: ir_packet_replication_engine_entry.split_asm)
  with fits have gid: "group_id < 2 ^ 32"
    and rs: "list_all (\<lambda>r. snd r < 2 ^ 32) (map (\<lambda>r. (irr_port r, irr_instance r)) rs)"
    and bs: "list_all (\<lambda>r. list_all (\<lambda>b. snd b < 2 ^ 32) (irr_backups r)) rs"
    and parse: "ad_parse (re_json env) (ad_dump (re_json env) (replicas_json rs)) = Some (replicas_json rs)"
      "ad_parse (re_json env) (ad_dump (re_json env) (backups_json rs)) = Some (backups_json rs)"
    by (auto simp: group_fits_def list_all_iff)
  have id: "re_SimpleHexAtoi env (hex_number group_id) = Some group_id" using hex gid by (simp add: hex_reads_back_def)
  have replicas: "read_json_replicas env (replicas_json rs) = Some (Inr (map (\<lambda>r. (irr_port r, irr_instance r)) rs))"
    using read_json_replicas_json [OF hex rs] by (simp add: replicas_json_def comp_def)
  have backups: "fold_outcome (\<lambda>b bs. bind_outcome (read_json_replicas env b) (\<lambda>rs. Some (Inr (bs @ [rs]))))
      (json_elements (backups_json rs)) [] = Some (Inr (map irr_backups rs))"
    using read_json_backups [OF hex bs] by (simp add: backups_json_def)
  have "\<exists>g. fold_outcome (read_group_field env) (CreateFieldValues env e)
      \<lparr>gr_replicas = [], gr_backups = [], gr_metadata = []\<rparr> = Some (Inr g) \<and>
    gr_metadata g = metadata \<and> (gr_backups g = [] \<or> length (gr_replicas g) = length (gr_backups g)) \<and>
    build_replicas g = rs"
  proof (cases "sum_list (map (\<lambda>r. length (irr_backups r)) rs) > 0")
    case True
    then have "rs \<noteq> []" by auto
    with True show ?thesis
      by (intro exI [of _ "\<lparr>gr_replicas = map (\<lambda>r. (irr_port r, irr_instance r)) rs,
            gr_backups = map irr_backups rs, gr_metadata = metadata\<rparr>"])
        (simp add: e CreateFieldValues_def multicast_group_entry_def read_group_field_def ParseJson_def parse
          replicas backups build_replicas_def build_replicas_with)
  next
    case False
    then have none: "\<forall>r \<in> set rs. irr_backups r = []" by (auto simp: sum_list_eq_0_iff)
    have zero: "(sum_list (map (\<lambda>r. length (irr_backups r)) rs) > 0) = False" using False by blast
    show ?thesis
      by (intro exI [of _ "\<lparr>gr_replicas = map (\<lambda>r. (irr_port r, irr_instance r)) rs,
            gr_backups = [], gr_metadata = metadata\<rparr>"])
        (simp add: e CreateFieldValues_def multicast_group_entry_def read_group_field_def ParseJson_def parse
          replicas zero build_replicas_def build_replicas_without [OF none])
  qed
  then obtain g where g: "fold_outcome (read_group_field env) (CreateFieldValues env e)
      \<lparr>gr_replicas = [], gr_backups = [], gr_metadata = []\<rparr> = Some (Inr g)"
    "gr_metadata g = metadata" "gr_backups g = [] \<or> length (gr_replicas g) = length (gr_backups g)"
    "build_replicas g = rs" by auto
  have "fst (multicast_group_entry e) = group_id" by (simp add: e multicast_group_entry_def)
  then have "read_group env app_db (GetRedisPacketReplicationTableKey env e) =
      Some (Inr (IrMulticastGroupEntry group_id rs metadata))"
    using g(3) by (auto simp add: read_group_def StripTableName_key row id g(1,2,4) simp del: bind_outcome_eq_Inr)
  then show ?thesis by (simp only: e)
qed

text \<open>The text \<open>port_instance\<close> determines the port and the instance.\<close>

lemma port_instance_inject:
  "p @ ''_'' @ dec_str i = q @ ''_'' @ dec_str j \<longleftrightarrow> p = q \<and> i = j"
proof
  assume eq: "p @ ''_'' @ dec_str i = q @ ''_'' @ dec_str j"
  have digits: "takeWhile dec_digit (rev (r @ ''_'' @ dec_str n)) = rev (dec_str n)" for r n
  proof -
    have "takeWhile dec_digit (rev (dec_str n) @ CHR ''_'' # rev r) = rev (dec_str n)"
      by (subst takeWhile_append2) (simp_all add: dec_str_digits, simp add: dec_digit_def)
    then show ?thesis by simp
  qed
  from eq digits [of p i] digits [of q j] have same: "dec_str i = dec_str j" by simp
  with eq have "p = q" by simp
  moreover have "parse_base 10 (dec_str n) = Some n" for n by (simp add: dec_str_def parse_base_str)
  with same have "i = j" by (metis option.inject)
  ultimately show "p = q \<and> i = j" by simp
qed simp

definition replica_instances :: "ir_replica list \<Rightarrow> (string \<times> nat) set" where
  "replica_instances rs = (\<lambda>r. (irr_port r, irr_instance r)) ` set rs"

lemma set_port_instances:
  "set (port_instances rs) = (\<lambda>(p, i). p @ ''_'' @ dec_str i) ` replica_instances rs"
proof -
  have "set (fold (\<lambda>r s. insort_insert (irr_port r @ ''_'' @ dec_str (irr_instance r)) s) rs s) =
    set s \<union> (\<lambda>r. irr_port r @ ''_'' @ dec_str (irr_instance r)) ` set rs" for s
    by (induction rs arbitrary: s) (auto simp: set_insort_insert)
  then show ?thesis by (simp add: port_instances_def replica_instances_def image_image)
qed

lemma same_port_instances:
  "set (port_instances rs) = set (port_instances rs') \<longleftrightarrow>
   replica_instances rs = replica_instances rs'"
  unfolding set_port_instances
  by (rule inj_image_eq_iff) (auto intro!: injI simp: port_instance_inject simp del: append_Cons append_Nil)

lemma ComparePacketReplicationEntities_Nil:
  "ComparePacketReplicationEntities (i, rs, m) (j, rs', m') = [] \<longleftrightarrow>
   m = m' \<and> replica_instances rs = replica_instances rs'"
  unfolding same_port_instances [symmetric]
  by (auto simp: ComparePacketReplicationEntities_def sorted_difference_def filter_empty_conv)

text \<open>The last group with an ID.\<close>

definition last_group :: "ir_entity list \<Rightarrow> nat \<Rightarrow> (nat \<times> ir_replica list \<times> string) option" where
  "last_group es = last_wins (map (\<lambda>e. (fst (group_of e), group_of e)) es)"

lemma groups_by_id_last: "bt_wf (groups_by_id es) \<and> map_of (groups_by_id es) = last_group es"
proof -
  have "groups_by_id es = fold (\<lambda>(k, v). bt_assign k v) (map (\<lambda>e. (fst (group_of e), group_of e)) es) []"
    by (simp add: groups_by_id_def fold_map comp_def)
  with fold_assign [of "[]" "map (\<lambda>e. (fst (group_of e), group_of e)) es"] show ?thesis
    by (simp add: last_group_def last_wins_eq)
qed

section \<open>Properties\<close>

text \<open>
  C21. Multicast groups survive the database: reading the rows of the packet replication table gives back the
  groups that were written, with their replicas, backup replicas and metadata.
\<close>

theorem replication_round_trip:
  assumes "list_all (group_fits env) es" "hex_reads_back env"
    and "filter (\<lambda>key. starts_with key (TablePrefix env)) (tb_keys app_db) =
      map (GetRedisPacketReplicationTableKey env) es"
    and "list_all (\<lambda>e. tb_get app_db (GetRedisPacketReplicationTableKey env e) = CreateFieldValues env e) es"
  shows "GetAllAppDbPacketReplicationTableEntries env app_db = Some (Inr es)"
proof -
  have "fold_outcome (\<lambda>key pre_entries. bind_outcome (read_group env app_db key) (\<lambda>e. Some (Inr (pre_entries @ [e]))))
    (map (GetRedisPacketReplicationTableKey env) es) fs = Some (Inr (fs @ es))" for fs
    using assms(1,4) by (induction es arbitrary: fs) (simp_all add: read_group_back [OF _ assms(2)])
  then show ?thesis
    by (simp add: GetAllAppDbPacketReplicationTableEntries_def GetAllPacketReplicationTableEntryKeys_def assms(3))
qed

text \<open>
  C22. The comparison of the database with the cache reports nothing exactly when both have the same multicast
  groups, and groups with the same ID have the same metadata and the same set of ports and instances.
  Backup replicas and repeated replicas are not compared.
\<close>

theorem replication_comparison_exact:
  "ComparePacketReplicationTableEntries entries_app_db entries_cache = [] \<longleftrightarrow>
   (\<forall>group_id. case (last_group entries_app_db group_id, last_group entries_cache group_id) of
      (None, None) \<Rightarrow> True
    | (Some (_, rs, m), Some (_, rs', m')) \<Rightarrow>
        m = m' \<and> replica_instances rs = replica_instances rs'
    | _ \<Rightarrow> False)"
  (is "?l \<longleftrightarrow> ?r")
proof -
  let ?a = "groups_by_id entries_app_db" and ?c = "groups_by_id entries_cache"
  have a: "distinct (map fst ?a)" "last_group entries_app_db = map_of ?a"
    and c: "distinct (map fst ?c)" "last_group entries_cache = map_of ?c"
    using groups_by_id_last by (blast intro: bt_wf_distinct, simp, blast intro: bt_wf_distinct, simp)
  let ?C = ComparePacketReplicationEntities
  have members: "(\<forall>x \<in> set m. P (fst x) (snd x)) \<longleftrightarrow> (\<forall>k v. map_of m k = Some v \<longrightarrow> P k v)"
    if "distinct (map fst m)" for P and m :: "(nat, nat \<times> ir_replica list \<times> string) bt_map"
    by (auto simp: map_of_eq_Some_iff [OF that])
  have "(case x of (k, v) \<Rightarrow> case map_of ?c k of
      None \<Rightarrow> [''Packet replication cache is missing multicast group ID '' @ dec_str k] | Some w \<Rightarrow> ?C v w) = [] \<longleftrightarrow>
    (case map_of ?c (fst x) of None \<Rightarrow> False | Some w \<Rightarrow> ?C (snd x) w = [])"
    "(case x of (k, _) \<Rightarrow> case map_of ?a k of
      None \<Rightarrow> [''APP DB is missing multicast group ID '' @ dec_str k] | Some _ \<Rightarrow> []) = [] \<longleftrightarrow>
    map_of ?a (fst x) \<noteq> None" for x
    by (cases x; simp split: option.split)+
  then have "?l \<longleftrightarrow>
    (\<forall>k v. map_of ?a k = Some v \<longrightarrow> (case map_of ?c k of None \<Rightarrow> False | Some w \<Rightarrow> ?C v w = [])) \<and>
    (\<forall>k v. map_of ?c k = Some v \<longrightarrow> map_of ?a k \<noteq> None)"
    using members [OF a(1), of "\<lambda>k v. case map_of ?c k of None \<Rightarrow> False | Some w \<Rightarrow> ?C v w = []"]
      members [OF c(1), of "\<lambda>k v. map_of ?a k \<noteq> None"]
    by (simp add: ComparePacketReplicationTableEntries_def Let_def bt_find_def)
  also have "\<dots> \<longleftrightarrow> ?r"
    unfolding a(2) c(2)
    by (auto simp: ComparePacketReplicationEntities_Nil split: option.splits prod.splits)
  finally show ?thesis .
qed

text \<open>Two groups, one with a backup replica, in a table that also holds another row.\<close>

definition example_hex_atoi :: "string \<Rightarrow> nat option" where
  "example_hex_atoi s = parse_base 16 (if take 2 s = ''0x'' then drop 2 s else s)"

definition example_groups :: "ir_packet_replication_engine_entry list" where
  "example_groups =
     [IrMulticastGroupEntry 1 [\<lparr>irr_port = ''p'', irr_instance = 7, irr_backups = [(''q'', 8)]\<rparr>] [],
      IrMulticastGroupEntry 2 [\<lparr>irr_port = ''q'', irr_instance = 3, irr_backups = []\<rparr>] ''m'']"

definition example_replicas :: "nat \<Rightarrow> json" where
  "example_replicas i =
     (let member = (\<lambda>p n. JObj [(''multicast_replica_instance'', JStr n), (''multicast_replica_port'', JStr p)])
      in if i = 0 then JArr [member ''p'' ''0x0007'']
         else if i = 1 then JArr [JArr [member ''q'' ''0x0008'']]
         else if i = 2 then JArr [member ''q'' ''0x0003'']
         else JArr [JArr []])"

definition example_replication_env :: replication_env where
  "example_replication_env =
     \<lparr>re_json = example_app_db_env\<lparr>
        ad_dump := (\<lambda>j. if j = example_replicas 0 then ''0'' else if j = example_replicas 1 then ''1''
                        else if j = example_replicas 2 then ''2'' else ''3''),
        ad_parse := (\<lambda>s. if s = ''0'' then Some (example_replicas 0) else if s = ''1'' then Some (example_replicas 1)
                         else if s = ''2'' then Some (example_replicas 2) else Some (example_replicas 3))\<rparr>,
      re_table_name = ''GROUP'', re_SimpleHexAtoi = example_hex_atoi\<rparr>"

definition example_group_table :: table_reader where
  "example_group_table =
     \<lparr>tb_keys = [''GROUP:0x0001'', ''FIXED_ROUTE:k'', ''GROUP:0x0002''],
      tb_get = (\<lambda>k. if k = ''GROUP:0x0001'' then [(''replicas'', ''0''), (''backups'', ''1'')]
                    else [(''replicas'', ''2''), (''controller_metadata'', ''m'')])\<rparr>"

lemma example_hex_reads_back: "hex_reads_back example_replication_env"
proof -
  have "parse_digits 16 0 (replicate k CHR ''0'' @ s) = parse_digits 16 0 s" for k s
    by (induction k) (simp_all add: digit_value_def)
  then have "parse_base 16 (hex4 n) = Some n" for n
    by (simp add: parse_base_def hex4_def Let_def parse_digits_base_str)
  then show ?thesis
    by (simp add: hex_reads_back_def example_replication_env_def example_hex_atoi_def hex_number_def)
qed

theorem replication_round_trip_witness:
  "GetAllAppDbPacketReplicationTableEntries example_replication_env example_group_table = Some (Inr example_groups)"
proof (rule replication_round_trip [OF _ example_hex_reads_back])
  have "list_all (\<lambda>e. case multicast_group_entry e of (_, rs, _) \<Rightarrow>
      ad_parse (re_json example_replication_env) (ad_dump (re_json example_replication_env) (replicas_json rs)) =
        Some (replicas_json rs) \<and>
      ad_parse (re_json example_replication_env) (ad_dump (re_json example_replication_env) (backups_json rs)) =
        Some (backups_json rs)) example_groups"
    by code_simp
  then show "list_all (group_fits example_replication_env) example_groups"
    by (simp add: group_fits_def example_groups_def multicast_group_entry_def)
qed code_simp+

end
