(* ===== verification/State_Verification.thy ===== *)
theory State_Verification
  imports Replication_Entries
begin

text \<open>
  State verification (\<open>p4rt_app/sonic/state_verification.cc\<close>): comparing the rows of the application
  database with those of the state database or with the entity cache. The result is a list of messages,
  empty when nothing differs. A hash map of fields is the association list sorted by field, which makes
  equality of maps equality of lists; the order in which \<open>PrettyPrintEntry\<close> iterates over it is a parameter.
\<close>

section \<open>Tables\<close>

type_synonym field_map = "(string, string) bt_map"

record redis_table_entry =
  rte_values :: field_map
  rte_errors :: string

record redis_table =
  rt_db_name :: string
  rt_entries :: "(string, redis_table_entry) bt_map"

definition quoted :: "string \<Rightarrow> string" where
  "quoted s = [CHR 0x27] @ s @ [CHR 0x27]"

fun join_with :: "string \<Rightarrow> string list \<Rightarrow> string" where
  "join_with sep [] = []"
| "join_with sep [s] = s"
| "join_with sep (s # ss) = s @ sep @ join_with sep ss"

definition PrettyPrintEntry :: "(field_map \<Rightarrow> field_map) \<Rightarrow> field_map \<Rightarrow> string" where
  "PrettyPrintEntry iteration m =
     ''{{'' @ join_with ''},{'' (map (\<lambda>(k, v). k @ '','' @ v) (iteration m)) @ ''}}''"

definition ListToMap :: "field_values \<Rightarrow> field_map status_or" where
  "ListToMap fvs =
     fold_or (\<lambda>(k, v) m. case bt_insert k v m of (m', inserted) \<Rightarrow> if inserted then Inr m' else Inl INTERNAL) fvs []"

definition duplicate_fields :: "string \<Rightarrow> string \<Rightarrow> string" where
  "duplicate_fields db_name key = db_name @ '' has duplicate fields for key: '' @ key"

definition checked_entry :: "string \<Rightarrow> string \<Rightarrow> field_values \<Rightarrow> redis_table_entry" where
  "checked_entry db_name key fvs =
     (case ListToMap fvs of
        Inl _ \<Rightarrow> \<lparr>rte_values = [], rte_errors = duplicate_fields db_name key\<rparr>
      | Inr m \<Rightarrow> \<lparr>rte_values = m, rte_errors = []\<rparr>)"

definition ReadAllEntriesFromRedisTable :: "table_reader \<Rightarrow> string \<Rightarrow> redis_table" where
  "ReadAllEntriesFromRedisTable table db_name =
     \<lparr>rt_db_name = db_name,
      rt_entries = fold (\<lambda>key m. bt_assign key (checked_entry db_name key (tb_get table key)) m) (tb_keys table) []\<rparr>"

definition translated_entry ::
  "app_db_env \<Rightarrow> ir_p4info \<Rightarrow> string \<Rightarrow> ir_entity \<Rightarrow> (string \<times> redis_table_entry) option" where
  "translated_entry env info db_name entity =
     (case entity of
        IrTableEntry e \<Rightarrow>
          (case GetRedisP4rtTableKey env e info of
             Inl _ \<Rightarrow> None
           | Inr key \<Rightarrow> Some (key,
               case IrTableEntryToAppDbValues env e of
                 Inl _ \<Rightarrow> \<lparr>rte_values = [],
                   rte_errors = db_name @ '' entry values could not be translated for key: '' @ key\<rparr>
               | Inr fvs \<Rightarrow> checked_entry db_name key fvs))
      | _ \<Rightarrow> None)"

definition TranslateP4rtIrEntitiesIntoRedisTable ::
  "app_db_env \<Rightarrow> ir_p4info \<Rightarrow> ir_entity list \<Rightarrow> string \<Rightarrow> redis_table" where
  "TranslateP4rtIrEntitiesIntoRedisTable env info ir_entities db_name =
     \<lparr>rt_db_name = db_name,
      rt_entries = fold (\<lambda>e m. case translated_entry env info db_name e of
          None \<Rightarrow> m | Some (key, entry) \<Rightarrow> bt_assign key entry m) ir_entities []\<rparr>"

section \<open>Comparison\<close>

definition CompareTableEntries ::
  "(field_map \<Rightarrow> field_map) \<Rightarrow> string \<Rightarrow> string \<Rightarrow> redis_table_entry \<Rightarrow> string \<Rightarrow> redis_table_entry \<Rightarrow> string" where
  "CompareTableEntries iteration key table_a_name entry_a table_b_name entry_b =
     (if rte_values entry_a \<noteq> rte_values entry_b
      then ''Entries for '' @ quoted key @ '' do not match: '' @ table_a_name @ ''='' @
           PrettyPrintEntry iteration (rte_values entry_a) @ '' '' @ table_b_name @ ''='' @
           PrettyPrintEntry iteration (rte_values entry_b)
      else [])"

definition missing_key :: "string \<Rightarrow> string \<Rightarrow> string" where
  "missing_key db_name key = db_name @ '' is missing key: '' @ key"

text \<open>The messages for two rows under the same key.\<close>

definition compare_rows ::
  "(field_map \<Rightarrow> field_map) \<Rightarrow> string \<Rightarrow> string \<Rightarrow> string \<Rightarrow> redis_table_entry \<Rightarrow> redis_table_entry \<Rightarrow> string list" where
  "compare_rows iteration name_a name_b key entry_a entry_b =
     (let errors = filter (\<lambda>s. s \<noteq> []) [rte_errors entry_a, rte_errors entry_b]
      in if errors \<noteq> [] then errors
         else filter (\<lambda>s. s \<noteq> []) [CompareTableEntries iteration key name_a entry_a name_b entry_b])"

fun compare_entries ::
  "(field_map \<Rightarrow> field_map) \<Rightarrow> string \<Rightarrow> string \<Rightarrow> (string, redis_table_entry) bt_map \<Rightarrow>
   (string, redis_table_entry) bt_map \<Rightarrow> string list" where
  "compare_entries iteration name_a name_b [] bs = map (\<lambda>b. missing_key name_a (fst b)) bs"
| "compare_entries iteration name_a name_b (a # as) [] = map (\<lambda>a. missing_key name_b (fst a)) (a # as)"
| "compare_entries iteration name_a name_b ((k, a) # as) ((l, b) # bs) =
     (if k > l then missing_key name_a l # compare_entries iteration name_a name_b ((k, a) # as) bs
      else if k < l then missing_key name_b k # compare_entries iteration name_a name_b as ((l, b) # bs)
      else compare_rows iteration name_a name_b k a b @ compare_entries iteration name_a name_b as bs)"

definition CompareTables :: "(field_map \<Rightarrow> field_map) \<Rightarrow> redis_table \<Rightarrow> redis_table \<Rightarrow> string list" where
  "CompareTables iteration table_a table_b =
     compare_entries iteration (rt_db_name table_a) (rt_db_name table_b) (rt_entries table_a) (rt_entries table_b)"

definition VerifyAppStateDbAndAppDbEntries ::
  "(field_map \<Rightarrow> field_map) \<Rightarrow> table_reader \<Rightarrow> table_reader \<Rightarrow> string list" where
  "VerifyAppStateDbAndAppDbEntries iteration app_state_db app_db =
     CompareTables iteration (ReadAllEntriesFromRedisTable app_db ''AppDb'')
       (ReadAllEntriesFromRedisTable app_state_db ''AppStateDb'')"

definition is_p4rt_row :: "replication_env \<Rightarrow> string \<Rightarrow> bool" where
  "is_p4rt_row env key \<longleftrightarrow>
     \<not> (starts_with key ''ACL_TABLE_DEFINITION_TABLE:'' \<or> starts_with key ''TABLES_DEFINITION_TABLE:'' \<or>
        starts_with key (re_table_name env))"

definition VerifyP4rtTableWithCacheEntities ::
  "(field_map \<Rightarrow> field_map) \<Rightarrow> replication_env \<Rightarrow> table_reader \<Rightarrow> ir_entity list \<Rightarrow> ir_p4info \<Rightarrow> string list" where
  "VerifyP4rtTableWithCacheEntities iteration env app_db ir_entities info =
     (let redis_db_entries = ReadAllEntriesFromRedisTable app_db ''AppDb''
      in CompareTables iteration
           (redis_db_entries\<lparr>rt_entries := filter (\<lambda>(key, _). is_p4rt_row env key) (rt_entries redis_db_entries)\<rparr>)
           (TranslateP4rtIrEntitiesIntoRedisTable (re_json env) info ir_entities ''EntityCache''))"

text \<open>
  When the rows cannot be read the error is reported, but then the \<open>StatusOr\<close> is dereferenced all the
  same, which ends the process.
\<close>

definition VerifyPacketReplicationWithCacheEntities ::
  "replication_env \<Rightarrow> table_reader \<Rightarrow> ir_entity list \<Rightarrow> string list option" where
  "VerifyPacketReplicationWithCacheEntities env app_db cache_ir_entities =
     (case GetAllAppDbPacketReplicationTableEntries env app_db of
        Some (Inr entries) \<Rightarrow>
          Some (ComparePacketReplicationTableEntries (map IrPacketReplicationEngineEntry entries) cache_ir_entities)
      | _ \<Rightarrow> None)"

section \<open>Lemmas\<close>

definition rows_agree :: "redis_table_entry \<Rightarrow> redis_table_entry \<Rightarrow> bool" where
  "rows_agree a b \<longleftrightarrow> rte_errors a = [] \<and> rte_errors b = [] \<and> rte_values a = rte_values b"

lemma compare_rows_Nil: "compare_rows iteration name_a name_b k a b = [] \<longleftrightarrow> rows_agree a b"
  by (simp add: compare_rows_def Let_def rows_agree_def CompareTableEntries_def)

lemma compare_entries_Nil:
  "compare_entries iteration name_a name_b as bs = [] \<longleftrightarrow>
   list_all2 (\<lambda>a b. fst a = fst b \<and> rows_agree (snd a) (snd b)) as bs"
  by (induction iteration name_a name_b as bs rule: compare_entries.induct)
    (auto simp: compare_rows_Nil missing_key_def)

text \<open>What two optional values have to satisfy to agree.\<close>

definition both_or_neither :: "('a \<Rightarrow> 'b \<Rightarrow> bool) \<Rightarrow> 'a option \<Rightarrow> 'b option \<Rightarrow> bool" where
  "both_or_neither R x y \<longleftrightarrow>
     (case (x, y) of (None, None) \<Rightarrow> True | (Some a, Some b) \<Rightarrow> R a b | _ \<Rightarrow> False)"

lemma both_or_neither_simps [simp]:
  "both_or_neither R None None" "both_or_neither R (Some a) (Some b) = R a b"
  "\<not> both_or_neither R None (Some b)" "\<not> both_or_neither R (Some a) None"
  by (simp_all add: both_or_neither_def)

lemma both_or_neither_dom: "both_or_neither R x y \<Longrightarrow> x = None \<longleftrightarrow> y = None"
  by (cases x; cases y) simp_all

lemma sorted_maps_agree:
  fixes as :: "('k::linorder \<times> 'a) list" and bs :: "('k \<times> 'b) list"
  assumes wf: "bt_wf as" "bt_wf bs"
  shows "list_all2 (\<lambda>a b. fst a = fst b \<and> R (snd a) (snd b)) as bs \<longleftrightarrow>
    (\<forall>k. both_or_neither R (map_of as k) (map_of bs k))"
    (is "?l \<longleftrightarrow> ?r")
proof
  assume ?l
  then show ?r by (induction as bs rule: list_all2_induct) auto
next
  assume r: ?r
  then have "map_of as k = None \<longleftrightarrow> map_of bs k = None" for k using both_or_neither_dom by blast
  then have "dom (map_of as) = dom (map_of bs)" by (simp add: dom_def)
  then have "set (map fst as) = set (map fst bs)" by (simp add: dom_map_of_conv_image_fst)
  with wf have keys: "map fst as = map fst bs"
    by (intro sorted_distinct_set_unique) (simp_all add: bt_wf_def strict_sorted_iff)
  then have len: "length as = length bs" by (metis length_map)
  show ?l
  proof (rule list_all2_all_nthI [OF len], rule conjI)
    fix i assume i: "i < length as"
    with keys len show key: "fst (as ! i) = fst (bs ! i)" by (metis nth_map)
    have "map_of as (fst (as ! i)) = Some (snd (as ! i))" "map_of bs (fst (bs ! i)) = Some (snd (bs ! i))"
      using i len wf by (auto intro!: map_of_is_SomeI simp: bt_wf_distinct)
    with r key show "R (snd (as ! i)) (snd (bs ! i))" by (metis both_or_neither_simps(2))
  qed
qed

lemma CompareTables_Nil:
  assumes "bt_wf (rt_entries a)" "bt_wf (rt_entries b)"
  shows "CompareTables iteration a b = [] \<longleftrightarrow>
    (\<forall>k. both_or_neither rows_agree (map_of (rt_entries a) k) (map_of (rt_entries b) k))"
  unfolding CompareTables_def compare_entries_Nil by (rule sorted_maps_agree [OF assms])

lemma ListToMap_eq: "ListToMap fvs = (if distinct (map fst fvs) then Inr (sort_key fst fvs) else Inl INTERNAL)"
proof -
  let ?insert = "\<lambda>(k, v) m. case bt_insert k v m of (m', inserted) \<Rightarrow> if inserted then Inr m' else Inl INTERNAL"
  have "fold_or ?insert fvs m =
    (if distinct (map fst fvs) \<and> fst ` set fvs \<inter> fst ` set m = {} then Inr (fold (\<lambda>(k, v). bt_assign k v) fvs m)
     else Inl INTERNAL)" if "bt_wf m" for m :: field_map
    using that
  proof (induction fvs arbitrary: m)
    case (Cons kv fvs)
    then show ?case
      by (cases kv) (auto simp: bt_insert_eq bt_wf_assign bt_assign_keys)
  qed simp
  from this [of "[]"] show ?thesis by (simp add: ListToMap_def fold_assign_sorted)
qed

definition same_row :: "field_values \<Rightarrow> field_values \<Rightarrow> bool" where
  "same_row vs ws \<longleftrightarrow> distinct (map fst vs) \<and> distinct (map fst ws) \<and> set vs = set ws"

lemma checked_entries_agree: "rows_agree (checked_entry a k vs) (checked_entry b l ws) \<longleftrightarrow> same_row vs ws"
proof (cases "distinct (map fst vs) \<and> distinct (map fst ws)")
  case True
  then have "sort_key fst vs = sort_key fst ws \<longleftrightarrow> set vs = set ws"
    by (metis set_sort sort_key_eqI sort_key_wf bt_wf_def)
  with True show ?thesis by (simp add: rows_agree_def checked_entry_def ListToMap_eq same_row_def)
qed (auto simp: rows_agree_def checked_entry_def ListToMap_eq same_row_def duplicate_fields_def)

lemma read_entries:
  "bt_wf (rt_entries (ReadAllEntriesFromRedisTable table name)) \<and>
   map_of (rt_entries (ReadAllEntriesFromRedisTable table name)) k =
     (if k \<in> set (tb_keys table) then Some (checked_entry name k (tb_get table k)) else None)"
proof -
  let ?f = "\<lambda>key. checked_entry name key (tb_get table key)"
  have fold: "fold (\<lambda>key. bt_assign key (?f key)) ks [] = fold (\<lambda>(k, v). bt_assign k v) (map (\<lambda>k. (k, ?f k)) ks) []" for ks
    by (simp add: fold_map comp_def)
  show ?thesis
    using fold_assign [of "[]" "map (\<lambda>k. (k, ?f k)) (tb_keys table)"]
    by (simp add: ReadAllEntriesFromRedisTable_def fold rev_map map_of_map_restrict restrict_map_def)
qed

lemma filter_rows:
  "map_of (filter (\<lambda>(key, _). P key) m) k = (if P k then map_of m k else None)"
  by (induction m) auto

text \<open>The rows of the database that hold table entries, and the rows that the cache would write.\<close>

definition db_row :: "replication_env \<Rightarrow> table_reader \<Rightarrow> string \<Rightarrow> field_values option" where
  "db_row env app_db key =
     (if key \<in> set (tb_keys app_db) \<and> is_p4rt_row env key then Some (tb_get app_db key) else None)"

definition entity_row :: "app_db_env \<Rightarrow> ir_p4info \<Rightarrow> ir_entity \<Rightarrow> (string \<times> field_values status_or) option" where
  "entity_row env info entity =
     (case entity of
        IrTableEntry e \<Rightarrow>
          (case GetRedisP4rtTableKey env e info of
             Inl _ \<Rightarrow> None | Inr key \<Rightarrow> Some (key, IrTableEntryToAppDbValues env e))
      | _ \<Rightarrow> None)"

definition cache_row :: "app_db_env \<Rightarrow> ir_p4info \<Rightarrow> ir_entity list \<Rightarrow> string \<Rightarrow> field_values status_or option" where
  "cache_row env info entities = last_wins (List.map_filter (entity_row env info) entities)"

definition row_entry :: "string \<Rightarrow> string \<Rightarrow> field_values status_or \<Rightarrow> redis_table_entry" where
  "row_entry db_name key row =
     (case row of
        Inl _ \<Rightarrow> \<lparr>rte_values = [], rte_errors = db_name @ '' entry values could not be translated for key: '' @ key\<rparr>
      | Inr fvs \<Rightarrow> checked_entry db_name key fvs)"

lemma row_entries_agree:
  "rows_agree (checked_entry a k vs) (row_entry b l row) \<longleftrightarrow>
   (case row of Inl _ \<Rightarrow> False | Inr ws \<Rightarrow> same_row vs ws)"
  by (cases row) (simp_all add: row_entry_def checked_entries_agree, simp add: rows_agree_def)

lemma translated_entry_row:
  "translated_entry env info name entity = map_option (\<lambda>(k, row). (k, row_entry name k row)) (entity_row env info entity)"
  by (simp add: translated_entry_def entity_row_def row_entry_def split: ir_entity.split sum.split)

lemma last_wins_map: "last_wins (map (\<lambda>(k, r). (k, f k r)) xs) k = map_option (f k) (last_wins xs k)"
proof -
  have "map_of (map (\<lambda>(k, r). (k, f k r)) xs) k = map_option (f k) (map_of xs k)" for xs
    by (induction xs) auto
  then show ?thesis by (simp add: last_wins_eq rev_map)
qed

lemma translated_rows:
  "bt_wf (rt_entries (TranslateP4rtIrEntitiesIntoRedisTable env info es name)) \<and>
   map_of (rt_entries (TranslateP4rtIrEntitiesIntoRedisTable env info es name)) k =
     map_option (row_entry name k) (cache_row env info es k)"
proof -
  let ?rows = "\<lambda>es. map (\<lambda>(k, row). (k, row_entry name k row)) (List.map_filter (entity_row env info) es)"
  have "fold (\<lambda>e m. case translated_entry env info name e of None \<Rightarrow> m | Some (key, entry) \<Rightarrow> bt_assign key entry m) es m =
    fold (\<lambda>(k, v). bt_assign k v) (?rows es) m" for es m
    by (induction es arbitrary: m) (auto simp: translated_entry_row List.map_filter_simps split: option.split)
  with fold_assign [of "[]" "?rows es"] show ?thesis
    by (simp add: TranslateP4rtIrEntitiesIntoRedisTable_def cache_row_def last_wins_map [symmetric])
      (simp add: last_wins_eq)
qed

section \<open>Properties\<close>

text \<open>
  C20. State verification of the P4RT table is exact: it reports nothing exactly when the rows of the database
  (definitions and packet replication aside) are those that the cached entities translate to. Under each key
  there is a row in both or in neither, a row of the cache could be translated, no row repeats a field,
  and the fields and values are the same.
\<close>

theorem state_verification_exact:
  "VerifyP4rtTableWithCacheEntities iteration env app_db entities info = [] \<longleftrightarrow>
   (\<forall>key. case (db_row env app_db key, cache_row (re_json env) info entities key) of
      (None, None) \<Rightarrow> True
    | (Some vs, Some (Inr ws)) \<Rightarrow> same_row vs ws
    | _ \<Rightarrow> False)"
proof -
  let ?read = "ReadAllEntriesFromRedisTable app_db ''AppDb''"
  let ?db = "?read\<lparr>rt_entries := filter (\<lambda>(key, _). is_p4rt_row env key) (rt_entries ?read)\<rparr>"
  let ?cache = "TranslateP4rtIrEntitiesIntoRedisTable (re_json env) info entities ''EntityCache''"
  have wf: "bt_wf (rt_entries ?db)" "bt_wf (rt_entries ?cache)"
    using read_entries translated_rows by (simp_all add: bt_wf_def sorted_wrt_map sorted_wrt_filter)
  have "both_or_neither rows_agree (map_of (rt_entries ?db) k) (map_of (rt_entries ?cache) k) \<longleftrightarrow>
    (case (db_row env app_db k, cache_row (re_json env) info entities k) of
      (None, None) \<Rightarrow> True | (Some vs, Some (Inr ws)) \<Rightarrow> same_row vs ws | _ \<Rightarrow> False)" for k
    using read_entries [of app_db "''AppDb''" k] translated_rows [of "re_json env" info entities "''EntityCache''" k]
    by (cases "cache_row (re_json env) info entities k")
      (auto simp: filter_rows db_row_def row_entries_agree split: sum.split)
  then show ?thesis
    by (simp add: VerifyP4rtTableWithCacheEntities_def Let_def CompareTables_Nil [OF wf])
qed

text \<open>The application and state databases agree exactly when they have the same keys and the same rows.\<close>

theorem state_db_verification_exact:
  "VerifyAppStateDbAndAppDbEntries iteration app_state_db app_db = [] \<longleftrightarrow>
   set (tb_keys app_db) = set (tb_keys app_state_db) \<and>
   (\<forall>key \<in> set (tb_keys app_db). same_row (tb_get app_db key) (tb_get app_state_db key))"
proof -
  let ?a = "ReadAllEntriesFromRedisTable app_db ''AppDb''"
  let ?s = "ReadAllEntriesFromRedisTable app_state_db ''AppStateDb''"
  have wf: "bt_wf (rt_entries ?a)" "bt_wf (rt_entries ?s)" using read_entries by simp_all
  show ?thesis
    unfolding VerifyAppStateDbAndAppDbEntries_def CompareTables_Nil [OF wf]
    using read_entries [of app_db "''AppDb''"] read_entries [of app_state_db "''AppStateDb''"]
    by (auto simp: checked_entries_agree split: if_split_asm)
qed

text \<open>Packet replication is compared only when all of its rows could be read.\<close>

theorem replication_verification_aborts_iff:
  "VerifyPacketReplicationWithCacheEntities env app_db entities = None \<longleftrightarrow>
   (\<nexists>entries. GetAllAppDbPacketReplicationTableEntries env app_db = Some (Inr entries))"
  by (simp add: VerifyPacketReplicationWithCacheEntities_def split: option.split sum.split)

end
