(* ===== verification/Bit_Strings.thy ===== *)
theory Bit_Strings
  imports Netaddr
begin

text \<open>
  Bit strings that grow at the end and are consumed from the front
  (\<open>p4_infra/string_encodings/bit_string.{h,cc}\<close>), and the readable notation for byte strings
  (\<open>readable_byte_string.cc\<close>) that is parsed into them.
\<close>

section \<open>BitString\<close>

record bit_string =
  bs_bits :: "bool list"
  bs_start_index :: nat

definition empty_bit_string :: bit_string where
  "empty_bit_string = \<lparr>bs_bits = [], bs_start_index = 0\<rparr>"

definition bs_size :: "bit_string \<Rightarrow> nat" where
  "bs_size s = length (bs_bits s) - bs_start_index s"

definition AppendBit :: "bool \<Rightarrow> bit_string \<Rightarrow> bit_string" where
  "AppendBit b s = s\<lparr>bs_bits := bs_bits s @ [b]\<rparr>"

definition AppendBits :: "nat \<Rightarrow> nat \<Rightarrow> bit_string \<Rightarrow> bit_string" where
  "AppendBits n bits s = s\<lparr>bs_bits := bs_bits s @ map (\<lambda>i. bit bits (n - 1 - i)) [0 ..< n]\<rparr>"

definition AppendBytes :: "string \<Rightarrow> bit_string \<Rightarrow> bit_string" where
  "AppendBytes bytes s = foldl (\<lambda>s c. AppendBits 8 (of_char c) s) s bytes"

definition OfByteString_bits :: "string \<Rightarrow> bit_string" where
  "OfByteString_bits data = foldl (\<lambda>s c. AppendBits 8 (of_char c) s) empty_bit_string data"

definition AppendHexString :: "string \<Rightarrow> bit_string \<Rightarrow> bit_string status_or" where
  "AppendHexString hex_string s =
     bind_or (HexStringToByteString hex_string) (\<lambda>bytes. Inr (AppendBytes bytes s))"

definition Consume :: "int \<Rightarrow> bit_string \<Rightarrow> status_code \<times> bit_string" where
  "Consume num_bits s =
     (if num_bits < 0 then (INVALID_ARGUMENT, s)
      else if int (bs_size s) < num_bits then (FAILED_PRECONDITION, s)
      else (OK, s\<lparr>bs_start_index := bs_start_index s + nat num_bits\<rparr>))"

text \<open>
  \<open>ToHexString(start, num_bits)\<close> works from the last byte on. One byte is accumulated from its
  least significant bit; a first byte of at most four bits is printed as one digit.
\<close>

definition hex_byte :: "bool list \<Rightarrow> nat \<Rightarrow> nat \<Rightarrow> nat \<Rightarrow> string" where
  "hex_byte bits start num_bits byte =
     (let n = min 8 (num_bits - byte * 8);
          acc = foldl (\<lambda>c i. drop_bit 1 c OR
                  (if bits ! (start + num_bits - 1 - (byte * 8 + i)) then push_bit 7 1 else 0)) (0 :: nat) [0 ..< n];
          character = foldl (\<lambda>c _. drop_bit 1 c) acc [n ..< 8];
          hex = BytesToHexString [char_of character]
      in rev (if n \<le> 4 then take 1 (drop 1 hex) else hex))"

definition ToHexString_range :: "bit_string \<Rightarrow> nat \<Rightarrow> nat \<Rightarrow> string" where
  "ToHexString_range s start num_bits =
     ''0x'' @ rev (concat (map (hex_byte (bs_bits s) start num_bits) [0 ..< (num_bits + 7) div 8]))"

definition PeekHexString :: "int \<Rightarrow> bit_string \<Rightarrow> string status_or" where
  "PeekHexString num_bits s =
     (if num_bits < 0 then Inl INVALID_ARGUMENT
      else if int (bs_size s) < num_bits then Inl FAILED_PRECONDITION
      else Inr (ToHexString_range s (bs_start_index s) (nat num_bits)))"

definition ConsumeHexString :: "int \<Rightarrow> bit_string \<Rightarrow> string status_or \<times> bit_string" where
  "ConsumeHexString num_bits s =
     (case Consume num_bits s of
        (st, s') \<Rightarrow>
          (return_if_error st (Inr (ToHexString_range s' (bs_start_index s' - nat num_bits) (nat num_bits))), s'))"

definition ConsumeMacAddress :: "bit_string \<Rightarrow> mac_address status_or \<times> bit_string" where
  "ConsumeMacAddress s = (case ConsumeHexString 48 s of (r, s') \<Rightarrow> (bind_or r OfHexString, s'))"

definition ConsumeIpv4Address :: "bit_string \<Rightarrow> ipv4_address status_or \<times> bit_string" where
  "ConsumeIpv4Address s = (case ConsumeHexString 32 s of (r, s') \<Rightarrow> (bind_or r OfHexString, s'))"

definition ConsumeIpv6Address :: "bit_string \<Rightarrow> ipv6_address status_or \<times> bit_string" where
  "ConsumeIpv6Address s = (case ConsumeHexString 128 s of (r, s') \<Rightarrow> (bind_or r OfHexString, s'))"

text \<open>\<open>ConsumeBitset<n>\<close>: bit \<open>n - i - 1\<close> of the result is the \<open>i\<close>-th bit consumed.\<close>

definition ConsumeBitset :: "nat \<Rightarrow> bit_string \<Rightarrow> nat status_or \<times> bit_string" where
  "ConsumeBitset n s =
     (case Consume (int n) s of
        (st, s') \<Rightarrow>
          (return_if_error st (Inr (foldl (\<lambda>r i.
             if bs_bits s ! (bs_start_index s + i) then set_bit (n - i - 1) r else r) 0 [0 ..< n])), s'))"

definition byte_of_bits :: "bool list \<Rightarrow> nat \<Rightarrow> nat" where
  "byte_of_bits bits from =
     foldl (\<lambda>c i. take_bit 8 (push_bit 1 c) OR (if bits ! (from + i) then 1 else 0)) 0 [0 ..< 8]"

definition ToByteString :: "bit_string \<Rightarrow> string status_or" where
  "ToByteString s =
     (if bs_size s mod 8 \<noteq> 0 then Inl FAILED_PRECONDITION
      else Inr (map (\<lambda>byte. char_of (byte_of_bits (bs_bits s) (bs_start_index s + byte * 8)))
                  [0 ..< bs_size s div 8]))"

definition ToHexString_all :: "bit_string \<Rightarrow> string status_or" where
  "ToHexString_all s =
     (if bs_size s = 0 then Inl FAILED_PRECONDITION
      else Inr (ToHexString_range s (bs_start_index s) (bs_size s)))"

section \<open>Readable byte strings\<close>

definition ascii_isspace :: "char \<Rightarrow> bool" where
  "ascii_isspace c = (let n = of_char c :: nat in n = 32 \<or> 9 \<le> n \<and> n \<le> 13)"

definition StripAsciiWhitespace :: "string \<Rightarrow> string" where
  "StripAsciiWhitespace s = rev (dropWhile ascii_isspace (rev (dropWhile ascii_isspace s)))"

definition after_first :: "char \<Rightarrow> string \<Rightarrow> string" where
  "after_first d s = (if d \<in> set s then tl (dropWhile (\<lambda>c. c \<noteq> d) s) else s)"

definition before_first :: "char \<Rightarrow> string \<Rightarrow> string" where
  "before_first d s = takeWhile (\<lambda>c. c \<noteq> d) s"

fun append_binary :: "string \<Rightarrow> bit_string \<Rightarrow> bit_string status_or" where
  "append_binary [] s = Inr s"
| "append_binary (c # cs) s =
     (if ascii_isspace c then append_binary cs s
      else if c = CHR ''0'' then append_binary cs (AppendBit False s)
      else if c = CHR ''1'' then append_binary cs (AppendBit True s)
      else Inl INVALID_ARGUMENT)"

fun append_hex :: "string \<Rightarrow> bit_string \<Rightarrow> bit_string status_or" where
  "append_hex [] s = Inr s"
| "append_hex (c # cs) s =
     (if ascii_isspace c then append_hex cs s
      else case HexCharToDigit c of
             Inr d \<Rightarrow> append_hex cs (AppendBits 4 d s)
           | Inl _ \<Rightarrow> Inl INVALID_ARGUMENT)"

definition append_line :: "string \<Rightarrow> bit_string \<Rightarrow> bit_string status_or" where
  "append_line line0 s =
     (let line = StripAsciiWhitespace (before_first CHR ''#'' (after_first CHR '':'' line0))
      in if line = [] then Inr s
         else if take 2 line = ''0b'' then append_binary (drop 2 line) s
         else if take 2 line = ''0x'' then append_hex (drop 2 line) s
         else if take 1 line = [CHR 0x22] \<and> tl line \<noteq> [] \<and> last (tl line) = CHR 0x22
         then Inr (AppendBytes (butlast (tl line)) s)
         else Inl INVALID_ARGUMENT)"

fun append_lines :: "string list \<Rightarrow> bit_string \<Rightarrow> bit_string status_or" where
  "append_lines [] s = Inr s"
| "append_lines (l # ls) s = bind_or (append_line l s) (\<lambda>s'. append_lines ls s')"

definition ReadableByteStringToByteString :: "string \<Rightarrow> string status_or" where
  "ReadableByteStringToByteString readable =
     bind_or (append_lines (str_split CHR 0x0A readable) empty_bit_string) ToByteString"

section \<open>Lemmas\<close>

definition byte_bits :: "nat \<Rightarrow> bool list" where
  "byte_bits b = map (\<lambda>i. bit b (7 - i)) [0 ..< 8]"

lemma AppendBytes_bits: "AppendBytes s x = x\<lparr>bs_bits := bs_bits x @ concat (map (\<lambda>c. byte_bits (of_char c)) s)\<rparr>"
proof (induction s arbitrary: x)
  case (Cons c s)
  from Cons [of "AppendBits 8 (of_char c) x"] show ?case
    by (simp add: AppendBytes_def AppendBits_def byte_bits_def del: upt_Suc)
qed (simp add: AppendBytes_def)

lemma OfByteString_bits_eq:
  "OfByteString_bits s = \<lparr>bs_bits = concat (map (\<lambda>c. byte_bits (of_char c)) s), bs_start_index = 0\<rparr>"
  using AppendBytes_bits [of s empty_bit_string]
  by (simp add: OfByteString_bits_def AppendBytes_def empty_bit_string_def)

lemma length_byte_bits [simp]: "length (byte_bits b) = 8"
  by (simp add: byte_bits_def)

lemma length_concat_bytes: "length (concat (map (\<lambda>c. byte_bits (of_char c)) s)) = 8 * length s"
  by (induction s) auto

lemma nth_concat_bytes:
  "j < length s \<Longrightarrow> i < 8 \<Longrightarrow>
     concat (map (\<lambda>c. byte_bits (of_char c)) s) ! (8 * j + i) = bit (of_char (s ! j) :: nat) (7 - i)"
proof (induction s arbitrary: j)
  case (Cons c s)
  then show ?case
    by (cases j) (auto simp: nth_append byte_bits_def del: upt_Suc)
qed simp

lemma fold_byte_prefix:
  fixes n :: nat
  assumes "n < 256" and "k \<le> 8"
  shows "foldl (\<lambda>c i. take_bit 8 (push_bit 1 c) OR (if bit n (7 - i) then 1 else 0)) 0 [0 ..< k] = n div 2 ^ (8 - k)"
  using assms(2)
proof (induction k)
  case 0
  then show ?case using assms(1) by simp
next
  case (Suc k)
  have split: "n div 2 ^ (7 - k) = n div 2 ^ (8 - k) * 2 + of_bool (bit n (7 - k))"
  proof -
    have "8 - k = Suc (7 - k)" using Suc.prems by simp
    then have "n div 2 ^ (8 - k) = n div 2 ^ (7 - k) div 2"
      by (metis div_mult2_eq power_Suc2)
    moreover have "of_bool (bit n (7 - k)) = n div 2 ^ (7 - k) mod 2"
      by (simp add: bit_iff_odd mod_2_eq_odd)
    ultimately show ?thesis by (simp only: div_mult_mod_eq)
  qed
  moreover have "n div 2 ^ (7 - k) < 256"
    using assms(1) by (meson div_le_dividend le_less_trans)
  ultimately have "n div 2 ^ (8 - k) * 2 < 256" by linarith
  then have "take_bit 8 (push_bit 1 (n div 2 ^ (8 - k))) = push_bit 1 (n div 2 ^ (8 - k))"
    by (simp add: take_bit_nat_eq_self_iff push_bit_eq_mult)
  with split push_or_add [of "of_bool (bit n (7 - k))" 1 "n div 2 ^ (8 - k)"]
  have "take_bit 8 (push_bit 1 (n div 2 ^ (8 - k))) OR (if bit n (7 - k) then 1 else 0) = n div 2 ^ (7 - k)"
    by (simp add: of_bool_def split: if_splits)
  with Suc show ?case by simp
qed

lemma byte_of_bits_concat:
  assumes "j < length s"
  shows "byte_of_bits (concat (map (\<lambda>c. byte_bits (of_char c)) s)) (8 * j) = of_char (s ! j)"
proof -
  have "byte_of_bits (concat (map (\<lambda>c. byte_bits (of_char c)) s)) (8 * j) =
    foldl (\<lambda>c i. take_bit 8 (push_bit 1 c) OR (if bit (of_char (s ! j) :: nat) (7 - i) then 1 else 0)) 0 [0 ..< 8]"
    unfolding byte_of_bits_def
    by (rule foldl_cong) (simp_all add: nth_concat_bytes [OF assms] del: upt_Suc)
  then show ?thesis using fold_byte_prefix [of "of_char (s ! j)" 8, OF of_char_lt] by simp
qed

lemma ToByteString_concat:
  "ToByteString \<lparr>bs_bits = concat (map (\<lambda>c. byte_bits (of_char c)) s), bs_start_index = 0\<rparr> = Inr s"
  by (simp add: ToByteString_def bs_size_def length_concat_bytes)
    (rule nth_equalityI; simp add: byte_of_bits_concat mult.commute [of _ 8])

fun append_fields :: "(nat \<times> nat) list \<Rightarrow> bit_string \<Rightarrow> bit_string" where
  "append_fields [] s = s"
| "append_fields ((n, v) # fs) s = append_fields fs (AppendBits n v s)"

fun consume_fields :: "nat list \<Rightarrow> bit_string \<Rightarrow> nat list status_or" where
  "consume_fields [] s = Inr []"
| "consume_fields (n # ns) s =
     (case ConsumeBitset n s of (r, t) \<Rightarrow>
        bind_or r (\<lambda>v. bind_or (consume_fields ns t) (\<lambda>vs. Inr (v # vs))))"

definition field_bits :: "nat \<times> nat \<Rightarrow> bool list" where
  "field_bits f = map (\<lambda>i. bit (snd f) (fst f - 1 - i)) [0 ..< fst f]"

lemma append_fields_bits:
  "append_fields fs s = s\<lparr>bs_bits := bs_bits s @ concat (map field_bits fs)\<rparr>"
  by (induction fs s rule: append_fields.induct) (simp_all add: AppendBits_def field_bits_def)

lemma bitset_fold:
  assumes "k \<le> n"
  shows "bit (foldl (\<lambda>r i. if f i then Bit_Operations.set_bit (n - i - 1) r else r) (0::nat) [0 ..< k]) j
     \<longleftrightarrow> n - k \<le> j \<and> j < n \<and> f (n - 1 - j)"
  using assms
proof (induction k)
  case (Suc k)
  have "n - 1 - j = k \<longleftrightarrow> j = n - k - 1" if "j < n" using that Suc.prems by linarith
  with Suc show ?case
    by (auto simp: bit_set_bit_iff le_less_Suc_eq)
qed auto

lemma ConsumeBitset_front:
  assumes "v < 2 ^ n"
  shows "ConsumeBitset n \<lparr>bs_bits = pre @ field_bits (n, v) @ rest, bs_start_index = length pre\<rparr> =
    (Inr v, \<lparr>bs_bits = pre @ field_bits (n, v) @ rest, bs_start_index = length pre + n\<rparr>)"
proof -
  have f: "foldl (\<lambda>r i. if (pre @ field_bits (n, v) @ rest) ! (length pre + i)
       then Bit_Operations.set_bit (n - i - 1) r else r) (0 :: nat) [0 ..< n] =
     foldl (\<lambda>r i. if bit v (n - 1 - i) then Bit_Operations.set_bit (n - i - 1) r else r) 0 [0 ..< n]"
    by (rule foldl_cong) (auto simp: nth_append field_bits_def)
  have "\<dots> = v"
  proof (rule bit_eqI)
    fix j
    have "\<not> n \<le> j" if "bit v j"
      using that assms by (metis bit_take_bit_iff take_bit_nat_eq_self not_less)
    then show "bit (foldl (\<lambda>r i. if bit v (n - 1 - i) then Bit_Operations.set_bit (n - i - 1) r else r) (0 :: nat) [0 ..< n]) j = bit v j"
      by (auto simp: bitset_fold [OF order_refl, where f = "\<lambda>i. bit v (n - 1 - i)", simplified])
  qed
  with f show ?thesis
    by (simp add: ConsumeBitset_def Consume_def bs_size_def field_bits_def)
qed

lemma consume_append_fields:
  "list_all (\<lambda>(n, v). v < 2 ^ n) fs \<Longrightarrow>
     consume_fields (map fst fs) \<lparr>bs_bits = pre @ concat (map field_bits fs), bs_start_index = length pre\<rparr> = Inr (map snd fs)"
proof (induction fs arbitrary: pre)
  case (Cons f fs)
  obtain n v where f: "f = (n, v)" by fastforce
  from Cons.IH [of "pre @ field_bits f"] Cons.prems
  show ?case by (simp add: f ConsumeBitset_front) (simp add: field_bits_def)
qed simp

lemma byte_bits_nibbles: "byte_bits (of_char c) = field_bits (4, of_char c div 16) @ field_bits (4, of_char c mod 16)"
proof (rule nth_equalityI)
  fix i assume "i < length (byte_bits (of_char c))"
  then have i: "i < 8" by simp
  have hi: "bit (of_char c div 16 :: nat) j = bit (of_char c :: nat) (j + 4)" for j
    using bit_drop_bit_eq [of 4 "of_char c :: nat"] by (simp add: drop_bit_eq_div fun_eq_iff add.commute)
  have lo: "bit (of_char c mod 16 :: nat) j = bit (of_char c :: nat) j" if "j < 4" for j
    using that bit_take_bit_iff [of 4 "of_char c :: nat" j] by (simp add: take_bit_eq_mod)
  have "7 - i = 3 - i + 4" if "i < 4" using that by simp
  with i show "byte_bits (of_char c) ! i = (field_bits (4, of_char c div 16) @ field_bits (4, of_char c mod 16)) ! i"
    by (auto simp: byte_bits_def field_bits_def nth_append hi lo simp del: upt_Suc)
qed (simp add: byte_bits_def field_bits_def)

lemma AppendBits_field: "AppendBits n v s = s\<lparr>bs_bits := bs_bits s @ field_bits (n, v)\<rparr>"
  by (simp add: AppendBits_def field_bits_def)

lemma digit_not_special:
  assumes "d < 16"
  shows "\<not> ascii_isspace (digit_char d) \<and> digit_char d \<notin> {CHR '':'', CHR ''#'', CHR 0x0A}"
proof -
  have "digit_char d \<noteq> CHR 0x0A" "digit_char d \<noteq> CHR ''#''" "digit_char d \<noteq> CHR '':''"
    using digit_value_char [OF assms] by (auto simp: digit_value_def)
  moreover have "\<not> ascii_isspace (digit_char d)"
    using assms by (simp add: ascii_isspace_def digit_char_def)
  ultimately show ?thesis by simp
qed

lemma append_hex_BytesToHexString:
  "append_hex (BytesToHexString s) x = Inr (AppendBytes s x)"
proof (induction s arbitrary: x)
  case Nil
  then show ?case by (simp add: BytesToHexString_def AppendBytes_def)
next
  case (Cons c s)
  have lt: "of_char c div 16 < (16 :: nat)" "of_char c mod 16 < (16 :: nat)"
    using of_char_lt [of c] by (auto simp: div_less_iff_less_mult)
  have *: "append_hex (BytesToHexString (c # s)) x =
     append_hex (BytesToHexString s) (AppendBits 4 (of_char c mod 16) (AppendBits 4 (of_char c div 16) x))"
    using lt digit_not_special by (simp add: BytesToHexString_def)
  show ?case unfolding * Cons.IH
    by (simp add: AppendBytes_bits AppendBits_field byte_bits_nibbles)
qed

lemma hex_chars: "ch \<in> set (BytesToHexString s) \<Longrightarrow> \<exists>d < 16. ch = digit_char d"
proof (induction s)
  case (Cons c s)
  have lt: "of_char c div 16 < (16 :: nat)" "of_char c mod 16 < (16 :: nat)"
    using of_char_lt [of c] by (auto simp: div_less_iff_less_mult)
  from Cons show ?case by (auto simp: BytesToHexString_def intro: lt)
qed (simp add: BytesToHexString_def)

lemma hex_plain:
  "ch \<in> set (BytesToHexString s) \<Longrightarrow> \<not> ascii_isspace ch \<and> ch \<noteq> CHR '':'' \<and> ch \<noteq> CHR ''#'' \<and> ch \<noteq> CHR 0x0A"
  using hex_chars [of ch s] digit_not_special by fastforce


lemma dropWhile_prefix: "list_all P xs \<Longrightarrow> dropWhile P (xs @ ys) = dropWhile P ys"
  by (induction xs) simp_all

lemma strip_plain:
  assumes "w \<noteq> []" and "\<not> ascii_isspace (hd w)" and "\<not> ascii_isspace (last w)"
    and "list_all ascii_isspace pre" and "list_all ascii_isspace post"
  shows "StripAsciiWhitespace (pre @ w @ post) = w"
proof -
  have "dropWhile ascii_isspace (pre @ w @ post) = w @ post"
    using assms(1,2,4) by (cases w) (simp_all add: dropWhile_prefix)
  moreover have "dropWhile ascii_isspace (rev (w @ post)) = rev w"
    using assms(1,3,5) by (cases w rule: rev_cases) (simp_all add: dropWhile_prefix)
  ultimately show ?thesis by (simp add: StripAsciiWhitespace_def)
qed

lemma append_line_hex:
  assumes "CHR '':'' \<notin> set label"
  shows "append_line (label @ '': 0x'' @ BytesToHexString s @ '' #'' @ remark) x = Inr (AppendBytes s x)"
proof -
  let ?w = "''0x'' @ BytesToHexString s"
  have label: "list_all (\<lambda>c. c \<noteq> CHR '':'') label"
    using assms by (auto simp: list_all_iff)
  have "after_first CHR '':'' (label @ '': 0x'' @ BytesToHexString s @ '' #'' @ remark) = '' '' @ ?w @ '' #'' @ remark"
    using label by (simp add: after_first_def dropWhile_prefix)
  moreover have "before_first CHR ''#'' ('' '' @ ?w @ '' #'' @ remark) = '' '' @ ?w @ '' ''"
    using hex_plain [of _ s] by (auto simp: before_first_def takeWhile_append2)
  moreover have "StripAsciiWhitespace ('' '' @ ?w @ '' '') = ?w"
  proof (rule strip_plain)
    have "last ?w \<in> {CHR ''x''} \<union> set (BytesToHexString s)" 
      by (cases "BytesToHexString s = []") simp_all
    then show "\<not> ascii_isspace (last ?w)" using hex_plain [of "last ?w" s] 
      by (auto simp: ascii_isspace_def)
  qed (auto simp: ascii_isspace_def)
  ultimately show ?thesis
    by (simp add: append_line_def append_hex_BytesToHexString)
qed

definition readable_line :: "string \<times> string \<times> string \<Rightarrow> string" where
  "readable_line l = (case l of (label, bytes, remark) \<Rightarrow> label @ '': 0x'' @ BytesToHexString bytes @ '' #'' @ remark)"

definition plain_line :: "string \<times> string \<times> string \<Rightarrow> bool" where
  "plain_line l = (case l of (label, bytes, remark) \<Rightarrow>
     CHR '':'' \<notin> set label \<and> CHR 0x0A \<notin> set label \<and> CHR 0x0A \<notin> set remark)"

fun join_lines :: "string list \<Rightarrow> string" where
  "join_lines [] = []"
| "join_lines [l] = l"
| "join_lines (l # ls) = l @ CHR 0x0A # join_lines ls"

lemma str_split_join: "ls \<noteq> [] \<Longrightarrow> list_all (\<lambda>l. CHR 0x0A \<notin> set l) ls \<Longrightarrow> str_split CHR 0x0A (join_lines ls) = ls"
  by (induction ls rule: join_lines.induct) (simp_all add: str_split_no_delim str_split_append)

lemma append_line_readable: "plain_line l \<Longrightarrow> append_line (readable_line l) x = Inr (AppendBytes (fst (snd l)) x)"
  using append_line_hex [of "fst l" "fst (snd l)" "snd (snd l)" x]
  by (simp add: plain_line_def readable_line_def split: prod.splits)

lemma AppendBytes_append: "AppendBytes (s @ t) x = AppendBytes t (AppendBytes s x)"
  by (simp add: AppendBytes_def)

lemma append_lines_readable:
  "list_all plain_line ls \<Longrightarrow>
     append_lines (map readable_line ls) x = Inr (AppendBytes (concat (map (\<lambda>l. fst (snd l)) ls)) x)"
  by (induction ls arbitrary: x)
    (simp_all add: append_line_readable AppendBytes_append, simp add: AppendBytes_def)

lemma readable_line_no_newline: "plain_line l \<Longrightarrow> CHR 0x0A \<notin> set (readable_line l)"
  using hex_plain by (auto simp: plain_line_def readable_line_def)

text \<open>
  Fields of any widths appended to an empty bit string one after another are consumed
  in the same order with the same values, and a byte string put into a bit string comes out
  unchanged as bytes.
\<close>
theorem bit_string_fifo:
  assumes "list_all (\<lambda>(n, v). v < 2 ^ n) fs"
  shows "consume_fields (map fst fs) (append_fields fs empty_bit_string) = Inr (map snd fs) \<and>
     ToByteString (OfByteString_bits bytes) = Inr bytes"
  using consume_append_fields [OF assms, of "[]"]
  by (simp add: append_fields_bits empty_bit_string_def OfByteString_bits_eq ToByteString_concat)

theorem bit_string_fifo_witness:
  "consume_fields [3, 12, 1] (append_fields [(3, 5), (12, 4095), (1, 0)] empty_bit_string) = Inr [5, 4095, 0] \<and>
     ToByteString (OfByteString_bits ''pins'') = Inr ''pins''"
  using bit_string_fifo [of "[(3, 5), (12, 4095), (1, 0)]" "''pins''"] by simp

text \<open>
  The readable notation: a text whose lines have the form \<open>label: 0x<hex digits> # remark\<close>
  is parsed to the concatenation of the bytes of its lines, whatever the labels and remarks are.
\<close>
theorem readable_byte_string_parses:
  assumes "ls \<noteq> []" and "list_all plain_line ls"
  shows "ReadableByteStringToByteString (join_lines (map readable_line ls)) =
     Inr (concat (map (\<lambda>l. fst (snd l)) ls))"
proof -
  have "list_all (\<lambda>l. CHR 0x0A \<notin> set l) (map readable_line ls)"
    using assms(2) readable_line_no_newline by (auto simp: list_all_iff)
  then have "str_split CHR 0x0A (join_lines (map readable_line ls)) = map readable_line ls"
    using assms(1) by (intro str_split_join) simp_all
  then show ?thesis
    by (simp add: ReadableByteStringToByteString_def append_lines_readable [OF assms(2)]
        AppendBytes_bits empty_bit_string_def ToByteString_concat)
qed

theorem readable_byte_string_parses_witness:
  "ReadableByteStringToByteString (join_lines (map readable_line [(''src'', ''ab'', ''x:#''), (''dst'', [], [])])) = Inr ''ab''"
  using readable_byte_string_parses [of "[(''src'', ''ab'', ''x:#''), (''dst'', [], [])]"]
  by (simp add: plain_line_def)

section \<open>Hexadecimal output\<close>

text \<open>The number that a list of bits denotes, the most significant bit first.\<close>

definition bits_value :: "bool list \<Rightarrow> nat" where
  "bits_value bits = horner_sum of_bool 2 (rev bits)"

lemma bits_value_less: "bits_value b < 2 ^ length b"
  using horner_sum_of_bool_2_less [of "rev b"] by (simp add: bits_value_def flip: of_nat_less_iff)

lemma bit_bits_value: "bit (bits_value b) j \<longleftrightarrow> j < length b \<and> b ! (length b - 1 - j)"
  by (auto simp: bits_value_def bit_horner_sum_bit_iff rev_nth)

lemma field_bits_value: "field_bits (length b, bits_value b) = b"
  by (rule nth_equalityI) (auto simp: field_bits_def bit_bits_value)

lemma bits_value_field: "v < 2 ^ n \<Longrightarrow> bits_value (field_bits (n, v)) = v"
proof (rule bit_eqI)
  fix j
  assume "v < 2 ^ n"
  then have "bit v j \<Longrightarrow> j < n" by (metis bit_take_bit_iff take_bit_nat_eq_self)
  then show "bit (bits_value (field_bits (n, v))) j = bit v j" by (auto simp: bit_bits_value field_bits_def)
qed

lemma length_field_bits [simp]: "length (field_bits (n, v)) = n"
  by (simp add: field_bits_def)

lemma hex_digit_take_bit:
  assumes "b < 2 ^ n"
  shows "hex_digit_of n b i = take_bit 4 (drop_bit (4 * i) b)"
proof -
  have "take_bit 4 w = 8 * of_bool (bit w 3) + 4 * of_bool (bit w 2) + 2 * of_bool (bit w 1) + of_bool (bit w 0)" for w :: nat
  proof -
    have "[0 ..< 4] = [0, 1, 2, 3 :: nat]" by (simp add: upt_rec eval_nat_numeral)
    then have "take_bit 4 w = horner_sum of_bool 2 (map (bit w) [0, 1, 2, 3])"
      using horner_sum_bit_eq_take_bit [of w 4] by metis
    then show ?thesis by simp
  qed
  then show ?thesis unfolding hex_digit_of_eq [OF assms] by (simp add: bit_drop_bit_eq)
qed

lemma accumulate_low_bits:
  assumes "\<And>i. i < k \<Longrightarrow> f i = bit w i" "k \<le> 8"
  shows "foldl (\<lambda>c i. drop_bit 1 c OR (if f i then push_bit 7 1 else 0)) (0 :: nat) [0 ..< k] = push_bit (8 - k) (take_bit k w)"
  using assms
proof (induction k)
  case (Suc k)
  define top where "top = push_bit 7 (1 :: nat)"
  have top: "bit top n \<longleftrightarrow> n = 7" for n by (simp only: top_def bit_push_bit_iff bit_1_iff) auto
  have "foldl (\<lambda>c i. drop_bit 1 c OR (if f i then top else 0)) (0 :: nat) [0 ..< k] = push_bit (8 - k) (take_bit k w)"
    using Suc by (simp only: top_def)
  then have "foldl (\<lambda>c i. drop_bit 1 c OR (if f i then top else 0)) (0 :: nat) [0 ..< Suc k] =
    drop_bit 1 (push_bit (8 - k) (take_bit k w)) OR (if bit w k then top else 0)" using Suc.prems(1) [of k] by simp
  also have "\<dots> = push_bit (8 - Suc k) (take_bit (Suc k) w)"
    by (rule bit_eqI) (use Suc.prems(2) in \<open>auto simp: bit_simps top nat_less_le\<close>)
  finally show ?case by (simp only: top_def)
qed simp

lemma foldl_drop_bit: "foldl (\<lambda>c _. drop_bit 1 c) c xs = drop_bit (length xs) (c :: nat)"
  by (induction xs arbitrary: c) (simp_all add: drop_bit_drop_bit)

lemma hex_byte_eq:
  fixes b defines "n \<equiv> length b"
  assumes "take n (drop start bits) = b" "8 * j < n"
  shows "hex_byte bits start n j =
    map (\<lambda>i. HexDigitToChar (hex_digit_of n (bits_value b) i)) (if n - 8 * j \<le> 4 then [2 * j] else [2 * j, 2 * j + 1])"
proof -
  let ?w = "drop_bit (8 * j) (bits_value b)" and ?m = "min 8 (n - j * 8)"
  have len: "start + n \<le> length bits" 
  proof -
    have "length (take n (drop start bits)) = n" using arg_cong [OF assms(2), of length] by (simp only: n_def)
    then show ?thesis using assms(3) by simp
  qed
  have b: "bits ! (start + i) = b ! i" if "i < n" for i
    using that len by (simp flip: assms(2) add: add.commute)
  have lt: "bits_value b < 2 ^ n" by (simp add: n_def bits_value_less)
  have "bits ! (start + n - 1 - (j * 8 + i)) = bit ?w i" if "i < ?m" for i
  proof -
    have "start + n - 1 - (j * 8 + i) = start + (n - 1 - (j * 8 + i))" using that by auto
    then have "bits ! (start + n - 1 - (j * 8 + i)) = b ! (n - 1 - (j * 8 + i))"
      using b [of "n - 1 - (j * 8 + i)"] that by simp
    also have "\<dots> = bit ?w i" using that by (auto simp: bit_drop_bit_eq bit_bits_value n_def mult.commute)
    finally show ?thesis .
  qed
  from accumulate_low_bits [of ?m, OF this]
  have acc: "foldl (\<lambda>c i. drop_bit 1 c OR (if bits ! (start + n - 1 - (j * 8 + i)) then push_bit 7 1 else 0)) (0 :: nat) [0 ..< ?m] =
    push_bit (8 - ?m) (take_bit ?m ?w)" by simp
  have "drop_bit (8 - ?m) (push_bit (8 - ?m) (take_bit ?m ?w)) = take_bit ?m ?w" by (simp add: drop_bit_push_bit)
  also have "\<dots> = take_bit 8 ?w"
  proof (rule bit_eqI)
    fix i
    have "bit ?w i \<Longrightarrow> i < n - j * 8" by (simp add: bit_drop_bit_eq bit_bits_value n_def) linarith
    then show "bit (take_bit ?m ?w) i = bit (take_bit 8 ?w) i" by (auto simp: bit_take_bit_iff)
  qed
  finally have chr: "foldl (\<lambda>c _. drop_bit 1 c) (foldl (\<lambda>c i. drop_bit 1 c OR
      (if bits ! (start + n - 1 - (j * 8 + i)) then push_bit 7 1 else 0)) (0 :: nat) [0 ..< ?m]) [?m ..< 8] = take_bit 8 ?w"
    unfolding acc foldl_drop_bit by simp
  have byte: "of_char (char_of (take_bit 8 ?w)) = take_bit 8 ?w" by (simp add: take_bit_eq_mod)
  have nib: "take_bit 8 ?w mod 16 = hex_digit_of n (bits_value b) (2 * j)" "take_bit 8 ?w div 16 = hex_digit_of n (bits_value b) (2 * j + 1)"
  proof -
    have "take_bit 8 ?w mod 16 = take_bit 4 (take_bit 8 ?w)" by (simp add: take_bit_eq_mod)
    then show "take_bit 8 ?w mod 16 = hex_digit_of n (bits_value b) (2 * j)"
      unfolding hex_digit_take_bit [OF lt] by (simp add: take_bit_take_bit)
    have "take_bit 8 ?w div 16 = drop_bit 4 (take_bit 8 ?w)" by (simp add: drop_bit_eq_div)
    also have "\<dots> = take_bit 4 (drop_bit (8 * j + 4) (bits_value b))"
      by (simp add: drop_bit_take_bit drop_bit_drop_bit add.commute)
    finally show "take_bit 8 ?w div 16 = hex_digit_of n (bits_value b) (2 * j + 1)"
      unfolding hex_digit_take_bit [OF lt] by (simp add: add.commute)
  qed
  have digits: "digit_char (hex_digit_of n (bits_value b) i) = HexDigitToChar (hex_digit_of n (bits_value b) i)" for i
    by (simp add: HexDigitToChar_def hex_digit_of_less [OF lt])
  have "BytesToHexString [char_of (take_bit 8 ?w)] =
    [HexDigitToChar (hex_digit_of n (bits_value b) (2 * j + 1)), HexDigitToChar (hex_digit_of n (bits_value b) (2 * j))]"
    by (simp only: BytesToHexString_def byte nib digits list.map concat.simps append.simps append_Nil2)
  moreover have "min 8 (n - j * 8) \<le> 4 \<longleftrightarrow> n - 8 * j \<le> 4" by (auto simp: mult.commute)
  ultimately show ?thesis unfolding hex_byte_def Let_def chr by simp
qed

lemma concat_hex_bytes:
  assumes "\<And>j. 8 * j < n \<Longrightarrow> hb j = map dig (if n - 8 * j \<le> 4 then [2 * j] else [2 * j, 2 * j + 1])" "k \<le> (n + 7) div 8"
  shows "concat (map hb [0 ..< k]) = map dig [0 ..< min (2 * k) ((n + 3) div 4)]"
  using assms(2)
proof (induction k)
  case (Suc k)
  then have k: "8 * k < n" by simp
  have "min (2 * k) ((n + 3) div 4) = 2 * k" using k by simp
  moreover have "min (2 * Suc k) ((n + 3) div 4) = (if n - 8 * k \<le> 4 then Suc (2 * k) else Suc (Suc (2 * k)))"
    using k by auto
  ultimately show ?case using Suc assms(1) [OF k] by simp
qed simp

lemma ToHexString_range_eq:
  assumes "start + n \<le> length (bs_bits s)"
  shows "ToHexString_range s start n = BitsetToHexString n (bits_value (take n (drop start (bs_bits s))))"
proof -
  let ?b = "take n (drop start (bs_bits s))"
  have n: "length ?b = n" using assms by simp
  have "concat (map (hex_byte (bs_bits s) start n) [0 ..< (n + 7) div 8]) =
    map (\<lambda>i. HexDigitToChar (hex_digit_of n (bits_value ?b) i)) [0 ..< min (2 * ((n + 7) div 8)) ((n + 3) div 4)]"
    by (rule concat_hex_bytes, rule hex_byte_eq [of ?b start "bs_bits s", unfolded n]) (rule refl, assumption, rule order_refl)
  moreover have "min (2 * ((n + 7) div 8)) ((n + 3) div 4) = (n + 3) div 4" by (rule min_absorb2) linarith
  ultimately show ?thesis by (simp add: ToHexString_range_def BitsetToHexString_def)
qed

text \<open>The bits of a byte string, and the byte string of bits in whole bytes.\<close>

definition bytes_bits :: "string \<Rightarrow> bool list" where
  "bytes_bits s = concat (map (\<lambda>c. byte_bits (of_char c)) s)"

lemma bytes_bits_simps [simp]: "bytes_bits [] = []" "bytes_bits (c # s) = byte_bits (of_char c) @ bytes_bits s"
  "length (bytes_bits s) = 8 * length s"
  by (simp_all add: bytes_bits_def length_concat_bytes)

lemma bits_value_append: "bits_value (xs @ ys) = bits_value xs * 2 ^ length ys + bits_value ys"
  by (simp add: bits_value_def horner_sum_append)

lemma byte_bits_field: "byte_bits b = field_bits (8, b)"
  by (simp add: byte_bits_def field_bits_def)

lemma bits_value_byte [simp]: "bits_value (byte_bits (of_char c)) = of_char c"
  using of_char_lt [of c] by (simp add: byte_bits_field bits_value_field)

lemma bytes_bits_surj:
  assumes "8 dvd length b"
  obtains s where "b = bytes_bits s" "length b = 8 * length s"
proof -
  from assms obtain n where "length b = 8 * n" by (elim dvdE)
  then have "\<exists>s. b = bytes_bits s \<and> length s = n"
  proof (induction n arbitrary: b)
    case (Suc n)
    then obtain s where s: "drop 8 b = bytes_bits s" "length s = n" by (metis length_drop diff_add_inverse mult_Suc_right)
    have "length (take 8 b) = 8" using Suc.prems by simp
    then have "bits_value (take 8 b) < 256" using bits_value_less [of "take 8 b"] by simp
    then have "byte_bits (of_char (char_of (bits_value (take 8 b)) :: char)) = take 8 b"
      using field_bits_value [of "take 8 b"] \<open>length (take 8 b) = 8\<close> by (simp add: byte_bits_field)
    then have "b = bytes_bits (char_of (bits_value (take 8 b)) # s)" using s by (simp flip: s(1))
    with s(2) show ?case by (metis length_Cons)
  qed simp
  with that \<open>length b = 8 * n\<close> show ?thesis by blast
qed

lemma hex_digit_high:
  assumes "c < 2 ^ k" "v < 2 ^ n" "4 * i \<ge> n"
  shows "hex_digit_of (k + n) (c * 2 ^ n + v) i = take_bit 4 (drop_bit (4 * i - n) c)"
proof -
  have lt: "c * 2 ^ n + v < 2 ^ (k + n)"
  proof -
    have "c * 2 ^ n + v < (c + 1) * 2 ^ n" using assms(2) by simp
    also have "\<dots> \<le> 2 ^ k * 2 ^ n" using assms(1) by (intro mult_right_mono) simp_all
    finally show ?thesis by (simp add: power_add)
  qed
  have "drop_bit (4 * i) (c * 2 ^ n + v) = drop_bit (4 * i - n) (drop_bit n (c * 2 ^ n + v))"
    using assms(3) by (simp add: drop_bit_drop_bit)
  also have "drop_bit n (c * 2 ^ n + v) = c" using assms(2) by (simp add: drop_bit_eq_div)
  finally show ?thesis by (simp add: hex_digit_take_bit [OF lt])
qed

lemma hex_digit_low:
  assumes "c < 2 ^ k" "v < 2 ^ n" "4 * i + 4 \<le> n"
  shows "hex_digit_of (k + n) (c * 2 ^ n + v) i = hex_digit_of n v i"
proof -
  have lt: "c * 2 ^ n + v < 2 ^ (k + n)"
  proof -
    have "c * 2 ^ n + v < (c + 1) * 2 ^ n" using assms(2) by simp
    also have "\<dots> \<le> 2 ^ k * 2 ^ n" using assms(1) by (intro mult_right_mono) simp_all
    finally show ?thesis by (simp add: power_add)
  qed
  have "take_bit 4 (drop_bit (4 * i) w) = take_bit 4 (drop_bit (4 * i) (take_bit n w))" for w :: nat
    by (rule bit_eqI) (use assms(3) in \<open>auto simp: bit_simps\<close>)
  from this [of "c * 2 ^ n + v"] show ?thesis
    using assms(2) by (simp add: hex_digit_take_bit lt take_bit_eq_mod [of n])
qed

lemma BitsetToHexString_bytes:
  "BitsetToHexString (8 * length s) (bits_value (bytes_bits s)) = ByteStringToHexString s"
proof (induction s)
  case Nil
  show ?case by (simp add: BitsetToHexString_def ByteStringToHexString_def BytesToHexString_def)
next
  case (Cons c s)
  let ?n = "8 * length s" and ?v = "bits_value (bytes_bits s)"
  have v: "?v < 2 ^ ?n" using bits_value_less [of "bytes_bits s"] by simp
  have c: "of_char c < (2 :: nat) ^ 8" using of_char_lt [of c] by simp
  then have hi: "of_char c div 16 < (16 :: nat)" by (simp add: div_less_iff_less_mult)
  let ?d = "\<lambda>n v i. HexDigitToChar (hex_digit_of n v i)"
  let ?w = "of_char c * 2 ^ ?n + ?v"
  have k: "[0 ..< (8 + ?n + 3) div 4] = [0 ..< 2 * length s] @ [2 * length s, 2 * length s + 1]"
  proof -
    have "(8 + ?n + 3) div 4 = Suc (Suc (2 * length s))" by simp
    then show ?thesis by simp
  qed
  have low: "map (?d (8 + ?n) ?w) [0 ..< 2 * length s] = map (?d ?n ?v) [0 ..< 2 * length s]"
    using hex_digit_low [OF c v] by simp
  have "hex_digit_of (8 + ?n) ?w (2 * length s) = take_bit 4 (of_char c)"
    using hex_digit_high [OF c v, of "2 * length s"] by simp
  moreover have "hex_digit_of (8 + ?n) ?w (2 * length s + 1) = take_bit 4 (drop_bit 4 (of_char c))"
    using hex_digit_high [OF c v, of "2 * length s + 1"] by simp
  moreover have "take_bit 4 (of_char c) = of_char c mod (16 :: nat)" "take_bit 4 (drop_bit 4 (of_char c)) = of_char c div (16 :: nat)"
    using hi by (simp_all add: take_bit_eq_mod drop_bit_eq_div)
  ultimately have digits: "map (?d (8 + ?n) ?w) [2 * length s, 2 * length s + 1] =
    [digit_char (of_char c mod 16), digit_char (of_char c div 16)]"
    using hi by (simp add: HexDigitToChar_def)
  have "(?n + 3) div 4 = 2 * length s" by simp
  with Cons.IH have IH: "rev (map (?d ?n ?v) [0 ..< 2 * length s]) = BytesToHexString s"
    by (simp add: BitsetToHexString_def ByteStringToHexString_def)
  have "BitsetToHexString (8 + ?n) ?w = ByteStringToHexString (c # s)"
    unfolding BitsetToHexString_def k map_append low digits rev_append IH
    by (simp add: ByteStringToHexString_def BytesToHexString_def)
  then show ?case by (simp add: bits_value_append)
qed

end
