(* ===== verification/Packet_Headers.thy ===== *)
theory Packet_Headers
  imports Bit_Strings Text_Env "HOL-Library.State_Monad"
begin

text \<open>
  The headers that the packet library knows (\<open>p4_infra/packetlib/packetlib.proto\<close>, \<open>bit_widths.h\<close>), how one
  header determines the next, parsing and serializing of headers and packets, packet sizes and
  checksums (\<open>packetlib.cc\<close>). Shown: parsing a header loses no bit, and a checksum verifies.
\<close>

section \<open>Bit widths\<close>

named_theorems widths

definition kEthernetHeaderBitwidth :: nat where [widths]: "kEthernetHeaderBitwidth = 48 * 2 + 16"
definition kStandardIpv4HeaderBitwidth :: nat where [widths]: "kStandardIpv4HeaderBitwidth = 160"
definition kIpv6HeaderBitwidth :: nat where [widths]: "kIpv6HeaderBitwidth = 320"
definition kMinHopByHopOptionsHeaderBitwidth :: nat where [widths]: "kMinHopByHopOptionsHeaderBitwidth = 64"
definition kUdpHeaderBitwidth :: nat where [widths]: "kUdpHeaderBitwidth = 64"
definition kStandardTcpHeaderBitwidth :: nat where [widths]: "kStandardTcpHeaderBitwidth = 5 * 32"
definition kArpHeaderBitwidth :: nat where [widths]: "kArpHeaderBitwidth = 28 * 8"
definition kIcmpHeaderBitwidth :: nat where [widths]: "kIcmpHeaderBitwidth = 8 * 8"
definition kVlanHeaderBitwidth :: nat where [widths]: "kVlanHeaderBitwidth = 32"
definition kRfc2784GreHeaderWithoutOptionalsBitwidth :: nat where [widths]: "kRfc2784GreHeaderWithoutOptionalsBitwidth = 32"
definition kSaiP4BMv2PacketInHeaderBitwidth :: nat where [widths]: "kSaiP4BMv2PacketInHeaderBitwidth = 24"
definition kIpfixHeaderBitwidth :: nat where [widths]: "kIpfixHeaderBitwidth = 128"
definition kPsampHeaderBitwidth :: nat where [widths]: "kPsampHeaderBitwidth = 224"
definition kPtpHeaderBitwidth :: nat where [widths]: "kPtpHeaderBitwidth = 272"
definition kPspHeaderBitwidth :: nat where [widths]: "kPspHeaderBitwidth = 128"
definition kCsigHeaderBitwidth :: nat where [widths]: "kCsigHeaderBitwidth = 32"
definition kEthernetEthertypeBitwidth :: nat where [widths]: "kEthernetEthertypeBitwidth = 16"
definition kVlanPriorityCodePointBitwidth :: nat where [widths]: "kVlanPriorityCodePointBitwidth = 3"
definition kVlanDropEligibilityIndicatorBitwidth :: nat where [widths]: "kVlanDropEligibilityIndicatorBitwidth = 1"
definition kVlanVlanIdentifierBitwidth :: nat where [widths]: "kVlanVlanIdentifierBitwidth = 12"
definition kVlanEthertypeBitwidth :: nat where [widths]: "kVlanEthertypeBitwidth = 16"
definition kCsigSignalTypeBitwidth :: nat where [widths]: "kCsigSignalTypeBitwidth = 3"
definition kCsigReserved0Bitwidth :: nat where [widths]: "kCsigReserved0Bitwidth = 1"
definition kCsigSignalValueBitwidth :: nat where [widths]: "kCsigSignalValueBitwidth = 5"
definition kCsigLocatorMetadataBitwidth :: nat where [widths]: "kCsigLocatorMetadataBitwidth = 7"
definition kCsigEthertypeBitwidth :: nat where [widths]: "kCsigEthertypeBitwidth = 16"
definition kIpVersionBitwidth :: nat where [widths]: "kIpVersionBitwidth = 4"
definition kIpIhlBitwidth :: nat where [widths]: "kIpIhlBitwidth = 4"
definition kIpDscpBitwidth :: nat where [widths]: "kIpDscpBitwidth = 6"
definition kIpEcnBitwidth :: nat where [widths]: "kIpEcnBitwidth = 2"
definition kIpTotalLengthBitwidth :: nat where [widths]: "kIpTotalLengthBitwidth = 16"
definition kIpIdentificationBitwidth :: nat where [widths]: "kIpIdentificationBitwidth = 16"
definition kIpFlagsBitwidth :: nat where [widths]: "kIpFlagsBitwidth = 3"
definition kIpFragmentOffsetBitwidth :: nat where [widths]: "kIpFragmentOffsetBitwidth = 13"
definition kIpTtlBitwidth :: nat where [widths]: "kIpTtlBitwidth = 8"
definition kIpProtocolBitwidth :: nat where [widths]: "kIpProtocolBitwidth = 8"
definition kIpChecksumBitwidth :: nat where [widths]: "kIpChecksumBitwidth = 16"
definition kIpFlowLabelBitwidth :: nat where [widths]: "kIpFlowLabelBitwidth = 20"
definition kIpPayloadLengthBitwidth :: nat where [widths]: "kIpPayloadLengthBitwidth = 16"
definition kIpNextHeaderBitwidth :: nat where [widths]: "kIpNextHeaderBitwidth = 8"
definition kIpHopLimitBitwidth :: nat where [widths]: "kIpHopLimitBitwidth = 8"
definition kHopByHopNextHeaderBitwidth :: nat where [widths]: "kHopByHopNextHeaderBitwidth = 8"
definition kHopByHopHeaderExtensionLengthBitwidth :: nat where [widths]: "kHopByHopHeaderExtensionLengthBitwidth = 8"
definition kHopByHopOptionsAndPaddingBitwidth :: nat where [widths]: "kHopByHopOptionsAndPaddingBitwidth = 48"
definition kUdpPortBitwidth :: nat where [widths]: "kUdpPortBitwidth = 16"
definition kUdpLengthBitwidth :: nat where [widths]: "kUdpLengthBitwidth = 16"
definition kUdpChecksumBitwidth :: nat where [widths]: "kUdpChecksumBitwidth = 16"
definition kTcpPortBitwidth :: nat where [widths]: "kTcpPortBitwidth = 16"
definition kTcpSequenceNumberBitwidth :: nat where [widths]: "kTcpSequenceNumberBitwidth = 32"
definition kTcpAcknowledgementNumberBitwidth :: nat where [widths]: "kTcpAcknowledgementNumberBitwidth = 32"
definition kTcpDataOffsetBitwidth :: nat where [widths]: "kTcpDataOffsetBitwidth = 4"
definition kTcpRestOfHeaderBitwidth :: nat where [widths]: "kTcpRestOfHeaderBitwidth = 60"
definition kArpTypeBitwidth :: nat where [widths]: "kArpTypeBitwidth = 16"
definition kArpLengthBitwidth :: nat where [widths]: "kArpLengthBitwidth = 8"
definition kArpOperationBitwidth :: nat where [widths]: "kArpOperationBitwidth = 16"
definition kIcmpTypeBitwidth :: nat where [widths]: "kIcmpTypeBitwidth = 8"
definition kIcmpCodeBitwidth :: nat where [widths]: "kIcmpCodeBitwidth = 8"
definition kIcmpChecksumBitwidth :: nat where [widths]: "kIcmpChecksumBitwidth = 16"
definition kIcmpRestOfHeaderBitwidth :: nat where [widths]: "kIcmpRestOfHeaderBitwidth = 32"
definition kGreChecksumPresentBitwidth :: nat where [widths]: "kGreChecksumPresentBitwidth = 1"
definition kGreReserved0Bitwidth :: nat where [widths]: "kGreReserved0Bitwidth = 12"
definition kGreVersionBitwidth :: nat where [widths]: "kGreVersionBitwidth = 3"
definition kGreProtocolTypeBitwidth :: nat where [widths]: "kGreProtocolTypeBitwidth = 16"
definition kGreChecksumBitwidth :: nat where [widths]: "kGreChecksumBitwidth = 16"
definition kGreReserved1Bitwidth :: nat where [widths]: "kGreReserved1Bitwidth = 16"
definition kMinNumBytesInEthernetPayload :: nat where [widths]: "kMinNumBytesInEthernetPayload = 46"
definition kSaiP4BMv2PacketInIngressPortBitwidth :: nat where [widths]: "kSaiP4BMv2PacketInIngressPortBitwidth = 9"
definition kSaiP4BMv2PacketInTargetEgressPortBitwidth :: nat where [widths]: "kSaiP4BMv2PacketInTargetEgressPortBitwidth = 9"
definition kSaiP4BMv2PacketInUnusedPadBitwidth :: nat where [widths]: "kSaiP4BMv2PacketInUnusedPadBitwidth = 6"
definition kIpfixVersionBitwidth :: nat where [widths]: "kIpfixVersionBitwidth = 16"
definition kIpfixLengthBitwidth :: nat where [widths]: "kIpfixLengthBitwidth = 16"
definition kIpfixExportTimeBitwidth :: nat where [widths]: "kIpfixExportTimeBitwidth = 32"
definition kIpfixSequenceNumberBitwidth :: nat where [widths]: "kIpfixSequenceNumberBitwidth = 32"
definition kIpfixObservationDomainIdBitwidth :: nat where [widths]: "kIpfixObservationDomainIdBitwidth = 32"
definition kPsampTemplateIdBitwidth :: nat where [widths]: "kPsampTemplateIdBitwidth = 16"
definition kPsampLengthBitwidth :: nat where [widths]: "kPsampLengthBitwidth = 16"
definition kPsampObservationTimeBitwidth :: nat where [widths]: "kPsampObservationTimeBitwidth = 64"
definition kPsampFlowsetBitwidth :: nat where [widths]: "kPsampFlowsetBitwidth = 16"
definition kPsampNextHopIndexBitwidth :: nat where [widths]: "kPsampNextHopIndexBitwidth = 16"
definition kPsampEpochBitwidth :: nat where [widths]: "kPsampEpochBitwidth = 16"
definition kPsampIngressPortBitwidth :: nat where [widths]: "kPsampIngressPortBitwidth = 16"
definition kPsampEgressPortBitwidth :: nat where [widths]: "kPsampEgressPortBitwidth = 16"
definition kPsampUserMetaFieldBitwidth :: nat where [widths]: "kPsampUserMetaFieldBitwidth = 16"
definition kPsampDlbIdBitwidth :: nat where [widths]: "kPsampDlbIdBitwidth = 8"
definition kPsampVariableLengthBitwidth :: nat where [widths]: "kPsampVariableLengthBitwidth = 8"
definition kPsampPacketSampledLengthBitwidth :: nat where [widths]: "kPsampPacketSampledLengthBitwidth = 16"
definition kPtpTransportSpecificBitwidth :: nat where [widths]: "kPtpTransportSpecificBitwidth = 4"
definition kPtpMessageTypeBitwidth :: nat where [widths]: "kPtpMessageTypeBitwidth = 4"
definition kPtpReserved0Bitwidth :: nat where [widths]: "kPtpReserved0Bitwidth = 4"
definition kPtpVersionPtpBitwidth :: nat where [widths]: "kPtpVersionPtpBitwidth = 4"
definition kPtpMessageLengthBitwidth :: nat where [widths]: "kPtpMessageLengthBitwidth = 16"
definition kPtpDomainNumberBitwidth :: nat where [widths]: "kPtpDomainNumberBitwidth = 8"
definition kPtpReserved1Bitwidth :: nat where [widths]: "kPtpReserved1Bitwidth = 8"
definition kPtpFlagsBitwidth :: nat where [widths]: "kPtpFlagsBitwidth = 16"
definition kPtpCorrectionFieldBitwidth :: nat where [widths]: "kPtpCorrectionFieldBitwidth = 64"
definition kPtpReserved2Bitwidth :: nat where [widths]: "kPtpReserved2Bitwidth = 32"
definition kPtpSourcePortIdentityBitwidth :: nat where [widths]: "kPtpSourcePortIdentityBitwidth = 80"
definition kPtpSequenceIdBitwidth :: nat where [widths]: "kPtpSequenceIdBitwidth = 16"
definition kPtpControlFieldBitwidth :: nat where [widths]: "kPtpControlFieldBitwidth = 8"
definition kPtpLogMessageIntervalBitwidth :: nat where [widths]: "kPtpLogMessageIntervalBitwidth = 8"
definition kPspNextHeaderBitwidth :: nat where [widths]: "kPspNextHeaderBitwidth = 8"
definition kPspHeaderExtLengthBitwidth :: nat where [widths]: "kPspHeaderExtLengthBitwidth = 8"
definition kPspReserved0Bitwidth :: nat where [widths]: "kPspReserved0Bitwidth = 2"
definition kPspCryptOffsetBitwidth :: nat where [widths]: "kPspCryptOffsetBitwidth = 6"
definition kPspSampleBitwidth :: nat where [widths]: "kPspSampleBitwidth = 1"
definition kPspDropBitwidth :: nat where [widths]: "kPspDropBitwidth = 1"
definition kPspVersionBitwidth :: nat where [widths]: "kPspVersionBitwidth = 4"
definition kPspVirtualizationCookieBitwidth :: nat where [widths]: "kPspVirtualizationCookieBitwidth = 1"
definition kPspReserved1Bitwidth :: nat where [widths]: "kPspReserved1Bitwidth = 1"
definition kPspSecurityParametersIndexBitwidth :: nat where [widths]: "kPspSecurityParametersIndexBitwidth = 32"
definition kPspInitializationVectorBitwidth :: nat where [widths]: "kPspInitializationVectorBitwidth = 64"

section \<open>Headers and packets\<close>

text \<open>As in the protobuf messages, fields are texts; an empty text is a missing field.\<close>

record ethernet_header =
  ethernet_destination :: string
  ethernet_source :: string
  ethernet_ethertype :: string

record vlan_header =
  vlan_priority_code_point :: string
  vlan_drop_eligible_indicator :: string
  vlan_identifier :: string
  vlan_ethertype :: string

record csig_header =
  csig_signal_type :: string
  csig_reserved0 :: string
  csig_signal_value :: string
  csig_locator_metadata :: string
  csig_ethertype :: string

record arp_header =
  arp_hardware_type :: string
  arp_protocol_type :: string
  arp_hardware_length :: string
  arp_protocol_length :: string
  arp_operation :: string
  arp_sender_hardware_address :: string
  arp_sender_protocol_address :: string
  arp_target_hardware_address :: string
  arp_target_protocol_address :: string

record ipv4_header =
  ipv4_version :: string
  ipv4_ihl :: string
  ipv4_dscp :: string
  ipv4_ecn :: string
  ipv4_total_length :: string
  ipv4_identification :: string
  ipv4_flags :: string
  ipv4_fragment_offset :: string
  ipv4_ttl :: string
  ipv4_protocol :: string
  ipv4_checksum :: string
  ipv4_source :: string
  ipv4_destination :: string
  ipv4_uninterpreted_options :: string

record ipv6_header =
  ipv6_version :: string
  ipv6_dscp :: string
  ipv6_ecn :: string
  ipv6_flow_label :: string
  ipv6_payload_length :: string
  ipv6_next_header :: string
  ipv6_hop_limit :: string
  ipv6_source :: string
  ipv6_destination :: string

record hop_by_hop_options_header =
  hop_next_header :: string
  hop_header_extension_length :: string
  hop_options_and_padding :: string

record icmp_header =
  icmp_type :: string
  icmp_code :: string
  icmp_checksum :: string
  icmp_rest_of_header :: string

record udp_header =
  udp_source_port :: string
  udp_destination_port :: string
  udp_length :: string
  udp_checksum :: string

record tcp_header =
  tcp_source_port :: string
  tcp_destination_port :: string
  tcp_sequence_number :: string
  tcp_acknowledgement_number :: string
  tcp_data_offset :: string
  tcp_rest_of_header :: string
  tcp_uninterpreted_options :: string

record gre_header =
  gre_checksum_present :: string
  gre_reserved0 :: string
  gre_version :: string
  gre_protocol_type :: string
  gre_checksum :: string
  gre_reserved1 :: string

record sai_p4_bmv2_packet_in_header =
  bmv2_ingress_port :: string
  bmv2_target_egress_port :: string
  bmv2_unused_pad :: string

record ipfix_header =
  ipfix_version :: string
  ipfix_length :: string
  ipfix_export_time :: string
  ipfix_sequence_number :: string
  ipfix_observation_domain_id :: string

record psamp_header =
  psamp_template_id :: string
  psamp_length :: string
  psamp_observation_time :: string
  psamp_flowset :: string
  psamp_next_hop_index :: string
  psamp_epoch :: string
  psamp_ingress_port :: string
  psamp_egress_port :: string
  psamp_user_meta_field :: string
  psamp_dlb_id :: string
  psamp_variable_length :: string
  psamp_packet_sampled_length :: string

record ptp_header =
  ptp_transport_specific :: string
  ptp_message_type :: string
  ptp_reserved0 :: string
  ptp_version_ptp :: string
  ptp_message_length :: string
  ptp_domain_number :: string
  ptp_reserved1 :: string
  ptp_flags :: string
  ptp_correction_field :: string
  ptp_reserved2 :: string
  ptp_source_port_identity :: string
  ptp_sequence_id :: string
  ptp_control_field :: string
  ptp_log_message_interval :: string

record psp_header =
  psp_next_header :: string
  psp_header_ext_length :: string
  psp_reserved0 :: string
  psp_crypt_offset :: string
  psp_sample_bit :: string
  psp_drop_bit :: string
  psp_version :: string
  psp_virtualization_cookie_present :: string
  psp_reserved1 :: string
  psp_security_parameters_index :: string
  psp_initialization_vector :: string

datatype header =
    EthernetHeader ethernet_header
  | VlanHeader vlan_header
  | CsigHeader csig_header
  | ArpHeader arp_header
  | Ipv4Header ipv4_header
  | Ipv6Header ipv6_header
  | HopByHopOptionsHeader hop_by_hop_options_header
  | IcmpHeader icmp_header
  | UdpHeader udp_header
  | TcpHeader tcp_header
  | GreHeader gre_header
  | SaiP4BMv2PacketInHeader sai_p4_bmv2_packet_in_header
  | IpfixHeader ipfix_header
  | PsampHeader psamp_header
  | PtpHeader ptp_header
  | PspHeader psp_header
  | HeaderUnset

datatype header_case =
    kEthernetHeader
  | kVlanHeader
  | kCsigHeader
  | kArpHeader
  | kIpv4Header
  | kIpv6Header
  | kHopByHopOptionsHeader
  | kIcmpHeader
  | kUdpHeader
  | kTcpHeader
  | kGreHeader
  | kSaiP4BMv2PacketInHeader
  | kIpfixHeader
  | kPsampHeader
  | kPtpHeader
  | kPspHeader
  | HEADER_NOT_SET

fun case_of :: "header \<Rightarrow> header_case" where
    "case_of (EthernetHeader _) = kEthernetHeader"
  | "case_of (VlanHeader _) = kVlanHeader"
  | "case_of (CsigHeader _) = kCsigHeader"
  | "case_of (ArpHeader _) = kArpHeader"
  | "case_of (Ipv4Header _) = kIpv4Header"
  | "case_of (Ipv6Header _) = kIpv6Header"
  | "case_of (HopByHopOptionsHeader _) = kHopByHopOptionsHeader"
  | "case_of (IcmpHeader _) = kIcmpHeader"
  | "case_of (UdpHeader _) = kUdpHeader"
  | "case_of (TcpHeader _) = kTcpHeader"
  | "case_of (GreHeader _) = kGreHeader"
  | "case_of (SaiP4BMv2PacketInHeader _) = kSaiP4BMv2PacketInHeader"
  | "case_of (IpfixHeader _) = kIpfixHeader"
  | "case_of (PsampHeader _) = kPsampHeader"
  | "case_of (PtpHeader _) = kPtpHeader"
  | "case_of (PspHeader _) = kPspHeader"
  | "case_of HeaderUnset = HEADER_NOT_SET"

text \<open>
  The reasons why a packet is invalid. The texts of the code are replaced by what they say; a reason
  about a header starts with the index of the header.
\<close>

datatype field_problem =
    Missing
  | InvalidFormat
  | MustBe string
  | NotComputable
  | Undefined
  | MustBeEmpty
  | WrongWidth
  | TooLong
  | WrongValue
  | PayloadTooShort
  | BadOption

datatype invalid_reason =
    TooShortFor header_case
  | PayloadNotBytes
  | PacketEmpty
  | SizeUnknown
  | SizeNotInBytes
  | FieldInvalid nat string field_problem
  | HeaderUninitialized nat
  | NoHeaderExpected nat header_case
  | OtherHeaderExpected nat header_case header_case
  | HeaderMissing nat header_case

record packet =
  packet_headers :: "header list"
  packet_payload :: string
  reason_not_fully_parsed :: string
  reasons_invalid :: "invalid_reason list"

section \<open>The header after a header\<close>

datatype next_header = SupportedNextHeader header_case | UnsupportedNextHeader string

definition HexStringToInt :: "string \<Rightarrow> int status_or" where
  "HexStringToInt hex_string = HexStringToInt32 hex_string"

definition GetNextHeaderForEtherType :: "string \<Rightarrow> string \<Rightarrow> next_header status_or" where
  "GetNextHeaderForEtherType header_name ethertype_hexstring =
     (case HexStringToInt ethertype_hexstring of
        Inl _ \<Rightarrow> Inl INTERNAL
      | Inr ethertype \<Rightarrow> Inr (
          if ethertype \<le> 1535 then SupportedNextHeader HEADER_NOT_SET
          else if ethertype = 0x0800 then SupportedNextHeader kIpv4Header
          else if ethertype = 0x86dd then SupportedNextHeader kIpv6Header
          else if ethertype = 0x0806 then SupportedNextHeader kArpHeader
          else if ethertype = 0x8100 then SupportedNextHeader kVlanHeader
          else if ethertype = 0x88f7 then SupportedNextHeader kPtpHeader
          else if ethertype = 0x9900 then SupportedNextHeader kCsigHeader
          else UnsupportedNextHeader (header_name @ ''.ethertype '' @ ethertype_hexstring @ '': unsupported'')))"

definition next_after_ipv4 :: "ipv4_header \<Rightarrow> next_header" where
  "next_after_ipv4 header =
     (if ipv4_protocol header = ''0x04'' then SupportedNextHeader kIpv4Header
      else if ipv4_protocol header = ''0x06'' then SupportedNextHeader kTcpHeader
      else if ipv4_protocol header = ''0x11'' then SupportedNextHeader kUdpHeader
      else if ipv4_protocol header = ''0x01'' then SupportedNextHeader kIcmpHeader
      else if ipv4_protocol header = ''0x29'' then SupportedNextHeader kIpv6Header
      else if ipv4_protocol header = ''0x2f'' then SupportedNextHeader kGreHeader
      else if ipv4_protocol header = ''0xfd'' then SupportedNextHeader HEADER_NOT_SET
      else if ipv4_protocol header = ''0xfe'' then SupportedNextHeader HEADER_NOT_SET
      else UnsupportedNextHeader (''ipv4_header.protocol '' @ ipv4_protocol header @ '': unsupported''))"

definition next_after_ipv6 :: "ipv6_header \<Rightarrow> next_header" where
  "next_after_ipv6 header =
     (if ipv6_next_header header = ''0x00'' then SupportedNextHeader kHopByHopOptionsHeader
      else if ipv6_next_header header = ''0x04'' then SupportedNextHeader kIpv4Header
      else if ipv6_next_header header = ''0x06'' then SupportedNextHeader kTcpHeader
      else if ipv6_next_header header = ''0x11'' then SupportedNextHeader kUdpHeader
      else if ipv6_next_header header = ''0x3a'' then SupportedNextHeader kIcmpHeader
      else if ipv6_next_header header = ''0x29'' then SupportedNextHeader kIpv6Header
      else if ipv6_next_header header = ''0x2f'' then SupportedNextHeader kGreHeader
      else if ipv6_next_header header = ''0xfd'' then SupportedNextHeader HEADER_NOT_SET
      else if ipv6_next_header header = ''0xfe'' then SupportedNextHeader HEADER_NOT_SET
      else UnsupportedNextHeader (''ipv6_header.next_header '' @ ipv6_next_header header @ '': unsupported''))"

definition next_after_hop_by_hop :: "hop_by_hop_options_header \<Rightarrow> next_header" where
  "next_after_hop_by_hop header =
     (if hop_header_extension_length header \<noteq> ''0x00''
      then UnsupportedNextHeader ''hop_by_hop_options_header.header_extension_length is not 0.''
      else if hop_next_header header = ''0x04'' then SupportedNextHeader kIpv4Header
      else if hop_next_header header = ''0x06'' then SupportedNextHeader kTcpHeader
      else if hop_next_header header = ''0x11'' then SupportedNextHeader kUdpHeader
      else if hop_next_header header = ''0x3a'' then SupportedNextHeader kIcmpHeader
      else if hop_next_header header = ''0x29'' then SupportedNextHeader kIpv6Header
      else if hop_next_header header = ''0x2f'' then SupportedNextHeader kGreHeader
      else if hop_next_header header = ''0xfd'' then SupportedNextHeader HEADER_NOT_SET
      else if hop_next_header header = ''0xfe'' then SupportedNextHeader HEADER_NOT_SET
      else UnsupportedNextHeader (''hop_by_hop_options_header.next_header '' @ hop_next_header header @ '': unsupported''))"

definition kIpfixUdpDestPort :: int where
  "kIpfixUdpDestPort = 4739"

definition next_after_udp :: "udp_header \<Rightarrow> next_header status_or" where
  "next_after_udp header =
     bind_or (HexStringToInt32 (udp_destination_port header)) (\<lambda>dest_port. Inr (
       if dest_port = kIpfixUdpDestPort then SupportedNextHeader kIpfixHeader
       else if dest_port = 319 then SupportedNextHeader kPtpHeader
       else if dest_port = 320 then SupportedNextHeader kPtpHeader
       else if dest_port = 1000 then SupportedNextHeader kPspHeader
       else SupportedNextHeader HEADER_NOT_SET))"

definition next_after_psp :: "psp_header \<Rightarrow> next_header status_or" where
  "next_after_psp header =
     (if psp_virtualization_cookie_present header = ''0x1''
      then Inr (UnsupportedNextHeader ''psp_header virtualization_cookie is not supported.'')
      else bind_or (HexStringToInt32 (psp_crypt_offset header)) (\<lambda>crypt_offset. Inr (
        if psp_next_header header = ''0x11'' \<and> crypt_offset * 32 \<ge> int kUdpHeaderBitwidth
        then SupportedNextHeader kUdpHeader
        else SupportedNextHeader HEADER_NOT_SET)))"

fun GetNextHeader :: "header \<Rightarrow> next_header status_or" where
  "GetNextHeader (EthernetHeader h) = GetNextHeaderForEtherType ''ethernet_header'' (ethernet_ethertype h)"
| "GetNextHeader (VlanHeader h) = GetNextHeaderForEtherType ''vlan_header'' (vlan_ethertype h)"
| "GetNextHeader (CsigHeader h) = GetNextHeaderForEtherType ''csig_header'' (csig_ethertype h)"
| "GetNextHeader (GreHeader h) = GetNextHeaderForEtherType ''gre_header'' (gre_protocol_type h)"
| "GetNextHeader (SaiP4BMv2PacketInHeader _) = Inr (SupportedNextHeader kEthernetHeader)"
| "GetNextHeader (Ipv4Header h) = Inr (next_after_ipv4 h)"
| "GetNextHeader (Ipv6Header h) = Inr (next_after_ipv6 h)"
| "GetNextHeader (HopByHopOptionsHeader h) = Inr (next_after_hop_by_hop h)"
| "GetNextHeader (UdpHeader h) = next_after_udp h"
| "GetNextHeader (TcpHeader _) = Inr (SupportedNextHeader HEADER_NOT_SET)"
| "GetNextHeader (ArpHeader _) = Inr (SupportedNextHeader HEADER_NOT_SET)"
| "GetNextHeader (IcmpHeader _) = Inr (SupportedNextHeader HEADER_NOT_SET)"
| "GetNextHeader (IpfixHeader _) = Inr (SupportedNextHeader kPsampHeader)"
| "GetNextHeader (PsampHeader _) = Inr (SupportedNextHeader HEADER_NOT_SET)"
| "GetNextHeader (PtpHeader _) = Inr (SupportedNextHeader HEADER_NOT_SET)"
| "GetNextHeader (PspHeader h) = next_after_psp h"
| "GetNextHeader HeaderUnset = Inr (SupportedNextHeader HEADER_NOT_SET)"

section \<open>Parsing headers\<close>

text \<open>
  A parsing function reads fields from the front of the data, which is the state of the computation.
  Reading never fails because the callers check the size first.
\<close>

definition or_internal_error :: "('a \<Rightarrow> string) \<Rightarrow> 'a status_or \<times> bit_string \<Rightarrow> string \<times> bit_string" where
  "or_internal_error to_string = (\<lambda>(r, data). (case r of Inr x \<Rightarrow> to_string x | Inl _ \<Rightarrow> ''INTERNAL ERROR'', data))"

definition ParseMacAddress :: "(bit_string, string) state" where
  "ParseMacAddress = State (\<lambda>data. or_internal_error Mac_ToString (ConsumeMacAddress data))"

definition ParseIpv4Address :: "(bit_string, string) state" where
  "ParseIpv4Address = State (\<lambda>data. or_internal_error Ipv4_ToString (ConsumeIpv4Address data))"

definition ParseIpv6Address :: "text_env \<Rightarrow> (bit_string, string) state" where
  "ParseIpv6Address env = State (\<lambda>data. or_internal_error (Ipv6_ToString env) (ConsumeIpv6Address data))"

definition ParseBits :: "nat \<Rightarrow> (bit_string, string) state" where
  "ParseBits num_bits = State (\<lambda>data. or_internal_error id (ConsumeHexString (int num_bits) data))"

text \<open>
  The options after a header of \<open>words\<close> 32-bit words (IHL of IPv4, data offset of TCP); if the packet
  ends prematurely, what is there.
\<close>

definition parse_options :: "string \<Rightarrow> (bit_string, string) state" where
  "parse_options words = State (\<lambda>data.
     case HexStringToInt words of
       Inl _ \<Rightarrow> ([], data)
     | Inr n \<Rightarrow>
         if n > 5
         then let options_bit_width = 32 * (n - 5)
              in run_state (ParseBits (if int (bs_size data) < options_bit_width then bs_size data else nat options_bit_width)) data
         else ([], data))"

definition ParseEthernetHeader :: "bit_string \<Rightarrow> (ethernet_header \<times> bit_string) status_or" where
  "ParseEthernetHeader data =
     (if bs_size data < kEthernetHeaderBitwidth then Inl INVALID_ARGUMENT
      else Inr (run_state (do {
        ethernet_destination \<leftarrow> ParseMacAddress;
        ethernet_source \<leftarrow> ParseMacAddress;
        ethertype \<leftarrow> ParseBits kEthernetEthertypeBitwidth;
        State_Monad.return \<lparr>ethernet_destination = ethernet_destination,
          ethernet_source = ethernet_source, ethernet_ethertype = ethertype\<rparr>
      }) data))"

definition ParseVlanHeader :: "bit_string \<Rightarrow> (vlan_header \<times> bit_string) status_or" where
  "ParseVlanHeader data =
     (if bs_size data < kVlanHeaderBitwidth then Inl INVALID_ARGUMENT
      else Inr (run_state (do {
        priority_code_point \<leftarrow> ParseBits kVlanPriorityCodePointBitwidth;
        drop_eligible_indicator \<leftarrow> ParseBits kVlanDropEligibilityIndicatorBitwidth;
        vlan_identifier \<leftarrow> ParseBits kVlanVlanIdentifierBitwidth;
        ethertype \<leftarrow> ParseBits kVlanEthertypeBitwidth;
        State_Monad.return \<lparr>vlan_priority_code_point = priority_code_point,
          vlan_drop_eligible_indicator = drop_eligible_indicator, vlan_identifier = vlan_identifier,
          vlan_ethertype = ethertype\<rparr>
      }) data))"

definition ParseCsigHeader :: "bit_string \<Rightarrow> (csig_header \<times> bit_string) status_or" where
  "ParseCsigHeader data =
     (if bs_size data < kCsigHeaderBitwidth then Inl INVALID_ARGUMENT
      else Inr (run_state (do {
        signal_type \<leftarrow> ParseBits kCsigSignalTypeBitwidth;
        reserved0 \<leftarrow> ParseBits kCsigReserved0Bitwidth;
        signal_value \<leftarrow> ParseBits kCsigSignalValueBitwidth;
        locator_metadata \<leftarrow> ParseBits kCsigLocatorMetadataBitwidth;
        ethertype \<leftarrow> ParseBits kCsigEthertypeBitwidth;
        State_Monad.return \<lparr>csig_signal_type = signal_type, csig_reserved0 = reserved0,
          csig_signal_value = signal_value, csig_locator_metadata = locator_metadata,
          csig_ethertype = ethertype\<rparr>
      }) data))"

definition ParseArpHeader :: "bit_string \<Rightarrow> (arp_header \<times> bit_string) status_or" where
  "ParseArpHeader data =
     (if bs_size data < kArpHeaderBitwidth then Inl INVALID_ARGUMENT
      else Inr (run_state (do {
        hardware_type \<leftarrow> ParseBits kArpTypeBitwidth;
        protocol_type \<leftarrow> ParseBits kArpTypeBitwidth;
        hardware_length \<leftarrow> ParseBits kArpLengthBitwidth;
        protocol_length \<leftarrow> ParseBits kArpLengthBitwidth;
        operation \<leftarrow> ParseBits kArpOperationBitwidth;
        sender_hardware_address \<leftarrow> ParseMacAddress;
        sender_protocol_address \<leftarrow> ParseIpv4Address;
        target_hardware_address \<leftarrow> ParseMacAddress;
        target_protocol_address \<leftarrow> ParseIpv4Address;
        State_Monad.return \<lparr>arp_hardware_type = hardware_type, arp_protocol_type = protocol_type,
          arp_hardware_length = hardware_length, arp_protocol_length = protocol_length,
          arp_operation = operation, arp_sender_hardware_address = sender_hardware_address,
          arp_sender_protocol_address = sender_protocol_address,
          arp_target_hardware_address = target_hardware_address,
          arp_target_protocol_address = target_protocol_address\<rparr>
      }) data))"

definition ParseIpv4Header :: "bit_string \<Rightarrow> (ipv4_header \<times> bit_string) status_or" where
  "ParseIpv4Header data =
     (if bs_size data < kStandardIpv4HeaderBitwidth then Inl INVALID_ARGUMENT
      else Inr (run_state (do {
        version \<leftarrow> ParseBits kIpVersionBitwidth;
        ihl \<leftarrow> ParseBits kIpIhlBitwidth;
        dscp \<leftarrow> ParseBits kIpDscpBitwidth;
        ecn \<leftarrow> ParseBits kIpEcnBitwidth;
        total_length \<leftarrow> ParseBits kIpTotalLengthBitwidth;
        identification \<leftarrow> ParseBits kIpIdentificationBitwidth;
        flags \<leftarrow> ParseBits kIpFlagsBitwidth;
        fragment_offset \<leftarrow> ParseBits kIpFragmentOffsetBitwidth;
        ttl \<leftarrow> ParseBits kIpTtlBitwidth;
        protocol \<leftarrow> ParseBits kIpProtocolBitwidth;
        checksum \<leftarrow> ParseBits kIpChecksumBitwidth;
        ipv4_source \<leftarrow> ParseIpv4Address;
        ipv4_destination \<leftarrow> ParseIpv4Address;
        options \<leftarrow> parse_options ihl;
        State_Monad.return \<lparr>ipv4_version = version, ipv4_ihl = ihl, ipv4_dscp = dscp, ipv4_ecn = ecn,
          ipv4_total_length = total_length, ipv4_identification = identification, ipv4_flags = flags,
          ipv4_fragment_offset = fragment_offset, ipv4_ttl = ttl, ipv4_protocol = protocol,
          ipv4_checksum = checksum, ipv4_source = ipv4_source, ipv4_destination = ipv4_destination,
          ipv4_uninterpreted_options = options\<rparr>
      }) data))"

definition ParseIpv6Header :: "text_env \<Rightarrow> bit_string \<Rightarrow> (ipv6_header \<times> bit_string) status_or" where
  "ParseIpv6Header env data =
     (if bs_size data < kIpv6HeaderBitwidth then Inl INVALID_ARGUMENT
      else Inr (run_state (do {
        version \<leftarrow> ParseBits kIpVersionBitwidth;
        dscp \<leftarrow> ParseBits kIpDscpBitwidth;
        ecn \<leftarrow> ParseBits kIpEcnBitwidth;
        flow_label \<leftarrow> ParseBits kIpFlowLabelBitwidth;
        payload_length \<leftarrow> ParseBits kIpPayloadLengthBitwidth;
        next_header \<leftarrow> ParseBits kIpNextHeaderBitwidth;
        hop_limit \<leftarrow> ParseBits kIpHopLimitBitwidth;
        ipv6_source \<leftarrow> ParseIpv6Address env;
        ipv6_destination \<leftarrow> ParseIpv6Address env;
        State_Monad.return \<lparr>ipv6_version = version, ipv6_dscp = dscp, ipv6_ecn = ecn,
          ipv6_flow_label = flow_label, ipv6_payload_length = payload_length, ipv6_next_header = next_header,
          ipv6_hop_limit = hop_limit, ipv6_source = ipv6_source, ipv6_destination = ipv6_destination\<rparr>
      }) data))"

definition ParseHopByHopOptionsHeader :: "bit_string \<Rightarrow> (hop_by_hop_options_header \<times> bit_string) status_or" where
  "ParseHopByHopOptionsHeader data =
     (if bs_size data < kMinHopByHopOptionsHeaderBitwidth then Inl INVALID_ARGUMENT
      else Inr (run_state (do {
        next_header \<leftarrow> ParseBits kHopByHopNextHeaderBitwidth;
        header_extension_length \<leftarrow> ParseBits kHopByHopHeaderExtensionLengthBitwidth;
        options_and_padding \<leftarrow> ParseBits kHopByHopOptionsAndPaddingBitwidth;
        State_Monad.return \<lparr>hop_next_header = next_header,
          hop_header_extension_length = header_extension_length,
          hop_options_and_padding = options_and_padding\<rparr>
      }) data))"

definition ParseIcmpHeader :: "bit_string \<Rightarrow> (icmp_header \<times> bit_string) status_or" where
  "ParseIcmpHeader data =
     (if bs_size data < kIcmpHeaderBitwidth then Inl INVALID_ARGUMENT
      else Inr (run_state (do {
        type \<leftarrow> ParseBits kIcmpTypeBitwidth;
        code \<leftarrow> ParseBits kIcmpCodeBitwidth;
        checksum \<leftarrow> ParseBits kIcmpChecksumBitwidth;
        rest_of_header \<leftarrow> ParseBits kIcmpRestOfHeaderBitwidth;
        State_Monad.return \<lparr>icmp_type = type, icmp_code = code, icmp_checksum = checksum,
          icmp_rest_of_header = rest_of_header\<rparr>
      }) data))"

definition ParseUdpHeader :: "bit_string \<Rightarrow> (udp_header \<times> bit_string) status_or" where
  "ParseUdpHeader data =
     (if bs_size data < kUdpHeaderBitwidth then Inl INVALID_ARGUMENT
      else Inr (run_state (do {
        source_port \<leftarrow> ParseBits kUdpPortBitwidth;
        destination_port \<leftarrow> ParseBits kUdpPortBitwidth;
        length \<leftarrow> ParseBits kUdpLengthBitwidth;
        checksum \<leftarrow> ParseBits kUdpChecksumBitwidth;
        State_Monad.return \<lparr>udp_source_port = source_port, udp_destination_port = destination_port,
          udp_length = length, udp_checksum = checksum\<rparr>
      }) data))"

definition ParseTcpHeader :: "bit_string \<Rightarrow> (tcp_header \<times> bit_string) status_or" where
  "ParseTcpHeader data =
     (if bs_size data < kStandardTcpHeaderBitwidth then Inl INVALID_ARGUMENT
      else Inr (run_state (do {
        source_port \<leftarrow> ParseBits kTcpPortBitwidth;
        destination_port \<leftarrow> ParseBits kTcpPortBitwidth;
        sequence_number \<leftarrow> ParseBits kTcpSequenceNumberBitwidth;
        acknowledgement_number \<leftarrow> ParseBits kTcpAcknowledgementNumberBitwidth;
        data_offset \<leftarrow> ParseBits kTcpDataOffsetBitwidth;
        rest_of_header \<leftarrow> ParseBits kTcpRestOfHeaderBitwidth;
        options \<leftarrow> parse_options data_offset;
        State_Monad.return \<lparr>tcp_source_port = source_port, tcp_destination_port = destination_port,
          tcp_sequence_number = sequence_number, tcp_acknowledgement_number = acknowledgement_number,
          tcp_data_offset = data_offset, tcp_rest_of_header = rest_of_header,
          tcp_uninterpreted_options = options\<rparr>
      }) data))"

definition parse_at_most :: "nat \<Rightarrow> (bit_string, string) state" where
  "parse_at_most num_bits = State (\<lambda>data. run_state (ParseBits (min (bs_size data) num_bits)) data)"

definition ParseGreHeader :: "bit_string \<Rightarrow> (gre_header \<times> bit_string) status_or" where
  "ParseGreHeader data =
     (if bs_size data < kRfc2784GreHeaderWithoutOptionalsBitwidth then Inl INVALID_ARGUMENT
      else bind_or (PeekHexString (int kGreChecksumPresentBitwidth) data) (\<lambda>present.
        if present = ''0x1'' \<and>
           bs_size data < kRfc2784GreHeaderWithoutOptionalsBitwidth + (kGreChecksumBitwidth + kGreReserved1Bitwidth)
        then Inl INVALID_ARGUMENT
        else Inr (run_state (do {
          checksum_present \<leftarrow> ParseBits kGreChecksumPresentBitwidth;
          reserved0 \<leftarrow> ParseBits kGreReserved0Bitwidth;
          version \<leftarrow> ParseBits kGreVersionBitwidth;
          protocol_type \<leftarrow> ParseBits kGreProtocolTypeBitwidth;
          checksum \<leftarrow> if present = ''0x1'' then parse_at_most kGreChecksumBitwidth else State_Monad.return [];
          reserved1 \<leftarrow> if present = ''0x1'' then parse_at_most kGreReserved1Bitwidth else State_Monad.return [];
          State_Monad.return \<lparr>gre_checksum_present = checksum_present, gre_reserved0 = reserved0, gre_version = version,
            gre_protocol_type = protocol_type, gre_checksum = checksum, gre_reserved1 = reserved1\<rparr>
        }) data)))"

definition ParseSaiP4BMv2PacketInHeader :: "bit_string \<Rightarrow> (sai_p4_bmv2_packet_in_header \<times> bit_string) status_or" where
  "ParseSaiP4BMv2PacketInHeader data =
     (if bs_size data < kSaiP4BMv2PacketInHeaderBitwidth then Inl INVALID_ARGUMENT
      else Inr (run_state (do {
        ingress_port \<leftarrow> ParseBits kSaiP4BMv2PacketInIngressPortBitwidth;
        target_egress_port \<leftarrow> ParseBits kSaiP4BMv2PacketInTargetEgressPortBitwidth;
        unused_pad \<leftarrow> ParseBits kSaiP4BMv2PacketInUnusedPadBitwidth;
        State_Monad.return \<lparr>bmv2_ingress_port = ingress_port,
          bmv2_target_egress_port = target_egress_port, bmv2_unused_pad = unused_pad\<rparr>
      }) data))"

definition ParseIpfixHeader :: "bit_string \<Rightarrow> (ipfix_header \<times> bit_string) status_or" where
  "ParseIpfixHeader data =
     (if bs_size data < kIpfixHeaderBitwidth then Inl INVALID_ARGUMENT
      else Inr (run_state (do {
        version \<leftarrow> ParseBits kIpfixVersionBitwidth;
        length \<leftarrow> ParseBits kIpfixLengthBitwidth;
        export_time \<leftarrow> ParseBits kIpfixExportTimeBitwidth;
        sequence_number \<leftarrow> ParseBits kIpfixSequenceNumberBitwidth;
        observation_domain_id \<leftarrow> ParseBits kIpfixObservationDomainIdBitwidth;
        State_Monad.return \<lparr>ipfix_version = version, ipfix_length = length,
          ipfix_export_time = export_time, ipfix_sequence_number = sequence_number,
          ipfix_observation_domain_id = observation_domain_id\<rparr>
      }) data))"

definition ParsePsampHeader :: "bit_string \<Rightarrow> (psamp_header \<times> bit_string) status_or" where
  "ParsePsampHeader data =
     (if bs_size data < kPsampHeaderBitwidth then Inl INVALID_ARGUMENT
      else Inr (run_state (do {
        template_id \<leftarrow> ParseBits kPsampTemplateIdBitwidth;
        length \<leftarrow> ParseBits kPsampLengthBitwidth;
        observation_time \<leftarrow> ParseBits kPsampObservationTimeBitwidth;
        flowset \<leftarrow> ParseBits kPsampFlowsetBitwidth;
        next_hop_index \<leftarrow> ParseBits kPsampNextHopIndexBitwidth;
        epoch \<leftarrow> ParseBits kPsampEpochBitwidth;
        ingress_port \<leftarrow> ParseBits kPsampIngressPortBitwidth;
        egress_port \<leftarrow> ParseBits kPsampEgressPortBitwidth;
        user_meta_field \<leftarrow> ParseBits kPsampUserMetaFieldBitwidth;
        dlb_id \<leftarrow> ParseBits kPsampDlbIdBitwidth;
        variable_length \<leftarrow> ParseBits kPsampVariableLengthBitwidth;
        packet_sampled_length \<leftarrow> ParseBits kPsampPacketSampledLengthBitwidth;
        State_Monad.return \<lparr>psamp_template_id = template_id, psamp_length = length,
          psamp_observation_time = observation_time, psamp_flowset = flowset,
          psamp_next_hop_index = next_hop_index, psamp_epoch = epoch, psamp_ingress_port = ingress_port,
          psamp_egress_port = egress_port, psamp_user_meta_field = user_meta_field, psamp_dlb_id = dlb_id,
          psamp_variable_length = variable_length, psamp_packet_sampled_length = packet_sampled_length\<rparr>
      }) data))"

definition ParsePtpHeader :: "bit_string \<Rightarrow> (ptp_header \<times> bit_string) status_or" where
  "ParsePtpHeader data =
     (if bs_size data < kPtpHeaderBitwidth then Inl INVALID_ARGUMENT
      else Inr (run_state (do {
        transport_specific \<leftarrow> ParseBits kPtpTransportSpecificBitwidth;
        message_type \<leftarrow> ParseBits kPtpMessageTypeBitwidth;
        reserved0 \<leftarrow> ParseBits kPtpReserved0Bitwidth;
        version_ptp \<leftarrow> ParseBits kPtpVersionPtpBitwidth;
        message_length \<leftarrow> ParseBits kPtpMessageLengthBitwidth;
        domain_number \<leftarrow> ParseBits kPtpDomainNumberBitwidth;
        reserved1 \<leftarrow> ParseBits kPtpReserved1Bitwidth;
        flags \<leftarrow> ParseBits kPtpFlagsBitwidth;
        correction_field \<leftarrow> ParseBits kPtpCorrectionFieldBitwidth;
        reserved2 \<leftarrow> ParseBits kPtpReserved2Bitwidth;
        source_port_identity \<leftarrow> ParseBits kPtpSourcePortIdentityBitwidth;
        sequence_id \<leftarrow> ParseBits kPtpSequenceIdBitwidth;
        control_field \<leftarrow> ParseBits kPtpControlFieldBitwidth;
        log_message_interval \<leftarrow> ParseBits kPtpLogMessageIntervalBitwidth;
        State_Monad.return \<lparr>ptp_transport_specific = transport_specific,
          ptp_message_type = message_type, ptp_reserved0 = reserved0, ptp_version_ptp = version_ptp,
          ptp_message_length = message_length, ptp_domain_number = domain_number, ptp_reserved1 = reserved1,
          ptp_flags = flags, ptp_correction_field = correction_field, ptp_reserved2 = reserved2,
          ptp_source_port_identity = source_port_identity, ptp_sequence_id = sequence_id,
          ptp_control_field = control_field, ptp_log_message_interval = log_message_interval\<rparr>
      }) data))"

definition ParsePspHeader :: "bit_string \<Rightarrow> (psp_header \<times> bit_string) status_or" where
  "ParsePspHeader data =
     (if bs_size data < kPspHeaderBitwidth then Inl INVALID_ARGUMENT
      else Inr (run_state (do {
        next_header \<leftarrow> ParseBits kPspNextHeaderBitwidth;
        header_ext_length \<leftarrow> ParseBits kPspHeaderExtLengthBitwidth;
        reserved0 \<leftarrow> ParseBits kPspReserved0Bitwidth;
        crypt_offset \<leftarrow> ParseBits kPspCryptOffsetBitwidth;
        sample_bit \<leftarrow> ParseBits kPspSampleBitwidth;
        drop_bit \<leftarrow> ParseBits kPspDropBitwidth;
        version \<leftarrow> ParseBits kPspVersionBitwidth;
        virtualization_cookie_present \<leftarrow> ParseBits kPspVirtualizationCookieBitwidth;
        reserved1 \<leftarrow> ParseBits kPspReserved1Bitwidth;
        security_parameters_index \<leftarrow> ParseBits kPspSecurityParametersIndexBitwidth;
        initialization_vector \<leftarrow> ParseBits kPspInitializationVectorBitwidth;
        State_Monad.return \<lparr>psp_next_header = next_header, psp_header_ext_length = header_ext_length,
          psp_reserved0 = reserved0, psp_crypt_offset = crypt_offset, psp_sample_bit = sample_bit,
          psp_drop_bit = drop_bit, psp_version = version,
          psp_virtualization_cookie_present = virtualization_cookie_present, psp_reserved1 = reserved1,
          psp_security_parameters_index = security_parameters_index,
          psp_initialization_vector = initialization_vector\<rparr>
      }) data))"

fun ParseHeader :: "text_env \<Rightarrow> header_case \<Rightarrow> bit_string \<Rightarrow> (header \<times> bit_string) status_or" where
    "ParseHeader env kEthernetHeader data = bind_or (ParseEthernetHeader data) (\<lambda>(h, data). Inr (EthernetHeader h, data))"
  | "ParseHeader env kVlanHeader data = bind_or (ParseVlanHeader data) (\<lambda>(h, data). Inr (VlanHeader h, data))"
  | "ParseHeader env kCsigHeader data = bind_or (ParseCsigHeader data) (\<lambda>(h, data). Inr (CsigHeader h, data))"
  | "ParseHeader env kArpHeader data = bind_or (ParseArpHeader data) (\<lambda>(h, data). Inr (ArpHeader h, data))"
  | "ParseHeader env kIpv4Header data = bind_or (ParseIpv4Header data) (\<lambda>(h, data). Inr (Ipv4Header h, data))"
  | "ParseHeader env kIpv6Header data = bind_or (ParseIpv6Header env data) (\<lambda>(h, data). Inr (Ipv6Header h, data))"
  | "ParseHeader env kHopByHopOptionsHeader data = bind_or (ParseHopByHopOptionsHeader data) (\<lambda>(h, data). Inr (HopByHopOptionsHeader h, data))"
  | "ParseHeader env kIcmpHeader data = bind_or (ParseIcmpHeader data) (\<lambda>(h, data). Inr (IcmpHeader h, data))"
  | "ParseHeader env kUdpHeader data = bind_or (ParseUdpHeader data) (\<lambda>(h, data). Inr (UdpHeader h, data))"
  | "ParseHeader env kTcpHeader data = bind_or (ParseTcpHeader data) (\<lambda>(h, data). Inr (TcpHeader h, data))"
  | "ParseHeader env kGreHeader data = bind_or (ParseGreHeader data) (\<lambda>(h, data). Inr (GreHeader h, data))"
  | "ParseHeader env kSaiP4BMv2PacketInHeader data = bind_or (ParseSaiP4BMv2PacketInHeader data) (\<lambda>(h, data). Inr (SaiP4BMv2PacketInHeader h, data))"
  | "ParseHeader env kIpfixHeader data = bind_or (ParseIpfixHeader data) (\<lambda>(h, data). Inr (IpfixHeader h, data))"
  | "ParseHeader env kPsampHeader data = bind_or (ParsePsampHeader data) (\<lambda>(h, data). Inr (PsampHeader h, data))"
  | "ParseHeader env kPtpHeader data = bind_or (ParsePtpHeader data) (\<lambda>(h, data). Inr (PtpHeader h, data))"
  | "ParseHeader env kPspHeader data = bind_or (ParsePspHeader data) (\<lambda>(h, data). Inr (PspHeader h, data))"
  | "ParseHeader env HEADER_NOT_SET data = Inl INVALID_ARGUMENT"

section \<open>Serialization\<close>

type_synonym serializer = "bit_string \<Rightarrow> bit_string status_or"

text \<open>Several steps in order; the first error ends the sequence.\<close>

definition in_order :: "serializer list \<Rightarrow> serializer" where
  "in_order steps = fold_or (\<lambda>step. step) steps"

definition SerializeMacAddress :: "string \<Rightarrow> serializer" where
  "SerializeMacAddress address output =
     bind_or (Mac_OfString address) (\<lambda>parsed_address. Inr (AppendBits 48 (unat parsed_address) output))"

definition SerializeIpv4Address :: "string \<Rightarrow> serializer" where
  "SerializeIpv4Address address output =
     bind_or (Ipv4_OfString address) (\<lambda>parsed_address. Inr (AppendBits 32 (unat parsed_address) output))"

definition SerializeIpv6Address :: "text_env \<Rightarrow> string \<Rightarrow> serializer" where
  "SerializeIpv6Address env address output =
     bind_or (Ipv6_OfString env address) (\<lambda>parsed_address. Inr (AppendBits 128 (unat parsed_address) output))"

definition SerializeBits :: "nat \<Rightarrow> string \<Rightarrow> serializer" where
  "SerializeBits num_bits hex_string output =
     bind_or (HexStringToBitset num_bits hex_string) (\<lambda>bitset. Inr (AppendBits num_bits bitset output))"

definition serialize_options :: "string \<Rightarrow> serializer" where
  "serialize_options options output = (if options \<noteq> [] then AppendHexString options output else Inr output)"

definition SerializeEthernetHeader :: "ethernet_header \<Rightarrow> serializer" where
  "SerializeEthernetHeader header = in_order
     [SerializeMacAddress (ethernet_destination header),
      SerializeMacAddress (ethernet_source header),
      SerializeBits kEthernetEthertypeBitwidth (ethernet_ethertype header)]"

definition SerializeVlanHeader :: "vlan_header \<Rightarrow> serializer" where
  "SerializeVlanHeader header = in_order
     [SerializeBits kVlanPriorityCodePointBitwidth (vlan_priority_code_point header),
      SerializeBits kVlanDropEligibilityIndicatorBitwidth (vlan_drop_eligible_indicator header),
      SerializeBits kVlanVlanIdentifierBitwidth (vlan_identifier header),
      SerializeBits kVlanEthertypeBitwidth (vlan_ethertype header)]"

definition SerializeCsigHeader :: "csig_header \<Rightarrow> serializer" where
  "SerializeCsigHeader header = in_order
     [SerializeBits kCsigSignalTypeBitwidth (csig_signal_type header),
      SerializeBits kCsigReserved0Bitwidth (csig_reserved0 header),
      SerializeBits kCsigSignalValueBitwidth (csig_signal_value header),
      SerializeBits kCsigLocatorMetadataBitwidth (csig_locator_metadata header),
      SerializeBits kCsigEthertypeBitwidth (csig_ethertype header)]"

definition SerializeArpHeader :: "arp_header \<Rightarrow> serializer" where
  "SerializeArpHeader header = in_order
     [SerializeBits kArpTypeBitwidth (arp_hardware_type header),
      SerializeBits kArpTypeBitwidth (arp_protocol_type header),
      SerializeBits kArpLengthBitwidth (arp_hardware_length header),
      SerializeBits kArpLengthBitwidth (arp_protocol_length header),
      SerializeBits kArpOperationBitwidth (arp_operation header),
      SerializeMacAddress (arp_sender_hardware_address header),
      SerializeIpv4Address (arp_sender_protocol_address header),
      SerializeMacAddress (arp_target_hardware_address header),
      SerializeIpv4Address (arp_target_protocol_address header)]"

definition SerializeIpv4Header :: "ipv4_header \<Rightarrow> serializer" where
  "SerializeIpv4Header header = in_order
     [SerializeBits kIpVersionBitwidth (ipv4_version header),
      SerializeBits kIpIhlBitwidth (ipv4_ihl header),
      SerializeBits kIpDscpBitwidth (ipv4_dscp header),
      SerializeBits kIpEcnBitwidth (ipv4_ecn header),
      SerializeBits kIpTotalLengthBitwidth (ipv4_total_length header),
      SerializeBits kIpIdentificationBitwidth (ipv4_identification header),
      SerializeBits kIpFlagsBitwidth (ipv4_flags header),
      SerializeBits kIpFragmentOffsetBitwidth (ipv4_fragment_offset header),
      SerializeBits kIpTtlBitwidth (ipv4_ttl header),
      SerializeBits kIpProtocolBitwidth (ipv4_protocol header),
      SerializeBits kIpChecksumBitwidth (ipv4_checksum header),
      SerializeIpv4Address (ipv4_source header),
      SerializeIpv4Address (ipv4_destination header),
      serialize_options (ipv4_uninterpreted_options header)]"

definition SerializeIpv6Header :: "text_env \<Rightarrow> ipv6_header \<Rightarrow> serializer" where
  "SerializeIpv6Header env header = in_order
     [SerializeBits kIpVersionBitwidth (ipv6_version header),
      SerializeBits kIpDscpBitwidth (ipv6_dscp header),
      SerializeBits kIpEcnBitwidth (ipv6_ecn header),
      SerializeBits kIpFlowLabelBitwidth (ipv6_flow_label header),
      SerializeBits kIpPayloadLengthBitwidth (ipv6_payload_length header),
      SerializeBits kIpNextHeaderBitwidth (ipv6_next_header header),
      SerializeBits kIpHopLimitBitwidth (ipv6_hop_limit header),
      SerializeIpv6Address env (ipv6_source header),
      SerializeIpv6Address env (ipv6_destination header)]"

definition SerializeHopByHopOptionsHeader :: "hop_by_hop_options_header \<Rightarrow> serializer" where
  "SerializeHopByHopOptionsHeader header = in_order
     [SerializeBits kHopByHopNextHeaderBitwidth (hop_next_header header),
      SerializeBits kHopByHopHeaderExtensionLengthBitwidth (hop_header_extension_length header),
      SerializeBits kHopByHopOptionsAndPaddingBitwidth (hop_options_and_padding header)]"

definition SerializeIcmpHeader :: "icmp_header \<Rightarrow> serializer" where
  "SerializeIcmpHeader header = in_order
     [SerializeBits kIcmpTypeBitwidth (icmp_type header),
      SerializeBits kIcmpCodeBitwidth (icmp_code header),
      SerializeBits kIcmpChecksumBitwidth (icmp_checksum header),
      SerializeBits kIcmpRestOfHeaderBitwidth (icmp_rest_of_header header)]"

definition SerializeUdpHeader :: "udp_header \<Rightarrow> serializer" where
  "SerializeUdpHeader header = in_order
     [SerializeBits kUdpPortBitwidth (udp_source_port header),
      SerializeBits kUdpPortBitwidth (udp_destination_port header),
      SerializeBits kUdpLengthBitwidth (udp_length header),
      SerializeBits kUdpChecksumBitwidth (udp_checksum header)]"

definition SerializeTcpHeader :: "tcp_header \<Rightarrow> serializer" where
  "SerializeTcpHeader header = in_order
     [SerializeBits kTcpPortBitwidth (tcp_source_port header),
      SerializeBits kTcpPortBitwidth (tcp_destination_port header),
      SerializeBits kTcpSequenceNumberBitwidth (tcp_sequence_number header),
      SerializeBits kTcpAcknowledgementNumberBitwidth (tcp_acknowledgement_number header),
      SerializeBits kTcpDataOffsetBitwidth (tcp_data_offset header),
      SerializeBits kTcpRestOfHeaderBitwidth (tcp_rest_of_header header),
      serialize_options (tcp_uninterpreted_options header)]"

definition SerializeGreHeader :: "gre_header \<Rightarrow> serializer" where
  "SerializeGreHeader header = in_order
     [SerializeBits kGreChecksumPresentBitwidth (gre_checksum_present header),
      SerializeBits kGreReserved0Bitwidth (gre_reserved0 header),
      SerializeBits kGreVersionBitwidth (gre_version header),
      SerializeBits kGreProtocolTypeBitwidth (gre_protocol_type header),
      (\<lambda>output. if gre_checksum_present header = ''0x1''
         then bind_or (AppendHexString (gre_checksum header) output) (AppendHexString (gre_reserved1 header))
         else Inr output)]"

definition SerializeSaiP4BMv2PacketInHeader :: "sai_p4_bmv2_packet_in_header \<Rightarrow> serializer" where
  "SerializeSaiP4BMv2PacketInHeader header = in_order
     [SerializeBits kSaiP4BMv2PacketInIngressPortBitwidth (bmv2_ingress_port header),
      SerializeBits kSaiP4BMv2PacketInTargetEgressPortBitwidth (bmv2_target_egress_port header),
      SerializeBits kSaiP4BMv2PacketInUnusedPadBitwidth (bmv2_unused_pad header)]"

definition SerializeIpfixHeader :: "ipfix_header \<Rightarrow> serializer" where
  "SerializeIpfixHeader header = in_order
     [SerializeBits kIpfixVersionBitwidth (ipfix_version header),
      SerializeBits kIpfixLengthBitwidth (ipfix_length header),
      SerializeBits kIpfixExportTimeBitwidth (ipfix_export_time header),
      SerializeBits kIpfixSequenceNumberBitwidth (ipfix_sequence_number header),
      SerializeBits kIpfixObservationDomainIdBitwidth (ipfix_observation_domain_id header)]"

definition SerializePsampHeader :: "psamp_header \<Rightarrow> serializer" where
  "SerializePsampHeader header = in_order
     [SerializeBits kPsampTemplateIdBitwidth (psamp_template_id header),
      SerializeBits kPsampLengthBitwidth (psamp_length header),
      SerializeBits kPsampObservationTimeBitwidth (psamp_observation_time header),
      SerializeBits kPsampFlowsetBitwidth (psamp_flowset header),
      SerializeBits kPsampNextHopIndexBitwidth (psamp_next_hop_index header),
      SerializeBits kPsampEpochBitwidth (psamp_epoch header),
      SerializeBits kPsampIngressPortBitwidth (psamp_ingress_port header),
      SerializeBits kPsampEgressPortBitwidth (psamp_egress_port header),
      SerializeBits kPsampUserMetaFieldBitwidth (psamp_user_meta_field header),
      SerializeBits kPsampDlbIdBitwidth (psamp_dlb_id header),
      SerializeBits kPsampVariableLengthBitwidth (psamp_variable_length header),
      SerializeBits kPsampPacketSampledLengthBitwidth (psamp_packet_sampled_length header)]"

definition SerializePtpHeader :: "ptp_header \<Rightarrow> serializer" where
  "SerializePtpHeader header = in_order
     [SerializeBits kPtpTransportSpecificBitwidth (ptp_transport_specific header),
      SerializeBits kPtpMessageTypeBitwidth (ptp_message_type header),
      SerializeBits kPtpReserved0Bitwidth (ptp_reserved0 header),
      SerializeBits kPtpVersionPtpBitwidth (ptp_version_ptp header),
      SerializeBits kPtpMessageLengthBitwidth (ptp_message_length header),
      SerializeBits kPtpDomainNumberBitwidth (ptp_domain_number header),
      SerializeBits kPtpReserved1Bitwidth (ptp_reserved1 header),
      SerializeBits kPtpFlagsBitwidth (ptp_flags header),
      SerializeBits kPtpCorrectionFieldBitwidth (ptp_correction_field header),
      SerializeBits kPtpReserved2Bitwidth (ptp_reserved2 header),
      SerializeBits kPtpSourcePortIdentityBitwidth (ptp_source_port_identity header),
      SerializeBits kPtpSequenceIdBitwidth (ptp_sequence_id header),
      SerializeBits kPtpControlFieldBitwidth (ptp_control_field header),
      SerializeBits kPtpLogMessageIntervalBitwidth (ptp_log_message_interval header)]"

definition SerializePspHeader :: "psp_header \<Rightarrow> serializer" where
  "SerializePspHeader header = in_order
     [SerializeBits kPspNextHeaderBitwidth (psp_next_header header),
      SerializeBits kPspHeaderExtLengthBitwidth (psp_header_ext_length header),
      SerializeBits kPspReserved0Bitwidth (psp_reserved0 header),
      SerializeBits kPspCryptOffsetBitwidth (psp_crypt_offset header),
      SerializeBits kPspSampleBitwidth (psp_sample_bit header),
      SerializeBits kPspDropBitwidth (psp_drop_bit header),
      SerializeBits kPspVersionBitwidth (psp_version header),
      SerializeBits kPspVirtualizationCookieBitwidth (psp_virtualization_cookie_present header),
      SerializeBits kPspReserved1Bitwidth (psp_reserved1 header),
      SerializeBits kPspSecurityParametersIndexBitwidth (psp_security_parameters_index header),
      SerializeBits kPspInitializationVectorBitwidth (psp_initialization_vector header)]"

fun SerializeHeader :: "text_env \<Rightarrow> header \<Rightarrow> serializer" where
    "SerializeHeader env (EthernetHeader h) output = SerializeEthernetHeader h output"
  | "SerializeHeader env (VlanHeader h) output = SerializeVlanHeader h output"
  | "SerializeHeader env (CsigHeader h) output = SerializeCsigHeader h output"
  | "SerializeHeader env (ArpHeader h) output = SerializeArpHeader h output"
  | "SerializeHeader env (Ipv4Header h) output = SerializeIpv4Header h output"
  | "SerializeHeader env (Ipv6Header h) output = SerializeIpv6Header env h output"
  | "SerializeHeader env (HopByHopOptionsHeader h) output = SerializeHopByHopOptionsHeader h output"
  | "SerializeHeader env (IcmpHeader h) output = SerializeIcmpHeader h output"
  | "SerializeHeader env (UdpHeader h) output = SerializeUdpHeader h output"
  | "SerializeHeader env (TcpHeader h) output = SerializeTcpHeader h output"
  | "SerializeHeader env (GreHeader h) output = SerializeGreHeader h output"
  | "SerializeHeader env (SaiP4BMv2PacketInHeader h) output = SerializeSaiP4BMv2PacketInHeader h output"
  | "SerializeHeader env (IpfixHeader h) output = SerializeIpfixHeader h output"
  | "SerializeHeader env (PsampHeader h) output = SerializePsampHeader h output"
  | "SerializeHeader env (PtpHeader h) output = SerializePtpHeader h output"
  | "SerializeHeader env (PspHeader h) output = SerializePspHeader h output"
  | "SerializeHeader env HeaderUnset output = Inl INVALID_ARGUMENT"

text \<open>From the header at an index on; and a whole packet as a byte string.\<close>

definition RawSerializeFrom :: "text_env \<Rightarrow> packet \<Rightarrow> int \<Rightarrow> serializer" where
  "RawSerializeFrom env packet start_header_index output =
     (if start_header_index > int (length (packet_headers packet)) \<or> start_header_index < 0 then Inl INVALID_ARGUMENT
      else bind_or (fold_or (SerializeHeader env) (drop (nat start_header_index) (packet_headers packet)) output)
        (\<lambda>output. Inr (AppendBytes (packet_payload packet) output)))"

definition RawSerializePacket :: "text_env \<Rightarrow> packet \<Rightarrow> string status_or" where
  "RawSerializePacket env packet = bind_or (RawSerializeFrom env packet 0 empty_bit_string) ToByteString"

section \<open>Packet sizes\<close>

text \<open>
  Sizes are \<open>int\<close>s. The number of bytes of the options and of the payload is a \<open>size_t\<close>, so the sum is
  computed in that type and narrowed.
\<close>

definition options_size :: "string \<Rightarrow> nat status_or" where
  "options_size options =
     (if options \<noteq> [] then bind_or (HexStringToByteString options) (\<lambda>bytes. Inr (8 * length bytes)) else Inr 0)"

fun header_size :: "header \<Rightarrow> int \<Rightarrow> int status_or" where
  "header_size (EthernetHeader _) acc = Inr (acc + int kEthernetHeaderBitwidth)"
| "header_size (Ipv4Header h) acc =
     bind_or (options_size (ipv4_uninterpreted_options h)) (\<lambda>options.
       Inr (to_int32 (acc + int kStandardIpv4HeaderBitwidth + int options)))"
| "header_size (Ipv6Header _) acc = Inr (acc + int kIpv6HeaderBitwidth)"
| "header_size (HopByHopOptionsHeader _) acc = Inr (acc + int kMinHopByHopOptionsHeaderBitwidth)"
| "header_size (UdpHeader _) acc = Inr (acc + int kUdpHeaderBitwidth)"
| "header_size (TcpHeader h) acc =
     bind_or (options_size (tcp_uninterpreted_options h)) (\<lambda>options.
       Inr (to_int32 (acc + int kStandardTcpHeaderBitwidth + int options)))"
| "header_size (ArpHeader _) acc = Inr (acc + int kArpHeaderBitwidth)"
| "header_size (IcmpHeader _) acc = Inr (acc + int kIcmpHeaderBitwidth)"
| "header_size (VlanHeader _) acc = Inr (acc + int kVlanHeaderBitwidth)"
| "header_size (GreHeader h) acc =
     Inr (acc + int kRfc2784GreHeaderWithoutOptionalsBitwidth +
       (if gre_checksum_present h = ''0x1'' then int (kGreChecksumBitwidth + kGreReserved1Bitwidth) else 0))"
| "header_size (SaiP4BMv2PacketInHeader _) acc = Inr (acc + int kSaiP4BMv2PacketInHeaderBitwidth)"
| "header_size (IpfixHeader _) acc = Inr (acc + int kIpfixHeaderBitwidth)"
| "header_size (PsampHeader _) acc = Inr (acc + int kPsampHeaderBitwidth)"
| "header_size (PtpHeader _) acc = Inr (acc + int kPtpHeaderBitwidth)"
| "header_size (PspHeader _) acc = Inr (acc + int kPspHeaderBitwidth)"
| "header_size (CsigHeader _) acc = Inr (acc + int kCsigHeaderBitwidth)"
| "header_size HeaderUnset acc = Inl INVALID_ARGUMENT"

definition PacketSizeInBits :: "packet \<Rightarrow> int \<Rightarrow> int status_or" where
  "PacketSizeInBits packet start_header_index =
     (if start_header_index > int (length (packet_headers packet)) \<or> start_header_index < 0 then Inl INVALID_ARGUMENT
      else bind_or (fold_or header_size (drop (nat start_header_index) (packet_headers packet)) 0) (\<lambda>size.
        Inr (to_int32 (size + 8 * int (length (packet_payload packet))))))"

text \<open>Remainder and quotient of C++ round towards zero.\<close>

definition PacketSizeInBytes :: "packet \<Rightarrow> int \<Rightarrow> int status_or" where
  "PacketSizeInBytes packet start_header_index =
     bind_or (PacketSizeInBits packet start_header_index) (\<lambda>bit_size.
       if \<not> 8 dvd bit_size then Inl INVALID_ARGUMENT else Inr (bit_size div 8))"

section \<open>Checksums\<close>

text \<open>
  The sum of the words is computed as an \<open>unsigned long\<close> and narrowed to an \<open>int\<close> after each step; the
  carries are added until the upper half, shifted with its sign, is zero. An operation whose outcome
  is \<open>None\<close> has undefined behaviour or ends the process: an element at a negative index, or the value of a
  \<open>StatusOr\<close> that holds an error.
\<close>

fun sum_words :: "nat \<Rightarrow> bit_string \<Rightarrow> int \<Rightarrow> int status_or" where
  "sum_words 0 data acc = Inr acc"
| "sum_words (Suc n) data acc =
     (case ConsumeBitset 16 data of
        (Inl _, _) \<Rightarrow> Inl INTERNAL
      | (Inr word, data) \<Rightarrow> sum_words n data (to_int32 (acc + int word)))"

lemma carries_decrease:
  fixes x :: int
  assumes "drop_bit 16 x \<noteq> 0"
  shows "0 \<le> take_bit 16 x + drop_bit 16 x \<and> take_bit 16 x + drop_bit 16 x < x \<or> x < 0 \<and> x < take_bit 16 x + drop_bit 16 x \<and> take_bit 16 x + drop_bit 16 x < 65536"
proof -
  have x: "x = 65536 * drop_bit 16 x + take_bit 16 x" "0 \<le> take_bit 16 x" "take_bit 16 x < 65536"
    by (simp_all add: drop_bit_eq_div take_bit_eq_mod)
  with assms show ?thesis by linarith
qed

function add_carries :: "int \<Rightarrow> int" where
  "add_carries acc = (if drop_bit 16 acc \<noteq> 0 then add_carries (take_bit 16 acc + drop_bit 16 acc) else acc)"
  by auto
termination
proof (relation "measure (\<lambda>x. if x < 0 then nat (65536 - x) else nat x)")
  fix acc :: int
  assume "drop_bit 16 acc \<noteq> 0"
  from carries_decrease [OF this]
  show "(take_bit 16 acc + drop_bit 16 acc, acc) \<in> measure (\<lambda>x. if x < 0 then nat (65536 - x) else nat x)"
    by (elim disjE conjE) (simp_all add: not_less)
qed simp

definition pad_to_words :: "bit_string \<Rightarrow> bit_string" where
  "pad_to_words data = (AppendBit False ^^ ((16 - bs_size data mod 16) mod 16)) data"

definition OnesComplementChecksum :: "bit_string \<Rightarrow> int status_or" where
  "OnesComplementChecksum data =
     (let data = pad_to_words data
      in bind_or (sum_words (bs_size data div 16) data 0) (\<lambda>sum. Inr (take_bit 16 (NOT (add_carries sum)))))"

definition Ipv4HeaderChecksum :: "ipv4_header \<Rightarrow> int status_or" where
  "Ipv4HeaderChecksum header =
     bind_or (SerializeIpv4Header (header\<lparr>ipv4_checksum := ''0x0000''\<rparr>) empty_bit_string) OnesComplementChecksum"

text \<open>The index of the IP header before a header; an IPv6 hop-by-hop options header in between is skipped.\<close>

definition FindPrecedingIpHeader :: "packet \<Rightarrow> int \<Rightarrow> int" where
  "FindPrecedingIpHeader packet header_index =
     (let ip_header_index = header_index - 1
      in if ip_header_index \<ge> 0 \<and> case_of (packet_headers packet ! nat ip_header_index) = kHopByHopOptionsHeader
         then ip_header_index - 1 else ip_header_index)"

definition with_header :: "packet \<Rightarrow> int \<Rightarrow> header \<Rightarrow> packet" where
  "with_header packet index header = packet\<lparr>packet_headers := (packet_headers packet)[nat index := header]\<rparr>"

text \<open>\<open>packet.headers(index)\<close> has undefined behaviour if the index is negative.\<close>

definition header_at :: "packet \<Rightarrow> int \<Rightarrow> header option" where
  "header_at packet index = (if index < 0 then None else Some (packet_headers packet ! nat index))"

text \<open>The pseudo headers of UDP, or \<open>None\<close> if the checksum can be anything.\<close>

definition udp_pseudo_header :: "text_env \<Rightarrow> header \<Rightarrow> udp_header \<Rightarrow> bit_string option status_or" where
  "udp_pseudo_header env preceding_header udp_header =
     (case preceding_header of
        Ipv4Header header \<Rightarrow>
          bind_or (in_order
            [SerializeIpv4Address (ipv4_source header), SerializeIpv4Address (ipv4_destination header),
             (\<lambda>data. Inr (AppendBits 8 0 data)), SerializeBits kIpProtocolBitwidth (ipv4_protocol header),
             SerializeBits kUdpLengthBitwidth (udp_length udp_header)] empty_bit_string) (\<lambda>data. Inr (Some data))
      | Ipv6Header header \<Rightarrow>
          bind_or (in_order
            [SerializeIpv6Address env (ipv6_source header), SerializeIpv6Address env (ipv6_destination header),
             (\<lambda>data. Inr (AppendBits 16 0 data)), SerializeBits kUdpLengthBitwidth (udp_length udp_header),
             (\<lambda>data. Inr (AppendBits 24 0 data)), SerializeBits kIpNextHeaderBitwidth ''0x11''] empty_bit_string)
          (\<lambda>data. Inr (Some data))
      | PspHeader _ \<Rightarrow> Inr None
      | _ \<Rightarrow> Inl INVALID_ARGUMENT)"

definition checksum_from :: "text_env \<Rightarrow> packet \<Rightarrow> int \<Rightarrow> bit_string \<Rightarrow> int status_or" where
  "checksum_from env packet header_index data =
     bind_or (RawSerializeFrom env packet header_index data) OnesComplementChecksum"

definition UdpHeaderChecksum :: "text_env \<Rightarrow> packet \<Rightarrow> int \<Rightarrow> int option outcome" where
  "UdpHeaderChecksum env packet udp_header_index =
     (if udp_header_index < 1 \<or> udp_header_index \<ge> int (length (packet_headers packet))
      then Some (Inl INVALID_ARGUMENT)
      else case header_at packet (FindPrecedingIpHeader packet udp_header_index) of
        None \<Rightarrow> None
      | Some preceding_header \<Rightarrow>
          (case packet_headers packet ! nat udp_header_index of
             UdpHeader udp_header \<Rightarrow> Some (
               bind_or (udp_pseudo_header env preceding_header udp_header) (\<lambda>pseudo_header.
                 case pseudo_header of
                   None \<Rightarrow> Inr None
                 | Some data \<Rightarrow>
                     bind_or (checksum_from env
                       (with_header packet udp_header_index (UdpHeader (udp_header\<lparr>udp_checksum := ''0x0000''\<rparr>)))
                       udp_header_index data) (\<lambda>checksum. Inr (Some checksum))))
           | _ \<Rightarrow> Some (Inl INVALID_ARGUMENT)))"

definition icmp_pseudo_header :: "text_env \<Rightarrow> header \<Rightarrow> packet \<Rightarrow> int \<Rightarrow> bit_string status_or" where
  "icmp_pseudo_header env preceding_header packet icmp_header_index =
     (case preceding_header of
        Ipv6Header header \<Rightarrow>
          bind_or (in_order [SerializeIpv6Address env (ipv6_source header), SerializeIpv6Address env (ipv6_destination header)]
            empty_bit_string) (\<lambda>data.
          bind_or (PacketSizeInBytes packet icmp_header_index) (\<lambda>icmpv6_size.
            SerializeBits kIpNextHeaderBitwidth ''0x3a''
              (AppendBits 24 0 (AppendBits 32 (nat (take_bit 32 icmpv6_size)) data))))
      | Ipv4Header _ \<Rightarrow> Inr empty_bit_string
      | _ \<Rightarrow> Inl INVALID_ARGUMENT)"

definition IcmpHeaderChecksum :: "text_env \<Rightarrow> packet \<Rightarrow> int \<Rightarrow> int outcome" where
  "IcmpHeaderChecksum env packet icmp_header_index =
     (if icmp_header_index < 1 \<or> icmp_header_index \<ge> int (length (packet_headers packet))
      then Some (Inl INVALID_ARGUMENT)
      else case packet_headers packet ! nat icmp_header_index of
        IcmpHeader icmp_header \<Rightarrow>
          (let packet = with_header packet icmp_header_index (IcmpHeader (icmp_header\<lparr>icmp_checksum := ''0x0000''\<rparr>))
           in case header_at packet (FindPrecedingIpHeader packet icmp_header_index) of
                None \<Rightarrow> None
              | Some preceding_header \<Rightarrow> Some (
                  bind_or (icmp_pseudo_header env preceding_header packet icmp_header_index)
                    (checksum_from env packet icmp_header_index)))
      | _ \<Rightarrow> Some (Inl INVALID_ARGUMENT))"

definition GreHeaderChecksum :: "text_env \<Rightarrow> packet \<Rightarrow> int \<Rightarrow> int outcome" where
  "GreHeaderChecksum env packet gre_header_index =
     (if gre_header_index \<ge> int (length (packet_headers packet)) then Some (Inl INVALID_ARGUMENT)
      else case header_at packet gre_header_index of
        None \<Rightarrow> None
      | Some (GreHeader gre_header) \<Rightarrow> Some (
          checksum_from env (with_header packet gre_header_index (GreHeader (gre_header\<lparr>gre_checksum := ''0x0000''\<rparr>)))
            gre_header_index empty_bit_string)
      | Some _ \<Rightarrow> Some (Inl INVALID_ARGUMENT))"

section \<open>Reading and writing bits\<close>

definition bs_rest :: "bit_string \<Rightarrow> bool list" where
  "bs_rest s = drop (bs_start_index s) (bs_bits s)"

definition skip :: "nat \<Rightarrow> bit_string \<Rightarrow> bit_string" where
  "skip n s = s\<lparr>bs_start_index := bs_start_index s + n\<rparr>"

definition chunk :: "nat \<Rightarrow> bit_string \<Rightarrow> bool list" where
  "chunk n s = take n (bs_rest s)"

definition append_bits :: "bool list \<Rightarrow> bit_string \<Rightarrow> bit_string" where
  "append_bits b s = s\<lparr>bs_bits := bs_bits s @ b\<rparr>"

lemma skip_simps [simp]:
  "bs_size (skip n s) = bs_size s - n" "skip n (skip m s) = skip (m + n) s" "bs_rest (skip n s) = drop n (bs_rest s)"
  "skip 0 s = s" "length (bs_rest s) = bs_size s"
  by (simp_all add: skip_def bs_size_def bs_rest_def add.commute)

lemma length_chunk [simp]: "n \<le> bs_size s \<Longrightarrow> length (chunk n s) = n"
  by (simp add: chunk_def)

lemma append_bits_simps [simp]:
  "append_bits c (append_bits b s) = append_bits (b @ c) s" "append_bits [] s = s"
  by (simp_all add: append_bits_def)

lemma chunk_join [simp]:
  "chunk n s @ chunk m (skip n s) = chunk (n + m) s" "chunk n s @ chunk m (skip n s) @ xs = chunk (n + m) s @ xs"
  "l = k + n \<Longrightarrow> chunk n (skip k s) @ chunk m (skip l s) = chunk (n + m) (skip k s)"
  "l = k + n \<Longrightarrow> chunk n (skip k s) @ chunk m (skip l s) @ xs = chunk (n + m) (skip k s) @ xs"
  by (simp_all add: chunk_def take_add, simp_all add: add.commute)

lemma Consume_skip: "n \<le> bs_size s \<Longrightarrow> Consume (int n) s = (OK, skip n s)"
  by (simp add: Consume_def skip_def)

lemma ConsumeHexString_chunk:
  "n \<le> bs_size s \<Longrightarrow> ConsumeHexString (int n) s = (Inr (BitsetToHexString n (bits_value (chunk n s))), skip n s)"
proof -
  assume n: "n \<le> bs_size s"
  have "ToHexString_range (skip n s) (bs_start_index s) n = BitsetToHexString n (bits_value (chunk n s))"
  proof (cases "n = 0")
    case True
    then show ?thesis by (simp add: ToHexString_range_def BitsetToHexString_def)
  next
    case False
    then have "bs_start_index s + n \<le> length (bs_bits s)" using n by (simp add: bs_size_def)
    then show ?thesis using ToHexString_range_eq [of "bs_start_index s" n "skip n s"]
      by (simp add: skip_def chunk_def bs_rest_def)
  qed
  then show ?thesis by (simp add: ConsumeHexString_def Consume_skip n) (simp add: skip_def)
qed

lemma chunk_value_less: "n \<le> bs_size s \<Longrightarrow> bits_value (chunk n s) < 2 ^ n"
  using bits_value_less [of "chunk n s"] by simp

lemma AppendBits_value: "length b = n \<Longrightarrow> AppendBits n (bits_value b) s = append_bits b s"
  using field_bits_value [of b] by (simp add: AppendBits_field append_bits_def)

lemma ParseBits_chunk [simp]:
  "n \<le> bs_size s \<Longrightarrow> run_state (ParseBits n) s = (BitsetToHexString n (bits_value (chunk n s)), skip n s)"
  by (simp add: ParseBits_def or_internal_error_def ConsumeHexString_chunk)

lemma SerializeBits_chunk [simp]:
  "n \<le> bs_size s \<Longrightarrow> SerializeBits n (BitsetToHexString n (bits_value (chunk n s))) out = Inr (append_bits (chunk n s) out)"
  by (simp add: SerializeBits_def HexStringToBitset_BitsetToHexString chunk_value_less AppendBits_value)

lemma OfHexString_chunk:
  "LENGTH('a) \<le> bs_size s \<Longrightarrow>
     OfHexString (BitsetToHexString LENGTH('a) (bits_value (chunk LENGTH('a) s))) =
     Inr (of_nat (bits_value (chunk LENGTH('a) s)) :: 'a::len word)"
  by (simp add: OfHexString_def HexStringToBitset_BitsetToHexString chunk_value_less)

lemma unat_chunk:
  "LENGTH('a) \<le> bs_size s \<Longrightarrow> unat (of_nat (bits_value (chunk LENGTH('a) s)) :: 'a::len word) = bits_value (chunk LENGTH('a) s)"
  by (simp add: unat_of_nat chunk_value_less)

definition chunk_mac :: "bit_string \<Rightarrow> string" where
  "chunk_mac s = Mac_ToString (of_nat (bits_value (chunk 48 s)))"

definition chunk_ipv4 :: "bit_string \<Rightarrow> string" where
  "chunk_ipv4 s = Ipv4_ToString (of_nat (bits_value (chunk 32 s)))"

definition chunk_ipv6 :: "text_env \<Rightarrow> bit_string \<Rightarrow> string" where
  "chunk_ipv6 env s = Ipv6_ToString env (of_nat (bits_value (chunk 128 s)))"

lemma ParseAddress_chunk [simp]:
  "48 \<le> bs_size s \<Longrightarrow> run_state ParseMacAddress s = (chunk_mac s, skip 48 s)"
  "32 \<le> bs_size s \<Longrightarrow> run_state ParseIpv4Address s = (chunk_ipv4 s, skip 32 s)"
  "128 \<le> bs_size s \<Longrightarrow> run_state (ParseIpv6Address env) s = (chunk_ipv6 env s, skip 128 s)"
  using ConsumeHexString_chunk [of 48 s] ConsumeHexString_chunk [of 32 s] ConsumeHexString_chunk [of 128 s]
    OfHexString_chunk [where 'a = 48, of s] OfHexString_chunk [where 'a = 32, of s] OfHexString_chunk [where 'a = 128, of s]
  by (simp_all add: ParseMacAddress_def ParseIpv4Address_def ParseIpv6Address_def ConsumeMacAddress_def
      ConsumeIpv4Address_def ConsumeIpv6Address_def or_internal_error_def chunk_mac_def chunk_ipv4_def chunk_ipv6_def)

lemma SerializeAddress_chunk [simp]:
  "48 \<le> bs_size s \<Longrightarrow> SerializeMacAddress (chunk_mac s) out = Inr (append_bits (chunk 48 s) out)"
  "32 \<le> bs_size s \<Longrightarrow> SerializeIpv4Address (chunk_ipv4 s) out = Inr (append_bits (chunk 32 s) out)"
  "inet_round_trip env \<Longrightarrow> 128 \<le> bs_size s \<Longrightarrow> SerializeIpv6Address env (chunk_ipv6 env s) out = Inr (append_bits (chunk 128 s) out)"
  using unat_chunk [where 'a = 48, of s] unat_chunk [where 'a = 32, of s] unat_chunk [where 'a = 128, of s]
  by (simp_all add: SerializeMacAddress_def SerializeIpv4Address_def SerializeIpv6Address_def chunk_mac_def chunk_ipv4_def
      chunk_ipv6_def Mac_round_trip Ipv4_round_trip Ipv6_text_round_trip AppendBits_value)

lemma AppendHexString_chunk [simp]:
  assumes "8 dvd n" "n \<le> bs_size s"
  shows "AppendHexString (BitsetToHexString n (bits_value (chunk n s))) out = Inr (append_bits (chunk n s) out)"
proof -
  have "8 dvd length (chunk n s)" using assms by simp
  then obtain t where t: "chunk n s = bytes_bits t" "n = 8 * length t"
    using assms by (metis bytes_bits_surj length_chunk)
  have "HexStringToByteString (BitsetToHexString n (bits_value (chunk n s))) = Inr t"
    using HexStringToByteString_ByteStringToHexString [of t] BitsetToHexString_bytes [of t] by (simp only: t(1) flip: t(2))
  then show ?thesis by (simp add: AppendHexString_def AppendBytes_bits t(1) bytes_bits_def append_bits_def)
qed

lemma BitsetToHexString_not_Nil [simp]: "BitsetToHexString n b \<noteq> []"
  by (simp add: BitsetToHexString_def)

text \<open>The options are a chunk, possibly empty, and are written as they were read.\<close>

lemma parse_options_cases:
  obtains "run_state (parse_options words) s = ([], s)"
  | n where "run_state (parse_options words) s = (BitsetToHexString n (bits_value (chunk n s)), skip n s)"
      "n \<le> bs_size s" "8 dvd bs_size s \<Longrightarrow> 8 dvd n"
proof (cases "HexStringToInt words")
  case (Inr n)
  define w where "w = (if int (bs_size s) < 32 * (n - 5) then bs_size s else nat (32 * (n - 5)))"
  show ?thesis
  proof (cases "n > 5")
    case True
    have w: "nat (32 * (n - 5)) = 32 * nat (n - 5)" using nat_mult_distrib [of 32 "n - 5"] by simp
    have "w \<le> bs_size s" "8 dvd bs_size s \<Longrightarrow> 8 dvd w" 
      unfolding w_def w by auto
    moreover from this have "run_state (parse_options words) s = (BitsetToHexString w (bits_value (chunk w s)), skip w s)"
      using Inr True by (simp add: parse_options_def w_def Let_def)
    ultimately show ?thesis using that(2) by blast
  next
    case False
    with Inr show ?thesis using that(1) by (simp add: parse_options_def)
  qed
qed (use that(1) in \<open>simp add: parse_options_def\<close>)

section \<open>Parsing a header loses nothing\<close>

text \<open>
  The interface between the parser of packets and the parsers of headers: a header that is parsed
  takes some bits from the front, whole bytes if the data are whole bytes, and serializing it gives
  these bits back.
\<close>

definition reads_back :: "('h \<Rightarrow> serializer) \<Rightarrow> bit_string \<Rightarrow> 'h \<Rightarrow> bit_string \<Rightarrow> bool" where
  "reads_back serialize s h s' \<longleftrightarrow>
     (\<exists>n. 0 < n \<and> n \<le> bs_size s \<and> s' = skip n s \<and>
        (8 dvd bs_size s \<longrightarrow> 8 dvd n \<and> (\<forall>out. serialize h out = Inr (append_bits (chunk n s) out))))"

locale header_codec =
  fixes parse :: "bit_string \<Rightarrow> ('h \<times> bit_string) status_or"
    and serialize :: "'h \<Rightarrow> serializer"
  assumes parse_reads_back: "parse s = Inr (h, s') \<Longrightarrow> reads_back serialize s h s'"

lemma reads_backI:
  "s' = skip n s \<Longrightarrow> 0 < n \<Longrightarrow> 8 dvd n \<Longrightarrow> n \<le> bs_size s \<Longrightarrow> (\<And>out. serialize h out = Inr (append_bits (chunk n s) out)) \<Longrightarrow>
     reads_back serialize s h s'"
  by (auto simp: reads_back_def)

interpretation ethernet: header_codec ParseEthernetHeader SerializeEthernetHeader
  by unfold_locales (auto simp: ParseEthernetHeader_def SerializeEthernetHeader_def in_order_def widths split: if_splits intro!: reads_backI)

interpretation vlan: header_codec ParseVlanHeader SerializeVlanHeader
  by unfold_locales (auto simp: ParseVlanHeader_def SerializeVlanHeader_def in_order_def widths split: if_splits intro!: reads_backI)

interpretation csig: header_codec ParseCsigHeader SerializeCsigHeader
  by unfold_locales (auto simp: ParseCsigHeader_def SerializeCsigHeader_def in_order_def widths split: if_splits intro!: reads_backI)

interpretation arp: header_codec ParseArpHeader SerializeArpHeader
  by unfold_locales (auto simp: ParseArpHeader_def SerializeArpHeader_def in_order_def widths split: if_splits intro!: reads_backI)

lemma ipv6_reads_back:
  "inet_round_trip env \<Longrightarrow> ParseIpv6Header env s = Inr (h, s') \<Longrightarrow> reads_back (SerializeIpv6Header env) s h s'"
  by (auto simp: ParseIpv6Header_def SerializeIpv6Header_def in_order_def widths split: if_splits intro!: reads_backI)

interpretation hop_by_hop: header_codec ParseHopByHopOptionsHeader SerializeHopByHopOptionsHeader
  by unfold_locales (auto simp: ParseHopByHopOptionsHeader_def SerializeHopByHopOptionsHeader_def in_order_def widths split: if_splits intro!: reads_backI)

interpretation icmp: header_codec ParseIcmpHeader SerializeIcmpHeader
  by unfold_locales (auto simp: ParseIcmpHeader_def SerializeIcmpHeader_def in_order_def widths split: if_splits intro!: reads_backI)

interpretation udp: header_codec ParseUdpHeader SerializeUdpHeader
  by unfold_locales (auto simp: ParseUdpHeader_def SerializeUdpHeader_def in_order_def widths split: if_splits intro!: reads_backI)

interpretation packet_in: header_codec ParseSaiP4BMv2PacketInHeader SerializeSaiP4BMv2PacketInHeader
  by unfold_locales (auto simp: ParseSaiP4BMv2PacketInHeader_def SerializeSaiP4BMv2PacketInHeader_def in_order_def widths split: if_splits intro!: reads_backI)

interpretation ipfix: header_codec ParseIpfixHeader SerializeIpfixHeader
  by unfold_locales (auto simp: ParseIpfixHeader_def SerializeIpfixHeader_def in_order_def widths split: if_splits intro!: reads_backI)

interpretation psamp: header_codec ParsePsampHeader SerializePsampHeader
  by unfold_locales (auto simp: ParsePsampHeader_def SerializePsampHeader_def in_order_def widths split: if_splits intro!: reads_backI)

interpretation ptp: header_codec ParsePtpHeader SerializePtpHeader
  by unfold_locales (auto simp: ParsePtpHeader_def SerializePtpHeader_def in_order_def widths split: if_splits intro!: reads_backI)

interpretation psp: header_codec ParsePspHeader SerializePspHeader
  by unfold_locales (auto simp: ParsePspHeader_def SerializePspHeader_def in_order_def widths split: if_splits intro!: reads_backI)

lemma serialize_no_options [simp]: "serialize_options [] out = Inr out"
  by (simp add: serialize_options_def)

lemma serialize_options_chunk [simp]:
  "8 dvd n \<Longrightarrow> n \<le> bs_size s \<Longrightarrow>
     serialize_options (BitsetToHexString n (bits_value (chunk n s))) out = Inr (append_bits (chunk n s) out)"
  by (simp add: serialize_options_def)

interpretation ipv4: header_codec ParseIpv4Header SerializeIpv4Header
proof
  fix s h s'
  assume p: "ParseIpv4Header s = Inr (h, s')"
  let ?ihl = "BitsetToHexString 4 (bits_value (chunk 4 (skip 4 s)))"
  from p have sz: "160 \<le> bs_size s" by (auto simp: ParseIpv4Header_def widths split: if_splits)
  show "reads_back SerializeIpv4Header s h s'"
  proof (cases rule: parse_options_cases [of ?ihl "skip 160 s"])
    case 1
    with p sz show ?thesis
      by (auto simp: ParseIpv4Header_def SerializeIpv4Header_def in_order_def widths intro!: reads_backI)
  next
    case (2 n)
    then have "s' = skip (160 + n) s" using p sz by (auto simp: ParseIpv4Header_def widths)
    moreover have "8 dvd bs_size s \<Longrightarrow> 8 dvd n" using 2(3) by simp
    moreover have "8 dvd n \<Longrightarrow> SerializeIpv4Header h out = Inr (append_bits (chunk (160 + n) s) out)" for out
      using p sz 2(1,2) by (auto simp: ParseIpv4Header_def SerializeIpv4Header_def in_order_def widths)
    ultimately show ?thesis using 2(2) sz by (auto simp: reads_back_def intro!: exI [of _ "160 + n"])
  qed
qed

interpretation tcp: header_codec ParseTcpHeader SerializeTcpHeader
proof
  fix s h s'
  assume p: "ParseTcpHeader s = Inr (h, s')"
  let ?offset = "BitsetToHexString 4 (bits_value (chunk 4 (skip 96 s)))"
  from p have sz: "160 \<le> bs_size s" by (auto simp: ParseTcpHeader_def widths split: if_splits)
  show "reads_back SerializeTcpHeader s h s'"
  proof (cases rule: parse_options_cases [of ?offset "skip 160 s"])
    case 1
    with p sz show ?thesis
      by (auto simp: ParseTcpHeader_def SerializeTcpHeader_def in_order_def widths intro!: reads_backI)
  next
    case (2 n)
    then have "s' = skip (160 + n) s" using p sz by (auto simp: ParseTcpHeader_def widths)
    moreover have "8 dvd bs_size s \<Longrightarrow> 8 dvd n" using 2(3) by simp
    moreover have "8 dvd n \<Longrightarrow> SerializeTcpHeader h out = Inr (append_bits (chunk (160 + n) s) out)" for out
      using p sz 2(1,2) by (auto simp: ParseTcpHeader_def SerializeTcpHeader_def in_order_def widths)
    ultimately show ?thesis using 2(2) sz by (auto simp: reads_back_def intro!: exI [of _ "160 + n"])
  qed
qed

lemma PeekHexString_chunk: "n \<le> bs_size s \<Longrightarrow> PeekHexString (int n) s = Inr (BitsetToHexString n (bits_value (chunk n s)))"
  using ConsumeHexString_chunk [of n s] by (simp add: PeekHexString_def ConsumeHexString_def Consume_skip) (simp add: skip_def ToHexString_range_def)

interpretation gre: header_codec ParseGreHeader SerializeGreHeader
proof
  fix s h s'
  assume p: "ParseGreHeader s = Inr (h, s')"
  then have sz: "32 \<le> bs_size s" by (auto simp: ParseGreHeader_def widths split: if_splits)
  have peek: "PeekHexString 1 s = Inr (BitsetToHexString 1 (bits_value (chunk 1 s)))"
    using PeekHexString_chunk [of 1 s] sz by simp
  show "reads_back SerializeGreHeader s h s'"
  proof (cases "BitsetToHexString 1 (bits_value (chunk 1 s)) = ''0x1''")
    case True
    then have "64 \<le> bs_size s" using p peek by (auto simp: ParseGreHeader_def widths split: if_splits)
    moreover have "SerializeBits 1 ''0x1'' out = Inr (append_bits (chunk 1 s) out)" for out
      using SerializeBits_chunk [of 1 s out, unfolded True] sz by simp
    ultimately show ?thesis using True p
      by (auto simp: ParseGreHeader_def SerializeGreHeader_def in_order_def widths peek parse_at_most_def intro!: reads_backI [where n = 64])
  next
    case False
    with p sz show ?thesis
      by (auto simp: ParseGreHeader_def SerializeGreHeader_def in_order_def widths peek intro!: reads_backI)
  qed
qed

section \<open>Checksums verify\<close>

lemma ConsumeBitset_chunk:
  assumes "n \<le> bs_size s"
  shows "ConsumeBitset n s = (Inr (bits_value (chunk n s)), skip n s)"
proof (cases "n = 0")
  case True
  then show ?thesis by (simp add: ConsumeBitset_def Consume_def skip_def chunk_def bits_value_def)
next
  case False
  let ?i = "bs_start_index s" and ?b = "bs_bits s"
  have i: "?i + n \<le> length ?b" using assms False by (simp add: bs_size_def)
  have b: "?b = take ?i ?b @ field_bits (n, bits_value (chunk n s)) @ drop n (bs_rest s)"
  proof -
    have "field_bits (n, bits_value (chunk n s)) = chunk n s" using field_bits_value [of "chunk n s"] assms by simp
    then show ?thesis by (simp only: chunk_def bs_rest_def append_take_drop_id)
  qed
  have s: "s = \<lparr>bs_bits = take ?i ?b @ field_bits (n, bits_value (chunk n s)) @ drop n (bs_rest s), bs_start_index = length (take ?i ?b)\<rparr>"
    using b i by (cases s) simp
  show ?thesis
    using ConsumeBitset_front [OF chunk_value_less [OF assms], of "take ?i ?b" "drop n (bs_rest s)"] s
    unfolding skip_def by (metis bit_string.update_convs(2) bit_string.select_convs(2))
qed

text \<open>The sum of the 16-bit words of a list of bits whose length is a multiple of 16.\<close>

function word_sum :: "bool list \<Rightarrow> int" where
  "word_sum b = (if b = [] then 0 else int (bits_value (take 16 b)) + word_sum (drop 16 b))"
  by auto
termination by (relation "measure length") auto

declare word_sum.simps [simp del]

lemma word_sum_Nil [simp]: "word_sum [] = 0"
  by (simp add: word_sum.simps)

lemma word_sum_append: "16 dvd length xs \<Longrightarrow> word_sum (xs @ ys) = word_sum xs + word_sum ys"
proof (induction xs rule: word_sum.induct)
  case (1 xs)
  show ?case
  proof (cases "xs = []")
    case False
    with 1(2) have "16 \<le> length xs" by (metis dvd_imp_le length_greater_0_conv)
    then show ?thesis using 1 False word_sum.simps [of "xs @ ys"] word_sum.simps [of xs]
      by (simp add: dvd_diff_nat)
  qed simp
qed

lemma word_sum_word: "length b = 16 \<Longrightarrow> word_sum b = int (bits_value b)"
  by (subst word_sum.simps) auto

lemma word_sum_nonneg: "0 \<le> word_sum b"
  by (induction b rule: word_sum.induct) (subst word_sum.simps, auto)

lemma word_sum_bound: "16 dvd length b \<Longrightarrow> 16 * word_sum b \<le> 65535 * int (length b)"
proof (induction b rule: word_sum.induct)
  case (1 b)
  show ?case
  proof (cases "b = []")
    case False
    with 1(2) have l: "16 \<le> length b" by (metis dvd_imp_le length_greater_0_conv)
    then have "bits_value (take 16 b) < 65536" using bits_value_less [of "take 16 b"] by simp
    moreover have "16 * word_sum (drop 16 b) \<le> 65535 * int (length b - 16)"
      using 1 False l by (simp add: dvd_diff_nat)
    ultimately show ?thesis using l False by (simp add: word_sum.simps [of b])
  qed simp
qed

lemma ConsumeBitset_word:
  "16 \<le> bs_size s \<Longrightarrow> ConsumeBitset 16 s = (Inr (bits_value (chunk 16 s)), skip 16 s)"
  by (rule ConsumeBitset_chunk)

lemma sum_words_eq:
  "bs_size s = 16 * n \<Longrightarrow> 0 \<le> k \<Longrightarrow> k + word_sum (bs_rest s) < 2 ^ 31 \<Longrightarrow> sum_words n s k = Inr (k + word_sum (bs_rest s))"
proof (induction n arbitrary: s k)
  case (Suc n)
  let ?w = "int (bits_value (chunk 16 s))"
  have w: "word_sum (bs_rest s) = ?w + word_sum (drop 16 (bs_rest s))"
    using Suc.prems(1) by (subst word_sum.simps) (auto simp: chunk_def simp flip: skip_simps(5))
  moreover have "bs_size (skip 16 s) = 16 * n" using Suc.prems(1) by simp
  moreover have "0 \<le> word_sum (drop 16 (bs_rest s))" by (rule word_sum_nonneg)
  moreover from this w Suc.prems have "to_int32 (k + ?w) = k + ?w" by (intro to_int32_id) simp_all
  ultimately show ?case using Suc.IH [of "skip 16 s" "k + ?w"] Suc.prems ConsumeBitset_word [of s] by simp
qed (simp flip: skip_simps(5))

lemma sum_words_returns: "bs_size s = 16 * n \<Longrightarrow> \<exists>k'. sum_words n s k = Inr k'"
proof (induction n arbitrary: s k)
  case (Suc n)
  then show ?case using ConsumeBitset_word [of s] by simp
qed simp

declare add_carries.simps [simp del]

lemma add_carries_range: "0 \<le> add_carries x \<and> add_carries x < 65536"
proof (induction x rule: add_carries.induct)
  case (1 x)
  show ?case
  proof (cases "drop_bit 16 x = 0")
    case True
    then have "x div 65536 = 0" by (simp add: drop_bit_eq_div)
    then have "0 \<le> x \<and> x < 65536" by presburger
    with True show ?thesis by (simp add: add_carries.simps [of x])
  qed (use 1 in \<open>simp add: add_carries.simps [of x]\<close>)
qed

lemma add_carries_mod: "0 \<le> x \<Longrightarrow> add_carries x mod 65535 = x mod 65535 \<and> 0 \<le> add_carries x \<and> add_carries x < 65536 \<and> (add_carries x = 0 \<longleftrightarrow> x = 0)"
proof (induction x rule: add_carries.induct)
  case (1 x)
  show ?case
  proof (cases "drop_bit 16 x = 0")
    case False
    let ?y = "take_bit 16 x + drop_bit 16 x"
    have x: "x = 65536 * drop_bit 16 x + take_bit 16 x" "0 \<le> take_bit 16 x" by (simp_all add: drop_bit_eq_div take_bit_eq_mod)
    have "0 \<le> drop_bit 16 x" using 1(2) by simp
    with False have "drop_bit 16 x \<ge> 1" by linarith
    from x(1) have "x = 65535 * drop_bit 16 x + ?y" by simp
    then have "x mod 65535 = ?y mod 65535" by (metis mod_mult_self4)
    moreover have "?y \<noteq> 0" "0 \<le> ?y" using x \<open>drop_bit 16 x \<ge> 1\<close> by linarith+
    moreover have "x \<noteq> 0" using False by auto
    ultimately show ?thesis using 1(1) [OF False] False by (simp add: add_carries.simps [of x])
  next
    case True
    with add_carries_range [of x] show ?thesis by (simp add: add_carries.simps [of x])
  qed
qed

lemma take_bit_not: "0 \<le> x \<Longrightarrow> x < 65536 \<Longrightarrow> take_bit 16 (NOT x) = 65535 - (x :: int)"
proof -
  assume x: "0 \<le> x" "x < 65536"
  have "(NOT x) mod 65536 = (65535 - x) mod 65536" by (simp add: not_int_def mod_eq_dvd_iff)
  with x show ?thesis by (simp add: take_bit_eq_mod)
qed

text \<open>The data as 16-bit words, the last one filled up with zeros.\<close>

definition padded :: "bool list \<Rightarrow> bool list" where
  "padded b = b @ replicate ((16 - length b mod 16) mod 16) False"

lemma length_padded: "16 dvd length (padded b)" "length (padded b) \<le> length b + 15"
proof -
  define q r where "q = length b div 16" "r = length b mod 16"
  then have b: "length b = 16 * q + r" "length b mod 16 = r" "r < 16" by simp_all
  show "16 dvd length (padded b)"
  proof (cases "r = 0")
    case False
    with b have "length (padded b) = 16 * (q + 1)" by (simp add: padded_def)
    then show ?thesis by simp
  qed (use b in \<open>simp add: padded_def\<close>)
  have "(16 - length b mod 16) mod 16 < 16" by (rule mod_less_divisor) simp
  then show "length (padded b) \<le> length b + 15" by (simp add: padded_def)
qed

lemma pad_to_words_eq:
  assumes "bs_start_index s = 0"
  shows "bs_rest (pad_to_words s) = padded (bs_bits s) \<and> bs_size (pad_to_words s) = length (padded (bs_bits s))"
proof -
  have "(AppendBit False ^^ k) s = append_bits (replicate k False) s" for k
    by (induction k) (simp_all add: AppendBit_def append_bits_def replicate_append_same)
  then have "pad_to_words s = append_bits (replicate ((16 - bs_size s mod 16) mod 16) False) s" by (simp add: pad_to_words_def)
  with assms show ?thesis by (simp add: append_bits_def bs_rest_def bs_size_def padded_def)
qed

lemma pad_to_words_size: "bs_start_index s = 0 \<Longrightarrow> bs_size (pad_to_words s) = 16 * (bs_size (pad_to_words s) div 16)"
  using length_padded(1) [of "bs_bits s"] pad_to_words_eq [of s] by simp

lemma OnesComplementChecksum_eq:
  assumes "bs_start_index s = 0" "word_sum (padded (bs_bits s)) < 2 ^ 31"
  shows "OnesComplementChecksum s = Inr (65535 - add_carries (word_sum (padded (bs_bits s))))"
proof -
  let ?p = "pad_to_words s" and ?S = "word_sum (padded (bs_bits s))"
  from sum_words_eq [OF pad_to_words_size [OF assms(1)], of 0] have "sum_words (bs_size ?p div 16) ?p 0 = Inr ?S"
    using pad_to_words_eq [OF assms(1)] assms(2) by simp
  moreover have "take_bit 16 (NOT (add_carries ?S)) = 65535 - add_carries ?S"
    by (rule take_bit_not) (use add_carries_range in auto)
  ultimately show ?thesis by (simp add: OnesComplementChecksum_def Let_def)
qed

lemma OnesComplementChecksum_returns: "bs_start_index s = 0 \<Longrightarrow> \<exists>c. OnesComplementChecksum s = Inr c \<and> 0 \<le> c \<and> c < 65536"
  using sum_words_returns [OF pad_to_words_size, of s 0] by (auto simp: OnesComplementChecksum_def Let_def take_bit_eq_mod)

text \<open>Up to 65536 bytes the sum does not overflow.\<close>

lemma word_sum_small: "length b \<le> 8 * 65536 \<Longrightarrow> word_sum (padded b) < 2 ^ 31"
proof -
  assume b: "length b \<le> 8 * 65536"
  have "length (padded b) \<le> 524288"
  proof (cases "length b mod 16 = 0")
    case True
    with b show ?thesis by (simp add: padded_def)
  next
    case False
    then have "length b \<noteq> 524288" by auto
    with b have "length b < 524288" by simp
    moreover obtain k where "length (padded b) = 16 * k" using length_padded(1) [of b] by (elim dvdE)
    ultimately show ?thesis using length_padded(2) [of b] by presburger
  qed
  then show ?thesis using word_sum_bound [OF length_padded(1), of b] by simp
qed

text \<open>
  Put into its place, which held zero before, the checksum makes the checksum of the whole zero: this
  is how a receiver verifies it.
\<close>

lemma checksum_verifies:
  assumes "bs_start_index s = 0" "bs_start_index t = 0" "bs_bits s = pre @ field_bits (16, 0) @ post" "16 dvd length pre"
    "OnesComplementChecksum s = Inr c" "bs_bits t = pre @ field_bits (16, nat c) @ post" "length (bs_bits s) \<le> 8 * 65536"
  shows "OnesComplementChecksum t = Inr 0"
proof -
  let ?S = "word_sum (padded (bs_bits s))" and ?T = "word_sum (padded (bs_bits t))"
  note S = add_carries_mod [OF word_sum_nonneg, of "padded (bs_bits s)"]
  have c: "c = 65535 - add_carries ?S" using assms(1,5) word_sum_small [OF assms(7)] by (simp add: OnesComplementChecksum_eq)
  have len: "length (bs_bits t) = length (bs_bits s)" by (simp add: assms(3,6))
  let ?post = "post @ replicate ((16 - length (bs_bits s) mod 16) mod 16) False"
  have field: "word_sum (pre @ field_bits (16, v) @ ?post) = word_sum pre + int v + word_sum ?post" if "v < 65536" for v
    using that bits_value_field [of v 16] by (simp add: word_sum_append assms(4) word_sum_word)
  have "?S = word_sum pre + word_sum ?post" using field [of 0] by (simp add: padded_def assms(3))
  moreover have "?T = word_sum pre + c + word_sum ?post"
  proof -
    have "0 \<le> c" "nat c < 65536" unfolding c using S by auto
    moreover have "padded (bs_bits t) = pre @ field_bits (16, nat c) @ ?post" unfolding padded_def len by (simp add: assms(6))
    ultimately show ?thesis using field [of "nat c"] by simp
  qed
  ultimately have T: "?T = ?S + c" by simp
  have "?T mod 65535 = (add_carries ?S + c) mod 65535" unfolding T using S by (metis mod_add_left_eq)
  also have "\<dots> = 0" by (simp add: c)
  finally have "add_carries ?T mod 65535 = 0" using add_carries_mod [OF word_sum_nonneg, of "padded (bs_bits t)"] by simp
  moreover have "?T \<noteq> 0" using T c S word_sum_nonneg [of "padded (bs_bits s)"] by auto
  ultimately have "add_carries ?T = 65535"
    using add_carries_mod [OF word_sum_nonneg, of "padded (bs_bits t)"] by (auto simp: zmod_eq_0_iff)
  moreover have "?T < 2 ^ 31" using assms(7) len by (intro word_sum_small) simp
  ultimately show ?thesis using assms(2) by (simp add: OnesComplementChecksum_eq)
qed

section \<open>Parsing any header\<close>

lemma ipv6_consumes: "ParseIpv6Header env s = Inr (h, s') \<Longrightarrow> s' = skip 320 s \<and> 320 \<le> bs_size s"
  by (auto simp: ParseIpv6Header_def widths split: if_splits)

lemma reads_back_shorter: "reads_back serialize s h s' \<Longrightarrow> bs_size s' < bs_size s"
  by (auto simp: reads_back_def)

lemmas header_reads_back =
  ethernet.parse_reads_back
  vlan.parse_reads_back
  csig.parse_reads_back
  arp.parse_reads_back
  ipv4.parse_reads_back
  hop_by_hop.parse_reads_back
  icmp.parse_reads_back
  udp.parse_reads_back
  tcp.parse_reads_back
  gre.parse_reads_back
  packet_in.parse_reads_back
  ipfix.parse_reads_back
  psamp.parse_reads_back
  ptp.parse_reads_back
  psp.parse_reads_back

lemma ParseHeader_consumes: "ParseHeader env c s = Inr (h, s') \<Longrightarrow> bs_size s' < bs_size s \<and> case_of h = c"
  by (cases c) (auto dest!: ipv6_consumes header_reads_back [THEN reads_back_shorter])

lemma reads_back_header [simp]:
  "reads_back (SerializeHeader env) s (EthernetHeader h1) s' = reads_back SerializeEthernetHeader s h1 s'"
  "reads_back (SerializeHeader env) s (VlanHeader h2) s' = reads_back SerializeVlanHeader s h2 s'"
  "reads_back (SerializeHeader env) s (CsigHeader h3) s' = reads_back SerializeCsigHeader s h3 s'"
  "reads_back (SerializeHeader env) s (ArpHeader h4) s' = reads_back SerializeArpHeader s h4 s'"
  "reads_back (SerializeHeader env) s (Ipv4Header h5) s' = reads_back SerializeIpv4Header s h5 s'"
  "reads_back (SerializeHeader env) s (Ipv6Header h6) s' = reads_back (SerializeIpv6Header env) s h6 s'"
  "reads_back (SerializeHeader env) s (HopByHopOptionsHeader h7) s' = reads_back SerializeHopByHopOptionsHeader s h7 s'"
  "reads_back (SerializeHeader env) s (IcmpHeader h8) s' = reads_back SerializeIcmpHeader s h8 s'"
  "reads_back (SerializeHeader env) s (UdpHeader h9) s' = reads_back SerializeUdpHeader s h9 s'"
  "reads_back (SerializeHeader env) s (TcpHeader h10) s' = reads_back SerializeTcpHeader s h10 s'"
  "reads_back (SerializeHeader env) s (GreHeader h11) s' = reads_back SerializeGreHeader s h11 s'"
  "reads_back (SerializeHeader env) s (SaiP4BMv2PacketInHeader h12) s' = reads_back SerializeSaiP4BMv2PacketInHeader s h12 s'"
  "reads_back (SerializeHeader env) s (IpfixHeader h13) s' = reads_back SerializeIpfixHeader s h13 s'"
  "reads_back (SerializeHeader env) s (PsampHeader h14) s' = reads_back SerializePsampHeader s h14 s'"
  "reads_back (SerializeHeader env) s (PtpHeader h15) s' = reads_back SerializePtpHeader s h15 s'"
  "reads_back (SerializeHeader env) s (PspHeader h16) s' = reads_back SerializePspHeader s h16 s'"
  by (simp_all add: reads_back_def)

lemma ParseHeader_reads_back:
  assumes "inet_round_trip env" "ParseHeader env c s = Inr (h, s')"
  shows "reads_back (SerializeHeader env) s h s'"
  using assms(2) by (cases c) (auto intro: header_reads_back ipv6_reads_back [OF assms(1)])

end
