(* ===== verification/Packet_Library.thy ===== *)
theory Packet_Library
  imports Packet_Headers "HOL-Library.Signed_Division"
begin

text \<open>
  The packet library (\<open>p4_infra/packetlib/packetlib.cc\<close>): validation of packets, the parser of packets,
  computed fields, padding, serialization and the Ethernet trailer.
\<close>

section \<open>Validation of fields\<close>

definition MacAddressInvalidReasons :: "nat \<Rightarrow> string \<Rightarrow> string \<Rightarrow> invalid_reason list" where
  "MacAddressInvalidReasons index field address =
     (if address = [] then [FieldInvalid index field Missing]
      else case Mac_OfString address of Inl _ \<Rightarrow> [FieldInvalid index field InvalidFormat] | Inr _ \<Rightarrow> [])"

definition Ipv4AddressInvalidReasons :: "nat \<Rightarrow> string \<Rightarrow> string \<Rightarrow> invalid_reason list" where
  "Ipv4AddressInvalidReasons index field address =
     (if address = [] then [FieldInvalid index field Missing]
      else case Ipv4_OfString address of Inl _ \<Rightarrow> [FieldInvalid index field InvalidFormat] | Inr _ \<Rightarrow> [])"

definition Ipv6AddressInvalidReasons :: "text_env \<Rightarrow> nat \<Rightarrow> string \<Rightarrow> string \<Rightarrow> invalid_reason list" where
  "Ipv6AddressInvalidReasons env index field address =
     (if address = [] then [FieldInvalid index field Missing]
      else case Ipv6_OfString env address of Inl _ \<Rightarrow> [FieldInvalid index field InvalidFormat] | Inr _ \<Rightarrow> [])"

text \<open>
  The options of a hop-by-hop header, after the prefix that was already accepted. The length of an
  option is a \<open>char\<close>, which is signed, and is compared with an unsigned number of bytes.
\<close>

fun hop_by_hop_options_ok :: "string \<Rightarrow> bool" where
  "hop_by_hop_options_ok [] = True"
| "hop_by_hop_options_ok (option_type # bytes) =
     (if option_type = CHR 0x00 then hop_by_hop_options_ok bytes
      else case bytes of
        [] \<Rightarrow> False
      | n # data \<Rightarrow>
          let option_data_length = signed_take_bit 7 (of_char n :: int)
          in if take_bit 64 option_data_length \<ge> int (length data) + 1 then False
             else if option_type = CHR 0x01 \<and> \<not> list_all (\<lambda>c. c = CHR 0x00) (take (nat option_data_length) data) then False
             else hop_by_hop_options_ok (drop (nat option_data_length) data))"

definition HopByHopOptionsInvalidOptionsAndPadding :: "nat \<Rightarrow> string \<Rightarrow> invalid_reason list" where
  "HopByHopOptionsInvalidOptionsAndPadding index options_and_padding =
     (case HexStringToByteString options_and_padding of
        Inl _ \<Rightarrow> [FieldInvalid index ''options_and_padding'' InvalidFormat]
      | Inr bytes \<Rightarrow>
          if hop_by_hop_options_ok bytes then [] else [FieldInvalid index ''options_and_padding'' BadOption])"

definition HexStringInvalidReasons :: "nat \<Rightarrow> nat \<Rightarrow> string \<Rightarrow> string \<Rightarrow> invalid_reason list" where
  "HexStringInvalidReasons num_bits index field hex_string =
     (if hex_string = [] then [FieldInvalid index field Missing]
      else case HexStringToBitset num_bits hex_string of Inl _ \<Rightarrow> [FieldInvalid index field InvalidFormat] | Inr _ \<Rightarrow> [])"

definition Ipv4UninterpretedOptionsInvalidReasons :: "nat \<Rightarrow> string \<Rightarrow> invalid_reason list" where
  "Ipv4UninterpretedOptionsInvalidReasons index uninterpreted_options =
     (if uninterpreted_options = [] then []
      else case HexStringToByteString uninterpreted_options of
        Inl _ \<Rightarrow> [FieldInvalid index ''uninterpreted_options'' InvalidFormat]
      | Inr bytes \<Rightarrow>
          if (length bytes * 8) mod 32 \<noteq> 0 then [FieldInvalid index ''uninterpreted_options'' WrongWidth] else [])"

text \<open>Too many words are reported, but the options do not count as invalid.\<close>

definition TcpUninterpretedOptionsInvalidReasons :: "nat \<Rightarrow> string \<Rightarrow> bool \<times> invalid_reason list" where
  "TcpUninterpretedOptionsInvalidReasons index uninterpreted_options =
     (if uninterpreted_options = [] then (False, [])
      else case HexStringToByteString uninterpreted_options of
        Inl _ \<Rightarrow> (True, [FieldInvalid index ''uninterpreted_options'' InvalidFormat])
      | Inr bytes \<Rightarrow>
          if (length bytes * 8) mod 32 \<noteq> 0 then (True, [FieldInvalid index ''uninterpreted_options'' WrongWidth])
          else if (length bytes * 8) div 32 > 10 then (False, [FieldInvalid index ''uninterpreted_options'' TooLong])
          else (False, []))"

definition gre_optional_field :: "nat \<Rightarrow> string \<Rightarrow> string \<Rightarrow> invalid_reason list" where
  "gre_optional_field index field hex_string =
     (case HexStringToByteString hex_string of
        Inl _ \<Rightarrow> [FieldInvalid index field InvalidFormat]
      | Inr bytes \<Rightarrow> if length bytes * 8 \<noteq> 16 then [FieldInvalid index field WrongWidth] else [])"

definition GreOptionalFieldsInvalidReasons :: "nat \<Rightarrow> string \<Rightarrow> string \<Rightarrow> invalid_reason list" where
  "GreOptionalFieldsInvalidReasons index checksum reserved1 =
     (if checksum = [] \<and> reserved1 = [] then []
      else gre_optional_field index ''checksum'' checksum @ gre_optional_field index ''reserved1'' reserved1)"

text \<open>A field whose value is determined; \<open>std::bitset\<close> keeps the lower bits of a number.\<close>

definition to_bitset :: "nat \<Rightarrow> int \<Rightarrow> nat" where
  "to_bitset num_bits x = nat (take_bit num_bits x)"

definition must_be :: "nat \<Rightarrow> string \<Rightarrow> string \<Rightarrow> string \<Rightarrow> invalid_reason list" where
  "must_be index field expected actual = (if actual \<noteq> expected then [FieldInvalid index field (MustBe expected)] else [])"

definition must_be_number :: "nat \<Rightarrow> nat \<Rightarrow> string \<Rightarrow> int status_or \<Rightarrow> string \<Rightarrow> invalid_reason list" where
  "must_be_number num_bits index field expected actual =
     (case expected of
        Inl _ \<Rightarrow> [FieldInvalid index field NotComputable]
      | Inr x \<Rightarrow> must_be index field (BitsetToHexString num_bits (to_bitset num_bits x)) actual)"

definition unless :: "bool \<Rightarrow> invalid_reason list \<Rightarrow> invalid_reason list" where
  "unless invalid reasons = (if invalid then [] else reasons)"

section \<open>Validation of headers\<close>

definition EthernetHeaderInvalidReasons :: "ethernet_header \<Rightarrow> packet \<Rightarrow> nat \<Rightarrow> invalid_reason list option" where
  "EthernetHeaderInvalidReasons header packet index =
     (let ethertype_reasons = HexStringInvalidReasons kEthernetEthertypeBitwidth index ''ethertype'' (ethernet_ethertype header);
          reasons = MacAddressInvalidReasons index ''ethernet_destination'' (ethernet_destination header) @
            MacAddressInvalidReasons index ''ethernet_source'' (ethernet_source header) @ ethertype_reasons
      in case PacketSizeInBytes packet (int index + 1) of
           Inl _ \<Rightarrow> Some (reasons @ [FieldInvalid index ''payload'' NotComputable])
         | Inr payload_size \<Rightarrow>
             (case HexStringToInt (ethernet_ethertype header) of
                Inl _ \<Rightarrow>
                  if ethertype_reasons = [] then Some (reasons @ [FieldInvalid index ''ethertype'' NotComputable]) else None
              | Inr ethertype \<Rightarrow>
                  if ethertype \<le> 1500 \<and> payload_size \<noteq> ethertype then Some (reasons @ [FieldInvalid index ''ethertype'' WrongValue])
                  else if ethertype > 1500 \<and> payload_size < int kMinNumBytesInEthernetPayload
                  then Some (reasons @ [FieldInvalid index ''payload'' PayloadTooShort])
                  else Some reasons))"

text \<open>The number of 32-bit words of a header, from the text of its options.\<close>

definition expected_words :: "string \<Rightarrow> string" where
  "expected_words options =
     (let options_bitwidth = (if options = [] then 0 else to_int32 (4 * (int (length options) - 2)))
      in BitsetToHexString kIpIhlBitwidth (to_bitset kIpIhlBitwidth (5 + options_bitwidth sdiv 32)))"

definition Ipv4HeaderInvalidReasons :: "ipv4_header \<Rightarrow> packet \<Rightarrow> nat \<Rightarrow> invalid_reason list" where
  "Ipv4HeaderInvalidReasons header packet index =
     (let version = HexStringInvalidReasons kIpVersionBitwidth index ''version'' (ipv4_version header);
          ihl = HexStringInvalidReasons kIpIhlBitwidth index ''ihl'' (ipv4_ihl header);
          total_length = HexStringInvalidReasons kIpTotalLengthBitwidth index ''total_length'' (ipv4_total_length header);
          checksum = HexStringInvalidReasons kIpChecksumBitwidth index ''checksum'' (ipv4_checksum header);
          options = Ipv4UninterpretedOptionsInvalidReasons index (ipv4_uninterpreted_options header)
      in version @ ihl @
            HexStringInvalidReasons kIpDscpBitwidth index ''dscp'' (ipv4_dscp header) @
            HexStringInvalidReasons kIpEcnBitwidth index ''ecn'' (ipv4_ecn header) @
            total_length @
            HexStringInvalidReasons kIpIdentificationBitwidth index ''identification'' (ipv4_identification header) @
            HexStringInvalidReasons kIpFlagsBitwidth index ''flags'' (ipv4_flags header) @
            HexStringInvalidReasons kIpFragmentOffsetBitwidth index ''fragment_offset'' (ipv4_fragment_offset header) @
            HexStringInvalidReasons kIpTtlBitwidth index ''ttl'' (ipv4_ttl header) @
            HexStringInvalidReasons kIpProtocolBitwidth index ''protocol'' (ipv4_protocol header) @
            checksum @
            Ipv4AddressInvalidReasons index ''ipv4_source'' (ipv4_source header) @
            Ipv4AddressInvalidReasons index ''ipv4_destination'' (ipv4_destination header) @
            options @
            unless (ihl \<noteq> []) (if options \<noteq> [] then [FieldInvalid index ''ihl'' Undefined]
              else must_be index ''ihl'' (expected_words (ipv4_uninterpreted_options header)) (ipv4_ihl header)) @
            unless (version \<noteq> []) (must_be index ''version'' ''0x4'' (ipv4_version header)) @
            unless (total_length \<noteq> []) (must_be_number kIpTotalLengthBitwidth index ''total_length''
              (PacketSizeInBytes packet (int index)) (ipv4_total_length header)) @
            unless (checksum \<noteq> []) (must_be_number kIpChecksumBitwidth index ''checksum''
              (Ipv4HeaderChecksum header) (ipv4_checksum header)))"

definition Ipv6HeaderInvalidReasons :: "text_env \<Rightarrow> ipv6_header \<Rightarrow> packet \<Rightarrow> nat \<Rightarrow> invalid_reason list" where
  "Ipv6HeaderInvalidReasons env header packet index =
     (let version = HexStringInvalidReasons kIpVersionBitwidth index ''version'' (ipv6_version header);
          payload_length = HexStringInvalidReasons kIpPayloadLengthBitwidth index ''payload_length'' (ipv6_payload_length header)
      in version @
         HexStringInvalidReasons kIpDscpBitwidth index ''dscp'' (ipv6_dscp header) @
         HexStringInvalidReasons kIpEcnBitwidth index ''ecn'' (ipv6_ecn header) @
         HexStringInvalidReasons kIpFlowLabelBitwidth index ''flow_label'' (ipv6_flow_label header) @
         payload_length @
         HexStringInvalidReasons kIpNextHeaderBitwidth index ''next_header'' (ipv6_next_header header) @
         HexStringInvalidReasons kIpHopLimitBitwidth index ''hop_limit'' (ipv6_hop_limit header) @
         Ipv6AddressInvalidReasons env index ''ipv6_source'' (ipv6_source header) @
         Ipv6AddressInvalidReasons env index ''ipv6_destination'' (ipv6_destination header) @
         unless (version \<noteq> []) (must_be index ''version'' ''0x6'' (ipv6_version header)) @
         unless (payload_length \<noteq> []) (must_be_number kIpPayloadLengthBitwidth index ''payload_length''
           (PacketSizeInBytes packet (int index + 1)) (ipv6_payload_length header)))"

definition HopByHopOptionsHeaderInvalidReasons :: "hop_by_hop_options_header \<Rightarrow> nat \<Rightarrow> invalid_reason list" where
  "HopByHopOptionsHeaderInvalidReasons header index =
     (let options = HexStringInvalidReasons kHopByHopOptionsAndPaddingBitwidth index ''options_and_padding''
            (hop_options_and_padding header)
      in HexStringInvalidReasons kHopByHopNextHeaderBitwidth index ''next_header'' (hop_next_header header) @
         HexStringInvalidReasons kHopByHopHeaderExtensionLengthBitwidth index ''header_extension_length''
           (hop_header_extension_length header) @
         options @
         unless (options \<noteq> []) (HopByHopOptionsInvalidOptionsAndPadding index (hop_options_and_padding header)))"

text \<open>A checksum of zero, or any if none can be computed, is allowed for UDP.\<close>

definition udp_checksum_reasons :: "nat \<Rightarrow> string \<Rightarrow> int option status_or \<Rightarrow> invalid_reason list" where
  "udp_checksum_reasons index actual expected =
     (case expected of
        Inl _ \<Rightarrow> [FieldInvalid index ''checksum'' NotComputable]
      | Inr None \<Rightarrow> []
      | Inr (Some checksum) \<Rightarrow>
          if actual = BitsetToHexString kUdpChecksumBitwidth 0 then []
          else must_be index ''checksum'' (BitsetToHexString kUdpChecksumBitwidth (to_bitset kUdpChecksumBitwidth checksum)) actual)"

definition UdpHeaderInvalidReasons :: "text_env \<Rightarrow> udp_header \<Rightarrow> packet \<Rightarrow> nat \<Rightarrow> invalid_reason list option" where
  "UdpHeaderInvalidReasons env header packet index =
     (let length = HexStringInvalidReasons kUdpLengthBitwidth index ''length'' (udp_length header);
          checksum = HexStringInvalidReasons kUdpChecksumBitwidth index ''checksum'' (udp_checksum header);
          reasons = HexStringInvalidReasons kUdpPortBitwidth index ''source_port'' (udp_source_port header) @
            HexStringInvalidReasons kUdpPortBitwidth index ''destination_port'' (udp_destination_port header) @
            length @ checksum @
            unless (length \<noteq> []) (must_be_number kUdpLengthBitwidth index ''length''
              (PacketSizeInBytes packet (int index)) (udp_length header))
      in if checksum \<noteq> [] then Some reasons
         else map_option (\<lambda>expected. reasons @ udp_checksum_reasons index (udp_checksum header) expected)
           (UdpHeaderChecksum env packet (int index)))"

definition TcpHeaderInvalidReasons :: "tcp_header \<Rightarrow> nat \<Rightarrow> invalid_reason list" where
  "TcpHeaderInvalidReasons header index =
     (let data_offset = HexStringInvalidReasons kTcpDataOffsetBitwidth index ''data_offset'' (tcp_data_offset header);
          options = TcpUninterpretedOptionsInvalidReasons index (tcp_uninterpreted_options header)
      in HexStringInvalidReasons kUdpPortBitwidth index ''source_port'' (tcp_source_port header) @
         HexStringInvalidReasons kUdpPortBitwidth index ''destination_port'' (tcp_destination_port header) @
         HexStringInvalidReasons kTcpSequenceNumberBitwidth index ''sequence_number'' (tcp_sequence_number header) @
         HexStringInvalidReasons kTcpAcknowledgementNumberBitwidth index ''acknowledgement_number''
           (tcp_acknowledgement_number header) @
         data_offset @
         HexStringInvalidReasons kTcpRestOfHeaderBitwidth index ''rest_of_header'' (tcp_rest_of_header header) @
         snd options @
         unless (data_offset \<noteq> []) (if fst options then [FieldInvalid index ''data_offset'' Undefined]
           else must_be index ''data_offset'' (expected_words (tcp_uninterpreted_options header)) (tcp_data_offset header)))"

definition ArpHeaderInvalidReasons :: "arp_header \<Rightarrow> nat \<Rightarrow> invalid_reason list" where
  "ArpHeaderInvalidReasons header index =
     (let hardware_type = HexStringInvalidReasons kArpTypeBitwidth index ''hardware_type'' (arp_hardware_type header);
          protocol_type = HexStringInvalidReasons kArpTypeBitwidth index ''protocol_type'' (arp_protocol_type header);
          hardware_length = HexStringInvalidReasons kArpLengthBitwidth index ''hardware_length'' (arp_hardware_length header);
          protocol_length = HexStringInvalidReasons kArpLengthBitwidth index ''protocol_length'' (arp_protocol_length header)
      in hardware_type @ protocol_type @ hardware_length @ protocol_length @
         HexStringInvalidReasons kArpOperationBitwidth index ''operation'' (arp_operation header) @
         MacAddressInvalidReasons index ''sender_hardware_address'' (arp_sender_hardware_address header) @
         Ipv4AddressInvalidReasons index ''sender_protocol_address'' (arp_sender_protocol_address header) @
         MacAddressInvalidReasons index ''target_hardware_address'' (arp_target_hardware_address header) @
         Ipv4AddressInvalidReasons index ''target_protocol_address'' (arp_target_protocol_address header) @
         unless (hardware_type \<noteq> []) (must_be index ''hardware_type'' ''0x0001'' (arp_hardware_type header)) @
         unless (protocol_type \<noteq> []) (must_be index ''protocol_type'' ''0x0800'' (arp_protocol_type header)) @
         unless (hardware_length \<noteq> []) (must_be index ''hardware_length'' ''0x06'' (arp_hardware_length header)) @
         unless (protocol_length \<noteq> []) (must_be index ''hardware_type'' ''0x04'' (arp_protocol_length header)))"

definition IcmpHeaderInvalidReasons :: "text_env \<Rightarrow> icmp_header \<Rightarrow> packet \<Rightarrow> nat \<Rightarrow> invalid_reason list option" where
  "IcmpHeaderInvalidReasons env header packet index =
     (let checksum = HexStringInvalidReasons kIcmpChecksumBitwidth index ''checksum'' (icmp_checksum header);
          reasons = HexStringInvalidReasons kIcmpTypeBitwidth index ''type'' (icmp_type header) @
            HexStringInvalidReasons kIcmpCodeBitwidth index ''code'' (icmp_code header) @
            checksum @
            HexStringInvalidReasons kIcmpRestOfHeaderBitwidth index ''rest_of_header'' (icmp_rest_of_header header)
      in if index = 0 then Some (reasons @ [FieldInvalid index ''checksum'' Undefined])
         else case header_at packet (FindPrecedingIpHeader packet (int index)) of
             None \<Rightarrow> None
           | Some previous \<Rightarrow>
               if case_of previous \<noteq> kIpv4Header \<and> case_of previous \<noteq> kIpv6Header
               then Some (reasons @ [FieldInvalid index ''checksum'' Undefined])
               else if checksum \<noteq> [] then Some reasons
               else map_option (\<lambda>expected. reasons @ must_be_number kIcmpChecksumBitwidth index ''checksum'' expected (icmp_checksum header))
                 (IcmpHeaderChecksum env packet (int index)))"

definition VlanHeaderInvalidReasons :: "vlan_header \<Rightarrow> nat \<Rightarrow> invalid_reason list" where
  "VlanHeaderInvalidReasons header index =
     HexStringInvalidReasons kVlanPriorityCodePointBitwidth index ''priority_code_point'' (vlan_priority_code_point header) @
     HexStringInvalidReasons kVlanDropEligibilityIndicatorBitwidth index ''drop_eligible_indicator''
       (vlan_drop_eligible_indicator header) @
     HexStringInvalidReasons kVlanVlanIdentifierBitwidth index ''vlan_identifier'' (vlan_identifier header) @
     HexStringInvalidReasons kVlanEthertypeBitwidth index ''ethertype'' (vlan_ethertype header)"

definition CsigHeaderInvalidReasons :: "csig_header \<Rightarrow> nat \<Rightarrow> invalid_reason list" where
  "CsigHeaderInvalidReasons header index =
     HexStringInvalidReasons kCsigSignalTypeBitwidth index ''signal_type'' (csig_signal_type header) @
     HexStringInvalidReasons kCsigReserved0Bitwidth index ''reserved0'' (csig_reserved0 header) @
     HexStringInvalidReasons kCsigSignalValueBitwidth index ''signal_value'' (csig_signal_value header) @
     HexStringInvalidReasons kCsigLocatorMetadataBitwidth index ''locator_metadata'' (csig_locator_metadata header) @
     HexStringInvalidReasons kCsigEthertypeBitwidth index ''ethertype'' (csig_ethertype header)"

definition GreHeaderInvalidReasons :: "text_env \<Rightarrow> gre_header \<Rightarrow> packet \<Rightarrow> nat \<Rightarrow> invalid_reason list option" where
  "GreHeaderInvalidReasons env header packet index =
     (let checksum_present = HexStringInvalidReasons kGreChecksumPresentBitwidth index ''checksum_present'' (gre_checksum_present header);
          reserved0 = HexStringInvalidReasons kGreReserved0Bitwidth index ''reserved0'' (gre_reserved0 header);
          version = HexStringInvalidReasons kGreVersionBitwidth index ''version'' (gre_version header);
          reasons = checksum_present @ reserved0 @ version @
            unless (reserved0 \<noteq> []) (must_be index ''reserved0'' ''0x000'' (gre_reserved0 header)) @
            unless (version \<noteq> []) (must_be index ''version'' ''0x0'' (gre_version header));
          optional = GreOptionalFieldsInvalidReasons index (gre_checksum header) (gre_reserved1 header)
      in if checksum_present \<noteq> [] \<or> gre_checksum_present header \<noteq> ''0x1''
         then Some (reasons @
           (if gre_checksum header \<noteq> [] then [FieldInvalid index ''checksum'' MustBeEmpty] else []) @
           (if gre_reserved1 header \<noteq> [] then [FieldInvalid index ''reserved1'' MustBeEmpty] else []))
         else if optional \<noteq> [] then Some (reasons @ optional @ [FieldInvalid index ''checksum_present'' WrongValue])
         else map_option (\<lambda>expected. reasons @
             must_be_number kGreChecksumBitwidth index ''checksum'' expected (gre_checksum header) @
             must_be index ''reserved1'' ''0x0000'' (gre_reserved1 header))
           (GreHeaderChecksum env packet (int index)))"

definition SaiP4BMv2PacketInHeaderInvalidReasons ::
  "sai_p4_bmv2_packet_in_header \<Rightarrow> nat \<Rightarrow> invalid_reason list option" where
  "SaiP4BMv2PacketInHeaderInvalidReasons header index =
     (let unused_pad = HexStringInvalidReasons kSaiP4BMv2PacketInUnusedPadBitwidth index ''unused_pad'' (bmv2_unused_pad header);
          reasons = HexStringInvalidReasons kSaiP4BMv2PacketInIngressPortBitwidth index ''ingress_port'' (bmv2_ingress_port header) @
            HexStringInvalidReasons kSaiP4BMv2PacketInTargetEgressPortBitwidth index ''target_egress_port''
              (bmv2_target_egress_port header) @ unused_pad
      in if unused_pad \<noteq> [] then Some reasons
         else case HexStringToInt (bmv2_unused_pad header) of
             Inl _ \<Rightarrow> None
           | Inr pad \<Rightarrow> Some (reasons @ (if pad \<noteq> 0 then [FieldInvalid index ''unused_pad'' WrongValue] else [])))"

definition IpfixHeaderInvalidReasons :: "ipfix_header \<Rightarrow> packet \<Rightarrow> nat \<Rightarrow> invalid_reason list" where
  "IpfixHeaderInvalidReasons header packet index =
     (let length = HexStringInvalidReasons kIpfixLengthBitwidth index ''length'' (ipfix_length header)
      in HexStringInvalidReasons kIpfixVersionBitwidth index ''version'' (ipfix_version header) @
         HexStringInvalidReasons kIpfixExportTimeBitwidth index ''export_time'' (ipfix_export_time header) @
         HexStringInvalidReasons kIpfixSequenceNumberBitwidth index ''sequence_number'' (ipfix_sequence_number header) @
         HexStringInvalidReasons kIpfixObservationDomainIdBitwidth index ''observation_domain_id''
           (ipfix_observation_domain_id header) @
         length @
         unless (length \<noteq> []) (must_be_number kIpfixLengthBitwidth index ''length''
           (PacketSizeInBytes packet (int index)) (ipfix_length header)))"

definition PsampHeaderInvalidReasons :: "psamp_header \<Rightarrow> packet \<Rightarrow> nat \<Rightarrow> invalid_reason list" where
  "PsampHeaderInvalidReasons header packet index =
     (let variable_length = HexStringInvalidReasons kPsampVariableLengthBitwidth index ''variable_length''
            (psamp_variable_length header);
          length = HexStringInvalidReasons kPsampLengthBitwidth index ''length'' (psamp_length header);
          sampled = HexStringInvalidReasons kPsampPacketSampledLengthBitwidth index ''packet_sampled_length''
            (psamp_packet_sampled_length header)
      in HexStringInvalidReasons kPsampTemplateIdBitwidth index ''template_id'' (psamp_template_id header) @
         HexStringInvalidReasons kPsampObservationTimeBitwidth index ''observation_time'' (psamp_observation_time header) @
         HexStringInvalidReasons kPsampFlowsetBitwidth index ''flowset'' (psamp_flowset header) @
         HexStringInvalidReasons kPsampNextHopIndexBitwidth index ''next_hop_index'' (psamp_next_hop_index header) @
         HexStringInvalidReasons kPsampEpochBitwidth index ''epoch'' (psamp_epoch header) @
         HexStringInvalidReasons kPsampIngressPortBitwidth index ''ingress_port'' (psamp_ingress_port header) @
         HexStringInvalidReasons kPsampEgressPortBitwidth index ''egress_port'' (psamp_egress_port header) @
         HexStringInvalidReasons kPsampUserMetaFieldBitwidth index ''user_meta_field'' (psamp_user_meta_field header) @
         HexStringInvalidReasons kPsampDlbIdBitwidth index ''dlb_id'' (psamp_dlb_id header) @
         variable_length @
         unless (variable_length \<noteq> []) (case HexStringToInt (psamp_variable_length header) of
             Inl _ \<Rightarrow> [FieldInvalid index ''variable_length'' NotComputable]
           | Inr value \<Rightarrow> if value \<noteq> 0xff then [FieldInvalid index ''variable_length'' WrongValue] else []) @
         length @
         unless (length \<noteq> []) (must_be_number kPsampLengthBitwidth index ''length''
           (PacketSizeInBytes packet (int index)) (psamp_length header)) @
         sampled @
         unless (sampled \<noteq> []) (must_be_number kPsampPacketSampledLengthBitwidth index ''packet_sampled_length''
           (PacketSizeInBytes packet (int index + 1)) (psamp_packet_sampled_length header)))"

definition PtpHeaderInvalidReasons :: "text_env \<Rightarrow> ptp_header \<Rightarrow> packet \<Rightarrow> nat \<Rightarrow> invalid_reason list" where
  "PtpHeaderInvalidReasons env header packet index =
     (let message_type = HexStringInvalidReasons kPtpMessageTypeBitwidth index ''message_type'' (ptp_message_type header);
          reserved0 = HexStringInvalidReasons kPtpReserved0Bitwidth index ''reserved0'' (ptp_reserved0 header);
          reserved1 = HexStringInvalidReasons kPtpReserved1Bitwidth index ''reserved1'' (ptp_reserved1 header);
          reserved2 = HexStringInvalidReasons kPtpReserved2Bitwidth index ''reserved2'' (ptp_reserved2 header);
          message_length = HexStringInvalidReasons kPtpMessageLengthBitwidth index ''message_length'' (ptp_message_length header)
      in HexStringInvalidReasons kPtpTransportSpecificBitwidth index ''transport_specific'' (ptp_transport_specific header) @
         HexStringInvalidReasons kPtpVersionPtpBitwidth index ''version_ptp'' (ptp_version_ptp header) @
         HexStringInvalidReasons kPtpDomainNumberBitwidth index ''domain_number'' (ptp_domain_number header) @
         HexStringInvalidReasons kPtpFlagsBitwidth index ''flags'' (ptp_flags header) @
         HexStringInvalidReasons kPtpCorrectionFieldBitwidth index ''correction_field'' (ptp_correction_field header) @
         HexStringInvalidReasons kPtpSourcePortIdentityBitwidth index ''source_port_identity'' (ptp_source_port_identity header) @
         HexStringInvalidReasons kPtpSequenceIdBitwidth index ''sequence_id'' (ptp_sequence_id header) @
         HexStringInvalidReasons kPtpControlFieldBitwidth index ''control_field'' (ptp_control_field header) @
         HexStringInvalidReasons kPtpLogMessageIntervalBitwidth index ''log_message_interval'' (ptp_log_message_interval header) @
         message_type @
         unless (message_type \<noteq> []) (case te_SimpleHexAtoi env (ptp_message_type header) of
             None \<Rightarrow> [FieldInvalid index ''message_type'' NotComputable]
           | Some value \<Rightarrow> if \<not> (value \<ge> 0 \<and> value \<le> 3) then [FieldInvalid index ''message_type'' WrongValue] else []) @
         reserved0 @ unless (reserved0 \<noteq> []) (must_be index ''reserved0'' ''0x0'' (ptp_reserved0 header)) @
         reserved1 @ unless (reserved1 \<noteq> []) (must_be index ''reserved1'' ''0x00'' (ptp_reserved1 header)) @
         reserved2 @ unless (reserved2 \<noteq> []) (must_be index ''reserved2'' ''0x00000000'' (ptp_reserved2 header)) @
         message_length @
         unless (message_length \<noteq> []) (must_be_number kPtpMessageLengthBitwidth index ''message_length''
           (PacketSizeInBytes packet (int index)) (ptp_message_length header)))"

definition PspHeaderInvalidReasons :: "psp_header \<Rightarrow> nat \<Rightarrow> invalid_reason list" where
  "PspHeaderInvalidReasons header index =
     (let reserved0 = HexStringInvalidReasons kPspReserved0Bitwidth index ''reserved0'' (psp_reserved0 header)
      in HexStringInvalidReasons kPspNextHeaderBitwidth index ''next_header'' (psp_next_header header) @
         HexStringInvalidReasons kPspHeaderExtLengthBitwidth index ''header_ext_length'' (psp_header_ext_length header) @
         HexStringInvalidReasons kPspCryptOffsetBitwidth index ''crypt_offset'' (psp_crypt_offset header) @
         HexStringInvalidReasons kPspSampleBitwidth index ''sample_bit'' (psp_sample_bit header) @
         HexStringInvalidReasons kPspDropBitwidth index ''drop_bit'' (psp_drop_bit header) @
         HexStringInvalidReasons kPspVersionBitwidth index ''version'' (psp_version header) @
         HexStringInvalidReasons kPspVirtualizationCookieBitwidth index ''virtualization_cookie_present''
           (psp_virtualization_cookie_present header) @
         HexStringInvalidReasons kPspSecurityParametersIndexBitwidth index ''security_parameters_index''
           (psp_security_parameters_index header) @
         HexStringInvalidReasons kPspInitializationVectorBitwidth index ''initialization_vector'' (psp_initialization_vector header) @
         reserved0 @ unless (reserved0 \<noteq> []) (must_be index ''reserved0'' ''0x0'' (psp_reserved0 header)))"

section \<open>Validation of packets\<close>

fun header_invalid_reasons :: "text_env \<Rightarrow> packet \<Rightarrow> nat \<Rightarrow> header \<Rightarrow> invalid_reason list option" where
  "header_invalid_reasons env packet index (EthernetHeader h) = EthernetHeaderInvalidReasons h packet index"
| "header_invalid_reasons env packet index (Ipv4Header h) = Some (Ipv4HeaderInvalidReasons h packet index)"
| "header_invalid_reasons env packet index (Ipv6Header h) = Some (Ipv6HeaderInvalidReasons env h packet index)"
| "header_invalid_reasons env packet index (HopByHopOptionsHeader h) = Some (HopByHopOptionsHeaderInvalidReasons h index)"
| "header_invalid_reasons env packet index (UdpHeader h) = UdpHeaderInvalidReasons env h packet index"
| "header_invalid_reasons env packet index (TcpHeader h) = Some (TcpHeaderInvalidReasons h index)"
| "header_invalid_reasons env packet index (ArpHeader h) = Some (ArpHeaderInvalidReasons h index)"
| "header_invalid_reasons env packet index (IcmpHeader h) = IcmpHeaderInvalidReasons env h packet index"
| "header_invalid_reasons env packet index (VlanHeader h) = Some (VlanHeaderInvalidReasons h index)"
| "header_invalid_reasons env packet index (CsigHeader h) = Some (CsigHeaderInvalidReasons h index)"
| "header_invalid_reasons env packet index (GreHeader h) = GreHeaderInvalidReasons env h packet index"
| "header_invalid_reasons env packet index (SaiP4BMv2PacketInHeader h) = SaiP4BMv2PacketInHeaderInvalidReasons h index"
| "header_invalid_reasons env packet index (IpfixHeader h) = Some (IpfixHeaderInvalidReasons h packet index)"
| "header_invalid_reasons env packet index (PsampHeader h) = Some (PsampHeaderInvalidReasons h packet index)"
| "header_invalid_reasons env packet index (PtpHeader h) = Some (PtpHeaderInvalidReasons env h packet index)"
| "header_invalid_reasons env packet index (PspHeader h) = Some (PspHeaderInvalidReasons h index)"
| "header_invalid_reasons env packet index HeaderUnset = Some [HeaderUninitialized index]"

definition order_reasons :: "nat \<Rightarrow> header_case \<Rightarrow> header_case \<Rightarrow> invalid_reason list" where
  "order_reasons index expected_header_case actual =
     (if expected_header_case = HEADER_NOT_SET then [NoHeaderExpected index actual]
      else if actual \<noteq> expected_header_case then [OtherHeaderExpected index expected_header_case actual]
      else [])"

definition expected_after :: "header \<Rightarrow> header_case" where
  "expected_after header =
     (case GetNextHeader header of
        Inl _ \<Rightarrow> HEADER_NOT_SET
      | Inr (SupportedNextHeader c) \<Rightarrow> c
      | Inr (UnsupportedNextHeader _) \<Rightarrow> HEADER_NOT_SET)"

fun headers_invalid_reasons ::
  "text_env \<Rightarrow> packet \<Rightarrow> nat \<Rightarrow> header_case \<Rightarrow> header list \<Rightarrow> (invalid_reason list \<times> header_case) option" where
  "headers_invalid_reasons env packet index expected [] = Some ([], expected)"
| "headers_invalid_reasons env packet index expected (header # headers) =
     Option.bind (header_invalid_reasons env packet index header) (\<lambda>reasons.
       if header = HeaderUnset
       then map_option (\<lambda>(rs, e). (reasons @ rs, e)) (headers_invalid_reasons env packet (index + 1) expected headers)
       else map_option (\<lambda>(rs, e). (reasons @ order_reasons index expected (case_of header) @ rs, e))
         (headers_invalid_reasons env packet (index + 1) (expected_after header) headers))"

text \<open>\<open>packet.ByteSize() == 0\<close>: no field is set.\<close>

definition packet_is_unset :: "packet \<Rightarrow> bool" where
  "packet_is_unset packet \<longleftrightarrow>
     packet_headers packet = [] \<and> packet_payload packet = [] \<and> reason_not_fully_parsed packet = [] \<and> reasons_invalid packet = []"

definition PacketInvalidReasons :: "text_env \<Rightarrow> packet \<Rightarrow> invalid_reason list option" where
  "PacketInvalidReasons env packet =
     (if packet_is_unset packet then Some [PacketEmpty]
      else let size_reasons = (case PacketSizeInBits packet 0 of
                 Inl _ \<Rightarrow> [SizeUnknown]
               | Inr bitsize \<Rightarrow> if \<not> 8 dvd bitsize then [SizeNotInBytes] else []);
               first = (case packet_headers packet of [] \<Rightarrow> HEADER_NOT_SET | header # _ \<Rightarrow> case_of header)
           in map_option (\<lambda>(rs, expected). size_reasons @ rs @
                (if expected \<noteq> HEADER_NOT_SET then [HeaderMissing (length (packet_headers packet)) expected] else []))
              (headers_invalid_reasons env packet 0 first (packet_headers packet)))"

definition ValidatePacket :: "text_env \<Rightarrow> packet \<Rightarrow> status_code option" where
  "ValidatePacket env packet =
     map_option (\<lambda>reasons. if reasons = [] then OK else INVALID_ARGUMENT) (PacketInvalidReasons env packet)"

section \<open>Parsing packets\<close>

function parse_headers :: "text_env \<Rightarrow> header_case \<Rightarrow> bit_string \<Rightarrow> packet \<Rightarrow> packet \<times> bit_string" where
  "parse_headers env next_header data packet =
     (if next_header = HEADER_NOT_SET then (packet, data)
      else case ParseHeader env next_header data of
        Inl _ \<Rightarrow> (packet\<lparr>reasons_invalid := reasons_invalid packet @ [TooShortFor next_header]\<rparr>, data)
      | Inr (header, data) \<Rightarrow>
          (case GetNextHeader header of
             Inl _ \<Rightarrow> (packet, data)
           | Inr (SupportedNextHeader next) \<Rightarrow>
               parse_headers env next data (packet\<lparr>packet_headers := packet_headers packet @ [header]\<rparr>)
           | Inr (UnsupportedNextHeader reason) \<Rightarrow>
               (packet\<lparr>packet_headers := packet_headers packet @ [header], reason_not_fully_parsed := reason\<rparr>, data)))"
  by auto
termination
  by (relation "measure (\<lambda>(env, next_header, data, packet). bs_size data)") (auto dest: ParseHeader_consumes)

definition empty_packet :: packet where
  "empty_packet = \<lparr>packet_headers = [], packet_payload = [], reason_not_fully_parsed = [], reasons_invalid = []\<rparr>"

definition ParsePacket :: "text_env \<Rightarrow> string \<Rightarrow> header_case \<Rightarrow> packet option" where
  "ParsePacket env input first_header =
     (let (packet, data) = parse_headers env first_header (OfByteString_bits input) empty_packet;
          packet = (case ToByteString data of
              Inr payload \<Rightarrow> packet\<lparr>packet_payload := payload\<rparr>
            | Inl _ \<Rightarrow> packet\<lparr>reasons_invalid := reasons_invalid packet @ [PayloadNotBytes]\<rparr>)
      in map_option (\<lambda>reasons. packet\<lparr>reasons_invalid := reasons_invalid packet @ reasons\<rparr>)
           (PacketInvalidReasons env packet))"

section \<open>Computed fields\<close>

text \<open>
  The steps for one header work on the header and on the flag that tells whether anything changed. A
  field is set if it is missing or to be overwritten.
\<close>

type_synonym 'h update_step = "'h \<times> bool \<Rightarrow> ('h \<times> bool) outcome"

fun update_steps :: "'h update_step list \<Rightarrow> 'h update_step" where
  "update_steps [] s = Some (Inr s)"
| "update_steps (f # fs) s = bind_outcome (f s) (update_steps fs)"

definition set_field :: "bool \<Rightarrow> ('h \<Rightarrow> string) \<Rightarrow> (string \<Rightarrow> 'h \<Rightarrow> 'h) \<Rightarrow> ('h \<Rightarrow> string outcome) \<Rightarrow> 'h update_step" where
  "set_field overwrite get set_to compute = (\<lambda>(header, changes).
     if get header = [] \<or> overwrite
     then bind_outcome (compute header) (\<lambda>value. Some (Inr (set_to value header, True)))
     else Some (Inr (header, changes)))"

definition hex_number :: "nat \<Rightarrow> int outcome \<Rightarrow> string outcome" where
  "hex_number num_bits m = bind_outcome m (\<lambda>x. Some (Inr (BitsetToHexString num_bits (to_bitset num_bits x))))"

definition ValidateAndConvertToHexString :: "nat \<Rightarrow> nat \<Rightarrow> string" where
  "ValidateAndConvertToHexString bit_limit input = BitsetToHexString bit_limit (take_bit bit_limit input)"

definition EtherType :: "nat \<Rightarrow> string" where
  "EtherType ether_type = ValidateAndConvertToHexString kEthernetEthertypeBitwidth ether_type"

definition update_ethernet :: "bool \<Rightarrow> packet \<Rightarrow> nat \<Rightarrow> ethernet_header update_step" where
  "update_ethernet overwrite packet index = (\<lambda>(header, changes).
     bind_outcome (Some (if ethernet_ethertype header = [] then Inr 0 else HexStringToInt (ethernet_ethertype header))) (\<lambda>ethertype.
       if (ethernet_ethertype header = [] \<or> overwrite) \<and> ethertype \<le> 1500 \<and> index + 1 = length (packet_headers packet)
       then (case PacketSizeInBytes packet (int index + 1) of
               Inl _ \<Rightarrow> Some (Inl INVALID_ARGUMENT)
             | Inr payload_size \<Rightarrow>
                 if payload_size > 1500 then Some (Inl INVALID_ARGUMENT)
                 else Some (Inr (header\<lparr>ethernet_ethertype := EtherType (to_bitset 32 payload_size)\<rparr>, True)))
       else Some (Inr (header, changes))))"

definition ihl_of_options :: "string \<Rightarrow> string outcome" where
  "ihl_of_options options =
     (if options = [] then Some (Inr ''0x5'')
      else if take 2 options = ''0x'' \<and> (length (drop 2 options) * 4) mod 32 = 0
      then Some (Inr (BitsetToHexString kIpIhlBitwidth (to_bitset kIpIhlBitwidth (5 + int (length (drop 2 options) * 4 div 32)))))
      else Some (Inl INVALID_ARGUMENT))"

definition update_ipv4 :: "bool \<Rightarrow> packet \<Rightarrow> nat \<Rightarrow> ipv4_header update_step" where
  "update_ipv4 overwrite packet index = update_steps
     [set_field overwrite ipv4_version (\<lambda>v h. h\<lparr>ipv4_version := v\<rparr>) (\<lambda>h. Some (Inr ''0x4'')),
      set_field overwrite ipv4_ihl (\<lambda>v h. h\<lparr>ipv4_ihl := v\<rparr>) (\<lambda>h. ihl_of_options (ipv4_uninterpreted_options h)),
      set_field overwrite ipv4_total_length (\<lambda>v h. h\<lparr>ipv4_total_length := v\<rparr>) (\<lambda>h. hex_number kIpTotalLengthBitwidth
        (Some (PacketSizeInBytes (with_header packet (int index) (Ipv4Header h)) (int index)))),
      set_field overwrite ipv4_checksum (\<lambda>v h. h\<lparr>ipv4_checksum := v\<rparr>) (\<lambda>h. hex_number kIpChecksumBitwidth (Some (Ipv4HeaderChecksum h)))]"

definition update_ipv6 :: "bool \<Rightarrow> packet \<Rightarrow> nat \<Rightarrow> ipv6_header update_step" where
  "update_ipv6 overwrite packet index = update_steps
     [set_field overwrite ipv6_version (\<lambda>v h. h\<lparr>ipv6_version := v\<rparr>) (\<lambda>h. Some (Inr ''0x6'')),
      set_field overwrite ipv6_payload_length (\<lambda>v h. h\<lparr>ipv6_payload_length := v\<rparr>) (\<lambda>h. hex_number kIpTotalLengthBitwidth
        (Some (PacketSizeInBytes (with_header packet (int index) (Ipv6Header h)) (int index + 1))))]"

text \<open>
  The missing padding is computed in \<open>size_t\<close> and narrowed to an \<open>int\<close>.
\<close>

definition num_missing_padding :: "string \<Rightarrow> int" where
  "num_missing_padding options_and_padding =
     to_int32 (take_bit 64 (int (kHopByHopOptionsAndPaddingBitwidth div 4) - (int (length options_and_padding) - 2)) div 2)"

definition pad_hop_by_hop_options :: "string \<Rightarrow> string" where
  "pad_hop_by_hop_options options =
     (let n = num_missing_padding options
      in if n \<ge> 2 then options @ ''010'' @ dec_str (nat (n - 2)) @ concat (replicate (nat (n - 2)) ''00'')
         else if n = 1 then options @ ''00''
         else options)"

definition update_hop_by_hop :: "bool \<Rightarrow> hop_by_hop_options_header update_step" where
  "update_hop_by_hop overwrite = update_steps
     [set_field overwrite hop_header_extension_length (\<lambda>v h. h\<lparr>hop_header_extension_length := v\<rparr>) (\<lambda>h. Some (Inr ''0x00'')),
      set_field overwrite hop_options_and_padding (\<lambda>v h. h\<lparr>hop_options_and_padding := v\<rparr>) (\<lambda>h. Some (Inr
        (if hop_options_and_padding h = [] then ''0x010400000000'' else pad_hop_by_hop_options (hop_options_and_padding h))))]"

definition update_udp_checksum :: "text_env \<Rightarrow> bool \<Rightarrow> packet \<Rightarrow> nat \<Rightarrow> udp_header update_step" where
  "update_udp_checksum env overwrite packet index = (\<lambda>(header, changes).
     if udp_checksum header = [] \<or> overwrite
     then bind_outcome (UdpHeaderChecksum env (with_header packet (int index) (UdpHeader header)) (int index)) (\<lambda>checksum.
       case checksum of
         Some c \<Rightarrow> Some (Inr (header\<lparr>udp_checksum := BitsetToHexString kUdpChecksumBitwidth (to_bitset kUdpChecksumBitwidth c)\<rparr>, True))
       | None \<Rightarrow>
           if udp_checksum header = [] then Some (Inr (header\<lparr>udp_checksum := BitsetToHexString kUdpChecksumBitwidth 0\<rparr>, True))
           else Some (Inr (header, changes)))
     else Some (Inr (header, changes)))"

definition update_udp :: "text_env \<Rightarrow> bool \<Rightarrow> packet \<Rightarrow> nat \<Rightarrow> udp_header update_step" where
  "update_udp env overwrite packet index = update_steps
     [set_field overwrite udp_length (\<lambda>v h. h\<lparr>udp_length := v\<rparr>) (\<lambda>h. hex_number kUdpLengthBitwidth
        (Some (PacketSizeInBytes (with_header packet (int index) (UdpHeader h)) (int index)))),
      update_udp_checksum env overwrite packet index]"

definition update_arp :: "bool \<Rightarrow> arp_header update_step" where
  "update_arp overwrite = update_steps
     [set_field overwrite arp_hardware_type (\<lambda>v h. h\<lparr>arp_hardware_type := v\<rparr>) (\<lambda>h. Some (Inr ''0x0001'')),
      set_field overwrite arp_protocol_type (\<lambda>v h. h\<lparr>arp_protocol_type := v\<rparr>) (\<lambda>h. Some (Inr ''0x0800'')),
      set_field overwrite arp_hardware_length (\<lambda>v h. h\<lparr>arp_hardware_length := v\<rparr>) (\<lambda>h. Some (Inr ''0x06'')),
      set_field overwrite arp_protocol_length (\<lambda>v h. h\<lparr>arp_protocol_length := v\<rparr>) (\<lambda>h. Some (Inr ''0x04''))]"

definition update_icmp :: "text_env \<Rightarrow> bool \<Rightarrow> packet \<Rightarrow> nat \<Rightarrow> icmp_header update_step" where
  "update_icmp env overwrite packet index = update_steps
     [set_field overwrite icmp_checksum (\<lambda>v h. h\<lparr>icmp_checksum := v\<rparr>) (\<lambda>h. hex_number kIcmpChecksumBitwidth
        (IcmpHeaderChecksum env (with_header packet (int index) (IcmpHeader h)) (int index)))]"

definition tcp_offset :: "packet \<Rightarrow> nat \<Rightarrow> string outcome" where
  "tcp_offset packet index =
     bind_outcome (Some (PacketSizeInBits packet (int index))) (\<lambda>size.
     bind_outcome (Some (PacketSizeInBits packet (int index + 1))) (\<lambda>payload_size.
       let data_offset_in_bits = size - payload_size
       in if \<not> 32 dvd data_offset_in_bits then Some (Inl INVALID_ARGUMENT)
          else let data_offset = data_offset_in_bits div 32
               in if data_offset < 5 \<or> data_offset > 15 then Some (Inl INVALID_ARGUMENT)
                  else Some (Inr (BitsetToHexString kTcpDataOffsetBitwidth (to_bitset kTcpDataOffsetBitwidth data_offset)))))"

definition update_tcp :: "bool \<Rightarrow> packet \<Rightarrow> nat \<Rightarrow> tcp_header update_step" where
  "update_tcp overwrite packet index = update_steps
     [set_field overwrite tcp_data_offset (\<lambda>v h. h\<lparr>tcp_data_offset := v\<rparr>)
        (\<lambda>h. tcp_offset (with_header packet (int index) (TcpHeader h)) index)]"

definition update_gre :: "text_env \<Rightarrow> bool \<Rightarrow> packet \<Rightarrow> nat \<Rightarrow> gre_header update_step" where
  "update_gre env overwrite packet index = (\<lambda>(header, changes).
     if gre_checksum_present header = ''0x1''
     then update_steps
       [set_field overwrite gre_checksum (\<lambda>v h. h\<lparr>gre_checksum := v\<rparr>) (\<lambda>h. hex_number kGreChecksumBitwidth
          (GreHeaderChecksum env (with_header packet (int index) (GreHeader h)) (int index))),
        set_field overwrite gre_reserved1 (\<lambda>v h. h\<lparr>gre_reserved1 := v\<rparr>) (\<lambda>h. Some (Inr ''0x0000''))] (header, changes)
     else Some (Inr (header, changes)))"

definition update_ipfix :: "bool \<Rightarrow> packet \<Rightarrow> nat \<Rightarrow> ipfix_header update_step" where
  "update_ipfix overwrite packet index = update_steps
     [set_field overwrite ipfix_length (\<lambda>v h. h\<lparr>ipfix_length := v\<rparr>) (\<lambda>h. hex_number kIpfixLengthBitwidth
        (Some (PacketSizeInBytes (with_header packet (int index) (IpfixHeader h)) (int index))))]"

definition update_psamp :: "bool \<Rightarrow> packet \<Rightarrow> nat \<Rightarrow> psamp_header update_step" where
  "update_psamp overwrite packet index = update_steps
     [set_field overwrite psamp_length (\<lambda>v h. h\<lparr>psamp_length := v\<rparr>) (\<lambda>h. hex_number kPsampLengthBitwidth
        (Some (PacketSizeInBytes (with_header packet (int index) (PsampHeader h)) (int index)))),
      set_field overwrite psamp_variable_length (\<lambda>v h. h\<lparr>psamp_variable_length := v\<rparr>) (\<lambda>h. Some (Inr ''0xff'')),
      set_field overwrite psamp_packet_sampled_length (\<lambda>v h. h\<lparr>psamp_packet_sampled_length := v\<rparr>) (\<lambda>h.
        hex_number kPsampPacketSampledLengthBitwidth
          (Some (PacketSizeInBytes (with_header packet (int index) (PsampHeader h)) (int index + 1))))]"

definition update_ptp :: "bool \<Rightarrow> packet \<Rightarrow> nat \<Rightarrow> ptp_header update_step" where
  "update_ptp overwrite packet index = update_steps
     [set_field overwrite ptp_message_length (\<lambda>v h. h\<lparr>ptp_message_length := v\<rparr>) (\<lambda>h. hex_number kPtpMessageLengthBitwidth
        (Some (PacketSizeInBytes (with_header packet (int index) (PtpHeader h)) (int index))))]"

definition into_header :: "('h \<Rightarrow> header) \<Rightarrow> ('h \<times> bool) outcome \<Rightarrow> (header \<times> bool) outcome" where
  "into_header mk m = bind_outcome m (\<lambda>(h, changes). Some (Inr (mk h, changes)))"

fun update_header :: "text_env \<Rightarrow> bool \<Rightarrow> packet \<Rightarrow> nat \<Rightarrow> bool \<Rightarrow> header \<Rightarrow> (header \<times> bool) outcome" where
  "update_header env overwrite packet index changes (EthernetHeader h) =
     into_header EthernetHeader (update_ethernet overwrite packet index (h, changes))"
| "update_header env overwrite packet index changes (Ipv4Header h) =
     into_header Ipv4Header (update_ipv4 overwrite packet index (h, changes))"
| "update_header env overwrite packet index changes (Ipv6Header h) =
     into_header Ipv6Header (update_ipv6 overwrite packet index (h, changes))"
| "update_header env overwrite packet index changes (HopByHopOptionsHeader h) =
     into_header HopByHopOptionsHeader (update_hop_by_hop overwrite (h, changes))"
| "update_header env overwrite packet index changes (UdpHeader h) =
     into_header UdpHeader (update_udp env overwrite packet index (h, changes))"
| "update_header env overwrite packet index changes (ArpHeader h) =
     into_header ArpHeader (update_arp overwrite (h, changes))"
| "update_header env overwrite packet index changes (IcmpHeader h) =
     into_header IcmpHeader (update_icmp env overwrite packet index (h, changes))"
| "update_header env overwrite packet index changes (TcpHeader h) =
     into_header TcpHeader (update_tcp overwrite packet index (h, changes))"
| "update_header env overwrite packet index changes (GreHeader h) =
     into_header GreHeader (update_gre env overwrite packet index (h, changes))"
| "update_header env overwrite packet index changes (IpfixHeader h) =
     into_header IpfixHeader (update_ipfix overwrite packet index (h, changes))"
| "update_header env overwrite packet index changes (PsampHeader h) =
     into_header PsampHeader (update_psamp overwrite packet index (h, changes))"
| "update_header env overwrite packet index changes (PtpHeader h) =
     into_header PtpHeader (update_ptp overwrite packet index (h, changes))"
| "update_header env overwrite packet index changes HeaderUnset = Some (Inl INVALID_ARGUMENT)"
| "update_header env overwrite packet index changes h = Some (Inr (h, changes))"

text \<open>From the innermost header, of index \<open>n - 1\<close>, to the outermost one.\<close>

fun update_headers :: "text_env \<Rightarrow> bool \<Rightarrow> nat \<Rightarrow> packet \<times> bool \<Rightarrow> (packet \<times> bool) outcome" where
  "update_headers env overwrite 0 s = Some (Inr s)"
| "update_headers env overwrite (Suc index) (packet, changes) =
     bind_outcome (update_header env overwrite packet index changes (packet_headers packet ! index)) (\<lambda>(header, changes).
       update_headers env overwrite index (with_header packet (int index) header, changes))"

definition UpdateComputedFields :: "text_env \<Rightarrow> packet \<Rightarrow> bool \<Rightarrow> (packet \<times> bool) outcome" where
  "UpdateComputedFields env packet overwrite = update_headers env overwrite (length (packet_headers packet)) (packet, False)"

definition UpdateMissingComputedFields :: "text_env \<Rightarrow> packet \<Rightarrow> (packet \<times> bool) outcome" where
  "UpdateMissingComputedFields env packet = UpdateComputedFields env packet False"

definition UpdateAllComputedFields :: "text_env \<Rightarrow> packet \<Rightarrow> (packet \<times> bool) outcome" where
  "UpdateAllComputedFields env packet = UpdateComputedFields env packet True"

section \<open>Padding and serialization\<close>

definition resize_payload :: "int \<Rightarrow> packet \<Rightarrow> packet" where
  "resize_payload n packet =
     packet\<lparr>packet_payload := take (nat n) (packet_payload packet) @ replicate (nat n - length (packet_payload packet)) CHR 0x00\<rparr>"

fun pad_from :: "packet \<Rightarrow> nat \<Rightarrow> header list \<Rightarrow> (packet \<times> bool) status_or" where
  "pad_from packet header_index [] = Inr (packet, False)"
| "pad_from packet header_index (header # headers) =
     (case header of
        EthernetHeader _ \<Rightarrow>
          (case PacketSizeInBytes packet (int header_index + 1) of
             Inl _ \<Rightarrow> Inl INVALID_ARGUMENT
           | Inr after_eth_size \<Rightarrow>
               if after_eth_size \<ge> int kMinNumBytesInEthernetPayload then Inr (packet, False)
               else Inr (resize_payload (int kMinNumBytesInEthernetPayload - (after_eth_size - int (length (packet_payload packet)))) packet, True))
      | HeaderUnset \<Rightarrow> Inr (packet, False)
      | _ \<Rightarrow> pad_from packet (header_index + 1) headers)"

definition PadPacketToMinimumSizeFromHeaderIndex :: "packet \<Rightarrow> nat \<Rightarrow> (packet \<times> bool) status_or" where
  "PadPacketToMinimumSizeFromHeaderIndex packet header_index = pad_from packet header_index (drop header_index (packet_headers packet))"

definition PadPacketToMinimumSize :: "packet \<Rightarrow> (packet \<times> bool) status_or" where
  "PadPacketToMinimumSize packet = PadPacketToMinimumSizeFromHeaderIndex packet 0"

definition PadPacket :: "int \<Rightarrow> packet \<Rightarrow> (packet \<times> bool) status_or" where
  "PadPacket num_bytes packet =
     bind_or (PacketSizeInBytes packet 0) (\<lambda>current_size.
       if current_size \<ge> num_bytes then Inr (packet, False)
       else let header_size = current_size - int (length (packet_payload packet))
            in Inr (resize_payload (num_bytes - header_size) packet, True))"

definition SerializePacket :: "text_env \<Rightarrow> packet \<Rightarrow> string outcome" where
  "SerializePacket env packet =
     bind_outcome (Some (PadPacketToMinimumSize packet)) (\<lambda>(packet, _).
     bind_outcome (UpdateMissingComputedFields env packet) (\<lambda>(packet, _).
       case ValidatePacket env packet of
         None \<Rightarrow> None
       | Some status \<Rightarrow> Some (return_if_error status (RawSerializePacket env packet))))"

section \<open>The Ethernet trailer\<close>

definition is_lower_protocol :: "header \<Rightarrow> bool" where
  "is_lower_protocol header \<longleftrightarrow> case_of header \<in> {kVlanHeader, kCsigHeader}"

definition trailer_of_size :: "string \<Rightarrow> int \<Rightarrow> string status_or" where
  "trailer_of_size raw_packet trailer_size =
     (if trailer_size < 0 then Inr []
      else if trailer_size > int (length raw_packet) then Inl INTERNAL
      else Inr (drop (nat (int (length raw_packet) - trailer_size)) raw_packet))"

definition GetEthernetTrailer :: "text_env \<Rightarrow> packet \<Rightarrow> string status_or" where
  "GetEthernetTrailer env packet =
     (case packet_headers packet of
        EthernetHeader _ # headers \<Rightarrow>
          (let header_index = 1 + length (takeWhile is_lower_protocol headers)
           in if header_index \<ge> length (packet_headers packet) then Inl INVALID_ARGUMENT
              else bind_or (RawSerializePacket env packet) (\<lambda>raw_packet.
                case packet_headers packet ! header_index of
                  Ipv4Header header \<Rightarrow>
                    bind_or (HexStringToInt (ipv4_total_length header)) (\<lambda>according_to_ip_header.
                    bind_or (PacketSizeInBytes packet (int header_index)) (\<lambda>actual_size.
                      trailer_of_size raw_packet (actual_size - according_to_ip_header)))
                | Ipv6Header header \<Rightarrow>
                    bind_or (HexStringToInt (ipv6_payload_length header)) (\<lambda>according_to_ip_header.
                    bind_or (PacketSizeInBytes packet (int header_index + 1)) (\<lambda>actual_size.
                      trailer_of_size raw_packet (actual_size - according_to_ip_header)))
                | ArpHeader _ \<Rightarrow> Inr raw_packet
                | _ \<Rightarrow> Inl INVALID_ARGUMENT))
      | _ \<Rightarrow> Inl INVALID_ARGUMENT)"

section \<open>Fields from numbers\<close>

text \<open>A number that is too large for its field is truncated.\<close>

definition VlanId :: "nat \<Rightarrow> string" where
  "VlanId input = ValidateAndConvertToHexString kVlanVlanIdentifierBitwidth input"

definition IpVersion :: "nat \<Rightarrow> string" where
  "IpVersion input = ValidateAndConvertToHexString kIpVersionBitwidth input"

definition IpIhl :: "nat \<Rightarrow> string" where
  "IpIhl input = ValidateAndConvertToHexString kIpIhlBitwidth input"

definition IpDscp :: "nat \<Rightarrow> string" where
  "IpDscp input = ValidateAndConvertToHexString kIpDscpBitwidth input"

definition IpEcn :: "nat \<Rightarrow> string" where
  "IpEcn input = ValidateAndConvertToHexString kIpEcnBitwidth input"

definition IpTotalLength :: "nat \<Rightarrow> string" where
  "IpTotalLength input = ValidateAndConvertToHexString kIpTotalLengthBitwidth input"

definition IpIdentification :: "nat \<Rightarrow> string" where
  "IpIdentification input = ValidateAndConvertToHexString kIpIdentificationBitwidth input"

definition IpFlags :: "nat \<Rightarrow> string" where
  "IpFlags input = ValidateAndConvertToHexString kIpFlagsBitwidth input"

definition IpFragmentOffset :: "nat \<Rightarrow> string" where
  "IpFragmentOffset input = ValidateAndConvertToHexString kIpFragmentOffsetBitwidth input"

definition IpTtl :: "nat \<Rightarrow> string" where
  "IpTtl input = ValidateAndConvertToHexString kIpTtlBitwidth input"

definition IpProtocol :: "nat \<Rightarrow> string" where
  "IpProtocol input = ValidateAndConvertToHexString kIpProtocolBitwidth input"

definition IpChecksum :: "nat \<Rightarrow> string" where
  "IpChecksum input = ValidateAndConvertToHexString kIpChecksumBitwidth input"

definition IpFlowLabel :: "nat \<Rightarrow> string" where
  "IpFlowLabel input = ValidateAndConvertToHexString kIpFlowLabelBitwidth input"

definition IpPayloadLength :: "nat \<Rightarrow> string" where
  "IpPayloadLength input = ValidateAndConvertToHexString kIpPayloadLengthBitwidth input"

definition IpNextHeader :: "nat \<Rightarrow> string" where
  "IpNextHeader input = ValidateAndConvertToHexString kIpNextHeaderBitwidth input"

definition IpHopLimit :: "nat \<Rightarrow> string" where
  "IpHopLimit input = ValidateAndConvertToHexString kIpHopLimitBitwidth input"

definition UdpPort :: "nat \<Rightarrow> string" where
  "UdpPort input = ValidateAndConvertToHexString kUdpPortBitwidth input"

definition UdpChecksum :: "nat \<Rightarrow> string" where
  "UdpChecksum input = ValidateAndConvertToHexString kUdpChecksumBitwidth input"

definition UdpLength :: "nat \<Rightarrow> string" where
  "UdpLength input = ValidateAndConvertToHexString kUdpLengthBitwidth input"

definition TcpPort :: "nat \<Rightarrow> string" where
  "TcpPort input = ValidateAndConvertToHexString kTcpPortBitwidth input"

definition TcpSequenceNumber :: "nat \<Rightarrow> string" where
  "TcpSequenceNumber input = ValidateAndConvertToHexString kTcpSequenceNumberBitwidth input"

definition TcpAcknowledgementNumber :: "nat \<Rightarrow> string" where
  "TcpAcknowledgementNumber input = ValidateAndConvertToHexString kTcpAcknowledgementNumberBitwidth input"

definition TcpDataOffset :: "nat \<Rightarrow> string" where
  "TcpDataOffset input = ValidateAndConvertToHexString kTcpDataOffsetBitwidth input"

definition TcpRestOfHeader :: "nat \<Rightarrow> string" where
  "TcpRestOfHeader input = ValidateAndConvertToHexString kTcpRestOfHeaderBitwidth input"

definition ArpType :: "nat \<Rightarrow> string" where
  "ArpType input = ValidateAndConvertToHexString kArpTypeBitwidth input"

definition ArpLength :: "nat \<Rightarrow> string" where
  "ArpLength input = ValidateAndConvertToHexString kArpLengthBitwidth input"

definition ArpOperation :: "nat \<Rightarrow> string" where
  "ArpOperation input = ValidateAndConvertToHexString kArpOperationBitwidth input"

definition IcmpType :: "nat \<Rightarrow> string" where
  "IcmpType input = ValidateAndConvertToHexString kIcmpTypeBitwidth input"

definition IcmpCode :: "nat \<Rightarrow> string" where
  "IcmpCode input = ValidateAndConvertToHexString kIcmpCodeBitwidth input"

definition IcmpChecksum :: "nat \<Rightarrow> string" where
  "IcmpChecksum input = ValidateAndConvertToHexString kIcmpChecksumBitwidth input"

definition IcmpRestOfHeader :: "nat \<Rightarrow> string" where
  "IcmpRestOfHeader input = ValidateAndConvertToHexString kIcmpRestOfHeaderBitwidth input"

definition GreChecksumPresent :: "nat \<Rightarrow> string" where
  "GreChecksumPresent input = ValidateAndConvertToHexString kGreChecksumPresentBitwidth input"

definition GreReserved0 :: "nat \<Rightarrow> string" where
  "GreReserved0 input = ValidateAndConvertToHexString kGreReserved0Bitwidth input"

definition GreVersion :: "nat \<Rightarrow> string" where
  "GreVersion input = ValidateAndConvertToHexString kGreVersionBitwidth input"

definition GreProtocolType :: "nat \<Rightarrow> string" where
  "GreProtocolType input = ValidateAndConvertToHexString kGreProtocolTypeBitwidth input"

definition GreChecksum :: "nat \<Rightarrow> string" where
  "GreChecksum input = ValidateAndConvertToHexString kGreChecksumBitwidth input"

definition GreReserved1 :: "nat \<Rightarrow> string" where
  "GreReserved1 input = ValidateAndConvertToHexString kGreReserved1Bitwidth input"

definition IpfixVersion :: "nat \<Rightarrow> string" where
  "IpfixVersion input = ValidateAndConvertToHexString kIpfixVersionBitwidth input"

definition IpfixLength :: "nat \<Rightarrow> string" where
  "IpfixLength input = ValidateAndConvertToHexString kIpfixLengthBitwidth input"

definition IpfixExportTime :: "nat \<Rightarrow> string" where
  "IpfixExportTime input = ValidateAndConvertToHexString kIpfixExportTimeBitwidth input"

definition IpfixSequenceNumber :: "nat \<Rightarrow> string" where
  "IpfixSequenceNumber input = ValidateAndConvertToHexString kIpfixSequenceNumberBitwidth input"

definition IpfixObservationDomainId :: "nat \<Rightarrow> string" where
  "IpfixObservationDomainId input = ValidateAndConvertToHexString kIpfixObservationDomainIdBitwidth input"

definition PsampTemplateId :: "nat \<Rightarrow> string" where
  "PsampTemplateId input = ValidateAndConvertToHexString kPsampTemplateIdBitwidth input"

definition PsampObservationTime :: "nat \<Rightarrow> string" where
  "PsampObservationTime input = ValidateAndConvertToHexString kPsampObservationTimeBitwidth input"

definition PsampFlowset :: "nat \<Rightarrow> string" where
  "PsampFlowset input = ValidateAndConvertToHexString kPsampFlowsetBitwidth input"

definition PsampNextHopIndex :: "nat \<Rightarrow> string" where
  "PsampNextHopIndex input = ValidateAndConvertToHexString kPsampNextHopIndexBitwidth input"

definition PsampEpoch :: "nat \<Rightarrow> string" where
  "PsampEpoch input = ValidateAndConvertToHexString kPsampEpochBitwidth input"

definition PsampIngressPort :: "nat \<Rightarrow> string" where
  "PsampIngressPort input = ValidateAndConvertToHexString kPsampIngressPortBitwidth input"

definition PsampEgressPort :: "nat \<Rightarrow> string" where
  "PsampEgressPort input = ValidateAndConvertToHexString kPsampEgressPortBitwidth input"

definition PsampUserMetaField :: "nat \<Rightarrow> string" where
  "PsampUserMetaField input = ValidateAndConvertToHexString kPsampUserMetaFieldBitwidth input"

definition PsampDlbId :: "nat \<Rightarrow> string" where
  "PsampDlbId input = ValidateAndConvertToHexString kPsampDlbIdBitwidth input"

end
