(* ===== verification/Packet_Parsing.thy ===== *)
theory Packet_Parsing
  imports Packet_Library "HOL-Library.Code_Target_Nat"
begin

text \<open>
  Properties of the packet library: parsing loses nothing, validation returns, computed checksums
  verify at the receiver, and a valid packet serializes to as many bytes as its size says.
\<close>

section \<open>Numbers in parsed fields\<close>

lemma set_digit_bits_mono: "set_digit_bits n i d js b = Inr v \<Longrightarrow> n \<le> m \<Longrightarrow> set_digit_bits m i d js b = Inr v"
  by (induction n i d js b rule: set_digit_bits.induct) (auto split: if_splits)

lemma hex_to_bits_mono: "hex_to_bits n i cs b = Inr v \<Longrightarrow> n \<le> m \<Longrightarrow> hex_to_bits m i cs b = Inr v"
proof (induction cs arbitrary: i b)
  case (Cons c cs)
  then obtain d b' where "HexCharToDigit c = Inr d" "set_digit_bits n i d [0, 1, 2, 3] b = Inr b'" "hex_to_bits n (i + 1) cs b' = Inr v"
    by (auto simp del: set_digit_bits.simps)
  with Cons.IH [of "i + 1" b'] Cons.prems(2) set_digit_bits_mono [of n i d "[0, 1, 2, 3]" b b' m]
  show ?case by (simp del: set_digit_bits.simps)
qed simp

lemma HexStringToInt_of_bitset: "HexStringToBitset n x = Inr v \<Longrightarrow> n \<le> 32 \<Longrightarrow> HexStringToInt x = Inr (to_int32 (int v))"
  by (auto simp: HexStringToInt_def HexStringToInt32_def HexStringToBitset_def HexStringToAnyLargeEnoughBitset_def
      dest: hex_to_bits_mono [of n _ _ _ _ 32] split: if_splits)

lemma HexStringToInt_chunk [simp]:
  "n \<le> bs_size s \<Longrightarrow> n \<le> 32 \<Longrightarrow> HexStringToInt (BitsetToHexString n (bits_value (chunk n s))) = Inr (to_int32 (int (bits_value (chunk n s))))"
  by (rule HexStringToInt_of_bitset) (simp_all add: HexStringToBitset_BitsetToHexString chunk_value_less)

section \<open>Bytes and bits\<close>

lemma byte_of_bits_drop: "k \<le> length b \<Longrightarrow> byte_of_bits b (k + j) = byte_of_bits (drop k b) j"
  by (simp add: byte_of_bits_def add.assoc)

lemma ToByteString_rest:
  assumes "bs_rest s = bytes_bits t"
  shows "ToByteString s = Inr t"
proof -
  have size: "bs_size s = 8 * length t" using assms by (metis skip_simps(5) bytes_bits_simps(3))
  have "char_of (byte_of_bits (bs_bits s) (bs_start_index s + j * 8)) = t ! j" if "j < length t" for j
  proof -
    have "bs_start_index s \<le> length (bs_bits s)" using size that by (simp add: bs_size_def)
    then show ?thesis
      using byte_of_bits_concat [OF that] assms by (simp add: byte_of_bits_drop bs_rest_def bytes_bits_def mult.commute)
  qed
  with size show ?thesis by (auto simp: ToByteString_def intro!: nth_equalityI)
qed

lemma AppendBytes_append_bits: "AppendBytes t s = append_bits (bytes_bits t) s"
  by (simp add: AppendBytes_bits append_bits_def bytes_bits_def)

lemma OfByteString_bits_simps [simp]:
  "bs_rest (OfByteString_bits t) = bytes_bits t" "bs_size (OfByteString_bits t) = 8 * length t"
  by (simp_all add: OfByteString_bits_eq bs_rest_def bs_size_def length_concat_bytes) (simp add: bytes_bits_def)

section \<open>Parsing a packet loses nothing\<close>

lemma GetNextHeader_parsed: "ParseHeader env c s = Inr (h, s') \<Longrightarrow> \<exists>nh. GetNextHeader h = Inr nh"
  by (cases c) (auto simp: GetNextHeaderForEtherType_def next_after_udp_def next_after_psp_def widths
      ParseEthernetHeader_def ParseVlanHeader_def ParseCsigHeader_def ParseGreHeader_def ParseUdpHeader_def ParsePspHeader_def parse_at_most_def
      simp flip: HexStringToInt_def split: if_splits)

declare parse_headers.simps [simp del]

fun ethertype_readable :: "header \<Rightarrow> bool" where
  "ethertype_readable (EthernetHeader h) \<longleftrightarrow> (case HexStringToInt (ethernet_ethertype h) of Inr _ \<Rightarrow> True | Inl _ \<Rightarrow> False)"
| "ethertype_readable _ \<longleftrightarrow> True"

text \<open>The headers that are added serialize to the bits that were consumed.\<close>

definition headers_parsed :: "text_env \<Rightarrow> header_case \<Rightarrow> packet \<Rightarrow> bit_string \<Rightarrow> packet \<Rightarrow> bit_string \<Rightarrow> bool" where
  "headers_parsed env c packet s packet' s' \<longleftrightarrow>
     (\<exists>hs n. packet_headers packet' = packet_headers packet @ hs \<and> packet_payload packet' = packet_payload packet \<and>
        list_all ethertype_readable hs \<and> (case hs of [] \<Rightarrow> True | h # _ \<Rightarrow> case_of h = c) \<and>
        n \<le> bs_size s \<and> 8 dvd n \<and> s' = skip n s \<and>
        (\<forall>out. fold_or (SerializeHeader env) hs out = Inr (append_bits (chunk n s) out)))"

lemma headers_parsed_refl: "packet_headers p' = packet_headers p \<Longrightarrow> packet_payload p' = packet_payload p \<Longrightarrow> headers_parsed env c p s p' s"
  by (auto simp: headers_parsed_def chunk_def intro!: exI [of _ "0 :: nat"])

lemma headers_parsed_step:
  assumes "reads_back (SerializeHeader env) s h s'" "8 dvd bs_size s" "ethertype_readable h" "case_of h = c"
    "headers_parsed env c' (p\<lparr>packet_headers := packet_headers p @ [h]\<rparr>) s' p' s''"
  shows "headers_parsed env c p s p' s''"
proof -
  from assms(1,2) obtain n where n: "n \<le> bs_size s" "s' = skip n s" "8 dvd n"
    "\<And>out. SerializeHeader env h out = Inr (append_bits (chunk n s) out)" by (auto simp: reads_back_def)
  from assms(5) obtain hs m where m: "packet_headers p' = packet_headers p @ h # hs" "packet_payload p' = packet_payload p"
    "list_all ethertype_readable hs" "m \<le> bs_size s'" "8 dvd m" "s'' = skip m s'" "\<And>out. fold_or (SerializeHeader env) hs out = Inr (append_bits (chunk m s') out)"
    by (auto simp: headers_parsed_def)
  show ?thesis unfolding headers_parsed_def
    by (rule exI [of _ "h # hs"], rule exI [of _ "n + m"]) (use n m assms(3,4) in auto)
qed

lemma reads_back_dvd: "reads_back f s h s' \<Longrightarrow> 8 dvd bs_size s \<Longrightarrow> 8 dvd bs_size s'"
  by (auto simp: reads_back_def intro: dvd_diff_nat)

lemma parse_headers_parsed:
  "inet_round_trip env \<Longrightarrow> 8 dvd bs_size s \<Longrightarrow> parse_headers env c s p = (p', s') \<Longrightarrow> headers_parsed env c p s p' s'"
proof (induction env c s p rule: parse_headers.induct)
  case (1 env c s p)
  show ?case
  proof (cases "c = HEADER_NOT_SET \<or> (\<exists>e. ParseHeader env c s = Inl e)")
    case True
    with "1.prems"(3) show ?thesis by (auto simp: parse_headers.simps [of env c] intro!: headers_parsed_refl split: if_splits)
  next
    case False
    then obtain h t where p: "ParseHeader env c s = Inr (h, t)" by (cases "ParseHeader env c s") auto
    note rb = ParseHeader_reads_back [OF "1.prems"(1) p]
    from GetNextHeader_parsed [OF p] obtain nh where n: "GetNextHeader h = Inr nh" by blast
    have "\<exists>c'. headers_parsed env c' (p\<lparr>packet_headers := packet_headers p @ [h]\<rparr>) t p' s'"
    proof (cases nh)
      case (SupportedNextHeader c')
      with 1 False p n reads_back_dvd [OF rb "1.prems"(2)]
      have "headers_parsed env c' (p\<lparr>packet_headers := packet_headers p @ [h]\<rparr>) t p' s'" by (auto simp: parse_headers.simps [of env c])
      then show ?thesis ..
    next
      case (UnsupportedNextHeader x)
      with "1.prems"(3) False p n show ?thesis by (auto simp: parse_headers.simps [of env c] intro!: headers_parsed_refl)
    qed
    moreover have "ethertype_readable h" using n by (cases h) (auto simp: GetNextHeaderForEtherType_def split: sum.splits)
    moreover have "case_of h = c" using ParseHeader_consumes [OF p] by simp
    ultimately show ?thesis using headers_parsed_step [OF rb "1.prems"(2)] by blast
  qed
qed

section \<open>How many bits a serializer writes\<close>

text \<open>
  A serializer either fails whatever the output is so far, or appends the same bits, whose number is
  known, to every output.
\<close>

definition writes :: "serializer \<Rightarrow> bool list \<Rightarrow> bool" where
  "writes f b \<longleftrightarrow> (\<forall>out. f out = Inr (append_bits b out))"

definition appends :: "serializer \<Rightarrow> nat \<Rightarrow> bool" where
  "appends f n \<longleftrightarrow> (\<exists>e. \<forall>out. f out = Inl e) \<or> (\<exists>b. length b = n \<and> writes f b)"

lemma append_bits_inject [simp]: "append_bits b s = append_bits b' s \<longleftrightarrow> b = b'"
  by (auto simp: append_bits_def dest: arg_cong [where f = bs_bits])

lemma appendsE:
  assumes "appends f n"
  obtains e where "\<And>out. f out = Inl e" | b where "length b = n" "\<And>out. f out = Inr (append_bits b out)"
  using assms by (auto simp: appends_def writes_def)

lemma appendsD: "appends f n \<Longrightarrow> f out = Inr out' \<Longrightarrow> \<exists>b. length b = n \<and> writes f b \<and> out' = append_bits b out"
  by (auto simp: appends_def writes_def)

lemma writesI: "(\<And>out. f out = Inr (append_bits b out)) \<Longrightarrow> writes f b"
  by (simp add: writes_def)

lemma appends_writes: "writes f b \<Longrightarrow> length b = n \<Longrightarrow> appends f n"
  by (auto simp: appends_def)

lemma appends_fails: "(\<And>out. f out = Inl e) \<Longrightarrow> appends f n"
  by (auto simp: appends_def)

lemma AppendBits_append_bits: "AppendBits n v s = append_bits (field_bits (n, v)) s"
  by (simp add: AppendBits_field append_bits_def)

definition hex_bits :: "string \<Rightarrow> nat" where
  "hex_bits x = (case HexStringToByteString x of Inl _ \<Rightarrow> 0 | Inr bytes \<Rightarrow> 8 * length bytes)"

lemma appends_bitset: "(\<And>out. f out = bind_or r (\<lambda>v. Inr (append_bits (g v) out))) \<Longrightarrow> (\<And>v. r = Inr v \<Longrightarrow> length (g v) = n) \<Longrightarrow> appends f n"
  by (cases r) (auto intro: appends_fails appends_writes writesI)

lemma appends_field [intro]:
  "appends (SerializeBits n x) n" "appends (SerializeMacAddress x) 48" "appends (SerializeIpv4Address x) 32"
  "appends (SerializeIpv6Address env x) 128" "appends (AppendHexString x) (hex_bits x)"
  by (rule appends_bitset, auto simp: SerializeBits_def SerializeMacAddress_def SerializeIpv4Address_def SerializeIpv6Address_def
      AppendHexString_def hex_bits_def AppendBits_append_bits AppendBytes_append_bits)+

lemma appends_AppendBits [intro]: "appends (\<lambda>out. Inr (AppendBits n v out)) n"
  by (rule appends_writes [OF writesI]) (auto simp: AppendBits_append_bits)

lemma appends_Inr [intro]: "appends Inr 0"
  by (rule appends_writes [where b = "[]"]) (simp_all add: writes_def)

lemma appends_options [intro]: "appends (serialize_options x) (if x = [] then 0 else hex_bits x)"
proof (cases "x = []")
  case True
  then have "serialize_options x = Inr" by (simp add: fun_eq_iff)
  with True show ?thesis by auto
next
  case False
  then have "serialize_options x = AppendHexString x" by (simp add: fun_eq_iff serialize_options_def)
  with False show ?thesis by auto
qed

lemma appends_bind [intro]:
  assumes f: "appends f n" and g: "appends g m"
  shows "appends (\<lambda>out. bind_or (f out) g) (n + m)"
  using f
proof (cases rule: appendsE)
  case (2 b)
  note f = 2
  show ?thesis using g
  proof (cases rule: appendsE)
    case (2 c)
    with f show ?thesis by (intro appends_writes [where b = "b @ c"] writesI) simp_all
  qed (use f in \<open>auto intro: appends_fails\<close>)
qed (auto intro: appends_fails)

lemma appends_fold: "(\<And>x. x \<in> set xs \<Longrightarrow> appends (f x) (n x)) \<Longrightarrow> appends (fold_or f xs) (sum_list (map n xs))"
proof (induction xs)
  case Nil
  have "fold_or f [] = Inr" by (simp add: fun_eq_iff)
  then show ?case by auto
next
  case (Cons x xs)
  have "fold_or f (x # xs) = (\<lambda>out. bind_or (f x out) (fold_or f xs))" by (simp add: fun_eq_iff)
  with Cons show ?case by auto
qed

lemma in_order_simps: "in_order [] = Inr" "in_order (f # fs) = (\<lambda>out. bind_or (f out) (in_order fs))"
  "in_order (fs @ gs) = (\<lambda>out. bind_or (in_order fs out) (in_order gs))"
  by (simp_all add: in_order_def fun_eq_iff fold_or_append)

lemma appends_in_order_Nil: "appends (in_order []) 0"
  by (simp add: in_order_simps(1) appends_Inr)

lemma appends_in_order_Cons: "appends f n \<Longrightarrow> appends (in_order fs) m \<Longrightarrow> appends (in_order (f # fs)) (n + m)"
  by (auto simp: in_order_simps(2))

lemma appends_eq: "appends f n \<Longrightarrow> n = m \<Longrightarrow> appends f m"
  by simp

fun header_bits :: "header \<Rightarrow> nat" where
  "header_bits (EthernetHeader _) = 112"
| "header_bits (VlanHeader _) = 32"
| "header_bits (CsigHeader _) = 32"
| "header_bits (ArpHeader _) = 224"
| "header_bits (Ipv4Header h) = 160 + (if ipv4_uninterpreted_options h = [] then 0 else hex_bits (ipv4_uninterpreted_options h))"
| "header_bits (Ipv6Header _) = 320"
| "header_bits (HopByHopOptionsHeader _) = 64"
| "header_bits (IcmpHeader _) = 64"
| "header_bits (UdpHeader _) = 64"
| "header_bits (TcpHeader h) = 160 + (if tcp_uninterpreted_options h = [] then 0 else hex_bits (tcp_uninterpreted_options h))"
| "header_bits (GreHeader h) = 32 + (if gre_checksum_present h = ''0x1'' then hex_bits (gre_checksum h) + hex_bits (gre_reserved1 h) else 0)"
| "header_bits (SaiP4BMv2PacketInHeader _) = 24"
| "header_bits (IpfixHeader _) = 128"
| "header_bits (PsampHeader _) = 224"
| "header_bits (PtpHeader _) = 272"
| "header_bits (PspHeader _) = 128"
| "header_bits HeaderUnset = 0"

lemma gre_optional_appends:
  "appends (\<lambda>output. if p then bind_or (AppendHexString x output) (AppendHexString y) else Inr output) (if p then hex_bits x + hex_bits y else 0)"
  by (cases p) auto

lemmas appends_header =
  SerializeEthernetHeader_def SerializeVlanHeader_def SerializeCsigHeader_def SerializeArpHeader_def SerializeIpv4Header_def
  SerializeIpv6Header_def SerializeHopByHopOptionsHeader_def SerializeIcmpHeader_def SerializeUdpHeader_def SerializeTcpHeader_def
  SerializeGreHeader_def SerializeSaiP4BMv2PacketInHeader_def SerializeIpfixHeader_def SerializePsampHeader_def
  SerializePtpHeader_def SerializePspHeader_def

lemma SerializeHeader_fun:
  "SerializeHeader env (EthernetHeader h0) = SerializeEthernetHeader h0"
  "SerializeHeader env (VlanHeader h1) = SerializeVlanHeader h1"
  "SerializeHeader env (CsigHeader h2) = SerializeCsigHeader h2"
  "SerializeHeader env (ArpHeader h3) = SerializeArpHeader h3"
  "SerializeHeader env (Ipv4Header h4) = SerializeIpv4Header h4"
  "SerializeHeader env (HopByHopOptionsHeader h5) = SerializeHopByHopOptionsHeader h5"
  "SerializeHeader env (IcmpHeader h6) = SerializeIcmpHeader h6"
  "SerializeHeader env (UdpHeader h7) = SerializeUdpHeader h7"
  "SerializeHeader env (TcpHeader h8) = SerializeTcpHeader h8"
  "SerializeHeader env (GreHeader h9) = SerializeGreHeader h9"
  "SerializeHeader env (SaiP4BMv2PacketInHeader h10) = SerializeSaiP4BMv2PacketInHeader h10"
  "SerializeHeader env (IpfixHeader h11) = SerializeIpfixHeader h11"
  "SerializeHeader env (PsampHeader h12) = SerializePsampHeader h12"
  "SerializeHeader env (PtpHeader h13) = SerializePtpHeader h13"
  "SerializeHeader env (PspHeader h14) = SerializePspHeader h14"
  "SerializeHeader env (Ipv6Header h) = SerializeIpv6Header env h"
  by (simp_all add: fun_eq_iff)

lemma SerializeHeader_appends: "appends (SerializeHeader env h) (header_bits h)"
proof (cases h)
  case HeaderUnset
  then show ?thesis by (auto intro: appends_fails)
qed (simp_all only: SerializeHeader_fun appends_header header_bits.simps,
    (rule appends_eq, (rule appends_in_order_Cons appends_in_order_Nil appends_field appends_options gre_optional_appends)+,
      simp add: widths)+)

definition packet_bits :: "packet \<Rightarrow> nat \<Rightarrow> nat" where
  "packet_bits packet i = sum_list (map header_bits (drop i (packet_headers packet))) + 8 * length (packet_payload packet)"

lemma RawSerializeFrom_appends: "appends (RawSerializeFrom env packet (int i)) (packet_bits packet i)"
proof (cases "i \<le> length (packet_headers packet)")
  case True
  then have "RawSerializeFrom env packet (int i) = (\<lambda>out. bind_or (fold_or (SerializeHeader env) (drop i (packet_headers packet)) out)
      (\<lambda>out. Inr (AppendBytes (packet_payload packet) out)))" by (simp add: fun_eq_iff RawSerializeFrom_def)
  moreover have "appends (\<lambda>out. Inr (AppendBytes (packet_payload packet) out)) (8 * length (packet_payload packet))"
    by (rule appends_writes [OF writesI]) (auto simp: AppendBytes_append_bits)
  ultimately show ?thesis unfolding packet_bits_def by (auto intro: appends_fold SerializeHeader_appends)
qed (auto intro: appends_fails simp: RawSerializeFrom_def)

section \<open>Validation returns\<close>

text \<open>
  What validation relies on: the EtherType of an Ethernet header can be read and a hop-by-hop options
  header is not the first one.
\<close>

definition safe_to_validate :: "packet \<Rightarrow> bool" where
  "safe_to_validate packet \<longleftrightarrow>
     list_all ethertype_readable (packet_headers packet) \<and>
     (case packet_headers packet of [] \<Rightarrow> True | header # _ \<Rightarrow> case_of header \<noteq> kHopByHopOptionsHeader)"

lemma packet_bits_le: "packet_bits p i \<le> packet_bits p 0"
proof -
  have "sum_list (map header_bits (packet_headers p)) =
      sum_list (map header_bits (take i (packet_headers p))) + sum_list (map header_bits (drop i (packet_headers p)))"
    by (simp flip: sum_list_append map_append)
  then show ?thesis by (simp add: packet_bits_def)
qed

lemma packet_bits_with_header:
  "i < length (packet_headers p) \<Longrightarrow> header_bits h \<le> header_bits (packet_headers p ! i) + k \<Longrightarrow>
     packet_bits (with_header p (int i) h) 0 \<le> packet_bits p 0 + k"
  by (simp add: packet_bits_def with_header_def map_update sum_list_update)

lemma appends_empty:
  "appends f n \<Longrightarrow> f empty_bit_string = Inr out \<Longrightarrow> bs_start_index out = 0 \<and> length (bs_bits out) = n"
  by (auto dest!: appendsD simp: append_bits_def empty_bit_string_def)

text \<open>The header before a header that is not the first one, past a hop-by-hop options header.\<close>

lemma headers_with_header [simp]: "packet_headers (with_header p (int i) h) = (packet_headers p)[i := h]"
  by (simp add: with_header_def)

lemma preceding_header_exists:
  assumes "safe_to_validate p" "0 < i" "i < length (packet_headers p)"
  shows "header_at (with_header p (int i) h) (FindPrecedingIpHeader (with_header p (int i) h) (int i)) \<noteq> None"
proof -
  have "case_of (packet_headers p ! 0) \<noteq> kHopByHopOptionsHeader"
    using assms(1,3) by (cases "packet_headers p") (auto simp: safe_to_validate_def)
  moreover have "nat (int i - 1) = i - 1" by simp
  ultimately have "case_of ((packet_headers p)[i := h] ! nat (int i - 1)) = kHopByHopOptionsHeader \<Longrightarrow> 1 < i"
    using assms(2) by (cases "i = 1") auto
  with assms(2) show ?thesis by (auto simp: header_at_def FindPrecedingIpHeader_def Let_def)
qed

lemma with_header_same [simp]: "i < length (packet_headers p) \<Longrightarrow> with_header p (int i) (packet_headers p ! i) = p"
  by (simp add: with_header_def)

lemma UdpHeaderChecksum_returns:
  assumes "safe_to_validate p" "i < length (packet_headers p)"
  shows "UdpHeaderChecksum env p (int i) \<noteq> None"
proof (cases "0 < i")
  case True
  from preceding_header_exists [OF assms(1) True assms(2), of "packet_headers p ! i"] assms(2)
  obtain ip where "header_at p (FindPrecedingIpHeader p (int i)) = Some ip" by auto
  with True assms(2) show ?thesis by (simp add: UdpHeaderChecksum_def split: header.splits)
qed (simp add: UdpHeaderChecksum_def)

lemma IcmpHeaderChecksum_returns:
  assumes "safe_to_validate p" "i < length (packet_headers p)"
  shows "IcmpHeaderChecksum env p (int i) \<noteq> None"
proof (cases "0 < i")
  case True
  show ?thesis
  proof (cases "packet_headers p ! i")
    case (IcmpHeader h)
    let ?p = "with_header p (int i) (header.IcmpHeader (h\<lparr>icmp_checksum := ''0x0000''\<rparr>))"
    from preceding_header_exists [OF assms(1) True assms(2)]
    obtain ip where "header_at ?p (FindPrecedingIpHeader ?p (int i)) = Some ip" by auto
    with True assms(2) IcmpHeader show ?thesis by (simp add: IcmpHeaderChecksum_def Let_def)
  qed (use True assms(2) in \<open>simp_all add: IcmpHeaderChecksum_def\<close>)
qed (simp add: IcmpHeaderChecksum_def)

lemma GreHeaderChecksum_returns: "GreHeaderChecksum env p (int i) \<noteq> None"
  by (simp add: GreHeaderChecksum_def header_at_def split: header.splits)

lemma HexStringInvalidReasons_Nil: "HexStringInvalidReasons n i f x = [] \<longleftrightarrow> x \<noteq> [] \<and> (\<exists>v. HexStringToBitset n x = Inr v)"
  by (simp add: HexStringInvalidReasons_def split: sum.splits)

lemma header_invalid_reasons_returns:
  assumes p: "safe_to_validate p" "i < length (packet_headers p)" and h: "packet_headers p ! i = h"
  shows "header_invalid_reasons env p i h \<noteq> None"
proof (cases h)
  case (EthernetHeader e)
  have "ethertype_readable h" using p h by (auto simp: safe_to_validate_def list_all_length)
  with EthernetHeader show ?thesis by (auto simp: EthernetHeaderInvalidReasons_def Let_def split: sum.splits)
next
  case (UdpHeader u)
  with UdpHeaderChecksum_returns [OF p] show ?thesis by (auto simp: UdpHeaderInvalidReasons_def Let_def)
next
  case (IcmpHeader c)
  with IcmpHeaderChecksum_returns [OF p] preceding_header_exists [OF p(1) _ p(2), of "packet_headers p ! i"] p(2) show ?thesis
    by (auto simp: IcmpHeaderInvalidReasons_def Let_def)
next
  case (GreHeader g)
  with GreHeaderChecksum_returns [of env p i] show ?thesis by (auto simp: GreHeaderInvalidReasons_def Let_def)
next
  case (SaiP4BMv2PacketInHeader b)
  then show ?thesis
    by (auto simp: SaiP4BMv2PacketInHeaderInvalidReasons_def Let_def HexStringInvalidReasons_Nil widths HexStringToInt_of_bitset
        split: sum.splits)
qed simp_all

lemma headers_invalid_reasons_returns:
  "safe_to_validate p \<Longrightarrow> packet_headers p = xs @ hs \<Longrightarrow> headers_invalid_reasons env p (length xs) expected hs \<noteq> None"
proof (induction hs arbitrary: xs expected)
  case (Cons h hs)
  have "header_invalid_reasons env p (length xs) h \<noteq> None"
    by (rule header_invalid_reasons_returns) (use Cons.prems in simp_all)
  moreover have "headers_invalid_reasons env p (length (xs @ [h])) e hs \<noteq> None" for e
    by (rule Cons.IH) (use Cons.prems in simp_all)
  from this [of expected] this [of "expected_after h"] obtain x y where
    "headers_invalid_reasons env p (length xs + 1) expected hs = Some x"
    "headers_invalid_reasons env p (length xs + 1) (expected_after h) hs = Some y" by auto
  ultimately show ?case by (cases x; cases y) auto
qed simp

lemma PacketInvalidReasons_returns: "safe_to_validate p \<Longrightarrow> PacketInvalidReasons env p \<noteq> None"
  using headers_invalid_reasons_returns [of p "[]" "packet_headers p"] by (simp add: PacketInvalidReasons_def Let_def)

section \<open>Parsing a packet\<close>

lemma parsed_packet:
  assumes "inet_round_trip env" "first \<noteq> kHopByHopOptionsHeader"
    "parse_headers env first (OfByteString_bits input) empty_packet = (p, s)"
  obtains payload where "ToByteString s = Inr payload" "safe_to_validate (p\<lparr>packet_payload := payload\<rparr>)"
    "RawSerializePacket env (p\<lparr>packet_payload := payload\<rparr>) = Inr input"
proof -
  let ?s = "OfByteString_bits input"
  have "8 dvd bs_size ?s" by simp
  from parse_headers_parsed [OF assms(1) this assms(3)] obtain n where
    n: "n \<le> 8 * length input" "8 dvd n" "s = skip n ?s" "list_all ethertype_readable (packet_headers p)"
      "case packet_headers p of [] \<Rightarrow> True | h # _ \<Rightarrow> case_of h = first"
      "\<And>out. fold_or (SerializeHeader env) (packet_headers p) out = Inr (append_bits (chunk n ?s) out)"
    by (auto simp: headers_parsed_def empty_packet_def)
  have rest: "bs_rest s = drop n (bytes_bits input)" "chunk n ?s = take n (bytes_bits input)" by (simp_all add: n(3) chunk_def)
  have "8 dvd length (drop n (bytes_bits input))" using n(2) by (simp add: dvd_diff_nat)
  then obtain payload where payload: "drop n (bytes_bits input) = bytes_bits payload" by (elim bytes_bits_surj)
  let ?p = "p\<lparr>packet_payload := payload\<rparr>"
  have all: "take n (bytes_bits input) @ bytes_bits payload = bytes_bits input" by (simp flip: payload)
  have raw: "RawSerializePacket env ?p = Inr input"
    using ToByteString_rest [of "append_bits (bytes_bits input) empty_bit_string" input]
    by (simp add: RawSerializePacket_def RawSerializeFrom_def n(6) AppendBytes_append_bits rest(2) all)
      (simp add: append_bits_def bs_rest_def empty_bit_string_def)
  from n(4,5) assms(2) have "safe_to_validate ?p" by (auto simp: safe_to_validate_def split: list.splits)
  with raw show ?thesis using that ToByteString_rest [of s payload] rest(1) payload by simp
qed

lemma RawSerializePacket_reasons [simp]: "RawSerializePacket env (p\<lparr>reasons_invalid := r\<rparr>) = RawSerializePacket env p"
  by (simp add: RawSerializePacket_def RawSerializeFrom_def)

section \<open>The checksums of headers\<close>

lemma bitset_of_zero [simp]: "HexStringToBitset 16 ''0x0000'' = Inr 0"
  by code_simp

lemma hex_of_16_bits:
  assumes "v < 65536"
  obtains t where "HexStringToByteString (BitsetToHexString 16 v) = Inr t" "bytes_bits t = field_bits (16, v)"
proof -
  have "8 dvd length (field_bits (16, v))" by simp
  then obtain t where t: "field_bits (16, v) = bytes_bits t" by (elim bytes_bits_surj)
  then have l: "16 = 8 * length t" by (metis length_field_bits bytes_bits_simps(3))
  have "BitsetToHexString 16 v = ByteStringToHexString t"
    using BitsetToHexString_bytes [of t] assms bits_value_field [of v 16] by (simp flip: t l)
  then show ?thesis using that t by (simp add: HexStringToByteString_ByteStringToHexString)
qed

text \<open>
  A checksum of 16 bits between other fields: the steps before and after it write the same bits
  whatever the checksum is.
\<close>

lemma checksum_slot:
  assumes "appends f n" "appends g m" "bind_or (bind_or (f out) (SerializeBits 16 ''0x0000'')) g = Inr s"
  shows "\<exists>pre post. length pre = n \<and> s = append_bits (pre @ field_bits (16, 0) @ post) out \<and>
    (\<forall>v < 65536. bind_or (bind_or (f out) (SerializeBits 16 (BitsetToHexString 16 v))) g =
       Inr (append_bits (pre @ field_bits (16, v) @ post) out))"
proof -
  from assms(3) obtain mid where mid: "f out = Inr mid" "bind_or (SerializeBits 16 ''0x0000'' mid) g = Inr s" by (cases "f out") auto
  from appendsD [OF assms(1) mid(1)] obtain pre where pre: "length pre = n" "mid = append_bits pre out" by blast
  have "g (append_bits (pre @ field_bits (16, 0)) out) = Inr s"
    using mid(2) by (simp add: SerializeBits_def AppendBits_append_bits pre(2))
  from appendsD [OF assms(2) this] obtain post where post: "writes g post" "s = append_bits (pre @ field_bits (16, 0) @ post) out" by auto
  have "bind_or (bind_or (f out) (SerializeBits 16 (BitsetToHexString 16 v))) g =
       Inr (append_bits (pre @ field_bits (16, v) @ post) out)" if "v < 65536" for v
    using that post(1) by (simp add: mid(1) pre(2) SerializeBits_def AppendBits_append_bits HexStringToBitset_BitsetToHexString writes_def)
  with pre(1) post(2) show ?thesis by blast
qed

lemma UdpChecksum_eq: "0 \<le> c \<Longrightarrow> c < 65536 \<Longrightarrow> ValidateAndConvertToHexString 16 (nat c) = BitsetToHexString 16 (nat c)"
  using take_bit_nat_eq_self [of "nat c" 16] by (simp add: ValidateAndConvertToHexString_def)

lemma checksum_range:
  assumes "OnesComplementChecksum s = Inr c" "bs_start_index s = 0"
  shows "0 \<le> c" "c < 65536"
  using assms(1) OnesComplementChecksum_returns [OF assms(2)] by auto

text \<open>The checksum of the data with a checksum in the slot that was computed with zero there.\<close>

lemma checksum_in_slot:
  assumes "appends f n" "appends g m" "bind_or (bind_or (f out) (SerializeBits 16 ''0x0000'')) g = Inr s"
    "OnesComplementChecksum s = Inr c" "bs_start_index out = 0" "16 dvd length (bs_bits out) + n"
    "length (bs_bits s) \<le> 8 * 65536"
  shows "\<exists>t. bind_or (bind_or (f out) (SerializeBits 16 (ValidateAndConvertToHexString 16 (nat c)))) g = Inr t \<and>
    OnesComplementChecksum t = Inr 0"
proof -
  obtain pre post where slot: "length pre = n" "s = append_bits (pre @ field_bits (16, 0) @ post) out"
    "\<And>v. v < 65536 \<Longrightarrow> bind_or (bind_or (f out) (SerializeBits 16 (BitsetToHexString 16 v))) g =
       Inr (append_bits (pre @ field_bits (16, v) @ post) out)" using checksum_slot [OF assms(1-3)] by blast
  have s: "bs_start_index s = 0" "bs_bits s = (bs_bits out @ pre) @ field_bits (16, 0) @ post"
    using slot(2) assms(5) by (simp_all add: append_bits_def)
  note c = checksum_range [OF assms(4) s(1)]
  let ?t = "append_bits (pre @ field_bits (16, nat c) @ post) out"
  have "OnesComplementChecksum ?t = Inr 0"
    by (rule checksum_verifies [OF s(1) _ s(2) _ assms(4) _ assms(7)])
      (use assms(5,6) slot(1) in \<open>simp_all add: append_bits_def\<close>)
  moreover have "nat c < 65536" using c by simp
  ultimately show ?thesis using slot(3) [of "nat c"] unfolding UdpChecksum_eq [OF c] by blast
qed

lemma in_order_three: "in_order (fs @ f # gs) out = bind_or (bind_or (in_order fs out) f) (in_order gs)"
  by (cases "in_order fs out") (simp_all add: in_order_simps)

lemma Ipv4_steps:
  "\<exists>fs gs. appends (in_order fs) 80 \<and> appends (in_order gs) (header_bits (Ipv4Header h) - 96) \<and>
    (\<forall>c. SerializeIpv4Header (h\<lparr>ipv4_checksum := c\<rparr>) = in_order (fs @ SerializeBits 16 c # gs))"
proof (intro exI conjI allI)
  let ?fs = "[SerializeBits kIpVersionBitwidth (ipv4_version h), SerializeBits kIpIhlBitwidth (ipv4_ihl h),
    SerializeBits kIpDscpBitwidth (ipv4_dscp h), SerializeBits kIpEcnBitwidth (ipv4_ecn h),
    SerializeBits kIpTotalLengthBitwidth (ipv4_total_length h), SerializeBits kIpIdentificationBitwidth (ipv4_identification h),
    SerializeBits kIpFlagsBitwidth (ipv4_flags h), SerializeBits kIpFragmentOffsetBitwidth (ipv4_fragment_offset h),
    SerializeBits kIpTtlBitwidth (ipv4_ttl h), SerializeBits kIpProtocolBitwidth (ipv4_protocol h)]"
  let ?gs = "[SerializeIpv4Address (ipv4_source h), SerializeIpv4Address (ipv4_destination h), serialize_options (ipv4_uninterpreted_options h)]"
  show "appends (in_order ?fs) 80"
    by (rule appends_eq, (rule appends_in_order_Cons appends_in_order_Nil appends_field)+, simp add: widths)
  show "appends (in_order ?gs) (header_bits (Ipv4Header h) - 96)"
    by (rule appends_eq, (rule appends_in_order_Cons appends_in_order_Nil appends_field appends_options)+, simp)
  show "SerializeIpv4Header (h\<lparr>ipv4_checksum := c\<rparr>) = in_order (?fs @ SerializeBits 16 c # ?gs)" for c
    by (simp add: SerializeIpv4Header_def kIpChecksumBitwidth_def)
qed

lemma Ipv4_checksum_correct:
  assumes "Ipv4HeaderChecksum h = Inr c" "header_bits (Ipv4Header h) \<le> 8 * 65536"
  shows "\<exists>data. SerializeIpv4Header (h\<lparr>ipv4_checksum := IpChecksum (nat c)\<rparr>) empty_bit_string = Inr data \<and>
    OnesComplementChecksum data = Inr 0"
proof -
  obtain fs gs where steps: "appends (in_order fs) 80" "appends (in_order gs) (header_bits (Ipv4Header h) - 96)"
    "\<And>c. SerializeIpv4Header (h\<lparr>ipv4_checksum := c\<rparr>) = in_order (fs @ SerializeBits 16 c # gs)" using Ipv4_steps [of h] by blast
  from assms(1) obtain s where s: "SerializeIpv4Header (h\<lparr>ipv4_checksum := ''0x0000''\<rparr>) empty_bit_string = Inr s"
    "OnesComplementChecksum s = Inr c" by (auto simp: Ipv4HeaderChecksum_def)
  have "length (bs_bits s) = header_bits (Ipv4Header h)"
    using appends_empty [OF SerializeHeader_appends, of undefined "Ipv4Header (h\<lparr>ipv4_checksum := ''0x0000''\<rparr>)" s] s(1) by simp
  with checksum_in_slot [OF steps(1,2), of empty_bit_string s c] s assms(2) show ?thesis
    by (simp add: steps(3) in_order_three empty_bit_string_def IpChecksum_def kIpChecksumBitwidth_def)
qed

section \<open>The checksums of UDP and ICMP\<close>

lemma RawSerializeFrom_Cons:
  "i < length (packet_headers p) \<Longrightarrow> RawSerializeFrom env p (int i) out =
     bind_or (SerializeHeader env (packet_headers p ! i) out) (RawSerializeFrom env p (int (Suc i)))"
  by (cases "SerializeHeader env (packet_headers p ! i) out") (simp_all add: RawSerializeFrom_def Cons_nth_drop_Suc [symmetric] nat_add_distrib)

lemma RawSerializeFrom_with_header:
  "RawSerializeFrom env (with_header p (int i) h) (int (Suc i)) = RawSerializeFrom env p (int (Suc i))"
  by (simp add: fun_eq_iff RawSerializeFrom_def with_header_def drop_update_cancel nat_add_distrib)

lemma in_order_snoc: "in_order (fs @ [f]) out = bind_or (in_order fs out) f"
proof -
  have "bind_or m Inr = m" for m :: "bit_string status_or" by (cases m) simp_all
  then show ?thesis by (simp add: in_order_three in_order_simps(1))
qed

lemma udp_steps:
  assumes "i < length (packet_headers p)"
  shows "RawSerializeFrom env (with_header p (int i) (UdpHeader (u\<lparr>udp_checksum := c\<rparr>))) (int i) out =
    bind_or (bind_or (in_order [SerializeBits kUdpPortBitwidth (udp_source_port u), SerializeBits kUdpPortBitwidth (udp_destination_port u),
      SerializeBits kUdpLengthBitwidth (udp_length u)] out) (SerializeBits 16 c)) (RawSerializeFrom env p (int (Suc i)))"
  using assms by (simp add: RawSerializeFrom_Cons RawSerializeFrom_with_header SerializeUdpHeader_def kUdpChecksumBitwidth_def
      flip: in_order_snoc del: of_nat_Suc)

lemma udp_pseudo_header_words:
  assumes "udp_pseudo_header env ip udp = Inr (Some data)"
  shows "bs_start_index data = 0 \<and> (length (bs_bits data) = 96 \<or> length (bs_bits data) = 320)"
proof -
  let ?v4 = "\<lambda>h. [SerializeIpv4Address (ipv4_source h), SerializeIpv4Address (ipv4_destination h), \<lambda>data. Inr (AppendBits 8 0 data),
    SerializeBits kIpProtocolBitwidth (ipv4_protocol h), SerializeBits kUdpLengthBitwidth (udp_length udp)]"
  let ?v6 = "\<lambda>h. [SerializeIpv6Address env (ipv6_source h), SerializeIpv6Address env (ipv6_destination h),
    \<lambda>data. Inr (AppendBits 16 0 data), SerializeBits kUdpLengthBitwidth (udp_length udp), \<lambda>data. Inr (AppendBits 24 0 data),
    SerializeBits kIpNextHeaderBitwidth ''0x11'']"
  have v4: "appends (in_order (?v4 h)) 96" for h
    by (rule appends_eq, (rule appends_in_order_Cons appends_in_order_Nil appends_field appends_AppendBits)+, simp add: widths)
  have v6: "appends (in_order (?v6 h)) 320" for h
    by (rule appends_eq, (rule appends_in_order_Cons appends_in_order_Nil appends_field appends_AppendBits)+, simp add: widths)
  from assms show ?thesis
    by (auto simp: udp_pseudo_header_def split: header.splits dest!: appends_empty [OF v4] appends_empty [OF v6])
qed

lemma Udp_checksum_correct:
  assumes "UdpHeaderChecksum env p (int i) = Some (Inr (Some c))" "packet_bits p 0 \<le> 8 * 65496"
  shows "\<exists>ip udp data. header_at p (FindPrecedingIpHeader p (int i)) = Some ip \<and> packet_headers p ! i = UdpHeader udp \<and>
    udp_pseudo_header env ip udp = Inr (Some data) \<and>
    checksum_from env (with_header p (int i) (UdpHeader (udp\<lparr>udp_checksum := UdpChecksum (nat c)\<rparr>))) (int i) data = Inr 0"
proof -
  from assms(1) have i: "i < length (packet_headers p)" by (auto simp: UdpHeaderChecksum_def split: if_splits)
  with assms(1) obtain ip udp data where h: "header_at p (FindPrecedingIpHeader p (int i)) = Some ip" "packet_headers p ! i = UdpHeader udp"
    "udp_pseudo_header env ip udp = Inr (Some data)"
    "checksum_from env (with_header p (int i) (UdpHeader (udp\<lparr>udp_checksum := ''0x0000''\<rparr>))) (int i) data = Inr c"
    by (auto simp: UdpHeaderChecksum_def split: if_splits option.splits header.splits sum.splits)
  let ?p = "\<lambda>c. with_header p (int i) (UdpHeader (udp\<lparr>udp_checksum := c\<rparr>))"
  from h(4) obtain s where s: "RawSerializeFrom env (?p ''0x0000'') (int i) data = Inr s" "OnesComplementChecksum s = Inr c"
    by (auto simp: checksum_from_def)
  note words = udp_pseudo_header_words [OF h(3)]
  have "packet_bits (?p ''0x0000'') 0 \<le> packet_bits p 0 + 0" by (rule packet_bits_with_header) (use i h(2) in simp_all)
  with assms(2) words packet_bits_le [of "?p ''0x0000''" i] appendsD [OF RawSerializeFrom_appends s(1)]
  have small: "length (bs_bits s) \<le> 8 * 65536" by (auto simp: append_bits_def)
  have ports: "appends (in_order [SerializeBits kUdpPortBitwidth (udp_source_port udp), SerializeBits kUdpPortBitwidth (udp_destination_port udp),
      SerializeBits kUdpLengthBitwidth (udp_length udp)]) 48"
    by (rule appends_eq, (rule appends_in_order_Cons appends_in_order_Nil appends_field)+, simp add: widths)
  have "16 dvd length (bs_bits data) + 48" using words by auto
  with checksum_in_slot [OF ports RawSerializeFrom_appends s(1) [unfolded udp_steps [OF i]] s(2) _ _ small] words
  have "checksum_from env (?p (UdpChecksum (nat c))) (int i) data = Inr 0"
    by (auto simp: checksum_from_def udp_steps [OF i] UdpChecksum_def kUdpChecksumBitwidth_def simp del: of_nat_Suc)
  with h(1-3) show ?thesis by blast
qed

section \<open>Valid packets can be serialized\<close>

definition succeeds :: "serializer \<Rightarrow> bool" where
  "succeeds f \<longleftrightarrow> (\<forall>out. \<exists>out'. f out = Inr out')"

lemma succeeds_in_order [simp]: "succeeds (in_order [])" "succeeds f \<Longrightarrow> succeeds (in_order fs) \<Longrightarrow> succeeds (in_order (f # fs))"
  by (auto simp: succeeds_def in_order_simps) metis

lemma succeeds_Inr [simp]: "succeeds (\<lambda>out. Inr (g out))" "succeeds Inr"
  by (simp_all add: succeeds_def)

lemma reasons_Nil [simp]:
  "HexStringInvalidReasons n i f x = [] \<longleftrightarrow> x \<noteq> [] \<and> succeeds (SerializeBits n x)"
  "MacAddressInvalidReasons i f x = [] \<longleftrightarrow> x \<noteq> [] \<and> succeeds (SerializeMacAddress x)"
  "Ipv4AddressInvalidReasons i f x = [] \<longleftrightarrow> x \<noteq> [] \<and> succeeds (SerializeIpv4Address x)"
  "Ipv6AddressInvalidReasons env i f x = [] \<longleftrightarrow> x \<noteq> [] \<and> succeeds (SerializeIpv6Address env x)"
  by (auto simp: succeeds_def SerializeBits_def SerializeMacAddress_def SerializeIpv4Address_def SerializeIpv6Address_def
      HexStringInvalidReasons_def MacAddressInvalidReasons_def Ipv4AddressInvalidReasons_def Ipv6AddressInvalidReasons_def
      split: sum.splits)

lemma succeeds_AppendHexString: "succeeds (AppendHexString x) \<longleftrightarrow> (\<exists>bytes. HexStringToByteString x = Inr bytes)"
  by (auto simp: succeeds_def AppendHexString_def)

lemma succeeds_options:
  "Ipv4UninterpretedOptionsInvalidReasons i x = [] \<Longrightarrow> succeeds (serialize_options x)"
  "snd (TcpUninterpretedOptionsInvalidReasons i y) = [] \<Longrightarrow> succeeds (serialize_options y)"
  by (auto simp: Ipv4UninterpretedOptionsInvalidReasons_def TcpUninterpretedOptionsInvalidReasons_def succeeds_def
      serialize_options_def AppendHexString_def split: sum.splits if_splits)

text \<open>Two fields are never checked: the protocol type of GRE and a reserved bit of PSP.\<close>

fun unchecked_fields_ok :: "header \<Rightarrow> bool" where
  "unchecked_fields_ok (GreHeader h) \<longleftrightarrow> HexStringInvalidReasons kGreProtocolTypeBitwidth 0 ''protocol_type'' (gre_protocol_type h) = []"
| "unchecked_fields_ok (PspHeader h) \<longleftrightarrow> HexStringInvalidReasons kPspReserved1Bitwidth 0 ''reserved1'' (psp_reserved1 h) = []"
| "unchecked_fields_ok _ \<longleftrightarrow> True"

lemma unless_Nil [simp]: "unless b xs = [] \<longleftrightarrow> b \<or> xs = []"
  by (simp add: unless_def)

definition size_known :: "header \<Rightarrow> bool" where
  "size_known h \<longleftrightarrow> (\<forall>acc. 0 \<le> acc \<longrightarrow> acc + int (header_bits h) < 2 ^ 31 \<longrightarrow> header_size h acc = Inr (acc + int (header_bits h)))"

lemma options_size_hex: "succeeds (serialize_options x) \<Longrightarrow> options_size x = Inr (if x = [] then 0 else hex_bits x)"
  by (auto simp: options_size_def serialize_options_def succeeds_def AppendHexString_def hex_bits_def)

lemma size_known_options:
  "succeeds (serialize_options (ipv4_uninterpreted_options h)) \<Longrightarrow> size_known (Ipv4Header h)"
  "succeeds (serialize_options (tcp_uninterpreted_options t)) \<Longrightarrow> size_known (TcpHeader t)"
  by (auto simp: size_known_def options_size_hex widths to_int32_id)

lemma gre_valid:
  assumes "GreHeaderInvalidReasons env g p i = Some []" "unchecked_fields_ok (GreHeader g)"
  shows "succeeds (SerializeGreHeader g) \<and> size_known (GreHeader g)"
proof (cases "gre_checksum_present g = ''0x1''")
  case True
  with assms have r: "GreOptionalFieldsInvalidReasons i (gre_checksum g) (gre_reserved1 g) = []" "gre_reserved1 g = ''0x0000''"
    by (auto simp: GreHeaderInvalidReasons_def Let_def must_be_def split: if_splits)
  then obtain c where "HexStringToByteString (gre_checksum g) = Inr c" "length c = 2"
    by (auto simp: GreOptionalFieldsInvalidReasons_def gre_optional_field_def split: sum.splits if_splits)
  moreover have "HexStringToByteString ''0x0000'' = Inr [CHR 0x00, CHR 0x00]" by code_simp
  ultimately show ?thesis using assms r True
    by (auto simp: GreHeaderInvalidReasons_def Let_def SerializeGreHeader_def size_known_def widths hex_bits_def
        AppendHexString_def intro!: succeeds_in_order split: if_splits)
next
  case False
  with assms show ?thesis
    by (auto simp: GreHeaderInvalidReasons_def Let_def SerializeGreHeader_def size_known_def widths intro!: succeeds_in_order split: if_splits)
qed

lemma size_known_fixed:
  "size_known (EthernetHeader h1)" "size_known (VlanHeader h2)" "size_known (CsigHeader h3)" "size_known (ArpHeader h4)"
  "size_known (Ipv6Header h5)" "size_known (HopByHopOptionsHeader h6)" "size_known (IcmpHeader h7)" "size_known (UdpHeader h8)"
  "size_known (SaiP4BMv2PacketInHeader h9)" "size_known (IpfixHeader h10)" "size_known (PsampHeader h11)"
  "size_known (PtpHeader h12)" "size_known (PspHeader h13)"
  by (simp_all add: size_known_def widths)

lemma header_valid:
  assumes "header_invalid_reasons env p i h = Some []" "unchecked_fields_ok h"
  shows "succeeds (SerializeHeader env h) \<and> size_known h"
proof (cases h)
  case (GreHeader g)
  with assms gre_valid [of env g p i] show ?thesis by (simp add: SerializeHeader_fun)
next
  case (EthernetHeader e)
  with assms show ?thesis
    by (auto simp: EthernetHeaderInvalidReasons_def SerializeHeader_fun SerializeEthernetHeader_def size_known_fixed Let_def split: sum.splits if_splits)
next
  case (UdpHeader u)
  with assms show ?thesis
    by (auto simp: UdpHeaderInvalidReasons_def SerializeHeader_fun SerializeUdpHeader_def size_known_fixed Let_def split: if_splits)
next
  case (IcmpHeader c)
  with assms show ?thesis
    by (auto simp: IcmpHeaderInvalidReasons_def SerializeHeader_fun SerializeIcmpHeader_def size_known_fixed Let_def split: if_splits option.splits)
next
  case (SaiP4BMv2PacketInHeader b)
  with assms show ?thesis
    by (auto simp: SaiP4BMv2PacketInHeaderInvalidReasons_def SerializeHeader_fun SerializeSaiP4BMv2PacketInHeader_def size_known_fixed Let_def
        split: sum.splits if_splits)
next
  case (VlanHeader x)
  with assms show ?thesis
    by (simp add: VlanHeaderInvalidReasons_def SerializeHeader_fun SerializeVlanHeader_def size_known_fixed Let_def)
next
  case (CsigHeader x)
  with assms show ?thesis
    by (simp add: CsigHeaderInvalidReasons_def SerializeHeader_fun SerializeCsigHeader_def size_known_fixed Let_def)
next
  case (ArpHeader x)
  with assms show ?thesis
    by (simp add: ArpHeaderInvalidReasons_def SerializeHeader_fun SerializeArpHeader_def size_known_fixed Let_def)
next
  case (Ipv4Header x)
  with assms have r: "Ipv4HeaderInvalidReasons x p i = []" by simp
  then have "Ipv4UninterpretedOptionsInvalidReasons i (ipv4_uninterpreted_options x) = []"
    by (simp only: Ipv4HeaderInvalidReasons_def Let_def append_is_Nil_conv)
  then have "succeeds (serialize_options (ipv4_uninterpreted_options x))" by (rule succeeds_options)
  moreover from r have "succeeds (SerializeBits kIpVersionBitwidth (ipv4_version x))" "succeeds (SerializeBits kIpIhlBitwidth (ipv4_ihl x))"
    "succeeds (SerializeBits kIpDscpBitwidth (ipv4_dscp x))" "succeeds (SerializeBits kIpEcnBitwidth (ipv4_ecn x))"
    "succeeds (SerializeBits kIpTotalLengthBitwidth (ipv4_total_length x))"
    "succeeds (SerializeBits kIpIdentificationBitwidth (ipv4_identification x))" "succeeds (SerializeBits kIpFlagsBitwidth (ipv4_flags x))"
    "succeeds (SerializeBits kIpFragmentOffsetBitwidth (ipv4_fragment_offset x))" "succeeds (SerializeBits kIpTtlBitwidth (ipv4_ttl x))"
    "succeeds (SerializeBits kIpProtocolBitwidth (ipv4_protocol x))" "succeeds (SerializeBits kIpChecksumBitwidth (ipv4_checksum x))"
    "succeeds (SerializeIpv4Address (ipv4_source x))" "succeeds (SerializeIpv4Address (ipv4_destination x))"
    by (simp_all only: Ipv4HeaderInvalidReasons_def Let_def append_is_Nil_conv reasons_Nil)
  ultimately show ?thesis using Ipv4Header by (simp add: SerializeHeader_fun SerializeIpv4Header_def size_known_options)
next
  case (Ipv6Header x)
  with assms show ?thesis
    by (simp add: Ipv6HeaderInvalidReasons_def SerializeHeader_fun SerializeIpv6Header_def size_known_fixed Let_def)
next
  case (HopByHopOptionsHeader x)
  with assms show ?thesis
    by (simp add: HopByHopOptionsHeaderInvalidReasons_def SerializeHeader_fun SerializeHopByHopOptionsHeader_def size_known_fixed Let_def)
next
  case (TcpHeader x)
  with assms have "succeeds (serialize_options (tcp_uninterpreted_options x))"
    by (intro succeeds_options(2) [of i]) (simp add: TcpHeaderInvalidReasons_def Let_def)
  with TcpHeader assms show ?thesis
    by (simp add: TcpHeaderInvalidReasons_def SerializeHeader_fun SerializeTcpHeader_def size_known_options widths Let_def)
next
  case (IpfixHeader x)
  with assms show ?thesis
    by (simp add: IpfixHeaderInvalidReasons_def SerializeHeader_fun SerializeIpfixHeader_def size_known_fixed Let_def)
next
  case (PsampHeader x)
  with assms show ?thesis
    by (simp add: PsampHeaderInvalidReasons_def SerializeHeader_fun SerializePsampHeader_def size_known_fixed Let_def)
next
  case (PtpHeader x)
  with assms show ?thesis
    by (simp add: PtpHeaderInvalidReasons_def SerializeHeader_fun SerializePtpHeader_def size_known_fixed Let_def)
next
  case (PspHeader x)
  with assms show ?thesis
    by (simp add: PspHeaderInvalidReasons_def SerializeHeader_fun SerializePspHeader_def size_known_fixed Let_def)
qed (use assms in simp_all)

lemma headers_valid:
  "headers_invalid_reasons env p i e hs = Some ([], e') \<Longrightarrow> list_all unchecked_fields_ok hs \<Longrightarrow>
     list_all (\<lambda>h. succeeds (SerializeHeader env h) \<and> size_known h) hs"
proof (induction hs arbitrary: i e)
  case (Cons h hs)
  from Cons.prems obtain e1 where "header_invalid_reasons env p i h = Some []" "headers_invalid_reasons env p (i + 1) e1 hs = Some ([], e')"
    by (auto simp: Option.bind_eq_Some_conv split: if_splits)
  with header_valid [of env p i h] Cons show ?case by auto
qed simp

lemma succeeds_fold: "list_all (\<lambda>x. succeeds (f x)) xs \<Longrightarrow> succeeds (fold_or f xs)"
proof (induction xs)
  case (Cons x xs)
  then show ?case by (auto simp: succeeds_def) metis
qed (simp add: succeeds_def)

lemma fold_header_size:
  "list_all size_known hs \<Longrightarrow> 0 \<le> acc \<Longrightarrow> acc + int (sum_list (map header_bits hs)) < 2 ^ 31 \<Longrightarrow>
     fold_or header_size hs acc = Inr (acc + int (sum_list (map header_bits hs)))"
proof (induction hs arbitrary: acc)
  case (Cons h hs)
  then have "header_size h acc = Inr (acc + int (header_bits h))" by (auto simp: size_known_def)
  with Cons.IH [of "acc + int (header_bits h)"] Cons.prems show ?case by auto
qed simp

lemma header_bits_bytes: "8 dvd header_bits h"
  by (cases h) (auto simp: hex_bits_def split: sum.splits)

lemma packet_bits_bytes: "8 dvd packet_bits p i"
proof -
  have "8 dvd sum_list (map header_bits hs)" for hs by (induction hs) (auto intro: dvd_add header_bits_bytes)
  then show ?thesis by (auto simp: packet_bits_def intro: dvd_add)
qed

lemma valid_packet:
  assumes "ValidatePacket env p = Some OK" "list_all unchecked_fields_ok (packet_headers p)"
  shows "\<exists>bytes. RawSerializePacket env p = Inr bytes \<and>
    (8 * length bytes < 2 ^ 31 \<longrightarrow> PacketSizeInBytes p 0 = Inr (int (length bytes)))"
proof -
  from assms(1) obtain e e' where "headers_invalid_reasons env p 0 e (packet_headers p) = Some ([], e')"
    by (auto simp: ValidatePacket_def PacketInvalidReasons_def Let_def split: if_splits)
  note valid = headers_valid [OF this assms(2)]
  then have "succeeds (fold_or (SerializeHeader env) (packet_headers p))"
    by (intro succeeds_fold) (simp add: list_all_iff)
  then obtain mid where "fold_or (SerializeHeader env) (packet_headers p) empty_bit_string = Inr mid" by (auto simp: succeeds_def)
  then obtain out where out: "RawSerializeFrom env p (int 0) empty_bit_string = Inr out" by (simp add: RawSerializeFrom_def)
  note bits = appends_empty [OF RawSerializeFrom_appends out]
  then obtain bytes where bytes: "bs_bits out = bytes_bits bytes" "packet_bits p 0 = 8 * length bytes"
    using packet_bits_bytes [of p 0] by (metis bytes_bits_surj)
  with bits have "ToByteString out = Inr bytes" by (intro ToByteString_rest) (simp add: bs_rest_def)
  with out have raw: "RawSerializePacket env p = Inr bytes" by (simp add: RawSerializePacket_def)
  have "PacketSizeInBytes p 0 = Inr (int (length bytes))" if "8 * length bytes < 2 ^ 31"
  proof -
    have s: "int (sum_list (map header_bits (packet_headers p))) + 8 * int (length (packet_payload p)) = 8 * int (length bytes)"
      using bytes(2) by (simp add: packet_bits_def)
    have "fold_or header_size (packet_headers p) 0 = Inr (0 + int (sum_list (map header_bits (packet_headers p))))"
      by (rule fold_header_size) (use valid s that in \<open>auto simp: list_all_iff\<close>)
    moreover have "to_int32 (8 * int (length bytes)) = 8 * int (length bytes)" by (rule to_int32_id) (use that in auto)
    ultimately show ?thesis by (simp add: PacketSizeInBytes_def PacketSizeInBits_def s)
  qed
  with raw show ?thesis by blast
qed

section \<open>Examples\<close>

definition example_udp :: packet where
  "example_udp = \<lparr>packet_headers =
     [Ipv4Header \<lparr>ipv4_version = ''0x4'', ipv4_ihl = ''0x5'', ipv4_dscp = ''0x00'', ipv4_ecn = ''0x0'', ipv4_total_length = ''0x001e'',
        ipv4_identification = ''0x0000'', ipv4_flags = ''0x0'', ipv4_fragment_offset = ''0x0000'', ipv4_ttl = ''0x40'',
        ipv4_protocol = ''0x11'', ipv4_checksum = ''0x66cd'', ipv4_source = ''10.0.0.1'', ipv4_destination = ''10.0.0.2'',
        ipv4_uninterpreted_options = []\<rparr>,
      UdpHeader \<lparr>udp_source_port = ''0x1234'', udp_destination_port = ''0x5678'', udp_length = ''0x000a'', udp_checksum = ''0x0000''\<rparr>],
     packet_payload = ''hi'', reason_not_fully_parsed = [], reasons_invalid = []\<rparr>"

definition example_tcp :: packet where
  "example_tcp = \<lparr>packet_headers =
     [TcpHeader \<lparr>tcp_source_port = ''0x0050'', tcp_destination_port = ''0x1234'', tcp_sequence_number = ''0x00000001'',
        tcp_acknowledgement_number = ''0x00000002'', tcp_data_offset = ''0x6'', tcp_rest_of_header = ''0x000000000000000'',
        tcp_uninterpreted_options = ''0x01020304''\<rparr>],
     packet_payload = ''hello'', reason_not_fully_parsed = [], reasons_invalid = []\<rparr>"

definition example_gre :: packet where
  "example_gre = \<lparr>packet_headers =
     [GreHeader \<lparr>gre_checksum_present = ''0x0'', gre_reserved0 = ''0x000'', gre_version = ''0x0'', gre_protocol_type = [],
        gre_checksum = [], gre_reserved1 = []\<rparr>],
     packet_payload = [], reason_not_fully_parsed = [], reasons_invalid = []\<rparr>"

lemma example_gre_valid: "ValidatePacket example_text_env example_gre = Some OK"
  by code_simp

lemma example_gre_not_serializable: "RawSerializePacket example_text_env example_gre = Inl INVALID_ARGUMENT"
  by code_simp

lemma example_tcp_valid: "ValidatePacket example_text_env example_tcp = Some OK"
  by code_simp

lemma example_fields:
  "HexStringToBitset 16 ''0x1234'' = Inr 0x1234" "HexStringToBitset 16 ''0x5678'' = Inr 0x5678"
  "HexStringToBitset 16 ''0x000a'' = Inr 10" "HexStringToBitset 8 ''0x11'' = Inr 0x11"
  "Ipv4_OfString ''10.0.0.1'' = Inr 0x0a000001" "Ipv4_OfString ''10.0.0.2'' = Inr 0x0a000002"
  by code_simp+

lemma example_udp_bits: "packet_bits example_udp 0 = 240"
  by (simp add: packet_bits_def example_udp_def)

lemma example_udp_checksum: "\<exists>c. UdpHeaderChecksum example_text_env example_udp (int 1) = Some (Inr (Some c))"
proof -
  have "\<exists>c. OnesComplementChecksum (append_bits b empty_bit_string) = Inr c" for b
    using OnesComplementChecksum_returns [of "append_bits b empty_bit_string"] by (auto simp: append_bits_def empty_bit_string_def)
  then show ?thesis
    by (simp add: UdpHeaderChecksum_def example_udp_def header_at_def FindPrecedingIpHeader_def udp_pseudo_header_def in_order_def
        SerializeIpv4Address_def SerializeBits_def example_fields checksum_from_def RawSerializeFrom_def with_header_def SerializeUdpHeader_def
        AppendBits_append_bits AppendBytes_append_bits widths)
qed

lemma example_gre_fields: "\<not> list_all unchecked_fields_ok (packet_headers example_gre)"
  by (simp add: example_gre_def)

section \<open>Properties\<close>

text \<open>
  C29. Parsing returns for every byte string, whichever header is expected first
  except the hop-by-hop options header of IPv6, and loses nothing: whether or not the packet is valid,
  serializing the parsed packet gives the very bytes that were parsed. A packet without reasons to be
  invalid passes \<open>ValidatePacket\<close>.
\<close>

theorem ParsePacket_lossless:
  assumes "inet_round_trip env" "first_header \<noteq> kHopByHopOptionsHeader"
  shows "\<exists>packet. ParsePacket env input first_header = Some packet \<and> RawSerializePacket env packet = Inr input \<and>
    (reasons_invalid packet = [] \<longrightarrow> ValidatePacket env packet = Some OK)"
proof -
  obtain p s where ps: "parse_headers env first_header (OfByteString_bits input) empty_packet = (p, s)" by fastforce
  obtain payload where payload: "ToByteString s = Inr payload" "safe_to_validate (p\<lparr>packet_payload := payload\<rparr>)"
    "RawSerializePacket env (p\<lparr>packet_payload := payload\<rparr>) = Inr input" by (rule parsed_packet [OF assms ps])
  let ?p = "p\<lparr>packet_payload := payload\<rparr>"
  from PacketInvalidReasons_returns [OF payload(2)] obtain reasons where reasons: "PacketInvalidReasons env ?p = Some reasons" by auto
  then have "ParsePacket env input first_header = Some (?p\<lparr>reasons_invalid := reasons_invalid p @ reasons\<rparr>)"
    by (simp add: ParsePacket_def ps payload(1))
  moreover have "PacketInvalidReasons env (?p\<lparr>reasons_invalid := []\<rparr>) = PacketInvalidReasons env ?p" if "reasons_invalid p = []"
    using that by (cases p) simp
  ultimately show ?thesis using reasons payload(3) by (auto simp: ValidatePacket_def)
qed

theorem ParsePacket_lossless_witness:
  "\<exists>packet. ParsePacket example_text_env (replicate 60 CHR 0x41) kEthernetHeader = Some packet \<and>
     RawSerializePacket example_text_env packet = Inr (replicate 60 CHR 0x41)"
  using ParsePacket_lossless [OF example_inet_round_trip, where input = "replicate 60 CHR 0x41" and first_header = kEthernetHeader] by auto

text \<open>
  C31. A packet that \<open>ValidatePacket\<close> accepts serializes, and \<open>PacketSizeInBytes\<close> is the number of bytes as
  long as the number of bits fits into an \<open>int\<close>. Two fields that validation does not look at have to be
  well-formed as well: the protocol type of GRE and the second reserved field of PSP. Without this
  the statement is wrong, as a GRE header without protocol type shows, which is valid but does not
  serialize.
\<close>

theorem valid_packet_serializes:
  assumes "ValidatePacket env packet = Some OK" "list_all unchecked_fields_ok (packet_headers packet)"
  shows "(\<exists>bytes. RawSerializePacket env packet = Inr bytes \<and>
      (8 * length bytes < 2 ^ 31 \<longrightarrow> PacketSizeInBytes packet 0 = Inr (int (length bytes)))) \<and>
    ValidatePacket example_text_env example_gre = Some OK \<and>
    RawSerializePacket example_text_env example_gre = Inl INVALID_ARGUMENT"
  using valid_packet [OF assms] example_gre_valid example_gre_not_serializable by blast

theorem valid_packet_serializes_witness: "\<exists>bytes. RawSerializePacket example_text_env example_tcp = Inr bytes"
proof -
  have "list_all unchecked_fields_ok (packet_headers example_tcp)" by (simp add: example_tcp_def)
  from valid_packet_serializes [OF example_tcp_valid this] show ?thesis by blast
qed

text \<open>
  C30. The UDP checksum verifies: with the computed checksum in its field, the checksum over the pseudo
  header of the preceding IP header, the UDP header and everything after it is zero, which is the test
  of a receiver. (For packets of at most 65496 bytes, for which the sum does not overflow.)
\<close>

theorem UdpHeaderChecksum_verifies:
  assumes "UdpHeaderChecksum env packet (int index) = Some (Inr (Some checksum))" "packet_bits packet 0 \<le> 8 * 65496"
  shows "\<exists>ip udp data. header_at packet (FindPrecedingIpHeader packet (int index)) = Some ip \<and>
    packet_headers packet ! index = UdpHeader udp \<and> udp_pseudo_header env ip udp = Inr (Some data) \<and>
    checksum_from env (with_header packet (int index) (UdpHeader (udp\<lparr>udp_checksum := UdpChecksum (nat checksum)\<rparr>))) (int index) data =
      Inr 0"
  by (rule Udp_checksum_correct [OF assms])

theorem UdpHeaderChecksum_verifies_witness:
  "\<exists>checksum ip udp data. udp_pseudo_header example_text_env ip udp = Inr (Some data) \<and>
     checksum_from example_text_env (with_header example_udp 1 (UdpHeader (udp\<lparr>udp_checksum := UdpChecksum (nat checksum)\<rparr>))) 1 data =
       Inr 0"
proof -
  from example_udp_checksum obtain c where c: "UdpHeaderChecksum example_text_env example_udp (int 1) = Some (Inr (Some c))" by blast
  have "packet_bits example_udp 0 \<le> 8 * 65496" by (simp add: example_udp_bits)
  from UdpHeaderChecksum_verifies [OF c this] show ?thesis by auto
qed

end
