(* ===== verification/Spec2Isabelle.thy ===== *)
theory Spec2Isabelle
  imports P4rt_Read Packet_Io Sequencing P4info_Reconcile State_Verification Packet_Parsing
begin

text \<open>
  A verification library for the P4Runtime application of SONiC (PINS).

  \<^bold>\<open>The program.\<close> \<open>src/p4rt_app\<close> is the P4Runtime server of a SONiC switch. Controllers open gRPC
  streams and compete for being the primary of their role
  (\<open>p4runtime/sdn_controller_manager.cc\<close>). The primary sends batches of table updates; \<open>Write\<close>
  of \<open>p4runtime/p4runtime_impl.cc\<close> translates each update to PDPI's intermediate
  representation (\<open>src/p4_infra/p4_pdpi\<close>), checks it against the cache of installed entities and
  against the capacity of the action profiles (\<open>p4runtime/resource_utilization.cc\<close>), turns it
  into rows of the SONiC application database (\<open>sonic/app_db_manager.cc\<close>,
  \<open>vrf_entry_translation.cc\<close>, \<open>vlan_entry_translation.cc\<close>), waits for OrchAgent's answers and
  rolls back what failed (\<open>sonic/response_handler.cc\<close>), and reports one status per update.
  Addresses and values travel in the encodings of \<open>src/p4_infra/string_encodings\<close> and
  \<open>src/p4_infra/netaddr\<close>.

  \<^bold>\<open>The theories.\<close>

  \<^item> \<open>Prelude\<close>: status codes, \<open>absl::StatusOr\<close> with its early returns, narrowing integer
    conversions, and two interfaces: \<open>invariant_machine\<close> (a step relation with an inductive
    invariant) and \<open>codec\<close> (an encoding with a decoding inverse).
  \<^item> \<open>Sdn_Controller\<close>: \<open>SdnConnection\<close> and \<open>SdnControllerManager\<close> with all their operations.
    Connection objects live in a store because stream handlers and the manager share them;
    messages written to streams are recorded. Calls are atomic (the code holds a mutex in
    each), so runs are paths of a step relation, interpreted as an \<open>invariant_machine\<close>. Shown:
    a role never has two primaries, only the highest election ID writes, past election IDs
    never decrease, who is notified of which change, and when a request is refused.
  \<^item> \<open>Pdpi_Types\<close>: PI and IR messages, \<open>EntityKey\<close> and its ordering
    (\<open>p4_pdpi/entity_keys.cc\<close>). Shown: a strict total order compatible with equality, and that
    keys do not depend on the order of the match fields.
  \<^item> \<open>Resource_Utilization\<close>: usage of action profile resources and the admission check. Shown:
    an admitted update fits, per-group limits hold, and the 64-to-32-bit conversion that lets a
    heavy group through.
  \<^item> \<open>App_Db_Types\<close>, \<open>Ordered_Map\<close>: \<open>AppDbUpdate\<close> with its \<open>operator==\<close>, and \<open>absl::btree_map\<close>
    as a sorted association list.
  \<^item> \<open>Response_Handler\<close>: collecting and matching OrchAgent's responses and restoring the
    database. What it needs of the database adapters is the locale \<open>sonic_table\<close>.
  \<^item> \<open>Sonic_Db\<close>: the in-memory database of \<open>sonic/adapters/fake_*.cc\<close>, the interpretation of
    \<open>sonic_table\<close>.
  \<^item> \<open>Vrf_Vlan\<close>, \<open>App_Db_Manager\<close>: the translation and execution of VRF, VLAN, VLAN member and
    P4RT updates. Shown: each update is applied entirely or not at all, entries survive the
    round trip through the database, and a batch stops at its first failure.
  \<^item> \<open>Ir_Values\<close>, \<open>Pdpi_Translation\<close>, \<open>Annotations\<close>: PDPI's values and formats
    (\<open>p4_pdpi/ir_utils.cc\<close>), the translation of entities between PI and IR in both directions
    (\<open>p4_pdpi/ir.cc\<close>) and the parser of P4 annotations. Shown: what is translated to IR and back
    is a normal form, which a second round trip keeps.
  \<^item> \<open>Ir_Translation\<close>: port and queue names, the formats that OrchAgent expects, and the
    bidirectional port map, which refines a set of pairs.
  \<^item> \<open>P4rt_Write\<close>: the whole \<open>Write\<close> handler. Shown: its guards, the fail-on-first answer, the
    exact effect on the entity cache, and that the action profiles stay within their size as
    long as the updates that succeed form a prefix of the batch, with a counterexample when
    they do not.
  \<^item> \<open>P4rt_Read\<close>, \<open>Packet_Io\<close>: the \<open>Read\<close> and \<open>StreamChannel\<close> handlers, packet-in and packet-out with
    PDPI's translation of packet metadata. The server's lock is held for one message of a stream, so
    \<open>server_step\<close> lets the messages of all streams and the other handlers interleave. Shown: a read
    reports each cached entry of the requested role once, only a primary sends packets, and however
    streams interleave, the connections are those of the open ones.
  \<^item> \<open>References\<close>, \<open>Sequencing\<close>: references between entities (\<open>p4_pdpi/references.cc\<close>,
    \<open>built_ins.cc\<close>), the dependency graph of a batch, its topological sequence of write
    requests, the order by dependency rank and garbage collection (\<open>p4_pdpi/sequencing.cc\<close>,
    \<open>sequencing_util.cc\<close>). Shown: an entity offers a reference exactly if it satisfies it, batches
    contain every update once and after all it depends on, and precisely the entries
    that no root table entry reaches are collected (a root multicast group is not followed).
  \<^item> \<open>P4info\<close>: \<open>CreateIrP4Info\<close> (\<open>p4_pdpi/ir.cc\<close>) with the references between tables that annotations
    declare (\<open>reference_annotations.cc\<close>), dependency ranks, and the removal of unsupported
    entities. Shown: the construction returns, rejects exactly the cyclic references among
    otherwise sound definitions, ranks follow references, and the result meets the
    assumptions of the translation of entities.
  \<^item> \<open>Json_Values\<close>, \<open>Hashing\<close>, \<open>Acl_Definitions\<close>: the hash configuration
    (\<open>sonic/hashing.cc\<close>) and the ACL table definitions (\<open>sonic/app_db_acl_def_table_manager.cc\<close>) that
    are derived from the annotations of the P4 program. Shown: the result does not depend on the
    order in which hash maps are iterated, a definition has a field for each match field and
    action, and composite fields have the width of their elements.
  \<^item> \<open>P4info_Schema\<close>, \<open>P4info_Reconcile\<close>: verification of a P4Info against the supported tables
    (\<open>p4runtime/p4info_verification.cc\<close>, \<open>p4info_verification_schema.cc\<close>) and the transition from one
    P4Info to another (\<open>p4info_reconcile.cc\<close>, \<open>sonic/swss_utils.cc\<close>, \<open>utils/table_utility.cc\<close>). Shown: the
    check accepts exactly the P4Infos whose fixed tables conform to the schema, the transition
    names exactly the configurations and tables that differ, and when new capacities are accepted.
  \<^item> \<open>App_Db_Translation\<close>, \<open>Replication_Entries\<close>, \<open>State_Verification\<close>: table entries and multicast groups as
    rows of the application database and back (\<open>sonic/app_db_to_pdpi_ir_translator.cc\<close>,
    \<open>sonic/packet_replication_entry_translation.cc\<close>), and the comparison of the database with the state
    database and with the entity cache (\<open>sonic/state_verification.cc\<close>). \<open>sonic_translators\<close> instantiates the
    translators that the write path is parametrized with. Shown: entries survive both round trips, and
    verification is silent exactly when the rows are those of the cached entities.
  \<^item> \<open>Packet_Headers\<close>, \<open>Packet_Library\<close>, \<open>Packet_Parsing\<close>: the packet library
    (\<open>src/p4_infra/packetlib\<close>) with its headers, parsing, validation, computed fields, padding and
    serialization. The locale \<open>header_codec\<close> states what the parser of packets needs of the parser
    and serializer of a header; each kind of header is an interpretation. Shown: parsing loses
    no bit and returns, checksums verify, and what validation accepts serializes to its size.
  \<^item> \<open>Text_Env\<close>, \<open>Number_Text\<close>, \<open>String_Encodings\<close>, \<open>Netaddr\<close>, \<open>Bit_Strings\<close>: decimal, hexadecimal
    and byte strings, network addresses as words of their width, bit strings and the readable
    byte string notation. Shown: round trips (as interpretations of \<open>codec\<close>), exact acceptance
    of the parsers, and that orders and masks mean what they should.

  \<^bold>\<open>Parameters.\<close> Code outside the modelled sources is an argument of the definitions that
  call it: the P4 constraint checker (record \<open>p4rt_env\<close>), the text of JSON values (record \<open>app_db_env\<close>), the translators
  of the write path (record \<open>app_db_translators\<close>, with \<open>sonic_translators\<close> as those of the code), \<open>swss::strToStatusCode\<close>, the ZMQ and notification channels and the Redis
  tables (records \<open>sonic_env\<close> and the table adapters), the counters database, UTF-8 validation,
  \<open>inet_pton\<close>, \<open>inet_ntop\<close>, \<open>absl::SimpleAtoi\<close> and \<open>SimpleHexAtoi\<close> (record \<open>text_env\<close>), the order in
  which a hash map or set is iterated, the status of \<open>gutil::GetOneOfFieldName\<close> for an unset
  field, the transport of packets (\<open>PacketIoInterface\<close>), the deterministic protobuf
  serialization. Functions of the C++ standard library, of \<open>absl/strings\<close> and of gutil's
  collections (lookups that report a missing key, insertion of a unique key) with a
  documented result are defined.

  \<^bold>\<open>Conventions.\<close> A status is its code; messages and logging carry no control flow. Hash maps are
  partial functions, ordered maps sorted lists, protobuf messages records of the fields
  that the code reads or writes. Counters that can wrap are words or converted explicitly.
  A process abort (a \<open>StatusOr\<close> dereferenced while it holds an error) or undefined behaviour (an
  element at a negative index) is \<open>None\<close>. Every loop of
  the modelled code terminates; recursion is structural or has a measure. Only the recursion
  over table references, which cyclic references could drive without end, carries a bound on
  its depth, the number of tables; the bound is shown to be always enough.

  \<^bold>\<open>Not modelled.\<close> Message texts, logging, mutexes, timing statistics, gRPC and Redis
  transport, the test infrastructure, the fuzzer, symbolic execution and data plane
  validation. Of the server, the pipeline configuration (its verification and reconciliation are modelled) and
  warm restart.
\<close>

end
